(* ===== verification/Core_Prelude.thy ===== *)
theory Core_Prelude
  imports Main "HOL-Library.Word"
begin

text \<open>
  Results, raises and loops shared by every component.  A Python function that may raise returns
  an \<open>'a res\<close>: \<open>Inl e\<close> is the exception that leaves it, \<open>Inr v\<close> its value.
  \<open>Invariant code\<close> is a \<^verbatim>\<open>DomainInvariantError\<close> (\<^verbatim>\<open>domain/errors.py\<close>) with its stable code; the
  German message that goes with the code is presentation and is left out.  \<open>Board_Error\<close> is its
  subclass \<^verbatim>\<open>DeliveryBoardError\<close> with the HTTP status; \<open>App kind code\<close> is an application error
  (\<^verbatim>\<open>application/errors.py\<close>), with its class as \<open>kind\<close>; \<open>Unique_Violation\<close> is the exception asyncpg raises
  when a row breaks a unique index of \<^verbatim>\<open>migrations/\<close>, \<open>Data_Error\<close> when PostgreSQL cannot hold a value; the other constructors are the built-in exceptions
  the modelled code can raise.
\<close>

datatype app_error =
    Authentication_Required
  | Permission_Denied
  | Resource_Not_Found
  | Conflict
  | Dependency_Unavailable
  | Rate_Limited

datatype err =
    Invariant string
  | Board_Error string int
  | App app_error string
  | Runtime_Error
  | Unique_Violation
  | Data_Error
  | Value_Error
  | Type_Error
  | Key_Error
  | Attribute_Error
  | Recursion_Error
  | Overflow_Error
  | Assertion_Error
  | Invalid_Operation

type_synonym 'a res = "err + 'a"

type_synonym uuid = "128 word"

text \<open>
  \<open>res_simps\<close> collects the rules that take a successful (or failed) result of a chain of guards
  apart; \<open>model_defs\<close> the definitions that a component's lemmas unfold together.
\<close>

named_theorems res_simps
named_theorems model_defs

section \<open>Sequencing\<close>

definition then_res :: "'a res \<Rightarrow> ('a \<Rightarrow> 'b res) \<Rightarrow> 'b res" where
  "then_res r f = (case r of Inl e \<Rightarrow> Inl e | Inr x \<Rightarrow> f x)"

lemma then_res_simps [simp]:
  "then_res (Inl e) f = Inl e"
  "then_res (Inr x) f = f x"
  by (simp_all add: then_res_def)

lemma then_res_Inr_iff [res_simps]:
  "then_res r f = Inr y \<longleftrightarrow> (\<exists>x. r = Inr x \<and> f x = Inr y)"
  by (cases r) simp_all

lemma then_res_Inl_iff [res_simps]:
  "then_res r f = Inl e \<longleftrightarrow> r = Inl e \<or> (\<exists>x. r = Inr x \<and> f x = Inl e)"
  by (cases r) simp_all

lemma if_raise_Inr_iff [res_simps]:
  "(if b then Inl e else r) = Inr y \<longleftrightarrow> \<not> b \<and> r = Inr y"
  by simp

lemma if_guard_Inr_iff [res_simps]:
  "(if b then r else Inl e) = Inr y \<longleftrightarrow> b \<and> r = Inr y"
  by simp

lemma case_res_Inr_iff [res_simps]:
  "(case r of Inl e \<Rightarrow> Inl (f e) | Inr x \<Rightarrow> g x) = Inr y \<longleftrightarrow> (\<exists>x. r = Inr x \<and> g x = Inr y)"
  by (cases r) simp_all

definition raises :: "'a res \<Rightarrow> bool" where
  "raises r \<longleftrightarrow> (case r of Inl _ \<Rightarrow> True | Inr _ \<Rightarrow> False)"

lemma raises_simps [simp]:
  "raises (Inl e)"
  "\<not> raises (Inr x)"
  by (simp_all add: raises_def)

lemma raises_iff: "raises r \<longleftrightarrow> (\<exists>e. r = Inl e)"
  by (cases r) simp_all

lemma not_raises_iff: "\<not> raises r \<longleftrightarrow> (\<exists>x. r = Inr x)"
  by (cases r) simp_all

section \<open>Loops that may raise\<close>

text \<open>\<open>fold_res\<close> runs a statement for every element and stops at the first raise; \<open>map_res\<close> is a
  comprehension whose expression may raise.\<close>

fun fold_res :: "('s \<Rightarrow> 'a \<Rightarrow> 's res) \<Rightarrow> 's \<Rightarrow> 'a list \<Rightarrow> 's res" where
  "fold_res f s [] = Inr s"
| "fold_res f s (x # xs) = then_res (f s x) (\<lambda>t. fold_res f t xs)"

fun map_res :: "('a \<Rightarrow> 'b res) \<Rightarrow> 'a list \<Rightarrow> 'b list res" where
  "map_res f [] = Inr []"
| "map_res f (x # xs) = then_res (f x) (\<lambda>y. then_res (map_res f xs) (\<lambda>ys. Inr (y # ys)))"

lemma fold_res_append:
  "fold_res f s (xs @ ys) = then_res (fold_res f s xs) (\<lambda>t. fold_res f t ys)"
  by (induction xs arbitrary: s) (auto simp: then_res_def split: sum.splits)

lemma fold_res_invariant:
  assumes "fold_res f s xs = Inr t" "P s"
    and "\<And>u x v. P u \<Longrightarrow> x \<in> set xs \<Longrightarrow> f u x = Inr v \<Longrightarrow> P v"
  shows "P t"
  using assms
proof (induction xs arbitrary: s)
  case Nil
  then show ?case by simp
next
  case (Cons x xs)
  from Cons.prems(1) obtain u where u: "f s x = Inr u" "fold_res f u xs = Inr t"
    by (auto simp: res_simps)
  have "P u"
    by (rule Cons.prems(3) [OF Cons.prems(2) _ u(1)]) simp
  then show ?case
    by (rule Cons.IH [OF u(2)]) (rule Cons.prems(3), simp_all)
qed

lemma map_res_Inr_iff:
  "map_res f xs = Inr ys \<longleftrightarrow> list_all2 (\<lambda>x y. f x = Inr y) xs ys"
proof (induction xs arbitrary: ys)
  case Nil
  then show ?case by auto
next
  case (Cons x xs)
  then show ?case by (cases ys) (auto simp: res_simps)
qed

lemma map_res_length: "map_res f xs = Inr ys \<Longrightarrow> length ys = length xs"
  by (auto simp: map_res_Inr_iff dest: list_all2_lengthD)

lemma map_res_pure: "(\<And>x. x \<in> set xs \<Longrightarrow> f x = Inr (g x)) \<Longrightarrow> map_res f xs = Inr (map g xs)"
  by (induction xs) auto

lemma map_res_set:
  "map_res f xs = Inr ys \<Longrightarrow> y \<in> set ys \<Longrightarrow> \<exists>x\<in>set xs. f x = Inr y"
  by (fastforce simp: map_res_Inr_iff list_all2_conv_all_nth in_set_conv_nth)

section \<open>Optional values and duplicates\<close>

definition check_opt :: "('a \<Rightarrow> 'b res) \<Rightarrow> 'a option \<Rightarrow> 'b option res" where
  "check_opt f x = (case x of None \<Rightarrow> Inr None | Some v \<Rightarrow> then_res (f v) (\<lambda>y. Inr (Some y)))"

lemma check_opt_simps [simp]:
  "check_opt f None = Inr None"
  "check_opt f (Some v) = then_res (f v) (\<lambda>y. Inr (Some y))"
  by (simp_all add: check_opt_def)

lemma check_opt_Inr_iff [res_simps]:
  "check_opt f x = Inr y \<longleftrightarrow>
     (x = None \<and> y = None) \<or> (\<exists>v w. x = Some v \<and> y = Some w \<and> f v = Inr w)"
  by (cases x) (auto simp: res_simps)

text \<open>\<^verbatim>\<open>len(xs) != len(set(xs))\<close> is the test for a duplicate.\<close>

definition has_duplicate :: "'a list \<Rightarrow> bool" where
  "has_duplicate xs \<longleftrightarrow> length xs \<noteq> card (set xs)"

lemma has_duplicate_iff: "has_duplicate xs \<longleftrightarrow> \<not> distinct xs"
  by (auto simp: has_duplicate_def distinct_card dest: card_distinct [OF sym])

lemma has_duplicate_Cons [simp]:
  "has_duplicate []  \<longleftrightarrow> False"
  "has_duplicate (x # xs) \<longleftrightarrow> x \<in> set xs \<or> has_duplicate xs"
  by (auto simp: has_duplicate_iff)

end
