(* ===== verification/Py_Unicode.thy ===== *)
theory Py_Unicode
  imports Main
begin

text \<open>
  The part of the Unicode character database (version 15.1, the one of Python 3.13) behind
  \<^verbatim>\<open>str.casefold\<close>, \<^verbatim>\<open>str.upper\<close>, \<^verbatim>\<open>str.isalpha\<close> and \<^verbatim>\<open>int(str)\<close>, for the code points from 128 on; below 128
  the functions of theory Py_Text compute directly.  An entry \<open>(first, last, step, image)\<close> covers
  every \<open>step\<close>-th code point from \<open>first\<close> to \<open>last\<close>; its image is the code point plus a \<open>Delta\<close>,
  or the given list of \<open>Points\<close>.  The entries are grouped in blocks \<open>(first, last, entries)\<close> of
  neighbouring code points.  \<open>decimal_zeros\<close> lists the zero of each run of ten decimal digits,
  \<open>alpha_ranges\<close> the ranges of letters.
\<close>

datatype case_image = Delta int | Points "int list"

type_synonym case_run = "int \<times> int \<times> int \<times> case_image"

definition casefold_blocks :: "(int \<times> int \<times> case_run list) list" where
  "casefold_blocks = [
   (181, 381, [
      (181, 181, 1, Delta 775), (192, 214, 1, Delta 32), (216, 222, 1, Delta 32),
      (223, 223, 1, Points [115, 115]), (256, 302, 2, Delta 1),
      (304, 304, 1, Points [105, 775]), (306, 310, 2, Delta 1), (313, 327, 2, Delta 1),
      (329, 329, 1, Points [700, 110]), (330, 374, 2, Delta 1), (376, 376, 1, Delta (- 121)),
      (377, 381, 2, Delta 1)]),
   (383, 403, [
      (383, 383, 1, Delta (- 268)), (385, 385, 1, Delta 210), (386, 388, 2, Delta 1),
      (390, 390, 1, Delta 206), (391, 391, 1, Delta 1), (393, 394, 1, Delta 205),
      (395, 395, 1, Delta 1), (398, 398, 1, Delta 79), (399, 399, 1, Delta 202),
      (400, 400, 1, Delta 203), (401, 401, 1, Delta 1), (403, 403, 1, Delta 205)]),
   (404, 428, [
      (404, 404, 1, Delta 207), (406, 406, 1, Delta 211), (407, 407, 1, Delta 209),
      (408, 408, 1, Delta 1), (412, 412, 1, Delta 211), (413, 413, 1, Delta 213),
      (415, 415, 1, Delta 214), (416, 420, 2, Delta 1), (422, 422, 1, Delta 218),
      (423, 423, 1, Delta 1), (425, 425, 1, Delta 218), (428, 428, 1, Delta 1)]),
   (430, 458, [
      (430, 430, 1, Delta 218), (431, 431, 1, Delta 1), (433, 434, 1, Delta 217),
      (435, 437, 2, Delta 1), (439, 439, 1, Delta 219), (440, 440, 1, Delta 1),
      (444, 444, 1, Delta 1), (452, 452, 1, Delta 2), (453, 453, 1, Delta 1),
      (455, 455, 1, Delta 2), (456, 456, 1, Delta 1), (458, 458, 1, Delta 2)]),
   (459, 571, [
      (459, 475, 2, Delta 1), (478, 494, 2, Delta 1), (496, 496, 1, Points [106, 780]),
      (497, 497, 1, Delta 2), (498, 500, 2, Delta 1), (502, 502, 1, Delta (- 97)),
      (503, 503, 1, Delta (- 56)), (504, 542, 2, Delta 1), (544, 544, 1, Delta (- 130)),
      (546, 562, 2, Delta 1), (570, 570, 1, Delta 10795), (571, 571, 1, Delta 1)]),
   (573, 590, [
      (573, 573, 1, Delta (- 163)), (574, 574, 1, Delta 10792), (577, 577, 1, Delta 1),
      (579, 579, 1, Delta (- 195)), (580, 580, 1, Delta 69), (581, 581, 1, Delta 71),
      (582, 590, 2, Delta 1)]),
   (837, 944, [
      (837, 837, 1, Delta 116), (880, 882, 2, Delta 1), (886, 886, 1, Delta 1),
      (895, 895, 1, Delta 116), (902, 902, 1, Delta 38), (904, 906, 1, Delta 37),
      (908, 908, 1, Delta 64), (910, 911, 1, Delta 63), (912, 912, 1, Points [953, 776, 769]),
      (913, 929, 1, Delta 32), (931, 939, 1, Delta 32), (944, 944, 1, Points [965, 776, 769])]),
   (962, 1015, [
      (962, 962, 1, Delta 1), (975, 975, 1, Delta 8), (976, 976, 1, Delta (- 30)),
      (977, 977, 1, Delta (- 25)), (981, 981, 1, Delta (- 15)), (982, 982, 1, Delta (- 22)),
      (984, 1006, 2, Delta 1), (1008, 1008, 1, Delta (- 54)), (1009, 1009, 1, Delta (- 48)),
      (1012, 1012, 1, Delta (- 60)), (1013, 1013, 1, Delta (- 64)), (1015, 1015, 1, Delta 1)]),
   (1017, 1415, [
      (1017, 1017, 1, Delta (- 7)), (1018, 1018, 1, Delta 1), (1021, 1023, 1, Delta (- 130)),
      (1024, 1039, 1, Delta 80), (1040, 1071, 1, Delta 32), (1120, 1152, 2, Delta 1),
      (1162, 1214, 2, Delta 1), (1216, 1216, 1, Delta 15), (1217, 1229, 2, Delta 1),
      (1232, 1326, 2, Delta 1), (1329, 1366, 1, Delta 48), (1415, 1415, 1, Points [1381, 1410])]),
   (4256, 4301, [
      (4256, 4293, 1, Delta 7264), (4295, 4295, 1, Delta 7264), (4301, 4301, 1, Delta 7264)]),
   (5112, 5117, [
      (5112, 5117, 1, Delta (- 8))]),
   (7296, 7359, [
      (7296, 7296, 1, Delta (- 6222)), (7297, 7297, 1, Delta (- 6221)),
      (7298, 7298, 1, Delta (- 6212)), (7299, 7300, 1, Delta (- 6210)),
      (7301, 7301, 1, Delta (- 6211)), (7302, 7302, 1, Delta (- 6204)),
      (7303, 7303, 1, Delta (- 6180)), (7304, 7304, 1, Delta 35267),
      (7312, 7354, 1, Delta (- 3008)), (7357, 7359, 1, Delta (- 3008))]),
   (7680, 7983, [
      (7680, 7828, 2, Delta 1), (7830, 7830, 1, Points [104, 817]),
      (7831, 7831, 1, Points [116, 776]), (7832, 7832, 1, Points [119, 778]),
      (7833, 7833, 1, Points [121, 778]), (7834, 7834, 1, Points [97, 702]),
      (7835, 7835, 1, Delta (- 58)), (7838, 7838, 1, Points [115, 115]),
      (7840, 7934, 2, Delta 1), (7944, 7951, 1, Delta (- 8)), (7960, 7965, 1, Delta (- 8)),
      (7976, 7983, 1, Delta (- 8))]),
   (7992, 8067, [
      (7992, 7999, 1, Delta (- 8)), (8008, 8013, 1, Delta (- 8)),
      (8016, 8016, 1, Points [965, 787]), (8018, 8018, 1, Points [965, 787, 768]),
      (8020, 8020, 1, Points [965, 787, 769]), (8022, 8022, 1, Points [965, 787, 834]),
      (8025, 8031, 2, Delta (- 8)), (8040, 8047, 1, Delta (- 8)),
      (8064, 8064, 1, Points [7936, 953]), (8065, 8065, 1, Points [7937, 953]),
      (8066, 8066, 1, Points [7938, 953]), (8067, 8067, 1, Points [7939, 953])]),
   (8068, 8079, [
      (8068, 8068, 1, Points [7940, 953]), (8069, 8069, 1, Points [7941, 953]),
      (8070, 8070, 1, Points [7942, 953]), (8071, 8071, 1, Points [7943, 953]),
      (8072, 8072, 1, Points [7936, 953]), (8073, 8073, 1, Points [7937, 953]),
      (8074, 8074, 1, Points [7938, 953]), (8075, 8075, 1, Points [7939, 953]),
      (8076, 8076, 1, Points [7940, 953]), (8077, 8077, 1, Points [7941, 953]),
      (8078, 8078, 1, Points [7942, 953]), (8079, 8079, 1, Points [7943, 953])]),
   (8080, 8091, [
      (8080, 8080, 1, Points [7968, 953]), (8081, 8081, 1, Points [7969, 953]),
      (8082, 8082, 1, Points [7970, 953]), (8083, 8083, 1, Points [7971, 953]),
      (8084, 8084, 1, Points [7972, 953]), (8085, 8085, 1, Points [7973, 953]),
      (8086, 8086, 1, Points [7974, 953]), (8087, 8087, 1, Points [7975, 953]),
      (8088, 8088, 1, Points [7968, 953]), (8089, 8089, 1, Points [7969, 953]),
      (8090, 8090, 1, Points [7970, 953]), (8091, 8091, 1, Points [7971, 953])]),
   (8092, 8103, [
      (8092, 8092, 1, Points [7972, 953]), (8093, 8093, 1, Points [7973, 953]),
      (8094, 8094, 1, Points [7974, 953]), (8095, 8095, 1, Points [7975, 953]),
      (8096, 8096, 1, Points [8032, 953]), (8097, 8097, 1, Points [8033, 953]),
      (8098, 8098, 1, Points [8034, 953]), (8099, 8099, 1, Points [8035, 953]),
      (8100, 8100, 1, Points [8036, 953]), (8101, 8101, 1, Points [8037, 953]),
      (8102, 8102, 1, Points [8038, 953]), (8103, 8103, 1, Points [8039, 953])]),
   (8104, 8118, [
      (8104, 8104, 1, Points [8032, 953]), (8105, 8105, 1, Points [8033, 953]),
      (8106, 8106, 1, Points [8034, 953]), (8107, 8107, 1, Points [8035, 953]),
      (8108, 8108, 1, Points [8036, 953]), (8109, 8109, 1, Points [8037, 953]),
      (8110, 8110, 1, Points [8038, 953]), (8111, 8111, 1, Points [8039, 953]),
      (8114, 8114, 1, Points [8048, 953]), (8115, 8115, 1, Points [945, 953]),
      (8116, 8116, 1, Points [940, 953]), (8118, 8118, 1, Points [945, 834])]),
   (8119, 8140, [
      (8119, 8119, 1, Points [945, 834, 953]), (8120, 8121, 1, Delta (- 8)),
      (8122, 8123, 1, Delta (- 74)), (8124, 8124, 1, Points [945, 953]),
      (8126, 8126, 1, Delta (- 7173)), (8130, 8130, 1, Points [8052, 953]),
      (8131, 8131, 1, Points [951, 953]), (8132, 8132, 1, Points [942, 953]),
      (8134, 8134, 1, Points [951, 834]), (8135, 8135, 1, Points [951, 834, 953]),
      (8136, 8139, 1, Delta (- 86)), (8140, 8140, 1, Points [951, 953])]),
   (8146, 8169, [
      (8146, 8146, 1, Points [953, 776, 768]), (8147, 8147, 1, Points [953, 776, 769]),
      (8150, 8150, 1, Points [953, 834]), (8151, 8151, 1, Points [953, 776, 834]),
      (8152, 8153, 1, Delta (- 8)), (8154, 8155, 1, Delta (- 100)),
      (8162, 8162, 1, Points [965, 776, 768]), (8163, 8163, 1, Points [965, 776, 769]),
      (8164, 8164, 1, Points [961, 787]), (8166, 8166, 1, Points [965, 834]),
      (8167, 8167, 1, Points [965, 776, 834]), (8168, 8169, 1, Delta (- 8))]),
   (8170, 8188, [
      (8170, 8171, 1, Delta (- 112)), (8172, 8172, 1, Delta (- 7)),
      (8178, 8178, 1, Points [8060, 953]), (8179, 8179, 1, Points [969, 953]),
      (8180, 8180, 1, Points [974, 953]), (8182, 8182, 1, Points [969, 834]),
      (8183, 8183, 1, Points [969, 834, 953]), (8184, 8185, 1, Delta (- 128)),
      (8186, 8187, 1, Delta (- 126)), (8188, 8188, 1, Points [969, 953])]),
   (8486, 8579, [
      (8486, 8486, 1, Delta (- 7517)), (8490, 8490, 1, Delta (- 8383)),
      (8491, 8491, 1, Delta (- 8262)), (8498, 8498, 1, Delta 28), (8544, 8559, 1, Delta 16),
      (8579, 8579, 1, Delta 1)]),
   (9398, 9423, [
      (9398, 9423, 1, Delta 26)]),
   (11264, 11381, [
      (11264, 11311, 1, Delta 48), (11360, 11360, 1, Delta 1),
      (11362, 11362, 1, Delta (- 10743)), (11363, 11363, 1, Delta (- 3814)),
      (11364, 11364, 1, Delta (- 10727)), (11367, 11371, 2, Delta 1),
      (11373, 11373, 1, Delta (- 10780)), (11374, 11374, 1, Delta (- 10749)),
      (11375, 11375, 1, Delta (- 10783)), (11376, 11376, 1, Delta (- 10782)),
      (11378, 11378, 1, Delta 1), (11381, 11381, 1, Delta 1)]),
   (11390, 11506, [
      (11390, 11391, 1, Delta (- 10815)), (11392, 11490, 2, Delta 1),
      (11499, 11501, 2, Delta 1), (11506, 11506, 1, Delta 1)]),
   (42560, 42650, [
      (42560, 42604, 2, Delta 1), (42624, 42650, 2, Delta 1)]),
   (42786, 42924, [
      (42786, 42798, 2, Delta 1), (42802, 42862, 2, Delta 1), (42873, 42875, 2, Delta 1),
      (42877, 42877, 1, Delta (- 35332)), (42878, 42886, 2, Delta 1),
      (42891, 42891, 1, Delta 1), (42893, 42893, 1, Delta (- 42280)),
      (42896, 42898, 2, Delta 1), (42902, 42920, 2, Delta 1),
      (42922, 42922, 1, Delta (- 42308)), (42923, 42923, 1, Delta (- 42319)),
      (42924, 42924, 1, Delta (- 42315))]),
   (42925, 42960, [
      (42925, 42925, 1, Delta (- 42305)), (42926, 42926, 1, Delta (- 42308)),
      (42928, 42928, 1, Delta (- 42258)), (42929, 42929, 1, Delta (- 42282)),
      (42930, 42930, 1, Delta (- 42261)), (42931, 42931, 1, Delta 928),
      (42932, 42946, 2, Delta 1), (42948, 42948, 1, Delta (- 48)),
      (42949, 42949, 1, Delta (- 42307)), (42950, 42950, 1, Delta (- 35384)),
      (42951, 42953, 2, Delta 1), (42960, 42960, 1, Delta 1)]),
   (42966, 42997, [
      (42966, 42968, 2, Delta 1), (42997, 42997, 1, Delta 1)]),
   (43888, 43967, [
      (43888, 43967, 1, Delta (- 38864))]),
   (64256, 64279, [
      (64256, 64256, 1, Points [102, 102]), (64257, 64257, 1, Points [102, 105]),
      (64258, 64258, 1, Points [102, 108]), (64259, 64259, 1, Points [102, 102, 105]),
      (64260, 64260, 1, Points [102, 102, 108]), (64261, 64261, 1, Points [115, 116]),
      (64262, 64262, 1, Points [115, 116]), (64275, 64275, 1, Points [1396, 1398]),
      (64276, 64276, 1, Points [1396, 1381]), (64277, 64277, 1, Points [1396, 1387]),
      (64278, 64278, 1, Points [1406, 1398]), (64279, 64279, 1, Points [1396, 1389])]),
   (65313, 65338, [
      (65313, 65338, 1, Delta 32)]),
   (66560, 66599, [
      (66560, 66599, 1, Delta 40)]),
   (66736, 66771, [
      (66736, 66771, 1, Delta 40)]),
   (66928, 66965, [
      (66928, 66938, 1, Delta 39), (66940, 66954, 1, Delta 39), (66956, 66962, 1, Delta 39),
      (66964, 66965, 1, Delta 39)]),
   (68736, 68786, [
      (68736, 68786, 1, Delta 64)]),
   (71840, 71871, [
      (71840, 71871, 1, Delta 32)]),
   (93760, 93791, [
      (93760, 93791, 1, Delta 32)]),
   (125184, 125217, [
      (125184, 125217, 1, Delta 34)])]"

definition upper_blocks :: "(int \<times> int \<times> case_run list) list" where
  "upper_blocks = [
   (181, 382, [
      (181, 181, 1, Delta 743), (223, 223, 1, Points [83, 83]), (224, 246, 1, Delta (- 32)),
      (248, 254, 1, Delta (- 32)), (255, 255, 1, Delta 121), (257, 303, 2, Delta (- 1)),
      (305, 305, 1, Delta (- 232)), (307, 311, 2, Delta (- 1)), (314, 328, 2, Delta (- 1)),
      (329, 329, 1, Points [700, 78]), (331, 375, 2, Delta (- 1)), (378, 382, 2, Delta (- 1))]),
   (383, 424, [
      (383, 383, 1, Delta (- 300)), (384, 384, 1, Delta 195), (387, 389, 2, Delta (- 1)),
      (392, 392, 1, Delta (- 1)), (396, 396, 1, Delta (- 1)), (402, 402, 1, Delta (- 1)),
      (405, 405, 1, Delta 97), (409, 409, 1, Delta (- 1)), (410, 410, 1, Delta 163),
      (414, 414, 1, Delta 130), (417, 421, 2, Delta (- 1)), (424, 424, 1, Delta (- 1))]),
   (429, 460, [
      (429, 429, 1, Delta (- 1)), (432, 432, 1, Delta (- 1)), (436, 438, 2, Delta (- 1)),
      (441, 441, 1, Delta (- 1)), (445, 445, 1, Delta (- 1)), (447, 447, 1, Delta 56),
      (453, 453, 1, Delta (- 1)), (454, 454, 1, Delta (- 2)), (456, 456, 1, Delta (- 1)),
      (457, 457, 1, Delta (- 2)), (459, 459, 1, Delta (- 1)), (460, 460, 1, Delta (- 2))]),
   (462, 578, [
      (462, 476, 2, Delta (- 1)), (477, 477, 1, Delta (- 79)), (479, 495, 2, Delta (- 1)),
      (496, 496, 1, Points [74, 780]), (498, 498, 1, Delta (- 1)), (499, 499, 1, Delta (- 2)),
      (501, 501, 1, Delta (- 1)), (505, 543, 2, Delta (- 1)), (547, 563, 2, Delta (- 1)),
      (572, 572, 1, Delta (- 1)), (575, 576, 1, Delta 10815), (578, 578, 1, Delta (- 1))]),
   (583, 609, [
      (583, 591, 2, Delta (- 1)), (592, 592, 1, Delta 10783), (593, 593, 1, Delta 10780),
      (594, 594, 1, Delta 10782), (595, 595, 1, Delta (- 210)), (596, 596, 1, Delta (- 206)),
      (598, 599, 1, Delta (- 205)), (601, 601, 1, Delta (- 202)), (603, 603, 1, Delta (- 203)),
      (604, 604, 1, Delta 42319), (608, 608, 1, Delta (- 205)), (609, 609, 1, Delta 42315)]),
   (611, 629, [
      (611, 611, 1, Delta (- 207)), (613, 613, 1, Delta 42280), (614, 614, 1, Delta 42308),
      (616, 616, 1, Delta (- 209)), (617, 617, 1, Delta (- 211)), (618, 618, 1, Delta 42308),
      (619, 619, 1, Delta 10743), (620, 620, 1, Delta 42305), (623, 623, 1, Delta (- 211)),
      (625, 625, 1, Delta 10749), (626, 626, 1, Delta (- 213)), (629, 629, 1, Delta (- 214))]),
   (637, 670, [
      (637, 637, 1, Delta 10727), (640, 640, 1, Delta (- 218)), (642, 642, 1, Delta 42307),
      (643, 643, 1, Delta (- 218)), (647, 647, 1, Delta 42282), (648, 648, 1, Delta (- 218)),
      (649, 649, 1, Delta (- 69)), (650, 651, 1, Delta (- 217)), (652, 652, 1, Delta (- 71)),
      (658, 658, 1, Delta (- 219)), (669, 669, 1, Delta 42261), (670, 670, 1, Delta 42258)]),
   (837, 972, [
      (837, 837, 1, Delta 84), (881, 883, 2, Delta (- 1)), (887, 887, 1, Delta (- 1)),
      (891, 893, 1, Delta 130), (912, 912, 1, Points [921, 776, 769]),
      (940, 940, 1, Delta (- 38)), (941, 943, 1, Delta (- 37)),
      (944, 944, 1, Points [933, 776, 769]), (945, 961, 1, Delta (- 32)),
      (962, 962, 1, Delta (- 31)), (963, 971, 1, Delta (- 32)), (972, 972, 1, Delta (- 64))]),
   (973, 1013, [
      (973, 974, 1, Delta (- 63)), (976, 976, 1, Delta (- 62)), (977, 977, 1, Delta (- 57)),
      (981, 981, 1, Delta (- 47)), (982, 982, 1, Delta (- 54)), (983, 983, 1, Delta (- 8)),
      (985, 1007, 2, Delta (- 1)), (1008, 1008, 1, Delta (- 86)),
      (1009, 1009, 1, Delta (- 80)), (1010, 1010, 1, Delta 7), (1011, 1011, 1, Delta (- 116)),
      (1013, 1013, 1, Delta (- 96))]),
   (1016, 1415, [
      (1016, 1016, 1, Delta (- 1)), (1019, 1019, 1, Delta (- 1)),
      (1072, 1103, 1, Delta (- 32)), (1104, 1119, 1, Delta (- 80)),
      (1121, 1153, 2, Delta (- 1)), (1163, 1215, 2, Delta (- 1)), (1218, 1230, 2, Delta (- 1)),
      (1231, 1231, 1, Delta (- 15)), (1233, 1327, 2, Delta (- 1)),
      (1377, 1414, 1, Delta (- 48)), (1415, 1415, 1, Points [1333, 1362])]),
   (4304, 4351, [
      (4304, 4346, 1, Delta 3008), (4349, 4351, 1, Delta 3008)]),
   (5112, 5117, [
      (5112, 5117, 1, Delta (- 8))]),
   (7296, 7304, [
      (7296, 7296, 1, Delta (- 6254)), (7297, 7297, 1, Delta (- 6253)),
      (7298, 7298, 1, Delta (- 6244)), (7299, 7300, 1, Delta (- 6242)),
      (7301, 7301, 1, Delta (- 6243)), (7302, 7302, 1, Delta (- 6236)),
      (7303, 7303, 1, Delta (- 6181)), (7304, 7304, 1, Delta 35266)]),
   (7545, 7566, [
      (7545, 7545, 1, Delta 35332), (7549, 7549, 1, Delta 3814), (7566, 7566, 1, Delta 35384)]),
   (7681, 7991, [
      (7681, 7829, 2, Delta (- 1)), (7830, 7830, 1, Points [72, 817]),
      (7831, 7831, 1, Points [84, 776]), (7832, 7832, 1, Points [87, 778]),
      (7833, 7833, 1, Points [89, 778]), (7834, 7834, 1, Points [65, 702]),
      (7835, 7835, 1, Delta (- 59)), (7841, 7935, 2, Delta (- 1)), (7936, 7943, 1, Delta 8),
      (7952, 7957, 1, Delta 8), (7968, 7975, 1, Delta 8), (7984, 7991, 1, Delta 8)]),
   (8000, 8059, [
      (8000, 8005, 1, Delta 8), (8016, 8016, 1, Points [933, 787]), (8017, 8023, 2, Delta 8),
      (8018, 8018, 1, Points [933, 787, 768]), (8020, 8020, 1, Points [933, 787, 769]),
      (8022, 8022, 1, Points [933, 787, 834]), (8032, 8039, 1, Delta 8),
      (8048, 8049, 1, Delta 74), (8050, 8053, 1, Delta 86), (8054, 8055, 1, Delta 100),
      (8056, 8057, 1, Delta 128), (8058, 8059, 1, Delta 112)]),
   (8060, 8074, [
      (8060, 8061, 1, Delta 126), (8064, 8064, 1, Points [7944, 921]),
      (8065, 8065, 1, Points [7945, 921]), (8066, 8066, 1, Points [7946, 921]),
      (8067, 8067, 1, Points [7947, 921]), (8068, 8068, 1, Points [7948, 921]),
      (8069, 8069, 1, Points [7949, 921]), (8070, 8070, 1, Points [7950, 921]),
      (8071, 8071, 1, Points [7951, 921]), (8072, 8072, 1, Points [7944, 921]),
      (8073, 8073, 1, Points [7945, 921]), (8074, 8074, 1, Points [7946, 921])]),
   (8075, 8086, [
      (8075, 8075, 1, Points [7947, 921]), (8076, 8076, 1, Points [7948, 921]),
      (8077, 8077, 1, Points [7949, 921]), (8078, 8078, 1, Points [7950, 921]),
      (8079, 8079, 1, Points [7951, 921]), (8080, 8080, 1, Points [7976, 921]),
      (8081, 8081, 1, Points [7977, 921]), (8082, 8082, 1, Points [7978, 921]),
      (8083, 8083, 1, Points [7979, 921]), (8084, 8084, 1, Points [7980, 921]),
      (8085, 8085, 1, Points [7981, 921]), (8086, 8086, 1, Points [7982, 921])]),
   (8087, 8098, [
      (8087, 8087, 1, Points [7983, 921]), (8088, 8088, 1, Points [7976, 921]),
      (8089, 8089, 1, Points [7977, 921]), (8090, 8090, 1, Points [7978, 921]),
      (8091, 8091, 1, Points [7979, 921]), (8092, 8092, 1, Points [7980, 921]),
      (8093, 8093, 1, Points [7981, 921]), (8094, 8094, 1, Points [7982, 921]),
      (8095, 8095, 1, Points [7983, 921]), (8096, 8096, 1, Points [8040, 921]),
      (8097, 8097, 1, Points [8041, 921]), (8098, 8098, 1, Points [8042, 921])]),
   (8099, 8110, [
      (8099, 8099, 1, Points [8043, 921]), (8100, 8100, 1, Points [8044, 921]),
      (8101, 8101, 1, Points [8045, 921]), (8102, 8102, 1, Points [8046, 921]),
      (8103, 8103, 1, Points [8047, 921]), (8104, 8104, 1, Points [8040, 921]),
      (8105, 8105, 1, Points [8041, 921]), (8106, 8106, 1, Points [8042, 921]),
      (8107, 8107, 1, Points [8043, 921]), (8108, 8108, 1, Points [8044, 921]),
      (8109, 8109, 1, Points [8045, 921]), (8110, 8110, 1, Points [8046, 921])]),
   (8111, 8132, [
      (8111, 8111, 1, Points [8047, 921]), (8112, 8113, 1, Delta 8),
      (8114, 8114, 1, Points [8122, 921]), (8115, 8115, 1, Points [913, 921]),
      (8116, 8116, 1, Points [902, 921]), (8118, 8118, 1, Points [913, 834]),
      (8119, 8119, 1, Points [913, 834, 921]), (8124, 8124, 1, Points [913, 921]),
      (8126, 8126, 1, Delta (- 7205)), (8130, 8130, 1, Points [8138, 921]),
      (8131, 8131, 1, Points [919, 921]), (8132, 8132, 1, Points [905, 921])]),
   (8134, 8164, [
      (8134, 8134, 1, Points [919, 834]), (8135, 8135, 1, Points [919, 834, 921]),
      (8140, 8140, 1, Points [919, 921]), (8144, 8145, 1, Delta 8),
      (8146, 8146, 1, Points [921, 776, 768]), (8147, 8147, 1, Points [921, 776, 769]),
      (8150, 8150, 1, Points [921, 834]), (8151, 8151, 1, Points [921, 776, 834]),
      (8160, 8161, 1, Delta 8), (8162, 8162, 1, Points [933, 776, 768]),
      (8163, 8163, 1, Points [933, 776, 769]), (8164, 8164, 1, Points [929, 787])]),
   (8165, 8188, [
      (8165, 8165, 1, Delta 7), (8166, 8166, 1, Points [933, 834]),
      (8167, 8167, 1, Points [933, 776, 834]), (8178, 8178, 1, Points [8186, 921]),
      (8179, 8179, 1, Points [937, 921]), (8180, 8180, 1, Points [911, 921]),
      (8182, 8182, 1, Points [937, 834]), (8183, 8183, 1, Points [937, 834, 921]),
      (8188, 8188, 1, Points [937, 921])]),
   (8526, 8580, [
      (8526, 8526, 1, Delta (- 28)), (8560, 8575, 1, Delta (- 16)),
      (8580, 8580, 1, Delta (- 1))]),
   (9424, 9449, [
      (9424, 9449, 1, Delta (- 26))]),
   (11312, 11559, [
      (11312, 11359, 1, Delta (- 48)), (11361, 11361, 1, Delta (- 1)),
      (11365, 11365, 1, Delta (- 10795)), (11366, 11366, 1, Delta (- 10792)),
      (11368, 11372, 2, Delta (- 1)), (11379, 11379, 1, Delta (- 1)),
      (11382, 11382, 1, Delta (- 1)), (11393, 11491, 2, Delta (- 1)),
      (11500, 11502, 2, Delta (- 1)), (11507, 11507, 1, Delta (- 1)),
      (11520, 11557, 1, Delta (- 7264)), (11559, 11559, 1, Delta (- 7264))]),
   (11565, 11565, [
      (11565, 11565, 1, Delta (- 7264))]),
   (42561, 42651, [
      (42561, 42605, 2, Delta (- 1)), (42625, 42651, 2, Delta (- 1))]),
   (42787, 42969, [
      (42787, 42799, 2, Delta (- 1)), (42803, 42863, 2, Delta (- 1)),
      (42874, 42876, 2, Delta (- 1)), (42879, 42887, 2, Delta (- 1)),
      (42892, 42892, 1, Delta (- 1)), (42897, 42899, 2, Delta (- 1)),
      (42900, 42900, 1, Delta 48), (42903, 42921, 2, Delta (- 1)),
      (42933, 42947, 2, Delta (- 1)), (42952, 42954, 2, Delta (- 1)),
      (42961, 42961, 1, Delta (- 1)), (42967, 42969, 2, Delta (- 1))]),
   (42998, 42998, [
      (42998, 42998, 1, Delta (- 1))]),
   (43859, 43967, [
      (43859, 43859, 1, Delta (- 928)), (43888, 43967, 1, Delta (- 38864))]),
   (64256, 64279, [
      (64256, 64256, 1, Points [70, 70]), (64257, 64257, 1, Points [70, 73]),
      (64258, 64258, 1, Points [70, 76]), (64259, 64259, 1, Points [70, 70, 73]),
      (64260, 64260, 1, Points [70, 70, 76]), (64261, 64261, 1, Points [83, 84]),
      (64262, 64262, 1, Points [83, 84]), (64275, 64275, 1, Points [1348, 1350]),
      (64276, 64276, 1, Points [1348, 1333]), (64277, 64277, 1, Points [1348, 1339]),
      (64278, 64278, 1, Points [1358, 1350]), (64279, 64279, 1, Points [1348, 1341])]),
   (65345, 65370, [
      (65345, 65370, 1, Delta (- 32))]),
   (66600, 66639, [
      (66600, 66639, 1, Delta (- 40))]),
   (66776, 66811, [
      (66776, 66811, 1, Delta (- 40))]),
   (66967, 67004, [
      (66967, 66977, 1, Delta (- 39)), (66979, 66993, 1, Delta (- 39)),
      (66995, 67001, 1, Delta (- 39)), (67003, 67004, 1, Delta (- 39))]),
   (68800, 68850, [
      (68800, 68850, 1, Delta (- 64))]),
   (71872, 71903, [
      (71872, 71903, 1, Delta (- 32))]),
   (93792, 93823, [
      (93792, 93823, 1, Delta (- 32))]),
   (125218, 125251, [
      (125218, 125251, 1, Delta (- 34))])]"

definition decimal_zeros :: "int list" where
  "decimal_zeros = [
   1632, 1776, 1984, 2406, 2534, 2662, 2790, 2918, 3046, 3174, 3302, 3430, 3558, 3664, 3792,
   3872, 4160, 4240, 6112, 6160, 6470, 6608, 6784, 6800, 6992, 7088, 7232, 7248, 42528, 43216,
   43264, 43472, 43504, 43600, 44016, 65296, 66720, 68912, 69734, 69872, 69942, 70096, 70384,
   70736, 70864, 71248, 71360, 71472, 71904, 72016, 72784, 73040, 73120, 73552, 92768, 92864,
   93008, 120782, 120792, 120802, 120812, 120822, 123200, 123632, 124144, 125264, 130032]"

definition alpha_ranges :: "(int \<times> int) list" where
  "alpha_ranges = [
   (170, 170), (181, 181), (186, 186), (192, 214), (216, 246), (248, 705), (710, 721),
   (736, 740), (748, 748), (750, 750), (880, 884), (886, 887), (890, 893), (895, 895),
   (902, 902), (904, 906), (908, 908), (910, 929), (931, 1013), (1015, 1153), (1162, 1327),
   (1329, 1366), (1369, 1369), (1376, 1416), (1488, 1514), (1519, 1522), (1568, 1610),
   (1646, 1647), (1649, 1747), (1749, 1749), (1765, 1766), (1774, 1775), (1786, 1788),
   (1791, 1791), (1808, 1808), (1810, 1839), (1869, 1957), (1969, 1969), (1994, 2026),
   (2036, 2037), (2042, 2042), (2048, 2069), (2074, 2074), (2084, 2084), (2088, 2088),
   (2112, 2136), (2144, 2154), (2160, 2183), (2185, 2190), (2208, 2249), (2308, 2361),
   (2365, 2365), (2384, 2384), (2392, 2401), (2417, 2432), (2437, 2444), (2447, 2448),
   (2451, 2472), (2474, 2480), (2482, 2482), (2486, 2489), (2493, 2493), (2510, 2510),
   (2524, 2525), (2527, 2529), (2544, 2545), (2556, 2556), (2565, 2570), (2575, 2576),
   (2579, 2600), (2602, 2608), (2610, 2611), (2613, 2614), (2616, 2617), (2649, 2652),
   (2654, 2654), (2674, 2676), (2693, 2701), (2703, 2705), (2707, 2728), (2730, 2736),
   (2738, 2739), (2741, 2745), (2749, 2749), (2768, 2768), (2784, 2785), (2809, 2809),
   (2821, 2828), (2831, 2832), (2835, 2856), (2858, 2864), (2866, 2867), (2869, 2873),
   (2877, 2877), (2908, 2909), (2911, 2913), (2929, 2929), (2947, 2947), (2949, 2954),
   (2958, 2960), (2962, 2965), (2969, 2970), (2972, 2972), (2974, 2975), (2979, 2980),
   (2984, 2986), (2990, 3001), (3024, 3024), (3077, 3084), (3086, 3088), (3090, 3112),
   (3114, 3129), (3133, 3133), (3160, 3162), (3165, 3165), (3168, 3169), (3200, 3200),
   (3205, 3212), (3214, 3216), (3218, 3240), (3242, 3251), (3253, 3257), (3261, 3261),
   (3293, 3294), (3296, 3297), (3313, 3314), (3332, 3340), (3342, 3344), (3346, 3386),
   (3389, 3389), (3406, 3406), (3412, 3414), (3423, 3425), (3450, 3455), (3461, 3478),
   (3482, 3505), (3507, 3515), (3517, 3517), (3520, 3526), (3585, 3632), (3634, 3635),
   (3648, 3654), (3713, 3714), (3716, 3716), (3718, 3722), (3724, 3747), (3749, 3749),
   (3751, 3760), (3762, 3763), (3773, 3773), (3776, 3780), (3782, 3782), (3804, 3807),
   (3840, 3840), (3904, 3911), (3913, 3948), (3976, 3980), (4096, 4138), (4159, 4159),
   (4176, 4181), (4186, 4189), (4193, 4193), (4197, 4198), (4206, 4208), (4213, 4225),
   (4238, 4238), (4256, 4293), (4295, 4295), (4301, 4301), (4304, 4346), (4348, 4680),
   (4682, 4685), (4688, 4694), (4696, 4696), (4698, 4701), (4704, 4744), (4746, 4749),
   (4752, 4784), (4786, 4789), (4792, 4798), (4800, 4800), (4802, 4805), (4808, 4822),
   (4824, 4880), (4882, 4885), (4888, 4954), (4992, 5007), (5024, 5109), (5112, 5117),
   (5121, 5740), (5743, 5759), (5761, 5786), (5792, 5866), (5873, 5880), (5888, 5905),
   (5919, 5937), (5952, 5969), (5984, 5996), (5998, 6000), (6016, 6067), (6103, 6103),
   (6108, 6108), (6176, 6264), (6272, 6276), (6279, 6312), (6314, 6314), (6320, 6389),
   (6400, 6430), (6480, 6509), (6512, 6516), (6528, 6571), (6576, 6601), (6656, 6678),
   (6688, 6740), (6823, 6823), (6917, 6963), (6981, 6988), (7043, 7072), (7086, 7087),
   (7098, 7141), (7168, 7203), (7245, 7247), (7258, 7293), (7296, 7304), (7312, 7354),
   (7357, 7359), (7401, 7404), (7406, 7411), (7413, 7414), (7418, 7418), (7424, 7615),
   (7680, 7957), (7960, 7965), (7968, 8005), (8008, 8013), (8016, 8023), (8025, 8025),
   (8027, 8027), (8029, 8029), (8031, 8061), (8064, 8116), (8118, 8124), (8126, 8126),
   (8130, 8132), (8134, 8140), (8144, 8147), (8150, 8155), (8160, 8172), (8178, 8180),
   (8182, 8188), (8305, 8305), (8319, 8319), (8336, 8348), (8450, 8450), (8455, 8455),
   (8458, 8467), (8469, 8469), (8473, 8477), (8484, 8484), (8486, 8486), (8488, 8488),
   (8490, 8493), (8495, 8505), (8508, 8511), (8517, 8521), (8526, 8526), (8579, 8580),
   (11264, 11492), (11499, 11502), (11506, 11507), (11520, 11557), (11559, 11559),
   (11565, 11565), (11568, 11623), (11631, 11631), (11648, 11670), (11680, 11686),
   (11688, 11694), (11696, 11702), (11704, 11710), (11712, 11718), (11720, 11726),
   (11728, 11734), (11736, 11742), (11823, 11823), (12293, 12294), (12337, 12341),
   (12347, 12348), (12353, 12438), (12445, 12447), (12449, 12538), (12540, 12543),
   (12549, 12591), (12593, 12686), (12704, 12735), (12784, 12799), (13312, 19903),
   (19968, 42124), (42192, 42237), (42240, 42508), (42512, 42527), (42538, 42539),
   (42560, 42606), (42623, 42653), (42656, 42725), (42775, 42783), (42786, 42888),
   (42891, 42954), (42960, 42961), (42963, 42963), (42965, 42969), (42994, 43009),
   (43011, 43013), (43015, 43018), (43020, 43042), (43072, 43123), (43138, 43187),
   (43250, 43255), (43259, 43259), (43261, 43262), (43274, 43301), (43312, 43334),
   (43360, 43388), (43396, 43442), (43471, 43471), (43488, 43492), (43494, 43503),
   (43514, 43518), (43520, 43560), (43584, 43586), (43588, 43595), (43616, 43638),
   (43642, 43642), (43646, 43695), (43697, 43697), (43701, 43702), (43705, 43709),
   (43712, 43712), (43714, 43714), (43739, 43741), (43744, 43754), (43762, 43764),
   (43777, 43782), (43785, 43790), (43793, 43798), (43808, 43814), (43816, 43822),
   (43824, 43866), (43868, 43881), (43888, 44002), (44032, 55203), (55216, 55238),
   (55243, 55291), (63744, 64109), (64112, 64217), (64256, 64262), (64275, 64279),
   (64285, 64285), (64287, 64296), (64298, 64310), (64312, 64316), (64318, 64318),
   (64320, 64321), (64323, 64324), (64326, 64433), (64467, 64829), (64848, 64911),
   (64914, 64967), (65008, 65019), (65136, 65140), (65142, 65276), (65313, 65338),
   (65345, 65370), (65382, 65470), (65474, 65479), (65482, 65487), (65490, 65495),
   (65498, 65500), (65536, 65547), (65549, 65574), (65576, 65594), (65596, 65597),
   (65599, 65613), (65616, 65629), (65664, 65786), (66176, 66204), (66208, 66256),
   (66304, 66335), (66349, 66368), (66370, 66377), (66384, 66421), (66432, 66461),
   (66464, 66499), (66504, 66511), (66560, 66717), (66736, 66771), (66776, 66811),
   (66816, 66855), (66864, 66915), (66928, 66938), (66940, 66954), (66956, 66962),
   (66964, 66965), (66967, 66977), (66979, 66993), (66995, 67001), (67003, 67004),
   (67072, 67382), (67392, 67413), (67424, 67431), (67456, 67461), (67463, 67504),
   (67506, 67514), (67584, 67589), (67592, 67592), (67594, 67637), (67639, 67640),
   (67644, 67644), (67647, 67669), (67680, 67702), (67712, 67742), (67808, 67826),
   (67828, 67829), (67840, 67861), (67872, 67897), (67968, 68023), (68030, 68031),
   (68096, 68096), (68112, 68115), (68117, 68119), (68121, 68149), (68192, 68220),
   (68224, 68252), (68288, 68295), (68297, 68324), (68352, 68405), (68416, 68437),
   (68448, 68466), (68480, 68497), (68608, 68680), (68736, 68786), (68800, 68850),
   (68864, 68899), (69248, 69289), (69296, 69297), (69376, 69404), (69415, 69415),
   (69424, 69445), (69488, 69505), (69552, 69572), (69600, 69622), (69635, 69687),
   (69745, 69746), (69749, 69749), (69763, 69807), (69840, 69864), (69891, 69926),
   (69956, 69956), (69959, 69959), (69968, 70002), (70006, 70006), (70019, 70066),
   (70081, 70084), (70106, 70106), (70108, 70108), (70144, 70161), (70163, 70187),
   (70207, 70208), (70272, 70278), (70280, 70280), (70282, 70285), (70287, 70301),
   (70303, 70312), (70320, 70366), (70405, 70412), (70415, 70416), (70419, 70440),
   (70442, 70448), (70450, 70451), (70453, 70457), (70461, 70461), (70480, 70480),
   (70493, 70497), (70656, 70708), (70727, 70730), (70751, 70753), (70784, 70831),
   (70852, 70853), (70855, 70855), (71040, 71086), (71128, 71131), (71168, 71215),
   (71236, 71236), (71296, 71338), (71352, 71352), (71424, 71450), (71488, 71494),
   (71680, 71723), (71840, 71903), (71935, 71942), (71945, 71945), (71948, 71955),
   (71957, 71958), (71960, 71983), (71999, 71999), (72001, 72001), (72096, 72103),
   (72106, 72144), (72161, 72161), (72163, 72163), (72192, 72192), (72203, 72242),
   (72250, 72250), (72272, 72272), (72284, 72329), (72349, 72349), (72368, 72440),
   (72704, 72712), (72714, 72750), (72768, 72768), (72818, 72847), (72960, 72966),
   (72968, 72969), (72971, 73008), (73030, 73030), (73056, 73061), (73063, 73064),
   (73066, 73097), (73112, 73112), (73440, 73458), (73474, 73474), (73476, 73488),
   (73490, 73523), (73648, 73648), (73728, 74649), (74880, 75075), (77712, 77808),
   (77824, 78895), (78913, 78918), (82944, 83526), (92160, 92728), (92736, 92766),
   (92784, 92862), (92880, 92909), (92928, 92975), (92992, 92995), (93027, 93047),
   (93053, 93071), (93760, 93823), (93952, 94026), (94032, 94032), (94099, 94111),
   (94176, 94177), (94179, 94179), (94208, 100343), (100352, 101589), (101632, 101640),
   (110576, 110579), (110581, 110587), (110589, 110590), (110592, 110882), (110898, 110898),
   (110928, 110930), (110933, 110933), (110948, 110951), (110960, 111355), (113664, 113770),
   (113776, 113788), (113792, 113800), (113808, 113817), (119808, 119892), (119894, 119964),
   (119966, 119967), (119970, 119970), (119973, 119974), (119977, 119980), (119982, 119993),
   (119995, 119995), (119997, 120003), (120005, 120069), (120071, 120074), (120077, 120084),
   (120086, 120092), (120094, 120121), (120123, 120126), (120128, 120132), (120134, 120134),
   (120138, 120144), (120146, 120485), (120488, 120512), (120514, 120538), (120540, 120570),
   (120572, 120596), (120598, 120628), (120630, 120654), (120656, 120686), (120688, 120712),
   (120714, 120744), (120746, 120770), (120772, 120779), (122624, 122654), (122661, 122666),
   (122928, 122989), (123136, 123180), (123191, 123197), (123214, 123214), (123536, 123565),
   (123584, 123627), (124112, 124139), (124896, 124902), (124904, 124907), (124909, 124910),
   (124912, 124926), (124928, 125124), (125184, 125251), (125259, 125259), (126464, 126467),
   (126469, 126495), (126497, 126498), (126500, 126500), (126503, 126503), (126505, 126514),
   (126516, 126519), (126521, 126521), (126523, 126523), (126530, 126530), (126535, 126535),
   (126537, 126537), (126539, 126539), (126541, 126543), (126545, 126546), (126548, 126548),
   (126551, 126551), (126553, 126553), (126555, 126555), (126557, 126557), (126559, 126559),
   (126561, 126562), (126564, 126564), (126567, 126570), (126572, 126578), (126580, 126583),
   (126585, 126588), (126590, 126590), (126592, 126601), (126603, 126619), (126625, 126627),
   (126629, 126633), (126635, 126651), (131072, 173791), (173824, 177977), (177984, 178205),
   (178208, 183969), (183984, 191456), (191472, 192093), (194560, 195101), (196608, 201546),
   (201552, 205743)]"

end
