(* ===== verification/Py_Text.thy ===== *)
theory Py_Text
  imports Core_Prelude Py_Unicode
begin

text \<open>
  Python strings as lists of Unicode code points, with the methods of \<^verbatim>\<open>str\<close> the program uses
  (\<^verbatim>\<open>split\<close>, \<^verbatim>\<open>strip\<close>, \<^verbatim>\<open>join\<close>, \<^verbatim>\<open>casefold\<close>, \<^verbatim>\<open>upper\<close>, \<^verbatim>\<open>count\<close>, \<^verbatim>\<open>replace\<close>), \<^verbatim>\<open>int(str)\<close>, the
  formatting of integers, and the text form of a \<^verbatim>\<open>UUID\<close>.  \<open>len\<close> counts code points, as Python does.
  A literal is written \<open>lit ''...''\<close>.
\<close>

type_synonym pystr = "int list"

definition lit :: "string \<Rightarrow> pystr" where
  "lit s = map of_char s"

section \<open>White space\<close>

definition is_space :: "int \<Rightarrow> bool" where
  "is_space c \<longleftrightarrow> 9 \<le> c \<and> c \<le> 13 \<or> 28 \<le> c \<and> c \<le> 32 \<or> c = 133 \<or> c = 160 \<or> c = 5760
     \<or> 8192 \<le> c \<and> c \<le> 8202 \<or> c = 8232 \<or> c = 8233 \<or> c = 8239 \<or> c = 8287 \<or> c = 12288"

definition has_space :: "pystr \<Rightarrow> bool" where
  "has_space s \<longleftrightarrow> list_ex is_space s"

definition lstrip :: "pystr \<Rightarrow> pystr" where
  "lstrip s = dropWhile is_space s"

definition rstrip :: "pystr \<Rightarrow> pystr" where
  "rstrip s = rev (dropWhile is_space (rev s))"

definition strip :: "pystr \<Rightarrow> pystr" where
  "strip s = rstrip (lstrip s)"

text \<open>\<^verbatim>\<open>not s.strip()\<close>\<close>

definition blank :: "pystr \<Rightarrow> bool" where
  "blank s \<longleftrightarrow> list_all is_space s"

function split_words :: "pystr \<Rightarrow> pystr list" where
  "split_words [] = []"
| "split_words (c # cs) =
     (if is_space c then split_words cs
      else (c # takeWhile (\<lambda>x. \<not> is_space x) cs) # split_words (dropWhile (\<lambda>x. \<not> is_space x) cs))"
  by pat_completeness auto
termination
  by (relation "measure length") (auto intro: le_imp_less_Suc length_dropWhile_le)

fun join :: "pystr \<Rightarrow> pystr list \<Rightarrow> pystr" where
  "join sep [] = []"
| "join sep [w] = w"
| "join sep (w # v # ws) = w @ sep @ join sep (v # ws)"

text \<open>\<^verbatim>\<open>" ".join(s.split())\<close> and \<^verbatim>\<open>"".join(s.split())\<close>\<close>

definition collapse :: "pystr \<Rightarrow> pystr" where
  "collapse s = join [32] (split_words s)"

definition squash :: "pystr \<Rightarrow> pystr" where
  "squash s = concat (split_words s)"

lemma is_space_32 [simp]: "is_space 32"
  by (simp add: is_space_def)

lemma strip_Nil_iff: "strip s = [] \<longleftrightarrow> blank s"
proof -
  have "strip s = [] \<longleftrightarrow> (\<forall>c \<in> set (dropWhile is_space s). is_space c)"
    by (auto simp: strip_def lstrip_def rstrip_def)
  also have "\<dots> \<longleftrightarrow> (\<forall>c \<in> set s. is_space c)"
    by (induction s) auto
  finally show ?thesis by (simp add: blank_def list_all_iff)
qed

definition word :: "pystr \<Rightarrow> bool" where
  "word w \<longleftrightarrow> w \<noteq> [] \<and> \<not> has_space w"

lemma split_words_words: "w \<in> set (split_words s) \<Longrightarrow> word w"
proof (induction s rule: split_words.induct)
  case (2 c cs)
  have "\<forall>x \<in> set (takeWhile (\<lambda>x. \<not> is_space x) cs). \<not> is_space x"
    using set_takeWhileD by fast
  then have "\<not> is_space c \<Longrightarrow> word (c # takeWhile (\<lambda>x. \<not> is_space x) cs)"
    by (simp add: word_def has_space_def list_ex_iff)
  with 2 show ?case by (cases "is_space c") auto
qed simp

lemma split_words_prefix:
  assumes "word w" "s = [] \<or> is_space (hd s)"
  shows "split_words (w @ s) = w # split_words s"
proof -
  obtain c cs where w: "w = c # cs" using assms(1) by (cases w) (auto simp: word_def)
  have ns: "\<forall>x \<in> set w. \<not> is_space x"
    using assms(1) by (auto simp: word_def has_space_def list_ex_iff)
  have "takeWhile (\<lambda>x. \<not> is_space x) (cs @ s) = cs" "dropWhile (\<lambda>x. \<not> is_space x) (cs @ s) = s"
    using ns w assms(2) by (cases s; simp add: takeWhile_append dropWhile_append)+
  then show ?thesis using ns w by simp
qed

lemma split_words_join:
  "(\<forall>w \<in> set ws. word w) \<Longrightarrow> split_words (join [32] ws) = ws"
proof (induction "[32] :: pystr" ws rule: join.induct)
  case (2 w)
  then show ?case using split_words_prefix [of w "[]"] by simp
next
  case (3 w v ws)
  then show ?case
    using split_words_prefix [of w "[32] @ join [32] (v # ws)"] by simp
qed simp

lemma collapse_idem [simp]: "collapse (collapse s) = collapse s"
  using split_words_words by (simp add: collapse_def split_words_join)

lemma split_words_Nil_iff: "split_words s = [] \<longleftrightarrow> blank s"
  by (induction s rule: split_words.induct) (auto simp: blank_def)

lemma join_Nil_iff: "(\<forall>w \<in> set ws. word w) \<Longrightarrow> join sep ws = [] \<longleftrightarrow> ws = []"
  by (induction sep ws rule: join.induct) (auto simp: word_def)

lemma collapse_Nil_iff: "collapse s = [] \<longleftrightarrow> blank s"
proof -
  have "\<forall>w \<in> set (split_words s). word w" using split_words_words by blast
  then show ?thesis by (simp add: collapse_def join_Nil_iff split_words_Nil_iff)
qed

lemma word_not_blank: "word w \<Longrightarrow> \<not> blank w"
  by (cases w) (auto simp: word_def has_space_def blank_def)

lemma hd_word: "word w \<Longrightarrow> \<not> is_space (hd w)"
  by (cases w) (auto simp: word_def has_space_def)

lemma last_word: "word w \<Longrightarrow> \<not> is_space (last w)"
  by (auto simp: word_def has_space_def list_ex_iff)

lemma join_ends:
  assumes "\<forall>w \<in> set ws. word w" "ws \<noteq> []"
  shows "join [32] ws \<noteq> [] \<and> \<not> is_space (hd (join [32] ws)) \<and> \<not> is_space (last (join [32] ws))"
  using assms
proof (induction "[32] :: pystr" ws rule: join.induct)
  case (2 w)
  then show ?case by (auto simp: hd_word last_word) (simp add: word_def)
next
  case (3 w v ws)
  then have "join [32] (v # ws) \<noteq> []" "\<not> is_space (last (join [32] (v # ws)))" by simp_all
  moreover have "w \<noteq> []" "\<not> is_space (hd w)" using "3.prems" by (auto simp: hd_word) (simp add: word_def)
  ultimately show ?case by simp
qed simp

lemma strip_trimmed:
  assumes "s = [] \<or> \<not> is_space (hd s) \<and> \<not> is_space (last s)"
  shows "strip s = s"
proof (cases s)
  case (Cons c cs)
  then have "lstrip s = s" using assms by (simp add: lstrip_def)
  moreover have "dropWhile is_space (rev s) = rev s"
    using assms Cons by (metis dropWhile_eq_self_iff hd_rev list.distinct(1))
  ultimately show ?thesis by (simp add: strip_def rstrip_def)
qed (simp add: strip_def rstrip_def lstrip_def)

lemma strip_collapse [simp]: "strip (collapse s) = collapse s"
proof (rule strip_trimmed)
  have "\<forall>w \<in> set (split_words s). word w" using split_words_words by blast
  then show "collapse s = [] \<or> \<not> is_space (hd (collapse s)) \<and> \<not> is_space (last (collapse s))"
    using join_ends by (cases "split_words s = []") (auto simp: collapse_def)
qed

lemma rstrip_snoc: "rstrip (s @ [c]) = (if is_space c then rstrip s else s @ [c])"
  by (simp add: rstrip_def)

lemma strip_ends: "strip s = [] \<or> \<not> is_space (hd (strip s)) \<and> \<not> is_space (last (strip s))"
proof (cases "strip s = []")
  case False
  define t where "t = lstrip s"
  have t: "strip s = rstrip t" by (simp add: t_def strip_def)
  have hd_t: "t \<noteq> [] \<Longrightarrow> \<not> is_space (hd t)"
    using hd_dropWhile [of is_space s] by (simp add: t_def lstrip_def)
  have ne: "dropWhile is_space (rev t) \<noteq> []" using False t by (auto simp: rstrip_def)
  then have last: "\<not> is_space (last (rstrip t))"
    using hd_dropWhile [OF ne] by (simp add: rstrip_def last_rev)
  have "\<exists>u. t = rstrip t @ u"
    by (rule exI [of _ "rev (takeWhile is_space (rev t))"])
       (simp add: rstrip_def flip: rev_append)
  then obtain u where "t = rstrip t @ u" ..
  then have "hd t = hd (rstrip t)" using False t by (metis hd_append2)
  moreover have "t \<noteq> []" using ne by auto
  ultimately show ?thesis using hd_t last t by simp
qed simp

lemma strip_idem [simp]: "strip (strip s) = strip s"
  using strip_ends by (rule strip_trimmed)

lemma strip_no_space: "\<not> has_space s \<Longrightarrow> strip s = s"
  by (rule strip_trimmed) (cases s; auto simp: has_space_def list_ex_iff)

lemma set_strip_subset: "set (strip s) \<subseteq> set s"
proof -
  have "set (strip s) \<subseteq> set (lstrip s)"
    by (metis strip_def rstrip_def set_dropWhileD set_rev subsetI)
  also have "\<dots> \<subseteq> set s"
    by (metis lstrip_def set_dropWhileD subsetI)
  finally show ?thesis .
qed

lemma has_space_strip: "has_space (strip s) \<Longrightarrow> has_space s"
  using set_strip_subset [of s] by (auto simp: has_space_def list_ex_iff)

lemma blank_collapse [simp]: "blank (collapse s) \<longleftrightarrow> blank s"
  using strip_Nil_iff [of "collapse s"] collapse_Nil_iff [of s] by simp

lemma blank_Nil [simp]: "blank []"
  by (simp add: blank_def)

lemma squash_no_space: "\<not> has_space (squash s)"
  using split_words_words by (fastforce simp: squash_def has_space_def list_ex_iff word_def)

lemma split_words_no_space: "\<not> has_space s \<Longrightarrow> split_words s = (if s = [] then [] else [s])"
  using split_words_prefix [of s "[]"] by (auto simp: word_def)

lemma squash_id: "\<not> has_space s \<Longrightarrow> squash s = s"
  by (simp add: squash_def split_words_no_space)

section \<open>Letter case\<close>

fun case_lookup :: "case_run list \<Rightarrow> int \<Rightarrow> int list" where
  "case_lookup [] c = [c]"
| "case_lookup ((a, b, s, m) # rs) c =
     (if c < a then [c]
      else if c \<le> b \<and> (c - a) mod s = 0
      then (case m of Delta d \<Rightarrow> [c + d] | Points l \<Rightarrow> l)
      else case_lookup rs c)"

fun block_lookup :: "(int \<times> int \<times> case_run list) list \<Rightarrow> int \<Rightarrow> int list" where
  "block_lookup [] c = [c]"
| "block_lookup ((lo, hi, rs) # bs) c =
     (if lo \<le> c \<and> c \<le> hi then case_lookup rs c else block_lookup bs c)"

definition casefold_cp :: "int \<Rightarrow> int list" where
  "casefold_cp c =
     (if c < 128 then if 65 \<le> c \<and> c \<le> 90 then [c + 32] else [c]
      else block_lookup casefold_blocks c)"

definition casefold :: "pystr \<Rightarrow> pystr" where
  "casefold s = concat (map casefold_cp s)"

definition upper_cp :: "int \<Rightarrow> int list" where
  "upper_cp c =
     (if c < 128 then if 97 \<le> c \<and> c \<le> 122 then [c - 32] else [c]
      else block_lookup upper_blocks c)"

definition upper :: "pystr \<Rightarrow> pystr" where
  "upper s = concat (map upper_cp s)"

lemma casefold_Nil [simp]: "casefold [] = []"
  by (simp add: casefold_def)

lemma casefold_Cons [simp]: "casefold (c # s) = casefold_cp c @ casefold s"
  by (simp add: casefold_def)

lemma casefold_append: "casefold (s @ t) = casefold s @ casefold t"
  by (simp add: casefold_def)

lemma upper_Nil [simp]: "upper [] = []"
  by (simp add: upper_def)

lemma upper_Cons [simp]: "upper (c # s) = upper_cp c @ upper s"
  by (simp add: upper_def)

lemma casefold_ascii: "c < 128 \<Longrightarrow> casefold_cp c = (if 65 \<le> c \<and> c \<le> 90 then [c + 32] else [c])"
  by (simp add: casefold_cp_def)

lemma upper_ascii: "c < 128 \<Longrightarrow> upper_cp c = (if 97 \<le> c \<and> c \<le> 122 then [c - 32] else [c])"
  by (simp add: upper_cp_def)

definition ascii :: "pystr \<Rightarrow> bool" where
  "ascii s \<longleftrightarrow> list_all (\<lambda>c. 0 \<le> c \<and> c < 128) s"

lemma casefold_ascii_idem: "ascii s \<Longrightarrow> casefold (casefold s) = casefold s"
  by (induction s) (auto simp: ascii_def casefold_ascii casefold_append)

lemma ascii_casefold: "ascii s \<Longrightarrow> ascii (casefold s)"
  by (induction s) (auto simp: ascii_def casefold_ascii)

section \<open>Searching and cutting\<close>

definition starts_with :: "pystr \<Rightarrow> pystr \<Rightarrow> bool" where
  "starts_with p s \<longleftrightarrow> take (length p) s = p"

definition ends_with :: "pystr \<Rightarrow> pystr \<Rightarrow> bool" where
  "ends_with p s \<longleftrightarrow> starts_with (rev p) (rev s)"

fun contains :: "pystr \<Rightarrow> pystr \<Rightarrow> bool" where
  "contains p [] \<longleftrightarrow> p = []"
| "contains p (c # s) \<longleftrightarrow> starts_with p (c # s) \<or> contains p s"

text \<open>\<^verbatim>\<open>s.replace(p, "")\<close> for a non-empty \<open>p\<close>, and \<^verbatim>\<open>s.strip(chars)\<close>.\<close>

function remove_all :: "pystr \<Rightarrow> pystr \<Rightarrow> pystr" where
  "remove_all p [] = []"
| "remove_all p (c # s) =
     (if p \<noteq> [] \<and> starts_with p (c # s) then remove_all p (drop (length p) (c # s))
      else c # remove_all p s)"
  by pat_completeness auto
termination
  by (relation "measure (\<lambda>(p, s). length s)") (auto simp: neq_Nil_conv)

definition strip_chars :: "int list \<Rightarrow> pystr \<Rightarrow> pystr" where
  "strip_chars cs s =
     rev (dropWhile (\<lambda>c. c \<in> set cs) (rev (dropWhile (\<lambda>c. c \<in> set cs) s)))"

text \<open>\<^verbatim>\<open>s.split(sep)\<close> for a separator of one code point.\<close>

fun split_on :: "int \<Rightarrow> pystr \<Rightarrow> pystr list" where
  "split_on d [] = [[]]"
| "split_on d (c # s) =
     (if c = d then [] # split_on d s
      else (case split_on d s of [] \<Rightarrow> [[c]] | w # ws \<Rightarrow> (c # w) # ws))"

lemma split_on_not_Nil [simp]: "split_on d s \<noteq> []"
  by (cases s) (auto split: list.splits)

lemma join_head: "join sep ((c # w) # ws) = c # join sep (w # ws)"
  by (cases ws) simp_all

lemma join_split_on: "join [d] (split_on d s) = s"
proof (induction d s rule: split_on.induct)
  case (2 d c s)
  then show ?case by (cases "split_on d s") (auto simp: join_head)
qed simp

section \<open>Code point classes of the regular expressions\<close>

definition is_AZ :: "int \<Rightarrow> bool" where "is_AZ c \<longleftrightarrow> 65 \<le> c \<and> c \<le> 90"
definition is_az :: "int \<Rightarrow> bool" where "is_az c \<longleftrightarrow> 97 \<le> c \<and> c \<le> 122"
definition is_09 :: "int \<Rightarrow> bool" where "is_09 c \<longleftrightarrow> 48 \<le> c \<and> c \<le> 57"

fun in_ranges :: "(int \<times> int) list \<Rightarrow> int \<Rightarrow> bool" where
  "in_ranges [] c \<longleftrightarrow> False"
| "in_ranges ((a, b) # rs) c \<longleftrightarrow> a \<le> c \<and> (c \<le> b \<or> in_ranges rs c)"

definition is_alpha :: "int \<Rightarrow> bool" where
  "is_alpha c \<longleftrightarrow> (if c < 128 then is_AZ c \<or> is_az c else in_ranges alpha_ranges c)"

text \<open>\<^verbatim>\<open>len(s) == 3 and s.isalpha()\<close> and \<^verbatim>\<open>s == s.upper()\<close>\<close>

definition three_letters :: "pystr \<Rightarrow> bool" where
  "three_letters s \<longleftrightarrow> length s = 3 \<and> list_all is_alpha s"

definition is_upper_form :: "pystr \<Rightarrow> bool" where
  "is_upper_form s \<longleftrightarrow> s = upper s"

lemmas class_defs = is_AZ_def is_az_def is_09_def

text \<open>\<^verbatim>\<open>[a-z0-9]+(?:-[a-z0-9]+)*\<close>: the slug shape of keys and aliases.\<close>

definition slug :: "pystr \<Rightarrow> bool" where
  "slug s \<longleftrightarrow> list_all (\<lambda>w. w \<noteq> [] \<and> list_all (\<lambda>c. is_az c \<or> is_09 c) w) (split_on 45 s)"

text \<open>\<^verbatim>\<open>^[A-Z]{n}$\<close>, the shape of currency and country codes.\<close>

definition capital_code :: "nat \<Rightarrow> pystr \<Rightarrow> bool" where
  "capital_code n s \<longleftrightarrow> length s = n \<and> list_all is_AZ s"

text \<open>\<^verbatim>\<open>[first][rest]{lo,hi}\<close>: one code point of a class, then \<open>lo\<close> to \<open>hi\<close> of another.\<close>

definition head_rest :: "(int \<Rightarrow> bool) \<Rightarrow> (int \<Rightarrow> bool) \<Rightarrow> nat \<Rightarrow> nat \<Rightarrow> pystr \<Rightarrow> bool" where
  "head_rest p q lo hi s \<longleftrightarrow>
     (case s of [] \<Rightarrow> False | c # t \<Rightarrow> p c \<and> list_all q t \<and> lo \<le> length t \<and> length t \<le> hi)"

text \<open>
  The test on e-mail addresses that several constructors repeat: case-folded, exactly one \<open>@\<close>, no
  white space.
\<close>

definition email_ok :: "pystr \<Rightarrow> bool" where
  "email_ok e \<longleftrightarrow> e = casefold e \<and> count_list e 64 = 1 \<and> \<not> has_space e"

lemma slug_not_blank: "slug s \<Longrightarrow> \<not> blank s"
proof (cases s)
  case (Cons c t)
  assume "slug s"
  with Cons have "is_az c \<or> is_09 c"
    by (auto simp: slug_def split: if_splits list.splits)
  with Cons show ?thesis by (auto simp: blank_def is_space_def class_defs)
qed (simp add: slug_def)

end
