(* ===== verification/Py_Number.thy ===== *)
theory Py_Number
  imports Py_Text
begin

text \<open>
  Integers and identifiers as text: \<^verbatim>\<open>str(int)\<close>, zero-padded formatting, \<^verbatim>\<open>int(str, base)\<close> with
  the underscores, signs, Unicode digits and the 4300-digit limit of Python 3.13, and the canonical
  text form and the parser of \<^verbatim>\<open>uuid.UUID\<close>.
\<close>

section \<open>Printing\<close>

fun nat_digits :: "nat \<Rightarrow> pystr" where
  "nat_digits n = (if n < 10 then [48 + int n] else nat_digits (n div 10) @ [48 + int (n mod 10)])"

declare nat_digits.simps [simp del]

definition int_str :: "int \<Rightarrow> pystr" where
  "int_str n = (if n < 0 then 45 # nat_digits (nat (- n)) else nat_digits (nat n))"

text \<open>\<^verbatim>\<open>f"{n:0{w}d}"\<close> for \<open>n \<ge> 0\<close>\<close>

definition zero_padded :: "nat \<Rightarrow> nat \<Rightarrow> pystr" where
  "zero_padded w n = replicate (w - length (nat_digits n)) 48 @ nat_digits n"

definition hex_digit :: "int \<Rightarrow> int" where
  "hex_digit d = (if d < 10 then 48 + d else 87 + d)"

fun hex_fixed :: "nat \<Rightarrow> int \<Rightarrow> pystr" where
  "hex_fixed 0 n = []"
| "hex_fixed (Suc k) n = hex_fixed k (n div 16) @ [hex_digit (n mod 16)]"

definition uuid_str :: "uuid \<Rightarrow> pystr" where
  "uuid_str u = (let h = hex_fixed 32 (uint u) in
     take 8 h @ [45] @ take 4 (drop 8 h) @ [45] @ take 4 (drop 12 h) @ [45]
     @ take 4 (drop 16 h) @ [45] @ drop 20 h)"

section \<open>Parsing\<close>

text \<open>A string with a code point beyond ASCII is first turned into ASCII: Unicode white space into
  blanks, decimal digits into \<open>0\<close> to \<open>9\<close>, everything else into \<open>?\<close>.\<close>

fun decimal_of :: "int list \<Rightarrow> int \<Rightarrow> int option" where
  "decimal_of [] c = None"
| "decimal_of (z # zs) c = (if z \<le> c \<and> c < z + 10 then Some (c - z) else decimal_of zs c)"

definition numeric_ascii :: "int \<Rightarrow> int" where
  "numeric_ascii c =
     (if c < 127 then c else if is_space c then 32
      else case decimal_of decimal_zeros c of Some d \<Rightarrow> 48 + d | None \<Rightarrow> 63)"

definition c_space :: "int \<Rightarrow> bool" where
  "c_space c \<longleftrightarrow> 9 \<le> c \<and> c \<le> 13 \<or> c = 32"

definition digit_of :: "int \<Rightarrow> int \<Rightarrow> int option" where
  "digit_of base c =
     (let d = if is_09 c then c - 48 else if is_az c then c - 87 else if is_AZ c then c - 55 else base
      in if d < base then Some d else None)"

fun digits_val :: "int \<Rightarrow> int \<Rightarrow> bool \<Rightarrow> pystr \<Rightarrow> int option" where
  "digits_val base acc after_digit [] = (if after_digit then Some acc else None)"
| "digits_val base acc after_digit (c # s) =
     (if c = 95 then if after_digit then digits_val base acc False s else None
      else case digit_of base c of
        None \<Rightarrow> None
      | Some d \<Rightarrow> digits_val base (acc * base + d) True s)"

definition drop_hex_prefix :: "pystr \<Rightarrow> pystr" where
  "drop_hex_prefix s =
     (case s of
        a # b # t \<Rightarrow>
          if a = 48 \<and> (b = 120 \<or> b = 88)
          then (case t of c # u \<Rightarrow> if c = 95 then u else t | [] \<Rightarrow> t)
          else s
      | _ \<Rightarrow> s)"

definition unsigned_int :: "int \<Rightarrow> pystr \<Rightarrow> int option" where
  "unsigned_int base s =
     (if base = 10 \<and> 4300 < length (filter (\<lambda>c. c \<noteq> 95) s) then None
      else digits_val base 0 False (if base = 16 then drop_hex_prefix s else s))"

definition c_strip :: "pystr \<Rightarrow> pystr" where
  "c_strip s = rev (dropWhile c_space (rev (dropWhile c_space s)))"

definition py_int :: "int \<Rightarrow> pystr \<Rightarrow> int option" where
  "py_int base s =
     (let t = c_strip (if list_all (\<lambda>c. c < 128) s then s else map numeric_ascii s) in
      case t of
        [] \<Rightarrow> None
      | c # u \<Rightarrow>
          if c = 43 then unsigned_int base u
          else if c = 45 then map_option uminus (unsigned_int base u)
          else unsigned_int base t)"

definition parse_uuid :: "pystr \<Rightarrow> uuid option" where
  "parse_uuid s =
     (let h = remove_all [45] (strip_chars [123, 125]
                (remove_all (lit ''uuid:'') (remove_all (lit ''urn:'') s))) in
      if length h \<noteq> 32 then None
      else case py_int 16 h of
        None \<Rightarrow> None
      | Some n \<Rightarrow> if 0 \<le> n \<and> n < 2 ^ 128 then Some (word_of_int n) else None)"

section \<open>Printing and parsing are inverse\<close>

definition hexish :: "int \<Rightarrow> bool" where
  "hexish c \<longleftrightarrow> is_09 c \<or> 97 \<le> c \<and> c \<le> 102"

lemma hex_digit_hexish: "0 \<le> d \<Longrightarrow> d < 16 \<Longrightarrow> hexish (hex_digit d)"
  by (auto simp: hexish_def hex_digit_def class_defs)

lemma digit_of_hex: "0 \<le> d \<Longrightarrow> d < 16 \<Longrightarrow> digit_of 16 (hex_digit d) = Some d"
  by (auto simp: digit_of_def hex_digit_def class_defs)

lemma length_hex_fixed [simp]: "length (hex_fixed k n) = k"
  by (induction k arbitrary: n) simp_all

lemma hexish_hex_fixed: "c \<in> set (hex_fixed k n) \<Longrightarrow> hexish c"
  by (induction k arbitrary: n) (auto intro: hex_digit_hexish)

declare hex_fixed.simps [simp del]

lemma digits_val_append:
  "(\<forall>c \<in> set s. c \<noteq> 95 \<and> digit_of b c \<noteq> None) \<Longrightarrow> s \<noteq> [] \<Longrightarrow>
   digits_val b acc f (s @ t) =
     digits_val b (the (digits_val b acc f s)) True t"
proof (induction s arbitrary: acc f)
  case (Cons c s)
  then obtain d where "digit_of b c = Some d" by auto
  with Cons show ?case by (cases "s = []") auto
qed simp

lemma digits_val_hex:
  "0 \<le> n \<Longrightarrow> n < 16 ^ Suc k \<Longrightarrow> digits_val 16 acc f (hex_fixed (Suc k) n) = Some (acc * 16 ^ Suc k + n)"
proof (induction k arbitrary: n acc f)
  case 0
  have "hex_digit n \<noteq> 95" using 0 by (auto simp: hex_digit_def)
  with 0 show ?case by (simp add: digit_of_hex hex_fixed.simps)
next
  case (Suc k)
  let ?m = "n div 16" and ?d = "n mod 16"
  define X :: int where "X = 16 ^ Suc k"
  have "n < 16 * X" using Suc.prems by (simp add: X_def)
  then have "?m < X" by presburger
  then have m: "0 \<le> ?m" "?m < 16 ^ Suc k" using Suc.prems by (simp_all add: X_def)
  have ok: "\<forall>c \<in> set (hex_fixed (Suc k) ?m). c \<noteq> 95 \<and> digit_of 16 c \<noteq> None"
    using hexish_hex_fixed by (fastforce simp: hexish_def digit_of_def class_defs)
  have ne: "hex_fixed (Suc k) ?m \<noteq> []" by (simp add: hex_fixed.simps)
  have d: "hex_digit ?d \<noteq> 95" "digit_of 16 (hex_digit ?d) = Some ?d"
    by (simp_all add: digit_of_hex) (simp add: hex_digit_def)
  have "digits_val 16 acc f (hex_fixed (Suc (Suc k)) n) =
    digits_val 16 (acc * 16 ^ Suc k + ?m) True [hex_digit ?d]"
    using digits_val_append [OF ok ne, of acc f "[hex_digit ?d]"] Suc.IH [OF m]
    by (simp only: hex_fixed.simps(2) [of "Suc k" n] option.sel)
  also have "\<dots> = Some ((acc * 16 ^ Suc k + ?m) * 16 + ?d)" using d by simp
  also have "(acc * 16 ^ Suc k + ?m) * 16 + ?d = acc * 16 ^ Suc (Suc k) + n"
    by (simp add: algebra_simps)
  finally show ?case .
qed

lemma remove_all_absent: "p \<noteq> [] \<Longrightarrow> hd p \<notin> set s \<Longrightarrow> remove_all p s = s"
proof (induction p s rule: remove_all.induct)
  case (2 p c s)
  then have "\<not> starts_with p (c # s)" by (cases p) (auto simp: starts_with_def)
  with 2 show ?case by simp
qed simp

lemma remove_all_filter: "remove_all [d] s = filter (\<lambda>c. c \<noteq> d) s"
  by (induction s) (auto simp: starts_with_def)

lemma strip_chars_absent: "set s \<inter> set cs = {} \<Longrightarrow> strip_chars cs s = s"
  by (auto simp: strip_chars_def dropWhile_eq_self_iff hd_rev)
     (metis disjoint_iff dropWhile_eq_self_iff hd_in_set rev_is_Nil_conv rev_rev_ident set_rev)

lemma set_uuid_str: "c \<in> set (uuid_str u) \<Longrightarrow> hexish c \<or> c = 45"
  by (auto simp: uuid_str_def Let_def dest!: in_set_takeD in_set_dropD intro: hexish_hex_fixed)

lemma uuid_str_filter: "filter (\<lambda>c. c \<noteq> 45) (uuid_str u) = hex_fixed 32 (uint u)"
proof -
  let ?h = "hex_fixed 32 (uint u)"
  have keep: "set s \<subseteq> set ?h \<Longrightarrow> filter (\<lambda>c. c \<noteq> 45) s = s" for s
    using hexish_hex_fixed by (fastforce simp: filter_id_conv hexish_def class_defs)
  have sub: "set (take m (drop n ?h)) \<subseteq> set ?h" "set (drop n ?h) \<subseteq> set ?h" "set (take m ?h) \<subseteq> set ?h"
    for m n by (auto dest!: in_set_takeD in_set_dropD)
  have "filter (\<lambda>c. c \<noteq> 45) (uuid_str u) =
      take 8 ?h @ take 4 (drop 8 ?h) @ take 4 (drop 12 ?h) @ take 4 (drop 16 ?h) @ drop 20 ?h"
    by (simp add: uuid_str_def Let_def keep sub)
  also have "\<dots> = ?h"
    using append_take_drop_id [of 8 ?h] append_take_drop_id [of 4 "drop 8 ?h"]
      append_take_drop_id [of 4 "drop 12 ?h"] append_take_drop_id [of 4 "drop 16 ?h"]
    by (simp del: append_take_drop_id)
  finally show ?thesis .
qed

lemma drop_hex_prefix_hexish: "\<forall>c \<in> set h. hexish c \<Longrightarrow> drop_hex_prefix h = h"
  by (auto simp: drop_hex_prefix_def hexish_def class_defs split: list.splits)

lemma py_int_hex:
  assumes "0 \<le> n" "n < 16 ^ Suc k"
  shows "py_int 16 (hex_fixed (Suc k) n) = Some n"
proof -
  let ?h = "hex_fixed (Suc k) n"
  have hx: "\<forall>c \<in> set ?h. hexish c" using hexish_hex_fixed by blast
  have asc: "list_all (\<lambda>c. c < 128) ?h"
    using hx by (auto simp: list_all_iff hexish_def class_defs)
  have nsp: "\<forall>c \<in> set ?h. \<not> c_space c" using hx by (auto simp: hexish_def class_defs c_space_def)
  have ne: "?h \<noteq> []" by (metis length_hex_fixed list.size(3) nat.distinct(1))
  have "dropWhile c_space ?h = ?h" "dropWhile c_space (rev ?h) = rev ?h"
    using nsp ne by (metis dropWhile_eq_self_iff hd_in_set rev_is_Nil_conv set_rev)+
  then have strip: "c_strip ?h = ?h" by (simp add: c_strip_def)
  have pre: "drop_hex_prefix ?h = ?h"
    using hx by (rule drop_hex_prefix_hexish)
  obtain c u where cu: "?h = c # u" using ne by (cases ?h) auto
  then have c: "c \<noteq> 43" "c \<noteq> 45" using hx by (auto simp: hexish_def class_defs)
  have "digits_val 16 0 False ?h = Some n" using digits_val_hex [OF assms, of 0 False] by simp
  with asc strip pre cu c show ?thesis
    by (simp add: py_int_def unsigned_int_def Let_def del: digits_val.simps)
qed

lemma parse_uuid_str: "parse_uuid (uuid_str u) = Some u"
proof -
  have ni: "117 \<notin> set (uuid_str u)" "set (uuid_str u) \<inter> {123, 125} = {}"
    using set_uuid_str [of _ u] by (fastforce simp: hexish_def class_defs)+
  have lits: "lit ''uuid:'' = [117, 117, 105, 100, 58]" "lit ''urn:'' = [117, 114, 110, 58]"
    by (simp_all add: lit_def)
  have "uint u < 2 ^ 128" using uint_bounded [of u] by simp
  then show ?thesis
    using ni py_int_hex [of "uint u" 31]
    by (simp add: parse_uuid_def lits remove_all_absent strip_chars_absent remove_all_filter
      uuid_str_filter)
qed

section \<open>Decimal text\<close>

definition digits_value :: "pystr \<Rightarrow> int" where
  "digits_value s = foldl (\<lambda>a c. a * 10 + (c - 48)) 0 s"

lemma digits_value_snoc: "digits_value (s @ [c]) = digits_value s * 10 + (c - 48)"
  by (simp add: digits_value_def)

lemma digits_value_nat: "digits_value (nat_digits n) = int n"
proof (induction n rule: nat_digits.induct)
  case (1 n)
  show ?case
  proof (cases "n < 10")
    case True
    then show ?thesis by (subst nat_digits.simps) (simp add: digits_value_def)
  next
    case False
    then have "digits_value (nat_digits n) = int (n div 10) * 10 + int (n mod 10)"
      using 1 by (subst nat_digits.simps) (simp add: digits_value_snoc)
    then show ?thesis by presburger
  qed
qed

lemma digits_value_zeros: "digits_value (replicate k 48 @ s) = digits_value s"
  by (induction k) (simp_all add: digits_value_def)

lemma zero_padded_inj: "zero_padded w m = zero_padded w n \<Longrightarrow> m = n"
  by (metis digits_value_nat digits_value_zeros nat_int zero_padded_def)

lemma nat_digits_09: "list_all is_09 (nat_digits n)"
proof (induction n rule: nat_digits.induct)
  case (1 n)
  then show ?case by (subst nat_digits.simps) (auto simp: is_09_def [abs_def])
qed

lemma zero_padded_09: "list_all is_09 (zero_padded w n)"
  using nat_digits_09 [of n] by (auto simp: zero_padded_def list_all_iff is_09_def)

lemma nat_digits_length: "0 < k \<Longrightarrow> n < 10 ^ k \<Longrightarrow> length (nat_digits n) \<le> k"
proof (induction k arbitrary: n)
  case (Suc k)
  show ?case
  proof (cases "n < 10")
    case False
    then have "k \<noteq> 0" using Suc.prems by (cases k) auto
    then have "length (nat_digits (n div 10)) \<le> k"
      using Suc.prems by (intro Suc.IH) (simp_all add: div_less_iff_less_mult)
    then show ?thesis using False by (subst nat_digits.simps) simp
  qed (subst nat_digits.simps, simp)
qed simp

lemma zero_padded_length: "0 < w \<Longrightarrow> n < 10 ^ w \<Longrightarrow> length (zero_padded w n) = w"
  using nat_digits_length [of w n] by (simp add: zero_padded_def)

end
