(* ===== verification/Calendar_Time.thy ===== *)
theory Calendar_Time
  imports Py_Number
begin

text \<open>
  Dates, instants and time zones: Python's \<^verbatim>\<open>date\<close> as its proleptic ordinal, \<^verbatim>\<open>datetime\<close> as wall
  clock microseconds since 0001-01-01 with an optional UTC offset, \<^verbatim>\<open>time\<close> as microseconds of the
  day, and the ranges beyond which Python raises \<^verbatim>\<open>OverflowError\<close>.  An aware \<open>datetime\<close> carries a fixed
  offset, as \<^verbatim>\<open>datetime.now(timezone.utc)\<close> and parsed request values do.  On top of them:
  \<^verbatim>\<open>require_aware\<close> (\<^verbatim>\<open>domain/identity.py\<close>), \<^verbatim>\<open>domain/calendar.py\<close> and \<^verbatim>\<open>domain/captures.py\<close>.

  A time zone of the IANA database is third-party data and hence an argument: \<open>utc_off\<close> is its
  offset at a UTC instant, \<open>wall_off fold\<close> its offset for a wall clock reading (PEP 495).
\<close>

type_synonym date = int

datatype datetime = DateTime (wall: int) (utc_offset: "int option")

datatype clock = Clock (clock_us: int) (clock_has_tz: bool)

record tz =
  utc_off :: "int \<Rightarrow> int"
  wall_off :: "bool \<Rightarrow> int \<Rightarrow> int"

definition minute_us :: int where "minute_us = 60 * 1000000"
definition day_us :: int where "day_us = 86400 * 1000000"
definition max_date :: date where "max_date = 3652059"

lemmas time_units = minute_us_def day_us_def max_date_def

lemma day_us_pos [simp]: "0 < day_us"
  by (simp add: day_us_def)

definition in_range :: "int \<Rightarrow> bool" where
  "in_range w \<longleftrightarrow> 0 \<le> w \<and> w < max_date * day_us"

definition aware :: "datetime \<Rightarrow> bool" where
  "aware d \<longleftrightarrow> utc_offset d \<noteq> None"

definition instant :: "datetime \<Rightarrow> int" where
  "instant d = wall d - (case utc_offset d of None \<Rightarrow> 0 | Some off \<Rightarrow> off)"

definition utc :: "int \<Rightarrow> datetime" where
  "utc u = DateTime u (Some 0)"

lemma utc_simps [simp]: "aware (utc u)" "instant (utc u) = u" "wall (utc u) = u"
  by (simp_all add: utc_def aware_def instant_def)

text \<open>Two datetimes can be ordered when both are aware or both naive; otherwise Python raises.\<close>

definition comparable :: "datetime \<Rightarrow> datetime \<Rightarrow> bool" where
  "comparable d e \<longleftrightarrow> (aware d \<longleftrightarrow> aware e)"

definition dt_eq :: "datetime \<Rightarrow> datetime \<Rightarrow> bool" where
  "dt_eq d e \<longleftrightarrow> comparable d e \<and> instant d = instant e"

definition opt_dt_eq :: "datetime option \<Rightarrow> datetime option \<Rightarrow> bool" where
  "opt_dt_eq x y = (case (x, y) of (None, None) \<Rightarrow> True | (Some d, Some e) \<Rightarrow> dt_eq d e | _ \<Rightarrow> False)"

lemma opt_dt_eq_refl [simp]: "opt_dt_eq x x"
  by (cases x) (simp_all add: opt_dt_eq_def dt_eq_def comparable_def)

definition add_delta :: "datetime \<Rightarrow> int \<Rightarrow> datetime res" where
  "add_delta d t =
     (if in_range (wall d + t) then Inr (DateTime (wall d + t) (utc_offset d)) else Inl Overflow_Error)"

definition date_add :: "date \<Rightarrow> int \<Rightarrow> date res" where
  "date_add d n = (if 1 \<le> d + n \<and> d + n \<le> max_date then Inr (d + n) else Inl Overflow_Error)"

definition date_of_wall :: "int \<Rightarrow> date" where
  "date_of_wall w = w div day_us + 1"

definition midnight :: "date \<Rightarrow> int" where
  "midnight d = (d - 1) * day_us"

lemma add_delta_Inr [res_simps]:
  "add_delta d t = Inr e \<longleftrightarrow> in_range (wall d + t) \<and> e = DateTime (wall d + t) (utc_offset d)"
  by (auto simp: add_delta_def)

lemma add_delta_instant: "add_delta d t = Inr e \<Longrightarrow> instant e = instant d + t \<and> aware e = aware d"
  by (auto simp: add_delta_Inr instant_def aware_def)

lemma date_add_Inr [res_simps]:
  "date_add d n = Inr e \<longleftrightarrow> 1 \<le> d + n \<and> d + n \<le> max_date \<and> e = d + n"
  by (auto simp: date_add_def)

section \<open>Aware datetimes\<close>

definition require_aware :: "datetime \<Rightarrow> unit res" where
  "require_aware d = (if \<not> aware d then Inl (Invariant ''identity_time_not_aware'') else Inr ())"

lemma require_aware_Inr [res_simps, simp]: "require_aware d = Inr u \<longleftrightarrow> aware d"
  by (simp add: require_aware_def)

lemma require_aware_ok: "aware d \<Longrightarrow> require_aware d = Inr ()"
  by simp

definition require_aware_opt :: "datetime option \<Rightarrow> unit res" where
  "require_aware_opt x = (case x of None \<Rightarrow> Inr () | Some d \<Rightarrow> require_aware d)"

definition aware_opt :: "datetime option \<Rightarrow> bool" where
  "aware_opt x \<longleftrightarrow> (case x of None \<Rightarrow> True | Some d \<Rightarrow> aware d)"

lemma require_aware_opt_Inr [res_simps, simp]: "require_aware_opt x = Inr u \<longleftrightarrow> aware_opt x"
  by (cases x) (simp_all add: require_aware_opt_def aware_opt_def)

lemma aware_opt_simps [simp]: "aware_opt None" "aware_opt (Some d) \<longleftrightarrow> aware d"
  by (simp_all add: aware_opt_def)

section \<open>Conversions between zones (calendar.py)\<close>

definition to_utc :: "datetime \<Rightarrow> datetime res" where
  "to_utc d = (if in_range (instant d) then Inr (utc (instant d)) else Inl Overflow_Error)"

definition zone_wall :: "tz \<Rightarrow> int \<Rightarrow> int res" where
  "zone_wall z u =
     (if in_range u \<and> in_range (u + utc_off z u) then Inr (u + utc_off z u) else Inl Overflow_Error)"

definition local_day :: "tz \<Rightarrow> datetime \<Rightarrow> date res" where
  "local_day z moment =
     then_res (require_aware moment) (\<lambda>_.
     then_res (zone_wall z (instant moment)) (\<lambda>w. Inr (date_of_wall w)))"

definition local_midnight :: "tz \<Rightarrow> date \<Rightarrow> datetime res" where
  "local_midnight z day = to_utc (DateTime (midnight day) (Some (wall_off z False (midnight day))))"

definition local_day_bounds :: "tz \<Rightarrow> date \<Rightarrow> (datetime \<times> datetime) res" where
  "local_day_bounds z day =
     then_res (local_midnight z day) (\<lambda>start.
     then_res (date_add day 1) (\<lambda>next_day.
     then_res (local_midnight z next_day) (\<lambda>stop. Inr (start, stop))))"

text \<open>What the IANA data guarantee: a wall clock reading that occurs has its offset under some fold.\<close>

definition tz_consistent :: "tz \<Rightarrow> bool" where
  "tz_consistent z \<longleftrightarrow> (\<forall>u. \<exists>f. wall_off z f (u + utc_off z u) = utc_off z u)"

text \<open>A zone with a constant offset, and one that changes its offset once, as on a clock change.\<close>

definition fixed_zone :: "int \<Rightarrow> tz" where
  "fixed_zone off = \<lparr>utc_off = (\<lambda>_. off), wall_off = (\<lambda>_ _. off)\<rparr>"

definition changing_zone :: "int \<Rightarrow> int \<Rightarrow> int \<Rightarrow> tz" where
  "changing_zone at before after =
     \<lparr>utc_off = (\<lambda>u. if u < at then before else after),
      wall_off = (\<lambda>fold w.
        if fold then (if w < at + min before after then before else after)
        else (if w < at + max before after then before else after))\<rparr>"

lemma tz_consistent_fixed: "tz_consistent (fixed_zone off)"
  by (simp add: tz_consistent_def fixed_zone_def)

lemma tz_consistent_changing: "tz_consistent (changing_zone at before after)"
proof -
  let ?z = "changing_zone at before after"
  have "u < at \<Longrightarrow> wall_off ?z False (u + utc_off ?z u) = utc_off ?z u" for u
    by (auto simp: changing_zone_def max_def)
  moreover have "at \<le> u \<Longrightarrow> wall_off ?z True (u + utc_off ?z u) = utc_off ?z u" for u
    by (auto simp: changing_zone_def min_def)
  ultimately show ?thesis unfolding tz_consistent_def by (metis not_le)
qed

lemma local_day_Inr [res_simps]:
  "local_day z m = Inr d \<longleftrightarrow>
     aware m \<and> in_range (instant m) \<and> in_range (instant m + utc_off z (instant m))
     \<and> d = date_of_wall (instant m + utc_off z (instant m))"
  by (auto simp: local_day_def zone_wall_def res_simps)

lemma date_of_wall_mono: "w \<le> v \<Longrightarrow> date_of_wall w \<le> date_of_wall v"
  by (simp add: date_of_wall_def zdiv_mono1)

lemma date_of_midnight [simp]: "date_of_wall (midnight d) = d"
  by (simp add: date_of_wall_def midnight_def day_us_def)

lemma date_of_wall_iff: "date_of_wall w = d \<longleftrightarrow> midnight d \<le> w \<and> w < midnight (d + 1)"
proof -
  define q r where "q = w div day_us" and "r = w mod day_us"
  have qr: "w = day_us * q + r" "0 \<le> r" "r < day_us"
    by (simp_all add: q_def r_def)
  have "q = d - 1 \<longleftrightarrow> day_us * (d - 1) \<le> w \<and> w < day_us * (d - 1) + day_us"
  proof
    assume "day_us * (d - 1) \<le> w \<and> w < day_us * (d - 1) + day_us"
    then show "q = d - 1"
      using int_div_pos_eq [of w day_us "d - 1" "w - day_us * (d - 1)"] by (simp add: q_def)
  qed (use qr in auto)
  then show ?thesis by (auto simp: q_def date_of_wall_def midnight_def algebra_simps)
qed

section \<open>Device capture times (captures.py)\<close>

definition capture_max_age :: int where "capture_max_age = 14 * day_us"
definition capture_max_lead :: int where "capture_max_lead = 5 * minute_us"

definition bounded_captured_at :: "datetime \<Rightarrow> datetime \<Rightarrow> datetime res" where
  "bounded_captured_at captured_at received_at =
     then_res (require_aware captured_at) (\<lambda>_.
     then_res (require_aware received_at) (\<lambda>_.
     then_res (add_delta received_at (- capture_max_age)) (\<lambda>earliest.
     if \<not> instant earliest \<le> instant captured_at
     then Inl (Invariant ''captured_at_out_of_range'')
     else then_res (add_delta received_at capture_max_lead) (\<lambda>latest.
       if \<not> instant captured_at \<le> instant latest
       then Inl (Invariant ''captured_at_out_of_range'')
       else to_utc captured_at))))"

lemma bounded_captured_at_Inr:
  "bounded_captured_at c r = Inr d \<Longrightarrow>
     aware c \<and> aware r \<and> d = utc (instant c)
     \<and> instant r - capture_max_age \<le> instant c \<and> instant c \<le> instant r + capture_max_lead"
  by (auto simp: bounded_captured_at_def to_utc_def instant_def res_simps split: if_splits)

section \<open>ISO 8601 text\<close>

text \<open>
  Year, month and day of an ordinal (the algorithm of \<^verbatim>\<open>date.fromordinal\<close>) and \<^verbatim>\<open>isoformat\<close> of dates
  and datetimes.
\<close>

definition days_before_month :: "int list" where
  "days_before_month = [0, 31, 59, 90, 120, 151, 181, 212, 243, 273, 304, 334]"

definition days_in_month :: "int list" where
  "days_in_month = [31, 28, 31, 30, 31, 30, 31, 31, 30, 31, 30, 31]"

definition ymd :: "date \<Rightarrow> int \<times> int \<times> int" where
  "ymd d = (
     let n = d - 1; n400 = n div 146097; a = n mod 146097;
         n100 = a div 36524; b = a mod 36524; n4 = b div 1461; c = b mod 1461;
         n1 = c div 365; k = c mod 365; year = n400 * 400 + 1 + n100 * 100 + n4 * 4 + n1
     in if n1 = 4 \<or> n100 = 4 then (year - 1, 12, 31)
        else let leap = (n1 = 3 \<and> (n4 \<noteq> 24 \<or> n100 = 3)); month = (k + 50) div 32;
                 preceding = days_before_month ! nat (month - 1) + (if month > 2 \<and> leap then 1 else 0)
             in if preceding > k
                then (year, month - 1,
                  k - (preceding - (days_in_month ! nat (month - 2)
                       + (if month - 1 = 2 \<and> leap then 1 else 0))) + 1)
                else (year, month, k - preceding + 1))"

definition two :: "int \<Rightarrow> pystr" where
  "two n = zero_padded 2 (nat n)"

definition iso_date :: "date \<Rightarrow> pystr" where
  "iso_date d = (case ymd d of (y, m, dd) \<Rightarrow> zero_padded 4 (nat y) @ [45] @ two m @ [45] @ two dd)"

text \<open>Hours, minutes and seconds, and the microseconds when there are any.\<close>

definition iso_clock :: "int \<Rightarrow> pystr" where
  "iso_clock us = (let s = us div 1000000; f = us mod 1000000 in
     two (s div 3600) @ [58] @ two (s div 60 mod 60) @ [58] @ two (s mod 60)
     @ (if f = 0 then [] else [46] @ zero_padded 6 (nat f)))"

definition iso_offset :: "int \<Rightarrow> pystr" where
  "iso_offset off = (let a = \<bar>off\<bar>; s = a div 1000000; f = a mod 1000000 in
     [if off < 0 then 45 else 43] @ two (s div 3600) @ [58] @ two (s div 60 mod 60)
     @ (if s mod 60 = 0 \<and> f = 0 then [] else [58] @ two (s mod 60)
        @ (if f = 0 then [] else [46] @ zero_padded 6 (nat f))))"

definition iso_datetime :: "datetime \<Rightarrow> pystr" where
  "iso_datetime d = iso_date (date_of_wall (wall d)) @ [84] @ iso_clock (wall d mod day_us)
     @ (case utc_offset d of None \<Rightarrow> [] | Some off \<Rightarrow> iso_offset off)"

end
