(* ===== verification/Contracts.thy ===== *)
theory Contracts
  imports Calendar_Time
begin

text \<open>
  The contracts the components of the program share, each a locale: the operations a client calls
  are its parameters, the laws it relies on its assumptions, and what follows from the laws is proved
  once here.  Every locale is interpreted on the model of the code, in the theory of the component
  that provides the operations.
  \<^item> \<open>validated\<close>: a frozen dataclass whose \<^verbatim>\<open>__post_init__\<close> checks and normalises its fields;
  \<^item> \<open>lifecycle\<close>, \<open>phased_lifecycle\<close>: an aggregate with a table of allowed status transitions;
  \<^item> \<open>codec\<close>: a snapshot with \<^verbatim>\<open>payload()\<close> and \<^verbatim>\<open>from_payload()\<close>;
  \<^item> \<open>attempt_counter\<close>: the counter of failed one-time codes;
  \<^item> \<open>expiring\<close>: a credential that is usable until a fixed instant;
  \<^item> \<open>follow_up_tracker\<close>: whoever keeps a follow-up task for each order that needs one.
\<close>

section \<open>Validated values\<close>

locale validated =
  fixes post_init :: "'a \<Rightarrow> 'a res"
    and wf :: "'a \<Rightarrow> bool"
  assumes post_init_wf: "post_init raw = Inr v \<Longrightarrow> wf v"
    and post_init_id: "wf v \<Longrightarrow> post_init v = Inr v"
begin

lemma constructed_iff: "(\<exists>raw. post_init raw = Inr v) \<longleftrightarrow> wf v"
  using post_init_wf post_init_id by blast

lemma revalidation: "post_init raw = Inr v \<Longrightarrow> post_init v = Inr v"
  by (rule post_init_id) (rule post_init_wf)

text \<open>\<^verbatim>\<open>dataclasses.replace\<close> runs \<^verbatim>\<open>__post_init__\<close> again: an accepted change is well formed.\<close>

lemma commands_wf:
  assumes "fold_res step x cmds = Inr y" "wf x"
    and "\<And>u c v. c \<in> set cmds \<Longrightarrow> wf u \<Longrightarrow> step u c = Inr v \<Longrightarrow> v = u \<or> (\<exists>raw. post_init raw = Inr v)"
  shows "wf y"
  using assms(1,2) by (rule fold_res_invariant) (use assms(3) post_init_wf in blast)

end

section \<open>Lifecycles\<close>

locale lifecycle =
  fixes status :: "'a \<Rightarrow> 's"
    and allowed :: "'s \<Rightarrow> 's set"
    and transition :: "'a \<Rightarrow> 's \<Rightarrow> 'a res"
  assumes transition_same: "transition x (status x) = Inr x"
    and transition_status: "transition x t = Inr y \<Longrightarrow> status y = t"
    and transition_refused: "t \<noteq> status x \<Longrightarrow> t \<notin> allowed (status x) \<Longrightarrow> \<exists>e. transition x t = Inl e"
begin

lemma transition_allowed:
  "transition x t = Inr y \<Longrightarrow> y = x \<or> t \<in> allowed (status x)"
proof -
  assume t: "transition x t = Inr y"
  show ?thesis
  proof (cases "t = status x")
    case True
    then show ?thesis using t transition_same [of x] by simp
  next
    case False
    then show ?thesis using t transition_refused [of t x] by auto
  qed
qed

lemma run_path:
  "fold_res transition x ts = Inr y \<Longrightarrow> (status x, status y) \<in> {(s, t). t \<in> allowed s}\<^sup>*"
proof (induction ts arbitrary: x)
  case (Cons t ts)
  then obtain u where u: "transition x t = Inr u" "fold_res transition u ts = Inr y"
    by (auto simp: res_simps)
  have "(status x, status u) \<in> {(s, t). t \<in> allowed s}\<^sup>*"
    using transition_allowed [OF u(1)] transition_status [OF u(1)] by auto
  also have "(status u, status y) \<in> {(s, t). t \<in> allowed s}\<^sup>*"
    by (rule Cons.IH) (rule u(2))
  finally show ?case .
qed simp

lemma run_terminal:
  "allowed (status x) = {} \<Longrightarrow> fold_res transition x ts = Inr y \<Longrightarrow> y = x"
proof (induction ts)
  case (Cons t ts)
  then obtain u where u: "transition x t = Inr u" "fold_res transition u ts = Inr y"
    by (auto simp: res_simps)
  then have "u = x" using transition_allowed [OF u(1)] Cons.prems(1) by simp
  with Cons u show ?case by simp
qed simp

end

text \<open>A lifecycle whose statuses fall into phases that no transition leaves backwards.\<close>

locale phased_lifecycle = lifecycle +
  fixes phase :: "'s \<Rightarrow> nat"
  assumes allowed_phase: "t \<in> allowed s \<Longrightarrow> phase s \<le> phase t"
begin

lemma path_phase: "(s, t) \<in> {(s, t). t \<in> allowed s}\<^sup>* \<Longrightarrow> phase s \<le> phase t"
  by (induction rule: rtrancl_induct) (auto dest: allowed_phase)

lemma run_phase:
  "fold_res transition x ts = Inr y \<Longrightarrow> phase (status x) \<le> phase (status y)"
  by (rule path_phase) (rule run_path)

end

section \<open>Snapshots as payloads\<close>

text \<open>
  The JSON object a snapshot is stored as: a dictionary with scalar values.  \<open>py_str\<close> is \<^verbatim>\<open>str(value)\<close>,
  \<open>text_at\<close> is \<^verbatim>\<open>str(payload[key])\<close>, and \<open>opt_text_at\<close> the same with \<^verbatim>\<open>None\<close> for a missing or null
  entry.
\<close>

datatype scalar = JNull | JBool bool | JInt int | JStr pystr

type_synonym payload = "string \<rightharpoonup> scalar"

fun py_str :: "scalar \<Rightarrow> pystr" where
  "py_str JNull = lit ''None''"
| "py_str (JBool b) = (if b then lit ''True'' else lit ''False'')"
| "py_str (JInt n) = int_str n"
| "py_str (JStr s) = s"

definition value_at :: "payload \<Rightarrow> string \<Rightarrow> scalar res" where
  "value_at p k = (case p k of None \<Rightarrow> Inl Key_Error | Some v \<Rightarrow> Inr v)"

definition text_at :: "payload \<Rightarrow> string \<Rightarrow> pystr res" where
  "text_at p k = then_res (value_at p k) (\<lambda>v. Inr (py_str v))"

definition opt_text_at :: "payload \<Rightarrow> string \<Rightarrow> pystr option" where
  "opt_text_at p k =
     (case p k of None \<Rightarrow> None | Some JNull \<Rightarrow> None | Some v \<Rightarrow> Some (py_str v))"

definition opt_str :: "pystr option \<Rightarrow> scalar" where
  "opt_str x = (case x of None \<Rightarrow> JNull | Some s \<Rightarrow> JStr s)"

lemma value_at_upd [simp]:
  "value_at (p(k \<mapsto> v)) j = (if j = k then Inr v else value_at p j)"
  by (simp add: value_at_def)

lemma text_at_upd [simp]:
  "text_at (p(k \<mapsto> v)) j = (if j = k then Inr (py_str v) else text_at p j)"
  by (simp add: text_at_def)

lemma opt_text_at_upd [simp]:
  "opt_text_at (p(k \<mapsto> opt_str x)) j = (if j = k then x else opt_text_at p j)"
  "j \<noteq> k \<Longrightarrow> opt_text_at (p(k \<mapsto> v)) j = opt_text_at p j"
  by (simp_all add: opt_text_at_def opt_str_def split: option.splits)

text \<open>
  \<open>int_at\<close> is \<^verbatim>\<open>int(payload[key])\<close>, \<open>bool_at\<close> is \<^verbatim>\<open>bool(payload[key])\<close>, \<open>get_at\<close> is
  \<^verbatim>\<open>payload.get(key)\<close>; \<open>parse_enum\<close> is the lookup of a member of an enumeration by its value.
\<close>

fun int_of_scalar :: "scalar \<Rightarrow> int res" where
  "int_of_scalar JNull = Inl Type_Error"
| "int_of_scalar (JBool b) = Inr (if b then 1 else 0)"
| "int_of_scalar (JInt n) = Inr n"
| "int_of_scalar (JStr s) = (case py_int 10 s of None \<Rightarrow> Inl Value_Error | Some n \<Rightarrow> Inr n)"

fun truthy :: "scalar \<Rightarrow> bool" where
  "truthy JNull \<longleftrightarrow> False"
| "truthy (JBool b) \<longleftrightarrow> b"
| "truthy (JInt n) \<longleftrightarrow> n \<noteq> 0"
| "truthy (JStr s) \<longleftrightarrow> s \<noteq> []"

definition int_at :: "payload \<Rightarrow> string \<Rightarrow> int res" where
  "int_at p k = then_res (value_at p k) int_of_scalar"

definition bool_at :: "payload \<Rightarrow> string \<Rightarrow> bool res" where
  "bool_at p k = then_res (value_at p k) (\<lambda>v. Inr (truthy v))"

definition opt_int_at :: "payload \<Rightarrow> string \<Rightarrow> int option res" where
  "opt_int_at p k =
     (case p k of None \<Rightarrow> Inr None | Some JNull \<Rightarrow> Inr None
      | Some v \<Rightarrow> then_res (int_of_scalar v) (\<lambda>n. Inr (Some n)))"

definition opt_int :: "int option \<Rightarrow> scalar" where
  "opt_int x = (case x of None \<Rightarrow> JNull | Some n \<Rightarrow> JInt n)"

definition uuid_at :: "payload \<Rightarrow> string \<Rightarrow> uuid res" where
  "uuid_at p k = then_res (text_at p k)
     (\<lambda>s. case parse_uuid s of None \<Rightarrow> Inl Value_Error | Some u \<Rightarrow> Inr u)"

lemma int_at_upd [simp]:
  "int_at (p(k \<mapsto> v)) j = (if j = k then int_of_scalar v else int_at p j)"
  by (simp add: int_at_def)

lemma bool_at_upd [simp]:
  "bool_at (p(k \<mapsto> v)) j = (if j = k then Inr (truthy v) else bool_at p j)"
  by (simp add: bool_at_def)

lemma uuid_at_upd [simp]:
  "uuid_at (p(k \<mapsto> JStr (uuid_str u))) k = Inr u"
  "j \<noteq> k \<Longrightarrow> uuid_at (p(k \<mapsto> v)) j = uuid_at p j"
  by (simp_all add: uuid_at_def parse_uuid_str)

lemma opt_int_at_upd [simp]:
  "opt_int_at (p(k \<mapsto> opt_int x)) k = Inr x"
  "j \<noteq> k \<Longrightarrow> opt_int_at (p(k \<mapsto> v)) j = opt_int_at p j"
  by (simp_all add: opt_int_at_def opt_int_def split: option.splits)

fun parse_enum :: "('a \<Rightarrow> pystr) \<Rightarrow> 'a list \<Rightarrow> pystr \<Rightarrow> 'a res" where
  "parse_enum value [] s = Inl Value_Error"
| "parse_enum value (x # xs) s = (if value x = s then Inr x else parse_enum value xs s)"

lemma parse_enum_value:
  "x \<in> set xs \<Longrightarrow> inj_on value (set xs) \<Longrightarrow> parse_enum value xs (value x) = Inr x"
  by (induction xs) (auto simp: inj_on_def)

locale codec =
  fixes encode :: "'a \<Rightarrow> payload"
    and decode :: "payload \<Rightarrow> 'a res"
    and wf :: "'a \<Rightarrow> bool"
  assumes decode_encode: "wf v \<Longrightarrow> decode (encode v) = Inr v"
begin

lemma encode_inj: "wf v \<Longrightarrow> wf w \<Longrightarrow> encode v = encode w \<Longrightarrow> v = w"
  by (metis decode_encode sum.inject(2))

end

section \<open>Failed one-time codes\<close>

locale attempt_counter =
  fixes limit :: int
    and after_failure :: "int \<Rightarrow> (int \<times> bool) res"
  assumes limit_pos: "0 < limit"
    and after_failure_ok: "0 \<le> n \<Longrightarrow> n < limit \<Longrightarrow> after_failure n = Inr (n + 1, n + 1 \<ge> limit)"
    and after_failure_spent: "n < 0 \<or> limit \<le> n \<Longrightarrow> \<exists>e. after_failure n = Inl e"
begin

text \<open>The counter after a number of failures, starting from \<open>n\<close>.\<close>

lemma failures_count:
  "0 \<le> n \<Longrightarrow> n + int (length fs) \<le> limit \<Longrightarrow>
   fold_res (\<lambda>k _. then_res (after_failure k) (\<lambda>d. Inr (fst d))) n fs = Inr (n + int (length fs))"
proof (induction fs arbitrary: n)
  case (Cons f fs)
  then have "after_failure n = Inr (n + 1, n + 1 \<ge> limit)"
    by (intro after_failure_ok) simp_all
  with Cons show ?case by (simp add: algebra_simps)
qed simp

lemma locked_iff_last:
  "0 \<le> n \<Longrightarrow> n < limit \<Longrightarrow> (\<exists>k. after_failure n = Inr (k, True)) \<longleftrightarrow> n = limit - 1"
  by (auto simp: after_failure_ok)

text \<open>More than \<open>limit\<close> failures are never counted.\<close>

lemma failures_bounded:
  "0 \<le> n \<Longrightarrow> n \<le> limit \<Longrightarrow> limit < n + int (length fs) \<Longrightarrow>
   \<exists>e. fold_res (\<lambda>k _. then_res (after_failure k) (\<lambda>d. Inr (fst d))) n fs = Inl e"
proof (induction fs arbitrary: n)
  case (Cons f fs)
  show ?case
  proof (cases "n = limit")
    case True
    then obtain e where "after_failure n = Inl e" using after_failure_spent [of n] by auto
    then show ?thesis by simp
  next
    case False
    then have "after_failure n = Inr (n + 1, n + 1 \<ge> limit)"
      using Cons.prems by (intro after_failure_ok) simp_all
    then show ?thesis using Cons.IH [of "n + 1"] Cons.prems False by simp
  qed
qed simp

end

section \<open>Expiring credentials\<close>

locale expiring =
  fixes usable :: "'a \<Rightarrow> datetime \<Rightarrow> bool res"
    and expiry :: "'a \<Rightarrow> datetime"
  assumes usable_naive: "\<not> aware m \<Longrightarrow> \<exists>e. usable x m = Inl e"
    and usable_aware: "aware m \<Longrightarrow> \<exists>b. usable x m = Inr b"
    and usable_expiry: "usable x m = Inr True \<Longrightarrow> instant m < instant (expiry x)"
    and usable_before:
      "usable x m = Inr True \<Longrightarrow> aware m' \<Longrightarrow> instant m' \<le> instant m \<Longrightarrow> usable x m' = Inr True"
begin

lemma expired_forever:
  assumes "aware m" "usable x m = Inr False" "aware m'" "instant m \<le> instant m'"
  shows "usable x m' = Inr False"
  using usable_before [of x m' m] usable_aware [OF assms(3), of x] assms by auto

lemma not_usable_at_expiry:
  "aware m \<Longrightarrow> instant (expiry x) \<le> instant m \<Longrightarrow> usable x m = Inr False"
  using usable_aware [of m x] usable_expiry [of x m] by auto

end

section \<open>Follow-up trackers\<close>

text \<open>
  The protocol \<^verbatim>\<open>DeliveryFollowUp\<close>: a request names a key (the order) and says whether its follow-up is
  needed; \<open>ident\<close> is the fresh identifier a request may use.  A batch of requests for different keys
  leaves exactly what the requests say.
\<close>

locale follow_up_tracker =
  fixes ok :: "'s \<Rightarrow> bool"
    and used :: "'s \<Rightarrow> 'i set"
    and is_open :: "'s \<Rightarrow> 'k \<Rightarrow> bool"
    and request :: "'j \<Rightarrow> 'r \<Rightarrow> 's \<Rightarrow> 's"
    and ident :: "'j \<Rightarrow> 'i"
    and key :: "'r \<Rightarrow> 'k"
    and needed :: "'r \<Rightarrow> bool"
  assumes request_ok: "ok s \<Longrightarrow> ident j \<notin> used s \<Longrightarrow> ok (request j r s)"
    and request_used: "used (request j r s) \<subseteq> insert (ident j) (used s)"
    and request_open: "ok s \<Longrightarrow> ident j \<notin> used s \<Longrightarrow> is_open (request j r s) (key r) \<longleftrightarrow> needed r"
    and request_other: "ok s \<Longrightarrow> ident j \<notin> used s \<Longrightarrow> k \<noteq> key r \<Longrightarrow> is_open (request j r s) k \<longleftrightarrow> is_open s k"
begin

definition batch :: "('j \<times> 'r) list \<Rightarrow> 's \<Rightarrow> 's" where
  "batch jobs s = fold (\<lambda>(j, r). request j r) jobs s"

lemma batch_simps: "batch [] s = s" "batch ((j, r) # jobs) s = batch jobs (request j r s)"
  by (simp_all add: batch_def)

lemma batch_used: "used (batch jobs s) \<subseteq> (ident \<circ> fst) ` set jobs \<union> used s"
proof (induction jobs arbitrary: s)
  case (Cons x jobs)
  obtain j r where x: "x = (j, r)" by (cases x)
  show ?case using Cons.IH [of "request j r s"] request_used [of j r s] unfolding x batch_simps by auto
qed (simp add: batch_simps)

lemma batch_result:
  assumes "ok s" "distinct (map (ident \<circ> fst) jobs)" "\<forall>x \<in> set jobs. ident (fst x) \<notin> used s"
    "distinct (map (key \<circ> snd) jobs)"
  shows "ok (batch jobs s)
    \<and> (\<forall>x \<in> set jobs. is_open (batch jobs s) (key (snd x)) \<longleftrightarrow> needed (snd x))
    \<and> (\<forall>k. k \<notin> (key \<circ> snd) ` set jobs \<longrightarrow> (is_open (batch jobs s) k \<longleftrightarrow> is_open s k))"
  using assms
proof (induction jobs arbitrary: s)
  case (Cons x jobs)
  obtain j r where x: "x = (j, r)" by (cases x)
  let ?s = "request j r s"
  have fresh: "ok s" "ident j \<notin> used s" using Cons.prems x by auto
  have "ok ?s" using fresh by (rule request_ok)
  moreover have "\<forall>y \<in> set jobs. ident (fst y) \<notin> used ?s"
  proof
    fix y assume y: "y \<in> set jobs"
    then have "ident (fst y) \<noteq> ident j" "ident (fst y) \<notin> used s"
      using Cons.prems(2,3) x by (auto simp: image_iff)
    then show "ident (fst y) \<notin> used ?s" using request_used [of j r s] by blast
  qed
  ultimately have IH: "ok (batch jobs ?s)"
    "\<forall>y \<in> set jobs. is_open (batch jobs ?s) (key (snd y)) \<longleftrightarrow> needed (snd y)"
    "\<forall>k. k \<notin> (key \<circ> snd) ` set jobs \<longrightarrow> (is_open (batch jobs ?s) k \<longleftrightarrow> is_open ?s k)"
    using Cons.IH [of ?s] Cons.prems by auto
  have new: "key r \<notin> (key \<circ> snd) ` set jobs" using Cons.prems(4) x by auto
  have first: "is_open (batch jobs ?s) (key r) \<longleftrightarrow> needed r"
    using IH(3) new request_open [OF fresh, of r] by blast
  have rest: "is_open (batch jobs ?s) k \<longleftrightarrow> is_open s k" if "k \<notin> (key \<circ> snd) ` set (x # jobs)" for k
    using that IH(3) request_other [OF fresh, of k r] x by auto
  show ?case
    unfolding x batch_simps using IH(1,2) first rest by (auto simp: x)
qed (simp add: batch_simps)

end

end
