(* ===== verification/Charity_Actions.thy ===== *)
theory Charity_Actions
  imports Contracts
begin

text \<open>
  \<^verbatim>\<open>domain/actions.py\<close>: the charity action, its lifecycle, publication window, goal, beneficiaries,
  public alias and responsible administrators.  Each frozen dataclass is a record, its
  \<^verbatim>\<open>__post_init__\<close> a function from the raw field values to an error or the accepted value, and
  \<^verbatim>\<open>replace(self, ...)\<close> that function after a record update.
\<close>

section \<open>Statuses and capabilities\<close>

datatype action_status = Draft | Scheduled | Active | Completed | Archived

fun allowed_action_transitions :: "action_status \<Rightarrow> action_status set" where
  "allowed_action_transitions Draft = {Scheduled}"
| "allowed_action_transitions Scheduled = {Draft, Active}"
| "allowed_action_transitions Active = {Completed}"
| "allowed_action_transitions Completed = {Archived}"
| "allowed_action_transitions Archived = {}"

datatype capability = Acquisition | Offerings | Ordering | Invoicing | Delivery

definition capability_dependency_problem :: "capability set \<Rightarrow> err option" where
  "capability_dependency_problem caps =
     (if Ordering \<in> caps \<and> Offerings \<notin> caps
      then Some (Invariant ''action_capability_dependency_invalid'')
      else if Delivery \<in> caps \<and> Ordering \<notin> caps
      then Some (Invariant ''action_capability_dependency_invalid'')
      else None)"

definition capabilities_closed :: "capability set \<Rightarrow> bool" where
  "capabilities_closed caps \<longleftrightarrow>
     (Ordering \<in> caps \<longrightarrow> Offerings \<in> caps) \<and> (Delivery \<in> caps \<longrightarrow> Ordering \<in> caps)"

lemma capability_dependency_None:
  "capability_dependency_problem caps = None \<longleftrightarrow> capabilities_closed caps"
  by (auto simp: capability_dependency_problem_def capabilities_closed_def)

section \<open>Publication window, alias, administrators\<close>

record publication_window =
  pw_starts_at :: datetime
  pw_ends_at :: datetime

definition publication_window_init :: "publication_window \<Rightarrow> publication_window res" where
  "publication_window_init w =
     (if \<not> aware (pw_starts_at w) \<or> \<not> aware (pw_ends_at w)
      then Inl (Invariant ''action_publication_timezone_required'')
      else if instant (pw_starts_at w) > instant (pw_ends_at w)
      then Inl (Invariant ''action_publication_period_invalid'')
      else Inr w)"

definition wf_publication_window :: "publication_window \<Rightarrow> bool" where
  "wf_publication_window w \<longleftrightarrow> aware (pw_starts_at w) \<and> aware (pw_ends_at w)
     \<and> instant (pw_starts_at w) \<le> instant (pw_ends_at w)"

definition reserved_public_aliases :: "pystr list" where
  "reserved_public_aliases = map lit
     [''_health'', ''_actions'', ''_astro'', ''_campaign-assets'', ''_emdash'', ''_image'',
      ''_server-islands'', ''admin'', ''api'', ''app'', ''archive'', ''campaigns'', ''crm'',
      ''email-change'', ''fresh-login'', ''health'', ''invite'', ''login'', ''mail'', ''mailing'']"

definition public_action_alias :: "pystr \<Rightarrow> pystr res" where
  "public_action_alias value =
     (if \<not> slug value then Inl (Invariant ''action_public_alias_invalid'')
      else if value \<in> set reserved_public_aliases
      then Inl (Invariant ''action_public_alias_reserved'')
      else Inr value)"

record administrator_option =
  ao_user_id :: uuid
  ao_display_name :: pystr
  ao_email :: pystr
  ao_is_available :: bool
  ao_is_responsible :: bool

definition administrator_option_init :: "administrator_option \<Rightarrow> administrator_option res" where
  "administrator_option_init a =
     (if blank (ao_display_name a) \<or> blank (ao_email a)
      then Inl (Invariant ''action_administrator_identity_incomplete'') else Inr a)"

section \<open>Goal\<close>

text \<open>\<^verbatim>\<open>decimal.Decimal\<close>: a finite value is \<open>coefficient * 10 ^ exponent\<close>; ordering a NaN raises.\<close>

datatype decimal = Finite int int | Infinite bool | NaN

fun decimal_negative :: "decimal \<Rightarrow> bool res" where
  "decimal_negative (Finite c e) = Inr (c < 0)"
| "decimal_negative (Infinite neg) = Inr neg"
| "decimal_negative NaN = Inl Invalid_Operation"

fun too_precise :: "decimal \<Rightarrow> bool" where
  "too_precise (Finite c e) \<longleftrightarrow> e < - 4"
| "too_precise d \<longleftrightarrow> False"

record action_goal =
  ag_goal_value :: "decimal option"
  ag_actual_value :: decimal
  ag_unit :: "pystr option"
  ag_currency :: "pystr option"

definition refuse_negative :: "decimal \<Rightarrow> string \<Rightarrow> unit res" where
  "refuse_negative d code =
     then_res (decimal_negative d) (\<lambda>neg. if neg then Inl (Invariant code) else Inr ())"

definition action_goal_init :: "action_goal \<Rightarrow> action_goal res" where
  "action_goal_init g =
     then_res (case ag_goal_value g of None \<Rightarrow> Inr ()
               | Some v \<Rightarrow> refuse_negative v ''action_goal_negative'') (\<lambda>_.
     then_res (refuse_negative (ag_actual_value g) ''action_actual_negative'') (\<lambda>_.
     if (ag_goal_value g = None) \<noteq> (ag_unit g = None)
     then Inl (Invariant ''action_goal_unit_incomplete'')
     else if (case ag_unit g of None \<Rightarrow> False | Some u \<Rightarrow> blank u)
     then Inl (Invariant ''action_goal_unit_empty'')
     else if (case ag_goal_value g of None \<Rightarrow> False | Some v \<Rightarrow> too_precise v)
     then Inl (Invariant ''action_goal_precision'')
     else if too_precise (ag_actual_value g) then Inl (Invariant ''action_actual_precision'')
     else if (case ag_currency g of None \<Rightarrow> False | Some c \<Rightarrow> \<not> three_letters c)
     then Inl (Invariant ''action_currency_invalid'')
     else if (case ag_currency g of None \<Rightarrow> False | Some c \<Rightarrow> \<not> is_upper_form c)
     then Inl (Invariant ''action_currency_invalid'')
     else Inr g))"

definition opt_all :: "('a \<Rightarrow> bool) \<Rightarrow> 'a option \<Rightarrow> bool" where
  "opt_all p x \<longleftrightarrow> (case x of None \<Rightarrow> True | Some v \<Rightarrow> p v)"

lemma opt_all_simps [simp]: "opt_all p None" "opt_all p (Some v) \<longleftrightarrow> p v"
  by (simp_all add: opt_all_def)

definition wf_action_goal :: "action_goal \<Rightarrow> bool" where
  "wf_action_goal g \<longleftrightarrow>
     opt_all (\<lambda>v. decimal_negative v = Inr False \<and> \<not> too_precise v) (ag_goal_value g)
     \<and> decimal_negative (ag_actual_value g) = Inr False \<and> \<not> too_precise (ag_actual_value g)
     \<and> (ag_goal_value g = None \<longleftrightarrow> ag_unit g = None) \<and> opt_all (\<lambda>u. \<not> blank u) (ag_unit g)
     \<and> opt_all (\<lambda>c. three_letters c \<and> is_upper_form c) (ag_currency g)"

section \<open>Beneficiaries and the action\<close>

record beneficiary =
  bf_id :: uuid
  bf_action_id :: uuid
  bf_organization_name :: pystr
  bf_public_description :: pystr
  bf_sort_order :: int

definition beneficiary_init :: "beneficiary \<Rightarrow> beneficiary res" where
  "beneficiary_init b =
     (if blank (bf_organization_name b) then Inl (Invariant ''beneficiary_name_empty'')
      else if blank (bf_public_description b)
      then Inl (Invariant ''beneficiary_description_empty'')
      else if bf_sort_order b < 0 then Inl (Invariant ''beneficiary_sort_order_negative'')
      else Inr b)"

record charity_action =
  ca_id :: uuid
  ca_carrier_name :: pystr
  ca_name :: pystr
  ca_purpose :: pystr
  ca_status :: action_status
  ca_starts_on :: date
  ca_ends_on :: date
  ca_archive_slug :: pystr
  ca_capabilities :: "capability set"
  ca_beneficiaries :: "beneficiary list"
  ca_goal :: action_goal
  ca_publication_window :: "publication_window option"
  ca_revision :: int
  ca_presentation_theme :: "pystr option"

definition theme_ok :: "pystr option \<Rightarrow> bool" where
  "theme_ok t \<longleftrightarrow> opt_all (\<lambda>s. length s \<le> 64 \<and> slug s) t"

definition beneficiary_key :: "beneficiary \<Rightarrow> pystr" where
  "beneficiary_key b = casefold (collapse (bf_organization_name b))"

definition charity_action_init :: "charity_action \<Rightarrow> charity_action res" where
  "charity_action_init a =
     (if \<not> theme_ok (ca_presentation_theme a)
      then Inl (Invariant ''action_presentation_theme_invalid'')
      else if blank (ca_carrier_name a) then Inl (Invariant ''action_carrier_empty'')
      else if blank (ca_name a) then Inl (Invariant ''action_name_empty'')
      else if blank (ca_purpose a) then Inl (Invariant ''action_purpose_empty'')
      else if blank (ca_archive_slug a) then Inl (Invariant ''action_archive_slug_empty'')
      else if \<not> slug (ca_archive_slug a) then Inl (Invariant ''action_archive_slug_invalid'')
      else if ca_starts_on a > ca_ends_on a then Inl (Invariant ''action_period_invalid'')
      else if ca_revision a \<le> 0 then Inl (Invariant ''action_revision_invalid'')
      else if ca_beneficiaries a = [] then Inl (Invariant ''action_beneficiary_required'')
      else if list_ex (\<lambda>b. bf_action_id b \<noteq> ca_id a) (ca_beneficiaries a)
      then Inl (Invariant ''action_beneficiary_mismatch'')
      else if has_duplicate (map beneficiary_key (ca_beneficiaries a))
      then Inl (Invariant ''action_beneficiary_duplicate'')
      else case capability_dependency_problem (ca_capabilities a) of
        Some problem \<Rightarrow> Inl problem
      | None \<Rightarrow> Inr a)"

definition wf_charity_action :: "charity_action \<Rightarrow> bool" where
  "wf_charity_action a \<longleftrightarrow>
     theme_ok (ca_presentation_theme a)
     \<and> \<not> blank (ca_carrier_name a) \<and> \<not> blank (ca_name a) \<and> \<not> blank (ca_purpose a)
     \<and> slug (ca_archive_slug a) \<and> ca_starts_on a \<le> ca_ends_on a \<and> 0 < ca_revision a
     \<and> ca_beneficiaries a \<noteq> []
     \<and> (\<forall>b \<in> set (ca_beneficiaries a). bf_action_id b = ca_id a)
     \<and> distinct (map beneficiary_key (ca_beneficiaries a))
     \<and> capabilities_closed (ca_capabilities a)"

definition require_mutable :: "charity_action \<Rightarrow> unit res" where
  "require_mutable a =
     (if ca_status a = Archived then Inl (Invariant ''action_archived_immutable'') else Inr ())"

definition action_transition_to :: "charity_action \<Rightarrow> action_status \<Rightarrow> charity_action res" where
  "action_transition_to a target =
     (if target = ca_status a then Inr a
      else if target \<notin> allowed_action_transitions (ca_status a)
      then Inl (Invariant ''action_status_transition_invalid'')
      else charity_action_init (a\<lparr>ca_status := target\<rparr>))"

definition action_with_details ::
  "charity_action \<Rightarrow> pystr \<Rightarrow> pystr \<Rightarrow> pystr \<Rightarrow> date \<Rightarrow> date \<Rightarrow> charity_action res" where
  "action_with_details a carrier_name name purpose starts_on ends_on =
     then_res (require_mutable a) (\<lambda>_.
       charity_action_init (a\<lparr>ca_carrier_name := carrier_name, ca_name := name,
         ca_purpose := purpose, ca_starts_on := starts_on, ca_ends_on := ends_on\<rparr>))"

definition action_with_publication_window ::
  "charity_action \<Rightarrow> publication_window option \<Rightarrow> charity_action res" where
  "action_with_publication_window a w =
     then_res (require_mutable a) (\<lambda>_. charity_action_init (a\<lparr>ca_publication_window := w\<rparr>))"

definition action_is_published_at :: "charity_action \<Rightarrow> datetime \<Rightarrow> bool res" where
  "action_is_published_at a evaluated_at =
     (if \<not> aware evaluated_at
      then Inl (Invariant ''action_publication_evaluation_timezone_required'')
      else Inr (ca_status a = Active
        \<and> (case ca_publication_window a of
             None \<Rightarrow> False
           | Some w \<Rightarrow> instant (pw_starts_at w) \<le> instant evaluated_at
               \<and> instant evaluated_at \<le> instant (pw_ends_at w))))"

definition action_with_goal :: "charity_action \<Rightarrow> action_goal \<Rightarrow> charity_action res" where
  "action_with_goal a goal =
     then_res (require_mutable a) (\<lambda>_. charity_action_init (a\<lparr>ca_goal := goal\<rparr>))"

definition action_with_capabilities ::
  "charity_action \<Rightarrow> capability set \<Rightarrow> charity_action res" where
  "action_with_capabilities a caps =
     (if ca_status a \<notin> {Draft, Scheduled} then Inl (Invariant ''action_capabilities_locked'')
      else charity_action_init (a\<lparr>ca_capabilities := caps\<rparr>))"

definition action_with_beneficiaries ::
  "charity_action \<Rightarrow> beneficiary list \<Rightarrow> charity_action res" where
  "action_with_beneficiaries a bs =
     then_res (require_mutable a) (\<lambda>_. charity_action_init (a\<lparr>ca_beneficiaries := bs\<rparr>))"

definition action_next_revision :: "charity_action \<Rightarrow> charity_action res" where
  "action_next_revision a = charity_action_init (a\<lparr>ca_revision := ca_revision a + 1\<rparr>)"

record action_management_state =
  ms_action :: charity_action
  ms_public_alias :: "pystr option"
  ms_administrator_options :: "administrator_option list"

definition action_management_state_init ::
  "action_management_state \<Rightarrow> action_management_state res" where
  "action_management_state_init m =
     (if has_duplicate (map ao_user_id (ms_administrator_options m))
      then Inl (Invariant ''action_administrator_duplicate'')
      else if \<not> list_ex ao_is_responsible (ms_administrator_options m)
      then Inl (Invariant ''action_responsible_administrator_required'')
      else Inr m)"

section \<open>Validation\<close>

lemma theme_ok_simps [simp]: "theme_ok None" "theme_ok (Some s) \<longleftrightarrow> length s \<le> 64 \<and> slug s"
  by (simp_all add: theme_ok_def)

interpretation publication: validated publication_window_init wf_publication_window
  by unfold_locales
    (auto simp: publication_window_init_def wf_publication_window_def split: if_splits)

interpretation goal: validated action_goal_init wf_action_goal
proof unfold_locales
  fix raw v
  assume "action_goal_init raw = Inr v"
  then show "wf_action_goal v"
    by (auto simp: action_goal_init_def refuse_negative_def wf_action_goal_def opt_all_def res_simps
        split: if_splits option.splits)
next
  fix v
  assume "wf_action_goal v"
  then show "action_goal_init v = Inr v"
    by (auto simp: action_goal_init_def refuse_negative_def wf_action_goal_def opt_all_def
        split: option.splits)
qed

lemma charity_action_init_Inr [res_simps]:
  "charity_action_init raw = Inr v \<longleftrightarrow> v = raw \<and> wf_charity_action raw"
  by (auto simp: charity_action_init_def wf_charity_action_def has_duplicate_iff list_ex_iff
      slug_not_blank split: if_splits option.splits
      simp flip: capability_dependency_None)

interpretation action: validated charity_action_init wf_charity_action
  by unfold_locales (auto simp: res_simps)

section \<open>Commands on an action\<close>

text \<open>Every mutation the application layer performs on an action, as data, so that a history of an
  action is a list.\<close>

datatype action_command =
    Transition action_status
  | Details pystr pystr pystr date date
  | Window "publication_window option"
  | Goal action_goal
  | Capabilities "capability set"
  | Beneficiaries "beneficiary list"
  | Next_Revision

fun action_step :: "charity_action \<Rightarrow> action_command \<Rightarrow> charity_action res" where
  "action_step a (Transition s) = action_transition_to a s"
| "action_step a (Details carrier name purpose starts ends) =
     action_with_details a carrier name purpose starts ends"
| "action_step a (Window w) = action_with_publication_window a w"
| "action_step a (Goal g) = action_with_goal a g"
| "action_step a (Capabilities cs) = action_with_capabilities a cs"
| "action_step a (Beneficiaries bs) = action_with_beneficiaries a bs"
| "action_step a Next_Revision = action_next_revision a"

definition run_action :: "charity_action \<Rightarrow> action_command list \<Rightarrow> charity_action res" where
  "run_action = fold_res action_step"

lemmas action_ops = action_transition_to_def action_with_details_def
  action_with_publication_window_def action_with_goal_def action_with_capabilities_def
  action_with_beneficiaries_def action_next_revision_def require_mutable_def

lemma action_step_cases:
  "action_step a c = Inr b \<Longrightarrow> b = a \<or> (\<exists>raw. charity_action_init raw = Inr b)"
  by (cases c) (auto simp: action_ops res_simps split: if_splits)

lemma run_action_wf:
  "run_action a cs = Inr b \<Longrightarrow> wf_charity_action a \<Longrightarrow> wf_charity_action b"
  unfolding run_action_def
  by (erule action.commands_wf) (auto dest: action_step_cases)

section \<open>Lifecycle\<close>

fun action_phase :: "action_status \<Rightarrow> nat" where
  "action_phase Draft = 0"
| "action_phase Scheduled = 0"
| "action_phase Active = 1"
| "action_phase Completed = 2"
| "action_phase Archived = 3"

interpretation action_life: phased_lifecycle ca_status allowed_action_transitions action_transition_to action_phase
proof unfold_locales
  show "action_transition_to x (ca_status x) = Inr x" for x
    by (simp add: action_transition_to_def)
  show "action_transition_to x t = Inr y \<Longrightarrow> ca_status y = t" for x t y
    by (auto simp: action_transition_to_def res_simps split: if_splits)
  show "t \<noteq> ca_status x \<Longrightarrow> t \<notin> allowed_action_transitions (ca_status x) \<Longrightarrow>
      \<exists>e. action_transition_to x t = Inl e" for x t
    by (auto simp: action_transition_to_def)
  show "t \<in> allowed_action_transitions s \<Longrightarrow> action_phase s \<le> action_phase t" for s t
    by (cases s) auto
qed

lemma action_step_status:
  "action_step a c = Inr b \<Longrightarrow>
     (\<exists>s. c = Transition s \<and> action_transition_to a s = Inr b) \<or> ca_status b = ca_status a"
  by (cases c) (auto simp: action_ops res_simps split: if_splits)

lemma action_step_phase:
  "action_step a c = Inr b \<Longrightarrow> action_phase (ca_status a) \<le> action_phase (ca_status b)"
  using action_step_status [of a c b] action_life.run_phase [of a "[s]" b for s]
  by (auto simp: res_simps)

lemma action_step_capabilities:
  "action_step a c = Inr b \<Longrightarrow> action_phase (ca_status a) \<noteq> 0 \<Longrightarrow>
     ca_capabilities b = ca_capabilities a"
  by (cases c) (auto simp: action_ops res_simps split: if_splits)

lemma action_step_archived:
  "action_step a c = Inr b \<Longrightarrow> ca_status a = Archived \<Longrightarrow> \<exists>n. b = a\<lparr>ca_revision := n\<rparr>"
  by (cases c) (auto simp: action_ops res_simps split: if_splits intro: exI [of _ "ca_revision a"])

lemma run_action_phase:
  "run_action a cs = Inr b \<Longrightarrow> action_phase (ca_status a) \<le> action_phase (ca_status b)"
  unfolding run_action_def
  by (erule fold_res_invariant) (auto dest: action_step_phase)

lemma run_action_capabilities:
  assumes "run_action a cs = Inr b" "action_phase (ca_status a) \<noteq> 0"
  shows "ca_capabilities b = ca_capabilities a"
proof -
  have "action_phase (ca_status b) \<noteq> 0 \<and> ca_capabilities b = ca_capabilities a"
    using assms(1) unfolding run_action_def
  proof (rule fold_res_invariant)
    fix u c v
    assume u: "action_phase (ca_status u) \<noteq> 0 \<and> ca_capabilities u = ca_capabilities a"
      and v: "action_step u c = Inr v"
    show "action_phase (ca_status v) \<noteq> 0 \<and> ca_capabilities v = ca_capabilities a"
      using u action_step_capabilities [OF v] action_step_phase [OF v] by simp
  qed (use assms(2) in simp)
  then show ?thesis ..
qed

lemma run_action_archived:
  assumes "run_action a cs = Inr b" "ca_status a = Archived"
  shows "\<exists>n. b = a\<lparr>ca_revision := n\<rparr>"
  using assms(1) unfolding run_action_def
proof (rule fold_res_invariant)
  show "\<exists>n. a = a\<lparr>ca_revision := n\<rparr>" by (rule exI [of _ "ca_revision a"]) simp
  fix u c v
  assume ex: "\<exists>n. u = a\<lparr>ca_revision := n\<rparr>" and v: "action_step u c = Inr v"
  obtain n where u: "u = a\<lparr>ca_revision := n\<rparr>" using ex ..
  then show "\<exists>n. v = a\<lparr>ca_revision := n\<rparr>"
    using action_step_archived [OF v] assms(2) by auto
qed

section \<open>Examples\<close>

definition sample_beneficiary :: beneficiary where
  "sample_beneficiary = \<lparr>bf_id = 2, bf_action_id = 1, bf_organization_name = lit ''Kinderhilfe'',
     bf_public_description = lit ''Hilfe vor Ort'', bf_sort_order = 0\<rparr>"

definition sample_action :: "action_status \<Rightarrow> charity_action" where
  "sample_action s = \<lparr>ca_id = 1, ca_carrier_name = lit ''Leo Club'', ca_name = lit ''Stollen'',
     ca_purpose = lit ''Spenden'', ca_status = s, ca_starts_on = 700000, ca_ends_on = 700100,
     ca_archive_slug = lit ''stollen-2025'', ca_capabilities = {Offerings, Ordering},
     ca_beneficiaries = [sample_beneficiary],
     ca_goal = \<lparr>ag_goal_value = None, ag_actual_value = Finite 0 0, ag_unit = None,
       ag_currency = None\<rparr>,
     ca_publication_window = Some \<lparr>pw_starts_at = utc 10, pw_ends_at = utc 20\<rparr>,
     ca_revision = 1, ca_presentation_theme = None\<rparr>"

lemma sample_action_wf: "wf_charity_action (sample_action s)"
proof -
  have "slug (lit ''stollen-2025'')" "\<not> blank (lit ''Leo Club'')" "\<not> blank (lit ''Stollen'')"
    "\<not> blank (lit ''Spenden'')"
    by code_simp+
  then show ?thesis
    by (simp add: wf_charity_action_def sample_action_def capabilities_closed_def
        sample_beneficiary_def)
qed

section \<open>Properties\<close>

text \<open>
  C24: A charity action keeps its invariants through every history of its operations, and once activated
  its life only moves forward: whatever sequence of commands (status transitions, details, publication window,
  goal, capabilities, beneficiaries, revision) is accepted, the result is again well formed (dates in
  order, at least one beneficiary of this action, no two with the same normalised name, capability
  dependencies closed).  A draft and a scheduled action may turn into each other; an active one never returns to
  these, a completed one is completed or archived ever after, an archived one stays archived.  The capabilities are
  frozen once the action has been activated, and of an archived action nothing but the revision ever changes.
\<close>
theorem action_history:
  assumes "run_action a cs = Inr b" "wf_charity_action a"
  shows "wf_charity_action b
    \<and> (ca_status a = Active \<longrightarrow> ca_status b \<in> {Active, Completed, Archived})
    \<and> (ca_status a = Completed \<longrightarrow> ca_status b \<in> {Completed, Archived})
    \<and> (ca_status a \<notin> {Draft, Scheduled} \<longrightarrow> ca_capabilities b = ca_capabilities a)
    \<and> (ca_status a = Archived \<longrightarrow> (\<exists>n. b = a\<lparr>ca_revision := n\<rparr>))"
proof -
  have phase: "action_phase (ca_status a) \<le> action_phase (ca_status b)" by (rule run_action_phase [OF assms(1)])
  then have "ca_status a = Active \<longrightarrow> ca_status b \<in> {Active, Completed, Archived}"
    by (cases "ca_status b") auto
  moreover have "ca_status a = Completed \<longrightarrow> ca_status b \<in> {Completed, Archived}"
    using phase by (cases "ca_status b") auto
  moreover have "ca_capabilities b = ca_capabilities a" if active: "ca_status a \<notin> {Draft, Scheduled}"
  proof (rule run_action_capabilities [OF assms(1)])
    show "action_phase (ca_status a) \<noteq> 0" using active by (cases "ca_status a") simp_all
  qed
  ultimately show ?thesis using run_action_wf [OF assms] run_action_archived [OF assms(1)] by (intro conjI impI) blast+
qed

lemma sample_run:
  "run_action (sample_action Scheduled)
     [Transition Active, Next_Revision, Transition Completed, Transition Archived]
   = Inr ((sample_action Archived)\<lparr>ca_revision := 2\<rparr>)"
proof -
  have wf: "wf_charity_action ((sample_action s)\<lparr>ca_revision := 2\<rparr>)" for s
    using sample_action_wf [of s] by (simp add: wf_charity_action_def)
  have s: "(sample_action s)\<lparr>ca_status := t\<rparr> = sample_action t" for s t
    by (simp add: sample_action_def)
  show ?thesis
    using wf [of Active] wf [of Completed] wf [of Archived] sample_action_wf [of Active]
    by (simp add: run_action_def action_ops res_simps s charity_action_init_Inr [THEN iffD2])
       (simp add: sample_action_def)
qed

theorem action_history_witness:
  "wf_charity_action ((sample_action Archived)\<lparr>ca_revision := 2\<rparr>)"
  using action_history [OF sample_run sample_action_wf] by simp

text \<open>
  A public action page is withdrawn for good.  An action shows at a moment only when it is
  active and the moment lies in its publication window (both ends included); once the action is
  completed or archived, no sequence of accepted commands makes it public again at any moment.
\<close>
lemma action_publication:
  assumes "run_action a cs = Inr b" "aware m"
  shows "(action_is_published_at a m = Inr True \<longleftrightarrow>
      ca_status a = Active \<and> (\<exists>w. ca_publication_window a = Some w
        \<and> instant (pw_starts_at w) \<le> instant m \<and> instant m \<le> instant (pw_ends_at w)))
    \<and> (ca_status a \<in> {Completed, Archived} \<longrightarrow> action_is_published_at b m = Inr False)"
proof -
  have "ca_status a \<in> {Completed, Archived} \<Longrightarrow> ca_status b \<noteq> Active"
    using run_action_phase [OF assms(1)] by auto
  then show ?thesis
    using assms(2) by (auto simp: action_is_published_at_def split: option.splits)
qed

lemma action_publication_example:
  "action_is_published_at ((sample_action Archived)\<lparr>ca_revision := 2\<rparr>) (utc 15) = Inr False
   \<and> action_is_published_at (sample_action Active) (utc 15) = Inr True"
proof -
  have "run_action (sample_action Archived) [Next_Revision]
      = Inr ((sample_action Archived)\<lparr>ca_revision := 2\<rparr>)"
    using sample_action_wf [of Archived]
    by (simp add: run_action_def action_ops res_simps wf_charity_action_def
        charity_action_init_Inr [THEN iffD2]) (simp add: sample_action_def)
  from action_publication [OF this, of "utc 15"]
    action_publication [of "sample_action Active" "[]" "sample_action Active" "utc 15"]
  show ?thesis by (simp add: run_action_def) (simp add: sample_action_def)
qed

end
