(* ===== verification/Identity_Access.thy ===== *)
theory Identity_Access
  imports Charity_Actions
begin

text \<open>
  \<^verbatim>\<open>domain/identity.py\<close>, \<^verbatim>\<open>domain/policies.py\<close>, \<^verbatim>\<open>domain/identifiers.py\<close> and \<^verbatim>\<open>domain/platform.py\<close>:
  accounts and their lifecycle, memberships, principals and the role checks built on them, the guard
  that keeps a last administrator, entity identifiers and the platform identity.
\<close>

section \<open>Accounts\<close>

datatype account_status = Invited | Active_Account | Suspended | Archived_Account

datatype global_role = System_Admin | Finance_Reader_Global | Finance_Manager

datatype action_role = Charity_Admin | Acquirer | Finance_Reader | Driver

fun allowed_account_transitions :: "account_status \<Rightarrow> account_status set" where
  "allowed_account_transitions Invited = {Active_Account}"
| "allowed_account_transitions Active_Account = {Suspended, Archived_Account}"
| "allowed_account_transitions Suspended = {Active_Account, Archived_Account}"
| "allowed_account_transitions Archived_Account = {}"

record user_account =
  ua_id :: uuid
  ua_email :: pystr
  ua_display_name :: pystr
  ua_status :: account_status
  ua_email_verified_at :: "datetime option"
  ua_revision :: int

definition user_account_init :: "user_account \<Rightarrow> user_account res" where
  "user_account_init u =
     (if ua_email u \<noteq> casefold (ua_email u) \<or> count_list (ua_email u) 64 \<noteq> 1
         \<or> has_space (ua_email u)
      then Inl (Invariant ''login_email_invalid'')
      else if blank (ua_display_name u) then Inl (Invariant ''display_name_empty'')
      else then_res (require_aware_opt (ua_email_verified_at u)) (\<lambda>_.
        if ua_revision u < 1 then Inl (Invariant ''account_revision_invalid'') else Inr u))"

definition wf_user_account :: "user_account \<Rightarrow> bool" where
  "wf_user_account u \<longleftrightarrow> email_ok (ua_email u) \<and> \<not> blank (ua_display_name u)
     \<and> aware_opt (ua_email_verified_at u) \<and> 1 \<le> ua_revision u"

definition can_authenticate :: "user_account \<Rightarrow> bool" where
  "can_authenticate u \<longleftrightarrow> ua_status u = Active_Account"

definition account_transition_to :: "user_account \<Rightarrow> account_status \<Rightarrow> user_account res" where
  "account_transition_to u target =
     (if target = ua_status u then Inr u
      else if target \<notin> allowed_account_transitions (ua_status u)
      then Inl (Invariant ''account_status_transition_invalid'')
      else user_account_init (u\<lparr>ua_status := target, ua_revision := ua_revision u + 1\<rparr>))"

lemma user_account_init_Inr [res_simps]:
  "user_account_init raw = Inr u \<longleftrightarrow> u = raw \<and> wf_user_account raw"
  by (auto simp: user_account_init_def wf_user_account_def email_ok_def res_simps)

interpretation account: validated user_account_init wf_user_account
  by unfold_locales (auto simp: res_simps)

fun account_phase :: "account_status \<Rightarrow> nat" where
  "account_phase Invited = 0"
| "account_phase Active_Account = 1"
| "account_phase Suspended = 1"
| "account_phase Archived_Account = 2"

lemma account_transition_Inr:
  "account_transition_to u t = Inr v \<Longrightarrow>
     v = u \<or> t \<in> allowed_account_transitions (ua_status u) \<and> wf_user_account v
       \<and> v = u\<lparr>ua_status := t, ua_revision := ua_revision u + 1\<rparr>"
  by (auto simp: account_transition_to_def res_simps split: if_splits)

interpretation account_life: phased_lifecycle ua_status allowed_account_transitions account_transition_to account_phase
proof unfold_locales
  show "account_transition_to x (ua_status x) = Inr x" for x
    by (simp add: account_transition_to_def)
  show "account_transition_to x t = Inr y \<Longrightarrow> ua_status y = t" for x t y
    by (auto simp: account_transition_to_def res_simps split: if_splits)
  show "t \<noteq> ua_status x \<Longrightarrow> t \<notin> allowed_account_transitions (ua_status x) \<Longrightarrow>
      \<exists>e. account_transition_to x t = Inl e" for x t
    by (auto simp: account_transition_to_def)
  show "t \<in> allowed_account_transitions s \<Longrightarrow> account_phase s \<le> account_phase t" for s t
    by (cases s) auto
qed

section \<open>Memberships and principals\<close>

record action_membership =
  am_id :: uuid
  am_action_id :: uuid
  am_action_name :: pystr
  am_user_id :: uuid
  am_role :: action_role
  am_active_from :: datetime
  am_active_until :: "datetime option"
  am_delegate_user_id :: "uuid option"

definition action_membership_init :: "action_membership \<Rightarrow> action_membership res" where
  "action_membership_init m =
     (if blank (am_action_name m) then Inl (Invariant ''action_name_empty'')
      else then_res (require_aware (am_active_from m)) (\<lambda>_.
      then_res (case am_active_until m of None \<Rightarrow> Inr ()
        | Some until \<Rightarrow> then_res (require_aware until) (\<lambda>_.
            if instant until \<le> instant (am_active_from m)
            then Inl (Invariant ''membership_period_invalid'') else Inr ())) (\<lambda>_.
      if am_delegate_user_id m = Some (am_user_id m)
      then Inl (Invariant ''membership_delegate_invalid'') else Inr m)))"

definition wf_action_membership :: "action_membership \<Rightarrow> bool" where
  "wf_action_membership m \<longleftrightarrow> \<not> blank (am_action_name m) \<and> aware (am_active_from m)
     \<and> opt_all (\<lambda>u. aware u \<and> instant (am_active_from m) < instant u) (am_active_until m)
     \<and> am_delegate_user_id m \<noteq> Some (am_user_id m)"

definition membership_active_at :: "action_membership \<Rightarrow> datetime \<Rightarrow> bool res" where
  "membership_active_at m moment =
     then_res (require_aware moment) (\<lambda>_. Inr (instant (am_active_from m) \<le> instant moment
       \<and> (case am_active_until m of None \<Rightarrow> True | Some until \<Rightarrow> instant moment < instant until)))"

lemma action_membership_init_Inr [res_simps]:
  "action_membership_init raw = Inr m \<longleftrightarrow> m = raw \<and> wf_action_membership raw"
  by (auto simp: action_membership_init_def wf_action_membership_def res_simps
      split: option.splits if_splits)

interpretation membership: validated action_membership_init wf_action_membership
  by unfold_locales (auto simp: res_simps)

record identity_principal =
  ip_account :: user_account
  ip_global_roles :: "global_role set"
  ip_action_memberships :: "action_membership list"

definition identity_principal_init :: "identity_principal \<Rightarrow> identity_principal res" where
  "identity_principal_init p =
     (if list_ex (\<lambda>m. am_user_id m \<noteq> ua_id (ip_account p)) (ip_action_memberships p)
      then Inl (Invariant ''membership_user_mismatch'') else Inr p)"

definition is_system_admin :: "identity_principal \<Rightarrow> bool" where
  "is_system_admin p \<longleftrightarrow> System_Admin \<in> ip_global_roles p"

definition roles_for :: "identity_principal \<Rightarrow> uuid \<Rightarrow> action_role set" where
  "roles_for p action_id =
     set (map am_role (filter (\<lambda>m. am_action_id m = action_id) (ip_action_memberships p)))"

definition can_manage_action_roles :: "identity_principal \<Rightarrow> uuid \<Rightarrow> bool" where
  "can_manage_action_roles p action_id \<longleftrightarrow> is_system_admin p \<or> Charity_Admin \<in> roles_for p action_id"

definition has_action_role :: "identity_principal \<Rightarrow> uuid \<Rightarrow> action_role set \<Rightarrow> bool" where
  "has_action_role p action_id allowed_roles \<longleftrightarrow>
     is_system_admin p \<or> roles_for p action_id \<inter> allowed_roles \<noteq> {}"

definition may_manage_action :: "identity_principal \<Rightarrow> uuid \<Rightarrow> bool" where
  "may_manage_action p action_id = has_action_role p action_id {Charity_Admin}"

datatype policy_surface =
    Action_Management | System_Administration | Detail_Surface | List_Surface | Search_Surface
  | Count_Surface | Export_Surface | Activity_Surface | Document_Surface | Write_Surface

datatype acquisition_access_level = Manage_Access | Assigned_Access

record authorized_party_scope =
  ps_action_id :: uuid
  ps_actor_user_id :: uuid
  ps_access_level :: acquisition_access_level
  ps_company_ids :: "uuid set"
  ps_person_ids :: "uuid set"

definition authorized_party_scope_init :: "authorized_party_scope \<Rightarrow> authorized_party_scope res" where
  "authorized_party_scope_init s =
     (if ps_actor_user_id s = 0 \<or> ps_action_id s = 0
      then Inl (Invariant ''policy_scope_identifier_invalid'') else Inr s)"

definition allows_company :: "authorized_party_scope \<Rightarrow> uuid \<Rightarrow> bool" where
  "allows_company s c \<longleftrightarrow> c \<in> ps_company_ids s"

definition allows_person :: "authorized_party_scope \<Rightarrow> uuid \<Rightarrow> bool" where
  "allows_person s p \<longleftrightarrow> p \<in> ps_person_ids s"

section \<open>The last administrator\<close>

definition open_action_statuses :: "action_status set" where
  "open_action_statuses = {Draft, Scheduled, Active}"

definition charity_admin_required :: "action_status \<Rightarrow> bool" where
  "charity_admin_required s \<longleftrightarrow> s \<in> open_action_statuses"

text \<open>\<open>open_action_leads\<close> is a Python mapping; its \<^verbatim>\<open>items()\<close> are the list, without repeated keys.\<close>

record admin_coverage =
  system_admins :: "uuid set"
  open_action_leads :: "(uuid \<times> uuid set) list"

record access_removal =
  ar_user_id :: uuid
  ar_system_admin :: bool
  ar_lead_actions :: "uuid set option"

definition deactivation :: "uuid \<Rightarrow> access_removal" where
  "deactivation u = \<lparr>ar_user_id = u, ar_system_admin = True, ar_lead_actions = None\<rparr>"

definition system_admin_role :: "uuid \<Rightarrow> access_removal" where
  "system_admin_role u = \<lparr>ar_user_id = u, ar_system_admin = True, ar_lead_actions = Some {}\<rparr>"

definition lead_role :: "uuid \<Rightarrow> uuid \<Rightarrow> access_removal" where
  "lead_role u action_id =
     \<lparr>ar_user_id = u, ar_system_admin = False, ar_lead_actions = Some {action_id}\<rparr>"

datatype admin_invariant = Last_System_Admin | Last_Charity_Admin

definition removal_affects :: "access_removal \<Rightarrow> uuid \<Rightarrow> bool" where
  "removal_affects r action_id \<longleftrightarrow>
     (case ar_lead_actions r of None \<Rightarrow> True | Some actions \<Rightarrow> action_id \<in> actions)"

fun lead_violation :: "access_removal \<Rightarrow> (uuid \<times> uuid set) list \<Rightarrow> admin_invariant option" where
  "lead_violation r [] = None"
| "lead_violation r ((action_id, leads) # items) =
     (if removal_affects r action_id \<and> ar_user_id r \<in> leads \<and> leads - {ar_user_id r} = {}
      then Some Last_Charity_Admin
      else lead_violation r items)"

definition admin_invariant_violation :: "admin_coverage \<Rightarrow> access_removal \<Rightarrow> admin_invariant option" where
  "admin_invariant_violation coverage r =
     (if ar_system_admin r \<and> ar_user_id r \<in> system_admins coverage
         \<and> system_admins coverage - {ar_user_id r} = {}
      then Some Last_System_Admin
      else lead_violation r (open_action_leads coverage))"

section \<open>Identifiers and the platform\<close>

text \<open>\<^verbatim>\<open>UUID.version\<close>: the nibble at bit 76 when the variant bits 63 and 62 are \<open>10\<close>, else \<^verbatim>\<open>None\<close>.\<close>

definition uuid_version :: "uuid \<Rightarrow> int option" where
  "uuid_version u =
     (if bit u 63 \<and> \<not> bit u 62 then Some (uint (and (drop_bit 76 u) 15)) else None)"

definition entity_id_parse :: "pystr \<Rightarrow> uuid res" where
  "entity_id_parse raw =
     (case parse_uuid raw of
        None \<Rightarrow> Inl (Invariant ''entity_id_invalid'')
      | Some v \<Rightarrow> if uuid_version v \<noteq> Some 4 then Inl (Invariant ''entity_id_version_invalid'') else Inr v)"

definition entity_id_str :: "uuid \<Rightarrow> pystr" where
  "entity_id_str = uuid_str"

definition numeric_identifier :: "pystr \<Rightarrow> bool" where
  "numeric_identifier s \<longleftrightarrow> s = [48] \<or> s \<noteq> [] \<and> list_all is_09 s \<and> hd s \<noteq> 48"

definition semver :: "pystr \<Rightarrow> bool" where
  "semver s \<longleftrightarrow> (let parts = split_on 46 s in length parts = 3 \<and> list_all numeric_identifier parts)"

definition api_version_ok :: "pystr \<Rightarrow> bool" where
  "api_version_ok s \<longleftrightarrow>
     s \<noteq> [] \<and> hd s = 118 \<and> tl s \<noteq> [] \<and> list_all is_09 (tl s) \<and> hd (tl s) \<noteq> 48"

definition service_name_ok :: "pystr \<Rightarrow> bool" where
  "service_name_ok = head_rest is_az (\<lambda>c. is_az c \<or> is_09 c \<or> c = 45) 2 62"

record platform_identity =
  pi_service :: pystr
  pi_release :: pystr
  pi_api_version :: pystr

definition platform_identity_init :: "platform_identity \<Rightarrow> platform_identity res" where
  "platform_identity_init p =
     (if \<not> service_name_ok (pi_service p) then Inl (Invariant ''service_name_invalid'')
      else if \<not> semver (pi_release p) then Inl (Invariant ''release_version_invalid'')
      else if \<not> api_version_ok (pi_api_version p) then Inl (Invariant ''api_version_invalid'')
      else Inr p)"

section \<open>What the guard for the last administrator guarantees\<close>

text \<open>The coverage after a removal, and whether somebody still covers everything.\<close>

definition remove_access :: "admin_coverage \<Rightarrow> access_removal \<Rightarrow> admin_coverage" where
  "remove_access c r = \<lparr>
     system_admins = (if ar_system_admin r then system_admins c - {ar_user_id r} else system_admins c),
     open_action_leads = map (\<lambda>(action_id, leads).
       (action_id, if removal_affects r action_id then leads - {ar_user_id r} else leads))
       (open_action_leads c)\<rparr>"

definition managed :: "admin_coverage \<Rightarrow> bool" where
  "managed c \<longleftrightarrow> system_admins c \<noteq> {} \<and> list_all (\<lambda>(_, leads). leads \<noteq> {}) (open_action_leads c)"

text \<open>A command goes through when the guard finds no violation and is refused otherwise.\<close>

definition guarded_removal :: "admin_coverage \<Rightarrow> access_removal \<Rightarrow> admin_coverage" where
  "guarded_removal c r = (if admin_invariant_violation c r = None then remove_access c r else c)"

definition newly_uncovered :: "access_removal \<Rightarrow> uuid \<times> uuid set \<Rightarrow> bool" where
  "newly_uncovered r item \<longleftrightarrow>
     removal_affects r (fst item) \<and> snd item \<noteq> {} \<and> snd item - {ar_user_id r} = {}"

lemma lead_violation_None:
  "lead_violation r items = None \<longleftrightarrow> (\<forall>item \<in> set items. \<not> newly_uncovered r item)"
  by (induction items) (auto simp: newly_uncovered_def split: if_splits)

lemma admin_violation_None:
  "admin_invariant_violation c r = None \<longleftrightarrow>
     \<not> (system_admins c \<noteq> {} \<and> system_admins (remove_access c r) = {})
     \<and> (\<forall>item \<in> set (open_action_leads c). \<not> newly_uncovered r item)"
  by (auto simp: admin_invariant_violation_def remove_access_def lead_violation_None)

lemma managed_remove_access:
  assumes "managed c"
  shows "admin_invariant_violation c r = None \<longleftrightarrow> managed (remove_access c r)"
proof -
  have leads: "\<forall>item \<in> set (open_action_leads c). snd item \<noteq> {}" and admins: "system_admins c \<noteq> {}"
    using assms by (auto simp: managed_def list_all_iff)
  have "list_all (\<lambda>(_, leads). leads \<noteq> {}) (open_action_leads (remove_access c r))
      \<longleftrightarrow> (\<forall>item \<in> set (open_action_leads c). \<not> newly_uncovered r item)"
    using leads unfolding remove_access_def newly_uncovered_def list_all_iff
    by (fastforce split: if_splits prod.splits)
  then show ?thesis using admins by (simp add: admin_violation_None managed_def)
qed

lemma guarded_removals_managed:
  "managed c \<Longrightarrow> managed (foldl guarded_removal c rs)"
  by (induction rs arbitrary: c) (simp_all add: guarded_removal_def managed_remove_access)

section \<open>Histories of an account\<close>

lemma account_run_wf:
  "fold_res account_transition_to u ts = Inr v \<Longrightarrow> wf_user_account u \<Longrightarrow> wf_user_account v"
  by (erule fold_res_invariant) (auto dest: account_transition_Inr)

lemma account_run_revision:
  assumes "fold_res account_transition_to u ts = Inr v"
  shows "v = u \<or> ua_revision u < ua_revision v"
  using assms by (rule fold_res_invariant) (fastforce dest: account_transition_Inr)+

section \<open>Properties\<close>

text \<open>
  C21: The guard never lets the last administrator go.  A removal of access is allowed exactly when it
  takes away neither the last system administrator nor the last lead of an open action, that is, when
  nothing that was covered before is uncovered after it (a gap that exists already blocks nothing);
  for a fully managed installation it is allowed exactly when the installation stays managed.  Hence
  whatever sequence of suspensions, archivals and role removals is attempted, a managed installation
  keeps a system administrator and a lead for every open action.
\<close>
theorem admin_guard:
  "(admin_invariant_violation c r = None \<longleftrightarrow>
      \<not> (system_admins c \<noteq> {} \<and> system_admins (remove_access c r) = {})
      \<and> list_all (\<lambda>item. \<not> newly_uncovered r item) (open_action_leads c))
   \<and> (managed c \<longrightarrow> (admin_invariant_violation c r = None \<longleftrightarrow> managed (remove_access c r)))
   \<and> (managed c \<longrightarrow> managed (foldl guarded_removal c rs))"
  using admin_violation_None [of c r] managed_remove_access [of c r]
    guarded_removals_managed [of c rs]
  by (auto simp: list_all_iff)

theorem admin_guard_witness:
  "managed (foldl guarded_removal \<lparr>system_admins = {1, 2}, open_action_leads = [(7, {2, 3})]\<rparr>
     [deactivation 1, deactivation 2, deactivation 3, lead_role 2 7])"
proof -
  have "managed \<lparr>system_admins = {1, 2}, open_action_leads = [(7, {2, 3})]\<rparr>"
    by (simp add: managed_def)
  then show ?thesis using admin_guard by blast
qed

text \<open>
  An account's history only moves forward.  Through any accepted sequence of status transitions an
  account stays well formed, it never returns to \<open>invited\<close> and never leaves \<open>archived\<close>, its revision
  grows with every change and stays put without one, and an account that may sign in afterwards has
  reached \<open>active\<close> and was not archived before.
\<close>
lemma account_history:
  assumes "fold_res account_transition_to u ts = Inr v" "wf_user_account u"
  shows "wf_user_account v
    \<and> account_phase (ua_status u) \<le> account_phase (ua_status v)
    \<and> (v = u \<or> ua_revision u < ua_revision v)
    \<and> (ua_status u = Archived_Account \<longrightarrow> v = u \<and> \<not> can_authenticate v)"
  using assms account_run_wf account_life.run_phase account_run_revision
    account_life.run_terminal [of u ts v]
  by (auto simp: can_authenticate_def)

definition sample_account :: "account_status \<Rightarrow> user_account" where
  "sample_account s = \<lparr>ua_id = 5, ua_email = lit ''lea@example.org'', ua_display_name = lit ''Lea'',
     ua_status = s, ua_email_verified_at = Some (utc 0), ua_revision = 1\<rparr>"

lemma sample_account_wf: "wf_user_account (sample_account s)"
proof -
  have "email_ok (lit ''lea@example.org'')" "\<not> blank (lit ''Lea'')" by code_simp+
  then show ?thesis by (simp add: wf_user_account_def sample_account_def)
qed

lemma account_history_example:
  "wf_user_account ((sample_account Suspended)\<lparr>ua_revision := 3\<rparr>)"
proof -
  have wf: "wf_user_account ((sample_account s)\<lparr>ua_revision := n\<rparr>)" if "1 \<le> n" for s n
    using sample_account_wf [of s] that by (simp add: wf_user_account_def)
  have up: "(sample_account s)\<lparr>ua_status := t, ua_revision := n\<rparr> = (sample_account t)\<lparr>ua_revision := n\<rparr>"
    for s t n by (simp add: sample_account_def)
  have sel: "ua_status (sample_account s) = s" "ua_revision (sample_account s) = 1" for s
    by (simp_all add: sample_account_def)
  have "fold_res account_transition_to (sample_account Invited) [Active_Account, Suspended]
      = Inr ((sample_account Suspended)\<lparr>ua_revision := 3\<rparr>)"
    using wf [of 2 Active_Account] wf [of 3 Suspended]
    by (simp add: account_transition_to_def user_account_init_Inr [THEN iffD2] up sel)
  from account_history [OF this sample_account_wf] show ?thesis by simp
qed

text \<open>
  Memberships are half-open periods.  Two memberships where the second starts when the first ends
  hand over without gap or overlap: at every moment from the start of the first to the end of the
  second exactly one of them is active, and before and after neither is.
\<close>
lemma membership_handover:
  assumes "wf_action_membership m" "wf_action_membership n" "aware t"
    and "am_active_until m = Some u" "dt_eq u (am_active_from n)" "am_active_until n = Some v"
  shows "((membership_active_at m t = Inr True \<and> membership_active_at n t = Inr False
      \<or> membership_active_at m t = Inr False \<and> membership_active_at n t = Inr True)
    \<longleftrightarrow> instant (am_active_from m) \<le> instant t \<and> instant t < instant v)
    \<and> \<not> (membership_active_at m t = Inr True \<and> membership_active_at n t = Inr True)"
  using assms
  by (auto simp: membership_active_at_def wf_action_membership_def dt_eq_def require_aware_def)

definition sample_membership :: "int \<Rightarrow> int \<Rightarrow> action_membership" where
  "sample_membership a b = \<lparr>am_id = 9, am_action_id = 1, am_action_name = [65], am_user_id = 5,
     am_role = Acquirer, am_active_from = utc a, am_active_until = Some (utc b),
     am_delegate_user_id = None\<rparr>"

lemma membership_handover_example:
  "membership_active_at (sample_membership 10 20) (utc 20) = Inr True
   \<longleftrightarrow> membership_active_at (sample_membership 0 10) (utc 20) = Inr True"
proof -
  have "wf_action_membership (sample_membership a b)" if "a < b" for a b
    using that by (simp add: wf_action_membership_def sample_membership_def blank_def is_space_def)
  from membership_handover [OF this [of 0 10] this [of 10 20], of "utc 20" "utc 10" "utc 20"]
  show ?thesis
    by (simp add: sample_membership_def dt_eq_def comparable_def)
       (auto simp: membership_active_at_def require_aware_def)
qed

lemma role_policy:
  "may_manage_action p a = can_manage_action_roles p a"
  by (auto simp: may_manage_action_def has_action_role_def can_manage_action_roles_def)

text \<open>
  C40: Entity identifiers are exactly the version 4 UUIDs.  Printing and parsing an identifier gives it
  back, every accepted text denotes a version 4 UUID whose printed form is accepted again, and any other
  UUID is refused with its own error.
\<close>
theorem entity_id_roundtrip:
  "entity_id_parse (entity_id_str u) =
     (if uuid_version u = Some 4 then Inr u else Inl (Invariant ''entity_id_version_invalid''))
   \<and> (entity_id_parse raw = Inr v \<longrightarrow> uuid_version v = Some 4 \<and> entity_id_parse (entity_id_str v) = Inr v)"
  by (auto simp: entity_id_parse_def entity_id_str_def parse_uuid_str split: option.splits if_splits)

theorem entity_id_roundtrip_witness:
  "uuid_version 0x12345678123442348234123456789abc = Some 4"
proof -
  have "uuid_version 0x12345678123442348234123456789abc = Some 4" by (simp add: uuid_version_def)
  then have "entity_id_parse (entity_id_str 0x12345678123442348234123456789abc)
      = Inr 0x12345678123442348234123456789abc"
    using entity_id_roundtrip by simp
  then show ?thesis using entity_id_roundtrip by blast
qed

end
