(* ===== verification/Action_Templates.thy ===== *)
theory Action_Templates
  imports Charity_Actions
begin

text \<open>
  \<^verbatim>\<open>domain/action_templates.py\<close>: template offerings and order forms with their payloads, configured
  offerings with their availability, template snapshots, and how a template or an existing action is
  turned into the configuration of a new action.  \<^verbatim>\<open>uuid4()\<close> is a parameter: \<open>fresh i\<close> is the
  result of the \<open>i\<close>-th call.
\<close>

section \<open>Keys and units\<close>

definition template_key :: "pystr \<Rightarrow> pystr res" where
  "template_key value =
     (if length value > 64 \<or> \<not> slug value then Inl (Invariant ''template_key_invalid'') else Inr value)"

datatype offering_status = Offering_Draft | Offering_Active | Offering_Inactive

fun offering_status_value :: "offering_status \<Rightarrow> pystr" where
  "offering_status_value Offering_Draft = lit ''draft''"
| "offering_status_value Offering_Active = lit ''active''"
| "offering_status_value Offering_Inactive = lit ''inactive''"

definition all_offering_status :: "offering_status list" where
  "all_offering_status = [Offering_Draft, Offering_Active, Offering_Inactive]"

datatype offering_unit = Box | Piece | Package | Sponsoring

fun offering_unit_value :: "offering_unit \<Rightarrow> pystr" where
  "offering_unit_value Box = lit ''box''"
| "offering_unit_value Piece = lit ''piece''"
| "offering_unit_value Package = lit ''package''"
| "offering_unit_value Sponsoring = lit ''sponsoring''"

definition all_offering_units :: "offering_unit list" where
  "all_offering_units = [Box, Piece, Package, Sponsoring]"

fun capability_value :: "capability \<Rightarrow> pystr" where
  "capability_value Acquisition = lit ''acquisition''"
| "capability_value Offerings = lit ''offerings''"
| "capability_value Ordering = lit ''ordering''"
| "capability_value Invoicing = lit ''invoicing''"
| "capability_value Delivery = lit ''delivery''"

definition all_capabilities :: "capability list" where
  "all_capabilities = [Acquisition, Offerings, Ordering, Invoicing, Delivery]"

lemma lit_eq_iff: "lit s = lit t \<longleftrightarrow> s = t"
  unfolding lit_def by (rule inj_map_eq_map) (rule inj_onI, simp add: of_char_eq_iff)

lemma parse_offering_status [simp]:
  "parse_enum offering_status_value all_offering_status (offering_status_value s) = Inr s"
  by (cases s) (simp_all add: all_offering_status_def lit_eq_iff)

lemma parse_offering_unit [simp]:
  "parse_enum offering_unit_value all_offering_units (offering_unit_value u) = Inr u"
  by (cases u) (simp_all add: all_offering_units_def lit_eq_iff)

lemma parse_capability [simp]:
  "parse_enum capability_value all_capabilities (capability_value c) = Inr c"
  by (cases c) (simp_all add: all_capabilities_def lit_eq_iff)

section \<open>Template offerings\<close>

record template_offering =
  to_code :: pystr
  to_name :: pystr
  to_status :: offering_status
  to_unit :: offering_unit
  to_pieces_per_unit :: "int option"
  to_unit_price_minor :: int
  to_currency :: pystr

definition template_offering_init :: "template_offering \<Rightarrow> template_offering res" where
  "template_offering_init t =
     (if \<not> slug (to_code t) then Inl (Invariant ''template_offering_code_invalid'')
      else if blank (to_name t) then Inl (Invariant ''template_offering_name_empty'')
      else if (case to_pieces_per_unit t of None \<Rightarrow> False | Some n \<Rightarrow> n \<le> 0)
      then Inl (Invariant ''template_offering_pieces_invalid'')
      else if to_unit t = Box \<and> to_pieces_per_unit t = None
      then Inl (Invariant ''template_box_pieces_required'')
      else if to_unit_price_minor t < 0 then Inl (Invariant ''template_offering_price_negative'')
      else if \<not> three_letters (to_currency t) \<or> \<not> is_upper_form (to_currency t)
      then Inl (Invariant ''template_offering_currency_invalid'')
      else Inr t)"

definition wf_template_offering :: "template_offering \<Rightarrow> bool" where
  "wf_template_offering t \<longleftrightarrow> slug (to_code t) \<and> \<not> blank (to_name t)
     \<and> opt_all (\<lambda>n. 0 < n) (to_pieces_per_unit t)
     \<and> (to_unit t = Box \<longrightarrow> to_pieces_per_unit t \<noteq> None)
     \<and> 0 \<le> to_unit_price_minor t \<and> three_letters (to_currency t) \<and> is_upper_form (to_currency t)"

definition template_offering_payload :: "template_offering \<Rightarrow> payload" where
  "template_offering_payload t = [
     ''code'' \<mapsto> JStr (to_code t), ''name'' \<mapsto> JStr (to_name t),
     ''status'' \<mapsto> JStr (offering_status_value (to_status t)),
     ''unit'' \<mapsto> JStr (offering_unit_value (to_unit t)),
     ''piecesPerUnit'' \<mapsto> opt_int (to_pieces_per_unit t),
     ''unitPriceMinor'' \<mapsto> JInt (to_unit_price_minor t),
     ''currency'' \<mapsto> JStr (to_currency t)]"

definition template_offering_from_payload :: "payload \<Rightarrow> template_offering res" where
  "template_offering_from_payload p =
     then_res (text_at p ''code'') (\<lambda>code.
     then_res (text_at p ''name'') (\<lambda>name.
     then_res (text_at p ''status'') (\<lambda>status_text.
     then_res (parse_enum offering_status_value all_offering_status status_text) (\<lambda>status.
     then_res (text_at p ''unit'') (\<lambda>unit_text.
     then_res (parse_enum offering_unit_value all_offering_units unit_text) (\<lambda>unit.
     then_res (opt_int_at p ''piecesPerUnit'') (\<lambda>pieces.
     then_res (int_at p ''unitPriceMinor'') (\<lambda>price.
     then_res (text_at p ''currency'') (\<lambda>currency.
     template_offering_init \<lparr>to_code = code, to_name = name, to_status = status, to_unit = unit,
       to_pieces_per_unit = pieces, to_unit_price_minor = price, to_currency = currency\<rparr>)))))))))"

lemma template_offering_init_Inr [res_simps]:
  "template_offering_init raw = Inr t \<longleftrightarrow> t = raw \<and> wf_template_offering raw"
  by (auto simp: template_offering_init_def wf_template_offering_def opt_all_def split: option.splits)

interpretation offering_template: validated template_offering_init wf_template_offering
  by unfold_locales (auto simp: res_simps)

interpretation offering_template_codec: codec template_offering_payload template_offering_from_payload wf_template_offering
proof unfold_locales
  fix v :: template_offering
  assume "wf_template_offering v"
  then show "template_offering_from_payload (template_offering_payload v) = Inr v"
    by (cases v)
      (simp add: template_offering_payload_def template_offering_from_payload_def res_simps)
qed

section \<open>Order forms\<close>

record order_form_configuration =
  of_form_key :: pystr
  of_title :: pystr
  of_introduction :: pystr
  of_submit_label :: pystr
  of_require_company_name :: bool
  of_require_contact_name :: bool
  of_require_email :: bool
  of_require_phone :: bool
  of_require_delivery_address :: bool
  of_require_billing_address :: bool
  of_allow_message :: bool

definition order_form_init :: "order_form_configuration \<Rightarrow> order_form_configuration res" where
  "order_form_init f =
     (if \<not> slug (of_form_key f) then Inl (Invariant ''template_form_key_invalid'')
      else if blank (of_title f) then Inl (Invariant ''template_form_title_empty'')
      else if blank (of_introduction f) then Inl (Invariant ''template_form_introduction_empty'')
      else if blank (of_submit_label f) then Inl (Invariant ''template_form_submit_label_empty'')
      else if \<not> of_require_contact_name f \<or> \<not> of_require_email f
      then Inl (Invariant ''template_form_contact_incomplete'')
      else Inr f)"

definition wf_order_form :: "order_form_configuration \<Rightarrow> bool" where
  "wf_order_form f \<longleftrightarrow> slug (of_form_key f) \<and> \<not> blank (of_title f) \<and> \<not> blank (of_introduction f)
     \<and> \<not> blank (of_submit_label f) \<and> of_require_contact_name f \<and> of_require_email f"

definition order_form_payload :: "order_form_configuration \<Rightarrow> payload" where
  "order_form_payload f = [
     ''formKey'' \<mapsto> JStr (of_form_key f), ''title'' \<mapsto> JStr (of_title f),
     ''introduction'' \<mapsto> JStr (of_introduction f), ''submitLabel'' \<mapsto> JStr (of_submit_label f),
     ''requireCompanyName'' \<mapsto> JBool (of_require_company_name f),
     ''requireContactName'' \<mapsto> JBool (of_require_contact_name f),
     ''requireEmail'' \<mapsto> JBool (of_require_email f), ''requirePhone'' \<mapsto> JBool (of_require_phone f),
     ''requireDeliveryAddress'' \<mapsto> JBool (of_require_delivery_address f),
     ''requireBillingAddress'' \<mapsto> JBool (of_require_billing_address f),
     ''allowMessage'' \<mapsto> JBool (of_allow_message f)]"

definition order_form_from_payload :: "payload \<Rightarrow> order_form_configuration res" where
  "order_form_from_payload p =
     then_res (text_at p ''formKey'') (\<lambda>form_key.
     then_res (text_at p ''title'') (\<lambda>title.
     then_res (text_at p ''introduction'') (\<lambda>introduction.
     then_res (text_at p ''submitLabel'') (\<lambda>submit_label.
     then_res (bool_at p ''requireCompanyName'') (\<lambda>company_name.
     then_res (bool_at p ''requireContactName'') (\<lambda>contact_name.
     then_res (bool_at p ''requireEmail'') (\<lambda>email.
     then_res (bool_at p ''requirePhone'') (\<lambda>phone.
     then_res (bool_at p ''requireDeliveryAddress'') (\<lambda>delivery_address.
     then_res (bool_at p ''requireBillingAddress'') (\<lambda>billing_address.
     then_res (bool_at p ''allowMessage'') (\<lambda>allow_message.
     order_form_init \<lparr>of_form_key = form_key, of_title = title, of_introduction = introduction,
       of_submit_label = submit_label, of_require_company_name = company_name,
       of_require_contact_name = contact_name, of_require_email = email, of_require_phone = phone,
       of_require_delivery_address = delivery_address,
       of_require_billing_address = billing_address, of_allow_message = allow_message\<rparr>)))))))))))"

lemma order_form_init_Inr [res_simps]:
  "order_form_init raw = Inr f \<longleftrightarrow> f = raw \<and> wf_order_form raw"
  by (auto simp: order_form_init_def wf_order_form_def)

interpretation order_form: validated order_form_init wf_order_form
  by unfold_locales (auto simp: res_simps)

interpretation order_form_codec: codec order_form_payload order_form_from_payload wf_order_form
proof unfold_locales
  fix v :: order_form_configuration
  assume "wf_order_form v"
  then show "order_form_from_payload (order_form_payload v) = Inr v"
    by (cases v) (simp add: order_form_payload_def order_form_from_payload_def res_simps)
qed

section \<open>Configured offerings and forms\<close>

record configured_offering =
  co_id :: uuid
  co_action_id :: uuid
  co_definition :: template_offering
  co_allowed_quantity_units :: "offering_unit set"
  co_available_from :: "datetime option"
  co_available_until :: "datetime option"

definition configured_offering_init :: "configured_offering \<Rightarrow> configured_offering res" where
  "configured_offering_init o' =
     (if co_allowed_quantity_units o' = {}
         \<or> to_unit (co_definition o') \<notin> co_allowed_quantity_units o'
      then Inl (Invariant ''configured_offering_units_invalid'')
      else if (co_available_from o' = None) \<noteq> (co_available_until o' = None)
      then Inl (Invariant ''configured_offering_period_incomplete'')
      else case (co_available_from o', co_available_until o') of
        (Some from, Some until) \<Rightarrow>
          if \<not> aware from \<or> \<not> aware until
          then Inl (Invariant ''configured_offering_timezone_required'')
          else if instant from \<ge> instant until
          then Inl (Invariant ''configured_offering_period_invalid'')
          else Inr o'
      | _ \<Rightarrow> Inr o')"

definition wf_configured_offering :: "configured_offering \<Rightarrow> bool" where
  "wf_configured_offering o' \<longleftrightarrow>
     to_unit (co_definition o') \<in> co_allowed_quantity_units o'
     \<and> (case (co_available_from o', co_available_until o') of
          (None, None) \<Rightarrow> True
        | (Some from, Some until) \<Rightarrow> aware from \<and> aware until \<and> instant from < instant until
        | _ \<Rightarrow> False)"

definition configured_available_at :: "configured_offering \<Rightarrow> datetime \<Rightarrow> bool res" where
  "configured_available_at o' moment =
     (if to_status (co_definition o') \<noteq> Offering_Active then Inr False
      else if \<not> aware moment
      then Inl (Invariant ''configured_offering_evaluation_timezone_required'')
      else Inr (case (co_available_from o', co_available_until o') of
          (Some from, Some until) \<Rightarrow> instant from \<le> instant moment \<and> instant moment < instant until
        | _ \<Rightarrow> True))"

record configured_order_form =
  cf_id :: uuid
  cf_action_id :: uuid
  cf_configuration :: order_form_configuration
  cf_status :: offering_status

lemma configured_offering_init_Inr [res_simps]:
  "configured_offering_init raw = Inr o' \<longleftrightarrow> o' = raw \<and> wf_configured_offering raw"
  by (auto simp: configured_offering_init_def wf_configured_offering_def split: option.splits)

interpretation configured: validated configured_offering_init wf_configured_offering
  by unfold_locales (auto simp: res_simps)

section \<open>Template snapshots\<close>

record template_snapshot =
  ts_template_key :: pystr
  ts_template_version :: int
  ts_display_name :: pystr
  ts_capabilities :: "capability set"
  ts_offerings :: "template_offering list"
  ts_order_form :: "order_form_configuration option"
  ts_copied_from_action_id :: "uuid option"

definition validate_configuration ::
  "capability set \<Rightarrow> template_offering list \<Rightarrow> order_form_configuration option \<Rightarrow> unit res" where
  "validate_configuration cs offerings form =
     (if has_duplicate (map to_code offerings) then Inl (Invariant ''template_offering_duplicate'')
      else if offerings \<noteq> [] \<and> Offerings \<notin> cs
      then Inl (Invariant ''template_offerings_capability_missing'')
      else case capability_dependency_problem cs of
        Some problem \<Rightarrow> Inl problem
      | None \<Rightarrow>
          if form \<noteq> None \<and> Ordering \<notin> cs
          then Inl (Invariant ''template_ordering_capability_missing'') else Inr ())"

definition valid_configuration ::
  "capability set \<Rightarrow> template_offering list \<Rightarrow> order_form_configuration option \<Rightarrow> bool" where
  "valid_configuration cs offerings form \<longleftrightarrow> distinct (map to_code offerings)
     \<and> (offerings \<noteq> [] \<longrightarrow> Offerings \<in> cs) \<and> capabilities_closed cs
     \<and> (form \<noteq> None \<longrightarrow> Ordering \<in> cs)"

lemma validate_configuration_Inr [res_simps]:
  "validate_configuration cs os f = Inr u \<longleftrightarrow> valid_configuration cs os f"
  by (auto simp: validate_configuration_def valid_configuration_def has_duplicate_iff
      simp flip: capability_dependency_None split: option.splits)

definition template_snapshot_init :: "template_snapshot \<Rightarrow> template_snapshot res" where
  "template_snapshot_init s =
     then_res (validate_configuration (ts_capabilities s) (ts_offerings s) (ts_order_form s)) (\<lambda>_.
       if ts_template_version s \<le> 0 then Inl (Invariant ''template_version_invalid'')
       else if blank (ts_display_name s) then Inl (Invariant ''template_display_name_empty'')
       else Inr s)"

definition wf_template_snapshot :: "template_snapshot \<Rightarrow> bool" where
  "wf_template_snapshot s \<longleftrightarrow>
     valid_configuration (ts_capabilities s) (ts_offerings s) (ts_order_form s)
     \<and> 0 < ts_template_version s \<and> \<not> blank (ts_display_name s)"

lemma template_snapshot_init_Inr [res_simps]:
  "template_snapshot_init raw = Inr s \<longleftrightarrow> s = raw \<and> wf_template_snapshot raw"
  by (auto simp: template_snapshot_init_def wf_template_snapshot_def res_simps)

interpretation snapshot: validated template_snapshot_init wf_template_snapshot
  by unfold_locales (auto simp: res_simps)

text \<open>
  The stored document of a snapshot: the entries under \<^verbatim>\<open>capabilities\<close>, \<^verbatim>\<open>offerings\<close> (\<open>None\<close> for an
  item that is not an object, which the reader skips) and \<^verbatim>\<open>orderForm\<close>.  A missing key reads as the
  empty list or \<open>None\<close>.
\<close>

record snapshot_document =
  sd_capabilities :: "scalar list"
  sd_offerings :: "payload option list"
  sd_order_form :: "payload option"

definition sorted_capabilities :: "capability list" where
  "sorted_capabilities = [Acquisition, Delivery, Invoicing, Offerings, Ordering]"

definition snapshot_payload :: "template_snapshot \<Rightarrow> snapshot_document" where
  "snapshot_payload s = \<lparr>
     sd_capabilities =
       map (\<lambda>c. JStr (capability_value c)) (filter (\<lambda>c. c \<in> ts_capabilities s) sorted_capabilities),
     sd_offerings = map (\<lambda>t. Some (template_offering_payload t)) (ts_offerings s),
     sd_order_form = map_option order_form_payload (ts_order_form s)\<rparr>"

definition snapshot_from_payload ::
  "pystr \<Rightarrow> int \<Rightarrow> pystr \<Rightarrow> uuid option \<Rightarrow> snapshot_document \<Rightarrow> template_snapshot res" where
  "snapshot_from_payload key version name copied d =
     then_res (template_key key) (\<lambda>key'.
     then_res (map_res (\<lambda>v. parse_enum capability_value all_capabilities (py_str v)) (sd_capabilities d))
       (\<lambda>cs.
     then_res (map_res template_offering_from_payload (map the (filter (\<lambda>p. p \<noteq> None) (sd_offerings d))))
       (\<lambda>offerings.
     then_res (check_opt order_form_from_payload (sd_order_form d)) (\<lambda>form.
     template_snapshot_init \<lparr>ts_template_key = key', ts_template_version = version,
       ts_display_name = name, ts_capabilities = set cs, ts_offerings = offerings,
       ts_order_form = form, ts_copied_from_action_id = copied\<rparr>))))"

lemma map_res_capabilities:
  "map_res (\<lambda>v. parse_enum capability_value all_capabilities (py_str v))
     (map (\<lambda>c. JStr (capability_value c)) cs) = Inr cs"
  by (induction cs) simp_all

lemma map_res_offerings:
  "list_all wf_template_offering ts \<Longrightarrow>
     map_res template_offering_from_payload (map template_offering_payload ts) = Inr ts"
  by (induction ts) (simp_all add: offering_template_codec.decode_encode)

lemma snapshot_eta:
  "\<lparr>ts_template_key = ts_template_key s, ts_template_version = ts_template_version s,
     ts_display_name = ts_display_name s, ts_capabilities = ts_capabilities s,
     ts_offerings = ts_offerings s, ts_order_form = ts_order_form s,
     ts_copied_from_action_id = ts_copied_from_action_id s\<rparr> = s"
  by (cases s) simp

lemma snapshot_read_back:
  assumes "wf_template_snapshot s" "list_all wf_template_offering (ts_offerings s)"
    and "opt_all wf_order_form (ts_order_form s)" "template_key (ts_template_key s) = Inr k"
  shows "snapshot_from_payload (ts_template_key s) (ts_template_version s) (ts_display_name s)
     (ts_copied_from_action_id s) (snapshot_payload s) = Inr s"
proof -
  have key: "k = ts_template_key s" using assms(4) by (auto simp: template_key_def split: if_splits)
  have offs: "map the (filter (\<lambda>p. p \<noteq> None) (map (\<lambda>t. Some (template_offering_payload t)) ts))
      = map template_offering_payload ts" for ts by (induction ts) simp_all
  have caps: "{c \<in> set sorted_capabilities. c \<in> ts_capabilities s} = ts_capabilities s"
    by (auto simp: sorted_capabilities_def) (metis capability.exhaust)
  have form: "check_opt order_form_from_payload (map_option order_form_payload (ts_order_form s))
      = Inr (ts_order_form s)"
    using assms(3) by (cases "ts_order_form s") (simp_all add: order_form_codec.decode_encode)
  show ?thesis
    using assms(1,4) unfolding snapshot_from_payload_def snapshot_payload_def
    by (simp only: offs snapshot_document.select_convs)
      (simp add: map_res_offerings [OF assms(2)] form map_res_capabilities caps key
        template_snapshot_init_Inr snapshot_eta)
qed

section \<open>Action configurations\<close>

record action_configuration =
  ac_action_id :: uuid
  ac_snapshot :: template_snapshot
  ac_offerings :: "configured_offering list"
  ac_order_form :: "configured_order_form option"

definition action_configuration_init :: "action_configuration \<Rightarrow> action_configuration res" where
  "action_configuration_init c =
     (if list_ex (\<lambda>o'. co_action_id o' \<noteq> ac_action_id c) (ac_offerings c)
      then Inl (Invariant ''configured_offering_action_mismatch'')
      else if (case ac_order_form c of None \<Rightarrow> False | Some f \<Rightarrow> cf_action_id f \<noteq> ac_action_id c)
      then Inl (Invariant ''configured_form_action_mismatch'')
      else Inr c)"

definition wf_action_configuration :: "action_configuration \<Rightarrow> bool" where
  "wf_action_configuration c \<longleftrightarrow>
     list_all (\<lambda>o'. co_action_id o' = ac_action_id c) (ac_offerings c)
     \<and> opt_all (\<lambda>f. cf_action_id f = ac_action_id c) (ac_order_form c)"

definition require_compatible_capabilities :: "action_configuration \<Rightarrow> capability set \<Rightarrow> unit res" where
  "require_compatible_capabilities c cs =
     validate_configuration cs (map co_definition (ac_offerings c))
       (map_option cf_configuration (ac_order_form c))"

lemma action_configuration_init_Inr [res_simps]:
  "action_configuration_init raw = Inr c \<longleftrightarrow> c = raw \<and> wf_action_configuration raw"
  by (auto simp: action_configuration_init_def wf_action_configuration_def list_ex_iff list_all_iff
      opt_all_def split: option.splits)

interpretation configuration: validated action_configuration_init wf_action_configuration
  by unfold_locales (auto simp: res_simps)

text \<open>The comprehension over the offerings, with the index of its \<^verbatim>\<open>uuid4()\<close> call.\<close>

definition indexed :: "(nat \<Rightarrow> 'a \<Rightarrow> 'b) \<Rightarrow> 'a list \<Rightarrow> 'b list" where
  "indexed f xs = map2 f [0..<length xs] xs"

lemma indexed_length [simp]: "length (indexed f xs) = length xs"
  by (simp add: indexed_def)

lemma indexed_nth: "i < length xs \<Longrightarrow> indexed f xs ! i = f i (xs ! i)"
  by (simp add: indexed_def)

lemma map_indexed: "(\<And>i x. g (f i x) = h x) \<Longrightarrow> map g (indexed f xs) = map h xs"
  by (rule nth_equalityI) (simp_all add: indexed_nth)

lemma set_indexed: "y \<in> set (indexed f xs) \<Longrightarrow> \<exists>i x. x \<in> set xs \<and> y = f i x"
proof -
  assume "y \<in> set (indexed f xs)"
  then obtain i where "i < length xs" "y = f i (xs ! i)"
    by (auto simp: in_set_conv_nth indexed_nth)
  then show ?thesis by (intro exI [of _ i] exI [of _ "xs ! i"]) simp
qed

lemma map_indexed_index: "map g (indexed f xs) = map (\<lambda>i. g (f i (xs ! i))) [0..<length xs]"
  by (rule nth_equalityI) (simp_all add: indexed_nth)

definition copied_offering :: "(nat \<Rightarrow> uuid) \<Rightarrow> uuid \<Rightarrow> nat \<Rightarrow> configured_offering \<Rightarrow> configured_offering" where
  "copied_offering fresh action_id i item =
     \<lparr>co_id = fresh i, co_action_id = action_id, co_definition = co_definition item,
      co_allowed_quantity_units = co_allowed_quantity_units item,
      co_available_from = None, co_available_until = None\<rparr>"

definition configuration_copy_for ::
  "(nat \<Rightarrow> uuid) \<Rightarrow> action_configuration \<Rightarrow> uuid \<Rightarrow> uuid \<Rightarrow> capability set \<Rightarrow> action_configuration res" where
  "configuration_copy_for fresh c action_id source_action_id cs =
     then_res (map_res configured_offering_init
         (indexed (copied_offering fresh action_id) (ac_offerings c))) (\<lambda>offerings.
     let order_form = map_option (\<lambda>f. \<lparr>cf_id = fresh (length (ac_offerings c)),
           cf_action_id = action_id, cf_configuration = cf_configuration f,
           cf_status = Offering_Draft\<rparr>) (ac_order_form c);
         effective_offerings = map co_definition offerings
     in then_res (template_snapshot_init \<lparr>
           ts_template_key = ts_template_key (ac_snapshot c),
           ts_template_version = ts_template_version (ac_snapshot c),
           ts_display_name = ts_display_name (ac_snapshot c), ts_capabilities = cs,
           ts_offerings = effective_offerings,
           ts_order_form = map_option cf_configuration order_form,
           ts_copied_from_action_id = Some source_action_id\<rparr>) (\<lambda>snapshot.
        then_res (validate_configuration cs effective_offerings (ts_order_form snapshot)) (\<lambda>_.
        action_configuration_init \<lparr>ac_action_id = action_id, ac_snapshot = snapshot,
          ac_offerings = offerings, ac_order_form = order_form\<rparr>)))"

section \<open>Templates\<close>

record action_template =
  at_key :: pystr
  at_version :: int
  at_display_name :: pystr
  at_description :: pystr
  at_capabilities :: "capability set"
  at_offerings :: "template_offering list"
  at_order_form :: "order_form_configuration option"
  at_presentation_theme :: "pystr option"

definition action_template_init :: "action_template \<Rightarrow> action_template res" where
  "action_template_init t =
     (if \<not> theme_ok (at_presentation_theme t)
      then Inl (Invariant ''template_presentation_theme_invalid'')
      else if at_version t \<le> 0 then Inl (Invariant ''template_version_invalid'')
      else if blank (at_display_name t) \<or> blank (at_description t)
      then Inl (Invariant ''template_text_empty'')
      else then_res (validate_configuration (at_capabilities t) (at_offerings t) (at_order_form t))
        (\<lambda>_. Inr t))"

definition wf_action_template :: "action_template \<Rightarrow> bool" where
  "wf_action_template t \<longleftrightarrow> theme_ok (at_presentation_theme t) \<and> 0 < at_version t
     \<and> \<not> blank (at_display_name t) \<and> \<not> blank (at_description t)
     \<and> valid_configuration (at_capabilities t) (at_offerings t) (at_order_form t)"

definition new_offering :: "(nat \<Rightarrow> uuid) \<Rightarrow> uuid \<Rightarrow> nat \<Rightarrow> template_offering \<Rightarrow> configured_offering" where
  "new_offering fresh action_id i item =
     \<lparr>co_id = fresh i, co_action_id = action_id, co_definition = item,
      co_allowed_quantity_units = {to_unit item}, co_available_from = None,
      co_available_until = None\<rparr>"

definition template_configure ::
  "(nat \<Rightarrow> uuid) \<Rightarrow> action_template \<Rightarrow> uuid \<Rightarrow> capability set option \<Rightarrow> action_configuration res" where
  "template_configure fresh t action_id capabilities =
     (let effective_capabilities = (case capabilities of None \<Rightarrow> at_capabilities t | Some cs \<Rightarrow> cs);
          effective_offerings = (if capabilities = None then at_offerings t else []);
          effective_form = (if capabilities = None then at_order_form t else None)
      in then_res (validate_configuration effective_capabilities effective_offerings effective_form) (\<lambda>_.
         then_res (template_snapshot_init \<lparr>ts_template_key = at_key t,
           ts_template_version = at_version t, ts_display_name = at_display_name t,
           ts_capabilities = effective_capabilities, ts_offerings = effective_offerings,
           ts_order_form = effective_form, ts_copied_from_action_id = None\<rparr>) (\<lambda>snapshot.
         then_res (map_res configured_offering_init
             (indexed (new_offering fresh action_id) effective_offerings)) (\<lambda>offerings.
         action_configuration_init \<lparr>ac_action_id = action_id, ac_snapshot = snapshot,
           ac_offerings = offerings,
           ac_order_form = map_option (\<lambda>f. \<lparr>cf_id = fresh (length effective_offerings),
             cf_action_id = action_id, cf_configuration = f, cf_status = Offering_Draft\<rparr>)
             effective_form\<rparr>))))"

lemma action_template_init_Inr [res_simps]:
  "action_template_init raw = Inr t \<longleftrightarrow> t = raw \<and> wf_action_template raw"
  by (auto simp: action_template_init_def wf_action_template_def res_simps)

interpretation action_template: validated action_template_init wf_action_template
  by unfold_locales (auto simp: res_simps)

lemma map_res_validated:
  "list_all wf_configured_offering xs \<Longrightarrow> map_res configured_offering_init xs = Inr xs"
  by (induction xs) (simp_all add: configured.post_init_id)

lemma map_res_validated_Inr:
  "map_res configured_offering_init xs = Inr ys \<Longrightarrow> ys = xs \<and> list_all wf_configured_offering xs"
  by (induction xs arbitrary: ys) (auto simp: res_simps)

lemma new_offerings_wf: "list_all wf_configured_offering (indexed (new_offering fresh a) ts)"
  by (auto simp: list_all_iff new_offering_def wf_configured_offering_def dest!: set_indexed)

lemma copied_offerings_wf:
  "list_all wf_configured_offering os \<Longrightarrow>
     list_all wf_configured_offering (indexed (copied_offering fresh a) os)"
  by (fastforce simp: list_all_iff copied_offering_def wf_configured_offering_def dest!: set_indexed)

lemma definitions_of_new [simp]: "map co_definition (indexed (new_offering fresh a) ts) = ts"
  using map_indexed [of co_definition "new_offering fresh a" "\<lambda>t. t" ts]
  by (simp add: new_offering_def)

lemma definitions_of_copies [simp]:
  "map co_definition (indexed (copied_offering fresh a) os) = map co_definition os"
  by (rule map_indexed) (simp add: copied_offering_def)

lemma ids_of_new: "map co_id (indexed (new_offering fresh a) ts) = map fresh [0..<length ts]"
  by (simp add: map_indexed_index new_offering_def)

lemma ids_of_copies: "map co_id (indexed (copied_offering fresh a) os) = map fresh [0..<length os]"
  by (simp add: map_indexed_index copied_offering_def)

lemma configure_result:
  assumes "wf_action_template t" "cs = None \<or> (\<exists>cs'. cs = Some cs' \<and> capabilities_closed cs')"
  shows "\<exists>c. template_configure fresh t a cs = Inr c \<and> wf_action_configuration c
    \<and> wf_template_snapshot (ac_snapshot c) \<and> list_all wf_configured_offering (ac_offerings c)
    \<and> map co_definition (ac_offerings c) = (if cs = None then at_offerings t else [])
    \<and> map co_id (ac_offerings c) = map fresh [0..<length (ac_offerings c)]
    \<and> require_compatible_capabilities c (ts_capabilities (ac_snapshot c)) = Inr ()"
proof -
  define os where "os = (if cs = None then at_offerings t else [])"
  define form where "form = (if cs = None then at_order_form t else None)"
  define caps where "caps = (case cs of None \<Rightarrow> at_capabilities t | Some cs \<Rightarrow> cs)"
  have valid: "valid_configuration caps os form"
    using assms by (auto simp: os_def form_def caps_def wf_action_template_def valid_configuration_def)
  have init: "map_res configured_offering_init (indexed (new_offering fresh a) os)
      = Inr (indexed (new_offering fresh a) os)"
    by (rule map_res_validated) (rule new_offerings_wf)
  have comp: "map_option (cf_configuration \<circ> (\<lambda>f. \<lparr>cf_id = fresh (length os), cf_action_id = a,
      cf_configuration = f, cf_status = Offering_Draft\<rparr>)) form = form"
    by (cases form) simp_all
  have own: "list_all (\<lambda>o'. co_action_id o' = a) (indexed (new_offering fresh a) os)"
    by (auto simp: list_all_iff new_offering_def dest!: set_indexed)
  have ok: "validate_configuration caps os form = Inr ()"
    using valid by (simp add: validate_configuration_Inr)
  show ?thesis
    using assms(1) valid
    unfolding template_configure_def caps_def [symmetric] os_def [symmetric] form_def [symmetric] Let_def
    by (auto simp: ok init comp own res_simps wf_action_template_def wf_template_snapshot_def
        wf_action_configuration_def opt_all_def ids_of_new new_offerings_wf
        require_compatible_capabilities_def option.map_comp template_snapshot_init_Inr [THEN iffD2]
        configuration.post_init_id [unfolded wf_action_configuration_def] split: option.splits)
qed

definition copied_form :: "(nat \<Rightarrow> uuid) \<Rightarrow> nat \<Rightarrow> uuid \<Rightarrow> configured_order_form \<Rightarrow> configured_order_form" where
  "copied_form fresh n a f = \<lparr>cf_id = fresh n, cf_action_id = a,
     cf_configuration = cf_configuration f, cf_status = Offering_Draft\<rparr>"

lemma copy_result:
  assumes "list_all wf_configured_offering (ac_offerings c)" "wf_template_snapshot (ac_snapshot c)"
  shows "configuration_copy_for fresh c a src cs =
    then_res (require_compatible_capabilities c cs) (\<lambda>_. Inr \<lparr>ac_action_id = a,
      ac_snapshot = (ac_snapshot c)\<lparr>ts_capabilities := cs,
        ts_offerings := map co_definition (ac_offerings c),
        ts_order_form := map_option cf_configuration (ac_order_form c),
        ts_copied_from_action_id := Some src\<rparr>,
      ac_offerings = indexed (copied_offering fresh a) (ac_offerings c),
      ac_order_form = map_option (copied_form fresh (length (ac_offerings c)) a) (ac_order_form c)\<rparr>)"
proof -
  have init: "map_res configured_offering_init (indexed (copied_offering fresh a) (ac_offerings c))
      = Inr (indexed (copied_offering fresh a) (ac_offerings c))"
    by (rule map_res_validated) (rule copied_offerings_wf, rule assms(1))
  have own: "list_all (\<lambda>o'. co_action_id o' = a)
      (indexed (copied_offering fresh a) (ac_offerings c))"
    by (auto simp: list_all_iff copied_offering_def dest!: set_indexed)
  have form: "map_option cf_configuration (map_option (copied_form fresh n a) x)
      = map_option cf_configuration x" for n x
    by (cases x) (simp_all add: copied_form_def)
  have form_own: "opt_all (\<lambda>f. cf_action_id f = a) (map_option (copied_form fresh n a) x)" for n x
    by (cases x) (simp_all add: copied_form_def)
  have name: "0 < ts_template_version (ac_snapshot c)" "\<not> blank (ts_display_name (ac_snapshot c))"
    using assms(2) by (simp_all add: wf_template_snapshot_def)
  have conf: "action_configuration_init \<lparr>ac_action_id = a, ac_snapshot = s,
      ac_offerings = indexed (copied_offering fresh a) (ac_offerings c),
      ac_order_form = map_option (copied_form fresh n a) x\<rparr>
      = Inr \<lparr>ac_action_id = a, ac_snapshot = s,
      ac_offerings = indexed (copied_offering fresh a) (ac_offerings c),
      ac_order_form = map_option (copied_form fresh n a) x\<rparr>" for s n x
    using own form_own by (simp add: action_configuration_init_Inr wf_action_configuration_def)
  show ?thesis
    unfolding configuration_copy_for_def copied_form_def [symmetric] init Let_def
      require_compatible_capabilities_def
    by (cases "ac_snapshot c"; cases "validate_configuration cs (map co_definition (ac_offerings c))
          (map_option cf_configuration (ac_order_form c))")
      (use name in \<open>simp_all add: form conf template_snapshot_init_def\<close>)
qed

section \<open>Properties\<close>

text \<open>
  Stored templates read back.  Writing the snapshot of a template to its stored document and
  reading it again gives exactly the snapshot: capabilities, offerings with unit, price and status,
  the order form and the origin, provided the snapshot and its parts were accepted by their
  constructors.
\<close>
lemma snapshot_roundtrip:
  assumes "template_snapshot_init raw = Inr s" "list_all wf_template_offering (ts_offerings s)"
    and "opt_all wf_order_form (ts_order_form s)" "template_key (ts_template_key s) = Inr k"
  shows "snapshot_from_payload (ts_template_key s) (ts_template_version s) (ts_display_name s)
     (ts_copied_from_action_id s) (snapshot_payload s) = Inr s"
  using snapshot.post_init_wf [OF assms(1)] assms(2-4) by (rule snapshot_read_back)

definition sample_offering :: template_offering where
  "sample_offering = \<lparr>to_code = lit ''stollen'', to_name = lit ''Stollen'',
     to_status = Offering_Active, to_unit = Box, to_pieces_per_unit = Some 6,
     to_unit_price_minor = 1200, to_currency = lit ''EUR''\<rparr>"

definition sample_template :: action_template where
  "sample_template = \<lparr>at_key = lit ''blank'', at_version = 1, at_display_name = lit ''Leer'',
     at_description = lit ''Leer'', at_capabilities = {Offerings, Ordering},
     at_offerings = [sample_offering], at_order_form = None, at_presentation_theme = None\<rparr>"

definition sample_snapshot :: template_snapshot where
  "sample_snapshot = \<lparr>ts_template_key = lit ''blank'', ts_template_version = 1,
     ts_display_name = lit ''Leer'', ts_capabilities = {Offerings, Ordering},
     ts_offerings = [sample_offering], ts_order_form = None, ts_copied_from_action_id = None\<rparr>"

lemma sample_texts:
  "slug (lit ''stollen'')" "\<not> blank (lit ''Stollen'')" "three_letters (lit ''EUR'')"
  "is_upper_form (lit ''EUR'')" "\<not> blank (lit ''Leer'')" "template_key (lit ''blank'') = Inr (lit ''blank'')"
  by code_simp+

lemma sample_offering_wf: "wf_template_offering sample_offering"
  by (simp add: wf_template_offering_def sample_offering_def sample_texts)

lemma sample_snapshot_wf: "wf_template_snapshot sample_snapshot"
  by (simp add: wf_template_snapshot_def sample_snapshot_def valid_configuration_def
      capabilities_closed_def sample_texts)

lemma snapshot_roundtrip_example:
  "snapshot_from_payload (lit ''blank'') 1 (lit ''Leer'') None (snapshot_payload sample_snapshot)
     = Inr sample_snapshot"
  using snapshot_roundtrip [OF snapshot.post_init_id [OF sample_snapshot_wf]] sample_offering_wf sample_texts(6)
  by (simp add: sample_snapshot_def)

text \<open>
  Configuring an action from a template always succeeds and is coherent.  With a valid template
  and either its own capabilities or a dependency-closed selection, \<open>configure\<close> returns a configuration
  whose offerings are the template's (none for a hand-picked selection), in order, each under a new
  identifier and without an availability window, all belonging to the action, with a snapshot that
  passes its own validation and capabilities compatible with offerings and form.
\<close>
lemma template_configuration:
  assumes "action_template_init raw = Inr t"
    and "cs = None \<or> (\<exists>cs'. cs = Some cs' \<and> capabilities_closed cs')"
  shows "\<exists>c. template_configure fresh t a cs = Inr c \<and> wf_action_configuration c
    \<and> wf_template_snapshot (ac_snapshot c) \<and> list_all wf_configured_offering (ac_offerings c)
    \<and> map co_definition (ac_offerings c) = (if cs = None then at_offerings t else [])
    \<and> map co_id (ac_offerings c) = map fresh [0..<length (ac_offerings c)]
    \<and> require_compatible_capabilities c (ts_capabilities (ac_snapshot c)) = Inr ()"
  using action_template.post_init_wf [OF assms(1)] assms(2) by (rule configure_result)

lemma template_configuration_example:
  "\<exists>c. template_configure (\<lambda>i. of_nat i) sample_template 4 None = Inr c
     \<and> map co_definition (ac_offerings c) = [sample_offering]"
proof -
  have init: "action_template_init sample_template = Inr sample_template"
    by (simp add: action_template_init_Inr wf_action_template_def sample_template_def
        valid_configuration_def capabilities_closed_def sample_texts)
  have "None = None \<or> (\<exists>cs'. None = Some cs' \<and> capabilities_closed cs')" by (rule disjI1) (rule refl)
  from template_configuration [OF init this, of "\<lambda>i. of_nat i" 4]
  obtain c where "template_configure (\<lambda>i. of_nat i) sample_template 4 None = Inr c"
    "map co_definition (ac_offerings c) = at_offerings sample_template" by auto
  then show ?thesis by (auto simp: sample_template_def)
qed

text \<open>
  Copying an action's configuration keeps what is sold and drops what belonged to the old action.
  The copy succeeds exactly when the chosen capabilities are compatible with the offerings and the
  form; then it has the same offering definitions in the same order under new identifiers, no
  availability window, a form with the same fields back in draft, records where it was copied from,
  and belongs to the new action throughout.
\<close>
lemma configuration_copy:
  assumes "list_all wf_configured_offering (ac_offerings c)" "wf_template_snapshot (ac_snapshot c)"
  shows "(\<exists>d. configuration_copy_for fresh c a src cs = Inr d)
      = (require_compatible_capabilities c cs = Inr ())
    \<and> (\<forall>d. configuration_copy_for fresh c a src cs = Inr d \<longrightarrow>
        wf_action_configuration d \<and> ac_action_id d = a
        \<and> map co_definition (ac_offerings d) = map co_definition (ac_offerings c)
        \<and> map co_id (ac_offerings d) = map fresh [0..<length (ac_offerings c)]
        \<and> list_all (\<lambda>o'. co_available_from o' = None \<and> co_available_until o' = None) (ac_offerings d)
        \<and> map_option cf_configuration (ac_order_form d) = map_option cf_configuration (ac_order_form c)
        \<and> opt_all (\<lambda>f. cf_status f = Offering_Draft) (ac_order_form d)
        \<and> ts_copied_from_action_id (ac_snapshot d) = Some src)"
  unfolding copy_result [OF assms]
  by (auto simp: res_simps wf_action_configuration_def ids_of_copies list_all_iff opt_all_def
      copied_form_def copied_offering_def option.map_comp comp_def split: option.splits dest!: set_indexed)

lemma configuration_copy_example:
  "\<exists>d. configuration_copy_for (\<lambda>i. of_nat i) \<lparr>ac_action_id = 4, ac_snapshot = sample_snapshot,
      ac_offerings = [new_offering (\<lambda>i. 9) 4 0 sample_offering], ac_order_form = None\<rparr>
      5 4 {Offerings} = Inr d"
proof -
  have "wf_configured_offering (new_offering (\<lambda>i. 9) 4 0 sample_offering)"
    by (simp add: new_offering_def wf_configured_offering_def)
  then show ?thesis
    by (subst configuration_copy)
      (simp_all add: sample_snapshot_wf require_compatible_capabilities_def
        validate_configuration_Inr valid_configuration_def capabilities_closed_def)
qed

end
