(* ===== verification/Delivery_Planning.thy ===== *)
theory Delivery_Planning
  imports Contracts Charity_Actions "HOL-Library.Product_Lexorder" "HOL-Library.Multiset"
begin

text \<open>
  \<^verbatim>\<open>domain/delivery.py\<close>: delivery contacts, wall clock times that must exist exactly once, delivery
  windows and the delivery configuration of an action with the choice of a window for an order.  The
  IANA time zone database is a parameter \<open>db\<close> from zone names to zones (\<^verbatim>\<open>zoneinfo.ZoneInfo\<close>).
\<close>

section \<open>Delivery contacts\<close>

record delivery_contact =
  dk_name :: "pystr option"
  dk_phone :: "pystr option"

definition phone_char :: "int \<Rightarrow> bool" where
  "phone_char c \<longleftrightarrow> c \<in> set (lit ''+ ()/.-'') \<or> is_09 c"

text \<open>The loop body of \<^verbatim>\<open>__post_init__\<close> for one field.\<close>

definition contact_field :: "nat \<Rightarrow> bool \<Rightarrow> pystr option \<Rightarrow> pystr option res" where
  "contact_field limit is_phone value =
     (case value of
        None \<Rightarrow> Inr None
      | Some v \<Rightarrow>
          if 13 \<in> set v \<or> 10 \<in> set v then Inl (Invariant ''delivery_contact_invalid'')
          else let s = strip v in
            if length s > limit then Inl (Invariant ''delivery_contact_too_long'')
            else if is_phone \<and> s \<noteq> [] \<and> (\<not> list_all phone_char s \<or> \<not> list_ex is_09 s)
            then Inl (Invariant ''delivery_contact_phone_invalid'')
            else Inr (if s = [] then None else Some s))"

definition delivery_contact_init :: "delivery_contact \<Rightarrow> delivery_contact res" where
  "delivery_contact_init k =
     then_res (contact_field 200 False (dk_name k)) (\<lambda>name.
     then_res (contact_field 40 True (dk_phone k)) (\<lambda>phone.
     Inr (k\<lparr>dk_name := name, dk_phone := phone\<rparr>)))"

definition contact_field_ok :: "nat \<Rightarrow> bool \<Rightarrow> pystr option \<Rightarrow> bool" where
  "contact_field_ok limit is_phone = opt_all (\<lambda>s. s \<noteq> [] \<and> strip s = s \<and> length s \<le> limit
     \<and> 13 \<notin> set s \<and> 10 \<notin> set s \<and> (is_phone \<longrightarrow> list_all phone_char s \<and> list_ex is_09 s))"

definition wf_delivery_contact :: "delivery_contact \<Rightarrow> bool" where
  "wf_delivery_contact k \<longleftrightarrow>
     contact_field_ok 200 False (dk_name k) \<and> contact_field_ok 40 True (dk_phone k)"

definition contact_empty :: "delivery_contact \<Rightarrow> bool" where
  "contact_empty k \<longleftrightarrow> dk_name k = None \<and> dk_phone k = None"

definition contact_payload :: "delivery_contact \<Rightarrow> payload" where
  "contact_payload k = [''name'' \<mapsto> opt_str (dk_name k), ''phone'' \<mapsto> opt_str (dk_phone k)]"

definition contact_from_payload :: "payload \<Rightarrow> delivery_contact res" where
  "contact_from_payload p =
     delivery_contact_init \<lparr>dk_name = opt_text_at p ''name'', dk_phone = opt_text_at p ''phone''\<rparr>"

lemma contact_field_Inr:
  "contact_field limit ph v = Inr w \<Longrightarrow> contact_field_ok limit ph w"
  by (auto simp: contact_field_def contact_field_ok_def Let_def split: option.splits if_splits
      dest: subsetD [OF set_strip_subset])

lemma contact_field_id: "contact_field_ok limit ph v \<Longrightarrow> contact_field limit ph v = Inr v"
  by (auto simp: contact_field_def contact_field_ok_def Let_def split: option.splits)

lemma delivery_contact_init_wf: "delivery_contact_init raw = Inr k \<Longrightarrow> wf_delivery_contact k"
  by (auto simp: delivery_contact_init_def wf_delivery_contact_def res_simps dest: contact_field_Inr)

lemma delivery_contact_init_id: "wf_delivery_contact k \<Longrightarrow> delivery_contact_init k = Inr k"
  by (simp add: delivery_contact_init_def wf_delivery_contact_def contact_field_id)

interpretation contact: validated delivery_contact_init wf_delivery_contact
  by unfold_locales (rule delivery_contact_init_wf delivery_contact_init_id, assumption)+

interpretation contact_codec: codec contact_payload contact_from_payload wf_delivery_contact
proof unfold_locales
  fix k :: delivery_contact
  assume "wf_delivery_contact k"
  then show "contact_from_payload (contact_payload k) = Inr k"
    using delivery_contact_init_id [of k]
    by (cases k) (simp add: contact_payload_def contact_from_payload_def)
qed

section \<open>Wall clock times\<close>

type_synonym tz_database = "pystr \<Rightarrow> tz option"

text \<open>One member of the set comprehension: the instant that \<open>naive\<close> denotes under \<^verbatim>\<open>fold\<close>, kept when it
  reads as \<open>naive\<close> again in the zone.\<close>

definition fold_candidate :: "tz \<Rightarrow> int \<Rightarrow> bool \<Rightarrow> int option res" where
  "fold_candidate z naive late =
     (let u = naive - wall_off z late naive in
      then_res (zone_wall z u) (\<lambda>w. Inr (if w = naive then Some u else None)))"

definition opt_list :: "'a option \<Rightarrow> 'a list" where
  "opt_list x = (case x of None \<Rightarrow> [] | Some v \<Rightarrow> [v])"

definition local_instant :: "tz_database \<Rightarrow> date \<Rightarrow> clock \<Rightarrow> pystr \<Rightarrow> datetime res" where
  "local_instant db day clock zone_name =
     (case db zone_name of
        None \<Rightarrow> Inl (Invariant ''delivery_timezone_invalid'')
      | Some z \<Rightarrow>
          if clock_has_tz clock \<or> clock_us clock mod minute_us \<noteq> 0
          then Inl (Invariant ''delivery_time_invalid'')
          else let naive = midnight day + clock_us clock in
            then_res (fold_candidate z naive False) (\<lambda>c0.
            then_res (fold_candidate z naive True) (\<lambda>c1.
            case remdups (opt_list c0 @ opt_list c1) of
              [u] \<Rightarrow> Inr (utc u)
            | _ \<Rightarrow> Inl (Invariant ''delivery_time_dst_invalid''))))"

lemma the_only_Inr [res_simps]:
  "(case xs of [] \<Rightarrow> Inl e | [u] \<Rightarrow> Inr (f u) | u # v # vs \<Rightarrow> Inl e) = Inr t
     \<longleftrightarrow> (\<exists>u. xs = [u] \<and> t = f u)"
  by (auto split: list.splits)

lemma local_instant_aware: "local_instant db d c z = Inr t \<Longrightarrow> aware t"
  by (auto simp: local_instant_def Let_def res_simps split: option.splits if_splits)

section \<open>Delivery windows\<close>

record delivery_window =
  dw_id :: uuid
  dw_action_id :: uuid
  dw_delivery_on :: date
  dw_starts_at :: clock
  dw_ends_at :: clock
  dw_retired :: bool
  dw_fully_booked :: bool

definition delivery_window_init :: "delivery_window \<Rightarrow> delivery_window res" where
  "delivery_window_init w =
     (if dw_retired w \<and> dw_fully_booked w then Inl (Invariant ''delivery_window_full_retired'')
      else if clock_has_tz (dw_starts_at w) \<or> clock_has_tz (dw_ends_at w)
        \<or> clock_us (dw_starts_at w) \<ge> clock_us (dw_ends_at w)
      then Inl (Invariant ''delivery_window_range_invalid'')
      else Inr w)"

definition wf_delivery_window :: "delivery_window \<Rightarrow> bool" where
  "wf_delivery_window w \<longleftrightarrow> \<not> (dw_retired w \<and> dw_fully_booked w)
     \<and> \<not> clock_has_tz (dw_starts_at w) \<and> \<not> clock_has_tz (dw_ends_at w)
     \<and> clock_us (dw_starts_at w) < clock_us (dw_ends_at w)"

lemma delivery_window_init_Inr [res_simps]:
  "delivery_window_init raw = Inr w \<longleftrightarrow> w = raw \<and> wf_delivery_window raw"
  by (auto simp: delivery_window_init_def wf_delivery_window_def)

interpretation window: validated delivery_window_init wf_delivery_window
  by unfold_locales (auto simp: res_simps)

definition window_bounds :: "tz_database \<Rightarrow> delivery_window \<Rightarrow> pystr \<Rightarrow> (datetime \<times> datetime) res" where
  "window_bounds db w zone_name =
     then_res (local_instant db (dw_delivery_on w) (dw_starts_at w) zone_name) (\<lambda>start.
     then_res (local_instant db (dw_delivery_on w) (dw_ends_at w) zone_name) (\<lambda>stop.
     Inr (start, stop)))"

text \<open>The \<^verbatim>\<open>dict[str, str]\<close> an order keeps of its window.\<close>

type_synonym text_dict = "string \<rightharpoonup> pystr"

definition window_snapshot :: "tz_database \<Rightarrow> delivery_window \<Rightarrow> pystr \<Rightarrow> text_dict res" where
  "window_snapshot db w zone_name =
     then_res (window_bounds db w zone_name) (\<lambda>(start, stop). Inr [
       ''windowId'' \<mapsto> uuid_str (dw_id w), ''startsAt'' \<mapsto> iso_datetime start,
       ''endsAt'' \<mapsto> iso_datetime stop, ''timezone'' \<mapsto> zone_name])"

section \<open>Delivery configurations\<close>

record delivery_configuration =
  dc_action_id :: uuid
  dc_enabled :: bool
  dc_timezone :: pystr
  dc_revision :: int
  dc_windows :: "delivery_window list"

definition window_key :: "delivery_window \<Rightarrow> date \<times> int" where
  "window_key w = (dw_delivery_on w, clock_us (dw_starts_at w))"

fun scan_windows ::
  "tz_database \<Rightarrow> pystr \<Rightarrow> uuid \<Rightarrow> delivery_window option \<Rightarrow> delivery_window list \<Rightarrow> unit res" where
  "scan_windows db zone action_id previous [] = Inr ()"
| "scan_windows db zone action_id previous (w # ws) =
     (if dw_action_id w \<noteq> action_id then Inl (Invariant ''delivery_window_action_mismatch'')
      else then_res (window_bounds db w zone) (\<lambda>_.
        if dw_retired w then scan_windows db zone action_id previous ws
        else if (case previous of None \<Rightarrow> False | Some p \<Rightarrow>
            dw_delivery_on p = dw_delivery_on w \<and> clock_us (dw_ends_at p) > clock_us (dw_starts_at w))
        then Inl (Invariant ''delivery_windows_overlap'')
        else scan_windows db zone action_id (Some w) ws))"

definition noon_2026 :: "date \<times> clock" where
  "noon_2026 = (739617, Clock (12 * 60 * minute_us) False)"

definition delivery_configuration_init ::
  "tz_database \<Rightarrow> delivery_configuration \<Rightarrow> delivery_configuration res" where
  "delivery_configuration_init db c =
     then_res (local_instant db (fst noon_2026) (snd noon_2026) (dc_timezone c)) (\<lambda>_.
     if dc_revision c < 1 then Inl (Invariant ''delivery_revision_invalid'')
     else if card (set (map dw_id (dc_windows c))) \<noteq> length (dc_windows c)
     then Inl (Invariant ''delivery_window_duplicate'')
     else let ordered = sort_key window_key (dc_windows c) in
       then_res (scan_windows db (dc_timezone c) (dc_action_id c) None ordered) (\<lambda>_.
       Inr (c\<lparr>dc_windows := ordered\<rparr>)))"

definition validate_period :: "delivery_configuration \<Rightarrow> date \<Rightarrow> date \<Rightarrow> unit res" where
  "validate_period c starts_on ends_on =
     (if list_ex (\<lambda>w. \<not> dw_retired w \<and> \<not> (starts_on \<le> dw_delivery_on w \<and> dw_delivery_on w \<le> ends_on))
           (dc_windows c)
      then Inl (Invariant ''delivery_date_outside_action'') else Inr ())"

text \<open>The loops of \<^verbatim>\<open>select\<close> and \<^verbatim>\<open>select_historical\<close>: the first window that may be tried and whose
  start has the wanted relation to now.\<close>

fun first_window ::
  "tz_database \<Rightarrow> pystr \<Rightarrow> (delivery_window \<Rightarrow> bool) \<Rightarrow> (datetime \<Rightarrow> bool) \<Rightarrow> delivery_window list
   \<Rightarrow> delivery_window res" where
  "first_window db zone try ok [] = Inl (Invariant ''delivery_window_unavailable'')"
| "first_window db zone try ok (w # ws) =
     (if try w then then_res (window_bounds db w zone) (\<lambda>(start, _).
        if ok start then Inr w else first_window db zone try ok ws)
      else first_window db zone try ok ws)"

definition select_window ::
  "tz_database \<Rightarrow> delivery_configuration \<Rightarrow> uuid \<Rightarrow> datetime \<Rightarrow> delivery_window res" where
  "select_window db c window_id now =
     (if \<not> aware now then Inl Value_Error
      else first_window db (dc_timezone c)
        (\<lambda>w. dc_enabled c \<and> dw_id w = window_id \<and> \<not> dw_retired w)
        (\<lambda>start. instant start > instant now) (dc_windows c))"

definition select_historical ::
  "tz_database \<Rightarrow> delivery_configuration \<Rightarrow> uuid \<Rightarrow> datetime \<Rightarrow> delivery_window res" where
  "select_historical db c window_id now =
     (if \<not> aware now then Inl Value_Error
      else first_window db (dc_timezone c)
        (\<lambda>w. dc_enabled c \<and> dw_id w = window_id)
        (\<lambda>start. instant start \<le> instant now) (dc_windows c))"

definition validate_order ::
  "tz_database \<Rightarrow> delivery_configuration \<Rightarrow> uuid option \<Rightarrow> bool \<Rightarrow> delivery_contact option \<Rightarrow> bool
   \<Rightarrow> datetime \<Rightarrow> text_dict option res" where
  "validate_order db c window_id has_address contact complete now =
     (if \<not> dc_enabled c \<and> (window_id \<noteq> None \<or> contact \<noteq> None)
      then Inl (Invariant ''delivery_not_supported'')
      else if dc_enabled c \<and> complete \<and> (\<not> has_address \<or> window_id = None)
      then Inl (Invariant ''delivery_required'')
      else case window_id of
        None \<Rightarrow> Inr None
      | Some wid \<Rightarrow> then_res (select_window db c wid now) (\<lambda>w.
          then_res (window_snapshot db w (dc_timezone c)) (\<lambda>s. Inr (Some s))))"

definition validate_manager_completion ::
  "tz_database \<Rightarrow> delivery_configuration \<Rightarrow> uuid option \<Rightarrow> bool \<Rightarrow> delivery_contact option
   \<Rightarrow> datetime \<Rightarrow> (text_dict option \<times> bool) res" where
  "validate_manager_completion db c window_id has_address contact now =
     (let ordinary = then_res (validate_order db c window_id has_address contact True now)
            (\<lambda>s. Inr (s, False))
      in case window_id of
        Some wid \<Rightarrow>
          if dc_enabled c \<and> has_address
          then (if ordinary = Inl (Invariant ''delivery_window_unavailable'')
                then then_res (select_historical db c wid now) (\<lambda>w.
                  then_res (window_snapshot db w (dc_timezone c)) (\<lambda>s. Inr (Some s, True)))
                else ordinary)
          else ordinary
      | None \<Rightarrow> ordinary)"

section \<open>Instants that exist exactly once\<close>

lemma fold_candidate_Inr [res_simps]:
  "fold_candidate z n late = Inr c \<longleftrightarrow>
     (let u = n - wall_off z late n in in_range u \<and> in_range (u + utc_off z u)
       \<and> c = (if u + utc_off z u = n then Some u else None))"
  by (auto simp: fold_candidate_def zone_wall_def Let_def)

lemma candidates_complete:
  assumes "tz_consistent z" "fold_candidate z n False = Inr a" "fold_candidate z n True = Inr b"
  shows "set (opt_list a @ opt_list b) = {u. u + utc_off z u = n}"
proof
  show "set (opt_list a @ opt_list b) \<subseteq> {u. u + utc_off z u = n}"
    using assms(2,3) by (auto simp: fold_candidate_Inr Let_def opt_list_def)
  show "{u. u + utc_off z u = n} \<subseteq> set (opt_list a @ opt_list b)"
  proof
    fix u assume "u \<in> {u. u + utc_off z u = n}"
    then have n: "u + utc_off z u = n" by simp
    obtain late where "wall_off z late n = utc_off z u"
      using assms(1) n unfolding tz_consistent_def by blast
    then have "n - wall_off z late n = u" using n by simp
    then show "u \<in> set (opt_list a @ opt_list b)"
      using assms(2,3) n by (cases late) (auto simp: fold_candidate_Inr Let_def opt_list_def)
  qed
qed

lemma remdups_singleton: "remdups xs = [u] \<longleftrightarrow> set xs = {u}"
proof
  show "set xs = {u} \<Longrightarrow> remdups xs = [u]"
    by (metis card_1_singleton_iff distinct_card distinct_remdups length_remdups_card_conv
        length_0_conv length_Suc_conv list.set(1) list.set_intros(1) One_nat_def set_remdups singletonD)
qed (metis empty_set list.simps(15) set_remdups)

lemma local_instant_Inr:
  assumes "db zone = Some z" "tz_consistent z" "\<not> clock_has_tz c" "clock_us c mod minute_us = 0"
    and "fold_candidate z (midnight d + clock_us c) False = Inr a"
    and "fold_candidate z (midnight d + clock_us c) True = Inr b"
  shows "local_instant db d c zone = Inr t \<longleftrightarrow>
    t = utc (instant t) \<and> {u. u + utc_off z u = midnight d + clock_us c} = {instant t}"
proof -
  define xs where "xs = remdups (opt_list a @ opt_list b)"
  have result: "local_instant db d c zone =
      (case xs of [u] \<Rightarrow> Inr (utc u) | _ \<Rightarrow> Inl (Invariant ''delivery_time_dst_invalid''))"
    using assms by (simp add: local_instant_def Let_def xs_def)
  have "xs = [u] \<longleftrightarrow> {u. u + utc_off z u = midnight d + clock_us c} = {u}" for u
    unfolding xs_def remdups_singleton using candidates_complete [OF assms(2,5,6)] by simp
  then show ?thesis unfolding result by (auto split: list.splits)
qed

section \<open>Configurations\<close>

definition windows_apart :: "delivery_window \<Rightarrow> delivery_window \<Rightarrow> bool" where
  "windows_apart v w \<longleftrightarrow>
     (dw_delivery_on v = dw_delivery_on w \<longrightarrow> clock_us (dw_ends_at v) \<le> clock_us (dw_starts_at w))"

fun apart_chain :: "delivery_window option \<Rightarrow> delivery_window list \<Rightarrow> bool" where
  "apart_chain p [] \<longleftrightarrow> True"
| "apart_chain p (w # ws) \<longleftrightarrow>
     (case p of None \<Rightarrow> True | Some v \<Rightarrow> windows_apart v w) \<and> apart_chain (Some w) ws"

definition active_windows :: "delivery_window list \<Rightarrow> delivery_window list" where
  "active_windows = filter (\<lambda>w. \<not> dw_retired w)"

definition window_accepted :: "tz_database \<Rightarrow> delivery_configuration \<Rightarrow> delivery_window \<Rightarrow> bool" where
  "window_accepted db c w \<longleftrightarrow>
     dw_action_id w = dc_action_id c \<and> \<not> raises (window_bounds db w (dc_timezone c))"

definition wf_delivery_configuration :: "tz_database \<Rightarrow> delivery_configuration \<Rightarrow> bool" where
  "wf_delivery_configuration db c \<longleftrightarrow>
     \<not> raises (local_instant db (fst noon_2026) (snd noon_2026) (dc_timezone c))
     \<and> 1 \<le> dc_revision c \<and> distinct (map dw_id (dc_windows c))
     \<and> sorted (map window_key (dc_windows c)) \<and> list_all (window_accepted db c) (dc_windows c)
     \<and> apart_chain None (active_windows (dc_windows c))"

lemma scan_windows_Inr [res_simps]:
  "scan_windows db zone a p ws = Inr u \<longleftrightarrow>
     list_all (\<lambda>w. dw_action_id w = a \<and> \<not> raises (window_bounds db w zone)) ws
     \<and> apart_chain p (active_windows ws)"
proof (induction ws arbitrary: p)
  case (Cons w ws)
  then show ?case
    by (cases "window_bounds db w zone")
      (auto simp: active_windows_def windows_apart_def split: option.splits)
qed (simp add: active_windows_def)

lemma card_ids: "card (set (map f xs)) \<noteq> length xs \<longleftrightarrow> \<not> distinct (map f xs)"
  by (metis card_distinct distinct_card length_map)

lemma delivery_configuration_init_wf:
  "delivery_configuration_init db raw = Inr c \<Longrightarrow> wf_delivery_configuration db c"
  unfolding delivery_configuration_init_def Let_def
  by (auto simp: res_simps wf_delivery_configuration_def window_accepted_def card_ids
      distinct_map raises_iff list_all_iff simp del: set_map)

lemma delivery_configuration_init_id:
  "wf_delivery_configuration db c \<Longrightarrow> delivery_configuration_init db c = Inr c"
proof -
  assume wf: "wf_delivery_configuration db c"
  then have "scan_windows db (dc_timezone c) (dc_action_id c) None (dc_windows c) = Inr ()"
    "sort_key window_key (dc_windows c) = dc_windows c"
    by (simp_all add: wf_delivery_configuration_def window_accepted_def scan_windows_Inr
        list_all_iff sort_key_id_if_sorted)
  then show ?thesis using wf
    unfolding delivery_configuration_init_def wf_delivery_configuration_def
    by (auto simp: not_raises_iff card_ids simp del: set_map)
qed

interpretation delivery_config: validated "delivery_configuration_init db" "wf_delivery_configuration db"
  for db
  by unfold_locales (rule delivery_configuration_init_wf delivery_configuration_init_id, assumption)+

lemma apart_chain_all:
  "apart_chain (Some p) ws \<Longrightarrow> sorted (map window_key (p # ws)) \<Longrightarrow> \<forall>w \<in> set ws. windows_apart p w"
proof (induction ws arbitrary: p)
  case (Cons v ws)
  then have v: "windows_apart p v" "\<forall>w \<in> set ws. windows_apart v w" by simp_all
  have "windows_apart p w" if w: "w \<in> set ws" for w
  proof -
    have "window_key p \<le> window_key v" "window_key v \<le> window_key w" using Cons.prems(2) w by auto
    then show ?thesis using v w
      by (fastforce simp: windows_apart_def window_key_def less_eq_prod_def)
  qed
  then show ?case using v by simp
qed simp

lemma active_windows_apart:
  assumes "wf_delivery_configuration db c"
  shows "sorted_wrt windows_apart (active_windows (dc_windows c))"
proof -
  have "sorted (map window_key ws) \<Longrightarrow> apart_chain p ws \<Longrightarrow> sorted_wrt windows_apart ws" for p ws
  proof (induction ws arbitrary: p)
    case (Cons w ws)
    then show ?case using apart_chain_all [of w ws] Cons.IH [of "Some w"] by simp
  qed simp
  moreover have "sorted (map window_key (active_windows (dc_windows c)))"
    using assms by (simp add: wf_delivery_configuration_def active_windows_def sorted_filter)
  ultimately show ?thesis using assms unfolding wf_delivery_configuration_def by blast
qed

section \<open>Choosing a window\<close>

lemma first_window_Inr:
  "first_window db zone try ok ws = Inr w \<Longrightarrow>
     w \<in> set ws \<and> try w \<and> (\<exists>start stop. window_bounds db w zone = Inr (start, stop) \<and> ok start)"
  by (induction ws) (auto simp: res_simps split: if_splits)

lemma first_window_skip:
  "\<forall>w \<in> set ws. \<not> try w \<Longrightarrow>
     first_window db zone try ok ws = Inl (Invariant ''delivery_window_unavailable'')"
  by (induction ws) auto

lemma first_window_unique:
  assumes "distinct (map dw_id ws)" "w \<in> set ws" "\<And>v. try v \<Longrightarrow> dw_id v = dw_id w"
    and "window_bounds db w zone = Inr (start, stop)"
  shows "first_window db zone try ok ws =
    (if try w \<and> ok start then Inr w else Inl (Invariant ''delivery_window_unavailable''))"
  using assms(1,2)
proof (induction ws)
  case (Cons v ws)
  show ?case
  proof (cases "v = w")
    case True
    have "\<forall>u \<in> set ws. \<not> try u"
    proof
      fix u assume "u \<in> set ws"
      then have "dw_id u \<noteq> dw_id w" using Cons.prems(1) True by (auto simp: image_iff)
      then show "\<not> try u" using assms(3) by blast
    qed
    then show ?thesis using True assms(4) by (simp add: first_window_skip)
  next
    case False
    then have "w \<in> set ws" using Cons.prems(2) by simp
    then have "dw_id v \<noteq> dw_id w" using Cons.prems(1) by (auto simp: image_iff)
    then have "\<not> try v" using assms(3) by blast
    then show ?thesis using Cons \<open>w \<in> set ws\<close> by simp
  qed
qed simp

lemma select_window_eq:
  assumes "wf_delivery_configuration db c" "w \<in> set (dc_windows c)" "dc_enabled c" "aware now"
    and "window_bounds db w (dc_timezone c) = Inr (start, stop)"
  shows "select_window db c (dw_id w) now =
      (if \<not> dw_retired w \<and> instant now < instant start then Inr w
       else Inl (Invariant ''delivery_window_unavailable''))"
    and "select_historical db c (dw_id w) now =
      (if instant start \<le> instant now then Inr w
       else Inl (Invariant ''delivery_window_unavailable''))"
  using assms
  by (simp_all add: select_window_def select_historical_def wf_delivery_configuration_def
      first_window_unique [where start = start and stop = stop])

section \<open>Properties\<close>

text \<open>
  C25: A local time is accepted exactly when it happens exactly once.  For a zone whose data are
  consistent, \<open>local_instant\<close> returns an instant exactly when one single UTC instant reads as that date
  and time on the zone's clocks, and then it returns that instant; a time skipped or repeated by a clock
  change is refused with its own error.
\<close>
theorem local_instant_exact:
  assumes "db zone = Some z" "tz_consistent z" "\<not> clock_has_tz c" "clock_us c mod minute_us = 0"
    and "fold_candidate z (midnight d + clock_us c) False = Inr a"
    and "fold_candidate z (midnight d + clock_us c) True = Inr b"
  shows "(\<forall>t. local_instant db d c zone = Inr t \<longleftrightarrow>
      t = utc (instant t) \<and> {u. u + utc_off z u = midnight d + clock_us c} = {instant t})
    \<and> ((\<nexists>u. {u. u + utc_off z u = midnight d + clock_us c} = {u}) \<longrightarrow>
      local_instant db d c zone = Inl (Invariant ''delivery_time_dst_invalid''))"
proof -
  have "local_instant db d c zone = Inl e \<Longrightarrow> e = Invariant ''delivery_time_dst_invalid''" for e
    using assms by (auto simp: local_instant_def Let_def split: list.splits)
  then show ?thesis
    using local_instant_Inr [where db = db and zone = zone and z = z and c = c and d = d
        and a = a and b = b] assms
    by (cases "local_instant db d c zone") auto
qed

text \<open>A zone that puts its clocks back from UTC+2 to UTC+1 at the end of day 700000 in UTC.\<close>

definition autumn_zone :: tz where
  "autumn_zone = changing_zone (700000 * day_us) (120 * minute_us) (60 * minute_us)"

definition autumn_db :: tz_database where
  "autumn_db = (\<lambda>_. Some autumn_zone)"

lemma autumn_candidates:
  "fold_candidate autumn_zone (midnight 700001 + 90 * minute_us) False
     = Inr (Some (700000 * day_us - 30 * minute_us))"
  "fold_candidate autumn_zone (midnight 700001 + 90 * minute_us) True
     = Inr (Some (700000 * day_us + 30 * minute_us))"
  by (simp_all add: fold_candidate_Inr autumn_zone_def changing_zone_def midnight_def in_range_def
      time_units)

theorem local_instant_exact_witness:
  "local_instant autumn_db 700001 (Clock (90 * minute_us) False) []
     = Inl (Invariant ''delivery_time_dst_invalid'')"
proof -
  have "{u. u + utc_off autumn_zone u = midnight 700001 + 90 * minute_us}
      = {700000 * day_us - 30 * minute_us, 700000 * day_us + 30 * minute_us}"
    using candidates_complete [OF tz_consistent_changing [of "700000 * day_us" "120 * minute_us"
          "60 * minute_us", folded autumn_zone_def] autumn_candidates]
    by (auto simp: opt_list_def)
  then have "\<nexists>u. {u. u + utc_off autumn_zone u = midnight 700001 + 90 * minute_us} = {u}"
    by (auto simp: time_units doubleton_eq_iff)
  then show ?thesis
    using local_instant_exact [of autumn_db "[]" autumn_zone "Clock (90 * minute_us) False" 700001]
      autumn_candidates
    by (simp add: autumn_db_def autumn_zone_def tz_consistent_changing minute_us_def)
qed

text \<open>
  C26: Accepted delivery windows in use do not overlap.  A delivery configuration that its constructor accepts
  has the given windows in order of day and start, under distinct identifiers, all belonging to the
  action and with start and end that exist in its time zone, and of any two windows that are not retired
  and lie on the same day the first ends before the second starts.  A retired window may overlap others.
\<close>
theorem delivery_windows_disjoint:
  assumes "delivery_configuration_init db raw = Inr c"
  shows "mset (dc_windows c) = mset (dc_windows raw) \<and> sorted (map window_key (dc_windows c))
    \<and> distinct (map dw_id (dc_windows c)) \<and> list_all (window_accepted db c) (dc_windows c)
    \<and> sorted_wrt windows_apart (active_windows (dc_windows c))"
proof -
  have "mset (dc_windows c) = mset (dc_windows raw)"
    using assms by (auto simp: delivery_configuration_init_def Let_def res_simps)
  then show ?thesis
    using delivery_config.post_init_wf [OF assms] active_windows_apart [of db c]
    by (simp add: wf_delivery_configuration_def)
qed

definition sample_window :: "uuid \<Rightarrow> int \<Rightarrow> bool \<Rightarrow> delivery_window" where
  "sample_window i hour retired = \<lparr>dw_id = i, dw_action_id = 1, dw_delivery_on = 740000,
     dw_starts_at = Clock (hour * 60 * minute_us) False,
     dw_ends_at = Clock ((hour + 1) * 60 * minute_us) False, dw_retired = retired,
     dw_fully_booked = False\<rparr>"

definition utc_db :: tz_database where
  "utc_db = (\<lambda>_. Some (fixed_zone 0))"

definition sample_delivery :: delivery_configuration where
  "sample_delivery = \<lparr>dc_action_id = 1, dc_enabled = True, dc_timezone = [], dc_revision = 1,
     dc_windows = [sample_window 1 8 False, sample_window 2 9 True, sample_window 3 9 False]\<rparr>"

lemma sample_bounds:
  "window_bounds utc_db (sample_window i 8 r) [] = Inr
     (utc (739999 * day_us + 480 * minute_us), utc (739999 * day_us + 540 * minute_us))"
  "window_bounds utc_db (sample_window i 9 r) [] = Inr
     (utc (739999 * day_us + 540 * minute_us), utc (739999 * day_us + 600 * minute_us))"
  by (simp_all add: window_bounds_def sample_window_def local_instant_def utc_db_def fixed_zone_def
      fold_candidate_def zone_wall_def midnight_def in_range_def time_units opt_list_def)

lemma sample_delivery_wf: "wf_delivery_configuration utc_db sample_delivery"
proof -
  have "local_instant utc_db 739617 (Clock (12 * 60 * minute_us) False) []
      = Inr (utc (739616 * day_us + 720 * minute_us))"
    by (simp add: local_instant_def utc_db_def fixed_zone_def fold_candidate_def zone_wall_def
        midnight_def in_range_def time_units opt_list_def)
  then show ?thesis
    by (simp add: wf_delivery_configuration_def sample_delivery_def noon_2026_def window_accepted_def
        sample_bounds active_windows_def)
      (simp add: sample_window_def window_key_def windows_apart_def time_units)
qed

theorem delivery_windows_disjoint_witness:
  "sorted_wrt windows_apart (active_windows (dc_windows sample_delivery))"
  using delivery_windows_disjoint [OF delivery_config.post_init_id [OF sample_delivery_wf]] by simp

text \<open>
  A manager can complete an order for every configured window, and the record says whether it was
  history.  For an accepted, enabled configuration and an order with an address: a window that has
  already started is recorded as historical, retired or not; a window still to come is booked like any
  order when it is active; only a retired window still to come is refused.  Ordinary orders
  (\<open>validate_order\<close>) succeed in exactly the second case.
\<close>
lemma manager_completion:
  assumes "delivery_configuration_init db raw = Inr c" "dc_enabled c" "aware now"
    and "w \<in> set (dc_windows c)" "window_bounds db w (dc_timezone c) = Inr (start, stop)"
    and "window_snapshot db w (dc_timezone c) = Inr snap"
  shows "validate_manager_completion db c (Some (dw_id w)) True contact now =
      (if instant start \<le> instant now then Inr (Some snap, True)
       else if dw_retired w then Inl (Invariant ''delivery_window_unavailable'')
       else Inr (Some snap, False))
    \<and> validate_order db c (Some (dw_id w)) True contact True now =
      (if instant start \<le> instant now \<or> dw_retired w
       then Inl (Invariant ''delivery_window_unavailable'') else Inr (Some snap))"
  using select_window_eq [OF delivery_config.post_init_wf [OF assms(1)] assms(4,2,3,5)] assms(2,6)
  by (auto simp: validate_manager_completion_def validate_order_def Let_def)

lemma manager_completion_example:
  "\<exists>snap. validate_manager_completion utc_db sample_delivery (Some 2) True None (utc (740000 * day_us))
     = Inr (Some snap, True)
   \<and> validate_order utc_db sample_delivery (Some 2) True None True (utc (740000 * day_us))
     = Inl (Invariant ''delivery_window_unavailable'')"
proof -
  let ?w = "sample_window 2 9 True"
  have w: "?w \<in> set (dc_windows sample_delivery)" "dc_timezone sample_delivery = []"
    "dc_enabled sample_delivery" "dw_id ?w = 2"
    by (simp_all add: sample_delivery_def sample_window_def)
  obtain snap where snap: "window_snapshot utc_db ?w [] = Inr snap"
    by (simp add: window_snapshot_def sample_bounds)
  show ?thesis
    using manager_completion [OF delivery_config.post_init_id [OF sample_delivery_wf] w(3) _ w(1),
        of "utc (740000 * day_us)" _ _ snap None] snap sample_bounds(2) [of 2 True] w(2,4)
    by (simp add: time_units)
qed

end
