(* ===== verification/Order_Commitments.thy ===== *)
theory Order_Commitments
  imports Action_Templates Delivery_Planning
begin

text \<open>
  \<^verbatim>\<open>domain/commitments.py\<close>: money, the snapshots of buyer and recipients, offerings and their
  availability, order lines priced by the server, sums per unit, and the order (\<^verbatim>\<open>Commitment\<close>).
\<close>

section \<open>Money\<close>

record money =
  mo_amount :: int
  mo_currency :: pystr

definition money_init :: "money \<Rightarrow> money res" where
  "money_init m =
     (if mo_amount m < 0 then Inl (Invariant ''money_amount_invalid'')
      else if \<not> capital_code 3 (mo_currency m) then Inl (Invariant ''money_currency_invalid'')
      else Inr m)"

definition wf_money :: "money \<Rightarrow> bool" where
  "wf_money m \<longleftrightarrow> 0 \<le> mo_amount m \<and> capital_code 3 (mo_currency m)"

lemma money_init_Inr [res_simps]: "money_init raw = Inr m \<longleftrightarrow> m = raw \<and> wf_money raw"
  by (auto simp: money_init_def wf_money_def)

interpretation money: validated money_init wf_money
  by unfold_locales (auto simp: res_simps)

text \<open>
  \<^verbatim>\<open>amount.quantize(Decimal("0.01"), ROUND_HALF_UP)\<close> times 100, for a finite amount that is not negative:
  the coefficient at exponent \<open>-2\<close>, refused by the decimal context beyond 28 digits.
\<close>

definition quantize_cents :: "int \<Rightarrow> int \<Rightarrow> int res" where
  "quantize_cents c e =
     (let cents = (if - 2 \<le> e then c * 10 ^ nat (e + 2)
                   else (2 * c + 10 ^ nat (- 2 - e)) div (2 * 10 ^ nat (- 2 - e)))
      in if cents \<ge> 10 ^ 28 then Inl Invalid_Operation else Inr cents)"

definition money_from_major :: "decimal \<Rightarrow> pystr \<Rightarrow> money res" where
  "money_from_major amount currency =
     (case amount of
        Finite c e \<Rightarrow>
          if c < 0 then Inl (Invariant ''money_amount_invalid'')
          else then_res (quantize_cents c e) (\<lambda>cents.
            money_init \<lparr>mo_amount = cents, mo_currency = currency\<rparr>)
      | _ \<Rightarrow> Inl (Invariant ''money_amount_invalid''))"

definition money_multiply :: "money \<Rightarrow> int \<Rightarrow> money res" where
  "money_multiply m quantity =
     (if quantity \<le> 0 then Inl (Invariant ''money_quantity_invalid'')
      else money_init \<lparr>mo_amount = mo_amount m * quantity, mo_currency = mo_currency m\<rparr>)"

definition money_plus :: "money \<Rightarrow> money \<Rightarrow> money res" where
  "money_plus m n =
     (if mo_currency m \<noteq> mo_currency n then Inl (Invariant ''money_currency_mismatch'')
      else money_init \<lparr>mo_amount = mo_amount m + mo_amount n, mo_currency = mo_currency m\<rparr>)"

definition sum_money :: "money \<Rightarrow> money list \<Rightarrow> money res" where
  "sum_money = fold_res money_plus"

lemma sum_money_Inr:
  "list_all wf_money ms \<Longrightarrow> wf_money z \<Longrightarrow> sum_money z ms = Inr t \<longleftrightarrow>
     (\<forall>m \<in> set ms. mo_currency m = mo_currency z)
     \<and> t = z\<lparr>mo_amount := mo_amount z + sum_list (map mo_amount ms)\<rparr>"
proof (induction ms arbitrary: z)
  case (Cons m ms)
  have "money_plus z m = (if mo_currency z = mo_currency m
      then Inr (z\<lparr>mo_amount := mo_amount z + mo_amount m\<rparr>)
      else Inl (Invariant ''money_currency_mismatch''))"
    using Cons.prems by (cases z) (auto simp: money_plus_def money_init_Inr wf_money_def)
  moreover have "wf_money (z\<lparr>mo_amount := mo_amount z + mo_amount m\<rparr>)"
    using Cons.prems by (simp add: wf_money_def)
  ultimately show ?case
    using Cons.IH [of "z\<lparr>mo_amount := mo_amount z + mo_amount m\<rparr>"] Cons.prems(1)
    by (auto simp: sum_money_def add.assoc)
qed (auto simp: sum_money_def)

section \<open>Snapshots of the parties\<close>

datatype commitment_source = From_Acquisition | From_Public_Form | From_Admin

datatype commitment_status =
  Commitment_Draft | Review_Ready | Confirmed | Invoiced | Commitment_Cancelled

datatype party_kind = Company | Person

fun party_kind_value :: "party_kind \<Rightarrow> pystr" where
  "party_kind_value Company = lit ''company''"
| "party_kind_value Person = lit ''person''"

definition all_party_kinds :: "party_kind list" where
  "all_party_kinds = [Company, Person]"

lemma parse_party_kind [simp]:
  "parse_enum party_kind_value all_party_kinds (party_kind_value k) = Inr k"
  by (cases k) (simp_all add: all_party_kinds_def lit_eq_iff)

definition email_bad :: "pystr option \<Rightarrow> bool" where
  "email_bad e \<longleftrightarrow>
     (case e of None \<Rightarrow> False
      | Some s \<Rightarrow> s \<noteq> casefold s \<or> count_list s 64 \<noteq> 1 \<or> has_space s)"

lemma email_bad_iff: "\<not> email_bad e \<longleftrightarrow> opt_all email_ok e"
  by (cases e) (auto simp: email_bad_def email_ok_def)

record buyer_snapshot =
  by_party_kind :: party_kind
  by_twenty_id :: uuid
  by_display_name :: pystr
  by_email :: "pystr option"

definition buyer_init :: "buyer_snapshot \<Rightarrow> buyer_snapshot res" where
  "buyer_init b =
     (if blank (by_display_name b) then Inl (Invariant ''commitment_buyer_name_empty'')
      else if email_bad (by_email b) then Inl (Invariant ''commitment_buyer_email_invalid'')
      else Inr b)"

definition wf_buyer :: "buyer_snapshot \<Rightarrow> bool" where
  "wf_buyer b \<longleftrightarrow> \<not> blank (by_display_name b) \<and> opt_all email_ok (by_email b)"

definition buyer_company_id :: "buyer_snapshot \<Rightarrow> uuid option" where
  "buyer_company_id b = (if by_party_kind b = Company then Some (by_twenty_id b) else None)"

definition buyer_person_id :: "buyer_snapshot \<Rightarrow> uuid option" where
  "buyer_person_id b = (if by_party_kind b = Person then Some (by_twenty_id b) else None)"

definition buyer_payload :: "buyer_snapshot \<Rightarrow> payload" where
  "buyer_payload b = [
     ''partyKind'' \<mapsto> JStr (party_kind_value (by_party_kind b)),
     ''twentyId'' \<mapsto> JStr (uuid_str (by_twenty_id b)),
     ''displayName'' \<mapsto> JStr (by_display_name b), ''email'' \<mapsto> opt_str (by_email b)]"

definition buyer_from_payload :: "payload \<Rightarrow> buyer_snapshot res" where
  "buyer_from_payload p =
     then_res (text_at p ''partyKind'') (\<lambda>kind_text.
     then_res (parse_enum party_kind_value all_party_kinds kind_text) (\<lambda>kind.
     then_res (uuid_at p ''twentyId'') (\<lambda>twenty_id.
     then_res (text_at p ''displayName'') (\<lambda>name.
     buyer_init \<lparr>by_party_kind = kind, by_twenty_id = twenty_id, by_display_name = name,
       by_email = opt_text_at p ''email''\<rparr>))))"

lemma buyer_init_Inr [res_simps]: "buyer_init raw = Inr b \<longleftrightarrow> b = raw \<and> wf_buyer raw"
  by (auto simp: buyer_init_def wf_buyer_def simp flip: email_bad_iff)

interpretation buyer: validated buyer_init wf_buyer
  by unfold_locales (auto simp: res_simps)

interpretation buyer_codec: codec buyer_payload buyer_from_payload wf_buyer
proof unfold_locales
  fix b :: buyer_snapshot
  assume "wf_buyer b"
  then show "buyer_from_payload (buyer_payload b) = Inr b"
    by (cases b) (simp add: buyer_payload_def buyer_from_payload_def buyer.post_init_id)
qed

record invoice_recipient =
  ir_recipient_name :: pystr
  ir_street_line_1 :: pystr
  ir_postal_code :: pystr
  ir_city :: pystr
  ir_country_code :: pystr
  ir_email :: "pystr option"

definition invoice_recipient_init :: "invoice_recipient \<Rightarrow> invoice_recipient res" where
  "invoice_recipient_init r =
     (if blank (ir_recipient_name r) then Inl (Invariant ''invoice_recipient_name_empty'')
      else if blank (ir_street_line_1 r) then Inl (Invariant ''invoice_recipient_street_empty'')
      else if blank (ir_postal_code r) then Inl (Invariant ''invoice_recipient_postal_code_empty'')
      else if blank (ir_city r) then Inl (Invariant ''invoice_recipient_city_empty'')
      else if \<not> capital_code 2 (ir_country_code r)
      then Inl (Invariant ''invoice_recipient_country_invalid'')
      else if email_bad (ir_email r) then Inl (Invariant ''invoice_recipient_email_invalid'')
      else Inr r)"

definition wf_invoice_recipient :: "invoice_recipient \<Rightarrow> bool" where
  "wf_invoice_recipient r \<longleftrightarrow> \<not> blank (ir_recipient_name r) \<and> \<not> blank (ir_street_line_1 r)
     \<and> \<not> blank (ir_postal_code r) \<and> \<not> blank (ir_city r) \<and> capital_code 2 (ir_country_code r)
     \<and> opt_all email_ok (ir_email r)"

definition invoice_recipient_payload :: "invoice_recipient \<Rightarrow> payload" where
  "invoice_recipient_payload r = [
     ''recipientName'' \<mapsto> JStr (ir_recipient_name r), ''streetLine1'' \<mapsto> JStr (ir_street_line_1 r),
     ''postalCode'' \<mapsto> JStr (ir_postal_code r), ''city'' \<mapsto> JStr (ir_city r),
     ''countryCode'' \<mapsto> JStr (ir_country_code r), ''email'' \<mapsto> opt_str (ir_email r)]"

definition invoice_recipient_from_payload :: "payload \<Rightarrow> invoice_recipient res" where
  "invoice_recipient_from_payload p =
     then_res (text_at p ''recipientName'') (\<lambda>name.
     then_res (text_at p ''streetLine1'') (\<lambda>street.
     then_res (text_at p ''postalCode'') (\<lambda>postal_code.
     then_res (text_at p ''city'') (\<lambda>city.
     then_res (text_at p ''countryCode'') (\<lambda>country.
     invoice_recipient_init \<lparr>ir_recipient_name = name, ir_street_line_1 = street,
       ir_postal_code = postal_code, ir_city = city, ir_country_code = country,
       ir_email = opt_text_at p ''email''\<rparr>)))))"

lemma invoice_recipient_init_Inr [res_simps]:
  "invoice_recipient_init raw = Inr r \<longleftrightarrow> r = raw \<and> wf_invoice_recipient raw"
  by (auto simp: invoice_recipient_init_def wf_invoice_recipient_def simp flip: email_bad_iff)

interpretation invoice_recipient: validated invoice_recipient_init wf_invoice_recipient
  by unfold_locales (auto simp: res_simps)

interpretation invoice_recipient_codec: codec invoice_recipient_payload invoice_recipient_from_payload wf_invoice_recipient
proof unfold_locales
  fix r :: invoice_recipient
  assume "wf_invoice_recipient r"
  then show "invoice_recipient_from_payload (invoice_recipient_payload r) = Inr r"
    by (cases r) (simp add: invoice_recipient_payload_def invoice_recipient_from_payload_def
        invoice_recipient.post_init_id)
qed

record delivery_recipient =
  dr_recipient_name :: pystr
  dr_street_line_1 :: pystr
  dr_postal_code :: pystr
  dr_city :: pystr
  dr_country_code :: pystr

definition delivery_recipient_init :: "delivery_recipient \<Rightarrow> delivery_recipient res" where
  "delivery_recipient_init r =
     (if blank (dr_recipient_name r) then Inl (Invariant ''delivery_recipient_name_empty'')
      else if blank (dr_street_line_1 r) then Inl (Invariant ''delivery_recipient_street_empty'')
      else if blank (dr_postal_code r) then Inl (Invariant ''delivery_recipient_postal_code_empty'')
      else if blank (dr_city r) then Inl (Invariant ''delivery_recipient_city_empty'')
      else if \<not> capital_code 2 (dr_country_code r)
      then Inl (Invariant ''delivery_recipient_country_invalid'')
      else Inr r)"

definition wf_delivery_recipient :: "delivery_recipient \<Rightarrow> bool" where
  "wf_delivery_recipient r \<longleftrightarrow> \<not> blank (dr_recipient_name r) \<and> \<not> blank (dr_street_line_1 r)
     \<and> \<not> blank (dr_postal_code r) \<and> \<not> blank (dr_city r) \<and> capital_code 2 (dr_country_code r)"

definition delivery_recipient_payload :: "delivery_recipient \<Rightarrow> payload" where
  "delivery_recipient_payload r = [
     ''recipientName'' \<mapsto> JStr (dr_recipient_name r), ''streetLine1'' \<mapsto> JStr (dr_street_line_1 r),
     ''postalCode'' \<mapsto> JStr (dr_postal_code r), ''city'' \<mapsto> JStr (dr_city r),
     ''countryCode'' \<mapsto> JStr (dr_country_code r)]"

definition delivery_recipient_from_payload :: "payload \<Rightarrow> delivery_recipient res" where
  "delivery_recipient_from_payload p =
     then_res (text_at p ''recipientName'') (\<lambda>name.
     then_res (text_at p ''streetLine1'') (\<lambda>street.
     then_res (text_at p ''postalCode'') (\<lambda>postal_code.
     then_res (text_at p ''city'') (\<lambda>city.
     then_res (text_at p ''countryCode'') (\<lambda>country.
     delivery_recipient_init \<lparr>dr_recipient_name = name, dr_street_line_1 = street,
       dr_postal_code = postal_code, dr_city = city, dr_country_code = country\<rparr>)))))"

lemma delivery_recipient_init_Inr [res_simps]:
  "delivery_recipient_init raw = Inr r \<longleftrightarrow> r = raw \<and> wf_delivery_recipient raw"
  by (auto simp: delivery_recipient_init_def wf_delivery_recipient_def)

interpretation delivery_recipient: validated delivery_recipient_init wf_delivery_recipient
  by unfold_locales (auto simp: res_simps)

interpretation delivery_recipient_codec: codec delivery_recipient_payload delivery_recipient_from_payload wf_delivery_recipient
proof unfold_locales
  fix r :: delivery_recipient
  assume "wf_delivery_recipient r"
  then show "delivery_recipient_from_payload (delivery_recipient_payload r) = Inr r"
    by (cases r) (simp add: delivery_recipient_payload_def delivery_recipient_from_payload_def
        delivery_recipient.post_init_id)
qed

section \<open>Offerings\<close>

definition offering_time_aware :: "datetime \<Rightarrow> unit res" where
  "offering_time_aware d =
     (if \<not> aware d then Inl (Invariant ''offering_time_timezone_required'') else Inr ())"

lemma offering_time_aware_Inr [res_simps, simp]: "offering_time_aware d = Inr u \<longleftrightarrow> aware d"
  by (simp add: offering_time_aware_def)

record offering =
  off_id :: uuid
  off_action_id :: uuid
  off_code :: pystr
  off_name :: pystr
  off_status :: offering_status
  off_pricing_unit :: offering_unit
  off_allowed_quantity_units :: "offering_unit set"
  off_pieces_per_unit :: "int option"
  off_unit_price :: money
  off_available_from :: "datetime option"
  off_available_until :: "datetime option"

definition offering_init :: "offering \<Rightarrow> offering res" where
  "offering_init f =
     (if blank (off_code f) \<or> blank (off_name f) then Inl (Invariant ''offering_identity_empty'')
      else if off_allowed_quantity_units f = {}
        \<or> off_pricing_unit f \<notin> off_allowed_quantity_units f
      then Inl (Invariant ''offering_quantity_units_invalid'')
      else if (case off_pieces_per_unit f of None \<Rightarrow> False | Some n \<Rightarrow> n \<le> 0)
      then Inl (Invariant ''offering_pieces_invalid'')
      else if off_pricing_unit f = Box \<and> off_pieces_per_unit f = None
      then Inl (Invariant ''offering_box_pieces_required'')
      else if (off_available_from f = None) \<noteq> (off_available_until f = None)
      then Inl (Invariant ''offering_period_incomplete'')
      else case (off_available_from f, off_available_until f) of
        (Some from, Some until) \<Rightarrow>
          then_res (offering_time_aware from) (\<lambda>_.
          then_res (offering_time_aware until) (\<lambda>_.
          if instant from \<ge> instant until then Inl (Invariant ''offering_period_invalid'')
          else Inr f))
      | _ \<Rightarrow> Inr f)"

definition wf_offering :: "offering \<Rightarrow> bool" where
  "wf_offering f \<longleftrightarrow> \<not> blank (off_code f) \<and> \<not> blank (off_name f)
     \<and> off_pricing_unit f \<in> off_allowed_quantity_units f
     \<and> opt_all (\<lambda>n. 0 < n) (off_pieces_per_unit f)
     \<and> (off_pricing_unit f = Box \<longrightarrow> off_pieces_per_unit f \<noteq> None)
     \<and> (case (off_available_from f, off_available_until f) of
          (None, None) \<Rightarrow> True
        | (Some from, Some until) \<Rightarrow> aware from \<and> aware until \<and> instant from < instant until
        | _ \<Rightarrow> False)"

lemma offering_init_Inr [res_simps]: "offering_init raw = Inr f \<longleftrightarrow> f = raw \<and> wf_offering raw"
  by (auto simp: offering_init_def wf_offering_def opt_all_def res_simps split: option.splits)

interpretation offering: validated offering_init wf_offering
  by unfold_locales (auto simp: res_simps)

definition offering_available_at :: "offering \<Rightarrow> datetime \<Rightarrow> bool res" where
  "offering_available_at f moment =
     then_res (offering_time_aware moment) (\<lambda>_. Inr (off_status f = Offering_Active
       \<and> (case off_available_from f of
            None \<Rightarrow> True
          | Some from \<Rightarrow> (case off_available_until f of
              None \<Rightarrow> False
            | Some until \<Rightarrow> instant from \<le> instant moment \<and> instant moment < instant until))))"

section \<open>Order lines\<close>

record commitment_line =
  cl_id :: uuid
  cl_offering_id :: uuid
  cl_description_snapshot :: pystr
  cl_quantity :: int
  cl_unit_snapshot :: offering_unit
  cl_pieces_per_unit_snapshot :: "int option"
  cl_unit_price :: money
  cl_line_total :: money

definition commitment_line_init :: "commitment_line \<Rightarrow> commitment_line res" where
  "commitment_line_init l =
     (if blank (cl_description_snapshot l) then Inl (Invariant ''commitment_line_description_empty'')
      else if cl_quantity l \<le> 0 then Inl (Invariant ''commitment_line_quantity_invalid'')
      else then_res (money_multiply (cl_unit_price l) (cl_quantity l)) (\<lambda>product.
        if cl_line_total l \<noteq> product then Inl (Invariant ''commitment_line_total_invalid'')
        else Inr l))"

definition wf_commitment_line :: "commitment_line \<Rightarrow> bool" where
  "wf_commitment_line l \<longleftrightarrow> \<not> blank (cl_description_snapshot l) \<and> 0 < cl_quantity l
     \<and> wf_money (cl_unit_price l)
     \<and> cl_line_total l = \<lparr>mo_amount = mo_amount (cl_unit_price l) * cl_quantity l,
         mo_currency = mo_currency (cl_unit_price l)\<rparr>"

lemma money_multiply_Inr [res_simps]:
  "money_multiply m q = Inr n \<longleftrightarrow> 0 < q \<and> wf_money m
     \<and> n = \<lparr>mo_amount = mo_amount m * q, mo_currency = mo_currency m\<rparr>"
proof (cases "0 < q")
  case True
  then have "0 \<le> mo_amount m * q \<longleftrightarrow> 0 \<le> mo_amount m" by (simp add: zero_le_mult_iff)
  then show ?thesis using True by (auto simp: money_multiply_def money_init_Inr wf_money_def)
qed (auto simp: money_multiply_def)

lemma commitment_line_init_Inr [res_simps]:
  "commitment_line_init raw = Inr l \<longleftrightarrow> l = raw \<and> wf_commitment_line raw"
  by (auto simp: commitment_line_init_def wf_commitment_line_def res_simps)

interpretation line: validated commitment_line_init wf_commitment_line
  by unfold_locales (auto simp: res_simps)

definition piece_count :: "commitment_line \<Rightarrow> int" where
  "piece_count l =
     (if cl_unit_snapshot l = Piece then cl_quantity l
      else case cl_pieces_per_unit_snapshot l of Some n \<Rightarrow> cl_quantity l * n | None \<Rightarrow> 0)"

definition box_count :: "commitment_line \<Rightarrow> int" where
  "box_count l = (if cl_unit_snapshot l = Box then cl_quantity l else 0)"

definition price_from ::
  "uuid \<Rightarrow> offering \<Rightarrow> int \<Rightarrow> offering_unit \<Rightarrow> datetime \<Rightarrow> commitment_line res" where
  "price_from fresh f quantity u evaluated_at =
     then_res (offering_available_at f evaluated_at) (\<lambda>available.
     if \<not> available then Inl (Invariant ''offering_not_available'')
     else if u \<notin> off_allowed_quantity_units f
     then Inl (Invariant ''offering_quantity_unit_not_allowed'')
     else if u \<noteq> off_pricing_unit f
     then Inl (Invariant ''offering_quantity_conversion_unsupported'')
     else then_res (money_multiply (off_unit_price f) quantity) (\<lambda>total.
       commitment_line_init \<lparr>cl_id = fresh, cl_offering_id = off_id f,
         cl_description_snapshot = off_name f, cl_quantity = quantity, cl_unit_snapshot = u,
         cl_pieces_per_unit_snapshot = off_pieces_per_unit f, cl_unit_price = off_unit_price f,
         cl_line_total = total\<rparr>))"

section \<open>Sums per unit\<close>

record unit_quantity =
  uq_unit :: offering_unit
  uq_quantity :: int

definition unit_quantity_init :: "unit_quantity \<Rightarrow> unit_quantity res" where
  "unit_quantity_init q =
     (if uq_quantity q < 0 then Inl (Invariant ''unit_quantity_invalid'') else Inr q)"

definition unit_quantity_payload :: "unit_quantity \<Rightarrow> payload" where
  "unit_quantity_payload q =
     [''unit'' \<mapsto> JStr (offering_unit_value (uq_unit q)), ''quantity'' \<mapsto> JInt (uq_quantity q)]"

type_synonym unit_totals = "offering_unit \<rightharpoonup> int"

definition total_of :: "unit_totals \<Rightarrow> offering_unit \<Rightarrow> int" where
  "total_of t u = (case t u of None \<Rightarrow> 0 | Some n \<Rightarrow> n)"

definition add_quantity :: "unit_totals \<Rightarrow> offering_unit \<times> int \<Rightarrow> unit_totals" where
  "add_quantity t item = t(fst item \<mapsto> total_of t (fst item) + snd item)"

definition summarize :: "(offering_unit \<times> int) list \<Rightarrow> unit_quantity list res" where
  "summarize items =
     (let totals = foldl add_quantity Map.empty items in
      map_res (\<lambda>u. unit_quantity_init \<lparr>uq_unit = u, uq_quantity = total_of totals u\<rparr>)
        (filter (\<lambda>u. 0 < total_of totals u) all_offering_units))"

section \<open>Orders\<close>

record commitment =
  cm_id :: uuid
  cm_action_id :: uuid
  cm_source :: commitment_source
  cm_status :: commitment_status
  cm_buyer :: buyer_snapshot
  cm_invoice_recipient :: "invoice_recipient option"
  cm_lines :: "commitment_line list"
  cm_total :: money
  cm_delivery_window_id :: "uuid option"
  cm_delivery_window_snapshot :: "text_dict option"
  cm_delivery_contact :: "delivery_contact option"
  cm_delivery_recipient :: "delivery_recipient option"
  cm_message :: "pystr option"
  cm_public_reference :: "pystr option"
  cm_idempotency_key :: "pystr option"
  cm_replayed :: bool
  cm_captured_at :: "datetime option"

definition public_reference_ok :: "pystr \<Rightarrow> bool" where
  "public_reference_ok s \<longleftrightarrow> starts_with (lit ''LA-'') s \<and> length s = 35
     \<and> list_all (\<lambda>c. 65 \<le> c \<and> c \<le> 70 \<or> is_09 c) (drop 3 s)"

definition check_captured :: "commitment \<Rightarrow> unit res" where
  "check_captured c =
     (case cm_captured_at c of
        None \<Rightarrow> Inr ()
      | Some d \<Rightarrow> then_res (require_aware d) (\<lambda>_.
          if cm_source c \<noteq> From_Acquisition then Inl (Invariant ''captured_at_source_invalid'')
          else Inr ()))"

definition check_delivery_snapshot :: "commitment \<Rightarrow> unit res" where
  "check_delivery_snapshot c =
     (case (cm_delivery_window_id c, cm_delivery_window_snapshot c) of
        (None, None) \<Rightarrow> Inr ()
      | (Some wid, Some snap) \<Rightarrow>
          if snap ''windowId'' \<noteq> Some (uuid_str wid)
          then Inl (Invariant ''delivery_snapshot_mismatch'') else Inr ()
      | _ \<Rightarrow> Inl (Invariant ''delivery_snapshot_required''))"

definition drop_empty_contact :: "delivery_contact option \<Rightarrow> delivery_contact option" where
  "drop_empty_contact k =
     (case k of None \<Rightarrow> None | Some v \<Rightarrow> if contact_empty v then None else Some v)"

definition check_lines :: "commitment \<Rightarrow> unit res" where
  "check_lines c =
     (if cm_lines c = [] then Inl (Invariant ''commitment_lines_required'')
      else if has_duplicate (map cl_offering_id (cm_lines c))
      then Inl (Invariant ''commitment_offering_duplicate'')
      else then_res (money_init \<lparr>mo_amount = 0, mo_currency = mo_currency (cm_total c)\<rparr>) (\<lambda>zero.
        then_res (sum_money zero (map cl_line_total (cm_lines c))) (\<lambda>calculated.
        if calculated \<noteq> cm_total c then Inl (Invariant ''commitment_total_invalid'') else Inr ())))"

definition normalized_message :: "pystr option \<Rightarrow> pystr option res" where
  "normalized_message m =
     (case m of
        None \<Rightarrow> Inr None
      | Some s \<Rightarrow>
          if length (collapse s) > 1000 then Inl (Invariant ''commitment_message_too_long'')
          else Inr (if collapse s = [] then None else Some (collapse s)))"

definition check_reference :: "commitment \<Rightarrow> unit res" where
  "check_reference c =
     (if cm_source c = From_Public_Form
      then (case cm_public_reference c of
          None \<Rightarrow> Inl (Invariant ''commitment_public_reference_invalid'')
        | Some r \<Rightarrow>
            if \<not> public_reference_ok r
            then Inl (Invariant ''commitment_public_reference_invalid'') else Inr ())
      else if cm_public_reference c \<noteq> None
      then Inl (Invariant ''commitment_public_reference_forbidden'') else Inr ())"

definition commitment_init :: "commitment \<Rightarrow> commitment res" where
  "commitment_init c =
     then_res (check_captured c) (\<lambda>_.
     then_res (check_delivery_snapshot c) (\<lambda>_.
     let c1 = c\<lparr>cm_delivery_contact := drop_empty_contact (cm_delivery_contact c)\<rparr> in
     then_res (check_lines c1) (\<lambda>_.
     then_res (normalized_message (cm_message c1)) (\<lambda>message.
     let c2 = c1\<lparr>cm_message := message\<rparr> in
     then_res (check_reference c2) (\<lambda>_. Inr c2)))))"

definition total_pieces :: "commitment \<Rightarrow> int" where
  "total_pieces c = sum_list (map piece_count (cm_lines c))"

definition total_boxes :: "commitment \<Rightarrow> int" where
  "total_boxes c = sum_list (map box_count (cm_lines c))"

definition commitment_quantities :: "commitment \<Rightarrow> unit_quantity list res" where
  "commitment_quantities c =
     summarize (map (\<lambda>l. (cl_unit_snapshot l, cl_quantity l)) (cm_lines c))"

section \<open>Accepted orders\<close>

definition delivery_snapshot_ok :: "commitment \<Rightarrow> bool" where
  "delivery_snapshot_ok c \<longleftrightarrow>
     (case (cm_delivery_window_id c, cm_delivery_window_snapshot c) of
        (None, None) \<Rightarrow> True
      | (Some wid, Some snap) \<Rightarrow> snap ''windowId'' = Some (uuid_str wid)
      | _ \<Rightarrow> False)"

lemma delivery_snapshot_ok_upd [simp]:
  "delivery_snapshot_ok (c\<lparr>cm_delivery_contact := k, cm_message := m\<rparr>) \<longleftrightarrow> delivery_snapshot_ok c"
  by (simp add: delivery_snapshot_ok_def)

definition wf_commitment :: "commitment \<Rightarrow> bool" where
  "wf_commitment c \<longleftrightarrow>
     aware_opt (cm_captured_at c)
     \<and> (cm_captured_at c \<noteq> None \<longrightarrow> cm_source c = From_Acquisition)
     \<and> delivery_snapshot_ok c
     \<and> opt_all (\<lambda>k. \<not> contact_empty k) (cm_delivery_contact c)
     \<and> cm_lines c \<noteq> [] \<and> distinct (map cl_offering_id (cm_lines c))
     \<and> capital_code 3 (mo_currency (cm_total c))
     \<and> sum_money \<lparr>mo_amount = 0, mo_currency = mo_currency (cm_total c)\<rparr>
         (map cl_line_total (cm_lines c)) = Inr (cm_total c)
     \<and> opt_all (\<lambda>m. m \<noteq> [] \<and> collapse m = m \<and> length m \<le> 1000) (cm_message c)
     \<and> (if cm_source c = From_Public_Form
        then \<exists>r. cm_public_reference c = Some r \<and> public_reference_ok r
        else cm_public_reference c = None)"

lemma check_captured_Inr [res_simps]:
  "check_captured c = Inr u \<longleftrightarrow> aware_opt (cm_captured_at c)
     \<and> (cm_captured_at c \<noteq> None \<longrightarrow> cm_source c = From_Acquisition)"
  by (auto simp: check_captured_def res_simps split: option.splits)

lemma check_delivery_snapshot_Inr [res_simps]:
  "check_delivery_snapshot c = Inr u \<longleftrightarrow> delivery_snapshot_ok c"
  by (auto simp: check_delivery_snapshot_def delivery_snapshot_ok_def split: option.splits)

lemma check_lines_Inr [res_simps]:
  "check_lines c = Inr u \<longleftrightarrow> cm_lines c \<noteq> [] \<and> distinct (map cl_offering_id (cm_lines c))
     \<and> capital_code 3 (mo_currency (cm_total c))
     \<and> sum_money \<lparr>mo_amount = 0, mo_currency = mo_currency (cm_total c)\<rparr>
         (map cl_line_total (cm_lines c)) = Inr (cm_total c)"
  by (auto simp: check_lines_def has_duplicate_iff res_simps wf_money_def)

lemma check_reference_Inr [res_simps]:
  "check_reference c = Inr u \<longleftrightarrow>
     (if cm_source c = From_Public_Form
      then \<exists>r. cm_public_reference c = Some r \<and> public_reference_ok r
      else cm_public_reference c = None)"
  by (auto simp: check_reference_def split: option.splits)

lemma normalized_message_Inr:
  "normalized_message m = Inr n \<Longrightarrow>
     opt_all (\<lambda>s. s \<noteq> [] \<and> collapse s = s \<and> length s \<le> 1000) n"
  by (auto simp: normalized_message_def split: option.splits if_splits)

lemma normalized_message_id:
  "opt_all (\<lambda>s. s \<noteq> [] \<and> collapse s = s \<and> length s \<le> 1000) m \<Longrightarrow> normalized_message m = Inr m"
  by (auto simp: normalized_message_def split: option.splits)

lemma drop_empty_contact_ok: "opt_all (\<lambda>k. \<not> contact_empty k) (drop_empty_contact k)"
  by (auto simp: drop_empty_contact_def split: option.splits)

lemma drop_empty_contact_id: "opt_all (\<lambda>k. \<not> contact_empty k) k \<Longrightarrow> drop_empty_contact k = k"
  by (auto simp: drop_empty_contact_def split: option.splits)

lemma commitment_init_wf: "commitment_init raw = Inr c \<Longrightarrow> wf_commitment c"
  unfolding commitment_init_def Let_def
  by (auto simp: res_simps wf_commitment_def drop_empty_contact_ok dest: normalized_message_Inr
      split: if_splits)

lemma commitment_init_id: "wf_commitment c \<Longrightarrow> commitment_init c = Inr c"
proof -
  assume wf: "wf_commitment c"
  then have checks: "check_captured c = Inr ()" "check_delivery_snapshot c = Inr ()"
    "check_lines c = Inr ()" "check_reference c = Inr ()"
    by (simp_all only: res_simps) (simp_all add: wf_commitment_def)
  have parts: "drop_empty_contact (cm_delivery_contact c) = cm_delivery_contact c"
    "normalized_message (cm_message c) = Inr (cm_message c)"
    using wf by (simp_all add: wf_commitment_def drop_empty_contact_id normalized_message_id)
  show ?thesis
    unfolding commitment_init_def Let_def parts by (simp add: checks parts)
qed

interpretation commitment: validated commitment_init wf_commitment
  by unfold_locales (rule commitment_init_wf commitment_init_id, assumption)+

lemma wf_commitment_line_money:
  "wf_commitment_line l \<Longrightarrow> wf_money (cl_line_total l)
     \<and> mo_amount (cl_line_total l) = mo_amount (cl_unit_price l) * cl_quantity l
     \<and> mo_currency (cl_line_total l) = mo_currency (cl_unit_price l)"
  by (auto simp: wf_commitment_line_def wf_money_def)

lemma commitment_total:
  assumes "wf_commitment c" "list_all wf_commitment_line (cm_lines c)"
  shows "(\<forall>l \<in> set (cm_lines c). mo_currency (cl_unit_price l) = mo_currency (cm_total c))
    \<and> mo_amount (cm_total c) = sum_list (map (\<lambda>l. mo_amount (cl_unit_price l) * cl_quantity l) (cm_lines c))
    \<and> wf_money (cm_total c)"
proof -
  define z where "z = \<lparr>mo_amount = 0, mo_currency = mo_currency (cm_total c)\<rparr>"
  have z: "wf_money z" "mo_amount z = 0" "mo_currency z = mo_currency (cm_total c)"
    "sum_money z (map cl_line_total (cm_lines c)) = Inr (cm_total c)"
    using assms(1) by (simp_all add: z_def wf_money_def wf_commitment_def)
  have line: "wf_money (cl_line_total l)" "mo_currency (cl_line_total l) = mo_currency (cl_unit_price l)"
    "mo_amount (cl_line_total l) = mo_amount (cl_unit_price l) * cl_quantity l"
    if "l \<in> set (cm_lines c)" for l
    using assms(2) that wf_commitment_line_money by (auto simp: list_all_iff)
  have wf: "list_all wf_money (map cl_line_total (cm_lines c))" using line(1) by (auto simp: list_all_iff)
  have cur: "\<forall>m \<in> set (map cl_line_total (cm_lines c)). mo_currency m = mo_currency z"
    and total: "cm_total c = z\<lparr>mo_amount := mo_amount z
      + sum_list (map mo_amount (map cl_line_total (cm_lines c)))\<rparr>"
    using z(4) unfolding sum_money_Inr [OF wf z(1)] by simp_all
  have amounts: "map mo_amount (map cl_line_total (cm_lines c))
      = map (\<lambda>l. mo_amount (cl_unit_price l) * cl_quantity l) (cm_lines c)"
    using line(3) by simp
  have "mo_amount (cm_total c) = sum_list (map mo_amount (map cl_line_total (cm_lines c)))"
    by (subst total) (simp add: z(2))
  moreover have "0 \<le> sum_list (map mo_amount (map cl_line_total (cm_lines c)))"
    using line(1) by (intro sum_list_nonneg) (auto simp: wf_money_def)
  ultimately show ?thesis
    using cur line(2) z(1,3) unfolding amounts by (auto simp: wf_money_def)
qed

section \<open>Sums per unit\<close>

lemma total_of_upd: "total_of (t(u \<mapsto> n)) v = (if v = u then n else total_of t v)"
  by (simp add: total_of_def)

lemma total_of_foldl:
  "total_of (foldl add_quantity t items) u =
     total_of t u + sum_list (map snd (filter (\<lambda>i. fst i = u) items))"
  by (induction items arbitrary: t) (auto simp: add_quantity_def total_of_upd)

definition ordered_sum :: "(offering_unit \<times> int) list \<Rightarrow> offering_unit \<Rightarrow> int" where
  "ordered_sum items u = sum_list (map snd (filter (\<lambda>i. fst i = u) items))"

lemma summarize_eq:
  "summarize items = Inr (map (\<lambda>u. \<lparr>uq_unit = u, uq_quantity = ordered_sum items u\<rparr>)
     (filter (\<lambda>u. 0 < ordered_sum items u) all_offering_units))"
  unfolding summarize_def Let_def total_of_foldl
  by (subst map_res_pure) (auto simp: unit_quantity_init_def ordered_sum_def total_of_def)

lemma ordered_sum_Cons:
  "ordered_sum ((v, n) # items) u = (if u = v then n else 0) + ordered_sum items u"
  by (simp add: ordered_sum_def)

lemma ordered_sum_all:
  "sum_list (map (ordered_sum items) all_offering_units) = sum_list (map snd items)"
proof (induction items)
  case (Cons i items)
  obtain v n where "i = (v, n)" by (cases i)
  then show ?case using Cons
    by (cases v) (simp_all add: all_offering_units_def ordered_sum_Cons)
qed (simp add: all_offering_units_def ordered_sum_def)

lemma ordered_sum_nonneg: "\<forall>i \<in> set items. 0 \<le> snd i \<Longrightarrow> 0 \<le> ordered_sum items u"
  unfolding ordered_sum_def by (rule sum_list_nonneg) auto

lemma ordered_sum_pos:
  "\<forall>i \<in> set items. 0 < snd i \<Longrightarrow> 0 < ordered_sum items u \<longleftrightarrow> u \<in> set (map fst items)"
proof (induction items)
  case (Cons i items)
  then have "0 \<le> ordered_sum items u" by (intro ordered_sum_nonneg) auto
  with Cons show ?case by (cases i) (auto simp: ordered_sum_Cons)
qed (simp add: ordered_sum_def)

lemma sum_list_positive:
  "\<forall>x \<in> set xs. (0 :: int) \<le> f x \<Longrightarrow> sum_list (map f (filter (\<lambda>x. 0 < f x) xs)) = sum_list (map f xs)"
  by (induction xs) auto

text \<open>The cents of an amount: exact with two decimals or fewer, otherwise the nearest, ties upwards.\<close>

lemma half_up:
  assumes "0 < (d :: int)"
  shows "2 * d * ((2 * c + d) div (2 * d)) - d \<le> 2 * c \<and> 2 * c < 2 * d * ((2 * c + d) div (2 * d)) + d"
proof -
  define q where "q = (2 * c + d) div (2 * d)"
  have "2 * d * q + (2 * c + d) mod (2 * d) = 2 * c + d" unfolding q_def by simp
  moreover have "0 \<le> (2 * c + d) mod (2 * d)" "(2 * c + d) mod (2 * d) < 2 * d"
    using assms by simp_all
  ultimately show ?thesis unfolding q_def [symmetric] by linarith
qed

section \<open>Properties\<close>

text \<open>
  Prices come from the server's offering and from nothing else.  A line can be priced exactly when
  the offering is available at that moment (active and inside its half-open period), the unit is the
  offering's pricing unit and the quantity is positive; the line then is valid, costs exactly price times
  quantity in the offering's currency, and repeats the offering's name and pieces per unit.
\<close>
lemma server_pricing:
  assumes "offering_init raw = Inr f" "wf_money (off_unit_price f)" "aware moment"
  shows "((\<exists>l. price_from fresh f q u moment = Inr l) \<longleftrightarrow>
      offering_available_at f moment = Inr True \<and> u = off_pricing_unit f \<and> 0 < q)
    \<and> (\<forall>l. price_from fresh f q u moment = Inr l \<longrightarrow> wf_commitment_line l
        \<and> mo_amount (cl_line_total l) = mo_amount (off_unit_price f) * q
        \<and> mo_currency (cl_line_total l) = mo_currency (off_unit_price f)
        \<and> cl_quantity l = q \<and> cl_unit_snapshot l = u \<and> cl_offering_id l = off_id f
        \<and> cl_description_snapshot l = off_name f
        \<and> cl_pieces_per_unit_snapshot l = off_pieces_per_unit f)"
  using offering.post_init_wf [OF assms(1)] assms(2,3)
  by (auto simp: price_from_def res_simps wf_commitment_line_def wf_offering_def)

definition sample_price :: money where
  "sample_price = \<lparr>mo_amount = 1250, mo_currency = lit ''EUR''\<rparr>"

definition sample_off :: offering where
  "sample_off = \<lparr>off_id = 3, off_action_id = 1, off_code = lit ''stollen'', off_name = lit ''Stollen'',
     off_status = Offering_Active, off_pricing_unit = Box, off_allowed_quantity_units = {Box, Piece},
     off_pieces_per_unit = Some 6, off_unit_price = sample_price,
     off_available_from = Some (utc 10), off_available_until = Some (utc 20)\<rparr>"

lemma sample_price_wf: "wf_money sample_price"
proof -
  have "capital_code 3 (lit ''EUR'')" by code_simp
  then show ?thesis by (simp add: wf_money_def sample_price_def)
qed

lemma sample_off_wf: "wf_offering sample_off"
  using slug_not_blank [OF sample_texts(1)] sample_texts(2)
  by (simp add: wf_offering_def sample_off_def)

lemma server_pricing_example:
  "(\<exists>l. price_from 8 sample_off 4 Box (utc 10) = Inr l) \<and> (\<nexists>l. price_from 8 sample_off 4 Box (utc 20) = Inr l)
   \<and> (\<nexists>l. price_from 8 sample_off 4 Piece (utc 10) = Inr l)"
proof -
  have *: "wf_money (off_unit_price sample_off)" using sample_price_wf by (simp add: sample_off_def)
  note pricing = server_pricing [OF offering.post_init_id [OF sample_off_wf] *]
  show ?thesis
    by (simp add: pricing) (simp add: sample_off_def offering_available_at_def offering_time_aware_def)
qed

text \<open>
  The total of an accepted order is the sum of its server-priced lines.  An order that its
  constructor accepts, with lines that their constructor accepted, has at least one line, no offering
  twice, one currency throughout, and a total equal to the sum of unit price times quantity.
\<close>
lemma order_total:
  assumes "commitment_init raw = Inr c" "list_all wf_commitment_line (cm_lines c)"
  shows "cm_lines c \<noteq> [] \<and> distinct (map cl_offering_id (cm_lines c))
    \<and> (\<forall>l \<in> set (cm_lines c). mo_currency (cl_unit_price l) = mo_currency (cm_total c))
    \<and> mo_amount (cm_total c) = sum_list (map (\<lambda>l. mo_amount (cl_unit_price l) * cl_quantity l) (cm_lines c))
    \<and> wf_money (cm_total c)"
  using commitment.post_init_wf [OF assms(1)] commitment_total [of c] assms(2)
  by (simp add: wf_commitment_def)

definition sample_line :: "uuid \<Rightarrow> int \<Rightarrow> commitment_line" where
  "sample_line i q = \<lparr>cl_id = i, cl_offering_id = i, cl_description_snapshot = lit ''Stollen'',
     cl_quantity = q, cl_unit_snapshot = Box, cl_pieces_per_unit_snapshot = Some 6,
     cl_unit_price = sample_price, cl_line_total = sample_price\<lparr>mo_amount := 1250 * q\<rparr>\<rparr>"

definition sample_buyer :: buyer_snapshot where
  "sample_buyer = \<lparr>by_party_kind = Company, by_twenty_id = 11, by_display_name = lit ''Stollen'',
     by_email = Some (lit ''kauf@example.org'')\<rparr>"

definition sample_order :: "commitment_status \<Rightarrow> commitment" where
  "sample_order st = \<lparr>cm_id = 21, cm_action_id = 1, cm_source = From_Admin, cm_status = st,
     cm_buyer = sample_buyer, cm_invoice_recipient = None,
     cm_lines = [sample_line 1 2, sample_line 2 3],
     cm_total = \<lparr>mo_amount = 6250, mo_currency = lit ''EUR''\<rparr>, cm_delivery_window_id = None,
     cm_delivery_window_snapshot = None, cm_delivery_contact = None, cm_delivery_recipient = None,
     cm_message = None, cm_public_reference = None, cm_idempotency_key = None, cm_replayed = False,
     cm_captured_at = None\<rparr>"

lemma sample_line_wf: "0 < q \<Longrightarrow> wf_commitment_line (sample_line i q)"
  using sample_price_wf sample_texts(2)
  by (simp add: wf_commitment_line_def sample_line_def sample_price_def)

lemma sample_order_wf: "wf_commitment (sample_order st)"
  using sample_price_wf
  by (simp add: wf_commitment_def sample_order_def delivery_snapshot_ok_def sample_line_def
      sample_price_def sum_money_def money_plus_def money_init_def wf_money_def)

lemma order_total_example:
  "mo_amount (cm_total (sample_order Confirmed)) = 1250 * 2 + 1250 * 3"
  using order_total [OF commitment.post_init_id [OF sample_order_wf [of Confirmed]]]
  by (simp add: sample_order_def sample_line_wf)

text \<open>
  The quantity summary of an order loses nothing.  It always exists, lists each unit at most once in
  the order of the enumeration, each with the exact sum of the lines in that unit and never a zero; over
  all units it adds up to the sum of all line quantities, and its entry for boxes is the box total.
\<close>
lemma order_quantities:
  assumes "list_all wf_commitment_line (cm_lines c)"
  shows "\<exists>qs. commitment_quantities c = Inr qs
    \<and> map uq_unit qs = filter (\<lambda>u. u \<in> set (map cl_unit_snapshot (cm_lines c))) all_offering_units
    \<and> (\<forall>q \<in> set qs. 0 < uq_quantity q \<and> uq_quantity q =
        sum_list (map cl_quantity (filter (\<lambda>l. cl_unit_snapshot l = uq_unit q) (cm_lines c))))
    \<and> sum_list (map uq_quantity qs) = sum_list (map cl_quantity (cm_lines c))
    \<and> total_boxes c = sum_list (map uq_quantity (filter (\<lambda>q. uq_unit q = Box) qs))"
proof -
  let ?items = "map (\<lambda>l. (cl_unit_snapshot l, cl_quantity l)) (cm_lines c)"
  let ?us = "filter (\<lambda>u. 0 < ordered_sum ?items u) all_offering_units"
  define qs where "qs = map (\<lambda>u. \<lparr>uq_unit = u, uq_quantity = ordered_sum ?items u\<rparr>) ?us"
  have pos: "\<And>l. l \<in> set (cm_lines c) \<Longrightarrow> 0 < cl_quantity l"
    using assms by (auto simp: list_all_iff wf_commitment_line_def)
  have sum: "ordered_sum ?items u
      = sum_list (map cl_quantity (filter (\<lambda>l. cl_unit_snapshot l = u) (cm_lines c)))" for u
    by (simp add: ordered_sum_def filter_map comp_def)
  have items: "\<forall>i \<in> set ?items. 0 < snd i" using pos by auto
  have used: "0 < ordered_sum ?items u \<longleftrightarrow> u \<in> set (map cl_unit_snapshot (cm_lines c))" for u
    unfolding ordered_sum_pos [OF items] by (simp add: image_comp comp_def)
  have nonneg: "0 \<le> ordered_sum ?items u" for u
    using items by (intro ordered_sum_nonneg) (auto intro: less_imp_le)
  have total: "sum_list (map uq_quantity qs) = sum_list (map cl_quantity (cm_lines c))"
    using sum_list_positive [of all_offering_units "ordered_sum ?items"] nonneg ordered_sum_all [of ?items]
    by (simp add: qs_def comp_def)
  have boxes: "total_boxes c = ordered_sum ?items Box"
    unfolding total_boxes_def box_count_def [abs_def] sum by (rule sum_list_map_filter' [symmetric])
  have "sum_list (map uq_quantity (filter (\<lambda>q. uq_unit q = Box) qs)) = ordered_sum ?items Box"
    using nonneg [of Box] by (auto simp: qs_def all_offering_units_def)
  then show ?thesis
    using total boxes used sum unfolding commitment_quantities_def summarize_eq
    by (intro exI [of _ qs]) (auto simp: qs_def comp_def)
qed

lemma order_quantities_example:
  "\<exists>qs. commitment_quantities (sample_order Confirmed) = Inr qs \<and> map uq_unit qs = [Box]
     \<and> sum_list (map uq_quantity qs) = 5"
proof -
  have "list_all wf_commitment_line (cm_lines (sample_order Confirmed))"
    by (simp add: sample_order_def sample_line_wf)
  from order_quantities [OF this] show ?thesis
    by (auto simp: sample_order_def sample_line_def all_offering_units_def)
qed

text \<open>
  C30: Stored snapshots of the parties read back exactly.  Buyer, invoice recipient, delivery recipient
  and delivery contact, once accepted by their constructors, are recovered unchanged from their stored
  payload, so two different ones never share a payload.
\<close>
theorem party_snapshots_roundtrip:
  "(\<forall>b raw. buyer_init raw = Inr b \<longrightarrow> buyer_from_payload (buyer_payload b) = Inr b)
   \<and> (\<forall>r raw. invoice_recipient_init raw = Inr r \<longrightarrow>
        invoice_recipient_from_payload (invoice_recipient_payload r) = Inr r)
   \<and> (\<forall>r raw. delivery_recipient_init raw = Inr r \<longrightarrow>
        delivery_recipient_from_payload (delivery_recipient_payload r) = Inr r)
   \<and> (\<forall>k raw. delivery_contact_init raw = Inr k \<longrightarrow> contact_from_payload (contact_payload k) = Inr k)"
  using buyer_codec.decode_encode buyer.post_init_wf
    invoice_recipient_codec.decode_encode invoice_recipient.post_init_wf
    delivery_recipient_codec.decode_encode delivery_recipient.post_init_wf
    contact_codec.decode_encode contact.post_init_wf
  by blast

lemma sample_buyer_wf: "wf_buyer sample_buyer"
proof -
  have "email_ok (lit ''kauf@example.org'')" by code_simp
  then show ?thesis using sample_texts(2) by (simp add: wf_buyer_def sample_buyer_def)
qed

theorem party_snapshots_roundtrip_witness:
  "buyer_from_payload (buyer_payload sample_buyer) = Inr sample_buyer"
  using party_snapshots_roundtrip buyer.post_init_id [OF sample_buyer_wf] by blast

text \<open>
  An amount in major units becomes the nearest number of cents.  \<open>from_major\<close> accepts a finite amount
  that is not negative, in a valid currency and with a result of at most 28 digits; an amount with two
  decimals or fewer is converted exactly, any other to the nearest cent with ties rounded up, so the
  error is at most half a cent.
\<close>
lemma money_rounding:
  assumes "money_from_major (Finite c e) currency = Inr m"
  shows "wf_money m \<and> mo_currency m = currency \<and> mo_amount m < 10 ^ 28
    \<and> (- 2 \<le> e \<longrightarrow> mo_amount m = c * 10 ^ nat (e + 2))
    \<and> (e < - 2 \<longrightarrow> (let d = 10 ^ nat (- 2 - e) in
        2 * d * mo_amount m - d \<le> 2 * c \<and> 2 * c < 2 * d * mo_amount m + d))"
proof -
  have "wf_money m \<and> mo_currency m = currency \<and> quantize_cents c e = Inr (mo_amount m)"
    using assms by (auto simp: money_from_major_def res_simps split: if_splits)
  then show ?thesis
    using half_up [of "10 ^ nat (- 2 - e)" c]
    by (auto simp: quantize_cents_def Let_def split: if_splits)
qed

lemma money_rounding_example:
  "2 * 1000 * (1235 :: int) - 1000 \<le> 2 * 1234500 \<and> 2 * 1234500 < 2 * 1000 * (1235 :: int) + 1000"
proof -
  have "capital_code 3 (lit ''EUR'')" by code_simp
  then have "money_from_major (Finite 1234500 (- 5)) (lit ''EUR'')
      = Inr \<lparr>mo_amount = 1235, mo_currency = lit ''EUR''\<rparr>"
    by (simp add: money_from_major_def quantize_cents_def money_init_def)
  from money_rounding [OF this] show ?thesis by (simp add: Let_def)
qed

end
