(* ===== verification/Invoice_Issue.thy ===== *)
theory Invoice_Issue
  imports Order_Commitments
begin

text \<open>
  \<^verbatim>\<open>domain/invoices.py\<close>: issuer, bank details and numbering of an action's invoice profile, invoice
  lines with their split into net and tax, the invoice with its totals and lifecycle, and how an invoice
  is issued from an order.  The time zone of the installation is a parameter.
\<close>

datatype tax_treatment = Standard_Vat | Small_Business | Tax_Exempt

datatype invoice_status = Issued | Sent | Paid | Cancelled

fun allowed_invoice_transitions :: "invoice_status \<Rightarrow> invoice_status set" where
  "allowed_invoice_transitions Issued = {Sent, Paid, Cancelled}"
| "allowed_invoice_transitions Sent = {Paid, Cancelled}"
| "allowed_invoice_transitions Paid = {Issued, Sent, Cancelled}"
| "allowed_invoice_transitions Cancelled = {}"

definition invoice_number_ok :: "pystr \<Rightarrow> bool" where
  "invoice_number_ok =
     head_rest (\<lambda>c. is_AZ c \<or> is_09 c) (\<lambda>c. is_AZ c \<or> is_09 c \<or> c = 45) 0 31"

definition number_prefix_ok :: "pystr \<Rightarrow> bool" where
  "number_prefix_ok =
     head_rest (\<lambda>c. is_AZ c \<or> is_09 c) (\<lambda>c. is_AZ c \<or> is_09 c \<or> c = 45) 0 23"

definition tax_identifier_ok :: "pystr \<Rightarrow> bool" where
  "tax_identifier_ok s \<longleftrightarrow> 3 \<le> length s \<and> length s \<le> 32
     \<and> list_all (\<lambda>c. is_AZ c \<or> is_09 c \<or> c \<in> set (lit '' /.-'')) s"

definition iban_ok :: "pystr \<Rightarrow> bool" where
  "iban_ok s \<longleftrightarrow> 15 \<le> length s \<and> length s \<le> 34 \<and> list_all is_AZ (take 2 s)
     \<and> list_all (\<lambda>c. is_AZ c \<or> is_09 c) s"

definition bic_ok :: "pystr \<Rightarrow> bool" where
  "bic_ok s \<longleftrightarrow> (length s = 8 \<or> length s = 11) \<and> list_all (\<lambda>c. is_AZ c \<or> is_09 c) s"

definition required :: "pystr \<Rightarrow> string \<Rightarrow> pystr res" where
  "required value code = (if collapse value = [] then Inl (Invariant code) else Inr (collapse value))"

definition payload_integer :: "payload \<Rightarrow> string \<Rightarrow> int res" where
  "payload_integer p key =
     then_res (value_at p key) (\<lambda>v.
       case v of
         JInt n \<Rightarrow> Inr n
       | JStr s \<Rightarrow> (case py_int 10 s of
             None \<Rightarrow> Inl (Invariant ''invoice_snapshot_integer_invalid'') | Some n \<Rightarrow> Inr n)
       | _ \<Rightarrow> Inl (Invariant ''invoice_snapshot_integer_invalid''))"

lemma payload_integer_upd [simp]:
  "payload_integer (p(k \<mapsto> JInt n)) k = Inr n"
  "j \<noteq> k \<Longrightarrow> payload_integer (p(k \<mapsto> v)) j = payload_integer p j"
  by (simp_all add: payload_integer_def)

text \<open>A text field that its constructor has normalised.\<close>

definition tidy :: "pystr \<Rightarrow> bool" where
  "tidy s \<longleftrightarrow> s \<noteq> [] \<and> collapse s = s"

lemma required_Inr [res_simps]: "required v code = Inr s \<longleftrightarrow> collapse v \<noteq> [] \<and> s = collapse v"
  by (auto simp: required_def)

lemma tidy_collapse: "collapse v \<noteq> [] \<Longrightarrow> tidy (collapse v)"
  by (simp add: tidy_def)

lemma required_tidy: "tidy s \<Longrightarrow> required s code = Inr s"
  by (simp add: required_def tidy_def)

section \<open>Issuer and bank details\<close>

record invoice_issuer =
  is_legal_name :: pystr
  is_street_line_1 :: pystr
  is_postal_code :: pystr
  is_city :: pystr
  is_country_code :: pystr
  is_tax_identifier :: pystr
  is_email :: pystr

definition invoice_issuer_init :: "invoice_issuer \<Rightarrow> invoice_issuer res" where
  "invoice_issuer_init i =
     then_res (required (is_legal_name i) ''invoice_issuer_name_empty'') (\<lambda>name.
     then_res (required (is_street_line_1 i) ''invoice_issuer_street_empty'') (\<lambda>street.
     then_res (required (is_postal_code i) ''invoice_issuer_postal_empty'') (\<lambda>postal.
     then_res (required (is_city i) ''invoice_issuer_city_empty'') (\<lambda>city.
     if \<not> capital_code 2 (is_country_code i)
     then Inl (Invariant ''invoice_issuer_country_invalid'')
     else if \<not> tax_identifier_ok (is_tax_identifier i)
     then Inl (Invariant ''invoice_issuer_tax_identifier_invalid'')
     else if email_bad (Some (is_email i)) then Inl (Invariant ''invoice_issuer_email_invalid'')
     else Inr (i\<lparr>is_legal_name := name, is_street_line_1 := street, is_postal_code := postal,
       is_city := city\<rparr>)))))"

definition wf_invoice_issuer :: "invoice_issuer \<Rightarrow> bool" where
  "wf_invoice_issuer i \<longleftrightarrow> tidy (is_legal_name i) \<and> tidy (is_street_line_1 i)
     \<and> tidy (is_postal_code i) \<and> tidy (is_city i) \<and> capital_code 2 (is_country_code i)
     \<and> tax_identifier_ok (is_tax_identifier i) \<and> email_ok (is_email i)"

definition invoice_issuer_payload :: "invoice_issuer \<Rightarrow> payload" where
  "invoice_issuer_payload i = [
     ''legalName'' \<mapsto> JStr (is_legal_name i), ''streetLine1'' \<mapsto> JStr (is_street_line_1 i),
     ''postalCode'' \<mapsto> JStr (is_postal_code i), ''city'' \<mapsto> JStr (is_city i),
     ''countryCode'' \<mapsto> JStr (is_country_code i),
     ''taxIdentifier'' \<mapsto> JStr (is_tax_identifier i), ''email'' \<mapsto> JStr (is_email i)]"

definition invoice_issuer_from_payload :: "payload \<Rightarrow> invoice_issuer res" where
  "invoice_issuer_from_payload p =
     then_res (text_at p ''legalName'') (\<lambda>name.
     then_res (text_at p ''streetLine1'') (\<lambda>street.
     then_res (text_at p ''postalCode'') (\<lambda>postal.
     then_res (text_at p ''city'') (\<lambda>city.
     then_res (text_at p ''countryCode'') (\<lambda>country.
     then_res (text_at p ''taxIdentifier'') (\<lambda>tax_identifier.
     then_res (text_at p ''email'') (\<lambda>email.
     invoice_issuer_init \<lparr>is_legal_name = name, is_street_line_1 = street, is_postal_code = postal,
       is_city = city, is_country_code = country, is_tax_identifier = tax_identifier,
       is_email = email\<rparr>)))))))"

lemma email_bad_Some: "email_bad (Some e) \<longleftrightarrow> \<not> email_ok e"
  by (auto simp: email_bad_def email_ok_def)

lemma invoice_issuer_init_wf: "invoice_issuer_init raw = Inr i \<Longrightarrow> wf_invoice_issuer i"
  by (auto simp: invoice_issuer_init_def wf_invoice_issuer_def res_simps tidy_collapse email_bad_Some)

lemma invoice_issuer_init_id: "wf_invoice_issuer i \<Longrightarrow> invoice_issuer_init i = Inr i"
  by (simp add: invoice_issuer_init_def wf_invoice_issuer_def required_tidy email_bad_Some)

interpretation issuer: validated invoice_issuer_init wf_invoice_issuer
  by unfold_locales (rule invoice_issuer_init_wf invoice_issuer_init_id, assumption)+

interpretation issuer_codec: codec invoice_issuer_payload invoice_issuer_from_payload wf_invoice_issuer
proof unfold_locales
  fix i :: invoice_issuer
  assume "wf_invoice_issuer i"
  then show "invoice_issuer_from_payload (invoice_issuer_payload i) = Inr i"
    by (cases i) (simp add: invoice_issuer_payload_def invoice_issuer_from_payload_def
        invoice_issuer_init_id)
qed

record payment_details =
  pd_account_holder :: pystr
  pd_iban :: pystr
  pd_bic :: "pystr option"

definition payment_details_init :: "payment_details \<Rightarrow> payment_details res" where
  "payment_details_init d =
     then_res (required (pd_account_holder d) ''invoice_payment_account_holder_empty'') (\<lambda>holder.
     let iban = upper (squash (pd_iban d)) in
     if \<not> iban_ok iban then Inl (Invariant ''invoice_payment_iban_invalid'')
     else case pd_bic d of
       None \<Rightarrow> Inr (d\<lparr>pd_account_holder := holder, pd_iban := iban\<rparr>)
     | Some raw \<Rightarrow> let bic = upper (squash raw) in
         if \<not> bic_ok bic then Inl (Invariant ''invoice_payment_bic_invalid'')
         else Inr (d\<lparr>pd_account_holder := holder, pd_iban := iban, pd_bic := Some bic\<rparr>))"

definition wf_payment_details :: "payment_details \<Rightarrow> bool" where
  "wf_payment_details d \<longleftrightarrow> tidy (pd_account_holder d) \<and> iban_ok (pd_iban d) \<and> opt_all bic_ok (pd_bic d)"

definition payment_details_payload :: "payment_details \<Rightarrow> payload" where
  "payment_details_payload d = [
     ''accountHolder'' \<mapsto> JStr (pd_account_holder d), ''iban'' \<mapsto> JStr (pd_iban d),
     ''bic'' \<mapsto> opt_str (pd_bic d)]"

definition payment_details_from_payload :: "payload \<Rightarrow> payment_details res" where
  "payment_details_from_payload p =
     then_res (text_at p ''accountHolder'') (\<lambda>holder.
     then_res (text_at p ''iban'') (\<lambda>iban.
     payment_details_init \<lparr>pd_account_holder = holder, pd_iban = iban,
       pd_bic = opt_text_at p ''bic''\<rparr>))"

lemma capitals_fixed:
  assumes "list_all (\<lambda>c. is_AZ c \<or> is_09 c) s"
  shows "upper (squash s) = s"
proof -
  have "\<not> has_space s"
    using assms by (induction s) (auto simp: has_space_def is_space_def class_defs)
  moreover have "upper s = s"
    using assms by (induction s) (auto simp: upper_ascii class_defs)
  ultimately show ?thesis by (simp add: squash_id)
qed

lemma payment_details_init_wf: "payment_details_init raw = Inr d \<Longrightarrow> wf_payment_details d"
  by (auto simp: payment_details_init_def wf_payment_details_def res_simps Let_def tidy_collapse
      split: option.splits if_splits)

lemma payment_details_init_id: "wf_payment_details d \<Longrightarrow> payment_details_init d = Inr d"
  by (cases d) (auto simp: payment_details_init_def wf_payment_details_def required_tidy Let_def
      iban_ok_def bic_ok_def capitals_fixed split: option.splits)

interpretation payment_details: validated payment_details_init wf_payment_details
  by unfold_locales (rule payment_details_init_wf payment_details_init_id, assumption)+

interpretation payment_details_codec: codec payment_details_payload payment_details_from_payload wf_payment_details
proof unfold_locales
  fix d :: payment_details
  assume "wf_payment_details d"
  then show "payment_details_from_payload (payment_details_payload d) = Inr d"
    by (cases d) (simp add: payment_details_payload_def payment_details_from_payload_def
        payment_details_init_id)
qed

section \<open>Invoice profiles\<close>

record invoice_profile =
  pf_id :: uuid
  pf_action_id :: uuid
  pf_issuer :: invoice_issuer
  pf_tax_treatment :: tax_treatment
  pf_tax_rate_basis_points :: int
  pf_tax_note :: pystr
  pf_number_prefix :: pystr
  pf_next_number :: int
  pf_number_width :: int
  pf_payment_terms_days :: int
  pf_confirmed_at :: "datetime option"
  pf_legal_configuration_version_id :: "uuid option"
  pf_payment_details :: "payment_details option"

definition invoice_profile_init :: "invoice_profile \<Rightarrow> invoice_profile res" where
  "invoice_profile_init p =
     (if pf_tax_treatment p = Standard_Vat
         \<and> \<not> (1 \<le> pf_tax_rate_basis_points p \<and> pf_tax_rate_basis_points p \<le> 10000)
      then Inl (Invariant ''invoice_tax_rate_required'')
      else if pf_tax_treatment p \<noteq> Standard_Vat \<and> pf_tax_rate_basis_points p \<noteq> 0
      then Inl (Invariant ''invoice_tax_rate_forbidden'')
      else then_res (required (pf_tax_note p) ''invoice_tax_note_empty'') (\<lambda>note.
        if \<not> number_prefix_ok (pf_number_prefix p)
        then Inl (Invariant ''invoice_number_prefix_invalid'')
        else if pf_next_number p \<le> 0 \<or> \<not> (3 \<le> pf_number_width p \<and> pf_number_width p \<le> 8)
        then Inl (Invariant ''invoice_sequence_invalid'')
        else if \<not> (1 \<le> pf_payment_terms_days p \<and> pf_payment_terms_days p \<le> 120)
        then Inl (Invariant ''invoice_payment_terms_invalid'')
        else if \<not> aware_opt (pf_confirmed_at p)
        then Inl (Invariant ''invoice_profile_confirmation_timezone_required'')
        else Inr (p\<lparr>pf_tax_note := note\<rparr>)))"

definition wf_invoice_profile :: "invoice_profile \<Rightarrow> bool" where
  "wf_invoice_profile p \<longleftrightarrow>
     (if pf_tax_treatment p = Standard_Vat
      then 1 \<le> pf_tax_rate_basis_points p \<and> pf_tax_rate_basis_points p \<le> 10000
      else pf_tax_rate_basis_points p = 0)
     \<and> tidy (pf_tax_note p) \<and> number_prefix_ok (pf_number_prefix p) \<and> 0 < pf_next_number p
     \<and> 3 \<le> pf_number_width p \<and> pf_number_width p \<le> 8
     \<and> 1 \<le> pf_payment_terms_days p \<and> pf_payment_terms_days p \<le> 120 \<and> aware_opt (pf_confirmed_at p)"

lemma invoice_profile_init_wf: "invoice_profile_init raw = Inr p \<Longrightarrow> wf_invoice_profile p"
  by (auto simp: invoice_profile_init_def wf_invoice_profile_def res_simps tidy_collapse
      split: if_splits)

lemma invoice_profile_init_id: "wf_invoice_profile p \<Longrightarrow> invoice_profile_init p = Inr p"
  by (auto simp: invoice_profile_init_def wf_invoice_profile_def required_tidy split: if_splits)

interpretation invoice_profile: validated invoice_profile_init wf_invoice_profile
  by unfold_locales (rule invoice_profile_init_wf invoice_profile_init_id, assumption)+

definition next_invoice_number :: "invoice_profile \<Rightarrow> pystr" where
  "next_invoice_number p =
     pf_number_prefix p @ zero_padded (nat (pf_number_width p)) (nat (pf_next_number p))"

definition ready_to_issue :: "invoice_profile \<Rightarrow> bool" where
  "ready_to_issue p \<longleftrightarrow> pf_confirmed_at p \<noteq> None \<and> pf_legal_configuration_version_id p \<noteq> None
     \<and> pf_payment_details p \<noteq> None"

section \<open>Invoice lines\<close>

record invoice_line =
  il_description :: pystr
  il_quantity :: int
  il_unit :: offering_unit
  il_unit_price_gross :: money
  il_tax_rate_basis_points :: int
  il_net :: money
  il_tax :: money
  il_gross :: money

definition invoice_line_init :: "invoice_line \<Rightarrow> invoice_line res" where
  "invoice_line_init l =
     then_res (required (il_description l) ''invoice_line_description_empty'') (\<lambda>description.
     if il_quantity l \<le> 0 then Inl (Invariant ''invoice_line_quantity_invalid'')
     else if \<not> (0 \<le> il_tax_rate_basis_points l \<and> il_tax_rate_basis_points l \<le> 10000)
     then Inl (Invariant ''invoice_line_tax_rate_invalid'')
     else then_res (money_multiply (il_unit_price_gross l) (il_quantity l)) (\<lambda>product.
       if il_gross l \<noteq> product then Inl (Invariant ''invoice_line_gross_invalid'')
       else then_res (money_plus (il_net l) (il_tax l)) (\<lambda>total.
         if total \<noteq> il_gross l then Inl (Invariant ''invoice_line_amounts_invalid'')
         else Inr (l\<lparr>il_description := description\<rparr>))))"

definition wf_invoice_line :: "invoice_line \<Rightarrow> bool" where
  "wf_invoice_line l \<longleftrightarrow> tidy (il_description l) \<and> 0 < il_quantity l
     \<and> 0 \<le> il_tax_rate_basis_points l \<and> il_tax_rate_basis_points l \<le> 10000
     \<and> wf_money (il_unit_price_gross l)
     \<and> il_gross l = \<lparr>mo_amount = mo_amount (il_unit_price_gross l) * il_quantity l,
         mo_currency = mo_currency (il_unit_price_gross l)\<rparr>
     \<and> mo_currency (il_net l) = mo_currency (il_gross l)
     \<and> mo_currency (il_tax l) = mo_currency (il_gross l)
     \<and> mo_amount (il_net l) + mo_amount (il_tax l) = mo_amount (il_gross l)"

lemma money_plus_Inr [res_simps]:
  "money_plus m n = Inr t \<longleftrightarrow> mo_currency m = mo_currency n \<and> wf_money t
     \<and> t = \<lparr>mo_amount = mo_amount m + mo_amount n, mo_currency = mo_currency m\<rparr>"
  by (auto simp: money_plus_def money_init_Inr)

lemma invoice_line_init_wf: "invoice_line_init raw = Inr l \<Longrightarrow> wf_invoice_line l"
  by (auto simp: invoice_line_init_def wf_invoice_line_def res_simps tidy_collapse)

lemma invoice_line_init_id:
  assumes "wf_invoice_line l"
  shows "invoice_line_init l = Inr l"
proof -
  have "money_multiply (il_unit_price_gross l) (il_quantity l) = Inr (il_gross l)"
    "money_plus (il_net l) (il_tax l) = Inr (il_gross l)"
    using assms by (auto simp: wf_invoice_line_def money_multiply_Inr money_plus_Inr wf_money_def)
  then show ?thesis using assms
    by (auto simp: invoice_line_init_def wf_invoice_line_def required_tidy)
qed

interpretation invoice_line: validated invoice_line_init wf_invoice_line
  by unfold_locales (rule invoice_line_init_wf invoice_line_init_id, assumption)+

definition invoice_line_payload :: "invoice_line \<Rightarrow> payload" where
  "invoice_line_payload l = [
     ''description'' \<mapsto> JStr (il_description l), ''quantity'' \<mapsto> JInt (il_quantity l),
     ''unit'' \<mapsto> JStr (offering_unit_value (il_unit l)),
     ''unitPriceGrossMinor'' \<mapsto> JInt (mo_amount (il_unit_price_gross l)),
     ''taxRateBasisPoints'' \<mapsto> JInt (il_tax_rate_basis_points l),
     ''netMinor'' \<mapsto> JInt (mo_amount (il_net l)), ''taxMinor'' \<mapsto> JInt (mo_amount (il_tax l)),
     ''grossMinor'' \<mapsto> JInt (mo_amount (il_gross l)),
     ''currency'' \<mapsto> JStr (mo_currency (il_gross l))]"

definition payload_money :: "payload \<Rightarrow> string \<Rightarrow> pystr \<Rightarrow> money res" where
  "payload_money p key currency =
     then_res (payload_integer p key) (\<lambda>n. money_init \<lparr>mo_amount = n, mo_currency = currency\<rparr>)"

definition invoice_line_from_payload :: "payload \<Rightarrow> invoice_line res" where
  "invoice_line_from_payload p =
     then_res (text_at p ''currency'') (\<lambda>currency.
     then_res (text_at p ''description'') (\<lambda>description.
     then_res (payload_integer p ''quantity'') (\<lambda>quantity.
     then_res (text_at p ''unit'') (\<lambda>unit_text.
     then_res (parse_enum offering_unit_value all_offering_units unit_text) (\<lambda>u.
     then_res (payload_money p ''unitPriceGrossMinor'' currency) (\<lambda>price.
     then_res (payload_integer p ''taxRateBasisPoints'') (\<lambda>rate.
     then_res (payload_money p ''netMinor'' currency) (\<lambda>net.
     then_res (payload_money p ''taxMinor'' currency) (\<lambda>tax.
     then_res (payload_money p ''grossMinor'' currency) (\<lambda>gross.
     invoice_line_init \<lparr>il_description = description, il_quantity = quantity, il_unit = u,
       il_unit_price_gross = price, il_tax_rate_basis_points = rate, il_net = net, il_tax = tax,
       il_gross = gross\<rparr>))))))))))"

text \<open>The constructor of a line takes any two amounts; stored lines have amounts that are money.\<close>

definition storable_line :: "invoice_line \<Rightarrow> bool" where
  "storable_line l \<longleftrightarrow> wf_invoice_line l \<and> wf_money (il_net l) \<and> wf_money (il_tax l)"

lemma invoice_line_eta:
  "\<lparr>il_description = il_description l, il_quantity = il_quantity l, il_unit = il_unit l,
     il_unit_price_gross = il_unit_price_gross l,
     il_tax_rate_basis_points = il_tax_rate_basis_points l, il_net = il_net l, il_tax = il_tax l,
     il_gross = il_gross l\<rparr> = l"
  by (cases l) simp

interpretation invoice_line_codec: codec invoice_line_payload invoice_line_from_payload storable_line
proof unfold_locales
  fix l :: invoice_line
  assume l: "storable_line l"
  have amounts: "payload_money (invoice_line_payload l) ''unitPriceGrossMinor'' (mo_currency (il_gross l))
      = Inr (il_unit_price_gross l)"
    "payload_money (invoice_line_payload l) ''netMinor'' (mo_currency (il_gross l)) = Inr (il_net l)"
    "payload_money (invoice_line_payload l) ''taxMinor'' (mo_currency (il_gross l)) = Inr (il_tax l)"
    "payload_money (invoice_line_payload l) ''grossMinor'' (mo_currency (il_gross l)) = Inr (il_gross l)"
    using l by (auto simp: payload_money_def invoice_line_payload_def money_init_Inr storable_line_def
        wf_invoice_line_def wf_money_def)
  have fields: "text_at (invoice_line_payload l) ''currency'' = Inr (mo_currency (il_gross l))"
    "text_at (invoice_line_payload l) ''description'' = Inr (il_description l)"
    "payload_integer (invoice_line_payload l) ''quantity'' = Inr (il_quantity l)"
    "text_at (invoice_line_payload l) ''unit'' = Inr (offering_unit_value (il_unit l))"
    "payload_integer (invoice_line_payload l) ''taxRateBasisPoints'' = Inr (il_tax_rate_basis_points l)"
    by (simp_all add: invoice_line_payload_def)
  show "invoice_line_from_payload (invoice_line_payload l) = Inr l"
    using l unfolding invoice_line_from_payload_def fields then_res_simps amounts
    by (simp add: amounts fields storable_line_def invoice_line_init_id invoice_line_eta)
qed

text \<open>\<^verbatim>\<open>_snapshot_line\<close>: net rounded half up, tax the remainder.\<close>

definition snapshot_line ::
  "pystr \<Rightarrow> int \<Rightarrow> offering_unit \<Rightarrow> money \<Rightarrow> int \<Rightarrow> invoice_line res" where
  "snapshot_line description quantity u unit_price_gross rate =
     then_res (money_multiply unit_price_gross quantity) (\<lambda>gross.
     let net_minor = (if rate \<noteq> 0
           then (let divisor = 10000 + rate in
                 (mo_amount gross * 10000 + divisor div 2) div divisor)
           else mo_amount gross)
     in then_res (money_init \<lparr>mo_amount = net_minor, mo_currency = mo_currency gross\<rparr>) (\<lambda>net.
        then_res (money_init \<lparr>mo_amount = mo_amount gross - net_minor, mo_currency = mo_currency gross\<rparr>)
          (\<lambda>tax.
        invoice_line_init \<lparr>il_description = description, il_quantity = quantity, il_unit = u,
          il_unit_price_gross = unit_price_gross, il_tax_rate_basis_points = rate, il_net = net,
          il_tax = tax, il_gross = gross\<rparr>)))"

text \<open>The net amount lies within half a minor unit of \<open>gross / (1 + rate)\<close> and never exceeds the gross.\<close>

definition net_of :: "int \<Rightarrow> int \<Rightarrow> int" where
  "net_of rate g =
     (if rate \<noteq> 0 then (g * 10000 + (10000 + rate) div 2) div (10000 + rate) else g)"

lemma net_of_bounds:
  assumes "0 \<le> rate" "0 \<le> g"
  shows "0 \<le> net_of rate g" "net_of rate g \<le> g"
    and "2 * \<bar>net_of rate g * (10000 + rate) - g * 10000\<bar> \<le> 10000 + rate"
proof -
  define d where "d = 10000 + rate"
  define q where "q = (g * 10000 + d div 2) div d"
  have d: "0 < d" using assms(1) by (simp add: d_def)
  define h where "h = d div 2"
  define r where "r = (g * 10000 + h) mod d"
  have sum: "d * q + r = g * 10000 + h" by (simp add: q_def r_def h_def)
  define p where "p = d * q"
  have qd: "p + r = g * 10000 + h" using sum by (simp add: p_def)
  have md: "0 \<le> r" "r < d" using d by (simp_all add: r_def)
  have half: "2 * h \<le> d" "d \<le> 2 * h + 1" unfolding h_def by linarith+
  have "2 * (p - g * 10000) \<le> d" "2 * (g * 10000 - p) \<le> d" using qd md half by presburger+
  then have near: "2 * \<bar>d * q - g * 10000\<bar> \<le> d" by (simp add: abs_if p_def)
  have nonneg: "0 \<le> q" unfolding q_def using d assms(2) by (intro pos_imp_zdiv_nonneg_iff [THEN iffD2]) auto
  have "d * q < d * (g + 1)"
  proof -
    have "g * 10000 \<le> g * d" using assms by (simp add: d_def mult_left_mono)
    then have "p < g * d + d" using qd md half d by presburger
    then show ?thesis by (simp add: p_def algebra_simps)
  qed
  then have "q \<le> g" using d by (simp add: mult_less_cancel_left)
  then show "0 \<le> net_of rate g" "net_of rate g \<le> g"
    "2 * \<bar>net_of rate g * (10000 + rate) - g * 10000\<bar> \<le> 10000 + rate"
    using near nonneg assms by (auto simp: net_of_def q_def d_def mult.commute)
qed

lemma snapshot_line_eq:
  assumes "wf_money price" "0 < q" "0 \<le> rate" "rate \<le> 10000" "\<not> blank description"
  shows "\<exists>l. snapshot_line description q u price rate = Inr l \<and> storable_line l
    \<and> l = \<lparr>il_description = collapse description, il_quantity = q, il_unit = u,
        il_unit_price_gross = price, il_tax_rate_basis_points = rate,
        il_net = price\<lparr>mo_amount := net_of rate (mo_amount price * q)\<rparr>,
        il_tax = price\<lparr>mo_amount := mo_amount price * q - net_of rate (mo_amount price * q)\<rparr>,
        il_gross = price\<lparr>mo_amount := mo_amount price * q\<rparr>\<rparr>"
proof -
  define g where "g = mo_amount price * q"
  have g: "0 \<le> g" using assms(1,2) by (simp add: g_def wf_money_def)
  note b = net_of_bounds [OF assms(3) g]
  have gross: "money_multiply price q = Inr (price\<lparr>mo_amount := g\<rparr>)"
    using assms(1,2) by (cases price) (simp add: money_multiply_Inr g_def)
  have net: "money_init \<lparr>mo_amount = n, mo_currency = mo_currency price\<rparr>
      = Inr (price\<lparr>mo_amount := n\<rparr>)" if "0 \<le> n" for n
    using that assms(1) by (cases price) (simp add: money_init_Inr wf_money_def)
  let ?l = "\<lparr>il_description = collapse description, il_quantity = q, il_unit = u,
        il_unit_price_gross = price, il_tax_rate_basis_points = rate,
        il_net = price\<lparr>mo_amount := net_of rate g\<rparr>,
        il_tax = price\<lparr>mo_amount := g - net_of rate g\<rparr>, il_gross = price\<lparr>mo_amount := g\<rparr>\<rparr>"
  have plus: "money_plus (price\<lparr>mo_amount := net_of rate g\<rparr>) (price\<lparr>mo_amount := g - net_of rate g\<rparr>)
      = Inr (price\<lparr>mo_amount := g\<rparr>)"
    using assms(1) g by (cases price) (simp add: money_plus_Inr wf_money_def)
  have "required description ''invoice_line_description_empty'' = Inr (collapse description)"
    using assms(5) by (simp add: required_def collapse_Nil_iff)
  then have init: "invoice_line_init (?l\<lparr>il_description := description\<rparr>) = Inr ?l"
    using assms gross plus by (simp add: invoice_line_init_def)
  have "snapshot_line description q u price rate = Inr ?l"
    using init b(1,2) unfolding snapshot_line_def Let_def gross then_res_simps
    by (simp add: net_of_def [symmetric] net)
  moreover have "storable_line ?l"
    using invoice_line_init_wf [OF init] assms(1) b(1,2) by (simp add: storable_line_def wf_money_def)
  ultimately show ?thesis unfolding g_def by blast
qed

section \<open>Invoices\<close>

record invoice =
  iv_id :: uuid
  iv_action_id :: uuid
  iv_commitment_id :: uuid
  iv_number :: pystr
  iv_status :: invoice_status
  iv_issued_at :: datetime
  iv_issued_on :: date
  iv_service_on :: date
  iv_due_on :: date
  iv_issuer :: invoice_issuer
  iv_payment_details :: payment_details
  iv_recipient :: invoice_recipient
  iv_lines :: "invoice_line list"
  iv_tax_treatment :: tax_treatment
  iv_tax_note :: pystr
  iv_net :: money
  iv_tax :: money
  iv_gross :: money
  iv_payment_reference :: pystr
  iv_approved_by_user_id :: uuid
  iv_replayed :: bool

text \<open>The loop over the lines, on the three running totals.\<close>

definition add_line :: "money \<times> money \<times> money \<Rightarrow> invoice_line \<Rightarrow> (money \<times> money \<times> money) res" where
  "add_line totals l =
     (case totals of (net, tax, gross) \<Rightarrow>
        then_res (money_plus net (il_net l)) (\<lambda>net'.
        then_res (money_plus tax (il_tax l)) (\<lambda>tax'.
        then_res (money_plus gross (il_gross l)) (\<lambda>gross'. Inr (net', tax', gross')))))"

definition invoice_totals :: "pystr \<Rightarrow> invoice_line list \<Rightarrow> (money \<times> money \<times> money) res" where
  "invoice_totals currency ls =
     then_res (money_init \<lparr>mo_amount = 0, mo_currency = currency\<rparr>) (\<lambda>z. fold_res add_line (z, z, z) ls)"

definition invoice_init :: "invoice \<Rightarrow> invoice res" where
  "invoice_init i =
     (if \<not> invoice_number_ok (iv_number i) then Inl (Invariant ''invoice_number_invalid'')
      else if \<not> aware (iv_issued_at i) then Inl (Invariant ''invoice_issued_at_timezone_required'')
      else if iv_due_on i < iv_issued_on i then Inl (Invariant ''invoice_due_date_invalid'')
      else if iv_lines i = [] then Inl (Invariant ''invoice_lines_required'')
      else then_res (invoice_totals (mo_currency (iv_gross i)) (iv_lines i)) (\<lambda>totals.
        if totals \<noteq> (iv_net i, iv_tax i, iv_gross i) then Inl (Invariant ''invoice_totals_invalid'')
        else then_res (money_plus (iv_net i) (iv_tax i)) (\<lambda>total.
          if total \<noteq> iv_gross i then Inl (Invariant ''invoice_totals_invalid'')
          else then_res (required (iv_tax_note i) ''invoice_tax_note_empty'') (\<lambda>note.
          then_res (required (iv_payment_reference i) ''invoice_payment_reference_empty'') (\<lambda>reference.
          Inr (i\<lparr>iv_tax_note := note, iv_payment_reference := reference\<rparr>))))))"

definition wf_invoice :: "invoice \<Rightarrow> bool" where
  "wf_invoice i \<longleftrightarrow> invoice_number_ok (iv_number i) \<and> aware (iv_issued_at i)
     \<and> iv_issued_on i \<le> iv_due_on i \<and> iv_lines i \<noteq> []
     \<and> invoice_totals (mo_currency (iv_gross i)) (iv_lines i) = Inr (iv_net i, iv_tax i, iv_gross i)
     \<and> money_plus (iv_net i) (iv_tax i) = Inr (iv_gross i)
     \<and> tidy (iv_tax_note i) \<and> tidy (iv_payment_reference i)"

lemma invoice_init_wf: "invoice_init raw = Inr i \<Longrightarrow> wf_invoice i"
  unfolding invoice_init_def
  by (auto simp: wf_invoice_def then_res_Inr_iff required_Inr tidy_collapse split: if_splits)

lemma invoice_init_id: "wf_invoice i \<Longrightarrow> invoice_init i = Inr i"
  by (simp add: invoice_init_def wf_invoice_def required_tidy)

interpretation invoice: validated invoice_init wf_invoice
  by unfold_locales (rule invoice_init_wf invoice_init_id, assumption)+

definition invoice_transition_to :: "invoice \<Rightarrow> invoice_status \<Rightarrow> invoice res" where
  "invoice_transition_to i target =
     (if target = iv_status i then Inr i
      else if target \<notin> allowed_invoice_transitions (iv_status i)
      then Inl (Invariant ''invoice_status_transition_invalid'')
      else invoice_init (i\<lparr>iv_status := target\<rparr>))"

definition issue_line :: "int \<Rightarrow> commitment_line \<Rightarrow> invoice_line res" where
  "issue_line rate l = snapshot_line (cl_description_snapshot l) (cl_quantity l) (cl_unit_snapshot l)
     (cl_unit_price l) rate"

definition sum_minor :: "(invoice_line \<Rightarrow> money) \<Rightarrow> invoice_line list \<Rightarrow> int" where
  "sum_minor f ls = sum_list (map (\<lambda>l. mo_amount (f l)) ls)"

definition invoice_issue ::
  "tz \<Rightarrow> uuid \<Rightarrow> pystr \<Rightarrow> commitment \<Rightarrow> invoice_profile \<Rightarrow> uuid \<Rightarrow> datetime \<Rightarrow> date \<Rightarrow> invoice res" where
  "invoice_issue zone new_id number c p approved_by issued_at service_on =
     (if cm_status c \<noteq> Review_Ready then Inl (Invariant ''invoice_commitment_not_review_ready'')
      else case cm_invoice_recipient c of
        None \<Rightarrow> Inl (Invariant ''invoice_recipient_required'')
      | Some recipient \<Rightarrow>
          if \<not> ready_to_issue p then Inl (Invariant ''invoice_profile_not_confirmed'')
          else case pf_payment_details p of
            None \<Rightarrow> Inl (Invariant ''invoice_payment_details_missing'')
          | Some details \<Rightarrow>
              if pf_action_id p \<noteq> cm_action_id c
              then Inl (Invariant ''invoice_profile_action_mismatch'')
              else let rate = (if pf_tax_treatment p = Standard_Vat
                               then pf_tax_rate_basis_points p else 0);
                       currency = mo_currency (cm_total c)
                in then_res (map_res (issue_line rate) (cm_lines c)) (\<lambda>ls.
                   then_res (local_day zone issued_at) (\<lambda>issued_on.
                   then_res (money_init \<lparr>mo_amount = sum_minor il_net ls, mo_currency = currency\<rparr>) (\<lambda>net.
                   then_res (money_init \<lparr>mo_amount = sum_minor il_tax ls, mo_currency = currency\<rparr>) (\<lambda>tax.
                   then_res (money_init \<lparr>mo_amount = sum_minor il_gross ls, mo_currency = currency\<rparr>) (\<lambda>gross.
                   then_res (date_add issued_on (pf_payment_terms_days p)) (\<lambda>due_on.
                   invoice_init \<lparr>iv_id = new_id, iv_action_id = cm_action_id c,
                     iv_commitment_id = cm_id c, iv_number = number, iv_status = Issued,
                     iv_issued_at = issued_at, iv_issued_on = issued_on,
                     iv_service_on = service_on, iv_due_on = due_on, iv_issuer = pf_issuer p,
                     iv_payment_details = details, iv_recipient = recipient, iv_lines = ls,
                     iv_tax_treatment = pf_tax_treatment p, iv_tax_note = pf_tax_note p,
                     iv_net = net, iv_tax = tax, iv_gross = gross, iv_payment_reference = number,
                     iv_approved_by_user_id = approved_by, iv_replayed = False\<rparr>)))))))"

section \<open>Lifecycle of an invoice\<close>

lemma invoice_transition_Inr:
  "invoice_transition_to i t = Inr j \<Longrightarrow> j = i \<or> (\<exists>raw. invoice_init raw = Inr j)"
  by (auto simp: invoice_transition_to_def split: if_splits)

lemma invoice_init_status: "invoice_init raw = Inr i \<Longrightarrow> iv_status i = iv_status raw"
  by (auto simp: invoice_init_def then_res_Inr_iff split: if_splits)

fun invoice_phase :: "invoice_status \<Rightarrow> nat" where
  "invoice_phase Cancelled = 1"
| "invoice_phase _ = 0"

interpretation invoice_life: phased_lifecycle iv_status allowed_invoice_transitions invoice_transition_to invoice_phase
proof unfold_locales
  show "invoice_transition_to x (iv_status x) = Inr x" for x
    by (simp add: invoice_transition_to_def)
  show "invoice_transition_to x t = Inr y \<Longrightarrow> iv_status y = t" for x t y
    by (auto simp: invoice_transition_to_def dest: invoice_init_status split: if_splits)
  show "t \<noteq> iv_status x \<Longrightarrow> t \<notin> allowed_invoice_transitions (iv_status x) \<Longrightarrow>
      \<exists>e. invoice_transition_to x t = Inl e" for x t
    by (auto simp: invoice_transition_to_def)
  show "t \<in> allowed_invoice_transitions s \<Longrightarrow> invoice_phase s \<le> invoice_phase t" for s t
    by (cases s) auto
qed

section \<open>Totals\<close>

definition of_currency :: "pystr \<Rightarrow> invoice_line \<Rightarrow> bool" where
  "of_currency cur l \<longleftrightarrow> storable_line l \<and> mo_currency (il_gross l) = cur"

lemma add_line_eq:
  assumes "of_currency cur l" "capital_code 3 cur" "0 \<le> a" "0 \<le> b" "0 \<le> c"
  shows "add_line (\<lparr>mo_amount = a, mo_currency = cur\<rparr>, \<lparr>mo_amount = b, mo_currency = cur\<rparr>,
      \<lparr>mo_amount = c, mo_currency = cur\<rparr>) l = Inr (\<lparr>mo_amount = a + mo_amount (il_net l), mo_currency = cur\<rparr>,
      \<lparr>mo_amount = b + mo_amount (il_tax l), mo_currency = cur\<rparr>,
      \<lparr>mo_amount = c + mo_amount (il_gross l), mo_currency = cur\<rparr>)"
  using assms
  by (auto simp: add_line_def money_plus_def money_init_def of_currency_def storable_line_def
      wf_invoice_line_def wf_money_def)

lemma fold_add_line:
  "list_all (of_currency cur) ls \<Longrightarrow> capital_code 3 cur \<Longrightarrow> 0 \<le> a \<Longrightarrow> 0 \<le> b \<Longrightarrow> 0 \<le> c \<Longrightarrow>
   fold_res add_line (\<lparr>mo_amount = a, mo_currency = cur\<rparr>, \<lparr>mo_amount = b, mo_currency = cur\<rparr>,
      \<lparr>mo_amount = c, mo_currency = cur\<rparr>) ls = Inr (\<lparr>mo_amount = a + sum_minor il_net ls, mo_currency = cur\<rparr>,
      \<lparr>mo_amount = b + sum_minor il_tax ls, mo_currency = cur\<rparr>,
      \<lparr>mo_amount = c + sum_minor il_gross ls, mo_currency = cur\<rparr>)"
proof (induction ls arbitrary: a b c)
  case (Cons l ls)
  have "0 \<le> mo_amount (il_net l)" "0 \<le> mo_amount (il_tax l)" "0 \<le> mo_amount (il_gross l)"
    using Cons.prems(1) by (auto simp: of_currency_def storable_line_def wf_invoice_line_def wf_money_def)
  then show ?case
    using Cons.prems Cons.IH by (simp add: add_line_eq sum_minor_def add.assoc)
qed (simp add: sum_minor_def)

lemma invoice_totals_eq:
  "list_all (of_currency cur) ls \<Longrightarrow> capital_code 3 cur \<Longrightarrow>
   invoice_totals cur ls = Inr (\<lparr>mo_amount = sum_minor il_net ls, mo_currency = cur\<rparr>,
      \<lparr>mo_amount = sum_minor il_tax ls, mo_currency = cur\<rparr>,
      \<lparr>mo_amount = sum_minor il_gross ls, mo_currency = cur\<rparr>)"
  by (simp add: invoice_totals_def money_init_def fold_add_line)

section \<open>From an order to an invoice\<close>

definition issued_line :: "int \<Rightarrow> commitment_line \<Rightarrow> invoice_line" where
  "issued_line rate l =
     (let price = cl_unit_price l; g = mo_amount price * cl_quantity l in
      \<lparr>il_description = collapse (cl_description_snapshot l), il_quantity = cl_quantity l,
       il_unit = cl_unit_snapshot l, il_unit_price_gross = price, il_tax_rate_basis_points = rate,
       il_net = price\<lparr>mo_amount := net_of rate g\<rparr>, il_tax = price\<lparr>mo_amount := g - net_of rate g\<rparr>,
       il_gross = price\<lparr>mo_amount := g\<rparr>\<rparr>)"

lemma issue_line_eq:
  assumes "wf_commitment_line l" "0 \<le> rate" "rate \<le> 10000"
  shows "issue_line rate l = Inr (issued_line rate l) \<and> storable_line (issued_line rate l)"
  using snapshot_line_eq [of "cl_unit_price l" "cl_quantity l" rate "cl_description_snapshot l"
      "cl_unit_snapshot l"] assms
  by (auto simp: issue_line_def issued_line_def Let_def wf_commitment_line_def)

lemma issued_line_gross:
  "wf_commitment_line l \<Longrightarrow> il_gross (issued_line rate l) = cl_line_total l"
  by (cases "cl_unit_price l") (simp add: issued_line_def Let_def wf_commitment_line_def)

lemma sum_minor_split:
  "list_all (of_currency cur) ls \<Longrightarrow> sum_minor il_net ls + sum_minor il_tax ls = sum_minor il_gross ls"
  by (induction ls) (auto simp: sum_minor_def of_currency_def storable_line_def wf_invoice_line_def)

lemma sum_minor_nonneg:
  "list_all (of_currency cur) ls \<Longrightarrow>
     0 \<le> sum_minor il_net ls \<and> 0 \<le> sum_minor il_tax ls \<and> 0 \<le> sum_minor il_gross ls"
  by (induction ls) (auto simp: sum_minor_def of_currency_def storable_line_def wf_invoice_line_def wf_money_def)

lemma collapse_no_space: "\<not> has_space s \<Longrightarrow> collapse s = s"
  by (simp add: collapse_def split_words_no_space)

lemma invoice_number_tidy:
  assumes "invoice_number_ok s"
  shows "tidy s"
proof -
  have "s \<noteq> []" "\<forall>c \<in> set s. is_AZ c \<or> is_09 c \<or> c = 45"
    using assms by (auto simp: invoice_number_ok_def head_rest_def list_all_iff split: list.splits)
  then have "\<not> has_space s" by (fastforce simp: has_space_def list_ex_iff is_space_def class_defs)
  then show ?thesis using \<open>s \<noteq> []\<close> by (simp add: tidy_def collapse_no_space)
qed

lemma local_day_range: "local_day z m = Inr d \<Longrightarrow> 1 \<le> d \<and> d \<le> max_date"
proof -
  assume "local_day z m = Inr d"
  then have r: "in_range w" "d = date_of_wall w" if "w = instant m + utc_off z (instant m)" for w
    using that by (auto simp: local_day_Inr)
  define w where "w = instant m + utc_off z (instant m)"
  have "0 \<le> w" "w < max_date * day_us" using r(1) [OF w_def] by (simp_all add: in_range_def)
  have "w div day_us * day_us \<le> w"
    using pos_mod_sign [OF day_us_pos, of w] div_mult_mod_eq [of w day_us] by linarith
  also have "w < max_date * day_us" by fact
  finally have "w div day_us < max_date" by simp
  moreover have "0 \<le> w div day_us" using \<open>0 \<le> w\<close> by (simp add: pos_imp_zdiv_nonneg_iff)
  ultimately show ?thesis using r(2) [OF w_def] by (simp add: date_of_wall_def)
qed

lemma issue_rate:
  "wf_invoice_profile p \<Longrightarrow>
   (if pf_tax_treatment p = Standard_Vat then pf_tax_rate_basis_points p else 0) = pf_tax_rate_basis_points p
   \<and> 0 \<le> pf_tax_rate_basis_points p \<and> pf_tax_rate_basis_points p \<le> 10000"
  by (auto simp: wf_invoice_profile_def split: if_splits)

lemma issued_lines:
  assumes "wf_commitment c" "list_all wf_commitment_line (cm_lines c)" "0 \<le> rate" "rate \<le> 10000"
  defines "ls \<equiv> map (issued_line rate) (cm_lines c)"
  shows "map_res (issue_line rate) (cm_lines c) = Inr ls"
    and "list_all (of_currency (mo_currency (cm_total c))) ls"
    and "\<lparr>mo_amount = sum_minor il_gross ls, mo_currency = mo_currency (cm_total c)\<rparr> = cm_total c"
proof -
  have line: "wf_commitment_line l" "issue_line rate l = Inr (issued_line rate l)"
    "storable_line (issued_line rate l)" if "l \<in> set (cm_lines c)" for l
    using assms(2) that issue_line_eq [OF _ assms(3,4)] by (auto simp: list_all_iff)
  show "map_res (issue_line rate) (cm_lines c) = Inr ls"
    unfolding ls_def by (rule map_res_pure) (rule line(2))
  note total = commitment_total [OF assms(1,2)]
  show "list_all (of_currency (mo_currency (cm_total c))) ls"
    using line total by (auto simp: list_all_iff of_currency_def ls_def issued_line_gross
        wf_commitment_line_def)
  have "sum_minor il_gross ls = mo_amount (cm_total c)"
    using total unfolding sum_minor_def ls_def
    by (simp add: comp_def issued_line_def Let_def)
  then show "\<lparr>mo_amount = sum_minor il_gross ls, mo_currency = mo_currency (cm_total c)\<rparr> = cm_total c"
    by (cases "cm_total c") simp
qed

text \<open>The invoice that issuing produces when all guards pass.\<close>

definition issued_invoice ::
  "uuid \<Rightarrow> pystr \<Rightarrow> commitment \<Rightarrow> invoice_profile \<Rightarrow> uuid \<Rightarrow> datetime \<Rightarrow> date \<Rightarrow> date \<Rightarrow> invoice_recipient
   \<Rightarrow> payment_details \<Rightarrow> invoice" where
  "issued_invoice nid number c p u issued_at service_on day recipient details =
     (let ls = map (issued_line (pf_tax_rate_basis_points p)) (cm_lines c); cur = mo_currency (cm_total c) in
      \<lparr>iv_id = nid, iv_action_id = cm_action_id c, iv_commitment_id = cm_id c, iv_number = number,
       iv_status = Issued, iv_issued_at = issued_at, iv_issued_on = day, iv_service_on = service_on,
       iv_due_on = day + pf_payment_terms_days p, iv_issuer = pf_issuer p,
       iv_payment_details = details, iv_recipient = recipient, iv_lines = ls,
       iv_tax_treatment = pf_tax_treatment p, iv_tax_note = pf_tax_note p,
       iv_net = \<lparr>mo_amount = sum_minor il_net ls, mo_currency = cur\<rparr>,
       iv_tax = \<lparr>mo_amount = sum_minor il_tax ls, mo_currency = cur\<rparr>, iv_gross = cm_total c,
       iv_payment_reference = number, iv_approved_by_user_id = u, iv_replayed = False\<rparr>)"

lemma issued_invoice_wf:
  assumes "wf_commitment c" "list_all wf_commitment_line (cm_lines c)" "wf_invoice_profile p"
    and "invoice_number_ok number" "aware issued_at"
  shows "wf_invoice (issued_invoice nid number c p u issued_at so day recipient details)"
proof -
  let ?ls = "map (issued_line (pf_tax_rate_basis_points p)) (cm_lines c)"
  note ls = issued_lines [OF assms(1,2), of "pf_tax_rate_basis_points p"]
  have rate: "0 \<le> pf_tax_rate_basis_points p" "pf_tax_rate_basis_points p \<le> 10000"
    using issue_rate [OF assms(3)] by simp_all
  have cap: "wf_money (cm_total c)" using commitment_total [OF assms(1,2)] by simp
  have "invoice_totals (mo_currency (cm_total c)) ?ls = Inr
      (\<lparr>mo_amount = sum_minor il_net ?ls, mo_currency = mo_currency (cm_total c)\<rparr>,
       \<lparr>mo_amount = sum_minor il_tax ?ls, mo_currency = mo_currency (cm_total c)\<rparr>, cm_total c)"
    using invoice_totals_eq [OF ls(2) [OF rate]] ls(3) [OF rate] cap by (simp add: wf_money_def)
  moreover have "money_plus \<lparr>mo_amount = sum_minor il_net ?ls, mo_currency = mo_currency (cm_total c)\<rparr>
      \<lparr>mo_amount = sum_minor il_tax ?ls, mo_currency = mo_currency (cm_total c)\<rparr> = Inr (cm_total c)"
    using sum_minor_split [OF ls(2) [OF rate]] ls(3) [OF rate] cap by (simp add: money_plus_Inr)
  moreover have "cm_lines c \<noteq> []" "tidy (pf_tax_note p)" "1 \<le> pf_payment_terms_days p"
    using assms(1,3) by (simp_all add: wf_commitment_def wf_invoice_profile_def)
  ultimately show ?thesis
    using assms(4,5) by (simp add: wf_invoice_def issued_invoice_def Let_def invoice_number_tidy)
qed

lemma invoice_issue_eq:
  assumes "wf_commitment c" "list_all wf_commitment_line (cm_lines c)" "wf_invoice_profile p"
    and "invoice_number_ok number" "local_day zone issued_at = Inr day"
    and "day + pf_payment_terms_days p \<le> max_date"
    and "cm_invoice_recipient c = Some recipient" "pf_payment_details p = Some details"
  shows "invoice_issue zone nid number c p u issued_at so =
    (if cm_status c \<noteq> Review_Ready then Inl (Invariant ''invoice_commitment_not_review_ready'')
     else if \<not> ready_to_issue p then Inl (Invariant ''invoice_profile_not_confirmed'')
     else if pf_action_id p \<noteq> cm_action_id c then Inl (Invariant ''invoice_profile_action_mismatch'')
     else Inr (issued_invoice nid number c p u issued_at so day recipient details))"
proof -
  let ?ls = "map (issued_line (pf_tax_rate_basis_points p)) (cm_lines c)"
  have rate: "(if pf_tax_treatment p = Standard_Vat then pf_tax_rate_basis_points p else 0)
      = pf_tax_rate_basis_points p" "0 \<le> pf_tax_rate_basis_points p" "pf_tax_rate_basis_points p \<le> 10000"
    using issue_rate [OF assms(3)] by simp_all
  note ls = issued_lines [OF assms(1,2) rate(2,3)]
  have aware: "aware issued_at" using assms(5) by (auto simp: local_day_Inr)
  have cap: "capital_code 3 (mo_currency (cm_total c))"
    using assms(1) by (simp add: wf_commitment_def)
  note nonneg = sum_minor_nonneg [OF ls(2)]
  have due: "date_add day (pf_payment_terms_days p) = Inr (day + pf_payment_terms_days p)"
    using local_day_range [OF assms(5)] assms(3,6) by (simp add: date_add_def wf_invoice_profile_def)
  have moneys: "money_init \<lparr>mo_amount = n, mo_currency = mo_currency (cm_total c)\<rparr>
      = Inr \<lparr>mo_amount = n, mo_currency = mo_currency (cm_total c)\<rparr>" if "0 \<le> n" for n
    using that cap by (simp add: money_init_def)
  have init: "invoice_init (issued_invoice nid number c p u issued_at so day recipient details)
      = Inr (issued_invoice nid number c p u issued_at so day recipient details)"
    by (rule invoice_init_id) (rule issued_invoice_wf [OF assms(1-4) aware])
  have total: "money_init (cm_total c) = Inr (cm_total c)"
    using commitment_total [OF assms(1,2)] by (simp add: money_init_Inr)
  have build: "then_res (map_res (issue_line (pf_tax_rate_basis_points p)) (cm_lines c)) k = k ?ls" for k
    by (simp add: ls(1))
  show ?thesis
    using init nonneg
    unfolding invoice_issue_def assms(7,8) rate(1) Let_def build assms(5) issued_invoice_def
    by (simp add: moneys ls(3) due total)
qed

section \<open>Properties\<close>

text \<open>
  C23: An invoice bills exactly the order.  For an accepted order with accepted lines, an accepted
  profile, a valid number and an issue date in range, issuing succeeds exactly when the order is ready
  for review, has an invoice recipient, the profile is confirmed with bank details and belongs to the
  same action.  The invoice then is valid and in status \<open>issued\<close>, under the given number, with the order's
  recipient and the profile's issuer, bank details and tax note, dated with the local day of the issue and due
  the profile's number of days later.  Its lines bill the order lines one by one: description, quantity, unit,
  price and gross amount of the order, the tax rate of the profile, and a net amount that is \<open>gross / (1 + rate)\<close>
  to the nearest minor unit, so that without a rate there is no tax.  Net and tax of the invoice are the sums over the
  lines, its gross is the order's total, and net and tax add up to it.
\<close>
theorem invoice_from_order:
  assumes "commitment_init craw = Inr c" "list_all wf_commitment_line (cm_lines c)"
    and "invoice_profile_init praw = Inr p" "invoice_number_ok number"
    and "local_day zone issued_at = Inr day" "day + pf_payment_terms_days p \<le> max_date"
  shows "((\<exists>i. invoice_issue zone nid number c p u issued_at so = Inr i) \<longleftrightarrow>
      cm_status c = Review_Ready \<and> cm_invoice_recipient c \<noteq> None \<and> ready_to_issue p
      \<and> pf_action_id p = cm_action_id c)
    \<and> (\<forall>i. invoice_issue zone nid number c p u issued_at so = Inr i \<longrightarrow>
      wf_invoice i \<and> iv_status i = Issued \<and> iv_gross i = cm_total c \<and> iv_commitment_id i = cm_id c
      \<and> mo_amount (iv_net i) + mo_amount (iv_tax i) = mo_amount (iv_gross i)
      \<and> mo_amount (iv_net i) = sum_list (map (mo_amount \<circ> il_net) (iv_lines i))
      \<and> mo_amount (iv_tax i) = sum_list (map (mo_amount \<circ> il_tax) (iv_lines i))
      \<and> iv_issued_on i = day \<and> iv_due_on i = day + pf_payment_terms_days p \<and> iv_service_on i = so
      \<and> iv_number i = number \<and> iv_payment_reference i = number
      \<and> cm_invoice_recipient c = Some (iv_recipient i) \<and> pf_payment_details p = Some (iv_payment_details i)
      \<and> iv_issuer i = pf_issuer p \<and> iv_tax_treatment i = pf_tax_treatment p \<and> iv_tax_note i = pf_tax_note p
      \<and> list_all2 (\<lambda>l k. il_gross k = cl_line_total l \<and> il_quantity k = cl_quantity l
          \<and> il_unit k = cl_unit_snapshot l \<and> il_unit_price_gross k = cl_unit_price l
          \<and> il_description k = collapse (cl_description_snapshot l)
          \<and> il_tax_rate_basis_points k = pf_tax_rate_basis_points p
          \<and> 2 * \<bar>mo_amount (il_net k) * (10000 + pf_tax_rate_basis_points p) - mo_amount (il_gross k) * 10000\<bar>
              \<le> 10000 + pf_tax_rate_basis_points p
          \<and> (pf_tax_rate_basis_points p = 0 \<longrightarrow> mo_amount (il_tax k) = 0) \<and> wf_invoice_line k) (cm_lines c) (iv_lines i))"
proof -
  have c: "wf_commitment c" and p: "wf_invoice_profile p"
    using commitment.post_init_wf [OF assms(1)] invoice_profile.post_init_wf [OF assms(3)] by simp_all
  have aware: "aware issued_at" using assms(5) by (auto simp: local_day_Inr)
  have rate: "0 \<le> pf_tax_rate_basis_points p" "pf_tax_rate_basis_points p \<le> 10000"
    using issue_rate [OF p] by simp_all
  show ?thesis
  proof (cases "cm_invoice_recipient c = None \<or> pf_payment_details p = None")
    case True
    then show ?thesis by (auto simp: invoice_issue_def ready_to_issue_def split: option.splits if_splits)
  next
    case False
    then obtain recipient details where
      rd: "cm_invoice_recipient c = Some recipient" "pf_payment_details p = Some details" by auto
    let ?i = "issued_invoice nid number c p u issued_at so day recipient details"
    note wf = issued_invoice_wf [OF c assms(2) p assms(4) aware, of nid u so day recipient details]
    let ?rate = "pf_tax_rate_basis_points p"
    have line: "il_gross k = cl_line_total l \<and> il_quantity k = cl_quantity l \<and> il_unit k = cl_unit_snapshot l
        \<and> il_unit_price_gross k = cl_unit_price l \<and> il_description k = collapse (cl_description_snapshot l)
        \<and> il_tax_rate_basis_points k = ?rate
        \<and> 2 * \<bar>mo_amount (il_net k) * (10000 + ?rate) - mo_amount (il_gross k) * 10000\<bar> \<le> 10000 + ?rate
        \<and> (?rate = 0 \<longrightarrow> mo_amount (il_tax k) = 0) \<and> wf_invoice_line k"
      if l: "wf_commitment_line l" and k: "k = issued_line ?rate l" for l k
    proof -
      have "0 \<le> mo_amount (cl_unit_price l) * cl_quantity l" using l by (simp add: wf_commitment_line_def wf_money_def)
      note bounds = net_of_bounds(3) [OF rate(1) this]
      have amounts: "mo_amount (il_net k) = net_of ?rate (mo_amount (cl_unit_price l) * cl_quantity l)"
        "mo_amount (il_gross k) = mo_amount (cl_unit_price l) * cl_quantity l"
        "mo_amount (il_tax k) = mo_amount (cl_unit_price l) * cl_quantity l - net_of ?rate (mo_amount (cl_unit_price l) * cl_quantity l)"
        by (simp_all add: k issued_line_def Let_def)
      have "wf_invoice_line k" using issue_line_eq [OF l rate] by (simp add: k storable_line_def)
      moreover have "il_quantity k = cl_quantity l \<and> il_unit k = cl_unit_snapshot l
          \<and> il_unit_price_gross k = cl_unit_price l \<and> il_description k = collapse (cl_description_snapshot l)
          \<and> il_tax_rate_basis_points k = ?rate" by (simp add: k issued_line_def Let_def)
      moreover have "2 * \<bar>mo_amount (il_net k) * (10000 + ?rate) - mo_amount (il_gross k) * 10000\<bar> \<le> 10000 + ?rate"
        unfolding amounts by (rule bounds)
      moreover have "?rate = 0 \<longrightarrow> mo_amount (il_tax k) = 0" unfolding amounts by (simp add: net_of_def)
      ultimately show ?thesis using issued_line_gross [OF l, of ?rate] k by blast
    qed
    have lines: "list_all2 (\<lambda>l k. il_gross k = cl_line_total l \<and> il_quantity k = cl_quantity l \<and> il_unit k = cl_unit_snapshot l
        \<and> il_unit_price_gross k = cl_unit_price l \<and> il_description k = collapse (cl_description_snapshot l)
        \<and> il_tax_rate_basis_points k = ?rate
        \<and> 2 * \<bar>mo_amount (il_net k) * (10000 + ?rate) - mo_amount (il_gross k) * 10000\<bar> \<le> 10000 + ?rate
        \<and> (?rate = 0 \<longrightarrow> mo_amount (il_tax k) = 0) \<and> wf_invoice_line k) (cm_lines c) (iv_lines ?i)"
    proof (rule list_all2_all_nthI)
      have ls: "iv_lines ?i = map (issued_line ?rate) (cm_lines c)" by (simp add: issued_invoice_def Let_def)
      then show "length (cm_lines c) = length (iv_lines ?i)" by simp
      fix j
      assume j: "j < length (cm_lines c)"
      show "il_gross (iv_lines ?i ! j) = cl_line_total (cm_lines c ! j) \<and> il_quantity (iv_lines ?i ! j) = cl_quantity (cm_lines c ! j)
        \<and> il_unit (iv_lines ?i ! j) = cl_unit_snapshot (cm_lines c ! j)
        \<and> il_unit_price_gross (iv_lines ?i ! j) = cl_unit_price (cm_lines c ! j)
        \<and> il_description (iv_lines ?i ! j) = collapse (cl_description_snapshot (cm_lines c ! j))
        \<and> il_tax_rate_basis_points (iv_lines ?i ! j) = ?rate
        \<and> 2 * \<bar>mo_amount (il_net (iv_lines ?i ! j)) * (10000 + ?rate) - mo_amount (il_gross (iv_lines ?i ! j)) * 10000\<bar> \<le> 10000 + ?rate
        \<and> (?rate = 0 \<longrightarrow> mo_amount (il_tax (iv_lines ?i ! j)) = 0) \<and> wf_invoice_line (iv_lines ?i ! j)"
        by (rule line) (use j assms(2) ls in \<open>simp_all add: list_all_length\<close>)
    qed
    have "money_plus (iv_net ?i) (iv_tax ?i) = Inr (iv_gross ?i)" using wf by (simp add: wf_invoice_def)
    then have "mo_amount (iv_net ?i) + mo_amount (iv_tax ?i) = mo_amount (iv_gross ?i)"
      unfolding money_plus_Inr by (metis money.select_convs(1))
    then show ?thesis
      unfolding invoice_issue_eq [OF c assms(2) p assms(4-6) rd] using rd wf lines
      by (simp add: issued_invoice_def Let_def sum_minor_def comp_def)
  qed
qed

definition sample_recipient :: invoice_recipient where
  "sample_recipient = \<lparr>ir_recipient_name = lit ''Stollen'', ir_street_line_1 = lit ''Stollen'',
     ir_postal_code = lit ''Stollen'', ir_city = lit ''Stollen'', ir_country_code = lit ''DE'',
     ir_email = None\<rparr>"

definition sample_issuer :: invoice_issuer where
  "sample_issuer = \<lparr>is_legal_name = lit ''Stollen'', is_street_line_1 = lit ''Stollen'',
     is_postal_code = lit ''Stollen'', is_city = lit ''Stollen'', is_country_code = lit ''DE'',
     is_tax_identifier = lit ''DE123456789'', is_email = lit ''kauf@example.org''\<rparr>"

definition sample_details :: payment_details where
  "sample_details = \<lparr>pd_account_holder = lit ''Stollen'', pd_iban = lit ''DE02120300000000202051'',
     pd_bic = None\<rparr>"

definition sample_profile :: invoice_profile where
  "sample_profile = \<lparr>pf_id = 31, pf_action_id = 1, pf_issuer = sample_issuer,
     pf_tax_treatment = Standard_Vat, pf_tax_rate_basis_points = 1900, pf_tax_note = lit ''Stollen'',
     pf_number_prefix = lit ''LC-'', pf_next_number = 7, pf_number_width = 4,
     pf_payment_terms_days = 14, pf_confirmed_at = Some (utc 0),
     pf_legal_configuration_version_id = Some 1, pf_payment_details = Some sample_details\<rparr>"

lemma sample_invoice_texts:
  "tidy (lit ''Stollen'')" "number_prefix_ok (lit ''LC-'')" "invoice_number_ok (lit ''LC-0007'')"
  by code_simp+

lemma sample_profile_wf: "wf_invoice_profile sample_profile"
  by (simp add: wf_invoice_profile_def sample_profile_def sample_invoice_texts)

definition sample_reviewed :: commitment where
  "sample_reviewed = (sample_order Review_Ready)\<lparr>cm_invoice_recipient := Some sample_recipient\<rparr>"

lemma sample_reviewed_wf: "wf_commitment sample_reviewed"
  using sample_order_wf [of Review_Ready]
  by (simp add: sample_reviewed_def wf_commitment_def delivery_snapshot_ok_def)

lemma sample_reviewed_lines: "list_all wf_commitment_line (cm_lines sample_reviewed)"
  by (simp add: sample_reviewed_def sample_order_def sample_line_wf)

lemma sample_day: "local_day (fixed_zone 0) (utc (740000 * day_us)) = Inr 740001"
  by (simp add: local_day_Inr fixed_zone_def in_range_def date_of_wall_def time_units)

theorem invoice_from_order_witness:
  "\<exists>i. invoice_issue (fixed_zone 0) 40 (lit ''LC-0007'') sample_reviewed sample_profile 5
      (utc (740000 * day_us)) 740000 = Inr i"
proof -
  have "740001 + pf_payment_terms_days sample_profile \<le> max_date"
    by (simp add: sample_profile_def max_date_def)
  note issue = invoice_from_order [OF commitment.post_init_id [OF sample_reviewed_wf]
      sample_reviewed_lines invoice_profile.post_init_id [OF sample_profile_wf]
      sample_invoice_texts(3) sample_day this]
  have "cm_status sample_reviewed = Review_Ready \<and> cm_invoice_recipient sample_reviewed \<noteq> None
      \<and> ready_to_issue sample_profile \<and> pf_action_id sample_profile = cm_action_id sample_reviewed"
    by (simp add: sample_reviewed_def sample_order_def sample_profile_def ready_to_issue_def)
  then show ?thesis using issue by blast
qed

text \<open>
  The tax split of an invoice line is exact to half a minor unit.  For a price that is money, a positive
  quantity, a rate between 0 and 100 percent and a description, the line always exists and is valid; its
  net amount is \<open>gross / (1 + rate)\<close> rounded to the nearest minor unit (at most half a unit off), lies
  between zero and the gross, net and tax add up to the gross, and at rate zero there is no tax.
\<close>
lemma invoice_line_tax:
  assumes "wf_money price" "0 < q" "0 \<le> rate" "rate \<le> 10000" "\<not> blank description"
  shows "\<exists>l. snapshot_line description q u price rate = Inr l \<and> wf_invoice_line l
    \<and> mo_amount (il_gross l) = mo_amount price * q
    \<and> 0 \<le> mo_amount (il_net l) \<and> 0 \<le> mo_amount (il_tax l)
    \<and> mo_amount (il_net l) + mo_amount (il_tax l) = mo_amount (il_gross l)
    \<and> 2 * \<bar>mo_amount (il_net l) * (10000 + rate) - mo_amount (il_gross l) * 10000\<bar> \<le> 10000 + rate
    \<and> (rate = 0 \<longrightarrow> mo_amount (il_tax l) = 0)"
proof -
  have "0 \<le> mo_amount price * q" using assms(1,2) by (simp add: wf_money_def)
  note bounds = net_of_bounds [OF assms(3) this]
  obtain l where "snapshot_line description q u price rate = Inr l" "storable_line l"
    "mo_amount (il_gross l) = mo_amount price * q" "mo_amount (il_net l) = net_of rate (mo_amount price * q)"
    "mo_amount (il_tax l) = mo_amount price * q - net_of rate (mo_amount price * q)"
    using snapshot_line_eq [OF assms] by auto
  then show ?thesis
    using bounds by (intro exI [of _ l]) (auto simp: storable_line_def net_of_def [of 0])
qed

lemma invoice_line_tax_example:
  "\<exists>l. snapshot_line (lit ''Stollen'') 2 Box sample_price 1900 = Inr l
     \<and> 2 * \<bar>mo_amount (il_net l) * 11900 - mo_amount (il_gross l) * 10000\<bar> \<le> 11900"
  using invoice_line_tax [OF sample_price_wf, of 2 1900 "lit ''Stollen''" Box] sample_texts(2) by auto

text \<open>
  Two invoices of one profile never share a number.  The number printed for a counter value
  determines the counter value, whatever the width; and while the counter fits the width, the number has
  the length of prefix plus width and is a valid invoice number.
\<close>
lemma invoice_numbers_unique:
  assumes "invoice_profile_init raw = Inr p"
  shows "(0 < n \<and> next_invoice_number p = next_invoice_number (p\<lparr>pf_next_number := n\<rparr>) \<longrightarrow>
      n = pf_next_number p)
    \<and> (pf_next_number p < 10 ^ nat (pf_number_width p) \<longrightarrow>
      length (next_invoice_number p) = length (pf_number_prefix p) + nat (pf_number_width p)
      \<and> invoice_number_ok (next_invoice_number p))"
proof -
  have p: "0 < pf_next_number p" "3 \<le> pf_number_width p" "pf_number_width p \<le> 8"
    "number_prefix_ok (pf_number_prefix p)"
    using invoice_profile.post_init_wf [OF assms] by (simp_all add: wf_invoice_profile_def)
  define digits where "digits = zero_padded (nat (pf_number_width p)) (nat (pf_next_number p))"
  have unique: "n = pf_next_number p"
    if "0 < n" "next_invoice_number p = next_invoice_number (p\<lparr>pf_next_number := n\<rparr>)"
    using that p(1) zero_padded_inj [of "nat (pf_number_width p)" "nat (pf_next_number p)" "nat n"]
    by (simp add: next_invoice_number_def)
  obtain h t where prefix: "pf_number_prefix p = h # t" "is_AZ h \<or> is_09 h"
    "list_all (\<lambda>c. is_AZ c \<or> is_09 c \<or> c = 45) t" "length t \<le> 23"
    using p(4) by (auto simp: number_prefix_ok_def head_rest_def split: list.splits)
  have "length digits = nat (pf_number_width p)" if "pf_next_number p < 10 ^ nat (pf_number_width p)"
    unfolding digits_def
  proof (rule zero_padded_length)
    show "0 < nat (pf_number_width p)" using p(2) by simp
    show "nat (pf_next_number p) < 10 ^ nat (pf_number_width p)"
      using that p(1) by (simp add: nat_less_iff)
  qed
  moreover have "list_all is_09 digits" by (simp add: digits_def zero_padded_09)
  ultimately have "length (next_invoice_number p) = length (pf_number_prefix p) + nat (pf_number_width p)
      \<and> invoice_number_ok (next_invoice_number p)"
    if "pf_next_number p < 10 ^ nat (pf_number_width p)"
    using that prefix p(3)
    by (simp add: next_invoice_number_def digits_def [symmetric] invoice_number_ok_def head_rest_def)
      (auto simp: list_all_iff)
  then show ?thesis using unique by blast
qed

lemma invoice_numbers_unique_example:
  "invoice_number_ok (next_invoice_number sample_profile)"
  using invoice_numbers_unique [OF invoice_profile.post_init_id [OF sample_profile_wf]]
  by (simp add: sample_profile_def)

end
