(* ===== verification/Invoice_Settlement.thy ===== *)
theory Invoice_Settlement
  imports Invoice_Issue
begin

text \<open>
  \<^verbatim>\<open>domain/invoice_settlements.py\<close> and the transactions of
  \<^verbatim>\<open>adapters/postgres/invoice_settlements.py\<close> built on it: payment entries and their reversals, the
  balance of an invoice, cancellations, and the ledger of one invoice with its commands.  A transaction
  is a function from the stored rows to an error (everything rolled back) or the answer with the new
  rows.  The identifiers from \<^verbatim>\<open>uuid4()\<close> are arguments.
\<close>

section \<open>Domain values\<close>

definition required_text :: "pystr \<Rightarrow> string \<Rightarrow> nat \<Rightarrow> pystr res" where
  "required_text value code maximum =
     (if collapse value = [] then Inl (Invariant code)
      else if length (collapse value) > maximum then Inl (Invariant (code @ ''_too_long''))
      else Inr (collapse value))"

definition optional_text :: "pystr option \<Rightarrow> string \<Rightarrow> nat \<Rightarrow> pystr option res" where
  "optional_text value code maximum =
     (case value of
        None \<Rightarrow> Inr None
      | Some v \<Rightarrow>
          if collapse v = [] then Inr None
          else if length (collapse v) > maximum then Inl (Invariant (code @ ''_too_long''))
          else Inr (Some (collapse v)))"

lemma required_text_Inr [res_simps]:
  "required_text v code n = Inr s \<longleftrightarrow> collapse v \<noteq> [] \<and> length (collapse v) \<le> n \<and> s = collapse v"
  by (auto simp: required_text_def)

lemma required_text_id: "tidy s \<Longrightarrow> length s \<le> n \<Longrightarrow> required_text s code n = Inr s"
  by (simp add: required_text_def tidy_def)

lemma optional_text_Inr:
  "optional_text v code n = Inr w \<Longrightarrow> opt_all (\<lambda>s. tidy s \<and> length s \<le> n) w"
  by (auto simp: optional_text_def tidy_def split: option.splits if_splits)

lemma optional_text_id:
  "opt_all (\<lambda>s. tidy s \<and> length s \<le> n) v \<Longrightarrow> optional_text v code n = Inr v"
  by (auto simp: optional_text_def tidy_def split: option.splits)

record settlement_state =
  ss_id :: uuid
  ss_action_id :: uuid
  ss_number :: pystr
  ss_status :: invoice_status
  ss_issued_at :: datetime
  ss_issued_on :: date
  ss_gross :: money

definition settlement_state_init :: "settlement_state \<Rightarrow> settlement_state res" where
  "settlement_state_init s = then_res (require_aware (ss_issued_at s)) (\<lambda>_. Inr s)"

definition require_invoice_transition :: "settlement_state \<Rightarrow> invoice_status \<Rightarrow> unit res" where
  "require_invoice_transition s target =
     (if target \<notin> allowed_invoice_transitions (ss_status s)
      then Inl (Invariant ''invoice_status_transition_invalid'') else Inr ())"

datatype settlement_status = Open | Partially_Paid | Fully_Paid | Overpaid | Settlement_Cancelled

record payment_reversal =
  pr_id :: uuid
  pr_action_id :: uuid
  pr_invoice_id :: uuid
  pr_payment_id :: uuid
  pr_reason :: pystr
  pr_reversed_by_user_id :: uuid
  pr_reversed_at :: datetime
  pr_reversed_by_display_name :: "pystr option"
  pr_replayed :: bool

definition reversal_reason_minimum :: nat where "reversal_reason_minimum = 8"

definition payment_reversal_init :: "payment_reversal \<Rightarrow> payment_reversal res" where
  "payment_reversal_init r =
     then_res (require_aware (pr_reversed_at r)) (\<lambda>_.
     then_res (required_text (pr_reason r) ''invoice_payment_reversal_reason_required'' 500) (\<lambda>reason.
     if length reason < reversal_reason_minimum
     then Inl (Invariant ''invoice_payment_reversal_reason_too_short'')
     else Inr (r\<lparr>pr_reason := reason\<rparr>)))"

definition wf_payment_reversal :: "payment_reversal \<Rightarrow> bool" where
  "wf_payment_reversal r \<longleftrightarrow> aware (pr_reversed_at r) \<and> tidy (pr_reason r)
     \<and> 8 \<le> length (pr_reason r) \<and> length (pr_reason r) \<le> 500"

lemma payment_reversal_init_wf: "payment_reversal_init raw = Inr r \<Longrightarrow> wf_payment_reversal r"
  by (auto simp: payment_reversal_init_def wf_payment_reversal_def reversal_reason_minimum_def
      res_simps tidy_collapse)

lemma payment_reversal_init_id: "wf_payment_reversal r \<Longrightarrow> payment_reversal_init r = Inr r"
  by (simp add: payment_reversal_init_def wf_payment_reversal_def reversal_reason_minimum_def
      required_text_id require_aware_def)

interpretation reversal: validated payment_reversal_init wf_payment_reversal
  by unfold_locales (rule payment_reversal_init_wf payment_reversal_init_id, assumption)+

record payment_record =
  pay_id :: uuid
  pay_action_id :: uuid
  pay_invoice_id :: uuid
  pay_amount :: money
  pay_received_on :: date
  pay_reference :: pystr
  pay_recorded_by_user_id :: uuid
  pay_recorded_at :: datetime
  pay_recorded_by_display_name :: "pystr option"
  pay_replayed :: bool
  pay_note :: "pystr option"
  pay_reversal :: "payment_reversal option"

definition payment_record_init :: "payment_record \<Rightarrow> payment_record res" where
  "payment_record_init p =
     then_res (require_aware (pay_recorded_at p)) (\<lambda>_.
     if mo_amount (pay_amount p) \<le> 0 then Inl (Invariant ''invoice_payment_amount_invalid'')
     else then_res (required_text (pay_reference p) ''invoice_payment_reference_required'' 160) (\<lambda>reference.
     then_res (optional_text (pay_note p) ''invoice_payment_note'' 500) (\<lambda>note.
     if (case pay_reversal p of None \<Rightarrow> False | Some r \<Rightarrow> pr_payment_id r \<noteq> pay_id p)
     then Inl (Invariant ''invoice_payment_reversal_mismatch'')
     else Inr (p\<lparr>pay_reference := reference, pay_note := note\<rparr>))))"

definition wf_payment_record :: "payment_record \<Rightarrow> bool" where
  "wf_payment_record p \<longleftrightarrow> aware (pay_recorded_at p) \<and> 0 < mo_amount (pay_amount p)
     \<and> tidy (pay_reference p) \<and> length (pay_reference p) \<le> 160
     \<and> opt_all (\<lambda>s. tidy s \<and> length s \<le> 500) (pay_note p)
     \<and> opt_all (\<lambda>r. pr_payment_id r = pay_id p) (pay_reversal p)"

lemma payment_record_init_wf: "payment_record_init raw = Inr p \<Longrightarrow> wf_payment_record p"
  by (auto simp: payment_record_init_def wf_payment_record_def then_res_Inr_iff required_text_Inr
      tidy_collapse split: if_splits option.splits dest: optional_text_Inr)

lemma payment_record_init_id: "wf_payment_record p \<Longrightarrow> payment_record_init p = Inr p"
  by (auto simp: payment_record_init_def wf_payment_record_def required_text_id optional_text_id
      require_aware_def split: option.splits)

interpretation payment: validated payment_record_init wf_payment_record
  by unfold_locales (rule payment_record_init_wf payment_record_init_id, assumption)+

definition payment_active :: "payment_record \<Rightarrow> bool" where
  "payment_active p \<longleftrightarrow> pay_reversal p = None"

definition payment_record_new ::
  "tz \<Rightarrow> uuid \<Rightarrow> settlement_state \<Rightarrow> money \<Rightarrow> date \<Rightarrow> pystr \<Rightarrow> uuid \<Rightarrow> datetime \<Rightarrow> pystr option
   \<Rightarrow> payment_record res" where
  "payment_record_new zone new_id si amount received_on reference recorded_by recorded_at note =
     then_res (require_aware recorded_at) (\<lambda>_.
     if ss_status si = Cancelled then Inl (Invariant ''invoice_payment_cancelled'')
     else if mo_currency amount \<noteq> mo_currency (ss_gross si)
     then Inl (Invariant ''invoice_payment_currency_mismatch'')
     else if received_on < ss_issued_on si then Inl (Invariant ''invoice_payment_before_issue'')
     else then_res (local_day zone recorded_at) (\<lambda>today.
       if received_on > today then Inl (Invariant ''invoice_payment_future_date'')
       else payment_record_init \<lparr>pay_id = new_id, pay_action_id = ss_action_id si,
         pay_invoice_id = ss_id si, pay_amount = amount, pay_received_on = received_on,
         pay_reference = reference, pay_recorded_by_user_id = recorded_by,
         pay_recorded_at = recorded_at, pay_recorded_by_display_name = None,
         pay_replayed = False, pay_note = note, pay_reversal = None\<rparr>))"

definition payment_reverse ::
  "payment_record \<Rightarrow> uuid \<Rightarrow> pystr \<Rightarrow> uuid \<Rightarrow> datetime \<Rightarrow> payment_reversal res" where
  "payment_reverse p new_id reason reversed_by reversed_at =
     (if pay_reversal p \<noteq> None then Inl (Invariant ''invoice_payment_already_reversed'')
      else payment_reversal_init \<lparr>pr_id = new_id, pr_action_id = pay_action_id p,
        pr_invoice_id = pay_invoice_id p, pr_payment_id = pay_id p, pr_reason = reason,
        pr_reversed_by_user_id = reversed_by, pr_reversed_at = reversed_at,
        pr_reversed_by_display_name = None, pr_replayed = False\<rparr>)"

definition settlement_version :: "payment_record list \<Rightarrow> int" where
  "settlement_version ps = sum_list (map (\<lambda>p. if payment_active p then 1 else 2) ps)"

section \<open>Balance\<close>

record invoice_balance =
  ib_gross :: money
  ib_paid :: money
  ib_cancelled :: bool

definition invoice_balance_init :: "invoice_balance \<Rightarrow> invoice_balance res" where
  "invoice_balance_init b =
     (if mo_currency (ib_paid b) \<noteq> mo_currency (ib_gross b)
      then Inl (Invariant ''invoice_payment_currency_mismatch'') else Inr b)"

definition add_payment :: "money \<Rightarrow> payment_record \<Rightarrow> money res" where
  "add_payment paid p = (if payment_active p then money_plus paid (pay_amount p) else Inr paid)"

definition balance_of :: "money \<Rightarrow> payment_record list \<Rightarrow> bool \<Rightarrow> invoice_balance res" where
  "balance_of gross ps cancelled =
     then_res (money_init \<lparr>mo_amount = 0, mo_currency = mo_currency gross\<rparr>) (\<lambda>zero.
     then_res (fold_res add_payment zero ps) (\<lambda>paid.
     invoice_balance_init \<lparr>ib_gross = gross, ib_paid = paid, ib_cancelled = cancelled\<rparr>))"

definition open_amount :: "invoice_balance \<Rightarrow> money res" where
  "open_amount b = money_init \<lparr>
     mo_amount = (if ib_cancelled b then 0 else max (mo_amount (ib_gross b) - mo_amount (ib_paid b)) 0),
     mo_currency = mo_currency (ib_gross b)\<rparr>"

definition overpaid_amount :: "invoice_balance \<Rightarrow> money res" where
  "overpaid_amount b = money_init \<lparr>
     mo_amount = (if ib_cancelled b then 0 else max (mo_amount (ib_paid b) - mo_amount (ib_gross b)) 0),
     mo_currency = mo_currency (ib_gross b)\<rparr>"

definition settlement_status_of :: "invoice_balance \<Rightarrow> settlement_status" where
  "settlement_status_of b =
     (if ib_cancelled b then Settlement_Cancelled
      else if mo_amount (ib_paid b) > mo_amount (ib_gross b) then Overpaid
      else if mo_amount (ib_paid b) = mo_amount (ib_gross b) then Fully_Paid
      else if mo_amount (ib_paid b) = 0 then Open
      else Partially_Paid)"

definition balance_invoice_status :: "invoice_balance \<Rightarrow> bool \<Rightarrow> invoice_status" where
  "balance_invoice_status b delivered =
     (if ib_cancelled b then Cancelled
      else if mo_amount (ib_paid b) \<ge> mo_amount (ib_gross b) then Paid
      else if delivered then Sent else Issued)"

section \<open>Cancellation\<close>

record invoice_cancellation =
  ic_id :: uuid
  ic_action_id :: uuid
  ic_invoice_id :: uuid
  ic_original_status :: invoice_status
  ic_reason :: pystr
  ic_requested_by_user_id :: uuid
  ic_requested_at :: datetime
  ic_requested_by_display_name :: "pystr option"
  ic_replayed :: bool

definition invoice_cancellation_init :: "invoice_cancellation \<Rightarrow> invoice_cancellation res" where
  "invoice_cancellation_init c =
     then_res (require_aware (ic_requested_at c)) (\<lambda>_.
     if ic_original_status c = Cancelled
     then Inl (Invariant ''invoice_cancellation_original_status_invalid'')
     else then_res (required_text (ic_reason c) ''invoice_cancellation_reason_required'' 500) (\<lambda>reason.
       if length reason < 8 then Inl (Invariant ''invoice_cancellation_reason_too_short'')
       else Inr (c\<lparr>ic_reason := reason\<rparr>)))"

definition wf_invoice_cancellation :: "invoice_cancellation \<Rightarrow> bool" where
  "wf_invoice_cancellation c \<longleftrightarrow> aware (ic_requested_at c) \<and> ic_original_status c \<noteq> Cancelled
     \<and> tidy (ic_reason c) \<and> 8 \<le> length (ic_reason c) \<and> length (ic_reason c) \<le> 500"

lemma invoice_cancellation_init_wf:
  "invoice_cancellation_init raw = Inr c \<Longrightarrow> wf_invoice_cancellation c"
  by (auto simp: invoice_cancellation_init_def wf_invoice_cancellation_def res_simps tidy_collapse)

lemma invoice_cancellation_init_id:
  "wf_invoice_cancellation c \<Longrightarrow> invoice_cancellation_init c = Inr c"
  by (simp add: invoice_cancellation_init_def wf_invoice_cancellation_def required_text_id
      require_aware_def)

interpretation invoice_cancel: validated invoice_cancellation_init wf_invoice_cancellation
  by unfold_locales (rule invoice_cancellation_init_wf invoice_cancellation_init_id, assumption)+

definition invoice_cancel_new ::
  "uuid \<Rightarrow> settlement_state \<Rightarrow> pystr \<Rightarrow> uuid \<Rightarrow> datetime \<Rightarrow> invoice_cancellation res" where
  "invoice_cancel_new new_id si reason requested_by requested_at =
     then_res (require_aware requested_at) (\<lambda>_.
     then_res (require_invoice_transition si Cancelled) (\<lambda>_.
     invoice_cancellation_init \<lparr>ic_id = new_id, ic_action_id = ss_action_id si,
       ic_invoice_id = ss_id si, ic_original_status = ss_status si, ic_reason = reason,
       ic_requested_by_user_id = requested_by, ic_requested_at = requested_at,
       ic_requested_by_display_name = None, ic_replayed = False\<rparr>))"

section \<open>Sums of payments\<close>

definition paid_minor :: "payment_record list \<Rightarrow> int" where
  "paid_minor ps = sum_list (map (\<lambda>p. mo_amount (pay_amount p)) (filter payment_active ps))"

text \<open>An entry that may be booked on an invoice in the given currency.\<close>

definition bookable :: "pystr \<Rightarrow> payment_record \<Rightarrow> bool" where
  "bookable cur p \<longleftrightarrow> wf_payment_record p \<and> mo_currency (pay_amount p) = cur"

lemma paid_minor_nonneg: "list_all (bookable cur) ps \<Longrightarrow> 0 \<le> paid_minor ps"
  unfolding paid_minor_def
  by (rule sum_list_nonneg) (auto simp: list_all_iff bookable_def wf_payment_record_def)

lemma paid_minor_pos:
  "list_all (bookable cur) ps \<Longrightarrow> 0 < paid_minor ps \<longleftrightarrow> (\<exists>p \<in> set ps. payment_active p)"
proof (induction ps)
  case (Cons p ps)
  then have "0 \<le> paid_minor ps" by (intro paid_minor_nonneg [of cur]) simp
  with Cons show ?case by (auto simp: paid_minor_def bookable_def wf_payment_record_def)
qed (simp add: paid_minor_def)

lemma fold_add_payment:
  "list_all (bookable cur) ps \<Longrightarrow> capital_code 3 cur \<Longrightarrow> 0 \<le> a \<Longrightarrow>
   fold_res add_payment \<lparr>mo_amount = a, mo_currency = cur\<rparr> ps
     = Inr \<lparr>mo_amount = a + paid_minor ps, mo_currency = cur\<rparr>"
proof (induction ps arbitrary: a)
  case (Cons p ps)
  then have "add_payment \<lparr>mo_amount = a, mo_currency = cur\<rparr> p =
      Inr \<lparr>mo_amount = a + (if payment_active p then mo_amount (pay_amount p) else 0), mo_currency = cur\<rparr>"
    by (auto simp: add_payment_def money_plus_def money_init_def bookable_def wf_payment_record_def)
  moreover have "0 \<le> a + (if payment_active p then mo_amount (pay_amount p) else 0)"
    using Cons.prems by (auto simp: bookable_def wf_payment_record_def)
  ultimately show ?case using Cons by (simp add: paid_minor_def)
qed (simp add: paid_minor_def)

lemma balance_of_eq:
  "list_all (bookable (mo_currency gross)) ps \<Longrightarrow> wf_money gross \<Longrightarrow>
   balance_of gross ps c = Inr \<lparr>ib_gross = gross,
     ib_paid = \<lparr>mo_amount = paid_minor ps, mo_currency = mo_currency gross\<rparr>, ib_cancelled = c\<rparr>"
  by (simp add: balance_of_def money_init_def wf_money_def fold_add_payment invoice_balance_init_def)

lemma paid_minor_mset: "mset ps = mset qs \<Longrightarrow> paid_minor ps = paid_minor qs"
proof -
  assume "mset ps = mset qs"
  then have "mset (map (\<lambda>p. mo_amount (pay_amount p)) (filter payment_active ps))
      = mset (map (\<lambda>p. mo_amount (pay_amount p)) (filter payment_active qs))" by simp
  then show ?thesis unfolding paid_minor_def by (metis sum_mset_sum_list)
qed

section \<open>The stored rows and their transactions\<close>

record audit_event =
  ae_id :: uuid
  ae_action_id :: uuid
  ae_actor_user_id :: "uuid option"
  ae_event_type :: string
  ae_entity_type :: string
  ae_entity_id :: uuid
  ae_request_id :: pystr
  ae_payload :: payload
  ae_occurred_at :: datetime

record command_receipt =
  cr_command_type :: string
  cr_request_hash :: pystr
  cr_result :: "(string \<times> uuid) option"

text \<open>
  The tables \<^verbatim>\<open>invoice\<close> (as far as settlement reads it), \<^verbatim>\<open>payment_record\<close> with \<^verbatim>\<open>payment_reversal\<close>,
  \<^verbatim>\<open>invoice_cancellation\<close>, the invoices with a confirmed mail delivery, \<^verbatim>\<open>command_receipt\<close> and
  \<^verbatim>\<open>audit_event\<close>.  Display names joined from the accounts are left out.
\<close>

record finance_db =
  fd_invoices :: "uuid \<rightharpoonup> settlement_state"
  fd_payments :: "payment_record list"
  fd_cancellations :: "invoice_cancellation list"
  fd_mail_sent :: "uuid set"
  fd_receipts :: "pystr \<rightharpoonup> command_receipt"
  fd_audit :: "audit_event list"

text \<open>What every command carries along: who, which key and request, when.\<close>

record command_context =
  cc_action_id :: uuid
  cc_actor_user_id :: uuid
  cc_idempotency_key :: pystr
  cc_request_hash :: pystr
  cc_request_id :: pystr
  cc_occurred_at :: datetime

definition payment_key :: "payment_record \<Rightarrow> date \<times> int \<times> int" where
  "payment_key p = (pay_received_on p, instant (pay_recorded_at p), uint (pay_id p))"

definition payments_for_invoice :: "finance_db \<Rightarrow> uuid \<Rightarrow> payment_record list" where
  "payments_for_invoice db i = sort_key payment_key (filter (\<lambda>p. pay_invoice_id p = i) (fd_payments db))"

definition existing_command ::
  "finance_db \<Rightarrow> string \<Rightarrow> command_context \<Rightarrow> string \<Rightarrow> uuid option res" where
  "existing_command db command_type cc result_key =
     (case fd_receipts db (cc_idempotency_key cc) of
        None \<Rightarrow> Inr None
      | Some r \<Rightarrow>
          if cr_command_type r \<noteq> command_type \<or> cr_request_hash r \<noteq> cc_request_hash cc
          then Inl (App Conflict ''idempotency_conflict'')
          else case cr_result r of
            Some (key, u) \<Rightarrow> if key = result_key then Inr (Some u) else Inl Runtime_Error
          | None \<Rightarrow> Inl Runtime_Error)"

definition complete_command :: "string \<Rightarrow> command_context \<Rightarrow> string \<Rightarrow> uuid \<Rightarrow> finance_db \<Rightarrow> finance_db" where
  "complete_command command_type cc result_key u db =
     db\<lparr>fd_receipts := (fd_receipts db)(cc_idempotency_key cc \<mapsto>
       \<lparr>cr_command_type = command_type, cr_request_hash = cc_request_hash cc,
        cr_result = Some (result_key, u)\<rparr>)\<rparr>"

definition write_audit ::
  "uuid \<Rightarrow> command_context \<Rightarrow> string \<Rightarrow> string \<Rightarrow> uuid \<Rightarrow> payload \<Rightarrow> finance_db \<Rightarrow> finance_db" where
  "write_audit new_id cc event_type entity_type entity_id p db =
     db\<lparr>fd_audit := fd_audit db @ [\<lparr>ae_id = new_id, ae_action_id = cc_action_id cc,
       ae_actor_user_id = Some (cc_actor_user_id cc), ae_event_type = event_type,
       ae_entity_type = entity_type, ae_entity_id = entity_id, ae_request_id = cc_request_id cc,
       ae_payload = p, ae_occurred_at = cc_occurred_at cc\<rparr>]\<rparr>"

definition invoice_state :: "finance_db \<Rightarrow> uuid \<Rightarrow> uuid \<Rightarrow> settlement_state res" where
  "invoice_state db action_id i =
     (case fd_invoices db i of
        None \<Rightarrow> Inl (App Resource_Not_Found ''invoice_settlement_not_found'')
      | Some s \<Rightarrow>
          if ss_action_id s \<noteq> action_id
          then Inl (App Resource_Not_Found ''invoice_settlement_not_found'')
          else settlement_state_init s)"

definition require_version :: "payment_record list \<Rightarrow> int option \<Rightarrow> unit res" where
  "require_version ps expected =
     (case expected of
        None \<Rightarrow> Inr ()
      | Some v \<Rightarrow>
          if settlement_version ps \<noteq> v then Inl (App Conflict ''invoice_settlement_stale'')
          else Inr ())"

fun invoice_status_value :: "invoice_status \<Rightarrow> pystr" where
  "invoice_status_value Issued = lit ''issued''"
| "invoice_status_value Sent = lit ''sent''"
| "invoice_status_value Paid = lit ''paid''"
| "invoice_status_value Cancelled = lit ''cancelled''"

fun settlement_status_value :: "settlement_status \<Rightarrow> pystr" where
  "settlement_status_value Open = lit ''open''"
| "settlement_status_value Partially_Paid = lit ''partially_paid''"
| "settlement_status_value Fully_Paid = lit ''paid''"
| "settlement_status_value Overpaid = lit ''overpaid''"
| "settlement_status_value Settlement_Cancelled = lit ''cancelled''"

definition balance_payload :: "invoice_balance \<Rightarrow> payload \<Rightarrow> payload res" where
  "balance_payload b p =
     then_res (open_amount b) (\<lambda>opened.
     then_res (overpaid_amount b) (\<lambda>overpaid.
     Inr (p(''paidMinor'' \<mapsto> JInt (mo_amount (ib_paid b)), ''openMinor'' \<mapsto> JInt (mo_amount opened),
       ''overpaidMinor'' \<mapsto> JInt (mo_amount overpaid),
       ''settlementStatus'' \<mapsto> JStr (settlement_status_value (settlement_status_of b))))))"

text \<open>The status that follows from the balance, stored; a cancelled invoice keeps its status.\<close>

definition settle_status ::
  "finance_db \<Rightarrow> settlement_state \<Rightarrow> invoice_balance \<Rightarrow> invoice_status \<times> finance_db" where
  "settle_status db s balance =
     (if ss_status s = Cancelled then (Cancelled, db)
      else let target = balance_invoice_status balance (ss_status s = Sent \<or> ss_id s \<in> fd_mail_sent db)
        in (target, db\<lparr>fd_invoices := (fd_invoices db)(ss_id s \<mapsto> s\<lparr>ss_status := target\<rparr>)\<rparr>))"

definition get_payment :: "finance_db \<Rightarrow> uuid \<Rightarrow> uuid \<Rightarrow> bool \<Rightarrow> payment_record res" where
  "get_payment db action_id pid replayed =
     (case find (\<lambda>p. pay_id p = pid \<and> pay_action_id p = action_id) (fd_payments db) of
        None \<Rightarrow> Inl (App Resource_Not_Found ''invoice_payment_not_found'')
      | Some p \<Rightarrow> Inr (p\<lparr>pay_replayed := replayed\<rparr>))"

definition get_reversal :: "finance_db \<Rightarrow> uuid \<Rightarrow> uuid \<Rightarrow> bool \<Rightarrow> payment_reversal res" where
  "get_reversal db action_id rid replayed =
     (case find (\<lambda>p. pay_action_id p = action_id
           \<and> (case pay_reversal p of None \<Rightarrow> False | Some r \<Rightarrow> pr_id r = rid)) (fd_payments db) of
        None \<Rightarrow> Inl (App Resource_Not_Found ''invoice_payment_reversal_not_found'')
      | Some p \<Rightarrow> (case pay_reversal p of
            None \<Rightarrow> Inl (App Resource_Not_Found ''invoice_payment_reversal_not_found'')
          | Some r \<Rightarrow> Inr (r\<lparr>pr_replayed := replayed\<rparr>)))"

definition get_cancellation :: "finance_db \<Rightarrow> uuid \<Rightarrow> uuid \<Rightarrow> bool \<Rightarrow> invoice_cancellation res" where
  "get_cancellation db action_id cid replayed =
     (case find (\<lambda>c. ic_id c = cid \<and> ic_action_id c = action_id) (fd_cancellations db) of
        None \<Rightarrow> Inl (App Resource_Not_Found ''invoice_cancellation_not_found'')
      | Some c \<Rightarrow> Inr (c\<lparr>ic_replayed := replayed\<rparr>))"

record payment_request =
  rq_invoice_id :: uuid
  rq_amount :: money
  rq_received_on :: date
  rq_reference :: pystr
  rq_note :: "pystr option"
  rq_expected_version :: "int option"

definition payment_audit_payload ::
  "settlement_state \<Rightarrow> payment_record \<Rightarrow> invoice_status \<Rightarrow> payload" where
  "payment_audit_payload s p status = [
     ''invoiceId'' \<mapsto> JStr (uuid_str (ss_id s)), ''invoiceNumber'' \<mapsto> JStr (ss_number s),
     ''amountMinor'' \<mapsto> JInt (mo_amount (pay_amount p)),
     ''currency'' \<mapsto> JStr (mo_currency (pay_amount p)),
     ''receivedOn'' \<mapsto> JStr (iso_date (pay_received_on p)),
     ''reference'' \<mapsto> JStr (pay_reference p), ''hasNote'' \<mapsto> JBool (pay_note p \<noteq> None),
     ''previousStatus'' \<mapsto> JStr (invoice_status_value (ss_status s)),
     ''status'' \<mapsto> JStr (invoice_status_value status)]"

definition record_payment_once ::
  "tz \<Rightarrow> uuid \<Rightarrow> uuid \<Rightarrow> command_context \<Rightarrow> payment_request \<Rightarrow> finance_db
   \<Rightarrow> (payment_record \<times> finance_db) res" where
  "record_payment_once zone new_id audit_id cc rq db =
     then_res (existing_command db ''record_invoice_payment_v1'' cc ''paymentId'') (\<lambda>replayed.
     case replayed of
       Some pid \<Rightarrow> then_res (get_payment db (cc_action_id cc) pid True) (\<lambda>p. Inr (p, db))
     | None \<Rightarrow>
         then_res (invoice_state db (cc_action_id cc) (rq_invoice_id rq)) (\<lambda>s.
         if ss_status s = Cancelled then Inl (App Conflict ''invoice_payment_cancelled'')
         else let payments = payments_for_invoice db (rq_invoice_id rq) in
         then_res (require_version payments (rq_expected_version rq)) (\<lambda>_.
         then_res (payment_record_new zone new_id s (rq_amount rq) (rq_received_on rq)
             (rq_reference rq) (cc_actor_user_id cc) (cc_occurred_at cc) (rq_note rq)) (\<lambda>p.
         let db1 = db\<lparr>fd_payments := fd_payments db @ [p]\<rparr> in
         then_res (balance_of (ss_gross s) (payments @ [p]) False) (\<lambda>balance.
         case settle_status db1 s balance of (status, db2) \<Rightarrow>
         then_res (balance_payload balance (payment_audit_payload s p status)) (\<lambda>facts.
         let db3 = write_audit audit_id cc ''invoice_payment_recorded'' ''payment_record'' new_id facts db2;
             db4 = complete_command ''record_invoice_payment_v1'' cc ''paymentId'' new_id db3
         in then_res (get_payment db4 (cc_action_id cc) new_id False) (\<lambda>answer. Inr (answer, db4))))))))"

record reversal_request =
  rv_invoice_id :: uuid
  rv_payment_id :: uuid
  rv_reason :: pystr
  rv_expected_version :: "int option"

definition set_reversal :: "uuid \<Rightarrow> payment_reversal \<Rightarrow> payment_record \<Rightarrow> payment_record" where
  "set_reversal pid r p = (if pay_id p = pid then p\<lparr>pay_reversal := Some r\<rparr> else p)"

definition reversal_audit_payload ::
  "settlement_state \<Rightarrow> payment_record \<Rightarrow> payment_reversal \<Rightarrow> invoice_status \<Rightarrow> payload" where
  "reversal_audit_payload s p r status = [
     ''invoiceId'' \<mapsto> JStr (uuid_str (ss_id s)), ''invoiceNumber'' \<mapsto> JStr (ss_number s),
     ''paymentId'' \<mapsto> JStr (uuid_str (pay_id p)),
     ''amountMinor'' \<mapsto> JInt (mo_amount (pay_amount p)),
     ''currency'' \<mapsto> JStr (mo_currency (pay_amount p)),
     ''receivedOn'' \<mapsto> JStr (iso_date (pay_received_on p)), ''reason'' \<mapsto> JStr (pr_reason r),
     ''previousStatus'' \<mapsto> JStr (invoice_status_value (ss_status s)),
     ''status'' \<mapsto> JStr (invoice_status_value status)]"

definition reverse_payment_once ::
  "uuid \<Rightarrow> uuid \<Rightarrow> command_context \<Rightarrow> reversal_request \<Rightarrow> finance_db \<Rightarrow> (payment_reversal \<times> finance_db) res" where
  "reverse_payment_once new_id audit_id cc rv db =
     then_res (existing_command db ''reverse_invoice_payment_v1'' cc ''reversalId'') (\<lambda>replayed.
     case replayed of
       Some rid \<Rightarrow> then_res (get_reversal db (cc_action_id cc) rid True) (\<lambda>r. Inr (r, db))
     | None \<Rightarrow>
         then_res (invoice_state db (cc_action_id cc) (rv_invoice_id rv)) (\<lambda>s.
         if ss_status s = Cancelled then Inl (App Conflict ''invoice_payment_cancelled'')
         else let payments = payments_for_invoice db (rv_invoice_id rv) in
         case find (\<lambda>p. pay_id p = rv_payment_id rv) payments of
           None \<Rightarrow> Inl (App Resource_Not_Found ''invoice_payment_not_found'')
         | Some p \<Rightarrow>
             if \<not> payment_active p then Inl (App Conflict ''invoice_payment_already_reversed'')
             else then_res (require_version payments (rv_expected_version rv)) (\<lambda>_.
             then_res (payment_reverse p new_id (rv_reason rv) (cc_actor_user_id cc) (cc_occurred_at cc)) (\<lambda>r.
             let db1 = db\<lparr>fd_payments := map (set_reversal (rv_payment_id rv) r) (fd_payments db)\<rparr> in
             then_res (balance_of (ss_gross s) (map (set_reversal (rv_payment_id rv) r) payments) False) (\<lambda>balance.
             case settle_status db1 s balance of (status, db2) \<Rightarrow>
             then_res (balance_payload balance (reversal_audit_payload s p r status)) (\<lambda>facts.
             let db3 = write_audit audit_id cc ''invoice_payment_reversed'' ''payment_reversal'' new_id facts db2;
                 db4 = complete_command ''reverse_invoice_payment_v1'' cc ''reversalId'' new_id db3
             in then_res (get_reversal db4 (cc_action_id cc) new_id False) (\<lambda>answer. Inr (answer, db4))))))))"

definition cancel_audit_payload :: "settlement_state \<Rightarrow> invoice_cancellation \<Rightarrow> payload" where
  "cancel_audit_payload s c = [
     ''invoiceId'' \<mapsto> JStr (uuid_str (ss_id s)), ''invoiceNumber'' \<mapsto> JStr (ss_number s),
     ''previousStatus'' \<mapsto> JStr (invoice_status_value (ss_status s)),
     ''status'' \<mapsto> JStr (invoice_status_value Cancelled), ''reason'' \<mapsto> JStr (ic_reason c)]"

definition cancel_once ::
  "uuid \<Rightarrow> uuid \<Rightarrow> command_context \<Rightarrow> uuid \<Rightarrow> pystr \<Rightarrow> finance_db \<Rightarrow> (invoice_cancellation \<times> finance_db) res" where
  "cancel_once new_id audit_id cc i reason db =
     then_res (existing_command db ''cancel_invoice_v1'' cc ''cancellationId'') (\<lambda>replayed.
     case replayed of
       Some cid \<Rightarrow> then_res (get_cancellation db (cc_action_id cc) cid True) (\<lambda>c. Inr (c, db))
     | None \<Rightarrow>
         then_res (invoice_state db (cc_action_id cc) i) (\<lambda>s.
         if list_ex (\<lambda>c. ic_invoice_id c = i) (fd_cancellations db) \<or> ss_status s = Cancelled
         then Inl (App Conflict ''invoice_cancellation_already_recorded'')
         else then_res (invoice_cancel_new new_id s reason (cc_actor_user_id cc) (cc_occurred_at cc)) (\<lambda>c.
         let db1 = db\<lparr>fd_cancellations := fd_cancellations db @ [c],
                      fd_invoices := (fd_invoices db)(i \<mapsto> s\<lparr>ss_status := Cancelled\<rparr>)\<rparr>;
             db2 = write_audit audit_id cc ''invoice_cancelled'' ''invoice_cancellation'' new_id
               (cancel_audit_payload s c) db1;
             db3 = complete_command ''cancel_invoice_v1'' cc ''cancellationId'' new_id db2
         in then_res (get_cancellation db3 (cc_action_id cc) new_id False) (\<lambda>answer. Inr (answer, db3)))))"

text \<open>The confirmation of a sent invoice mail (\<^verbatim>\<open>adapters/postgres/invoice_deliveries.py\<close>).\<close>

definition confirm_mail :: "uuid \<Rightarrow> finance_db \<Rightarrow> finance_db" where
  "confirm_mail i db = db\<lparr>fd_mail_sent := insert i (fd_mail_sent db),
     fd_invoices := (fd_invoices db)(i := map_option
       (\<lambda>s. if ss_status s = Issued then s\<lparr>ss_status := Sent\<rparr> else s) (fd_invoices db i))\<rparr>"

section \<open>What a command does to the rows\<close>

lemma settle_status_eq:
  "ss_status s \<noteq> Cancelled \<Longrightarrow> settle_status db s b =
     (let t = balance_invoice_status b (ss_status s = Sent \<or> ss_id s \<in> fd_mail_sent db) in
      (t, db\<lparr>fd_invoices := (fd_invoices db)(ss_id s \<mapsto> s\<lparr>ss_status := t\<rparr>)\<rparr>))"
  by (simp add: settle_status_def)

lemma settlement_state_init_Inr [res_simps]:
  "settlement_state_init s = Inr t \<longleftrightarrow> t = s \<and> aware (ss_issued_at s)"
  by (auto simp: settlement_state_init_def then_res_Inr_iff)

lemma invoice_state_Inr [res_simps]:
  "invoice_state db a i = Inr s \<longleftrightarrow>
     fd_invoices db i = Some s \<and> ss_action_id s = a \<and> aware (ss_issued_at s)"
  by (auto simp: invoice_state_def settlement_state_init_Inr split: option.splits)

lemma require_version_Inr [res_simps]:
  "require_version ps e = Inr u \<longleftrightarrow> e = None \<or> e = Some (settlement_version ps)"
  by (auto simp: require_version_def split: option.splits)

lemma existing_command_new [simp]:
  "existing_command db t cc k = Inr None \<longleftrightarrow> fd_receipts db (cc_idempotency_key cc) = None"
  by (auto simp: existing_command_def split: option.splits)

lemma rows_of_log [simp]:
  "fd_invoices (complete_command t cc k u db) = fd_invoices db"
  "fd_payments (complete_command t cc k u db) = fd_payments db"
  "fd_cancellations (complete_command t cc k u db) = fd_cancellations db"
  "fd_mail_sent (complete_command t cc k u db) = fd_mail_sent db"
  "fd_receipts (complete_command t cc k u db) = (fd_receipts db)(cc_idempotency_key cc \<mapsto>
     \<lparr>cr_command_type = t, cr_request_hash = cc_request_hash cc, cr_result = Some (k, u)\<rparr>)"
  "fd_invoices (write_audit n cc e1 e2 e3 p db) = fd_invoices db"
  "fd_payments (write_audit n cc e1 e2 e3 p db) = fd_payments db"
  "fd_cancellations (write_audit n cc e1 e2 e3 p db) = fd_cancellations db"
  "fd_mail_sent (write_audit n cc e1 e2 e3 p db) = fd_mail_sent db"
  "fd_receipts (write_audit n cc e1 e2 e3 p db) = fd_receipts db"
  by (simp_all add: complete_command_def write_audit_def)

lemma payment_record_new_Inr:
  assumes "payment_record_new zone n s amount day ref u at note = Inr p"
  shows "wf_payment_record p" "pay_id p = n" "pay_invoice_id p = ss_id s"
    "pay_action_id p = ss_action_id s" "pay_amount p = amount" "pay_reversal p = None"
    "mo_currency amount = mo_currency (ss_gross s)" "ss_status s \<noteq> Cancelled"
    "ss_issued_on s \<le> pay_received_on p" "\<exists>today. local_day zone at = Inr today \<and> pay_received_on p \<le> today"
proof -
  have "wf_payment_record p"
    using assms by (auto simp: payment_record_new_def then_res_Inr_iff split: if_splits
        dest: payment_record_init_wf)
  then show "wf_payment_record p" "pay_id p = n" "pay_invoice_id p = ss_id s"
    "pay_action_id p = ss_action_id s" "pay_amount p = amount" "pay_reversal p = None"
    "mo_currency amount = mo_currency (ss_gross s)" "ss_status s \<noteq> Cancelled"
    "ss_issued_on s \<le> pay_received_on p" "\<exists>today. local_day zone at = Inr today \<and> pay_received_on p \<le> today"
    using assms by (auto simp: payment_record_new_def payment_record_init_def then_res_Inr_iff
        split: if_splits)
qed

lemma record_effect:
  assumes "record_payment_once zone n a cc rq db = Inr (answer, db')"
    and "fd_receipts db (cc_idempotency_key cc) = None"
  shows "\<exists>s p b t. fd_invoices db (rq_invoice_id rq) = Some s
    \<and> (rq_expected_version rq = None
       \<or> rq_expected_version rq = Some (settlement_version (payments_for_invoice db (rq_invoice_id rq))))
    \<and> payment_record_new zone n s (rq_amount rq) (rq_received_on rq) (rq_reference rq)
        (cc_actor_user_id cc) (cc_occurred_at cc) (rq_note rq) = Inr p
    \<and> balance_of (ss_gross s) (payments_for_invoice db (rq_invoice_id rq) @ [p]) False = Inr b
    \<and> t = balance_invoice_status b (ss_status s = Sent \<or> ss_id s \<in> fd_mail_sent db)
    \<and> fd_payments db' = fd_payments db @ [p]
    \<and> fd_invoices db' = (fd_invoices db)(ss_id s \<mapsto> s\<lparr>ss_status := t\<rparr>)
    \<and> fd_cancellations db' = fd_cancellations db \<and> fd_mail_sent db' = fd_mail_sent db
    \<and> fd_receipts db' = (fd_receipts db)(cc_idempotency_key cc \<mapsto>
        \<lparr>cr_command_type = ''record_invoice_payment_v1'', cr_request_hash = cc_request_hash cc,
         cr_result = Some (''paymentId'', n)\<rparr>)"
proof -
  have new: "existing_command db ''record_invoice_payment_v1'' cc ''paymentId'' = Inr None"
    using assms(2) by simp
  from assms(1) obtain s p b where
    s: "fd_invoices db (rq_invoice_id rq) = Some s" "ss_status s \<noteq> Cancelled"
    and rest: "rq_expected_version rq = None
       \<or> rq_expected_version rq = Some (settlement_version (payments_for_invoice db (rq_invoice_id rq)))"
      "payment_record_new zone n s (rq_amount rq) (rq_received_on rq) (rq_reference rq)
        (cc_actor_user_id cc) (cc_occurred_at cc) (rq_note rq) = Inr p"
      "balance_of (ss_gross s) (payments_for_invoice db (rq_invoice_id rq) @ [p]) False = Inr b"
    and result: "then_res (balance_payload b (payment_audit_payload s p
        (balance_invoice_status b (ss_status s = Sent \<or> ss_id s \<in> fd_mail_sent db)))) (\<lambda>facts.
      let db3 = write_audit a cc ''invoice_payment_recorded'' ''payment_record'' n facts
            (db\<lparr>fd_payments := fd_payments db @ [p],
                fd_invoices := (fd_invoices db)(ss_id s \<mapsto> s\<lparr>ss_status :=
                  balance_invoice_status b (ss_status s = Sent \<or> ss_id s \<in> fd_mail_sent db)\<rparr>)\<rparr>);
          db4 = complete_command ''record_invoice_payment_v1'' cc ''paymentId'' n db3
      in then_res (get_payment db4 (cc_action_id cc) n False) (\<lambda>answer. Inr (answer, db4)))
      = Inr (answer, db')"
    unfolding record_payment_once_def new
    by (auto simp: then_res_Inr_iff invoice_state_Inr require_version_Inr settle_status_eq Let_def
        split: if_splits)
  then show ?thesis by (intro exI [of _ s] exI [of _ p] exI [of _ b]) (auto simp: Let_def then_res_Inr_iff)
qed

lemma payment_reverse_Inr:
  assumes "payment_reverse p n reason u at = Inr r"
  shows "wf_payment_reversal r" "pr_id r = n" "pr_payment_id r = pay_id p" "payment_active p"
    "pr_action_id r = pay_action_id p" "pr_invoice_id r = pay_invoice_id p"
proof -
  have "wf_payment_reversal r"
    using assms by (auto simp: payment_reverse_def split: if_splits dest: payment_reversal_init_wf)
  then show "wf_payment_reversal r" "pr_id r = n" "pr_payment_id r = pay_id p" "payment_active p"
    "pr_action_id r = pay_action_id p" "pr_invoice_id r = pay_invoice_id p"
    using assms by (auto simp: payment_reverse_def payment_reversal_init_def then_res_Inr_iff
        payment_active_def split: if_splits)
qed

lemma reverse_effect:
  assumes "reverse_payment_once n a cc rv db = Inr (answer, db')"
    and "fd_receipts db (cc_idempotency_key cc) = None"
  shows "\<exists>s p r b t. fd_invoices db (rv_invoice_id rv) = Some s \<and> ss_status s \<noteq> Cancelled
    \<and> find (\<lambda>p. pay_id p = rv_payment_id rv) (payments_for_invoice db (rv_invoice_id rv)) = Some p
    \<and> (rv_expected_version rv = None
       \<or> rv_expected_version rv = Some (settlement_version (payments_for_invoice db (rv_invoice_id rv))))
    \<and> payment_reverse p n (rv_reason rv) (cc_actor_user_id cc) (cc_occurred_at cc) = Inr r
    \<and> balance_of (ss_gross s)
        (map (set_reversal (rv_payment_id rv) r) (payments_for_invoice db (rv_invoice_id rv))) False = Inr b
    \<and> t = balance_invoice_status b (ss_status s = Sent \<or> ss_id s \<in> fd_mail_sent db)
    \<and> fd_payments db' = map (set_reversal (rv_payment_id rv) r) (fd_payments db)
    \<and> fd_invoices db' = (fd_invoices db)(ss_id s \<mapsto> s\<lparr>ss_status := t\<rparr>)
    \<and> fd_cancellations db' = fd_cancellations db \<and> fd_mail_sent db' = fd_mail_sent db
    \<and> fd_receipts db' = (fd_receipts db)(cc_idempotency_key cc \<mapsto>
        \<lparr>cr_command_type = ''reverse_invoice_payment_v1'', cr_request_hash = cc_request_hash cc,
         cr_result = Some (''reversalId'', n)\<rparr>)"
proof -
  have new: "existing_command db ''reverse_invoice_payment_v1'' cc ''reversalId'' = Inr None"
    using assms(2) by simp
  from assms(1) obtain s p r b where
    s: "fd_invoices db (rv_invoice_id rv) = Some s" "ss_status s \<noteq> Cancelled"
      "find (\<lambda>p. pay_id p = rv_payment_id rv) (payments_for_invoice db (rv_invoice_id rv)) = Some p"
    and rest: "rv_expected_version rv = None
       \<or> rv_expected_version rv = Some (settlement_version (payments_for_invoice db (rv_invoice_id rv)))"
      "payment_reverse p n (rv_reason rv) (cc_actor_user_id cc) (cc_occurred_at cc) = Inr r"
      "balance_of (ss_gross s)
        (map (set_reversal (rv_payment_id rv) r) (payments_for_invoice db (rv_invoice_id rv))) False = Inr b"
    and result: "then_res (balance_payload b (reversal_audit_payload s p r
        (balance_invoice_status b (ss_status s = Sent \<or> ss_id s \<in> fd_mail_sent db)))) (\<lambda>facts.
      let db3 = write_audit a cc ''invoice_payment_reversed'' ''payment_reversal'' n facts
            (db\<lparr>fd_payments := map (set_reversal (rv_payment_id rv) r) (fd_payments db),
                fd_invoices := (fd_invoices db)(ss_id s \<mapsto> s\<lparr>ss_status :=
                  balance_invoice_status b (ss_status s = Sent \<or> ss_id s \<in> fd_mail_sent db)\<rparr>)\<rparr>);
          db4 = complete_command ''reverse_invoice_payment_v1'' cc ''reversalId'' n db3
      in then_res (get_reversal db4 (cc_action_id cc) n False) (\<lambda>answer. Inr (answer, db4)))
      = Inr (answer, db')"
    unfolding reverse_payment_once_def new
    by (auto simp: then_res_Inr_iff invoice_state_Inr require_version_Inr settle_status_eq Let_def
        split: if_splits option.splits)
  then show ?thesis
    by (intro exI [of _ s] exI [of _ p] exI [of _ r] exI [of _ b]) (auto simp: Let_def then_res_Inr_iff)
qed

lemma cancel_effect:
  assumes "cancel_once n a cc i reason db = Inr (answer, db')"
    and "fd_receipts db (cc_idempotency_key cc) = None"
  shows "\<exists>s c. fd_invoices db i = Some s \<and> ss_status s \<noteq> Cancelled
    \<and> invoice_cancel_new n s reason (cc_actor_user_id cc) (cc_occurred_at cc) = Inr c
    \<and> fd_payments db' = fd_payments db
    \<and> fd_invoices db' = (fd_invoices db)(i \<mapsto> s\<lparr>ss_status := Cancelled\<rparr>)
    \<and> fd_cancellations db' = fd_cancellations db @ [c] \<and> fd_mail_sent db' = fd_mail_sent db
    \<and> fd_receipts db' = (fd_receipts db)(cc_idempotency_key cc \<mapsto>
        \<lparr>cr_command_type = ''cancel_invoice_v1'', cr_request_hash = cc_request_hash cc,
         cr_result = Some (''cancellationId'', n)\<rparr>)"
proof -
  have new: "existing_command db ''cancel_invoice_v1'' cc ''cancellationId'' = Inr None"
    using assms(2) by simp
  from assms(1) show ?thesis
    unfolding cancel_once_def new
    by (auto simp: then_res_Inr_iff invoice_state_Inr Let_def split: if_splits)
qed

lemma invoice_cancel_new_Inr:
  "invoice_cancel_new n s reason u at = Inr c \<Longrightarrow>
     wf_invoice_cancellation c \<and> ic_id c = n \<and> ic_invoice_id c = ss_id s
     \<and> ic_action_id c = ss_action_id s \<and> ic_original_status c = ss_status s"
  unfolding invoice_cancel_new_def
  by (auto simp: then_res_Inr_iff dest: invoice_cancellation_init_wf)
    (auto simp: invoice_cancellation_init_def then_res_Inr_iff split: if_splits)

end
