(* ===== verification/Invoice_Ledger.thy ===== *)
theory Invoice_Ledger
  imports Invoice_Settlement
begin

text \<open>
  The life of the finance rows: the histories of the transactions of
  \<^verbatim>\<open>adapters/postgres/invoice_settlements.py\<close> together with the issue of invoices and the confirmed mail
  deliveries, the invariant that ties the stored status to the payments, and what the commands promise
  to their callers: stale versions are refused, repeated requests are answered and not booked again.
\<close>

section \<open>Histories\<close>

text \<open>
  A request reaches its transaction with an amount that is a \<open>Money\<close>; \<open>uuid4()\<close> yields an identifier
  not yet used.  A request whose key is known is a replay and is a step of the same rules.  Steps that
  raise leave the rows as they are.
\<close>

inductive finance_step :: "tz \<Rightarrow> finance_db \<Rightarrow> finance_db \<Rightarrow> bool" for zone where
  issue: "fd_invoices db i = None \<Longrightarrow> ss_id s = i \<Longrightarrow> ss_status s = Issued \<Longrightarrow> wf_money (ss_gross s)
    \<Longrightarrow> finance_step zone db (db\<lparr>fd_invoices := (fd_invoices db)(i \<mapsto> s)\<rparr>)"
| record_payment: "wf_money (rq_amount rq) \<Longrightarrow> n \<notin> pay_id ` set (fd_payments db)
    \<Longrightarrow> record_payment_once zone n a cc rq db = Inr (p, db') \<Longrightarrow> finance_step zone db db'"
| reverse_payment: "reverse_payment_once n a cc rv db = Inr (r, db') \<Longrightarrow> finance_step zone db db'"
| cancel: "cancel_once n a cc i reason db = Inr (c, db') \<Longrightarrow> finance_step zone db db'"
| mail: "i \<in> dom (fd_invoices db) \<Longrightarrow> finance_step zone db (confirm_mail i db)"

inductive_cases finance_stepE: "finance_step zone db db'"

definition empty_finance :: finance_db where
  "empty_finance = \<lparr>fd_invoices = Map.empty, fd_payments = [], fd_cancellations = [],
     fd_mail_sent = {}, fd_receipts = Map.empty, fd_audit = []\<rparr>"

text \<open>The entries of one invoice, in the order they were booked.\<close>

definition booked :: "finance_db \<Rightarrow> uuid \<Rightarrow> payment_record list" where
  "booked db i = filter (\<lambda>p. pay_invoice_id p = i) (fd_payments db)"

lemma payments_for_invoice_booked: "payments_for_invoice db i = sort_key payment_key (booked db i)"
  by (simp add: payments_for_invoice_def booked_def)

lemma mset_payments: "mset (payments_for_invoice db i) = mset (booked db i)"
  by (simp add: payments_for_invoice_booked)

lemma set_payments: "set (payments_for_invoice db i) = set (booked db i)"
  by (simp add: payments_for_invoice_booked)

lemma paid_minor_payments: "paid_minor (payments_for_invoice db i) = paid_minor (booked db i)"
  by (rule paid_minor_mset) (rule mset_payments)

lemma settlement_version_mset: "mset ps = mset qs \<Longrightarrow> settlement_version ps = settlement_version qs"
  unfolding settlement_version_def by (metis mset_map sum_mset_sum_list)

lemma version_payments: "settlement_version (payments_for_invoice db i) = settlement_version (booked db i)"
  by (rule settlement_version_mset) (rule mset_payments)

lemma bookable_payments:
  "list_all (bookable cur) (payments_for_invoice db i) \<longleftrightarrow> list_all (bookable cur) (booked db i)"
  by (simp add: list_all_iff set_payments)

section \<open>A repeated key changes nothing\<close>

lemma existing_replays:
  "fd_receipts db (cc_idempotency_key cc) = Some rc \<Longrightarrow> existing_command db t cc k = Inr o' \<Longrightarrow> \<exists>u. o' = Some u"
  by (auto simp: existing_command_def split: if_splits option.splits)

lemma replay_keeps:
  assumes "fd_receipts db (cc_idempotency_key cc) = Some rc"
  shows "record_payment_once zone n a cc rq db = Inr (p, db') \<Longrightarrow> db' = db"
    and "reverse_payment_once n a cc rv db = Inr (r, db') \<Longrightarrow> db' = db"
    and "cancel_once n a cc i reason db = Inr (c, db') \<Longrightarrow> db' = db"
  unfolding record_payment_once_def reverse_payment_once_def cancel_once_def then_res_Inr_iff
  by (use assms in \<open>auto dest!: existing_replays simp: then_res_Inr_iff\<close>)

section \<open>The invariant\<close>

definition invoice_row_ok :: "finance_db \<Rightarrow> uuid \<Rightarrow> settlement_state \<Rightarrow> bool" where
  "invoice_row_ok db i s \<longleftrightarrow> ss_id s = i \<and> wf_money (ss_gross s)
     \<and> list_all (bookable (mo_currency (ss_gross s))) (booked db i)
     \<and> (ss_status s = Cancelled \<longleftrightarrow> (\<exists>c \<in> set (fd_cancellations db). ic_invoice_id c = i))
     \<and> (ss_status s = Issued \<longrightarrow> i \<notin> fd_mail_sent db) \<and> (ss_status s = Sent \<longrightarrow> i \<in> fd_mail_sent db)
     \<and> (ss_status s \<noteq> Cancelled \<longrightarrow> (ss_status s = Paid \<longleftrightarrow>
        (0 < mo_amount (ss_gross s) \<or> booked db i \<noteq> []) \<and> mo_amount (ss_gross s) \<le> paid_minor (booked db i)))"

definition finance_ok :: "finance_db \<Rightarrow> bool" where
  "finance_ok db \<longleftrightarrow> distinct (map pay_id (fd_payments db))
     \<and> pay_invoice_id ` set (fd_payments db) \<subseteq> dom (fd_invoices db)
     \<and> ic_invoice_id ` set (fd_cancellations db) \<subseteq> dom (fd_invoices db)
     \<and> fd_mail_sent db \<subseteq> dom (fd_invoices db)
     \<and> (\<forall>i s. fd_invoices db i = Some s \<longrightarrow> invoice_row_ok db i s)"

lemma finance_okD:
  "finance_ok db \<Longrightarrow> fd_invoices db i = Some s \<Longrightarrow> invoice_row_ok db i s"
  "finance_ok db \<Longrightarrow> fd_invoices db i = Some s \<Longrightarrow> ss_id s = i"
  by (auto simp: finance_ok_def invoice_row_ok_def)

lemma finance_ok_empty: "finance_ok empty_finance"
  by (simp add: finance_ok_def empty_finance_def)

lemma paid_minor_append [simp]:
  "paid_minor (ps @ [p]) = paid_minor ps + (if payment_active p then mo_amount (pay_amount p) else 0)"
  by (simp add: paid_minor_def)

text \<open>A command that settles invoice \<open>i\<close>: only its entries and its status change.\<close>

lemma settled_ok:
  assumes ok: "finance_ok db" and row: "fd_invoices db i = Some s" and live: "ss_status s \<noteq> Cancelled"
    and inv: "fd_invoices db' = (fd_invoices db)(i \<mapsto> s\<lparr>ss_status := t\<rparr>)"
    and keep: "fd_cancellations db' = fd_cancellations db" "fd_mail_sent db' = fd_mail_sent db"
    and pays: "distinct (map pay_id (fd_payments db'))"
      "pay_invoice_id ` set (fd_payments db') \<subseteq> dom (fd_invoices db')"
      "\<And>j. j \<noteq> i \<Longrightarrow> booked db' j = booked db j" "booked db' i \<noteq> []"
      "list_all (bookable (mo_currency (ss_gross s))) (booked db' i)"
    and b: "ib_gross b = ss_gross s" "mo_amount (ib_paid b) = paid_minor (booked db' i)" "\<not> ib_cancelled b"
    and t: "t = balance_invoice_status b (ss_status s = Sent \<or> ss_id s \<in> fd_mail_sent db)"
  shows "finance_ok db'"
proof -
  have old: "invoice_row_ok db i s" "ss_id s = i" using ok row by (auto dest: finance_okD)
  have "t \<noteq> Cancelled" "t = Paid \<longleftrightarrow> mo_amount (ss_gross s) \<le> paid_minor (booked db' i)"
    "t = Issued \<Longrightarrow> i \<notin> fd_mail_sent db" "t = Sent \<Longrightarrow> i \<in> fd_mail_sent db"
    using old b by (auto simp: t balance_invoice_status_def invoice_row_ok_def split: if_splits)
  then have "invoice_row_ok db' i (s\<lparr>ss_status := t\<rparr>)"
    using old live pays(4,5) keep by (auto simp: invoice_row_ok_def)
  moreover have "invoice_row_ok db' j u" if "fd_invoices db j = Some u" "j \<noteq> i" for j u
    using finance_okD(1) [OF ok that(1)] pays(3) [OF that(2)] keep by (simp add: invoice_row_ok_def)
  ultimately show ?thesis
    using ok row inv keep pays(1,2) by (auto simp: finance_ok_def)
qed
section \<open>Every step keeps it\<close>

lemma booked_append:
  "fd_payments db' = fd_payments db @ [p] \<Longrightarrow>
   booked db' i = booked db i @ (if pay_invoice_id p = i then [p] else [])"
  by (simp add: booked_def)

lemma set_reversal_simps [simp]:
  "pay_id (set_reversal n r p) = pay_id p"
  "pay_invoice_id (set_reversal n r p) = pay_invoice_id p"
  "pay_amount (set_reversal n r p) = pay_amount p"
  "pay_action_id (set_reversal n r p) = pay_action_id p"
  "(set_reversal n r p)\<lparr>pay_reversal := None\<rparr> = p\<lparr>pay_reversal := None\<rparr>"
  by (simp_all add: set_reversal_def)

lemma booked_reversal:
  "fd_payments db' = map (set_reversal n r) (fd_payments db) \<Longrightarrow>
   booked db' i = map (set_reversal n r) (booked db i)"
  by (simp add: booked_def filter_map comp_def)

lemma set_reversal_other: "n \<notin> pay_id ` set ps \<Longrightarrow> map (set_reversal n r) ps = ps"
  by (rule map_idI) (auto simp: set_reversal_def)

lemma bookable_reversal:
  "bookable cur p \<Longrightarrow> pr_payment_id r = n \<Longrightarrow> bookable cur (set_reversal n r p)"
  by (auto simp: bookable_def wf_payment_record_def set_reversal_def)

lemma payment_of_one_invoice:
  assumes "finance_ok db" "p \<in> set (booked db i)" "j \<noteq> i"
  shows "pay_id p \<notin> pay_id ` set (booked db j)"
proof
  assume "pay_id p \<in> pay_id ` set (booked db j)"
  then obtain q where q: "q \<in> set (fd_payments db)" "pay_invoice_id q = j" "pay_id p = pay_id q"
    by (auto simp: booked_def)
  moreover have "p \<in> set (fd_payments db)" "pay_invoice_id p = i" using assms(2) by (auto simp: booked_def)
  ultimately show False
    using assms(1,3) by (auto simp: finance_ok_def distinct_map dest: inj_onD)
qed

lemma record_ok:
  assumes ok: "finance_ok db" and step: "record_payment_once zone n a cc rq db = Inr (p', db')"
    and fresh: "n \<notin> pay_id ` set (fd_payments db)"
    and new: "fd_receipts db (cc_idempotency_key cc) = None"
  shows "finance_ok db'"
proof -
  let ?i = "rq_invoice_id rq"
  obtain s p b t where s: "fd_invoices db ?i = Some s"
    and p: "payment_record_new zone n s (rq_amount rq) (rq_received_on rq) (rq_reference rq)
        (cc_actor_user_id cc) (cc_occurred_at cc) (rq_note rq) = Inr p"
    and b: "balance_of (ss_gross s) (payments_for_invoice db ?i @ [p]) False = Inr b"
    and t: "t = balance_invoice_status b (ss_status s = Sent \<or> ss_id s \<in> fd_mail_sent db)"
    and db': "fd_payments db' = fd_payments db @ [p]" "fd_invoices db' = (fd_invoices db)(ss_id s \<mapsto> s\<lparr>ss_status := t\<rparr>)"
      "fd_cancellations db' = fd_cancellations db" "fd_mail_sent db' = fd_mail_sent db"
    using record_effect [OF step new] by blast
  have row: "invoice_row_ok db ?i s" and id: "ss_id s = ?i" using finance_okD [OF ok s] by auto
  have book: "list_all (bookable (mo_currency (ss_gross s))) (booked db ?i @ [p])"
    using row payment_record_new_Inr [OF p] by (auto simp: invoice_row_ok_def bookable_def)
  then have "list_all (bookable (mo_currency (ss_gross s))) (payments_for_invoice db ?i @ [p])"
    by (simp add: bookable_payments)
  then have b': "b = \<lparr>ib_gross = ss_gross s, ib_paid = \<lparr>mo_amount = paid_minor (booked db ?i @ [p]),
      mo_currency = mo_currency (ss_gross s)\<rparr>, ib_cancelled = False\<rparr>"
    using b row balance_of_eq by (simp add: invoice_row_ok_def paid_minor_payments)
  note pr = payment_record_new_Inr [OF p]
  show ?thesis
  proof (rule settled_ok [OF ok s pr(8) _ db'(3,4)])
    show "fd_invoices db' = (fd_invoices db)(?i \<mapsto> s\<lparr>ss_status := t\<rparr>)" using db'(2) id by simp
    show "distinct (map pay_id (fd_payments db'))"
      using ok fresh pr(2) db'(1) by (auto simp: finance_ok_def)
    show "pay_invoice_id ` set (fd_payments db') \<subseteq> dom (fd_invoices db')"
      using ok pr(3) db'(1,2) by (auto simp: finance_ok_def)
    show "j \<noteq> ?i \<Longrightarrow> booked db' j = booked db j" for j using booked_append [OF db'(1)] pr(3) id by auto
    show "booked db' ?i \<noteq> []" "list_all (bookable (mo_currency (ss_gross s))) (booked db' ?i)"
      using booked_append [OF db'(1)] pr(3) id book by auto
    show "mo_amount (ib_paid b) = paid_minor (booked db' ?i)"
      using booked_append [OF db'(1)] pr(3) id b' by auto
  qed (use b' t in simp_all)
qed

lemma reverse_ok:
  assumes ok: "finance_ok db" and step: "reverse_payment_once n a cc rv db = Inr (r', db')"
    and new: "fd_receipts db (cc_idempotency_key cc) = None"
  shows "finance_ok db'"
proof -
  let ?i = "rv_invoice_id rv" and ?m = "set_reversal (rv_payment_id rv)"
  obtain s p r b t where s: "fd_invoices db ?i = Some s" "ss_status s \<noteq> Cancelled"
    and p: "find (\<lambda>p. pay_id p = rv_payment_id rv) (payments_for_invoice db ?i) = Some p"
    and r: "payment_reverse p n (rv_reason rv) (cc_actor_user_id cc) (cc_occurred_at cc) = Inr r"
    and b: "balance_of (ss_gross s) (map (?m r) (payments_for_invoice db ?i)) False = Inr b"
    and t: "t = balance_invoice_status b (ss_status s = Sent \<or> ss_id s \<in> fd_mail_sent db)"
    and db': "fd_payments db' = map (?m r) (fd_payments db)" "fd_invoices db' = (fd_invoices db)(ss_id s \<mapsto> s\<lparr>ss_status := t\<rparr>)"
      "fd_cancellations db' = fd_cancellations db" "fd_mail_sent db' = fd_mail_sent db"
    using reverse_effect [OF step new] by blast
  have row: "invoice_row_ok db ?i s" and id: "ss_id s = ?i" using finance_okD [OF ok s(1)] by auto
  have pin: "p \<in> set (booked db ?i)" "pay_id p = rv_payment_id rv"
    using p set_payments by (auto simp: find_Some_iff dest: nth_mem)
  have rid: "pr_payment_id r = rv_payment_id rv" using payment_reverse_Inr [OF r] pin by simp
  have book: "list_all (bookable (mo_currency (ss_gross s))) (map (?m r) (booked db ?i))"
    using row rid by (auto simp: invoice_row_ok_def list_all_iff bookable_reversal)
  have mm: "mset (map (?m r) (payments_for_invoice db ?i)) = mset (map (?m r) (booked db ?i))"
    by (simp add: mset_payments)
  have "list_all (bookable (mo_currency (ss_gross s))) (map (?m r) (payments_for_invoice db ?i))"
    using book by (simp add: list_all_iff set_payments)
  then have b': "b = \<lparr>ib_gross = ss_gross s, ib_paid = \<lparr>mo_amount = paid_minor (map (?m r) (booked db ?i)),
      mo_currency = mo_currency (ss_gross s)\<rparr>, ib_cancelled = False\<rparr>"
    using b row balance_of_eq paid_minor_mset [OF mm] by (simp add: invoice_row_ok_def)
  show ?thesis
  proof (rule settled_ok [OF ok s(1,2) _ db'(3,4)])
    show "fd_invoices db' = (fd_invoices db)(?i \<mapsto> s\<lparr>ss_status := t\<rparr>)" using db'(2) id by simp
    show "distinct (map pay_id (fd_payments db'))"
      using ok db'(1) by (simp add: finance_ok_def comp_def)
    show "pay_invoice_id ` set (fd_payments db') \<subseteq> dom (fd_invoices db')"
      using ok db'(1,2) by (auto simp: finance_ok_def)
    show "j \<noteq> ?i \<Longrightarrow> booked db' j = booked db j" for j
      using payment_of_one_invoice [OF ok pin(1)] pin(2)
      by (simp add: booked_reversal [OF db'(1)] set_reversal_other)
    show "booked db' ?i \<noteq> []" using pin(1) by (auto simp: booked_reversal [OF db'(1)])
    show "list_all (bookable (mo_currency (ss_gross s))) (booked db' ?i)"
      using book by (simp add: booked_reversal [OF db'(1)])
    show "mo_amount (ib_paid b) = paid_minor (booked db' ?i)"
      using b' by (simp add: booked_reversal [OF db'(1)])
  qed (use b' t in simp_all)
qed

lemma cancel_ok:
  assumes ok: "finance_ok db" and step: "cancel_once n a cc i reason db = Inr (c', db')"
    and new: "fd_receipts db (cc_idempotency_key cc) = None"
  shows "finance_ok db'"
proof -
  obtain s c where s: "fd_invoices db i = Some s" "ss_status s \<noteq> Cancelled"
    and c: "invoice_cancel_new n s reason (cc_actor_user_id cc) (cc_occurred_at cc) = Inr c"
    and db': "fd_payments db' = fd_payments db" "fd_invoices db' = (fd_invoices db)(i \<mapsto> s\<lparr>ss_status := Cancelled\<rparr>)"
      "fd_cancellations db' = fd_cancellations db @ [c]" "fd_mail_sent db' = fd_mail_sent db"
    using cancel_effect [OF step new] by blast
  have ci: "ic_invoice_id c = i" using invoice_cancel_new_Inr [OF c] finance_okD(2) [OF ok s(1)] by simp
  have "booked db' j = booked db j" for j using db'(1) by (simp add: booked_def)
  then have "invoice_row_ok db' j u" if "fd_invoices db' j = Some u" for j u
    using that ok s ci db' finance_okD(1) [OF ok, of j] by (auto simp: invoice_row_ok_def split: if_splits)
  then show ?thesis using ok s ci db' by (auto simp: finance_ok_def)
qed

lemma confirm_mail_ok: "finance_ok db \<Longrightarrow> i \<in> dom (fd_invoices db) \<Longrightarrow> finance_ok (confirm_mail i db)"
proof -
  assume ok: "finance_ok db" and i: "i \<in> dom (fd_invoices db)"
  have b: "booked (confirm_mail i db) j = booked db j" for j by (simp add: booked_def confirm_mail_def)
  have "invoice_row_ok (confirm_mail i db) j u" if "fd_invoices (confirm_mail i db) j = Some u" for j u
    using that i finance_okD(1) [OF ok, of j]
    by (auto simp: invoice_row_ok_def b) (auto simp: confirm_mail_def split: if_splits)
  then show ?thesis using ok i by (auto simp: finance_ok_def confirm_mail_def)
qed

lemma issue_ok:
  assumes ok: "finance_ok db" and "fd_invoices db i = None" "ss_id s = i" "ss_status s = Issued" "wf_money (ss_gross s)"
  shows "finance_ok (db\<lparr>fd_invoices := (fd_invoices db)(i \<mapsto> s)\<rparr>)"
proof -
  let ?db = "db\<lparr>fd_invoices := (fd_invoices db)(i \<mapsto> s)\<rparr>"
  have none: "booked db i = []" "i \<notin> fd_mail_sent db" "\<forall>c \<in> set (fd_cancellations db). ic_invoice_id c \<noteq> i"
    using ok assms(2) by (auto simp: finance_ok_def booked_def filter_empty_conv)
  have b: "booked ?db j = booked db j" for j by (simp add: booked_def)
  have "invoice_row_ok ?db i s"
    using none assms by (auto simp: invoice_row_ok_def b paid_minor_def)
  moreover have "invoice_row_ok ?db j u" if "fd_invoices db j = Some u" for j u
    using finance_okD(1) [OF ok that] by (simp add: invoice_row_ok_def b)
  ultimately show ?thesis using ok by (auto simp: finance_ok_def)
qed

lemma finance_step_ok: "finance_step zone db db' \<Longrightarrow> finance_ok db \<Longrightarrow> finance_ok db'"
proof (induction rule: finance_step.induct)
  case (record_payment rq n db a cc p db')
  then show ?case by (cases "fd_receipts db (cc_idempotency_key cc)") (auto dest: replay_keeps record_ok)
next
  case (reverse_payment n a cc rv db r db')
  then show ?case by (cases "fd_receipts db (cc_idempotency_key cc)") (auto dest: replay_keeps reverse_ok)
next
  case (cancel n a cc i reason db c db')
  then show ?case by (cases "fd_receipts db (cc_idempotency_key cc)") (auto dest: replay_keeps cancel_ok)
qed (auto intro: issue_ok confirm_mail_ok)

lemma finance_steps_ok: "(finance_step zone)\<^sup>*\<^sup>* db db' \<Longrightarrow> finance_ok db \<Longrightarrow> finance_ok db'"
  by (induction rule: rtranclp_induct) (auto intro: finance_step_ok)
section \<open>What a step leaves alone\<close>

text \<open>Entries, answers and cancelled invoices outlive every step; what changes the entries of an
  invoice raises its version.\<close>

definition finance_extends :: "finance_db \<Rightarrow> finance_db \<Rightarrow> bool" where
  "finance_extends db db' \<longleftrightarrow>
     (\<forall>i. booked db' i = booked db i
        \<or> settlement_version (booked db i) < settlement_version (booked db' i))
     \<and> (\<forall>p \<in> set (fd_payments db). \<exists>q \<in> set (fd_payments db').
          q\<lparr>pay_reversal := None\<rparr> = p\<lparr>pay_reversal := None\<rparr>)
     \<and> fd_receipts db \<subseteq>\<^sub>m fd_receipts db'
     \<and> (\<forall>i s. fd_invoices db i = Some s \<and> ss_status s = Cancelled
          \<longrightarrow> fd_invoices db' i = Some s \<and> booked db' i = booked db i)"

lemma finance_extends_refl: "finance_extends db db"
  by (auto simp: finance_extends_def)

lemma finance_extends_trans:
  assumes "finance_extends a b" "finance_extends b c"
  shows "finance_extends a c"
proof -
  have "booked c i = booked a i \<or> settlement_version (booked a i) < settlement_version (booked c i)" for i
    using assms unfolding finance_extends_def by (metis order.strict_trans)
  moreover have "\<exists>q \<in> set (fd_payments c). q\<lparr>pay_reversal := None\<rparr> = p\<lparr>pay_reversal := None\<rparr>"
    if "p \<in> set (fd_payments a)" for p
    using assms that unfolding finance_extends_def by metis
  moreover have "fd_receipts a \<subseteq>\<^sub>m fd_receipts c"
    using assms unfolding finance_extends_def by (blast intro: map_le_trans)
  moreover have "\<forall>i s. fd_invoices a i = Some s \<and> ss_status s = Cancelled
      \<longrightarrow> fd_invoices c i = Some s \<and> booked c i = booked a i"
    using assms unfolding finance_extends_def by metis
  ultimately show ?thesis unfolding finance_extends_def by blast
qed

lemma settlement_version_append:
  "settlement_version (ps @ [p]) = settlement_version ps + (if payment_active p then 1 else 2)"
  by (simp add: settlement_version_def)

lemma entry_Cons:
  "settlement_version (p # ps) = (if payment_active p then 1 else 2) + settlement_version ps"
  "paid_minor (p # ps) = (if payment_active p then mo_amount (pay_amount p) else 0) + paid_minor ps"
  by (simp_all add: settlement_version_def paid_minor_def)

lemma reversed_not_active [simp]: "\<not> payment_active (set_reversal (pay_id p) r p)"
  by (simp add: set_reversal_def payment_active_def)

text \<open>Reversing an active entry raises the version by one.\<close>

lemma settlement_version_reversal:
  "distinct (map pay_id ps) \<Longrightarrow> p \<in> set ps \<Longrightarrow> payment_active p \<Longrightarrow>
   settlement_version (map (set_reversal (pay_id p) r) ps) = settlement_version ps + 1"
proof (induction ps)
  case (Cons q ps)
  show ?case
  proof (cases "q = p")
    case True
    with Cons.prems have "map (set_reversal (pay_id p) r) ps = ps"
      by (intro set_reversal_other) auto
    then show ?thesis
      using True Cons.prems by (simp add: entry_Cons)
  next
    case False
    with Cons.prems have "set_reversal (pay_id p) r q = q" by (auto simp: set_reversal_def)
    with False Cons show ?thesis by (simp add: entry_Cons)
  qed
qed simp

lemma paid_minor_reversal:
  "distinct (map pay_id ps) \<Longrightarrow> p \<in> set ps \<Longrightarrow> payment_active p \<Longrightarrow>
   paid_minor (map (set_reversal (pay_id p) r) ps) = paid_minor ps - mo_amount (pay_amount p)"
proof (induction ps)
  case (Cons q ps)
  show ?case
  proof (cases "q = p")
    case True
    with Cons.prems have "map (set_reversal (pay_id p) r) ps = ps"
      by (intro set_reversal_other) auto
    then show ?thesis
      using True Cons.prems by (simp add: entry_Cons)
  next
    case False
    with Cons.prems have "set_reversal (pay_id p) r q = q" by (auto simp: set_reversal_def)
    with False Cons show ?thesis by (simp add: entry_Cons)
  qed
qed simp

lemma distinct_booked: "finance_ok db \<Longrightarrow> distinct (map pay_id (booked db i))"
  by (simp add: finance_ok_def booked_def distinct_map_filter)

lemma record_extends:
  assumes ok: "finance_ok db" and step: "record_payment_once zone n a cc rq db = Inr (p', db')"
    and new: "fd_receipts db (cc_idempotency_key cc) = None"
  shows "finance_extends db db'"
    and "settlement_version (booked db' (rq_invoice_id rq)) = settlement_version (booked db (rq_invoice_id rq)) + 1"
proof -
  obtain s p t where s: "fd_invoices db (rq_invoice_id rq) = Some s"
    and p: "payment_record_new zone n s (rq_amount rq) (rq_received_on rq) (rq_reference rq)
        (cc_actor_user_id cc) (cc_occurred_at cc) (rq_note rq) = Inr p"
    and db': "fd_payments db' = fd_payments db @ [p]" "fd_invoices db' = (fd_invoices db)(ss_id s \<mapsto> s\<lparr>ss_status := t\<rparr>)"
      "\<exists>rc. fd_receipts db' = (fd_receipts db)(cc_idempotency_key cc \<mapsto> rc)"
    using record_effect [OF step new] by blast
  note pr = payment_record_new_Inr [OF p] and id = finance_okD(2) [OF ok s]
  have b: "booked db' i = booked db i @ (if rq_invoice_id rq = i then [p] else [])" for i
    using booked_append [OF db'(1)] pr(3) id by simp
  show "settlement_version (booked db' (rq_invoice_id rq)) = settlement_version (booked db (rq_invoice_id rq)) + 1"
    using pr(6) by (simp add: b settlement_version_append payment_active_def)
  show "finance_extends db db'"
    unfolding finance_extends_def
  proof (intro conjI allI ballI impI)
    show "fd_receipts db \<subseteq>\<^sub>m fd_receipts db'" using db'(3) new by (auto simp: map_le_def)
  qed (use s pr(8) id db'(1,2) in \<open>auto simp: b settlement_version_append\<close>)
qed

lemma reverse_extends:
  assumes ok: "finance_ok db" and step: "reverse_payment_once n a cc rv db = Inr (r', db')"
    and new: "fd_receipts db (cc_idempotency_key cc) = None"
  shows "finance_extends db db'"
    and "settlement_version (booked db' (rv_invoice_id rv)) = settlement_version (booked db (rv_invoice_id rv)) + 1"
    and "\<exists>p \<in> set (booked db (rv_invoice_id rv)). pay_id p = rv_payment_id rv \<and> payment_active p
       \<and> paid_minor (booked db' (rv_invoice_id rv))
           = paid_minor (booked db (rv_invoice_id rv)) - mo_amount (pay_amount p)"
proof -
  let ?i = "rv_invoice_id rv"
  obtain s p r t where s: "fd_invoices db ?i = Some s" "ss_status s \<noteq> Cancelled"
    and p: "find (\<lambda>p. pay_id p = rv_payment_id rv) (payments_for_invoice db ?i) = Some p"
    and r: "payment_reverse p n (rv_reason rv) (cc_actor_user_id cc) (cc_occurred_at cc) = Inr r"
    and db': "fd_payments db' = map (set_reversal (rv_payment_id rv) r) (fd_payments db)"
      "fd_invoices db' = (fd_invoices db)(ss_id s \<mapsto> s\<lparr>ss_status := t\<rparr>)"
      "\<exists>rc. fd_receipts db' = (fd_receipts db)(cc_idempotency_key cc \<mapsto> rc)"
    using reverse_effect [OF step new] by blast
  have pin: "p \<in> set (booked db ?i)" "pay_id p = rv_payment_id rv" "payment_active p"
    using p set_payments payment_reverse_Inr(4) [OF r] by (auto simp: find_Some_iff dest: nth_mem)
  note id = finance_okD(2) [OF ok s(1)]
  have other: "booked db' i = booked db i" if "i \<noteq> ?i" for i
    using payment_of_one_invoice [OF ok pin(1) that] pin(2)
    by (simp add: booked_reversal [OF db'(1)] set_reversal_other)
  show v: "settlement_version (booked db' ?i) = settlement_version (booked db ?i) + 1"
    using settlement_version_reversal [OF distinct_booked [OF ok] pin(1,3)] pin(2)
    by (simp add: booked_reversal [OF db'(1)])
  show "\<exists>p \<in> set (booked db ?i). pay_id p = rv_payment_id rv \<and> payment_active p
       \<and> paid_minor (booked db' ?i) = paid_minor (booked db ?i) - mo_amount (pay_amount p)"
    using paid_minor_reversal [OF distinct_booked [OF ok] pin(1,3)] pin
    by (intro bexI [OF _ pin(1)]) (simp add: booked_reversal [OF db'(1)])
  have "booked db' i = booked db i \<or> settlement_version (booked db i) < settlement_version (booked db' i)" for i
    using other [of i] v by (cases "i = ?i") auto
  moreover have "\<exists>q \<in> set (fd_payments db'). q\<lparr>pay_reversal := None\<rparr> = p\<lparr>pay_reversal := None\<rparr>"
    if "p \<in> set (fd_payments db)" for p
    using that db'(1) set_reversal_simps(5) by fastforce
  moreover have "fd_receipts db \<subseteq>\<^sub>m fd_receipts db'" using db'(3) new by (auto simp: map_le_def)
  moreover have "fd_invoices db' i = Some u \<and> booked db' i = booked db i"
    if "fd_invoices db i = Some u \<and> ss_status u = Cancelled" for i u
    using that s db'(2) id other [of i] by auto
  ultimately show "finance_extends db db'" unfolding finance_extends_def by blast
qed

lemma cancel_extends:
  assumes ok: "finance_ok db" and step: "cancel_once n a cc i reason db = Inr (c', db')"
    and new: "fd_receipts db (cc_idempotency_key cc) = None"
  shows "finance_extends db db'"
proof -
  obtain s where s: "fd_invoices db i = Some s" "ss_status s \<noteq> Cancelled"
    and db': "fd_payments db' = fd_payments db" "fd_invoices db' = (fd_invoices db)(i \<mapsto> s\<lparr>ss_status := Cancelled\<rparr>)"
      "\<exists>rc. fd_receipts db' = (fd_receipts db)(cc_idempotency_key cc \<mapsto> rc)"
    using cancel_effect [OF step new] by blast
  have "fd_receipts db \<subseteq>\<^sub>m fd_receipts db'" using db'(3) new by (auto simp: map_le_def)
  then show ?thesis using s db' by (auto simp: finance_extends_def booked_def)
qed

lemma finance_step_extends: "finance_step zone db db' \<Longrightarrow> finance_ok db \<Longrightarrow> finance_extends db db'"
proof (induction rule: finance_step.induct)
  case (record_payment rq n db a cc p db')
  then show ?case
    by (cases "fd_receipts db (cc_idempotency_key cc)")
      (auto dest: replay_keeps record_extends(1) intro: finance_extends_refl)
next
  case (reverse_payment n a cc rv db r db')
  then show ?case
    by (cases "fd_receipts db (cc_idempotency_key cc)")
      (auto dest: replay_keeps reverse_extends(1) intro: finance_extends_refl)
next
  case (cancel n a cc i reason db c db')
  then show ?case
    by (cases "fd_receipts db (cc_idempotency_key cc)")
      (auto dest: replay_keeps cancel_extends intro: finance_extends_refl)
qed (auto simp: finance_extends_def booked_def confirm_mail_def)

lemma finance_steps_extend:
  "(finance_step zone)\<^sup>*\<^sup>* db db' \<Longrightarrow> finance_ok db \<Longrightarrow> finance_extends db db'"
proof (induction rule: rtranclp_induct)
  case (step b c)
  then show ?case
    by (meson finance_extends_trans finance_step_extends finance_steps_ok)
qed (simp add: finance_extends_refl)
section \<open>Facts about the commands\<close>

lemma status_from_payments:
  assumes "invoice_row_ok db i s" "ss_status s \<noteq> Cancelled" "0 < mo_amount (ss_gross s) \<or> booked db i \<noteq> []"
  shows "ss_status s = (if mo_amount (ss_gross s) \<le> paid_minor (booked db i) then Paid
    else if i \<in> fd_mail_sent db then Sent else Issued)"
  using assms by (cases "ss_status s") (auto simp: invoice_row_ok_def)

lemma get_payment_known:
  assumes "finance_ok db" "p \<in> set (fd_payments db)"
  shows "get_payment db (pay_action_id p) (pay_id p) b = Inr (p\<lparr>pay_replayed := b\<rparr>)"
proof -
  obtain q where q: "find (\<lambda>q. pay_id q = pay_id p \<and> pay_action_id q = pay_action_id p) (fd_payments db) = Some q"
    using assms(2) by (metis (mono_tags, lifting) find_None_iff not_None_eq)
  then have "pay_id q = pay_id p" "q \<in> set (fd_payments db)" by (auto simp: find_Some_iff dest: nth_mem)
  then have "q = p" using assms by (auto simp: finance_ok_def distinct_map dest: inj_onD)
  with q show ?thesis by (simp add: get_payment_def)
qed

lemma record_answer:
  assumes "record_payment_once zone n a cc rq db = Inr (answer, db')"
    and "fd_receipts db (cc_idempotency_key cc) = None"
  shows "get_payment db' (cc_action_id cc) n False = Inr answer"
proof -
  have new: "existing_command db ''record_invoice_payment_v1'' cc ''paymentId'' = Inr None"
    using assms(2) by simp
  from assms(1) show ?thesis
    unfolding record_payment_once_def new
    by (auto simp: then_res_Inr_iff Let_def case_prod_beta split: if_splits)
qed

lemma get_payment_Inr:
  "get_payment db a n b = Inr p \<Longrightarrow> \<exists>q \<in> set (fd_payments db). pay_id q = n \<and> pay_action_id q = a
     \<and> p = q\<lparr>pay_replayed := b\<rparr>"
  by (auto simp: get_payment_def find_Some_iff split: option.splits intro!: bexI [OF _ nth_mem])

lemma refused_stale:
  assumes "fd_receipts db (cc_idempotency_key cc) = None" "fd_invoices db (rq_invoice_id rq) = Some s"
    "ss_action_id s = cc_action_id cc" "aware (ss_issued_at s)" "ss_status s \<noteq> Cancelled"
    "rq_expected_version rq = Some v" "v \<noteq> settlement_version (payments_for_invoice db (rq_invoice_id rq))"
  shows "record_payment_once zone n a cc rq db = Inl (App Conflict ''invoice_settlement_stale'')"
proof -
  have "existing_command db ''record_invoice_payment_v1'' cc ''paymentId'' = Inr None"
    using assms(1) by simp
  moreover have "invoice_state db (cc_action_id cc) (rq_invoice_id rq) = Inr s"
    using assms by (simp add: invoice_state_Inr)
  moreover have "require_version (payments_for_invoice db (rq_invoice_id rq)) (rq_expected_version rq)
      = Inl (App Conflict ''invoice_settlement_stale'')" using assms(6,7) by (simp add: require_version_def)
  ultimately show ?thesis using assms(5) by (simp add: record_payment_once_def del: existing_command_new)
qed

lemma finance_extends_receipt:
  "finance_extends db db' \<Longrightarrow> fd_receipts db k = Some rc \<Longrightarrow> fd_receipts db' k = Some rc"
  by (auto simp: finance_extends_def map_le_def dest!: bspec [of _ _ k])

section \<open>Properties\<close>

text \<open>
  C1: after every history the stored status of an invoice is the one its ledger gives: it is cancelled
  exactly if a cancellation is recorded; otherwise, as soon as there is something to pay or an entry was
  booked, it is the status computed from the balance of its entries and the confirmed mail.  An invoice of
  zero without an entry is not stored as paid, as its balance would have it, but as sent or issued.  The
  balance can always be computed, and its paid amount is the sum of the entries not reversed.
\<close>

theorem ledger_status:
  assumes "(finance_step zone)\<^sup>*\<^sup>* empty_finance db" "fd_invoices db i = Some s"
  shows "\<exists>b. balance_of (ss_gross s) (payments_for_invoice db i) (ss_status s = Cancelled) = Inr b
    \<and> mo_amount (ib_paid b) = paid_minor (payments_for_invoice db i)
    \<and> (ss_status s = Cancelled \<longleftrightarrow> (\<exists>c \<in> set (fd_cancellations db). ic_invoice_id c = i))
    \<and> ss_status s = (if 0 < mo_amount (ss_gross s) \<or> payments_for_invoice db i \<noteq> []
        then balance_invoice_status b (i \<in> fd_mail_sent db)
        else if \<exists>c \<in> set (fd_cancellations db). ic_invoice_id c = i then Cancelled
        else if i \<in> fd_mail_sent db then Sent else Issued)"
proof -
  have ok: "invoice_row_ok db i s"
    using finance_okD(1) [OF finance_steps_ok [OF assms(1) finance_ok_empty] assms(2)] .
  have ne: "payments_for_invoice db i \<noteq> [] \<longleftrightarrow> booked db i \<noteq> []"
    by (metis mset_payments mset_zero_iff)
  have "balance_of (ss_gross s) (payments_for_invoice db i) (ss_status s = Cancelled) =
      Inr \<lparr>ib_gross = ss_gross s, ib_paid = \<lparr>mo_amount = paid_minor (booked db i),
        mo_currency = mo_currency (ss_gross s)\<rparr>, ib_cancelled = (ss_status s = Cancelled)\<rparr>"
    using ok balance_of_eq [of "ss_gross s" "payments_for_invoice db i"]
    by (simp add: invoice_row_ok_def bookable_payments paid_minor_payments)
  moreover have "ss_status s = Cancelled \<longleftrightarrow> (\<exists>c \<in> set (fd_cancellations db). ic_invoice_id c = i)"
    using ok by (simp add: invoice_row_ok_def)
  moreover have "ss_status s = balance_invoice_status \<lparr>ib_gross = ss_gross s, ib_paid =
        \<lparr>mo_amount = paid_minor (booked db i), mo_currency = mo_currency (ss_gross s)\<rparr>,
        ib_cancelled = (ss_status s = Cancelled)\<rparr> (i \<in> fd_mail_sent db)"
    if "0 < mo_amount (ss_gross s) \<or> payments_for_invoice db i \<noteq> []"
    using status_from_payments [OF ok] that ne by (cases "ss_status s = Cancelled") (simp_all add: balance_invoice_status_def)
  moreover have "ss_status s = (if \<exists>c \<in> set (fd_cancellations db). ic_invoice_id c = i then Cancelled
      else if i \<in> fd_mail_sent db then Sent else Issued)"
    if "\<not> (0 < mo_amount (ss_gross s) \<or> payments_for_invoice db i \<noteq> [])"
    using ok that ne by (cases "ss_status s") (auto simp: invoice_row_ok_def)
  ultimately show ?thesis by (simp add: paid_minor_payments)
qed

text \<open>
  C5: no booking is lost to a concurrent one.  If a payment request carries the version its author saw
  and is accepted after any number of other commands, then the entries of the invoice are still the ones
  the author saw; and the version rises by one with every accepted payment.
\<close>

theorem no_lost_update:
  assumes "(finance_step zone)\<^sup>*\<^sup>* empty_finance db" "(finance_step zone)\<^sup>*\<^sup>* db db'"
    and "rq_expected_version rq = Some (settlement_version (payments_for_invoice db (rq_invoice_id rq)))"
    and "fd_receipts db' (cc_idempotency_key cc) = None"
    and "record_payment_once zone n a cc rq db' = Inr (p, db'')"
  shows "payments_for_invoice db' (rq_invoice_id rq) = payments_for_invoice db (rq_invoice_id rq)
    \<and> settlement_version (payments_for_invoice db'' (rq_invoice_id rq))
      = settlement_version (payments_for_invoice db' (rq_invoice_id rq)) + 1"
proof -
  have ok: "finance_ok db" "finance_ok db'"
    using assms(1,2) finance_steps_ok finance_ok_empty by blast+
  have v: "settlement_version (payments_for_invoice db (rq_invoice_id rq))
      = settlement_version (payments_for_invoice db' (rq_invoice_id rq))"
    using record_effect [OF assms(5,4)] assms(3) by auto
  have "booked db' (rq_invoice_id rq) = booked db (rq_invoice_id rq)
      \<or> settlement_version (booked db (rq_invoice_id rq)) < settlement_version (booked db' (rq_invoice_id rq))"
    using finance_steps_extend [OF assms(2) ok(1)] unfolding finance_extends_def by blast
  then have "booked db' (rq_invoice_id rq) = booked db (rq_invoice_id rq)" using v by (simp add: version_payments)
  then show ?thesis
    using record_extends(2) [OF ok(2) assms(5,4)] by (simp add: version_payments) (simp add: payments_for_invoice_booked)
qed

text \<open>
  C6: a payment request is booked once.  Sent again with the same key and the same request hash, after
  any further commands, it is answered with the entry booked first, marked as replayed, and the rows
  stay as they are; with another hash it is refused.
\<close>

theorem payment_replay:
  assumes "(finance_step zone)\<^sup>*\<^sup>* empty_finance db" "wf_money (rq_amount rq)"
    and "n \<notin> pay_id ` set (fd_payments db)" "fd_receipts db (cc_idempotency_key cc) = None"
    and "record_payment_once zone n a cc rq db = Inr (p, db')" "(finance_step zone)\<^sup>*\<^sup>* db' db''"
  shows "(\<exists>q. record_payment_once zone n2 a2 (cc\<lparr>cc_occurred_at := later\<rparr>) rq db'' = Inr (q, db'')
      \<and> pay_replayed q \<and> q\<lparr>pay_reversal := None, pay_replayed := False\<rparr> = p\<lparr>pay_reversal := None\<rparr>)
    \<and> (h \<noteq> cc_request_hash cc \<longrightarrow> record_payment_once zone n2 a2 (cc\<lparr>cc_request_hash := h\<rparr>) rq db''
        = Inl (App Conflict ''idempotency_conflict''))"
proof -
  have ok: "finance_ok db" using assms(1) finance_steps_ok finance_ok_empty by blast
  have ok1: "finance_ok db'" by (rule record_ok [OF ok assms(5,3,4)])
  have ext: "finance_extends db' db''" and ok2: "finance_ok db''"
    using assms(6) ok1 finance_steps_extend finance_steps_ok by blast+
  have "fd_receipts db' (cc_idempotency_key cc) = Some \<lparr>cr_command_type = ''record_invoice_payment_v1'',
      cr_request_hash = cc_request_hash cc, cr_result = Some (''paymentId'', n)\<rparr>"
    using record_effect [OF assms(5,4)] by auto
  then have rc: "fd_receipts db'' (cc_idempotency_key cc) = Some \<lparr>cr_command_type = ''record_invoice_payment_v1'',
      cr_request_hash = cc_request_hash cc, cr_result = Some (''paymentId'', n)\<rparr>"
    using ext by (rule finance_extends_receipt [rotated])
  obtain p0 where p0: "p0 \<in> set (fd_payments db')" "pay_id p0 = n" "pay_action_id p0 = cc_action_id cc"
      "p = p0\<lparr>pay_replayed := False\<rparr>"
    using get_payment_Inr [OF record_answer [OF assms(5,4)]] by blast
  obtain q where q: "q \<in> set (fd_payments db'')" "q\<lparr>pay_reversal := None\<rparr> = p0\<lparr>pay_reversal := None\<rparr>"
    using ext p0(1) by (auto simp: finance_extends_def)
  then have "pay_id (q\<lparr>pay_reversal := None\<rparr>) = pay_id (p0\<lparr>pay_reversal := None\<rparr>)"
    "pay_action_id (q\<lparr>pay_reversal := None\<rparr>) = pay_action_id (p0\<lparr>pay_reversal := None\<rparr>)" by simp_all
  then have same: "pay_id q = n" "pay_action_id q = cc_action_id cc" using p0(2,3) by simp_all
  have ans: "record_payment_once zone n2 a2 (cc\<lparr>cc_occurred_at := later\<rparr>) rq db'' = Inr (q\<lparr>pay_replayed := True\<rparr>, db'')"
    using get_payment_known [OF ok2 q(1), of True] same rc
    by (simp add: record_payment_once_def existing_command_def)
  have core: "(q\<lparr>pay_replayed := True\<rparr>)\<lparr>pay_reversal := None, pay_replayed := False\<rparr> = p\<lparr>pay_reversal := None\<rparr>"
  proof -
    have "(q\<lparr>pay_replayed := True\<rparr>)\<lparr>pay_reversal := None, pay_replayed := False\<rparr>
        = (q\<lparr>pay_reversal := None\<rparr>)\<lparr>pay_replayed := False\<rparr>" by simp
    also have "\<dots> = (p0\<lparr>pay_reversal := None\<rparr>)\<lparr>pay_replayed := False\<rparr>" using q(2) by (rule arg_cong)
    finally show ?thesis by (simp add: p0(4))
  qed
  have conf: "record_payment_once zone n2 a2 (cc\<lparr>cc_request_hash := h\<rparr>) rq db''
      = Inl (App Conflict ''idempotency_conflict'')" if "h \<noteq> cc_request_hash cc"
    using rc that by (simp add: record_payment_once_def existing_command_def)
  show ?thesis
  proof (intro conjI exI impI)
    show "pay_replayed (q\<lparr>pay_replayed := True\<rparr>)" by simp
  qed (rule ans core conf, assumption?)+
qed

lemma balance_of_cancelled: "balance_of g ps c = Inr b \<Longrightarrow> ib_cancelled b = c"
  by (auto simp: balance_of_def then_res_Inr_iff invoice_balance_init_def split: if_splits)

text \<open>
  a reversal takes back exactly its payment.  Booking a payment and reversing it leaves the paid sum
  as it was and the version two higher; and where the invoice had something to pay or an entry, its
  stored status returns to what it was.
\<close>

lemma reversal_restores:
  assumes "(finance_step zone)\<^sup>*\<^sup>* empty_finance db" "fd_invoices db i = Some s"
    and "n \<notin> pay_id ` set (fd_payments db)" "rq_invoice_id rq = i" "fd_receipts db (cc_idempotency_key cc) = None"
    and "record_payment_once zone n a cc rq db = Inr (p, db1)"
    and "rv_invoice_id rv = i" "rv_payment_id rv = n" "fd_receipts db1 (cc_idempotency_key cc2) = None"
    and "reverse_payment_once m a2 cc2 rv db1 = Inr (r, db2)"
  shows "paid_minor (payments_for_invoice db2 i) = paid_minor (payments_for_invoice db i)
    \<and> settlement_version (payments_for_invoice db2 i) = settlement_version (payments_for_invoice db i) + 2
    \<and> (0 < mo_amount (ss_gross s) \<or> payments_for_invoice db i \<noteq> [] \<longrightarrow> fd_invoices db2 i = Some s)"
proof -
  have ok: "finance_ok db" using assms(1) finance_steps_ok finance_ok_empty by blast
  have ok1: "finance_ok db1" by (rule record_ok [OF ok assms(6,3,5)])
  have ok2: "finance_ok db2" by (rule reverse_ok [OF ok1 assms(10,9)])
  obtain p1 t1 where p1: "payment_record_new zone n s (rq_amount rq) (rq_received_on rq) (rq_reference rq)
        (cc_actor_user_id cc) (cc_occurred_at cc) (rq_note rq) = Inr p1"
    and db1: "fd_payments db1 = fd_payments db @ [p1]" "fd_mail_sent db1 = fd_mail_sent db"
      "fd_invoices db1 = (fd_invoices db)(i \<mapsto> s\<lparr>ss_status := t1\<rparr>)"
    using record_effect [OF assms(6,5)] assms(2,4) finance_okD(2) [OF ok assms(2)] by auto
  note pr = payment_record_new_Inr [OF p1]
  have b1: "booked db1 i = booked db i @ [p1]"
    using booked_append [OF db1(1)] pr(3) finance_okD(2) [OF ok assms(2)] by simp
  obtain q where q: "q \<in> set (booked db1 i)" "pay_id q = n"
      "paid_minor (booked db2 i) = paid_minor (booked db1 i) - mo_amount (pay_amount q)"
    using reverse_extends(3) [OF ok1 assms(10,9)] assms(7,8) by auto
  have "n \<notin> pay_id ` set (booked db i)" using assms(3) by (auto simp: booked_def)
  then have "q = p1" using q(1,2) b1 by auto
  then have paid: "paid_minor (booked db2 i) = paid_minor (booked db i)"
    using q(3) b1 pr(6) by (simp add: payment_active_def)
  obtain s1 r1 b t2 where rows: "fd_invoices db1 i = Some s1" "fd_payments db2 = map (set_reversal n r1) (fd_payments db1)"
      "fd_invoices db2 = (fd_invoices db1)(ss_id s1 \<mapsto> s1\<lparr>ss_status := t2\<rparr>)" "fd_mail_sent db2 = fd_mail_sent db1"
    and b: "balance_of (ss_gross s1) (map (set_reversal n r1) (payments_for_invoice db1 i)) False = Inr b"
      "t2 = balance_invoice_status b (ss_status s1 = Sent \<or> ss_id s1 \<in> fd_mail_sent db1)"
    using reverse_effect [OF assms(10,9)] unfolding assms(7,8) by blast
  have "s1 = s\<lparr>ss_status := t1\<rparr>" using rows(1) unfolding db1(3) by simp
  then have db2: "fd_invoices db2 i = Some (s\<lparr>ss_status := t2\<rparr>)"
    unfolding rows(3) using finance_okD(2) [OF ok assms(2)] by simp
  have t2: "t2 \<noteq> Cancelled"
    using balance_of_cancelled [OF b(1)] unfolding b(2) balance_invoice_status_def by simp
  have b2: "booked db2 i \<noteq> []" by (simp add: booked_reversal [OF rows(2)] b1)
  have "t2 = ss_status s" if "0 < mo_amount (ss_gross s) \<or> booked db i \<noteq> []"
    using status_from_payments [OF finance_okD(1) [OF ok assms(2)] pr(8) that]
      status_from_payments [OF finance_okD(1) [OF ok2 db2]] b2 t2 db1(2) rows(4) paid by simp
  moreover have "payments_for_invoice db i \<noteq> [] \<longleftrightarrow> booked db i \<noteq> []"
    by (metis mset_payments mset_zero_iff)
  moreover have "settlement_version (booked db2 i) = settlement_version (booked db i) + 2"
    using record_extends(2) [OF ok assms(6,5)] reverse_extends(2) [OF ok1 assms(10,9)] assms(4,7) by simp
  ultimately show ?thesis
    using paid db2 by (auto simp: paid_minor_payments version_payments)
qed

text \<open>
  C22: a cancelled invoice is closed.  Whatever commands follow, its row and its entries stay as they are,
  and no new payment, reversal or second cancellation is accepted for it.
\<close>

theorem cancelled_is_closed:
  assumes "(finance_step zone)\<^sup>*\<^sup>* empty_finance db" "(finance_step zone)\<^sup>*\<^sup>* db db'"
    and "fd_invoices db i = Some s" "ss_status s = Cancelled"
    and "fd_receipts db' (cc_idempotency_key cc) = None" "rq_invoice_id rq = i" "rv_invoice_id rv = i"
  shows "fd_invoices db' i = Some s \<and> payments_for_invoice db' i = payments_for_invoice db i
    \<and> raises (record_payment_once zone n a cc rq db') \<and> raises (reverse_payment_once n a cc rv db')
    \<and> raises (cancel_once n a cc i reason db')"
proof -
  have ok: "finance_ok db" using assms(1) finance_steps_ok finance_ok_empty by blast
  have row: "fd_invoices db' i = Some s" "booked db' i = booked db i"
    using finance_steps_extend [OF assms(2) ok] assms(3,4) by (auto simp: finance_extends_def)
  have "raises (record_payment_once zone n a cc rq db')"
  proof (rule ccontr)
    assume "\<not> raises (record_payment_once zone n a cc rq db')"
    then obtain p db'' where "record_payment_once zone n a cc rq db' = Inr (p, db'')" by (auto simp: not_raises_iff)
    from record_effect [OF this assms(5)] show False
      using row assms(4,6) payment_record_new_Inr(8) by fastforce
  qed
  moreover have "raises (reverse_payment_once n a cc rv db')"
  proof (rule ccontr)
    assume "\<not> raises (reverse_payment_once n a cc rv db')"
    then obtain p db'' where "reverse_payment_once n a cc rv db' = Inr (p, db'')" by (auto simp: not_raises_iff)
    from reverse_effect [OF this assms(5)] show False using row assms(4,7) by auto
  qed
  moreover have "raises (cancel_once n a cc i reason db')"
  proof (rule ccontr)
    assume "\<not> raises (cancel_once n a cc i reason db')"
    then obtain c db'' where "cancel_once n a cc i reason db' = Inr (c, db'')" by (auto simp: not_raises_iff)
    from cancel_effect [OF this assms(5)] show False using row assms(4) by auto
  qed
  ultimately show ?thesis using row by (simp add: payments_for_invoice_booked)
qed
section \<open>A concrete ledger\<close>

lemma balance_payload_ok:
  "wf_money (ib_gross b) \<Longrightarrow> \<exists>f. balance_payload b p = Inr f"
  by (simp add: balance_payload_def open_amount_def overpaid_amount_def money_init_def wf_money_def)

lemma find_exists: "x \<in> set xs \<Longrightarrow> P x \<Longrightarrow> \<exists>q. find P xs = Some q"
  by (induction xs) auto

lemma find_appended:
  "n \<notin> pay_id ` set ps \<Longrightarrow> pay_id p = n \<Longrightarrow> pay_action_id p = a \<Longrightarrow>
   find (\<lambda>q. pay_id q = n \<and> pay_action_id q = a) (ps @ [p]) = Some p"
  by (induction ps) auto

lemma payment_id_inj:
  "finance_ok db \<Longrightarrow> q \<in> set (fd_payments db) \<Longrightarrow> p \<in> set (fd_payments db) \<Longrightarrow> pay_id q = pay_id p \<Longrightarrow> q = p"
  unfolding finance_ok_def distinct_map by (elim conjE) (rule inj_onD)

text \<open>A request with acceptable data on a live invoice is accepted.\<close>

lemma record_accepts:
  assumes ok: "finance_ok db" and new: "fd_receipts db (cc_idempotency_key cc) = None"
    and row: "fd_invoices db (rq_invoice_id rq) = Some s" "ss_action_id s = cc_action_id cc"
      "aware (ss_issued_at s)" "ss_status s \<noteq> Cancelled"
    and v: "rq_expected_version rq \<in> {None, Some (settlement_version (payments_for_invoice db (rq_invoice_id rq)))}"
    and p: "payment_record_new zone n s (rq_amount rq) (rq_received_on rq) (rq_reference rq)
        (cc_actor_user_id cc) (cc_occurred_at cc) (rq_note rq) = Inr p"
    and fresh: "n \<notin> pay_id ` set (fd_payments db)"
  shows "\<exists>answer db'. record_payment_once zone n a cc rq db = Inr (answer, db')"
proof -
  note pr = payment_record_new_Inr [OF p] and rok = finance_okD(1) [OF ok row(1)]
  have book: "list_all (bookable (mo_currency (ss_gross s))) (payments_for_invoice db (rq_invoice_id rq) @ [p])"
    using rok pr by (simp add: invoice_row_ok_def bookable_payments bookable_def)
  define b where "b = \<lparr>ib_gross = ss_gross s, ib_paid = \<lparr>mo_amount =
      paid_minor (payments_for_invoice db (rq_invoice_id rq) @ [p]), mo_currency = mo_currency (ss_gross s)\<rparr>,
      ib_cancelled = False\<rparr>"
  have bal: "balance_of (ss_gross s) (payments_for_invoice db (rq_invoice_id rq) @ [p]) False = Inr b"
    using balance_of_eq [OF book] rok by (simp add: b_def invoice_row_ok_def)
  have new': "existing_command db ''record_invoice_payment_v1'' cc ''paymentId'' = Inr None" using new by simp
  have st: "invoice_state db (cc_action_id cc) (rq_invoice_id rq) = Inr s" using row by (simp add: invoice_state_Inr)
  have rv: "require_version (payments_for_invoice db (rq_invoice_id rq)) (rq_expected_version rq) = Inr ()"
    using v by (auto simp: require_version_def)
  have "find (\<lambda>q. pay_id q = n \<and> pay_action_id q = cc_action_id cc) (fd_payments db @ [p]) = Some p"
    using fresh pr(2,4) row(2) by (intro find_appended) auto
  then have get: "get_payment d (cc_action_id cc) n False = Inr (p\<lparr>pay_replayed := False\<rparr>)"
    if "fd_payments d = fd_payments db @ [p]" for d using that by (simp add: get_payment_def)
  have wfb: "wf_money (ib_gross b)" using rok by (simp add: b_def invoice_row_ok_def)
  obtain f where f: "balance_payload b (payment_audit_payload s p
      (balance_invoice_status b (ss_status s = Sent \<or> ss_id s \<in> fd_mail_sent db))) = Inr f"
    using balance_payload_ok [OF wfb] by blast
  show ?thesis
    using row(4) f get
    by (simp add: record_payment_once_def new' st rv p bal settle_status_eq Let_def del: existing_command_new)
qed

definition sample_row :: settlement_state where
  "sample_row = \<lparr>ss_id = 40, ss_action_id = 1, ss_number = lit ''LC-0007'', ss_status = Issued,
     ss_issued_at = utc (740000 * day_us), ss_issued_on = 740001, ss_gross = sample_price\<rparr>"

definition sample_finance :: finance_db where
  "sample_finance = empty_finance\<lparr>fd_invoices := [40 \<mapsto> sample_row]\<rparr>"

definition sample_context :: "pystr \<Rightarrow> command_context" where
  "sample_context key = \<lparr>cc_action_id = 1, cc_actor_user_id = 9, cc_idempotency_key = key,
     cc_request_hash = lit ''h'', cc_request_id = lit ''r'', cc_occurred_at = utc (740000 * day_us)\<rparr>"

definition sample_request :: payment_request where
  "sample_request = \<lparr>rq_invoice_id = 40, rq_amount = sample_price, rq_received_on = 740001,
     rq_reference = lit ''Stollen'', rq_note = None, rq_expected_version = Some 0\<rparr>"

lemma sample_finance_reachable: "(finance_step (fixed_zone 0))\<^sup>*\<^sup>* empty_finance sample_finance"
proof -
  have "finance_step (fixed_zone 0) empty_finance (empty_finance\<lparr>fd_invoices := (fd_invoices empty_finance)(40 \<mapsto> sample_row)\<rparr>)"
    by (rule finance_step.issue) (simp_all add: empty_finance_def sample_row_def sample_price_wf)
  then show ?thesis by (simp add: sample_finance_def empty_finance_def)
qed

lemma sample_finance_simps:
  "fd_receipts sample_finance = Map.empty" "fd_invoices sample_finance 40 = Some sample_row"
  "fd_payments sample_finance = []" "booked sample_finance i = []" "payments_for_invoice sample_finance i = []"
  by (simp_all add: sample_finance_def empty_finance_def booked_def payments_for_invoice_def)

lemma sample_recorded:
  "\<exists>p db. record_payment_once (fixed_zone 0) 71 90 (sample_context (lit ''k'')) sample_request sample_finance = Inr (p, db)"
proof -
  have "length (lit ''Stollen'') \<le> 160" by code_simp
  then have "\<exists>p. payment_record_new (fixed_zone 0) 71 sample_row (rq_amount sample_request)
      (rq_received_on sample_request) (rq_reference sample_request) (cc_actor_user_id (sample_context (lit ''k'')))
      (cc_occurred_at (sample_context (lit ''k''))) (rq_note sample_request) = Inr p"
    using sample_invoice_texts
    by (simp add: payment_record_new_def sample_row_def sample_request_def sample_context_def sample_day
        payment_record_init_def sample_price_def required_text_id optional_text_def require_aware_def)
  then obtain p where p: "payment_record_new (fixed_zone 0) 71 sample_row (rq_amount sample_request)
      (rq_received_on sample_request) (rq_reference sample_request) (cc_actor_user_id (sample_context (lit ''k'')))
      (cc_occurred_at (sample_context (lit ''k''))) (rq_note sample_request) = Inr p" ..
  show ?thesis
  proof (rule record_accepts [OF _ _ _ _ _ _ _ p])
    show "finance_ok sample_finance"
      using sample_finance_reachable finance_steps_ok finance_ok_empty by blast
  qed (simp_all add: sample_finance_simps sample_request_def sample_row_def sample_context_def
        settlement_version_def)
qed

lemma reverse_accepts:
  assumes ok: "finance_ok db" and new: "fd_receipts db (cc_idempotency_key cc) = None"
    and row: "fd_invoices db (rv_invoice_id rv) = Some s" "ss_action_id s = cc_action_id cc"
      "aware (ss_issued_at s)" "ss_status s \<noteq> Cancelled"
    and v: "rv_expected_version rv \<in> {None, Some (settlement_version (payments_for_invoice db (rv_invoice_id rv)))}"
    and p: "p \<in> set (booked db (rv_invoice_id rv))" "pay_id p = rv_payment_id rv" "pay_action_id p = cc_action_id cc"
    and r: "payment_reverse p n (rv_reason rv) (cc_actor_user_id cc) (cc_occurred_at cc) = Inr r"
    and fresh: "\<forall>q \<in> set (fd_payments db). \<forall>u. pay_reversal q = Some u \<longrightarrow> pr_id u \<noteq> n"
  shows "\<exists>answer db'. reverse_payment_once n a cc rv db = Inr (answer, db')"
proof -
  let ?i = "rv_invoice_id rv" and ?m = "set_reversal (rv_payment_id rv) r"
  note rr = payment_reverse_Inr [OF r] and rok = finance_okD(1) [OF ok row(1)]
  have inj: "q = p" if "q \<in> set (fd_payments db)" "pay_id q = rv_payment_id rv" for q
    using payment_id_inj [OF ok that(1), of p] p that(2) by (simp add: booked_def)
  have "\<exists>q. find (\<lambda>p. pay_id p = rv_payment_id rv) (payments_for_invoice db ?i) = Some q"
    by (rule find_exists [of p]) (use p(1,2) set_payments in simp_all)
  then obtain q where q: "find (\<lambda>p. pay_id p = rv_payment_id rv) (payments_for_invoice db ?i) = Some q" ..
  then have "q \<in> set (booked db ?i)" "pay_id q = rv_payment_id rv"
    using set_payments by (auto simp: find_Some_iff dest: nth_mem)
  then have found: "find (\<lambda>p. pay_id p = rv_payment_id rv) (payments_for_invoice db ?i) = Some p"
    using q inj by (simp add: booked_def)
  have book: "list_all (bookable (mo_currency (ss_gross s))) (map ?m (payments_for_invoice db ?i))"
    using rok rr(3) p(2) by (auto simp: invoice_row_ok_def list_all_iff set_payments bookable_reversal)
  define b where "b = \<lparr>ib_gross = ss_gross s, ib_paid = \<lparr>mo_amount =
      paid_minor (map ?m (payments_for_invoice db ?i)), mo_currency = mo_currency (ss_gross s)\<rparr>,
      ib_cancelled = False\<rparr>"
  have bal: "balance_of (ss_gross s) (map ?m (payments_for_invoice db ?i)) False = Inr b"
    using balance_of_eq [OF book] rok by (simp add: b_def invoice_row_ok_def)
  have new': "existing_command db ''reverse_invoice_payment_v1'' cc ''reversalId'' = Inr None" using new by simp
  have st: "invoice_state db (cc_action_id cc) ?i = Inr s" using row by (simp add: invoice_state_Inr)
  have rv: "require_version (payments_for_invoice db ?i) (rv_expected_version rv) = Inr ()"
    using v by (auto simp: require_version_def)
  have m: "?m p \<in> set (map ?m (fd_payments db))" "pay_reversal (?m p) = Some r" "pay_action_id (?m p) = cc_action_id cc"
    using p by (auto simp: booked_def set_reversal_def)
  have get: "\<exists>w. get_reversal d (cc_action_id cc) n False = Inr w"
    if "fd_payments d = map ?m (fd_payments db)" for d
  proof -
    have "\<exists>q. find (\<lambda>p. pay_action_id p = cc_action_id cc
           \<and> (case pay_reversal p of None \<Rightarrow> False | Some r \<Rightarrow> pr_id r = n)) (fd_payments d) = Some q"
      by (rule find_exists [of "?m p"]) (use m rr(2) that in simp_all)
    then show ?thesis by (auto simp: get_reversal_def find_Some_iff split: option.splits)
  qed
  have wfb: "wf_money (ib_gross b)" using rok by (simp add: b_def invoice_row_ok_def)
  obtain f where f: "balance_payload b (reversal_audit_payload s p r
      (balance_invoice_status b (ss_status s = Sent \<or> ss_id s \<in> fd_mail_sent db))) = Inr f"
    using balance_payload_ok [OF wfb] by blast
  let ?db3 = "write_audit a cc ''invoice_payment_reversed'' ''payment_reversal'' n f
     (db\<lparr>fd_payments := map ?m (fd_payments db), fd_invoices := (fd_invoices db)(ss_id s \<mapsto> s\<lparr>ss_status :=
        balance_invoice_status b (ss_status s = Sent \<or> ss_id s \<in> fd_mail_sent db)\<rparr>)\<rparr>)"
  obtain w where w: "get_reversal (complete_command ''reverse_invoice_payment_v1'' cc ''reversalId'' n ?db3)
      (cc_action_id cc) n False = Inr w"
    using get [of "complete_command ''reverse_invoice_payment_v1'' cc ''reversalId'' n ?db3"] by auto
  show ?thesis
    using row(4) rr(4) f w
    by (simp add: reverse_payment_once_def new' st rv r found bal settle_status_eq Let_def del: existing_command_new)
qed

lemma cancel_accepts:
  assumes ok: "finance_ok db" and new: "fd_receipts db (cc_idempotency_key cc) = None"
    and row: "fd_invoices db i = Some s" "ss_action_id s = cc_action_id cc"
      "aware (ss_issued_at s)" "ss_status s \<noteq> Cancelled"
    and c: "invoice_cancel_new n s reason (cc_actor_user_id cc) (cc_occurred_at cc) = Inr c"
  shows "\<exists>answer db'. cancel_once n a cc i reason db = Inr (answer, db')"
proof -
  have new': "existing_command db ''cancel_invoice_v1'' cc ''cancellationId'' = Inr None" using new by simp
  have st: "invoice_state db (cc_action_id cc) i = Inr s" using row by (simp add: invoice_state_Inr)
  have none: "\<not> list_ex (\<lambda>c. ic_invoice_id c = i) (fd_cancellations db)"
    using finance_okD(1) [OF ok row(1)] row(4) by (simp add: invoice_row_ok_def list_ex_iff)
  have get: "\<exists>w. get_cancellation d (cc_action_id cc) n False = Inr w"
    if "fd_cancellations d = fd_cancellations db @ [c]" for d
  proof -
    have "c \<in> set (fd_cancellations d)" "ic_id c = n \<and> ic_action_id c = cc_action_id cc"
      using invoice_cancel_new_Inr [OF c] row(2) that by auto
    then have "\<exists>q. find (\<lambda>c. ic_id c = n \<and> ic_action_id c = cc_action_id cc) (fd_cancellations d) = Some q"
      by (intro find_exists)
    then show ?thesis by (auto simp: get_cancellation_def)
  qed
  let ?d = "complete_command ''cancel_invoice_v1'' cc ''cancellationId'' n (write_audit a cc ''invoice_cancelled''
     ''invoice_cancellation'' n (cancel_audit_payload s c) (db\<lparr>fd_cancellations := fd_cancellations db @ [c],
        fd_invoices := (fd_invoices db)(i \<mapsto> s\<lparr>ss_status := Cancelled\<rparr>)\<rparr>))"
  obtain w where "get_cancellation ?d (cc_action_id cc) n False = Inr w"
    using get [of ?d] by auto
  then show ?thesis
    using row(4) none by (simp add: cancel_once_def new' st c Let_def del: existing_command_new)
qed
section \<open>The properties at a concrete ledger\<close>

theorem ledger_status_witness:
  "\<exists>b. balance_of sample_price (payments_for_invoice sample_finance 40) False = Inr b
     \<and> balance_invoice_status b (40 \<in> fd_mail_sent sample_finance) = Issued"
  using ledger_status [OF sample_finance_reachable sample_finance_simps(2)]
  by (auto simp: sample_row_def sample_price_def)

theorem no_lost_update_witness:
  "\<exists>p db. record_payment_once (fixed_zone 0) 71 90 (sample_context (lit ''k'')) sample_request sample_finance
      = Inr (p, db) \<and> settlement_version (payments_for_invoice db 40) = 1"
proof -
  obtain p db where step: "record_payment_once (fixed_zone 0) 71 90 (sample_context (lit ''k'')) sample_request
      sample_finance = Inr (p, db)" using sample_recorded by blast
  show ?thesis
    using no_lost_update [OF sample_finance_reachable rtranclp.rtrancl_refl _ _ step] step
    by (auto simp: sample_finance_simps sample_request_def settlement_version_def)
qed

theorem payment_replay_witness:
  "\<exists>p q db. record_payment_once (fixed_zone 0) 71 90 (sample_context (lit ''k'')) sample_request sample_finance
      = Inr (p, db) \<and> record_payment_once (fixed_zone 0) 72 91
        ((sample_context (lit ''k''))\<lparr>cc_occurred_at := utc 5\<rparr>) sample_request db = Inr (q, db)"
proof -
  obtain p db where step: "record_payment_once (fixed_zone 0) 71 90 (sample_context (lit ''k'')) sample_request
      sample_finance = Inr (p, db)" using sample_recorded by blast
  show ?thesis
    using payment_replay [OF sample_finance_reachable _ _ _ step rtranclp.rtrancl_refl, of 72 91 "utc 5"] step
    by (auto simp: sample_finance_simps sample_request_def sample_price_wf)
qed


definition sample_reversal :: reversal_request where
  "sample_reversal = \<lparr>rv_invoice_id = 40, rv_payment_id = 71, rv_reason = lit ''Fehlbuchung'',
     rv_expected_version = None\<rparr>"

lemma sample_reason: "tidy (lit ''Fehlbuchung'')" "8 \<le> length (lit ''Fehlbuchung'')"
  "length (lit ''Fehlbuchung'') \<le> 500" "lit ''k'' \<noteq> lit ''l''"
  by code_simp+

lemma reversal_restores_example:
  "\<exists>p db1 r db2. record_payment_once (fixed_zone 0) 71 90 (sample_context (lit ''k'')) sample_request sample_finance
      = Inr (p, db1) \<and> reverse_payment_once 73 92 (sample_context (lit ''l'')) sample_reversal db1 = Inr (r, db2)
    \<and> fd_invoices db2 40 = Some sample_row"
proof -
  obtain p db1 where step: "record_payment_once (fixed_zone 0) 71 90 (sample_context (lit ''k'')) sample_request
      sample_finance = Inr (p, db1)" using sample_recorded by blast
  have ok: "finance_ok sample_finance"
    using sample_finance_reachable finance_steps_ok finance_ok_empty by blast
  have new: "fd_receipts sample_finance (cc_idempotency_key (sample_context (lit ''k''))) = None"
    by (simp add: sample_finance_simps)
  have ok1: "finance_ok db1" by (rule record_ok [OF ok step _ new]) (simp add: sample_finance_simps)
  obtain s p1 b t1 rc where eff: "fd_invoices sample_finance (rq_invoice_id sample_request) = Some s"
    "payment_record_new (fixed_zone 0) 71 s (rq_amount sample_request)
        (rq_received_on sample_request) (rq_reference sample_request) (cc_actor_user_id (sample_context (lit ''k'')))
        (cc_occurred_at (sample_context (lit ''k''))) (rq_note sample_request) = Inr p1"
    "balance_of (ss_gross s) (payments_for_invoice sample_finance (rq_invoice_id sample_request) @ [p1]) False = Inr b"
    "t1 = balance_invoice_status b (ss_status s = Sent \<or> ss_id s \<in> fd_mail_sent sample_finance)"
    "fd_payments db1 = fd_payments sample_finance @ [p1]"
    "fd_invoices db1 = (fd_invoices sample_finance)(ss_id s \<mapsto> s\<lparr>ss_status := t1\<rparr>)"
    "fd_receipts db1 = (fd_receipts sample_finance)(cc_idempotency_key (sample_context (lit ''k'')) \<mapsto> rc)"
    using record_effect [OF step new] by blast
  have s: "s = sample_row" using eff(1) by (simp add: sample_request_def sample_finance_simps)
  have db1: "fd_payments db1 = [p1]" "fd_invoices db1 40 = Some (sample_row\<lparr>ss_status := t1\<rparr>)"
      "fd_receipts db1 = [cc_idempotency_key (sample_context (lit ''k'')) \<mapsto> rc]"
    using eff(5-7) by (simp_all add: s sample_finance_simps) (simp add: sample_row_def)
  have live: "t1 \<noteq> Cancelled"
    using balance_of_cancelled [OF eff(3)] unfolding eff(4) balance_invoice_status_def by simp
  note p1 = eff(2) [unfolded s]
  note pr = payment_record_new_Inr [OF p1]
  have key: "fd_receipts db1 (cc_idempotency_key (sample_context (lit ''l''))) = None"
    using sample_reason(4) by (simp add: db1(3) sample_context_def)
  have "\<exists>r. payment_reverse p1 73 (rv_reason sample_reversal) (cc_actor_user_id (sample_context (lit ''l'')))
      (cc_occurred_at (sample_context (lit ''l''))) = Inr r"
    using pr(6) sample_reason by (simp add: payment_reverse_def payment_reversal_init_def require_aware_def
        sample_reversal_def sample_context_def required_text_id reversal_reason_minimum_def)
  then obtain r0 where r0: "payment_reverse p1 73 (rv_reason sample_reversal)
      (cc_actor_user_id (sample_context (lit ''l''))) (cc_occurred_at (sample_context (lit ''l''))) = Inr r0" ..
  have "\<exists>r db2. reverse_payment_once 73 92 (sample_context (lit ''l'')) sample_reversal db1 = Inr (r, db2)"
    by (rule reverse_accepts [where s = "sample_row\<lparr>ss_status := t1\<rparr>", OF ok1 key _ _ _ _ _ _ _ _ r0])
      (use db1 live pr in \<open>simp_all add: sample_reversal_def sample_row_def sample_context_def booked_def\<close>)
  then obtain r db2 where rev: "reverse_payment_once 73 92 (sample_context (lit ''l'')) sample_reversal db1 = Inr (r, db2)"
    by blast
  show ?thesis
    using reversal_restores [OF sample_finance_reachable sample_finance_simps(2) _ _ new step _ _ key rev] step rev
    by (auto simp: sample_finance_simps sample_request_def sample_reversal_def sample_row_def sample_price_def)
qed

theorem cancelled_is_closed_witness:
  "\<exists>c db. cancel_once 74 93 (sample_context (lit ''k'')) 40 (lit ''Fehlbuchung'') sample_finance = Inr (c, db)
    \<and> raises (record_payment_once (fixed_zone 0) 71 90 (sample_context (lit ''l'')) sample_request db)"
proof -
  have ok: "finance_ok sample_finance"
    using sample_finance_reachable finance_steps_ok finance_ok_empty by blast
  have new: "fd_receipts sample_finance (cc_idempotency_key (sample_context (lit ''k''))) = None"
    by (simp add: sample_finance_simps)
  have "\<exists>c. invoice_cancel_new 74 sample_row (lit ''Fehlbuchung'') (cc_actor_user_id (sample_context (lit ''k'')))
      (cc_occurred_at (sample_context (lit ''k''))) = Inr c"
    using sample_reason by (simp add: invoice_cancel_new_def require_invoice_transition_def sample_row_def
        invoice_cancellation_init_def require_aware_def sample_context_def required_text_id)
  then obtain c0 where c0: "invoice_cancel_new 74 sample_row (lit ''Fehlbuchung'')
      (cc_actor_user_id (sample_context (lit ''k''))) (cc_occurred_at (sample_context (lit ''k''))) = Inr c0" ..
  have "\<exists>c db. cancel_once 74 93 (sample_context (lit ''k'')) 40 (lit ''Fehlbuchung'') sample_finance = Inr (c, db)"
    by (rule cancel_accepts [OF ok new sample_finance_simps(2) _ _ _ c0])
      (simp_all add: sample_row_def sample_context_def)
  then obtain c db where step: "cancel_once 74 93 (sample_context (lit ''k'')) 40 (lit ''Fehlbuchung'') sample_finance
      = Inr (c, db)" by blast
  have reach: "(finance_step (fixed_zone 0))\<^sup>*\<^sup>* empty_finance db"
    using sample_finance_reachable finance_step.cancel [OF step] by (rule rtranclp.rtrancl_into_rtrancl)
  obtain rc where db: "fd_invoices db 40 = Some (sample_row\<lparr>ss_status := Cancelled\<rparr>)"
      "fd_receipts db = [cc_idempotency_key (sample_context (lit ''k'')) \<mapsto> rc]"
    using cancel_effect [OF step new] by (auto simp: sample_finance_simps)
  have "fd_receipts db (cc_idempotency_key (sample_context (lit ''l''))) = None"
    using sample_reason(4) by (simp add: db sample_context_def)
  from cancelled_is_closed [OF reach rtranclp.rtrancl_refl db(1) _ this, of sample_request sample_reversal]
  show ?thesis using step by (auto simp: sample_request_def sample_reversal_def)
qed

end
