(* ===== verification/Py_Digest.thy ===== *)
theory Py_Digest
  imports Py_Number "HOL-Library.Word"
begin

text \<open>
  The digests the credentials rest on: Python's \<^verbatim>\<open>str.encode("utf-8")\<close>, \<^verbatim>\<open>hashlib.sha256\<close> and
  \<^verbatim>\<open>hmac.new(key, message, hashlib.sha256)\<close> with \<^verbatim>\<open>hexdigest()\<close>, computed on bytes and 32-bit words as
  FIPS 180-4 and RFC 2104 give them.
\<close>

unbundle bit_operations_syntax

type_synonym byte = "8 word"

section \<open>UTF-8\<close>

text \<open>A surrogate code point cannot be encoded: \<^verbatim>\<open>UnicodeEncodeError\<close>, a \<^verbatim>\<open>ValueError\<close>.\<close>

definition utf8_cp :: "int \<Rightarrow> byte list res" where
  "utf8_cp c =
     (if 0xd800 \<le> c \<and> c \<le> 0xdfff then Inl Value_Error
      else Inr (map word_of_int
        (if c < 0x80 then [c]
         else if c < 0x800 then [0xc0 + c div 64, 0x80 + c mod 64]
         else if c < 0x10000 then [0xe0 + c div 4096, 0x80 + c div 64 mod 64, 0x80 + c mod 64]
         else [0xf0 + c div 262144, 0x80 + c div 4096 mod 64, 0x80 + c div 64 mod 64, 0x80 + c mod 64])))"

definition encode_utf8 :: "pystr \<Rightarrow> byte list res" where
  "encode_utf8 s = then_res (map_res utf8_cp s) (\<lambda>bs. Inr (concat bs))"

section \<open>SHA-256\<close>

text \<open>The constants are the first 32 bits of the fractional parts of the cube roots of the first 64
  primes, the initial state those of the square roots of the first eight.\<close>

fun root_bits :: "nat \<Rightarrow> nat \<Rightarrow> int \<Rightarrow> int \<Rightarrow> int" where
  "root_bits k 0 r n = r"
| "root_bits k (Suc b) r n = root_bits k b (if (r + 2 ^ b) ^ k \<le> n then r + 2 ^ b else r) n"

definition small_primes :: "int list" where
  "small_primes = filter (\<lambda>p. list_all (\<lambda>d. p mod d \<noteq> 0) [2..p - 1]) [2..311]"

definition sha_constants :: "32 word list" where
  "sha_constants = map (\<lambda>p. word_of_int (root_bits 3 36 0 (p * 2 ^ 96))) small_primes"

definition sha_initial :: "32 word list" where
  "sha_initial = map (\<lambda>p. word_of_int (root_bits 2 37 0 (p * 2 ^ 64))) [2, 3, 5, 7, 11, 13, 17, 19]"

definition be_word :: "byte list \<Rightarrow> 32 word" where
  "be_word bs = foldl (\<lambda>w b. push_bit 8 w OR ucast b) 0 bs"

definition be_bytes :: "nat \<Rightarrow> int \<Rightarrow> byte list" where
  "be_bytes n k = map (\<lambda>i. word_of_int (k div 256 ^ (n - 1 - i))) [0..<n]"

fun chunks :: "nat \<Rightarrow> nat \<Rightarrow> 'a list \<Rightarrow> 'a list list" where
  "chunks 0 n xs = []"
| "chunks (Suc k) n xs = take n xs # chunks k n (drop n xs)"

definition sha_pad :: "byte list \<Rightarrow> byte list" where
  "sha_pad m = m @ [0x80] @ replicate ((119 - length m mod 64) mod 64) 0
     @ be_bytes 8 (8 * int (length m))"

fun sha_schedule :: "nat \<Rightarrow> 32 word list \<Rightarrow> 32 word list" where
  "sha_schedule 0 ws = ws"
| "sha_schedule (Suc k) ws =
     (let n = length ws; x = ws ! (n - 15); y = ws ! (n - 2);
          s0 = word_rotr 7 x XOR word_rotr 18 x XOR drop_bit 3 x;
          s1 = word_rotr 17 y XOR word_rotr 19 y XOR drop_bit 10 y
      in sha_schedule k (ws @ [ws ! (n - 16) + s0 + ws ! (n - 7) + s1]))"

fun sha_round :: "32 word list \<Rightarrow> 32 word \<times> 32 word \<Rightarrow> 32 word list" where
  "sha_round [a, b, c, d, e, f, g, h] (k, w) =
     (let s1 = word_rotr 6 e XOR word_rotr 11 e XOR word_rotr 25 e;
          ch = (e AND f) XOR (NOT e AND g);
          t1 = h + s1 + ch + k + w;
          s0 = word_rotr 2 a XOR word_rotr 13 a XOR word_rotr 22 a;
          maj = (a AND b) XOR (a AND c) XOR (b AND c)
      in [t1 + s0 + maj, a, b, c, d + t1, e, f, g])"
| "sha_round s _ = s"

definition sha_block :: "32 word list \<Rightarrow> byte list \<Rightarrow> 32 word list" where
  "sha_block s block =
     map2 (+) s (foldl sha_round s
       (zip sha_constants (sha_schedule 48 (map be_word (chunks 16 4 block)))))"

definition sha256 :: "byte list \<Rightarrow> byte list" where
  "sha256 m = (let p = sha_pad m in
     concat (map (\<lambda>w. be_bytes 4 (uint w)) (foldl sha_block sha_initial (chunks (length p div 64) 64 p))))"

definition hexdigest :: "byte list \<Rightarrow> pystr" where
  "hexdigest bs = concat (map (\<lambda>b. hex_fixed 2 (uint b)) bs)"

section \<open>HMAC\<close>

definition hmac_sha256 :: "byte list \<Rightarrow> byte list \<Rightarrow> byte list" where
  "hmac_sha256 key msg =
     (let k0 = if 64 < length key then sha256 key else key;
          k = k0 @ replicate (64 - length k0) 0
      in sha256 (map ((XOR) 0x5c) k @ sha256 (map ((XOR) 0x36) k @ msg)))"

section \<open>The shape of a digest\<close>

definition digest_ok :: "pystr \<Rightarrow> bool" where
  "digest_ok d \<longleftrightarrow> length d = 64 \<and> list_all hexish d"

lemma length_be_bytes [simp]: "length (be_bytes n k) = n"
  by (simp add: be_bytes_def)

lemma length_sha_round [simp]: "length (sha_round s kw) = length s"
  by (cases "(s, kw)" rule: sha_round.cases) (simp_all add: Let_def)

lemma length_foldl_round [simp]: "length (foldl sha_round s kws) = length s"
  by (induction kws arbitrary: s) simp_all

lemma length_foldl_block: "length (foldl sha_block s bs) = length s"
  by (induction bs arbitrary: s) (simp_all add: sha_block_def)

lemma length_sha256 [simp]: "length (sha256 m) = 32"
  by (simp add: sha256_def Let_def length_concat comp_def length_foldl_block sum_list_triv)
    (simp add: sha_initial_def)

lemma length_hmac_sha256 [simp]: "length (hmac_sha256 k m) = 32"
  by (simp add: hmac_sha256_def Let_def)

lemma digest_ok_hexdigest: "length bs = 32 \<Longrightarrow> digest_ok (hexdigest bs)"
  by (auto simp: digest_ok_def hexdigest_def length_concat comp_def sum_list_triv list_all_iff
      dest: hexish_hex_fixed)

section \<open>SHA-1 and name-based identifiers\<close>

fun sha1_schedule :: "nat \<Rightarrow> 32 word list \<Rightarrow> 32 word list" where
  "sha1_schedule 0 ws = ws"
| "sha1_schedule (Suc k) ws =
     (let n = length ws in sha1_schedule k (ws @ [word_rotl 1
        (ws ! (n - 3) XOR ws ! (n - 8) XOR ws ! (n - 14) XOR ws ! (n - 16))]))"

fun sha1_round :: "32 word list \<Rightarrow> nat \<times> 32 word \<Rightarrow> 32 word list" where
  "sha1_round [a, b, c, d, e] (t, w) =
     (let (f, k) =
        (if t < 20 then ((b AND c) OR (NOT b AND d), 0x5a827999)
         else if t < 40 then (b XOR c XOR d, 0x6ed9eba1)
         else if t < 60 then ((b AND c) OR (b AND d) OR (c AND d), 0x8f1bbcdc)
         else (b XOR c XOR d, 0xca62c1d6))
      in [word_rotl 5 a + f + e + k + w, a, word_rotl 30 b, c, d])"
| "sha1_round s _ = s"

definition sha1_block :: "32 word list \<Rightarrow> byte list \<Rightarrow> 32 word list" where
  "sha1_block s block =
     map2 (+) s (foldl sha1_round s
       (zip [0..<80] (sha1_schedule 64 (map be_word (chunks 16 4 block)))))"

definition sha1 :: "byte list \<Rightarrow> byte list" where
  "sha1 m = (let p = sha_pad m in
     concat (map (\<lambda>w. be_bytes 4 (uint w)) (foldl sha1_block
       [0x67452301, 0xefcdab89, 0x98badcfe, 0x10325476, 0xc3d2e1f0] (chunks (length p div 64) 64 p))))"

text \<open>\<^verbatim>\<open>uuid.uuid5(namespace, name)\<close>: the first 16 bytes of the digest, with variant and version set.\<close>

definition uuid5 :: "uuid \<Rightarrow> pystr \<Rightarrow> uuid res" where
  "uuid5 ns name =
     then_res (encode_utf8 name) (\<lambda>bs.
     let h = foldl (\<lambda>w b. push_bit 8 w OR ucast b) 0 (take 16 (sha1 (be_bytes 16 (uint ns) @ bs))) in
     Inr ((h AND NOT (push_bit 76 15) AND NOT (push_bit 62 3)) OR push_bit 76 5 OR push_bit 62 2))"

end
