(* ===== verification/One_Time_Access.thy ===== *)
theory One_Time_Access
  imports Identity_Access Py_Digest
begin

text \<open>
  One-time credentials and what they open: \<^verbatim>\<open>domain/invitations.py\<close>, \<^verbatim>\<open>domain/sessions.py\<close> and
  \<^verbatim>\<open>domain/email_changes.py\<close>.  Codes, digests, invitations, login challenges, sessions and pending
  e-mail changes, with the interpretations of the contracts for attempt counters and for credentials
  that expire.  The random number behind \<^verbatim>\<open>generate()\<close> is an argument.
\<close>

section \<open>Codes\<close>

definition six_digits :: "pystr \<Rightarrow> bool" where
  "six_digits s \<longleftrightarrow> length s = 6 \<and> list_all is_09 s"

definition invitation_code_init :: "pystr \<Rightarrow> pystr res" where
  "invitation_code_init v =
     (if \<not> six_digits v then Inl (Invariant ''invitation_code_invalid'') else Inr v)"

text \<open>For ASCII characters \<^verbatim>\<open>str.isdecimal\<close> and \<^verbatim>\<open>str.isdigit\<close> both mean \<open>0\<close> to \<open>9\<close>.\<close>

definition login_code_init :: "pystr \<Rightarrow> pystr res" where
  "login_code_init v =
     (if length v \<noteq> 6 \<or> \<not> ascii v \<or> \<not> list_all is_09 v
      then Inl (Invariant ''login_code_invalid'') else Inr v)"

definition email_change_code_init :: "pystr \<Rightarrow> pystr res" where
  "email_change_code_init v =
     (if length v \<noteq> 6 \<or> \<not> ascii v \<or> \<not> list_all is_09 v
      then Inl (Invariant ''email_change_code_invalid'') else Inr v)"

definition invitation_code_generate :: "nat \<Rightarrow> pystr res" where
  "invitation_code_generate below = invitation_code_init (zero_padded 6 below)"

definition login_code_generate :: "nat \<Rightarrow> pystr res" where
  "login_code_generate below = login_code_init (zero_padded 6 below)"

definition email_change_code_generate :: "nat \<Rightarrow> pystr res" where
  "email_change_code_generate below = email_change_code_init (zero_padded 6 below)"

definition max_invitation_code_attempts :: int where "max_invitation_code_attempts = 5"
definition max_login_code_attempts :: int where "max_login_code_attempts = 5"

text \<open>The decision is the pair of the new count and whether the code is now locked.\<close>

definition after_failed_code_attempt :: "int \<Rightarrow> (int \<times> bool) res" where
  "after_failed_code_attempt current =
     (if current < 0 \<or> current \<ge> max_invitation_code_attempts
      then Inl (Invariant ''invitation_code_attempt_state_invalid'')
      else Inr (current + 1, current + 1 \<ge> max_invitation_code_attempts))"

definition after_failed_login_code :: "int \<Rightarrow> (int \<times> bool) res" where
  "after_failed_login_code current =
     (if \<not> (0 \<le> current \<and> current < max_login_code_attempts)
      then Inl (Invariant ''login_attempts_invalid'')
      else Inr (current + 1, current + 1 \<ge> max_login_code_attempts))"

interpretation invitation_attempts: attempt_counter max_invitation_code_attempts after_failed_code_attempt
  by unfold_locales (auto simp: after_failed_code_attempt_def max_invitation_code_attempts_def)

interpretation login_attempts: attempt_counter max_login_code_attempts after_failed_login_code
  by unfold_locales (auto simp: after_failed_login_code_def max_login_code_attempts_def)

section \<open>Addresses and digests\<close>

definition normalize_email :: "pystr \<Rightarrow> pystr res" where
  "normalize_email value =
     (let n = casefold (strip value) in
      if count_list n 64 \<noteq> 1 \<or> has_space n \<or> starts_with (lit ''@'') n \<or> ends_with (lit ''@'') n
      then Inl (Invariant ''invitation_email_invalid'') else Inr n)"

definition magic_token_digest :: "pystr \<Rightarrow> pystr res" where
  "magic_token_digest token =
     (if length token < 32 \<or> has_space token then Inl (Invariant ''invitation_token_invalid'')
      else then_res (encode_utf8 token) (\<lambda>bs. Inr (hexdigest (sha256 bs))))"

definition keyed_digest :: "pystr \<Rightarrow> pystr \<Rightarrow> pystr res" where
  "keyed_digest key message =
     then_res (encode_utf8 message) (\<lambda>m.
     then_res (encode_utf8 key) (\<lambda>k. Inr (hexdigest (hmac_sha256 k m))))"

definition invitation_code_digest :: "pystr \<Rightarrow> pystr \<Rightarrow> pystr \<Rightarrow> pystr res" where
  "invitation_code_digest email code pepper =
     (if length pepper < 32 then Inl Value_Error
      else then_res (normalize_email email) (\<lambda>e. keyed_digest pepper (e @ lit '':'' @ code)))"

definition session_token_digest :: "pystr \<Rightarrow> pystr res" where
  "session_token_digest raw =
     (if length raw < 32 \<or> length raw > 256 \<or> has_space raw
      then Inl (Invariant ''session_token_invalid'')
      else then_res (encode_utf8 raw) (\<lambda>bs. Inr (hexdigest (sha256 bs))))"

definition login_magic_digest :: "pystr \<Rightarrow> pystr res" where
  "login_magic_digest raw =
     (if length raw < 32 \<or> length raw > 256 \<or> has_space raw
      then Inl (Invariant ''login_magic_token_invalid'')
      else then_res (encode_utf8 raw) (\<lambda>bs. Inr (hexdigest (sha256 bs))))"

datatype login_purpose = Login | Fresh_Login

fun login_purpose_value :: "login_purpose \<Rightarrow> pystr" where
  "login_purpose_value Login = lit ''login''"
| "login_purpose_value Fresh_Login = lit ''fresh_login''"

definition login_code_digest :: "pystr \<Rightarrow> pystr \<Rightarrow> pystr \<Rightarrow> login_purpose \<Rightarrow> pystr res" where
  "login_code_digest email code secret purpose =
     (if length secret < 32 then Inl Value_Error
      else then_res (normalize_email email) (\<lambda>e.
        keyed_digest secret (lit ''leonaid-login-code:v1:'' @ login_purpose_value purpose @ lit '':''
          @ e @ lit '':'' @ code)))"

definition email_change_token_digest :: "pystr \<Rightarrow> pystr res" where
  "email_change_token_digest raw =
     (if length raw < 32 then Inl (Invariant ''email_change_token_invalid'')
      else then_res (encode_utf8 raw) (\<lambda>bs. Inr (hexdigest (sha256 bs))))"

definition email_change_code_digest :: "pystr \<Rightarrow> pystr \<Rightarrow> pystr \<Rightarrow> pystr res" where
  "email_change_code_digest email code pepper =
     (if length pepper < 32 then Inl Value_Error
      else keyed_digest pepper (lit ''leonaid-email-change:v1:'' @ email @ lit '':'' @ code))"

section \<open>Invitations\<close>

datatype invitation_status = Inv_Pending | Inv_Accepted | Inv_Expired | Inv_Revoked

datatype invitation_acceptance_method = By_Magic_Link | By_Code

record action_invitation =
  in_id :: uuid
  in_action_id :: uuid
  in_action_name_snapshot :: pystr
  in_invited_by_user_id :: uuid
  in_invited_by_name_snapshot :: pystr
  in_email_snapshot :: pystr
  in_display_name_snapshot :: pystr
  in_role_snapshot :: action_role
  in_status :: invitation_status
  in_token_digest :: pystr
  in_code_digest :: pystr
  in_created_at :: datetime
  in_expires_at :: datetime

definition sha256_hex :: "pystr \<Rightarrow> bool" where
  "sha256_hex d \<longleftrightarrow> length d = 64 \<and> list_all (\<lambda>c. c \<in> set (lit ''0123456789abcdef'')) d"

definition action_invitation_init :: "action_invitation \<Rightarrow> action_invitation res" where
  "action_invitation_init i =
     (if blank (in_action_name_snapshot i) then Inl (Invariant ''invitation_action_name_empty'')
      else if blank (in_invited_by_name_snapshot i) then Inl (Invariant ''invitation_inviter_name_empty'')
      else if blank (in_display_name_snapshot i) then Inl (Invariant ''invitation_display_name_empty'')
      else then_res (normalize_email (in_email_snapshot i)) (\<lambda>e.
      if e \<noteq> in_email_snapshot i then Inl (Invariant ''invitation_email_not_normalized'')
      else if \<not> sha256_hex (in_token_digest i) \<or> \<not> sha256_hex (in_code_digest i)
      then Inl (Invariant ''invitation_digest_invalid'')
      else then_res (require_aware (in_created_at i)) (\<lambda>_.
      then_res (require_aware (in_expires_at i)) (\<lambda>_.
      if instant (in_expires_at i) \<le> instant (in_created_at i)
      then Inl (Invariant ''invitation_expiry_invalid'') else Inr i))))"

definition wf_action_invitation :: "action_invitation \<Rightarrow> bool" where
  "wf_action_invitation i \<longleftrightarrow> \<not> blank (in_action_name_snapshot i)
     \<and> \<not> blank (in_invited_by_name_snapshot i) \<and> \<not> blank (in_display_name_snapshot i)
     \<and> normalize_email (in_email_snapshot i) = Inr (in_email_snapshot i)
     \<and> sha256_hex (in_token_digest i) \<and> sha256_hex (in_code_digest i)
     \<and> aware (in_created_at i) \<and> aware (in_expires_at i)
     \<and> instant (in_created_at i) < instant (in_expires_at i)"

lemma action_invitation_init_Inr [res_simps]:
  "action_invitation_init raw = Inr i \<longleftrightarrow> i = raw \<and> wf_action_invitation raw"
  by (auto simp: action_invitation_init_def wf_action_invitation_def then_res_Inr_iff)

interpretation invitation: validated action_invitation_init wf_action_invitation
  by unfold_locales (auto simp: res_simps)

definition invitation_transition_to ::
  "action_invitation \<Rightarrow> invitation_status \<Rightarrow> datetime \<Rightarrow> action_invitation res" where
  "invitation_transition_to i target at =
     then_res (require_aware at) (\<lambda>_.
     if in_status i \<noteq> Inv_Pending \<or> target \<notin> {Inv_Accepted, Inv_Expired, Inv_Revoked}
     then Inl (Invariant ''invitation_status_transition_invalid'')
     else if target = Inv_Accepted \<and> instant at \<ge> instant (in_expires_at i)
     then Inl (Invariant ''invitation_expired'')
     else action_invitation_init (i\<lparr>in_status := target\<rparr>))"

definition invitation_usable_at :: "action_invitation \<Rightarrow> datetime \<Rightarrow> bool res" where
  "invitation_usable_at i moment =
     then_res (require_aware moment) (\<lambda>_.
     Inr (in_status i = Inv_Pending \<and> instant moment < instant (in_expires_at i)))"

interpretation invitation_life: expiring invitation_usable_at in_expires_at
  by unfold_locales (auto simp: invitation_usable_at_def then_res_Inr_iff require_aware_def)

section \<open>Sessions\<close>

definition session_lifetime :: int where "session_lifetime = 90 * day_us"

record user_session =
  us_id :: uuid
  us_user_id :: uuid
  us_created_at :: datetime
  us_expires_at :: datetime
  us_last_seen_at :: datetime
  us_fresh_login_at :: datetime
  us_revoked_at :: "datetime option"

definition user_session_init :: "user_session \<Rightarrow> user_session res" where
  "user_session_init s =
     then_res (require_aware (us_created_at s)) (\<lambda>_.
     then_res (require_aware (us_expires_at s)) (\<lambda>_.
     then_res (require_aware (us_last_seen_at s)) (\<lambda>_.
     then_res (require_aware (us_fresh_login_at s)) (\<lambda>_.
     then_res (require_aware_opt (us_revoked_at s)) (\<lambda>_.
     then_res (add_delta (us_created_at s) session_lifetime) (\<lambda>limit.
     if instant (us_expires_at s) \<noteq> instant limit then Inl (Invariant ''session_lifetime_invalid'')
     else if instant (us_last_seen_at s) < instant (us_created_at s)
     then Inl (Invariant ''session_last_seen_invalid'')
     else if \<not> (instant (us_created_at s) \<le> instant (us_fresh_login_at s)
       \<and> instant (us_fresh_login_at s) \<le> instant (us_last_seen_at s))
     then Inl (Invariant ''session_fresh_login_invalid'')
     else if (case us_revoked_at s of None \<Rightarrow> False | Some r \<Rightarrow> instant r < instant (us_created_at s))
     then Inl (Invariant ''session_revocation_invalid'')
     else Inr s))))))"

definition wf_user_session :: "user_session \<Rightarrow> bool" where
  "wf_user_session s \<longleftrightarrow> aware (us_created_at s) \<and> aware (us_expires_at s)
     \<and> aware (us_last_seen_at s) \<and> aware (us_fresh_login_at s) \<and> aware_opt (us_revoked_at s)
     \<and> in_range (wall (us_created_at s) + session_lifetime)
     \<and> instant (us_expires_at s) = instant (us_created_at s) + session_lifetime
     \<and> instant (us_created_at s) \<le> instant (us_fresh_login_at s)
     \<and> instant (us_fresh_login_at s) \<le> instant (us_last_seen_at s)
     \<and> opt_all (\<lambda>r. instant (us_created_at s) \<le> instant r) (us_revoked_at s)"

lemma user_session_init_Inr [res_simps]:
  "user_session_init raw = Inr s \<longleftrightarrow> s = raw \<and> wf_user_session raw"
proof -
  have limit: "instant (DateTime (w + d) z) = instant (DateTime w z) + d" for w d z
    by (simp add: instant_def)
  show ?thesis
    by (cases "us_revoked_at raw"; cases "us_created_at raw")
      (auto simp: user_session_init_def wf_user_session_def then_res_Inr_iff add_delta_Inr limit)
qed

interpretation session: validated user_session_init wf_user_session
  by unfold_locales (auto simp: res_simps)

definition session_active_at :: "user_session \<Rightarrow> datetime \<Rightarrow> bool res" where
  "session_active_at s moment =
     then_res (require_aware moment) (\<lambda>_.
     Inr (us_revoked_at s = None \<and> instant moment < instant (us_expires_at s)))"

definition session_fresh_at :: "user_session \<Rightarrow> datetime \<Rightarrow> int \<Rightarrow> bool res" where
  "session_fresh_at s moment maximum_age =
     then_res (require_aware moment) (\<lambda>_.
     if maximum_age \<le> 0 then Inl Value_Error
     else then_res (session_active_at s moment) (\<lambda>active.
       Inr (active \<and> instant (us_fresh_login_at s) \<le> instant moment
         \<and> instant moment - instant (us_fresh_login_at s) \<le> maximum_age)))"

definition session_seen_at :: "user_session \<Rightarrow> datetime \<Rightarrow> user_session res" where
  "session_seen_at s moment =
     then_res (require_aware moment) (\<lambda>_.
     if instant moment < instant (us_last_seen_at s) then Inr s
     else user_session_init (s\<lparr>us_last_seen_at := moment\<rparr>))"

definition session_revoke_at :: "user_session \<Rightarrow> datetime \<Rightarrow> user_session res" where
  "session_revoke_at s moment =
     then_res (require_aware moment) (\<lambda>_.
     if us_revoked_at s \<noteq> None then Inr s
     else if instant moment < instant (us_created_at s)
     then Inl (Invariant ''session_revocation_invalid'')
     else user_session_init (s\<lparr>us_revoked_at := Some moment\<rparr>))"

interpretation session_life: expiring session_active_at us_expires_at
  by unfold_locales (auto simp: session_active_at_def then_res_Inr_iff require_aware_def)

section \<open>Login challenges\<close>

datatype challenge_status = Ch_Pending | Ch_Consumed | Ch_Expired | Ch_Revoked

record login_challenge =
  lc_id :: uuid
  lc_user_id :: uuid
  lc_purpose :: login_purpose
  lc_email_snapshot :: pystr
  lc_token_digest :: pystr
  lc_code_digest :: pystr
  lc_status :: challenge_status
  lc_created_at :: datetime
  lc_expires_at :: datetime
  lc_failed_code_attempts :: int
  lc_consumed_at :: "datetime option"
  lc_expired_at :: "datetime option"
  lc_revoked_at :: "datetime option"

fun expected_moments :: "challenge_status \<Rightarrow> bool \<times> bool \<times> bool" where
  "expected_moments Ch_Pending = (False, False, False)"
| "expected_moments Ch_Consumed = (True, False, False)"
| "expected_moments Ch_Expired = (False, True, False)"
| "expected_moments Ch_Revoked = (False, False, True)"

definition actual_moments :: "login_challenge \<Rightarrow> bool \<times> bool \<times> bool" where
  "actual_moments c = (lc_consumed_at c \<noteq> None, lc_expired_at c \<noteq> None, lc_revoked_at c \<noteq> None)"

definition login_challenge_init :: "login_challenge \<Rightarrow> login_challenge res" where
  "login_challenge_init c =
     then_res (normalize_email (lc_email_snapshot c)) (\<lambda>e.
     if e \<noteq> lc_email_snapshot c then Inl (Invariant ''login_email_snapshot_invalid'')
     else if length (lc_token_digest c) \<noteq> 64 \<or> length (lc_code_digest c) \<noteq> 64
     then Inl (Invariant ''login_challenge_digest_invalid'')
     else then_res (require_aware (lc_created_at c)) (\<lambda>_.
     then_res (require_aware (lc_expires_at c)) (\<lambda>_.
     if instant (lc_expires_at c) \<le> instant (lc_created_at c)
     then Inl (Invariant ''login_challenge_expiry_invalid'')
     else if \<not> (0 \<le> lc_failed_code_attempts c \<and> lc_failed_code_attempts c \<le> max_login_code_attempts)
     then Inl (Invariant ''login_attempts_invalid'')
     else then_res (require_aware_opt (lc_consumed_at c)) (\<lambda>_.
     then_res (require_aware_opt (lc_expired_at c)) (\<lambda>_.
     then_res (require_aware_opt (lc_revoked_at c)) (\<lambda>_.
     if actual_moments c \<noteq> expected_moments (lc_status c)
     then Inl (Invariant ''login_challenge_state_invalid'') else Inr c))))))"

definition wf_login_challenge :: "login_challenge \<Rightarrow> bool" where
  "wf_login_challenge c \<longleftrightarrow> normalize_email (lc_email_snapshot c) = Inr (lc_email_snapshot c)
     \<and> length (lc_token_digest c) = 64 \<and> length (lc_code_digest c) = 64
     \<and> aware (lc_created_at c) \<and> aware (lc_expires_at c)
     \<and> instant (lc_created_at c) < instant (lc_expires_at c)
     \<and> 0 \<le> lc_failed_code_attempts c \<and> lc_failed_code_attempts c \<le> max_login_code_attempts
     \<and> aware_opt (lc_consumed_at c) \<and> aware_opt (lc_expired_at c) \<and> aware_opt (lc_revoked_at c)
     \<and> actual_moments c = expected_moments (lc_status c)"

lemma login_challenge_init_Inr [res_simps]:
  "login_challenge_init raw = Inr c \<longleftrightarrow> c = raw \<and> wf_login_challenge raw"
  by (auto simp: login_challenge_init_def wf_login_challenge_def then_res_Inr_iff)

interpretation challenge: validated login_challenge_init wf_login_challenge
  by unfold_locales (auto simp: res_simps)

definition challenge_usable_at :: "login_challenge \<Rightarrow> datetime \<Rightarrow> bool res" where
  "challenge_usable_at c moment =
     then_res (require_aware moment) (\<lambda>_.
     Inr (lc_status c = Ch_Pending \<and> instant moment < instant (lc_expires_at c)))"

interpretation challenge_life: expiring challenge_usable_at lc_expires_at
  by unfold_locales (auto simp: challenge_usable_at_def then_res_Inr_iff require_aware_def)

definition challenge_consume_at :: "login_challenge \<Rightarrow> datetime \<Rightarrow> login_challenge res" where
  "challenge_consume_at c moment =
     then_res (challenge_usable_at c moment) (\<lambda>usable.
     if \<not> usable then Inl (Invariant ''login_challenge_not_usable'')
     else login_challenge_init (c\<lparr>lc_status := Ch_Consumed, lc_consumed_at := Some moment\<rparr>))"

definition challenge_expire_at :: "login_challenge \<Rightarrow> datetime \<Rightarrow> login_challenge res" where
  "challenge_expire_at c moment =
     then_res (require_aware moment) (\<lambda>_.
     if lc_status c \<noteq> Ch_Pending then Inl (Invariant ''login_challenge_transition_invalid'')
     else if instant moment < instant (lc_expires_at c)
     then Inl (Invariant ''login_challenge_not_expired'')
     else login_challenge_init (c\<lparr>lc_status := Ch_Expired, lc_expired_at := Some moment\<rparr>))"

definition challenge_revoke_at :: "login_challenge \<Rightarrow> datetime \<Rightarrow> login_challenge res" where
  "challenge_revoke_at c moment =
     then_res (require_aware moment) (\<lambda>_.
     if lc_status c \<noteq> Ch_Pending then Inl (Invariant ''login_challenge_transition_invalid'')
     else login_challenge_init (c\<lparr>lc_status := Ch_Revoked, lc_revoked_at := Some moment\<rparr>))"

section \<open>Pending e-mail changes\<close>

datatype email_change_status = Change_Pending | Change_Confirmed | Change_Expired | Change_Revoked

record pending_email_change =
  pe_id :: uuid
  pe_user_id :: uuid
  pe_requested_by_user_id :: uuid
  pe_old_email_snapshot :: pystr
  pe_new_email_snapshot :: pystr
  pe_display_name_snapshot :: pystr
  pe_status :: email_change_status
  pe_token_digest :: pystr
  pe_code_digest :: pystr
  pe_created_at :: datetime
  pe_expires_at :: datetime
  pe_failed_code_attempts :: int

text \<open>The two times are compared as they are; comparing an aware with a naive one raises.\<close>

definition email_change_init :: "pending_email_change \<Rightarrow> pending_email_change res" where
  "email_change_init e =
     (if pe_old_email_snapshot e = pe_new_email_snapshot e
      then Inl (Invariant ''email_change_address_unchanged'')
      else if \<not> comparable (pe_expires_at e) (pe_created_at e) then Inl Type_Error
      else if instant (pe_expires_at e) \<le> instant (pe_created_at e)
      then Inl (Invariant ''email_change_expiry_invalid'')
      else if \<not> (0 \<le> pe_failed_code_attempts e \<and> pe_failed_code_attempts e \<le> 5)
      then Inl (Invariant ''email_change_attempts_invalid'')
      else Inr e)"

definition wf_email_change :: "pending_email_change \<Rightarrow> bool" where
  "wf_email_change e \<longleftrightarrow> pe_old_email_snapshot e \<noteq> pe_new_email_snapshot e
     \<and> comparable (pe_expires_at e) (pe_created_at e)
     \<and> instant (pe_created_at e) < instant (pe_expires_at e)
     \<and> 0 \<le> pe_failed_code_attempts e \<and> pe_failed_code_attempts e \<le> 5"

lemma email_change_init_Inr [res_simps]:
  "email_change_init raw = Inr e \<longleftrightarrow> e = raw \<and> wf_email_change raw"
  by (auto simp: email_change_init_def wf_email_change_def)

interpretation email_change: validated email_change_init wf_email_change
  by unfold_locales (auto simp: res_simps)

definition email_change_after_failed_code :: "pending_email_change \<Rightarrow> pending_email_change res" where
  "email_change_after_failed_code e =
     (if pe_status e \<noteq> Change_Pending then Inr e
      else let attempts = min (pe_failed_code_attempts e + 1) 5 in
        email_change_init (e\<lparr>pe_failed_code_attempts := attempts,
          pe_status := (if attempts \<ge> 5 then Change_Revoked else Change_Pending)\<rparr>))"
section \<open>Digests have the shape the records demand\<close>

lemma hexish_digits: "c \<in> set (lit ''0123456789abcdef'') \<longleftrightarrow> hexish c"
  by (simp add: lit_def hexish_def is_09_def) presburger

lemma sha256_hex_iff: "sha256_hex d \<longleftrightarrow> digest_ok d"
  by (simp add: sha256_hex_def digest_ok_def hexish_digits list_all_iff)

lemma sha256_hex_digest [simp]: "sha256_hex (hexdigest (sha256 bs))" "sha256_hex (hexdigest (hmac_sha256 k m))"
  by (simp_all add: sha256_hex_iff digest_ok_hexdigest)

lemma keyed_digest_shape: "keyed_digest k m = Inr d \<Longrightarrow> sha256_hex d"
  by (auto simp: keyed_digest_def then_res_Inr_iff)

section \<open>Histories\<close>

datatype challenge_command = Consume_At datetime | Expire_At datetime | Revoke_At datetime

fun run_challenge :: "login_challenge \<Rightarrow> challenge_command \<Rightarrow> login_challenge res" where
  "run_challenge c (Consume_At m) = challenge_consume_at c m"
| "run_challenge c (Expire_At m) = challenge_expire_at c m"
| "run_challenge c (Revoke_At m) = challenge_revoke_at c m"

lemmas challenge_defs = challenge_consume_at_def challenge_expire_at_def challenge_revoke_at_def
  challenge_usable_at_def

lemma run_challenge_Inr:
  assumes "run_challenge c cmd = Inr d"
  shows "lc_status c = Ch_Pending" "lc_status d \<noteq> Ch_Pending" "wf_login_challenge d"
    "lc_status d = Ch_Consumed \<Longrightarrow> \<exists>m. cmd = Consume_At m \<and> instant m < instant (lc_expires_at c)"
    "lc_status d = Ch_Expired \<Longrightarrow> \<exists>m. cmd = Expire_At m \<and> instant (lc_expires_at c) \<le> instant m"
  using assms by (cases cmd; auto simp: challenge_defs then_res_Inr_iff login_challenge_init_Inr split: if_splits)+

datatype session_command = Seen_At datetime | Revoke_Session_At datetime

fun run_session :: "user_session \<Rightarrow> session_command \<Rightarrow> user_session res" where
  "run_session s (Seen_At m) = session_seen_at s m"
| "run_session s (Revoke_Session_At m) = session_revoke_at s m"

text \<open>What a history of a session keeps.\<close>

definition session_extends :: "user_session \<Rightarrow> user_session \<Rightarrow> bool" where
  "session_extends s t \<longleftrightarrow> wf_user_session t \<and> us_id t = us_id s \<and> us_user_id t = us_user_id s
     \<and> us_created_at t = us_created_at s \<and> us_expires_at t = us_expires_at s
     \<and> us_fresh_login_at t = us_fresh_login_at s
     \<and> instant (us_last_seen_at s) \<le> instant (us_last_seen_at t)
     \<and> (us_revoked_at s \<noteq> None \<longrightarrow> us_revoked_at t = us_revoked_at s)"

lemma run_session_extends:
  "session_extends s t \<Longrightarrow> run_session t cmd = Inr u \<Longrightarrow> session_extends s u"
  by (cases cmd) (auto simp: session_extends_def session_seen_at_def session_revoke_at_def then_res_Inr_iff
      user_session_init_Inr split: if_splits)

lemma session_active_Inr: "session_active_at s m = Inr b \<longleftrightarrow>
    aware m \<and> b = (us_revoked_at s = None \<and> instant m < instant (us_expires_at s))"
  by (auto simp: session_active_at_def then_res_Inr_iff)

lemma email_change_failures:
  "wf_email_change e \<Longrightarrow> pe_status e = Change_Pending \<Longrightarrow> pe_failed_code_attempts e + int k \<le> 4 \<Longrightarrow>
   fold_res (\<lambda>x _. email_change_after_failed_code x) e (replicate k ())
     = Inr (e\<lparr>pe_failed_code_attempts := pe_failed_code_attempts e + int k\<rparr>)"
proof (induction k arbitrary: e)
  case (Suc k)
  let ?f = "e\<lparr>pe_failed_code_attempts := pe_failed_code_attempts e + 1\<rparr>"
  have "?f\<lparr>pe_status := Change_Pending\<rparr> = ?f" using Suc.prems(2) by (cases e) simp
  then have "email_change_after_failed_code e = Inr ?f"
    using Suc.prems by (auto simp: email_change_after_failed_code_def email_change_init_Inr wf_email_change_def)
  moreover have "wf_email_change ?f" using Suc.prems by (auto simp: wf_email_change_def)
  ultimately show ?case using Suc.IH [of ?f] Suc.prems by (simp add: algebra_simps)
qed simp

lemma email_change_fifth:
  "wf_email_change e \<Longrightarrow> pe_status e = Change_Pending \<Longrightarrow> 4 \<le> pe_failed_code_attempts e \<Longrightarrow>
   email_change_after_failed_code e = Inr (e\<lparr>pe_failed_code_attempts := 5, pe_status := Change_Revoked\<rparr>)"
  by (auto simp: email_change_after_failed_code_def email_change_init_Inr wf_email_change_def min_def Let_def)

lemma email_change_closed:
  "pe_status e \<noteq> Change_Pending \<Longrightarrow> fold_res (\<lambda>x _. email_change_after_failed_code x) e xs = Inr e"
  by (induction xs) (simp_all add: email_change_after_failed_code_def)

section \<open>Properties\<close>

text \<open>
  Every random number below a million gives a valid code of each kind, and different numbers give
  different codes.
\<close>

lemma generated_codes:
  assumes "n < 1000000" "m < 1000000"
  shows "invitation_code_generate n = Inr (zero_padded 6 n) \<and> login_code_generate n = Inr (zero_padded 6 n)
    \<and> email_change_code_generate n = Inr (zero_padded 6 n) \<and> length (zero_padded 6 n) = 6
    \<and> (login_code_generate m = login_code_generate n \<longrightarrow> m = n)"
proof -
  have ok: "length (zero_padded 6 k) = 6 \<and> list_all is_09 (zero_padded 6 k) \<and> ascii (zero_padded 6 k)"
    if "k < 1000000" for k
    using zero_padded_length [of 6 k] zero_padded_09 [of 6 k] that
    by (auto simp: ascii_def list_all_iff is_09_def)
  show ?thesis
    using ok [OF assms(1)] ok [OF assms(2)]
    by (auto simp: invitation_code_generate_def login_code_generate_def email_change_code_generate_def
        invitation_code_init_def login_code_init_def email_change_code_init_def six_digits_def
        dest: zero_padded_inj)
qed

lemma generated_codes_example:
  "login_code_generate 42 = Inr (zero_padded 6 42) \<and> login_code_generate 41 \<noteq> login_code_generate 42"
  using generated_codes [of 42 41] by auto

text \<open>
  every digest the credentials of an invitation, a login, a session or an e-mail change are stored
  under is a lower-case SHA-256 hex string, the shape the invitation and the login challenge demand.
\<close>

lemma digest_shapes:
  "(magic_token_digest t = Inr d \<longrightarrow> sha256_hex d) \<and> (invitation_code_digest e c p = Inr d \<longrightarrow> sha256_hex d)
   \<and> (session_token_digest t = Inr d \<longrightarrow> sha256_hex d) \<and> (login_magic_digest t = Inr d \<longrightarrow> sha256_hex d)
   \<and> (login_code_digest e c p purpose = Inr d \<longrightarrow> sha256_hex d)
   \<and> (email_change_token_digest t = Inr d \<longrightarrow> sha256_hex d)
   \<and> (email_change_code_digest e c p = Inr d \<longrightarrow> sha256_hex d)"
  by (auto simp: magic_token_digest_def invitation_code_digest_def session_token_digest_def
      login_magic_digest_def login_code_digest_def email_change_token_digest_def
      email_change_code_digest_def then_res_Inr_iff dest: keyed_digest_shape)

lemma digest_shapes_example:
  "\<exists>d. magic_token_digest (replicate 32 97) = Inr d \<and> sha256_hex d"
proof -
  have "\<not> has_space (replicate 32 97)" by code_simp
  moreover have "encode_utf8 (replicate 32 97) = Inr (replicate 32 97)"
    by (simp add: encode_utf8_def utf8_cp_def map_res_pure [where g = "\<lambda>_. [97]"]) code_simp
  ultimately obtain d where "magic_token_digest (replicate 32 97) = Inr d"
    by (simp add: magic_token_digest_def del: replicate_Suc)
  then show ?thesis using digest_shapes [of "replicate 32 97" d] by blast
qed

text \<open>
  C29: at most five wrong codes.  The counters of invitations and logins accept exactly five failures and
  lock with the fifth; a pending e-mail change stays pending, counting, through four and is revoked by
  the fifth for good.
\<close>

theorem five_wrong_codes:
  "(\<forall>fs :: unit list. length fs \<le> 5 \<longrightarrow>
      fold_res (\<lambda>k _. then_res (after_failed_login_code k) (\<lambda>d. Inr (fst d))) 0 fs = Inr (int (length fs)))
   \<and> (\<forall>fs :: unit list. 5 < length fs \<longrightarrow>
      raises (fold_res (\<lambda>k _. then_res (after_failed_login_code k) (\<lambda>d. Inr (fst d))) 0 fs))
   \<and> (\<forall>n. (\<exists>k. after_failed_login_code n = Inr (k, True)) \<longleftrightarrow> n = 4)
   \<and> after_failed_code_attempt = (\<lambda>n. if n < 0 \<or> 5 \<le> n
        then Inl (Invariant ''invitation_code_attempt_state_invalid'') else Inr (n + 1, n = 4))
   \<and> (\<forall>e k. wf_email_change e \<and> pe_status e = Change_Pending \<and> pe_failed_code_attempts e = 0 \<longrightarrow>
        fold_res (\<lambda>x _. email_change_after_failed_code x) e (replicate k ()) =
          Inr (if k < 5 then e\<lparr>pe_failed_code_attempts := int k\<rparr>
               else e\<lparr>pe_failed_code_attempts := 5, pe_status := Change_Revoked\<rparr>))"
proof (intro conjI allI impI)
  fix fs :: "unit list" assume "length fs \<le> 5"
  then show "fold_res (\<lambda>k _. then_res (after_failed_login_code k) (\<lambda>d. Inr (fst d))) 0 fs = Inr (int (length fs))"
    using login_attempts.failures_count [of 0 fs] by (simp add: max_login_code_attempts_def)
next
  fix fs :: "unit list" assume "5 < length fs"
  then show "raises (fold_res (\<lambda>k _. then_res (after_failed_login_code k) (\<lambda>d. Inr (fst d))) 0 fs)"
    using login_attempts.failures_bounded [of 0 fs] by (auto simp: max_login_code_attempts_def raises_iff)
next
  fix n
  show "(\<exists>k. after_failed_login_code n = Inr (k, True)) \<longleftrightarrow> n = 4"
    by (auto simp: after_failed_login_code_def max_login_code_attempts_def)
next
  show "after_failed_code_attempt = (\<lambda>n. if n < 0 \<or> 5 \<le> n
        then Inl (Invariant ''invitation_code_attempt_state_invalid'') else Inr (n + 1, n = 4))"
    by (auto simp: after_failed_code_attempt_def max_invitation_code_attempts_def fun_eq_iff)
next
  fix e k assume e: "wf_email_change e \<and> pe_status e = Change_Pending \<and> pe_failed_code_attempts e = 0"
  let ?run = "fold_res (\<lambda>x _. email_change_after_failed_code x)"
  show "?run e (replicate k ()) = Inr (if k < 5 then e\<lparr>pe_failed_code_attempts := int k\<rparr>
      else e\<lparr>pe_failed_code_attempts := 5, pe_status := Change_Revoked\<rparr>)"
  proof (cases "k < 5")
    case True
    then show ?thesis using email_change_failures [of e k] e by simp
  next
    case False
    then obtain j where k: "k = 4 + (1 + j)" using le_Suc_ex [of 5 k] by auto
    let ?four = "e\<lparr>pe_failed_code_attempts := 4\<rparr>"
    have "?run e (replicate 4 ()) = Inr ?four" using email_change_failures [of e 4] e by simp
    moreover have "email_change_after_failed_code ?four
        = Inr (?four\<lparr>pe_failed_code_attempts := 5, pe_status := Change_Revoked\<rparr>)"
      using e by (intro email_change_fifth) (auto simp: wf_email_change_def)
    moreover have "?run (e\<lparr>pe_failed_code_attempts := 5, pe_status := Change_Revoked\<rparr>) (replicate j ())
        = Inr (e\<lparr>pe_failed_code_attempts := 5, pe_status := Change_Revoked\<rparr>)"
      by (rule email_change_closed) simp
    ultimately show ?thesis unfolding k replicate_add fold_res_append by simp
  qed
qed
definition sample_email_change :: pending_email_change where
  "sample_email_change = \<lparr>pe_id = 1, pe_user_id = 2, pe_requested_by_user_id = 2,
     pe_old_email_snapshot = lit ''a@b'', pe_new_email_snapshot = lit ''c@d'',
     pe_display_name_snapshot = lit ''A'', pe_status = Change_Pending, pe_token_digest = [],
     pe_code_digest = [], pe_created_at = utc 0, pe_expires_at = utc 10, pe_failed_code_attempts = 0\<rparr>"

theorem five_wrong_codes_witness:
  "fold_res (\<lambda>x _. email_change_after_failed_code x) sample_email_change (replicate 7 ())
     = Inr (sample_email_change\<lparr>pe_failed_code_attempts := 5, pe_status := Change_Revoked\<rparr>)
   \<and> raises (fold_res (\<lambda>k _. then_res (after_failed_login_code k) (\<lambda>d. Inr (fst d))) 0 (replicate 6 ()))"
proof -
  have "lit ''a@b'' \<noteq> lit ''c@d''" by code_simp
  then have "wf_email_change sample_email_change \<and> pe_status sample_email_change = Change_Pending
      \<and> pe_failed_code_attempts sample_email_change = 0"
    by (simp add: sample_email_change_def wf_email_change_def comparable_def)
  then have "fold_res (\<lambda>x _. email_change_after_failed_code x) sample_email_change (replicate 7 ())
      = Inr (if (7 :: nat) < 5 then sample_email_change\<lparr>pe_failed_code_attempts := int 7\<rparr>
             else sample_email_change\<lparr>pe_failed_code_attempts := 5, pe_status := Change_Revoked\<rparr>)"
    using five_wrong_codes by blast
  moreover have "5 < length (replicate 6 ()) \<longrightarrow>
      raises (fold_res (\<lambda>k _. then_res (after_failed_login_code k) (\<lambda>d. Inr (fst d))) 0 (replicate 6 ()))"
    using five_wrong_codes by blast
  ultimately show ?thesis by simp
qed

text \<open>
  C28: a login challenge is used once.  Whatever commands are tried on it, at most one succeeds, only
  while it is pending, and the challenge stays well formed; it ends consumed only if it was consumed
  before its expiry, and expired only after it.
\<close>

theorem challenge_used_once:
  assumes "wf_login_challenge c" "fold_res run_challenge c cmds = Inr d"
  shows "wf_login_challenge d \<and> length cmds \<le> 1 \<and> (cmds \<noteq> [] \<longrightarrow> lc_status c = Ch_Pending \<and> lc_status d \<noteq> Ch_Pending)
    \<and> (\<forall>m. cmds = [Consume_At m] \<longrightarrow> challenge_usable_at c m = Inr True \<and> lc_consumed_at d = Some m)
    \<and> (\<forall>m. cmds = [Expire_At m] \<longrightarrow> challenge_usable_at c m = Inr False \<and> lc_status d = Ch_Expired)
    \<and> (\<forall>m. aware m \<and> cmds \<noteq> [] \<longrightarrow> challenge_usable_at d m = Inr False)"
proof (cases cmds)
  case Nil
  then show ?thesis using assms by simp
next
  case (Cons cmd rest)
  then obtain e where e: "run_challenge c cmd = Inr e" "fold_res run_challenge e rest = Inr d"
    using assms(2) by (auto simp: then_res_Inr_iff)
  note step = run_challenge_Inr(1,2,3) [OF e(1)]
  have "rest = []"
  proof (cases rest)
    case (Cons cmd2 rest2)
    then show ?thesis using e(2) step(2) run_challenge_Inr(1) [of e cmd2] by (auto simp: then_res_Inr_iff)
  qed simp
  then show ?thesis
    using Cons e step
    by (auto simp: challenge_defs then_res_Inr_iff login_challenge_init_Inr split: if_splits)
qed

definition sample_challenge :: login_challenge where
  "sample_challenge = \<lparr>lc_id = 5, lc_user_id = 2, lc_purpose = Login, lc_email_snapshot = lit ''a@b'',
     lc_token_digest = replicate 64 48, lc_code_digest = replicate 64 49, lc_status = Ch_Pending,
     lc_created_at = utc 0, lc_expires_at = utc 600, lc_failed_code_attempts = 0,
     lc_consumed_at = None, lc_expired_at = None, lc_revoked_at = None\<rparr>"

lemma sample_address: "normalize_email (lit ''a@b'') = Inr (lit ''a@b'')"
  by code_simp

lemma sample_challenge_wf: "wf_login_challenge sample_challenge"
  by (simp add: wf_login_challenge_def sample_challenge_def sample_address actual_moments_def
      max_login_code_attempts_def)

theorem challenge_used_once_witness:
  "\<exists>d. challenge_consume_at sample_challenge (utc 599) = Inr d \<and> challenge_usable_at d (utc 599) = Inr False"
proof -
  have "wf_login_challenge (sample_challenge\<lparr>lc_status := Ch_Consumed, lc_consumed_at := Some (utc 599)\<rparr>)"
    using sample_challenge_wf by (simp add: wf_login_challenge_def actual_moments_def sample_challenge_def)
  then have "fold_res run_challenge sample_challenge [Consume_At (utc 599)]
      = Inr (sample_challenge\<lparr>lc_status := Ch_Consumed, lc_consumed_at := Some (utc 599)\<rparr>)"
    by (simp add: challenge_defs login_challenge_init_Inr then_res_Inr_iff require_aware_def)
      (simp add: sample_challenge_def)
  from challenge_used_once [OF sample_challenge_wf this] this show ?thesis
    by (auto simp: then_res_Inr_iff)
qed

text \<open>
  an invitation is answered once: of any transitions tried at most one succeeds, it leaves every
  snapshot as it was, an acceptance comes before the expiry, and afterwards the invitation is not usable
  at any time.
\<close>

lemma invitation_answered_once:
  assumes "wf_action_invitation i" "fold_res (\<lambda>x (t, at). invitation_transition_to x t at) i cmds = Inr j"
  shows "wf_action_invitation j \<and> length cmds \<le> 1 \<and> i\<lparr>in_status := in_status j\<rparr> = j
    \<and> (cmds \<noteq> [] \<longrightarrow> in_status i = Inv_Pending \<and> in_status j = fst (hd cmds) \<and> in_status j \<noteq> Inv_Pending
        \<and> (in_status j = Inv_Accepted \<longrightarrow> invitation_usable_at i (snd (hd cmds)) = Inr True)
        \<and> (\<forall>m. aware m \<longrightarrow> invitation_usable_at j m = Inr False))"
proof (cases cmds)
  case Nil
  then show ?thesis using assms by simp
next
  case (Cons cmd rest)
  obtain t at where cmd: "cmd = (t, at)" by (cases cmd)
  then obtain k where k: "invitation_transition_to i t at = Inr k"
      "fold_res (\<lambda>x (t, at). invitation_transition_to x t at) k rest = Inr j"
    using assms(2) Cons by (auto simp: then_res_Inr_iff)
  then have k': "k = i\<lparr>in_status := t\<rparr>" "wf_action_invitation k" "in_status i = Inv_Pending" "t \<noteq> Inv_Pending"
      "aware at" "t = Inv_Accepted \<longrightarrow> instant at < instant (in_expires_at i)"
    by (auto simp: invitation_transition_to_def then_res_Inr_iff action_invitation_init_Inr split: if_splits)
  have "rest = []"
    using k(2) k'(1,4) by (cases rest)
      (auto simp: then_res_Inr_iff invitation_transition_to_def split: if_splits)
  then show ?thesis
    using Cons cmd k k' by (auto simp: invitation_usable_at_def then_res_Inr_iff require_aware_def)
qed

definition sample_invitation :: action_invitation where
  "sample_invitation = \<lparr>in_id = 6, in_action_id = 1, in_action_name_snapshot = lit ''A'',
     in_invited_by_user_id = 2, in_invited_by_name_snapshot = lit ''A'', in_email_snapshot = lit ''a@b'',
     in_display_name_snapshot = lit ''A'', in_role_snapshot = Driver, in_status = Inv_Pending,
     in_token_digest = replicate 64 48, in_code_digest = replicate 64 49, in_created_at = utc 0,
     in_expires_at = utc 600\<rparr>"

lemma invitation_answered_once_example:
  "\<exists>j. invitation_transition_to sample_invitation Inv_Accepted (utc 5) = Inr j
     \<and> invitation_usable_at j (utc 6) = Inr False"
proof -
  have "\<not> blank (lit ''A'')" "sha256_hex (replicate 64 48)" "sha256_hex (replicate 64 49)" by code_simp+
  then have wf: "wf_action_invitation (sample_invitation\<lparr>in_status := s\<rparr>)" for s
    using sample_address by (simp add: wf_action_invitation_def sample_invitation_def)
  have wf0: "wf_action_invitation sample_invitation"
    using wf [of Inv_Pending] by (simp add: sample_invitation_def)
  have "fold_res (\<lambda>x (t, at). invitation_transition_to x t at) sample_invitation [(Inv_Accepted, utc 5)]
      = Inr (sample_invitation\<lparr>in_status := Inv_Accepted\<rparr>)"
    using wf [of Inv_Accepted]
    by (simp add: invitation_transition_to_def action_invitation_init_Inr then_res_Inr_iff require_aware_def)
      (simp add: sample_invitation_def)
  from invitation_answered_once [OF wf0 this] this show ?thesis by (auto simp: then_res_Inr_iff)
qed

text \<open>
  a session keeps its limits.  Whatever accesses and revocations it sees, it stays well formed, keeps
  its owner and its absolute end ninety days after it began, never moves its last access back; once
  revoked it stays revoked, and once inactive it is inactive at every later time.
\<close>

lemma session_limits:
  assumes "wf_user_session s" "fold_res run_session s cmds = Inr t"
  shows "session_extends s t \<and> instant (us_expires_at t) = instant (us_created_at s) + session_lifetime
    \<and> (\<forall>m. session_active_at t m = Inr True \<longrightarrow> instant m < instant (us_created_at s) + session_lifetime)
    \<and> (\<forall>m n. session_active_at s m = Inr False \<and> aware n \<and> instant m \<le> instant n
        \<longrightarrow> session_active_at t n = Inr False)
    \<and> (\<forall>m age. session_fresh_at t m age = Inr True \<longrightarrow> session_active_at t m = Inr True
        \<and> instant m - instant (us_fresh_login_at s) \<le> age)"
proof -
  have ext: "session_extends s t"
  proof (rule fold_res_invariant [where P = "session_extends s", OF assms(2)])
    show "session_extends s s" using assms(1) by (simp add: session_extends_def)
  qed (rule run_session_extends)
  moreover have "session_active_at t n = Inr False"
    if "session_active_at s m = Inr False" "aware n" "instant m \<le> instant n" for m n
    using that ext session_life.expired_forever [of m s n]
    by (auto simp: session_active_Inr session_extends_def)
  moreover have "session_active_at t m = Inr True \<and> instant m - instant (us_fresh_login_at s) \<le> age"
    if "session_fresh_at t m age = Inr True" for m age
    using that ext by (auto simp: session_fresh_at_def then_res_Inr_iff session_extends_def split: if_splits)
  ultimately show ?thesis by (auto simp: session_active_Inr session_extends_def wf_user_session_def)
qed

lemma session_limits_example:
  "\<exists>s t. wf_user_session s \<and> session_seen_at s (utc 7) = Inr t
     \<and> instant (us_expires_at t) = 90 * 86400 * 1000000"
proof -
  define s where "s = \<lparr>us_id = 1, us_user_id = 2, us_created_at = utc 0, us_expires_at = utc session_lifetime,
    us_last_seen_at = utc 0, us_fresh_login_at = utc 0, us_revoked_at = None\<rparr>"
  have wf: "wf_user_session s"
    by (simp add: wf_user_session_def s_def in_range_def session_lifetime_def time_units)
  have "fold_res run_session s [Seen_At (utc 7)] = Inr (s\<lparr>us_last_seen_at := utc 7\<rparr>)"
    using wf by (simp add: session_seen_at_def then_res_Inr_iff user_session_init_Inr wf_user_session_def s_def require_aware_def)
  from session_limits [OF wf this] this wf show ?thesis
    by (intro exI [of _ s] exI [of _ "s\<lparr>us_last_seen_at := utc 7\<rparr>"])
      (auto simp: then_res_Inr_iff s_def session_lifetime_def time_units)
qed

end
