(* ===== verification/Delivery_Follow_Up.thy ===== *)
theory Delivery_Follow_Up
  imports Invoice_Settlement
begin

text \<open>
  The follow-up tasks of missed deliveries: \<^verbatim>\<open>modules/tasks/ordering.py\<close> and
  \<^verbatim>\<open>modules/tasks/delivery_follow_up.py\<close>.  The tables are the task lists, the tasks in the order they
  were inserted, and the links from an action's owner to a list and from an order to its task.  A call
  runs inside the transaction of its caller, so the loop that reads again after a concurrent move runs
  once.  The identifiers of \<^verbatim>\<open>uuid4()\<close> are arguments.
\<close>

section \<open>Positions\<close>

definition position_step :: int where "position_step = 1024"

definition position_between :: "int option \<Rightarrow> int option \<Rightarrow> int option res" where
  "position_between previous following =
     (case (previous, following) of
        (None, None) \<Rightarrow> Inr (Some position_step)
      | (None, Some f) \<Rightarrow> Inr (Some (f - position_step))
      | (Some p, None) \<Rightarrow> Inr (Some (p + position_step))
      | (Some p, Some f) \<Rightarrow>
          if p \<ge> f then Inl Value_Error
          else Inr (if f - p > 1 then Some (p + (f - p) div 2) else None))"

lemma position_between_inside:
  "position_between previous following = Inr (Some n) \<Longrightarrow>
     (\<forall>p. previous = Some p \<longrightarrow> p < n) \<and> (\<forall>f. following = Some f \<longrightarrow> n < f)"
  by (cases previous; cases following) (auto simp: position_between_def position_step_def split: if_splits)

section \<open>Tables\<close>

datatype task_status = Task_Open | Task_Done

record task_list_row =
  tl_title :: pystr
  tl_action_id :: uuid
  tl_owner_user_id :: uuid
  tl_order_revision :: int

record task_row =
  tk_id :: uuid
  tk_list_id :: uuid
  tk_title :: pystr
  tk_description :: "pystr option"
  tk_status :: task_status
  tk_assignee_user_id :: "uuid option"
  tk_created_by :: uuid
  tk_epic_id :: "uuid option"
  tk_manual_position :: int
  tk_revision :: int
  tk_updated_at :: datetime

record task_db =
  td_lists :: "uuid \<rightharpoonup> task_list_row"
  td_tasks :: "task_row list"
  td_follow_lists :: "uuid \<times> uuid \<rightharpoonup> uuid"
  td_follow_ups :: "uuid \<rightharpoonup> uuid"
  td_audit :: "audit_event list"

text \<open>The new identifiers a call may use: for a list, a task and an audit event.\<close>

record fresh_ids =
  fi_list :: uuid
  fi_task :: uuid
  fi_audit :: uuid

text \<open>What a call of \<^verbatim>\<open>sync\<close> is asked.\<close>

record sync_request =
  sy_action_id :: uuid
  sy_commitment_id :: uuid
  sy_title :: pystr
  sy_description :: pystr
  sy_needed :: bool
  sy_assignee_user_id :: uuid
  sy_actor_user_id :: uuid
  sy_request_id :: pystr
  sy_occurred_at :: datetime
  sy_closing_note :: "pystr option"

section \<open>Operations\<close>

definition follow_up_list :: "uuid \<Rightarrow> uuid \<Rightarrow> uuid \<Rightarrow> task_db \<Rightarrow> uuid \<times> task_db" where
  "follow_up_list new_id action_id owner db =
     (case td_follow_lists db (action_id, owner) of
        Some l \<Rightarrow> (l, db)
      | None \<Rightarrow> (new_id, db\<lparr>
          td_lists := (td_lists db)(new_id \<mapsto> \<lparr>tl_title = lit ''Nachliefern'', tl_action_id = action_id,
            tl_owner_user_id = owner, tl_order_revision = 1\<rparr>),
          td_follow_lists := (td_follow_lists db)((action_id, owner) \<mapsto> new_id)\<rparr>))"

definition follow_up_task :: "task_db \<Rightarrow> uuid \<Rightarrow> task_row option" where
  "follow_up_task db c =
     (case td_follow_ups db c of None \<Rightarrow> None | Some t \<Rightarrow> find (\<lambda>x. tk_id x = t) (td_tasks db))"

definition last_position :: "task_db \<Rightarrow> uuid \<Rightarrow> int" where
  "last_position db l =
     (case map tk_manual_position (filter (\<lambda>t. tk_list_id t = l \<and> tk_epic_id t = None) (td_tasks db)) of
        [] \<Rightarrow> 0 | p # ps \<Rightarrow> foldl max p ps)"

definition bump_order :: "uuid \<Rightarrow> task_db \<Rightarrow> task_db" where
  "bump_order l db = db\<lparr>td_lists := (td_lists db)(l := map_option
     (\<lambda>r. r\<lparr>tl_order_revision := tl_order_revision r + 1\<rparr>) (td_lists db l))\<rparr>"

definition update_task :: "uuid \<Rightarrow> (task_row \<Rightarrow> task_row) \<Rightarrow> task_db \<Rightarrow> task_db" where
  "update_task i f db = db\<lparr>td_tasks := map (\<lambda>t. if tk_id t = i then f t else t) (td_tasks db)\<rparr>"

definition task_audit :: "uuid \<Rightarrow> sync_request \<Rightarrow> string \<Rightarrow> uuid \<Rightarrow> task_db \<Rightarrow> task_db" where
  "task_audit new_id rq event_type task_id db =
     db\<lparr>td_audit := td_audit db @ [\<lparr>ae_id = new_id, ae_action_id = sy_action_id rq,
       ae_actor_user_id = Some (sy_actor_user_id rq), ae_event_type = event_type,
       ae_entity_type = ''task'', ae_entity_id = task_id, ae_request_id = sy_request_id rq,
       ae_payload = [''commitmentId'' \<mapsto> JStr (uuid_str (sy_commitment_id rq))],
       ae_occurred_at = sy_occurred_at rq\<rparr>]\<rparr>"

definition append_note :: "pystr option \<Rightarrow> pystr option \<Rightarrow> pystr option" where
  "append_note description note =
     (case note of
        None \<Rightarrow> description
      | Some n \<Rightarrow> (case description of
            None \<Rightarrow> Some n
          | Some d \<Rightarrow> if d = [] then Some n else Some (d @ [10] @ n)))"

definition sync_create :: "fresh_ids \<Rightarrow> sync_request \<Rightarrow> task_db \<Rightarrow> task_db" where
  "sync_create ids rq db =
     (case follow_up_list (fi_list ids) (sy_action_id rq) (sy_assignee_user_id rq) db of
        (l, db1) \<Rightarrow>
          let t = \<lparr>tk_id = fi_task ids, tk_list_id = l, tk_title = sy_title rq,
                tk_description = Some (sy_description rq), tk_status = Task_Open,
                tk_assignee_user_id = Some (sy_assignee_user_id rq),
                tk_created_by = sy_actor_user_id rq, tk_epic_id = None,
                tk_manual_position = last_position db1 l + position_step, tk_revision = 1,
                tk_updated_at = sy_occurred_at rq\<rparr>;
              db2 = bump_order l (db1\<lparr>td_tasks := td_tasks db1 @ [t]\<rparr>);
              db3 = db2\<lparr>td_follow_ups := (td_follow_ups db2)(sy_commitment_id rq \<mapsto> fi_task ids)\<rparr>
          in task_audit (fi_audit ids) rq ''tasks.delivery_follow_up_created'' (fi_task ids) db3)"

text \<open>The task goes to the list of whoever closed the window.\<close>

definition sync_move :: "fresh_ids \<Rightarrow> sync_request \<Rightarrow> task_row \<Rightarrow> task_db \<Rightarrow> task_db" where
  "sync_move ids rq t db =
     (case follow_up_list (fi_list ids) (sy_action_id rq) (sy_assignee_user_id rq) db of
        (l, db1) \<Rightarrow>
          let db2 = (if tk_list_id t = l then bump_order l db1
                     else bump_order l (bump_order (tk_list_id t) db1));
              position = last_position db2 l + position_step;
              db3 = update_task (tk_id t) (\<lambda>x. x\<lparr>tk_status := Task_Open,
                  tk_assignee_user_id := Some (sy_assignee_user_id rq), tk_list_id := l,
                  tk_epic_id := None, tk_manual_position := position,
                  tk_revision := tk_revision x + 1, tk_updated_at := sy_occurred_at rq\<rparr>) db2
          in task_audit (fi_audit ids) rq ''tasks.delivery_follow_up_reopened'' (tk_id t) db3)"

definition sync :: "fresh_ids \<Rightarrow> sync_request \<Rightarrow> task_db \<Rightarrow> task_db" where
  "sync ids rq db =
     (case follow_up_task db (sy_commitment_id rq) of
        None \<Rightarrow> if \<not> sy_needed rq then db else sync_create ids rq db
      | Some t \<Rightarrow>
          if sy_needed rq \<and> tk_assignee_user_id t \<noteq> Some (sy_assignee_user_id rq)
          then sync_move ids rq t db
          else let target = (if sy_needed rq then Task_Open else Task_Done) in
            if tk_status t = target then db
            else task_audit (fi_audit ids) rq
              (if sy_needed rq then ''tasks.delivery_follow_up_reopened''
               else ''tasks.delivery_follow_up_closed'') (tk_id t)
              (update_task (tk_id t) (\<lambda>x. x\<lparr>tk_status := target, tk_revision := tk_revision x + 1,
                 tk_updated_at := sy_occurred_at rq,
                 tk_description := append_note (tk_description x)
                   (if sy_needed rq then None else sy_closing_note rq)\<rparr>) db))"

section \<open>The task mirrors what was asked\<close>

definition follow_up_open :: "task_db \<Rightarrow> uuid \<Rightarrow> bool" where
  "follow_up_open db c \<longleftrightarrow> (\<exists>t. follow_up_task db c = Some t \<and> tk_status t = Task_Open)"

definition tasks_ok :: "task_db \<Rightarrow> bool" where
  "tasks_ok db \<longleftrightarrow> distinct (map tk_id (td_tasks db)) \<and> ran (td_follow_ups db) \<subseteq> tk_id ` set (td_tasks db)
     \<and> inj_on (td_follow_ups db) (dom (td_follow_ups db))"

lemma find_by_id:
  "distinct (map tk_id ts) \<Longrightarrow> t \<in> set ts \<Longrightarrow> find (\<lambda>x. tk_id x = tk_id t) ts = Some t"
  by (induction ts) (auto simp: rev_image_eqI)

lemma find_map_id:
  "(\<And>t. tk_id (f t) = tk_id t) \<Longrightarrow>
   find (\<lambda>x. tk_id x = i) (map (\<lambda>t. if tk_id t = j then f t else t) ts)
     = map_option (\<lambda>t. if j = i then f t else t) (find (\<lambda>x. tk_id x = i) ts)"
  by (induction ts) auto

lemma task_tables [simp]:
  "td_tasks (task_audit n rq e t db) = td_tasks db" "td_follow_ups (task_audit n rq e t db) = td_follow_ups db"
  "td_lists (task_audit n rq e t db) = td_lists db"
  "td_tasks (bump_order l db) = td_tasks db" "td_follow_ups (bump_order l db) = td_follow_ups db"
  "td_follow_ups (update_task i f db) = td_follow_ups db"
  "td_tasks (update_task i f db) = map (\<lambda>t. if tk_id t = i then f t else t) (td_tasks db)"
  by (simp_all add: task_audit_def bump_order_def update_task_def)

lemma follow_up_list_tables [simp]:
  "td_tasks (snd (follow_up_list n a u db)) = td_tasks db"
  "td_follow_ups (snd (follow_up_list n a u db)) = td_follow_ups db"
  by (simp_all add: follow_up_list_def split: option.splits)

lemma follow_up_list_simps [simp]:
  "follow_up_list n a u db = (l, db1) \<Longrightarrow> td_tasks db1 = td_tasks db"
  "follow_up_list n a u db = (l, db1) \<Longrightarrow> td_follow_ups db1 = td_follow_ups db"
  using follow_up_list_tables [of n a u db] by simp_all

lemma follow_up_id: "follow_up_task db c = Some t \<Longrightarrow> td_follow_ups db c = Some (tk_id t) \<and> t \<in> set (td_tasks db)"
  by (auto simp: follow_up_task_def find_Some_iff split: option.splits)

text \<open>An update of one task changes the follow-up of its order only.\<close>

lemma updated_follow_up:
  assumes ok: "tasks_ok db" and t: "follow_up_task db c = Some t"
    and f: "\<And>x. tk_id (f x) = tk_id x"
    and db': "td_tasks db' = map (\<lambda>x. if tk_id x = tk_id t then f x else x) (td_tasks db)"
      "td_follow_ups db' = td_follow_ups db"
  shows "tasks_ok db'" "follow_up_task db' c = Some (f t)"
    "d \<noteq> c \<Longrightarrow> follow_up_task db' d = follow_up_task db d"
proof -
  have ids: "map tk_id (td_tasks db') = map tk_id (td_tasks db)" using f db'(1) by simp
  moreover have "tk_id ` set (td_tasks db') = tk_id ` set (td_tasks db)"
    using ids by (metis set_map)
  ultimately show "tasks_ok db'" using ok db'(2) by (simp add: tasks_ok_def)
  show "follow_up_task db' c = Some (f t)"
    using t follow_up_id [OF t] f by (simp add: follow_up_task_def db' find_map_id)
  show "follow_up_task db' d = follow_up_task db d" if "d \<noteq> c"
  proof (cases "td_follow_ups db d")
    case (Some i)
    then have "tk_id t \<noteq> i"
      using ok follow_up_id [OF t] that inj_onD [of "td_follow_ups db" _ d c] by (auto simp: tasks_ok_def)
    then show ?thesis using Some f by (simp add: follow_up_task_def db' find_map_id option.map_ident)
  qed (simp add: follow_up_task_def db')
qed

lemma created_follow_up:
  assumes ok: "tasks_ok db" and none: "follow_up_task db c = None" and fresh: "tk_id t \<notin> tk_id ` set (td_tasks db)"
    and db': "td_tasks db' = td_tasks db @ [t]" "td_follow_ups db' = (td_follow_ups db)(c \<mapsto> tk_id t)"
  shows "tasks_ok db'" "follow_up_task db' c = Some t" "d \<noteq> c \<Longrightarrow> follow_up_task db' d = follow_up_task db d"
proof -
  have old: "td_follow_ups db d \<noteq> Some (tk_id t)" for d
    using ok fresh by (auto simp: tasks_ok_def ran_def)
  show "tasks_ok db'"
    using ok fresh old unfolding tasks_ok_def db' by (auto simp: ran_def inj_on_def split: if_splits)
  have new: "find (\<lambda>x. tk_id x = tk_id t) (ts @ [t]) = Some t" if "tk_id t \<notin> tk_id ` set ts" for ts
    using that by (induction ts) auto
  show "follow_up_task db' c = Some t" using fresh by (simp add: follow_up_task_def db' new)
  have keep: "find (\<lambda>x. tk_id x = i) (ts @ [t]) = find (\<lambda>x. tk_id x = i) ts" if "i \<noteq> tk_id t" for i ts
    using that by (induction ts) auto
  show "follow_up_task db' d = follow_up_task db d" if "d \<noteq> c"
    using that old [of d] by (auto simp: follow_up_task_def db' keep split: option.splits)
qed

lemma sync_mirrors:
  assumes ok: "tasks_ok db" and fresh: "fi_task ids \<notin> tk_id ` set (td_tasks db)"
  shows "tasks_ok (sync ids rq db)"
    and "follow_up_open (sync ids rq db) (sy_commitment_id rq) \<longleftrightarrow> sy_needed rq"
    and "d \<noteq> sy_commitment_id rq \<Longrightarrow> follow_up_task (sync ids rq db) d = follow_up_task db d"
proof -
  let ?c = "sy_commitment_id rq" and ?db = "sync ids rq db"
  have "tasks_ok ?db \<and> (follow_up_open ?db ?c \<longleftrightarrow> sy_needed rq)
      \<and> (\<forall>d. d \<noteq> ?c \<longrightarrow> follow_up_task ?db d = follow_up_task db d)"
  proof (cases "follow_up_task db ?c")
    case None
    show ?thesis
    proof (cases "sy_needed rq")
      case True
      obtain l db1 where l: "follow_up_list (fi_list ids) (sy_action_id rq) (sy_assignee_user_id rq) db = (l, db1)"
        by (cases "follow_up_list (fi_list ids) (sy_action_id rq) (sy_assignee_user_id rq) db")
      define t where "t = \<lparr>tk_id = fi_task ids, tk_list_id = l, tk_title = sy_title rq,
                tk_description = Some (sy_description rq), tk_status = Task_Open,
                tk_assignee_user_id = Some (sy_assignee_user_id rq),
                tk_created_by = sy_actor_user_id rq, tk_epic_id = None,
                tk_manual_position = last_position db1 l + position_step, tk_revision = 1,
                tk_updated_at = sy_occurred_at rq\<rparr>"
      have "td_tasks ?db = td_tasks db @ [t]" "td_follow_ups ?db = (td_follow_ups db)(?c \<mapsto> tk_id t)"
        using None True l by (simp_all add: sync_def sync_create_def Let_def t_def)
      from created_follow_up [OF ok None _ this] fresh True show ?thesis
        by (auto simp: t_def follow_up_open_def)
    qed (use None ok in \<open>simp add: sync_def follow_up_open_def\<close>)
  next
    case (Some t)
    consider "?db = db" "tk_status t = Task_Open \<longleftrightarrow> sy_needed rq"
      | f where "\<And>x. tk_id (f x) = tk_id x" "\<And>x. tk_status (f x) = Task_Open \<longleftrightarrow> sy_needed rq"
          "td_tasks ?db = map (\<lambda>x. if tk_id x = tk_id t then f x else x) (td_tasks db)"
          "td_follow_ups ?db = td_follow_ups db"
    proof (cases "sy_needed rq \<and> tk_assignee_user_id t \<noteq> Some (sy_assignee_user_id rq)")
      case True
      obtain l db1 where l: "follow_up_list (fi_list ids) (sy_action_id rq) (sy_assignee_user_id rq) db = (l, db1)"
        by (cases "follow_up_list (fi_list ids) (sy_action_id rq) (sy_assignee_user_id rq) db")
      show ?thesis
        by (rule that(2) [of "\<lambda>x. x\<lparr>tk_status := Task_Open,
                  tk_assignee_user_id := Some (sy_assignee_user_id rq), tk_list_id := l,
                  tk_epic_id := None, tk_manual_position := last_position (if tk_list_id t = l then bump_order l db1
                     else bump_order l (bump_order (tk_list_id t) db1)) l + position_step,
                  tk_revision := tk_revision x + 1, tk_updated_at := sy_occurred_at rq\<rparr>"])
          (use True Some l in \<open>simp_all add: sync_def sync_move_def Let_def\<close>)
    next
      case False
      show ?thesis
      proof (cases "tk_status t = (if sy_needed rq then Task_Open else Task_Done)")
        case True
        then show ?thesis using False Some that(1) by (auto simp: sync_def Let_def split: if_splits)
      next
        case other: False
        show ?thesis
          by (rule that(2) [of "\<lambda>x. x\<lparr>tk_status := (if sy_needed rq then Task_Open else Task_Done),
                 tk_revision := tk_revision x + 1, tk_updated_at := sy_occurred_at rq,
                 tk_description := append_note (tk_description x)
                   (if sy_needed rq then None else sy_closing_note rq)\<rparr>"])
            (use False other Some in \<open>(cases "sy_needed rq"; simp add: sync_def Let_def)+\<close>)
      qed
    qed
    then show ?thesis
    proof cases
      case 1
      then show ?thesis using ok Some by (simp add: follow_up_open_def)
    next
      case (2 f)
      from updated_follow_up [OF ok Some 2(1,3,4)] 2(2) show ?thesis by (simp add: follow_up_open_def)
    qed
  qed
  then show "tasks_ok ?db" "follow_up_open ?db ?c \<longleftrightarrow> sy_needed rq"
    "d \<noteq> ?c \<Longrightarrow> follow_up_task ?db d = follow_up_task db d" by blast+
qed

lemma sync_ids: "tk_id ` set (td_tasks (sync ids rq db)) \<subseteq> insert (fi_task ids) (tk_id ` set (td_tasks db))"
proof (cases "follow_up_task db (sy_commitment_id rq)")
  case None
  obtain l db1 where l: "follow_up_list (fi_list ids) (sy_action_id rq) (sy_assignee_user_id rq) db = (l, db1)"
    by (cases "follow_up_list (fi_list ids) (sy_action_id rq) (sy_assignee_user_id rq) db")
  show ?thesis using None l by (auto simp: sync_def sync_create_def Let_def)
next
  case (Some t)
  obtain l db1 where l: "follow_up_list (fi_list ids) (sy_action_id rq) (sy_assignee_user_id rq) db = (l, db1)"
    by (cases "follow_up_list (fi_list ids) (sy_action_id rq) (sy_assignee_user_id rq) db")
  have "map tk_id (td_tasks (sync ids rq db)) = map tk_id (td_tasks db)"
    using Some l by (simp add: sync_def sync_move_def Let_def)
  then have "set (map tk_id (td_tasks (sync ids rq db))) = set (map tk_id (td_tasks db))" by (rule arg_cong)
  then show ?thesis by auto
qed

lemma sync_other_open:
  "tasks_ok db \<Longrightarrow> fi_task ids \<notin> tk_id ` set (td_tasks db) \<Longrightarrow> d \<noteq> sy_commitment_id rq \<Longrightarrow>
   follow_up_open (sync ids rq db) d \<longleftrightarrow> follow_up_open db d"
  using sync_mirrors(3) [of db ids d rq] by (simp add: follow_up_open_def)

interpretation tasks: follow_up_tracker tasks_ok "\<lambda>db. tk_id ` set (td_tasks db)" follow_up_open sync
    fi_task sy_commitment_id sy_needed
  by unfold_locales (rule sync_mirrors(1) sync_ids sync_mirrors(2) sync_other_open; assumption)+

end
