(* ===== verification/Py_Json.thy ===== *)
theory Py_Json
  imports Contracts
begin

text \<open>
  The canonical JSON text the program hashes: Python's
  \<^verbatim>\<open>json.dumps(value, ensure_ascii=False, separators=(",", ":"), sort_keys=True)\<close> on the values the
  program passes to it, an object as its members in the order of their keys.  The text determines the
  value, so two requests with the same text are the same request.
\<close>

datatype json =
    Js_Scalar scalar
  | Js_List "json list"
  | Js_Object "(pystr \<times> json) list"

section \<open>Printing\<close>

definition short_escapes :: "(int \<times> int) list" where
  "short_escapes = [(34, 34), (92, 92), (10, 110), (13, 114), (9, 116), (8, 98), (12, 102)]"

definition json_escape :: "int \<Rightarrow> pystr" where
  "json_escape c =
     (case map_of short_escapes c of
        Some e \<Rightarrow> [92, e]
      | None \<Rightarrow> if 0 \<le> c \<and> c < 32 then [92, 117] @ hex_fixed 4 c else [c])"

definition json_quote :: "pystr \<Rightarrow> pystr" where
  "json_quote s = 34 # concat (map json_escape s) @ [34]"

fun scalar_text :: "scalar \<Rightarrow> pystr" where
  "scalar_text JNull = lit ''null''"
| "scalar_text (JBool b) = (if b then lit ''true'' else lit ''false'')"
| "scalar_text (JInt n) = int_str n"
| "scalar_text (JStr s) = json_quote s"

fun json_text :: "json \<Rightarrow> pystr"
  and json_items :: "json list \<Rightarrow> pystr"
  and json_members :: "(pystr \<times> json) list \<Rightarrow> pystr" where
  "json_text (Js_Scalar s) = scalar_text s"
| "json_text (Js_List xs) = 91 # json_items xs @ [93]"
| "json_text (Js_Object ms) = 123 # json_members ms @ [125]"
| "json_items [] = []"
| "json_items (x # xs) = json_text x @ (if xs = [] then [] else 44 # json_items xs)"
| "json_members [] = []"
| "json_members ((k, v) # ms) =
     json_quote k @ 58 # json_text v @ (if ms = [] then [] else 44 # json_members ms)"

text \<open>The member list of a payload whose keys are among the given ones.\<close>

definition payload_members :: "string list \<Rightarrow> payload \<Rightarrow> (pystr \<times> json) list" where
  "payload_members keys p =
     concat (map (\<lambda>k. case p k of None \<Rightarrow> [] | Some v \<Rightarrow> [(lit k, Js_Scalar v)]) keys)"

section \<open>The text determines the value\<close>

lemma hex_fixed_inj:
  assumes "hex_fixed (Suc k) a = hex_fixed (Suc k) b" "0 \<le> a" "a < 16 ^ Suc k" "0 \<le> b" "b < 16 ^ Suc k"
  shows "a = b"
proof -
  have "digits_val 16 0 False (hex_fixed (Suc k) a) = Some (0 * 16 ^ Suc k + a)"
    by (rule digits_val_hex) fact+
  moreover have "digits_val 16 0 False (hex_fixed (Suc k) b) = Some (0 * 16 ^ Suc k + b)"
    by (rule digits_val_hex) fact+
  ultimately have "Some (0 * 16 ^ Suc k + a) = Some (0 * 16 ^ Suc k + b)"
    unfolding assms(1) by (rule trans [OF sym])
  then show ?thesis by simp
qed

lemma short_escapes_inj:
  "map_of short_escapes c = Some e \<Longrightarrow> map_of short_escapes d = Some e \<Longrightarrow> c = d"
  by (simp add: short_escapes_def split: if_splits)

lemma short_escapes_facts:
  "map_of short_escapes c = Some e \<Longrightarrow> e \<noteq> 117" "map_of short_escapes 92 = Some 92"
  "map_of short_escapes 34 = Some 34"
  by (simp_all add: short_escapes_def split: if_splits)

lemma hex_four_inj:
  assumes "hex_fixed 4 a = hex_fixed 4 b" "0 \<le> a" "a < 32" "0 \<le> b" "b < 32"
  shows "a = b"
proof -
  have four: "4 = Suc 3" by simp
  have "hex_fixed (Suc 3) a = hex_fixed (Suc 3) b" using assms(1) unfolding four .
  then show ?thesis by (rule hex_fixed_inj) (use assms in simp_all)
qed

lemma json_escape_inj:
  assumes "json_escape c @ x = json_escape d @ y"
  shows "c = d \<and> x = y"
proof -
  have plain: "c \<noteq> 92" if "map_of short_escapes c = None" for c using short_escapes_facts(2) that by auto
  have hex: "c = d \<and> x = y" if "hex_fixed 4 c @ x = hex_fixed 4 d @ y" "0 \<le> c" "c < 32" "0 \<le> d" "d < 32"
  proof -
    from that(1) have "hex_fixed 4 c = hex_fixed 4 d" "x = y" by simp_all
    then show ?thesis using hex_four_inj [of c d] that(2-5) by blast
  qed
  show ?thesis
  proof (cases "map_of short_escapes c"; cases "map_of short_escapes d")
    assume "map_of short_escapes c = None" "map_of short_escapes d = None"
    then show ?thesis using assms plain [of c] plain [of d] hex by (auto simp: json_escape_def split: if_splits)
  next
    fix e assume "map_of short_escapes c = None" "map_of short_escapes d = Some e"
    then show ?thesis using assms plain [of c] short_escapes_facts(1) by (auto simp: json_escape_def split: if_splits)
  next
    fix e assume "map_of short_escapes c = Some e" "map_of short_escapes d = None"
    then show ?thesis using assms plain [of d] short_escapes_facts(1) by (auto simp: json_escape_def split: if_splits)
  next
    fix e f assume "map_of short_escapes c = Some e" "map_of short_escapes d = Some f"
    then show ?thesis using assms short_escapes_inj by (auto simp: json_escape_def)
  qed
qed

lemma json_escape_head: "\<exists>h t. json_escape c = h # t \<and> h \<noteq> 34"
  using short_escapes_facts(3) by (cases "map_of short_escapes c") (auto simp: json_escape_def)

lemma json_chars_inj:
  "concat (map json_escape s) @ 34 # x = concat (map json_escape t) @ 34 # y \<Longrightarrow> s = t \<and> x = y"
proof (induction s arbitrary: t)
  case Nil
  then show ?case using json_escape_head by (cases t) (auto, metis list.inject append_Cons)
next
  case (Cons c s)
  show ?case
  proof (cases t)
    case Nil
    then show ?thesis using Cons.prems json_escape_head [of c] by auto
  next
    case (Cons d u)
    then show ?thesis using Cons.prems Cons.IH [of u] json_escape_inj [of c _ d] by auto
  qed
qed

lemma json_quote_inj: "json_quote s @ x = json_quote t @ y \<Longrightarrow> s = t \<and> x = y"
  using json_chars_inj [of s x t y] by (simp add: json_quote_def)

text \<open>What may follow a value.\<close>

definition ends_value :: "pystr \<Rightarrow> bool" where
  "ends_value r \<longleftrightarrow> r = [] \<or> hd r \<in> {44, 93, 125}"

lemma ends_value_simps [simp]:
  "ends_value []" "ends_value (44 # r)" "ends_value (93 # r)" "ends_value (125 # r)"
  by (simp_all add: ends_value_def)

lemma digits_end:
  assumes "s @ x = t @ y" "list_all is_09 s" "list_all is_09 t" "ends_value x" "ends_value y"
  shows "s = t \<and> x = y"
proof -
  have e: "takeWhile is_09 z = []" if "ends_value z" for z
    using that by (cases z) (auto simp: ends_value_def is_09_def)
  have "takeWhile is_09 (s @ x) = s"
    using assms(2) by (simp add: takeWhile_append2 list_all_iff e [OF assms(4)])
  moreover have "takeWhile is_09 (t @ y) = t"
    using assms(3) by (simp add: takeWhile_append2 list_all_iff e [OF assms(5)])
  ultimately have "s = t" using assms(1) by (simp only:)
  then show ?thesis using assms(1) by simp
qed

lemma nat_digits_inj: "nat_digits m = nat_digits n \<Longrightarrow> m = n"
  by (metis digits_value_nat nat_int)

lemma nat_digits_ne: "nat_digits n \<noteq> []"
  by (subst nat_digits.simps) simp

lemma nat_digits_hd: "hd (nat_digits n @ x) \<noteq> 45"
  using nat_digits_09 [of n] nat_digits_ne [of n] by (cases "nat_digits n") (auto simp: is_09_def)

lemma int_str_inj:
  assumes "int_str m @ x = int_str n @ y" "ends_value x" "ends_value y"
  shows "m = n \<and> x = y"
proof (cases "m < 0"; cases "n < 0")
  assume "m < 0" "n < 0"
  then show ?thesis
    using assms digits_end [of "nat_digits (nat (- m))" x "nat_digits (nat (- n))" y] nat_digits_09
      nat_digits_inj [of "nat (- m)" "nat (- n)"] by (auto simp: int_str_def)
next
  assume "\<not> m < 0" "\<not> n < 0"
  then show ?thesis
    using assms digits_end [of "nat_digits (nat m)" x "nat_digits (nat n)" y] nat_digits_09
      nat_digits_inj [of "nat m" "nat n"] by (auto simp: int_str_def)
next
  assume "m < 0" "\<not> n < 0"
  then show ?thesis using assms nat_digits_hd [of "nat n" y] by (auto simp: int_str_def dest: arg_cong [where f = hd])
next
  assume "\<not> m < 0" "n < 0"
  then show ?thesis using assms nat_digits_hd [of "nat m" x] by (auto simp: int_str_def dest: arg_cong [where f = hd])
qed

text \<open>The first character tells the kinds of values apart.\<close>

definition number_head :: "int \<Rightarrow> bool" where
  "number_head c \<longleftrightarrow> c = 45 \<or> is_09 c"

lemma int_str_head: "\<exists>h t. int_str n = h # t \<and> number_head h"
  using nat_digits_09 [of "nat n"] nat_digits_ne [of "nat n"]
  by (cases "nat_digits (nat n)") (auto simp: int_str_def number_head_def)

definition scalar_kind :: "int \<Rightarrow> nat" where
  "scalar_kind c = (if c = 110 then 0 else if c = 116 then 1 else if c = 102 then 2 else if c = 34 then 3 else 4)"

fun scalar_tag :: "scalar \<Rightarrow> nat" where
  "scalar_tag JNull = 0"
| "scalar_tag (JBool b) = (if b then 1 else 2)"
| "scalar_tag (JStr s) = 3"
| "scalar_tag (JInt n) = 4"

lemma scalar_kind_text: "scalar_kind (hd (scalar_text s @ x)) = scalar_tag s"
proof (cases s)
  case (JInt n)
  then show ?thesis
    using int_str_head [of n] by (auto simp: scalar_kind_def number_head_def is_09_def)
qed (simp_all add: scalar_kind_def lit_def json_quote_def)

lemma scalar_text_inj:
  assumes "scalar_text u @ x = scalar_text v @ y" "ends_value x" "ends_value y"
  shows "u = v \<and> x = y"
proof -
  have "scalar_kind (hd (scalar_text u @ x)) = scalar_kind (hd (scalar_text v @ y))"
    using assms(1) by (rule arg_cong)
  then have kind: "scalar_tag u = scalar_tag v"
    unfolding scalar_kind_text .
  show ?thesis
  proof (cases u)
    case (JInt m)
    then obtain n where "v = JInt n" using kind by (cases v) (auto split: if_splits)
    then show ?thesis using JInt assms int_str_inj [of m x n y] by simp
  next
    case (JStr s)
    then obtain t where "v = JStr t" using kind by (cases v) (auto split: if_splits)
    then show ?thesis using JStr assms(1) json_quote_inj [of s x t y] by simp
  next
    case JNull
    then have "v = JNull" using kind by (cases v) (auto split: if_splits)
    then show ?thesis using JNull assms(1) by simp
  next
    case (JBool b)
    then have "v = JBool b" using kind by (cases v) (auto split: if_splits)
    then show ?thesis using JBool assms(1) by simp
  qed
qed
lemma scalar_text_start: "\<exists>h t. scalar_text s = h # t \<and> h \<notin> {91, 93, 123, 125}"
proof (cases s)
  case (JInt n)
  then show ?thesis using int_str_head [of n] by (auto simp: number_head_def is_09_def)
qed (simp_all add: lit_def json_quote_def)

lemma json_text_start: "\<exists>h t. json_text v = h # t \<and> h \<notin> {93, 125}"
  using scalar_text_start by (cases v) fastforce+

lemma json_items_Nil: "json_items xs @ 93 # r = 93 # s \<Longrightarrow> xs = [] \<and> r = s"
proof (cases xs)
  case (Cons v vs)
  moreover assume "json_items xs @ 93 # r = 93 # s"
  ultimately show ?thesis using json_text_start [of v] by auto
qed simp

lemma json_members_Nil: "json_members ms @ 125 # r = 125 # s \<Longrightarrow> ms = [] \<and> r = s"
  by (cases ms) (auto simp: json_quote_def)

definition json_kind :: "int \<Rightarrow> nat" where
  "json_kind c = (if c = 91 then 1 else if c = 123 then 2 else 0)"

fun json_tag :: "json \<Rightarrow> nat" where
  "json_tag (Js_Scalar s) = 0"
| "json_tag (Js_List xs) = 1"
| "json_tag (Js_Object ms) = 2"

lemma json_kind_text: "json_kind (hd (json_text v @ x)) = json_tag v"
proof (cases v)
  case (Js_Scalar s)
  then show ?thesis using scalar_text_start [of s] by (auto simp: json_kind_def)
qed (simp_all add: json_kind_def)

lemma json_same_tag: "json_text v @ x = json_text w @ y \<Longrightarrow> json_tag v = json_tag w"
  using json_kind_text [of v x] json_kind_text [of w y] by simp

text \<open>A value is recovered from its text, whatever follows it.\<close>

lemma json_prefix_free:
  "json_text v @ x = json_text w @ y \<Longrightarrow> ends_value x \<Longrightarrow> ends_value y \<Longrightarrow> v = w \<and> x = y"
  "json_items vs @ 93 # x = json_items ws @ 93 # y \<Longrightarrow> vs = ws \<and> x = y"
  "json_members ms @ 125 # x = json_members ns @ 125 # y \<Longrightarrow> ms = ns \<and> x = y"
proof (induction v and vs and ms arbitrary: w x y and ws x y and ns x y
    rule: json_text_json_items_json_members.induct)
  case (1 s)
  then obtain t where w: "w = Js_Scalar t"
    using json_same_tag [OF 1(1)] by (cases w) simp_all
  then show ?case using 1 scalar_text_inj [of s x t y] by simp
next
  case (2 xs)
  obtain zs where w: "w = Js_List zs"
    using json_same_tag [OF 2(2)] by (cases w) simp_all
  then show ?case using 2(1) [of x zs y] 2(2) by simp
next
  case (3 ms)
  obtain ns where w: "w = Js_Object ns"
    using json_same_tag [OF 3(2)] by (cases w) simp_all
  then show ?case using 3(1) [of x ns y] 3(2) by simp
next
  case 4
  then show ?case using json_items_Nil [of ws y x] by auto
next
  case (5 v vs)
  show ?case
  proof (cases ws)
    case Nil
    then show ?thesis using 5(3) json_items_Nil [of "v # vs" x y] by simp
  next
    case (Cons w us)
    let ?r = "(if vs = [] then [] else 44 # json_items vs) @ 93 # x"
      and ?s = "(if us = [] then [] else 44 # json_items us) @ 93 # y"
    have "json_text v @ ?r = json_text w @ ?s" using 5(3) Cons by simp
    then have "v = w \<and> ?r = ?s" by (rule 5(1)) (simp_all split: if_splits)
    then have w: "v = w" and r: "?r = ?s" by simp_all
    show ?thesis
    proof (cases "vs = [] \<or> us = []")
      case True
      then show ?thesis using r w Cons by (auto split: if_splits)
    next
      case False
      then have "json_items vs @ 93 # x = json_items us @ 93 # y" using r by simp
      from 5(2) [OF _ this] False w Cons show ?thesis by simp
    qed
  qed
next
  case 6
  then show ?case using json_members_Nil [of ns y x] by auto
next
  case (7 k v ms)
  show ?case
  proof (cases ns)
    case Nil
    then show ?thesis using 7(3) json_members_Nil [of "(k, v) # ms" x y] by simp
  next
    case (Cons n us)
    obtain l w where n: "n = (l, w)" by (cases n)
    let ?r = "(if ms = [] then [] else 44 # json_members ms) @ 125 # x"
      and ?s = "(if us = [] then [] else 44 # json_members us) @ 125 # y"
    have "json_quote k @ (58 # json_text v @ ?r) = json_quote l @ (58 # json_text w @ ?s)"
      using 7(3) Cons n by simp
    then have "k = l \<and> 58 # json_text v @ ?r = 58 # json_text w @ ?s" by (rule json_quote_inj)
    then have k: "k = l" and rest: "json_text v @ ?r = json_text w @ ?s" by blast+
    have "v = w \<and> ?r = ?s" using rest by (rule 7(1)) (simp_all split: if_splits)
    then have w: "v = w" and r: "?r = ?s" by blast+
    show ?thesis
    proof (cases "ms = [] \<or> us = []")
      case True
      then show ?thesis using r w k n Cons by (auto split: if_splits)
    next
      case False
      then have "json_members ms @ 125 # x = json_members us @ 125 # y" using r by simp
      from 7(2) [OF _ this] False w k n Cons show ?thesis by simp
    qed
  qed
qed

lemma json_text_inj: "json_text v = json_text w \<longleftrightarrow> v = w"
  using json_prefix_free(1) [of v "[]" w "[]"] by auto

end
