(* ===== verification/Delivery_Board.thy ===== *)
theory Delivery_Board
  imports Delivery_Follow_Up Py_Json Delivery_Planning Identity_Access
begin

text \<open>
  The delivery day board: \<^verbatim>\<open>domain/delivery_board.py\<close>, the permission checks of
  \<^verbatim>\<open>application/delivery_board.py\<close> and the transactions of \<^verbatim>\<open>adapters/postgres/delivery_board.py\<close>.
  A drop is an order booked into a delivery window; its delivery row says whether it was delivered or
  missed, who drives it and how often it changed.  Rows are read in the order of the database collation,
  which is an argument of the store; row locks are left out, each transaction being one step.
\<close>

section \<open>The decision\<close>

datatype drop_state = Drop_Open | Drop_Delivered | Drop_Missed

fun drop_state_value :: "drop_state \<Rightarrow> pystr" where
  "drop_state_value Drop_Open = lit ''open''"
| "drop_state_value Drop_Delivered = lit ''delivered''"
| "drop_state_value Drop_Missed = lit ''missed''"

definition deliverable_statuses :: "commitment_status set" where
  "deliverable_statuses = {Review_Ready, Confirmed, Invoiced}"

record state_change =
  sc_new_state :: drop_state
  sc_follow_up_needed :: "bool option"

definition decide_state_change ::
  "drop_state \<Rightarrow> bool \<Rightarrow> bool \<Rightarrow> bool \<Rightarrow> bool \<Rightarrow> bool \<Rightarrow> state_change option res" where
  "decide_state_change current delivered window_closed manager assigned_driver missed_at_closure =
     (if \<not> (manager \<or> assigned_driver) then Inl (Board_Error ''delivery_not_assigned'' 403)
      else if \<not> window_closed then
        (if current = Drop_Missed then Inl (Board_Error ''delivery_state_invalid'' 409)
         else let target = (if delivered then Drop_Delivered else Drop_Open) in
           if target = current then Inr None
           else Inr (Some \<lparr>sc_new_state = target, sc_follow_up_needed = None\<rparr>))
      else if \<not> manager then Inl (Board_Error ''delivery_window_closed'' 409)
      else if delivered then
        (if current = Drop_Delivered then Inr None
         else if current = Drop_Missed
         then Inr (Some \<lparr>sc_new_state = Drop_Delivered, sc_follow_up_needed = Some False\<rparr>)
         else Inr (Some \<lparr>sc_new_state = Drop_Delivered, sc_follow_up_needed = None\<rparr>))
      else if current \<noteq> Drop_Delivered then Inr None
      else if missed_at_closure
      then Inr (Some \<lparr>sc_new_state = Drop_Missed, sc_follow_up_needed = Some True\<rparr>)
      else Inl (Board_Error ''delivery_window_closed'' 409))"

fun filter_upcoming :: "date \<Rightarrow> date list \<Rightarrow> date list" where
  "filter_upcoming today [] = []"
| "filter_upcoming today (d # ds) = (if d > today then d # filter_upcoming today ds else filter_upcoming today ds)"

definition board_day :: "date list \<Rightarrow> date option \<Rightarrow> date \<Rightarrow> date option" where
  "board_day days requested today =
     (if requested \<noteq> None \<and> the requested \<in> set days then requested
      else if days = [] then None
      else if today \<in> set days then Some today
      else case filter_upcoming today days of d # _ \<Rightarrow> Some d | [] \<Rightarrow> Some (last days))"

section \<open>Tables\<close>

record delivery_row =
  dv_action_id :: uuid
  dv_driver_user_id :: "uuid option"
  dv_driver_assigned_by :: "uuid option"
  dv_driver_assigned_at :: "datetime option"
  dv_state :: drop_state
  dv_state_changed_at :: "datetime option"
  dv_state_changed_by :: "uuid option"
  dv_missed_at_closure :: bool
  dv_revision :: int

record window_row =
  wi_id :: uuid
  wi_action_id :: uuid
  wi_starts_at :: datetime
  wi_ends_at :: datetime
  wi_retired :: bool
  wi_fully_booked :: bool

record closure_row =
  co_action_id :: uuid
  co_closed_at :: datetime
  co_closed_by_user_id :: uuid
  co_missed_count :: int

text \<open>The action with its capabilities and its delivery configuration, its zone loaded by name.\<close>

record board_context =
  bx_name :: pystr
  bx_status :: action_status
  bx_starts_on :: date
  bx_ends_on :: date
  bx_ordering :: bool
  bx_invoicing :: bool
  bx_enabled :: bool
  bx_capable :: bool
  bx_timezone :: pystr
  bx_zone :: tz
  bx_revision :: int

record board_event =
  be_id :: uuid
  be_action_id :: uuid
  be_actor_user_id :: "uuid option"
  be_event_type :: string
  be_entity_type :: string
  be_entity_id :: uuid
  be_request_id :: pystr
  be_payload :: json
  be_occurred_at :: datetime

record read_audit =
  ra_driver_user_id :: uuid
  ra_window_id :: uuid
  ra_viewed_on :: date
  ra_action_id :: uuid
  ra_first_viewed_at :: datetime

text \<open>\<open>bd_follow_ups\<close> tells whether the tasks module is enabled.\<close>

record board_db =
  bd_contexts :: "uuid \<rightharpoonup> board_context"
  bd_windows :: "window_row list"
  bd_orders :: "commitment list"
  bd_deliveries :: "uuid \<rightharpoonup> delivery_row"
  bd_closures :: "uuid \<rightharpoonup> closure_row"
  bd_names :: "uuid \<rightharpoonup> pystr"
  bd_collation :: "pystr \<Rightarrow> nat"
  bd_follow_ups :: bool
  bd_tasks :: task_db
  bd_audit :: "board_event list"
  bd_read_audits :: "read_audit list"

record drop_address =
  da_recipient_name :: pystr
  da_street_line_1 :: pystr
  da_postal_code :: pystr
  da_city :: pystr

record delivery_drop =
  dd_commitment_id :: uuid
  dd_window_id :: "uuid option"
  dd_buyer_name :: pystr
  dd_quantities :: "(offering_unit \<times> int) list"
  dd_total_boxes :: int
  dd_address :: "drop_address option"
  dd_contact :: "(pystr option \<times> pystr option) option"
  dd_state :: drop_state
  dd_state_changed_at :: "datetime option"
  dd_state_changed_by_name :: "pystr option"
  dd_driver_user_id :: "uuid option"
  dd_driver_name :: "pystr option"
  dd_revision :: int
  dd_order_status :: "commitment_status option"
  dd_missed_at_closure :: bool

section \<open>Reading drops\<close>

definition row_state :: "board_db \<Rightarrow> uuid \<Rightarrow> drop_state" where
  "row_state db c = (case bd_deliveries db c of None \<Rightarrow> Drop_Open | Some d \<Rightarrow> dv_state d)"

definition row_missed :: "board_db \<Rightarrow> uuid \<Rightarrow> bool" where
  "row_missed db c = (case bd_deliveries db c of None \<Rightarrow> False | Some d \<Rightarrow> dv_missed_at_closure d)"

definition row_driver :: "board_db \<Rightarrow> uuid \<Rightarrow> uuid option" where
  "row_driver db c = (case bd_deliveries db c of None \<Rightarrow> None | Some d \<Rightarrow> dv_driver_user_id d)"

definition row_revision :: "board_db \<Rightarrow> uuid \<Rightarrow> int" where
  "row_revision db c = (case bd_deliveries db c of None \<Rightarrow> 0 | Some d \<Rightarrow> dv_revision d)"

definition nonempty :: "pystr option \<Rightarrow> pystr option" where
  "nonempty x = (if x = Some [] then None else x)"

text \<open>The quantities of an order by unit, in the order of the unit names.\<close>

definition drop_quantities :: "commitment \<Rightarrow> (offering_unit \<times> int) list" where
  "drop_quantities od = map (\<lambda>u. (u, sum_list (map cl_quantity (filter (\<lambda>l. cl_unit_snapshot l = u) (cm_lines od)))))
     (filter (\<lambda>u. list_ex (\<lambda>l. cl_unit_snapshot l = u) (cm_lines od)) [Box, Package, Piece, Sponsoring])"

definition drop_of :: "board_db \<Rightarrow> bool \<Rightarrow> commitment \<Rightarrow> delivery_drop" where
  "drop_of db manager od = (let c = cm_id od; row = bd_deliveries db c; qs = drop_quantities od in \<lparr>
     dd_commitment_id = c, dd_window_id = cm_delivery_window_id od,
     dd_buyer_name = (if by_display_name (cm_buyer od) = [] then lit ''Besteller'' else by_display_name (cm_buyer od)),
     dd_quantities = qs,
     dd_total_boxes = sum_list (map snd (filter (\<lambda>q. fst q = Box) qs)),
     dd_address = map_option (\<lambda>r. \<lparr>da_recipient_name = dr_recipient_name r,
       da_street_line_1 = dr_street_line_1 r, da_postal_code = dr_postal_code r, da_city = dr_city r\<rparr>)
       (cm_delivery_recipient od),
     dd_contact = map_option (\<lambda>k. (nonempty (dk_name k), nonempty (dk_phone k))) (cm_delivery_contact od),
     dd_state = row_state db c,
     dd_state_changed_at = (if manager then Option.bind row dv_state_changed_at else None),
     dd_state_changed_by_name =
       (if manager then Option.bind (Option.bind row dv_state_changed_by) (bd_names db) else None),
     dd_driver_user_id = row_driver db c,
     dd_driver_name = (if manager then Option.bind (row_driver db c) (bd_names db) else None),
     dd_revision = row_revision db c,
     dd_order_status = (if manager then Some (cm_status od) else None),
     dd_missed_at_closure = row_missed db c\<rparr>)"

definition shown_order :: "board_db \<Rightarrow> uuid \<Rightarrow> uuid list \<Rightarrow> uuid option \<Rightarrow> bool \<Rightarrow> uuid option \<Rightarrow> commitment \<Rightarrow> bool" where
  "shown_order db action_id window_ids driver manager only od \<longleftrightarrow>
     cm_action_id od = action_id
     \<and> (case cm_delivery_window_id od of None \<Rightarrow> False | Some w \<Rightarrow> w \<in> set window_ids)
     \<and> (cm_status od \<in> deliverable_statuses \<or> manager \<and> row_state db (cm_id od) = Drop_Delivered)
     \<and> (driver = None \<or> row_driver db (cm_id od) = driver)
     \<and> (only = None \<or> only = Some (cm_id od))"

definition drops ::
  "board_db \<Rightarrow> uuid \<Rightarrow> uuid list \<Rightarrow> uuid option \<Rightarrow> bool \<Rightarrow> uuid option \<Rightarrow> delivery_drop list" where
  "drops db action_id window_ids driver manager only =
     map (drop_of db manager)
       (sort_key (\<lambda>od. (bd_collation db (by_display_name (cm_buyer od)), uint (cm_id od)))
         (filter (shown_order db action_id window_ids driver manager only) (bd_orders db)))"

section \<open>Texts of a follow-up\<close>

definition weekday_names :: "pystr list" where
  "weekday_names = map lit [''Mo'', ''Di'', ''Mi'', ''Do'', ''Fr'', ''Sa'', ''So'']"

definition window_label :: "datetime \<Rightarrow> datetime \<Rightarrow> tz \<Rightarrow> pystr res" where
  "window_label starts_at ends_at zone =
     then_res (zone_wall zone (instant starts_at)) (\<lambda>s.
     then_res (zone_wall zone (instant ends_at)) (\<lambda>e.
     let clock = (\<lambda>w. two (w mod day_us div (60 * minute_us)) @ [58] @ two (w mod day_us div minute_us mod 60));
         day = date_of_wall s in
     case ymd day of (_, m, d) \<Rightarrow>
       Inr (weekday_names ! nat ((day + 6) mod 7) @ [32] @ two d @ [46] @ two m @ [46] @ [32, 183, 32]
         @ clock s @ [8211] @ clock e @ lit '' Uhr'')))"

definition order_reference :: "uuid \<Rightarrow> pystr option \<Rightarrow> pystr" where
  "order_reference c ref =
     (case nonempty ref of Some r \<Rightarrow> r
      | None \<Rightarrow> 8230 # drop (length (uuid_str c) - 8) (uuid_str c))"

definition order_link :: "uuid \<Rightarrow> uuid \<Rightarrow> pystr" where
  "order_link action_id c =
     lit ''/admin/orders?action='' @ uuid_str action_id @ lit ''&view=all&open='' @ uuid_str c"

definition follow_up_request ::
  "uuid \<Rightarrow> uuid \<Rightarrow> pystr option \<Rightarrow> pystr \<Rightarrow> bool \<Rightarrow> uuid \<Rightarrow> uuid \<Rightarrow> pystr \<Rightarrow> datetime \<Rightarrow> sync_request" where
  "follow_up_request action_id c ref label needed assignee actor request_id at = \<lparr>
     sy_action_id = action_id, sy_commitment_id = c,
     sy_title = lit ''Nachliefern: Bestellung '' @ order_reference c ref,
     sy_description = lit ''Nicht geliefert im Fenster '' @ label @ [46, 10] @ lit ''Bestellung '' @ [246]
       @ lit ''ffnen: '' @ order_link action_id c,
     sy_needed = needed, sy_assignee_user_id = assignee, sy_actor_user_id = actor,
     sy_request_id = request_id, sy_occurred_at = at, sy_closing_note = None\<rparr>"

definition order_public_reference :: "board_db \<Rightarrow> uuid \<Rightarrow> pystr option" where
  "order_public_reference db c =
     Option.bind (find (\<lambda>od. cm_id od = c) (bd_orders db)) cm_public_reference"

definition sync_follow_up :: "fresh_ids \<Rightarrow> sync_request \<Rightarrow> board_db \<Rightarrow> board_db" where
  "sync_follow_up ids rq db =
     (if \<not> bd_follow_ups db then db else db\<lparr>bd_tasks := sync ids rq (bd_tasks db)\<rparr>)"

definition board_zone :: "board_db \<Rightarrow> uuid \<Rightarrow> tz res" where
  "board_zone db action_id =
     (case bd_contexts db action_id of
        None \<Rightarrow> Inl (App Resource_Not_Found ''delivery_not_enabled'')
      | Some x \<Rightarrow>
          if \<not> bx_capable x \<or> \<not> bx_enabled x
          then Inl (App Resource_Not_Found ''delivery_not_enabled'') else Inr (bx_zone x))"

section \<open>The board of a day\<close>

record window_closure =
  wc_closed_at :: datetime
  wc_closed_by_name :: pystr
  wc_missed_count :: int

record board_window =
  bw_id :: uuid
  bw_starts_at :: datetime
  bw_ends_at :: datetime
  bw_retired :: bool
  bw_closure :: "window_closure option"
  bw_drops :: "delivery_drop list"
  bw_fully_booked :: bool

record delivery_board =
  db_action_id :: uuid
  db_day :: "date option"
  db_days :: "date list"
  db_manager :: bool
  db_windows :: "board_window list"
  db_drivers :: "(uuid \<times> pystr) list"
  db_follow_up_tasks :: bool

definition add_read_audit :: "read_audit \<Rightarrow> read_audit list \<Rightarrow> read_audit list" where
  "add_read_audit r rows =
     (if list_ex (\<lambda>x. ra_driver_user_id x = ra_driver_user_id r \<and> ra_window_id x = ra_window_id r
         \<and> ra_viewed_on x = ra_viewed_on r) rows then rows else rows @ [r])"

definition shown_window :: "board_db \<Rightarrow> bool \<Rightarrow> delivery_drop list \<Rightarrow> window_row \<Rightarrow> board_window" where
  "shown_window db manager ds r = \<lparr>bw_id = wi_id r, bw_starts_at = wi_starts_at r, bw_ends_at = wi_ends_at r,
     bw_retired = wi_retired r,
     bw_closure = map_option (\<lambda>k. \<lparr>wc_closed_at = co_closed_at k,
       wc_closed_by_name = (if manager
         then (case bd_names db (co_closed_by_user_id k) of None \<Rightarrow> lit ''None'' | Some n \<Rightarrow> n) else []),
       wc_missed_count = co_missed_count k\<rparr>) (bd_closures db (wi_id r)),
     bw_drops = filter (\<lambda>d. dd_window_id d = Some (wi_id r)) ds,
     bw_fully_booked = wi_fully_booked r\<rparr>"

text \<open>\<open>drivers\<close> lists the active drivers of the action, by name.\<close>

definition board ::
  "(uuid \<Rightarrow> (uuid \<times> pystr) list) \<Rightarrow> uuid \<Rightarrow> date option \<Rightarrow> uuid option \<Rightarrow> datetime \<Rightarrow> board_db
   \<Rightarrow> (delivery_board \<times> board_db) res" where
  "board drivers action_id day driver viewed_at db =
     then_res (board_zone db action_id) (\<lambda>zone.
     let manager = (driver = None);
         windows = sort_key (\<lambda>r. (instant (wi_starts_at r), uint (wi_id r)))
           (filter (\<lambda>r. wi_action_id r = action_id) (bd_windows db));
         ds = drops db action_id (map wi_id windows) driver manager None;
         visible = filter (\<lambda>r. list_ex (\<lambda>d. dd_window_id d = Some (wi_id r)) ds \<or> manager \<and> \<not> wi_retired r) windows
     in then_res (map_res (\<lambda>r. then_res (local_day zone (wi_starts_at r)) (\<lambda>d. Inr (r, d))) visible) (\<lambda>dated.
        then_res (local_day zone viewed_at) (\<lambda>today.
        let days = sorted_list_of_set (snd ` set dated);
            selected = board_day days day today;
            chosen = map fst (filter (\<lambda>x. selected = Some (snd x)) dated);
            audits = (case driver of
                None \<Rightarrow> bd_read_audits db
              | Some u \<Rightarrow> fold (\<lambda>r. add_read_audit \<lparr>ra_driver_user_id = u, ra_window_id = wi_id r,
                  ra_viewed_on = today, ra_action_id = action_id, ra_first_viewed_at = viewed_at\<rparr>)
                  chosen (bd_read_audits db))
        in Inr (\<lparr>db_action_id = action_id, db_day = selected, db_days = days, db_manager = manager,
             db_windows = map (shown_window db manager ds) chosen,
             db_drivers = (if manager then drivers action_id else []),
             db_follow_up_tasks = bd_follow_ups db\<rparr>,
           db\<lparr>bd_read_audits := audits\<rparr>))))"

text \<open>Deletes what is older than the retention, at most \<open>limit\<close> rows in the order a scan meets them.\<close>

definition read_audit_retention_days :: int where "read_audit_retention_days = 90"

fun purge_rows :: "int \<Rightarrow> nat \<Rightarrow> read_audit list \<Rightarrow> read_audit list" where
  "purge_rows cutoff 0 rows = rows"
| "purge_rows cutoff (Suc n) [] = []"
| "purge_rows cutoff (Suc n) (r # rows) =
     (if instant (ra_first_viewed_at r) < cutoff then purge_rows cutoff n rows
      else r # purge_rows cutoff (Suc n) rows)"

definition purge_read_audits :: "datetime \<Rightarrow> nat \<Rightarrow> board_db \<Rightarrow> (int \<times> board_db) res" where
  "purge_read_audits now limit db =
     (if \<not> in_range (wall now - read_audit_retention_days * day_us) then Inl Overflow_Error
      else let rows = purge_rows (instant now - read_audit_retention_days * day_us) limit (bd_read_audits db) in
        Inr (int (length (bd_read_audits db)) - int (length rows), db\<lparr>bd_read_audits := rows\<rparr>))"

section \<open>Commands\<close>

definition lock_window :: "board_db \<Rightarrow> uuid \<Rightarrow> uuid \<Rightarrow> (window_row \<times> bool) res" where
  "lock_window db action_id w =
     (case find (\<lambda>r. wi_action_id r = action_id \<and> wi_id r = w) (bd_windows db) of
        None \<Rightarrow> Inl (App Resource_Not_Found ''delivery_window_not_found'')
      | Some r \<Rightarrow> Inr (r, bd_closures db w \<noteq> None))"

definition add_event :: "board_event \<Rightarrow> board_db \<Rightarrow> board_db" where
  "add_event e db = db\<lparr>bd_audit := bd_audit db @ [e]\<rparr>"

definition new_row :: "uuid \<Rightarrow> delivery_row" where
  "new_row action_id = \<lparr>dv_action_id = action_id, dv_driver_user_id = None, dv_driver_assigned_by = None,
     dv_driver_assigned_at = None, dv_state = Drop_Open, dv_state_changed_at = None,
     dv_state_changed_by = None, dv_missed_at_closure = False, dv_revision = 1\<rparr>"

text \<open>Inserts the row with its first revision, or changes it and raises the revision.\<close>

definition upsert_row :: "uuid \<Rightarrow> uuid \<Rightarrow> (delivery_row \<Rightarrow> delivery_row) \<Rightarrow> board_db \<Rightarrow> board_db" where
  "upsert_row action_id c f db = db\<lparr>bd_deliveries := (bd_deliveries db)(c \<mapsto>
     (case bd_deliveries db c of
        None \<Rightarrow> f (new_row action_id)
      | Some d \<Rightarrow> (f d)\<lparr>dv_revision := dv_revision d + 1\<rparr>))\<rparr>"

definition put_state :: "drop_state \<Rightarrow> uuid \<Rightarrow> datetime \<Rightarrow> delivery_row \<Rightarrow> delivery_row" where
  "put_state s actor at d = d\<lparr>dv_state := s,
     dv_state_changed_at := (if s = Drop_Open then None else Some at),
     dv_state_changed_by := (if s = Drop_Open then None else Some actor)\<rparr>"

definition for_viewer :: "delivery_drop \<Rightarrow> bool \<Rightarrow> delivery_drop" where
  "for_viewer d manager = (if manager then d else d\<lparr>dd_order_status := None, dd_state_changed_at := None,
     dd_state_changed_by_name := None, dd_driver_name := None\<rparr>)"

text \<open>Who calls, for which action, when; the new identifiers for audit and follow-up.\<close>

record board_call =
  bc_action_id :: uuid
  bc_actor_user_id :: uuid
  bc_request_id :: pystr
  bc_occurred_at :: datetime
  bc_event_id :: uuid
  bc_fresh :: "uuid \<Rightarrow> fresh_ids"

definition call_event :: "board_call \<Rightarrow> string \<Rightarrow> string \<Rightarrow> uuid \<Rightarrow> json \<Rightarrow> board_event" where
  "call_event bc event_type entity_type entity_id p = \<lparr>be_id = bc_event_id bc,
     be_action_id = bc_action_id bc, be_actor_user_id = Some (bc_actor_user_id bc),
     be_event_type = event_type, be_entity_type = entity_type, be_entity_id = entity_id,
     be_request_id = bc_request_id bc, be_payload = p, be_occurred_at = bc_occurred_at bc\<rparr>"

fun marked_event :: "drop_state \<Rightarrow> string" where
  "marked_event Drop_Delivered = ''delivery.marked_delivered''"
| "marked_event Drop_Open = ''delivery.marked_open''"
| "marked_event Drop_Missed = ''delivery.marked_missed''"

definition js_text :: "pystr \<Rightarrow> json" where "js_text s = Js_Scalar (JStr s)"
definition js_ids :: "uuid list \<Rightarrow> json" where "js_ids us = Js_List (map (\<lambda>u. js_text (uuid_str u)) us)"

definition call_follow_up :: "board_call \<Rightarrow> pystr \<Rightarrow> bool \<Rightarrow> uuid \<Rightarrow> delivery_drop \<Rightarrow> board_db \<Rightarrow> board_db" where
  "call_follow_up bc label needed assignee d db =
     sync_follow_up (bc_fresh bc (dd_commitment_id d))
       (follow_up_request (bc_action_id bc) (dd_commitment_id d) (order_public_reference db (dd_commitment_id d))
          label needed assignee (bc_actor_user_id bc) (bc_request_id bc) (bc_occurred_at bc)) db"

definition set_state ::
  "board_call \<Rightarrow> uuid \<Rightarrow> bool \<Rightarrow> int \<Rightarrow> bool \<Rightarrow> board_db \<Rightarrow> (delivery_drop \<times> board_db) res" where
  "set_state bc c delivered expected_revision manager db =
     then_res (board_zone db (bc_action_id bc)) (\<lambda>zone.
     if \<not> manager \<and> \<not> (case bd_deliveries db c of None \<Rightarrow> False
          | Some d \<Rightarrow> dv_action_id d = bc_action_id bc \<and> dv_driver_user_id d = Some (bc_actor_user_id bc))
     then Inl (Board_Error ''delivery_not_assigned'' 403)
     else case Option.bind (find (\<lambda>od. cm_id od = c \<and> cm_action_id od = bc_action_id bc) (bd_orders db))
         cm_delivery_window_id of
       None \<Rightarrow> Inl (App Resource_Not_Found ''delivery_drop_not_found'')
     | Some w \<Rightarrow>
         then_res (lock_window db (bc_action_id bc) w) (\<lambda>(window, closed).
         case drops db (bc_action_id bc) [w] None True (Some c) of
           [] \<Rightarrow> Inl (Board_Error ''delivery_order_not_deliverable'' 409)
         | dp # _ \<Rightarrow>
             if dd_order_status dp = Some Commitment_Cancelled
             then Inl (Board_Error ''delivery_order_not_deliverable'' 409)
             else then_res (decide_state_change (dd_state dp) delivered closed manager
                 (dd_driver_user_id dp = Some (bc_actor_user_id bc)) (dd_missed_at_closure dp)) (\<lambda>decision.
             case decision of
               None \<Rightarrow> Inr (for_viewer dp manager, db)
             | Some change \<Rightarrow>
                 if dd_revision dp \<noteq> expected_revision
                 then Inl (Board_Error ''delivery_state_conflict'' 409)
                 else
                   let db1 = upsert_row (bc_action_id bc) c
                         (put_state (sc_new_state change) (bc_actor_user_id bc) (bc_occurred_at bc)) db;
                       db2 = add_event (call_event bc (marked_event (sc_new_state change)) ''commitment'' c
                         (Js_Object [(lit ''previousState'', js_text (drop_state_value (dd_state dp))),
                            (lit ''state'', js_text (drop_state_value (sc_new_state change))),
                            (lit ''windowId'', js_text (uuid_str w))])) db1
                   in then_res (case sc_follow_up_needed change of
                        None \<Rightarrow> Inr db2
                      | Some needed \<Rightarrow>
                          let closer = (case bd_closures db2 w of None \<Rightarrow> bc_actor_user_id bc
                            | Some k \<Rightarrow> co_closed_by_user_id k)
                          in then_res (window_label (wi_starts_at window) (wi_ends_at window) zone)
                            (\<lambda>label. Inr (call_follow_up bc label needed closer dp db2)))
                      (\<lambda>db3. case drops db3 (bc_action_id bc) [w] None True (Some c) of
                         d # _ \<Rightarrow> Inr (for_viewer d manager, db3) | [] \<Rightarrow> Inl Runtime_Error))))"

text \<open>\<open>active\<close> tells who is an active driver of the action now.  The rows are inserted or changed in
  one statement, one row for each distinct order.\<close>

definition put_driver :: "uuid option \<Rightarrow> uuid \<Rightarrow> datetime \<Rightarrow> delivery_row \<Rightarrow> delivery_row" where
  "put_driver driver actor at d = d\<lparr>dv_driver_user_id := driver,
     dv_driver_assigned_by := (if driver \<noteq> None then Some actor else None),
     dv_driver_assigned_at := (if driver \<noteq> None then Some at else None)\<rparr>"

definition assign_one :: "board_call \<Rightarrow> uuid option \<Rightarrow> uuid \<Rightarrow> int \<times> board_db \<Rightarrow> int \<times> board_db" where
  "assign_one bc driver c = (\<lambda>(n, db).
     if bd_deliveries db c = None \<or> row_driver db c \<noteq> driver
     then (n + 1, upsert_row (bc_action_id bc) c
       (put_driver driver (bc_actor_user_id bc) (bc_occurred_at bc)) db)
     else (n, db))"

definition assign_driver ::
  "(uuid \<Rightarrow> uuid \<Rightarrow> bool) \<Rightarrow> board_call \<Rightarrow> uuid list \<Rightarrow> uuid option \<Rightarrow> board_db \<Rightarrow> (int \<times> board_db) res" where
  "assign_driver active bc ids driver db =
     (if ids = [] then Inr (0, db)
      else then_res (board_zone db (bc_action_id bc)) (\<lambda>_.
      if driver \<noteq> None \<and> \<not> active (bc_action_id bc) (the driver)
      then Inl (Board_Error ''delivery_driver_invalid'' 409)
      else let rows = sort_key uint (map cm_id (filter (\<lambda>od. cm_action_id od = bc_action_id bc \<and> cm_id od \<in> set ids
               \<and> cm_delivery_window_id od \<noteq> None \<and> cm_status od \<in> deliverable_statuses) (bd_orders db))) in
        if length rows \<noteq> card (set ids)
        then Inl (Board_Error ''delivery_order_not_deliverable'' 409)
        else case fold (assign_one bc driver) rows (0, db) of (changed, db1) \<Rightarrow>
          Inr (changed, if changed = 0 then db1
            else add_event (call_event bc ''delivery.drivers_assigned'' ''charity_action'' (bc_action_id bc)
              (Js_Object [(lit ''driverUserId'', case driver of None \<Rightarrow> Js_Scalar JNull | Some u \<Rightarrow> js_text (uuid_str u)),
                 (lit ''commitmentIds'', js_ids rows)])) db1)))"

definition mark_missed :: "board_call \<Rightarrow> delivery_drop \<Rightarrow> board_db \<Rightarrow> board_db" where
  "mark_missed bc d = upsert_row (bc_action_id bc) (dd_commitment_id d)
     (\<lambda>r. (put_state Drop_Missed (bc_actor_user_id bc) (bc_occurred_at bc) r)\<lparr>dv_missed_at_closure := True\<rparr>)"

definition follow_up_drops :: "board_call \<Rightarrow> pystr \<Rightarrow> bool \<Rightarrow> delivery_drop list \<Rightarrow> board_db \<Rightarrow> board_db" where
  "follow_up_drops bc label needed ds db = fold (call_follow_up bc label needed (bc_actor_user_id bc)) ds db"

definition close_window :: "board_call \<Rightarrow> uuid \<Rightarrow> board_db \<Rightarrow> (int \<times> board_db) res" where
  "close_window bc w db =
     then_res (board_zone db (bc_action_id bc)) (\<lambda>zone.
     then_res (lock_window db (bc_action_id bc) w) (\<lambda>(window, closed).
     case bd_closures db w of
       Some k \<Rightarrow> Inr (co_missed_count k, db)
     | None \<Rightarrow>
         let missed = filter (\<lambda>d. dd_state d = Drop_Open
               \<and> (case dd_order_status d of None \<Rightarrow> False | Some s \<Rightarrow> s \<in> deliverable_statuses))
               (drops db (bc_action_id bc) [w] None True None);
             db1 = fold (mark_missed bc) missed db;
             db2 = db1\<lparr>bd_closures := (bd_closures db1)(w \<mapsto> \<lparr>co_action_id = bc_action_id bc,
               co_closed_at = bc_occurred_at bc, co_closed_by_user_id = bc_actor_user_id bc,
               co_missed_count = int (length missed)\<rparr>)\<rparr>;
             db3 = add_event (call_event bc ''delivery.window_closed'' ''action_delivery_window'' w
               (Js_Object [(lit ''missedCommitmentIds'', js_ids (map dd_commitment_id missed)),
                  (lit ''followUpTasks'', Js_Scalar (JBool (bd_follow_ups db)))])) db2
         in then_res (window_label (wi_starts_at window) (wi_ends_at window) zone) (\<lambda>label.
            Inr (int (length missed), follow_up_drops bc label True missed db3))))"

definition clear_missed_flag :: "delivery_drop \<Rightarrow> board_db \<Rightarrow> board_db" where
  "clear_missed_flag d db = db\<lparr>bd_deliveries := (bd_deliveries db)(dd_commitment_id d :=
     map_option (\<lambda>r. r\<lparr>dv_missed_at_closure := False\<rparr>) (bd_deliveries db (dd_commitment_id d)))\<rparr>"

definition reopen_drop :: "delivery_drop \<Rightarrow> board_db \<Rightarrow> board_db" where
  "reopen_drop d db = db\<lparr>bd_deliveries := (bd_deliveries db)(dd_commitment_id d :=
     map_option (\<lambda>r. r\<lparr>dv_state := Drop_Open, dv_state_changed_at := None, dv_state_changed_by := None,
       dv_missed_at_closure := False, dv_revision := dv_revision r + 1\<rparr>)
       (bd_deliveries db (dd_commitment_id d)))\<rparr>"

definition reopen_window :: "board_call \<Rightarrow> uuid \<Rightarrow> board_db \<Rightarrow> (int \<times> board_db) res" where
  "reopen_window bc w db =
     then_res (board_zone db (bc_action_id bc)) (\<lambda>zone.
     then_res (lock_window db (bc_action_id bc) w) (\<lambda>(window, closed).
     if \<not> closed then Inr (0, db)
     else
       let ds = drops db (bc_action_id bc) [w] None True None;
           missed = filter (\<lambda>d. dd_state d = Drop_Missed) ds;
           db1 = fold clear_missed_flag ds db;
           db2 = fold reopen_drop missed db1;
           db3 = db2\<lparr>bd_closures := (bd_closures db2)(w := None)\<rparr>;
           db4 = add_event (call_event bc ''delivery.window_reopened'' ''action_delivery_window'' w
             (Js_Object [(lit ''reopenedCommitmentIds'', js_ids (map dd_commitment_id missed))])) db3
       in then_res (window_label (wi_starts_at window) (wi_ends_at window) zone) (\<lambda>label.
          Inr (int (length missed), follow_up_drops bc label False missed db4))))"

section \<open>Permissions\<close>

definition is_board_driver :: "identity_principal \<Rightarrow> uuid \<Rightarrow> bool" where
  "is_board_driver actor action_id \<longleftrightarrow> Driver \<in> roles_for actor action_id"

definition require_board_manager :: "identity_principal \<Rightarrow> uuid \<Rightarrow> unit res" where
  "require_board_manager actor action_id =
     (if \<not> (can_authenticate (ip_account actor) \<and> may_manage_action actor action_id)
      then Inl (App Permission_Denied ''delivery_management_required'') else Inr ())"

fun translate :: "err \<Rightarrow> err" where
  "translate (Board_Error code status) = App (if status = 403 then Permission_Denied else Conflict) code"
| "translate e = e"

definition translated :: "'a res \<Rightarrow> 'a res" where
  "translated r = (case r of Inl e \<Rightarrow> Inl (translate e) | Inr v \<Rightarrow> Inr v)"

definition service_board ::
  "(uuid \<Rightarrow> (uuid \<times> pystr) list) \<Rightarrow> identity_principal \<Rightarrow> uuid \<Rightarrow> date option \<Rightarrow> datetime \<Rightarrow> board_db
   \<Rightarrow> (delivery_board \<times> board_db) res" where
  "service_board drivers actor action_id day viewed_at db =
     (if \<not> can_authenticate (ip_account actor) then Inl (App Permission_Denied ''delivery_board_forbidden'')
      else if may_manage_action actor action_id then board drivers action_id day None viewed_at db
      else if is_board_driver actor action_id
      then board drivers action_id day (Some (ua_id (ip_account actor))) viewed_at db
      else Inl (App Permission_Denied ''delivery_board_forbidden''))"

definition service_set_state ::
  "identity_principal \<Rightarrow> board_call \<Rightarrow> uuid \<Rightarrow> bool \<Rightarrow> int \<Rightarrow> board_db \<Rightarrow> (delivery_drop \<times> board_db) res" where
  "service_set_state actor bc c delivered expected_revision db =
     (let call = bc\<lparr>bc_actor_user_id := ua_id (ip_account actor)\<rparr>;
          manager = (can_authenticate (ip_account actor) \<and> may_manage_action actor (bc_action_id bc)) in
      if \<not> manager \<and> \<not> (can_authenticate (ip_account actor) \<and> is_board_driver actor (bc_action_id bc))
      then Inl (App Permission_Denied ''delivery_board_forbidden'')
      else translated (set_state call c delivered expected_revision manager db))"

definition service_assign_driver ::
  "(uuid \<Rightarrow> uuid \<Rightarrow> bool) \<Rightarrow> identity_principal \<Rightarrow> board_call \<Rightarrow> uuid list \<Rightarrow> uuid option \<Rightarrow> board_db
   \<Rightarrow> (int \<times> board_db) res" where
  "service_assign_driver active actor bc ids driver db =
     then_res (require_board_manager actor (bc_action_id bc)) (\<lambda>_.
     translated (assign_driver active (bc\<lparr>bc_actor_user_id := ua_id (ip_account actor)\<rparr>) ids driver db))"

definition service_close_window ::
  "identity_principal \<Rightarrow> board_call \<Rightarrow> uuid \<Rightarrow> board_db \<Rightarrow> (int \<times> board_db) res" where
  "service_close_window actor bc w db =
     then_res (require_board_manager actor (bc_action_id bc)) (\<lambda>_.
     translated (close_window (bc\<lparr>bc_actor_user_id := ua_id (ip_account actor)\<rparr>) w db))"

definition service_reopen_window ::
  "identity_principal \<Rightarrow> board_call \<Rightarrow> uuid \<Rightarrow> board_db \<Rightarrow> (int \<times> board_db) res" where
  "service_reopen_window actor bc w db =
     then_res (require_board_manager actor (bc_action_id bc)) (\<lambda>_.
     translated (reopen_window (bc\<lparr>bc_actor_user_id := ua_id (ip_account actor)\<rparr>) w db))"

section \<open>What a command leaves\<close>

lemma drop_of_simps [simp]:
  "dd_commitment_id (drop_of db m od) = cm_id od"
  "dd_state (drop_of db m od) = row_state db (cm_id od)"
  "dd_driver_user_id (drop_of db m od) = row_driver db (cm_id od)"
  "dd_revision (drop_of db m od) = row_revision db (cm_id od)"
  "dd_missed_at_closure (drop_of db m od) = row_missed db (cm_id od)"
  "dd_order_status (drop_of db m od) = (if m then Some (cm_status od) else None)"
  by (simp_all add: drop_of_def Let_def)

definition order_ids_ok :: "board_db \<Rightarrow> bool" where
  "order_ids_ok db \<longleftrightarrow> distinct (map cm_id (bd_orders db))"

lemma order_by_id:
  "order_ids_ok db \<Longrightarrow> od \<in> set (bd_orders db) \<Longrightarrow> od' \<in> set (bd_orders db) \<Longrightarrow> cm_id od = cm_id od' \<Longrightarrow> od = od'"
  unfolding order_ids_ok_def by (metis distinct_map inj_onD)

lemma set_drops:
  "set (drops db a ws dr m only) = drop_of db m ` {od \<in> set (bd_orders db). shown_order db a ws dr m only od}"
  by (simp add: drops_def)

lemma distinct_drops:
  "order_ids_ok db \<Longrightarrow> distinct (map dd_commitment_id (drops db a ws dr m only))"
  unfolding drops_def order_ids_ok_def
  by (simp add: o_def distinct_map inj_on_def)

lemma drops_one:
  assumes "order_ids_ok db" "drops db a ws dr m (Some c) = dp # rest"
  obtains od where "od \<in> set (bd_orders db)" "cm_id od = c" "dp = drop_of db m od"
    "shown_order db a ws dr m (Some c) od"
proof -
  have "dp \<in> set (drops db a ws dr m (Some c))" using assms(2) by simp
  then obtain od where od: "od \<in> set (bd_orders db)" "shown_order db a ws dr m (Some c) od" "dp = drop_of db m od"
    unfolding set_drops by blast
  then have "cm_id od = c" by (simp add: shown_order_def)
  then show ?thesis using od that by blast
qed

lemma row_upsert:
  "bd_deliveries (upsert_row a c f db) = (bd_deliveries db)(c \<mapsto>
     (case bd_deliveries db c of None \<Rightarrow> f (new_row a) | Some d \<Rightarrow> (f d)\<lparr>dv_revision := dv_revision d + 1\<rparr>))"
  by (simp add: upsert_row_def)

lemma upsert_tables [simp]:
  "bd_orders (upsert_row a c f db) = bd_orders db" "bd_closures (upsert_row a c f db) = bd_closures db"
  "bd_tasks (upsert_row a c f db) = bd_tasks db" "bd_follow_ups (upsert_row a c f db) = bd_follow_ups db"
  "bd_windows (upsert_row a c f db) = bd_windows db" "bd_contexts (upsert_row a c f db) = bd_contexts db"
  by (simp_all add: upsert_row_def)

lemma event_tables [simp]:
  "bd_orders (add_event e db) = bd_orders db" "bd_closures (add_event e db) = bd_closures db"
  "bd_tasks (add_event e db) = bd_tasks db" "bd_follow_ups (add_event e db) = bd_follow_ups db"
  "bd_deliveries (add_event e db) = bd_deliveries db" "bd_windows (add_event e db) = bd_windows db"
  "bd_contexts (add_event e db) = bd_contexts db"
  by (simp_all add: add_event_def)

lemma follow_up_tables [simp]:
  "bd_orders (sync_follow_up ids rq db) = bd_orders db" "bd_closures (sync_follow_up ids rq db) = bd_closures db"
  "bd_follow_ups (sync_follow_up ids rq db) = bd_follow_ups db"
  "bd_deliveries (sync_follow_up ids rq db) = bd_deliveries db"
  "bd_windows (sync_follow_up ids rq db) = bd_windows db" "bd_contexts (sync_follow_up ids rq db) = bd_contexts db"
  by (simp_all add: sync_follow_up_def)

lemma put_simps [simp]:
  "dv_state (put_state s u t d) = s" "dv_missed_at_closure (put_state s u t d) = dv_missed_at_closure d"
  "dv_driver_user_id (put_state s u t d) = dv_driver_user_id d" "dv_revision (put_state s u t d) = dv_revision d"
  "dv_state (put_driver x u t d) = dv_state d" "dv_missed_at_closure (put_driver x u t d) = dv_missed_at_closure d"
  "dv_driver_user_id (put_driver x u t d) = x" "dv_revision (put_driver x u t d) = dv_revision d"
  by (simp_all add: put_state_def put_driver_def)

text \<open>A statement over several rows changes each row once.\<close>

lemma fold_rows:
  assumes "\<And>d db. bd_deliveries (f d db) = (bd_deliveries db)(key d := g (bd_deliveries db (key d)))"
    and "distinct (map key ds)"
  shows "bd_deliveries (fold f ds db) c = (if c \<in> key ` set ds then g (bd_deliveries db c) else bd_deliveries db c)"
  using assms(2) by (induction ds arbitrary: db) (auto simp: assms(1))

lemma fold_tables:
  assumes "\<And>d db. t (f d db) = t db"
  shows "t (fold f ds db) = t db"
  by (induction ds arbitrary: db) (simp_all add: assms)

definition job ::
  "board_call \<Rightarrow> pystr \<Rightarrow> bool \<Rightarrow> board_db \<Rightarrow> delivery_drop \<Rightarrow> fresh_ids \<times> sync_request" where
  "job bc label needed db d = (bc_fresh bc (dd_commitment_id d),
     follow_up_request (bc_action_id bc) (dd_commitment_id d) (order_public_reference db (dd_commitment_id d))
       label needed (bc_actor_user_id bc) (bc_actor_user_id bc) (bc_request_id bc) (bc_occurred_at bc))"

lemma job_simps [simp]:
  "fst (job bc label needed db d) = bc_fresh bc (dd_commitment_id d)"
  "sy_commitment_id (snd (job bc label needed db d)) = dd_commitment_id d"
  "sy_needed (snd (job bc label needed db d)) = needed"
  by (simp_all add: job_def follow_up_request_def)

lemma job_orders: "bd_orders db = bd_orders db' \<Longrightarrow> job bc label needed db d = job bc label needed db' d"
  by (simp add: job_def order_public_reference_def)

lemma follow_up_drops_batch:
  "follow_up_drops bc label needed ds db =
     (if bd_follow_ups db then db\<lparr>bd_tasks := tasks.batch (map (job bc label needed db) ds) (bd_tasks db)\<rparr> else db)"
proof (induction ds arbitrary: db)
  case Nil
  then show ?case by (simp add: follow_up_drops_def tasks.batch_simps)
next
  case (Cons d ds)
  let ?db = "call_follow_up bc label needed (bc_actor_user_id bc) d db"
  have step: "follow_up_drops bc label needed (d # ds) db = follow_up_drops bc label needed ds ?db"
    by (simp add: follow_up_drops_def)
  have db: "?db = (if bd_follow_ups db
      then db\<lparr>bd_tasks := sync (fst (job bc label needed db d)) (snd (job bc label needed db d)) (bd_tasks db)\<rparr> else db)"
    by (simp add: call_follow_up_def sync_follow_up_def job_def)
  have jobs: "map (job bc label needed ?db) ds = map (job bc label needed db) ds"
    by (rule map_cong [OF refl]) (rule job_orders, simp add: db)
  have jd: "job bc label needed db d # map (job bc label needed db) ds
      = (fst (job bc label needed db d), snd (job bc label needed db d)) # map (job bc label needed db) ds"
    by (simp only: prod.collapse)
  show ?case unfolding step Cons.IH jobs list.map jd tasks.batch_simps by (simp add: db)
qed

lemma upserted_row:
  assumes "bd_deliveries db' = bd_deliveries (upsert_row a c f db)"
    and "\<And>r. dv_revision (f r) = dv_revision r"
  shows "row_state db' c = dv_state (f (case bd_deliveries db c of None \<Rightarrow> new_row a | Some r \<Rightarrow> r))"
    "row_missed db' c = dv_missed_at_closure (f (case bd_deliveries db c of None \<Rightarrow> new_row a | Some r \<Rightarrow> r))"
    "row_driver db' c = dv_driver_user_id (f (case bd_deliveries db c of None \<Rightarrow> new_row a | Some r \<Rightarrow> r))"
    "row_revision db' c = row_revision db c + 1"
    "e \<noteq> c \<Longrightarrow> bd_deliveries db' e = bd_deliveries db e"
  using assms by (simp_all add: row_upsert row_state_def row_missed_def row_driver_def row_revision_def new_row_def
      split: option.splits)

definition decided :: "board_call \<Rightarrow> uuid \<Rightarrow> uuid \<Rightarrow> bool \<Rightarrow> bool \<Rightarrow> board_db \<Rightarrow> state_change option res" where
  "decided bc c w delivered manager db = decide_state_change (row_state db c) delivered (bd_closures db w \<noteq> None) manager
     (row_driver db c = Some (bc_actor_user_id bc)) (row_missed db c)"

definition state_written :: "board_call \<Rightarrow> uuid \<Rightarrow> state_change \<Rightarrow> board_db \<Rightarrow> board_db \<Rightarrow> bool" where
  "state_written bc c change db db' \<longleftrightarrow>
     bd_orders db' = bd_orders db \<and> bd_windows db' = bd_windows db \<and> bd_closures db' = bd_closures db
     \<and> bd_follow_ups db' = bd_follow_ups db \<and> row_state db' c = sc_new_state change \<and> row_missed db' c = row_missed db c \<and> row_driver db' c = row_driver db c
     \<and> row_revision db' c = row_revision db c + 1 \<and> (\<forall>e. e \<noteq> c \<longrightarrow> bd_deliveries db' e = bd_deliveries db e)
     \<and> (case sc_follow_up_needed change of
          None \<Rightarrow> bd_tasks db' = bd_tasks db
        | Some needed \<Rightarrow> \<exists>rq. sy_commitment_id rq = c \<and> sy_needed rq = needed \<and>
            bd_tasks db' = (if bd_follow_ups db then sync (bc_fresh bc c) rq (bd_tasks db) else bd_tasks db))
     \<and> (sc_follow_up_needed change = None \<longrightarrow>
          (\<exists>p. db' = add_event (call_event bc (marked_event (sc_new_state change)) ''commitment'' c p)
             (upsert_row (bc_action_id bc) c (put_state (sc_new_state change) (bc_actor_user_id bc) (bc_occurred_at bc)) db)))"

lemma put_state_row:
  assumes db1: "bd_deliveries db1 = bd_deliveries (upsert_row a c (put_state s u t) db)"
  shows "row_state db1 c = s" "row_missed db1 c = row_missed db c" "row_driver db1 c = row_driver db c"
    "row_revision db1 c = row_revision db c + 1" "d \<noteq> c \<Longrightarrow> bd_deliveries db1 d = bd_deliveries db d"
  using upserted_row [OF db1]
  by (simp_all add: row_missed_def row_driver_def new_row_def split: option.splits)

lemma row_same:
  "bd_deliveries db' c = bd_deliveries db c \<Longrightarrow> row_state db' c = row_state db c \<and> row_missed db' c = row_missed db c
     \<and> row_driver db' c = row_driver db c \<and> row_revision db' c = row_revision db c"
  by (simp add: row_state_def row_missed_def row_driver_def row_revision_def)

lemma set_state_accepted:
  assumes ok: "order_ids_ok db" and run: "set_state bc c delivered expected manager db = Inr (dp, db')"
  obtains od w where "od \<in> set (bd_orders db)" "cm_id od = c" "cm_action_id od = bc_action_id bc"
    "cm_delivery_window_id od = Some w"
    "cm_status od \<noteq> Commitment_Cancelled" "cm_status od \<in> deliverable_statuses \<or> row_state db c = Drop_Delivered"
    "manager \<or> row_driver db c = Some (bc_actor_user_id bc)"
    "decided bc c w delivered manager db = Inr None \<and> db' = db
     \<or> (\<exists>change. decided bc c w delivered manager db = Inr (Some change) \<and> expected = row_revision db c
          \<and> state_written bc c change db db')"
proof -
  let ?P = "\<lambda>od. cm_id od = c \<and> cm_action_id od = bc_action_id bc"
  obtain zone where zone: "board_zone db (bc_action_id bc) = Inr zone"
    using run by (auto simp: set_state_def res_simps)
  have driver: "manager \<or> row_driver db c = Some (bc_actor_user_id bc)"
    using run by (auto simp: set_state_def zone row_driver_def split: if_splits option.splits)
  have guard: "\<not> (\<not> manager \<and> \<not> (case bd_deliveries db c of None \<Rightarrow> False
          | Some d \<Rightarrow> dv_action_id d = bc_action_id bc \<and> dv_driver_user_id d = Some (bc_actor_user_id bc)))"
    using run by (auto simp: set_state_def zone split: if_splits)
  obtain w where w: "Option.bind (find ?P (bd_orders db)) cm_delivery_window_id = Some w"
    using run by (auto simp: set_state_def zone guard split: option.splits)
  then obtain od where od: "find ?P (bd_orders db) = Some od" "cm_delivery_window_id od = Some w"
    by (auto simp: bind_eq_Some_conv)
  have od': "od \<in> set (bd_orders db)" "cm_id od = c" "cm_action_id od = bc_action_id bc"
    using od(1) by (auto simp: find_Some_iff)
  obtain window closed where window: "lock_window db (bc_action_id bc) w = Inr (window, closed)"
    using run by (auto simp: set_state_def zone guard w res_simps)
  then have closed: "closed \<longleftrightarrow> bd_closures db w \<noteq> None"
    by (auto simp: lock_window_def split: option.splits)
  obtain d rest where dr: "drops db (bc_action_id bc) [w] None True (Some c) = d # rest"
    using run by (cases "drops db (bc_action_id bc) [w] None True (Some c)")
      (auto simp: set_state_def zone guard w window)
  obtain od2 where od2: "od2 \<in> set (bd_orders db)" "cm_id od2 = c" "d = drop_of db True od2"
    "shown_order db (bc_action_id bc) [w] None True (Some c) od2"
    using drops_one [OF ok dr] by blast
  have same: "od2 = od" using order_by_id [OF ok od2(1) od'(1)] od2(2) od'(2) by simp
  have shown: "cm_status od \<in> deliverable_statuses \<or> row_state db c = Drop_Delivered"
    using od2(4) same od'(2) by (simp add: shown_order_def)
  have d: "dd_state d = row_state db c" "dd_driver_user_id d = row_driver db c" "dd_revision d = row_revision db c"
    "dd_missed_at_closure d = row_missed db c" "dd_order_status d = Some (cm_status od)" "dd_commitment_id d = c"
    using od2(3) same od'(2) by simp_all
  have live: "cm_status od \<noteq> Commitment_Cancelled"
    using run by (auto simp: set_state_def zone guard w window dr d split: if_splits)
  obtain decision where dec: "decided bc c w delivered manager db = Inr decision"
    using run live by (auto simp: set_state_def zone guard w window dr d decided_def closed res_simps)
  note dec' = dec [unfolded decided_def, simplified]
  show ?thesis
  proof (cases decision)
    case None
    then have "db' = db" using run live by (auto simp: set_state_def zone guard w window dr d closed dec')
    then show ?thesis using that [OF od' od(2) live shown driver] dec None by blast
  next
    case (Some change)
    let ?db2 = "add_event (call_event bc (marked_event (sc_new_state change)) ''commitment'' c
       (Js_Object [(lit ''previousState'', js_text (drop_state_value (row_state db c))),
          (lit ''state'', js_text (drop_state_value (sc_new_state change))),
          (lit ''windowId'', js_text (uuid_str w))]))
       (upsert_row (bc_action_id bc) c (put_state (sc_new_state change) (bc_actor_user_id bc) (bc_occurred_at bc)) db)"
    have expected: "expected = row_revision db c"
      using run live Some by (auto simp: set_state_def zone guard w window dr d closed dec' split: if_splits)
    have keep2: "bd_deliveries ?db2 = bd_deliveries (upsert_row (bc_action_id bc) c
        (put_state (sc_new_state change) (bc_actor_user_id bc) (bc_occurred_at bc)) db)" by simp
    note row = put_state_row [OF keep2]
    have written: "state_written bc c change db db'"
    proof (cases "sc_follow_up_needed change")
      case None
      then have "db' = ?db2"
        using run live Some expected
        by (auto simp: set_state_def zone guard w window dr d closed dec' Let_def split: list.splits)
      then show ?thesis using None row by (simp add: state_written_def) blast
    next
      case needed: (Some needed)
      define closer where "closer = (case bd_closures db w of None \<Rightarrow> bc_actor_user_id bc
                            | Some k \<Rightarrow> co_closed_by_user_id k)"
      note facts = set_state_def zone guard w window dr d closed dec' Let_def live Some expected needed
      obtain label where label: "window_label (wi_starts_at window) (wi_ends_at window) zone = Inr label"
        using run by (cases "window_label (wi_starts_at window) (wi_ends_at window) zone") (simp_all add: facts)
      have db': "db' = call_follow_up bc label needed closer d ?db2"
        using run by (simp add: facts label closer_def split: list.splits)
      have keep: "bd_deliveries db' = bd_deliveries ?db2" by (simp add: db' call_follow_up_def)
      then have "row_state db' e = row_state ?db2 e \<and> row_missed db' e = row_missed ?db2 e
          \<and> row_driver db' e = row_driver ?db2 e \<and> row_revision db' e = row_revision ?db2 e" for e
        using row_same [of db' e ?db2] by simp
      moreover have "\<exists>rq. sy_commitment_id rq = c \<and> sy_needed rq = needed \<and>
            bd_tasks db' = (if bd_follow_ups db then sync (bc_fresh bc c) rq (bd_tasks db) else bd_tasks db)"
        by (rule exI [of _ "follow_up_request (bc_action_id bc) c (order_public_reference ?db2 c)
          label needed closer (bc_actor_user_id bc) (bc_request_id bc) (bc_occurred_at bc)"])
          (simp add: db' call_follow_up_def sync_follow_up_def d, simp add: follow_up_request_def)
      ultimately show ?thesis using row needed keep
        by (simp add: state_written_def) (simp add: db' call_follow_up_def)
    qed
    then show ?thesis using that [OF od' od(2) live shown driver] dec Some expected by blast
  qed
qed

lemma assign_fold:
  assumes "fold (assign_one bc driver) cs (n, db) = (n', db')"
  shows "bd_orders db' = bd_orders db \<and> bd_closures db' = bd_closures db \<and> bd_tasks db' = bd_tasks db \<and> bd_windows db' = bd_windows db
    \<and> bd_follow_ups db' = bd_follow_ups db \<and> row_state db' = row_state db \<and> row_missed db' = row_missed db
    \<and> (\<forall>c. c \<notin> set cs \<longrightarrow> bd_deliveries db' c = bd_deliveries db c)"
  using assms
proof (induction cs arbitrary: n db)
  case (Cons c cs)
  obtain m db1 where one: "assign_one bc driver c (n, db) = (m, db1)" by (cases "assign_one bc driver c (n, db)")
  have db1: "bd_orders db1 = bd_orders db \<and> bd_closures db1 = bd_closures db \<and> bd_tasks db1 = bd_tasks db \<and> bd_windows db1 = bd_windows db
    \<and> bd_follow_ups db1 = bd_follow_ups db \<and> row_state db1 = row_state db \<and> row_missed db1 = row_missed db
    \<and> (\<forall>e. e \<noteq> c \<longrightarrow> bd_deliveries db1 e = bd_deliveries db e)"
  proof (cases "bd_deliveries db c = None \<or> row_driver db c \<noteq> driver")
    case True
    let ?u = "upsert_row (bc_action_id bc) c (put_driver driver (bc_actor_user_id bc) (bc_occurred_at bc)) db"
    have u: "db1 = ?u" using one True by (simp add: assign_one_def)
    have "row_state ?u e = row_state db e \<and> row_missed ?u e = row_missed db e" for e
      using upserted_row(1,2) [of ?u "bc_action_id bc" c _ db] row_same [of ?u e db]
      by (cases "e = c") (simp_all add: row_upsert row_state_def row_missed_def new_row_def split: option.splits)
    then show ?thesis using u by (auto simp: row_upsert)
  qed (use one in \<open>auto simp: assign_one_def split: if_splits\<close>)
  have "fold (assign_one bc driver) cs (m, db1) = (n', db')" using Cons.prems one by simp
  from Cons.IH [OF this] db1 show ?case by simp
qed simp

lemma assign_accepted:
  assumes "assign_driver active bc ids driver db = Inr (n, db')"
  shows "bd_orders db' = bd_orders db \<and> bd_closures db' = bd_closures db \<and> bd_tasks db' = bd_tasks db \<and> bd_windows db' = bd_windows db
    \<and> bd_follow_ups db' = bd_follow_ups db \<and> row_state db' = row_state db \<and> row_missed db' = row_missed db
    \<and> (\<forall>c. bd_deliveries db' c \<noteq> bd_deliveries db c \<longrightarrow> (\<exists>od \<in> set (bd_orders db). cm_id od = c
         \<and> cm_delivery_window_id od \<noteq> None \<and> cm_status od \<in> deliverable_statuses))"
proof (cases "ids = []")
  case False
  define rows where "rows = sort_key uint (map cm_id (filter (\<lambda>od. cm_action_id od = bc_action_id bc \<and> cm_id od \<in> set ids
               \<and> cm_delivery_window_id od \<noteq> None \<and> cm_status od \<in> deliverable_statuses) (bd_orders db)))"
  obtain k db1 where fold: "fold (assign_one bc driver) rows (0, db) = (k, db1)"
    by (cases "fold (assign_one bc driver) rows (0, db)")
  have db': "\<exists>e. db' = db1 \<or> db' = add_event e db1"
    using assms [unfolded assign_driver_def Let_def, folded rows_def] False fold
    by (auto simp: res_simps split: if_splits)
  have rows: "c \<in> set rows \<Longrightarrow> \<exists>od \<in> set (bd_orders db). cm_id od = c
         \<and> cm_delivery_window_id od \<noteq> None \<and> cm_status od \<in> deliverable_statuses" for c
    by (auto simp: rows_def)
  have keep: "row_state (add_event e db1) = row_state db1 \<and> row_missed (add_event e db1) = row_missed db1" for e
    by (simp add: fun_eq_iff row_state_def row_missed_def)
  show ?thesis using db' assign_fold [OF fold] rows keep by fastforce
qed (use assms in \<open>simp add: assign_driver_def\<close>)

text \<open>The orders of a window in one state, and the rows after a statement over them.\<close>

definition window_orders :: "board_db \<Rightarrow> uuid \<Rightarrow> uuid \<Rightarrow> commitment list" where
  "window_orders db a w = sort_key (\<lambda>od. (bd_collation db (by_display_name (cm_buyer od)), uint (cm_id od)))
     (filter (\<lambda>od. cm_action_id od = a \<and> cm_delivery_window_id od = Some w
        \<and> (cm_status od \<in> deliverable_statuses \<or> row_state db (cm_id od) = Drop_Delivered)) (bd_orders db))"

lemma window_drops: "drops db a [w] None True None = map (drop_of db True) (window_orders db a w)"
proof -
  have "shown_order db a [w] None True None = (\<lambda>od. cm_action_id od = a \<and> cm_delivery_window_id od = Some w
        \<and> (cm_status od \<in> deliverable_statuses \<or> row_state db (cm_id od) = Drop_Delivered))"
    by (auto simp: fun_eq_iff shown_order_def split: option.splits)
  then show ?thesis by (simp add: drops_def window_orders_def)
qed

lemma set_window_orders:
  "od \<in> set (window_orders db a w) \<longleftrightarrow> od \<in> set (bd_orders db) \<and> cm_action_id od = a
     \<and> cm_delivery_window_id od = Some w \<and> (cm_status od \<in> deliverable_statuses \<or> row_state db (cm_id od) = Drop_Delivered)"
  by (auto simp: window_orders_def)

lemma distinct_window_orders: "order_ids_ok db \<Longrightarrow> distinct (map cm_id (window_orders db a w))"
  using distinct_drops [of db a "[w]" None True None] by (simp add: window_drops o_def)

definition jobs_for :: "board_call \<Rightarrow> bool \<Rightarrow> uuid list \<Rightarrow> (fresh_ids \<times> sync_request) list \<Rightarrow> bool" where
  "jobs_for bc needed cs jobs \<longleftrightarrow> map (sy_commitment_id \<circ> snd) jobs = cs
     \<and> (\<forall>x \<in> set jobs. sy_needed (snd x) = needed \<and> fst x = bc_fresh bc (sy_commitment_id (snd x)))"

lemma jobs_for_keys:
  "jobs_for bc needed cs jobs \<Longrightarrow> x \<in> set jobs \<Longrightarrow> sy_commitment_id (snd x) \<in> set cs \<and> sy_needed (snd x) = needed
     \<and> fst x = bc_fresh bc (sy_commitment_id (snd x))"
  by (auto simp: jobs_for_def)

lemma jobs_for_drops:
  "jobs_for bc needed (map dd_commitment_id ds) (map (job bc label needed db) ds)"
  by (auto simp: jobs_for_def)

definition missed_by_closing :: "board_db \<Rightarrow> uuid \<Rightarrow> uuid \<Rightarrow> uuid list" where
  "missed_by_closing db a w = map cm_id (filter (\<lambda>od. row_state db (cm_id od) = Drop_Open \<and> cm_status od \<in> deliverable_statuses)
     (window_orders db a w))"

lemma close_accepted:
  assumes ok: "order_ids_ok db" and run: "close_window bc w db = Inr (n, db')" and was_open: "bd_closures db w = None"
  defines "cs \<equiv> missed_by_closing db (bc_action_id bc) w"
  shows "n = int (length cs)" "bd_orders db' = bd_orders db" "bd_follow_ups db' = bd_follow_ups db"
    "\<exists>k. bd_closures db' = (bd_closures db)(w \<mapsto> k) \<and> co_missed_count k = n"
    "c \<in> set cs \<Longrightarrow> row_state db' c = Drop_Missed \<and> row_missed db' c \<and> row_driver db' c = row_driver db c
       \<and> row_revision db' c = row_revision db c + 1"
    "c \<notin> set cs \<Longrightarrow> bd_deliveries db' c = bd_deliveries db c"
    "\<exists>jobs. jobs_for bc True cs jobs
       \<and> bd_tasks db' = (if bd_follow_ups db then tasks.batch jobs (bd_tasks db) else bd_tasks db)"
    "bd_windows db' = bd_windows db"
proof -
  let ?a = "bc_action_id bc"
  define missed where "missed = filter (\<lambda>d. dd_state d = Drop_Open
               \<and> (case dd_order_status d of None \<Rightarrow> False | Some s \<Rightarrow> s \<in> deliverable_statuses))
               (drops db ?a [w] None True None)"
  have missed: "missed = map (drop_of db True) (filter (\<lambda>od. row_state db (cm_id od) = Drop_Open
      \<and> cm_status od \<in> deliverable_statuses) (window_orders db ?a w))"
    by (simp add: missed_def window_drops filter_map o_def)
  have cs: "map dd_commitment_id missed = cs"
    unfolding missed cs_def missed_by_closing_def by simp
  have dist: "distinct (map dd_commitment_id missed)"
    unfolding missed_def by (rule distinct_map_filter) (rule distinct_drops [OF ok])
  define db1 where "db1 = fold (mark_missed bc) missed db"
  have db1: "bd_orders db1 = bd_orders db" "bd_closures db1 = bd_closures db" "bd_tasks db1 = bd_tasks db"
    "bd_follow_ups db1 = bd_follow_ups db" "bd_windows db1 = bd_windows db"
    unfolding db1_def by (rule fold_tables, simp add: mark_missed_def)+
  obtain zone where zone: "board_zone db ?a = Inr zone"
    using run by (auto simp: close_window_def res_simps)
  obtain window closed where window: "lock_window db ?a w = Inr (window, closed)"
    using run by (auto simp: close_window_def zone res_simps)
  note facts = close_window_def zone window was_open missed_def [symmetric] db1_def [symmetric] Let_def
  obtain label where label: "window_label (wi_starts_at window) (wi_ends_at window) zone = Inr label"
    using run by (cases "window_label (wi_starts_at window) (wi_ends_at window) zone") (simp_all add: facts)
  define k where "k = \<lparr>co_action_id = ?a, co_closed_at = bc_occurred_at bc,
    co_closed_by_user_id = bc_actor_user_id bc, co_missed_count = int (length missed)\<rparr>"
  define e where "e = call_event bc ''delivery.window_closed'' ''action_delivery_window'' w
    (Js_Object [(lit ''missedCommitmentIds'', js_ids (map dd_commitment_id missed)),
      (lit ''followUpTasks'', Js_Scalar (JBool (bd_follow_ups db)))])"
  have n: "n = int (length missed)"
    and db': "db' = follow_up_drops bc label True missed (add_event e (db1\<lparr>bd_closures := (bd_closures db1)(w \<mapsto> k)\<rparr>))"
    using run by (auto simp: facts label k_def e_def)
  have k: "co_missed_count k = n" by (simp add: k_def n)
  let ?db3 = "add_event e (db1\<lparr>bd_closures := (bd_closures db1)(w \<mapsto> k)\<rparr>)"
  show "n = int (length cs)" using n cs by auto
  show "bd_orders db' = bd_orders db" "bd_follow_ups db' = bd_follow_ups db" "bd_windows db' = bd_windows db"
    by (simp_all add: db' follow_up_drops_batch db1)
  show "\<exists>k. bd_closures db' = (bd_closures db)(w \<mapsto> k) \<and> co_missed_count k = n"
    by (rule exI [of _ k]) (simp add: db' follow_up_drops_batch db1 k)
  have rows: "bd_deliveries db' = bd_deliveries db1" by (simp add: db' follow_up_drops_batch)
  let ?g = "\<lambda>r. Some (case r of None \<Rightarrow> (put_state Drop_Missed (bc_actor_user_id bc) (bc_occurred_at bc) (new_row ?a))
        \<lparr>dv_missed_at_closure := True\<rparr>
      | Some d \<Rightarrow> ((put_state Drop_Missed (bc_actor_user_id bc) (bc_occurred_at bc) d)
        \<lparr>dv_missed_at_closure := True\<rparr>)\<lparr>dv_revision := dv_revision d + 1\<rparr>)"
  have fold: "bd_deliveries db1 c = (if c \<in> dd_commitment_id ` set missed then ?g (bd_deliveries db c) else bd_deliveries db c)" for c
    unfolding db1_def by (rule fold_rows [OF _ dist]) (simp add: mark_missed_def row_upsert)
  have in_cs: "c \<in> dd_commitment_id ` set missed \<longleftrightarrow> c \<in> set cs" for c using cs by auto
  show "row_state db' c = Drop_Missed \<and> row_missed db' c \<and> row_driver db' c = row_driver db c
       \<and> row_revision db' c = row_revision db c + 1" if "c \<in> set cs"
    using that in_cs [of c] by (simp add: row_state_def row_missed_def row_driver_def row_revision_def rows fold
        new_row_def split: option.splits)
  show "bd_deliveries db' c = bd_deliveries db c" if "c \<notin> set cs" using that in_cs [of c] by (simp add: rows fold)
  show "\<exists>jobs. jobs_for bc True cs jobs
       \<and> bd_tasks db' = (if bd_follow_ups db then tasks.batch jobs (bd_tasks db) else bd_tasks db)"
    by (rule exI [of _ "map (job bc label True ?db3) missed"])
      (use jobs_for_drops [of bc True missed label ?db3] cs in \<open>simp add: db' follow_up_drops_batch db1\<close>)
qed

definition reopened_by :: "board_db \<Rightarrow> uuid \<Rightarrow> uuid \<Rightarrow> uuid list" where
  "reopened_by db a w = map cm_id (filter (\<lambda>od. row_state db (cm_id od) = Drop_Missed) (window_orders db a w))"

lemma reopen_accepted:
  assumes ok: "order_ids_ok db" and run: "reopen_window bc w db = Inr (n, db')" and was_closed: "bd_closures db w \<noteq> None"
  defines "cs \<equiv> reopened_by db (bc_action_id bc) w"
  shows "n = int (length cs)" "bd_orders db' = bd_orders db" "bd_follow_ups db' = bd_follow_ups db"
    "bd_closures db' = (bd_closures db)(w := None)"
    "row_state db' c = (if c \<in> set cs then Drop_Open else row_state db c)"
    "row_missed db' c \<longleftrightarrow> row_missed db c \<and> c \<notin> cm_id ` set (window_orders db (bc_action_id bc) w)"
    "c \<notin> cm_id ` set (window_orders db (bc_action_id bc) w) \<Longrightarrow> bd_deliveries db' c = bd_deliveries db c"
    "\<exists>jobs. jobs_for bc False cs jobs
       \<and> bd_tasks db' = (if bd_follow_ups db then tasks.batch jobs (bd_tasks db) else bd_tasks db)"
    "bd_windows db' = bd_windows db"
proof -
  let ?a = "bc_action_id bc"
  define ds where "ds = drops db ?a [w] None True None"
  define missed where "missed = filter (\<lambda>d. dd_state d = Drop_Missed) ds"
  have ds: "map dd_commitment_id ds = map cm_id (window_orders db ?a w)"
    by (simp add: ds_def window_drops)
  have missed: "missed = map (drop_of db True) (filter (\<lambda>od. row_state db (cm_id od) = Drop_Missed) (window_orders db ?a w))"
    by (simp add: missed_def ds_def window_drops filter_map o_def)
  have cs: "map dd_commitment_id missed = cs" unfolding missed cs_def reopened_by_def by simp
  have dist: "distinct (map dd_commitment_id ds)" unfolding ds_def by (rule distinct_drops [OF ok])
  then have dist': "distinct (map dd_commitment_id missed)" unfolding missed_def by (rule distinct_map_filter)
  define db1 where "db1 = fold clear_missed_flag ds db"
  define db2 where "db2 = fold reopen_drop missed db1"
  have "bd_orders db2 = bd_orders db1" "bd_closures db2 = bd_closures db1" "bd_tasks db2 = bd_tasks db1"
    "bd_follow_ups db2 = bd_follow_ups db1" "bd_windows db2 = bd_windows db1"
    unfolding db2_def by (rule fold_tables, simp add: reopen_drop_def)+
  moreover have "bd_orders db1 = bd_orders db" "bd_closures db1 = bd_closures db" "bd_tasks db1 = bd_tasks db"
    "bd_follow_ups db1 = bd_follow_ups db" "bd_windows db1 = bd_windows db"
    unfolding db1_def by (rule fold_tables, simp add: clear_missed_flag_def)+
  ultimately have db2: "bd_orders db2 = bd_orders db" "bd_closures db2 = bd_closures db" "bd_tasks db2 = bd_tasks db"
    "bd_follow_ups db2 = bd_follow_ups db" "bd_windows db2 = bd_windows db" by simp_all
  obtain zone where zone: "board_zone db ?a = Inr zone"
    using run by (auto simp: reopen_window_def res_simps)
  obtain window closed where window: "lock_window db ?a w = Inr (window, closed)"
    using run by (auto simp: reopen_window_def zone res_simps)
  have closed: closed using window was_closed by (auto simp: lock_window_def split: option.splits)
  note facts = reopen_window_def zone window closed ds_def [symmetric] missed_def [symmetric] db1_def [symmetric]
    db2_def [symmetric] Let_def
  obtain label where label: "window_label (wi_starts_at window) (wi_ends_at window) zone = Inr label"
    using run by (cases "window_label (wi_starts_at window) (wi_ends_at window) zone") (simp_all add: facts)
  define e where "e = call_event bc ''delivery.window_reopened'' ''action_delivery_window'' w
             (Js_Object [(lit ''reopenedCommitmentIds'', js_ids (map dd_commitment_id missed))])"
  have n: "n = int (length missed)"
    and db': "db' = follow_up_drops bc label False missed (add_event e (db2\<lparr>bd_closures := (bd_closures db2)(w := None)\<rparr>))"
    using run by (auto simp: facts label e_def)
  let ?db4 = "add_event e (db2\<lparr>bd_closures := (bd_closures db2)(w := None)\<rparr>)"
  show "n = int (length cs)" using n cs by auto
  show "bd_orders db' = bd_orders db" "bd_follow_ups db' = bd_follow_ups db"
    "bd_closures db' = (bd_closures db)(w := None)" "bd_windows db' = bd_windows db"
    by (simp_all add: db' follow_up_drops_batch db2)
  have rows: "bd_deliveries db' = bd_deliveries db2" by (simp add: db' follow_up_drops_batch)
  have fold1: "bd_deliveries db1 c = (if c \<in> dd_commitment_id ` set ds
      then map_option (\<lambda>r. r\<lparr>dv_missed_at_closure := False\<rparr>) (bd_deliveries db c) else bd_deliveries db c)" for c
    unfolding db1_def by (rule fold_rows [OF _ dist]) (simp add: clear_missed_flag_def)
  have fold2: "bd_deliveries db2 c = (if c \<in> dd_commitment_id ` set missed
      then map_option (\<lambda>r. r\<lparr>dv_state := Drop_Open, dv_state_changed_at := None, dv_state_changed_by := None,
       dv_missed_at_closure := False, dv_revision := dv_revision r + 1\<rparr>) (bd_deliveries db1 c)
      else bd_deliveries db1 c)" for c
    unfolding db2_def by (rule fold_rows [OF _ dist']) (simp add: reopen_drop_def)
  have in_cs: "c \<in> dd_commitment_id ` set missed \<longleftrightarrow> c \<in> set cs" for c using cs by auto
  have in_ds: "c \<in> dd_commitment_id ` set ds \<longleftrightarrow> c \<in> cm_id ` set (window_orders db ?a w)" for c
    using ds by (metis set_map)
  have sub: "c \<in> set cs \<Longrightarrow> c \<in> cm_id ` set (window_orders db ?a w)" for c
    unfolding cs_def reopened_by_def by auto
  show "row_state db' c = (if c \<in> set cs then Drop_Open else row_state db c)"
    by (simp add: row_state_def rows fold2 fold1 in_cs split: option.splits)
  show "row_missed db' c \<longleftrightarrow> row_missed db c \<and> c \<notin> cm_id ` set (window_orders db (bc_action_id bc) w)"
    using sub [of c] by (simp add: row_missed_def rows fold2 fold1 in_cs in_ds split: option.splits)
  show "bd_deliveries db' c = bd_deliveries db c" if "c \<notin> cm_id ` set (window_orders db ?a w)"
    using that sub [of c] unfolding rows fold2 fold1 in_cs in_ds by (simp split: if_splits) blast
  show "\<exists>jobs. jobs_for bc False cs jobs
       \<and> bd_tasks db' = (if bd_follow_ups db then tasks.batch jobs (bd_tasks db) else bd_tasks db)"
    by (rule exI [of _ "map (job bc label False ?db4) missed"])
      (use jobs_for_drops [of bc False missed label ?db4] cs in \<open>simp add: db' follow_up_drops_batch db2\<close>)
qed

section \<open>The board and its follow-up tasks agree\<close>

text \<open>The new task identifiers of a call are unused and different for different orders.\<close>

definition fresh_call :: "board_call \<Rightarrow> board_db \<Rightarrow> bool" where
  "fresh_call bc db \<longleftrightarrow> inj_on (\<lambda>c. fi_task (bc_fresh bc c)) (cm_id ` set (bd_orders db))
     \<and> (\<forall>od \<in> set (bd_orders db). fi_task (bc_fresh bc (cm_id od)) \<notin> tk_id ` set (td_tasks (bd_tasks db)))"

lemma batch_open:
  assumes fresh: "fresh_call bc db" and ok: "tasks_ok (bd_tasks db)" and jobs: "jobs_for bc needed cs jobs" "distinct cs"
    and cs: "set cs \<subseteq> cm_id ` set (bd_orders db)"
  shows "tasks_ok (tasks.batch jobs (bd_tasks db))"
    "follow_up_open (tasks.batch jobs (bd_tasks db)) c \<longleftrightarrow>
       (if c \<in> set cs then needed else follow_up_open (bd_tasks db) c)"
proof -
  have keys: "map (sy_commitment_id \<circ> snd) jobs = cs" using jobs(1) by (simp add: jobs_for_def)
  note each = jobs_for_keys [OF jobs(1)]
  have inj: "inj_on (\<lambda>c. fi_task (bc_fresh bc c)) (set cs)"
    using fresh cs unfolding fresh_call_def by (meson inj_on_subset)
  have "map (fi_task \<circ> fst) jobs = map (\<lambda>c. fi_task (bc_fresh bc c)) cs"
    unfolding keys [symmetric] using each by simp
  then have ids: "distinct (map (fi_task \<circ> fst) jobs)" using jobs(2) inj by (simp add: distinct_map)
  have unused: "\<forall>x \<in> set jobs. fi_task (fst x) \<notin> tk_id ` set (td_tasks (bd_tasks db))"
  proof
    fix x assume x: "x \<in> set jobs"
    obtain od where "od \<in> set (bd_orders db)" "fst x = bc_fresh bc (cm_id od)"
      using each [OF x] cs by auto
    then show "fi_task (fst x) \<notin> tk_id ` set (td_tasks (bd_tasks db))" using fresh by (simp add: fresh_call_def)
  qed
  have "distinct (map (sy_commitment_id \<circ> snd) jobs)" using keys jobs(2) by simp
  note result = tasks.batch_result [OF ok ids unused this]
  show "tasks_ok (tasks.batch jobs (bd_tasks db))" using result by blast
  have in_cs: "c \<in> set cs \<longleftrightarrow> c \<in> (sy_commitment_id \<circ> snd) ` set jobs"
    unfolding keys [symmetric] set_map ..
  show "follow_up_open (tasks.batch jobs (bd_tasks db)) c \<longleftrightarrow>
       (if c \<in> set cs then needed else follow_up_open (bd_tasks db) c)"
  proof (cases "c \<in> set cs")
    case True
    then obtain x where "x \<in> set jobs" "c = sy_commitment_id (snd x)" using in_cs by auto
    then show ?thesis using result each True by auto
  next
    case False
    then show ?thesis using result in_cs by auto
  qed
qed

text \<open>The drop of an order and its follow-up, and the whole board.\<close>

definition order_ok :: "board_db \<Rightarrow> commitment \<Rightarrow> bool" where
  "order_ok db od \<longleftrightarrow>
     (cm_delivery_window_id od = None \<or> cm_status od = Commitment_Draft \<longrightarrow>
        row_state db (cm_id od) = Drop_Open \<and> \<not> row_missed db (cm_id od))
     \<and> (row_state db (cm_id od) = Drop_Missed \<longrightarrow> row_missed db (cm_id od))
     \<and> (cm_status od \<noteq> Commitment_Cancelled \<and> row_missed db (cm_id od) \<longrightarrow> row_state db (cm_id od) \<noteq> Drop_Open
          \<and> (\<exists>w. cm_delivery_window_id od = Some w \<and> bd_closures db w \<noteq> None))
     \<and> (follow_up_open (bd_tasks db) (cm_id od) \<longleftrightarrow>
          cm_status od \<noteq> Commitment_Cancelled \<and> row_state db (cm_id od) = Drop_Missed)
     \<and> (cm_status od = Commitment_Cancelled \<longrightarrow> row_state db (cm_id od) \<noteq> Drop_Delivered)"

text \<open>The keys of the windows and of the orders that refer to them.\<close>

definition windows_ok :: "board_db \<Rightarrow> bool" where
  "windows_ok db \<longleftrightarrow> inj_on wi_id (set (bd_windows db))
     \<and> (\<forall>od \<in> set (bd_orders db). \<forall>w. cm_delivery_window_id od = Some w \<longrightarrow>
          (\<exists>r \<in> set (bd_windows db). wi_id r = w \<and> wi_action_id r = cm_action_id od))"

definition board_ok :: "board_db \<Rightarrow> bool" where
  "board_ok db \<longleftrightarrow> bd_follow_ups db \<and> order_ids_ok db \<and> tasks_ok (bd_tasks db) \<and> windows_ok db
     \<and> (\<forall>od \<in> set (bd_orders db). order_ok db od)
     \<and> (\<forall>c. c \<notin> cm_id ` set (bd_orders db) \<longrightarrow>
          bd_deliveries db c = None \<and> \<not> follow_up_open (bd_tasks db) c)"

lemma order_ok_cong:
  assumes "row_state db' (cm_id od) = row_state db (cm_id od)" "row_missed db' (cm_id od) = row_missed db (cm_id od)"
    "follow_up_open (bd_tasks db') (cm_id od) = follow_up_open (bd_tasks db) (cm_id od)"
    "\<And>w. cm_delivery_window_id od = Some w \<Longrightarrow> bd_closures db w \<noteq> None \<Longrightarrow> bd_closures db' w \<noteq> None"
  shows "order_ok db od \<Longrightarrow> order_ok db' od"
  unfolding order_ok_def assms(1-3) using assms(4) by blast

lemma board_okI:
  assumes "board_ok db" "bd_orders db' = bd_orders db" "bd_windows db' = bd_windows db"
    "bd_follow_ups db' = bd_follow_ups db" "tasks_ok (bd_tasks db')"
    and "\<And>od. od \<in> set (bd_orders db) \<Longrightarrow> order_ok db od \<Longrightarrow> order_ok db' od"
    and "\<And>c. c \<notin> cm_id ` set (bd_orders db) \<Longrightarrow> bd_deliveries db' c = bd_deliveries db c
        \<and> (follow_up_open (bd_tasks db') c \<longleftrightarrow> follow_up_open (bd_tasks db) c)"
  shows "board_ok db'"
  using assms by (simp add: board_ok_def order_ids_ok_def windows_ok_def)

lemma board_ok_ids: "board_ok db \<Longrightarrow> order_ids_ok db"
  by (simp add: board_ok_def)

text \<open>The changes that may be decided.\<close>

lemma decide_changes:
  assumes "decide_state_change current delivered closed manager assigned missed = Inr (Some change)"
  shows "(manager \<or> assigned) \<and> sc_new_state change \<noteq> current \<and>
    (\<not> closed \<and> current \<noteq> Drop_Missed \<and> sc_new_state change = (if delivered then Drop_Delivered else Drop_Open)
       \<and> sc_follow_up_needed change = None
     \<or> closed \<and> manager \<and> delivered \<and> current = Drop_Missed \<and> sc_new_state change = Drop_Delivered
       \<and> sc_follow_up_needed change = Some False
     \<or> closed \<and> manager \<and> delivered \<and> current = Drop_Open \<and> sc_new_state change = Drop_Delivered
       \<and> sc_follow_up_needed change = None
     \<or> closed \<and> manager \<and> \<not> delivered \<and> current = Drop_Delivered \<and> missed \<and> sc_new_state change = Drop_Missed
       \<and> sc_follow_up_needed change = Some True)"
  using assms by (cases current) (auto simp: decide_state_change_def Let_def split: if_splits)

lemma set_state_board_ok:
  assumes ok: "board_ok db" and fresh: "fresh_call bc db"
    and run: "set_state bc c delivered expected manager db = Inr (dp, db')"
  shows "board_ok db'"
proof -
  obtain od w where od: "od \<in> set (bd_orders db)" "cm_id od = c" "cm_delivery_window_id od = Some w"
    "cm_status od \<noteq> Commitment_Cancelled" "cm_status od \<in> deliverable_statuses \<or> row_state db c = Drop_Delivered"
    and dec: "decided bc c w delivered manager db = Inr None \<and> db' = db
     \<or> (\<exists>change. decided bc c w delivered manager db = Inr (Some change) \<and> expected = row_revision db c
          \<and> state_written bc c change db db')"
    using set_state_accepted [OF board_ok_ids [OF ok] run] by metis
  show ?thesis
  proof (cases "db' = db")
    case False
    then obtain change where change: "decided bc c w delivered manager db = Inr (Some change)"
      and written: "state_written bc c change db db'" using dec by blast
    note cases = decide_changes [OF change [unfolded decided_def]]
    have keep: "bd_orders db' = bd_orders db" "bd_closures db' = bd_closures db" "bd_follow_ups db' = bd_follow_ups db"
      "bd_windows db' = bd_windows db"
      and row: "row_state db' c = sc_new_state change" "row_missed db' c = row_missed db c"
      and others: "\<And>e. e \<noteq> c \<Longrightarrow> bd_deliveries db' e = bd_deliveries db e"
      and tasks: "case sc_follow_up_needed change of
          None \<Rightarrow> bd_tasks db' = bd_tasks db
        | Some needed \<Rightarrow> \<exists>rq. sy_commitment_id rq = c \<and> sy_needed rq = needed \<and>
            bd_tasks db' = (if bd_follow_ups db then sync (bc_fresh bc c) rq (bd_tasks db) else bd_tasks db)"
      using written by (auto simp: state_written_def)
    have enabled: "bd_follow_ups db" and t_ok: "tasks_ok (bd_tasks db)" and old: "order_ok db od"
      using ok od(1) by (auto simp: board_ok_def)
    have new_id: "fi_task (bc_fresh bc c) \<notin> tk_id ` set (td_tasks (bd_tasks db))"
      using fresh od(1,2) by (auto simp: fresh_call_def)
    have open': "tasks_ok (bd_tasks db') \<and> (follow_up_open (bd_tasks db') c \<longleftrightarrow> (case sc_follow_up_needed change of
          None \<Rightarrow> follow_up_open (bd_tasks db) c | Some needed \<Rightarrow> needed))
        \<and> (\<forall>d. d \<noteq> c \<longrightarrow> (follow_up_open (bd_tasks db') d \<longleftrightarrow> follow_up_open (bd_tasks db) d))"
    proof (cases "sc_follow_up_needed change")
      case (Some needed)
      then obtain rq where rq: "sy_commitment_id rq = c" "sy_needed rq = needed"
        "bd_tasks db' = sync (bc_fresh bc c) rq (bd_tasks db)"
        using tasks enabled by auto
      show ?thesis
        using sync_mirrors(1,2) [OF t_ok new_id, of rq] sync_other_open [OF t_ok new_id, of _ rq] Some
        unfolding rq by simp
    qed (use tasks t_ok in simp)
    have not_draft: "cm_status od \<noteq> Commitment_Draft"
      using od(5) old od(2) by (auto simp: deliverable_statuses_def order_ok_def)
    have this_ok: "order_ok db' od"
      using cases old od(2,3,4) not_draft row open' keep(2)
      by (auto simp: order_ok_def split: if_splits)
    show ?thesis
    proof (rule board_okI [OF ok keep(1,4,3)])
      show "tasks_ok (bd_tasks db')" using open' by blast
      fix od2 assume od2: "od2 \<in> set (bd_orders db)" "order_ok db od2"
      show "order_ok db' od2"
      proof (cases "cm_id od2 = c")
        case True
        then show ?thesis using this_ok order_by_id [OF board_ok_ids [OF ok] od2(1) od(1)] od(2) by simp
      next
        case False
        from order_ok_cong [OF _ _ _ _ od2(2)] row_same [OF others [OF False]] open' False keep(2)
        show ?thesis by auto
      qed
    next
      fix d assume "d \<notin> cm_id ` set (bd_orders db)"
      then have "d \<noteq> c" using od by auto
      then show "bd_deliveries db' d = bd_deliveries db d
        \<and> (follow_up_open (bd_tasks db') d \<longleftrightarrow> follow_up_open (bd_tasks db) d)"
        using others open' by blast
    qed
  qed (use ok in simp)
qed

lemma assign_board_ok:
  assumes ok: "board_ok db" and run: "assign_driver active bc ids driver db = Inr (n, db')"
  shows "board_ok db'"
proof -
  note a = assign_accepted [OF run]
  show ?thesis
  proof (rule board_okI [OF ok])
    show "bd_orders db' = bd_orders db" "bd_follow_ups db' = bd_follow_ups db" "bd_windows db' = bd_windows db"
      using a by auto
    show "tasks_ok (bd_tasks db')" using a ok by (simp add: board_ok_def)
    show "order_ok db' od" if "order_ok db od" for od using that a by (simp add: order_ok_def)
    show "bd_deliveries db' c = bd_deliveries db c
        \<and> (follow_up_open (bd_tasks db') c \<longleftrightarrow> follow_up_open (bd_tasks db) c)"
      if "c \<notin> cm_id ` set (bd_orders db)" for c using that a by auto
  qed
qed

lemma close_again: "close_window bc w db = Inr (n, db') \<Longrightarrow> bd_closures db w = Some k \<Longrightarrow> n = co_missed_count k \<and> db' = db"
  by (auto simp: close_window_def res_simps)

lemma reopen_again: "reopen_window bc w db = Inr (n, db') \<Longrightarrow> bd_closures db w = None \<Longrightarrow> n = 0 \<and> db' = db"
  by (auto simp: reopen_window_def lock_window_def res_simps split: option.splits)

lemma window_ids:
  "board_ok db \<Longrightarrow> od \<in> set (bd_orders db) \<Longrightarrow>
     cm_id od \<in> cm_id ` set (window_orders db a w) \<longleftrightarrow> od \<in> set (window_orders db a w)"
  using order_by_id [OF board_ok_ids] by (fastforce simp: set_window_orders)

lemma missed_by_closing_iff:
  "board_ok db \<Longrightarrow> od \<in> set (bd_orders db) \<Longrightarrow>
     cm_id od \<in> set (missed_by_closing db a w) \<longleftrightarrow> od \<in> set (window_orders db a w)
       \<and> row_state db (cm_id od) = Drop_Open \<and> cm_status od \<in> deliverable_statuses"
  using order_by_id [OF board_ok_ids] by (fastforce simp: missed_by_closing_def set_window_orders)

lemma reopened_by_iff:
  "board_ok db \<Longrightarrow> od \<in> set (bd_orders db) \<Longrightarrow>
     cm_id od \<in> set (reopened_by db a w) \<longleftrightarrow> od \<in> set (window_orders db a w) \<and> row_state db (cm_id od) = Drop_Missed"
  using order_by_id [OF board_ok_ids] by (fastforce simp: reopened_by_def set_window_orders)

lemma distinct_missed_reopened:
  "board_ok db \<Longrightarrow> distinct (missed_by_closing db a w) \<and> distinct (reopened_by db a w)"
  unfolding missed_by_closing_def reopened_by_def
  by (intro conjI distinct_map_filter distinct_window_orders board_ok_ids)

lemma missed_reopened_ids:
  "set (missed_by_closing db a w) \<subseteq> cm_id ` set (bd_orders db)"
  "set (reopened_by db a w) \<subseteq> cm_id ` set (bd_orders db)"
  by (auto simp: missed_by_closing_def reopened_by_def set_window_orders)

lemma close_board_ok:
  assumes ok: "board_ok db" and fresh: "fresh_call bc db" and run: "close_window bc w db = Inr (n, db')"
  shows "board_ok db'"
proof (cases "bd_closures db w")
  case None
  let ?cs = "missed_by_closing db (bc_action_id bc) w"
  note c = close_accepted [OF board_ok_ids [OF ok] run None]
  obtain jobs where jobs: "jobs_for bc True ?cs jobs" "bd_tasks db' = tasks.batch jobs (bd_tasks db)"
    using c(7) ok by (auto simp: board_ok_def)
  have "tasks_ok (bd_tasks db)" using ok by (simp add: board_ok_def)
  note b = batch_open [OF fresh this jobs(1) distinct_missed_reopened [OF ok, THEN conjunct1]
      missed_reopened_ids(1), folded jobs(2)]
  have closed: "bd_closures db v \<noteq> None \<Longrightarrow> bd_closures db' v \<noteq> None" "bd_closures db' w \<noteq> None" for v
    using c(4) by auto
  show ?thesis
  proof (rule board_okI [OF ok c(2) c(8) c(3) b(1)])
    fix od assume od: "od \<in> set (bd_orders db)" "order_ok db od"
    show "order_ok db' od"
    proof (cases "cm_id od \<in> set ?cs")
      case True
      then have "od \<in> set (window_orders db (bc_action_id bc) w)" "cm_status od \<in> deliverable_statuses"
        using missed_by_closing_iff [OF ok od(1)] by auto
      then show ?thesis using c(5) [OF True] b(2) [of "cm_id od"] True closed(2)
        by (auto simp: order_ok_def set_window_orders deliverable_statuses_def)
    next
      case False
      then show ?thesis using order_ok_cong [OF _ _ _ closed(1) od(2)] row_same [OF c(6) [OF False]] b(2) [of "cm_id od"]
        by simp
    qed
  next
    fix d assume "d \<notin> cm_id ` set (bd_orders db)"
    then have "d \<notin> set ?cs" by (auto simp: missed_by_closing_def set_window_orders)
    then show "bd_deliveries db' d = bd_deliveries db d
        \<and> (follow_up_open (bd_tasks db') d \<longleftrightarrow> follow_up_open (bd_tasks db) d)"
      using c(6) b(2) by simp
  qed
qed (use ok close_again [OF run] in auto)

lemma lock_window_action:
  "lock_window db a w = Inr x \<Longrightarrow> \<exists>r \<in> set (bd_windows db). wi_id r = w \<and> wi_action_id r = a"
  by (auto simp: lock_window_def find_Some_iff split: option.splits)

lemma reopen_window_action:
  "reopen_window bc w db = Inr y \<Longrightarrow> \<exists>r \<in> set (bd_windows db). wi_id r = w \<and> wi_action_id r = bc_action_id bc"
proof -
  assume run: "reopen_window bc w db = Inr y"
  obtain x where "lock_window db (bc_action_id bc) w = Inr x"
    using run by (auto simp: reopen_window_def res_simps)
  then show ?thesis by (rule lock_window_action)
qed

lemma window_of_action:
  assumes "windows_ok db" "od \<in> set (bd_orders db)" "cm_delivery_window_id od = Some w"
    "r \<in> set (bd_windows db)" "wi_id r = w"
  shows "cm_action_id od = wi_action_id r"
  using assms unfolding windows_ok_def by (metis inj_onD)

lemma reopen_board_ok:
  assumes ok: "board_ok db" and fresh: "fresh_call bc db" and run: "reopen_window bc w db = Inr (n, db')"
  shows "board_ok db'"
proof (cases "bd_closures db w = None")
  case False
  let ?cs = "reopened_by db (bc_action_id bc) w"
  note c = reopen_accepted [OF board_ok_ids [OF ok] run False]
  have own: "cm_action_id od = bc_action_id bc"
    if "od \<in> set (bd_orders db)" "cm_delivery_window_id od = Some w" for od
    using that ok window_of_action [OF _ that] reopen_window_action [OF run] by (auto simp: board_ok_def)
  obtain jobs where jobs: "jobs_for bc False ?cs jobs" "bd_tasks db' = tasks.batch jobs (bd_tasks db)"
    using c(8) ok by (auto simp: board_ok_def)
  have "tasks_ok (bd_tasks db)" using ok by (simp add: board_ok_def)
  note b = batch_open [OF fresh this jobs(1) distinct_missed_reopened [OF ok, THEN conjunct2]
      missed_reopened_ids(2), folded jobs(2)]
  show ?thesis
  proof (rule board_okI [OF ok c(2) c(9) c(3) b(1)])
    fix od assume od: "od \<in> set (bd_orders db)" "order_ok db od"
    note ids = reopened_by_iff [OF ok od(1), of "bc_action_id bc" w] window_ids [OF ok od(1), of "bc_action_id bc" w]
    show "order_ok db' od"
    proof (cases "cm_delivery_window_id od = Some w")
      case True
      then have "od \<in> set (window_orders db (bc_action_id bc) w) \<longleftrightarrow>
          cm_status od \<in> deliverable_statuses \<or> row_state db (cm_id od) = Drop_Delivered"
        using od own by (auto simp: set_window_orders)
      then show ?thesis
        using od(2) True ids c(5) [of "cm_id od"] c(6) [of "cm_id od"] b(2) [of "cm_id od"]
        by (cases "cm_status od") (auto simp: order_ok_def deliverable_statuses_def split: if_splits)
    next
      case other: False
      then have "cm_id od \<notin> set ?cs" "cm_id od \<notin> cm_id ` set (window_orders db (bc_action_id bc) w)"
        using ids by (auto simp: set_window_orders)
      then show ?thesis
        using od(2) other c(4) c(5) [of "cm_id od"] c(6) [of "cm_id od"] b(2) [of "cm_id od"]
        by (auto simp: order_ok_def)
    qed
  next
    fix d assume "d \<notin> cm_id ` set (bd_orders db)"
    then have "d \<notin> set ?cs" "d \<notin> cm_id ` set (window_orders db (bc_action_id bc) w)"
      by (auto simp: reopened_by_def set_window_orders)
    then show "bd_deliveries db' d = bd_deliveries db d
        \<and> (follow_up_open (bd_tasks db') d \<longleftrightarrow> follow_up_open (bd_tasks db) d)"
      using c(7) b(2) by simp
  qed
qed (use ok reopen_again [OF run] in auto)

section \<open>Drivers\<close>

text \<open>
  C31: Somebody who does not manage the action may change a drop only as a driver of the action, only a
  drop assigned to them, and only while its window is open.  The drop then has the state asked for, open or
  delivered.  Either it had that state before and nothing at all is written, or it had the other of the two
  (so it was not missed), the expected revision was the current one, and the new store is the old one with
  two differences: the row of this drop has the new state, its time and person, and the next revision,
  while driver, assignment and missed flag stay; and one audit event on this drop is appended.
\<close>
theorem driver_tick:
  assumes "board_ok db" "\<not> may_manage_action actor (bc_action_id bc)"
    and "service_set_state actor bc c delivered expected db = Inr (dp, db')"
  shows "can_authenticate (ip_account actor) \<and> is_board_driver actor (bc_action_id bc)
    \<and> row_driver db c = Some (ua_id (ip_account actor))
    \<and> (\<exists>od \<in> set (bd_orders db). cm_id od = c \<and> cm_status od \<noteq> Commitment_Cancelled
         \<and> (\<exists>w. cm_delivery_window_id od = Some w \<and> bd_closures db w = None))
    \<and> row_state db' c = (if delivered then Drop_Delivered else Drop_Open)
    \<and> (row_state db c = row_state db' c \<and> db' = db
       \<or> row_state db c = (if delivered then Drop_Open else Drop_Delivered) \<and> row_revision db c = expected
         \<and> (\<exists>d p. bd_deliveries db c = Some d
             \<and> db' = db\<lparr>bd_deliveries := (bd_deliveries db)(c \<mapsto> d\<lparr>
                   dv_state := if delivered then Drop_Delivered else Drop_Open,
                   dv_state_changed_at := if delivered then Some (bc_occurred_at bc) else None,
                   dv_state_changed_by := if delivered then Some (ua_id (ip_account actor)) else None,
                   dv_revision := dv_revision d + 1\<rparr>),
                 bd_audit := bd_audit db @ [call_event (bc\<lparr>bc_actor_user_id := ua_id (ip_account actor)\<rparr>)
                   (marked_event (if delivered then Drop_Delivered else Drop_Open)) ''commitment'' c p]\<rparr>))"
proof -
  let ?bc = "bc\<lparr>bc_actor_user_id := ua_id (ip_account actor)\<rparr>"
  let ?target = "if delivered then Drop_Delivered else Drop_Open"
  have driver: "can_authenticate (ip_account actor)" "is_board_driver actor (bc_action_id bc)"
    and run: "set_state ?bc c delivered expected False db = Inr (dp, db')"
    using assms(2,3) by (auto simp: service_set_state_def translated_def Let_def split: if_splits sum.splits)
  obtain od w where od: "od \<in> set (bd_orders db)" "cm_id od = c" "cm_delivery_window_id od = Some w"
      "cm_status od \<noteq> Commitment_Cancelled"
    and mine: "False \<or> row_driver db c = Some (bc_actor_user_id ?bc)"
    and dec: "decided ?bc c w delivered False db = Inr None \<and> db' = db
     \<or> (\<exists>change. decided ?bc c w delivered False db = Inr (Some change) \<and> expected = row_revision db c
          \<and> state_written ?bc c change db db')"
    by (rule set_state_accepted [OF board_ok_ids [OF assms(1)] run]) (rule that)
  have facts: "can_authenticate (ip_account actor) \<and> is_board_driver actor (bc_action_id bc)
    \<and> row_driver db c = Some (ua_id (ip_account actor))" using driver mine by simp
  have row: "\<exists>od \<in> set (bd_orders db). cm_id od = c \<and> cm_status od \<noteq> Commitment_Cancelled
         \<and> (\<exists>w. cm_delivery_window_id od = Some w \<and> bd_closures db w = None)" if "bd_closures db w = None"
    using od that by blast
  show ?thesis
    using dec
  proof (elim disjE exE conjE)
    assume d: "decided ?bc c w delivered False db = Inr None" and "db' = db"
    then have "bd_closures db w = None \<and> row_state db c = ?target"
      by (auto simp: decided_def decide_state_change_def Let_def split: if_splits)
    then show ?thesis using facts row \<open>db' = db\<close> by simp
  next
    fix change
    assume d: "decided ?bc c w delivered False db = Inr (Some change)" and rev: "expected = row_revision db c"
      and written: "state_written ?bc c change db db'"
    have ch: "bd_closures db w = None" "row_state db c \<noteq> Drop_Missed" "sc_new_state change = ?target"
      "sc_new_state change \<noteq> row_state db c" "sc_follow_up_needed change = None"
      using decide_changes [OF d [unfolded decided_def]] by (cases delivered; auto)+
    then have before: "row_state db c = (if delivered then Drop_Open else Drop_Delivered)"
      by (cases "row_state db c") (simp_all split: if_splits)
    obtain r where r: "bd_deliveries db c = Some r" using mine by (auto simp: row_driver_def split: option.splits)
    obtain p where "db' = add_event (call_event ?bc (marked_event ?target) ''commitment'' c p)
             (upsert_row (bc_action_id bc) c (put_state ?target (ua_id (ip_account actor)) (bc_occurred_at bc)) db)"
      using written ch(3,5) by (auto simp: state_written_def)
    then have "db' = db\<lparr>bd_deliveries := (bd_deliveries db)(c \<mapsto> r\<lparr>dv_state := ?target,
                   dv_state_changed_at := if delivered then Some (bc_occurred_at bc) else None,
                   dv_state_changed_by := if delivered then Some (ua_id (ip_account actor)) else None,
                   dv_revision := dv_revision r + 1\<rparr>),
                 bd_audit := bd_audit db @ [call_event ?bc (marked_event ?target) ''commitment'' c p]\<rparr>"
      using r by (simp add: add_event_def upsert_row_def put_state_def)
    moreover have "row_state db' c = ?target" using written ch(3) by (simp add: state_written_def)
    ultimately show ?thesis using facts row [OF ch(1)] before rev r by blast
  qed
qed

text \<open>A board with one order in one window, driven by user 5 of the action 1.\<close>

definition sample_drop_order :: commitment where
  "sample_drop_order = (sample_order Review_Ready)\<lparr>cm_delivery_window_id := Some 2\<rparr>"

definition sample_board :: board_db where
  "sample_board = \<lparr>bd_contexts = [1 \<mapsto> \<lparr>bx_name = [], bx_status = Active, bx_starts_on = 1, bx_ends_on = 100,
       bx_ordering = True, bx_invoicing = True, bx_enabled = True, bx_capable = True, bx_timezone = lit ''UTC'', bx_zone = fixed_zone 0,
       bx_revision = 1\<rparr>],
     bd_windows = [\<lparr>wi_id = 2, wi_action_id = 1, wi_starts_at = utc 0, wi_ends_at = utc minute_us, wi_retired = False, wi_fully_booked = False\<rparr>],
     bd_orders = [sample_drop_order],
     bd_deliveries = [21 \<mapsto> (new_row 1)\<lparr>dv_driver_user_id := Some 5\<rparr>],
     bd_closures = (\<lambda>_. None), bd_names = (\<lambda>_. None), bd_collation = (\<lambda>_. 0), bd_follow_ups = True,
     bd_tasks = \<lparr>td_lists = (\<lambda>_. None), td_tasks = [], td_follow_lists = (\<lambda>_. None),
       td_follow_ups = (\<lambda>_. None), td_audit = []\<rparr>,
     bd_audit = [], bd_read_audits = []\<rparr>"

definition sample_call :: "uuid \<Rightarrow> board_call" where
  "sample_call actor = \<lparr>bc_action_id = 1, bc_actor_user_id = actor, bc_request_id = [], bc_occurred_at = utc 0,
     bc_event_id = 90, bc_fresh = (\<lambda>c. \<lparr>fi_list = 91, fi_task = c, fi_audit = 92\<rparr>)\<rparr>"

definition sample_driver :: identity_principal where
  "sample_driver = \<lparr>ip_account = sample_account Active_Account, ip_global_roles = {},
     ip_action_memberships = [\<lparr>am_id = 6, am_action_id = 1, am_action_name = [], am_user_id = 5, am_role = Driver,
       am_active_from = utc 0, am_active_until = None, am_delegate_user_id = None\<rparr>]\<rparr>"

lemma sample_board_ok: "board_ok sample_board"
  by (simp add: board_ok_def order_ids_ok_def tasks_ok_def windows_ok_def order_ok_def sample_board_def
      sample_drop_order_def sample_order_def row_state_def row_missed_def new_row_def
      follow_up_open_def follow_up_task_def)

lemma sample_fresh: "fresh_call (sample_call u) sample_board"
  by (simp add: fresh_call_def sample_call_def sample_board_def)

theorem driver_tick_witness:
  "\<exists>dp db'. service_set_state sample_driver (sample_call 5) 21 True 1 sample_board = Inr (dp, db')
     \<and> row_state db' 21 = Drop_Delivered"
proof -
  have "\<exists>dp db'. service_set_state sample_driver (sample_call 5) 21 True 1 sample_board = Inr (dp, db')"
    by (simp add: service_set_state_def set_state_def sample_driver_def sample_call_def sample_board_def
        may_manage_action_def has_action_role_def is_system_admin_def roles_for_def is_board_driver_def
        can_authenticate_def sample_account_def translated_def board_zone_def new_row_def lock_window_def
        sample_drop_order_def sample_order_def drops_def shown_order_def deliverable_statuses_def drop_of_def Let_def
        row_state_def row_driver_def row_missed_def row_revision_def decide_state_change_def upsert_row_def add_event_def)
  then obtain dp db' where run: "service_set_state sample_driver (sample_call 5) 21 True 1 sample_board = Inr (dp, db')"
    by blast
  have "\<not> may_manage_action sample_driver (bc_action_id (sample_call 5))"
    by (simp add: may_manage_action_def has_action_role_def is_system_admin_def roles_for_def sample_driver_def)
  from driver_tick [OF sample_board_ok this run] run show ?thesis by auto
qed

section \<open>Closing and reopening a window\<close>

lemma closed_rows:
  assumes ok: "board_ok db" and run: "close_window bc w db = Inr (n, db')" and was_open: "bd_closures db w = None"
    and od: "od \<in> set (bd_orders db)"
  shows "row_state db' (cm_id od) = Drop_Missed \<and> od \<in> set (window_orders db' (bc_action_id bc) w) \<longleftrightarrow>
    cm_id od \<in> set (missed_by_closing db (bc_action_id bc) w)"
proof -
  note c = close_accepted [OF board_ok_ids [OF ok] run was_open]
  note iff = missed_by_closing_iff [OF ok od, of "bc_action_id bc" w]
  show ?thesis
  proof (cases "cm_id od \<in> set (missed_by_closing db (bc_action_id bc) w)")
    case True
    then show ?thesis using iff c(2) c(5) [OF True] by (simp add: set_window_orders)
  next
    case False
    then have same: "row_state db' (cm_id od) = row_state db (cm_id od)" using row_same [OF c(6)] by blast
    have "row_state db (cm_id od) \<noteq> Drop_Missed" if "cm_delivery_window_id od = Some w"
      "cm_status od \<in> deliverable_statuses"
      using that was_open ok od by (auto simp: board_ok_def order_ok_def deliverable_statuses_def)
    then show ?thesis using same False by (auto simp: set_window_orders)
  qed
qed


lemma close_reopen_action:
  assumes "board_ok db" "close_window bc w db = Inr (n, db1)" "reopen_window bc2 w db1 = Inr (m, db2)"
    and same: "bd_windows db1 = bd_windows db"
  shows "bc_action_id bc2 = bc_action_id bc"
proof -
  have "\<exists>win \<in> set (bd_windows db). wi_id win = w \<and> wi_action_id win = bc_action_id bc"
    using assms(2) lock_window_action by (auto simp: close_window_def res_simps)
  moreover have "\<exists>win \<in> set (bd_windows db). wi_id win = w \<and> wi_action_id win = bc_action_id bc2"
    using reopen_window_action [OF assms(3)] same by simp
  ultimately show ?thesis using assms(1) by (auto simp: board_ok_def windows_ok_def dest: inj_onD)
qed

lemma close_reopen_ids:
  assumes ok: "board_ok db" "board_ok db1" and run: "close_window bc w db = Inr (n, db1)" and was_open: "bd_closures db w = None"
  shows "set (reopened_by db1 (bc_action_id bc) w) = set (missed_by_closing db (bc_action_id bc) w)"
    and "length (reopened_by db1 (bc_action_id bc) w) = length (missed_by_closing db (bc_action_id bc) w)"
proof -
  let ?cs = "missed_by_closing db (bc_action_id bc) w" and ?rs = "reopened_by db1 (bc_action_id bc) w"
  have orders: "bd_orders db1 = bd_orders db" by (rule close_accepted(2) [OF board_ok_ids [OF ok(1)] run was_open])
  have "c \<in> set ?cs \<Longrightarrow> c \<in> cm_id ` set (bd_orders db)" "c \<in> set ?rs \<Longrightarrow> c \<in> cm_id ` set (bd_orders db)" for c
    using orders by (auto simp: missed_by_closing_def reopened_by_def set_window_orders)
  moreover have "cm_id od \<in> set ?rs \<longleftrightarrow> cm_id od \<in> set ?cs" if "od \<in> set (bd_orders db)" for od
    using closed_rows [OF ok(1) run was_open that] reopened_by_iff [OF ok(2), of od] that orders by auto
  ultimately show same: "set ?rs = set ?cs" by blast
  have "distinct ?cs" "distinct ?rs" using distinct_missed_reopened ok by blast+
  then show "length ?rs = length ?cs" using same by (metis distinct_card)
qed

lemma close_keeps_flag:
  assumes ok: "board_ok db" and run: "close_window bc w db = Inr (n, db1)" and was_open: "bd_closures db w = None"
    and od: "od \<in> set (bd_orders db)" "cm_id od \<notin> set (missed_by_closing db (bc_action_id bc) w)"
  shows "row_missed db1 (cm_id od) = row_missed db (cm_id od)"
    and "od \<in> set (window_orders db1 (bc_action_id bc) w) \<Longrightarrow> \<not> row_missed db (cm_id od)"
proof -
  note same = row_same [OF close_accepted(6) [OF board_ok_ids [OF ok] run was_open od(2)]]
  show "row_missed db1 (cm_id od) = row_missed db (cm_id od)" using same by simp
  have ok': "order_ok db od" using ok od by (simp add: board_ok_def)
  assume w: "od \<in> set (window_orders db1 (bc_action_id bc) w)"
  then have "cm_status od \<noteq> Commitment_Cancelled" "cm_delivery_window_id od = Some w"
    using ok' same by (auto simp: set_window_orders deliverable_statuses_def order_ok_def)
  then show "\<not> row_missed db (cm_id od)" using ok' was_open by (auto simp: order_ok_def)
qed

text \<open>
  C32: Reopening a window undoes its closing: it reopens exactly as many drops as the closing recorded as
  missed, and the state of every drop, the flags, the closures and the open follow-up tasks are what they
  were before the window was closed.
\<close>
theorem reopen_undoes_close:
  assumes "board_ok db" "fresh_call bc db" "bd_closures db w = None" "close_window bc w db = Inr (n, db1)"
    and "fresh_call bc2 db1" "reopen_window bc2 w db1 = Inr (m, db2)"
  shows "m = n \<and> bd_closures db2 = bd_closures db \<and> bd_orders db2 = bd_orders db
    \<and> row_state db2 = row_state db \<and> row_missed db2 = row_missed db
    \<and> follow_up_open (bd_tasks db2) = follow_up_open (bd_tasks db)"
proof -
  have ok1: "board_ok db1" by (rule close_board_ok [OF assms(1,2,4)])
  have ok2: "board_ok db2" by (rule reopen_board_ok [OF ok1 assms(5,6)])
  note c = close_accepted [OF board_ok_ids [OF assms(1)] assms(4,3)]
  have closed: "bd_closures db1 w \<noteq> None" using c(4) by auto
  note action = close_reopen_action [OF assms(1,4,6) c(8)]
  note r = reopen_accepted [OF board_ok_ids [OF ok1] assms(6) closed, unfolded action
      close_reopen_ids [OF assms(1) ok1 assms(4,3)]]
  let ?cs = "missed_by_closing db (bc_action_id bc) w"
  have orders: "bd_orders db2 = bd_orders db" using r(2) c(2) by simp
  have per_order: "row_state db2 (cm_id od) = row_state db (cm_id od) \<and> row_missed db2 (cm_id od) = row_missed db (cm_id od)"
    if od: "od \<in> set (bd_orders db)" for od
  proof (cases "cm_id od \<in> set ?cs")
    case True
    then have "row_state db (cm_id od) = Drop_Open" "cm_delivery_window_id od = Some w" "cm_status od \<noteq> Commitment_Cancelled"
      using missed_by_closing_iff [OF assms(1) od] by (auto simp: set_window_orders deliverable_statuses_def)
    moreover have "order_ok db od" "order_ok db2 od" using assms(1) ok2 od orders by (auto simp: board_ok_def)
    ultimately show ?thesis using True assms(3) r(4) r(5) [of "cm_id od"] by (auto simp: order_ok_def)
  next
    case False
    then show ?thesis
      using r(5,6) [of "cm_id od"] row_same [OF c(6) [OF False]] close_keeps_flag [OF assms(1,4,3) od False]
        window_ids [OF ok1, of od] od c(2) by auto
  qed
  have all: "row_state db2 d = row_state db d \<and> row_missed db2 d = row_missed db d
      \<and> follow_up_open (bd_tasks db2) d = follow_up_open (bd_tasks db) d" for d
  proof (cases "d \<in> cm_id ` set (bd_orders db)")
    case True
    then obtain od where "od \<in> set (bd_orders db)" "d = cm_id od" by blast
    then show ?thesis using assms(1) ok2 orders per_order by (simp add: board_ok_def order_ok_def)
  qed (use assms(1) ok2 orders in \<open>simp add: board_ok_def row_missed_def row_state_def\<close>)
  then show ?thesis using c(1,4) r(1,4) assms(3) orders by (auto simp: fun_eq_iff)
qed

lemma close_returns:
  assumes "board_zone db (bc_action_id bc) = Inr zone" "lock_window db (bc_action_id bc) w = Inr (win, cl)"
    "window_label (wi_starts_at win) (wi_ends_at win) zone = Inr label"
  shows "\<exists>n db'. close_window bc w db = Inr (n, db') \<and> bd_contexts db' = bd_contexts db"
  by (cases "bd_closures db w")
    (auto simp: close_window_def assms Let_def follow_up_drops_batch mark_missed_def intro!: fold_tables)

lemma reopen_returns:
  assumes "board_zone db (bc_action_id bc) = Inr zone" "lock_window db (bc_action_id bc) w = Inr (win, cl)"
    "window_label (wi_starts_at win) (wi_ends_at win) zone = Inr label"
  shows "\<exists>n db'. reopen_window bc w db = Inr (n, db')"
  by (auto simp: reopen_window_def assms Let_def)

definition sample_window :: window_row where
  "sample_window = \<lparr>wi_id = 2, wi_action_id = 1, wi_starts_at = utc 0, wi_ends_at = utc minute_us, wi_retired = False, wi_fully_booked = False\<rparr>"

lemma sample_zone: "bd_contexts db = bd_contexts sample_board \<Longrightarrow> board_zone db 1 = Inr (fixed_zone 0)"
  by (simp add: board_zone_def sample_board_def)

lemma sample_lock:
  "bd_windows db = bd_windows sample_board \<Longrightarrow> \<exists>cl. lock_window db 1 2 = Inr (sample_window, cl)"
  by (simp add: lock_window_def sample_board_def sample_window_def)

lemma sample_label:
  "\<exists>label. window_label (wi_starts_at sample_window) (wi_ends_at sample_window) (fixed_zone 0) = Inr label"
  by (simp add: window_label_def sample_window_def zone_wall_def fixed_zone_def in_range_def max_date_def
      time_units Let_def split: prod.split)

theorem reopen_undoes_close_witness:
  "\<exists>db1 db2 n. close_window (sample_call 5) 2 sample_board = Inr (n, db1)
     \<and> reopen_window ((sample_call 5)\<lparr>bc_fresh := (\<lambda>c. \<lparr>fi_list = 91, fi_task = c + 2 ^ 100, fi_audit = 92\<rparr>)\<rparr>) 2 db1
         = Inr (n, db2)
     \<and> row_state db2 = row_state sample_board"
proof -
  let ?bc2 = "(sample_call 5)\<lparr>bc_fresh := (\<lambda>c. \<lparr>fi_list = 91, fi_task = c + 2 ^ 100, fi_audit = 92\<rparr>)\<rparr>"
  have a: "bc_action_id (sample_call 5) = 1" "bc_action_id ?bc2 = 1" by (simp_all add: sample_call_def)
  obtain label where label: "window_label (wi_starts_at sample_window) (wi_ends_at sample_window) (fixed_zone 0) = Inr label"
    using sample_label by blast
  obtain cl where cl: "lock_window sample_board 1 2 = Inr (sample_window, cl)" using sample_lock by blast
  obtain n db1 where close: "close_window (sample_call 5) 2 sample_board = Inr (n, db1)"
    "bd_contexts db1 = bd_contexts sample_board"
    using close_returns [of sample_board "sample_call 5", unfolded a] sample_zone cl label by blast
  have was_open: "bd_closures sample_board 2 = None" by (simp add: sample_board_def)
  note c = close_accepted [OF board_ok_ids [OF sample_board_ok] close(1) was_open]
  obtain cl1 where "lock_window db1 1 2 = Inr (sample_window, cl1)" using sample_lock c(8) by blast
  then obtain m db2 where reopen: "reopen_window ?bc2 2 db1 = Inr (m, db2)"
    using reopen_returns [of db1 ?bc2, unfolded a] sample_zone [OF close(2)] label by blast
  have orders: "bd_orders db1 = [sample_drop_order]" using c(2) by (simp add: sample_board_def)
  obtain jobs where jobs: "jobs_for (sample_call 5) True (missed_by_closing sample_board 1 2) jobs"
    "bd_tasks db1 = tasks.batch jobs (bd_tasks sample_board)"
    using c(7) a by (auto simp: sample_board_def)
  have "cm_id ` set (bd_orders sample_board) = {21}"
    by (simp add: sample_board_def sample_drop_order_def sample_order_def)
  then have cs: "set (missed_by_closing sample_board 1 2) \<subseteq> {21}"
    using missed_reopened_ids(1) [of sample_board 1 2] by (simp only:)
  have "fi_task (fst x) = 21" if "x \<in> set jobs" for x
  proof -
    have "sy_commitment_id (snd x) = 21" using jobs_for_keys [OF jobs(1) that] cs by blast
    then show ?thesis using jobs_for_keys [OF jobs(1) that] by (simp add: sample_call_def)
  qed
  then have ids: "(fi_task \<circ> fst) ` set jobs \<subseteq> {21}" by auto
  have "tk_id ` set (td_tasks (bd_tasks db1)) \<subseteq> {21}"
    using ids tasks.batch_used [of jobs "bd_tasks sample_board"] unfolding jobs(2) by (auto simp: sample_board_def)
  then have "fresh_call ?bc2 db1"
    unfolding fresh_call_def orders by (auto simp: sample_drop_order_def sample_order_def)
  from reopen_undoes_close [OF sample_board_ok sample_fresh was_open close(1) this reopen] close reopen
  show ?thesis by auto
qed

section \<open>Assigning drivers\<close>

lemma assign_one_sets:
  assumes "assign_one bc driver c (n, db) = (m, db1)"
  shows "bd_deliveries db1 c \<noteq> None \<and> row_driver db1 c = driver" "\<And>e. e \<noteq> c \<Longrightarrow> bd_deliveries db1 e = bd_deliveries db e"
    "bd_contexts db1 = bd_contexts db" "bd_orders db1 = bd_orders db"
  using assms by (auto simp: assign_one_def row_upsert row_driver_def split: if_splits option.splits)

lemma assign_fold_sets:
  assumes "fold (assign_one bc driver) cs (n, db) = (m, db1)" "distinct cs"
  shows "(\<forall>c \<in> set cs. bd_deliveries db1 c \<noteq> None \<and> row_driver db1 c = driver) \<and> bd_contexts db1 = bd_contexts db"
  using assms
proof (induction cs arbitrary: n db)
  case (Cons c cs)
  obtain k db2 where one: "assign_one bc driver c (n, db) = (k, db2)" by (cases "assign_one bc driver c (n, db)")
  have rest: "fold (assign_one bc driver) cs (k, db2) = (m, db1)" using Cons.prems(1) one by simp
  have "bd_deliveries db1 c = bd_deliveries db2 c"
    using assign_fold [OF rest] Cons.prems(2) by simp
  then show ?case using Cons.IH [OF rest] Cons.prems(2) assign_one_sets [OF one] by (simp add: row_driver_def)
qed simp

lemma assign_fold_done:
  "(\<forall>c \<in> set cs. bd_deliveries db c \<noteq> None \<and> row_driver db c = driver) \<Longrightarrow> fold (assign_one bc driver) cs (n, db) = (n, db)"
  by (induction cs) (auto simp: assign_one_def)

definition assignable :: "uuid \<Rightarrow> uuid list \<Rightarrow> board_db \<Rightarrow> uuid list" where
  "assignable a ids db = sort_key uint (map cm_id (filter (\<lambda>od. cm_action_id od = a \<and> cm_id od \<in> set ids
     \<and> cm_delivery_window_id od \<noteq> None \<and> cm_status od \<in> deliverable_statuses) (bd_orders db)))"

text \<open>
  An accepted assignment gives every listed order the driver, all of them or none: it is refused when
  one of them is not a deliverable order of the action.  Repeating it changes nothing and reports no
  change.
\<close>
lemma assign_driver_idempotent:
  assumes "order_ids_ok db" "assign_driver active bc ids driver db = Inr (n, db1)" "bc_action_id bc2 = bc_action_id bc"
  shows "(\<forall>c \<in> set ids. row_driver db1 c = driver \<and> (\<exists>od \<in> set (bd_orders db). cm_id od = c
        \<and> cm_action_id od = bc_action_id bc \<and> cm_status od \<in> deliverable_statuses))
    \<and> assign_driver active bc2 ids driver db1 = Inr (0, db1)"
proof (cases "ids = []")
  case False
  let ?rows = "assignable (bc_action_id bc) ids db"
  note run = assms(2) [unfolded assign_driver_def Let_def, folded assignable_def]
  obtain zone where zone: "board_zone db (bc_action_id bc) = Inr zone" using run False by (auto simp: res_simps)
  have valid: "\<not> (driver \<noteq> None \<and> \<not> active (bc_action_id bc) (the driver))" and len: "length ?rows = card (set ids)"
    using run False zone by (auto split: if_splits)
  obtain k db2 where fold: "fold (assign_one bc driver) ?rows (0, db) = (k, db2)"
    by (cases "fold (assign_one bc driver) ?rows (0, db)")
  then obtain e where db1: "db1 = db2 \<or> db1 = add_event e db2" using run False zone valid len by (auto split: if_splits)
  have "distinct ?rows" using assms(1) by (simp add: assignable_def order_ids_ok_def distinct_map_filter)
  moreover have sub: "set ?rows \<subseteq> set ids" by (auto simp: assignable_def)
  ultimately have rows: "set ?rows = set ids" and dist: "distinct ?rows"
    using len card_subset_eq [of "set ids" "set ?rows"] by (auto simp: distinct_card)
  note sets = assign_fold_sets [OF fold dist]
  have all: "\<forall>c \<in> set ?rows. bd_deliveries db1 c \<noteq> None \<and> row_driver db1 c = driver"
    and same: "bd_contexts db1 = bd_contexts db" "bd_orders db1 = bd_orders db"
    using sets db1 assign_fold [OF fold] by (auto simp: row_driver_def)
  have again: "assignable (bc_action_id bc2) ids db1 = ?rows" and "board_zone db1 (bc_action_id bc2) = Inr zone"
    using same zone assms(3) by (simp_all add: assignable_def board_zone_def)
  then have "assign_driver active bc2 ids driver db1 = Inr (0, db1)"
    unfolding assign_driver_def Let_def assignable_def [symmetric]
    using False valid len assms(3) by (simp add: assign_fold_done [OF all])
  moreover have "\<forall>c \<in> set ids. \<exists>od \<in> set (bd_orders db). cm_id od = c
        \<and> cm_action_id od = bc_action_id bc \<and> cm_status od \<in> deliverable_statuses"
    unfolding rows [symmetric] by (auto simp: assignable_def)
  ultimately show ?thesis using all rows by auto
qed (use assms(2) in \<open>simp add: assign_driver_def\<close>)

lemma assign_driver_idempotent_example:
  "\<exists>db1. assign_driver (\<lambda>_ _. True) (sample_call 7) [21] (Some 8) sample_board = Inr (1, db1)
     \<and> assign_driver (\<lambda>_ _. True) (sample_call 6) [21] (Some 8) db1 = Inr (0, db1)"
proof -
  have "\<exists>db1. assign_driver (\<lambda>_ _. True) (sample_call 7) [21] (Some 8) sample_board = Inr (1, db1)"
    by (simp add: assign_driver_def sample_call_def sample_board_def board_zone_def sample_drop_order_def
        sample_order_def deliverable_statuses_def assign_one_def new_row_def row_driver_def)
  then obtain db1 where run: "assign_driver (\<lambda>_ _. True) (sample_call 7) [21] (Some 8) sample_board = Inr (1, db1)"
    by blast
  from assign_driver_idempotent [OF board_ok_ids [OF sample_board_ok] run, of "sample_call 6"] run
  show ?thesis by (auto simp: sample_call_def)
qed

section \<open>What a driver sees\<close>

lemma audit_kept: "x \<in> set rows \<Longrightarrow> x \<in> set (fold (\<lambda>w. add_read_audit (f w)) ws rows)"
  by (induction ws arbitrary: rows) (auto simp: add_read_audit_def)

lemma audit_added:
  assumes "w \<in> set ws"
  shows "\<exists>x \<in> set (fold (\<lambda>w. add_read_audit (f w)) ws rows). ra_driver_user_id x = ra_driver_user_id (f w)
    \<and> ra_window_id x = ra_window_id (f w) \<and> ra_viewed_on x = ra_viewed_on (f w)"
  using assms
proof (induction ws arbitrary: rows)
  case (Cons v ws)
  show ?case
  proof (cases "w = v")
    case True
    have "\<exists>x \<in> set (add_read_audit (f v) rows). ra_driver_user_id x = ra_driver_user_id (f v)
        \<and> ra_window_id x = ra_window_id (f v) \<and> ra_viewed_on x = ra_viewed_on (f v)"
      by (auto simp: add_read_audit_def list_ex_iff)
    then show ?thesis using True audit_kept [of _ "add_read_audit (f v) rows" f ws] by auto
  qed (use Cons in simp)
qed simp

lemma filter_upcoming_set: "set (filter_upcoming today ds) \<subseteq> set ds"
  by (induction ds) auto

lemma board_day_in: "board_day days requested today = Some d \<Longrightarrow> d \<in> set days"
  using filter_upcoming_set [of today days] by (auto simp: board_day_def split: if_splits list.splits)

lemma driver_drop:
  assumes "d \<in> set (drops db a ws (Some u) False None)"
  shows "dd_driver_user_id d = Some u \<and> dd_order_status d = None
    \<and> dd_state_changed_at d = None \<and> dd_state_changed_by_name d = None \<and> dd_driver_name d = None
    \<and> (\<exists>od \<in> set (bd_orders db). cm_id od = dd_commitment_id d \<and> cm_status od \<in> deliverable_statuses)"
  using assms by (auto simp: set_drops shown_order_def) (auto simp: drop_of_def Let_def)

text \<open>
  C33: Somebody who does not manage the action sees on the board only orders assigned to them that are
  still to be delivered, without order status, without who changed what when and without other drivers;
  the shown day is one of the days; nothing changes but the read audits, which then hold the driver, the
  window and the day for every window shown.
\<close>
theorem board_for_drivers:
  assumes "\<not> may_manage_action actor a" "service_board drivers actor a day viewed_at db = Inr (bd, db')"
  shows "is_board_driver actor a \<and> db_drivers bd = [] \<and> (\<forall>d. db_day bd = Some d \<longrightarrow> d \<in> set (db_days bd))
    \<and> (\<forall>w \<in> set (db_windows bd). bw_drops w \<noteq> [] \<and> (\<forall>k. bw_closure w = Some k \<longrightarrow> wc_closed_by_name k = [])
         \<and> (\<exists>r \<in> set (bd_read_audits db'). ra_driver_user_id r = ua_id (ip_account actor) \<and> ra_window_id r = bw_id w
              \<and> local_day (bx_zone (the (bd_contexts db a))) viewed_at = Inr (ra_viewed_on r))
         \<and> (\<forall>d \<in> set (bw_drops w). dd_driver_user_id d = Some (ua_id (ip_account actor)) \<and> dd_order_status d = None
              \<and> dd_state_changed_at d = None \<and> dd_state_changed_by_name d = None \<and> dd_driver_name d = None
              \<and> (\<exists>od \<in> set (bd_orders db). cm_id od = dd_commitment_id d \<and> cm_status od \<in> deliverable_statuses)))
    \<and> db' = db\<lparr>bd_read_audits := bd_read_audits db'\<rparr>"
proof -
  let ?u = "ua_id (ip_account actor)" and ?zone = "bx_zone (the (bd_contexts db a))"
  have driver: "is_board_driver actor a" and run: "board drivers a day (Some ?u) viewed_at db = Inr (bd, db')"
    using assms by (auto simp: service_board_def split: if_splits)
  define windows where "windows = sort_key (\<lambda>r. (instant (wi_starts_at r), uint (wi_id r)))
           (filter (\<lambda>r. wi_action_id r = a) (bd_windows db))"
  define ds where "ds = drops db a (map wi_id windows) (Some ?u) False None"
  define visible where "visible = filter (\<lambda>r. list_ex (\<lambda>d. dd_window_id d = Some (wi_id r)) ds) windows"
  obtain zone where zone: "board_zone db a = Inr zone" "zone = ?zone"
    using run by (auto simp: board_def board_zone_def res_simps split: option.splits if_splits)
  obtain dated where dated: "map_res (\<lambda>r. then_res (local_day zone (wi_starts_at r)) (\<lambda>d. Inr (r, d))) visible = Inr dated"
    using run by (auto simp: board_def zone(1) Let_def res_simps windows_def [symmetric] ds_def [symmetric] visible_def [symmetric])
  obtain today where today: "local_day zone viewed_at = Inr today"
    using run dated by (auto simp: board_def zone(1) Let_def res_simps windows_def [symmetric] ds_def [symmetric]
        visible_def [symmetric])
  define selected where "selected = board_day (sorted_list_of_set (snd ` set dated)) day today"
  define chosen where "chosen = map fst (filter (\<lambda>x. selected = Some (snd x)) dated)"
  let ?f = "\<lambda>r. \<lparr>ra_driver_user_id = ?u, ra_window_id = wi_id r, ra_viewed_on = today, ra_action_id = a,
    ra_first_viewed_at = viewed_at\<rparr>"
  have result: "db_drivers bd = []" "db_day bd = selected" "db_days bd = sorted_list_of_set (snd ` set dated)"
    "db_windows bd = map (shown_window db False ds) chosen"
    "db' = db\<lparr>bd_read_audits := fold (\<lambda>r. add_read_audit (?f r)) chosen (bd_read_audits db)\<rparr>"
    using run dated today
    by (auto simp: board_def zone(1) Let_def windows_def [symmetric] ds_def [symmetric] visible_def [symmetric]
        selected_def [symmetric] chosen_def)
  have "r \<in> set visible" if "r \<in> set chosen" for r
    using that map_res_set [OF dated] by (force simp: chosen_def res_simps)
  then have seen: "\<exists>d \<in> set ds. dd_window_id d = Some (wi_id r)" if "r \<in> set chosen" for r
    using that by (auto simp: visible_def list_ex_iff)
  have each: "bw_drops w \<noteq> [] \<and> (\<forall>k. bw_closure w = Some k \<longrightarrow> wc_closed_by_name k = [])
      \<and> (\<exists>x \<in> set (bd_read_audits db'). ra_driver_user_id x = ?u \<and> ra_window_id x = bw_id w
           \<and> local_day ?zone viewed_at = Inr (ra_viewed_on x))
      \<and> set (bw_drops w) \<subseteq> set ds" if w: "w \<in> set (db_windows bd)" for w
  proof -
    obtain r where r: "r \<in> set chosen" "w = shown_window db False ds r" using w result(4) by auto
    have "bw_drops w \<noteq> []" using seen [OF r(1)] r(2) by (auto simp: shown_window_def filter_empty_conv)
    moreover have "\<exists>x \<in> set (bd_read_audits db'). ra_driver_user_id x = ?u \<and> ra_window_id x = bw_id w
           \<and> local_day ?zone viewed_at = Inr (ra_viewed_on x)"
      using audit_added [OF r(1), of ?f "bd_read_audits db"] r(2) today zone(2) result(5)
      by (auto simp: shown_window_def)
    ultimately show ?thesis using r(2) by (auto simp: shown_window_def)
  qed
  have "d \<in> set ds \<Longrightarrow> dd_driver_user_id d = Some ?u \<and> dd_order_status d = None
    \<and> dd_state_changed_at d = None \<and> dd_state_changed_by_name d = None \<and> dd_driver_name d = None
    \<and> (\<exists>od \<in> set (bd_orders db). cm_id od = dd_commitment_id d \<and> cm_status od \<in> deliverable_statuses)" for d
    unfolding ds_def by (rule driver_drop)
  moreover have "\<forall>d. db_day bd = Some d \<longrightarrow> d \<in> set (db_days bd)"
    using board_day_in unfolding result(2,3) selected_def by blast
  moreover have "db' = db\<lparr>bd_read_audits := bd_read_audits db'\<rparr>" using result(5) by simp
  ultimately show ?thesis using each driver result(1) by blast
qed

theorem board_for_drivers_witness:
  "\<exists>bd db'. service_board (\<lambda>_. [(5, [])]) sample_driver 1 None (utc 0) sample_board = Inr (bd, db')
     \<and> db_drivers bd = [] \<and> (\<forall>w \<in> set (db_windows bd). bw_drops w \<noteq> [])"
proof -
  have "\<exists>bd db'. service_board (\<lambda>_. [(5, [])]) sample_driver 1 None (utc 0) sample_board = Inr (bd, db')"
    by (simp add: service_board_def sample_driver_def sample_account_def can_authenticate_def may_manage_action_def
        has_action_role_def is_system_admin_def roles_for_def is_board_driver_def board_def board_zone_def sample_board_def
        Let_def local_day_def zone_wall_def fixed_zone_def in_range_def max_date_def time_units drops_def
        shown_order_def sample_drop_order_def sample_order_def deliverable_statuses_def row_driver_def new_row_def
        drop_of_def require_aware_def sample_buyer_def lit_def)
  then obtain bd db' where run: "service_board (\<lambda>_. [(5, [])]) sample_driver 1 None (utc 0) sample_board = Inr (bd, db')"
    by blast
  have "\<not> may_manage_action sample_driver 1"
    by (simp add: may_manage_action_def has_action_role_def is_system_admin_def roles_for_def sample_driver_def)
  from board_for_drivers [OF this run] run show ?thesis by blast
qed

end
