(* ===== verification/Delivery_Schedule.thy ===== *)
theory Delivery_Schedule
  imports Delivery_Board
begin

text \<open>
  The stored delivery configuration of an action, \<^verbatim>\<open>adapters/postgres/delivery.py\<close>: reading it, saving
  it under its revision, the switch of a window that is fully booked, and the guard for orders that book
  one.  The windows are rows of the board's tables; their instants are read in the configured zone.
  \<open>now\<close> is the value of \<^verbatim>\<open>datetime.now(timezone.utc)\<close>.
\<close>

section \<open>Reading\<close>

definition window_rows :: "board_db \<Rightarrow> uuid \<Rightarrow> window_row list" where
  "window_rows db action_id = sort_key (\<lambda>r. (instant (wi_starts_at r), uint (wi_id r)))
     (filter (\<lambda>r. wi_action_id r = action_id) (bd_windows db))"

definition read_window :: "tz \<Rightarrow> uuid \<Rightarrow> window_row \<Rightarrow> delivery_window res" where
  "read_window zone action_id r =
     then_res (zone_wall zone (instant (wi_starts_at r))) (\<lambda>s.
     then_res (zone_wall zone (instant (wi_ends_at r))) (\<lambda>e.
     delivery_window_init \<lparr>dw_id = wi_id r, dw_action_id = action_id, dw_delivery_on = date_of_wall s,
       dw_starts_at = Clock (s mod day_us) False, dw_ends_at = Clock (e mod day_us) False,
       dw_retired = wi_retired r, dw_fully_booked = wi_fully_booked r\<rparr>))"

definition read_configuration :: "tz_database \<Rightarrow> board_db \<Rightarrow> uuid \<Rightarrow> delivery_configuration res" where
  "read_configuration tzdb db action_id =
     (case bd_contexts db action_id of
        None \<Rightarrow> Inl (App Resource_Not_Found ''action_not_found'')
      | Some x \<Rightarrow>
          then_res (map_res (read_window (bx_zone x) action_id) (window_rows db action_id)) (\<lambda>ws.
          delivery_configuration_init tzdb \<lparr>dc_action_id = action_id, dc_enabled = bx_enabled x,
            dc_timezone = bx_timezone x, dc_revision = bx_revision x, dc_windows = ws\<rparr>))"

text \<open>The switch applies to orders that book a window; True when a full window is booked on purpose.\<close>

definition guard_window_booking :: "board_db \<Rightarrow> uuid option \<Rightarrow> bool \<Rightarrow> bool res" where
  "guard_window_booking db window_id allow_full_window =
     (case window_id of
        None \<Rightarrow> Inr False
      | Some w \<Rightarrow>
          if \<not> list_ex (\<lambda>r. wi_id r = w \<and> wi_fully_booked r) (bd_windows db) then Inr False
          else if \<not> allow_full_window then Inl (App Conflict ''delivery_window_full'')
          else Inr True)"

section \<open>Saving\<close>

definition fully_booked_event ::
  "uuid \<Rightarrow> uuid \<Rightarrow> uuid \<Rightarrow> bool \<Rightarrow> bool \<Rightarrow> uuid option \<Rightarrow> pystr \<Rightarrow> datetime \<Rightarrow> pystr option \<Rightarrow> board_event" where
  "fully_booked_event new_id action_id w previous current actor request_id at reason = \<lparr>be_id = new_id,
     be_action_id = action_id, be_actor_user_id = actor,
     be_event_type = ''delivery_window_fully_booked_changed'', be_entity_type = ''delivery_window'',
     be_entity_id = w, be_request_id = request_id,
     be_payload = Js_Object ([(lit ''fullyBooked'', Js_Scalar (JBool current)),
         (lit ''previousFullyBooked'', Js_Scalar (JBool previous))]
       @ (case reason of None \<Rightarrow> [] | Some r \<Rightarrow> [(lit ''reason'', js_text r)])),
     be_occurred_at = at\<rparr>"

text \<open>A window that exists may only be retired.\<close>

definition window_kept :: "delivery_window list \<Rightarrow> delivery_window \<Rightarrow> bool" where
  "window_kept incoming old =
     (case find (\<lambda>w. dw_id w = dw_id old) incoming of
        None \<Rightarrow> False
      | Some w \<Rightarrow> old\<lparr>dw_retired := dw_retired w, dw_fully_booked := dw_fully_booked w\<rparr> = w
          \<and> \<not> (dw_retired old \<and> \<not> dw_retired w))"

definition check_new_window ::
  "tz_database \<Rightarrow> board_db \<Rightarrow> pystr \<Rightarrow> datetime \<Rightarrow> uuid set \<Rightarrow> unit \<Rightarrow> delivery_window \<Rightarrow> unit res" where
  "check_new_window tzdb db zone_name now existing u w =
     (if dw_id w \<in> existing then Inr ()
      else if dw_retired w then Inl (Invariant ''delivery_window_past'')
      else then_res (window_bounds tzdb w zone_name) (\<lambda>(start, _).
        if instant start \<le> instant now then Inl (Invariant ''delivery_window_past'')
        else if list_ex (\<lambda>r. wi_id r = dw_id w) (bd_windows db)
        then Inl (Invariant ''delivery_window_action_mismatch'')
        else Inr ()))"

definition write_window ::
  "tz_database \<Rightarrow> (uuid \<Rightarrow> uuid) \<Rightarrow> uuid \<Rightarrow> pystr \<Rightarrow> uuid option \<Rightarrow> pystr \<Rightarrow> datetime \<Rightarrow> delivery_window list
   \<Rightarrow> board_db \<Rightarrow> delivery_window \<Rightarrow> board_db res" where
  "write_window tzdb event_id action_id zone_name actor request_id now stored db w =
     (case find (\<lambda>old. dw_id old = dw_id w) stored of
        Some old \<Rightarrow>
          let db1 = db\<lparr>bd_windows := map (\<lambda>r. if wi_id r = dw_id w
                then r\<lparr>wi_retired := dw_retired w, wi_fully_booked := wi_fully_booked r \<and> \<not> dw_retired w\<rparr> else r)
                (bd_windows db)\<rparr>
          in Inr (if dw_fully_booked old \<and> dw_retired w
            then add_event (fully_booked_event (event_id (dw_id w)) action_id (dw_id w) True False actor
              request_id now (Some (lit ''retired''))) db1
            else db1)
      | None \<Rightarrow> then_res (window_bounds tzdb w zone_name) (\<lambda>(start, stop).
          Inr (db\<lparr>bd_windows := bd_windows db @ [\<lparr>wi_id = dw_id w, wi_action_id = action_id,
            wi_starts_at = start, wi_ends_at = stop, wi_retired = False, wi_fully_booked = False\<rparr>]\<rparr>)))"

definition save_configuration ::
  "tz_database \<Rightarrow> (uuid \<Rightarrow> uuid) \<Rightarrow> datetime \<Rightarrow> uuid option \<Rightarrow> pystr \<Rightarrow> delivery_configuration \<Rightarrow> board_db
   \<Rightarrow> (delivery_configuration \<times> board_db) res" where
  "save_configuration tzdb event_id now actor request_id c db =
     (case bd_contexts db (dc_action_id c) of
        None \<Rightarrow> Inl (App Resource_Not_Found ''action_not_found'')
      | Some x \<Rightarrow>
     if \<not> bx_capable x then Inl (Invariant ''delivery_not_supported'')
     else if bx_status x = Archived then Inl (App Conflict ''delivery_action_archived'')
     else then_res (read_configuration tzdb db (dc_action_id c)) (\<lambda>current.
     if dc_revision current \<noteq> dc_revision c then Inl (App Conflict ''delivery_configuration_conflict'')
     else if dc_enabled current \<and> \<not> dc_enabled c then Inl (App Conflict ''delivery_disable_forbidden'')
     else if dc_windows current \<noteq> [] \<and> dc_timezone current \<noteq> dc_timezone c
     then Inl (App Conflict ''delivery_timezone_locked'')
     else then_res (validate_period c (bx_starts_on x) (bx_ends_on x)) (\<lambda>_.
     if \<not> list_all (window_kept (dc_windows c)) (dc_windows current)
     then Inl (App Conflict ''delivery_window_immutable'')
     else then_res (fold_res (check_new_window tzdb db (dc_timezone c) now (dw_id ` set (dc_windows current)))
         () (dc_windows c)) (\<lambda>_.
     case tzdb (dc_timezone c) of
       None \<Rightarrow> Inl Key_Error
     | Some zone \<Rightarrow>
         let db1 = db\<lparr>bd_contexts := (bd_contexts db)(dc_action_id c \<mapsto> x\<lparr>bx_enabled := dc_enabled c,
               bx_timezone := dc_timezone c, bx_zone := zone, bx_revision := dc_revision current + 1\<rparr>)\<rparr>
         in then_res (fold_res (write_window tzdb event_id (dc_action_id c) (dc_timezone c) actor request_id now
              (dc_windows current)) db1 (dc_windows c)) (\<lambda>db2.
            then_res (read_configuration tzdb db2 (dc_action_id c)) (\<lambda>answer. Inr (answer, db2)))))))"

definition set_fully_booked ::
  "tz_database \<Rightarrow> uuid \<Rightarrow> datetime \<Rightarrow> uuid \<Rightarrow> uuid \<Rightarrow> bool \<Rightarrow> uuid \<Rightarrow> pystr \<Rightarrow> board_db
   \<Rightarrow> (delivery_configuration \<times> board_db) res" where
  "set_fully_booked tzdb event_id now action_id w fully_booked actor request_id db =
     (case bd_contexts db action_id of
        None \<Rightarrow> Inl (App Resource_Not_Found ''action_not_found'')
      | Some x \<Rightarrow>
     if \<not> bx_capable x then Inl (Invariant ''delivery_not_supported'')
     else if bx_status x = Archived then Inl (App Conflict ''delivery_action_archived'')
     else case find (\<lambda>r. wi_id r = w \<and> wi_action_id r = action_id) (bd_windows db) of
       None \<Rightarrow> Inl (App Resource_Not_Found ''delivery_window_not_found'')
     | Some r \<Rightarrow>
         if wi_fully_booked r = fully_booked
         then then_res (read_configuration tzdb db action_id) (\<lambda>answer. Inr (answer, db))
         else if wi_retired r then Inl (App Conflict ''delivery_window_retired'')
         else if instant (wi_starts_at r) \<le> instant now then Inl (App Conflict ''delivery_window_past'')
         else let db1 = add_event (fully_booked_event event_id action_id w (wi_fully_booked r) fully_booked
               (Some actor) request_id now None)
               (db\<lparr>bd_windows := map (\<lambda>r. if wi_id r = w then r\<lparr>wi_fully_booked := fully_booked\<rparr> else r)
                 (bd_windows db)\<rparr>)
           in then_res (read_configuration tzdb db1 action_id) (\<lambda>answer. Inr (answer, db1)))"

section \<open>What saving may change\<close>

lemma read_window_fields:
  "read_window zone a r = Inr w \<Longrightarrow> dw_id w = wi_id r \<and> dw_action_id w = a \<and> dw_retired w = wi_retired r
     \<and> dw_fully_booked w = wi_fully_booked r"
  by (auto simp: read_window_def res_simps)

lemma delivery_configuration_init_keeps:
  "delivery_configuration_init tzdb c = Inr c' \<Longrightarrow> set (dc_windows c') = set (dc_windows c) \<and> dc_revision c' = dc_revision c
     \<and> dc_enabled c' = dc_enabled c \<and> dc_timezone c' = dc_timezone c \<and> dc_action_id c' = dc_action_id c"
  by (auto simp: delivery_configuration_init_def Let_def res_simps)

lemma read_configuration_rows:
  assumes "read_configuration tzdb db a = Inr c"
  obtains x where "bd_contexts db a = Some x" "dc_revision c = bx_revision x" "dc_enabled c = bx_enabled x"
    "\<And>r. r \<in> set (bd_windows db) \<Longrightarrow> wi_action_id r = a \<Longrightarrow> \<exists>w \<in> set (dc_windows c). dw_id w = wi_id r \<and> dw_retired w = wi_retired r"
    "\<And>w. w \<in> set (dc_windows c) \<Longrightarrow> \<exists>r \<in> set (bd_windows db). wi_action_id r = a \<and> dw_id w = wi_id r \<and> dw_retired w = wi_retired r"
proof -
  obtain x ws where x: "bd_contexts db a = Some x" "map_res (read_window (bx_zone x) a) (window_rows db a) = Inr ws"
    "delivery_configuration_init tzdb \<lparr>dc_action_id = a, dc_enabled = bx_enabled x,
            dc_timezone = bx_timezone x, dc_revision = bx_revision x, dc_windows = ws\<rparr> = Inr c"
    using assms by (auto simp: read_configuration_def res_simps split: option.splits)
  note keep = delivery_configuration_init_keeps [OF x(3), simplified]
  have rows: "list_all2 (\<lambda>r w. read_window (bx_zone x) a r = Inr w) (window_rows db a) ws"
    using x(2) by (simp add: map_res_Inr_iff)
  show ?thesis
  proof (rule that [OF x(1)])
    fix r assume "r \<in> set (bd_windows db)" "wi_action_id r = a"
    then have "r \<in> set (window_rows db a)" by (simp add: window_rows_def)
    then obtain i where i: "i < length (window_rows db a)" "r = window_rows db a ! i"
      by (auto simp: in_set_conv_nth)
    then have "read_window (bx_zone x) a r = Inr (ws ! i)" "ws ! i \<in> set ws"
      using rows list_all2_nthD [OF rows i(1)] list_all2_lengthD [OF rows] by auto
    then obtain w where "w \<in> set ws" "read_window (bx_zone x) a r = Inr w" by blast
    then show "\<exists>w \<in> set (dc_windows c). dw_id w = wi_id r \<and> dw_retired w = wi_retired r"
      using keep read_window_fields by blast
  next
    fix w assume "w \<in> set (dc_windows c)"
    then have "w \<in> set ws" using keep by blast
    then obtain r where "r \<in> set (window_rows db a)" "read_window (bx_zone x) a r = Inr w"
      using map_res_set [OF x(2)] by blast
    then show "\<exists>r \<in> set (bd_windows db). wi_action_id r = a \<and> dw_id w = wi_id r \<and> dw_retired w = wi_retired r"
      using read_window_fields [of "bx_zone x" a r w] by (auto simp: window_rows_def)
  qed (use keep in auto)
qed

text \<open>A window of the old table under the new one.\<close>

definition window_follows :: "window_row \<Rightarrow> window_row \<Rightarrow> bool" where
  "window_follows r r' \<longleftrightarrow> wi_id r' = wi_id r \<and> wi_action_id r' = wi_action_id r \<and> wi_starts_at r' = wi_starts_at r
     \<and> wi_ends_at r' = wi_ends_at r \<and> (wi_retired r \<longrightarrow> wi_retired r') \<and> (wi_fully_booked r' \<longrightarrow> wi_fully_booked r)"

lemma window_follows_trans: "window_follows r s \<Longrightarrow> window_follows s t \<Longrightarrow> window_follows r t"
  by (auto simp: window_follows_def)

definition windows_extended :: "uuid \<Rightarrow> datetime \<Rightarrow> board_db \<Rightarrow> board_db \<Rightarrow> bool" where
  "windows_extended a now db db' \<longleftrightarrow>
     (\<forall>r \<in> set (bd_windows db). \<exists>r' \<in> set (bd_windows db'). window_follows r r')
     \<and> (\<forall>r' \<in> set (bd_windows db'). (\<exists>r \<in> set (bd_windows db). window_follows r r')
          \<or> wi_action_id r' = a \<and> instant now < instant (wi_starts_at r'))
     \<and> bd_orders db' = bd_orders db \<and> bd_deliveries db' = bd_deliveries db \<and> bd_closures db' = bd_closures db
     \<and> bd_tasks db' = bd_tasks db \<and> bd_follow_ups db' = bd_follow_ups db"

lemma windows_extended_refl: "windows_extended a now db db"
  by (auto simp: windows_extended_def window_follows_def)

lemma windows_extended_trans:
  assumes one: "windows_extended a now db db1" and two: "windows_extended a now db1 db2"
  shows "windows_extended a now db db2"
proof -
  have "\<exists>r2 \<in> set (bd_windows db2). window_follows r r2" if "r \<in> set (bd_windows db)" for r
    using one two that window_follows_trans unfolding windows_extended_def by meson
  moreover have "(\<exists>r \<in> set (bd_windows db). window_follows r r2)
      \<or> wi_action_id r2 = a \<and> instant now < instant (wi_starts_at r2)"
    if r2: "r2 \<in> set (bd_windows db2)" for r2
  proof (cases "\<exists>r1 \<in> set (bd_windows db1). window_follows r1 r2")
    case True
    then obtain r1 where r1: "r1 \<in> set (bd_windows db1)" "window_follows r1 r2" by blast
    then have "(\<exists>r \<in> set (bd_windows db). window_follows r r1)
        \<or> wi_action_id r1 = a \<and> instant now < instant (wi_starts_at r1)"
      using one unfolding windows_extended_def by blast
    then show ?thesis using r1(2) window_follows_trans by (auto simp: window_follows_def)
  qed (use two r2 in \<open>auto simp: windows_extended_def\<close>)
  ultimately show ?thesis using one two unfolding windows_extended_def by simp
qed

definition new_window_ok :: "tz_database \<Rightarrow> pystr \<Rightarrow> datetime \<Rightarrow> board_db \<Rightarrow> delivery_window \<Rightarrow> bool" where
  "new_window_ok tzdb zone_name now db w \<longleftrightarrow> dw_id w \<notin> wi_id ` set (bd_windows db)
     \<and> (\<forall>start stop. window_bounds tzdb w zone_name = Inr (start, stop) \<longrightarrow> instant now < instant start)"

lemma checked_windows:
  assumes "fold_res (check_new_window tzdb db zone_name now existing) () ws = Inr u" "w \<in> set ws" "dw_id w \<notin> existing"
  shows "new_window_ok tzdb zone_name now db w"
  using assms
proof (induction ws arbitrary: u)
  case (Cons v ws)
  then have "check_new_window tzdb db zone_name now existing () v = Inr ()"
    "fold_res (check_new_window tzdb db zone_name now existing) () ws = Inr u"
    by (auto simp: res_simps)
  then show ?case using Cons
    by (auto simp: check_new_window_def new_window_ok_def res_simps list_ex_iff split: if_splits)
qed simp

text \<open>One write: an existing window may become retired, a new one is added.\<close>

lemma write_window_step:
  assumes run: "write_window tzdb ev a zone_name actor rid now stored db w = Inr db'"
    and retired: "\<And>r. r \<in> set (bd_windows db) \<Longrightarrow> wi_id r = dw_id w \<Longrightarrow> wi_retired r \<Longrightarrow> dw_retired w"
    and new: "dw_id w \<notin> dw_id ` set stored \<Longrightarrow> new_window_ok tzdb zone_name now db w"
  shows "windows_extended a now db db'" "bd_contexts db' = bd_contexts db"
    "inj_on wi_id (set (bd_windows db)) \<Longrightarrow> inj_on wi_id (set (bd_windows db'))"
    "\<And>r'. r' \<in> set (bd_windows db') \<Longrightarrow> wi_id r' \<noteq> dw_id w \<Longrightarrow> r' \<in> set (bd_windows db)"
proof -
  have all: "windows_extended a now db db' \<and> bd_contexts db' = bd_contexts db
    \<and> (inj_on wi_id (set (bd_windows db)) \<longrightarrow> inj_on wi_id (set (bd_windows db')))
    \<and> (\<forall>r' \<in> set (bd_windows db'). wi_id r' \<noteq> dw_id w \<longrightarrow> r' \<in> set (bd_windows db))"
  proof (cases "find (\<lambda>old. dw_id old = dw_id w) stored")
    case (Some old)
    define f :: "window_row \<Rightarrow> window_row" where "f = (\<lambda>r. if wi_id r = dw_id w
                then r\<lparr>wi_retired := dw_retired w, wi_fully_booked := wi_fully_booked r \<and> \<not> dw_retired w\<rparr> else r)"
    have w': "bd_windows db' = map f (bd_windows db)" "bd_contexts db' = bd_contexts db" "bd_orders db' = bd_orders db"
      "bd_deliveries db' = bd_deliveries db" "bd_closures db' = bd_closures db" "bd_tasks db' = bd_tasks db"
      "bd_follow_ups db' = bd_follow_ups db"
      using run Some by (auto simp: write_window_def Let_def f_def split: if_splits)
    have "window_follows r (f r)" if "r \<in> set (bd_windows db)" for r
      using retired [OF that] by (auto simp: window_follows_def f_def)
    then have "windows_extended a now db db'" unfolding windows_extended_def w' by auto
    moreover have "inj_on wi_id (f ` set (bd_windows db))" if inj: "inj_on wi_id (set (bd_windows db))"
    proof (rule inj_onI)
      fix x y assume "x \<in> f ` set (bd_windows db)" "y \<in> f ` set (bd_windows db)" "wi_id x = wi_id y"
      then obtain r s where rs: "r \<in> set (bd_windows db)" "s \<in> set (bd_windows db)" "x = f r" "y = f s" by blast
      moreover have "wi_id r = wi_id s" using rs \<open>wi_id x = wi_id y\<close> by (simp add: f_def split: if_splits)
      ultimately have "r = s" using inj by (auto dest: inj_onD)
      then show "x = y" using rs by simp
    qed
    ultimately show ?thesis using w'(1,2) by (auto simp: f_def)
  next
    case None
    then have "dw_id w \<notin> dw_id ` set stored" by (auto simp: find_None_iff)
    note ok = new [OF this]
    obtain start stop where b: "window_bounds tzdb w zone_name = Inr (start, stop)"
      and db': "db' = db\<lparr>bd_windows := bd_windows db @ [\<lparr>wi_id = dw_id w, wi_action_id = a,
            wi_starts_at = start, wi_ends_at = stop, wi_retired = False, wi_fully_booked = False\<rparr>]\<rparr>"
      using run None by (auto simp: write_window_def res_simps)
    have "windows_extended a now db db'"
      using ok b unfolding windows_extended_def db' new_window_ok_def by (auto simp: window_follows_def)
    moreover have "inj_on wi_id (set (bd_windows db'))" if "inj_on wi_id (set (bd_windows db))"
      using that ok by (auto simp: db' new_window_ok_def)
    ultimately show ?thesis by (auto simp: db')
  qed
  then show "windows_extended a now db db'" "bd_contexts db' = bd_contexts db"
    "inj_on wi_id (set (bd_windows db)) \<Longrightarrow> inj_on wi_id (set (bd_windows db'))"
    "\<And>r'. r' \<in> set (bd_windows db') \<Longrightarrow> wi_id r' \<noteq> dw_id w \<Longrightarrow> r' \<in> set (bd_windows db)" by auto
qed

lemma write_windows:
  assumes "fold_res (write_window tzdb ev a zone_name actor rid now stored) db ws = Inr db'" "distinct (map dw_id ws)"
    and "\<And>w r. w \<in> set ws \<Longrightarrow> r \<in> set (bd_windows db) \<Longrightarrow> wi_id r = dw_id w \<Longrightarrow> wi_retired r \<Longrightarrow> dw_retired w"
    and "\<And>w. w \<in> set ws \<Longrightarrow> dw_id w \<notin> dw_id ` set stored \<Longrightarrow> new_window_ok tzdb zone_name now db w"
  shows "windows_extended a now db db' \<and> bd_contexts db' = bd_contexts db
    \<and> (inj_on wi_id (set (bd_windows db)) \<longrightarrow> inj_on wi_id (set (bd_windows db')))"
  using assms
proof (induction ws arbitrary: db)
  case Nil
  then show ?case by (simp add: windows_extended_refl)
next
  case (Cons w ws)
  obtain db1 where one: "write_window tzdb ev a zone_name actor rid now stored db w = Inr db1"
    and rest: "fold_res (write_window tzdb ev a zone_name actor rid now stored) db1 ws = Inr db'"
    using Cons.prems(1) by (auto simp: res_simps)
  have s: "windows_extended a now db db1" "bd_contexts db1 = bd_contexts db"
    "inj_on wi_id (set (bd_windows db)) \<Longrightarrow> inj_on wi_id (set (bd_windows db1))"
    "\<And>r'. r' \<in> set (bd_windows db1) \<Longrightarrow> wi_id r' \<noteq> dw_id w \<Longrightarrow> r' \<in> set (bd_windows db)"
    using write_window_step [OF one] Cons.prems(3,4) by auto
  have "windows_extended a now db1 db' \<and> bd_contexts db' = bd_contexts db1
    \<and> (inj_on wi_id (set (bd_windows db1)) \<longrightarrow> inj_on wi_id (set (bd_windows db')))"
  proof (rule Cons.IH [OF rest])
    show "distinct (map dw_id ws)" using Cons.prems(2) by simp
    fix v assume v: "v \<in> set ws"
    then have diff: "dw_id v \<noteq> dw_id w" using Cons.prems(2) by (auto simp: image_iff)
    show "dw_retired v" if "r \<in> set (bd_windows db1)" "wi_id r = dw_id v" "wi_retired r" for r
      using s(4) [OF that(1)] that diff v Cons.prems(3) [of v r] by auto
    show "new_window_ok tzdb zone_name now db1 v" if "dw_id v \<notin> dw_id ` set stored"
      using Cons.prems(4) [of v] that v s(4) diff by (fastforce simp: new_window_ok_def)
  qed
  then show ?case using s windows_extended_trans by auto
qed

lemma plan_saved:
  assumes "delivery_configuration_init tzdb raw = Inr c" "windows_ok db"
    and "save_configuration tzdb ev now actor rid c db = Inr (answer, db')"
  shows "windows_extended (dc_action_id c) now db db' \<and> windows_ok db'
    \<and> dc_revision answer = dc_revision c + 1 \<and> dc_enabled answer = dc_enabled c
    \<and> (\<exists>x. bd_contexts db (dc_action_id c) = Some x \<and> bx_revision x = dc_revision c \<and> bx_status x \<noteq> Archived
         \<and> (bx_enabled x \<longrightarrow> dc_enabled c))"
proof -
  let ?a = "dc_action_id c"
  obtain x where x: "bd_contexts db ?a = Some x" "bx_status x \<noteq> Archived" "bx_capable x"
    using assms(3) by (auto simp: save_configuration_def split: option.splits if_splits)
  note facts = save_configuration_def x
  obtain current where cur: "read_configuration tzdb db ?a = Inr current"
    using assms(3) by (auto simp: facts res_simps)
  obtain x' where x': "bd_contexts db ?a = Some x'" "dc_revision current = bx_revision x'" "dc_enabled current = bx_enabled x'"
    and rows: "\<And>r. r \<in> set (bd_windows db) \<Longrightarrow> wi_action_id r = ?a
        \<Longrightarrow> \<exists>w \<in> set (dc_windows current). dw_id w = wi_id r \<and> dw_retired w = wi_retired r"
    and stored: "\<And>w. w \<in> set (dc_windows current) \<Longrightarrow> \<exists>r \<in> set (bd_windows db). wi_action_id r = ?a \<and> dw_id w = wi_id r
        \<and> dw_retired w = wi_retired r"
    by (rule read_configuration_rows [OF cur]) (rule that)
  have guards: "dc_revision current = dc_revision c" "dc_enabled current \<longrightarrow> dc_enabled c"
    "list_all (window_kept (dc_windows c)) (dc_windows current)"
    "fold_res (check_new_window tzdb db (dc_timezone c) now (dw_id ` set (dc_windows current))) () (dc_windows c) = Inr ()"
    using assms(3) cur by (auto simp: facts res_simps split: if_splits)
  obtain zone where zone: "tzdb (dc_timezone c) = Some zone"
    using assms(3) cur by (auto simp: facts res_simps split: if_splits option.splits)
  define db1 where "db1 = db\<lparr>bd_contexts := (bd_contexts db)(?a \<mapsto> x\<lparr>bx_enabled := dc_enabled c,
               bx_timezone := dc_timezone c, bx_zone := zone, bx_revision := dc_revision current + 1\<rparr>)\<rparr>"
  have run: "fold_res (write_window tzdb ev ?a (dc_timezone c) actor rid now (dc_windows current)) db1 (dc_windows c) = Inr db'"
    and answer: "read_configuration tzdb db' ?a = Inr answer"
    using assms(3) cur zone by (auto simp: facts res_simps db1_def Let_def split: if_splits)
  have dist: "distinct (map dw_id (dc_windows c))"
    using delivery_config.post_init_wf [OF assms(1)] by (simp add: wf_delivery_configuration_def)
  have same: "bd_windows db1 = bd_windows db" "bd_orders db1 = bd_orders db" "bd_deliveries db1 = bd_deliveries db"
      "bd_closures db1 = bd_closures db" "bd_tasks db1 = bd_tasks db" "bd_follow_ups db1 = bd_follow_ups db"
    by (simp_all add: db1_def)
  have new: "new_window_ok tzdb (dc_timezone c) now db1 w" if "w \<in> set (dc_windows c)" "dw_id w \<notin> dw_id ` set (dc_windows current)" for w
    using checked_windows [OF guards(4) that] same by (simp add: new_window_ok_def)
  have inj: "inj_on wi_id (set (bd_windows db))" using assms(2) by (simp add: windows_ok_def)
  have retired: "dw_retired w"
    if w: "w \<in> set (dc_windows c)" and r: "r \<in> set (bd_windows db1)" "wi_id r = dw_id w" "wi_retired r" for w r
  proof -
    have "dw_id w \<in> wi_id ` set (bd_windows db1)" using r(1,2) by (metis imageI)
    then have "dw_id w \<in> dw_id ` set (dc_windows current)"
      using new [OF w] by (auto simp: new_window_ok_def)
    then obtain old where old: "old \<in> set (dc_windows current)" "dw_id old = dw_id w" by auto
    obtain s where s: "s \<in> set (bd_windows db)" "wi_id s = dw_id old" "dw_retired old = wi_retired s"
      using stored [OF old(1)] by auto
    have "s = r" by (rule inj_onD [OF inj]) (use s r old(2) same in simp_all)
    then have "dw_retired old" using s(3) r(3) by simp
    moreover obtain v where "find (\<lambda>w. dw_id w = dw_id old) (dc_windows c) = Some v" "dw_retired old \<longrightarrow> dw_retired v"
      using guards(3) old(1) by (auto simp: list_all_iff window_kept_def split: option.splits)
    moreover have "v = w"
      if "find (\<lambda>w. dw_id w = dw_id old) (dc_windows c) = Some v" for v
    proof -
      have "v \<in> set (dc_windows c)" "dw_id v = dw_id w" using that old(2) by (auto simp: find_Some_iff)
      then show ?thesis using dist w by (meson distinct_map inj_onD)
    qed
    ultimately show ?thesis by blast
  qed
  have "windows_extended ?a now db1 db' \<and> bd_contexts db' = bd_contexts db1
    \<and> (inj_on wi_id (set (bd_windows db1)) \<longrightarrow> inj_on wi_id (set (bd_windows db')))"
    by (rule write_windows [OF run dist]) (use retired new in auto)
  then have w: "windows_extended ?a now db db'" "bd_contexts db' = bd_contexts db1" "inj_on wi_id (set (bd_windows db'))"
    using inj same unfolding windows_extended_def by auto
  have "windows_ok db'"
    using w(1,3) assms(2) unfolding windows_ok_def windows_extended_def window_follows_def by metis
  moreover obtain y where "bd_contexts db' ?a = Some y" "dc_revision answer = bx_revision y" "dc_enabled answer = bx_enabled y"
    by (rule read_configuration_rows [OF answer]) (rule that)
  ultimately show ?thesis using w(1,2) x x' guards(1,2) by (auto simp: db1_def)
qed

text \<open>
  C34: A saved delivery plan raises its revision by one and was made against the current one.  No window
  of the installation disappears, moves or changes hands; a retired window stays retired, the switch for
  a full window is at most cleared; every window added belongs to the action and starts in the future.
  A plan is never disabled again, identifiers stay unique, and orders, deliveries and closures are
  untouched.
\<close>
theorem schedule_saved:
  assumes "delivery_configuration_init tzdb raw = Inr c" "windows_ok db"
    and "save_configuration tzdb ev now actor rid c db = Inr (answer, db')"
  shows "windows_extended (dc_action_id c) now db db' \<and> windows_ok db'
    \<and> dc_revision answer = dc_revision c + 1 \<and> dc_enabled answer = dc_enabled c
    \<and> (\<exists>x. bd_contexts db (dc_action_id c) = Some x \<and> bx_revision x = dc_revision c \<and> bx_status x \<noteq> Archived
         \<and> (bx_enabled x \<longrightarrow> dc_enabled c))"
  by (rule plan_saved [OF assms])

definition sample_plan :: delivery_configuration where
  "sample_plan = \<lparr>dc_action_id = 1, dc_enabled = True, dc_timezone = lit ''UTC'', dc_revision = 1,
     dc_windows = [\<lparr>dw_id = 7, dw_action_id = 1, dw_delivery_on = 50, dw_starts_at = Clock 0 False,
       dw_ends_at = Clock minute_us False, dw_retired = False, dw_fully_booked = False\<rparr>]\<rparr>"

definition sample_zones :: tz_database where
  "sample_zones = [lit ''UTC'' \<mapsto> fixed_zone 0]"

lemma plan_bounds:
  "window_bounds sample_zones w (lit ''UTC'') = Inr (utc (midnight (dw_delivery_on w) + clock_us (dw_starts_at w)),
     utc (midnight (dw_delivery_on w) + clock_us (dw_ends_at w)))"
  if "\<not> clock_has_tz (dw_starts_at w)" "\<not> clock_has_tz (dw_ends_at w)" "clock_us (dw_starts_at w) mod minute_us = 0"
    "clock_us (dw_ends_at w) mod minute_us = 0" "in_range (midnight (dw_delivery_on w) + clock_us (dw_starts_at w))"
    "in_range (midnight (dw_delivery_on w) + clock_us (dw_ends_at w))"
  using that by (simp add: window_bounds_def local_instant_def sample_zones_def fixed_zone_def fold_candidate_def
      zone_wall_def opt_list_def Let_def)

lemma sample_noon: "\<not> raises (local_instant sample_zones (fst noon_2026) (snd noon_2026) (lit ''UTC''))"
  by (simp add: local_instant_def sample_zones_def fixed_zone_def fold_candidate_def zone_wall_def opt_list_def
      noon_2026_def midnight_def in_range_def time_units Let_def)

lemma sample_plan_init:
  "0 < n \<Longrightarrow> delivery_configuration_init sample_zones (sample_plan\<lparr>dc_revision := n\<rparr>) = Inr (sample_plan\<lparr>dc_revision := n\<rparr>)"
  "0 < n \<Longrightarrow> delivery_configuration_init sample_zones (sample_plan\<lparr>dc_revision := n, dc_windows := []\<rparr>)
     = Inr (sample_plan\<lparr>dc_revision := n, dc_windows := []\<rparr>)"
proof -
  obtain t where "local_instant sample_zones (fst noon_2026) (snd noon_2026) (lit ''UTC'') = Inr t"
    using sample_noon by (auto simp: not_raises_iff)
  moreover have "\<exists>b. window_bounds sample_zones (hd (dc_windows sample_plan)) (lit ''UTC'') = Inr b"
    by (subst plan_bounds) (simp_all add: sample_plan_def midnight_def in_range_def time_units)
  ultimately show "0 < n \<Longrightarrow> delivery_configuration_init sample_zones (sample_plan\<lparr>dc_revision := n\<rparr>) = Inr (sample_plan\<lparr>dc_revision := n\<rparr>)"
    "0 < n \<Longrightarrow> delivery_configuration_init sample_zones (sample_plan\<lparr>dc_revision := n, dc_windows := []\<rparr>)
     = Inr (sample_plan\<lparr>dc_revision := n, dc_windows := []\<rparr>)"
    by (auto simp: delivery_configuration_init_def sample_plan_def)
qed

definition sample_plan_board :: board_db where
  "sample_plan_board = sample_board\<lparr>bd_windows := [], bd_orders := []\<rparr>"

definition sample_action :: "int \<Rightarrow> board_context" where
  "sample_action n = \<lparr>bx_name = [], bx_status = Active, bx_starts_on = 1, bx_ends_on = 100,
       bx_ordering = True, bx_invoicing = True, bx_enabled = True, bx_capable = True, bx_timezone = lit ''UTC'',
       bx_zone = fixed_zone 0, bx_revision = n\<rparr>"

theorem schedule_saved_witness:
  "\<exists>answer db'. save_configuration sample_zones (\<lambda>w. w) (utc 0) None [] sample_plan sample_plan_board = Inr (answer, db')
     \<and> dc_revision answer = 2 \<and> windows_ok db'"
proof -
  have x: "bd_contexts sample_plan_board 1 = Some (sample_action 1)" by (simp add: sample_plan_board_def sample_board_def sample_action_def)
  have read1: "read_configuration sample_zones sample_plan_board 1 = Inr (sample_plan\<lparr>dc_windows := []\<rparr>)"
    using sample_plan_init(2) [of 1]
    by (simp add: read_configuration_def x window_rows_def) (simp add: sample_plan_board_def sample_plan_def sample_action_def)
  let ?row = "\<lparr>wi_id = 7, wi_action_id = 1, wi_starts_at = utc (midnight 50), wi_ends_at = utc (midnight 50 + minute_us),
      wi_retired = False, wi_fully_booked = False\<rparr>"
  have read2: "read_configuration sample_zones db 1 = Inr (sample_plan\<lparr>dc_revision := 2\<rparr>)"
    if "bd_contexts db 1 = Some (sample_action 2)" "bd_windows db = [?row]" for db
  proof -
    have "read_window (fixed_zone 0) 1 ?row = Inr (hd (dc_windows sample_plan))"
      by (simp add: read_window_def sample_plan_def zone_wall_def fixed_zone_def in_range_def midnight_def time_units
          delivery_window_init_def date_of_wall_def)
    then show ?thesis using sample_plan_init(1) [of 2] that
      by (simp add: read_configuration_def window_rows_def sample_action_def) (simp add: sample_plan_def)
  qed
  have b: "window_bounds sample_zones (hd (dc_windows sample_plan)) (lit ''UTC'') = Inr (utc (midnight 50), utc (midnight 50 + minute_us))"
    by (subst plan_bounds) (simp_all add: sample_plan_def midnight_def in_range_def time_units)
  define db2 where "db2 = sample_plan_board\<lparr>bd_contexts := (bd_contexts sample_plan_board)(1 \<mapsto> sample_action 2),
    bd_windows := [?row]\<rparr>"
  have after: "read_configuration sample_zones db2 1 = Inr (sample_plan\<lparr>dc_revision := 2\<rparr>)"
    by (rule read2) (simp_all add: db2_def)
  have plan: "dc_action_id sample_plan = 1" "dc_revision sample_plan = 1" "dc_enabled sample_plan"
    "dc_timezone sample_plan = lit ''UTC''" "dc_windows sample_plan = [hd (dc_windows sample_plan)]"
    "dw_id (hd (dc_windows sample_plan)) = 7" "\<not> dw_retired (hd (dc_windows sample_plan))"
    "validate_period sample_plan 1 100 = Inr ()"
    by (simp_all add: sample_plan_def validate_period_def)
  have action: "bx_capable (sample_action n)" "bx_status (sample_action n) = Active" "bx_starts_on (sample_action n) = 1"
    "bx_ends_on (sample_action n) = 100" for n
    by (simp_all add: sample_action_def)
  have ctx: "(sample_action 1)\<lparr>bx_enabled := True, bx_timezone := lit ''UTC'', bx_zone := fixed_zone 0, bx_revision := 2\<rparr>
      = sample_action 2" by (simp add: sample_action_def)
  have zone: "sample_zones (lit ''UTC'') = Some (fixed_zone 0)" by (simp add: sample_zones_def)
  have none: "bd_windows sample_plan_board = []" by (simp add: sample_plan_board_def)
  have later: "instant (utc (midnight 50)) > instant (utc 0)" by (simp add: midnight_def time_units)
  have check: "fold_res (check_new_window sample_zones sample_plan_board (lit ''UTC'') (utc 0) {}) () (dc_windows sample_plan) = Inr ()"
    by (subst plan(5)) (use later none b plan(6,7) in \<open>simp add: check_new_window_def\<close>)
  have written: "fold_res (write_window sample_zones (\<lambda>w. w) 1 (lit ''UTC'') None [] (utc 0) [])
      (sample_plan_board\<lparr>bd_contexts := (bd_contexts sample_plan_board)(1 \<mapsto> sample_action 2)\<rparr>) (dc_windows sample_plan) = Inr db2"
    by (subst plan(5)) (use none b plan(6) in \<open>simp add: write_window_def db2_def\<close>)
  have "\<exists>answer db'. save_configuration sample_zones (\<lambda>w. w) (utc 0) None [] sample_plan sample_plan_board = Inr (answer, db')"
    using check written by (simp add: save_configuration_def x read1 plan(1-4,8) action ctx zone after Let_def)
  then obtain answer db' where run:
    "save_configuration sample_zones (\<lambda>w. w) (utc 0) None [] sample_plan sample_plan_board = Inr (answer, db')" by blast
  have "windows_ok sample_plan_board" by (simp add: windows_ok_def sample_plan_board_def)
  moreover have "delivery_configuration_init sample_zones sample_plan = Inr sample_plan"
    using sample_plan_init(1) [of 1] by (simp add: sample_plan_def)
  ultimately have "dc_revision answer = dc_revision sample_plan + 1 \<and> windows_ok db'"
    using schedule_saved [OF _ _ run] by blast
  then show ?thesis using run plan(2) by auto
qed

end
