(* ===== verification/Shop_Tables.thy ===== *)
theory Shop_Tables
  imports Delivery_Schedule Invoice_Ledger Py_Digest
begin

text \<open>
  The tables the commands on orders share: orders, deliveries and follow-up tasks of the delivery board,
  invoices, payments and receipts of the finance tables, invoice profiles and issued invoices, order
  cancellations, activities.  Also the canonical JSON of an order's completion with its version
  (\<^verbatim>\<open>application/delivery_completion.py\<close>) and the checks the services share
  (\<^verbatim>\<open>application/policies.py\<close>, \<^verbatim>\<open>application/commitments.py\<close>).  The audit tables are kept per component.
\<close>

section \<open>Versions and fingerprints\<close>

definition text_digest :: "pystr \<Rightarrow> pystr res" where
  "text_digest s = then_res (encode_utf8 s) (\<lambda>bs. Inr (hexdigest (sha256 bs)))"

fun commitment_status_value :: "commitment_status \<Rightarrow> pystr" where
  "commitment_status_value Commitment_Draft = lit ''draft''"
| "commitment_status_value Review_Ready = lit ''review_ready''"
| "commitment_status_value Confirmed = lit ''confirmed''"
| "commitment_status_value Invoiced = lit ''invoiced''"
| "commitment_status_value Commitment_Cancelled = lit ''cancelled''"

definition js_opt :: "('a \<Rightarrow> json) \<Rightarrow> 'a option \<Rightarrow> json" where
  "js_opt f x = (case x of None \<Rightarrow> Js_Scalar JNull | Some v \<Rightarrow> f v)"

definition js_uuid :: "uuid \<Rightarrow> json" where "js_uuid u = js_text (uuid_str u)"

definition js_payload :: "string list \<Rightarrow> payload \<Rightarrow> json" where
  "js_payload keys p = Js_Object (payload_members keys p)"

text \<open>The keys of each snapshot in the order of \<^verbatim>\<open>sort_keys\<close>.\<close>

definition address_keys :: "string list" where
  "address_keys = [''city'', ''countryCode'', ''email'', ''postalCode'', ''recipientName'', ''streetLine1'']"

definition contact_keys :: "string list" where "contact_keys = [''name'', ''phone'']"

definition window_keys :: "string list" where
  "window_keys = [''endsAt'', ''startsAt'', ''timezone'', ''windowId'']"

definition text_dict_payload :: "text_dict \<Rightarrow> payload" where
  "text_dict_payload d k = map_option JStr (d k)"

definition completion_json :: "commitment \<Rightarrow> json" where
  "completion_json od = Js_Object [
     (lit ''deliveryContact'', js_opt (js_payload contact_keys \<circ> contact_payload) (cm_delivery_contact od)),
     (lit ''deliveryRecipient'',
       js_opt (js_payload address_keys \<circ> delivery_recipient_payload) (cm_delivery_recipient od)),
     (lit ''deliveryWindowId'', js_opt js_uuid (cm_delivery_window_id od)),
     (lit ''deliveryWindowSnapshot'',
       js_opt (js_payload window_keys \<circ> text_dict_payload) (cm_delivery_window_snapshot od)),
     (lit ''id'', js_uuid (cm_id od)),
     (lit ''invoiceRecipient'',
       js_opt (js_payload address_keys \<circ> invoice_recipient_payload) (cm_invoice_recipient od)),
     (lit ''status'', js_text (commitment_status_value (cm_status od)))]"

definition delivery_completion_version :: "commitment \<Rightarrow> pystr res" where
  "delivery_completion_version od = text_digest (json_text (completion_json od))"

section \<open>Tables\<close>

record order_cancellation =
  oc_id :: uuid
  oc_action_id :: uuid
  oc_commitment_id :: uuid
  oc_previous_status :: commitment_status
  oc_reason :: pystr
  oc_note :: "pystr option"
  oc_requested_by_user_id :: uuid
  oc_requested_at :: datetime
  oc_invoice_cancellation_id :: "uuid option"
  oc_invoice_number :: "pystr option"
  oc_requested_by_display_name :: "pystr option"

record activity_row =
  av_id :: uuid
  av_action_id :: uuid
  av_event_type :: string
  av_buyer :: "party_kind \<times> uuid"
  av_payload :: json
  av_occurred_at :: datetime

text \<open>The document to render for an invoice, with its outbox event.\<close>

record document_row =
  gd_id :: uuid
  gd_invoice_id :: uuid
  gd_commitment_id :: uuid
  gd_outbox_key :: pystr

text \<open>
  The tables of orders, deliveries, tasks and invoices; \<open>sd_invoice_of\<close> is the unique
  \<^verbatim>\<open>invoice.commitment_id\<close>, read from the order; \<open>sd_profiles\<close> is keyed by the action; \<open>sd_assignments\<close>
  says which buyer an acquirer looks after in an action.  An order is stored with its lines in the
  order \<^verbatim>\<open>ORDER BY id\<close> reads them.
\<close>

record shop_db =
  sd_board :: board_db
  sd_finance :: finance_db
  sd_invoice_of :: "uuid \<rightharpoonup> uuid"
  sd_profiles :: "uuid \<rightharpoonup> invoice_profile"
  sd_active_legal :: "uuid option"
  sd_invoices :: "invoice list"
  sd_documents :: "document_row list"
  sd_cancellations :: "order_cancellation list"
  sd_activities :: "activity_row list"
  sd_offerings :: "offering list"
  sd_assignments :: "(uuid \<times> uuid \<times> party_kind \<times> uuid) list"

record order_invoice_state =
  oi_id :: uuid
  oi_number :: pystr
  oi_status :: invoice_status
  oi_payment_recorded :: bool
  oi_paid_minor :: int

definition order_row :: "shop_db \<Rightarrow> uuid \<Rightarrow> uuid \<Rightarrow> commitment option" where
  "order_row db action_id c = find (\<lambda>od. cm_id od = c \<and> cm_action_id od = action_id) (bd_orders (sd_board db))"

definition get_commitment :: "shop_db \<Rightarrow> uuid \<Rightarrow> bool \<Rightarrow> commitment res" where
  "get_commitment db c replayed =
     (case find (\<lambda>od. cm_id od = c) (bd_orders (sd_board db)) of
        None \<Rightarrow> Inl Runtime_Error
      | Some od \<Rightarrow> commitment_init (od\<lparr>cm_replayed := replayed\<rparr>))"

definition invoice_of :: "shop_db \<Rightarrow> uuid \<Rightarrow> order_invoice_state option" where
  "invoice_of db c =
     (case Option.bind (sd_invoice_of db c) (fd_invoices (sd_finance db)) of
        None \<Rightarrow> None
      | Some s \<Rightarrow> let paid = paid_minor (payments_for_invoice (sd_finance db) (ss_id s)) in
          Some \<lparr>oi_id = ss_id s, oi_number = ss_number s, oi_status = ss_status s,
                oi_payment_recorded = (paid > 0), oi_paid_minor = paid\<rparr>)"

text \<open>The receipt of a command that has begun: its row is there, without a result.\<close>

definition begin_command :: "string \<Rightarrow> command_context \<Rightarrow> finance_db \<Rightarrow> finance_db" where
  "begin_command command_type cc fdb = fdb\<lparr>fd_receipts := (fd_receipts fdb)(cc_idempotency_key cc \<mapsto>
     \<lparr>cr_command_type = command_type, cr_request_hash = cc_request_hash cc, cr_result = None\<rparr>)\<rparr>"

section \<open>Checks of the services\<close>

definition require_action_manager :: "identity_principal \<Rightarrow> uuid \<Rightarrow> string \<Rightarrow> unit res" where
  "require_action_manager p action_id code =
     (if can_authenticate (ip_account p) \<and> may_manage_action p action_id then Inr ()
      else Inl (App Permission_Denied code))"

definition idempotency_key_ok :: "pystr \<Rightarrow> bool" where
  "idempotency_key_ok =
     (let word_char = (\<lambda>c. is_AZ c \<or> is_az c \<or> is_09 c) in
      head_rest word_char (\<lambda>c. word_char c \<or> c \<in> set (lit ''._:-'')) 7 127)"


end
