(* ===== verification/Order_Cancellation.thy ===== *)
theory Order_Cancellation
  imports Shop_Tables
begin

text \<open>
  The cancellation of an order: \<^verbatim>\<open>domain/order_cancellation.py\<close>,
  \<^verbatim>\<open>application/order_cancellation.py\<close> and the transaction of
  \<^verbatim>\<open>adapters/postgres/order_cancellation.py\<close> over the tables of the delivery board and of the
  invoices.  Row and advisory locks are left out, each transaction being one step.
\<close>

section \<open>Reason and note\<close>

definition cancellable_order_statuses :: "commitment_status set" where
  "cancellable_order_statuses = {Commitment_Draft, Review_Ready, Confirmed, Invoiced}"

definition reason_min_length :: nat where "reason_min_length = 8"
definition reason_max_length :: nat where "reason_max_length = 500"
definition note_max_length :: nat where "note_max_length = 1000"

definition normalize_reason :: "pystr \<Rightarrow> pystr res" where
  "normalize_reason value = (let reason = collapse value in
     if length reason < reason_min_length then Inl (Invariant ''commitment_cancellation_reason_too_short'')
     else if length reason > reason_max_length then Inl (Invariant ''commitment_cancellation_reason_too_long'')
     else Inr reason)"

text \<open>\<^verbatim>\<open>str.splitlines\<close>: a carriage return with its line feed ends one line, a last empty line is dropped.\<close>

definition line_end :: "int \<Rightarrow> bool" where
  "line_end c \<longleftrightarrow> c \<in> {10, 11, 12, 13, 28, 29, 30, 133, 8232, 8233}"

fun split_lines :: "pystr \<Rightarrow> pystr \<Rightarrow> pystr list" where
  "split_lines line [] = (if line = [] then [] else [rev line])"
| "split_lines line (c # s) =
     (if \<not> line_end c then split_lines (c # line) s
      else rev line # (case s of d # t \<Rightarrow> if c = 13 \<and> d = 10 then split_lines [] t else split_lines [] s
                       | [] \<Rightarrow> []))"

definition normalize_note :: "pystr option \<Rightarrow> pystr option res" where
  "normalize_note value =
     (case value of
        None \<Rightarrow> Inr None
      | Some v \<Rightarrow>
          let note = strip (join [10] (map rstrip (split_lines [] (strip v)))) in
          if note = [] then Inr None
          else if length note > note_max_length then Inl (Invariant ''commitment_cancellation_note_too_long'')
          else Inr (Some note))"

section \<open>What blocks a cancellation\<close>

definition needs_cancellation :: "order_invoice_state \<Rightarrow> bool" where
  "needs_cancellation s \<longleftrightarrow> oi_status s \<in> {Issued, Sent}"

definition cancellation_block :: "commitment_status \<Rightarrow> bool \<Rightarrow> order_invoice_state option \<Rightarrow> string option" where
  "cancellation_block status delivered invoice =
     (if status = Commitment_Cancelled then Some ''commitment_already_cancelled''
      else if status \<notin> cancellable_order_statuses then Some ''commitment_cancellation_status_invalid''
      else if delivered then Some ''commitment_cancellation_delivered''
      else case invoice of
        None \<Rightarrow> None
      | Some s \<Rightarrow> if oi_payment_recorded s \<or> oi_status s = Paid
          then Some ''commitment_cancellation_payment_recorded'' else None)"

definition order_cancellation_init :: "order_cancellation \<Rightarrow> order_cancellation res" where
  "order_cancellation_init k =
     then_res (require_aware (oc_requested_at k)) (\<lambda>_.
     if oc_previous_status k \<notin> cancellable_order_statuses
     then Inl (Invariant ''commitment_cancellation_previous_status_invalid'')
     else then_res (normalize_reason (oc_reason k)) (\<lambda>reason.
       then_res (normalize_note (oc_note k)) (\<lambda>note.
       Inr (k\<lparr>oc_reason := reason, oc_note := note\<rparr>))))"

section \<open>Requests\<close>

record cancellation_request =
  cq_expected_version :: pystr
  cq_reason :: pystr
  cq_note :: "pystr option"

definition version_ok :: "pystr \<Rightarrow> bool" where
  "version_ok v \<longleftrightarrow> length v = 64 \<and> list_all (\<lambda>c. c \<in> set (lit ''abcdef0123456789'')) v"

definition cancellation_request_init :: "cancellation_request \<Rightarrow> cancellation_request res" where
  "cancellation_request_init q =
     (if \<not> version_ok (cq_expected_version q) then Inl (Invariant ''commitment_cancellation_version_invalid'')
      else then_res (normalize_reason (cq_reason q)) (\<lambda>reason.
        then_res (normalize_note (cq_note q)) (\<lambda>note.
        Inr (q\<lparr>cq_reason := reason, cq_note := note\<rparr>))))"

definition request_json :: "uuid \<Rightarrow> uuid \<Rightarrow> uuid \<Rightarrow> cancellation_request \<Rightarrow> json" where
  "request_json action_id c actor q = Js_Object [
     (lit ''actionId'', js_uuid action_id), (lit ''actorUserId'', js_uuid actor),
     (lit ''commitmentId'', js_uuid c), (lit ''expectedVersion'', js_text (cq_expected_version q)),
     (lit ''note'', js_opt js_text (cq_note q)), (lit ''reason'', js_text (cq_reason q))]"

definition cancellation_fingerprint :: "uuid \<Rightarrow> uuid \<Rightarrow> uuid \<Rightarrow> cancellation_request \<Rightarrow> pystr res" where
  "cancellation_fingerprint action_id c actor q = text_digest (json_text (request_json action_id c actor q))"

section \<open>The transaction\<close>

record cancel_ids =
  ci_cancellation :: uuid
  ci_invoice_cancellation :: uuid
  ci_invoice_audit :: uuid
  ci_audit :: uuid
  ci_activity :: uuid
  ci_follow_up :: fresh_ids

record cancellation_result =
  cx_commitment :: commitment
  cx_cancellation :: order_cancellation
  cx_replayed :: bool

definition get_order_cancellation :: "shop_db \<Rightarrow> uuid \<Rightarrow> order_cancellation res" where
  "get_order_cancellation db c =
     (case find (\<lambda>k. oc_commitment_id k = c) (sd_cancellations db) of
        None \<Rightarrow> Inl Runtime_Error
      | Some k \<Rightarrow>
          (case bd_names (sd_board db) (oc_requested_by_user_id k) of
             None \<Rightarrow> Inl Runtime_Error
           | Some name \<Rightarrow> order_cancellation_init (k\<lparr>
               oc_invoice_number := Option.bind (oc_invoice_cancellation_id k) (\<lambda>i.
                 Option.bind (find (\<lambda>x. ic_id x = i) (fd_cancellations (sd_finance db))) (\<lambda>x.
                 map_option ss_number (fd_invoices (sd_finance db) (ic_invoice_id x)))),
               oc_requested_by_display_name := Some name\<rparr>)))"

definition cancellation_answer :: "shop_db \<Rightarrow> uuid \<Rightarrow> bool \<Rightarrow> cancellation_result res" where
  "cancellation_answer db c replayed =
     then_res (get_commitment db c replayed) (\<lambda>od.
     then_res (get_order_cancellation db c) (\<lambda>k.
     Inr \<lparr>cx_commitment = od, cx_cancellation = k, cx_replayed = replayed\<rparr>))"

text \<open>The invoice cancellation inside the transaction, under a key and a hash of its own.\<close>

definition inner_key :: "uuid \<Rightarrow> pystr" where
  "inner_key u = lit ''order-cancellation:'' @ uuid_str u"

definition cancel_invoice_of_order ::
  "cancel_ids \<Rightarrow> command_context \<Rightarrow> pystr \<Rightarrow> bool \<Rightarrow> order_invoice_state option \<Rightarrow> finance_db
   \<Rightarrow> (uuid option \<times> finance_db) res" where
  "cancel_invoice_of_order ids cc reason fresh_login invoice fdb =
     (case invoice of
        None \<Rightarrow> Inr (None, fdb)
      | Some s \<Rightarrow>
          if \<not> needs_cancellation s then Inr (None, fdb)
          else if \<not> fresh_login then Inl (App Authentication_Required ''fresh_login_required'')
          else then_res (text_digest (inner_key (ci_cancellation ids))) (\<lambda>hash.
            then_res (cancel_once (ci_invoice_cancellation ids) (ci_invoice_audit ids)
              (cc\<lparr>cc_idempotency_key := inner_key (ci_cancellation ids), cc_request_hash := hash\<rparr>)
              (oi_id s) reason fdb) (\<lambda>(k, fdb').
            Inr (Some (ic_id k), fdb'))))"

definition follow_up_closing_note :: "tz \<Rightarrow> datetime \<Rightarrow> pystr res" where
  "follow_up_closing_note zone at =
     then_res (zone_wall zone (instant at)) (\<lambda>w. case ymd (date_of_wall w) of (y, m, d) \<Rightarrow>
       Inr (lit ''Erledigt: Die Bestellung wurde am '' @ two d @ [46] @ two m @ [46] @ int_str y
         @ lit '' storniert. Kein Nachliefern n'' @ [246] @ lit ''tig; den Grund zeigt die Bestellung.''))"

definition close_order_follow_up ::
  "tz \<Rightarrow> fresh_ids \<Rightarrow> command_context \<Rightarrow> commitment \<Rightarrow> board_db \<Rightarrow> board_db res" where
  "close_order_follow_up zone ids cc od bdb =
     (if \<not> bd_follow_ups bdb \<or> cm_delivery_window_id od = None then Inr bdb
      else then_res (follow_up_closing_note zone (cc_occurred_at cc)) (\<lambda>note.
        Inr (sync_follow_up ids \<lparr>sy_action_id = cc_action_id cc, sy_commitment_id = cm_id od,
          sy_title = lit ''Nachliefern: Bestellung '' @ order_reference (cm_id od) (cm_public_reference od),
          sy_description = lit ''Bestellung '' @ [246] @ lit ''ffnen: '' @ order_link (cc_action_id cc) (cm_id od),
          sy_needed = False, sy_assignee_user_id = cc_actor_user_id cc, sy_actor_user_id = cc_actor_user_id cc,
          sy_request_id = cc_request_id cc, sy_occurred_at = cc_occurred_at cc, sy_closing_note = Some note\<rparr> bdb)))"

definition set_cancelled :: "uuid \<Rightarrow> board_db \<Rightarrow> board_db" where
  "set_cancelled c bdb = bdb\<lparr>bd_orders := map (\<lambda>od. if cm_id od = c then od\<lparr>cm_status := Commitment_Cancelled\<rparr> else od)
     (bd_orders bdb)\<rparr>"

definition cancellation_event ::
  "cancel_ids \<Rightarrow> command_context \<Rightarrow> commitment \<Rightarrow> order_cancellation \<Rightarrow> order_invoice_state option \<Rightarrow> drop_state \<Rightarrow> board_event" where
  "cancellation_event ids cc od k invoice state = \<lparr>be_id = ci_audit ids, be_action_id = cc_action_id cc,
     be_actor_user_id = Some (cc_actor_user_id cc), be_event_type = ''commitment_cancelled'',
     be_entity_type = ''commitment'', be_entity_id = cm_id od, be_request_id = cc_request_id cc,
     be_payload = Js_Object [
       (lit ''cancellationId'', js_uuid (oc_id k)),
       (lit ''previousStatus'', js_text (commitment_status_value (cm_status od))),
       (lit ''status'', js_text (lit ''cancelled'')), (lit ''reason'', js_text (oc_reason k)),
       (lit ''invoiceId'', js_opt (js_uuid \<circ> oi_id) invoice),
       (lit ''invoiceNumber'', js_opt (js_text \<circ> oi_number) invoice),
       (lit ''invoiceCancellationId'', js_opt js_uuid (oc_invoice_cancellation_id k)),
       (lit ''deliveryState'', if state = Drop_Open then Js_Scalar JNull else js_text (drop_state_value state))],
     be_occurred_at = cc_occurred_at cc\<rparr>"

definition cancellation_activity ::
  "cancel_ids \<Rightarrow> command_context \<Rightarrow> commitment \<Rightarrow> order_cancellation \<Rightarrow> order_invoice_state option
   \<Rightarrow> unit_quantity list \<Rightarrow> activity_row" where
  "cancellation_activity ids cc od k invoice qs = \<lparr>av_id = ci_activity ids, av_action_id = cc_action_id cc,
     av_event_type = ''commitment_cancelled'', av_buyer = (by_party_kind (cm_buyer od), by_twenty_id (cm_buyer od)),
     av_payload = Js_Object [
       (lit ''commitmentId'', js_uuid (cm_id od)), (lit ''publicReference'', js_opt js_text (cm_public_reference od)),
       (lit ''previousStatus'', js_text (commitment_status_value (cm_status od))),
       (lit ''totalMinor'', Js_Scalar (JInt (mo_amount (cm_total od)))),
       (lit ''currency'', js_text (mo_currency (cm_total od))),
       (lit ''quantities'', Js_List (map (js_payload [''unit'', ''quantity''] \<circ> unit_quantity_payload) qs)),
       (lit ''invoiceNumber'', if oc_invoice_cancellation_id k = None then Js_Scalar JNull
          else js_opt (js_text \<circ> oi_number) invoice)],
     av_occurred_at = cc_occurred_at cc\<rparr>"

definition cancel_order_once ::
  "tz \<Rightarrow> cancel_ids \<Rightarrow> command_context \<Rightarrow> uuid \<Rightarrow> cancellation_request \<Rightarrow> bool \<Rightarrow> shop_db
   \<Rightarrow> (cancellation_result \<times> shop_db) res" where
  "cancel_order_once zone ids cc c rq fresh_login db =
     (case bd_contexts (sd_board db) (cc_action_id cc) of
        None \<Rightarrow> Inl (App Resource_Not_Found ''commitment_action_not_found'')
      | Some x \<Rightarrow>
     then_res (existing_command (sd_finance db) ''cancel_commitment_v1'' cc ''commitmentId'') (\<lambda>replayed.
     case replayed of
       Some u \<Rightarrow>
         if u \<noteq> c then Inl (App Conflict ''idempotency_conflict'')
         else then_res (cancellation_answer db c True) (\<lambda>answer. Inr (answer, db))
     | None \<Rightarrow>
         if bx_status x = Archived then Inl (App Conflict ''commitment_cancellation_action_archived'')
         else if order_row db (cc_action_id cc) c = None
         then Inl (App Resource_Not_Found ''commitment_not_found'')
         else then_res (get_commitment db c False) (\<lambda>od.
         let state = row_state (sd_board db) c; invoice = invoice_of db c in
         case cancellation_block (cm_status od) (state = Drop_Delivered) invoice of
           Some code \<Rightarrow> Inl (App Conflict code)
         | None \<Rightarrow>
         then_res (delivery_completion_version od) (\<lambda>version.
         if version \<noteq> cq_expected_version rq then Inl (App Conflict ''commitment_cancellation_conflict'')
         else
         then_res (cancel_invoice_of_order ids cc (cq_reason rq) fresh_login invoice
             (begin_command ''cancel_commitment_v1'' cc (sd_finance db))) (\<lambda>(icid, fdb).
         then_res (order_cancellation_init \<lparr>oc_id = ci_cancellation ids, oc_action_id = cc_action_id cc,
             oc_commitment_id = c, oc_previous_status = cm_status od, oc_reason = cq_reason rq,
             oc_note = cq_note rq, oc_requested_by_user_id = cc_actor_user_id cc,
             oc_requested_at = cc_occurred_at cc, oc_invoice_cancellation_id = icid,
             oc_invoice_number = None, oc_requested_by_display_name = None\<rparr>) (\<lambda>k.
         then_res (commitment_quantities od) (\<lambda>qs.
         let bdb = add_event (cancellation_event ids cc od k invoice state) (set_cancelled c (sd_board db))
         in then_res (close_order_follow_up zone (ci_follow_up ids) cc od bdb) (\<lambda>bdb'.
         let db' = db\<lparr>sd_board := bdb',
               sd_finance := complete_command ''cancel_commitment_v1'' cc ''commitmentId'' c fdb,
               sd_cancellations := sd_cancellations db @ [k],
               sd_activities := sd_activities db @ [cancellation_activity ids cc od k invoice qs]\<rparr>
         in then_res (cancellation_answer db' c False) (\<lambda>answer. Inr (answer, db'))))))))))"

section \<open>The service\<close>

definition service_cancel ::
  "tz \<Rightarrow> cancel_ids \<Rightarrow> identity_principal \<Rightarrow> uuid \<Rightarrow> uuid \<Rightarrow> cancellation_request \<Rightarrow> bool \<Rightarrow> pystr \<Rightarrow> pystr
   \<Rightarrow> datetime \<Rightarrow> shop_db \<Rightarrow> (cancellation_result \<times> shop_db) res" where
  "service_cancel zone ids actor action_id c rq fresh_login key request_id at db =
     then_res (require_action_manager actor action_id ''commitment_cancellation_manager_required'') (\<lambda>_.
     if \<not> idempotency_key_ok key then Inl (Invariant ''commitment_idempotency_key_invalid'')
     else then_res (cancellation_fingerprint action_id c (ua_id (ip_account actor)) rq) (\<lambda>hash.
       cancel_order_once zone ids \<lparr>cc_action_id = action_id, cc_actor_user_id = ua_id (ip_account actor),
         cc_idempotency_key = key, cc_request_hash = hash, cc_request_id = request_id,
         cc_occurred_at = at\<rparr> c rq fresh_login db))"

section \<open>What a cancellation does\<close>

lemma commitment_init_keeps:
  "commitment_init od = Inr od' \<Longrightarrow> cm_id od' = cm_id od \<and> cm_action_id od' = cm_action_id od \<and> cm_status od' = cm_status od
     \<and> cm_delivery_window_id od' = cm_delivery_window_id od \<and> cm_lines od' = cm_lines od \<and> cm_total od' = cm_total od
     \<and> cm_public_reference od' = cm_public_reference od \<and> cm_buyer od' = cm_buyer od"
  by (auto simp: commitment_init_def Let_def res_simps)

lemma get_commitment_row:
  assumes "get_commitment db c r = Inr od'"
  obtains od where "od \<in> set (bd_orders (sd_board db))" "cm_id od = c" "commitment_init (od\<lparr>cm_replayed := r\<rparr>) = Inr od'"
    "cm_id od' = c" "cm_action_id od' = cm_action_id od" "cm_status od' = cm_status od"
    "cm_delivery_window_id od' = cm_delivery_window_id od" "cm_lines od' = cm_lines od"
proof -
  obtain od where od: "find (\<lambda>od. cm_id od = c) (bd_orders (sd_board db)) = Some od"
    "commitment_init (od\<lparr>cm_replayed := r\<rparr>) = Inr od'"
    using assms by (auto simp: get_commitment_def split: option.splits)
  have "od \<in> set (bd_orders (sd_board db))" "cm_id od = c" using od(1) by (auto simp: find_Some_iff)
  with commitment_init_keeps [OF od(2)] od(2) show ?thesis by (intro that [of od]) simp_all
qed

lemma order_row_some:
  "order_row db a c \<noteq> None \<Longrightarrow> \<exists>od \<in> set (bd_orders (sd_board db)). cm_id od = c \<and> cm_action_id od = a"
  unfolding order_row_def by (metis (mono_tags, lifting) find_None_iff)

text \<open>The new state after an accepted request with a new key, component by component.\<close>

lemma cancel_order_effect:
  assumes run: "cancel_order_once zone ids cc c rq fresh_login db = Inr (answer, db')"
    and new: "fd_receipts (sd_finance db) (cc_idempotency_key cc) = None"
  obtains od icid fdb k qs bdb where
    "order_row db (cc_action_id cc) c \<noteq> None" "get_commitment db c False = Inr od"
    "cancellation_block (cm_status od) (row_state (sd_board db) c = Drop_Delivered) (invoice_of db c) = None"
    "delivery_completion_version od = Inr (cq_expected_version rq)"
    "cancel_invoice_of_order ids cc (cq_reason rq) fresh_login (invoice_of db c)
       (begin_command ''cancel_commitment_v1'' cc (sd_finance db)) = Inr (icid, fdb)"
    "order_cancellation_init \<lparr>oc_id = ci_cancellation ids, oc_action_id = cc_action_id cc,
       oc_commitment_id = c, oc_previous_status = cm_status od, oc_reason = cq_reason rq,
       oc_note = cq_note rq, oc_requested_by_user_id = cc_actor_user_id cc,
       oc_requested_at = cc_occurred_at cc, oc_invoice_cancellation_id = icid,
       oc_invoice_number = None, oc_requested_by_display_name = None\<rparr> = Inr k"
    "close_order_follow_up zone (ci_follow_up ids) cc od (add_event (cancellation_event ids cc od k (invoice_of db c)
       (row_state (sd_board db) c)) (set_cancelled c (sd_board db))) = Inr bdb"
    "db' = db\<lparr>sd_board := bdb, sd_finance := complete_command ''cancel_commitment_v1'' cc ''commitmentId'' c fdb,
       sd_cancellations := sd_cancellations db @ [k],
       sd_activities := sd_activities db @ [cancellation_activity ids cc od k (invoice_of db c) qs]\<rparr>"
    "cancellation_answer db' c False = Inr answer"
proof -
  have ex: "existing_command (sd_finance db) ''cancel_commitment_v1'' cc ''commitmentId'' = Inr None"
    using new by simp
  obtain x where x: "bd_contexts (sd_board db) (cc_action_id cc) = Some x"
    using run by (auto simp: cancel_order_once_def split: option.splits)
  note facts = cancel_order_once_def x ex Let_def
  have row: "order_row db (cc_action_id cc) c \<noteq> None" using run by (auto simp: facts split: if_splits)
  obtain od where od: "get_commitment db c False = Inr od"
    using run row by (auto simp: facts res_simps split: if_splits)
  have block: "cancellation_block (cm_status od) (row_state (sd_board db) c = Drop_Delivered) (invoice_of db c) = None"
    using run row od by (auto simp: facts split: if_splits option.splits)
  have version: "delivery_completion_version od = Inr (cq_expected_version rq)"
    using run row od block by (auto simp: facts res_simps split: if_splits)
  obtain icid fdb where inv: "cancel_invoice_of_order ids cc (cq_reason rq) fresh_login (invoice_of db c)
       (begin_command ''cancel_commitment_v1'' cc (sd_finance db)) = Inr (icid, fdb)"
    using run row od block version by (auto simp: facts res_simps split: if_splits)
  show ?thesis
    using run row od block version inv
    by (auto simp: facts then_res_Inr_iff split: if_splits intro: that [OF row od block version inv])
qed

text \<open>The finance tables: the invoice of the order, if it needs it, is cancelled and nothing else.\<close>

lemma finance_ok_receipts: "finance_ok (db\<lparr>fd_receipts := r\<rparr>) = finance_ok db"
  by (simp add: finance_ok_def invoice_row_ok_def booked_def)

lemma begun_finance:
  "finance_ok (begin_command t cc db) = finance_ok db"
  "fd_invoices (begin_command t cc db) = fd_invoices db" "fd_payments (begin_command t cc db) = fd_payments db"
  "fd_cancellations (begin_command t cc db) = fd_cancellations db" "fd_mail_sent (begin_command t cc db) = fd_mail_sent db"
  by (simp_all add: begin_command_def finance_ok_receipts)

lemma completed_finance: "finance_ok (complete_command t cc k u db) = finance_ok db"
  by (simp add: complete_command_def finance_ok_receipts)

lemma paid_of: "paid_minor (payments_for_invoice db i) = paid_minor (booked db i)"
  by (rule paid_minor_payments)

lemma invoice_of_row:
  assumes "invoice_of db c = Some s"
  obtains i row where "sd_invoice_of db c = Some i" "fd_invoices (sd_finance db) i = Some row" "oi_id s = ss_id row"
    "oi_status s = ss_status row" "oi_payment_recorded s \<longleftrightarrow> 0 < paid_minor (booked (sd_finance db) (ss_id row))"
  using assms by (auto simp: invoice_of_def Let_def paid_of bind_eq_Some_conv split: option.splits)

definition cancelled_at_most :: "uuid option \<Rightarrow> finance_db \<Rightarrow> finance_db \<Rightarrow> bool" where
  "cancelled_at_most i db db' \<longleftrightarrow> finance_ok db' \<and> fd_payments db' = fd_payments db \<and> fd_mail_sent db' = fd_mail_sent db
     \<and> (\<forall>j. Some j \<noteq> i \<longrightarrow> fd_invoices db' j = fd_invoices db j)
     \<and> (\<forall>j s. i = Some j \<longrightarrow> fd_invoices db j = Some s \<longrightarrow> fd_invoices db' j = Some (s\<lparr>ss_status := Cancelled\<rparr>))"

lemma cancel_invoice_effect:
  assumes ok: "finance_ok fdb" and unused: "fd_receipts fdb (inner_key (ci_cancellation ids)) = None"
    and run: "cancel_invoice_of_order ids cc reason fresh_login (Some s) fdb = Inr (icid, fdb')"
    and row: "fd_invoices fdb i = Some r" "oi_id s = i" "oi_status s = ss_status r"
    and status: "ss_status r \<noteq> Paid"
  shows "cancelled_at_most (Some i) fdb fdb'" "needs_cancellation s \<Longrightarrow> fresh_login"
proof -
  show "needs_cancellation s \<Longrightarrow> fresh_login"
    using run by (auto simp: cancel_invoice_of_order_def split: if_splits)
  show "cancelled_at_most (Some i) fdb fdb'"
  proof (cases "needs_cancellation s")
    case False
    then have "ss_status r = Cancelled" using row(3) status by (cases "ss_status r") (auto simp: needs_cancellation_def)
    then have "r\<lparr>ss_status := Cancelled\<rparr> = r" by (cases r) simp
    moreover have "fdb' = fdb" using run False by (simp add: cancel_invoice_of_order_def)
    ultimately show ?thesis using ok row(1) by (simp add: cancelled_at_most_def)
  next
    case True
    then obtain hash k where step: "cancel_once (ci_invoice_cancellation ids) (ci_invoice_audit ids)
        (cc\<lparr>cc_idempotency_key := inner_key (ci_cancellation ids), cc_request_hash := hash\<rparr>) i reason fdb = Inr (k, fdb')"
      using run row(2) by (auto simp: cancel_invoice_of_order_def then_res_Inr_iff split: if_splits)
    have new: "fd_receipts fdb (cc_idempotency_key (cc\<lparr>cc_idempotency_key := inner_key (ci_cancellation ids),
        cc_request_hash := hash\<rparr>)) = None" using unused by simp
    have "finance_ok fdb'" by (rule cancel_ok [OF ok step new])
    moreover obtain s' c where "fd_invoices fdb i = Some s'" "fd_payments fdb' = fd_payments fdb"
      "fd_invoices fdb' = (fd_invoices fdb)(i \<mapsto> s'\<lparr>ss_status := Cancelled\<rparr>)" "fd_mail_sent fdb' = fd_mail_sent fdb"
      using cancel_effect [OF step new] by blast
    ultimately show ?thesis using row(1) by (simp add: cancelled_at_most_def)
  qed
qed

text \<open>The board: the order is cancelled and has no open follow-up any more.\<close>

lemma set_cancelled_tables [simp]:
  "bd_orders (set_cancelled c b) = map (\<lambda>od. if cm_id od = c then od\<lparr>cm_status := Commitment_Cancelled\<rparr> else od) (bd_orders b)"
  "bd_deliveries (set_cancelled c b) = bd_deliveries b" "bd_closures (set_cancelled c b) = bd_closures b"
  "bd_tasks (set_cancelled c b) = bd_tasks b" "bd_follow_ups (set_cancelled c b) = bd_follow_ups b"
  "bd_windows (set_cancelled c b) = bd_windows b" "bd_contexts (set_cancelled c b) = bd_contexts b"
  by (simp_all add: set_cancelled_def)

lemma close_order_follow_up_effect:
  assumes run: "close_order_follow_up zone ids cc od b = Inr b'"
    and ok: "tasks_ok (bd_tasks b)" and fresh: "fi_task ids \<notin> tk_id ` set (td_tasks (bd_tasks b))" and on: "bd_follow_ups b"
  shows "bd_orders b' = bd_orders b" "bd_deliveries b' = bd_deliveries b" "bd_closures b' = bd_closures b"
    "bd_windows b' = bd_windows b" "bd_follow_ups b'" "tasks_ok (bd_tasks b')" "bd_contexts b' = bd_contexts b"
    "cm_delivery_window_id od \<noteq> None \<Longrightarrow> \<not> follow_up_open (bd_tasks b') (cm_id od)"
    "cm_delivery_window_id od = None \<Longrightarrow> bd_tasks b' = bd_tasks b"
    "d \<noteq> cm_id od \<Longrightarrow> follow_up_open (bd_tasks b') d \<longleftrightarrow> follow_up_open (bd_tasks b) d"
proof -
  have "bd_orders b' = bd_orders b \<and> bd_deliveries b' = bd_deliveries b \<and> bd_closures b' = bd_closures b
    \<and> bd_windows b' = bd_windows b \<and> bd_follow_ups b' \<and> tasks_ok (bd_tasks b') \<and> bd_contexts b' = bd_contexts b
    \<and> (cm_delivery_window_id od \<noteq> None \<longrightarrow> \<not> follow_up_open (bd_tasks b') (cm_id od))
    \<and> (cm_delivery_window_id od = None \<longrightarrow> bd_tasks b' = bd_tasks b)
    \<and> (\<forall>d. d \<noteq> cm_id od \<longrightarrow> (follow_up_open (bd_tasks b') d \<longleftrightarrow> follow_up_open (bd_tasks b) d))"
  proof (cases "cm_delivery_window_id od = None")
    case True
    then show ?thesis using run ok on by (simp add: close_order_follow_up_def)
  next
    case False
    then obtain rq where rq: "b' = sync_follow_up ids rq b" "sy_commitment_id rq = cm_id od" "\<not> sy_needed rq"
      using run on by (auto simp: close_order_follow_up_def res_simps)
    then have t: "bd_tasks b' = sync ids rq (bd_tasks b)" using on by (simp add: sync_follow_up_def)
    show ?thesis
      using sync_mirrors(1,2) [OF ok fresh, of rq] sync_other_open [OF ok fresh, of _ rq] rq on False
      unfolding t [symmetric] by auto
  qed
  then show "bd_orders b' = bd_orders b" "bd_deliveries b' = bd_deliveries b" "bd_closures b' = bd_closures b"
    "bd_windows b' = bd_windows b" "bd_follow_ups b'" "tasks_ok (bd_tasks b')" "bd_contexts b' = bd_contexts b"
    "cm_delivery_window_id od \<noteq> None \<Longrightarrow> \<not> follow_up_open (bd_tasks b') (cm_id od)"
    "cm_delivery_window_id od = None \<Longrightarrow> bd_tasks b' = bd_tasks b"
    "d \<noteq> cm_id od \<Longrightarrow> follow_up_open (bd_tasks b') d \<longleftrightarrow> follow_up_open (bd_tasks b) d" by blast+
qed

lemma cancelled_board:
  assumes ok: "board_ok b" and od: "od \<in> set (bd_orders b)" "cm_id od = c" "row_state b c \<noteq> Drop_Delivered"
    and od': "cm_id od' = c" "cm_delivery_window_id od' = cm_delivery_window_id od"
    and fresh: "fi_task ids \<notin> tk_id ` set (td_tasks (bd_tasks b))"
    and run: "close_order_follow_up zone ids cc od' (add_event e (set_cancelled c b)) = Inr b'"
  shows "board_ok b'" "bd_orders b' = map (\<lambda>o'. if cm_id o' = c then o'\<lparr>cm_status := Commitment_Cancelled\<rparr> else o') (bd_orders b)"
    "bd_deliveries b' = bd_deliveries b" "\<not> follow_up_open (bd_tasks b') c"
    "d \<noteq> c \<Longrightarrow> follow_up_open (bd_tasks b') d \<longleftrightarrow> follow_up_open (bd_tasks b) d"
proof -
  let ?b = "add_event e (set_cancelled c b)" and ?f = "\<lambda>o'. if cm_id o' = c then o'\<lparr>cm_status := Commitment_Cancelled\<rparr> else o'"
  have t: "tasks_ok (bd_tasks ?b)" "fi_task ids \<notin> tk_id ` set (td_tasks (bd_tasks ?b))" "bd_follow_ups ?b"
    using ok fresh by (simp_all add: board_ok_def)
  note c = close_order_follow_up_effect [OF run t, simplified]
  have old: "order_ok b od" using ok od(1) by (simp add: board_ok_def)
  have closed: "\<not> follow_up_open (bd_tasks b') c"
    using c(8,9) od'(1,2) old od(2) by (cases "cm_delivery_window_id od = None") (auto simp: order_ok_def)
  then show "\<not> follow_up_open (bd_tasks b') c" .
  show others: "follow_up_open (bd_tasks b') d \<longleftrightarrow> follow_up_open (bd_tasks b) d" if "d \<noteq> c" for d
    using c(10) [of d] that od'(1) by simp
  show orders: "bd_orders b' = map ?f (bd_orders b)" "bd_deliveries b' = bd_deliveries b" using c(1,2) by auto
  have ids: "cm_id (?f o') = cm_id o'" "cm_action_id (?f o') = cm_action_id o'"
    "cm_delivery_window_id (?f o') = cm_delivery_window_id o'" for o'
    by simp_all
  have keys: "map cm_id (bd_orders b') = map cm_id (bd_orders b)" using orders ids by simp
  then have key_set: "cm_id ` set (bd_orders b') = cm_id ` set (bd_orders b)" by (metis set_map)
  have each: "order_ok b' (?f o')" if o': "o' \<in> set (bd_orders b)" for o'
  proof -
    have o_ok: "order_ok b o'" using ok o' by (simp add: board_ok_def)
    show ?thesis
    proof (cases "cm_id o' = c")
      case True
      then have "o' = od" using order_by_id [OF board_ok_ids [OF ok] o' od(1)] od(2) by simp
      then show ?thesis using o_ok od(2,3) closed orders(2) c(3)
        by (auto simp: order_ok_def row_state_def row_missed_def)
    next
      case False
      then show ?thesis using o_ok others [OF False] orders(2) c(3)
        by (simp add: order_ok_def row_state_def row_missed_def)
    qed
  qed
  have "windows_ok b'"
    using ok ids unfolding board_ok_def windows_ok_def c(4) orders(1) by auto
  moreover have "\<forall>o' \<in> set (bd_orders b'). order_ok b' o'"
  proof
    fix o' assume "o' \<in> set (bd_orders b')"
    then obtain x where "x \<in> set (bd_orders b)" "o' = ?f x" unfolding orders(1) set_map by blast
    then show "order_ok b' o'" using each by (simp only:)
  qed
  moreover have "\<forall>d. d \<notin> cm_id ` set (bd_orders b') \<longrightarrow> bd_deliveries b' d = None \<and> \<not> follow_up_open (bd_tasks b') d"
    using ok od others orders(2) key_set by (auto simp: board_ok_def)
  ultimately show "board_ok b'" using c(5,6) keys ok by (simp add: board_ok_def order_ids_ok_def)
qed

end
