(* ===== verification/Invoice_Numbering.thy ===== *)
theory Invoice_Numbering
  imports Shop_Tables
begin

text \<open>
  Issuing an invoice for an order: the transaction \<^verbatim>\<open>_issue_once\<close> of \<^verbatim>\<open>adapters/postgres/invoices.py\<close>
  with its profile, number sequence and rendering request, the service of \<^verbatim>\<open>application/invoices.py\<close>, and
  the synchronisation of the profiles when a legal configuration is activated
  (\<^verbatim>\<open>adapters/postgres/legal_configuration.py\<close>).  \<open>zone\<close> is the time zone of the installation.
\<close>

section \<open>Reading what was stored\<close>

text \<open>The stored snapshots with the current status.\<close>

definition get_invoice :: "shop_db \<Rightarrow> uuid \<Rightarrow> bool \<Rightarrow> invoice res" where
  "get_invoice db i replayed =
     (case find (\<lambda>v. iv_id v = i) (sd_invoices db) of
        None \<Rightarrow> Inl Runtime_Error
      | Some v \<Rightarrow> (case fd_invoices (sd_finance db) i of
          None \<Rightarrow> Inl Runtime_Error
        | Some s \<Rightarrow> invoice_init (v\<lparr>iv_status := ss_status s, iv_replayed := replayed\<rparr>)))"

text \<open>The order as the invoice reads it: without window, contact and capture time.\<close>

definition order_to_bill :: "commitment \<Rightarrow> commitment" where
  "order_to_bill od = od\<lparr>cm_delivery_window_id := None, cm_delivery_window_snapshot := None,
     cm_delivery_contact := None, cm_captured_at := None, cm_replayed := False\<rparr>"

section \<open>Issuing\<close>

definition settlement_of :: "invoice \<Rightarrow> settlement_state" where
  "settlement_of v = \<lparr>ss_id = iv_id v, ss_action_id = iv_action_id v, ss_number = iv_number v,
     ss_status = iv_status v, ss_issued_at = iv_issued_at v, ss_issued_on = iv_issued_on v, ss_gross = iv_gross v\<rparr>"

record issue_ids =
  ii_invoice :: uuid
  ii_audit :: uuid
  ii_document :: uuid

definition issued_facts :: "invoice \<Rightarrow> payload" where
  "issued_facts v = [''commitmentId'' \<mapsto> JStr (uuid_str (iv_commitment_id v)), ''number'' \<mapsto> JStr (iv_number v),
     ''grossMinor'' \<mapsto> JInt (mo_amount (iv_gross v)), ''currency'' \<mapsto> JStr (mo_currency (iv_gross v)),
     ''sequenceNumber'' \<mapsto> JStr (iv_number v), ''status'' \<mapsto> JStr (invoice_status_value (iv_status v))]"

text \<open>The number is unique in the whole table.\<close>

definition insert_invoice :: "issue_ids \<Rightarrow> command_context \<Rightarrow> invoice \<Rightarrow> shop_db \<Rightarrow> shop_db res" where
  "insert_invoice ids cc v db =
     (if list_ex (\<lambda>w. iv_number w = iv_number v \<or> iv_id w = iv_id v) (sd_invoices db) then Inl Unique_Violation
      else let fdb = sd_finance db;
             fdb1 = fdb\<lparr>fd_invoices := (fd_invoices fdb)(iv_id v \<mapsto> settlement_of v)\<rparr>;
             fdb2 = write_audit (ii_audit ids) cc ''invoice_issued'' ''invoice'' (iv_id v) (issued_facts v) fdb1
           in Inr (db\<lparr>sd_invoices := sd_invoices db @ [v],
               sd_invoice_of := (sd_invoice_of db)(iv_commitment_id v \<mapsto> iv_id v),
               sd_finance := complete_command ''issue_invoice_v1'' cc ''invoiceId'' (iv_id v) fdb2,
               sd_documents := sd_documents db @ [\<lparr>gd_id = ii_document ids, gd_invoice_id = iv_id v,
                 gd_commitment_id = iv_commitment_id v,
                 gd_outbox_key = lit ''invoice-document:'' @ uuid_str (ii_document ids) @ lit '':v2''\<rparr>]\<rparr>))"

definition set_order_status :: "uuid \<Rightarrow> commitment_status \<Rightarrow> shop_db \<Rightarrow> shop_db" where
  "set_order_status c st db = db\<lparr>sd_board := (sd_board db)\<lparr>bd_orders :=
     map (\<lambda>od. if cm_id od = c then od\<lparr>cm_status := st\<rparr> else od) (bd_orders (sd_board db))\<rparr>\<rparr>"

definition issue_once ::
  "tz_database \<Rightarrow> tz \<Rightarrow> issue_ids \<Rightarrow> command_context \<Rightarrow> uuid \<Rightarrow> date \<Rightarrow> shop_db \<Rightarrow> (invoice \<times> shop_db) res" where
  "issue_once tzdb zone ids cc c service_on db =
     then_res (existing_command (sd_finance db) ''issue_invoice_v1'' cc ''invoiceId'') (\<lambda>replayed.
     case replayed of
       Some i \<Rightarrow> then_res (get_invoice db i True) (\<lambda>v. Inr (v, db))
     | None \<Rightarrow>
     case bd_contexts (sd_board db) (cc_action_id cc) of
       None \<Rightarrow> Inl (App Resource_Not_Found ''invoice_commitment_not_found'')
     | Some x \<Rightarrow>
     then_res (read_configuration tzdb (sd_board db) (cc_action_id cc)) (\<lambda>delivery.
     case order_row db (cc_action_id cc) c of
       None \<Rightarrow> Inl (App Resource_Not_Found ''invoice_commitment_not_found'')
     | Some od \<Rightarrow>
     if \<not> bx_invoicing x then Inl (App Conflict ''invoice_capability_disabled'')
     else if bx_status x = Archived then Inl (App Conflict ''invoice_action_archived'')
     else if \<not> (bx_starts_on x \<le> service_on \<and> service_on \<le> bx_ends_on x)
     then Inl (App Conflict ''invoice_service_date_outside_action'')
     else case sd_invoice_of db c of
       Some i \<Rightarrow> then_res (get_invoice db i True) (\<lambda>v.
         Inr (v, db\<lparr>sd_finance := complete_command ''issue_invoice_v1'' cc ''invoiceId'' (iv_id v) (sd_finance db)\<rparr>))
     | None \<Rightarrow>
     if dc_enabled delivery \<and> (cm_delivery_recipient od = None \<or> cm_delivery_window_id od = None)
     then Inl (App Conflict ''invoice_delivery_incomplete'')
     else case sd_profiles db (cc_action_id cc) of
       None \<Rightarrow> Inl (App Conflict ''invoice_profile_missing'')
     | Some stored \<Rightarrow>
     then_res (invoice_profile_init stored) (\<lambda>p.
     case sd_active_legal db of
       None \<Rightarrow> Inl (App Conflict ''invoice_legal_configuration_missing'')
     | Some legal \<Rightarrow>
     if pf_legal_configuration_version_id p \<noteq> Some legal
     then Inl (App Conflict ''invoice_legal_configuration_stale'')
     else then_res (commitment_init (order_to_bill od)) (\<lambda>billed.
     then_res (invoice_issue zone (ii_invoice ids) (next_invoice_number p) billed p (cc_actor_user_id cc)
         (cc_occurred_at cc) service_on) (\<lambda>v.
     then_res (insert_invoice ids cc v db) (\<lambda>db1.
     let db2 = db1\<lparr>sd_profiles := (sd_profiles db1)(cc_action_id cc \<mapsto> stored\<lparr>pf_next_number := pf_next_number stored + 1\<rparr>)\<rparr>
     in if cm_status od \<noteq> Review_Ready then Inl Runtime_Error
        else Inr (v, set_order_status c Invoiced db2)))))))"

definition issue_json :: "uuid \<Rightarrow> uuid \<Rightarrow> date \<Rightarrow> json" where
  "issue_json action_id c service_on = Js_Object [(lit ''actionId'', js_uuid action_id),
     (lit ''commitmentId'', js_uuid c), (lit ''serviceOn'', js_text (iso_date service_on))]"

definition service_issue ::
  "tz_database \<Rightarrow> tz \<Rightarrow> issue_ids \<Rightarrow> identity_principal \<Rightarrow> uuid \<Rightarrow> uuid \<Rightarrow> date \<Rightarrow> pystr \<Rightarrow> pystr \<Rightarrow> datetime
   \<Rightarrow> shop_db \<Rightarrow> (invoice \<times> shop_db) res" where
  "service_issue tzdb zone ids actor action_id c service_on key request_id at db =
     then_res (require_action_manager actor action_id ''invoice_issue_required'') (\<lambda>_.
     if \<not> idempotency_key_ok key then Inl (Invariant ''invoice_idempotency_key_invalid'')
     else then_res (text_digest (json_text (issue_json action_id c service_on))) (\<lambda>hash.
       issue_once tzdb zone ids \<lparr>cc_action_id = action_id, cc_actor_user_id = ua_id (ip_account actor),
         cc_idempotency_key = key, cc_request_hash = hash, cc_request_id = request_id,
         cc_occurred_at = at\<rparr> c service_on db))"

section \<open>Activating a legal configuration\<close>

record legal_fields =
  lf_version_id :: uuid
  lf_issuer :: invoice_issuer
  lf_tax_treatment :: tax_treatment
  lf_tax_rate_basis_points :: int
  lf_tax_note :: pystr
  lf_number_prefix :: pystr
  lf_number_width :: int
  lf_payment_terms_days :: int
  lf_payment_details :: payment_details

text \<open>One statement without a condition: every profile gets the fields, each keeps its own sequence.\<close>

definition synchronized_profile :: "legal_fields \<Rightarrow> datetime \<Rightarrow> invoice_profile \<Rightarrow> invoice_profile" where
  "synchronized_profile f at p = p\<lparr>pf_legal_configuration_version_id := Some (lf_version_id f), pf_issuer := lf_issuer f,
     pf_tax_treatment := lf_tax_treatment f, pf_tax_rate_basis_points := lf_tax_rate_basis_points f,
     pf_tax_note := lf_tax_note f, pf_number_prefix := lf_number_prefix f, pf_number_width := lf_number_width f,
     pf_payment_terms_days := lf_payment_terms_days f, pf_payment_details := Some (lf_payment_details f),
     pf_confirmed_at := Some at\<rparr>"

definition synchronize_invoice_profiles :: "legal_fields \<Rightarrow> datetime \<Rightarrow> shop_db \<Rightarrow> shop_db" where
  "synchronize_invoice_profiles f at db = db\<lparr>sd_active_legal := Some (lf_version_id f),
     sd_profiles := (\<lambda>a. map_option (synchronized_profile f at) (sd_profiles db a))\<rparr>"

section \<open>What issuing does\<close>

lemma invoice_init_keeps:
  "invoice_init raw = Inr v \<Longrightarrow> iv_id v = iv_id raw \<and> iv_number v = iv_number raw \<and> iv_status v = iv_status raw
     \<and> iv_action_id v = iv_action_id raw \<and> iv_commitment_id v = iv_commitment_id raw \<and> iv_issued_at v = iv_issued_at raw
     \<and> iv_gross v = iv_gross raw"
  by (auto simp: invoice_init_def then_res_Inr_iff split: if_splits)

lemma invoice_issue_fields:
  assumes "invoice_issue zone i number od p u at so = Inr v"
  shows "iv_id v = i \<and> iv_number v = number \<and> iv_status v = Issued \<and> iv_action_id v = cm_action_id od
    \<and> iv_commitment_id v = cm_id od \<and> iv_issued_at v = at \<and> cm_status od = Review_Ready
    \<and> wf_money (iv_gross v)"
proof -
  obtain recipient where r: "cm_status od = Review_Ready" "cm_invoice_recipient od = Some recipient" "ready_to_issue p"
    using assms by (auto simp: invoice_issue_def split: if_splits option.splits)
  obtain details where d: "pf_payment_details p = Some details" "pf_action_id p = cm_action_id od"
    using assms r by (auto simp: invoice_issue_def split: if_splits option.splits)
  note facts = assms [unfolded invoice_issue_def Let_def, simplified r d, simplified]
  obtain ls where ls: "map_res (issue_line (if pf_tax_treatment p = Standard_Vat then pf_tax_rate_basis_points p else 0)) (cm_lines od) = Inr ls"
    using facts by (auto simp: then_res_Inr_iff)
  note facts = facts [simplified ls, simplified]
  obtain day net tax gross due where g: "money_init \<lparr>mo_amount = sum_minor il_gross ls, mo_currency = mo_currency (cm_total od)\<rparr> = Inr gross"
    "invoice_init \<lparr>iv_id = i, iv_action_id = cm_action_id od, iv_commitment_id = cm_id od, iv_number = number, iv_status = Issued,
       iv_issued_at = at, iv_issued_on = day, iv_service_on = so, iv_due_on = due, iv_issuer = pf_issuer p,
       iv_payment_details = details, iv_recipient = recipient, iv_lines = ls,
       iv_tax_treatment = pf_tax_treatment p, iv_tax_note = pf_tax_note p, iv_net = net, iv_tax = tax,
       iv_gross = gross, iv_payment_reference = number, iv_approved_by_user_id = u, iv_replayed = False\<rparr> = Inr v"
    using facts unfolding then_res_Inr_iff by (elim exE conjE) (rule that)
  show ?thesis using invoice_init_keeps [OF g(2)] money.post_init_wf [OF g(1)] r by simp
qed

lemma profile_init_number: "invoice_profile_init q = Inr p \<Longrightarrow> next_invoice_number p = next_invoice_number q \<and> pf_next_number q > 0"
  by (auto simp: invoice_profile_init_def next_invoice_number_def res_simps split: if_splits)

lemma bill_fields [simp]:
  "cm_id (order_to_bill od) = cm_id od" "cm_action_id (order_to_bill od) = cm_action_id od"
  "cm_status (order_to_bill od) = cm_status od"
  by (simp_all add: order_to_bill_def)

lemma bill_init_keeps:
  "commitment_init od = Inr od' \<Longrightarrow> cm_id od' = cm_id od \<and> cm_action_id od' = cm_action_id od \<and> cm_status od' = cm_status od"
  by (auto simp: commitment_init_def Let_def res_simps)

lemma insert_invoice_effect:
  "insert_invoice ids cc v db = Inr db1 \<Longrightarrow>
     iv_number v \<notin> iv_number ` set (sd_invoices db) \<and> iv_id v \<notin> iv_id ` set (sd_invoices db)
     \<and> sd_board db1 = sd_board db \<and> sd_profiles db1 = sd_profiles db \<and> sd_invoices db1 = sd_invoices db @ [v]
     \<and> sd_invoice_of db1 = (sd_invoice_of db)(iv_commitment_id v \<mapsto> iv_id v) \<and> sd_cancellations db1 = sd_cancellations db
     \<and> sd_active_legal db1 = sd_active_legal db
     \<and> fd_invoices (sd_finance db1) = (fd_invoices (sd_finance db))(iv_id v \<mapsto> settlement_of v)
     \<and> fd_payments (sd_finance db1) = fd_payments (sd_finance db)
     \<and> fd_cancellations (sd_finance db1) = fd_cancellations (sd_finance db)
     \<and> fd_mail_sent (sd_finance db1) = fd_mail_sent (sd_finance db)
     \<and> fd_receipts (sd_finance db1) = (fd_receipts (sd_finance db))(cc_idempotency_key cc \<mapsto>
         \<lparr>cr_command_type = ''issue_invoice_v1'', cr_request_hash = cc_request_hash cc, cr_result = Some (''invoiceId'', iv_id v)\<rparr>)"
proof -
  assume run: "insert_invoice ids cc v db = Inr db1"
  have new: "\<not> list_ex (\<lambda>w. iv_number w = iv_number v \<or> iv_id w = iv_id v) (sd_invoices db)"
    using run by (simp add: insert_invoice_def split: if_splits)
  have "iv_number v \<notin> iv_number ` set (sd_invoices db) \<and> iv_id v \<notin> iv_id ` set (sd_invoices db)"
    using new by (auto simp: list_ex_iff)
  moreover note run [unfolded insert_invoice_def Let_def if_not_P [OF new] sum.inject, symmetric]
  ultimately show ?thesis by (simp add: complete_command_def write_audit_def)
qed

text \<open>An answered repetition changes at most the receipts; otherwise one invoice is added.\<close>

definition answered :: "shop_db \<Rightarrow> shop_db \<Rightarrow> bool" where
  "answered db db' \<longleftrightarrow> (\<exists>r. db' = db\<lparr>sd_finance := (sd_finance db)\<lparr>fd_receipts := r\<rparr>\<rparr> \<and> fd_receipts (sd_finance db) \<subseteq>\<^sub>m r)"

lemma answered_refl: "answered db db"
  unfolding answered_def by (rule exI [of _ "fd_receipts (sd_finance db)"]) simp

lemma answered_receipt:
  assumes "fd_receipts (sd_finance db) k = None"
  shows "answered db (db\<lparr>sd_finance := (sd_finance db)\<lparr>fd_receipts := (fd_receipts (sd_finance db))(k \<mapsto> r)\<rparr>\<rparr>)"
  unfolding answered_def using assms
  by (intro exI [of _ "(fd_receipts (sd_finance db))(k \<mapsto> r)"]) (auto simp: map_le_def)

lemma issue_effect:
  assumes run: "issue_once tzdb zone ids cc c so db = Inr (v, db')"
  shows "answered db db' \<and> db' \<noteq> db \<longrightarrow> fd_receipts (sd_finance db) (cc_idempotency_key cc) = None"
    and "answered db db' \<or> (\<exists>od stored db1. order_row db (cc_action_id cc) c = Some od \<and> cm_status od = Review_Ready
      \<and> fd_receipts (sd_finance db) (cc_idempotency_key cc) = None
      \<and> sd_invoice_of db c = None \<and> sd_profiles db (cc_action_id cc) = Some stored
      \<and> pf_legal_configuration_version_id stored = sd_active_legal db \<and> pf_next_number stored > 0
      \<and> iv_number v = next_invoice_number stored \<and> iv_action_id v = cc_action_id cc \<and> iv_commitment_id v = c
      \<and> iv_id v = ii_invoice ids \<and> iv_status v = Issued \<and> wf_money (iv_gross v)
      \<and> insert_invoice ids cc v db = Inr db1
      \<and> db' = set_order_status c Invoiced (db1\<lparr>sd_profiles := (sd_profiles db1)(cc_action_id cc \<mapsto>
            stored\<lparr>pf_next_number := pf_next_number stored + 1\<rparr>)\<rparr>))"
proof -
  have "(answered db db' \<and> (db' \<noteq> db \<longrightarrow> fd_receipts (sd_finance db) (cc_idempotency_key cc) = None))
    \<or> (fd_receipts (sd_finance db) (cc_idempotency_key cc) = None \<and> (\<exists>od stored db1. order_row db (cc_action_id cc) c = Some od \<and> cm_status od = Review_Ready
      \<and> fd_receipts (sd_finance db) (cc_idempotency_key cc) = None
      \<and> sd_invoice_of db c = None \<and> sd_profiles db (cc_action_id cc) = Some stored
      \<and> pf_legal_configuration_version_id stored = sd_active_legal db \<and> pf_next_number stored > 0
      \<and> iv_number v = next_invoice_number stored \<and> iv_action_id v = cc_action_id cc \<and> iv_commitment_id v = c
      \<and> iv_id v = ii_invoice ids \<and> iv_status v = Issued \<and> wf_money (iv_gross v)
      \<and> insert_invoice ids cc v db = Inr db1
      \<and> db' = set_order_status c Invoiced (db1\<lparr>sd_profiles := (sd_profiles db1)(cc_action_id cc \<mapsto>
            stored\<lparr>pf_next_number := pf_next_number stored + 1\<rparr>)\<rparr>)))" (is "_ \<or> ?new")
  proof (cases "existing_command (sd_finance db) ''issue_invoice_v1'' cc ''invoiceId''")
    case (Inr r)
    show ?thesis
    proof (cases r)
      case (Some i)
      then have "db' = db" using run Inr by (auto simp: issue_once_def res_simps)
      then show ?thesis using answered_refl by simp
    next
      case None
      then have ex: "existing_command (sd_finance db) ''issue_invoice_v1'' cc ''invoiceId'' = Inr None" using Inr by simp
      then have new: "fd_receipts (sd_finance db) (cc_idempotency_key cc) = None" by simp
      obtain x delivery od where base: "bd_contexts (sd_board db) (cc_action_id cc) = Some x"
        "read_configuration tzdb (sd_board db) (cc_action_id cc) = Inr delivery" "order_row db (cc_action_id cc) c = Some od"
        "bx_invoicing x" "bx_status x \<noteq> Archived" "bx_starts_on x \<le> so \<and> so \<le> bx_ends_on x"
      proof -
        obtain x where x: "bd_contexts (sd_board db) (cc_action_id cc) = Some x"
          using run ex by (auto simp: issue_once_def split: option.splits)
        obtain delivery where d: "read_configuration tzdb (sd_board db) (cc_action_id cc) = Inr delivery"
          using run ex x by (auto simp: issue_once_def then_res_Inr_iff)
        obtain od where od: "order_row db (cc_action_id cc) c = Some od"
          using run ex x d by (auto simp: issue_once_def split: option.splits)
        show ?thesis
          using run ex x d od by (intro that [OF x d od]) (auto simp: issue_once_def split: if_splits)
      qed
      note facts = base issue_once_def then_res_simps ex
      have od: "cm_id od = c" "cm_action_id od = cc_action_id cc"
        using base(3) by (auto simp: order_row_def find_Some_iff)
      show ?thesis
      proof (cases "sd_invoice_of db c")
        case (Some i)
        then obtain w where w: "get_invoice db i True = Inr w"
          using run ex base by (auto simp: issue_once_def then_res_Inr_iff)
        then have "db' = db\<lparr>sd_finance := complete_command ''issue_invoice_v1'' cc ''invoiceId'' (iv_id w) (sd_finance db)\<rparr>"
          using run ex base Some by (auto simp: issue_once_def)
        then have "answered db db'" using answered_receipt [OF new] by (simp add: complete_command_def)
        then show ?thesis using new by blast
      next
        case none: None
        obtain stored where st: "sd_profiles db (cc_action_id cc) = Some stored"
          using run ex base none by (auto simp: issue_once_def split: option.splits if_splits)
        obtain p where p: "invoice_profile_init stored = Inr p"
          using run ex base none st by (auto simp: issue_once_def then_res_Inr_iff split: if_splits)
        obtain legal where legal: "sd_active_legal db = Some legal" "pf_legal_configuration_version_id p = Some legal"
          using run ex base none st p by (auto simp: issue_once_def split: option.splits if_splits)
        obtain billed where billed: "commitment_init (order_to_bill od) = Inr billed"
          using run ex base none st p legal by (auto simp: issue_once_def then_res_Inr_iff split: if_splits)
        obtain w where w: "invoice_issue zone (ii_invoice ids) (next_invoice_number p) billed p (cc_actor_user_id cc)
            (cc_occurred_at cc) so = Inr w"
          using run ex base none st p legal billed by (auto simp: issue_once_def then_res_Inr_iff split: if_splits)
        obtain db1 where db1: "insert_invoice ids cc w db = Inr db1"
          using run ex base none st p legal billed w by (auto simp: issue_once_def then_res_Inr_iff split: if_splits)
        have fin: "cm_status od = Review_Ready" "w = v"
          "db' = set_order_status c Invoiced (db1\<lparr>sd_profiles := (sd_profiles db1)(cc_action_id cc \<mapsto>
              stored\<lparr>pf_next_number := pf_next_number stored + 1\<rparr>)\<rparr>)"
          using run ex base none st p legal billed w db1 by (auto simp: issue_once_def Let_def split: if_splits)
        note issue = st p legal billed w [unfolded fin(2)] db1 [unfolded fin(2)] fin(1,3)
        have "pf_legal_configuration_version_id stored = sd_active_legal db"
          using issue(2-4) by (auto simp: invoice_profile_init_def res_simps split: if_splits)
        then have ?new using new none base(3) issue od invoice_issue_fields [OF issue(6)] bill_init_keeps [OF issue(5)]
            profile_init_number [OF issue(2)] by auto
        then show ?thesis by blast
      qed
    qed
  qed (use run in \<open>simp add: issue_once_def\<close>)
  then show "answered db db' \<and> db' \<noteq> db \<longrightarrow> fd_receipts (sd_finance db) (cc_idempotency_key cc) = None"
    "answered db db' \<or> (\<exists>od stored db1. order_row db (cc_action_id cc) c = Some od \<and> cm_status od = Review_Ready
      \<and> fd_receipts (sd_finance db) (cc_idempotency_key cc) = None
      \<and> sd_invoice_of db c = None \<and> sd_profiles db (cc_action_id cc) = Some stored
      \<and> pf_legal_configuration_version_id stored = sd_active_legal db \<and> pf_next_number stored > 0
      \<and> iv_number v = next_invoice_number stored \<and> iv_action_id v = cc_action_id cc \<and> iv_commitment_id v = c
      \<and> iv_id v = ii_invoice ids \<and> iv_status v = Issued \<and> wf_money (iv_gross v)
      \<and> insert_invoice ids cc v db = Inr db1
      \<and> db' = set_order_status c Invoiced (db1\<lparr>sd_profiles := (sd_profiles db1)(cc_action_id cc \<mapsto>
            stored\<lparr>pf_next_number := pf_next_number stored + 1\<rparr>)\<rparr>))" by blast+
qed
section \<open>Series of numbers\<close>

text \<open>
  Between two activations of a legal configuration the profiles and the invoices are written by issuing alone;
  every other operation of the program leaves both tables as they are.
\<close>

inductive numbering_step :: "tz_database \<Rightarrow> tz \<Rightarrow> shop_db \<Rightarrow> shop_db \<Rightarrow> bool" for tzdb zone where
  numbering_issue: "issue_once tzdb zone ids cc c so db = Inr (v, db') \<Longrightarrow> numbering_step tzdb zone db db'"
| numbering_other: "sd_profiles db' = sd_profiles db \<Longrightarrow> sd_invoices db' = sd_invoices db \<Longrightarrow> numbering_step tzdb zone db db'"

definition numbers_of :: "uuid \<Rightarrow> invoice list \<Rightarrow> pystr list" where
  "numbers_of a vs = map iv_number (filter (\<lambda>v. iv_action_id v = a) vs)"

definition numbered :: "invoice_profile \<Rightarrow> nat \<Rightarrow> invoice_profile" where
  "numbered p n = p\<lparr>pf_next_number := pf_next_number p + int n\<rparr>"

lemma numbers_of_append: "numbers_of a (vs @ ws) = numbers_of a vs @ numbers_of a ws"
  by (simp add: numbers_of_def)

lemma numbered_simps [simp]: "numbered p 0 = p" "numbered (numbered p n) m = numbered p (n + m)"
  by (simp_all add: numbered_def add.assoc)

lemma answered_tables:
  "answered db db' \<Longrightarrow> sd_profiles db' = sd_profiles db \<and> sd_invoices db' = sd_invoices db"
  by (auto simp: answered_def)

lemma issue_tables:
  assumes "issue_once tzdb zone ids cc c so db = Inr (v, db')" "\<not> answered db db'"
  obtains p where "sd_profiles db (cc_action_id cc) = Some p" "iv_action_id v = cc_action_id cc"
    "iv_number v = next_invoice_number p" "iv_number v \<notin> iv_number ` set (sd_invoices db)"
    "sd_invoices db' = sd_invoices db @ [v]" "sd_profiles db' = (sd_profiles db)(cc_action_id cc \<mapsto> numbered p 1)"
proof -
  obtain p db1 where p: "sd_profiles db (cc_action_id cc) = Some p" "iv_number v = next_invoice_number p"
    "iv_action_id v = cc_action_id cc" "insert_invoice ids cc v db = Inr db1"
    "db' = set_order_status c Invoiced (db1\<lparr>sd_profiles := (sd_profiles db1)(cc_action_id cc \<mapsto>
            p\<lparr>pf_next_number := pf_next_number p + 1\<rparr>)\<rparr>)"
    using issue_effect(2) [OF assms(1)] assms(2) by blast
  then show ?thesis using insert_invoice_effect [OF p(4)]
    by (intro that [OF p(1,3,2)]) (simp_all add: set_order_status_def numbered_def)
qed

text \<open>
  C35: Invoice numbers are gapless.  From any state, over any number of issues of any actions in any order and
  everything else the program does meanwhile, the new invoices of an action carry, in the order of
  their issue, exactly the next numbers of its profile: one per invoice, none left out, none twice, and
  the profile's counter stands behind the last one; invoices are only added.  Numbers that were unique in
  the whole table stay unique.
\<close>
theorem gapless_numbers:
  assumes "(numbering_step tzdb zone)\<^sup>*\<^sup>* db db'"
  shows "\<exists>new. sd_invoices db' = sd_invoices db @ new
    \<and> (distinct (map iv_number (sd_invoices db)) \<longrightarrow> distinct (map iv_number (sd_invoices db')))
    \<and> (\<forall>a p. sd_profiles db a = Some p \<longrightarrow>
        numbers_of a new = map (\<lambda>k. next_invoice_number (numbered p k)) [0..<length (numbers_of a new)]
        \<and> sd_profiles db' a = Some (numbered p (length (numbers_of a new))))"
  using assms
proof (induction rule: rtranclp_induct)
  case base
  then show ?case by (intro exI [of _ "[]"]) (simp add: numbers_of_def)
next
  case (step db1 db2)
  then obtain new where new: "sd_invoices db1 = sd_invoices db @ new"
    "distinct (map iv_number (sd_invoices db)) \<Longrightarrow> distinct (map iv_number (sd_invoices db1))"
    "\<And>a p. sd_profiles db a = Some p \<Longrightarrow>
        numbers_of a new = map (\<lambda>k. next_invoice_number (numbered p k)) [0..<length (numbers_of a new)]
        \<and> sd_profiles db1 a = Some (numbered p (length (numbers_of a new)))" by blast
  have same: ?case if "sd_profiles db2 = sd_profiles db1" "sd_invoices db2 = sd_invoices db1"
    using that new by (intro exI [of _ new]) simp
  from step(2) show ?case
  proof cases
    case (numbering_issue ids cc c so v)
    show ?thesis
    proof (cases "answered db1 db2")
      case True
      then show ?thesis using same answered_tables by blast
    next
      case False
      obtain q where q: "sd_profiles db1 (cc_action_id cc) = Some q" "iv_action_id v = cc_action_id cc"
        "iv_number v = next_invoice_number q" "iv_number v \<notin> iv_number ` set (sd_invoices db1)"
        "sd_invoices db2 = sd_invoices db1 @ [v]" "sd_profiles db2 = (sd_profiles db1)(cc_action_id cc \<mapsto> numbered q 1)"
        using issue_tables [OF numbering_issue False] by blast
      have "numbers_of a (new @ [v]) = map (\<lambda>k. next_invoice_number (numbered p k)) [0..<length (numbers_of a (new @ [v]))]
          \<and> sd_profiles db2 a = Some (numbered p (length (numbers_of a (new @ [v]))))" if p: "sd_profiles db a = Some p" for a p
      proof (cases "a = cc_action_id cc")
        case True
        then have "q = numbered p (length (numbers_of a new))" using new(3) [OF p] q(1) by simp
        moreover have "numbers_of a [v] = [next_invoice_number q]" using True q by (simp add: numbers_of_def)
        ultimately show ?thesis using new(3) [OF p] True q(6) by (simp add: numbers_of_append)
      next
        case False
        then have "numbers_of a [v] = []" using q(2) by (simp add: numbers_of_def)
        then show ?thesis using new(3) [OF p] False q(6) by (simp add: numbers_of_append)
      qed
      moreover have "distinct (map iv_number (sd_invoices db2))" if "distinct (map iv_number (sd_invoices db))"
        using new(2) [OF that] q(4,5) by simp
      moreover have "sd_invoices db2 = sd_invoices db @ new @ [v]" using new(1) q(5) by simp
      ultimately show ?thesis by blast
    qed
  next
    case numbering_other
    then show ?thesis by (rule same)
  qed
qed

text \<open>
  A profile whose next number is already taken blocks its action for good: the counter only moves with an
  issue, and the issue fails on the unique number.
\<close>

lemma taken_number_blocks:
  assumes "sd_profiles db b = Some p" "next_invoice_number p \<in> iv_number ` set (sd_invoices db)"
    and "(numbering_step tzdb zone)\<^sup>*\<^sup>* db db'"
  shows "sd_profiles db' b = Some p \<and> next_invoice_number p \<in> iv_number ` set (sd_invoices db')
    \<and> filter (\<lambda>v. iv_action_id v = b) (sd_invoices db') = filter (\<lambda>v. iv_action_id v = b) (sd_invoices db)"
  using assms(3)
proof (induction rule: rtranclp_induct)
  case base
  then show ?case using assms(1,2) by simp
next
  case (step db1 db2)
  from step(2) show ?case
  proof cases
    case (numbering_issue ids cc c so v)
    show ?thesis
    proof (cases "answered db1 db2")
      case True
      then show ?thesis using step(3) answered_tables by simp
    next
      case False
      obtain q where q: "sd_profiles db1 (cc_action_id cc) = Some q" "iv_action_id v = cc_action_id cc"
        "iv_number v = next_invoice_number q" "iv_number v \<notin> iv_number ` set (sd_invoices db1)"
        "sd_invoices db2 = sd_invoices db1 @ [v]" "sd_profiles db2 = (sd_profiles db1)(cc_action_id cc \<mapsto> numbered q 1)"
        using issue_tables [OF numbering_issue False] by blast
      then have "cc_action_id cc \<noteq> b" using step(3) by auto
      then show ?thesis using step(3) q by simp
    qed
  next
    case numbering_other
    then show ?thesis using step(3) by simp
  qed
qed

text \<open>
  C36: One legal configuration gives every action the same number series.  Activating it writes prefix and
  width to the profiles of all actions while each keeps its own counter.  So when two actions stand at the
  same counter, the first invoice of one takes the number of the other, and from then on no invoice of
  the other action is ever issued, whatever is tried, until another configuration is activated:
  every such issue that succeeds only answers an earlier command.
\<close>
theorem shared_series_blocks:
  assumes "sd_profiles db a = Some p" "sd_profiles db b = Some q" "a \<noteq> b" "pf_next_number p = pf_next_number q"
    and "issue_once tzdb zone ids cc c so (synchronize_invoice_profiles f at db) = Inr (v, db1)"
    and "cc_action_id cc = a" "\<not> answered (synchronize_invoice_profiles f at db) db1"
    and "(numbering_step tzdb zone)\<^sup>*\<^sup>* db1 db2"
  shows "filter (\<lambda>w. iv_action_id w = b) (sd_invoices db2) = filter (\<lambda>w. iv_action_id w = b) (sd_invoices db)
    \<and> (\<forall>ids' cc' c' so' w db3. cc_action_id cc' = b \<longrightarrow>
        issue_once tzdb zone ids' cc' c' so' db2 = Inr (w, db3) \<longrightarrow> answered db2 db3)"
proof -
  let ?s = "synchronize_invoice_profiles f at db"
  let ?q = "synchronized_profile f at q"
  have sync: "sd_profiles ?s a = Some (synchronized_profile f at p)" "sd_profiles ?s b = Some ?q" "sd_invoices ?s = sd_invoices db"
    using assms(1,2) by (simp_all add: synchronize_invoice_profiles_def)
  obtain r where r: "sd_profiles ?s (cc_action_id cc) = Some r" "iv_action_id v = cc_action_id cc"
    "iv_number v = next_invoice_number r" "iv_number v \<notin> iv_number ` set (sd_invoices ?s)"
    "sd_invoices db1 = sd_invoices ?s @ [v]" "sd_profiles db1 = (sd_profiles ?s)(cc_action_id cc \<mapsto> numbered r 1)"
    using issue_tables [OF assms(5,7)] by blast
  have "next_invoice_number ?q = next_invoice_number (synchronized_profile f at p)"
    using assms(4) by (simp add: next_invoice_number_def synchronized_profile_def)
  then have "sd_profiles db1 b = Some ?q" "next_invoice_number ?q \<in> iv_number ` set (sd_invoices db1)"
    using r sync assms(3,6) by simp_all
  note blocked = taken_number_blocks [OF this assms(8)]
  have "answered db2 db3" if "cc_action_id cc' = b" "issue_once tzdb zone ids' cc' c' so' db2 = Inr (w, db3)" for ids' cc' c' so' w db3
  proof (rule ccontr)
    assume "\<not> answered db2 db3"
    from that(2) this obtain t where "sd_profiles db2 (cc_action_id cc') = Some t"
      "iv_number w = next_invoice_number t" "iv_number w \<notin> iv_number ` set (sd_invoices db2)"
      by (rule issue_tables)
    then show False using blocked that(1) by simp
  qed
  then show ?thesis using blocked r sync assms(3,6) by simp
qed

text \<open>A shop with two actions, one order ready to be billed and a profile for each action.\<close>

definition sample_fields :: legal_fields where
  "sample_fields = \<lparr>lf_version_id = 1, lf_issuer = sample_issuer, lf_tax_treatment = Standard_Vat,
     lf_tax_rate_basis_points = 1900, lf_tax_note = lit ''Stollen'', lf_number_prefix = lit ''LC-'', lf_number_width = 4,
     lf_payment_terms_days = 14, lf_payment_details = sample_details\<rparr>"

definition sample_shop :: shop_db where
  "sample_shop = \<lparr>sd_board = sample_board\<lparr>bd_contexts := [1 \<mapsto> (sample_action 1)\<lparr>bx_enabled := False, bx_ends_on := 800000\<rparr>],
       bd_windows := [], bd_orders := [sample_reviewed], bd_deliveries := (\<lambda>_. None)\<rparr>,
     sd_finance = empty_finance, sd_invoice_of = (\<lambda>_. None),
     sd_profiles = [1 \<mapsto> sample_profile, 2 \<mapsto> sample_profile\<lparr>pf_action_id := 2\<rparr>],
     sd_active_legal = Some 1, sd_invoices = [], sd_documents = [], sd_cancellations = [], sd_activities = [], sd_offerings = [], sd_assignments = []\<rparr>"

definition sample_bill :: command_context where
  "sample_bill = \<lparr>cc_action_id = 1, cc_actor_user_id = 5, cc_idempotency_key = lit ''k'', cc_request_hash = [],
     cc_request_id = [], cc_occurred_at = utc (740000 * day_us)\<rparr>"

lemma sample_synchronized: "synchronize_invoice_profiles sample_fields (utc 0) sample_shop = sample_shop"
  by (auto simp: synchronize_invoice_profiles_def sample_shop_def synchronized_profile_def sample_fields_def sample_profile_def)

lemma sample_billed: "commitment_init (order_to_bill sample_reviewed) = Inr sample_reviewed"
proof -
  have "order_to_bill sample_reviewed = sample_reviewed"
    by (simp add: order_to_bill_def sample_reviewed_def sample_order_def)
  then show ?thesis using commitment.post_init_id [OF sample_reviewed_wf] by simp
qed

lemma sample_number: "next_invoice_number sample_profile = lit ''LC-0007''"
  by code_simp

lemma sample_shop_plan:
  "\<exists>d. read_configuration sample_zones (sd_board sample_shop) 1 = Inr d \<and> \<not> dc_enabled d"
proof -
  obtain t where t: "local_instant sample_zones (fst noon_2026) (snd noon_2026) (lit ''UTC'') = Inr t"
    using sample_noon by (auto simp: not_raises_iff)
  then show ?thesis
    by (simp add: read_configuration_def sample_shop_def sample_action_def window_rows_def delivery_configuration_init_def)
qed

lemma sample_shop_issue:
  "\<exists>v db'. issue_once sample_zones (fixed_zone 0) \<lparr>ii_invoice = 40, ii_audit = 41, ii_document = 42\<rparr> sample_bill 21 740000
     sample_shop = Inr (v, db') \<and> sd_invoices db' = [v] \<and> iv_number v = lit ''LC-0007'' \<and> iv_action_id v = 1"
proof -
  obtain v where v: "invoice_issue (fixed_zone 0) 40 (lit ''LC-0007'') sample_reviewed sample_profile 5
      (utc (740000 * day_us)) 740000 = Inr v"
    using invoice_from_order_witness by blast
  note v' = invoice_issue_fields [OF v]
  obtain d where d: "read_configuration sample_zones (sd_board sample_shop) 1 = Inr d" "\<not> dc_enabled d" using sample_shop_plan by blast
  have row: "order_row sample_shop 1 21 = Some sample_reviewed"
    by (simp add: order_row_def sample_shop_def sample_reviewed_def sample_order_def)
  have bill: "cc_action_id sample_bill = 1" "cc_actor_user_id sample_bill = 5" "cc_occurred_at sample_bill = utc (740000 * day_us)"
    by (simp_all add: sample_bill_def)
  have new: "existing_command (sd_finance sample_shop) ''issue_invoice_v1'' sample_bill ''invoiceId'' = Inr None"
    by (simp add: existing_command_def sample_shop_def empty_finance_def)
  have ctx: "bd_contexts (sd_board sample_shop) 1 = Some ((sample_action 1)\<lparr>bx_enabled := False, bx_ends_on := 800000\<rparr>)"
    by (simp add: sample_shop_def)
  have rest: "sd_invoice_of sample_shop 21 = None" "sd_profiles sample_shop 1 = Some sample_profile"
    "sd_active_legal sample_shop = Some 1" "sd_invoices sample_shop = []"
    by (simp_all add: sample_shop_def)
  have legal: "pf_legal_configuration_version_id sample_profile = Some 1" by (simp add: sample_profile_def)
  obtain db1 where db1: "insert_invoice \<lparr>ii_invoice = 40, ii_audit = 41, ii_document = 42\<rparr> sample_bill v sample_shop = Inr db1"
    by (simp add: insert_invoice_def rest Let_def)
  have status: "cm_status sample_reviewed = Review_Ready" by (simp add: sample_reviewed_def sample_order_def)
  show ?thesis
    using v' insert_invoice_effect [OF db1]
    by (simp add: issue_once_def bill new ctx d row rest legal sample_billed sample_number v db1 status
        invoice_profile.post_init_id [OF sample_profile_wf] sample_action_def set_order_status_def del: existing_command_new)
      (simp add: sample_reviewed_def sample_order_def)
qed

theorem gapless_numbers_witness:
  "\<exists>db. (numbering_step sample_zones (fixed_zone 0))\<^sup>*\<^sup>* sample_shop db \<and> numbers_of 1 (sd_invoices db) = [lit ''LC-0007'']"
proof -
  obtain v db where run: "issue_once sample_zones (fixed_zone 0) \<lparr>ii_invoice = 40, ii_audit = 41, ii_document = 42\<rparr> sample_bill 21 740000
     sample_shop = Inr (v, db)" "sd_invoices db = [v]" "iv_action_id v = 1" using sample_shop_issue by blast
  then have steps: "(numbering_step sample_zones (fixed_zone 0))\<^sup>*\<^sup>* sample_shop db"
    using numbering_issue [OF run(1)] by blast
  have none: "sd_invoices sample_shop = []" "sd_profiles sample_shop 1 = Some sample_profile" by (simp_all add: sample_shop_def)
  from gapless_numbers [OF steps] none run(2,3) have "numbers_of 1 [v] = map (\<lambda>k. next_invoice_number (numbered sample_profile k)) [0..<length (numbers_of 1 [v])]"
    by fastforce
  moreover have "length (numbers_of 1 [v]) = 1" using run(3) by (simp add: numbers_of_def)
  ultimately have "numbers_of 1 (sd_invoices db) = [lit ''LC-0007'']" using run(2) sample_number by simp
  then show ?thesis using steps by blast
qed

theorem shared_series_blocks_witness:
  "\<exists>db. sd_invoices db \<noteq> [] \<and> (\<forall>ids cc c so w db3. cc_action_id cc = 2 \<longrightarrow>
     issue_once sample_zones (fixed_zone 0) ids cc c so db = Inr (w, db3) \<longrightarrow> answered db db3)"
proof -
  obtain v db where run: "issue_once sample_zones (fixed_zone 0) \<lparr>ii_invoice = 40, ii_audit = 41, ii_document = 42\<rparr> sample_bill 21 740000
     sample_shop = Inr (v, db)" "sd_invoices db = [v]" using sample_shop_issue by blast
  have shop: "sd_profiles sample_shop 1 = Some sample_profile" "sd_profiles sample_shop 2 = Some (sample_profile\<lparr>pf_action_id := 2\<rparr>)"
    "cc_action_id sample_bill = 1" "sd_invoices sample_shop = []"
    by (simp_all add: sample_shop_def sample_bill_def)
  have "\<not> answered (synchronize_invoice_profiles sample_fields (utc 0) sample_shop) db"
    using run(2) shop(4) answered_tables sample_synchronized by fastforce
  from shared_series_blocks [OF shop(1,2) _ _ _ shop(3) this rtranclp.rtrancl_refl [of "numbering_step sample_zones (fixed_zone 0)"]] run sample_synchronized
  show ?thesis by (intro exI [of _ db]) simp
qed

end
