(* ===== verification/Order_Capture.thy ===== *)
theory Order_Capture
  imports Order_Cancellation Invoice_Numbering
begin

text \<open>
  Capturing an order and completing a draft: the drafts and fingerprints of \<^verbatim>\<open>application/commitments.py\<close>,
  its service, and the transactions \<^verbatim>\<open>_create_once\<close>, \<^verbatim>\<open>_complete_once\<close> of
  \<^verbatim>\<open>adapters/postgres/commitments.py\<close> with the authorization of acquirers.  Prices come from the
  offerings of the action; a queued order must still cost what the acquirer saw.
\<close>

section \<open>Drafts\<close>

record line_draft =
  ld_offering_id :: uuid
  ld_quantity :: int
  ld_unit :: offering_unit
  ld_quoted_unit_price_minor :: "int option"

definition line_draft_init :: "line_draft \<Rightarrow> line_draft res" where
  "line_draft_init l =
     (if ld_quantity l \<le> 0 then Inl (Invariant ''commitment_line_quantity_invalid'')
      else if (case ld_quoted_unit_price_minor l of None \<Rightarrow> False | Some q \<Rightarrow> q < 0)
      then Inl (Invariant ''commitment_client_quote_invalid'') else Inr l)"

record order_draft =
  dr_buyer :: buyer_snapshot
  dr_invoice_recipient :: "invoice_recipient option"
  dr_lines :: "line_draft list"
  dr_delivery_recipient :: "delivery_recipient option"
  dr_message :: "pystr option"
  dr_delivery_window_id :: "uuid option"
  dr_delivery_contact :: "delivery_contact option"
  dr_allow_full_window :: bool
  dr_captured_at :: "datetime option"

definition order_draft_init :: "order_draft \<Rightarrow> order_draft res" where
  "order_draft_init raw =
     (let d = raw\<lparr>dr_delivery_contact := drop_empty_contact (dr_delivery_contact raw)\<rparr> in
      if dr_captured_at d \<noteq> None \<and> list_ex (\<lambda>l. ld_quoted_unit_price_minor l = None) (dr_lines d)
      then Inl (Invariant ''commitment_client_quote_required'')
      else if dr_lines d = [] then Inl (Invariant ''commitment_lines_required'')
      else if has_duplicate (map ld_offering_id (dr_lines d))
      then Inl (Invariant ''commitment_offering_duplicate'') else Inr d)"

record order_completion =
  cp_delivery_recipient :: "delivery_recipient option"
  cp_delivery_window_id :: "uuid option"
  cp_delivery_contact :: "delivery_contact option"
  cp_allow_full_window :: bool
  cp_captured_at :: "datetime option"

definition order_completion_init :: "order_completion \<Rightarrow> order_completion res" where
  "order_completion_init p = Inr (p\<lparr>cp_delivery_contact := drop_empty_contact (cp_delivery_contact p)\<rparr>)"

section \<open>Fingerprints\<close>

fun commitment_source_value :: "commitment_source \<Rightarrow> pystr" where
  "commitment_source_value From_Acquisition = lit ''acquisition''"
| "commitment_source_value From_Public_Form = lit ''public_form''"
| "commitment_source_value From_Admin = lit ''admin''"

text \<open>A capture time without a zone is read in the zone of the machine, here UTC; it is refused later.\<close>

definition captured_text :: "datetime \<Rightarrow> pystr res" where
  "captured_text d = then_res (to_utc d) (\<lambda>u. Inr (iso_datetime u))"

definition line_json :: "line_draft \<Rightarrow> json" where
  "line_json l = Js_Object [(lit ''offeringId'', js_uuid (ld_offering_id l)),
     (lit ''quantity'', Js_Scalar (JInt (ld_quantity l))), (lit ''unit'', js_text (offering_unit_value (ld_unit l)))]"

definition party_keys :: "string list" where
  "party_keys = [''displayName'', ''email'', ''partyKind'', ''twentyId'']"

definition quotes_json :: "line_draft list \<Rightarrow> json" where
  "quotes_json ls = Js_Object (map (\<lambda>l. (uuid_str (ld_offering_id l),
     js_opt (Js_Scalar \<circ> JInt) (ld_quoted_unit_price_minor l))) (sort_key (uint \<circ> ld_offering_id) ls))"

text \<open>Absent new fields are left out; the members stand in the order of their keys.\<close>

definition draft_json :: "uuid \<Rightarrow> commitment_source \<Rightarrow> commitment_status \<Rightarrow> pystr option \<Rightarrow> order_draft \<Rightarrow> json" where
  "draft_json action_id source status captured d = Js_Object (
     [(lit ''actionId'', js_uuid action_id), (lit ''buyer'', js_payload party_keys (buyer_payload (dr_buyer d)))]
     @ (case captured of None \<Rightarrow> [] | Some s \<Rightarrow> [(lit ''capturedAt'', js_text s)])
     @ (case dr_delivery_contact d of None \<Rightarrow> []
        | Some k \<Rightarrow> [(lit ''deliveryContact'', js_payload contact_keys (contact_payload k))])
     @ [(lit ''deliveryRecipient'', js_opt (js_payload address_keys \<circ> delivery_recipient_payload) (dr_delivery_recipient d))]
     @ (case dr_delivery_window_id d of None \<Rightarrow> [] | Some w \<Rightarrow> [(lit ''deliveryWindowId'', js_uuid w)])
     @ [(lit ''invoiceRecipient'', js_opt (js_payload address_keys \<circ> invoice_recipient_payload) (dr_invoice_recipient d)),
        (lit ''lines'', Js_List (map line_json (dr_lines d))), (lit ''message'', js_opt js_text (dr_message d))]
     @ (case captured of None \<Rightarrow> [] | Some s \<Rightarrow> [(lit ''quotedUnitPricesMinor'', quotes_json (dr_lines d))])
     @ [(lit ''source'', js_text (commitment_source_value source)),
        (lit ''status'', js_text (commitment_status_value status))])"

definition draft_fingerprint :: "uuid \<Rightarrow> commitment_source \<Rightarrow> commitment_status \<Rightarrow> order_draft \<Rightarrow> pystr res" where
  "draft_fingerprint action_id source status d =
     then_res (check_opt captured_text (dr_captured_at d)) (\<lambda>captured.
     text_digest (json_text (draft_json action_id source status captured d)))"

definition order_completion_json :: "uuid \<Rightarrow> uuid \<Rightarrow> uuid \<Rightarrow> pystr option \<Rightarrow> order_completion \<Rightarrow> json" where
  "order_completion_json action_id c actor captured p = Js_Object (
     [(lit ''actionId'', js_uuid action_id), (lit ''actorUserId'', js_uuid actor)]
     @ (case captured of None \<Rightarrow> [] | Some s \<Rightarrow> [(lit ''capturedAt'', js_text s)])
     @ [(lit ''commitmentId'', js_uuid c),
        (lit ''deliveryContact'', js_opt (js_payload contact_keys \<circ> contact_payload) (cp_delivery_contact p)),
        (lit ''deliveryRecipient'', js_opt (js_payload address_keys \<circ> delivery_recipient_payload) (cp_delivery_recipient p)),
        (lit ''deliveryWindowId'', js_opt js_uuid (cp_delivery_window_id p))])"

definition completion_fingerprint :: "uuid \<Rightarrow> uuid \<Rightarrow> uuid \<Rightarrow> order_completion \<Rightarrow> pystr res" where
  "completion_fingerprint action_id c actor p =
     then_res (check_opt captured_text (cp_captured_at p)) (\<lambda>captured.
     text_digest (json_text (order_completion_json action_id c actor captured p)))"

section \<open>Who may see an order\<close>

definition assigned :: "shop_db \<Rightarrow> uuid \<Rightarrow> uuid \<Rightarrow> buyer_snapshot \<Rightarrow> bool" where
  "assigned db action_id actor b \<longleftrightarrow>
     list_ex (\<lambda>(a, u, party). a = action_id \<and> u = actor \<and> party = (by_party_kind b, by_twenty_id b)) (sd_assignments db)"

definition require_assignment :: "shop_db \<Rightarrow> uuid \<Rightarrow> uuid \<Rightarrow> buyer_snapshot \<Rightarrow> unit res" where
  "require_assignment db action_id actor b =
     (if assigned db action_id actor b then Inr () else Inl (App Permission_Denied ''commitment_party_not_assigned''))"

definition own_order :: "shop_db \<Rightarrow> uuid \<Rightarrow> uuid \<Rightarrow> bool" where
  "own_order db c actor \<longleftrightarrow> list_ex (\<lambda>e. be_entity_type e = ''commitment'' \<and> be_entity_id e = c
     \<and> be_event_type e = ''commitment_created'' \<and> be_actor_user_id e = Some actor) (bd_audit (sd_board db))"

definition authorize_order :: "shop_db \<Rightarrow> uuid \<Rightarrow> uuid \<Rightarrow> uuid \<Rightarrow> bool \<Rightarrow> commitment res" where
  "authorize_order db action_id c actor as_manager =
     (case order_row db action_id c of
        None \<Rightarrow> Inl (App Resource_Not_Found ''commitment_not_found'')
      | Some row \<Rightarrow>
          if as_manager then Inr row
          else if cm_source row \<noteq> From_Acquisition \<or> \<not> own_order db c actor
          then Inl (App Permission_Denied ''commitment_owner_required'')
          else then_res (require_assignment db action_id actor (cm_buyer row)) (\<lambda>_. Inr row))"

section \<open>Prices\<close>

definition offerings_of :: "shop_db \<Rightarrow> uuid \<Rightarrow> uuid list \<Rightarrow> offering list res" where
  "offerings_of db action_id ids =
     (let rows = filter (\<lambda>f. off_action_id f = action_id \<and> off_id f \<in> set ids) (sd_offerings db) in
      if length rows \<noteq> length ids then Inl (App Resource_Not_Found ''commitment_offering_not_found'')
      else map_res offering_init rows)"

definition price_line :: "(uuid \<Rightarrow> uuid) \<Rightarrow> offering list \<Rightarrow> datetime \<Rightarrow> line_draft \<Rightarrow> commitment_line res" where
  "price_line fresh offerings at l =
     (case find (\<lambda>f. off_id f = ld_offering_id l) offerings of
        None \<Rightarrow> Inl Key_Error
      | Some f \<Rightarrow> price_from (fresh (ld_offering_id l)) f (ld_quantity l) (ld_unit l) at)"

definition total_of_lines :: "commitment_line list \<Rightarrow> money res" where
  "total_of_lines ls =
     then_res (money_init \<lparr>mo_amount = 0, mo_currency = mo_currency (cl_unit_price (hd ls))\<rparr>) (\<lambda>zero.
     sum_money zero (map cl_line_total ls))"

definition guard_quoted_prices :: "order_draft \<Rightarrow> commitment_line list \<Rightarrow> unit res" where
  "guard_quoted_prices d ls =
     (if list_all (\<lambda>l. map_of (rev (map (\<lambda>q. (ld_offering_id q, ld_quoted_unit_price_minor q)) (dr_lines d)))
           (cl_offering_id l) = Some (Some (mo_amount (cl_unit_price l)))) ls
      then Inr () else Inl (App Conflict ''commitment_price_changed''))"

section \<open>Capturing\<close>

definition order_event ::
  "uuid \<Rightarrow> command_context \<Rightarrow> string \<Rightarrow> uuid \<Rightarrow> (pystr \<times> json) list \<Rightarrow> board_event" where
  "order_event new_id cc event_type c members = \<lparr>be_id = new_id, be_action_id = cc_action_id cc,
     be_actor_user_id = Some (cc_actor_user_id cc), be_event_type = event_type, be_entity_type = ''commitment'',
     be_entity_id = c, be_request_id = cc_request_id cc, be_payload = Js_Object members,
     be_occurred_at = cc_occurred_at cc\<rparr>"

definition booked_members :: "bool \<Rightarrow> pystr option \<Rightarrow> (pystr \<times> json) list" where
  "booked_members full captured =
     (if full then [(lit ''fullWindowBooked'', Js_Scalar (JBool True))] else [])
     @ (case captured of None \<Rightarrow> [] | Some s \<Rightarrow> [(lit ''capturedAt'', js_text s)])"

definition stored_order :: "commitment \<Rightarrow> commitment" where
  "stored_order od = od\<lparr>cm_lines := sort_key (uint \<circ> cl_id) (cm_lines od)\<rparr>"

definition insert_order :: "uuid \<Rightarrow> command_context \<Rightarrow> commitment \<Rightarrow> bool \<Rightarrow> shop_db \<Rightarrow> shop_db res" where
  "insert_order audit_id cc od full db =
     then_res (check_opt captured_text (cm_captured_at od)) (\<lambda>captured.
     if list_ex (\<lambda>w. cm_id w = cm_id od) (bd_orders (sd_board db)) then Inl Unique_Violation
     else let bdb = sd_board db in
       Inr (db\<lparr>sd_board := add_event (order_event audit_id cc ''commitment_created'' (cm_id od)
              ([(lit ''source'', js_text (commitment_source_value (cm_source od))),
                (lit ''status'', js_text (commitment_status_value (cm_status od))),
                (lit ''lineCount'', Js_Scalar (JInt (int (length (cm_lines od))))),
                (lit ''totalMinor'', Js_Scalar (JInt (mo_amount (cm_total od)))),
                (lit ''currency'', js_text (mo_currency (cm_total od)))] @ booked_members full captured))
            (bdb\<lparr>bd_orders := bd_orders bdb @ [stored_order od]\<rparr>),
          sd_finance := complete_command ''create_commitment_v1'' cc ''commitmentId'' (cm_id od) (sd_finance db)\<rparr>))"

record order_ids =
  ni_order :: uuid
  ni_line :: "uuid \<Rightarrow> uuid"
  ni_audit :: uuid

definition open_for_orders :: "action_status set" where
  "open_for_orders = {Draft, Scheduled, Active}"

definition create_order_once ::
  "tz_database \<Rightarrow> order_ids \<Rightarrow> command_context \<Rightarrow> commitment_source \<Rightarrow> commitment_status \<Rightarrow> order_draft \<Rightarrow> datetime
   \<Rightarrow> shop_db \<Rightarrow> (commitment \<times> shop_db) res" where
  "create_order_once tzdb ids cc source status d now db =
     then_res (existing_command (sd_finance db) ''create_commitment_v1'' cc ''commitmentId'') (\<lambda>replayed.
     case replayed of
       Some c \<Rightarrow>
         then_res (authorize_order db (cc_action_id cc) c (cc_actor_user_id cc) (source = From_Admin)) (\<lambda>_.
         then_res (get_commitment db c True) (\<lambda>od. Inr (od, db)))
     | None \<Rightarrow>
     then_res (check_opt (\<lambda>t. bounded_captured_at t (cc_occurred_at cc)) (dr_captured_at d)) (\<lambda>captured.
     case bd_contexts (sd_board db) (cc_action_id cc) of
       None \<Rightarrow> Inl (App Resource_Not_Found ''commitment_action_not_found'')
     | Some x \<Rightarrow>
     if \<not> bx_ordering x then Inl (App Conflict ''commitment_ordering_disabled'')
     else if bx_status x \<notin> open_for_orders then Inl (App Conflict ''commitment_action_closed'')
     else then_res (if source = From_Acquisition
         then require_assignment db (cc_action_id cc) (cc_actor_user_id cc) (dr_buyer d) else Inr ()) (\<lambda>_.
     then_res (read_configuration tzdb (sd_board db) (cc_action_id cc)) (\<lambda>delivery.
     then_res (validate_order tzdb delivery (dr_delivery_window_id d) (dr_delivery_recipient d \<noteq> None)
         (dr_delivery_contact d) (status \<noteq> Commitment_Draft) now) (\<lambda>snapshot.
     then_res (if status \<noteq> Commitment_Draft
         then guard_window_booking (sd_board db) (dr_delivery_window_id d) (dr_allow_full_window d) else Inr False) (\<lambda>full.
     then_res (offerings_of db (cc_action_id cc) (map ld_offering_id (dr_lines d))) (\<lambda>offerings.
     then_res (map_res (price_line (ni_line ids) offerings (cc_occurred_at cc)) (dr_lines d)) (\<lambda>ls.
     then_res (total_of_lines ls) (\<lambda>total.
     then_res (if dr_captured_at d \<noteq> None then guard_quoted_prices d ls else Inr ()) (\<lambda>_.
     then_res (commitment_init \<lparr>cm_id = ni_order ids, cm_action_id = cc_action_id cc, cm_source = source,
         cm_status = status, cm_buyer = dr_buyer d, cm_invoice_recipient = dr_invoice_recipient d, cm_lines = ls,
         cm_total = total, cm_delivery_window_id = dr_delivery_window_id d, cm_delivery_window_snapshot = snapshot,
         cm_delivery_contact = dr_delivery_contact d, cm_delivery_recipient = dr_delivery_recipient d,
         cm_message = dr_message d, cm_public_reference = None, cm_idempotency_key = Some (cc_idempotency_key cc),
         cm_replayed = False, cm_captured_at = captured\<rparr>) (\<lambda>od.
     then_res (insert_order (ni_audit ids) cc od full db) (\<lambda>db'. Inr (od, db')))))))))))))"

section \<open>Completing a draft\<close>

definition update_order :: "uuid \<Rightarrow> (commitment \<Rightarrow> commitment) \<Rightarrow> shop_db \<Rightarrow> shop_db" where
  "update_order c f db = db\<lparr>sd_board := (sd_board db)\<lparr>bd_orders :=
     map (\<lambda>od. if cm_id od = c then f od else od) (bd_orders (sd_board db))\<rparr>\<rparr>"

text \<open>\<^verbatim>\<open>write_order_delivery\<close>: window, its snapshot and the contact of one order.\<close>

definition put_delivery :: "uuid option \<Rightarrow> text_dict option \<Rightarrow> delivery_contact option \<Rightarrow> commitment \<Rightarrow> commitment" where
  "put_delivery w snapshot contact od = od\<lparr>cm_delivery_window_id := w, cm_delivery_window_snapshot := snapshot,
     cm_delivery_contact := contact\<rparr>"

definition write_order_event :: "board_event \<Rightarrow> shop_db \<Rightarrow> shop_db" where
  "write_order_event e db = db\<lparr>sd_board := add_event e (sd_board db)\<rparr>"

definition complete_draft_once ::
  "tz_database \<Rightarrow> uuid \<Rightarrow> command_context \<Rightarrow> bool \<Rightarrow> uuid \<Rightarrow> order_completion \<Rightarrow> datetime \<Rightarrow> shop_db
   \<Rightarrow> (commitment \<times> shop_db) res" where
  "complete_draft_once tzdb audit_id cc as_manager c p now db =
     (case bd_contexts (sd_board db) (cc_action_id cc) of
        None \<Rightarrow> Inl (App Resource_Not_Found ''commitment_action_not_found'')
      | Some x \<Rightarrow>
     then_res (read_configuration tzdb (sd_board db) (cc_action_id cc)) (\<lambda>delivery.
     then_res (authorize_order db (cc_action_id cc) c (cc_actor_user_id cc) as_manager) (\<lambda>row.
     then_res (existing_command (sd_finance db) ''complete_commitment_v1'' cc ''commitmentId'') (\<lambda>replayed.
     case replayed of
       Some u \<Rightarrow> then_res (get_commitment db u True) (\<lambda>od. Inr (od, db))
     | None \<Rightarrow>
     then_res (check_opt (\<lambda>t. bounded_captured_at t (cc_occurred_at cc)) (cp_captured_at p)) (\<lambda>_.
     if cm_status row \<noteq> Commitment_Draft \<or> cm_source row = From_Public_Form
     then Inl (App Conflict ''commitment_not_draft'')
     else if \<not> bx_ordering x \<or> bx_status x \<notin> open_for_orders
     then Inl (App Conflict ''commitment_action_closed'')
     else then_res (validate_order tzdb delivery (cp_delivery_window_id p) (cp_delivery_recipient p \<noteq> None)
         (cp_delivery_contact p) True now) (\<lambda>snapshot.
     then_res (guard_window_booking (sd_board db) (cp_delivery_window_id p) (cp_allow_full_window p)) (\<lambda>full.
     then_res (check_opt captured_text (cp_captured_at p)) (\<lambda>captured.
     let db1 = update_order c (\<lambda>od. put_delivery (cp_delivery_window_id p) snapshot (cp_delivery_contact p)
           (od\<lparr>cm_status := Review_Ready, cm_delivery_recipient := cp_delivery_recipient p\<rparr>)) db;
         db2 = write_order_event (order_event audit_id cc ''commitment_completed'' c
           ([(lit ''previousStatus'', js_text (lit ''draft'')), (lit ''status'', js_text (lit ''review_ready''))]
            @ booked_members full captured)) db1;
         db3 = db2\<lparr>sd_finance := complete_command ''complete_commitment_v1'' cc ''commitmentId'' c (sd_finance db2)\<rparr>
     in then_res (get_commitment db3 c False) (\<lambda>od. Inr (od, db3))))))))))"

section \<open>The service\<close>

definition require_capture :: "identity_principal \<Rightarrow> uuid \<Rightarrow> unit res" where
  "require_capture actor action_id =
     (if \<not> can_authenticate (ip_account actor)
         \<or> (Acquirer \<notin> roles_for actor action_id \<and> \<not> may_manage_action actor action_id)
      then Inl (App Permission_Denied ''commitment_capture_required'') else Inr ())"

definition service_get_order :: "identity_principal \<Rightarrow> uuid \<Rightarrow> uuid \<Rightarrow> shop_db \<Rightarrow> commitment res" where
  "service_get_order actor action_id c db =
     then_res (require_capture actor action_id) (\<lambda>_.
     then_res (authorize_order db action_id c (ua_id (ip_account actor)) (may_manage_action actor action_id)) (\<lambda>_.
     get_commitment db c False))"

definition service_complete_draft ::
  "tz_database \<Rightarrow> uuid \<Rightarrow> identity_principal \<Rightarrow> uuid \<Rightarrow> uuid \<Rightarrow> order_completion \<Rightarrow> pystr \<Rightarrow> pystr \<Rightarrow> datetime \<Rightarrow> datetime
   \<Rightarrow> shop_db \<Rightarrow> (commitment \<times> shop_db) res" where
  "service_complete_draft tzdb audit_id actor action_id c p key request_id at now db =
     then_res (require_capture actor action_id) (\<lambda>_.
     if \<not> idempotency_key_ok key then Inl (Invariant ''commitment_idempotency_key_invalid'')
     else then_res (completion_fingerprint action_id c (ua_id (ip_account actor)) p) (\<lambda>hash.
       complete_draft_once tzdb audit_id \<lparr>cc_action_id = action_id, cc_actor_user_id = ua_id (ip_account actor),
         cc_idempotency_key = key, cc_request_hash = hash, cc_request_id = request_id, cc_occurred_at = at\<rparr>
         (may_manage_action actor action_id) c p now db))"

definition service_create_order ::
  "tz_database \<Rightarrow> order_ids \<Rightarrow> identity_principal \<Rightarrow> uuid \<Rightarrow> commitment_source \<Rightarrow> bool \<Rightarrow> order_draft \<Rightarrow> pystr \<Rightarrow> pystr
   \<Rightarrow> datetime \<Rightarrow> datetime \<Rightarrow> shop_db \<Rightarrow> (commitment \<times> shop_db) res" where
  "service_create_order tzdb ids actor action_id source ready_for_review d key request_id at now db =
     (if source = From_Public_Form then Inl (App Permission_Denied ''commitment_source_forbidden'')
      else if \<not> idempotency_key_ok key then Inl (Invariant ''commitment_idempotency_key_invalid'')
      else then_res (if source = From_Admin then require_action_manager actor action_id ''action_management_required''
          else if \<not> can_authenticate (ip_account actor) \<or> Acquirer \<notin> roles_for actor action_id
          then Inl (App Permission_Denied ''commitment_acquisition_required'') else Inr ()) (\<lambda>_.
        if dr_captured_at d \<noteq> None \<and> source \<noteq> From_Acquisition
        then Inl (Invariant ''captured_at_source_invalid'')
        else let status = (if ready_for_review then Review_Ready else Commitment_Draft) in
          then_res (draft_fingerprint action_id source status d) (\<lambda>hash.
          create_order_once tzdb ids \<lparr>cc_action_id = action_id, cc_actor_user_id = ua_id (ip_account actor),
            cc_idempotency_key = key, cc_request_hash = hash, cc_request_id = request_id, cc_occurred_at = at\<rparr>
            source status d now db)))"

section \<open>What is booked and charged\<close>

lemma validated_booking:
  assumes read: "read_configuration tzdb b a = Inr dv" and valid: "validate_order tzdb dv w addr contact complete now = Inr snap"
  shows "(\<exists>x. bd_contexts b a = Some x \<and> dc_enabled dv = bx_enabled x)"
    and "w = None \<longleftrightarrow> snap = None"
    and "w = Some wid \<Longrightarrow> dc_enabled dv \<and> (\<exists>r \<in> set (bd_windows b). wi_id r = wid \<and> wi_action_id r = a \<and> \<not> wi_retired r)"
    and "w = Some wid \<Longrightarrow> \<exists>v start stop. v \<in> set (dc_windows dv) \<and> dw_id v = wid
          \<and> window_bounds tzdb v (dc_timezone dv) = Inr (start, stop) \<and> instant now < instant start"
    and "dc_enabled dv \<Longrightarrow> complete \<Longrightarrow> addr \<and> w \<noteq> None"
    and "\<not> dc_enabled dv \<Longrightarrow> w = None \<and> contact = None"
proof -
  show "\<exists>x. bd_contexts b a = Some x \<and> dc_enabled dv = bx_enabled x"
    by (rule read_configuration_rows [OF read]) blast
  show "dc_enabled dv \<Longrightarrow> complete \<Longrightarrow> addr \<and> w \<noteq> None" "\<not> dc_enabled dv \<Longrightarrow> w = None \<and> contact = None"
    using valid by (auto simp: validate_order_def split: if_splits)
  show "w = None \<longleftrightarrow> snap = None" using valid by (auto simp: validate_order_def res_simps split: if_splits option.splits)
  assume w: "w = Some wid"
  obtain v where v: "select_window tzdb dv wid now = Inr v"
    using valid w by (auto simp: validate_order_def res_simps split: if_splits)
  then have "v \<in> set (dc_windows dv)" "dc_enabled dv" "dw_id v = wid" "\<not> dw_retired v"
    and "\<exists>start stop. window_bounds tzdb v (dc_timezone dv) = Inr (start, stop) \<and> instant now < instant start"
    by (auto simp: select_window_def dest!: first_window_Inr split: if_splits)
  then show "\<exists>v start stop. v \<in> set (dc_windows dv) \<and> dw_id v = wid
      \<and> window_bounds tzdb v (dc_timezone dv) = Inr (start, stop) \<and> instant now < instant start"
    by blast
  show "dc_enabled dv \<and> (\<exists>r \<in> set (bd_windows b). wi_id r = wid \<and> wi_action_id r = a \<and> \<not> wi_retired r)"
  proof -
    have "\<exists>r \<in> set (bd_windows b). wi_action_id r = a \<and> dw_id v = wi_id r \<and> dw_retired v = wi_retired r"
      by (rule read_configuration_rows [OF read]) (use \<open>v \<in> set (dc_windows dv)\<close> in blast)
    then show ?thesis using \<open>dc_enabled dv\<close> \<open>dw_id v = wid\<close> \<open>\<not> dw_retired v\<close> by auto
  qed
qed

lemma guarded_booking:
  "guard_window_booking b (Some w) allow = Inr full \<Longrightarrow> r \<in> set (bd_windows b) \<Longrightarrow> wi_id r = w \<Longrightarrow> wi_fully_booked r \<Longrightarrow> allow"
  by (auto simp: guard_window_booking_def list_ex_iff split: if_splits)

text \<open>A line is priced by an offering of the action that is on sale at that moment.\<close>

definition priced_by :: "shop_db \<Rightarrow> uuid \<Rightarrow> datetime \<Rightarrow> line_draft \<Rightarrow> commitment_line \<Rightarrow> bool" where
  "priced_by db a at q l \<longleftrightarrow> (\<exists>f \<in> set (sd_offerings db). off_id f = ld_offering_id q \<and> off_action_id f = a
     \<and> offering_available_at f at = Inr True \<and> ld_unit q = off_pricing_unit f \<and> cl_unit_price l = off_unit_price f
     \<and> cl_offering_id l = ld_offering_id q \<and> cl_quantity l = ld_quantity q \<and> cl_unit_snapshot l = ld_unit q
     \<and> cl_description_snapshot l = off_name f \<and> wf_commitment_line l
     \<and> mo_amount (cl_line_total l) = mo_amount (off_unit_price f) * ld_quantity q)"

lemma priced_lines:
  assumes "offerings_of db a ids = Inr fs" "map_res (price_line fresh fs at) qs = Inr ls"
  shows "list_all2 (priced_by db a at) qs ls"
proof -
  have rows: "\<exists>g \<in> set (sd_offerings db). off_action_id g = a \<and> f = g" if "f \<in> set fs" for f
    using assms(1) that by (auto simp: offerings_of_def Let_def offering_init_Inr dest!: map_res_set split: if_splits)
  have "priced_by db a at q l" if priced: "price_line fresh fs at q = Inr l" for q l
  proof -
    obtain f where f: "find (\<lambda>f. off_id f = ld_offering_id q) fs = Some f"
      "price_from (fresh (ld_offering_id q)) f (ld_quantity q) (ld_unit q) at = Inr l"
      using priced by (auto simp: price_line_def split: option.splits)
    then have "off_id f = ld_offering_id q" "f \<in> set fs" by (auto simp: find_Some_iff)
    moreover then obtain g where "g \<in> set (sd_offerings db)" "off_action_id g = a" "f = g" using rows by blast
    ultimately show ?thesis using f(2) unfolding priced_by_def
      by (intro bexI [of _ g]) (auto simp: price_from_def res_simps wf_commitment_line_def)
  qed
  then show ?thesis using assms(2) unfolding map_res_Inr_iff by (auto elim: list_all2_mono)
qed

lemma create_new:
  assumes run: "create_order_once tzdb ids cc source status d now db = Inr (od, db')"
    and new: "fd_receipts (sd_finance db) (cc_idempotency_key cc) = None"
  obtains x dv snapshot full fs ls total captured where
    "bd_contexts (sd_board db) (cc_action_id cc) = Some x" "bx_ordering x" "bx_status x \<in> open_for_orders"
    "source = From_Acquisition \<longrightarrow> assigned db (cc_action_id cc) (cc_actor_user_id cc) (dr_buyer d)"
    "read_configuration tzdb (sd_board db) (cc_action_id cc) = Inr dv"
    "validate_order tzdb dv (dr_delivery_window_id d) (dr_delivery_recipient d \<noteq> None) (dr_delivery_contact d)
       (status \<noteq> Commitment_Draft) now = Inr snapshot"
    "status \<noteq> Commitment_Draft \<longrightarrow> guard_window_booking (sd_board db) (dr_delivery_window_id d) (dr_allow_full_window d) = Inr full"
    "offerings_of db (cc_action_id cc) (map ld_offering_id (dr_lines d)) = Inr fs"
    "map_res (price_line (ni_line ids) fs (cc_occurred_at cc)) (dr_lines d) = Inr ls"
    "dr_captured_at d \<noteq> None \<longrightarrow> guard_quoted_prices d ls = Inr ()"
    "check_opt (\<lambda>t. bounded_captured_at t (cc_occurred_at cc)) (dr_captured_at d) = Inr captured"
    "commitment_init \<lparr>cm_id = ni_order ids, cm_action_id = cc_action_id cc, cm_source = source,
         cm_status = status, cm_buyer = dr_buyer d, cm_invoice_recipient = dr_invoice_recipient d, cm_lines = ls,
         cm_total = total, cm_delivery_window_id = dr_delivery_window_id d, cm_delivery_window_snapshot = snapshot,
         cm_delivery_contact = dr_delivery_contact d, cm_delivery_recipient = dr_delivery_recipient d,
         cm_message = dr_message d, cm_public_reference = None, cm_idempotency_key = Some (cc_idempotency_key cc),
         cm_replayed = False, cm_captured_at = captured\<rparr> = Inr od"
    "insert_order (ni_audit ids) cc od full db = Inr db'"
proof -
  have ex: "existing_command (sd_finance db) ''create_commitment_v1'' cc ''commitmentId'' = Inr None" using new by simp
  note run = run [unfolded create_order_once_def ex then_res_simps option.case]
  obtain captured where captured: "check_opt (\<lambda>t. bounded_captured_at t (cc_occurred_at cc)) (dr_captured_at d) = Inr captured"
    using run unfolding then_res_Inr_iff by blast
  note run = run [unfolded captured then_res_simps]
  obtain x where x: "bd_contexts (sd_board db) (cc_action_id cc) = Some x" using run by (auto split: option.splits)
  note run = run [unfolded x option.case]
  have guards: "bx_ordering x" "bx_status x \<in> open_for_orders" using run by (auto split: if_splits)
  then have passed: "\<not> \<not> bx_ordering x" "\<not> (bx_status x \<notin> open_for_orders)" by simp_all
  have assigned: "(if source = From_Acquisition then require_assignment db (cc_action_id cc) (cc_actor_user_id cc) (dr_buyer d)
      else Inr ()) = Inr ()"
    using run guards by (auto simp: then_res_Inr_iff)
  note run = run [unfolded if_not_P [OF passed(1)] if_not_P [OF passed(2)] assigned then_res_simps]
  obtain dv where dv: "read_configuration tzdb (sd_board db) (cc_action_id cc) = Inr dv" using run unfolding then_res_Inr_iff by blast
  note run = run [unfolded dv then_res_simps]
  obtain snapshot where snapshot: "validate_order tzdb dv (dr_delivery_window_id d) (dr_delivery_recipient d \<noteq> None) (dr_delivery_contact d)
       (status \<noteq> Commitment_Draft) now = Inr snapshot" using run unfolding then_res_Inr_iff by blast
  note run = run [unfolded snapshot then_res_simps]
  obtain full where full: "(if status \<noteq> Commitment_Draft
         then guard_window_booking (sd_board db) (dr_delivery_window_id d) (dr_allow_full_window d) else Inr False) = Inr full"
    using run unfolding then_res_Inr_iff by blast
  note run = run [unfolded full then_res_simps]
  obtain fs where fs: "offerings_of db (cc_action_id cc) (map ld_offering_id (dr_lines d)) = Inr fs"
    using run unfolding then_res_Inr_iff by blast
  note run = run [unfolded fs then_res_simps]
  obtain ls where ls: "map_res (price_line (ni_line ids) fs (cc_occurred_at cc)) (dr_lines d) = Inr ls"
    using run unfolding then_res_Inr_iff by blast
  note run = run [unfolded ls then_res_simps]
  obtain total where total: "total_of_lines ls = Inr total" using run unfolding then_res_Inr_iff by blast
  note run = run [unfolded total then_res_simps]
  obtain u where quotes: "(if dr_captured_at d \<noteq> None then guard_quoted_prices d ls else Inr ()) = Inr (u :: unit)"
    using run unfolding then_res_Inr_iff by blast
  note run = run [unfolded quotes then_res_simps then_res_Inr_iff]
  from run obtain od2 db2 where last: "commitment_init \<lparr>cm_id = ni_order ids, cm_action_id = cc_action_id cc, cm_source = source,
         cm_status = status, cm_buyer = dr_buyer d, cm_invoice_recipient = dr_invoice_recipient d, cm_lines = ls,
         cm_total = total, cm_delivery_window_id = dr_delivery_window_id d, cm_delivery_window_snapshot = snapshot,
         cm_delivery_contact = dr_delivery_contact d, cm_delivery_recipient = dr_delivery_recipient d,
         cm_message = dr_message d, cm_public_reference = None, cm_idempotency_key = Some (cc_idempotency_key cc),
         cm_replayed = False, cm_captured_at = captured\<rparr> = Inr od2" "insert_order (ni_audit ids) cc od2 full db = Inr db2"
    "od2 = od" "db2 = db'" by auto
  show ?thesis
    by (rule that [OF x guards _ dv snapshot _ fs ls _ captured last(1) [unfolded last(3)] last(2) [unfolded last(3,4)]])
      (use assigned full quotes in \<open>auto simp: require_assignment_def split: if_splits\<close>)
qed

lemma insert_order_effect:
  assumes "insert_order e cc od full db = Inr db'"
  shows "cm_id od \<notin> cm_id ` set (bd_orders (sd_board db))"
    "bd_orders (sd_board db') = bd_orders (sd_board db) @ [stored_order od]"
    "bd_deliveries (sd_board db') = bd_deliveries (sd_board db)" "bd_closures (sd_board db') = bd_closures (sd_board db)"
    "bd_windows (sd_board db') = bd_windows (sd_board db)" "bd_tasks (sd_board db') = bd_tasks (sd_board db)"
    "bd_follow_ups (sd_board db') = bd_follow_ups (sd_board db)" "bd_contexts (sd_board db') = bd_contexts (sd_board db)"
    "sd_finance db' = complete_command ''create_commitment_v1'' cc ''commitmentId'' (cm_id od) (sd_finance db)"
    "db' = db\<lparr>sd_board := sd_board db', sd_finance := sd_finance db'\<rparr>"
    "sd_board db' = (sd_board db)\<lparr>bd_orders := bd_orders (sd_board db'), bd_audit := bd_audit (sd_board db')\<rparr>"
proof -
  obtain captured where c: "check_opt captured_text (cm_captured_at od) = Inr captured"
    using assms by (auto simp: insert_order_def then_res_Inr_iff)
  have new: "\<not> list_ex (\<lambda>w. cm_id w = cm_id od) (bd_orders (sd_board db))"
    using assms c by (auto simp: insert_order_def split: if_splits)
  show "cm_id od \<notin> cm_id ` set (bd_orders (sd_board db))" using new by (auto simp: list_ex_iff)
  note run = assms [unfolded insert_order_def c then_res_simps if_not_P [OF new] Let_def sum.inject, symmetric]
  show "bd_orders (sd_board db') = bd_orders (sd_board db) @ [stored_order od]"
    "bd_deliveries (sd_board db') = bd_deliveries (sd_board db)" "bd_closures (sd_board db') = bd_closures (sd_board db)"
    "bd_windows (sd_board db') = bd_windows (sd_board db)" "bd_tasks (sd_board db') = bd_tasks (sd_board db)"
    "bd_follow_ups (sd_board db') = bd_follow_ups (sd_board db)" "bd_contexts (sd_board db') = bd_contexts (sd_board db)"
    "sd_finance db' = complete_command ''create_commitment_v1'' cc ''commitmentId'' (cm_id od) (sd_finance db)"
    "db' = db\<lparr>sd_board := sd_board db', sd_finance := sd_finance db'\<rparr>"
    "sd_board db' = (sd_board db)\<lparr>bd_orders := bd_orders (sd_board db'), bd_audit := bd_audit (sd_board db')\<rparr>"
    unfolding run by (simp_all add: add_event_def)
qed

lemma commitment_init_delivery:
  "commitment_init od = Inr od' \<Longrightarrow> cm_source od' = cm_source od \<and> cm_delivery_recipient od' = cm_delivery_recipient od
     \<and> cm_invoice_recipient od' = cm_invoice_recipient od \<and> cm_delivery_window_snapshot od' = cm_delivery_window_snapshot od
     \<and> cm_captured_at od' = cm_captured_at od \<and> cm_replayed od' = cm_replayed od"
  by (auto simp: commitment_init_def Let_def res_simps)

lemma quoted_lines:
  assumes "guard_quoted_prices d ls = Inr u" "distinct (map ld_offering_id (dr_lines d))"
    and "list_all2 (priced_by db a at) (dr_lines d) ls"
  shows "list_all2 (\<lambda>q l. ld_quoted_unit_price_minor q = Some (mo_amount (cl_unit_price l))) (dr_lines d) ls"
proof (rule list_all2_all_nthI)
  let ?q = "\<lambda>q. (ld_offering_id q, ld_quoted_unit_price_minor q)"
  show "length (dr_lines d) = length ls" using assms(3) by (rule list_all2_lengthD)
  fix i assume i: "i < length (dr_lines d)"
  then have l: "ls ! i \<in> set ls" and p: "priced_by db a at (dr_lines d ! i) (ls ! i)"
    using assms(3) by (auto simp: list_all2_conv_all_nth)
  have keys: "distinct (map fst (rev (map ?q (dr_lines d))))" using assms(2) by (simp add: rev_map [symmetric] comp_def)
  have "?q (dr_lines d ! i) \<in> set (rev (map ?q (dr_lines d)))" using i by simp
  then have "map_of (rev (map ?q (dr_lines d))) (ld_offering_id (dr_lines d ! i)) = Some (ld_quoted_unit_price_minor (dr_lines d ! i))"
    by (rule map_of_is_SomeI [OF keys])
  moreover have offer: "cl_offering_id (ls ! i) = ld_offering_id (dr_lines d ! i)" using p by (auto simp: priced_by_def)
  moreover have "map_of (rev (map ?q (dr_lines d))) (cl_offering_id (ls ! i)) = Some (Some (mo_amount (cl_unit_price (ls ! i))))"
    using assms(1) l by (auto simp: guard_quoted_prices_def list_all_iff split: if_splits)
  ultimately show "ld_quoted_unit_price_minor (dr_lines d ! i) = Some (mo_amount (cl_unit_price (ls ! i)))"
    using offer by simp
qed

text \<open>
  What a command on one order writes besides the orders: one audit event on that order, by the caller and at
  the time of the command, at the end of the log, and the receipt of its key.
\<close>

definition orders_only :: "command_context \<Rightarrow> string \<Rightarrow> uuid \<Rightarrow> shop_db \<Rightarrow> shop_db \<Rightarrow> bool" where
  "orders_only cc command c db db' \<longleftrightarrow> (\<exists>os event members. db' = db\<lparr>
     sd_board := (sd_board db)\<lparr>bd_orders := os,
       bd_audit := bd_audit (sd_board db) @ [order_event event cc (fst members) c (snd members)]\<rparr>,
     sd_finance := complete_command command cc ''commitmentId'' c (sd_finance db)\<rparr>)"

lemma orders_onlyI:
  "db' = db\<lparr>sd_board := (sd_board db)\<lparr>bd_orders := os, bd_audit := bd_audit (sd_board db) @ [order_event e cc t c ms]\<rparr>,
     sd_finance := complete_command command cc ''commitmentId'' c (sd_finance db)\<rparr> \<Longrightarrow> orders_only cc command c db db'"
  unfolding orders_only_def by (rule exI [of _ os], rule exI [of _ e], rule exI [of _ "(t, ms)"]) simp

lemma inserted_only:
  assumes "insert_order e cc od full db = Inr db'"
  shows "orders_only cc ''create_commitment_v1'' (cm_id od) db db'"
proof -
  obtain captured where c: "check_opt captured_text (cm_captured_at od) = Inr captured"
    using assms by (auto simp: insert_order_def then_res_Inr_iff)
  have new: "\<not> list_ex (\<lambda>w. cm_id w = cm_id od) (bd_orders (sd_board db))"
    using assms c by (auto simp: insert_order_def split: if_splits)
  note run = assms [unfolded insert_order_def c then_res_simps if_not_P [OF new] Let_def sum.inject, symmetric]
  show ?thesis by (rule orders_onlyI) (unfold run add_event_def, simp)
qed

text \<open>What the constructor of an order changes: it drops an empty contact and tidies the message.\<close>

lemma commitment_init_exact:
  "commitment_init od = Inr od' \<Longrightarrow> \<exists>m. normalized_message (cm_message od) = Inr m
     \<and> od' = od\<lparr>cm_delivery_contact := drop_empty_contact (cm_delivery_contact od), cm_message := m\<rparr>"
  by (auto simp: commitment_init_def Let_def res_simps)

text \<open>
  A window that can be booked now: as the schedule of the action reads, it begins after this moment.
\<close>

definition starts_later :: "tz_database \<Rightarrow> shop_db \<Rightarrow> uuid \<Rightarrow> uuid \<Rightarrow> datetime \<Rightarrow> bool" where
  "starts_later tzdb db a w now \<longleftrightarrow> (\<exists>dv v start stop. read_configuration tzdb (sd_board db) a = Inr dv
     \<and> v \<in> set (dc_windows dv) \<and> dw_id v = w
     \<and> window_bounds tzdb v (dc_timezone dv) = Inr (start, stop) \<and> instant now < instant start)"

text \<open>
  C37: A captured order is what was asked for at the server's prices.  It is made only while the action
  takes orders, by an acquirer only for a buyer assigned to them; every line is priced by an offering of
  the action on sale at that moment, the total is the exact sum, and a queued order is refused unless
  every quoted price still holds.  An order that is ready for review in an action with delivery has an
  address and a window.  A booked window belongs to the action, is not retired and begins after this moment;
  if it is full, booking it was confirmed, unless the order is a draft.  Recipients, contact (an empty one is dropped) and
  message (tidied) are those asked for.  The order is new; the new store is the old one with the order, with
  its lines by identifier, at the end of the orders, one audit event on it appended and the receipt of this key.
\<close>
theorem order_captured:
  assumes "create_order_once tzdb ids cc source status d now db = Inr (od, db')"
    and "fd_receipts (sd_finance db) (cc_idempotency_key cc) = None" "order_draft_init raw = Inr d"
  shows "(\<exists>x. bd_contexts (sd_board db) (cc_action_id cc) = Some x \<and> bx_ordering x \<and> bx_status x \<in> open_for_orders
        \<and> (bx_enabled x \<and> status \<noteq> Commitment_Draft \<longrightarrow> cm_delivery_recipient od \<noteq> None \<and> cm_delivery_window_id od \<noteq> None))
    \<and> (source = From_Acquisition \<longrightarrow> assigned db (cc_action_id cc) (cc_actor_user_id cc) (dr_buyer d))
    \<and> cm_id od = ni_order ids \<and> cm_action_id od = cc_action_id cc \<and> cm_status od = status \<and> cm_source od = source
    \<and> cm_buyer od = dr_buyer d \<and> cm_delivery_window_id od = dr_delivery_window_id d
    \<and> cm_invoice_recipient od = dr_invoice_recipient d \<and> cm_delivery_recipient od = dr_delivery_recipient d
    \<and> cm_delivery_contact od = drop_empty_contact (dr_delivery_contact d)
    \<and> normalized_message (dr_message d) = Inr (cm_message od)
    \<and> cm_public_reference od = None \<and> cm_idempotency_key od = Some (cc_idempotency_key cc)
    \<and> list_all2 (priced_by db (cc_action_id cc) (cc_occurred_at cc)) (dr_lines d) (cm_lines od)
    \<and> mo_amount (cm_total od) = sum_list (map (\<lambda>l. mo_amount (cl_unit_price l) * cl_quantity l) (cm_lines od))
    \<and> (dr_captured_at d \<noteq> None \<longrightarrow>
        list_all2 (\<lambda>q l. ld_quoted_unit_price_minor q = Some (mo_amount (cl_unit_price l))) (dr_lines d) (cm_lines od))
    \<and> (\<forall>w. dr_delivery_window_id d = Some w \<longrightarrow>
        (\<exists>r \<in> set (bd_windows (sd_board db)). wi_id r = w \<and> wi_action_id r = cc_action_id cc \<and> \<not> wi_retired r)
        \<and> starts_later tzdb db (cc_action_id cc) w now
        \<and> (status \<noteq> Commitment_Draft \<and> (\<exists>r \<in> set (bd_windows (sd_board db)). wi_id r = w \<and> wi_fully_booked r)
            \<longrightarrow> dr_allow_full_window d))
    \<and> cm_id od \<notin> cm_id ` set (bd_orders (sd_board db))
    \<and> bd_orders (sd_board db') = bd_orders (sd_board db) @ [stored_order od]
    \<and> orders_only cc ''create_commitment_v1'' (cm_id od) db db'"
proof -
  obtain x dv snapshot full fs ls total captured where c:
    "bd_contexts (sd_board db) (cc_action_id cc) = Some x" "bx_ordering x" "bx_status x \<in> open_for_orders"
    "source = From_Acquisition \<longrightarrow> assigned db (cc_action_id cc) (cc_actor_user_id cc) (dr_buyer d)"
    "read_configuration tzdb (sd_board db) (cc_action_id cc) = Inr dv"
    "validate_order tzdb dv (dr_delivery_window_id d) (dr_delivery_recipient d \<noteq> None) (dr_delivery_contact d)
       (status \<noteq> Commitment_Draft) now = Inr snapshot"
    "status \<noteq> Commitment_Draft \<longrightarrow> guard_window_booking (sd_board db) (dr_delivery_window_id d) (dr_allow_full_window d) = Inr full"
    "offerings_of db (cc_action_id cc) (map ld_offering_id (dr_lines d)) = Inr fs"
    "map_res (price_line (ni_line ids) fs (cc_occurred_at cc)) (dr_lines d) = Inr ls"
    "dr_captured_at d \<noteq> None \<longrightarrow> guard_quoted_prices d ls = Inr ()"
    "check_opt (\<lambda>t. bounded_captured_at t (cc_occurred_at cc)) (dr_captured_at d) = Inr captured"
    "commitment_init \<lparr>cm_id = ni_order ids, cm_action_id = cc_action_id cc, cm_source = source,
         cm_status = status, cm_buyer = dr_buyer d, cm_invoice_recipient = dr_invoice_recipient d, cm_lines = ls,
         cm_total = total, cm_delivery_window_id = dr_delivery_window_id d, cm_delivery_window_snapshot = snapshot,
         cm_delivery_contact = dr_delivery_contact d, cm_delivery_recipient = dr_delivery_recipient d,
         cm_message = dr_message d, cm_public_reference = None, cm_idempotency_key = Some (cc_idempotency_key cc),
         cm_replayed = False, cm_captured_at = captured\<rparr> = Inr od"
    "insert_order (ni_audit ids) cc od full db = Inr db'"
    by (rule create_new [OF assms(1,2)]) (rule that)
  note keep = commitment_init_keeps [OF c(12), simplified] commitment_init_delivery [OF c(12), simplified]
  note ins = insert_order_effect [OF c(13)]
  note booking = validated_booking [OF c(5,6)]
  have enabled: "dc_enabled dv = bx_enabled x" using booking(1) c(1) by simp
  have draft: "distinct (map ld_offering_id (dr_lines d))"
    using assms(3) by (auto simp: order_draft_init_def Let_def has_duplicate_iff split: if_splits)
  have priced: "list_all2 (priced_by db (cc_action_id cc) (cc_occurred_at cc)) (dr_lines d) ls"
    by (rule priced_lines [OF c(8,9)])
  have lines: "list_all wf_commitment_line (cm_lines od)"
    using priced keep by (auto simp: list_all2_conv_all_nth list_all_length priced_by_def)
  have "mo_amount (cm_total od) = sum_list (map (\<lambda>l. mo_amount (cl_unit_price l) * cl_quantity l) (cm_lines od))"
    using commitment_total [OF commitment_init_wf [OF c(12)] lines] by blast
  moreover have "dr_captured_at d \<noteq> None \<longrightarrow>
      list_all2 (\<lambda>q l. ld_quoted_unit_price_minor q = Some (mo_amount (cl_unit_price l))) (dr_lines d) (cm_lines od)"
    using quoted_lines [OF _ draft priced] c(10) keep by simp
  moreover have "bx_enabled x \<and> status \<noteq> Commitment_Draft \<longrightarrow> cm_delivery_recipient od \<noteq> None \<and> cm_delivery_window_id od \<noteq> None"
    using booking(5) enabled keep by auto
  moreover have "(\<exists>r \<in> set (bd_windows (sd_board db)). wi_id r = w \<and> wi_action_id r = cc_action_id cc \<and> \<not> wi_retired r)
      \<and> (status \<noteq> Commitment_Draft \<and> (\<exists>r \<in> set (bd_windows (sd_board db)). wi_id r = w \<and> wi_fully_booked r)
          \<longrightarrow> dr_allow_full_window d)" if "dr_delivery_window_id d = Some w" for w
  proof -
    have "status \<noteq> Commitment_Draft \<Longrightarrow> guard_window_booking (sd_board db) (Some w) (dr_allow_full_window d) = Inr full"
      using c(7) that by simp
    from guarded_booking [OF this] show ?thesis using booking(3) [OF that] by blast
  qed
  moreover have "starts_later tzdb db (cc_action_id cc) w now" if "dr_delivery_window_id d = Some w" for w
    unfolding starts_later_def using booking(4) [OF that] c(5) by blast
  moreover have "orders_only cc ''create_commitment_v1'' (cm_id od) db db'"
    by (rule inserted_only [OF c(13)])
  moreover have "cm_invoice_recipient od = dr_invoice_recipient d" "cm_delivery_recipient od = dr_delivery_recipient d"
    "cm_delivery_contact od = drop_empty_contact (dr_delivery_contact d)"
    "normalized_message (dr_message d) = Inr (cm_message od)"
    "cm_public_reference od = None" "cm_idempotency_key od = Some (cc_idempotency_key cc)"
    using commitment_init_exact [OF c(12)] by auto
  ultimately show ?thesis using c(1-4) keep ins(1,2) priced by simp
qed

lemma complete_draft_new:
  assumes run: "complete_draft_once tzdb e cc as_manager c p now db = Inr (od, db')"
    and new: "fd_receipts (sd_finance db) (cc_idempotency_key cc) = None"
  obtains x dv row snapshot full captured db3 where
    "bd_contexts (sd_board db) (cc_action_id cc) = Some x" "bx_ordering x" "bx_status x \<in> open_for_orders"
    "read_configuration tzdb (sd_board db) (cc_action_id cc) = Inr dv"
    "authorize_order db (cc_action_id cc) c (cc_actor_user_id cc) as_manager = Inr row"
    "cm_status row = Commitment_Draft" "cm_source row \<noteq> From_Public_Form"
    "validate_order tzdb dv (cp_delivery_window_id p) (cp_delivery_recipient p \<noteq> None) (cp_delivery_contact p) True now = Inr snapshot"
    "guard_window_booking (sd_board db) (cp_delivery_window_id p) (cp_allow_full_window p) = Inr full"
    "db3 = write_order_event (order_event e cc ''commitment_completed'' c
           ([(lit ''previousStatus'', js_text (lit ''draft'')), (lit ''status'', js_text (lit ''review_ready''))]
            @ booked_members full captured)) (update_order c (\<lambda>od. put_delivery (cp_delivery_window_id p) snapshot (cp_delivery_contact p)
           (od\<lparr>cm_status := Review_Ready, cm_delivery_recipient := cp_delivery_recipient p\<rparr>)) db)"
    "db' = db3\<lparr>sd_finance := complete_command ''complete_commitment_v1'' cc ''commitmentId'' c (sd_finance db3)\<rparr>"
    "get_commitment db' c False = Inr od"
proof -
  obtain x where x: "bd_contexts (sd_board db) (cc_action_id cc) = Some x"
    using run by (auto simp: complete_draft_once_def split: option.splits)
  have ex: "existing_command (sd_finance db) ''complete_commitment_v1'' cc ''commitmentId'' = Inr None" using new by simp
  note run = run [unfolded complete_draft_once_def x option.case]
  obtain dv where dv: "read_configuration tzdb (sd_board db) (cc_action_id cc) = Inr dv" using run unfolding then_res_Inr_iff by blast
  note run = run [unfolded dv then_res_simps]
  obtain row where row: "authorize_order db (cc_action_id cc) c (cc_actor_user_id cc) as_manager = Inr row"
    using run unfolding then_res_Inr_iff by blast
  note run = run [unfolded row ex then_res_simps option.case]
  obtain t where t: "check_opt (\<lambda>t. bounded_captured_at t (cc_occurred_at cc)) (cp_captured_at p) = Inr t"
    using run unfolding then_res_Inr_iff by blast
  note run = run [unfolded t then_res_simps]
  have guards: "\<not> (cm_status row \<noteq> Commitment_Draft \<or> cm_source row = From_Public_Form)"
    "\<not> (\<not> bx_ordering x \<or> bx_status x \<notin> open_for_orders)" using run by (auto split: if_splits)
  note run = run [unfolded if_not_P [OF guards(1)] if_not_P [OF guards(2)]]
  obtain snapshot where snapshot: "validate_order tzdb dv (cp_delivery_window_id p) (cp_delivery_recipient p \<noteq> None)
      (cp_delivery_contact p) True now = Inr snapshot" using run unfolding then_res_Inr_iff by blast
  note run = run [unfolded snapshot then_res_simps]
  obtain full where full: "guard_window_booking (sd_board db) (cp_delivery_window_id p) (cp_allow_full_window p) = Inr full"
    using run unfolding then_res_Inr_iff by blast
  note run = run [unfolded full then_res_simps]
  obtain captured where captured: "check_opt captured_text (cp_captured_at p) = Inr captured"
    using run unfolding then_res_Inr_iff by blast
  note run = run [unfolded captured then_res_simps Let_def then_res_Inr_iff]
  show ?thesis
    by (rule that [OF x _ _ dv row _ _ snapshot full refl]) (use guards run in auto)
qed

lemma authorized:
  assumes "authorize_order db a c actor as_manager = Inr row"
  shows "row \<in> set (bd_orders (sd_board db))" "cm_id row = c" "cm_action_id row = a"
    "as_manager \<or> cm_source row = From_Acquisition \<and> own_order db c actor \<and> assigned db a actor (cm_buyer row)"
  using assms by (auto simp: authorize_order_def require_assignment_def order_row_def find_Some_iff then_res_Inr_iff
      split: option.splits if_splits)

lemma update_order_tables:
  "bd_orders (sd_board (update_order c f db)) = map (\<lambda>od. if cm_id od = c then f od else od) (bd_orders (sd_board db))"
  "sd_board (update_order c f db) = (sd_board db)\<lparr>bd_orders := bd_orders (sd_board (update_order c f db))\<rparr>"
  "update_order c f db = db\<lparr>sd_board := sd_board (update_order c f db)\<rparr>"
  "sd_finance (update_order c f db) = sd_finance db"
  by (simp_all add: update_order_def)

text \<open>
  C38: Completing a draft fixes its delivery and nothing else.  It takes a draft that did not come from the
  public form, while the action takes orders; an acquirer completes only an own order of a buyer still
  assigned to them.  In the rows of this order the status becomes ready for review, and address, window,
  the snapshot of the window and contact become those given; every other field of them and all
  other orders stay as they were, and the answer has the lines, prices, total and recipients stored.  There are address and window where the action delivers; the window
  belongs to the action, is not retired, begins after this moment and is full only when that was
  confirmed.  Besides, one audit event on the order is appended and the receipt of this key is written.
\<close>
theorem draft_completed:
  assumes "complete_draft_once tzdb e cc as_manager c p now db = Inr (od, db')"
    and "fd_receipts (sd_finance db) (cc_idempotency_key cc) = None" "order_ids_ok (sd_board db)"
  shows "\<exists>row \<in> set (bd_orders (sd_board db)). cm_id row = c \<and> cm_action_id row = cc_action_id cc
    \<and> cm_status row = Commitment_Draft \<and> cm_source row \<noteq> From_Public_Form
    \<and> (as_manager \<or> cm_source row = From_Acquisition \<and> own_order db c (cc_actor_user_id cc)
        \<and> assigned db (cc_action_id cc) (cc_actor_user_id cc) (cm_buyer row))
    \<and> cm_status od = Review_Ready \<and> cm_id od = c \<and> cm_lines od = cm_lines row \<and> cm_total od = cm_total row \<and> cm_buyer od = cm_buyer row
    \<and> cm_invoice_recipient od = cm_invoice_recipient row \<and> cm_delivery_window_id od = cp_delivery_window_id p
    \<and> cm_delivery_recipient od = cp_delivery_recipient p
    \<and> (\<exists>x. bd_contexts (sd_board db) (cc_action_id cc) = Some x \<and> bx_ordering x \<and> bx_status x \<in> open_for_orders
        \<and> (bx_enabled x \<longrightarrow> cm_delivery_recipient od \<noteq> None \<and> cm_delivery_window_id od \<noteq> None))
    \<and> (\<forall>w. cp_delivery_window_id p = Some w \<longrightarrow>
        (\<exists>r \<in> set (bd_windows (sd_board db)). wi_id r = w \<and> wi_action_id r = cc_action_id cc \<and> \<not> wi_retired r)
        \<and> starts_later tzdb db (cc_action_id cc) w now
        \<and> ((\<exists>r \<in> set (bd_windows (sd_board db)). wi_id r = w \<and> wi_fully_booked r) \<longrightarrow> cp_allow_full_window p))
    \<and> (\<exists>dv snapshot. read_configuration tzdb (sd_board db) (cc_action_id cc) = Inr dv
        \<and> validate_order tzdb dv (cp_delivery_window_id p) (cp_delivery_recipient p \<noteq> None) (cp_delivery_contact p) True now
            = Inr snapshot
        \<and> bd_orders (sd_board db') = map (\<lambda>v. if cm_id v = c then v\<lparr>cm_status := Review_Ready,
              cm_delivery_recipient := cp_delivery_recipient p, cm_delivery_window_id := cp_delivery_window_id p,
              cm_delivery_window_snapshot := snapshot, cm_delivery_contact := cp_delivery_contact p\<rparr> else v)
            (bd_orders (sd_board db)))
    \<and> orders_only cc ''complete_commitment_v1'' c db db'"
proof -
  obtain x dv row snapshot full captured db3 where k:
    "bd_contexts (sd_board db) (cc_action_id cc) = Some x" "bx_ordering x" "bx_status x \<in> open_for_orders"
    "read_configuration tzdb (sd_board db) (cc_action_id cc) = Inr dv"
    "authorize_order db (cc_action_id cc) c (cc_actor_user_id cc) as_manager = Inr row"
    "cm_status row = Commitment_Draft" "cm_source row \<noteq> From_Public_Form"
    "validate_order tzdb dv (cp_delivery_window_id p) (cp_delivery_recipient p \<noteq> None) (cp_delivery_contact p) True now = Inr snapshot"
    "guard_window_booking (sd_board db) (cp_delivery_window_id p) (cp_allow_full_window p) = Inr full"
    "db3 = write_order_event (order_event e cc ''commitment_completed'' c
           ([(lit ''previousStatus'', js_text (lit ''draft'')), (lit ''status'', js_text (lit ''review_ready''))]
            @ booked_members full captured)) (update_order c (\<lambda>od. put_delivery (cp_delivery_window_id p) snapshot (cp_delivery_contact p)
           (od\<lparr>cm_status := Review_Ready, cm_delivery_recipient := cp_delivery_recipient p\<rparr>)) db)"
    "db' = db3\<lparr>sd_finance := complete_command ''complete_commitment_v1'' cc ''commitmentId'' c (sd_finance db3)\<rparr>"
    "get_commitment db' c False = Inr od"
    by (rule complete_draft_new [OF assms(1,2)]) (rule that)
  define f where "f = (\<lambda>od. put_delivery (cp_delivery_window_id p) snapshot (cp_delivery_contact p)
           (od\<lparr>cm_status := Review_Ready, cm_delivery_recipient := cp_delivery_recipient p\<rparr>))"
  note a = authorized [OF k(5)]
  note booking = validated_booking [OF k(4,8)]
  have enabled: "dc_enabled dv = bx_enabled x" using booking(1) k(1) by simp
  have orders: "bd_orders (sd_board db') = map (\<lambda>v. if cm_id v = c then f v else v) (bd_orders (sd_board db))"
    unfolding k(11) k(10) by (simp add: write_order_event_def update_order_def f_def)
  have f: "cm_id (f v) = cm_id v" for v by (simp add: f_def put_delivery_def)
  obtain stored where s: "stored \<in> set (bd_orders (sd_board db'))" "cm_id stored = c"
    "commitment_init (stored\<lparr>cm_replayed := False\<rparr>) = Inr od"
    by (rule get_commitment_row [OF k(12)])
  obtain v where v: "v \<in> set (bd_orders (sd_board db))" "stored = (if cm_id v = c then f v else v)"
    using s(1) unfolding orders set_map by blast
  then have "cm_id v = cm_id row" using s(2) f a(2) by (simp split: if_splits)
  then have "stored = f row" using order_by_id [OF assms(3) v(1) a(1)] v(2) a(2) by simp
  note keep = commitment_init_keeps [OF s(3)] commitment_init_delivery [OF s(3)]
  have "cm_status od = Review_Ready" "cm_id od = c" "cm_lines od = cm_lines row" "cm_total od = cm_total row"
    "cm_buyer od = cm_buyer row" "cm_invoice_recipient od = cm_invoice_recipient row"
    "cm_delivery_window_id od = cp_delivery_window_id p" "cm_delivery_recipient od = cp_delivery_recipient p"
    using keep \<open>stored = f row\<close> a(2) by (simp_all add: f_def put_delivery_def)
  moreover have "orders_only cc ''complete_commitment_v1'' c db db'"
    by (rule orders_onlyI) (simp add: k(10,11) write_order_event_def update_order_def add_event_def complete_command_def)
  moreover have "bd_orders (sd_board db') = map (\<lambda>v. if cm_id v = c then v\<lparr>cm_status := Review_Ready,
              cm_delivery_recipient := cp_delivery_recipient p, cm_delivery_window_id := cp_delivery_window_id p,
              cm_delivery_window_snapshot := snapshot, cm_delivery_contact := cp_delivery_contact p\<rparr> else v)
            (bd_orders (sd_board db))"
    unfolding orders f_def put_delivery_def by (rule refl)
  moreover have "starts_later tzdb db (cc_action_id cc) w now" if "cp_delivery_window_id p = Some w" for w
    unfolding starts_later_def using booking(4) [OF that] k(4) by blast
  moreover have "(\<exists>r \<in> set (bd_windows (sd_board db)). wi_id r = w \<and> wi_action_id r = cc_action_id cc \<and> \<not> wi_retired r)
        \<and> ((\<exists>r \<in> set (bd_windows (sd_board db)). wi_id r = w \<and> wi_fully_booked r) \<longrightarrow> cp_allow_full_window p)"
    if "cp_delivery_window_id p = Some w" for w
    using booking(3) [OF that] guarded_booking [OF k(9) [unfolded that]] by blast
  ultimately show ?thesis using a k(1-4,6-8) booking(5) enabled by (intro bexI [of _ row]) auto
qed

section \<open>The properties at a concrete shop\<close>

definition sample_capture_shop :: shop_db where
  "sample_capture_shop = sample_shop\<lparr>sd_offerings := [sample_off]\<rparr>"

definition sample_draft :: order_draft where
  "sample_draft = \<lparr>dr_buyer = sample_buyer, dr_invoice_recipient = None,
     dr_lines = [\<lparr>ld_offering_id = 3, ld_quantity = 4, ld_unit = Box, ld_quoted_unit_price_minor = None\<rparr>],
     dr_delivery_recipient = None, dr_message = None, dr_delivery_window_id = None, dr_delivery_contact = None,
     dr_allow_full_window = False, dr_captured_at = None\<rparr>"

definition sample_new_ids :: order_ids where
  "sample_new_ids = \<lparr>ni_order = 77, ni_line = (\<lambda>i. i + 100), ni_audit = 78\<rparr>"

definition sample_capture :: command_context where
  "sample_capture = sample_bill\<lparr>cc_occurred_at := utc 10\<rparr>"

lemma sample_capture_facts:
  "bd_contexts (sd_board sample_shop) 1 = Some ((sample_action 1)\<lparr>bx_enabled := False, bx_ends_on := 800000\<rparr>)"
  "fd_receipts (sd_finance sample_shop) = Map.empty" "cc_action_id sample_capture = 1" "cc_occurred_at sample_capture = utc 10"
  by (simp_all add: sample_shop_def empty_finance_def sample_capture_def sample_bill_def)

lemma sample_priced:
  "price_from 103 sample_off 4 Box (utc 10) = Inr \<lparr>cl_id = 103, cl_offering_id = 3, cl_description_snapshot = lit ''Stollen'',
     cl_quantity = 4, cl_unit_snapshot = Box, cl_pieces_per_unit_snapshot = Some 6, cl_unit_price = sample_price,
     cl_line_total = sample_price\<lparr>mo_amount := 5000\<rparr>\<rparr>"
  using sample_price_wf sample_texts(2)
  by (simp add: price_from_def sample_off_def offering_available_at_def offering_time_aware_def res_simps wf_commitment_line_def)
    (simp add: sample_price_def)

theorem order_captured_witness:
  "\<exists>od db'. create_order_once sample_zones sample_new_ids sample_capture From_Admin Review_Ready sample_draft (utc 0)
     sample_capture_shop = Inr (od, db') \<and> mo_amount (cm_total od) = 5000"
proof -
  obtain dv where dv: "read_configuration sample_zones (sd_board sample_shop) 1 = Inr dv" "\<not> dc_enabled dv"
    using sample_shop_plan by blast
  let ?line = "\<lparr>cl_id = 103, cl_offering_id = 3, cl_description_snapshot = lit ''Stollen'',
     cl_quantity = 4, cl_unit_snapshot = Box, cl_pieces_per_unit_snapshot = Some 6, cl_unit_price = sample_price,
     cl_line_total = sample_price\<lparr>mo_amount := 5000\<rparr>\<rparr>"
  let ?total = "sample_price\<lparr>mo_amount := 5000\<rparr>"
  have money: "wf_money sample_price" by (rule sample_price_wf)
  have total: "total_of_lines [?line] = Inr ?total"
    using money by (simp add: total_of_lines_def money_init_def sum_money_def money_plus_def wf_money_def sample_price_def)
  let ?od = "\<lparr>cm_id = 77, cm_action_id = 1, cm_source = From_Admin, cm_status = Review_Ready, cm_buyer = sample_buyer,
      cm_invoice_recipient = None, cm_lines = [?line], cm_total = ?total, cm_delivery_window_id = None,
      cm_delivery_window_snapshot = None, cm_delivery_contact = None, cm_delivery_recipient = None, cm_message = None,
      cm_public_reference = None, cm_idempotency_key = Some (cc_idempotency_key sample_capture), cm_replayed = False,
      cm_captured_at = None\<rparr>"
  have "wf_commitment ?od"
    using money by (simp add: wf_commitment_def delivery_snapshot_ok_def sum_money_def money_plus_def money_init_def wf_money_def sample_price_def)
  then have init: "commitment_init ?od = Inr ?od" by (rule commitment_init_id)
  have off: "off_id sample_off = 3" "off_action_id sample_off = 1" by (simp_all add: sample_off_def)
  have fs: "offerings_of sample_capture_shop 1 [3] = Inr [sample_off]"
    using offering.post_init_id [OF sample_off_wf] off by (simp add: offerings_of_def sample_capture_shop_def)
  have ls: "map_res (price_line (\<lambda>i. i + 100) [sample_off] (utc 10)) (dr_lines sample_draft) = Inr [?line]"
    using sample_priced by (simp add: sample_draft_def price_line_def off)
  obtain db1 where ins: "insert_order 78 sample_capture ?od False sample_capture_shop = Inr db1"
    by (simp add: insert_order_def sample_capture_shop_def Let_def) (simp add: sample_shop_def sample_reviewed_def sample_order_def)
  have draft: "dr_buyer sample_draft = sample_buyer" "dr_invoice_recipient sample_draft = None" "dr_delivery_recipient sample_draft = None"
    "dr_message sample_draft = None" "dr_delivery_window_id sample_draft = None" "dr_delivery_contact sample_draft = None"
    "dr_captured_at sample_draft = None" "map ld_offering_id (dr_lines sample_draft) = [3]"
    by (simp_all add: sample_draft_def)
  have shop: "sd_board sample_capture_shop = sd_board sample_shop" "sd_finance sample_capture_shop = sd_finance sample_shop"
    by (simp_all add: sample_capture_shop_def)
  have open_action: "bx_ordering (sample_action 1)" "bx_status (sample_action 1) = Active" by (simp_all add: sample_action_def)
  have run: "\<exists>db'. create_order_once sample_zones sample_new_ids sample_capture From_Admin Review_Ready sample_draft (utc 0)
     sample_capture_shop = Inr (?od, db')"
    by (simp add: create_order_once_def ins existing_command_def shop sample_capture_facts dv draft validate_order_def guard_window_booking_def
        open_for_orders_def open_action fs ls total init sample_new_ids_def del: existing_command_new)
  then obtain db' where run: "create_order_once sample_zones sample_new_ids sample_capture From_Admin Review_Ready sample_draft (utc 0)
     sample_capture_shop = Inr (?od, db')" by blast
  have accepted: "order_draft_init sample_draft = Inr sample_draft"
    by (simp add: order_draft_init_def sample_draft_def drop_empty_contact_def)
  have "mo_amount (cm_total ?od) = 5000"
    using order_captured [OF run _ accepted] by (simp add: shop sample_capture_facts sample_price_def)
  then show ?thesis using run by blast
qed

definition sample_draft_shop :: shop_db where
  "sample_draft_shop = sample_shop\<lparr>sd_board := (sd_board sample_shop)\<lparr>bd_orders := [sample_order Commitment_Draft]\<rparr>\<rparr>"

lemma read_configuration_cong:
  assumes "bd_contexts b = bd_contexts b'" "bd_windows b = bd_windows b'"
  shows "read_configuration tzdb b a = read_configuration tzdb b' a"
  unfolding read_configuration_def window_rows_def assms ..

lemma sample_draft_plan: "\<exists>d. read_configuration sample_zones (sd_board sample_draft_shop) 1 = Inr d \<and> \<not> dc_enabled d"
proof -
  have "read_configuration sample_zones (sd_board sample_draft_shop) 1 = read_configuration sample_zones (sd_board sample_shop) 1"
    by (rule read_configuration_cong) (simp_all add: sample_draft_shop_def)
  then show ?thesis using sample_shop_plan by simp
qed

theorem draft_completed_witness:
  "\<exists>od db'. complete_draft_once sample_zones 78 sample_capture True 21 \<lparr>cp_delivery_recipient = None, cp_delivery_window_id = None,
     cp_delivery_contact = None, cp_allow_full_window = False, cp_captured_at = None\<rparr> (utc 0) sample_draft_shop = Inr (od, db')
     \<and> cm_status od = Review_Ready"
proof -
  let ?p = "\<lparr>cp_delivery_recipient = None, cp_delivery_window_id = None,
     cp_delivery_contact = None, cp_allow_full_window = False, cp_captured_at = None\<rparr>"
  obtain dv where dv: "read_configuration sample_zones (sd_board sample_draft_shop) 1 = Inr dv" "\<not> dc_enabled dv"
    using sample_draft_plan by blast
  have order: "bd_orders (sd_board sample_draft_shop) = [sample_order Commitment_Draft]"
    "bd_contexts (sd_board sample_draft_shop) = bd_contexts (sd_board sample_shop)"
    "fd_receipts (sd_finance sample_draft_shop) = Map.empty"
    by (simp_all add: sample_draft_shop_def sample_capture_facts)
  have row: "order_row sample_draft_shop 1 21 = Some (sample_order Commitment_Draft)"
    by (simp add: order_row_def order) (simp add: sample_order_def)
  have fields: "cm_status (sample_order Commitment_Draft) = Commitment_Draft" "cm_source (sample_order Commitment_Draft) = From_Admin"
    "cm_id (sample_order Commitment_Draft) = 21"
    by (simp_all add: sample_order_def)
  have updated: "put_delivery None None None (sample_order Commitment_Draft\<lparr>cm_status := Review_Ready, cm_delivery_recipient := None\<rparr>)
      \<lparr>cm_replayed := False\<rparr> = sample_order Review_Ready"
    by (simp add: put_delivery_def sample_order_def)
  have open_action: "bx_ordering (sample_action 1)" "bx_status (sample_action 1) = Active" by (simp_all add: sample_action_def)
  have "\<exists>od db'. complete_draft_once sample_zones 78 sample_capture True 21 ?p (utc 0) sample_draft_shop = Inr (od, db')"
    by (simp add: complete_draft_once_def sample_capture_facts order dv authorize_order_def row existing_command_def fields open_action
        open_for_orders_def validate_order_def guard_window_booking_def Let_def get_commitment_def write_order_event_def add_event_def
        update_order_def updated commitment.post_init_id [OF sample_order_wf] put_delivery_def [symmetric] del: existing_command_new)
      (simp add: put_delivery_def fields updated [unfolded put_delivery_def, simplified] commitment.post_init_id [OF sample_order_wf])
  then obtain od db' where run: "complete_draft_once sample_zones 78 sample_capture True 21 ?p (utc 0) sample_draft_shop = Inr (od, db')" by blast
  have "order_ids_ok (sd_board sample_draft_shop)" by (simp add: order_ids_ok_def order)
  then have "cm_status od = Review_Ready" using draft_completed [OF run] by (auto simp: order)
  then show ?thesis using run by blast
qed

end
