(* ===== verification/Iso_Time.thy ===== *)
theory Iso_Time
  imports Calendar_Time
begin

text \<open>
  Reading an ISO 8601 text back: \<^verbatim>\<open>datetime.fromisoformat\<close> on the texts \<^verbatim>\<open>isoformat\<close> writes, which are the only
  ones the program stores (\<^verbatim>\<open>startsAt\<close> of an order's delivery window); any other text is an error here.
\<close>

section \<open>The ordinal of a date\<close>

definition leap_year :: "int \<Rightarrow> bool" where
  "leap_year y \<longleftrightarrow> y mod 4 = 0 \<and> (y mod 100 \<noteq> 0 \<or> y mod 400 = 0)"

definition days_before_year :: "int \<Rightarrow> int" where
  "days_before_year y = (let p = y - 1 in p * 365 + p div 4 - p div 100 + p div 400)"

definition month_days :: "int \<Rightarrow> int \<Rightarrow> int" where
  "month_days y m = (if m = 2 \<and> leap_year y then 29 else days_in_month ! nat (m - 1))"

definition ordinal :: "int \<times> int \<times> int \<Rightarrow> date" where
  "ordinal = (\<lambda>(y, m, d). days_before_year y + days_before_month ! nat (m - 1)
     + (if m > 2 \<and> leap_year y then 1 else 0) + d)"

section \<open>Reading\<close>

definition iso_number :: "pystr \<Rightarrow> int option" where
  "iso_number s = (if s \<noteq> [] \<and> list_all is_09 s then Some (foldl (\<lambda>a c. 10 * a + (c - 48)) 0 s) else None)"

text \<open>A field of fixed width that ends with a separator, and the rest.\<close>

definition iso_field :: "nat \<Rightarrow> int \<Rightarrow> int \<Rightarrow> pystr \<Rightarrow> int option" where
  "iso_field n lo hi s = (case iso_number (take n s) of
     Some v \<Rightarrow> if length (take n s) = n \<and> lo \<le> v \<and> v \<le> hi then Some v else None | None \<Rightarrow> None)"

definition read_date :: "pystr \<Rightarrow> date option" where
  "read_date s =
     (if length s \<noteq> 10 \<or> s ! 4 \<noteq> 45 \<or> s ! 7 \<noteq> 45 then None
      else case (iso_field 4 1 9999 s, iso_field 2 1 12 (drop 5 s)) of
        (Some y, Some m) \<Rightarrow> map_option (\<lambda>d. ordinal (y, m, d)) (iso_field 2 1 (month_days y m) (drop 8 s))
      | _ \<Rightarrow> None)"

text \<open>Hours and minutes, seconds and microseconds as far as they are written, in microseconds.\<close>

definition read_fraction :: "pystr \<Rightarrow> int option" where
  "read_fraction s =
     (case s of [] \<Rightarrow> Some 0 | c # ds \<Rightarrow> if c = 46 \<and> length ds = 6 then iso_number ds else None)"

definition read_clock :: "pystr \<Rightarrow> int option" where
  "read_clock s =
     (if length s < 5 \<or> s ! 2 \<noteq> 58 then None
      else case (iso_field 2 0 23 s, iso_field 2 0 59 (drop 3 s)) of
        (Some h, Some m) \<Rightarrow>
          (if length s = 5 then Some ((h * 60 + m) * 60 * 1000000)
           else if s ! 5 \<noteq> 58 then None
           else case (iso_field 2 0 59 (drop 6 s), read_fraction (drop 8 s)) of
             (Some sec, Some f) \<Rightarrow> Some (((h * 60 + m) * 60 + sec) * 1000000 + f)
           | _ \<Rightarrow> None)
      | _ \<Rightarrow> None)"

definition read_offset :: "pystr \<Rightarrow> int option option" where
  "read_offset s =
     (case s of [] \<Rightarrow> Some None
      | c # t \<Rightarrow> map_option (\<lambda>a. Some (if c = 45 then - a else a)) (read_clock t))"

definition from_iso :: "pystr \<Rightarrow> datetime res" where
  "from_iso s =
     (let rest = drop 11 s; time = takeWhile (\<lambda>c. c \<noteq> 43 \<and> c \<noteq> 45) rest in
      if length s < 11 then Inl Value_Error
      else case (read_date (take 10 s), read_clock time, read_offset (drop (length time) rest)) of
        (Some d, Some t, Some off) \<Rightarrow> Inr (DateTime (midnight d + t) off)
      | _ \<Rightarrow> Inl Value_Error)"

end
