(* ===== verification/Order_Completion.thy ===== *)
theory Order_Completion
  imports Order_Capture Iso_Time
begin

text \<open>
  Completing delivery and billing details by a manager: \<^verbatim>\<open>application/delivery_completion.py\<close> and the
  transaction \<^verbatim>\<open>_complete_once\<close> of \<^verbatim>\<open>adapters/postgres/delivery_completion.py\<close>.  The command is bound to the
  version of the order the manager saw and never moves a booked window.
\<close>

section \<open>Requests\<close>

record delivery_completion =
  cd_expected_version :: pystr
  cd_invoice_recipient :: invoice_recipient
  cd_delivery_recipient :: "delivery_recipient option"
  cd_delivery_window_id :: "uuid option"
  cd_delivery_contact :: "delivery_contact option"
  cd_allow_full_window :: bool

definition delivery_completion_init :: "delivery_completion \<Rightarrow> delivery_completion res" where
  "delivery_completion_init d =
     (if \<not> version_ok (cd_expected_version d) then Inl (Invariant ''delivery_completion_version_invalid'')
      else Inr (d\<lparr>cd_delivery_contact := drop_empty_contact (cd_delivery_contact d)\<rparr>))"

definition delivery_completion_json :: "uuid \<Rightarrow> uuid \<Rightarrow> uuid \<Rightarrow> delivery_completion \<Rightarrow> json" where
  "delivery_completion_json action_id c actor d = Js_Object [
     (lit ''actionId'', js_uuid action_id), (lit ''actorUserId'', js_uuid actor), (lit ''commitmentId'', js_uuid c),
     (lit ''deliveryContact'', js_opt (js_payload contact_keys \<circ> contact_payload) (cd_delivery_contact d)),
     (lit ''deliveryRecipient'', js_opt (js_payload address_keys \<circ> delivery_recipient_payload) (cd_delivery_recipient d)),
     (lit ''deliveryWindowId'', js_opt js_uuid (cd_delivery_window_id d)),
     (lit ''expectedVersion'', js_text (cd_expected_version d)),
     (lit ''invoiceRecipient'', js_payload address_keys (invoice_recipient_payload (cd_invoice_recipient d)))]"

definition delivery_completion_fingerprint :: "uuid \<Rightarrow> uuid \<Rightarrow> uuid \<Rightarrow> delivery_completion \<Rightarrow> pystr res" where
  "delivery_completion_fingerprint action_id c actor d = text_digest (json_text (delivery_completion_json action_id c actor d))"

section \<open>The transaction\<close>

text \<open>The window of the order: a booked one stays, with the address required again; otherwise the
  manager may choose one, also a past one.  Snapshot, historical, full window booked on purpose.\<close>

definition kept_window_full :: "shop_db \<Rightarrow> commitment \<Rightarrow> delivery_completion \<Rightarrow> datetime \<Rightarrow> bool res" where
  "kept_window_full db od d now =
     then_res (case cm_delivery_window_snapshot od of
         None \<Rightarrow> Inr None
       | Some snap \<Rightarrow> (case snap ''startsAt'' of
           None \<Rightarrow> Inl Key_Error | Some s \<Rightarrow> then_res (from_iso s) (\<lambda>t. Inr (Some t)))) (\<lambda>starts_at.
     if cm_status od \<noteq> Commitment_Draft then Inr False
     else case starts_at of
       None \<Rightarrow> Inr False
     | Some t \<Rightarrow>
         if aware t \<noteq> aware now then Inl Type_Error
         else if instant t > instant now
         then guard_window_booking (sd_board db) (cm_delivery_window_id od) (cd_allow_full_window d)
         else Inr False)"

definition completion_window ::
  "tz_database \<Rightarrow> delivery_configuration \<Rightarrow> shop_db \<Rightarrow> commitment \<Rightarrow> delivery_completion \<Rightarrow> datetime
   \<Rightarrow> (text_dict option \<times> bool \<times> bool) res" where
  "completion_window tzdb delivery db od d now =
     (if cm_delivery_window_id od \<noteq> None then
        if cd_delivery_window_id d \<noteq> cm_delivery_window_id od
        then Inl (App Conflict ''delivery_completion_reschedule_forbidden'')
        else if cd_delivery_recipient d = None then Inl (Invariant ''delivery_required'')
        else then_res (kept_window_full db od d now) (\<lambda>full. Inr (cm_delivery_window_snapshot od, False, full))
      else
        then_res (validate_manager_completion tzdb delivery (cd_delivery_window_id d) (cd_delivery_recipient d \<noteq> None)
            (cd_delivery_contact d) now) (\<lambda>(snapshot, historical).
        then_res (if historical then Inr False
            else guard_window_booking (sd_board db) (cd_delivery_window_id d) (cd_allow_full_window d)) (\<lambda>full.
        Inr (snapshot, historical, full))))"

definition completed_order :: "delivery_completion \<Rightarrow> text_dict option \<Rightarrow> commitment \<Rightarrow> commitment" where
  "completed_order d snapshot od = put_delivery (cd_delivery_window_id d) snapshot (cd_delivery_contact d)
     (od\<lparr>cm_status := Review_Ready, cm_invoice_recipient := Some (cd_invoice_recipient d),
        cm_delivery_recipient := cd_delivery_recipient d\<rparr>)"

definition complete_delivery_once ::
  "tz_database \<Rightarrow> uuid \<Rightarrow> command_context \<Rightarrow> uuid \<Rightarrow> delivery_completion \<Rightarrow> datetime \<Rightarrow> shop_db
   \<Rightarrow> (commitment \<times> shop_db) res" where
  "complete_delivery_once tzdb audit_id cc c d now db =
     (case bd_contexts (sd_board db) (cc_action_id cc) of
        None \<Rightarrow> Inl (App Resource_Not_Found ''commitment_action_not_found'')
      | Some x \<Rightarrow>
     then_res (read_configuration tzdb (sd_board db) (cc_action_id cc)) (\<lambda>delivery.
     then_res (existing_command (sd_finance db) ''complete_delivery_v1'' cc ''commitmentId'') (\<lambda>replayed.
     case replayed of
       Some u \<Rightarrow> if u \<noteq> c then Inl (App Conflict ''idempotency_conflict'')
         else then_res (get_commitment db u True) (\<lambda>od. Inr (od, db))
     | None \<Rightarrow>
     if bx_status x = Archived then Inl (App Conflict ''delivery_action_archived'')
     else if order_row db (cc_action_id cc) c = None then Inl (App Resource_Not_Found ''commitment_not_found'')
     else then_res (get_commitment db c False) (\<lambda>od.
     if cm_status od \<notin> {Commitment_Draft, Review_Ready} then Inl (App Conflict ''delivery_completion_closed'')
     else if sd_invoice_of db c \<noteq> None then Inl (App Conflict ''delivery_completion_invoiced'')
     else then_res (delivery_completion_version od) (\<lambda>version.
     if version \<noteq> cd_expected_version d then Inl (App Conflict ''delivery_completion_conflict'')
     else if cm_status od = Commitment_Draft \<and> (\<not> bx_ordering x \<or> bx_status x \<notin> insert Completed open_for_orders)
     then Inl (App Conflict ''commitment_action_closed'')
     else then_res (completion_window tzdb delivery db od d now) (\<lambda>(snapshot, historical, full).
     let db1 = update_order c (completed_order d snapshot) db;
         db2 = write_order_event (order_event audit_id cc ''commitment_delivery_completed'' c
           ([(lit ''previousStatus'', js_text (commitment_status_value (cm_status od))),
             (lit ''status'', js_text (lit ''review_ready'')), (lit ''historical'', Js_Scalar (JBool historical))]
            @ booked_members full None)) db1;
         db3 = db2\<lparr>sd_finance := complete_command ''complete_delivery_v1'' cc ''commitmentId'' c (sd_finance db2)\<rparr>
     in then_res (get_commitment db3 c False) (\<lambda>answer. Inr (answer, db3))))))))"

definition service_complete_delivery ::
  "tz_database \<Rightarrow> uuid \<Rightarrow> identity_principal \<Rightarrow> uuid \<Rightarrow> uuid \<Rightarrow> delivery_completion \<Rightarrow> pystr \<Rightarrow> pystr \<Rightarrow> datetime \<Rightarrow> datetime
   \<Rightarrow> shop_db \<Rightarrow> (commitment \<times> shop_db) res" where
  "service_complete_delivery tzdb audit_id actor action_id c d key request_id at now db =
     then_res (require_action_manager actor action_id ''delivery_completion_manager_required'') (\<lambda>_.
     if \<not> idempotency_key_ok key then Inl (Invariant ''commitment_idempotency_key_invalid'')
     else then_res (delivery_completion_fingerprint action_id c (ua_id (ip_account actor)) d) (\<lambda>hash.
       complete_delivery_once tzdb audit_id \<lparr>cc_action_id = action_id, cc_actor_user_id = ua_id (ip_account actor),
         cc_idempotency_key = key, cc_request_hash = hash, cc_request_id = request_id, cc_occurred_at = at\<rparr> c d now db))"

section \<open>What a completion does\<close>

lemma manager_booking:
  assumes read: "read_configuration tzdb b a = Inr dv"
    and valid: "validate_manager_completion tzdb dv w addr contact now = Inr (snap, hist)"
  shows "w = None \<longleftrightarrow> snap = None"
    and "w = Some wid \<Longrightarrow> \<exists>r \<in> set (bd_windows b). wi_id r = wid \<and> wi_action_id r = a \<and> (hist \<or> \<not> wi_retired r)"
    and "dc_enabled dv \<Longrightarrow> addr \<and> w \<noteq> None"
proof -
  have cases: "(\<not> hist \<and> validate_order tzdb dv w addr contact True now = Inr snap)
    \<or> (hist \<and> addr \<and> (\<exists>wid v s. w = Some wid \<and> select_historical tzdb dv wid now = Inr v \<and> snap = Some s))"
    using valid by (auto simp: validate_manager_completion_def Let_def then_res_Inr_iff split: option.splits if_splits)
  show "w = None \<longleftrightarrow> snap = None"
  proof (cases hist)
    case False
    then have "validate_order tzdb dv w addr contact True now = Inr snap" using cases by blast
    from validated_booking(2) [OF read this] show ?thesis .
  qed (use cases in auto)
  show "addr \<and> w \<noteq> None" if "dc_enabled dv"
  proof (cases hist)
    case False
    then have "validate_order tzdb dv w addr contact True now = Inr snap" using cases by blast
    from validated_booking(5) [OF read this that] show ?thesis by simp
  qed (use cases in auto)
  assume w: "w = Some wid"
  show "\<exists>r \<in> set (bd_windows b). wi_id r = wid \<and> wi_action_id r = a \<and> (hist \<or> \<not> wi_retired r)"
  proof (cases hist)
    case False
    then show ?thesis using cases validated_booking(3) [OF read _ w] by blast
  next
    case True
    then obtain v where "select_historical tzdb dv wid now = Inr v" using cases w by auto
    then have v: "v \<in> set (dc_windows dv)" "dw_id v = wid"
      by (auto simp: select_historical_def dest!: first_window_Inr split: if_splits)
    have "\<exists>r \<in> set (bd_windows b). wi_action_id r = a \<and> dw_id v = wi_id r \<and> dw_retired v = wi_retired r"
      by (rule read_configuration_rows [OF read]) (use v(1) in blast)
    then show ?thesis using v(2) True by auto
  qed
qed

lemma completed_window:
  assumes read: "read_configuration tzdb (sd_board db) a = Inr dv"
    and run: "completion_window tzdb dv db od d now = Inr (snap, hist, full)"
  shows "cm_delivery_window_id od \<noteq> None \<Longrightarrow> cd_delivery_window_id d = cm_delivery_window_id od
      \<and> snap = cm_delivery_window_snapshot od \<and> cd_delivery_recipient d \<noteq> None"
    and "cm_delivery_window_id od = None \<Longrightarrow> cd_delivery_window_id d = Some wid \<Longrightarrow>
      \<exists>r \<in> set (bd_windows (sd_board db)). wi_id r = wid \<and> wi_action_id r = a"
    and "cm_delivery_window_id od = None \<Longrightarrow> dc_enabled dv \<Longrightarrow> cd_delivery_recipient d \<noteq> None \<and> cd_delivery_window_id d \<noteq> None"
    and "cm_delivery_window_id od = None \<Longrightarrow> (cd_delivery_window_id d = None \<longleftrightarrow> snap = None)"
proof -
  show "cm_delivery_window_id od \<noteq> None \<Longrightarrow> cd_delivery_window_id d = cm_delivery_window_id od
      \<and> snap = cm_delivery_window_snapshot od \<and> cd_delivery_recipient d \<noteq> None"
    using run by (auto simp: completion_window_def then_res_Inr_iff split: if_splits)
  assume none: "cm_delivery_window_id od = None"
  then have v: "validate_manager_completion tzdb dv (cd_delivery_window_id d) (cd_delivery_recipient d \<noteq> None)
      (cd_delivery_contact d) now = Inr (snap, hist)"
    using run by (auto simp: completion_window_def then_res_Inr_iff)
  note m = manager_booking [OF read v]
  show "cd_delivery_window_id d = Some wid \<Longrightarrow> \<exists>r \<in> set (bd_windows (sd_board db)). wi_id r = wid \<and> wi_action_id r = a"
    using m(2) by blast
  show "dc_enabled dv \<Longrightarrow> cd_delivery_recipient d \<noteq> None \<and> cd_delivery_window_id d \<noteq> None" using m(3) by blast
  show "cd_delivery_window_id d = None \<longleftrightarrow> snap = None" by (rule m(1))
qed

lemma complete_delivery_new:
  assumes run: "complete_delivery_once tzdb e cc c d now db = Inr (answer, db')"
    and new: "fd_receipts (sd_finance db) (cc_idempotency_key cc) = None"
  obtains x dv row od snapshot hist full ms where
    "bd_contexts (sd_board db) (cc_action_id cc) = Some x" "bx_status x \<noteq> Archived"
    "read_configuration tzdb (sd_board db) (cc_action_id cc) = Inr dv"
    "order_row db (cc_action_id cc) c = Some row" "get_commitment db c False = Inr od"
    "cm_status od \<in> {Commitment_Draft, Review_Ready}" "sd_invoice_of db c = None"
    "delivery_completion_version od = Inr (cd_expected_version d)"
    "completion_window tzdb dv db od d now = Inr (snapshot, hist, full)"
    "db' = (write_order_event (order_event e cc ''commitment_delivery_completed'' c ms) (update_order c (completed_order d snapshot) db))
        \<lparr>sd_finance := complete_command ''complete_delivery_v1'' cc ''commitmentId'' c (sd_finance db)\<rparr>"
    "get_commitment db' c False = Inr answer"
proof -
  obtain x where x: "bd_contexts (sd_board db) (cc_action_id cc) = Some x"
    using run by (auto simp: complete_delivery_once_def split: option.splits)
  have ex: "existing_command (sd_finance db) ''complete_delivery_v1'' cc ''commitmentId'' = Inr None" using new by simp
  note run = run [unfolded complete_delivery_once_def x option.case ex then_res_simps]
  obtain dv where dv: "read_configuration tzdb (sd_board db) (cc_action_id cc) = Inr dv" using run unfolding then_res_Inr_iff by blast
  note run = run [unfolded dv then_res_simps]
  have live: "\<not> bx_status x = Archived" and "order_row db (cc_action_id cc) c \<noteq> None" using run by (auto split: if_splits)
  then obtain row where row: "order_row db (cc_action_id cc) c = Some row" by blast
  then have found: "\<not> order_row db (cc_action_id cc) c = None" by simp
  note run = run [unfolded if_not_P [OF live] if_not_P [OF found]]
  obtain od where od: "get_commitment db c False = Inr od" using run unfolding then_res_Inr_iff by blast
  note run = run [unfolded od then_res_simps]
  have open_order: "\<not> cm_status od \<notin> {Commitment_Draft, Review_Ready}" "\<not> sd_invoice_of db c \<noteq> None"
    using run by (auto split: if_splits)
  note run = run [unfolded if_not_P [OF open_order(1)] if_not_P [OF open_order(2)]]
  obtain version where version: "delivery_completion_version od = Inr version" using run unfolding then_res_Inr_iff by blast
  note run = run [unfolded version then_res_simps]
  have guards: "\<not> version \<noteq> cd_expected_version d"
    "\<not> (cm_status od = Commitment_Draft \<and> (\<not> bx_ordering x \<or> bx_status x \<notin> insert Completed open_for_orders))"
    using run by (auto split: if_splits)
  note run = run [unfolded if_not_P [OF guards(1)] if_not_P [OF guards(2)]]
  obtain snapshot hist full where window: "completion_window tzdb dv db od d now = Inr (snapshot, hist, full)"
    using run unfolding then_res_Inr_iff by (metis prod_cases3)
  note run = run [unfolded window then_res_simps prod.case Let_def then_res_Inr_iff]
  show ?thesis
    by (rule that [OF x live dv row od _ _ _ window, where ms = "([(lit ''previousStatus'', js_text (commitment_status_value (cm_status od))),
             (lit ''status'', js_text (lit ''review_ready'')), (lit ''historical'', Js_Scalar (JBool hist))]
            @ booked_members full None)"])
      (use open_order guards(1) version run in \<open>auto simp: write_order_event_def update_order_def\<close>)
qed

lemma completed_orders:
  assumes "db' = (write_order_event (order_event e cc t c ms) (update_order c f db))
      \<lparr>sd_finance := complete_command command cc ''commitmentId'' c (sd_finance db)\<rparr>"
  shows "bd_orders (sd_board db') = map (\<lambda>v. if cm_id v = c then f v else v) (bd_orders (sd_board db))"
    "orders_only cc command c db db'"
proof -
  show "bd_orders (sd_board db') = map (\<lambda>v. if cm_id v = c then f v else v) (bd_orders (sd_board db))"
    by (simp add: assms write_order_event_def update_order_def)
  show "orders_only cc command c db db'"
    by (rule orders_onlyI) (simp add: assms write_order_event_def update_order_def add_event_def complete_command_def)
qed

lemma completed_order_keeps:
  "cm_id (completed_order d s v) = cm_id v" "cm_action_id (completed_order d s v) = cm_action_id v"
  "cm_lines (completed_order d s v) = cm_lines v" "cm_total (completed_order d s v) = cm_total v"
  "cm_buyer (completed_order d s v) = cm_buyer v" "cm_source (completed_order d s v) = cm_source v"
  "cm_status (completed_order d s v) = Review_Ready" "cm_delivery_window_id (completed_order d s v) = cd_delivery_window_id d"
  "cm_delivery_window_snapshot (completed_order d s v) = s" "cm_delivery_recipient (completed_order d s v) = cd_delivery_recipient d"
  "cm_invoice_recipient (completed_order d s v) = Some (cd_invoice_recipient d)"
  by (simp_all add: completed_order_def put_delivery_def)

text \<open>
  C39: A manager's completion changes the order it was made against and only its delivery and billing
  details.  The order was a draft or ready for review, not invoiced, and its version was the one the
  manager saw.  Afterwards it is ready for review with the invoice recipient given; buyer, lines, prices and
  total are untouched; a window that was booked is still booked with the same snapshot, and a new one
  belongs to the action; where the action delivers there are address and window.  No other order and no invoice,
  payment, delivery or task changes; one audit event on the order and the receipt of the key are written.
\<close>
theorem delivery_completed:
  assumes "complete_delivery_once tzdb e cc c d now db = Inr (answer, db')"
    and "fd_receipts (sd_finance db) (cc_idempotency_key cc) = None" "order_ids_ok (sd_board db)"
  shows "\<exists>row \<in> set (bd_orders (sd_board db)). cm_id row = c \<and> cm_action_id row = cc_action_id cc
    \<and> cm_status row \<in> {Commitment_Draft, Review_Ready} \<and> sd_invoice_of db c = None
    \<and> (\<exists>od. get_commitment db c False = Inr od \<and> delivery_completion_version od = Inr (cd_expected_version d))
    \<and> cm_status answer = Review_Ready \<and> cm_invoice_recipient answer = Some (cd_invoice_recipient d)
    \<and> cm_lines answer = cm_lines row \<and> cm_total answer = cm_total row \<and> cm_buyer answer = cm_buyer row
    \<and> (cm_delivery_window_id row \<noteq> None \<longrightarrow> cm_delivery_window_id answer = cm_delivery_window_id row
        \<and> cm_delivery_window_snapshot answer = cm_delivery_window_snapshot row)
    \<and> (\<forall>w. cm_delivery_window_id row = None \<and> cm_delivery_window_id answer = Some w \<longrightarrow>
        (\<exists>r \<in> set (bd_windows (sd_board db)). wi_id r = w \<and> wi_action_id r = cc_action_id cc))
    \<and> (\<forall>x. bd_contexts (sd_board db) (cc_action_id cc) = Some x \<and> bx_enabled x \<longrightarrow>
        cm_delivery_recipient answer \<noteq> None \<and> cm_delivery_window_id answer \<noteq> None)
    \<and> orders_only cc ''complete_delivery_v1'' c db db' \<and> (\<forall>v \<in> set (bd_orders (sd_board db)). cm_id v \<noteq> c \<longrightarrow> v \<in> set (bd_orders (sd_board db')))"
proof -
  obtain x dv row od snapshot hist full ms where k:
    "bd_contexts (sd_board db) (cc_action_id cc) = Some x" "bx_status x \<noteq> Archived"
    "read_configuration tzdb (sd_board db) (cc_action_id cc) = Inr dv"
    "order_row db (cc_action_id cc) c = Some row" "get_commitment db c False = Inr od"
    "cm_status od \<in> {Commitment_Draft, Review_Ready}" "sd_invoice_of db c = None"
    "delivery_completion_version od = Inr (cd_expected_version d)"
    "completion_window tzdb dv db od d now = Inr (snapshot, hist, full)"
    "db' = (write_order_event (order_event e cc ''commitment_delivery_completed'' c ms) (update_order c (completed_order d snapshot) db))
        \<lparr>sd_finance := complete_command ''complete_delivery_v1'' cc ''commitmentId'' c (sd_finance db)\<rparr>"
    "get_commitment db' c False = Inr answer"
    by (rule complete_delivery_new [OF assms(1,2)]) (rule that)
  note orders = completed_orders [OF k(10)]
  have row: "row \<in> set (bd_orders (sd_board db))" "cm_id row = c" "cm_action_id row = cc_action_id cc"
    using k(4) by (auto simp: order_row_def find_Some_iff)
  obtain r0 where r0: "r0 \<in> set (bd_orders (sd_board db))" "cm_id r0 = c" "commitment_init (r0\<lparr>cm_replayed := False\<rparr>) = Inr od"
    "cm_status od = cm_status r0" "cm_delivery_window_id od = cm_delivery_window_id r0"
    by (rule get_commitment_row [OF k(5)])
  have same: "r0 = row" using order_by_id [OF assms(3) r0(1) row(1)] r0(2) row(2) by simp
  have snap: "cm_delivery_window_snapshot od = cm_delivery_window_snapshot row"
    using commitment_init_delivery [OF r0(3)] same by simp
  obtain stored where s: "stored \<in> set (bd_orders (sd_board db'))" "cm_id stored = c"
    "commitment_init (stored\<lparr>cm_replayed := False\<rparr>) = Inr answer"
    by (rule get_commitment_row [OF k(11)])
  obtain v where v: "v \<in> set (bd_orders (sd_board db))" "stored = (if cm_id v = c then completed_order d snapshot v else v)"
    using s(1) unfolding orders set_map by blast
  then have "cm_id v = cm_id row" using s(2) row(2) by (simp add: completed_order_keeps split: if_splits)
  then have stored: "stored = completed_order d snapshot row" using order_by_id [OF assms(3) v(1) row(1)] v(2) row(2) by simp
  note keep = commitment_init_keeps [OF s(3)] commitment_init_delivery [OF s(3)]
  have fields: "cm_status answer = Review_Ready" "cm_invoice_recipient answer = Some (cd_invoice_recipient d)"
    "cm_lines answer = cm_lines row" "cm_total answer = cm_total row" "cm_buyer answer = cm_buyer row"
    "cm_delivery_window_id answer = cd_delivery_window_id d" "cm_delivery_window_snapshot answer = snapshot"
    "cm_delivery_recipient answer = cd_delivery_recipient d"
    using keep by (simp_all add: stored completed_order_keeps)
  note w = completed_window [OF k(3,9), unfolded r0(5) same snap]
  have enabled: "dc_enabled dv = bx_enabled x"
    by (rule read_configuration_rows [OF k(3)]) (use k(1) in simp)
  have window: "cd_delivery_recipient d \<noteq> None \<and> cd_delivery_window_id d \<noteq> None" if "bx_enabled x"
    using w(1,3) that enabled by metis
  have others: "\<forall>u \<in> set (bd_orders (sd_board db)). cm_id u \<noteq> c \<longrightarrow> u \<in> set (bd_orders (sd_board db'))"
    unfolding orders by force
  show ?thesis
    using row k(1,5-8) r0(4) same fields w(1,2) window others orders(2) by (intro bexI [OF _ row(1)]) simp
qed

section \<open>The property at a concrete order\<close>

lemma text_digest_total: "list_all (\<lambda>c. \<not> (0xd800 \<le> c \<and> c \<le> 0xdfff)) s \<Longrightarrow> \<exists>h. text_digest s = Inr h"
proof -
  assume "list_all (\<lambda>c. \<not> (0xd800 \<le> c \<and> c \<le> 0xdfff)) s"
  then have "\<exists>bs. map_res utf8_cp s = Inr bs"
    by (induction s) (auto simp: utf8_cp_def)
  then show ?thesis by (auto simp: text_digest_def encode_utf8_def)
qed

lemma sample_version: "\<exists>v. delivery_completion_version (sample_order Commitment_Draft) = Inr v"
  unfolding delivery_completion_version_def by (rule text_digest_total) code_simp

theorem delivery_completed_witness:
  "\<exists>d answer db'. complete_delivery_once sample_zones 78 sample_capture 21 d (utc 0) sample_draft_shop = Inr (answer, db')
     \<and> cm_status answer = Review_Ready \<and> cm_invoice_recipient answer = Some sample_recipient"
proof -
  obtain v where v: "delivery_completion_version (sample_order Commitment_Draft) = Inr v" using sample_version by blast
  define d where "d = \<lparr>cd_expected_version = v, cd_invoice_recipient = sample_recipient, cd_delivery_recipient = None,
    cd_delivery_window_id = None, cd_delivery_contact = None, cd_allow_full_window = False\<rparr>"
  obtain dv where dv: "read_configuration sample_zones (sd_board sample_draft_shop) 1 = Inr dv" "\<not> dc_enabled dv"
    using sample_draft_plan by blast
  have order: "bd_orders (sd_board sample_draft_shop) = [sample_order Commitment_Draft]"
    "bd_contexts (sd_board sample_draft_shop) = bd_contexts (sd_board sample_shop)"
    "fd_receipts (sd_finance sample_draft_shop) = Map.empty" "sd_invoice_of sample_draft_shop = Map.empty"
    by (simp_all add: sample_draft_shop_def sample_capture_facts) (simp add: sample_shop_def)
  have fields: "cm_status (sample_order s) = s" "cm_id (sample_order s) = 21" "cm_action_id (sample_order s) = 1"
    "cm_delivery_window_id (sample_order s) = None" "sample_order s\<lparr>cm_replayed := False\<rparr> = sample_order s" for s
    by (simp_all add: sample_order_def)
  have row: "order_row sample_draft_shop 1 21 = Some (sample_order Commitment_Draft)"
    by (simp add: order_row_def order fields)
  have od: "get_commitment sample_draft_shop 21 False = Inr (sample_order Commitment_Draft)"
    by (simp add: get_commitment_def order fields commitment.post_init_id [OF sample_order_wf])
  have done_order: "completed_order d None (sample_order Commitment_Draft) = sample_reviewed"
    by (simp add: completed_order_def put_delivery_def d_def sample_order_def sample_reviewed_def)
  have reviewed: "cm_id sample_reviewed = 21" "sample_reviewed\<lparr>cm_replayed := False\<rparr> = sample_reviewed"
    by (simp_all add: sample_reviewed_def sample_order_def)
  have dd: "cd_delivery_window_id d = None" "cd_delivery_contact d = None" "cd_expected_version d = v" "cd_invoice_recipient d = sample_recipient"
    by (simp_all add: d_def)
  have window: "completion_window sample_zones dv sample_draft_shop (sample_order Commitment_Draft) d (utc 0) = Inr (None, False, False)"
    using dv(2) by (simp add: completion_window_def validate_manager_completion_def validate_order_def guard_window_booking_def fields dd)
  have "\<exists>answer db'. complete_delivery_once sample_zones 78 sample_capture 21 d (utc 0) sample_draft_shop = Inr (answer, db')"
    by (simp add: complete_delivery_once_def sample_capture_facts order dv row od existing_command_def fields v dd window
        sample_action_def open_for_orders_def Let_def del: existing_command_new)
      (simp add: get_commitment_def write_order_event_def add_event_def update_order_def order fields done_order reviewed
        commitment.post_init_id [OF sample_reviewed_wf])
  then obtain answer db' where run:
    "complete_delivery_once sample_zones 78 sample_capture 21 d (utc 0) sample_draft_shop = Inr (answer, db')" by blast
  have "order_ids_ok (sd_board sample_draft_shop)" by (simp add: order_ids_ok_def order)
  then have "cm_status answer = Review_Ready" "cm_invoice_recipient answer = Some sample_recipient"
    using delivery_completed [OF run] by (auto simp: order dd)
  then show ?thesis using run by blast
qed

end
