(* ===== verification/Py_Value.thy ===== *)
theory Py_Value
  imports Complex_Main Py_Number
begin

text \<open>
  Python values read from JSON: \<^verbatim>\<open>None\<close>, \<^verbatim>\<open>bool\<close>, \<^verbatim>\<open>int\<close>, \<^verbatim>\<open>float\<close>, \<^verbatim>\<open>str\<close>, \<^verbatim>\<open>list\<close>, \<^verbatim>\<open>dict\<close>.  A \<^verbatim>\<open>float\<close> is a
  binary64 number, kept as the rational it is (the sign of zero is not kept); \<open>double_of\<close> rounds a fraction to the nearest one, ties to even,
  as \<^verbatim>\<open>float(int)\<close>, \<^verbatim>\<open>float(str)\<close> and the division of integers do.  \<open>float_text\<close> is \<^verbatim>\<open>float(str)\<close>, \<open>loads_scalar\<close> is
  \<^verbatim>\<open>json.loads\<close> where the text is a scalar.
\<close>

section \<open>Floating-point numbers\<close>

datatype pyfloat = Fin rat | PInf | NInf | PNan

function bit_length :: "int \<Rightarrow> nat" where
  "bit_length n = (if n \<le> 0 then 0 else Suc (bit_length (n div 2)))"
  by pat_completeness auto
termination
  by (relation "measure nat") auto

declare bit_length.simps [simp del]

text \<open>\<open>n / d * 2 ^ e\<close> as a fraction, and the nearest integer of a fraction with ties to even.\<close>

definition shift_fraction :: "int \<Rightarrow> int \<Rightarrow> int \<Rightarrow> int \<times> int" where
  "shift_fraction n d e = (if 0 \<le> e then (n * 2 ^ nat e, d) else (n, d * 2 ^ nat (- e)))"

definition nearest_even :: "int \<times> int \<Rightarrow> int" where
  "nearest_even = (\<lambda>(n, d). let q = n div d; r = n mod d in
     if 2 * r < d then q else if 2 * r > d then q + 1 else if even q then q else q + 1)"

text \<open>The \<open>e\<close> with \<open>2 ^ e \<le> n / d < 2 ^ (e + 1)\<close>.\<close>

definition binary_exponent :: "int \<Rightarrow> int \<Rightarrow> int" where
  "binary_exponent n d =
     (let e = int (bit_length n) - int (bit_length d) in
      case shift_fraction n d (- e) of (a, b) \<Rightarrow> if b \<le> a then e else e - 1)"

definition unsigned_double :: "int \<Rightarrow> int \<Rightarrow> rat option" where
  "unsigned_double n d =
     (if n = 0 then Some 0
      else let s = max (binary_exponent n d - 52) (- 1074);
             m = nearest_even (shift_fraction n d (- s)) in
        case shift_fraction m 1 s of (a, b) \<Rightarrow>
          if a \<ge> 2 ^ 1024 * b then None else Some (of_int a / of_int b))"

definition double_of :: "int \<Rightarrow> int \<Rightarrow> pyfloat" where
  "double_of n d =
     (case unsigned_double \<bar>n\<bar> d of
        None \<Rightarrow> if n < 0 then NInf else PInf
      | Some q \<Rightarrow> Fin (if n < 0 then - q else q))"

text \<open>\<^verbatim>\<open>float(n)\<close> raises where the nearest number is not finite.\<close>

definition float_of_int :: "int \<Rightarrow> rat res" where
  "float_of_int n = (case double_of n 1 of Fin q \<Rightarrow> Inr q | _ \<Rightarrow> Inl Overflow_Error)"

text \<open>Comparison; with a \<^verbatim>\<open>nan\<close> it is false.\<close>

definition float_le :: "pyfloat \<Rightarrow> rat \<Rightarrow> bool" where
  "float_le x q = (case x of Fin p \<Rightarrow> p \<le> q | NInf \<Rightarrow> True | _ \<Rightarrow> False)"

section \<open>Decimal notation\<close>

definition span_digits :: "pystr \<Rightarrow> pystr \<times> pystr" where
  "span_digits s = (takeWhile is_09 s, dropWhile is_09 s)"

definition scaled_decimal :: "int \<Rightarrow> int \<Rightarrow> pyfloat" where
  "scaled_decimal m e = (if 0 \<le> e then double_of (m * 10 ^ nat e) 1 else double_of m (10 ^ nat (- e)))"

text \<open>\<open>Decimal_Number neg whole fd exponent\<close>: the parts as they are written.\<close>

datatype decimal_number = Decimal_Number bool pystr "pystr option" "(bool \<times> pystr) option"

definition split_sign :: "int list \<Rightarrow> pystr \<Rightarrow> bool \<times> pystr" where
  "split_sign signs s = (case s of c # t \<Rightarrow> if c \<in> set signs then (c = 45, t) else (False, s) | [] \<Rightarrow> (False, s))"

definition read_exponent :: "pystr \<Rightarrow> (bool \<times> pystr) option option" where
  "read_exponent s =
     (case s of
        [] \<Rightarrow> Some None
      | c # t \<Rightarrow>
          if c = 101 \<or> c = 69
          then (case split_sign [43, 45] t of (neg, ds) \<Rightarrow>
            if ds \<noteq> [] \<and> list_all is_09 ds then Some (Some (neg, ds)) else None)
          else None)"

text \<open>Any number of digits before and after the point; what is required of them is for the caller.\<close>

definition read_decimal :: "int list \<Rightarrow> pystr \<Rightarrow> decimal_number option" where
  "read_decimal signs s =
     (case split_sign signs s of (neg, t) \<Rightarrow>
      case span_digits t of (whole, u) \<Rightarrow>
        (case u of
           c # v \<Rightarrow>
             if c = 46 then (case span_digits v of (fd, w) \<Rightarrow>
               map_option (Decimal_Number neg whole (Some fd)) (read_exponent w))
             else map_option (Decimal_Number neg whole None) (read_exponent u)
         | [] \<Rightarrow> Some (Decimal_Number neg whole None None)))"

definition decimal_value :: "decimal_number \<Rightarrow> pyfloat" where
  "decimal_value = (\<lambda>n. case n of Decimal_Number neg whole fd expo \<Rightarrow>
     let f = (case fd of None \<Rightarrow> [] | Some ds \<Rightarrow> ds);
         e = (case expo of None \<Rightarrow> 0 | Some (en, ds) \<Rightarrow> if en then - digits_value ds else digits_value ds);
         m = digits_value (whole @ f)
     in scaled_decimal (if neg then - m else m) (e - int (length f)))"

text \<open>\<^verbatim>\<open>float(str)\<close>: white space around, Unicode digits and single underscores between digits are allowed.\<close>

fun underscores_ok :: "bool \<Rightarrow> pystr \<Rightarrow> bool" where
  "underscores_ok digit_before [] = True"
| "underscores_ok digit_before (c # s) =
     (if c = 95 then digit_before \<and> s \<noteq> [] \<and> is_09 (hd s) \<and> underscores_ok False s
      else underscores_ok (is_09 c) s)"

definition float_word :: "pystr \<Rightarrow> pyfloat option" where
  "float_word s =
     (case split_sign [43, 45] s of (neg, t) \<Rightarrow>
        if casefold t \<in> {lit ''inf'', lit ''infinity''} then Some (if neg then NInf else PInf)
        else if casefold t = lit ''nan'' then Some PNan else None)"

definition float_text :: "pystr \<Rightarrow> pyfloat option" where
  "float_text s =
     (let t = c_strip (if list_all (\<lambda>c. c < 128) s then s else map numeric_ascii s);
          u = filter (\<lambda>c. c \<noteq> 95) t in
      if \<not> underscores_ok False t then None
      else case float_word u of Some x \<Rightarrow> Some x
      | None \<Rightarrow> (case read_decimal [43, 45] u of
          None \<Rightarrow> None
        | Some n \<Rightarrow> (case n of Decimal_Number _ whole fd _ \<Rightarrow>
            if whole = [] \<and> (fd = None \<or> fd = Some []) then None else Some (decimal_value n))))"

section \<open>JSON scalars\<close>

datatype pyval =
    VNone
  | VBool bool
  | VInt int
  | VFloat pyfloat
  | VStr pystr
  | VList "pyval list"
  | VDict "(pystr \<times> pyval) list"

definition json_space :: "int \<Rightarrow> bool" where
  "json_space c \<longleftrightarrow> c \<in> {32, 9, 10, 13}"

definition json_strip :: "pystr \<Rightarrow> pystr" where
  "json_strip s = rev (dropWhile json_space (rev (dropWhile json_space s)))"

definition json_number :: "pystr \<Rightarrow> pyval option" where
  "json_number s =
     (case read_decimal [45] s of
        None \<Rightarrow> None
      | Some n \<Rightarrow> (case n of Decimal_Number neg whole fd expo \<Rightarrow>
          if whole = [] \<or> (hd whole = 48 \<and> whole \<noteq> [48]) \<or> fd = Some [] then None
          else if fd = None \<and> expo = None
          then if 4300 < length whole then None
               else Some (VInt (if neg then - digits_value whole else digits_value whole))
          else Some (VFloat (decimal_value n))))"

definition hex_four :: "int \<Rightarrow> int \<Rightarrow> int \<Rightarrow> int \<Rightarrow> int option" where
  "hex_four a b c d = (if 95 \<in> {a, b, c, d} then None else digits_val 16 0 False [a, b, c, d])"

definition json_escapes :: "(int \<times> int) list" where
  "json_escapes = [(34, 34), (92, 92), (47, 47), (98, 8), (102, 12), (110, 10), (114, 13), (116, 9)]"

text \<open>The code points up to the closing quote, with a mark on those from a \<^verbatim>\<open>\u\<close> escape, and the rest.\<close>

fun scan_chars :: "pystr \<Rightarrow> ((bool \<times> int) list \<times> pystr) option" where
  "scan_chars [] = None"
| "scan_chars (c # s) =
     (if c = 34 then Some ([], s)
      else if c < 32 then None
      else if c \<noteq> 92 then map_option (\<lambda>(cs, r). ((False, c) # cs, r)) (scan_chars s)
      else case s of
        [] \<Rightarrow> None
      | e # t \<Rightarrow>
          if e = 117
          then (case t of
            h1 # h2 # h3 # h4 # u \<Rightarrow>
              (case hex_four h1 h2 h3 h4 of
                 None \<Rightarrow> None
               | Some x \<Rightarrow> map_option (\<lambda>(cs, r). ((True, x) # cs, r)) (scan_chars u))
          | _ \<Rightarrow> None)
          else (case map_of json_escapes e of
            None \<Rightarrow> None
          | Some x \<Rightarrow> map_option (\<lambda>(cs, r). ((False, x) # cs, r)) (scan_chars t)))"

text \<open>A pair of escaped surrogates is one code point.\<close>

fun join_surrogates :: "(bool \<times> int) list \<Rightarrow> pystr" where
  "join_surrogates [] = []"
| "join_surrogates [(e, c)] = [c]"
| "join_surrogates ((e, c) # (f, d) # cs) =
     (if e \<and> f \<and> 0xD800 \<le> c \<and> c \<le> 0xDBFF \<and> 0xDC00 \<le> d \<and> d \<le> 0xDFFF
      then (0x10000 + (c - 0xD800) * 0x400 + (d - 0xDC00)) # join_surrogates cs
      else c # join_surrogates ((f, d) # cs))"

text \<open>None for a text that is no JSON or an array or object.\<close>

definition loads_scalar :: "pystr \<Rightarrow> pyval option" where
  "loads_scalar s =
     (let t = json_strip s in
      if t = lit ''null'' then Some VNone
      else if t = lit ''true'' then Some (VBool True)
      else if t = lit ''false'' then Some (VBool False)
      else if t = lit ''NaN'' then Some (VFloat PNan)
      else if t = lit ''Infinity'' then Some (VFloat PInf)
      else if t = lit ''-Infinity'' then Some (VFloat NInf)
      else case t of
        [] \<Rightarrow> None
      | c # u \<Rightarrow>
          if c = 34
          then (case scan_chars u of Some (cs, r) \<Rightarrow> if r = [] then Some (VStr (join_surrogates cs)) else None | None \<Rightarrow> None)
          else json_number t)"

section \<open>Integers up to \<open>2 ^ 53\<close> are exact\<close>

lemma bit_length_bounds: "0 < n \<Longrightarrow> 2 ^ (bit_length n - 1) \<le> n \<and> n < 2 ^ bit_length n \<and> 0 < bit_length n"
proof (induction n rule: bit_length.induct)
  case (1 n)
  show ?case
  proof (cases "n = 1")
    case True
    then show ?thesis by (simp add: bit_length.simps)
  next
    case False
    then have *: "2 ^ (bit_length (n div 2) - 1) \<le> n div 2" "n div 2 < 2 ^ bit_length (n div 2)" "0 < bit_length (n div 2)"
      using 1 by auto
    obtain k where k: "bit_length (n div 2) = Suc k" using *(3) by (cases "bit_length (n div 2)") auto
    have "bit_length n = Suc (Suc k)" using 1 k by (subst bit_length.simps) simp
    moreover have "2 ^ k \<le> n div 2" "n div 2 < 2 * 2 ^ k" using * k by simp_all
    moreover from this have "2 * 2 ^ k \<le> n" "n < 2 * (2 * 2 ^ k)" by linarith+
    ultimately show ?thesis by simp
  qed
qed

lemma nearest_even_exact: "0 < d \<Longrightarrow> nearest_even (q * d, d) = q"
  by (simp add: nearest_even_def Let_def)

lemma bit_length_1 [simp]: "bit_length 1 = 1"
  by (simp add: bit_length.simps)

lemma binary_exponent_int: "0 < n \<Longrightarrow> binary_exponent n 1 = int (bit_length n) - 1"
proof -
  assume n: "0 < n"
  obtain k where k: "bit_length n = Suc k" using bit_length_bounds [OF n] by (cases "bit_length n") auto
  have "2 ^ k \<le> n" using bit_length_bounds [OF n] k by simp
  then show ?thesis
    unfolding binary_exponent_def k bit_length_1
    by (cases "k = 0") (simp_all add: shift_fraction_def Let_def)
qed

lemma unsigned_double_int:
  assumes "0 \<le> n" "n \<le> 2 ^ 53"
  shows "unsigned_double n 1 = Some (of_int n)"
proof (cases "n = 0")
  case True
  then show ?thesis by (simp add: unsigned_double_def)
next
  case False
  then have n: "0 < n" using assms(1) by simp
  obtain k where k: "bit_length n = Suc k" using bit_length_bounds [OF n] by (cases "bit_length n") auto
  have lo: "2 ^ k \<le> n" using bit_length_bounds [OF n] k by simp
  have be: "binary_exponent n 1 = int k" using binary_exponent_int [OF n] k by simp
  have "(2::int) ^ k \<le> 2 ^ 53" using lo assms(2) by (rule order_trans)
  then have k53: "k \<le> 53" by (rule power_le_imp_le_exp [rotated]) simp
  show ?thesis
  proof (cases "k = 53")
    case True
    have n': "n = 2 ^ 53" using lo assms True by simp
    have s: "max (binary_exponent n 1 - 52) (- 1074) = 1" using be True by simp
    show ?thesis
      unfolding unsigned_double_def s Let_def
      by (simp add: n' shift_fraction_def nearest_even_def)
  next
    case False
    define j where "j = nat (52 - int k)"
    have s: "max (binary_exponent n 1 - 52) (- 1074) = - int j" using be False k53 by (simp add: j_def)
    have a: "shift_fraction n 1 (- (- int j)) = (n * 2 ^ j, 1)" by (simp add: shift_fraction_def)
    have b: "nearest_even (n * 2 ^ j, 1) = n * 2 ^ j" using nearest_even_exact [of 1 "n * 2 ^ j"] by simp
    have c: "shift_fraction (n * 2 ^ j) 1 (- int j) = (n * 2 ^ j, 2 ^ j)"
      by (cases "j = 0") (simp_all add: shift_fraction_def)
    have "n < 2 ^ 1024" using assms(2) by (rule le_less_trans) simp
    then have d: "\<not> n * 2 ^ j \<ge> 2 ^ 1024 * 2 ^ j" by simp
    show ?thesis
      unfolding unsigned_double_def s a b Let_def c using n d by simp
  qed
qed

lemma float_of_small_int: "\<bar>n\<bar> \<le> 2 ^ 53 \<Longrightarrow> float_of_int n = Inr (of_int n)"
proof -
  assume "\<bar>n\<bar> \<le> 2 ^ 53"
  then have "unsigned_double \<bar>n\<bar> 1 = Some (of_int \<bar>n\<bar>)" by (intro unsigned_double_int) simp_all
  then show ?thesis
    unfolding float_of_int_def double_of_def by (simp add: abs_if)
qed

end
