(* ===== verification/Survey_Disclosure.thy ===== *)
theory Survey_Disclosure
  imports Py_Value Py_Lower Iso_Time
begin

text \<open>
  What an aggregate of survey answers may show: \<^verbatim>\<open>modules/surveys/application/disclosure.py\<close> on the stored
  snapshots of \<^verbatim>\<open>analysis.py\<close> and \<^verbatim>\<open>analysis_snapshot.py\<close>.  A stored snapshot keeps every number; the released one
  withholds groups of one to four people and whatever they could be computed from.  A withheld number
  is \<open>None\<close>.  A dict keyed by question id is a map; the leaves of the conditions are association lists in
  their order.
\<close>

section \<open>Stored snapshots\<close>

datatype question_kind =
    Kind_Text | Kind_Comment | Kind_Date | Kind_Number | Kind_Radiogroup | Kind_Dropdown
  | Kind_Checkbox | Kind_Rating | Kind_Matrix

record aggregate_count =
  ac_value :: pyval
  ac_label :: pystr
  ac_count :: int
  ac_percentage :: "rat option"

record matrix_row_aggregate =
  mr_row_id :: pystr
  mr_label :: pystr
  mr_answered :: int
  mr_unanswered :: int
  mr_invalid :: int
  mr_counts :: "aggregate_count list"

record question_aggregate =
  qa_question_id :: pystr
  qa_title :: pystr
  qa_kind :: question_kind
  qa_relevant :: int
  qa_answered :: int
  qa_unanswered :: int
  qa_hidden :: int
  qa_invalid :: int
  qa_counts :: "aggregate_count list"
  qa_sum :: "rat option"
  qa_mean :: "rat option"
  qa_minimum :: "rat option"
  qa_maximum :: "rat option"
  qa_nps :: "rat option"
  qa_matrix_rows :: "matrix_row_aggregate list"

datatype response_status = In_Progress | Partial | Completed

record analysis_filter =
  af_version_id :: pystr
  af_statuses :: "response_status list"
  af_is_test :: bool
  af_created_from :: "pystr option"
  af_created_before :: "pystr option"

record last_page_count =
  lp_page_id :: "pystr option"
  lp_title :: pystr
  lp_count :: int

text \<open>A leaf is one comparison of a \<^verbatim>\<open>visibleIf\<close>: name, operator, literal.\<close>

type_synonym leaf = "pystr \<times> pystr \<times> pystr"

text \<open>\<^verbatim>\<open>SnapshotDependencies\<close> without its lists \<^verbatim>\<open>questions\<close> and \<^verbatim>\<open>pages\<close> of names, which \<^verbatim>\<open>disclose\<close> does not read.\<close>

record snapshot_dependencies =
  de_question_leaves :: "(pystr \<times> leaf list) list option"
  de_page_leaves :: "(pystr \<times> leaf list) list option"

datatype disclosure_policy = Reader | Settled

record analysis_snapshot =
  sn_id :: pystr
  sn_survey_id :: pystr
  sn_created_at :: pystr
  sn_filter :: analysis_filter
  sn_version_number :: int
  sn_renderer_version :: pystr
  sn_capability_profile :: pystr
  sn_participation_count :: int
  sn_status_counts :: "response_status \<Rightarrow> int"
  sn_last_page_counts :: "last_page_count list"
  sn_questions :: "question_aggregate list"
  sn_dependencies :: "snapshot_dependencies option"
  sn_policy :: disclosure_policy

text \<open>The checks of the stored models.\<close>

definition option_value_ok :: "pyval \<Rightarrow> bool" where
  "option_value_ok v = (case v of VStr _ \<Rightarrow> True | VInt _ \<Rightarrow> True | VFloat (Fin _) \<Rightarrow> True | _ \<Rightarrow> False)"

definition aggregate_count_ok :: "aggregate_count \<Rightarrow> bool" where
  "aggregate_count_ok b \<longleftrightarrow> option_value_ok (ac_value b) \<and> 0 \<le> ac_count b
     \<and> (case ac_percentage b of None \<Rightarrow> True | Some p \<Rightarrow> 0 \<le> p \<and> p \<le> 100)"

definition count_sum :: "aggregate_count list \<Rightarrow> int" where
  "count_sum bs = sum_list (map ac_count bs)"

definition question_aggregate_init :: "question_aggregate \<Rightarrow> question_aggregate res" where
  "question_aggregate_init q =
     (if \<not> (list_all aggregate_count_ok (qa_counts q)
          \<and> list_all (\<lambda>r. 0 \<le> mr_answered r \<and> 0 \<le> mr_unanswered r \<and> 0 \<le> mr_invalid r
              \<and> list_all aggregate_count_ok (mr_counts r)) (qa_matrix_rows q)
          \<and> 0 \<le> qa_relevant q \<and> 0 \<le> qa_answered q \<and> 0 \<le> qa_unanswered q \<and> 0 \<le> qa_hidden q
          \<and> 0 \<le> qa_invalid q
          \<and> (case qa_nps q of None \<Rightarrow> True | Some n \<Rightarrow> - 100 \<le> n \<and> n \<le> 100)) then Inl Value_Error
      else if qa_answered q + qa_unanswered q + qa_invalid q \<noteq> qa_relevant q then Inl Value_Error
      else if list_ex (\<lambda>b. ac_count b > qa_answered q) (qa_counts q) then Inl Value_Error
      else if list_ex (\<lambda>r. mr_answered r + mr_unanswered r + mr_invalid r \<noteq> qa_relevant q
          \<or> count_sum (mr_counts r) \<noteq> mr_answered r) (qa_matrix_rows q) then Inl Value_Error
      else if qa_kind q \<in> {Kind_Text, Kind_Comment, Kind_Date, Kind_Number} \<and> qa_counts q \<noteq> []
      then Inl Value_Error
      else Inr q)"

text \<open>
  \<^verbatim>\<open>AnalysisSnapshot\<close>.  A snapshot is made with a filter that was validated before (\<^verbatim>\<open>AnalysisFilter\<close>, modelled as
  \<open>analysis_filter_init\<close> in \<open>Survey_Requests\<close>); its validators are not repeated here but for the statuses, so that this
  function accepts more than the class does.
\<close>

definition analysis_snapshot_init :: "analysis_snapshot \<Rightarrow> analysis_snapshot res" where
  "analysis_snapshot_init s =
     then_res (map_res question_aggregate_init (sn_questions s)) (\<lambda>_.
     if sn_version_number s < 1 \<or> sn_participation_count s < 0
        \<or> list_ex (\<lambda>k. sn_status_counts s k < 0) [In_Progress, Partial, Completed]
        \<or> list_ex (\<lambda>p. lp_count p < 0) (sn_last_page_counts s)
        \<or> af_statuses (sn_filter s) = [] \<or> has_duplicate (af_statuses (sn_filter s)) then Inl Value_Error
     else if sum_list (map (sn_status_counts s) (af_statuses (sn_filter s))) \<noteq> sn_participation_count s
     then Inl Value_Error
     else if sum_list (map lp_count (sn_last_page_counts s)) \<noteq> sn_participation_count s then Inl Value_Error
     else if list_ex (\<lambda>q. qa_relevant q + qa_hidden q \<noteq> sn_participation_count s) (sn_questions s)
     then Inl Value_Error
     else Inr s)"

section \<open>Released snapshots\<close>

record released_count =
  rc_value :: pyval
  rc_label :: pystr
  rc_count :: "int option"
  rc_percentage :: "rat option"
  rc_suppressed :: bool

record released_row =
  rr_row_id :: pystr
  rr_label :: pystr
  rr_answered :: "int option"
  rr_unanswered :: "int option"
  rr_invalid :: "int option"
  rr_counts :: "released_count list"
  rr_suppressed :: bool

record nps_segments =
  ns_detractors :: int
  ns_passives :: int
  ns_promoters :: int

record released_question =
  rq_question_id :: pystr
  rq_title :: pystr
  rq_kind :: question_kind
  rq_relevant :: "int option"
  rq_answered :: "int option"
  rq_unanswered :: "int option"
  rq_hidden :: "int option"
  rq_invalid :: "int option"
  rq_counts :: "released_count list"
  rq_mean :: "rat option"
  rq_minimum :: "rat option"
  rq_maximum :: "rat option"
  rq_nps :: "rat option"
  rq_matrix_rows :: "released_row list"
  rq_suppressed :: bool
  rq_nps_segments :: "nps_segments option"
  rq_unreleased_condition :: bool

record released_page =
  rp_page_id :: "pystr option"
  rp_title :: pystr
  rp_count :: "int option"

record released_snapshot =
  rs_id :: pystr
  rs_survey_id :: pystr
  rs_created_at :: pystr
  rs_filter :: analysis_filter
  rs_version_number :: int
  rs_renderer_version :: pystr
  rs_capability_profile :: pystr
  rs_participation_count :: "int option"
  rs_status_counts :: "response_status \<Rightarrow> int option"
  rs_last_page_counts :: "released_page list"
  rs_questions :: "released_question list"
  rs_minimum_group_size :: int
  rs_suppressed :: bool

section \<open>Which counts to withhold\<close>

definition group_size :: int where "group_size = 5"

definition small_group :: "int \<Rightarrow> bool" where
  "small_group n \<longleftrightarrow> 0 < n \<and> n < group_size"

definition hidden_sum :: "int list \<Rightarrow> bool list \<Rightarrow> int" where
  "hidden_sum counts hidden = sum_list (map (\<lambda>(c, h). if h then c else 0) (zip counts hidden))"

fun complete_from :: "int list \<Rightarrow> nat list \<Rightarrow> bool list \<Rightarrow> bool list" where
  "complete_from counts [] hidden = hidden"
| "complete_from counts (i # ks) hidden =
     (if hidden_sum counts hidden \<ge> group_size then hidden else complete_from counts ks (hidden[i := True]))"

definition complete_hidden :: "bool list \<Rightarrow> int list \<Rightarrow> bool list" where
  "complete_hidden hidden counts = complete_from counts [0..<length counts] hidden"

definition protect :: "int list \<Rightarrow> int option \<Rightarrow> bool list" where
  "protect counts known =
     (let hidden = map small_group counts in
      if known = None \<or> \<not> list_ex (\<lambda>h. h) hidden then hidden
      else complete_hidden (map (\<lambda>c. c < 2 * group_size) counts) counts)"

definition protect_choices :: "int list \<Rightarrow> int \<Rightarrow> bool list" where
  "protect_choices counts answered =
     (if \<not> (small_group (sum_list counts - answered)
          \<or> list_ex (\<lambda>c. small_group c \<or> small_group (answered - c)) counts)
      then map (\<lambda>_. False) counts
      else complete_hidden (map (\<lambda>c. c < 2 * group_size \<or> answered - c < 2 * group_size) counts) counts)"

definition release_bucket :: "aggregate_count \<Rightarrow> bool \<Rightarrow> released_count" where
  "release_bucket b hide = \<lparr>rc_value = ac_value b, rc_label = ac_label b,
     rc_count = (if hide then None else Some (ac_count b)),
     rc_percentage = (if hide then None else ac_percentage b), rc_suppressed = hide\<rparr>"

definition release_counts :: "aggregate_count list \<Rightarrow> int option \<Rightarrow> bool \<Rightarrow> released_count list" where
  "release_counts buckets known choices =
     (let values = map ac_count buckets;
          hidden = (case known of
              Some t \<Rightarrow> if choices then protect_choices values t else protect values known
            | None \<Rightarrow> protect values known)
      in map (\<lambda>(b, h). release_bucket b h) (zip buckets hidden))"


section \<open>One question\<close>

text \<open>\<open>denominators\<close> asks for the denominators to be withheld too.\<close>

definition withheld_question :: "question_aggregate \<Rightarrow> bool \<Rightarrow> released_question" where
  "withheld_question q denominators = (let keep = (\<lambda>n. if denominators then None else Some n) in
     \<lparr>rq_question_id = qa_question_id q, rq_title = qa_title q, rq_kind = qa_kind q,
      rq_relevant = keep (qa_relevant q), rq_answered = keep (qa_answered q),
      rq_unanswered = keep (qa_unanswered q), rq_hidden = keep (qa_hidden q),
      rq_invalid = keep (qa_invalid q), rq_counts = [], rq_mean = None, rq_minimum = None,
      rq_maximum = None, rq_nps = None, rq_matrix_rows = [], rq_suppressed = True,
      rq_nps_segments = None, rq_unreleased_condition = False\<rparr>)"

definition number_of :: "pyval \<Rightarrow> pyfloat res" where
  "number_of v =
     (case v of
        VBool b \<Rightarrow> Inr (Fin (if b then 1 else 0))
      | VInt n \<Rightarrow> then_res (float_of_int n) (\<lambda>q. Inr (Fin q))
      | VFloat x \<Rightarrow> Inr x
      | VStr s \<Rightarrow> (case float_text s of None \<Rightarrow> Inl Value_Error | Some x \<Rightarrow> Inr x)
      | _ \<Rightarrow> Inl Type_Error)"

definition add_score :: "nps_segments \<Rightarrow> aggregate_count \<Rightarrow> nps_segments res" where
  "add_score g b = then_res (number_of (ac_value b)) (\<lambda>score. Inr (
     if float_le score 6 then g\<lparr>ns_detractors := ns_detractors g + ac_count b\<rparr>
     else if float_le score 8 then g\<lparr>ns_passives := ns_passives g + ac_count b\<rparr>
     else g\<lparr>ns_promoters := ns_promoters g + ac_count b\<rparr>))"

definition nps_segments_of :: "question_aggregate \<Rightarrow> nps_segments option res" where
  "nps_segments_of q =
     (if qa_kind q \<noteq> Kind_Rating \<or> qa_nps q = None then Inr None
      else then_res (fold_res add_score \<lparr>ns_detractors = 0, ns_passives = 0, ns_promoters = 0\<rparr> (qa_counts q))
        (\<lambda>g. Inr (Some g)))"

definition one_column :: "question_aggregate \<Rightarrow> bool" where
  "one_column q \<longleftrightarrow> qa_matrix_rows q \<noteq> [] \<and> list_all (\<lambda>r. length (mr_counts r) = 1) (qa_matrix_rows q)"

definition one_option :: "question_aggregate \<Rightarrow> bool" where
  "one_option q \<longleftrightarrow> length (qa_counts q) = 1 \<and> qa_matrix_rows q = [] \<or> one_column q"

definition release_row :: "bool \<Rightarrow> matrix_row_aggregate \<Rightarrow> bool \<Rightarrow> released_row" where
  "release_row single_column r row_hidden =
     (if row_hidden \<or> small_group (mr_answered r)
      then \<lparr>rr_row_id = mr_row_id r, rr_label = mr_label r,
        rr_answered = (if single_column then None else Some (mr_answered r)),
        rr_unanswered = (if single_column then None else Some (mr_unanswered r)),
        rr_invalid = Some (mr_invalid r), rr_counts = [], rr_suppressed = True\<rparr>
      else \<lparr>rr_row_id = mr_row_id r, rr_label = mr_label r, rr_answered = Some (mr_answered r),
        rr_unanswered = Some (mr_unanswered r), rr_invalid = Some (mr_invalid r),
        rr_counts = release_counts (mr_counts r) (Some (mr_answered r)) False, rr_suppressed = False\<rparr>)"

definition release_rows :: "question_aggregate \<Rightarrow> released_row list" where
  "release_rows q =
     (let hidden = (if one_column q then protect_choices (map mr_answered (qa_matrix_rows q)) (qa_answered q)
        else map (\<lambda>r. small_group (mr_answered r)) (qa_matrix_rows q))
      in map (\<lambda>(r, h). release_row (one_column q) r h) (zip (qa_matrix_rows q) hidden))"

definition question_counts :: "question_aggregate \<Rightarrow> released_count list" where
  "question_counts q = release_counts (qa_counts q)
     (if qa_kind q \<in> {Kind_Radiogroup, Kind_Dropdown, Kind_Rating, Kind_Checkbox} then Some (qa_answered q) else None)
     (qa_kind q = Kind_Checkbox)"

definition release_question :: "question_aggregate \<Rightarrow> released_question res" where
  "release_question q =
     (if one_option q \<and> list_ex (\<lambda>h. h) (protect [qa_answered q, qa_unanswered q] (Some (qa_relevant q)))
      then Inr ((withheld_question q False)\<lparr>rq_answered := None, rq_unanswered := None\<rparr>)
      else if small_group (qa_answered q) then Inr (withheld_question q False)
      else let rows = release_rows q;
               counts = question_counts q;
               linked = list_ex rc_suppressed counts;
               extremes = (linked \<or> qa_kind q = Kind_Number) in
        then_res (if linked then Inr None else nps_segments_of q) (\<lambda>segments. Inr
          \<lparr>rq_question_id = qa_question_id q, rq_title = qa_title q, rq_kind = qa_kind q,
           rq_relevant = Some (qa_relevant q), rq_answered = Some (qa_answered q),
           rq_unanswered = Some (qa_unanswered q), rq_hidden = Some (qa_hidden q),
           rq_invalid = Some (qa_invalid q), rq_counts = counts,
           rq_mean = (if linked then None else qa_mean q),
           rq_minimum = (if extremes then None else qa_minimum q),
           rq_maximum = (if extremes then None else qa_maximum q),
           rq_nps = (if linked then None else qa_nps q), rq_matrix_rows = rows,
           rq_suppressed = False, rq_nps_segments = segments, rq_unreleased_condition = False\<rparr>))"

definition has_withheld :: "released_question \<Rightarrow> bool" where
  "has_withheld q \<longleftrightarrow> rq_suppressed q \<or> list_ex rc_suppressed (rq_counts q)
     \<or> list_ex (\<lambda>r. rr_suppressed r \<or> list_ex rc_suppressed (rr_counts r)) (rq_matrix_rows q)"

section \<open>How SurveyJS compares a value\<close>

datatype surveyjs_key = Key_Number pyfloat | Key_Text pystr

definition js_whitespace :: "int list" where
  "js_whitespace = [9, 10, 11, 12, 13, 32, 0xa0, 0x1680, 0x2000, 0x2001, 0x2002, 0x2003, 0x2004, 0x2005, 0x2006,
     0x2007, 0x2008, 0x2009, 0x200a, 0x2028, 0x2029, 0x202f, 0x205f, 0x3000, 0xfeff]"

definition canonical_decimal :: "pystr \<Rightarrow> decimal_number option" where
  "canonical_decimal s =
     (case read_decimal [43, 45] s of
        Some (Decimal_Number neg whole fd None) \<Rightarrow>
          if whole = [] \<or> fd = Some [] then None else Some (Decimal_Number neg whole fd None)
      | _ \<Rightarrow> None)"

definition is_hex :: "int \<Rightarrow> bool" where
  "is_hex c \<longleftrightarrow> is_09 c \<or> 97 \<le> c \<and> c \<le> 102 \<or> 65 \<le> c \<and> c \<le> 70"

definition prefixed_number :: "pystr \<Rightarrow> bool" where
  "prefixed_number s =
     (case s of
        z # x # ds \<Rightarrow> z = 48 \<and> ds \<noteq> [] \<and>
          ((x = 120 \<or> x = 88) \<and> list_all is_hex ds
           \<or> (x = 98 \<or> x = 66) \<and> list_all (\<lambda>c. c = 48 \<or> c = 49) ds
           \<or> (x = 111 \<or> x = 79) \<and> list_all (\<lambda>c. 48 \<le> c \<and> c \<le> 55) ds)
      | _ \<Rightarrow> False)"

definition js_number :: "pystr \<Rightarrow> bool" where
  "js_number s \<longleftrightarrow> snd (split_sign [43, 45] s) = lit ''Infinity'' \<or> prefixed_number s
     \<or> (case read_decimal [43, 45] s of
          Some (Decimal_Number _ whole fd _) \<Rightarrow> whole \<noteq> [] \<or> fd \<noteq> None \<and> fd \<noteq> Some []
        | None \<Rightarrow> False)"

text \<open>\<open>None\<close> is the \<^verbatim>\<open>AmbiguousOption\<close> its callers catch; the other exception is not caught.\<close>

definition text_key :: "pystr \<Rightarrow> surveyjs_key option" where
  "text_key s =
     (case canonical_decimal s of
        Some n \<Rightarrow> Some (Key_Number (decimal_value n))
      | None \<Rightarrow>
          let stripped = strip_chars js_whitespace s in
          if stripped = [] \<or> js_number stripped \<or> js_number (map (\<lambda>c. if c = 44 then 46 else c) stripped)
             \<or> lower stripped \<in> {lit ''true'', lit ''false'', lit ''null'', lit ''undefined''}
          then None else Some (Key_Text (lower stripped)))"

definition surveyjs_key :: "pyval \<Rightarrow> surveyjs_key option res" where
  "surveyjs_key v =
     (case v of
        VInt n \<Rightarrow> then_res (float_of_int n) (\<lambda>q. Inr (Some (Key_Number (Fin q))))
      | VFloat (Fin q) \<Rightarrow> Inr (Some (Key_Number (Fin q)))
      | VStr s \<Rightarrow> Inr (text_key s)
      | _ \<Rightarrow> Inr None)"

definition quoted_literal :: "pystr \<Rightarrow> bool" where
  "quoted_literal s \<longleftrightarrow> 2 \<le> length s \<and> hd s = 39 \<and> last s = 39
     \<and> list_all (\<lambda>c. c \<noteq> 39 \<and> c \<noteq> 92) (butlast (tl s))"

definition literal_key :: "pystr \<Rightarrow> surveyjs_key option res" where
  "literal_key s =
     (if quoted_literal s then surveyjs_key (VStr (butlast (tl s)))
      else case loads_scalar s of
        Some (VInt n) \<Rightarrow> surveyjs_key (VInt n)
      | Some (VFloat x) \<Rightarrow> surveyjs_key (VFloat x)
      | Some (VStr t) \<Rightarrow> surveyjs_key (VStr t)
      | _ \<Rightarrow> Inr None)"

fun keys_of :: "pyval list \<Rightarrow> surveyjs_key list option res" where
  "keys_of [] = Inr (Some [])"
| "keys_of (v # vs) = then_res (surveyjs_key v) (\<lambda>k. case k of None \<Rightarrow> Inr None
     | Some k \<Rightarrow> then_res (keys_of vs) (\<lambda>ks. Inr (map_option (\<lambda>ks. k # ks) ks)))"

definition option_keys :: "question_aggregate \<Rightarrow> surveyjs_key list option res" where
  "option_keys source = then_res (keys_of (map ac_value (qa_counts source)))
     (\<lambda>ks. Inr (case ks of None \<Rightarrow> None | Some ks \<Rightarrow> if has_duplicate ks then None else Some ks))"

section \<open>The structure of a condition\<close>

datatype condition_shape = Shape_None | Shape_Derived | Shape_New | Shape_Opaque

definition derived_operators :: "question_kind \<Rightarrow> string list" where
  "derived_operators k =
     (if k \<in> {Kind_Radiogroup, Kind_Dropdown, Kind_Rating}
      then [''='', ''!='', ''<>'', ''<'', ''<='', ''>'', ''>='', ''empty'', ''notempty'']
      else if k = Kind_Checkbox then [''contains'', ''notcontains'', ''empty'', ''notempty''] else [])"

definition unreleased_kinds :: "question_kind set" where
  "unreleased_kinds = {Kind_Number, Kind_Date, Kind_Text, Kind_Comment}"

definition classify :: "leaf list \<Rightarrow> (pystr \<Rightarrow> question_aggregate option)
    \<Rightarrow> (condition_shape \<times> pystr option) res" where
  "classify leaves questions =
     (case leaves of
        [] \<Rightarrow> Inr (Shape_None, None)
      | [(name, opr, literal)] \<Rightarrow>
          (case questions name of
             None \<Rightarrow> Inr (Shape_Opaque, None)
           | Some source \<Rightarrow>
               if derived_operators (qa_kind source) \<noteq> []
               then if opr \<notin> set (map lit (derived_operators (qa_kind source))) \<or> qa_invalid source \<noteq> 0
                    then Inr (Shape_Opaque, None)
                    else then_res (option_keys source) (\<lambda>keys. case keys of
                      None \<Rightarrow> Inr (Shape_Opaque, None)
                    | Some ks \<Rightarrow>
                        if opr \<in> {lit ''empty'', lit ''notempty''} then Inr (Shape_Derived, Some name)
                        else then_res (literal_key literal) (\<lambda>key. Inr (case key of
                          None \<Rightarrow> (Shape_Opaque, None)
                        | Some k \<Rightarrow> if count_list ks k = 1 then (Shape_Derived, Some name) else (Shape_Opaque, None))))
               else if qa_kind source \<in> unreleased_kinds then Inr (Shape_New, Some name)
               else Inr (Shape_Opaque, None))
      | _ \<Rightarrow> Inr (Shape_Opaque, None))"

section \<open>Conditions between questions\<close>

text \<open>\<open>rl_used\<close>: the one comparison allowed to select from an unreleased answer.\<close>

record release_state =
  rl_shown :: "pystr \<Rightarrow> released_question option"
  rl_withheld :: "pystr set"
  rl_used :: "pystr \<Rightarrow> leaf option"

definition start_release :: release_state where
  "start_release = \<lparr>rl_shown = (\<lambda>_. None), rl_withheld = {}, rl_used = (\<lambda>_. None)\<rparr>"

definition blocked :: "release_state \<Rightarrow> pystr \<Rightarrow> bool" where
  "blocked st name \<longleftrightarrow> name \<in> rl_withheld st \<or> rl_shown st name = None"

definition strip_figures :: "pystr \<Rightarrow> release_state \<Rightarrow> release_state" where
  "strip_figures name st =
     (case rl_shown st name of
        None \<Rightarrow> st
      | Some q \<Rightarrow> st\<lparr>rl_shown := (rl_shown st)(name \<mapsto> q\<lparr>rq_mean := None, rq_minimum := None, rq_maximum := None\<rparr>),
          rl_withheld := insert name (rl_withheld st)\<rparr>)"

definition withhold :: "question_aggregate \<Rightarrow> release_state \<Rightarrow> release_state" where
  "withhold q st = st\<lparr>rl_shown := (rl_shown st)(qa_question_id q \<mapsto> withheld_question q True),
     rl_withheld := insert (qa_question_id q) (rl_withheld st)\<rparr>"

definition show_question :: "question_aggregate \<Rightarrow> release_state \<Rightarrow> release_state res" where
  "show_question q st = then_res (release_question q) (\<lambda>d. Inr (st\<lparr>rl_shown := (rl_shown st)(qa_question_id q \<mapsto> d),
     rl_withheld := (if has_withheld d then insert (qa_question_id q) (rl_withheld st) else rl_withheld st)\<rparr>))"

definition leaves_of :: "(pystr \<times> leaf list) list \<Rightarrow> pystr \<Rightarrow> leaf list" where
  "leaves_of deps qid = (case map_of deps qid of None \<Rightarrow> [] | Some ls \<Rightarrow> ls)"

definition release_step :: "bool \<Rightarrow> int \<Rightarrow> (pystr \<times> leaf list) list \<Rightarrow> (pystr \<Rightarrow> question_aggregate option)
    \<Rightarrow> release_state \<Rightarrow> question_aggregate \<Rightarrow> release_state res" where
  "release_step settled participants deps by_id st q =
     (let leaves = leaves_of deps (qa_question_id q) in
      then_res (classify leaves by_id) (\<lambda>(shape, source).
        if shape = Shape_Opaque \<or> (source \<noteq> None \<and> blocked st (the source)) then Inr (withhold q st)
        else if shape = Shape_New \<and> settled
        then Inr (let st1 = withhold q st in st1\<lparr>rl_shown := (rl_shown st1)(qa_question_id q \<mapsto>
               (withheld_question q True)\<lparr>rq_unreleased_condition := True\<rparr>)\<rparr>)
        else if shape = Shape_New
        then let leaf = hd leaves; src = the source in
          if rl_used st src \<noteq> None \<and> rl_used st src \<noteq> Some leaf then Inr (withhold q st)
          else let st1 = st\<lparr>rl_used := (rl_used st)(src \<mapsto> leaf)\<rparr> in
            if list_ex (\<lambda>h. h) (protect [qa_relevant q, qa_hidden q] (Some participants))
            then Inr (strip_figures src (withhold q st1))
            else show_question q st1
        else show_question q st))"

definition questions_by_id :: "question_aggregate list \<Rightarrow> pystr \<Rightarrow> question_aggregate option" where
  "questions_by_id qs = map_of (rev (map (\<lambda>q. (qa_question_id q, q)) qs))"

text \<open>Which last pages to withhold, and the state: figures of an answer their conditions read may go too.
  A set of sources that cannot be unpacked to one raises.\<close>

definition release_pages :: "int \<Rightarrow> last_page_count list \<Rightarrow> leaf list list \<Rightarrow> (condition_shape \<times> pystr option) list
    \<Rightarrow> release_state \<Rightarrow> (bool list \<times> release_state) res" where
  "release_pages participants pages page_leaves shapes st =
     (let sources = remdups (concat (map (\<lambda>(_, s). case s of None \<Rightarrow> [] | Some n \<Rightarrow> [n]) shapes));
          all_pages = (\<lambda>h. map (\<lambda>_. h) pages) in
      if length pages \<le> 1 \<or> shapes = [] then Inr (all_pages False, st)
      else if list_ex (\<lambda>(shape, _). shape = Shape_Opaque) shapes \<or> length sources > 1
      then Inr (all_pages True, st)
      else case sources of
        [] \<Rightarrow> Inl Value_Error
      | source # _ \<Rightarrow>
          if blocked st source then Inr (all_pages True, st)
          else if fst (hd shapes) = Shape_New
          then if rl_used st source \<noteq> None \<or> length (remdups (concat page_leaves)) > 1
               then Inr (all_pages True, st)
               else let hidden = protect (map lp_count pages) (Some participants) in
                 Inr (hidden, if list_ex (\<lambda>h. h) hidden then strip_figures source st else st)
          else Inr (all_pages False, st))"

definition with_dependencies :: "analysis_snapshot \<Rightarrow> snapshot_dependencies \<Rightarrow> (released_question list \<times> bool list) res" where
  "with_dependencies s deps =
     (let by_id = questions_by_id (sn_questions s) in
      then_res (fold_res (release_step (sn_policy s = Settled) (sn_participation_count s)
          (the (de_question_leaves deps)) by_id) start_release (sn_questions s)) (\<lambda>st.
      case de_page_leaves deps of
        None \<Rightarrow> Inl Attribute_Error
      | Some pl \<Rightarrow>
          then_res (map_res (\<lambda>ls. classify ls by_id) (map snd pl)) (\<lambda>shapes.
          then_res (release_pages (sn_participation_count s) (sn_last_page_counts s) (map snd pl) shapes st)
            (\<lambda>(pages, st1). Inr (map (\<lambda>q. the (rl_shown st1 (qa_question_id q))) (sn_questions s), pages)))))"

definition conservative :: "analysis_snapshot \<Rightarrow> (released_question list \<times> bool list) res" where
  "conservative s =
     then_res (map_res (\<lambda>q. if qa_hidden q = 0 then release_question q else Inr (withheld_question q True))
       (sn_questions s)) (\<lambda>questions.
     let hide_pages = (length (sn_last_page_counts s) > 1
           \<and> (list_ex (\<lambda>q. qa_hidden q > 0) (sn_questions s) \<or> list_ex has_withheld questions))
     in Inr (questions, map (\<lambda>_. hide_pages) (sn_last_page_counts s)))"

section \<open>A snapshot\<close>

definition status_hidden :: "analysis_snapshot \<Rightarrow> response_status \<Rightarrow> bool" where
  "status_hidden s k =
     (let n = sn_participation_count s;
          selected = af_statuses (sn_filter s);
          other = filter (\<lambda>j. j \<notin> set selected) [In_Progress, Partial, Completed];
          hide = (\<lambda>ks t. if small_group n then map (\<lambda>_. True) ks else protect (map (sn_status_counts s) ks) t)
      in the (map_of (zip selected (hide selected (Some n)) @ zip other (hide other None)) k))"

definition released_parts :: "analysis_snapshot \<Rightarrow> (released_question list \<times> bool list) res" where
  "released_parts s =
     (let n = sn_participation_count s in
      if small_group n
      then Inr (map (\<lambda>q. withheld_question q True) (sn_questions s), map (\<lambda>_. True) (sn_last_page_counts s))
      else if n = 0
      then then_res (map_res release_question (sn_questions s)) (\<lambda>qs. Inr (qs, map (\<lambda>_. False) (sn_last_page_counts s)))
      else case sn_dependencies s of
        Some d \<Rightarrow> if de_question_leaves d \<noteq> None then with_dependencies s d else conservative s
      | None \<Rightarrow> conservative s)"

definition disclose :: "analysis_snapshot \<Rightarrow> released_snapshot res" where
  "disclose s =
     then_res (released_parts s) (\<lambda>(questions, pages_hidden). Inr
       \<lparr>rs_id = sn_id s, rs_survey_id = sn_survey_id s, rs_created_at = sn_created_at s,
        rs_filter = sn_filter s, rs_version_number = sn_version_number s,
        rs_renderer_version = sn_renderer_version s, rs_capability_profile = sn_capability_profile s,
        rs_participation_count = (if small_group (sn_participation_count s) then None
          else Some (sn_participation_count s)),
        rs_status_counts = (\<lambda>k. if status_hidden s k then None else Some (sn_status_counts s k)),
        rs_last_page_counts = (if sn_policy s = Settled then []
          else map (\<lambda>(p, h). \<lparr>rp_page_id = lp_page_id p, rp_title = lp_title p,
            rp_count = (if h then None else Some (lp_count p))\<rparr>) (zip (sn_last_page_counts s) pages_hidden)),
        rs_questions = questions, rs_minimum_group_size = group_size,
        rs_suppressed = small_group (sn_participation_count s)\<rparr>)"

section \<open>Whole days\<close>

text \<open>The range an account without raw access may select: both ends are starts of days, the second at most today's.\<close>

definition day_start :: "tz \<Rightarrow> datetime \<Rightarrow> (datetime \<times> datetime) res" where
  "day_start z moment = then_res (local_day z moment) (local_day_bounds z)"

definition whole_days :: "tz \<Rightarrow> pystr option \<Rightarrow> pystr option \<Rightarrow> datetime \<Rightarrow> (pystr option \<times> pystr) res" where
  "whole_days z created_from created_before now =
     then_res (case created_from of
         None \<Rightarrow> Inr None
       | Some t \<Rightarrow> then_res (from_iso t) (\<lambda>m. then_res (day_start z m) (\<lambda>(a, _). Inr (Some a)))) (\<lambda>start.
     then_res (day_start z now) (\<lambda>(today, _).
     then_res (case created_before of
         None \<Rightarrow> Inr today
       | Some t \<Rightarrow> then_res (from_iso t) (\<lambda>before. then_res (day_start z before) (\<lambda>(a, b).
           let e = (if dt_eq before a then before else b) in
           Inr (if instant today < instant e then today else e)))) (\<lambda>stop.
     Inr (map_option iso_datetime start, iso_datetime stop))))"

end
