(* ===== verification/Survey_Cells.thy ===== *)
theory Survey_Cells
  imports Survey_Disclosure
begin

text \<open>
  The withheld cells of a distribution: which cells \<open>protect\<close> covers, and that every withheld count has another
  possible value with the same cells covered, the same shown counts and the same sum.
\<close>

section \<open>The withheld cells of a distribution\<close>

definition below_two :: "int list \<Rightarrow> bool list" where
  "below_two cs = map (\<lambda>c. c < 10) cs"

definition light :: "int \<Rightarrow> int" where "light c = (if c < 10 then c else 0)"

definition light_sum :: "int list \<Rightarrow> int" where
  "light_sum cs = sum_list (map light cs)"

definition any_small :: "int list \<Rightarrow> bool" where
  "any_small cs \<longleftrightarrow> (\<exists>c \<in> set cs. 0 < c \<and> c < 5)"

definition first_open :: "bool list \<Rightarrow> nat" where
  "first_open hs = length (takeWhile (\<lambda>h. h) hs)"

definition cover :: "int list \<Rightarrow> bool list" where
  "cover cs = (if 5 \<le> light_sum cs then below_two cs
     else (below_two cs)[first_open (below_two cs) := True])"

lemma sum_list_put: "i < length xs \<Longrightarrow> sum_list (xs[i := x]) = sum_list xs - xs ! i + (x :: int)"
  by (induction xs arbitrary: i) (auto split: nat.split)

lemma light_sum_zero: "(\<And>j. j < length cs \<Longrightarrow> light (cs ! j) = 0) \<Longrightarrow> light_sum cs = 0"
proof -
  assume "\<And>j. j < length cs \<Longrightarrow> light (cs ! j) = 0"
  then have "\<forall>c \<in> set cs. light c = 0" by (auto simp: in_set_conv_nth)
  then show ?thesis by (induction cs) (auto simp: light_sum_def)
qed

lemma light_sum_put: "i < length xs \<Longrightarrow> light_sum (xs[i := x]) = light_sum xs - light (xs ! i) + light x"
  by (simp add: light_sum_def map_update sum_list_put)

lemma below_two_put: "below_two (xs[i := x]) = (below_two xs)[i := (x < 10)]"
  by (simp add: below_two_def map_update)

lemma below_two_length [simp]: "length (below_two xs) = length xs"
  by (simp add: below_two_def)

lemma hidden_sum_below: "hidden_sum cs (below_two cs) = light_sum cs"
  by (induction cs) (auto simp: hidden_sum_def below_two_def light_sum_def light_def)

lemma hidden_sum_put:
  assumes "m < length hs" "length hs = length cs" "\<not> hs ! m"
  shows "hidden_sum cs (hs[m := True]) = hidden_sum cs hs + cs ! m"
  using assms
proof (induction cs arbitrary: hs m)
  case (Cons c cs)
  then obtain h ks where hs: "hs = h # ks" by (cases hs) auto
  show ?case using Cons hs by (cases m) (auto simp: hidden_sum_def)
qed simp

lemma hidden_sum_nonneg: "list_all (\<lambda>c. 0 \<le> c) cs \<Longrightarrow> 0 \<le> hidden_sum cs hs"
proof (unfold hidden_sum_def, rule sum_list_nonneg)
  fix x assume nn: "list_all (\<lambda>c. 0 \<le> c) cs" and "x \<in> set (map (\<lambda>(c, h). if h then c else 0) (zip cs hs))"
  then obtain c h where "(c, h) \<in> set (zip cs hs)" "x = (if h then c else 0)" by auto
  then show "0 \<le> x" using nn by (auto simp: list_all_iff dest: set_zip_leftD)
qed

lemma first_open_skip: "\<forall>j < m. hs ! j \<Longrightarrow> m < length hs \<Longrightarrow> \<not> hs ! m \<Longrightarrow> first_open hs = m"
proof (induction hs arbitrary: m)
  case (Cons h hs)
  show ?case
  proof (cases m)
    case 0
    then show ?thesis using Cons.prems by (simp add: first_open_def)
  next
    case (Suc n)
    have "\<forall>j < n. hs ! j" using Cons.prems(1) Suc by auto
    then have "first_open hs = n" using Cons.IH [of n] Cons.prems(2,3) Suc by simp
    then show ?thesis using Cons.prems(1) Suc by (auto simp: first_open_def)
  qed
qed simp

lemma complete_from_full:
  assumes "list_all (\<lambda>c. 0 \<le> c) cs" "5 \<le> hidden_sum cs hs"
  shows "complete_from cs ks hs = hs"
  using assms(2) by (cases ks) (simp_all add: group_size_def)

lemma complete_from_cover:
  assumes "list_all (\<lambda>c. 0 \<le> c) cs" "m \<le> length cs" "\<forall>j < m. cs ! j < 10"
  shows "complete_from cs [m..<length cs] (below_two cs) = cover cs"
  using assms(2,3)
proof (induction "length cs - m" arbitrary: m)
  case 0
  then have m: "m = length cs" by simp
  have all: "\<forall>h \<in> set (below_two cs). h"
    using 0(3) m by (auto simp: below_two_def in_set_conv_nth)
  then have "takeWhile (\<lambda>h. h) (below_two cs) = below_two cs" unfolding takeWhile_eq_all_conv .
  then have "first_open (below_two cs) = length cs"
    unfolding first_open_def by (rule trans [OF arg_cong [where f = length] below_two_length])
  then show ?case using m by (simp add: cover_def list_update_beyond)
next
  case (Suc n)
  then have m: "m < length cs" by simp
  show ?case
  proof (cases "5 \<le> light_sum cs")
    case True
    then show ?thesis
      using complete_from_full [OF assms(1)] by (simp add: cover_def hidden_sum_below)
  next
    case False
    have step: "complete_from cs [m..<length cs] (below_two cs)
        = complete_from cs [Suc m..<length cs] ((below_two cs)[m := True])"
      using m False by (simp add: upt_conv_Cons hidden_sum_below group_size_def)
    show ?thesis
    proof (cases "cs ! m < 10")
      case True
      then have same: "(below_two cs)[m := True] = below_two cs"
        using m by (metis (full_types) below_two_def list_update_id nth_map)
      have "\<forall>j < Suc m. cs ! j < 10" using Suc.prems(2) True by (auto simp: less_Suc_eq)
      then show ?thesis unfolding step same using Suc.hyps m by simp
    next
      case big: False
      have nm: "\<not> below_two cs ! m" using big m by (simp add: below_two_def)
      have "hidden_sum cs ((below_two cs)[m := True]) = light_sum cs + cs ! m"
        using hidden_sum_put [of m "below_two cs" cs] m nm by (simp add: hidden_sum_below)
      moreover have "0 \<le> light_sum cs" using hidden_sum_nonneg [OF assms(1)] hidden_sum_below by metis
      ultimately have "5 \<le> hidden_sum cs ((below_two cs)[m := True])" using big by simp
      moreover have "first_open (below_two cs) = m"
        using Suc.prems(2) m nm by (intro first_open_skip) (simp_all add: below_two_def)
      ultimately show ?thesis
        unfolding step using complete_from_full [OF assms(1)] False by (simp add: cover_def)
    qed
  qed
qed

lemma protect_cover:
  assumes "list_all (\<lambda>c. 0 \<le> c) cs" "any_small cs"
  shows "protect cs (Some t) = cover cs"
proof -
  have "list_ex (\<lambda>h. h) (map small_group cs)"
    using assms(2) by (auto simp: any_small_def list_ex_iff small_group_def group_size_def)
  moreover have "complete_hidden (below_two cs) cs = cover cs"
    unfolding complete_hidden_def using complete_from_cover [OF assms(1), of 0] by simp
  ultimately show ?thesis by (simp add: protect_def group_size_def below_two_def)
qed

lemma protect_none:
  assumes "\<not> any_small cs"
  shows "protect cs known = map (\<lambda>_. False) cs"
proof -
  have "map small_group cs = map (\<lambda>_. False) cs"
    using assms by (auto simp: any_small_def small_group_def group_size_def)
  then show ?thesis by (simp add: protect_def list_ex_iff)
qed

lemma protect_length [simp]: "length (protect cs known) = length cs"
proof -
  have "length (complete_from cs ks hs) = length hs" for ks hs
    by (induction ks arbitrary: hs) auto
  then show ?thesis by (simp add: protect_def complete_hidden_def Let_def)
qed


section \<open>A withheld count has another possible value\<close>

text \<open>\<open>hides_as cs ns\<close>: both vectors are withheld in the same cells, agree on the shown ones and have the
  same sum.\<close>

definition hides_as :: "int list \<Rightarrow> int list \<Rightarrow> bool" where
  "hides_as cs ns \<longleftrightarrow> length ns = length cs \<and> list_all (\<lambda>c. 0 \<le> c) ns \<and> sum_list ns = sum_list cs
     \<and> any_small ns \<and> cover ns = cover cs \<and> (\<forall>j < length cs. \<not> cover cs ! j \<longrightarrow> ns ! j = cs ! j)"

lemma below_cover: "j < length cs \<Longrightarrow> cs ! j < 10 \<Longrightarrow> cover cs ! j"
  by (cases "first_open (below_two cs) = j") (auto simp: cover_def below_two_def nth_list_update)

lemma any_small_at: "j < length ns \<Longrightarrow> 0 < ns ! j \<Longrightarrow> ns ! j < 5 \<Longrightarrow> any_small ns"
  unfolding any_small_def using nth_mem by blast

text \<open>Two cells below ten exchange people.\<close>

lemma exchange_below:
  assumes nn: "list_all (\<lambda>c. 0 \<le> c) cs"
    and ij: "i < length cs" "j < length cs" "i \<noteq> j" "cs ! i < 10" "cs ! j < 10"
    and xy: "0 \<le> x" "0 \<le> y" "x < 10" "y < 10" "x + y = cs ! i + cs ! j"
    and small: "any_small (cs[i := x, j := y])"
  shows "hides_as cs (cs[i := x, j := y])"
proof -
  let ?ns = "cs[i := x, j := y]"
  have b: "below_two cs ! i" "below_two cs ! j" using ij by (simp_all add: below_two_def)
  then have base: "below_two ?ns = below_two cs"
    using xy by (simp add: below_two_put) (metis (full_types) list_update_id)
  have "light_sum ?ns = light_sum cs"
    using ij xy by (simp add: light_sum_put light_def)
  then have cov: "cover ?ns = cover cs" by (simp add: cover_def base)
  have "list_all (\<lambda>c. 0 \<le> c) ?ns"
    using nn xy by (auto simp: list_all_iff dest!: set_update_subset_insert [THEN subsetD])
  moreover have "sum_list ?ns = sum_list cs" using ij xy by (simp add: sum_list_put)
  moreover have "?ns ! k = cs ! k" if "\<not> cover cs ! k" "k < length cs" for k
    using that below_cover [of k cs] ij by (auto simp: nth_list_update)
  ultimately show ?thesis using small cov by (simp add: hides_as_def)
qed

text \<open>People move between a cell below ten and the cell withheld with it.\<close>

lemma exchange_cover:
  assumes nn: "list_all (\<lambda>c. 0 \<le> c) cs" and few: "light_sum cs < 5"
    and i: "i < length cs" "cs ! i < 10" and k: "k = first_open (below_two cs)" "k < length cs"
    and x: "0 \<le> x" "x < 5" "light_sum cs - cs ! i + x < 5" and y: "y = cs ! k + cs ! i - x" "9 \<le> y"
    and small: "any_small (cs[i := x, k := y])"
  shows "hides_as cs (cs[i := x, k := y])"
proof -
  let ?ns = "cs[i := x, k := y]"
  have "\<not> (\<lambda>h. h) (below_two cs ! first_open (below_two cs))"
    using k unfolding first_open_def by (intro nth_length_takeWhile) simp
  then have big: "\<not> cs ! k < 10" using k by (simp add: below_two_def)
  have ik: "i \<noteq> k" using i big by auto
  have bi: "below_two cs ! i" using i by (simp add: below_two_def)
  have bk: "\<not> below_two cs ! k" using k big by (simp add: below_two_def)
  have base: "below_two ?ns = (below_two cs)[k := (y < 10)]"
    using x(2) bi by (simp add: below_two_put) (metis (full_types) list_update_id)
  have ls: "light_sum ?ns = light_sum cs - cs ! i + x + light y"
    using i k ik x big by (simp add: light_sum_put light_def)
  have keep: "(below_two cs)[k := False] = below_two cs" using bk by (metis (full_types) list_update_id)
  have cov_cs: "cover cs = (below_two cs)[k := True]" using few k by (simp add: cover_def)
  have cov: "cover ?ns = cover cs"
  proof (cases "y < 10")
    case True
    then have "y = 9" using y by simp
    moreover have "0 \<le> light_sum cs - cs ! i"
    proof -
      have "light_sum (cs[i := 0]) = light_sum cs - cs ! i" using i by (simp add: light_sum_put light_def)
      moreover have "list_all (\<lambda>c. 0 \<le> c) (cs[i := 0])"
        using nn by (auto simp: list_all_iff dest!: set_update_subset_insert [THEN subsetD])
      ultimately show ?thesis using hidden_sum_nonneg hidden_sum_below by metis
    qed
    ultimately have "5 \<le> light_sum ?ns" using ls x by (simp add: light_def)
    then show ?thesis using base True cov_cs by (simp add: cover_def)
  next
    case False
    then have "light_sum ?ns < 5" using ls x by (simp add: light_def)
    then show ?thesis using base False cov_cs keep k by (simp add: cover_def)
  qed
  have "list_all (\<lambda>c. 0 \<le> c) ?ns"
    using nn x y by (auto simp: list_all_iff dest!: set_update_subset_insert [THEN subsetD])
  moreover have "sum_list ?ns = sum_list cs" using i k ik y by (simp add: sum_list_put)
  moreover have "?ns ! j = cs ! j" if "\<not> cover cs ! j" "j < length cs" for j
    using that below_cover [of j cs] i cov_cs k by (auto simp: nth_list_update)
  ultimately show ?thesis using small cov by (simp add: hides_as_def)
qed

lemma any_small_obtains:
  assumes "any_small cs"
  obtains p where "p < length cs" "0 < cs ! p" "cs ! p < 5"
  using assms by (auto simp: any_small_def in_set_conv_nth)

lemma light_sum_split:
  assumes "list_all (\<lambda>c. 0 \<le> c) cs" "i < length cs" "j < length cs" "i \<noteq> j" "cs ! i < 10" "cs ! j < 10"
  shows "cs ! i + cs ! j \<le> light_sum cs"
proof -
  have "light_sum (cs[i := 0, j := 0]) = light_sum cs - cs ! i - cs ! j"
    using assms by (simp add: light_sum_put light_def)
  moreover have "list_all (\<lambda>c. 0 \<le> c) (cs[i := 0, j := 0])"
    using assms(1) by (auto simp: list_all_iff dest!: set_update_subset_insert [THEN subsetD])
  ultimately show ?thesis using hidden_sum_nonneg hidden_sum_below by (metis diff_ge_0_iff_ge diff_diff_eq)
qed

text \<open>The first cell of ten or more, where the others are few.\<close>

lemma first_open_exists:
  assumes nn: "list_all (\<lambda>c. 0 \<le> c) cs" and "light_sum cs < 5" "5 \<le> sum_list cs"
  shows "first_open (below_two cs) < length cs"
proof (rule ccontr)
  assume "\<not> ?thesis"
  then have "length (takeWhile (\<lambda>h. h) (below_two cs)) = length (below_two cs)"
    unfolding first_open_def using length_takeWhile_le [of "\<lambda>h. h" "below_two cs"] by simp
  then have "\<forall>h \<in> set (below_two cs). h"
    by (metis takeWhile_eq_all_conv takeWhile_eq_take take_all order_refl)
  then have "map light cs = cs" by (auto simp: below_two_def light_def intro!: map_idI)
  then have "light_sum cs = sum_list cs" by (simp add: light_sum_def)
  then show False using assms by simp
qed


lemma withheld_cell_open:
  assumes nn: "list_all (\<lambda>c. 0 \<le> c) cs" and enough: "5 \<le> sum_list cs"
    and small: "any_small cs" and i: "i < length cs" "cover cs ! i"
  shows "\<exists>ns. hides_as cs ns \<and> ns ! i \<noteq> cs ! i"
proof -
  have nth_nn: "0 \<le> cs ! j" if "j < length cs" for j using nn that by (simp add: list_all_length)
  obtain p where p: "p < length cs" "0 < cs ! p" "cs ! p < 5" using small by (rule any_small_obtains)
  let ?k = "first_open (below_two cs)"
  have alone: "\<exists>ns. hides_as cs ns \<and> ns ! p \<noteq> cs ! p \<and> ns ! ?k \<noteq> cs ! ?k"
    if few: "light_sum cs < 5" and one: "cs ! p = 1 \<longrightarrow> (\<forall>j < length cs. j \<noteq> p \<longrightarrow> \<not> (0 < cs ! j \<and> cs ! j < 5))"
  proof -
    have k: "?k < length cs" using first_open_exists [OF nn few enough] .
    have "\<not> (\<lambda>h. h) (below_two cs ! ?k)"
      using k unfolding first_open_def by (intro nth_length_takeWhile) simp
    then have big: "10 \<le> cs ! ?k" using k by (simp add: below_two_def)
    then have pk: "p \<noteq> ?k" using p by auto
    have less: "cs ! p \<le> light_sum cs"
    proof -
      have "light_sum (cs[p := 0]) = light_sum cs - cs ! p" using p by (simp add: light_sum_put light_def)
      moreover have "list_all (\<lambda>c. 0 \<le> c) (cs[p := 0])"
        using nn by (auto simp: list_all_iff dest!: set_update_subset_insert [THEN subsetD])
      ultimately show ?thesis using hidden_sum_nonneg hidden_sum_below by (metis diff_ge_0_iff_ge)
    qed
    show ?thesis
    proof (cases "cs ! p = 1")
      case False
      let ?ns = "cs[p := cs ! p - 1, ?k := cs ! ?k + 1]"
      have "hides_as cs ?ns"
        using p False pk big k few
        by (intro exchange_cover [OF nn few _ _ refl k]) (auto intro!: any_small_at [of p])
      then show ?thesis using p k pk by (intro exI [of _ ?ns]) simp
    next
      case True
      have zero: "light (cs ! j) = 0" if j: "j < length cs" "j \<noteq> p" for j
      proof (cases "cs ! j < 10")
        case True
        then have "cs ! j + cs ! p \<le> light_sum cs" using light_sum_split [OF nn j(1) p(1) j(2)] p by simp
        then have "cs ! j < 5" using few p by simp
        moreover have "\<not> (0 < cs ! j \<and> cs ! j < 5)" using one \<open>cs ! p = 1\<close> j by blast
        ultimately show ?thesis using nth_nn [OF j(1)] by (simp add: light_def)
      qed (simp add: light_def)
      have "light_sum (cs[p := 0]) = 0"
      proof (rule light_sum_zero)
        fix j assume "j < length (cs[p := 0])"
        then show "light (cs[p := 0] ! j) = 0" using zero [of j] by (cases "j = p") (simp_all add: light_def)
      qed
      then have one_sum: "light_sum cs = 1" using p True by (simp add: light_sum_put light_def)
      let ?ns = "cs[p := 2, ?k := cs ! ?k - 1]"
      have "hides_as cs ?ns"
        using p True pk big k few one_sum
        by (intro exchange_cover [OF nn few _ _ refl k]) (auto intro!: any_small_at [of p])
      then show ?thesis using p k pk True by (intro exI [of _ ?ns]) simp
    qed
  qed
  show ?thesis
  proof (cases "cs ! i < 10")
    case low: True
    show ?thesis
    proof (cases "\<exists>j < length cs. j \<noteq> i \<and> cs ! j < 10 \<and> cs ! j \<noteq> cs ! i")
      case True
      then obtain j where j: "j < length cs" "j \<noteq> i" "cs ! j < 10" "cs ! j \<noteq> cs ! i" by blast
      let ?ns = "cs[i := cs ! j, j := cs ! i]"
      have "any_small ?ns"
        unfolding any_small_def using small i(1) j(1) by (simp add: set_swap any_small_def)
      then have "hides_as cs ?ns"
        using i(1) j low nth_nn by (intro exchange_below [OF nn]) auto
      then show ?thesis using i(1) j by (intro exI [of _ ?ns]) simp
    next
      case same: False
      have v: "cs ! i = cs ! p"
      proof (cases "p = i")
        case False
        have "cs ! p < 10" using p by simp
        then have "cs ! p = cs ! i" using same p(1) False by blast
        then show ?thesis ..
      qed simp
      show ?thesis
      proof (cases "\<exists>j < length cs. j \<noteq> i \<and> cs ! j < 10")
        case True
        then obtain j where j: "j < length cs" "j \<noteq> i" "cs ! j < 10" by blast
        then have vj: "cs ! j = cs ! i" using same by blast
        let ?ns = "cs[i := cs ! i + 1, j := cs ! j - 1]"
        have "any_small ?ns"
        proof (cases "cs ! p = 4")
          case True
          then show ?thesis using j v vj by (intro any_small_at [of j]) simp_all
        next
          case False
          then show ?thesis using i(1) j v p by (intro any_small_at [of i]) simp_all
        qed
        then have "hides_as cs ?ns"
          using i(1) j v vj p by (intro exchange_below [OF nn]) auto
        then show ?thesis using i(1) j by (intro exI [of _ ?ns]) simp
      next
        case only: False
        then have pi: "p = i" using p by force
        have "light_sum (cs[i := 0]) = 0"
        proof (rule light_sum_zero)
          fix j assume "j < length (cs[i := 0])"
          then show "light (cs[i := 0] ! j) = 0" using only by (cases "j = i") (auto simp: light_def)
        qed
        then have few: "light_sum cs < 5" using i(1) low p pi by (simp add: light_sum_put light_def)
        have "\<forall>j < length cs. j \<noteq> p \<longrightarrow> \<not> (0 < cs ! j \<and> cs ! j < 5)" using only pi by fastforce
        then show ?thesis using alone [OF few] pi by blast
      qed
    qed
  next
    case high: False
    have nb: "\<not> below_two cs ! i" using high i(1) by (simp add: below_two_def)
    have few: "light_sum cs < 5" and ik: "i = ?k"
      using i(2) nb by (auto simp: cover_def nth_list_update split: if_splits; metis nth_list_update_neq)+
    show ?thesis
    proof (cases "\<exists>j < length cs. 1 < cs ! j \<and> cs ! j < 5")
      case True
      then obtain q where q: "q < length cs" "1 < cs ! q" "cs ! q < 5" by blast
      have k: "?k < length cs" using i(1) ik by simp
      have qk: "q \<noteq> ?k" using q high ik by auto
      let ?ns = "cs[q := cs ! q - 1, ?k := cs ! ?k + 1]"
      have "hides_as cs ?ns"
        using q qk k few high ik
        by (intro exchange_cover [OF nn few _ _ refl k]) (auto intro!: any_small_at [of q])
      then show ?thesis using k ik by (intro exI [of _ ?ns]) simp
    next
      case ones: False
      show ?thesis
      proof (cases "\<exists>j < length cs. j \<noteq> p \<and> cs ! j = 1")
        case True
        then obtain q where q: "q < length cs" "q \<noteq> p" "cs ! q = 1" by blast
        have k: "?k < length cs" using i(1) ik by simp
        have qk: "q \<noteq> ?k" "p \<noteq> ?k" using q p high ik by auto
        let ?ns = "cs[q := cs ! q - 1, ?k := cs ! ?k + 1]"
        have "any_small ?ns" using p q qk by (intro any_small_at [of p]) simp_all
        then have "hides_as cs ?ns"
          using q qk k few high ik by (intro exchange_cover [OF nn few _ _ refl k]) auto
        then show ?thesis using k ik by (intro exI [of _ ?ns]) simp
      next
        case False
        have "\<forall>j < length cs. j \<noteq> p \<longrightarrow> \<not> (0 < cs ! j \<and> cs ! j < 5)"
          using False ones by (metis int_one_le_iff_zero_less order_le_less)
        then show ?thesis using alone [OF few] ik by auto
      qed
    qed
  qed
qed

end
