(* ===== verification/Survey_Release.thy ===== *)
theory Survey_Release
  imports Survey_Cells
begin

text \<open>
  How a snapshot is released: stored questions the release cannot tell apart, the forms a question is
  released in, and what the validation of the stored models establishes.
\<close>

section \<open>Another snapshot with the same release\<close>

definition put_counts :: "(int \<Rightarrow> rat option) \<Rightarrow> int list \<Rightarrow> aggregate_count list \<Rightarrow> aggregate_count list" where
  "put_counts share ns bs = map (\<lambda>(b, n). b\<lparr>ac_count := n, ac_percentage := share n\<rparr>) (zip bs ns)"

definition recount :: "(int \<Rightarrow> rat option) \<Rightarrow> int list \<Rightarrow> question_aggregate \<Rightarrow> question_aggregate" where
  "recount share ns q = q\<lparr>qa_counts := put_counts share ns (qa_counts q)\<rparr>"

definition with_figures :: "rat option \<times> rat option \<times> rat option \<times> rat option \<times> rat option
    \<Rightarrow> question_aggregate \<Rightarrow> question_aggregate" where
  "with_figures = (\<lambda>(sm, mn, lo, hi, np) q.
     q\<lparr>qa_sum := sm, qa_mean := mn, qa_minimum := lo, qa_maximum := hi, qa_nps := np\<rparr>)"

definition nps_ok :: "rat option \<times> rat option \<times> rat option \<times> rat option \<times> rat option \<Rightarrow> bool" where
  "nps_ok = (\<lambda>(_, _, _, _, np). case np of None \<Rightarrow> True | Some n \<Rightarrow> - 100 \<le> n \<and> n \<le> 100)"

text \<open>Two stored questions the release cannot tell apart.\<close>

definition alike :: "question_aggregate \<Rightarrow> question_aggregate \<Rightarrow> bool" where
  "alike p q \<longleftrightarrow> qa_question_id p = qa_question_id q \<and> qa_title p = qa_title q \<and> qa_kind p = qa_kind q
     \<and> qa_relevant p = qa_relevant q \<and> qa_answered p = qa_answered q \<and> qa_unanswered p = qa_unanswered q
     \<and> qa_hidden p = qa_hidden q \<and> qa_invalid p = qa_invalid q
     \<and> map ac_value (qa_counts p) = map ac_value (qa_counts q) \<and> release_question p = release_question q"

lemma alike_refl [simp]: "alike q q"
  by (simp add: alike_def)

lemma alike_withheld: "alike p q \<Longrightarrow> withheld_question p b = withheld_question q b"
  by (simp add: alike_def withheld_question_def Let_def)

lemma alike_keys: "alike p q \<Longrightarrow> option_keys p = option_keys q"
  by (simp add: alike_def option_keys_def)

lemma alike_lookup:
  assumes "list_all2 alike ps qs"
  shows "rel_option alike (questions_by_id ps n) (questions_by_id qs n)"
proof -
  have *: "rel_option alike (map_of (map (\<lambda>q. (qa_question_id q, q)) xs) n) (map_of (map (\<lambda>q. (qa_question_id q, q)) ys) n)"
    if "list_all2 alike xs ys" for xs ys
    using that by (induction rule: list_all2_induct) (auto simp: alike_def)
  have "list_all2 alike (rev ps) (rev qs)" using assms by simp
  from * [OF this] show ?thesis by (simp add: questions_by_id_def rev_map)
qed

lemma alike_classify:
  assumes "\<And>n. rel_option alike (f n) (g n)"
  shows "classify leaves f = classify leaves g"
proof (cases leaves)
  case (Cons l ls)
  show ?thesis
  proof (cases ls)
    case Nil
    obtain n opr lt where l: "l = (n, opr, lt)" by (cases l) auto
    show ?thesis
      using assms [of n]
    proof (cases rule: option.rel_cases)
      case (Some p q)
      then have pq: "qa_kind p = qa_kind q" "qa_invalid p = qa_invalid q" by (simp_all add: alike_def)
      have ok: "option_keys p = option_keys q" using Some(3) by (rule alike_keys)
      show ?thesis unfolding Cons Nil l classify_def list.case prod.case Some(1,2) option.case pq ok ..
    next
      case None
      show ?thesis unfolding Cons Nil l classify_def list.case prod.case None option.case ..
    qed
  qed (simp add: classify_def Cons)
qed (simp add: classify_def)

lemma alike_step:
  assumes "alike p q" "\<And>n. rel_option alike (f n) (g n)"
  shows "release_step b t deps f st p = release_step b t deps g st q"
proof -
  have cl: "classify ls f = classify ls g" for ls using alike_classify [OF assms(2)] .
  have ids: "qa_question_id p = qa_question_id q" "qa_relevant p = qa_relevant q" "qa_hidden p = qa_hidden q"
    "release_question p = release_question q"
    using assms(1) by (simp_all add: alike_def)
  have w: "withhold p st' = withhold q st'" "show_question p st' = show_question q st'" for st'
    unfolding withhold_def show_question_def ids alike_withheld [OF assms(1)] by (rule refl)+
  show ?thesis
    unfolding release_step_def ids cl w alike_withheld [OF assms(1)] ..
qed

lemma alike_fold:
  assumes "list_all2 alike ps qs" "\<And>n. rel_option alike (f n) (g n)"
  shows "fold_res (release_step b t deps f) st ps = fold_res (release_step b t deps g) st qs"
  using assms(1)
  by (induction arbitrary: st rule: list_all2_induct) (simp_all add: alike_step [OF _ assms(2)])

lemma alike_map:
  assumes "list_all2 alike ps qs"
  shows "map (\<lambda>q. h (qa_question_id q)) ps = map (\<lambda>q. h (qa_question_id q)) qs"
    and "map_res release_question ps = map_res release_question qs"
    and "map (\<lambda>q. withheld_question q b) ps = map (\<lambda>q. withheld_question q b) qs"
    and "map_res (\<lambda>q. if qa_hidden q = 0 then release_question q else Inr (withheld_question q True)) ps
      = map_res (\<lambda>q. if qa_hidden q = 0 then release_question q else Inr (withheld_question q True)) qs"
    and "list_ex (\<lambda>q. qa_hidden q > 0) ps = list_ex (\<lambda>q. qa_hidden q > 0) qs"
  using assms
  by (induction rule: list_all2_induct) (auto simp: alike_withheld; simp add: alike_def)+

lemma alike_disclose:
  assumes "list_all2 alike qs (sn_questions s)"
  shows "disclose (s\<lparr>sn_questions := qs\<rparr>) = disclose s"
proof -
  let ?s = "s\<lparr>sn_questions := qs\<rparr>"
  have lk: "rel_option alike (questions_by_id qs n) (questions_by_id (sn_questions s) n)" for n
    by (rule alike_lookup) fact
  have cl: "classify ls (questions_by_id qs) = classify ls (questions_by_id (sn_questions s))" for ls
    by (rule alike_classify) (rule lk)
  have sel: "sn_questions ?s = qs" "sn_policy ?s = sn_policy s" "sn_last_page_counts ?s = sn_last_page_counts s"
    "sn_participation_count ?s = sn_participation_count s"
    by simp_all
  have shown: "map (\<lambda>q. the (rl_shown st (qa_question_id q))) qs
      = map (\<lambda>q. the (rl_shown st (qa_question_id q))) (sn_questions s)" for st
    by (rule alike_map(1) [OF assms])
  have wd: "with_dependencies ?s d = with_dependencies s d" for d
    unfolding with_dependencies_def Let_def sel alike_fold [OF assms lk] cl shown ..
  have cons: "conservative ?s = conservative s"
    unfolding conservative_def by (simp add: alike_map(4,5) [OF assms])
  have "released_parts ?s = released_parts s"
    unfolding released_parts_def Let_def sel alike_map(2,3) [OF assms] wd cons by simp
  moreover have "status_hidden ?s = status_hidden s" by (rule ext) (simp add: status_hidden_def)
  moreover have "sn_id ?s = sn_id s" "sn_survey_id ?s = sn_survey_id s" "sn_created_at ?s = sn_created_at s"
    "sn_filter ?s = sn_filter s" "sn_version_number ?s = sn_version_number s"
    "sn_renderer_version ?s = sn_renderer_version s" "sn_capability_profile ?s = sn_capability_profile s"
    "sn_status_counts ?s = sn_status_counts s"
    by simp_all
  ultimately show ?thesis unfolding disclose_def sel by (simp only:)
qed

lemma question_counts_single:
  "qa_kind q \<in> {Kind_Radiogroup, Kind_Dropdown, Kind_Rating} \<Longrightarrow> question_counts q
     = map (\<lambda>(b, h). release_bucket b h) (zip (qa_counts q) (protect (map ac_count (qa_counts q)) (Some (qa_answered q))))"
  by (auto simp: question_counts_def release_counts_def Let_def)

lemma put_counts_nth:
  "length ns = length bs \<Longrightarrow> k < length bs \<Longrightarrow> put_counts share ns bs ! k = (bs ! k)\<lparr>ac_count := ns ! k, ac_percentage := share (ns ! k)\<rparr>"
  by (simp add: put_counts_def)

lemma put_counts_facts:
  assumes "length ns = length bs"
  shows "length (put_counts share ns bs) = length bs" "map ac_count (put_counts share ns bs) = ns"
    "map ac_value (put_counts share ns bs) = map ac_value bs"
  using assms by (auto simp: put_counts_def intro!: nth_equalityI)

text \<open>The released form of a question that is not withheld as a whole.\<close>

lemma release_question_open:
  assumes "release_question q = Inr d" "\<not> rq_suppressed d"
  shows "\<not> (one_option q \<and> list_ex (\<lambda>h. h) (protect [qa_answered q, qa_unanswered q] (Some (qa_relevant q))))"
    and "\<not> small_group (qa_answered q)" and "rq_counts d = question_counts q"
    and "rq_matrix_rows d = release_rows q"
proof -
  show a: "\<not> (one_option q \<and> list_ex (\<lambda>h. h) (protect [qa_answered q, qa_unanswered q] (Some (qa_relevant q))))"
    using assms unfolding release_question_def by (auto simp: withheld_question_def Let_def)
  show b: "\<not> small_group (qa_answered q)"
    using assms a unfolding release_question_def by (auto simp: withheld_question_def Let_def split: if_splits)
  show "rq_counts d = question_counts q" "rq_matrix_rows d = release_rows q"
    using assms(1) unfolding release_question_def Let_def if_not_P [OF a] if_not_P [OF b] then_res_Inr_iff by auto
qed

lemma release_question_linked:
  assumes "\<not> (one_option q \<and> list_ex (\<lambda>h. h) (protect [qa_answered q, qa_unanswered q] (Some (qa_relevant q))))"
    and "\<not> small_group (qa_answered q)" "list_ex rc_suppressed (question_counts q)"
  shows "release_question q = Inr \<lparr>rq_question_id = qa_question_id q, rq_title = qa_title q, rq_kind = qa_kind q,
     rq_relevant = Some (qa_relevant q), rq_answered = Some (qa_answered q),
     rq_unanswered = Some (qa_unanswered q), rq_hidden = Some (qa_hidden q),
     rq_invalid = Some (qa_invalid q), rq_counts = question_counts q, rq_mean = None, rq_minimum = None,
     rq_maximum = None, rq_nps = None, rq_matrix_rows = release_rows q, rq_suppressed = False,
     rq_nps_segments = None, rq_unreleased_condition = False\<rparr>"
proof -
  have l: "list_ex rc_suppressed (question_counts q) = True" using assms(3) by simp
  show ?thesis
    unfolding release_question_def Let_def if_not_P [OF assms(1)] if_not_P [OF assms(2)] l
    by simp
qed

lemma alike_recount:
  assumes nn: "list_all (\<lambda>b. 0 \<le> ac_count b \<and> ac_percentage b = share (ac_count b)) (qa_counts q)"
    and kind: "qa_kind q \<in> {Kind_Radiogroup, Kind_Dropdown, Kind_Rating}"
    and sums: "count_sum (qa_counts q) = qa_answered q"
    and d: "release_question q = Inr d" and i: "i < length (rq_counts d)" "rc_suppressed (rq_counts d ! i)"
  obtains ns where "hides_as (map ac_count (qa_counts q)) ns" "i < length (qa_counts q)"
    "ns ! i \<noteq> ac_count (qa_counts q ! i)" "\<And>fs. alike (with_figures fs (recount share ns q)) q"
proof -
  let ?cs = "map ac_count (qa_counts q)"
  have nosup: "\<not> rq_suppressed d"
  proof
    assume "rq_suppressed d"
    then have "rq_counts d = []"
      using d unfolding release_question_def Let_def
      by (auto simp: withheld_question_def Let_def res_simps split: if_splits)
    then show False using i by simp
  qed
  note opn = release_question_open [OF d nosup]
  note qc = question_counts_single [OF kind]
  have il: "i < length (qa_counts q)" using i(1) unfolding opn(3) qc by simp
  have hid: "protect ?cs (Some (qa_answered q)) ! i"
    using i unfolding opn(3) qc by (simp add: release_bucket_def)
  have nnc: "list_all (\<lambda>c. 0 \<le> c) ?cs" using nn by (auto simp: list_all_iff)
  have small: "any_small ?cs"
  proof (rule ccontr)
    assume "\<not> any_small ?cs"
    then have "\<not> protect ?cs (Some (qa_answered q)) ! i" using il by (simp add: protect_none)
    then show False using hid by blast
  qed
  note pc = protect_cover [OF nnc small, of "qa_answered q"]
  obtain p where p: "p < length ?cs" "0 < ?cs ! p" using small by (rule any_small_obtains)
  have "?cs ! p \<le> sum_list ?cs" using p nnc by (intro member_le_sum_list) (auto simp: list_all_iff)
  then have "5 \<le> sum_list ?cs" using p opn(2) sums by (simp add: small_group_def group_size_def count_sum_def)
  from withheld_cell_open [OF nnc this small, of i] obtain ns
    where ns: "hides_as ?cs ns" "ns ! i \<noteq> ?cs ! i" using il hid pc by auto
  have len: "length ns = length (qa_counts q)" using ns(1) by (simp add: hides_as_def)
  have "alike (with_figures fs (recount share ns q)) q" for fs
  proof -
    let ?q = "with_figures fs (recount share ns q)"
    have cnt: "qa_counts ?q = put_counts share ns (qa_counts q)"
      by (cases fs) (simp add: with_figures_def recount_def)
    have same: "qa_question_id ?q = qa_question_id q" "qa_title ?q = qa_title q" "qa_kind ?q = qa_kind q"
      "qa_relevant ?q = qa_relevant q" "qa_answered ?q = qa_answered q" "qa_unanswered ?q = qa_unanswered q"
      "qa_hidden ?q = qa_hidden q" "qa_invalid ?q = qa_invalid q" "qa_matrix_rows ?q = qa_matrix_rows q"
      by (cases fs; simp add: with_figures_def recount_def)+
    have p2: "protect ns (Some (qa_answered q)) = protect ?cs (Some (qa_answered q))"
      using protect_cover [of ns "qa_answered q"] ns(1) pc by (simp add: hides_as_def)
    have agree: "ns ! k = ac_count (qa_counts q ! k)"
      if "k < length (qa_counts q)" "\<not> protect ?cs (Some (qa_answered q)) ! k" for k
      using ns(1) that unfolding hides_as_def pc by auto
    have "question_counts ?q = map (\<lambda>(b, h). release_bucket b h)
        (zip (put_counts share ns (qa_counts q)) (protect ns (Some (qa_answered q))))"
      using question_counts_single [of ?q] kind unfolding same cnt put_counts_facts(2) [OF len] by simp
    also have "\<dots> = question_counts q"
      unfolding qc p2
    proof (rule nth_equalityI)
      fix k assume "k < length (map (\<lambda>(b, h). release_bucket b h)
        (zip (put_counts share ns (qa_counts q)) (protect ?cs (Some (qa_answered q)))))"
      then have k: "k < length (qa_counts q)" by (simp add: put_counts_facts [OF len])
      then have sh: "ac_percentage (qa_counts q ! k) = share (ac_count (qa_counts q ! k))"
        using nn by (simp add: list_all_length)
      show "map (\<lambda>(b, h). release_bucket b h)
          (zip (put_counts share ns (qa_counts q)) (protect ?cs (Some (qa_answered q)))) ! k
        = map (\<lambda>(b, h). release_bucket b h) (zip (qa_counts q) (protect ?cs (Some (qa_answered q)))) ! k"
        using k agree [OF k] sh
        by (cases "protect ?cs (Some (qa_answered q)) ! k")
           (simp_all add: put_counts_facts [OF len] put_counts_nth [OF len] release_bucket_def)
    qed (simp add: put_counts_facts [OF len])
    finally have qcs: "question_counts ?q = question_counts q" .
    have oo: "one_option ?q = one_option q" "one_column ?q = one_column q"
      by (simp_all add: one_option_def one_column_def same cnt put_counts_facts [OF len])
    have rows: "release_rows ?q = release_rows q" by (simp add: release_rows_def oo same)
    have lk: "list_ex rc_suppressed (question_counts q)"
      using i unfolding opn(3) by (auto simp: list_ex_iff)
    have "release_question ?q = release_question q"
      using release_question_linked [of q] release_question_linked [of ?q] opn(1,2) lk
      unfolding qcs oo rows same by simp
    then show ?thesis by (simp add: alike_def same cnt put_counts_facts [OF len])
  qed
  then show ?thesis using that ns il by simp
qed

section \<open>The forms a question is released in\<close>

definition no_figures :: "released_question \<Rightarrow> released_question" where
  "no_figures d = d\<lparr>rq_mean := None, rq_minimum := None, rq_maximum := None\<rparr>"

inductive released_as :: "question_aggregate \<Rightarrow> released_question \<Rightarrow> bool" for q where
  withheld: "released_as q (withheld_question q True)"
| unreleased: "released_as q ((withheld_question q True)\<lparr>rq_unreleased_condition := True\<rparr>)"
| plain: "release_question q = Inr d \<Longrightarrow> released_as q d"
| stripped: "released_as q d \<Longrightarrow> released_as q (no_figures d)"

definition all_released_as :: "question_aggregate list \<Rightarrow> release_state \<Rightarrow> bool" where
  "all_released_as qs st \<longleftrightarrow>
     (\<forall>n x. rl_shown st n = Some x \<longrightarrow> (\<exists>q \<in> set qs. qa_question_id q = n \<and> released_as q x))"

lemma strip_figures_released: "all_released_as qs st \<Longrightarrow> all_released_as qs (strip_figures n st)"
proof (cases "rl_shown st n")
  case (Some d)
  assume st: "all_released_as qs st"
  then obtain q where "q \<in> set qs" "qa_question_id q = n" "released_as q d"
    using Some by (auto simp: all_released_as_def)
  then have "\<exists>q \<in> set qs. qa_question_id q = n
      \<and> released_as q (d\<lparr>rq_mean := None, rq_minimum := None, rq_maximum := None\<rparr>)"
    using stripped [of q d] by (auto simp: no_figures_def)
  then show ?thesis using st Some by (auto simp: strip_figures_def all_released_as_def)
qed (simp add: strip_figures_def)

lemma show_question_released:
  assumes "show_question q st = Inr st'" "all_released_as qs st" "q \<in> set qs"
  shows "all_released_as qs st' \<and> dom (rl_shown st') = insert (qa_question_id q) (dom (rl_shown st))"
  using assms released_as.plain [of q]
  by (auto simp: show_question_def all_released_as_def res_simps split: if_splits)

lemma withhold_released:
  assumes "all_released_as qs st" "q \<in> set qs"
  shows "all_released_as qs (withhold q st)" "dom (rl_shown (withhold q st)) = insert (qa_question_id q) (dom (rl_shown st))"
  using assms released_as.withheld [of q] by (auto simp: withhold_def all_released_as_def)

lemma dom_strip [simp]: "dom (rl_shown (strip_figures n st)) = dom (rl_shown st)"
  by (auto simp: strip_figures_def split: option.splits if_splits)

lemma release_step_cases:
  assumes "release_step b t deps f st q = Inr st'"
  obtains (opaque) "st' = withhold q st"
    | (unreleased) "st' = (withhold q st)\<lparr>rl_shown := (rl_shown (withhold q st))(qa_question_id q \<mapsto>
         (withheld_question q True)\<lparr>rq_unreleased_condition := True\<rparr>)\<rparr>"
    | (strip) u n where "st' = strip_figures n (withhold q (st\<lparr>rl_used := u\<rparr>))"
    | (shown) u where "show_question q (st\<lparr>rl_used := u\<rparr>) = Inr st'"
    | (plainly) "show_question q st = Inr st'"
proof -
  obtain shape source where cl: "classify (leaves_of deps (qa_question_id q)) f = Inr (shape, source)"
    using assms unfolding release_step_def Let_def then_res_Inr_iff by auto
  note run = assms [unfolded release_step_def Let_def cl then_res_simps prod.case]
  let ?c1 = "shape = Shape_Opaque \<or> (source \<noteq> None \<and> blocked st (the source))"
  let ?c3 = "list_ex (\<lambda>h. h) (protect [qa_relevant q, qa_hidden q] (Some t))"
  show thesis
  proof (cases ?c1)
    case True
    then have "st' = withhold q st" using run unfolding if_P [OF True] by simp
    then show thesis by (rule opaque)
  next
    case c1: False
    note run = run [unfolded if_not_P [OF c1]]
    show thesis
    proof (cases "shape = Shape_New")
      case False
      then have "show_question q st = Inr st'" using run by simp
      then show thesis by (rule plainly)
    next
      case new: True
      have n1: "\<not> (shape = Shape_New \<and> b)" if "\<not> b" using that by simp
      note taken = if_P [OF new]
      show thesis
      proof (cases b)
        case True
        then show thesis using run new by (intro unreleased) simp
      next
        case nb: False
        note run = run [unfolded if_not_P [OF n1 [OF nb]] taken]
        let ?c2 = "rl_used st (the source) \<noteq> None
          \<and> rl_used st (the source) \<noteq> Some (hd (leaves_of deps (qa_question_id q)))"
        show thesis
        proof (cases ?c2)
          case True
          then have "st' = withhold q st" using run unfolding if_P [OF True] by simp
          then show thesis by (rule opaque)
        next
          case c2: False
          note run = run [unfolded if_not_P [OF c2]]
          show thesis
          proof (cases ?c3)
            case True
            then show thesis using run unfolding if_P [OF True]
              by (intro strip [where n = "the source" and u = "(rl_used st)(the source \<mapsto> hd (leaves_of deps (qa_question_id q)))"]) simp
          next
            case c3: False
            have "show_question q (st\<lparr>rl_used := (rl_used st)(the source \<mapsto> hd (leaves_of deps (qa_question_id q)))\<rparr>)
              = Inr st'" using run unfolding if_not_P [OF c3] .
            then show thesis by (rule shown)
          qed
        qed
      qed
    qed
  qed
qed

lemma release_step_released:
  assumes "release_step b t deps f st q = Inr st'" "all_released_as qs st" "q \<in> set qs"
  shows "all_released_as qs st' \<and> dom (rl_shown st') = insert (qa_question_id q) (dom (rl_shown st))"
proof -
  note wh = withhold_released [OF assms(2,3)]
  have used: "all_released_as qs (st\<lparr>rl_used := u\<rparr>)" for u using assms(2) by (simp add: all_released_as_def)
  from assms(1) show ?thesis
  proof (cases rule: release_step_cases)
    case unreleased
    then show ?thesis using wh assms(3) released_as.unreleased [of q] by (auto simp: all_released_as_def)
  next
    case strip
    then show ?thesis using strip_figures_released withhold_released [OF used assms(3)] by simp
  next
    case shown
    from show_question_released [OF this used assms(3)] show ?thesis by simp
  next
    case plainly
    from show_question_released [OF this assms(2,3)] show ?thesis .
  qed (use wh in simp)
qed

lemma release_fold_released:
  assumes "fold_res (release_step b t deps f) st qs = Inr st'" "all_released_as all st" "set qs \<subseteq> set all"
  shows "all_released_as all st' \<and> dom (rl_shown st') = qa_question_id ` set qs \<union> dom (rl_shown st)"
  using assms
proof (induction qs arbitrary: st)
  case (Cons q qs)
  then obtain st1 where st1: "release_step b t deps f st q = Inr st1"
    "fold_res (release_step b t deps f) st1 qs = Inr st'" by (auto simp: res_simps)
  have "all_released_as all st1 \<and> dom (rl_shown st1) = insert (qa_question_id q) (dom (rl_shown st))"
    using release_step_released [OF st1(1) Cons.prems(2)] Cons.prems(3) by simp
  then show ?case using Cons.IH [OF st1(2)] Cons.prems(3) by auto
qed simp

lemma release_pages_released:
  assumes "release_pages t pages ls shapes st = Inr (hidden, st')" "all_released_as qs st"
  shows "all_released_as qs st' \<and> dom (rl_shown st') = dom (rl_shown st) \<and> length hidden = length pages"
proof -
  have "(st' = st \<or> (\<exists>n. st' = strip_figures n st)) \<and> length hidden = length pages"
    using assms(1) unfolding release_pages_def Let_def
    by (auto split: if_splits list.splits)
  then show ?thesis
  proof (elim conjE disjE exE)
    fix n assume "st' = strip_figures n st" "length hidden = length pages"
    then show ?thesis using strip_figures_released [OF assms(2)] dom_strip by metis
  qed (use assms(2) in simp)
qed

text \<open>Every released question is a form of a stored one with its identifier.\<close>

lemma released_questions:
  assumes "released_parts s = Inr (rqs, hidden)"
  shows "length rqs = length (sn_questions s)"
    and "j < length rqs \<Longrightarrow> \<exists>q \<in> set (sn_questions s). qa_question_id q = qa_question_id (sn_questions s ! j)
      \<and> released_as q (rqs ! j)"
    and "length hidden = length (sn_last_page_counts s)"
proof -
  let ?qs = "sn_questions s"
  have direct: "length rqs = length ?qs \<and> (j < length rqs \<longrightarrow> (\<exists>q \<in> set ?qs. qa_question_id q = qa_question_id (?qs ! j)
      \<and> released_as q (rqs ! j)))" if "list_all2 released_as ?qs rqs" for j
    using that by (auto simp: list_all2_conv_all_nth)
  have run: "map_res f ?qs = Inr rqs \<Longrightarrow> list_all2 released_as ?qs rqs"
    if "\<And>q x. f q = Inr x \<Longrightarrow> released_as q x" for f
    using that by (auto simp: map_res_Inr_iff elim!: list_all2_mono)
  have from_cons: "list_all2 released_as ?qs rqs \<and> length hidden = length (sn_last_page_counts s)"
    if "conservative s = Inr (rqs, hidden)"
  proof -
    have "map_res (\<lambda>q. if qa_hidden q = 0 then release_question q else Inr (withheld_question q True)) ?qs = Inr rqs"
      "length hidden = length (sn_last_page_counts s)"
      using that by (auto simp: conservative_def Let_def res_simps)
    moreover have "released_as q x"
      if "(if qa_hidden q = 0 then release_question q else Inr (withheld_question q True)) = Inr x" for q x
      using that by (auto intro: released_as.intros split: if_splits)
    moreover note run [of "\<lambda>q. if qa_hidden q = 0 then release_question q else Inr (withheld_question q True)"]
    ultimately show ?thesis by simp
  qed
  have from_deps: "length rqs = length ?qs \<and> (j < length rqs \<longrightarrow> (\<exists>q \<in> set ?qs. qa_question_id q = qa_question_id (?qs ! j)
      \<and> released_as q (rqs ! j))) \<and> length hidden = length (sn_last_page_counts s)"
    if w: "with_dependencies s d = Inr (rqs, hidden)" for d j
  proof -
    obtain st pl shapes st1 where st: "fold_res (release_step (sn_policy s = Settled) (sn_participation_count s)
          (the (de_question_leaves d)) (questions_by_id ?qs)) start_release ?qs = Inr st"
      and st1: "release_pages (sn_participation_count s) (sn_last_page_counts s) pl shapes st = Inr (hidden, st1)"
      and rqs: "rqs = map (\<lambda>q. the (rl_shown st1 (qa_question_id q))) ?qs"
      using w unfolding with_dependencies_def Let_def by (auto simp: res_simps split: option.splits)
    have "all_released_as ?qs start_release" "dom (rl_shown start_release) = {}"
      by (simp_all add: all_released_as_def start_release_def)
    then have a: "all_released_as ?qs st" "dom (rl_shown st) = qa_question_id ` set ?qs"
      using release_fold_released [OF st _ order_refl] by auto
    from release_pages_released [OF st1 a(1)]
    have b: "all_released_as ?qs st1" "dom (rl_shown st1) = qa_question_id ` set ?qs"
      "length hidden = length (sn_last_page_counts s)" using a(2) by auto
    have "\<exists>q \<in> set ?qs. qa_question_id q = qa_question_id (?qs ! j) \<and> released_as q (rqs ! j)"
      if j: "j < length ?qs"
    proof -
      have "qa_question_id (?qs ! j) \<in> dom (rl_shown st1)" using b(2) j by auto
      then obtain x where "rl_shown st1 (qa_question_id (?qs ! j)) = Some x" by blast
      then show ?thesis using b(1) j rqs by (auto simp: all_released_as_def)
    qed
    then show ?thesis using rqs b(3) by simp
  qed
  have r: "length rqs = length ?qs \<and> (j < length rqs \<longrightarrow> (\<exists>q \<in> set ?qs. qa_question_id q = qa_question_id (?qs ! j)
      \<and> released_as q (rqs ! j))) \<and> length hidden = length (sn_last_page_counts s)" for j
  proof -
    consider (small) "rqs = map (\<lambda>q. withheld_question q True) ?qs" "length hidden = length (sn_last_page_counts s)"
      | (empty) "map_res release_question ?qs = Inr rqs" "length hidden = length (sn_last_page_counts s)"
      | (deps) d where "with_dependencies s d = Inr (rqs, hidden)"
      | (cons) "conservative s = Inr (rqs, hidden)"
      using assms unfolding released_parts_def Let_def
      by (auto simp: res_simps split: if_splits option.splits)
    then show ?thesis
    proof cases
      case small
      then have "list_all2 released_as ?qs rqs"
        by (simp add: list_all2_conv_all_nth released_as.withheld)
      then show ?thesis using direct small by blast
    next
      case empty
      then have "list_all2 released_as ?qs rqs" using run [of release_question] released_as.plain by blast
      then show ?thesis using direct empty by blast
    next
      case deps
      then show ?thesis by (rule from_deps)
    next
      case cons
      then show ?thesis using from_cons direct by blast
    qed
  qed
  show "length rqs = length ?qs" "length hidden = length (sn_last_page_counts s)" using r by blast+
  show "\<exists>q \<in> set ?qs. qa_question_id q = qa_question_id (?qs ! j) \<and> released_as q (rqs ! j)" if "j < length rqs"
    using r that by blast
qed

lemma released_as_counts:
  "released_as q x \<Longrightarrow> rq_counts x \<noteq> [] \<Longrightarrow> \<exists>d. release_question q = Inr d \<and> rq_counts d = rq_counts x"
  by (induction rule: released_as.induct) (auto simp: withheld_question_def Let_def no_figures_def)

text \<open>What the stored models establish.\<close>

lemma snapshot_questions:
  assumes "analysis_snapshot_init s = Inr s" "q \<in> set (sn_questions s)"
  shows "question_aggregate_init q = Inr q"
proof -
  obtain qs where "map_res question_aggregate_init (sn_questions s) = Inr qs"
    using assms(1) unfolding analysis_snapshot_init_def then_res_Inr_iff by blast
  then obtain x where "question_aggregate_init q = Inr x"
    using assms(2) by (auto simp: map_res_Inr_iff list_all2_conv_all_nth in_set_conv_nth)
  then show ?thesis unfolding question_aggregate_init_def by (auto split: if_splits)
qed

lemma question_facts:
  assumes "question_aggregate_init q = Inr q"
  shows "list_all (\<lambda>b. 0 \<le> ac_count b) (qa_counts q)" "0 \<le> qa_answered q"
    and "\<forall>r \<in> set (qa_matrix_rows q). list_all (\<lambda>b. 0 \<le> ac_count b) (mr_counts r) \<and> 0 \<le> mr_answered r"
  using assms unfolding question_aggregate_init_def
  by (auto simp: list_all_iff aggregate_count_ok_def split: if_splits)

lemma recount_valid:
  assumes ok: "question_aggregate_init q = Inr q" and ns: "length ns = length (qa_counts q)"
    "list_all (\<lambda>c. 0 \<le> c) ns" "sum_list ns = qa_answered q"
    and share: "\<And>n. 0 \<le> n \<Longrightarrow> n \<le> qa_answered q \<Longrightarrow> (case share n of None \<Rightarrow> True | Some p \<Rightarrow> 0 \<le> p \<and> p \<le> 100)"
    and np: "nps_ok fs"
  shows "question_aggregate_init (with_figures fs (recount share ns q)) = Inr (with_figures fs (recount share ns q))"
proof -
  let ?q = "with_figures fs (recount share ns q)"
  have cnt: "qa_counts ?q = put_counts share ns (qa_counts q)"
    by (cases fs) (simp add: with_figures_def recount_def)
  have same: "qa_kind ?q = qa_kind q" "qa_relevant ?q = qa_relevant q" "qa_answered ?q = qa_answered q"
    "qa_unanswered ?q = qa_unanswered q" "qa_hidden ?q = qa_hidden q" "qa_invalid ?q = qa_invalid q"
    "qa_matrix_rows ?q = qa_matrix_rows q"
    by (cases fs; simp add: with_figures_def recount_def)+
  have le: "n \<le> qa_answered q" if "n \<in> set ns" for n
    using member_le_sum_list [of n ns] ns(2,3) that by (simp add: list_all_iff)
  have "list_all aggregate_count_ok (qa_counts ?q)"
    unfolding list_all_length cnt put_counts_facts [OF ns(1)]
  proof (intro allI impI)
    fix k assume k: "k < length (qa_counts q)"
    then have "option_value_ok (ac_value (qa_counts q ! k))"
      using ok unfolding question_aggregate_init_def
      by (auto simp: list_all_length aggregate_count_ok_def split: if_splits)
    moreover have "ns ! k \<in> set ns" using k ns(1) by simp
    ultimately show "aggregate_count_ok (put_counts share ns (qa_counts q) ! k)"
      using share [of "ns ! k"] le [of "ns ! k"] ns(2) k
      by (simp add: put_counts_nth [OF ns(1)] aggregate_count_ok_def list_all_iff)
  qed
  moreover have "case qa_nps ?q of None \<Rightarrow> True | Some n \<Rightarrow> - 100 \<le> n \<and> n \<le> 100"
    using np by (cases fs) (simp add: with_figures_def nps_ok_def)
  moreover have "\<not> list_ex (\<lambda>b. ac_count b > qa_answered q) (qa_counts ?q)"
  proof
    assume "list_ex (\<lambda>b. ac_count b > qa_answered q) (qa_counts ?q)"
    then obtain n where "n \<in> set (map ac_count (qa_counts ?q))" "n > qa_answered q" by (auto simp: list_ex_iff)
    then show False using le unfolding cnt put_counts_facts [OF ns(1)] by fastforce
  qed
  moreover have "(qa_counts ?q = []) = (qa_counts q = [])"
    unfolding cnt using put_counts_facts(1) [OF ns(1)] by (metis length_0_conv)
  ultimately show ?thesis
    using ok unfolding question_aggregate_init_def same by (auto split: if_splits)
qed

lemma questions_put_valid:
  assumes ok: "analysis_snapshot_init s = Inr s" and j: "j < length (sn_questions s)"
    and q: "question_aggregate_init q = Inr q" "qa_relevant q = qa_relevant (sn_questions s ! j)"
      "qa_hidden q = qa_hidden (sn_questions s ! j)"
  shows "analysis_snapshot_init (s\<lparr>sn_questions := (sn_questions s)[j := q]\<rparr>)
    = Inr (s\<lparr>sn_questions := (sn_questions s)[j := q]\<rparr>)"
proof -
  let ?qs = "(sn_questions s)[j := q]"
  have "map_res question_aggregate_init ?qs = Inr (map (\<lambda>x. x) ?qs)"
  proof (rule map_res_pure)
    fix x assume "x \<in> set ?qs"
    then have "x = q \<or> x \<in> set (sn_questions s)" using set_update_subset_insert by fastforce
    then show "question_aggregate_init x = Inr x" using q(1) snapshot_questions [OF ok] by blast
  qed
  then have m: "map_res question_aggregate_init ?qs = Inr ?qs" by simp
  have "list_ex (\<lambda>x. qa_relevant x + qa_hidden x \<noteq> sn_participation_count s) ?qs
      = list_ex (\<lambda>x. qa_relevant x + qa_hidden x \<noteq> sn_participation_count s) (sn_questions s)"
    using q(2,3) j by (auto simp: list_ex_length nth_list_update)
  then show ?thesis
    using ok unfolding analysis_snapshot_init_def by (auto simp: m res_simps split: if_splits)
qed

end
