(* ===== verification/Survey_Secrecy.thy ===== *)
theory Survey_Secrecy
  imports Survey_Release
begin

text \<open>
  What the released aggregates keep secret: no withheld count can be worked out from the release,
  nothing below the group size is shown, a selection that is too small shows nothing at all, and conditions give
  nothing away.
\<close>

lemma disclose_parts:
  assumes "disclose s = Inr r"
  obtains hidden where "released_parts s = Inr (rs_questions r, hidden)"
    "rs_participation_count r = (if small_group (sn_participation_count s) then None else Some (sn_participation_count s))"
    "rs_status_counts r = (\<lambda>k. if status_hidden s k then None else Some (sn_status_counts s k))"
    "rs_last_page_counts r = (if sn_policy s = Settled then []
      else map (\<lambda>(p, h). \<lparr>rp_page_id = lp_page_id p, rp_title = lp_title p,
        rp_count = (if h then None else Some (lp_count p))\<rparr>) (zip (sn_last_page_counts s) hidden))"
  using assms unfolding disclose_def by (auto simp: res_simps)

section \<open>Nothing below the group size\<close>

definition floor_ok :: "int option \<Rightarrow> bool" where
  "floor_ok n \<longleftrightarrow> (case n of None \<Rightarrow> True | Some c \<Rightarrow> c = 0 \<or> group_size \<le> c)"

definition count_floor :: "released_count \<Rightarrow> bool" where
  "count_floor b \<longleftrightarrow> floor_ok (rc_count b) \<and> (rc_count b = None \<longrightarrow> rc_percentage b = None)"

definition figures_floor :: "released_question \<Rightarrow> bool" where
  "figures_floor x \<longleftrightarrow> (rq_mean x, rq_minimum x, rq_maximum x, rq_nps x) = (None, None, None, None) \<and> rq_nps_segments x = None
     \<or> \<not> rq_suppressed x \<and> \<not> list_ex rc_suppressed (rq_counts x) \<and> floor_ok (rq_answered x)"

definition question_floor :: "released_question \<Rightarrow> bool" where
  "question_floor x \<longleftrightarrow> list_all count_floor (rq_counts x)
     \<and> list_all (\<lambda>r. list_all count_floor (rr_counts r)) (rq_matrix_rows x)
     \<and> figures_floor x \<and> (rq_kind x = Kind_Number \<longrightarrow> rq_minimum x = None \<and> rq_maximum x = None)"

lemma protect_shown:
  assumes "list_all (\<lambda>c. 0 \<le> c) cs" "k < length cs" "\<not> protect cs known ! k"
  shows "cs ! k = 0 \<or> group_size \<le> cs ! k"
proof (cases "any_small cs \<and> known \<noteq> None")
  case True
  then have "\<not> cover cs ! k" using protect_cover [OF assms(1)] assms(3) by auto
  then show ?thesis using below_cover [of k cs] assms(2) by (auto simp: group_size_def)
next
  case False
  then have "protect cs known = map small_group cs"
    using protect_none [of cs known] by (auto simp: protect_def any_small_def small_group_def group_size_def)
  then show ?thesis using assms by (auto simp: small_group_def list_all_length)
qed

lemma complete_from_keeps: "hs ! k \<Longrightarrow> k < length hs \<Longrightarrow> complete_from cs ks hs ! k"
proof (induction ks arbitrary: hs)
  case (Cons a ks)
  then show ?case using Cons.IH [of "hs[a := True]"] by (cases "a = k") simp_all
qed simp

lemma choices_shown:
  assumes "list_all (\<lambda>c. 0 \<le> c) cs" "k < length cs" "\<not> protect_choices cs n ! k"
  shows "(cs ! k = 0 \<or> group_size \<le> cs ! k) \<and> (cs ! k \<ge> n \<or> group_size \<le> n - cs ! k)"
proof (cases "small_group (sum_list cs - n) \<or> list_ex (\<lambda>c. small_group c \<or> small_group (n - c)) cs")
  case True
  then have "\<not> (cs ! k < 2 * group_size \<or> n - cs ! k < 2 * group_size)"
    using assms(2,3) complete_from_keeps [of "map (\<lambda>c. c < 2 * group_size \<or> n - c < 2 * group_size) cs" k]
    by (auto simp: protect_choices_def complete_hidden_def)
  then show ?thesis by (auto simp: group_size_def)
next
  case False
  then have "\<not> small_group (cs ! k)" "\<not> small_group (n - cs ! k)" using assms(2) by (auto simp: list_ex_iff)
  then show ?thesis using assms(1,2) by (auto simp: small_group_def list_all_length)
qed

lemma protect_choices_length [simp]: "length (protect_choices cs n) = length cs"
proof -
  have "length (complete_from cs ks hs) = length hs" for ks hs
    by (induction ks arbitrary: hs) auto
  then show ?thesis by (simp add: protect_choices_def complete_hidden_def)
qed

lemma release_counts_floor:
  assumes "list_all (\<lambda>b. 0 \<le> ac_count b) bs"
  shows "list_all count_floor (release_counts bs known choices)"
proof -
  have nn: "list_all (\<lambda>c. 0 \<le> c) (map ac_count bs)" using assms by (auto simp: list_all_iff)
  have one: "count_floor (release_bucket b h)" if "h \<or> ac_count b = 0 \<or> group_size \<le> ac_count b" for b h
    using that by (auto simp: count_floor_def floor_ok_def release_bucket_def)
  have "list_all count_floor (map (\<lambda>(b, h). release_bucket b h) (zip bs hs))"
    if "length hs = length bs" "\<And>k. k < length bs \<Longrightarrow> \<not> hs ! k \<Longrightarrow> ac_count (bs ! k) = 0 \<or> group_size \<le> ac_count (bs ! k)" for hs
    using that one by (auto simp: list_all_length)
  moreover note protect_shown [OF nn] choices_shown [OF nn]
  ultimately show ?thesis
    unfolding release_counts_def Let_def by (auto split: option.split)
qed

lemma protect_status:
  assumes nn: "\<And>k. 0 \<le> f k" and len: "length hs = length ks"
    and hs: "hs = map (\<lambda>_. True) ks \<or> hs = protect (map f ks) known" and m: "map_of (zip ks hs) k = Some False"
  shows "f k = 0 \<or> group_size \<le> f k"
proof -
  have "(k, False) \<in> set (zip ks hs)" using m by (rule map_of_SomeD)
  then obtain i where i: "i < length ks" "ks ! i = k" "\<not> hs ! i" using len by (auto simp: in_set_zip)
  then have "hs = protect (map f ks) known" using hs by auto
  then show ?thesis using protect_shown [of "map f ks" i known] i nn by (simp add: list_all_length)
qed

lemma status_shown:
  assumes "\<And>k. 0 \<le> sn_status_counts s k" "\<not> status_hidden s k"
  shows "sn_status_counts s k = 0 \<or> group_size \<le> sn_status_counts s k"
proof -
  define ks where "ks = af_statuses (sn_filter s)"
  define others where "others = filter (\<lambda>j. j \<notin> set ks) [In_Progress, Partial, Completed]"
  define hide where "hide = (\<lambda>ks t. if small_group (sn_participation_count s) then map (\<lambda>_. True) ks
    else protect (map (sn_status_counts s) ks) t)"
  have len: "length (hide js t) = length js" for js t by (simp add: hide_def)
  have hid: "hide js t = map (\<lambda>_. True) js \<or> hide js t = protect (map (sn_status_counts s) js) t" for js t
    by (simp add: hide_def)
  let ?a = "map_of (zip ks (hide ks (Some (sn_participation_count s)))) k"
  let ?b = "map_of (zip others (hide others None)) k"
  have sh: "status_hidden s k = the (case ?a of None \<Rightarrow> ?b | Some h \<Rightarrow> Some h)"
    unfolding status_hidden_def Let_def ks_def others_def hide_def map_of_append map_add_def ..
  show ?thesis
  proof (cases ?a)
    case (Some h)
    then show ?thesis using protect_status [OF assms(1) len hid, of ks _ k] assms(2) sh by auto
  next
    case None
    then have "k \<notin> set ks" by (simp add: map_of_zip_is_None len)
    then have "k \<in> set others" unfolding others_def by (cases k) auto
    then have "?b \<noteq> None" by (simp add: map_of_zip_is_None len)
    then show ?thesis using protect_status [OF assms(1) len hid, of others _ k] assms(2) sh None by auto
  qed
qed

lemma release_rows_floor:
  assumes "question_aggregate_init q = Inr q" "x \<in> set (release_rows q)"
  shows "list_all count_floor (rr_counts x)"
proof -
  obtain r h where r: "r \<in> set (qa_matrix_rows q)" "x = release_row (one_column q) r h"
    using assms(2) unfolding release_rows_def Let_def by (auto dest: set_zip_leftD)
  then have "list_all (\<lambda>b. 0 \<le> ac_count b) (mr_counts r)" using question_facts(3) [OF assms(1)] by blast
  then show ?thesis using release_counts_floor r(2) by (simp add: release_row_def)
qed

lemma release_question_floor:
  assumes ok: "question_aggregate_init q = Inr q" and d: "release_question q = Inr d"
  shows "question_floor d"
proof (cases "one_option q \<and> list_ex (\<lambda>h. h) (protect [qa_answered q, qa_unanswered q] (Some (qa_relevant q)))")
  case True
  then show ?thesis
    using d unfolding release_question_def if_P [OF True]
    by (auto simp: withheld_question_def Let_def question_floor_def figures_floor_def)
next
  case a: False
  note d = d [unfolded release_question_def if_not_P [OF a]]
  show ?thesis
  proof (cases "small_group (qa_answered q)")
    case True
    then show ?thesis using d by (auto simp: withheld_question_def Let_def question_floor_def figures_floor_def)
  next
    case False
    then have fl: "floor_ok (Some (qa_answered q))"
      using question_facts(2) [OF ok] by (auto simp: floor_ok_def small_group_def)
    have cs: "list_all count_floor (question_counts q)"
      unfolding question_counts_def by (rule release_counts_floor) (rule question_facts(1) [OF ok])
    show ?thesis
      using d [unfolded if_not_P [OF False] Let_def] cs release_rows_floor [OF ok] fl
      by (auto simp: res_simps question_floor_def figures_floor_def list_all_iff split: if_splits)
  qed
qed

lemma released_as_floor:
  assumes "released_as q x" "question_aggregate_init q = Inr q"
  shows "question_floor x"
  using assms
proof (induction rule: released_as.induct)
  case (stripped d)
  then show ?case by (auto simp: question_floor_def figures_floor_def no_figures_def)
next
  case (plain d)
  then show ?case using release_question_floor by blast
qed (simp_all add: withheld_question_def Let_def question_floor_def figures_floor_def)

section \<open>Properties\<close>

text \<open>
  C7: a withheld count of a single-choice question cannot be worked out from what is released.  Wherever the
  release of a valid stored snapshot withholds a count of a radio group, dropdown or rating whose counts
  add up to its answers, there is another valid stored snapshot with a different number of people in this
  cell, the same total, shares computed by the same rule and any statistics, that is released in exactly
  the same form; so no function of the release determines the count.
\<close>

theorem withheld_count_secret:
  assumes valid: "analysis_snapshot_init s = Inr s" and run: "disclose s = Inr r"
    and dist: "distinct (map qa_question_id (sn_questions s))"
    and j: "j < length (sn_questions s)" "sn_questions s ! j = q"
    and kind: "qa_kind q \<in> {Kind_Radiogroup, Kind_Dropdown, Kind_Rating}"
    and sums: "count_sum (qa_counts q) = qa_answered q"
    and shares: "\<And>b. b \<in> set (qa_counts q) \<Longrightarrow> ac_percentage b = share (ac_count b)"
      "\<And>n. 0 \<le> n \<Longrightarrow> n \<le> qa_answered q \<Longrightarrow> (case share n of None \<Rightarrow> True | Some p \<Rightarrow> 0 \<le> p \<and> p \<le> 100)"
    and i: "i < length (rq_counts (rs_questions r ! j))" "rc_suppressed (rq_counts (rs_questions r ! j) ! i)"
  shows "\<exists>ns. length ns = length (qa_counts q) \<and> sum_list ns = qa_answered q \<and> ns ! i \<noteq> ac_count (qa_counts q ! i)
    \<and> (\<forall>figures. nps_ok figures \<longrightarrow>
        (let t = s\<lparr>sn_questions := (sn_questions s)[j := with_figures figures (recount share ns q)]\<rparr> in
         analysis_snapshot_init t = Inr t \<and> disclose t = Inr r))"
proof -
  have mem: "q \<in> set (sn_questions s)" using j by auto
  note qok = snapshot_questions [OF valid mem]
  obtain hidden where parts: "released_parts s = Inr (rs_questions r, hidden)"
    using run by (rule disclose_parts)
  obtain p where p: "p \<in> set (sn_questions s)" "qa_question_id p = qa_question_id q" "released_as p (rs_questions r ! j)"
    using released_questions(2) [OF parts, of j] j released_questions(1) [OF parts] by auto
  have "p = q"
    using dist p(1,2) mem by (auto simp: distinct_map dest: inj_onD)
  moreover have "rq_counts (rs_questions r ! j) \<noteq> []" using i(1) by auto
  ultimately obtain d where d: "release_question q = Inr d" "rq_counts d = rq_counts (rs_questions r ! j)"
    using released_as_counts [OF p(3)] by blast
  have nn: "list_all (\<lambda>b. 0 \<le> ac_count b \<and> ac_percentage b = share (ac_count b)) (qa_counts q)"
    using question_facts(1) [OF qok] shares(1) by (simp add: list_all_iff)
  obtain ns where ns: "hides_as (map ac_count (qa_counts q)) ns" "ns ! i \<noteq> ac_count (qa_counts q ! i)"
    and same: "\<And>fs. alike (with_figures fs (recount share ns q)) q"
    using alike_recount [OF nn kind sums d(1) i [folded d(2)]] by blast
  have facts: "length ns = length (qa_counts q)" "list_all (\<lambda>c. 0 \<le> c) ns" "sum_list ns = qa_answered q"
    using ns(1) sums by (simp_all add: hides_as_def count_sum_def)
  have "analysis_snapshot_init (s\<lparr>sn_questions := (sn_questions s)[j := with_figures fs (recount share ns q)]\<rparr>)
      = Inr (s\<lparr>sn_questions := (sn_questions s)[j := with_figures fs (recount share ns q)]\<rparr>)" if "nps_ok fs" for fs
    using questions_put_valid [OF valid j(1) recount_valid [OF qok facts shares(2) that]] same [of fs] j(2)
    by (simp add: alike_def)
  moreover have "disclose (s\<lparr>sn_questions := (sn_questions s)[j := with_figures fs (recount share ns q)]\<rparr>) = Inr r" for fs
  proof -
    have "list_all2 alike ((sn_questions s)[j := with_figures fs (recount share ns q)]) (sn_questions s)"
      using same [of fs] j by (auto simp: list_all2_conv_all_nth nth_list_update)
    then show ?thesis using alike_disclose run by metis
  qed
  ultimately show ?thesis using facts ns(2) by (auto simp: Let_def)
qed


text \<open>
  C17: counts in the release of a valid snapshot: the number of participations, the counts by status and every count of
  a distribution or of a matrix row is withheld, 0 or at least five, and a withheld count has no share.  The mean, the
  extremes and the NPS figures of a question are shown only if no count of it is withheld and nobody or at least five
  answered, and the extremes of a number never.  A settled release has no last pages at all.  What is not bounded this
  way are the last pages of the other releases and how many saw, answered or skipped a question or a row.
\<close>

theorem released_counts_floor:
  assumes "analysis_snapshot_init s = Inr s" "disclose s = Inr r"
  shows "floor_ok (rs_participation_count r) \<and> (\<forall>k. floor_ok (rs_status_counts r k))
    \<and> (\<forall>x \<in> set (rs_questions r). question_floor x)
    \<and> (sn_policy s = Settled \<longrightarrow> rs_last_page_counts r = [])"
proof (intro conjI allI ballI)
  obtain hidden where parts: "released_parts s = Inr (rs_questions r, hidden)"
    and n: "rs_participation_count r = (if small_group (sn_participation_count s) then None else Some (sn_participation_count s))"
    and st: "rs_status_counts r = (\<lambda>k. if status_hidden s k then None else Some (sn_status_counts s k))"
    using assms(2) by (rule disclose_parts)
  have nn: "0 \<le> sn_participation_count s" "\<And>k. 0 \<le> sn_status_counts s k"
  proof -
    have "\<not> list_ex (\<lambda>k. sn_status_counts s k < 0) [In_Progress, Partial, Completed]" "0 \<le> sn_participation_count s"
      using assms(1) unfolding analysis_snapshot_init_def by (auto simp: res_simps split: if_splits)
    then show "0 \<le> sn_participation_count s" "0 \<le> sn_status_counts s k" for k by (cases k; simp)+
  qed
  show "sn_policy s = Settled \<longrightarrow> rs_last_page_counts r = []"
    using assms(2) by (auto simp: disclose_def then_res_Inr_iff)
  show "floor_ok (rs_participation_count r)" using n nn(1) by (auto simp: floor_ok_def small_group_def)
  show "floor_ok (rs_status_counts r k)" for k
    using status_shown [OF nn(2)] st by (auto simp: floor_ok_def)
  fix x assume "x \<in> set (rs_questions r)"
  then obtain j where j: "j < length (rs_questions r)" "x = rs_questions r ! j" by (auto simp: in_set_conv_nth)
  then obtain q where "q \<in> set (sn_questions s)" "released_as q x"
    using released_questions(2) [OF parts] by blast
  then show "question_floor x" using released_as_floor snapshot_questions [OF assms(1)] by blast
qed

text \<open>
  C16: a selection of one to four participations shows nothing, not even its size: two such snapshots with
  the same metadata, the same questions (identifier, title, kind) and the same pages are released in the
  same form, whatever their numbers, conditions and statistics are.
\<close>

theorem small_selection_secret:
  assumes small: "small_group (sn_participation_count s)" "small_group (sn_participation_count t)"
    and meta: "sn_id s = sn_id t" "sn_survey_id s = sn_survey_id t" "sn_created_at s = sn_created_at t"
      "sn_filter s = sn_filter t" "sn_version_number s = sn_version_number t"
      "sn_renderer_version s = sn_renderer_version t" "sn_capability_profile s = sn_capability_profile t"
      "sn_policy s = sn_policy t"
    and questions: "map (\<lambda>q. (qa_question_id q, qa_title q, qa_kind q)) (sn_questions s)
      = map (\<lambda>q. (qa_question_id q, qa_title q, qa_kind q)) (sn_questions t)"
    and pages: "map (\<lambda>p. (lp_page_id p, lp_title p)) (sn_last_page_counts s)
      = map (\<lambda>p. (lp_page_id p, lp_title p)) (sn_last_page_counts t)"
  shows "disclose s = disclose t \<and> \<not> raises (disclose s)"
proof -
  have hid: "status_hidden u k" if "small_group (sn_participation_count u)" for u k
    unfolding status_hidden_def Let_def if_P [OF that] map_of_append map_add_def map_of_zip_map by (cases k) auto
  have qs: "map (\<lambda>q. withheld_question q True) (sn_questions s) = map (\<lambda>q. withheld_question q True) (sn_questions t)"
  proof -
    let ?f = "\<lambda>(i, n, k). \<lparr>rq_question_id = i, rq_title = n, rq_kind = k, rq_relevant = None, rq_answered = None,
      rq_unanswered = None, rq_hidden = None, rq_invalid = None, rq_counts = [], rq_mean = None, rq_minimum = None,
      rq_maximum = None, rq_nps = None, rq_matrix_rows = [], rq_suppressed = True,
      rq_nps_segments = None, rq_unreleased_condition = False\<rparr>"
    have "map (\<lambda>q. withheld_question q True) qs = map ?f (map (\<lambda>q. (qa_question_id q, qa_title q, qa_kind q)) qs)" for qs
      by (simp add: withheld_question_def)
    from this [of "sn_questions s"] this [of "sn_questions t"] show ?thesis unfolding questions by (rule trans [OF _ sym])
  qed
  have ps: "map (\<lambda>(p, h). \<lparr>rp_page_id = lp_page_id p, rp_title = lp_title p, rp_count = if h then None else Some (lp_count p)\<rparr>)
      (zip (sn_last_page_counts u) (map (\<lambda>_. True) (sn_last_page_counts u)))
    = map (\<lambda>(i, n). \<lparr>rp_page_id = i, rp_title = n, rp_count = None\<rparr>)
      (map (\<lambda>p. (lp_page_id p, lp_title p)) (sn_last_page_counts u))" for u
    by (rule nth_equalityI) simp_all
  have st: "(\<lambda>k. if status_hidden u k then None else Some (sn_status_counts u k)) = (\<lambda>_. None)"
    if "small_group (sn_participation_count u)" for u
    using hid [OF that] by simp
  show ?thesis
    unfolding disclose_def released_parts_def Let_def if_P [OF small(1)] if_P [OF small(2)] then_res_simps prod.case
      st [OF small(1)] st [OF small(2)] ps qs pages meta
    using small by simp
qed

text \<open>What is withheld of a question as a whole.\<close>

definition whole_withheld :: "released_question \<Rightarrow> bool" where
  "whole_withheld x \<longleftrightarrow> rq_suppressed x \<and> rq_relevant x = None \<and> rq_answered x = None \<and> rq_unanswered x = None
     \<and> rq_hidden x = None \<and> rq_invalid x = None \<and> rq_counts x = [] \<and> rq_matrix_rows x = [] \<and> rq_mean x = None
     \<and> rq_minimum x = None \<and> rq_maximum x = None \<and> rq_nps x = None \<and> rq_nps_segments x = None"

lemma whole_withheld_forms [simp]:
  "whole_withheld (withheld_question q True)"
  "whole_withheld (x\<lparr>rq_unreleased_condition := b\<rparr>) = whole_withheld x"
  "whole_withheld x \<Longrightarrow> whole_withheld (no_figures x)"
  by (simp_all add: whole_withheld_def withheld_question_def no_figures_def)

lemma has_withheld_forms [simp]:
  "has_withheld (withheld_question q b)"
  "has_withheld (x\<lparr>rq_unreleased_condition := b\<rparr>) = has_withheld x"
  "has_withheld (no_figures x) = has_withheld x"
  by (simp_all add: has_withheld_def withheld_question_def no_figures_def Let_def)

text \<open>A later step leaves what is shown of another question, but for its figures, and forgets no withheld one.\<close>

definition settled_from :: "release_state \<Rightarrow> release_state \<Rightarrow> pystr \<Rightarrow> bool" where
  "settled_from st st' n \<longleftrightarrow> rl_withheld st \<subseteq> rl_withheld st'
     \<and> (\<forall>x. rl_shown st n = Some x \<longrightarrow> rl_shown st' n = Some x \<or> rl_shown st' n = Some (no_figures x))"


lemma settled_refl: "settled_from st st n"
  by (simp add: settled_from_def)

lemma no_figures_idem [simp]: "no_figures (no_figures x) = no_figures x"
  by (simp add: no_figures_def)

lemma settled_trans: "settled_from a b n \<Longrightarrow> settled_from b c n \<Longrightarrow> settled_from a c n"
  unfolding settled_from_def by (metis no_figures_idem subset_trans)

lemma settled_strip: "settled_from st (strip_figures m st) n"
proof (cases "rl_shown st m")
  case (Some d)
  then show ?thesis by (auto simp: strip_figures_def settled_from_def no_figures_def)
qed (simp add: strip_figures_def settled_refl)

lemma settled_step:
  assumes "release_step b t deps f st q = Inr st'" "qa_question_id q \<noteq> n"
  shows "settled_from st st' n"
proof -
  have w: "settled_from st (withhold q st1) n" "settled_from st ((withhold q st)\<lparr>rl_shown := (rl_shown (withhold q st))(qa_question_id q \<mapsto> x)\<rparr>) n"
    if "rl_shown st1 = rl_shown st" "rl_withheld st1 = rl_withheld st" for st1 x
    using assms(2) that by (auto simp: settled_from_def withhold_def)
  have sh: "settled_from st st' n" if "show_question q st1 = Inr st'" "rl_shown st1 = rl_shown st" "rl_withheld st1 = rl_withheld st" for st1
    using assms(2) that by (auto simp: show_question_def settled_from_def res_simps split: if_splits)
  from assms(1) show ?thesis
  proof (cases rule: release_step_cases)
    case opaque
    then show ?thesis using w(1) [of st] by simp
  next
    case unreleased
    then show ?thesis using w(2) [of st] by simp
  next
    case (strip u m)
    have "settled_from st (withhold q (st\<lparr>rl_used := u\<rparr>)) n" by (rule w(1)) simp_all
    then show ?thesis unfolding strip by (rule settled_trans [OF _ settled_strip])
  next
    case (shown u)
    then show ?thesis by (rule sh) simp_all
  next
    case plainly
    then show ?thesis by (rule sh) simp_all
  qed
qed

lemma settled_fold:
  assumes "fold_res (release_step b t deps f) st qs = Inr st'" "n \<notin> qa_question_id ` set qs"
  shows "settled_from st st' n"
  using assms
proof (induction qs arbitrary: st)
  case (Cons q qs)
  then obtain st1 where st1: "release_step b t deps f st q = Inr st1"
    "fold_res (release_step b t deps f) st1 qs = Inr st'" by (auto simp: res_simps)
  have "qa_question_id q \<noteq> n" using Cons.prems(2) by auto
  then have "settled_from st st1 n" by (rule settled_step [OF st1(1)])
  moreover have "settled_from st1 st' n" using Cons.IH [OF st1(2)] Cons.prems(2) by simp
  ultimately show ?case by (rule settled_trans)
qed (simp add: settled_refl)

text \<open>Who shows something withheld is known as withheld.\<close>

definition tracks_withheld :: "release_state \<Rightarrow> bool" where
  "tracks_withheld st \<longleftrightarrow> (\<forall>n x. rl_shown st n = Some x \<and> has_withheld x \<longrightarrow> n \<in> rl_withheld st)"

lemma tracks_strip: "tracks_withheld st \<Longrightarrow> tracks_withheld (strip_figures m st)"
proof (cases "rl_shown st m")
  case (Some d)
  assume "tracks_withheld st"
  then show ?thesis using Some by (auto simp: strip_figures_def tracks_withheld_def)
qed (simp add: strip_figures_def)

lemma tracks_step:
  assumes "release_step b t deps f st q = Inr st'" "tracks_withheld st"
  shows "tracks_withheld st'"
proof -
  have w: "tracks_withheld (withhold q st1)" if "rl_shown st1 = rl_shown st" "rl_withheld st1 = rl_withheld st" for st1
    using assms(2) that by (auto simp: tracks_withheld_def withhold_def)
  have sh: "tracks_withheld st'" if shw: "show_question q st1 = Inr st'" and same: "rl_shown st1 = rl_shown st" "rl_withheld st1 = rl_withheld st" for st1
  proof -
    obtain d where "st' = st1\<lparr>rl_shown := (rl_shown st1)(qa_question_id q \<mapsto> d),
        rl_withheld := (if has_withheld d then insert (qa_question_id q) (rl_withheld st1) else rl_withheld st1)\<rparr>"
      using shw by (auto simp: show_question_def res_simps)
    then show ?thesis using assms(2) same by (cases "has_withheld d") (auto simp: tracks_withheld_def)
  qed
  from assms(1) show ?thesis
  proof (cases rule: release_step_cases)
    case opaque
    then show ?thesis using w [of st] by simp
  next
    case unreleased
    then show ?thesis using assms(2) by (auto simp: tracks_withheld_def withhold_def)
  next
    case (strip u m)
    have "tracks_withheld (withhold q (st\<lparr>rl_used := u\<rparr>))" by (rule w) simp_all
    then show ?thesis unfolding strip by (rule tracks_strip)
  next
    case (shown u)
    then show ?thesis by (rule sh) simp_all
  next
    case plainly
    then show ?thesis by (rule sh) simp_all
  qed
qed

lemma tracks_fold:
  "fold_res (release_step b t deps f) start_release qs = Inr st \<Longrightarrow> tracks_withheld st"
  by (erule fold_res_invariant) (auto simp: tracks_withheld_def start_release_def intro: tracks_step [unfolded tracks_withheld_def, rule_format])

lemma step_withholds:
  assumes run: "release_step b t deps f st q = Inr st'"
    and cl: "classify (leaves_of deps (qa_question_id q)) f = Inr (shape, source)"
    and cond: "shape = Shape_Opaque \<or> shape = Shape_New \<and> b \<or> (\<exists>n. source = Some n \<and> blocked st n)"
  shows "\<exists>x. rl_shown st' (qa_question_id q) = Some x \<and> whole_withheld x"
proof -
  note run = run [unfolded release_step_def Let_def cl then_res_simps prod.case]
  show ?thesis
  proof (cases "shape = Shape_Opaque \<or> (source \<noteq> None \<and> blocked st (the source))")
    case True
    then have "st' = withhold q st" using run unfolding if_P [OF True] by simp
    then show ?thesis by (simp add: withhold_def)
  next
    case False
    then have new: "shape = Shape_New \<and> b" using cond by auto
    show ?thesis using run unfolding if_not_P [OF False] if_P [OF new] by auto
  qed
qed

lemma settled_whole:
  "settled_from st st' n \<Longrightarrow> rl_shown st n = Some x \<Longrightarrow> whole_withheld x \<Longrightarrow>
    \<exists>y. rl_shown st' n = Some y \<and> whole_withheld y"
  by (auto simp: settled_from_def)

lemma conditions_withhold:
  assumes run: "with_dependencies s d = Inr (rqs, hidden)" and ql: "de_question_leaves d = Some ql"
    and dist: "distinct (map qa_question_id (sn_questions s))" and j: "j < length (sn_questions s)"
    and cl: "classify (leaves_of ql (qa_question_id (sn_questions s ! j))) (questions_by_id (sn_questions s))
      = Inr (shape, source)"
    and cond: "shape = Shape_Opaque \<or> shape = Shape_New \<and> sn_policy s = Settled
      \<or> (\<exists>i < length (sn_questions s). source = Some (qa_question_id (sn_questions s ! i))
          \<and> (j \<le> i \<or> has_withheld (rqs ! i)))"
  shows "whole_withheld (rqs ! j)"
proof -
  let ?qs = "sn_questions s"
  let ?q = "?qs ! j"
  let ?step = "release_step (sn_policy s = Settled) (sn_participation_count s) ql (questions_by_id ?qs)"
  obtain st pl shapes st' where st: "fold_res ?step start_release ?qs = Inr st"
    and pg: "release_pages (sn_participation_count s) (sn_last_page_counts s) pl shapes st = Inr (hidden, st')"
    and rqs: "rqs = map (\<lambda>q. the (rl_shown st' (qa_question_id q))) ?qs"
    using run ql unfolding with_dependencies_def Let_def by (auto simp: res_simps split: option.splits)
  have split: "?qs = take j ?qs @ ?q # drop (Suc j) ?qs" using j by (simp add: id_take_nth_drop)
  obtain st0 st1 where s0: "fold_res ?step start_release (take j ?qs) = Inr st0"
    and s1: "?step st0 ?q = Inr st1" and s2: "fold_res ?step st1 (drop (Suc j) ?qs) = Inr st"
    using st unfolding arg_cong [OF split, of "fold_res ?step start_release"]
    by (auto simp: fold_res_append res_simps)
  have last: "settled_from st st' n" for n
    using pg settled_strip settled_refl unfolding release_pages_def Let_def by (auto split: if_splits list.splits)
  have dom0: "dom (rl_shown st0) = qa_question_id ` set (take j ?qs)"
    using release_fold_released [OF s0, of ?qs] set_take_subset [of j ?qs]
    by (simp add: all_released_as_def start_release_def)
  have away: "n \<notin> qa_question_id ` set (?q # drop (Suc j) ?qs)" if "n \<in> qa_question_id ` set (take j ?qs)" for n
  proof -
    have "distinct (map qa_question_id (take j ?qs @ ?q # drop (Suc j) ?qs))" using dist split by simp
    then show ?thesis using that by (auto simp: image_iff)
  qed
  have later: "settled_from st0 st n" if "n \<in> qa_question_id ` set (take j ?qs)" for n
  proof -
    have n: "n \<noteq> qa_question_id ?q" "n \<notin> qa_question_id ` set (drop (Suc j) ?qs)" using away [OF that] by auto
    show ?thesis using settled_step [OF s1, of n] settled_fold [OF s2 n(2)] n(1) by (blast intro: settled_trans)
  qed
  have "shape = Shape_Opaque \<or> shape = Shape_New \<and> sn_policy s = Settled \<or> (\<exists>n. source = Some n \<and> blocked st0 n)"
  proof (cases "shape = Shape_Opaque \<or> shape = Shape_New \<and> sn_policy s = Settled")
    case False
    then obtain i where i: "i < length ?qs" "source = Some (qa_question_id (?qs ! i))" "j \<le> i \<or> has_withheld (rqs ! i)"
      using cond by blast
    let ?n = "qa_question_id (?qs ! i)"
    have "blocked st0 ?n"
    proof (cases "i < j")
      case False
      then have "?qs ! i \<notin> set (take j ?qs)" "?n \<notin> qa_question_id ` set (take j ?qs)"
      proof -
        show "?n \<notin> qa_question_id ` set (take j ?qs)"
        proof
          assume "?n \<in> qa_question_id ` set (take j ?qs)"
          then obtain k where "k < j" "k < length ?qs" "qa_question_id (?qs ! k) = ?n" by (auto simp: in_set_conv_nth)
          then show False using dist i(1) False by (auto simp: distinct_conv_nth)
        qed
        then show "?qs ! i \<notin> set (take j ?qs)" by blast
      qed
      then show ?thesis using dom0 by (auto simp: blocked_def)
    next
      case True
      then have "?qs ! i \<in> set (take j ?qs)"
        using i(1) by (metis length_take min_less_iff_conj nth_mem nth_take)
      then have n: "?n \<in> qa_question_id ` set (take j ?qs)" by (rule imageI)
      then obtain y where y: "rl_shown st0 ?n = Some y" using dom0 by blast
      have "settled_from st0 st' ?n" using later [OF n] last by (blast intro: settled_trans)
      then have "rqs ! i = y \<or> rqs ! i = no_figures y" using y i(1) unfolding rqs by (auto simp: settled_from_def)
      then have "has_withheld y" using i(3) True by auto
      then show ?thesis using tracks_fold [OF s0] y by (auto simp: blocked_def tracks_withheld_def)
    qed
    then show ?thesis using i(2) by blast
  qed blast
  from step_withholds [OF s1 cl this] obtain x where x: "rl_shown st1 (qa_question_id ?q) = Some x" "whole_withheld x"
    by blast
  have "qa_question_id ?q \<notin> qa_question_id ` set (drop (Suc j) ?qs)"
  proof -
    have "distinct (map qa_question_id (take j ?qs @ ?q # drop (Suc j) ?qs))" using dist split by simp
    then show ?thesis by simp
  qed
  then have "settled_from st1 st' (qa_question_id ?q)" using settled_fold [OF s2] last by (blast intro: settled_trans)
  from settled_whole [OF this x] show ?thesis using j unfolding rqs by auto
qed

text \<open>
  C8: a condition never gives away what the answers it reads keep.  With five or more participations, a
  question is withheld as a whole, denominators included, whenever its condition is not one comparison with a
  released distribution or an unreleased answer, whenever (for accounts without raw access) it reads an
  answer without a distribution, and whenever the question it reads comes later or has anything withheld in
  the same release; those accounts never get the last pages.
\<close>

theorem conditions_keep_secrets:
  assumes "disclose s = Inr r" "group_size \<le> sn_participation_count s"
    and "sn_dependencies s = Some d" "de_question_leaves d = Some ql"
    and "distinct (map qa_question_id (sn_questions s))" "j < length (sn_questions s)"
    and "classify (leaves_of ql (qa_question_id (sn_questions s ! j))) (questions_by_id (sn_questions s))
      = Inr (shape, source)"
    and "shape = Shape_Opaque \<or> shape = Shape_New \<and> sn_policy s = Settled
      \<or> (\<exists>i < length (sn_questions s). source = Some (qa_question_id (sn_questions s ! i))
          \<and> (j \<le> i \<or> has_withheld (rs_questions r ! i)))"
  shows "whole_withheld (rs_questions r ! j) \<and> (sn_policy s = Settled \<longrightarrow> rs_last_page_counts r = [])"
proof -
  obtain hidden where parts: "released_parts s = Inr (rs_questions r, hidden)"
    and pages: "rs_last_page_counts r = (if sn_policy s = Settled then []
      else map (\<lambda>(p, h). \<lparr>rp_page_id = lp_page_id p, rp_title = lp_title p,
        rp_count = (if h then None else Some (lp_count p))\<rparr>) (zip (sn_last_page_counts s) hidden))"
    using assms(1) by (rule disclose_parts)
  have "with_dependencies s d = Inr (rs_questions r, hidden)"
    using parts assms(2-4) by (simp add: released_parts_def Let_def small_group_def group_size_def)
  from conditions_withhold [OF this assms(4-8)] show ?thesis using pages by simp
qed

section \<open>Whole days\<close>

lemma day_start_facts:
  "day_start z m = Inr (a, b) \<Longrightarrow> \<exists>day. local_day z m = Inr day \<and> local_midnight z day = Inr a \<and> local_midnight z (day + 1) = Inr b"
  by (auto simp: day_start_def local_day_bounds_def then_res_Inr_iff date_add_Inr)

lemma whole_days_settled:
  assumes "whole_days z from before now = Inr (start, stop)"
  obtains stop_at day midnight today today_start where "stop = iso_datetime stop_at"
    "local_midnight z day = Inr midnight" "instant stop_at = instant midnight"
    "local_day z now = Inr today" "local_midnight z today = Inr today_start" "instant stop_at \<le> instant today_start"
proof -
  obtain today_start t2 stop_at where t: "day_start z now = Inr (today_start, t2)"
    and e: "(case before of None \<Rightarrow> Inr today_start
       | Some t \<Rightarrow> then_res (from_iso t) (\<lambda>before. then_res (day_start z before) (\<lambda>(a, b).
           let e = (if dt_eq before a then before else b) in
           Inr (if instant today_start < instant e then today_start else e)))) = Inr stop_at"
    and stop: "stop = iso_datetime stop_at"
    using assms unfolding whole_days_def then_res_Inr_iff by (auto simp: res_simps)
  obtain today where today: "local_day z now = Inr today" "local_midnight z today = Inr today_start"
    using day_start_facts [OF t] by blast
  have "(\<exists>day m. local_midnight z day = Inr m \<and> instant stop_at = instant m) \<and> instant stop_at \<le> instant today_start"
  proof (cases before)
    case None
    then show ?thesis using e today by auto
  next
    case (Some s)
    then obtain b a a2 where b: "from_iso s = Inr b" "day_start z b = Inr (a, a2)"
      and st: "stop_at = (if instant today_start < instant (if dt_eq b a then b else a2) then today_start
        else if dt_eq b a then b else a2)"
      using e by (auto simp: res_simps Let_def)
    show ?thesis using day_start_facts [OF b(2)] today st by (auto simp: dt_eq_def)
  qed
  then show ?thesis using that stop today by blast
qed

section \<open>An example\<close>

text \<open>A survey of a choice with a small group, a question shown to this group only, and a number.\<close>

definition sample_share :: "int \<Rightarrow> rat option" where
  "sample_share n = Some (of_int (100 * n) / 23)"

definition sample_choice :: question_aggregate where
  "sample_choice = \<lparr>qa_question_id = lit ''q1'', qa_title = lit ''Team'', qa_kind = Kind_Radiogroup,
     qa_relevant = 23, qa_answered = 23, qa_unanswered = 0, qa_hidden = 0, qa_invalid = 0,
     qa_counts = map (\<lambda>(v, n). \<lparr>ac_value = VStr (lit v), ac_label = lit v, ac_count = n, ac_percentage = sample_share n\<rparr>)
       [(''Ja'', 3), (''nein'', 20)],
     qa_sum = None, qa_mean = None, qa_minimum = None, qa_maximum = None, qa_nps = None, qa_matrix_rows = []\<rparr>"

definition sample_reason :: question_aggregate where
  "sample_reason = \<lparr>qa_question_id = lit ''q2'', qa_title = lit ''Warum?'', qa_kind = Kind_Comment,
     qa_relevant = 3, qa_answered = 3, qa_unanswered = 0, qa_hidden = 20, qa_invalid = 0, qa_counts = [],
     qa_sum = None, qa_mean = None, qa_minimum = None, qa_maximum = None, qa_nps = None, qa_matrix_rows = []\<rparr>"

definition sample_snapshot :: analysis_snapshot where
  "sample_snapshot = \<lparr>sn_id = lit ''s1'', sn_survey_id = lit ''u1'', sn_created_at = lit ''2026-11-04T10:00:00+00:00'',
     sn_filter = \<lparr>af_version_id = lit ''v1'', af_statuses = [Completed], af_is_test = False,
       af_created_from = None, af_created_before = None\<rparr>,
     sn_version_number = 1, sn_renderer_version = lit ''3.0.3'', sn_capability_profile = lit ''initial-v1'',
     sn_participation_count = 23, sn_status_counts = (\<lambda>k. if k = Completed then 23 else 0),
     sn_last_page_counts = [\<lparr>lp_page_id = Some (lit ''p1''), lp_title = lit ''Start'', lp_count = 23\<rparr>],
     sn_questions = [sample_choice, sample_reason],
     sn_dependencies = Some \<lparr>de_question_leaves = Some [(lit ''q2'', [(lit ''q1'', lit ''='', [39] @ lit ''ja'' @ [39])])],
       de_page_leaves = Some []\<rparr>,
     sn_policy = Settled\<rparr>"

definition sample_small :: "int \<Rightarrow> analysis_snapshot" where
  "sample_small n = sample_snapshot\<lparr>sn_participation_count := n,
     sn_questions := [sample_choice\<lparr>qa_answered := n\<rparr>]\<rparr>"

lemma sample_valid: "analysis_snapshot_init sample_snapshot = Inr sample_snapshot"
  by (simp add: analysis_snapshot_init_def sample_snapshot_def question_aggregate_init_def sample_choice_def
      sample_reason_def aggregate_count_ok_def option_value_ok_def count_sum_def sample_share_def)

lemma sample_disclosed:
  "case disclose sample_snapshot of Inl _ \<Rightarrow> False
   | Inr r \<Rightarrow> length (rq_counts (rs_questions r ! 0)) = 2 \<and> rc_suppressed (rq_counts (rs_questions r ! 0) ! 0)
       \<and> has_withheld (rs_questions r ! 0) \<and> length (rs_questions r) = 2"
  by code_simp

text \<open>In the sample 3 people said yes; the released form does not tell.\<close>

theorem withheld_count_secret_witness:
  "case disclose sample_snapshot of Inl _ \<Rightarrow> False
   | Inr r \<Rightarrow> \<exists>ns. sum_list ns = 23 \<and> ns ! 0 \<noteq> 3
       \<and> disclose (sample_snapshot\<lparr>sn_questions :=
           (sn_questions sample_snapshot)[0 := with_figures (None, None, None, None, None) (recount sample_share ns sample_choice)]\<rparr>) = Inr r"
proof (cases "disclose sample_snapshot")
  case (Inr r)
  have q: "sn_questions sample_snapshot ! 0 = sample_choice" "0 < length (sn_questions sample_snapshot)"
    by (simp_all add: sample_snapshot_def)
  have "\<exists>ns. length ns = length (qa_counts sample_choice) \<and> sum_list ns = qa_answered sample_choice
    \<and> ns ! 0 \<noteq> ac_count (qa_counts sample_choice ! 0)
    \<and> (\<forall>figures. nps_ok figures \<longrightarrow> (let t = sample_snapshot\<lparr>sn_questions :=
          (sn_questions sample_snapshot)[0 := with_figures figures (recount sample_share ns sample_choice)]\<rparr> in
         analysis_snapshot_init t = Inr t \<and> disclose t = Inr r))"
  proof (rule withheld_count_secret [OF sample_valid Inr _ q(2,1)])
    show "distinct (map qa_question_id (sn_questions sample_snapshot))" by code_simp
    show "qa_kind sample_choice \<in> {Kind_Radiogroup, Kind_Dropdown, Kind_Rating}"
      "count_sum (qa_counts sample_choice) = qa_answered sample_choice" by code_simp+
    show "b \<in> set (qa_counts sample_choice) \<Longrightarrow> ac_percentage b = sample_share (ac_count b)" for b
      by (auto simp: sample_choice_def)
    show "0 \<le> n \<Longrightarrow> n \<le> qa_answered sample_choice
        \<Longrightarrow> (case sample_share n of None \<Rightarrow> True | Some p \<Rightarrow> 0 \<le> p \<and> p \<le> 100)" for n
      by (simp add: sample_share_def sample_choice_def)
    show "0 < length (rq_counts (rs_questions r ! 0))" "rc_suppressed (rq_counts (rs_questions r ! 0) ! 0)"
      using sample_disclosed Inr by auto
  qed
  moreover have "nps_ok (None, None, None, None, None)" by (simp add: nps_ok_def)
  moreover have "qa_answered sample_choice = 23" "ac_count (qa_counts sample_choice ! 0) = 3" by code_simp+
  ultimately show ?thesis using Inr by (auto simp: Let_def)
qed (use sample_disclosed in simp)

theorem released_counts_floor_witness:
  "case disclose sample_snapshot of Inl _ \<Rightarrow> False
   | Inr r \<Rightarrow> floor_ok (rs_participation_count r) \<and> question_floor (rs_questions r ! 0)"
proof (cases "disclose sample_snapshot")
  case (Inr r)
  have "rs_questions r ! 0 \<in> set (rs_questions r)" using sample_disclosed Inr by (auto intro!: nth_mem)
  then show ?thesis using released_counts_floor [OF sample_valid Inr] Inr by simp
qed (use sample_disclosed in simp)

theorem small_selection_secret_witness: "disclose (sample_small 1) = disclose (sample_small 4)"
proof -
  have "disclose (sample_small 1) = disclose (sample_small 4) \<and> \<not> raises (disclose (sample_small 1))"
    by (rule small_selection_secret) (simp_all add: sample_small_def small_group_def group_size_def)
  then show ?thesis ..
qed

text \<open>The second question is shown to the three people who said yes: it is withheld.\<close>

theorem conditions_keep_secrets_witness:
  "case disclose sample_snapshot of Inl _ \<Rightarrow> False | Inr r \<Rightarrow> whole_withheld (rs_questions r ! 1)"
proof (cases "disclose sample_snapshot")
  case (Inr r)
  define ql where "ql = [(lit ''q2'', [(lit ''q1'', lit ''='', [39] @ lit ''ja'' @ [39])])]"
  define d where "d = \<lparr>de_question_leaves = Some ql, de_page_leaves = Some []\<rparr>"
  have cl: "classify (leaves_of ql (qa_question_id (sn_questions sample_snapshot ! 1)))
      (questions_by_id (sn_questions sample_snapshot)) = Inr (Shape_Derived, Some (lit ''q1''))"
    unfolding ql_def by code_simp
  have deps: "sn_dependencies sample_snapshot = Some d" "de_question_leaves d = Some ql"
    by (simp_all add: sample_snapshot_def d_def ql_def)
  have sizes: "distinct (map qa_question_id (sn_questions sample_snapshot))"
    "group_size \<le> sn_participation_count sample_snapshot"
    "0 < length (sn_questions sample_snapshot)" "1 < length (sn_questions sample_snapshot)" by code_simp+
  have "qa_question_id (sn_questions sample_snapshot ! 0) = lit ''q1''" by code_simp
  then have "\<exists>i < length (sn_questions sample_snapshot). Some (lit ''q1'') = Some (qa_question_id (sn_questions sample_snapshot ! i))
      \<and> (1 \<le> i \<or> has_withheld (rs_questions r ! i))"
    using sample_disclosed Inr sizes(3) by (intro exI [of _ 0]) simp
  then have "whole_withheld (rs_questions r ! 1)"
    using conditions_keep_secrets [OF Inr sizes(2) deps sizes(1,4) cl] by blast
  then show ?thesis using Inr by simp
qed (use sample_disclosed in simp)

end
