(* ===== verification/Py_Numeric.thy ===== *)
theory Py_Numeric
  imports Py_Value Iso_Time
begin

text \<open>
  Arithmetic on Python numbers (\<^verbatim>\<open>int\<close> exact, \<^verbatim>\<open>float\<close> rounded to binary64), equality and order between values,
  \<^verbatim>\<open>round\<close>, \<^verbatim>\<open>math.isclose\<close>, \<^verbatim>\<open>repr\<close> of a \<^verbatim>\<open>float\<close>, the length of \<^verbatim>\<open>json.dumps\<close> with its default settings, and
  access to the members of a \<^verbatim>\<open>dict\<close>.
\<close>

section \<open>Numbers\<close>

definition to_double :: "rat \<Rightarrow> pyfloat" where
  "to_double q = (case quotient_of q of (n, d) \<Rightarrow> double_of n d)"

text \<open>The value of a number as it is compared; a \<^verbatim>\<open>bool\<close> is one too.\<close>

definition number_value :: "pyval \<Rightarrow> pyfloat option" where
  "number_value v =
     (case v of VBool b \<Rightarrow> Some (Fin (if b then 1 else 0)) | VInt n \<Rightarrow> Some (Fin (of_int n))
      | VFloat x \<Rightarrow> Some x | _ \<Rightarrow> None)"

definition is_number :: "pyval \<Rightarrow> bool" where
  "is_number v = (case v of VInt _ \<Rightarrow> True | VFloat _ \<Rightarrow> True | _ \<Rightarrow> False)"

definition float_less :: "pyfloat \<Rightarrow> pyfloat \<Rightarrow> bool" where
  "float_less x y =
     (case (x, y) of
        (Fin p, Fin q) \<Rightarrow> p < q
      | (PNan, _) \<Rightarrow> False
      | (_, PNan) \<Rightarrow> False
      | (NInf, NInf) \<Rightarrow> False
      | (NInf, _) \<Rightarrow> True
      | (_, PInf) \<Rightarrow> x \<noteq> PInf
      | _ \<Rightarrow> False)"

definition float_equal :: "pyfloat \<Rightarrow> pyfloat \<Rightarrow> bool" where
  "float_equal x y \<longleftrightarrow> x = y \<and> x \<noteq> PNan"

definition num_less :: "pyval \<Rightarrow> pyval \<Rightarrow> bool" where
  "num_less v w = (case (number_value v, number_value w) of (Some x, Some y) \<Rightarrow> float_less x y | _ \<Rightarrow> False)"

definition num_leq :: "pyval \<Rightarrow> pyval \<Rightarrow> bool" where
  "num_leq v w = (case (number_value v, number_value w) of
     (Some x, Some y) \<Rightarrow> float_less x y \<or> float_equal x y | _ \<Rightarrow> False)"

text \<open>\<^verbatim>\<open>==\<close> on scalars; lists and dicts are equal as they are.\<close>

definition py_eq :: "pyval \<Rightarrow> pyval \<Rightarrow> bool" where
  "py_eq v w = (case (number_value v, number_value w) of
     (Some x, Some y) \<Rightarrow> float_equal x y
   | (None, None) \<Rightarrow> v = w
   | _ \<Rightarrow> False)"

definition same_type :: "pyval \<Rightarrow> pyval \<Rightarrow> bool" where
  "same_type v w =
     (case (v, w) of
        (VNone, VNone) \<Rightarrow> True | (VBool _, VBool _) \<Rightarrow> True | (VInt _, VInt _) \<Rightarrow> True
      | (VFloat _, VFloat _) \<Rightarrow> True | (VStr _, VStr _) \<Rightarrow> True | (VList _, VList _) \<Rightarrow> True
      | (VDict _, VDict _) \<Rightarrow> True | _ \<Rightarrow> False)"

text \<open>\<^verbatim>\<open>math.isfinite\<close> raises for an integer beyond the floats.\<close>

definition is_finite :: "pyval \<Rightarrow> bool res" where
  "is_finite v =
     (case v of
        VInt n \<Rightarrow> then_res (float_of_int n) (\<lambda>_. Inr True)
      | VFloat x \<Rightarrow> Inr (case x of Fin _ \<Rightarrow> True | _ \<Rightarrow> False)
      | _ \<Rightarrow> Inl Type_Error)"

definition as_float :: "pyval \<Rightarrow> pyfloat res" where
  "as_float v =
     (case v of VInt n \<Rightarrow> then_res (float_of_int n) (\<lambda>q. Inr (Fin q)) | VFloat x \<Rightarrow> Inr x | _ \<Rightarrow> Inl Type_Error)"

definition float_minus :: "pyfloat \<Rightarrow> pyfloat \<Rightarrow> pyfloat" where
  "float_minus x y =
     (case (x, y) of
        (Fin p, Fin q) \<Rightarrow> to_double (p - q)
      | (PNan, _) \<Rightarrow> PNan | (_, PNan) \<Rightarrow> PNan
      | (PInf, PInf) \<Rightarrow> PNan | (NInf, NInf) \<Rightarrow> PNan
      | (PInf, _) \<Rightarrow> PInf | (NInf, _) \<Rightarrow> NInf
      | (_, PInf) \<Rightarrow> NInf | (_, NInf) \<Rightarrow> PInf)"

definition num_minus :: "pyval \<Rightarrow> pyval \<Rightarrow> pyval res" where
  "num_minus v w =
     (case (v, w) of
        (VInt n, VInt m) \<Rightarrow> Inr (VInt (n - m))
      | _ \<Rightarrow> then_res (as_float v) (\<lambda>x. then_res (as_float w) (\<lambda>y. Inr (VFloat (float_minus x y)))))"

text \<open>Division by a positive finite number.\<close>

definition float_over :: "pyfloat \<Rightarrow> rat \<Rightarrow> pyfloat" where
  "float_over x q = (case x of Fin p \<Rightarrow> to_double (p / q) | _ \<Rightarrow> x)"

definition num_over :: "pyval \<Rightarrow> pyval \<Rightarrow> pyfloat res" where
  "num_over v w =
     (case (v, w) of
        (VInt n, VInt m) \<Rightarrow>
          (case to_double (of_int n / of_int m) of Fin q \<Rightarrow> Inr (Fin q) | _ \<Rightarrow> Inl Overflow_Error)
      | _ \<Rightarrow> then_res (as_float v) (\<lambda>x. then_res (as_float w) (\<lambda>y.
          case y of Fin q \<Rightarrow> Inr (float_over x q) | _ \<Rightarrow> Inl Type_Error)))"

definition round_half_even :: "rat \<Rightarrow> int" where
  "round_half_even q =
     (case quotient_of \<bar>q\<bar> of (n, d) \<Rightarrow> if q < 0 then - nearest_even (n, d) else nearest_even (n, d))"

definition py_round :: "pyfloat \<Rightarrow> int res" where
  "py_round x = (case x of Fin q \<Rightarrow> Inr (round_half_even q) | PNan \<Rightarrow> Inl Value_Error | _ \<Rightarrow> Inl Overflow_Error)"

text \<open>\<^verbatim>\<open>math.isclose\<close> with its default tolerance, the binary64 number nearest to \<open>10 ^ -9\<close>.\<close>

definition tolerance :: rat where
  "tolerance = 4835703278458517 / 4835703278458516698824704"

definition abs_float :: "pyfloat \<Rightarrow> pyfloat" where
  "abs_float x = (case x of Fin q \<Rightarrow> Fin \<bar>q\<bar> | NInf \<Rightarrow> PInf | _ \<Rightarrow> x)"

definition is_close :: "rat \<Rightarrow> rat \<Rightarrow> bool" where
  "is_close a b \<longleftrightarrow> a = b \<or> (let diff = abs_float (to_double (b - a)); near = (\<lambda>c. abs_float (to_double (tolerance * c))) in
     \<not> float_less (near b) diff \<or> \<not> float_less (near a) diff)"

section \<open>The text of a float\<close>

function decimal_exponent_up :: "rat \<Rightarrow> nat \<Rightarrow> int \<Rightarrow> int" where
  "decimal_exponent_up q 0 e = e"
| "decimal_exponent_up q (Suc fuel) e = (if 10 * 10 ^ nat e \<le> q then decimal_exponent_up q fuel (e + 1) else e)"
  by pat_completeness auto
termination
  by (relation "measure (\<lambda>(q, n, e). n)") auto

text \<open>The \<open>e\<close> with \<open>10 ^ e \<le> q < 10 ^ (e + 1)\<close> of a positive binary64 number.\<close>

fun decimal_exponent_down :: "rat \<Rightarrow> nat \<Rightarrow> int \<Rightarrow> int" where
  "decimal_exponent_down q 0 e = e"
| "decimal_exponent_down q (Suc fuel) e = (if q * 10 ^ nat (- e) < 1 then decimal_exponent_down q fuel (e - 1) else e)"

definition decimal_exponent :: "rat \<Rightarrow> int" where
  "decimal_exponent q = (if 1 \<le> q then decimal_exponent_up q 320 0 else decimal_exponent_down q 330 0)"

definition scaled_rat :: "int \<Rightarrow> int \<Rightarrow> rat" where
  "scaled_rat m e = (if 0 \<le> e then of_int m * 10 ^ nat e else of_int m / 10 ^ nat (- e))"

text \<open>The shortest digits that read back as \<open>q\<close>, the nearest ones of that length, with their exponent.\<close>

definition digits_of_length :: "rat \<Rightarrow> nat \<Rightarrow> (int \<times> int) option" where
  "digits_of_length q n =
     (let e = decimal_exponent q - int n + 1;
          low = \<lfloor>q / scaled_rat 1 e\<rfloor>;
          fits = (\<lambda>m. to_double (scaled_rat m e) = Fin q);
          cands = filter fits [low, low + 1]
      in case cands of
        [] \<Rightarrow> None
      | [m] \<Rightarrow> Some (m, e)
      | m # k # _ \<Rightarrow> Some (if 2 * q \<le> scaled_rat (m + k) e then m else k, e))"

definition shortest_digits :: "rat \<Rightarrow> int \<times> int" where
  "shortest_digits q = (case List.map_filter (digits_of_length q) [1..<18] of me # _ \<Rightarrow> me | [] \<Rightarrow> (0, 0))"

fun trim_zeros :: "nat \<Rightarrow> int \<times> int \<Rightarrow> int \<times> int" where
  "trim_zeros 0 me = me"
| "trim_zeros (Suc n) (m, e) = (if m \<noteq> 0 \<and> m mod 10 = 0 then trim_zeros n (m div 10, e + 1) else (m, e))"

function decimal_digits :: "int \<Rightarrow> pystr" where
  "decimal_digits n = (if n < 10 then [48 + n] else decimal_digits (n div 10) @ [48 + n mod 10])"
  by pat_completeness auto
termination
  by (relation "measure nat") auto

declare decimal_digits.simps [simp del]

definition float_repr :: "pyfloat \<Rightarrow> pystr" where
  "float_repr x =
     (case x of
        PNan \<Rightarrow> lit ''nan'' | PInf \<Rightarrow> lit ''inf'' | NInf \<Rightarrow> lit ''-inf''
      | Fin q \<Rightarrow>
          if q = 0 then lit ''0.0''
          else (case trim_zeros 20 (shortest_digits \<bar>q\<bar>) of (m, e) \<Rightarrow>
            let ds = decimal_digits m; n = int (length ds); point = n + e;
                body = (if - 4 < point \<and> point \<le> 16
                  then (if point \<le> 0 then [48, 46] @ replicate (nat (- point)) 48 @ ds
                    else if n \<le> point then ds @ replicate (nat (point - n)) 48 @ [46, 48]
                    else take (nat point) ds @ [46] @ drop (nat point) ds)
                  else (let ex = point - 1; es = decimal_digits \<bar>ex\<bar> in
                    hd ds # (if n = 1 then [] else 46 # tl ds) @ [101, if ex < 0 then 45 else 43]
                    @ (if length es < 2 then 48 # es else es)))
            in (if q < 0 then 45 # body else body)))"

section \<open>The length of JSON\<close>

text \<open>A character: two for the short escapes, six for an escaped code unit, twelve for a pair of them.\<close>

definition escaped_length :: "int \<Rightarrow> nat" where
  "escaped_length c =
     (if c \<in> {34, 92, 10, 13, 9, 8, 12} then 2 else if 32 \<le> c \<and> c < 127 then 1 else if c < 65536 then 6 else 12)"

definition quoted_length :: "pystr \<Rightarrow> nat" where
  "quoted_length s = 2 + sum_list (map escaped_length s)"

fun json_length :: "pyval \<Rightarrow> nat option"
  and json_list_length :: "pyval list \<Rightarrow> nat option"
  and json_dict_length :: "(pystr \<times> pyval) list \<Rightarrow> nat option" where
  "json_length VNone = Some 4"
| "json_length (VBool b) = Some (if b then 4 else 5)"
| "json_length (VInt n) = Some (length (decimal_digits \<bar>n\<bar>) + (if n < 0 then 1 else 0))"
| "json_length (VFloat x) = (case x of Fin _ \<Rightarrow> Some (length (float_repr x)) | _ \<Rightarrow> None)"
| "json_length (VStr s) = Some (quoted_length s)"
| "json_length (VList vs) = map_option (\<lambda>n. n + 2) (json_list_length vs)"
| "json_length (VDict ms) = map_option (\<lambda>n. n + 2) (json_dict_length ms)"
| "json_list_length [] = Some 0"
| "json_list_length (v # vs) = (case (json_length v, json_list_length vs) of
     (Some n, Some m) \<Rightarrow> Some (n + (if vs = [] then 0 else 2) + m) | _ \<Rightarrow> None)"
| "json_dict_length [] = Some 0"
| "json_dict_length ((k, v) # ms) = (case (json_length v, json_dict_length ms) of
     (Some n, Some m) \<Rightarrow> Some (quoted_length k + 2 + n + (if ms = [] then 0 else 2) + m) | _ \<Rightarrow> None)"

section \<open>Members\<close>

definition keys :: "pyval \<Rightarrow> pystr list" where
  "keys v = (case v of VDict ms \<Rightarrow> map fst ms | _ \<Rightarrow> [])"

definition member :: "string \<Rightarrow> pyval \<Rightarrow> pyval option" where
  "member k v = (case v of VDict ms \<Rightarrow> map_of ms (lit k) | _ \<Rightarrow> None)"

definition has_key :: "string \<Rightarrow> pyval \<Rightarrow> bool" where
  "has_key k v \<longleftrightarrow> member k v \<noteq> None"

definition member_or :: "string \<Rightarrow> pyval \<Rightarrow> pyval \<Rightarrow> pyval" where
  "member_or k other v = (case member k v of None \<Rightarrow> other | Some w \<Rightarrow> w)"

definition is_dict :: "pyval \<Rightarrow> bool" where
  "is_dict v = (case v of VDict _ \<Rightarrow> True | _ \<Rightarrow> False)"

definition is_str :: "pyval \<Rightarrow> bool" where
  "is_str v = (case v of VStr _ \<Rightarrow> True | _ \<Rightarrow> False)"

definition is_bool :: "pyval \<Rightarrow> bool" where
  "is_bool v = (case v of VBool _ \<Rightarrow> True | _ \<Rightarrow> False)"

definition text_of :: "pyval \<Rightarrow> pystr" where
  "text_of v = (case v of VStr s \<Rightarrow> s | _ \<Rightarrow> [])"

definition items_of :: "pyval \<Rightarrow> pyval list" where
  "items_of v = (case v of VList vs \<Rightarrow> vs | _ \<Rightarrow> [])"

definition truthy :: "pyval \<Rightarrow> bool" where
  "truthy v = (case v of VNone \<Rightarrow> False | VBool b \<Rightarrow> b | VInt n \<Rightarrow> n \<noteq> 0 | VFloat x \<Rightarrow> x \<noteq> Fin 0
     | VStr s \<Rightarrow> s \<noteq> [] | VList vs \<Rightarrow> vs \<noteq> [] | VDict ms \<Rightarrow> ms \<noteq> [])"

text \<open>\<^verbatim>\<open>s.encode("utf-16-le")\<close> refuses surrogates.\<close>

definition utf16_units :: "pystr \<Rightarrow> nat option" where
  "utf16_units s = (if list_ex (\<lambda>c. 0xD800 \<le> c \<and> c \<le> 0xDFFF) s then None
     else Some (sum_list (map (\<lambda>c. if c < 65536 then 1 else 2) s)))"

end
