(* ===== verification/Survey_Definition.thy ===== *)
theory Survey_Definition
  imports Py_Numeric Survey_Disclosure
begin

text \<open>
  Survey definitions, conditions and answers: \<^verbatim>\<open>modules/surveys/domain/validation.py\<close>, and the structure of
  conditions recorded with a snapshot, \<^verbatim>\<open>leaves\<close> and \<^verbatim>\<open>dependencies\<close> of
  \<^verbatim>\<open>modules/surveys/adapters/postgres/survey_analysis.py\<close>.  Definitions and answers are Python values read from JSON.
  \<open>condition_at\<close> takes the number of calls of \<^verbatim>\<open>condition\<close> the interpreter still allows; without one left it raises
  \<^verbatim>\<open>RecursionError\<close>.  An error keeps its code; the path it names is left out.
\<close>

section \<open>Tables of the profile\<close>

definition fail_with :: "string \<Rightarrow> 'a res" where
  "fail_with code = Inl (Invariant code)"

definition root_keys :: "string list" where
  "root_keys = [''title'', ''description'', ''pages'', ''showProgressBar'', ''completedHtml'', ''locale'']"

definition page_keys :: "string list" where
  "page_keys = [''name'', ''title'', ''description'', ''elements'', ''visibleIf'']"

definition question_keys :: "string list" where
  "question_keys = [''type'', ''name'', ''title'', ''description'', ''isRequired'', ''visibleIf'', ''choices'', ''rows'',
     ''columns'', ''isAllRowRequired'', ''inputType'', ''min'', ''max'', ''maxLength'', ''minLength'', ''rateMin'',
     ''rateMax'', ''rateStep'', ''minSelectedChoices'', ''maxSelectedChoices'', ''placeholder'']"

definition common_question_keys :: "string list" where
  "common_question_keys = [''type'', ''name'', ''title'', ''description'', ''isRequired'', ''visibleIf'']"

definition type_keys :: "(string \<times> string list) list" where
  "type_keys = [
     (''text'', [''inputType'', ''min'', ''max'', ''minLength'', ''maxLength'', ''placeholder'']),
     (''comment'', [''minLength'', ''maxLength'', ''placeholder'']),
     (''radiogroup'', [''choices'']),
     (''dropdown'', [''choices'', ''placeholder'']),
     (''checkbox'', [''choices'', ''minSelectedChoices'', ''maxSelectedChoices'']),
     (''rating'', [''rateMin'', ''rateMax'', ''rateStep'']),
     (''matrix'', [''rows'', ''columns'', ''isAllRowRequired''])]"

definition only_keys :: "string list \<Rightarrow> pyval \<Rightarrow> bool" where
  "only_keys allowed v \<longleftrightarrow> list_all (\<lambda>k. k \<in> set (map lit allowed)) (keys v)"

definition word_char :: "int \<Rightarrow> bool" where
  "word_char c \<longleftrightarrow> is_AZ c \<or> is_az c \<or> is_09 c \<or> c = 95"

definition name_ok :: "pystr \<Rightarrow> bool" where
  "name_ok = head_rest (\<lambda>c. is_AZ c \<or> is_az c) word_char 0 79"

section \<open>Properties of pages and questions\<close>

definition json_size :: "pyval \<Rightarrow> int res" where
  "json_size v = (case json_length v of None \<Rightarrow> fail_with ''invalid_response'' | Some n \<Rightarrow> Inr (int n))"

definition utf16_length :: "pystr \<Rightarrow> nat res" where
  "utf16_length s = (case utf16_units s of None \<Rightarrow> fail_with ''invalid_response'' | Some n \<Rightarrow> Inr n)"

definition contains_option :: "pyval \<Rightarrow> pyval list \<Rightarrow> bool" where
  "contains_option value allowed \<longleftrightarrow>
     list_ex (\<lambda>item. same_type value item \<and> py_eq value item
       \<or> is_number value \<and> is_number item \<and> py_eq value item) allowed"

text \<open>A date as \<^verbatim>\<open>date.isoformat\<close> writes it.\<close>

definition canonical_date :: "pyval \<Rightarrow> bool" where
  "canonical_date v = (case v of VStr s \<Rightarrow> (case read_date s of None \<Rightarrow> False | Some d \<Rightarrow> iso_date d = s) | _ \<Rightarrow> False)"

definition finite_number :: "pyval \<Rightarrow> unit res" where
  "finite_number v =
     (if \<not> is_number v then fail_with ''invalid_definition''
      else then_res (is_finite v) (\<lambda>ok. if ok then Inr () else fail_with ''invalid_definition''))"

fun text_less :: "pystr \<Rightarrow> pystr \<Rightarrow> bool" where
  "text_less s [] = False"
| "text_less [] (d # t) = True"
| "text_less (c # s) (d # t) = (c < d \<or> c = d \<and> text_less s t)"

definition value_less :: "pyval \<Rightarrow> pyval \<Rightarrow> bool" where
  "value_less v w = (case (v, w) of (VStr s, VStr t) \<Rightarrow> text_less s t | _ \<Rightarrow> num_less v w)"

definition present :: "string list \<Rightarrow> pyval \<Rightarrow> (string \<times> pyval) list" where
  "present ks v = List.map_filter (\<lambda>k. map_option (\<lambda>w. (k, w)) (member k v)) ks"

definition rating_range :: "pyval \<Rightarrow> bool res" where
  "rating_range v =
     (let step = member_or ''rateStep'' (VInt 1) v; low = member_or ''rateMin'' (VInt 1) v;
          high = member_or ''rateMax'' (VInt 5) v in
      if num_leq step (VInt 0) \<or> num_less high low then Inr False
      else then_res (num_minus high low) (\<lambda>width. then_res (num_over width step) (\<lambda>steps.
        Inr (\<not> float_less (Fin 99) steps))))"

definition check_properties :: "pyval \<Rightarrow> unit res" where
  "check_properties v =
     (if list_ex (\<lambda>(k, w). \<not> is_str w \<or> 10000 < int (length (text_of w)) \<or> 60 \<in> set (text_of w))
         (present [''title'', ''description'', ''placeholder'', ''completedHtml''] v)
      then fail_with ''unsupported_capability''
      else if list_ex (\<lambda>(k, w). \<not> is_bool w) (present [''isRequired'', ''isAllRowRequired''] v)
      then fail_with ''invalid_definition''
      else if list_ex (\<lambda>(k, w). case w of VInt n \<Rightarrow> \<not> (0 \<le> n \<and> n \<le> 10000) | _ \<Rightarrow> True)
         (present [''minLength'', ''maxLength'', ''minSelectedChoices'', ''maxSelectedChoices''] v)
      then fail_with ''invalid_definition''
      else then_res (fold_res (\<lambda>_ (k, w).
          if member ''inputType'' v = Some (VStr (lit ''date'')) \<and> k \<in> {''min'', ''max''}
          then if canonical_date w then Inr () else fail_with ''invalid_definition''
          else finite_number w) () (present [''min'', ''max'', ''rateMin'', ''rateMax'', ''rateStep''] v)) (\<lambda>_.
        if list_ex (\<lambda>(low, high). case (member low v, member high v) of (Some a, Some b) \<Rightarrow> value_less b a | _ \<Rightarrow> False)
           [(''min'', ''max''), (''rateMin'', ''rateMax''), (''minLength'', ''maxLength''),
            (''minSelectedChoices'', ''maxSelectedChoices'')]
        then fail_with ''invalid_definition''
        else if member ''type'' v = Some (VStr (lit ''rating''))
        then then_res (rating_range v) (\<lambda>ok. if ok then Inr () else fail_with ''invalid_definition'')
        else Inr ()))"

section \<open>Conditions\<close>

datatype connective = Conn_Or | Conn_And

fun connective_text :: "connective \<Rightarrow> pystr" where
  "connective_text Conn_Or = lit '' or ''"
| "connective_text Conn_And = lit '' and ''"

text \<open>The quote after a character, and the change of the depth of parentheses outside quotes.\<close>

definition next_quote :: "int option \<Rightarrow> int \<Rightarrow> int option" where
  "next_quote quote c =
     (if c = 39 \<or> c = 34 then (if quote = Some c then None else if quote = None then Some c else quote) else quote)"

definition paren :: "int \<Rightarrow> int" where
  "paren c = (if c = 40 then 1 else if c = 41 then - 1 else 0)"

text \<open>The first return to depth 0 is at the last character.\<close>

fun encloses :: "int \<Rightarrow> int option \<Rightarrow> pystr \<Rightarrow> bool" where
  "encloses depth quote [] = False"
| "encloses depth quote (c # s) =
     (let q = next_quote quote c in
      if q \<noteq> None then encloses depth q s
      else if depth + paren c = 0 then s = [] else encloses (depth + paren c) q s)"

text \<open>The parts between the operators at depth 0; \<open>skip\<close> characters of an operator are still to pass.\<close>

fun split_top :: "pystr \<Rightarrow> int \<Rightarrow> int option \<Rightarrow> nat \<Rightarrow> pystr \<Rightarrow> pystr \<Rightarrow> pystr list" where
  "split_top opr depth quote skip part [] = [part]"
| "split_top opr depth quote skip part (c # s) =
     (let q = next_quote quote c; d = (if q = None then depth + paren c else depth) in
      if q = None \<and> d = 0 \<and> starts_with opr (c # s) then part # split_top opr d q (length opr - 1) [] s
      else if 0 < skip then split_top opr d q (skip - 1) part s
      else split_top opr d q 0 (part @ [c]) s)"

lemma strip_length: "length (strip s) \<le> length s"
proof -
  have "length (rstrip t) \<le> length t" for t unfolding rstrip_def using length_dropWhile_le [of is_space "rev t"] by simp
  moreover have "length (lstrip t) \<le> length t" for t unfolding lstrip_def by (simp add: length_dropWhile_le)
  ultimately show ?thesis unfolding strip_def by (metis order_trans)
qed

function clauses :: "pystr \<Rightarrow> connective option \<times> pystr list" where
  "clauses expression =
     (let e = strip expression in
      if e \<noteq> [] \<and> hd e = 40 \<and> encloses 0 None e then clauses (butlast (tl e))
      else let ors = split_top (connective_text Conn_Or) 0 None 0 [] e;
               ands = split_top (connective_text Conn_And) 0 None 0 [] e in
        if length ors > 1 then (Some Conn_Or, ors)
        else if length ands > 1 then (Some Conn_And, ands)
        else (None, [e]))"
  by pat_completeness auto

termination
proof (relation "measure length")
  fix expression e :: pystr
  assume "e = strip expression" and e: "e \<noteq> [] \<and> hd e = 40 \<and> encloses 0 None e"
  then have "length e \<le> length expression" using strip_length by simp
  moreover have "length (butlast (tl e)) < length e" using e by (cases e) auto
  ultimately show "(butlast (tl e), expression) \<in> measure length" by simp
qed simp

declare clauses.simps [simp del]

definition leaf_operators :: "string list" where
  "leaf_operators = [''notempty'', ''empty'', ''notcontains'', ''contains'', ''<='', ''>='', ''!='', ''<>'', ''='', ''<'', ''>'']"

text \<open>\<^verbatim>\<open>LEAF.fullmatch\<close>; the literal holds no line feed.\<close>

definition read_leaf :: "pystr \<Rightarrow> leaf option" where
  "read_leaf s =
     (case s of
        [] \<Rightarrow> None
      | c # t \<Rightarrow>
          let name = takeWhile word_char t; u = dropWhile word_char t in
          if c \<noteq> 123 \<or> name = [] \<or> \<not> (is_AZ (hd name) \<or> is_az (hd name)) \<or> u = [] \<or> hd u \<noteq> 125 then None
          else let v = lstrip (tl u) in
            case find (\<lambda>opr. starts_with (lit opr) v) leaf_operators of
              None \<Rightarrow> None
            | Some opr \<Rightarrow>
                let literal = lstrip (drop (length opr) v) in
                if 10 \<in> set literal then None else Some (name, lit opr, literal))"

definition empty_answer :: "pyval option \<Rightarrow> bool" where
  "empty_answer v \<longleftrightarrow> v = None \<or> v = Some VNone \<or> v = Some (VStr []) \<or> v = Some (VList [])"

definition lower_value :: "pyval \<Rightarrow> pyval" where
  "lower_value v = (case v of VStr s \<Rightarrow> VStr (lower s) | _ \<Rightarrow> v)"

definition condition_literal :: "pystr \<Rightarrow> pyval res" where
  "condition_literal literal =
     (case (if quoted_literal literal then Some (VStr (butlast (tl literal))) else loads_scalar literal) of
        Some (VStr s) \<Rightarrow> Inr (VStr s)
      | Some (VBool b) \<Rightarrow> Inr (VBool b)
      | Some (VInt n) \<Rightarrow> Inr (VInt n)
      | Some (VFloat (Fin q)) \<Rightarrow> Inr (VFloat (Fin q))
      | _ \<Rightarrow> fail_with ''unsupported_capability'')"

definition equal_values :: "pyval \<Rightarrow> pyval \<Rightarrow> bool" where
  "equal_values v w \<longleftrightarrow> (if is_number v \<and> is_number w then py_eq v w else same_type v w \<and> py_eq v w)"

definition found_in :: "pyval \<Rightarrow> pyval \<Rightarrow> bool" where
  "found_in expected value =
     (case value of
        VList items \<Rightarrow> list_ex (\<lambda>item. py_eq item expected) items
      | VStr s \<Rightarrow> (case expected of VStr t \<Rightarrow> contains t s | _ \<Rightarrow> False)
      | _ \<Rightarrow> False)"

definition compare_leaf :: "pystr \<Rightarrow> pyval option \<Rightarrow> pyval \<Rightarrow> bool" where
  "compare_leaf opr value literal =
     (let expected = lower_value literal in
      if empty_answer value then opr \<in> {lit ''!='', lit ''<>'', lit ''notcontains''}
      else let v = (case the value of VList items \<Rightarrow> VList (map lower_value items) | w \<Rightarrow> lower_value w) in
        if opr = lit ''='' then equal_values v expected
        else if opr \<in> {lit ''!='', lit ''<>''} then \<not> equal_values v expected
        else if opr = lit ''contains'' then found_in expected v
        else if opr = lit ''notcontains'' then \<not> found_in expected v
        else if \<not> is_number v \<or> \<not> is_number expected then False
        else if opr = lit ''<'' then num_less v expected
        else if opr = lit ''<='' then num_leq v expected
        else if opr = lit ''>'' then num_less expected v
        else num_leq expected v)"

definition leaf_value :: "leaf \<Rightarrow> (pystr \<times> pyval) list \<Rightarrow> bool res" where
  "leaf_value = (\<lambda>(name, opr, literal) answers.
     let value = map_of answers name in
     if opr \<in> {lit ''empty'', lit ''notempty''}
     then if literal \<noteq> [] then fail_with ''unsupported_capability''
          else Inr (if opr = lit ''empty'' then empty_answer value else \<not> empty_answer value)
     else then_res (condition_literal literal) (\<lambda>expected. Inr (compare_leaf opr value expected)))"

definition guarded_expression :: "pystr \<Rightarrow> bool" where
  "guarded_expression s \<longleftrightarrow> int (length s) \<le> 2000 \<and> count_list s 40 \<le> 20"

fun condition_at :: "nat \<Rightarrow> pystr \<Rightarrow> (pystr \<times> pyval) list \<Rightarrow> pystr list \<Rightarrow> bool res" where
  "condition_at 0 expression answers preceding = Inl Recursion_Error"
| "condition_at (Suc n) expression answers preceding =
     (if \<not> guarded_expression expression then fail_with ''unsupported_capability''
      else case clauses expression of
        (Some conn, parts) \<Rightarrow>
          then_res (map_res (\<lambda>p. condition_at n p answers preceding) parts) (\<lambda>results.
            Inr (if conn = Conn_And then list_all (\<lambda>b. b) results else list_ex (\<lambda>b. b) results))
      | (None, parts) \<Rightarrow>
          (case read_leaf (hd parts) of
             None \<Rightarrow> fail_with ''unsupported_capability''
           | Some l \<Rightarrow> if fst l \<notin> set preceding then fail_with ''unsupported_capability'' else leaf_value l answers))"

text \<open>
  The source has no such number: \<^verbatim>\<open>condition\<close> and \<^verbatim>\<open>leaves\<close> recurse until the interpreter refuses another frame.
  Five hundred stands in for the frames left of its thousand.  For \<^verbatim>\<open>condition\<close> any number from 43 on gives
  the same results; \<^verbatim>\<open>leaves\<close> has no guard of its own in \<^verbatim>\<open>survey_analysis.py\<close>, and on expressions nested deeper than
  the guard of \<^verbatim>\<open>condition\<close> allows the number matters.
\<close>

definition call_limit :: nat where "call_limit = 500"

definition condition :: "pyval \<Rightarrow> (pystr \<times> pyval) list \<Rightarrow> pystr list \<Rightarrow> bool res" where
  "condition expression answers preceding =
     (case expression of
        VStr s \<Rightarrow> condition_at call_limit s answers preceding
      | _ \<Rightarrow> fail_with ''unsupported_capability'')"

section \<open>Options\<close>

definition option_item :: "pyval \<Rightarrow> pyval res" where
  "option_item item =
     (case item of
        VDict ms \<Rightarrow>
          if \<not> only_keys [''value'', ''text''] item \<or> \<not> has_key ''value'' item then fail_with ''unsupported_capability''
          else if (case member ''text'' item of None \<Rightarrow> False | Some t \<Rightarrow>
              \<not> is_str t \<or> 60 \<in> set (text_of t) \<or> 10000 < int (length (text_of t))) then fail_with ''unsupported_capability''
          else Inr (the (member ''value'' item))
      | _ \<Rightarrow> Inr item)"

definition add_option :: "pyval list \<Rightarrow> pyval \<Rightarrow> pyval list res" where
  "add_option vs raw =
     then_res (option_item raw) (\<lambda>item.
     if \<not> (is_str item \<or> is_number item) \<or> list_ex (\<lambda>v. py_eq v item) vs
        \<or> (case item of VFloat (Fin _) \<Rightarrow> False | VFloat _ \<Rightarrow> True | _ \<Rightarrow> False)
     then fail_with ''invalid_definition''
     else if item = VStr [] then fail_with ''invalid_definition''
     else Inr (vs @ [item]))"

definition options :: "pyval option \<Rightarrow> pyval list res" where
  "options items =
     (case items of
        Some (VList vs) \<Rightarrow>
          if 1 \<le> length vs \<and> length vs \<le> 100 then fold_res add_option [] vs else fail_with ''invalid_definition''
      | _ \<Rightarrow> fail_with ''invalid_definition'')"

section \<open>Definitions\<close>

definition kind_of :: "pyval \<Rightarrow> string option" where
  "kind_of q = (case member ''type'' q of Some (VStr s) \<Rightarrow> find (\<lambda>k. lit k = s) (map fst type_keys) | _ \<Rightarrow> None)"

definition visible_if :: "pyval \<Rightarrow> (pystr \<times> pyval) list \<Rightarrow> pystr list \<Rightarrow> bool res" where
  "visible_if v answers preceding =
     (case member ''visibleIf'' v of None \<Rightarrow> Inr True | Some e \<Rightarrow> condition e answers preceding)"

definition check_question :: "pystr list \<Rightarrow> pyval \<Rightarrow> pystr list res" where
  "check_question preceding q =
     (if \<not> is_dict q \<or> \<not> only_keys question_keys q then fail_with ''unsupported_capability''
      else case kind_of q of
        None \<Rightarrow> fail_with ''unsupported_capability''
      | Some kind \<Rightarrow>
          let input_type = member_or ''inputType'' (VStr (lit ''text'')) q in
          if \<not> only_keys (common_question_keys @ the (map_of type_keys kind)) q then fail_with ''unsupported_capability''
          else if input_type \<notin> VStr ` lit ` {''text'', ''number'', ''date''} then fail_with ''unsupported_capability''
          else if kind = ''text'' \<and> (input_type = VStr (lit ''text'') \<and> (has_key ''min'' q \<or> has_key ''max'' q)
              \<or> input_type \<noteq> VStr (lit ''text'') \<and> (has_key ''minLength'' q \<or> has_key ''maxLength'' q))
          then fail_with ''unsupported_capability''
          else then_res (check_properties q) (\<lambda>_.
            case member ''name'' q of
              Some (VStr name) \<Rightarrow>
                if \<not> name_ok name \<or> name \<in> set preceding then fail_with ''invalid_definition''
                else then_res (visible_if q [] preceding) (\<lambda>_.
                  then_res (if kind \<in> {''radiogroup'', ''dropdown'', ''checkbox''} then options (member ''choices'' q) else Inr []) (\<lambda>_.
                  then_res (if kind = ''matrix'' then options (member ''rows'' q) else Inr []) (\<lambda>_.
                  then_res (if kind = ''matrix'' then options (member ''columns'' q) else Inr []) (\<lambda>_.
                    Inr (preceding @ [name])))))
            | _ \<Rightarrow> fail_with ''invalid_definition''))"

definition check_page :: "pystr list \<times> pystr list \<Rightarrow> pyval \<Rightarrow> (pystr list \<times> pystr list) res" where
  "check_page = (\<lambda>(preceding, names) page.
     if \<not> is_dict page \<or> \<not> only_keys page_keys page then fail_with ''unsupported_capability''
     else then_res (check_properties page) (\<lambda>_.
       case member ''name'' page of
         Some (VStr name) \<Rightarrow>
           if \<not> name_ok name \<or> name \<in> set names then fail_with ''invalid_definition''
           else then_res (visible_if page [] preceding) (\<lambda>_.
             case member ''elements'' page of
               Some (VList elements) \<Rightarrow>
                 if elements = [] then fail_with ''invalid_definition''
                 else then_res (fold_res check_question preceding elements) (\<lambda>all. Inr (all, names @ [name]))
             | _ \<Rightarrow> fail_with ''invalid_definition'')
       | _ \<Rightarrow> fail_with ''invalid_definition''))"

definition validate_definition :: "pyval \<Rightarrow> unit res" where
  "validate_definition d =
     (if \<not> is_dict d then fail_with ''invalid_definition''
      else if \<not> only_keys root_keys d then fail_with ''unsupported_capability''
      else then_res (json_size d) (\<lambda>size.
        if 262144 < size then fail_with ''limit_exceeded''
        else then_res (check_properties d) (\<lambda>_.
          if (case member ''locale'' d of None \<Rightarrow> False | Some v \<Rightarrow> v \<notin> VStr ` lit ` {''de'', ''en'', []})
          then fail_with ''unsupported_capability''
          else if (case member ''showProgressBar'' d of None \<Rightarrow> False
            | Some v \<Rightarrow> v \<notin> VStr ` lit ` {''off'', ''top'', ''bottom'', ''both'', ''auto''}) then fail_with ''invalid_definition''
          else case member ''pages'' d of
            Some (VList pages) \<Rightarrow>
              if \<not> (1 \<le> length pages \<and> length pages \<le> 25) then fail_with ''invalid_definition''
              else then_res (fold_res check_page ([], []) pages) (\<lambda>(preceding, _).
                if 150 < length preceding then fail_with ''limit_exceeded'' else Inr ())
          | _ \<Rightarrow> fail_with ''invalid_definition'')))"

section \<open>Answers\<close>

definition int_member :: "string \<Rightarrow> int \<Rightarrow> pyval \<Rightarrow> int" where
  "int_member k other q = (case member k q of Some (VInt n) \<Rightarrow> n | _ \<Rightarrow> other)"

definition input_is :: "string \<Rightarrow> pyval \<Rightarrow> bool" where
  "input_is t q \<longleftrightarrow> member ''inputType'' q = Some (VStr (lit t))"

abbreviation invalid :: "'a res" where "invalid \<equiv> fail_with ''invalid_response''"

definition check_text :: "pyval \<Rightarrow> pyval \<Rightarrow> unit res" where
  "check_text q value =
     (case value of
        VStr s \<Rightarrow> then_res (utf16_length s) (\<lambda>n.
          let most = int_member ''maxLength'' 0 q in
          if int_member ''minLength'' 0 q \<le> int n \<and> int n \<le> (if most = 0 then 10000 else most) then Inr () else invalid)
      | _ \<Rightarrow> invalid)"

definition number_bounds :: "string \<Rightarrow> pyval \<Rightarrow> pyval \<times> pyval" where
  "number_bounds kind q =
     (if kind = ''rating'' then (member_or ''rateMin'' (VInt 1) q, member_or ''rateMax'' (VInt 5) q)
      else (member_or ''min'' (VFloat (Fin (- 1000000000000))) q, member_or ''max'' (VFloat (Fin 1000000000000)) q))"

definition check_number :: "string \<Rightarrow> pyval \<Rightarrow> pyval \<Rightarrow> unit res" where
  "check_number kind q value =
     (if \<not> is_number value then invalid
      else then_res (is_finite value) (\<lambda>ok.
        if \<not> ok \<or> \<not> num_leq (fst (number_bounds kind q)) value \<or> \<not> num_leq value (snd (number_bounds kind q))
        then invalid else Inr ()))"

definition check_date :: "pyval \<Rightarrow> pyval \<Rightarrow> unit res" where
  "check_date q value =
     (if \<not> canonical_date value then invalid
      else if (case member ''min'' q of Some m \<Rightarrow> truthy m \<and> value_less value m | None \<Rightarrow> False) then invalid
      else if (case member ''max'' q of Some m \<Rightarrow> truthy m \<and> value_less m value | None \<Rightarrow> False) then invalid
      else Inr ())"

definition repeats_option :: "pyval list \<Rightarrow> bool" where
  "repeats_option vs \<longleftrightarrow> list_ex (\<lambda>k. contains_option (vs ! k) (take k vs)) [0..<length vs]"

definition check_boxes :: "bool \<Rightarrow> pyval \<Rightarrow> pyval \<Rightarrow> unit res" where
  "check_boxes finished q value =
     then_res (options (member ''choices'' q)) (\<lambda>allowed.
     case value of
       VList vs \<Rightarrow>
         let most = int_member ''maxSelectedChoices'' 0 q in
         if list_ex (\<lambda>v. \<not> contains_option v allowed) vs \<or> repeats_option vs then invalid
         else if int (length vs) > (if most = 0 then 100 else most)
            \<or> finished \<and> int (length vs) < int_member ''minSelectedChoices'' 0 q then invalid
         else Inr ()
     | _ \<Rightarrow> invalid)"

text \<open>\<^verbatim>\<open>str\<close> of an option.\<close>

definition option_text :: "pyval \<Rightarrow> pystr" where
  "option_text v = (case v of VStr s \<Rightarrow> s
     | VInt n \<Rightarrow> if n < 0 then 45 # decimal_digits (- n) else decimal_digits n
     | VFloat x \<Rightarrow> float_repr x | _ \<Rightarrow> [])"

definition flag :: "string \<Rightarrow> pyval \<Rightarrow> bool" where
  "flag k q \<longleftrightarrow> (case member k q of None \<Rightarrow> False | Some v \<Rightarrow> truthy v)"

definition check_matrix :: "bool \<Rightarrow> pyval \<Rightarrow> pyval \<Rightarrow> unit res" where
  "check_matrix finished q value =
     then_res (options (member ''rows'' q)) (\<lambda>row_options.
     then_res (options (member ''columns'' q)) (\<lambda>cols.
     let rows = map option_text row_options in
     case value of
       VDict ms \<Rightarrow>
         if list_ex (\<lambda>k. k \<notin> set rows) (map fst ms) \<or> list_ex (\<lambda>v. \<not> contains_option v cols) (map snd ms) then invalid
         else if finished \<and> (flag ''isRequired'' q \<and> ms = []
            \<or> flag ''isAllRowRequired'' q \<and> list_ex (\<lambda>r. r \<notin> set (map fst ms)) rows) then invalid
         else Inr ()
     | _ \<Rightarrow> invalid))"

definition check_step :: "pyval \<Rightarrow> pyval \<Rightarrow> unit res" where
  "check_step q value =
     then_res (num_minus value (member_or ''rateMin'' (VInt 1) q)) (\<lambda>diff.
     then_res (num_over diff (member_or ''rateStep'' (VInt 1) q)) (\<lambda>x.
     then_res (py_round x) (\<lambda>n.
     then_res (float_of_int n) (\<lambda>y. case x of Fin p \<Rightarrow> if is_close p y then Inr () else invalid | _ \<Rightarrow> invalid))))"

definition check_answer :: "bool \<Rightarrow> string \<Rightarrow> pyval \<Rightarrow> pyval \<Rightarrow> unit res" where
  "check_answer finished kind q value =
     then_res
       (if kind \<in> {''text'', ''comment''} \<and> \<not> input_is ''number'' q \<and> \<not> input_is ''date'' q then check_text q value
        else if kind = ''rating'' \<or> input_is ''number'' q then check_number kind q value
        else if input_is ''date'' q then check_date q value
        else if kind \<in> {''radiogroup'', ''dropdown''}
        then then_res (options (member ''choices'' q)) (\<lambda>allowed. if contains_option value allowed then Inr () else invalid)
        else if kind = ''checkbox'' then check_boxes finished q value
        else if kind = ''matrix'' then check_matrix finished q value
        else Inr ()) (\<lambda>_.
     if kind = ''rating'' then check_step q value else Inr ())"

text \<open>What is missing counts as no answer.\<close>

definition required_missing :: "bool \<Rightarrow> string \<Rightarrow> pyval \<Rightarrow> bool" where
  "required_missing finished kind q \<longleftrightarrow>
     finished \<and> (flag ''isRequired'' q \<or> kind = ''checkbox'' \<and> 0 < int_member ''minSelectedChoices'' 0 q)"

definition answer_step :: "bool \<Rightarrow> (pystr \<times> pyval) list \<Rightarrow> bool \<Rightarrow> (pystr \<times> pyval) list \<times> pystr list \<Rightarrow> pyval
    \<Rightarrow> ((pystr \<times> pyval) list \<times> pystr list) res" where
  "answer_step finished answers page_visible = (\<lambda>(clean, preceding) q.
     let name = text_of (the (member ''name'' q)); kind = the (kind_of q); seen = preceding @ [name] in
     then_res (if page_visible then visible_if q clean preceding else Inr False) (\<lambda>visible.
     if \<not> visible then Inr (clean, seen)
     else if empty_answer (map_of answers name)
     then if required_missing finished kind q then invalid else Inr (clean, seen)
     else let value = the (map_of answers name) in
       then_res (check_answer finished kind q value) (\<lambda>_. Inr (clean @ [(name, value)], seen))))"

definition page_step :: "bool \<Rightarrow> (pystr \<times> pyval) list \<Rightarrow> (pystr \<times> pyval) list \<times> pystr list \<Rightarrow> pyval
    \<Rightarrow> ((pystr \<times> pyval) list \<times> pystr list) res" where
  "page_step finished answers st page =
     then_res (visible_if page (fst st) (snd st)) (\<lambda>page_visible.
       fold_res (answer_step finished answers page_visible) st (items_of (the (member ''elements'' page))))"

definition pages_of :: "pyval \<Rightarrow> pyval list" where
  "pages_of d = items_of (the (member ''pages'' d))"

definition question_names :: "pyval \<Rightarrow> pystr list" where
  "question_names d = concat (map (\<lambda>p. map (\<lambda>q. text_of (the (member ''name'' q)))
     (items_of (the (member ''elements'' p)))) (pages_of d))"

definition validate_answers :: "pyval \<Rightarrow> pyval \<Rightarrow> bool \<Rightarrow> (pystr \<times> pyval) list res" where
  "validate_answers d answers finished =
     then_res (validate_definition d) (\<lambda>_.
     case answers of
       VDict ms \<Rightarrow>
         then_res (json_size answers) (\<lambda>size.
         if 262144 < size then invalid
         else if list_ex (\<lambda>k. k \<notin> set (question_names d)) (map fst ms) then invalid
         else then_res (fold_res (page_step finished ms) ([], []) (pages_of d)) (\<lambda>(clean, _). Inr clean))
     | _ \<Rightarrow> invalid)"

section \<open>The structure of conditions\<close>

text \<open>\<^verbatim>\<open>leaves\<close>: every part the grammar does not match is an opaque leaf.\<close>

fun leaves_at :: "nat \<Rightarrow> pystr \<Rightarrow> leaf list res" where
  "leaves_at 0 expression = Inl Recursion_Error"
| "leaves_at (Suc n) expression =
     (case clauses expression of
        (Some _, parts) \<Rightarrow> then_res (map_res (leaves_at n) parts) (\<lambda>ls. Inr (concat ls))
      | (None, parts) \<Rightarrow>
          (case read_leaf (strip (hd parts)) of
             None \<Rightarrow> Inr [([], lit ''opaque'', strip (hd parts))]
           | Some (name, opr, literal) \<Rightarrow> Inr [(name, opr, strip literal)]))"

definition leaves :: "pyval option \<Rightarrow> leaf list res" where
  "leaves expression = (case expression of Some (VStr s) \<Rightarrow> leaves_at call_limit s | _ \<Rightarrow> Inr [])"

text \<open>The names between braces, up to the first dot; an unclosed brace ends the search.\<close>

fun references :: "nat \<Rightarrow> pystr \<Rightarrow> pystr list" where
  "references 0 s = []"
| "references (Suc n) s =
     (case dropWhile (\<lambda>c. c \<noteq> 123) s of
        [] \<Rightarrow> []
      | _ # t \<Rightarrow>
          let body = takeWhile (\<lambda>c. c \<noteq> 125) t; rest = drop (length body) t in
          if rest = [] \<or> body = [] then references n t
          else strip (takeWhile (\<lambda>c. c \<noteq> 46) body) # references n (tl rest))"

definition has_references :: "pyval option \<Rightarrow> bool" where
  "has_references expression = (case expression of Some (VStr s) \<Rightarrow> references (Suc (length s)) s \<noteq> [] | _ \<Rightarrow> False)"

definition element_dependencies :: "pyval option \<Rightarrow> leaf list \<Rightarrow> pyval \<Rightarrow> (pystr \<times> leaf list) list res" where
  "element_dependencies page_condition page_leaves q =
     then_res (leaves (member ''visibleIf'' q)) (\<lambda>own.
     Inr (if has_references page_condition \<or> has_references (member ''visibleIf'' q) \<or> page_leaves @ own \<noteq> []
       then [(text_of (the (member ''name'' q)), page_leaves @ own)] else []))"

definition page_dependencies :: "pyval \<Rightarrow> ((pystr \<times> leaf list) list \<times> (pystr \<times> leaf list) list) res" where
  "page_dependencies page =
     (let condition = member ''visibleIf'' page in
      then_res (leaves condition) (\<lambda>page_leaves.
      then_res (map_res (element_dependencies condition page_leaves) (items_of (member_or ''elements'' (VList []) page)))
        (\<lambda>questions. Inr (concat questions,
          if has_references condition \<or> page_leaves \<noteq> [] then [(text_of (the (member ''name'' page)), page_leaves)] else []))))"

definition dependencies :: "pyval \<Rightarrow> snapshot_dependencies res" where
  "dependencies d =
     then_res (map_res page_dependencies (items_of (member_or ''pages'' (VList []) d))) (\<lambda>parts.
     Inr \<lparr>de_question_leaves = Some (concat (map fst parts)), de_page_leaves = Some (concat (map snd parts))\<rparr>)"

definition last_page_counts :: "pyval \<Rightarrow> pystr option list \<Rightarrow> last_page_count list" where
  "last_page_counts d current_pages =
     (let names = map (\<lambda>p. text_of (the (member ''name'' p))) (pages_of d);
          page_of = (\<lambda>c. case c of Some n \<Rightarrow> if n \<in> set names then Some n else None | None \<Rightarrow> None);
          number = (\<lambda>k. int (length (filter (\<lambda>c. page_of c = k) current_pages))) in
      map (\<lambda>p. let name = text_of (the (member ''name'' p)) in
        \<lparr>lp_page_id = Some name, lp_title = text_of (member_or ''title'' (VStr name) p), lp_count = number (Some name)\<rparr>) (pages_of d)
      @ [\<lparr>lp_page_id = None, lp_title = lit ''Keine bekannte Seite'', lp_count = number None\<rparr>])"

end
