(* ===== verification/Survey_Conditions.thy ===== *)
theory Survey_Conditions
  imports Survey_Definition
begin

text \<open>
  Conditions of a survey: the depth of the recursion of \<^verbatim>\<open>condition\<close> and what the recorded leaves say
  of it.
\<close>

section \<open>Where an operator splits\<close>

definition scan_char :: "int \<times> int option \<Rightarrow> int \<Rightarrow> int \<times> int option" where
  "scan_char = (\<lambda>(d, q) c. let q' = next_quote q c in (if q' = None then d + paren c else d, q'))"

definition scan :: "int \<times> int option \<Rightarrow> pystr \<Rightarrow> int \<times> int option" where
  "scan = foldl scan_char"

definition hit_at :: "pystr \<Rightarrow> pystr \<Rightarrow> nat \<Rightarrow> bool" where
  "hit_at opr t i \<longleftrightarrow> scan (0, None) (take (Suc i) t) = (0, None) \<and> starts_with opr (drop i t)"

definition no_hit :: "pystr \<Rightarrow> pystr \<Rightarrow> bool" where
  "no_hit opr t \<longleftrightarrow> (\<forall>i < length t. \<not> hit_at opr t i)"

definition plain :: "int \<Rightarrow> bool" where
  "plain c \<longleftrightarrow> c \<notin> {39, 34, 40, 41}"

lemma scan_append: "scan st (s @ t) = scan (scan st s) t"
  by (simp add: scan_def)

lemma scan_simps [simp]: "scan st [] = st" "scan st (c # s) = scan (scan_char st c) s"
  by (simp_all add: scan_def)

lemma scan_plain_char: "plain c \<Longrightarrow> scan_char (d, None) c = (d, None)"
  by (simp add: scan_char_def plain_def next_quote_def paren_def)

lemma scan_plain: "list_all plain s \<Longrightarrow> scan (d, None) s = (d, None)"
  by (induction s) (simp_all add: scan_plain_char)

lemma starts_with_append: "starts_with p s \<Longrightarrow> starts_with p (s @ t)"
  unfolding starts_with_def
  by (metis append_take_drop_id append_assoc take_append take_all length_take min.absorb2 nat_le_linear append_Nil2 diff_is_0_eq take_0)

lemma hit_prefix: "hit_at opr s i \<Longrightarrow> i < length s \<Longrightarrow> hit_at opr (s @ t) i"
  by (simp add: hit_at_def starts_with_append)

lemma hit_shift: "scan (0, None) u = (0, None) \<Longrightarrow> hit_at opr s i \<Longrightarrow> hit_at opr (u @ s) (length u + i)"
  by (simp add: hit_at_def scan_append)

lemma no_hit_infix:
  assumes "no_hit opr (u @ s @ t)" "scan (0, None) u = (0, None)"
  shows "no_hit opr s"
  unfolding no_hit_def
proof (intro allI impI notI)
  fix i assume i: "i < length s" "hit_at opr s i"
  from hit_prefix [OF i(2,1)] have "hit_at opr (u @ s @ t) (length u + i)" by (rule hit_shift [OF assms(2)])
  then show False using assms(1) i(1) by (simp add: no_hit_def)
qed

lemma no_hit_nil [simp]: "no_hit opr []"
  by (simp add: no_hit_def)

lemma space_plain: "is_space c \<Longrightarrow> plain c"
  by (auto simp: is_space_def plain_def)

lemma strip_infix: "\<exists>u t. s = u @ strip s @ t \<and> list_all is_space u"
proof -
  have l: "s = takeWhile is_space s @ lstrip s" by (simp add: lstrip_def)
  have r: "x = rstrip x @ rev (takeWhile is_space (rev x))" for x
    unfolding rstrip_def by (metis rev_append rev_rev_ident takeWhile_dropWhile_id)
  have "s = takeWhile is_space s @ strip s @ rev (takeWhile is_space (rev (lstrip s)))"
    unfolding strip_def using l r [of "lstrip s"] by simp
  moreover have "list_all is_space (takeWhile is_space s)" by (auto simp: list_all_iff dest: set_takeWhileD)
  ultimately show ?thesis by blast
qed

lemma no_hit_strip: "no_hit opr s \<Longrightarrow> no_hit opr (strip s)"
proof -
  assume s: "no_hit opr s"
  obtain u t where ut: "s = u @ strip s @ t" "list_all is_space u" using strip_infix by blast
  have "scan (0, None) u = (0, None)"
    by (rule scan_plain) (use ut(2) space_plain in \<open>auto simp: list_all_iff\<close>)
  then show ?thesis using no_hit_infix s ut(1) by metis
qed

lemma count_strip: "count_list (strip s) c \<le> count_list s c"
proof -
  obtain u t where ut: "s = u @ strip s @ t" using strip_infix by blast
  have "count_list (u @ strip s @ t) c = count_list u c + (count_list (strip s) c + count_list t c)" by simp
  then show ?thesis using ut by simp
qed

section \<open>The parts of a split\<close>

lemma split_top_Cons:
  assumes "scan_char (d, q) c = (e, r)"
  shows "split_top opr d q k part (c # s) =
     (if (e, r) = (0, None) \<and> starts_with opr (c # s) then part # split_top opr e r (length opr - 1) [] s
      else if 0 < k then split_top opr e r (k - 1) part s else split_top opr e r 0 (part @ [c]) s)"
  using assms by (auto simp: scan_char_def Let_def split: if_splits)

declare split_top.simps(2) [simp del]

lemma split_top_nonempty: "split_top opr d q k part s \<noteq> []"
proof (induction s arbitrary: d q k part)
  case (Cons c s)
  obtain e r where "scan_char (d, q) c = (e, r)" by fastforce
  then show ?case using Cons.IH by (simp add: split_top_Cons)
qed simp

text \<open>A text that is not split has no operator at depth 0.\<close>

lemma split_top_hits:
  assumes "split_top opr d q k part s = [p]" "scan (0, None) u = (d, q)"
  shows "\<forall>i < length s. \<not> hit_at opr (u @ s) (length u + i)"
  using assms
proof (induction s arbitrary: d q k part u)
  case (Cons c s)
  obtain e r where er: "scan_char (d, q) c = (e, r)" by fastforce
  have sc: "scan (0, None) (u @ [c]) = (e, r)" using Cons.prems(2) er by (simp add: scan_append)
  have no: "\<not> ((e, r) = (0, None) \<and> starts_with opr (c # s))"
    using Cons.prems(1) split_top_nonempty [of opr e r _ _ s] unfolding split_top_Cons [OF er] by (auto split: if_splits)
  obtain k' part' where rest: "split_top opr e r k' part' s = [p]"
    using Cons.prems(1) no unfolding split_top_Cons [OF er] by (auto split: if_splits)
  have ih: "\<forall>i < length s. \<not> hit_at opr ((u @ [c]) @ s) (length (u @ [c]) + i)" by (rule Cons.IH [OF rest sc])
  show ?case
  proof (intro allI impI)
    fix i assume i: "i < length (c # s)"
    show "\<not> hit_at opr (u @ c # s) (length u + i)"
    proof (cases i)
      case 0
      then show ?thesis using no sc by (auto simp: hit_at_def)
    next
      case (Suc m)
      then show ?thesis using ih i by simp
    qed
  qed
qed simp

lemma not_split_no_hit: "length (split_top opr 0 None 0 [] s) \<le> 1 \<Longrightarrow> no_hit opr s"
proof -
  assume "length (split_top opr 0 None 0 [] s) \<le> 1"
  then obtain p where "split_top opr 0 None 0 [] s = [p]"
    using split_top_nonempty [of opr 0 None 0 "[]" s] by (cases "split_top opr 0 None 0 [] s") auto
  from split_top_hits [OF this, of "[]"] show ?thesis by (simp add: no_hit_def)
qed

lemma no_hit_not_split: "no_hit opr s \<Longrightarrow> split_top opr 0 None 0 [] s = [s]"
proof -
  have "split_top opr d q 0 part s = [part @ s]"
    if "scan (0, None) u = (d, q)" "\<forall>i < length s. \<not> hit_at opr (u @ s) (length u + i)" for d q part s u
    using that
  proof (induction s arbitrary: d q part u)
    case (Cons c s)
    obtain e r where er: "scan_char (d, q) c = (e, r)" by fastforce
    have sc: "scan (0, None) (u @ [c]) = (e, r)" using Cons.prems(1) er by (simp add: scan_append)
    have "\<not> hit_at opr (u @ c # s) (length u)" using Cons.prems(2) by force
    then have no: "\<not> ((e, r) = (0, None) \<and> starts_with opr (c # s))" using sc by (simp add: hit_at_def)
    have "\<not> hit_at opr ((u @ [c]) @ s) (length (u @ [c]) + i)" if "i < length s" for i
      using Cons.prems(2) [rule_format, of "Suc i"] that by simp
    from Cons.IH [OF sc] this show ?case unfolding split_top_Cons [OF er] using no by simp
  qed simp
  from this [of "[]" 0 None s "[]"] show "no_hit opr s \<Longrightarrow> ?thesis" by (simp add: no_hit_def)
qed

text \<open>A part of a split has no operator at depth 0, neither the one it was split by nor one the whole text lacks.\<close>

lemma hit_after:
  assumes "scan (0, None) u = (0, None)" "no_hit opr (u @ s)"
  shows "no_hit opr s"
  using no_hit_infix [of opr u s "[]"] assms by simp

lemma split_parts_no_hit:
  assumes opr: "list_all plain opr" and p: "p \<in> set (split_top opr d q k part s)"
    and now: "k = 0 \<Longrightarrow> scan (0, None) part = (d, q) \<and> (\<forall>i < length part. \<not> hit_at opr (part @ s) i)
        \<and> (other \<noteq> [] \<longrightarrow> no_hit other (part @ s))"
    and passing: "0 < k \<Longrightarrow> part = [] \<and> (d, q) = (0, None) \<and> list_all plain (take k s)
        \<and> (other \<noteq> [] \<longrightarrow> no_hit other s)"
  shows "no_hit opr p \<and> (other \<noteq> [] \<longrightarrow> no_hit other p)"
  using p now passing
proof (induction s arbitrary: d q k part)
  case Nil
  then show ?case by (cases "k = 0") (auto simp: no_hit_def)
next
  case (Cons c s)
  obtain e r where er: "scan_char (d, q) c = (e, r)" by fastforce
  note mem = Cons.prems(1) [unfolded split_top_Cons [OF er]]
  have sc: "k = 0 \<Longrightarrow> scan (0, None) (part @ [c]) = (e, r)" using Cons.prems(2) er by (simp add: scan_append)
  have pl: "0 < k \<Longrightarrow> (e, r) = (0, None)"
    using Cons.prems(3) er scan_plain_char [of c 0] by (cases k) auto
  show ?case
  proof (cases "(e, r) = (0, None) \<and> starts_with opr (c # s)")
    case True
    have oth: "other \<noteq> [] \<longrightarrow> no_hit other s"
    proof (cases "k = 0")
      case z: True
      then have "scan (0, None) (part @ [c]) = (0, None)" using sc True by simp
      then show ?thesis using Cons.prems(2) z hit_after [of "part @ [c]" other s] by simp
    next
      case False
      then have "scan (0, None) [c] = (0, None)" using Cons.prems(3) pl er by simp
      then show ?thesis using Cons.prems(3) False hit_after [of "[c]" other s] by simp
    qed
    have tk: "list_all plain (take (length opr - 1) s)"
    proof (cases opr)
      case (Cons x xs)
      then have "take (length xs) s = xs" using True by (simp add: starts_with_def)
      then show ?thesis using opr Cons by simp
    qed simp
    have now': "length opr - 1 = 0 \<Longrightarrow> scan (0, None) [] = (e, r) \<and> (\<forall>i < length ([]::pystr). \<not> hit_at opr ([] @ s) i)
        \<and> (other \<noteq> [] \<longrightarrow> no_hit other ([] @ s))" using True oth by simp
    have passing': "0 < length opr - 1 \<Longrightarrow> ([]::pystr) = [] \<and> (e, r) = (0, None) \<and> list_all plain (take (length opr - 1) s)
        \<and> (other \<noteq> [] \<longrightarrow> no_hit other s)" using True oth tk by simp
    from mem True consider "p = part" | "p \<in> set (split_top opr e r (length opr - 1) [] s)" by auto
    then show ?thesis
    proof cases
      case 1
      show ?thesis
      proof (cases "k = 0")
        case z: True
        have "\<not> hit_at opr part i" if "i < length part" for i
          using hit_prefix [of opr part i "c # s"] Cons.prems(2) [OF z] that by auto
        moreover have "other \<noteq> [] \<longrightarrow> no_hit other part"
          using Cons.prems(2) [OF z] no_hit_infix [of other "[]" part "c # s"] by simp
        ultimately show ?thesis using 1 by (simp add: no_hit_def)
      qed (use 1 Cons.prems(3) in simp)
    next
      case 2
      then show ?thesis by (rule Cons.IH) (fact now', fact passing')
    qed
  next
    case no: False
    show ?thesis
    proof (cases "0 < k")
      case True
      have oth: "other \<noteq> [] \<longrightarrow> no_hit other s"
        using Cons.prems(3) [OF True] hit_after [of "[c]" other s] pl [OF True] er by simp
      have "p \<in> set (split_top opr e r (k - 1) part s)" using mem unfolding if_not_P [OF no] if_P [OF True] .
      then show ?thesis
        by (rule Cons.IH) (use Cons.prems(3) [OF True] pl [OF True] oth True in \<open>cases k; auto\<close>)+
    next
      case False
      then have z: "k = 0" by simp
      have "p \<in> set (split_top opr e r 0 (part @ [c]) s)" using mem unfolding if_not_P [OF no] if_not_P [OF False] .
      moreover have "\<not> hit_at opr ((part @ [c]) @ s) i" if "i < length (part @ [c])" for i
      proof (cases "i < length part")
        case True
        then show ?thesis using Cons.prems(2) [OF z] by simp
      next
        case False
        then have "i = length part" using that by simp
        then show ?thesis using no sc [OF z] by (auto simp: hit_at_def)
      qed
      ultimately show ?thesis
        using Cons.IH [of e r 0 "part @ [c]"] sc [OF z] Cons.prems(2) [OF z] by simp
    qed
  qed
qed


section \<open>The depth of the recursion\<close>

lemma split_count: "p \<in> set (split_top opr d q k part s) \<Longrightarrow> count_list p c \<le> count_list part c + count_list s c"
proof (induction s arbitrary: d q k part)
  case (Cons x s)
  obtain e r where er: "scan_char (d, q) x = (e, r)" by fastforce
  from Cons.prems [unfolded split_top_Cons [OF er]]
  consider "p = part" | "p \<in> set (split_top opr e r (length opr - 1) [] s)"
    | "p \<in> set (split_top opr e r (k - 1) part s)" | "p \<in> set (split_top opr e r 0 (part @ [x]) s)"
    by (auto split: if_splits)
  then show ?case
    by cases (use Cons.IH [of e r "length opr - 1" "[]"] Cons.IH [of e r "k - 1" part] Cons.IH [of e r 0 "part @ [x]"]
      in \<open>force simp del: split_top.simps\<close>)+
qed simp

lemma connective_plain: "list_all plain (connective_text conn)"
  by (cases conn) (simp_all add: plain_def lit_def)

text \<open>What \<open>clauses\<close> returns, by the three ways its body ends.\<close>

lemma clauses_cases:
  obtains (enclosed) "strip s \<noteq> []" "hd (strip s) = 40" "clauses s = clauses (butlast (tl (strip s)))"
  | (split_or) "clauses s = (Some Conn_Or, split_top (connective_text Conn_Or) 0 None 0 [] (strip s))"
      "length (split_top (connective_text Conn_Or) 0 None 0 [] (strip s)) > 1"
  | (split_and) "clauses s = (Some Conn_And, split_top (connective_text Conn_And) 0 None 0 [] (strip s))"
      "no_hit (connective_text Conn_Or) (strip s)"
      "length (split_top (connective_text Conn_And) 0 None 0 [] (strip s)) > 1"
  | (leaf) "clauses s = (None, [strip s])"
  using not_split_no_hit [of "connective_text Conn_Or" "strip s"] clauses.simps [of s]
  by (auto simp: Let_def split: if_splits)

lemma part_no_hit:
  assumes "p \<in> set (split_top (connective_text conn) 0 None 0 [] s)"
  shows "no_hit (connective_text conn) p \<and> (no_hit (connective_text other) s \<longrightarrow> no_hit (connective_text other) p)"
proof -
  have ne: "connective_text other \<noteq> []" by (cases other) (simp_all add: lit_def)
  have "no_hit (connective_text conn) p"
    using split_parts_no_hit [OF connective_plain assms, of "[]"] by simp
  moreover have "no_hit (connective_text other) p" if "no_hit (connective_text other) s"
    using split_parts_no_hit [OF connective_plain assms, of "connective_text other"] that ne by simp
  ultimately show ?thesis by blast
qed

fun fits :: "nat \<Rightarrow> pystr \<Rightarrow> bool" where
  "fits 0 s \<longleftrightarrow> False"
| "fits (Suc n) s \<longleftrightarrow> (case clauses s of (Some _, parts) \<Rightarrow> list_all (fits n) parts | (None, _) \<Rightarrow> True)"

text \<open>Two levels for every parenthesis and one for the operands that are left.\<close>

definition room :: "nat \<Rightarrow> pystr \<Rightarrow> bool" where
  "room n s \<longleftrightarrow>
     3 + 2 * count_list s 40 \<le> n
   \<or> no_hit (connective_text Conn_Or) (strip s) \<and> 2 + 2 * count_list s 40 \<le> n
   \<or> no_hit (connective_text Conn_Or) (strip s) \<and> no_hit (connective_text Conn_And) (strip s) \<and> 1 + 2 * count_list s 40 \<le> n"

lemma room_fits: "room n s \<Longrightarrow> fits n s"
proof (induction n arbitrary: s)
  case 0
  then show ?case by (simp add: room_def)
next
  case (Suc n)
  from Suc.prems show ?case
  proof (induction "length s" arbitrary: s rule: less_induct)
    case less
    have few: "count_list (strip s) 40 \<le> count_list s 40" by (rule count_strip)
    have parts: "count_list p 40 \<le> count_list s 40" if "p \<in> set (split_top opr 0 None 0 [] (strip s))" for opr p
      using split_count [OF that, of 40] few by simp
    show ?case
    proof (cases s rule: clauses_cases)
      case enclosed
      let ?i = "butlast (tl (strip s))"
      obtain t where t: "strip s = 40 # t" using enclosed(1,2) by (cases "strip s") auto
      have "count_list (butlast t) 40 \<le> count_list t 40"
        by (cases t rule: rev_cases) auto
      then have "Suc (count_list ?i 40) \<le> count_list s 40" using few t by simp
      then have "room (Suc n) ?i" using less.prems by (auto simp: room_def)
      moreover have "length ?i < length s" using t strip_length [of s] by simp
      ultimately have "fits (Suc n) ?i" by (rule less.hyps [rotated])
      then show ?thesis using enclosed(3) by simp
    next
      case split_or
      have "\<not> no_hit (connective_text Conn_Or) (strip s)" using split_or(2) no_hit_not_split by force
      then have "2 + 2 * count_list s 40 \<le> n" using less.prems by (simp add: room_def)
      then have "room n p" if "p \<in> set (split_top (connective_text Conn_Or) 0 None 0 [] (strip s))" for p
        using part_no_hit [OF that] no_hit_strip [of _ p] parts [OF that] by (force simp: room_def)
      then show ?thesis using split_or(1) Suc.IH by (simp add: list_all_iff)
    next
      case split_and
      have "\<not> no_hit (connective_text Conn_And) (strip s)" using split_and(3) no_hit_not_split by force
      then have "1 + 2 * count_list s 40 \<le> n" using less.prems by (auto simp: room_def)
      then have "room n p" if "p \<in> set (split_top (connective_text Conn_And) 0 None 0 [] (strip s))" for p
        using part_no_hit [OF that, of Conn_Or] no_hit_strip [of _ p] parts [OF that] split_and(2) by (force simp: room_def)
      then show ?thesis using split_and(1) Suc.IH by (simp add: list_all_iff)
    qed simp
  qed
qed


lemma guarded_fits: "guarded_expression s \<Longrightarrow> 43 \<le> n \<Longrightarrow> fits n s"
  by (rule room_fits) (simp add: room_def guarded_expression_def)

lemma map_res_cong: "(\<And>x. x \<in> set xs \<Longrightarrow> f x = g x) \<Longrightarrow> map_res f xs = map_res g xs"
  by (induction xs) simp_all

lemma map_res_Inl: "map_res f xs = Inl e \<Longrightarrow> \<exists>x\<in>set xs. f x = Inl e"
  by (induction xs) (auto simp: res_simps)

lemma fold_res_Inl: "fold_res f s xs = Inl e \<Longrightarrow> \<exists>t. \<exists>x\<in>set xs. f t x = Inl e"
proof (induction xs arbitrary: s)
  case (Cons x xs)
  then consider "f s x = Inl e" | t where "fold_res f t xs = Inl e" by (auto simp: res_simps)
  then show ?case using Cons.IH by cases (fastforce simp del: fold_res.simps)+
qed simp

text \<open>With room for its depth a condition does not run out of calls, and more of them change nothing.\<close>

lemma fits_condition: "fits n s \<Longrightarrow> n \<le> m \<Longrightarrow> condition_at m s answers preceding = condition_at n s answers preceding"
proof (induction n arbitrary: s m)
  case (Suc n)
  then obtain k where m: "m = Suc k" "n \<le> k" by (cases m) auto
  have "condition_at k p answers preceding = condition_at n p answers preceding"
    if "clauses s = (Some conn, parts)" "p \<in> set parts" for conn parts p
    using Suc.IH [of p k] Suc.prems(1) m(2) that by (simp add: list_all_iff)
  then have "map_res (\<lambda>p. condition_at k p answers preceding) parts = map_res (\<lambda>p. condition_at n p answers preceding) parts"
    if "clauses s = (Some conn, parts)" for conn parts
    using that by (intro map_res_cong) simp
  then show ?case unfolding m(1) condition_at.simps by (auto split: prod.splits option.splits)
qed simp

lemma fits_leaves: "fits n s \<Longrightarrow> n \<le> m \<Longrightarrow> leaves_at m s = leaves_at n s"
proof (induction n arbitrary: s m)
  case (Suc n)
  then obtain k where m: "m = Suc k" "n \<le> k" by (cases m) auto
  have "leaves_at k p = leaves_at n p" if "clauses s = (Some conn, parts)" "p \<in> set parts" for conn parts p
    using Suc.IH [of p k] Suc.prems(1) m(2) that by (simp add: list_all_iff)
  then have "map_res (leaves_at k) parts = map_res (leaves_at n) parts" if "clauses s = (Some conn, parts)" for conn parts
    using that by (intro map_res_cong) simp
  then show ?case unfolding m(1) leaves_at.simps by (auto split: prod.splits option.splits)
qed simp

lemma condition_literal_errors: "condition_literal s = Inl e \<Longrightarrow> e = Invariant ''unsupported_capability''"
  unfolding condition_literal_def fail_with_def by (auto split: option.splits pyval.splits pyfloat.splits if_splits)

lemma leaf_value_no_recursion: "leaf_value l answers \<noteq> Inl Recursion_Error"
proof
  assume "leaf_value l answers = Inl Recursion_Error"
  then show False
    by (cases l) (auto simp: leaf_value_def Let_def fail_with_def res_simps dest: condition_literal_errors split: if_splits)
qed

lemma fits_condition_ends: "fits n s \<Longrightarrow> condition_at n s answers preceding \<noteq> Inl Recursion_Error"
proof (induction n arbitrary: s)
  case (Suc n)
  have "condition_at n p answers preceding \<noteq> Inl Recursion_Error"
    if "clauses s = (Some conn, parts)" "p \<in> set parts" for conn parts p
    using Suc.IH [of p] Suc.prems that by (simp add: list_all_iff)
  then have "map_res (\<lambda>p. condition_at n p answers preceding) parts \<noteq> Inl Recursion_Error"
    if "clauses s = (Some conn, parts)" for conn parts
    using that map_res_Inl by blast
  then show ?case
    by (auto simp: fail_with_def res_simps leaf_value_no_recursion split: prod.splits option.splits)
qed simp

lemma fits_leaves_end: "fits n s \<Longrightarrow> \<exists>ls. leaves_at n s = Inr ls"
proof (induction n arbitrary: s)
  case (Suc n)
  have "\<exists>lss. map_res (leaves_at n) parts = Inr lss" if "clauses s = (Some conn, parts)" for conn parts
  proof (cases "map_res (leaves_at n) parts")
    case (Inl e)
    then obtain p where "p \<in> set parts" "leaves_at n p = Inl e" using map_res_Inl by blast
    then show ?thesis using Suc.IH [of p] Suc.prems that by (force simp: list_all_iff)
  qed simp
  then show ?case by (fastforce simp: res_simps split: prod.splits option.splits)
qed simp

lemma condition_unguarded:
  "\<not> guarded_expression s \<Longrightarrow> 0 < n \<Longrightarrow> condition_at n s answers preceding = fail_with ''unsupported_capability''"
  by (cases n) simp_all

lemma condition_ends:
  assumes "43 \<le> n"
  shows "condition_at n s answers preceding = condition_at 43 s answers preceding"
    and "condition_at n s answers preceding \<noteq> Inl Recursion_Error"
proof -
  have "condition_at n s answers preceding = condition_at 43 s answers preceding
    \<and> condition_at n s answers preceding \<noteq> Inl Recursion_Error"
  proof (cases "guarded_expression s")
    case True
    then show ?thesis
      using guarded_fits [OF True, of 43] guarded_fits [OF True assms] fits_condition [of 43 s n] fits_condition_ends assms by simp
  next
    case False
    then show ?thesis using condition_unguarded [OF False] assms by (simp add: fail_with_def)
  qed
  then show "condition_at n s answers preceding = condition_at 43 s answers preceding"
    and "condition_at n s answers preceding \<noteq> Inl Recursion_Error" by blast+
qed

lemma condition_no_recursion: "condition e answers preceding \<noteq> Inl Recursion_Error"
proof (cases e)
  case (VStr s)
  have "condition_at call_limit s answers preceding \<noteq> Inl Recursion_Error"
    by (rule condition_ends) (simp add: call_limit_def)
  then show ?thesis using VStr by (simp add: condition_def)
qed (simp_all add: condition_def fail_with_def)


named_theorems ends "an operation that does not run out of calls"

definition ends_well :: "'a res \<Rightarrow> bool" where
  "ends_well r \<longleftrightarrow> r \<noteq> Inl Recursion_Error"

lemma ends_then [ends]: "ends_well r \<Longrightarrow> (\<And>x. ends_well (f x)) \<Longrightarrow> ends_well (then_res r f)"
  by (auto simp: ends_well_def res_simps)

lemma ends_fold [ends]: "(\<And>t x. ends_well (f t x)) \<Longrightarrow> ends_well (fold_res f s xs)"
  unfolding ends_well_def by (metis fold_res_Inl)

lemma ends_map [ends]: "(\<And>x. ends_well (f x)) \<Longrightarrow> ends_well (map_res f xs)"
  unfolding ends_well_def by (metis map_res_Inl)

lemma ends_if [ends]: "ends_well r \<Longrightarrow> ends_well t \<Longrightarrow> ends_well (if c then r else t)"
  by simp

lemma ends_case [ends]:
  "ends_well r \<Longrightarrow> (\<And>y. ends_well (f y)) \<Longrightarrow> ends_well (case x of None \<Rightarrow> r | Some y \<Rightarrow> f y)"
  "(\<And>a b. ends_well (g a b)) \<Longrightarrow> ends_well (case p of (a, b) \<Rightarrow> g a b)"
  by (auto split: option.split prod.split)

lemma ends_case_value [ends]:
  "ends_well r \<Longrightarrow> (\<And>b. ends_well (f1 b)) \<Longrightarrow> (\<And>n. ends_well (f2 n)) \<Longrightarrow> (\<And>x. ends_well (f3 x)) \<Longrightarrow>
   (\<And>s. ends_well (f4 s)) \<Longrightarrow> (\<And>vs. ends_well (f5 vs)) \<Longrightarrow> (\<And>ms. ends_well (f6 ms)) \<Longrightarrow>
   ends_well (case_pyval r f1 f2 f3 f4 f5 f6 v)"
  "(\<And>q. ends_well (g q)) \<Longrightarrow> ends_well r1 \<Longrightarrow> ends_well r2 \<Longrightarrow> ends_well r3 \<Longrightarrow> ends_well (case_pyfloat g r1 r2 r3 x)"
  by (cases v; simp) (cases x; simp)

lemma ends_Inr [ends]: "ends_well (Inr x)"
  and ends_fail [ends]: "ends_well (fail_with code)"
  and ends_errors [ends]: "ends_well (Inl Type_Error)" "ends_well (Inl Overflow_Error)" "ends_well (Inl Value_Error)"
  by (simp_all add: ends_well_def fail_with_def)

lemma ends_condition [ends]: "ends_well (condition e answers preceding)"
  by (simp add: ends_well_def condition_no_recursion)

lemma ends_visible_if [ends]: "ends_well (visible_if v answers preceding)"
  unfolding visible_if_def by (intro ends)

lemma ends_float [ends]: "ends_well (float_of_int n)"
  unfolding float_of_int_def by (intro ends)

lemma ends_numbers [ends]:
  "ends_well (is_finite v)" "ends_well (as_float v)" "ends_well (num_minus v w)" "ends_well (num_over v w)" "ends_well (py_round x)"
  unfolding is_finite_def as_float_def num_minus_def num_over_def py_round_def by (intro ends)+

lemma ends_sizes [ends]: "ends_well (json_size v)" "ends_well (utf16_length s)"
  unfolding json_size_def utf16_length_def by (intro ends)+

lemma ends_options [ends]: "ends_well (options items)"
  unfolding options_def add_option_def option_item_def by (intro ends)

lemma ends_properties [ends]: "ends_well (check_properties v)"
  unfolding check_properties_def finite_number_def rating_range_def Let_def by (intro ends)

lemma ends_question [ends]: "ends_well (check_question preceding q)"
  unfolding check_question_def Let_def by (intro ends)

lemma ends_page [ends]: "ends_well (check_page st p)"
  unfolding check_page_def by (cases st, simp only: prod.case, intro ends)

lemma ends_definition [ends]: "ends_well (validate_definition d)"
  unfolding validate_definition_def by (intro ends)

lemma ends_answer [ends]: "ends_well (check_answer finished kind q v)"
  unfolding check_answer_def check_text_def check_number_def check_date_def check_boxes_def check_matrix_def check_step_def Let_def
  by (intro ends)

lemma ends_answer_step [ends]: "ends_well (answer_step finished answers visible st q)"
  unfolding answer_step_def Let_def by (cases st, simp only: prod.case, intro ends)

lemma ends_page_step [ends]: "ends_well (page_step finished answers st p)"
  unfolding page_step_def by (intro ends)

lemma ends_answers [ends]: "ends_well (validate_answers d answers finished)"
  unfolding validate_answers_def by (intro ends)


section \<open>Conditions as formulas over their leaves\<close>

datatype formula = Leaf leaf | Junction connective "formula list"

primrec formula_leaves :: "formula \<Rightarrow> leaf list" where
  "formula_leaves (Leaf l) = [l]"
| "formula_leaves (Junction conn fs) = concat (map formula_leaves fs)"

primrec holds :: "(leaf \<Rightarrow> bool) \<Rightarrow> formula \<Rightarrow> bool" where
  "holds v (Leaf l) = v l"
| "holds v (Junction conn fs) =
     (if conn = Conn_And then list_all (\<lambda>b. b) (map (holds v) fs) else list_ex (\<lambda>b. b) (map (holds v) fs))"

text \<open>The formula an expression stands for, if every part is within the grammar.\<close>

fun formula_at :: "nat \<Rightarrow> pystr \<Rightarrow> formula option" where
  "formula_at 0 expression = None"
| "formula_at (Suc n) expression =
     (case clauses expression of
        (Some conn, parts) \<Rightarrow>
          (let fs = map (formula_at n) parts in if None \<in> set fs then None else Some (Junction conn (map the fs)))
      | (None, parts) \<Rightarrow> map_option Leaf (read_leaf (hd parts)))"

lemma strip_strip [simp]: "strip (strip s) = strip s"
  using strip_ends [of s] by (cases "strip s = []") (simp_all add: strip_trimmed strip_Nil_iff [THEN iffD2] blank_def)

lemma clauses_leaf_text: "clauses s = (None, parts) \<Longrightarrow> \<exists>t. parts = [strip t]"
proof (induction "length s" arbitrary: s rule: less_induct)
  case less
  show ?case
  proof (cases s rule: clauses_cases)
    case enclosed
    have "length (butlast (tl (strip s))) < length (strip s)" using enclosed(1) by (cases "strip s") auto
    then have "length (butlast (tl (strip s))) < length s" using strip_length [of s] by simp
    then show ?thesis by (rule less.hyps) (simp add: less.prems flip: enclosed(3))
  qed (use less.prems in auto)
qed

lemma read_leaf_literal:
  assumes "read_leaf (strip t) = Some (name, opr, literal)"
  shows "strip literal = literal"
proof (cases "literal = []")
  case False
  obtain v k where lit: "literal = lstrip (drop k v)" and v: "\<exists>u. strip t = u @ v"
  proof -
    obtain c s where cs: "strip t = c # s" using assms by (cases "strip t") (auto simp: read_leaf_def)
    obtain n where "literal = lstrip (drop n (lstrip (tl (dropWhile word_char s))))"
      using assms unfolding cs read_leaf_def Let_def list.case by (fastforce split: if_splits option.splits)
    moreover have "\<exists>u. strip t = u @ lstrip (tl (dropWhile word_char s))"
    proof -
      have suf: "\<exists>u. x = u @ tl x" for x :: pystr by (cases x) auto
      have d: "\<exists>u. x = u @ dropWhile P x" for P and x :: pystr by (metis takeWhile_dropWhile_id)
      have "\<exists>u. s = u @ lstrip (tl (dropWhile word_char s))"
        unfolding lstrip_def using suf d by (metis append_assoc)
      then show ?thesis using cs by (metis append_Cons)
    qed
    ultimately show ?thesis using that by blast
  qed
  have "\<exists>u. drop k v = u @ literal" unfolding lit lstrip_def by (metis takeWhile_dropWhile_id)
  then have "\<exists>u. strip t = u @ literal" using v by (metis append_assoc append_take_drop_id)
  then obtain u where u: "strip t = u @ literal" by blast
  have "\<not> is_space (last literal)" using strip_ends [of t] u False by simp
  moreover have "\<not> is_space (hd literal)" using False unfolding lit lstrip_def by (rule hd_dropWhile)
  ultimately show ?thesis by (intro strip_trimmed) simp
qed (simp add: strip_Nil_iff blank_def)

lemma clauses_guarded:
  assumes "clauses s = (Some conn, parts)" "p \<in> set parts" "guarded_expression s"
  shows "guarded_expression p"
  using assms
proof (induction "length s" arbitrary: s rule: less_induct)
  case less
  have part: "length p \<le> length part + length t" if "p \<in> set (split_top opr d q k part t)" for opr d q k part t
    using that
  proof (induction t arbitrary: d q k part)
    case (Cons x t)
    obtain e r where er: "scan_char (d, q) x = (e, r)" by fastforce
    from Cons.prems [unfolded split_top_Cons [OF er]]
    consider "p = part" | "p \<in> set (split_top opr e r (length opr - 1) [] t)"
      | "p \<in> set (split_top opr e r (k - 1) part t)" | "p \<in> set (split_top opr e r 0 (part @ [x]) t)"
      by (auto split: if_splits)
    then show ?case by cases (use Cons.IH in \<open>force simp del: split_top.simps\<close>)+
  qed simp
  have small: "guarded_expression p" if "p \<in> set (split_top opr 0 None 0 [] (strip s))" for opr
    using part [OF that] split_count [OF that, of 40] strip_length [of s] count_strip [of s 40] less.prems(3)
    by (simp add: guarded_expression_def)
  show ?case
  proof (cases s rule: clauses_cases)
    case enclosed
    let ?i = "butlast (tl (strip s))"
    obtain t where t: "strip s = 40 # t" using enclosed(1,2) by (cases "strip s") auto
    have "count_list (butlast t) 40 \<le> count_list t 40" by (cases t rule: rev_cases) auto
    then have "guarded_expression ?i"
      using t strip_length [of s] count_strip [of s 40] less.prems(3) by (auto simp: guarded_expression_def)
    moreover have "length ?i < length s" using t strip_length [of s] by simp
    ultimately show ?thesis using less.hyps [of ?i] less.prems(1,2) enclosed(3) by simp
  qed (use small less.prems(1,2) in auto)
qed


lemma map_res_all:
  "map_res f xs = Inr ys \<longleftrightarrow> (\<forall>x\<in>set xs. \<exists>y. f x = Inr y) \<and> ys = map (\<lambda>x. case f x of Inr y \<Rightarrow> y | Inl _ \<Rightarrow> undefined) xs"
  by (induction xs arbitrary: ys) (auto simp: res_simps split: sum.splits)

lemma formula_parts:
  assumes "clauses s = (Some conn, parts)"
  shows "formula_at (Suc n) s = Some f \<longleftrightarrow>
     (\<forall>p\<in>set parts. \<exists>g. formula_at n p = Some g) \<and> f = Junction conn (map (\<lambda>p. the (formula_at n p)) parts)"
proof -
  have "None \<notin> set (map (formula_at n) parts) \<longleftrightarrow> (\<forall>p\<in>set parts. \<exists>g. formula_at n p = Some g)"
    by (metis (no_types, lifting) imageE image_eqI list.set_map not_None_eq)
  note none = this
  have lhs: "formula_at (Suc n) s = (if None \<in> set (map (formula_at n) parts) then None
      else Some (Junction conn (map (\<lambda>p. the (formula_at n p)) parts)))" using assms by (simp add: Let_def comp_def)
  show ?thesis unfolding lhs none [symmetric] by (auto simp del: set_map)
qed

text \<open>The leaves recorded for an expression are the leaves of its formula, in order.\<close>

lemma formula_recorded: "formula_at n s = Some f \<Longrightarrow> leaves_at n s = Inr (formula_leaves f)"
proof (induction n arbitrary: s f)
  case (Suc n)
  show ?case
  proof (cases "clauses s")
    case (Pair conn parts)
    show ?thesis
    proof (cases conn)
      case None
      then obtain t where t: "parts = [strip t]" using clauses_leaf_text Pair by blast
      then obtain l where l: "read_leaf (strip t) = Some l" "f = Leaf l" using Suc.prems Pair None by auto
      obtain name opr literal where l3: "l = (name, opr, literal)" by (cases l) auto
      show ?thesis using Pair None t l read_leaf_literal l3 by simp
    next
      case (Some c)
      note f = Suc.prems [unfolded formula_parts [OF Pair [unfolded Some]]]
      have "map_res (leaves_at n) parts = Inr (map (\<lambda>p. formula_leaves (the (formula_at n p))) parts)"
        using f Suc.IH by (intro map_res_pure) force
      then show ?thesis using Pair Some f by (simp add: comp_def)
    qed
  qed
qed simp

lemma condition_parts:
  assumes "clauses s = (Some conn, parts)" "guarded_expression s"
  shows "condition_at (Suc n) s answers preceding = Inr b \<longleftrightarrow>
     (\<exists>bs. map_res (\<lambda>p. condition_at n p answers preceding) parts = Inr bs
       \<and> b = (if conn = Conn_And then list_all (\<lambda>b. b) bs else list_ex (\<lambda>b. b) bs))"
proof -
  have "condition_at (Suc n) s answers preceding = then_res (map_res (\<lambda>p. condition_at n p answers preceding) parts)
      (\<lambda>bs. Inr (if conn = Conn_And then list_all (\<lambda>b. b) bs else list_ex (\<lambda>b. b) bs))"
    using assms by simp
  then show ?thesis by (auto simp only: then_res_Inr_iff sum.inject)
qed

lemma condition_formula:
  "condition_at n s answers preceding = Inr b \<longleftrightarrow>
     guarded_expression s \<and> (\<exists>f. formula_at n s = Some f
       \<and> list_all (\<lambda>l. fst l \<in> set preceding \<and> (\<exists>v. leaf_value l answers = Inr v)) (formula_leaves f)
       \<and> b = holds (\<lambda>l. leaf_value l answers = Inr True) f)"
proof (induction n arbitrary: s b)
  case (Suc n)
  define ok where "ok = (\<lambda>f. list_all (\<lambda>l. fst l \<in> set preceding \<and> (\<exists>v. leaf_value l answers = Inr v)) (formula_leaves f))"
  define val where "val = holds (\<lambda>l. leaf_value l answers = Inr True)"
  note IH = Suc.IH [folded ok_def val_def]
  have "condition_at (Suc n) s answers preceding = Inr b \<longleftrightarrow>
      guarded_expression s \<and> (\<exists>f. formula_at (Suc n) s = Some f \<and> ok f \<and> b = val f)"
  proof (cases "guarded_expression s")
    case g: True
    obtain conn parts where cl: "clauses s = (conn, parts)" by fastforce
    show ?thesis
    proof (cases conn)
      case None
      show ?thesis using g cl None
        by (auto simp: fail_with_def ok_def val_def split: option.splits)
    next
      case (Some c)
      have gp: "guarded_expression p" if "p \<in> set parts" for p
        using clauses_guarded [of s c parts p] cl Some that g by simp
      define junction where "junction = (\<lambda>bs. if c = Conn_And then list_all (\<lambda>b. b) bs else list_ex (\<lambda>b. b) bs)"
      have part: "(\<exists>v. condition_at n p answers preceding = Inr v) \<longleftrightarrow> (\<exists>g. formula_at n p = Some g \<and> ok g)"
        if "p \<in> set parts" for p unfolding IH ok_def using gp [OF that] by simp
      have worth: "condition_at n p answers preceding = Inr (val g)" if "formula_at n p = Some g" "ok g" "p \<in> set parts" for p g
        unfolding IH using gp [OF that(3)] that(1,2) by (simp add: ok_def val_def)
      have "condition_at (Suc n) s answers preceding = Inr b \<longleftrightarrow>
          (\<forall>p\<in>set parts. \<exists>v. condition_at n p answers preceding = Inr v)
          \<and> b = junction (map (\<lambda>p. case condition_at n p answers preceding of Inr y \<Rightarrow> y | Inl _ \<Rightarrow> undefined) parts)"
        unfolding condition_parts [OF cl [unfolded Some] g] map_res_all by (simp add: junction_def)
      also have "\<dots> \<longleftrightarrow> (\<forall>p\<in>set parts. \<exists>g. formula_at n p = Some g \<and> ok g)
          \<and> b = junction (map (\<lambda>p. val (the (formula_at n p))) parts)"
      proof (rule conj_cong)
        show "(\<forall>p\<in>set parts. \<exists>v. condition_at n p answers preceding = Inr v) \<longleftrightarrow>
            (\<forall>p\<in>set parts. \<exists>g. formula_at n p = Some g \<and> ok g)" using part by blast
        assume "\<forall>p\<in>set parts. \<exists>g. formula_at n p = Some g \<and> ok g"
        then have "map (\<lambda>p. case condition_at n p answers preceding of Inr y \<Rightarrow> y | Inl _ \<Rightarrow> undefined) parts
            = map (\<lambda>p. val (the (formula_at n p))) parts" using worth by (intro map_cong) force+
        then show "(b = junction (map (\<lambda>p. case condition_at n p answers preceding of Inr y \<Rightarrow> y | Inl _ \<Rightarrow> undefined) parts))
            = (b = junction (map (\<lambda>p. val (the (formula_at n p))) parts))" by (rule arg_cong)
      qed
      also have "\<dots> \<longleftrightarrow> (\<exists>f. formula_at (Suc n) s = Some f \<and> ok f \<and> b = val f)"
      proof -
        let ?J = "Junction c (map (\<lambda>p. the (formula_at n p)) parts)"
        have f: "(\<exists>f. formula_at (Suc n) s = Some f \<and> ok f \<and> b = val f) \<longleftrightarrow>
            (\<forall>p\<in>set parts. \<exists>g. formula_at n p = Some g) \<and> ok ?J \<and> b = val ?J"
          unfolding formula_parts [OF cl [unfolded Some]] by blast
        have j: "ok ?J \<longleftrightarrow> (\<forall>p\<in>set parts. ok (the (formula_at n p)))"
          by (auto simp: ok_def list_all_iff)
        have w: "val ?J = junction (map (\<lambda>p. val (the (formula_at n p))) parts)"
          by (simp add: val_def junction_def comp_def)
        have "(\<forall>p\<in>set parts. \<exists>g. formula_at n p = Some g \<and> ok g) \<longleftrightarrow>
            (\<forall>p\<in>set parts. \<exists>g. formula_at n p = Some g) \<and> (\<forall>p\<in>set parts. ok (the (formula_at n p)))"
          by fastforce
        then show ?thesis unfolding f j w by (simp only: conj_assoc)
      qed
      finally show ?thesis using g by simp
    qed
  qed (simp add: fail_with_def)
  then show ?case by (simp add: ok_def val_def)
qed simp

end
