(* ===== verification/Survey_Answers.thy ===== *)
theory Survey_Answers
  imports Survey_Conditions
begin

text \<open>
  Answers to a survey: \<^verbatim>\<open>validate_answers\<close> keeps answers to questions of the definition alone and accepts what it
  returned as it is.
\<close>

section \<open>Accepted answers\<close>

definition question_name :: "pyval \<Rightarrow> pystr" where
  "question_name q = text_of (the (member ''name'' q))"

definition page_questions :: "pyval \<Rightarrow> pyval list" where
  "page_questions p = items_of (the (member ''elements'' p))"

lemma question_names_pages: "question_names d = concat (map (\<lambda>p. map question_name (page_questions p)) (pages_of d))"
  unfolding question_names_def question_name_def [abs_def] page_questions_def ..

lemma check_question_name:
  assumes "check_question preceding q = Inr r"
  shows "r = preceding @ [question_name q] \<and> question_name q \<notin> set preceding"
proof -
  obtain name where m: "member ''name'' q = Some (VStr name)" and n: "name \<notin> set preceding" and r: "r = preceding @ [name]"
    using assms unfolding check_question_def Let_def
    by (auto simp: fail_with_def then_res_Inr_iff split: if_splits option.splits pyval.splits)
  then show ?thesis by (simp add: question_name_def text_of_def)
qed

lemma check_questions_names:
  "fold_res check_question preceding qs = Inr r \<Longrightarrow> distinct preceding \<Longrightarrow>
     r = preceding @ map question_name qs \<and> distinct r"
proof (induction qs arbitrary: preceding)
  case (Cons q qs)
  then obtain s where s: "check_question preceding q = Inr s" "fold_res check_question s qs = Inr r"
    by (auto simp: then_res_Inr_iff)
  from check_question_name [OF s(1)] Cons.prems(2) have "s = preceding @ [question_name q]" "distinct s" by auto
  note q = this
  from Cons.IH [OF s(2) q(2)] have r: "r = s @ map question_name qs" "distinct r" by blast+
  show ?case by (intro conjI) (simp add: r(1) q(1), rule r(2))
qed simp

lemma check_page_names:
  assumes "check_page (preceding, names) p = Inr (r, names')" "distinct preceding"
  shows "r = preceding @ map question_name (page_questions p) \<and> distinct r"
proof -
  obtain es where "member ''elements'' p = Some (VList es)" "fold_res check_question preceding es = Inr r"
    using assms(1) unfolding check_page_def
    by (auto simp: fail_with_def then_res_Inr_iff split: if_splits option.splits pyval.splits)
  then show ?thesis using check_questions_names assms(2) by (simp add: page_questions_def items_of_def)
qed

lemma check_pages_names:
  "fold_res check_page (preceding, names) ps = Inr (r, names') \<Longrightarrow> distinct preceding \<Longrightarrow>
     r = preceding @ concat (map (\<lambda>p. map question_name (page_questions p)) ps) \<and> distinct r"
proof (induction ps arbitrary: preceding names)
  case (Cons p ps)
  then obtain s n where s: "check_page (preceding, names) p = Inr (s, n)" "fold_res check_page (s, n) ps = Inr (r, names')"
    by (auto simp: then_res_Inr_iff)
  note p = check_page_names [OF s(1) Cons.prems(2)]
  from Cons.IH [OF s(2) conjunct2 [OF p]]
  have r: "r = s @ concat (map (\<lambda>p. map question_name (page_questions p)) ps)" "distinct r" by blast+
  show ?case by (intro conjI) (simp add: r(1) conjunct1 [OF p], rule r(2))
qed simp

lemma valid_definition_names: "validate_definition d = Inr () \<Longrightarrow> distinct (question_names d)"
proof -
  assume "validate_definition d = Inr ()"
  then obtain ps r n where "member ''pages'' d = Some (VList ps)" "fold_res check_page ([], []) ps = Inr (r, n)"
    unfolding validate_definition_def
    by (auto simp: fail_with_def then_res_Inr_iff split: if_splits option.splits pyval.splits)
  then show ?thesis
    using check_pages_names [of "[]" "[]" ps r n] by (auto simp: question_names_pages pages_of_def items_of_def)
qed


text \<open>The entries a run adds are answers to the questions it passes; a run on answers that agree with them adds the same.\<close>

definition adds :: "(pystr \<times> pyval) list \<Rightarrow> pystr list \<Rightarrow> (pystr \<times> pyval) list \<Rightarrow> bool" where
  "adds answers names new \<longleftrightarrow> set (map fst new) \<subseteq> set names \<and> distinct (map fst new)
     \<and> (\<forall>(k, v) \<in> set new. map_of answers k = Some v)"

definition agrees :: "(pystr \<times> pyval) list \<Rightarrow> pystr list \<Rightarrow> (pystr \<times> pyval) list \<Rightarrow> bool" where
  "agrees other names new \<longleftrightarrow> (\<forall>k \<in> set names. map_of other k = map_of new k)"

lemma adds_append:
  assumes "adds answers ns a" "adds answers ms b" "set ns \<inter> set ms = {}"
  shows "adds answers (ns @ ms) (a @ b)"
  using assms unfolding adds_def by auto

lemma agrees_append:
  assumes "agrees other (ns @ ms) (a @ b)" "adds answers ns a" "adds answers ms b" "set ns \<inter> set ms = {}"
  shows "agrees other ns a" "agrees other ms b"
proof -
  have "map_of b k = None" if "k \<in> set ns" for k
    using assms(3,4) that unfolding adds_def map_of_eq_None_iff by auto
  moreover have "map_of a k = None" if "k \<in> set ms" for k
    using assms(2,4) that unfolding adds_def map_of_eq_None_iff by auto
  ultimately show "agrees other ns a" "agrees other ms b"
    using assms(1) by (auto simp: agrees_def map_add_def split: option.splits)
qed

lemma answer_step_adds:
  assumes "answer_step f answers visible (c, pr) q = Inr (c', pr')"
  shows "\<exists>new. c' = c @ new \<and> adds answers [question_name q] new
    \<and> (\<forall>other. agrees other [question_name q] new \<longrightarrow> answer_step f other visible (c, pr) q = Inr (c', pr'))"
proof -
  let ?n = "question_name q" and ?s = "pr @ [question_name q]"
  obtain v where v: "(if visible then visible_if q c pr else Inr False) = Inr v"
    using assms unfolding answer_step_def by (auto simp: Let_def then_res_Inr_iff simp del: if_split)
  have run: "answer_step f ans visible (c, pr) q =
      (if \<not> v then Inr (c, ?s)
       else if empty_answer (map_of ans ?n)
       then if required_missing f (the (kind_of q)) q then invalid else Inr (c, ?s)
       else then_res (check_answer f (the (kind_of q)) q (the (map_of ans ?n))) (\<lambda>_. Inr (c @ [(?n, the (map_of ans ?n))], ?s)))"
    for ans unfolding answer_step_def question_name_def by (simp add: v Let_def del: if_split)
  have empty: "\<not> empty_answer (map_of answers ?n) \<Longrightarrow> \<exists>x. map_of answers ?n = Some x" by (auto simp: empty_answer_def)
  have none: "empty_answer None" by (simp add: empty_answer_def)
  show ?thesis
  proof (cases "v \<and> \<not> empty_answer (map_of answers ?n)")
    case True
    then obtain x where x: "map_of answers ?n = Some x" using empty by blast
    have c': "c' = c @ [(?n, x)]" using assms True x unfolding run by (auto simp: then_res_Inr_iff)
    show ?thesis
    proof (intro exI conjI allI impI)
      show "adds answers [?n] [(?n, x)]" using x by (simp add: adds_def)
      fix other assume "agrees other [?n] [(?n, x)]"
      then have same: "map_of other ?n = map_of answers ?n" using x by (simp add: agrees_def)
      show "answer_step f other visible (c, pr) q = Inr (c', pr')" using assms unfolding run same .
    qed (rule c')
  next
    case False
    then have c': "c' = c" using assms unfolding run by (auto simp: fail_with_def split: if_splits)
    show ?thesis
    proof (intro exI conjI allI impI)
      show "adds answers [?n] []" by (simp add: adds_def)
      fix other assume "agrees other [?n] []"
      then have "map_of other ?n = None" by (simp add: agrees_def)
      then show "answer_step f other visible (c, pr) q = Inr (c', pr')"
        using assms False unfolding run by (auto simp: none split: if_splits)
    qed (simp add: c')
  qed
qed


lemma fold_adds:
  assumes step: "\<And>c pr x c' pr'. x \<in> set xs \<Longrightarrow> f answers (c, pr) x = Inr (c', pr') \<Longrightarrow> distinct (names x) \<Longrightarrow>
      \<exists>new. c' = c @ new \<and> adds answers (names x) new
        \<and> (\<forall>other. agrees other (names x) new \<longrightarrow> f other (c, pr) x = Inr (c', pr'))"
    and run: "fold_res (f answers) (c, pr) xs = Inr (c', pr')" and d: "distinct (concat (map names xs))"
  shows "\<exists>new. c' = c @ new \<and> adds answers (concat (map names xs)) new
    \<and> (\<forall>other. agrees other (concat (map names xs)) new \<longrightarrow> fold_res (f other) (c, pr) xs = Inr (c', pr'))"
  using assms
proof (induction xs arbitrary: c pr)
  case Nil
  then show ?case by (simp add: adds_def)
next
  case (Cons x xs)
  let ?ns = "concat (map names xs)"
  obtain c1 pr1 where s: "f answers (c, pr) x = Inr (c1, pr1)" "fold_res (f answers) (c1, pr1) xs = Inr (c', pr')"
    using Cons.prems(2) by (auto simp: then_res_Inr_iff)
  have dx: "distinct (names x)" "distinct ?ns" "set (names x) \<inter> set ?ns = {}" using Cons.prems(3) by auto
  obtain a where a: "c1 = c @ a" "adds answers (names x) a"
      "\<And>other. agrees other (names x) a \<Longrightarrow> f other (c, pr) x = Inr (c1, pr1)"
    using Cons.prems(1) [OF _ s(1) dx(1)] by auto
  have "\<exists>new. c' = c1 @ new \<and> adds answers ?ns new
      \<and> (\<forall>other. agrees other ?ns new \<longrightarrow> fold_res (f other) (c1, pr1) xs = Inr (c', pr'))"
    by (rule Cons.IH [OF _ s(2) dx(2)]) (rule Cons.prems(1), simp_all)
  then obtain b where b: "c' = c1 @ b" "adds answers ?ns b"
      "\<And>other. agrees other ?ns b \<Longrightarrow> fold_res (f other) (c1, pr1) xs = Inr (c', pr')" by blast
  show ?case
  proof (intro exI conjI allI impI)
    show "c' = c @ (a @ b)" using a(1) b(1) by simp
    show "adds answers (concat (map names (x # xs))) (a @ b)" using adds_append [OF a(2) b(2) dx(3)] by simp
    fix other assume "agrees other (concat (map names (x # xs))) (a @ b)"
    then have o: "agrees other (names x @ ?ns) (a @ b)" by simp
    note parts = agrees_append [OF this a(2) b(2) dx(3)]
    show "fold_res (f other) (c, pr) (x # xs) = Inr (c', pr')" using a(3) [OF parts(1)] b(3) [OF parts(2)] by simp
  qed
qed

lemma page_step_adds:
  assumes "page_step f answers (c, pr) p = Inr (c', pr')" "distinct (map question_name (page_questions p))"
  shows "\<exists>new. c' = c @ new \<and> adds answers (map question_name (page_questions p)) new
    \<and> (\<forall>other. agrees other (map question_name (page_questions p)) new \<longrightarrow> page_step f other (c, pr) p = Inr (c', pr'))"
proof -
  obtain v where v: "visible_if p c pr = Inr v"
      and run: "fold_res (answer_step f answers v) (c, pr) (page_questions p) = Inr (c', pr')"
    using assms(1) unfolding page_step_def page_questions_def by (auto simp: then_res_Inr_iff)
  have names: "concat (map (\<lambda>q. [question_name q]) (page_questions p)) = map question_name (page_questions p)"
    by (induction "page_questions p") simp_all
  have "\<exists>new. c' = c @ new \<and> adds answers (concat (map (\<lambda>q. [question_name q]) (page_questions p))) new
    \<and> (\<forall>other. agrees other (concat (map (\<lambda>q. [question_name q]) (page_questions p))) new
        \<longrightarrow> fold_res (answer_step f other v) (c, pr) (page_questions p) = Inr (c', pr'))"
    by (rule fold_adds [where f = "\<lambda>answers. answer_step f answers v", OF answer_step_adds run]) (simp only: names assms(2))+
  then show ?thesis unfolding names page_step_def page_questions_def by (simp add: v)
qed


definition entry_length :: "pystr \<times> pyval \<Rightarrow> nat" where
  "entry_length = (\<lambda>(k, v). quoted_length k + 2 + the (json_length v) + 2)"

lemma json_dict_length_sum:
  "json_dict_length ms =
     (if list_all (\<lambda>(k, v). json_length v \<noteq> None) ms then Some (sum_list (map entry_length ms) - 2) else None)"
proof (induction ms)
  case (Cons e ms)
  obtain k v where e: "e = (k, v)" by fastforce
  have "2 \<le> sum_list (map entry_length ms)" if "ms \<noteq> []"
    using that by (cases ms) (auto simp: entry_length_def)
  then show ?case by (auto simp: Cons.IH e entry_length_def split: option.splits)
qed simp

lemma smaller_answers:
  assumes "json_size (VDict ms) = Inr n" "distinct (map fst c)" "set c \<subseteq> set ms"
  shows "\<exists>m. json_size (VDict c) = Inr m \<and> m \<le> n"
proof -
  have n: "list_all (\<lambda>(k, v). json_length v \<noteq> None) ms" "n = int (sum_list (map entry_length ms) - 2 + 2)"
    using assms(1) by (auto simp: json_size_def json_dict_length_sum fail_with_def split: if_splits)
  have "sum_list (map entry_length c) = sum entry_length (set c)"
    using assms(2) by (simp add: sum_list_distinct_conv_sum_set distinct_map)
  also have "\<dots> \<le> sum entry_length (set ms)" by (rule sum_mono2) (use assms(3) in auto)
  also have "\<dots> \<le> sum_list (map entry_length ms)"
    by (induction ms) (auto simp: sum.insert_if)
  finally have "int (sum_list (map entry_length c) - 2 + 2) \<le> n" using n(2) by simp
  moreover have "list_all (\<lambda>(k, v). json_length v \<noteq> None) c" using n(1) assms(3) by (auto simp: list_all_iff)
  ultimately show ?thesis by (auto simp: json_size_def json_dict_length_sum)
qed

lemma validate_answers_steps:
  "validate_answers d (VDict ms) finished = Inr clean \<longleftrightarrow>
     validate_definition d = Inr () \<and> (\<exists>n. json_size (VDict ms) = Inr n \<and> n \<le> 262144)
     \<and> set (map fst ms) \<subseteq> set (question_names d)
     \<and> (\<exists>pr. fold_res (page_step finished ms) ([], []) (pages_of d) = Inr (clean, pr))"
proof -
  have "(case x of (c, pr) \<Rightarrow> Inr c) = Inr clean \<longleftrightarrow> (\<exists>pr. x = (clean, pr))" for x :: "(pystr \<times> pyval) list \<times> pystr list"
    by (cases x) auto
  moreover have "list_ex (\<lambda>k. k \<notin> set (question_names d)) (map fst ms) \<longleftrightarrow> \<not> set (map fst ms) \<subseteq> set (question_names d)"
    by (auto simp: list_ex_iff)
  ultimately show ?thesis
    unfolding validate_answers_def by (fastforce simp: then_res_Inr_iff fail_with_def split: if_splits)
qed

lemma accepted_again:
  assumes "validate_answers d answers finished = Inr clean"
  shows "validate_answers d (VDict clean) finished = Inr clean"
    and "\<exists>ms. answers = VDict ms \<and> adds ms (question_names d) clean"
proof -
  obtain ms where ms: "answers = VDict ms"
    using assms unfolding validate_answers_def
    by (auto simp: then_res_Inr_iff fail_with_def split: pyval.splits)
  from assms obtain n pr where n: "validate_definition d = Inr ()" "json_size (VDict ms) = Inr n" "n \<le> 262144"
      "fold_res (page_step finished ms) ([], []) (pages_of d) = Inr (clean, pr)"
    unfolding ms validate_answers_steps by blast
  obtain new where new: "clean = [] @ new" "adds ms (question_names d) new"
      "\<forall>other. agrees other (question_names d) new \<longrightarrow> fold_res (page_step finished other) ([], []) (pages_of d) = Inr (clean, pr)"
    using fold_adds [where f = "page_step finished" and names = "\<lambda>p. map question_name (page_questions p)",
        OF page_step_adds n(4)] valid_definition_names [OF n(1)]
    unfolding question_names_pages by blast
  then have clean: "adds ms (question_names d) clean"
      "fold_res (page_step finished clean) ([], []) (pages_of d) = Inr (clean, pr)"
    by (auto simp: agrees_def)
  have "set clean \<subseteq> set ms" using clean(1) by (auto simp: adds_def dest: map_of_SomeD)
  then obtain m where "json_size (VDict clean) = Inr m" "m \<le> n"
    using smaller_answers [OF n(2)] clean(1) unfolding adds_def by blast
  then show "validate_answers d (VDict clean) finished = Inr clean"
    using n(1,3) clean unfolding validate_answers_steps adds_def by force
  show "\<exists>ms. answers = VDict ms \<and> adds ms (question_names d) clean" using ms clean(1) by blast
qed

section \<open>Conditions of an accepted definition\<close>

lemma fold_res_each:
  assumes "fold_res f s xs = Inr t" "x \<in> set xs"
  shows "\<exists>u v. f u x = Inr v"
  using assms by (induction xs arbitrary: s) (auto simp: res_simps)

lemma accepted_leaves:
  assumes "visible_if v answers preceding = Inr b"
  shows "\<exists>ls. leaves (member ''visibleIf'' v) = Inr ls"
proof (cases "member ''visibleIf'' v")
  case (Some e)
  then have c: "condition e answers preceding = Inr b" using assms by (simp add: visible_if_def)
  then obtain s where s: "e = VStr s" by (cases e) (auto simp: condition_def fail_with_def)
  have "guarded_expression s" using c condition_unguarded [of s call_limit answers preceding]
    unfolding s condition_def by (auto simp: fail_with_def call_limit_def)
  then show ?thesis using fits_leaves_end [OF guarded_fits [of s call_limit]] Some s by (simp add: leaves_def call_limit_def)
qed (simp add: leaves_def)

lemma check_question_visible: "check_question preceding q = Inr r \<Longrightarrow> \<exists>b. visible_if q [] preceding = Inr b"
  unfolding check_question_def Let_def
  by (auto simp: fail_with_def then_res_Inr_iff split: if_splits option.splits pyval.splits)

lemma check_page_parts:
  assumes "check_page st p = Inr r"
  shows "(\<exists>b. visible_if p [] (fst st) = Inr b) \<and> (\<exists>es. member ''elements'' p = Some (VList es)
     \<and> (\<exists>all. fold_res check_question (fst st) es = Inr all))"
  using assms unfolding check_page_def
  by (cases st) (auto simp: fail_with_def then_res_Inr_iff split: if_splits option.splits pyval.splits)

lemma map_res_total: "(\<And>x. x \<in> set xs \<Longrightarrow> \<exists>y. f x = Inr y) \<Longrightarrow> \<exists>ys. map_res f xs = Inr ys"
  unfolding map_res_all by blast

lemma page_dependencies_total:
  assumes "check_page st p = Inr r"
  shows "\<exists>x. page_dependencies p = Inr x"
proof -
  from check_page_parts [OF assms] obtain b es all where
      v: "visible_if p [] (fst st) = Inr b" and es: "member ''elements'' p = Some (VList es)"
      and qs: "fold_res check_question (fst st) es = Inr all" by blast
  obtain ls where ls: "leaves (member ''visibleIf'' p) = Inr ls" using accepted_leaves [OF v] by blast
  have "\<exists>y. element_dependencies c ls q = Inr y" if q: "q \<in> set es" for c q
  proof -
    obtain u w where "check_question u q = Inr w" using fold_res_each [OF qs q] by blast
    then obtain own where "leaves (member ''visibleIf'' q) = Inr own" using check_question_visible accepted_leaves by blast
    then show ?thesis by (simp add: element_dependencies_def)
  qed
  then obtain ys where "map_res (element_dependencies (member ''visibleIf'' p) ls) es = Inr ys"
    using map_res_total [of es "element_dependencies (member ''visibleIf'' p) ls"] by auto
  then show ?thesis using ls es by (simp add: page_dependencies_def member_or_def items_of_def Let_def)
qed

lemma dependencies_total:
  assumes "validate_definition d = Inr ()"
  shows "\<exists>x. dependencies d = Inr x"
proof -
  from assms obtain ps r where ps: "member ''pages'' d = Some (VList ps)" and r: "fold_res check_page ([], []) ps = Inr r"
    unfolding validate_definition_def
    by (auto simp: fail_with_def then_res_Inr_iff split: if_splits option.splits pyval.splits)
  have "\<exists>x. page_dependencies p = Inr x" if "p \<in> set ps" for p
    using fold_res_each [OF r that] page_dependencies_total by blast
  then obtain ys where "map_res page_dependencies ps = Inr ys" using map_res_total [of ps page_dependencies] by auto
  then show ?thesis using ps by (simp add: dependencies_def member_or_def items_of_def)
qed

section \<open>Properties\<close>

text \<open>C19: The recursion of \<^verbatim>\<open>condition\<close> is at most 43 calls deep: any expression with 43 calls gives the result it has with any
  number more, which is not \<^verbatim>\<open>RecursionError\<close>.  So is that of \<^verbatim>\<open>leaves\<close> for the expressions whose length and parentheses
  the guard of \<^verbatim>\<open>condition\<close> accepts; others it may follow deeper.  The validation of answers ends with a verdict, and the
  dependencies of every accepted definition are recorded.\<close>

theorem conditions_return:
  assumes "validate_definition d = Inr ()"
  shows "condition_at (43 + n) s answers preceding = condition_at 43 s answers preceding
    \<and> condition_at 43 s answers preceding \<noteq> Inl Recursion_Error
    \<and> (guarded_expression s \<longrightarrow> (\<exists>ls. leaves_at 43 s = Inr ls \<and> leaves_at (43 + n) s = Inr ls))
    \<and> validate_answers d given finished \<noteq> Inl Recursion_Error
    \<and> (\<exists>x. dependencies d = Inr x)"
  using condition_ends [of "43 + n" s answers preceding] condition_ends [of 43 s answers preceding]
    guarded_fits [of s 43] fits_leaves [of 43 s "43 + n"] fits_leaves_end [of 43 s]
    ends_answers [of d given finished] dependencies_total [OF assms] by (auto simp: ends_well_def)

definition entry :: "string \<Rightarrow> string \<Rightarrow> pystr \<times> pyval" where
  "entry k s = (lit k, VStr (lit s))"

definition sample_survey :: pyval where
  "sample_survey = VDict [(lit ''pages'', VList [VDict [entry ''name'' ''p'', (lit ''elements'', VList [
     VDict [entry ''type'' ''comment'', entry ''name'' ''c''],
     VDict [entry ''type'' ''text'', entry ''name'' ''t'', entry ''visibleIf'' ''({c} notempty) and {c} <> 4'']])]])]"

lemma sample_survey_valid: "validate_definition sample_survey = Inr ()"
  by code_simp

theorem conditions_return_witness:
  "condition_at (43 + 3) (lit ''{c} empty'') [] [lit ''c''] = condition_at 43 (lit ''{c} empty'') [] [lit ''c'']
    \<and> condition_at 43 (lit ''{c} empty'') [] [lit ''c''] \<noteq> Inl Recursion_Error
    \<and> (\<exists>ls. leaves_at 43 (lit ''{c} empty'') = Inr ls \<and> leaves_at (43 + 3) (lit ''{c} empty'') = Inr ls)
    \<and> validate_answers sample_survey VNone True \<noteq> Inl Recursion_Error
    \<and> (\<exists>x. dependencies sample_survey = Inr x)"
proof -
  have "guarded_expression (lit ''{c} empty'')" by code_simp
  then show ?thesis
    using conditions_return [OF sample_survey_valid, of 3 "lit ''{c} empty''" "[]" "[lit ''c'']" VNone True] by simp
qed

text \<open>C18: A condition is a formula over the comparisons in it.  Whether it has a value and which one depends on its
  expression, on the questions before it and on the values of those comparisons alone; and what is
  recorded of it with a snapshot, the result of \<^verbatim>\<open>leaves\<close>, is the list of exactly these comparisons, in order.\<close>

theorem condition_is_formula:
  "condition_at n s answers preceding = Inr b \<longleftrightarrow>
     guarded_expression s \<and> (\<exists>f. formula_at n s = Some f \<and> leaves_at n s = Inr (formula_leaves f)
       \<and> list_all (\<lambda>l. fst l \<in> set preceding \<and> (\<exists>v. leaf_value l answers = Inr v)) (formula_leaves f)
       \<and> b = holds (\<lambda>l. leaf_value l answers = Inr True) f)"
  unfolding condition_formula by (meson formula_recorded)

text \<open>C20: Accepted answers are a fixed point of the validation: they are answers given to questions of the
  definition, each at most once, and validating them again returns them unchanged, whatever was
  dropped (answers to hidden questions, empty ones) the first time.\<close>

theorem answers_fixed_point:
  assumes "validate_answers d answers finished = Inr clean"
  shows "validate_answers d (VDict clean) finished = Inr clean
    \<and> (\<exists>given. answers = VDict given \<and> distinct (map fst clean)
        \<and> (\<forall>(k, v) \<in> set clean. k \<in> set (question_names d) \<and> map_of given k = Some v))"
  using accepted_again [OF assms] unfolding adds_def by fastforce

theorem answers_fixed_point_witness:
  "validate_answers sample_survey (VDict [entry ''c'' ''yes'']) True = Inr [entry ''c'' ''yes'']"
proof -
  have "validate_answers sample_survey (VDict [entry ''t'' '''', entry ''c'' ''yes'']) True = Inr [entry ''c'' ''yes'']"
    by code_simp
  from answers_fixed_point [OF this] show ?thesis by blast
qed

end
