(* ===== verification/Shop_History.thy ===== *)
theory Shop_History
  imports Order_Completion Invoice_Numbering
begin

text \<open>
  The shop as a whole: every history of the commands on orders, deliveries, windows, invoices and payments over
  one database, and what holds between the tables in all of them.  Each command is one atomic step, as its
  locks and its transaction make it; a command that raises leaves the tables as they are.
\<close>

section \<open>Between the tables\<close>

text \<open>The status of an order, its cancellation row and its invoice.\<close>

definition order_billed :: "shop_db \<Rightarrow> commitment \<Rightarrow> bool" where
  "order_billed db od \<longleftrightarrow>
     (cm_status od = Commitment_Cancelled \<longleftrightarrow> cm_id od \<in> oc_commitment_id ` set (sd_cancellations db))
     \<and> (cm_status od = Invoiced \<longrightarrow> sd_invoice_of db (cm_id od) \<noteq> None)
     \<and> (cm_status od \<notin> {Invoiced, Commitment_Cancelled} \<longrightarrow> sd_invoice_of db (cm_id od) = None)
     \<and> (cm_status od = Commitment_Cancelled \<longrightarrow> (\<forall>i. sd_invoice_of db (cm_id od) = Some i \<longrightarrow>
          (\<exists>s. fd_invoices (sd_finance db) i = Some s \<and> ss_status s = Cancelled)
          \<and> paid_minor (booked (sd_finance db) i) \<le> 0))"

definition invoices_ok :: "shop_db \<Rightarrow> bool" where
  "invoices_ok db \<longleftrightarrow> dom (fd_invoices (sd_finance db)) = iv_id ` set (sd_invoices db)
     \<and> ran (sd_invoice_of db) \<subseteq> dom (fd_invoices (sd_finance db))
     \<and> dom (sd_invoice_of db) \<subseteq> cm_id ` set (bd_orders (sd_board db))
     \<and> inj_on (sd_invoice_of db) (dom (sd_invoice_of db))"

definition cancellations_ok :: "shop_db \<Rightarrow> bool" where
  "cancellations_ok db \<longleftrightarrow> distinct (map oc_commitment_id (sd_cancellations db))
     \<and> oc_commitment_id ` set (sd_cancellations db) \<subseteq> cm_id ` set (bd_orders (sd_board db))"

definition shop_ok :: "shop_db \<Rightarrow> bool" where
  "shop_ok db \<longleftrightarrow> board_ok (sd_board db) \<and> finance_ok (sd_finance db) \<and> invoices_ok db \<and> cancellations_ok db
     \<and> (\<forall>od \<in> set (bd_orders (sd_board db)). order_billed db od)"

text \<open>What every step keeps for good: cancelled orders with their rows, cancelled invoices, receipts, the order of a
  cancellation row.\<close>

definition closed_kept :: "shop_db \<Rightarrow> shop_db \<Rightarrow> bool" where
  "closed_kept db db' \<longleftrightarrow>
     (\<forall>od \<in> set (bd_orders (sd_board db)). cm_status od = Commitment_Cancelled \<longrightarrow> od \<in> set (bd_orders (sd_board db')))
     \<and> set (sd_cancellations db) \<subseteq> set (sd_cancellations db')
     \<and> sd_invoice_of db \<subseteq>\<^sub>m sd_invoice_of db'
     \<and> fd_receipts (sd_finance db) \<subseteq>\<^sub>m fd_receipts (sd_finance db')
     \<and> (\<forall>i s. fd_invoices (sd_finance db) i = Some s \<and> ss_status s = Cancelled \<longrightarrow>
          fd_invoices (sd_finance db') i = Some s \<and> booked (sd_finance db') i = booked (sd_finance db) i)"

lemma closed_kept_refl: "closed_kept db db"
  by (simp add: closed_kept_def)

lemma closed_kept_trans:
  assumes "closed_kept a b" "closed_kept b c"
  shows "closed_kept a c"
proof -
  have "sd_invoice_of a \<subseteq>\<^sub>m sd_invoice_of c" "fd_receipts (sd_finance a) \<subseteq>\<^sub>m fd_receipts (sd_finance c)"
    using assms map_le_trans unfolding closed_kept_def by blast+
  moreover have "set (sd_cancellations a) \<subseteq> set (sd_cancellations c)" using assms unfolding closed_kept_def by blast
  moreover have "\<forall>od \<in> set (bd_orders (sd_board a)). cm_status od = Commitment_Cancelled \<longrightarrow> od \<in> set (bd_orders (sd_board c))"
    using assms unfolding closed_kept_def by blast
  moreover have "\<forall>i s. fd_invoices (sd_finance a) i = Some s \<and> ss_status s = Cancelled \<longrightarrow>
      fd_invoices (sd_finance c) i = Some s \<and> booked (sd_finance c) i = booked (sd_finance a) i"
    using assms unfolding closed_kept_def by (metis (no_types, lifting))
  ultimately show ?thesis unfolding closed_kept_def by blast
qed

section \<open>Commands on one component\<close>

lemma order_ok_tables:
  assumes "bd_deliveries b' = bd_deliveries b" "bd_closures b' = bd_closures b" "bd_tasks b' = bd_tasks b"
  shows "order_ok b' od = order_ok b od"
  using assms by (simp add: order_ok_def row_state_def row_missed_def)

lemma shop_board:
  assumes "shop_ok db" "board_ok b" "bd_orders b = bd_orders (sd_board db)"
  shows "shop_ok (db\<lparr>sd_board := b\<rparr>)" "closed_kept db (db\<lparr>sd_board := b\<rparr>)"
proof -
  have "order_billed (db\<lparr>sd_board := b\<rparr>) od = order_billed db od" for od by (simp add: order_billed_def)
  moreover have "invoices_ok (db\<lparr>sd_board := b\<rparr>) = invoices_ok db" "cancellations_ok (db\<lparr>sd_board := b\<rparr>) = cancellations_ok db"
    by (simp_all add: invoices_ok_def cancellations_ok_def assms(3))
  ultimately show "shop_ok (db\<lparr>sd_board := b\<rparr>)" using assms by (simp add: shop_ok_def)
  show "closed_kept db (db\<lparr>sd_board := b\<rparr>)" using assms(3) by (auto simp: closed_kept_def)
qed

lemma shop_finance:
  assumes ok: "shop_ok db" and step: "finance_step zone (sd_finance db) f"
    and dom: "dom (fd_invoices f) = dom (fd_invoices (sd_finance db))"
  shows "shop_ok (db\<lparr>sd_finance := f\<rparr>)" "closed_kept db (db\<lparr>sd_finance := f\<rparr>)"
proof -
  let ?db = "db\<lparr>sd_finance := f\<rparr>"
  have fin: "finance_ok (sd_finance db)" using ok by (simp add: shop_ok_def)
  have fin': "finance_ok f" by (rule finance_step_ok [OF step fin])
  have ext: "finance_extends (sd_finance db) f" by (rule finance_step_extends [OF step fin])
  then show "closed_kept db ?db" by (auto simp: closed_kept_def finance_extends_def)
  have closed: "fd_invoices f i = Some s \<and> booked f i = booked (sd_finance db) i"
    if "fd_invoices (sd_finance db) i = Some s" "ss_status s = Cancelled" for i s
    using ext that by (simp add: finance_extends_def)
  have "order_billed ?db od" if "od \<in> set (bd_orders (sd_board db))" for od
  proof -
    have old: "order_billed db od" using ok that by (simp add: shop_ok_def)
    have "(\<exists>s. fd_invoices f i = Some s \<and> ss_status s = Cancelled) \<and> paid_minor (booked f i) \<le> 0"
      if c: "cm_status od = Commitment_Cancelled" "sd_invoice_of db (cm_id od) = Some i" for i
    proof -
      obtain s where s: "fd_invoices (sd_finance db) i = Some s" "ss_status s = Cancelled"
          "paid_minor (booked (sd_finance db) i) \<le> 0"
        using old c unfolding order_billed_def by blast
      then show ?thesis using closed [OF s(1,2)] by simp
    qed
    then show ?thesis using old by (simp add: order_billed_def)
  qed
  moreover have "invoices_ok ?db = invoices_ok db" "cancellations_ok ?db = cancellations_ok db"
    by (simp_all add: invoices_ok_def cancellations_ok_def dom)
  ultimately show "shop_ok ?db" using ok fin' by (simp add: shop_ok_def)
qed

text \<open>An update of one order that was not cancelled, with its receipt.\<close>

lemma board_update:
  assumes ok: "board_ok b" and orders: "bd_orders b' = map (\<lambda>v. if cm_id v = c then f v else v) (bd_orders b)"
    and same: "bd_deliveries b' = bd_deliveries b" "bd_closures b' = bd_closures b" "bd_tasks b' = bd_tasks b"
      "bd_windows b' = bd_windows b" "bd_follow_ups b' = bd_follow_ups b"
    and f: "\<And>v. cm_id (f v) = cm_id v \<and> cm_action_id (f v) = cm_action_id v"
    and each: "\<And>v. v \<in> set (bd_orders b) \<Longrightarrow> cm_id v = c \<Longrightarrow> order_ok b v \<Longrightarrow> order_ok b (f v)"
    and window: "\<And>v w. v \<in> set (bd_orders b) \<Longrightarrow> cm_id v = c \<Longrightarrow> cm_delivery_window_id (f v) = Some w \<Longrightarrow>
      \<exists>r \<in> set (bd_windows b). wi_id r = w \<and> wi_action_id r = cm_action_id v"
  shows "board_ok b'"
proof -
  let ?g = "\<lambda>v. if cm_id v = c then f v else v"
  have g: "cm_id (?g v) = cm_id v" "cm_action_id (?g v) = cm_action_id v" for v using f by simp_all
  have ids: "map cm_id (bd_orders b') = map cm_id (bd_orders b)" using orders g by simp
  then have idset: "cm_id ` set (bd_orders b') = cm_id ` set (bd_orders b)" by (metis set_map)
  have "order_ok b' v'" if "v' \<in> set (bd_orders b')" for v'
  proof -
    obtain v where v: "v \<in> set (bd_orders b)" "v' = ?g v" using \<open>v' \<in> set (bd_orders b')\<close> unfolding orders set_map by blast
    then have "order_ok b v" using ok by (simp add: board_ok_def)
    then show ?thesis using each v unfolding order_ok_tables [OF same(1-3)] by (cases "cm_id v = c") auto
  qed
  moreover have "windows_ok b'"
  proof -
    have "\<exists>r \<in> set (bd_windows b'). wi_id r = w \<and> wi_action_id r = cm_action_id v'"
      if v': "v' \<in> set (bd_orders b')" "cm_delivery_window_id v' = Some w" for v' w
    proof -
      obtain v where v: "v \<in> set (bd_orders b)" "v' = ?g v" using v'(1) unfolding orders set_map by blast
      show ?thesis
      proof (cases "cm_id v = c")
        case True
        then show ?thesis using window [OF v(1)] v' v(2) f same(4) by simp
      next
        case False
        then show ?thesis using ok v v'(2) same(4) by (simp add: board_ok_def windows_ok_def)
      qed
    qed
    then show ?thesis using ok same(4) by (simp add: board_ok_def windows_ok_def)
  qed
  moreover have "\<forall>d. d \<notin> cm_id ` set (bd_orders b') \<longrightarrow> bd_deliveries b' d = None \<and> \<not> follow_up_open (bd_tasks b') d"
    using ok unfolding board_ok_def idset same(1,3) by blast
  ultimately show ?thesis using ok ids same(3,5) by (simp add: board_ok_def order_ids_ok_def)
qed


text \<open>The same for the other tables: the order is neither cancelled nor becomes it.\<close>

lemma shop_update:
  assumes ok: "shop_ok db" and b: "board_ok (sd_board db')"
    and orders: "bd_orders (sd_board db') = map (\<lambda>v. if cm_id v = c then f v else v) (bd_orders (sd_board db))"
    and f: "\<And>v. cm_id (f v) = cm_id v"
    and kept: "\<And>v. v \<in> set (bd_orders (sd_board db)) \<Longrightarrow> cm_id v = c \<Longrightarrow>
        cm_status v \<notin> {Invoiced, Commitment_Cancelled} \<and> cm_status (f v) \<notin> {Invoiced, Commitment_Cancelled}"
    and same: "db' = db\<lparr>sd_board := sd_board db', sd_finance := (sd_finance db)\<lparr>fd_receipts := r\<rparr>\<rparr>"
    and more: "fd_receipts (sd_finance db) \<subseteq>\<^sub>m r"
  shows "shop_ok db'" "closed_kept db db'"
proof -
  let ?g = "\<lambda>v. if cm_id v = c then f v else v"
  have other: "sd_cancellations db' = sd_cancellations db" "sd_invoice_of db' = sd_invoice_of db" "sd_invoices db' = sd_invoices db"
      "sd_finance db' = (sd_finance db)\<lparr>fd_receipts := r\<rparr>"
    by (subst same, simp)+
  have inv: "fd_invoices (sd_finance db') = fd_invoices (sd_finance db)" "booked (sd_finance db') i = booked (sd_finance db) i" for i
    by (simp_all add: other booked_def)
  have "map cm_id (bd_orders (sd_board db')) = map cm_id (bd_orders (sd_board db))" using orders f by simp
  then have idset: "cm_id ` set (bd_orders (sd_board db')) = cm_id ` set (bd_orders (sd_board db))" by (metis set_map)
  have "order_billed db' v'" if "v' \<in> set (bd_orders (sd_board db'))" for v'
  proof -
    obtain v where v: "v \<in> set (bd_orders (sd_board db))" "v' = ?g v"
      using \<open>v' \<in> set (bd_orders (sd_board db'))\<close> unfolding orders set_map by blast
    then have "order_billed db v" using ok by (simp add: shop_ok_def)
    then show ?thesis
      using kept [OF v(1)] v(2) f [of v] by (cases "cm_id v = c") (auto simp: order_billed_def other(1,2) inv)
  qed
  moreover have "invoices_ok db' = invoices_ok db" "cancellations_ok db' = cancellations_ok db"
    by (simp_all add: invoices_ok_def cancellations_ok_def idset other(1-3) inv(1))
  moreover have "finance_ok (sd_finance db')" using ok by (simp add: shop_ok_def other(4) finance_ok_receipts)
  ultimately show "shop_ok db'" using ok b by (simp add: shop_ok_def)
  have "od \<in> set (bd_orders (sd_board db'))" if "od \<in> set (bd_orders (sd_board db))" "cm_status od = Commitment_Cancelled" for od
  proof -
    have "cm_id od \<noteq> c" using kept [OF that(1)] that(2) by auto
    then show ?thesis using that(1) unfolding orders by force
  qed
  then show "closed_kept db db'" using more other inv by (simp add: closed_kept_def)
qed

lemma receipt_new: "fd_receipts f k = None \<Longrightarrow> fd_receipts f \<subseteq>\<^sub>m (fd_receipts f)(k \<mapsto> r)"
  by (auto simp: map_le_def)

lemma completed_receipts:
  "complete_command t cc k u f = f\<lparr>fd_receipts := (fd_receipts f)(cc_idempotency_key cc \<mapsto>
     \<lparr>cr_command_type = t, cr_request_hash = cc_request_hash cc, cr_result = Some (k, u)\<rparr>)\<rparr>"
  by (simp add: complete_command_def)

lemma untouched_row:
  assumes "board_ok b" "c \<notin> cm_id ` set (bd_orders b)"
  shows "row_state b c = Drop_Open" "\<not> row_missed b c" "\<not> follow_up_open (bd_tasks b) c"
  using assms by (auto simp: board_ok_def row_state_def row_missed_def)

lemma create_shop:
  assumes ok: "shop_ok db" and run: "create_order_once tzdb ids cc source status d now db = Inr (od, db')"
    and status: "status \<in> {Commitment_Draft, Review_Ready}"
  shows "shop_ok db' \<and> closed_kept db db'"
proof (cases "fd_receipts (sd_finance db) (cc_idempotency_key cc)")
  case (Some rc)
  then have "db' = db"
    using run unfolding create_order_once_def by (auto simp: then_res_Inr_iff dest!: existing_replays)
  then show ?thesis using ok closed_kept_refl by simp
next
  case None
  obtain x dv snapshot full fs ls total captured where k:
    "bd_contexts (sd_board db) (cc_action_id cc) = Some x" "bx_ordering x" "bx_status x \<in> open_for_orders"
    "source = From_Acquisition \<longrightarrow> assigned db (cc_action_id cc) (cc_actor_user_id cc) (dr_buyer d)"
    "read_configuration tzdb (sd_board db) (cc_action_id cc) = Inr dv"
    "validate_order tzdb dv (dr_delivery_window_id d) (dr_delivery_recipient d \<noteq> None) (dr_delivery_contact d)
       (status \<noteq> Commitment_Draft) now = Inr snapshot"
    "status \<noteq> Commitment_Draft \<longrightarrow> guard_window_booking (sd_board db) (dr_delivery_window_id d) (dr_allow_full_window d) = Inr full"
    "offerings_of db (cc_action_id cc) (map ld_offering_id (dr_lines d)) = Inr fs"
    "map_res (price_line (ni_line ids) fs (cc_occurred_at cc)) (dr_lines d) = Inr ls"
    "dr_captured_at d \<noteq> None \<longrightarrow> guard_quoted_prices d ls = Inr ()"
    "check_opt (\<lambda>t. bounded_captured_at t (cc_occurred_at cc)) (dr_captured_at d) = Inr captured"
    "commitment_init \<lparr>cm_id = ni_order ids, cm_action_id = cc_action_id cc, cm_source = source,
         cm_status = status, cm_buyer = dr_buyer d, cm_invoice_recipient = dr_invoice_recipient d, cm_lines = ls,
         cm_total = total, cm_delivery_window_id = dr_delivery_window_id d, cm_delivery_window_snapshot = snapshot,
         cm_delivery_contact = dr_delivery_contact d, cm_delivery_recipient = dr_delivery_recipient d,
         cm_message = dr_message d, cm_public_reference = None, cm_idempotency_key = Some (cc_idempotency_key cc),
         cm_replayed = False, cm_captured_at = captured\<rparr> = Inr od"
    "insert_order (ni_audit ids) cc od full db = Inr db'"
    by (rule create_new [OF run None]) (rule that)
  note e = insert_order_effect [OF k(13)]
  have od: "cm_status od = status" "cm_action_id od = cc_action_id cc" "cm_delivery_window_id od = dr_delivery_window_id d"
    using commitment_init_keeps [OF k(12)] by simp_all
  have st [simp]: "cm_id (stored_order od) = cm_id od" "cm_status (stored_order od) = status"
    "cm_action_id (stored_order od) = cc_action_id cc" "cm_delivery_window_id (stored_order od) = dr_delivery_window_id d"
    by (simp_all add: stored_order_def od)
  have b: "board_ok (sd_board db)" using ok by (simp add: shop_ok_def)
  note row = untouched_row [OF b e(1)]
  have "order_ok (sd_board db) (stored_order od)"
    using row status unfolding order_ok_def by auto
  moreover have "order_ok (sd_board db') v = order_ok (sd_board db) v" for v by (rule order_ok_tables) (fact e)+
  moreover have "\<exists>r \<in> set (bd_windows (sd_board db)). wi_id r = w \<and> wi_action_id r = cc_action_id cc"
    if "dr_delivery_window_id d = Some w" for w
    using validated_booking(3) [OF k(5,6) that] by blast
  ultimately have "board_ok (sd_board db')"
    using b e(1) unfolding board_ok_def order_ids_ok_def windows_ok_def e(2-7) by auto
  moreover have "finance_ok (sd_finance db')" using ok e(9) by (simp add: shop_ok_def completed_finance)
  moreover have other: "sd_cancellations db' = sd_cancellations db" "sd_invoice_of db' = sd_invoice_of db" "sd_invoices db' = sd_invoices db"
    by (subst e(10), simp)+
  moreover have inv: "fd_invoices (sd_finance db') = fd_invoices (sd_finance db)" "booked (sd_finance db') i = booked (sd_finance db) i"
    "fd_receipts (sd_finance db) \<subseteq>\<^sub>m fd_receipts (sd_finance db')" for i
    using receipt_new [OF None] by (simp_all add: e(9) completed_receipts booked_def)
  moreover have "order_billed db' v = order_billed db v" for v by (simp add: order_billed_def other inv)
  moreover have "order_billed db (stored_order od)"
    using ok e(1) status by (auto simp: order_billed_def shop_ok_def invoices_ok_def cancellations_ok_def dom_def)
  moreover have "invoices_ok db'" "cancellations_ok db'"
    using ok unfolding shop_ok_def invoices_ok_def cancellations_ok_def other inv(1) e(2) by auto
  ultimately show ?thesis using ok e(2) by (simp add: shop_ok_def closed_kept_def)
qed

lemma draft_shop:
  assumes ok: "shop_ok db" and run: "complete_draft_once tzdb a cc as_manager c p now db = Inr (od, db')"
  shows "shop_ok db' \<and> closed_kept db db'"
proof (cases "fd_receipts (sd_finance db) (cc_idempotency_key cc)")
  case (Some rc)
  then have "db' = db"
    using run unfolding complete_draft_once_def by (auto simp: then_res_Inr_iff dest!: existing_replays split: option.splits)
  then show ?thesis using ok closed_kept_refl by simp
next
  case None
  obtain x dv row snapshot full captured db3 where k:
    "bd_contexts (sd_board db) (cc_action_id cc) = Some x" "bx_ordering x" "bx_status x \<in> open_for_orders"
    "read_configuration tzdb (sd_board db) (cc_action_id cc) = Inr dv"
    "authorize_order db (cc_action_id cc) c (cc_actor_user_id cc) as_manager = Inr row"
    "cm_status row = Commitment_Draft" "cm_source row \<noteq> From_Public_Form"
    "validate_order tzdb dv (cp_delivery_window_id p) (cp_delivery_recipient p \<noteq> None) (cp_delivery_contact p) True now = Inr snapshot"
    "guard_window_booking (sd_board db) (cp_delivery_window_id p) (cp_allow_full_window p) = Inr full"
    "db3 = write_order_event (order_event a cc ''commitment_completed'' c
           ([(lit ''previousStatus'', js_text (lit ''draft'')), (lit ''status'', js_text (lit ''review_ready''))]
            @ booked_members full captured)) (update_order c (\<lambda>od. put_delivery (cp_delivery_window_id p) snapshot (cp_delivery_contact p)
           (od\<lparr>cm_status := Review_Ready, cm_delivery_recipient := cp_delivery_recipient p\<rparr>)) db)"
    "db' = db3\<lparr>sd_finance := complete_command ''complete_commitment_v1'' cc ''commitmentId'' c (sd_finance db3)\<rparr>"
    "get_commitment db' c False = Inr od"
    by (rule complete_draft_new [OF run None]) (rule that)
  define f where "f = (\<lambda>od. put_delivery (cp_delivery_window_id p) snapshot (cp_delivery_contact p)
           (od\<lparr>cm_status := Review_Ready, cm_delivery_recipient := cp_delivery_recipient p\<rparr>))"
  note db' = k(11) [unfolded k(10) f_def [symmetric]]
  have b: "board_ok (sd_board db)" using ok by (simp add: shop_ok_def)
  have the_row: "v = row" if "v \<in> set (bd_orders (sd_board db))" "cm_id v = c" for v
    using order_by_id [OF board_ok_ids [OF b] that(1) authorized(1) [OF k(5)]] authorized(2) [OF k(5)] that(2) by simp
  have f: "cm_id (f v) = cm_id v" "cm_action_id (f v) = cm_action_id v" "cm_status (f v) = Review_Ready"
    "cm_delivery_window_id (f v) = cp_delivery_window_id p" for v by (simp_all add: f_def put_delivery_def)
  have board: "board_ok (sd_board db')"
  proof (rule board_update [OF b, where c = c and f = f])
    fix v assume v: "v \<in> set (bd_orders (sd_board db))" "cm_id v = c"
    then show "order_ok (sd_board db) v \<Longrightarrow> order_ok (sd_board db) (f v)"
      using the_row [OF v] k(6) by (auto simp: order_ok_def f)
    show "\<exists>r \<in> set (bd_windows (sd_board db)). wi_id r = w \<and> wi_action_id r = cm_action_id v"
      if "cm_delivery_window_id (f v) = Some w" for w
      using validated_booking(3) [OF k(4,8), of w] that f(4) the_row [OF v] authorized(3) [OF k(5)] by auto
  qed (simp_all add: db' f write_order_event_def update_order_def add_event_def)
  have orders: "bd_orders (sd_board db') = map (\<lambda>v. if cm_id v = c then f v else v) (bd_orders (sd_board db))"
    by (simp add: db' write_order_event_def update_order_def add_event_def)
  have same: "db' = db\<lparr>sd_board := sd_board db', sd_finance := (sd_finance db)\<lparr>fd_receipts :=
      (fd_receipts (sd_finance db))(cc_idempotency_key cc \<mapsto> \<lparr>cr_command_type = ''complete_commitment_v1'',
        cr_request_hash = cc_request_hash cc, cr_result = Some (''commitmentId'', c)\<rparr>)\<rparr>\<rparr>"
    by (simp add: db' write_order_event_def update_order_def add_event_def completed_receipts)
  have kept: "cm_status v \<notin> {Invoiced, Commitment_Cancelled} \<and> cm_status (f v) \<notin> {Invoiced, Commitment_Cancelled}"
    if "v \<in> set (bd_orders (sd_board db))" "cm_id v = c" for v
    using the_row [OF that] k(6) by (simp add: f(3))
  show ?thesis using shop_update [OF ok board orders f(1) kept same receipt_new [OF None]] by blast
qed

lemma completion_shop:
  assumes ok: "shop_ok db" and run: "complete_delivery_once tzdb a cc c d now db = Inr (answer, db')"
  shows "shop_ok db' \<and> closed_kept db db'"
proof (cases "fd_receipts (sd_finance db) (cc_idempotency_key cc)")
  case (Some rc)
  then have "db' = db"
    using run unfolding complete_delivery_once_def
    by (auto simp: then_res_Inr_iff dest!: existing_replays split: option.splits if_splits)
  then show ?thesis using ok closed_kept_refl by simp
next
  case None
  obtain x dv row od snapshot hist full ev where k:
    "bd_contexts (sd_board db) (cc_action_id cc) = Some x" "bx_status x \<noteq> Archived"
    "read_configuration tzdb (sd_board db) (cc_action_id cc) = Inr dv"
    "order_row db (cc_action_id cc) c = Some row" "get_commitment db c False = Inr od"
    "cm_status od \<in> {Commitment_Draft, Review_Ready}" "sd_invoice_of db c = None"
    "delivery_completion_version od = Inr (cd_expected_version d)"
    "completion_window tzdb dv db od d now = Inr (snapshot, hist, full)"
    "db' = (write_order_event ev (update_order c (completed_order d snapshot) db))
        \<lparr>sd_finance := complete_command ''complete_delivery_v1'' cc ''commitmentId'' c (sd_finance db)\<rparr>"
    "get_commitment db' c False = Inr answer"
    by (rule complete_delivery_new [OF run None]) (rule that)
  let ?f = "completed_order d snapshot"
  have b: "board_ok (sd_board db)" using ok by (simp add: shop_ok_def)
  note ids = board_ok_ids [OF b]
  have row: "row \<in> set (bd_orders (sd_board db))" "cm_id row = c" "cm_action_id row = cc_action_id cc"
    using k(4) by (auto simp: order_row_def find_Some_iff)
  obtain r0 where r0: "r0 \<in> set (bd_orders (sd_board db))" "cm_id r0 = c"
    "cm_status od = cm_status r0" "cm_delivery_window_id od = cm_delivery_window_id r0"
    by (rule get_commitment_row [OF k(5)])
  have the_row: "v = row" if "v \<in> set (bd_orders (sd_board db))" "cm_id v = c" for v
    using order_by_id [OF ids that(1) row(1)] that(2) row(2) by simp
  have od: "cm_status row \<in> {Commitment_Draft, Review_Ready}" "cm_delivery_window_id od = cm_delivery_window_id row"
    using the_row [OF r0(1,2)] r0(3,4) k(6) by auto
  note w = completed_window [OF k(3,9), unfolded od(2)]
  have old: "order_ok (sd_board db) row" using b row(1) by (simp add: board_ok_def)
  have board: "board_ok (sd_board db')"
  proof (rule board_update [OF b, where c = c and f = ?f])
    fix v assume v: "v \<in> set (bd_orders (sd_board db))" "cm_id v = c"
    have "order_ok (sd_board db) (?f row)"
    proof (cases "cm_delivery_window_id row")
      case None
      then show ?thesis using old od(1) by (auto simp: order_ok_def completed_order_keeps)
    next
      case (Some wid)
      then show ?thesis using old od(1) w(1) by (auto simp: order_ok_def completed_order_keeps)
    qed
    then show "order_ok (sd_board db) (?f v)" using the_row [OF v] by simp
    show "\<exists>r \<in> set (bd_windows (sd_board db)). wi_id r = wid \<and> wi_action_id r = cm_action_id v"
      if new: "cm_delivery_window_id (?f v) = Some wid" for wid
    proof (cases "cm_delivery_window_id row")
      case None
      then show ?thesis using w(2) [OF None, of wid] new the_row [OF v] row(3) by (simp add: completed_order_keeps)
    next
      case (Some w0)
      then have "w0 = wid" using w(1) new by (simp add: completed_order_keeps)
      then show ?thesis using b row(1) Some the_row [OF v] by (simp add: board_ok_def windows_ok_def)
    qed
  qed (simp_all add: k(10) completed_order_keeps write_order_event_def update_order_def add_event_def)
  have orders: "bd_orders (sd_board db') = map (\<lambda>v. if cm_id v = c then ?f v else v) (bd_orders (sd_board db))"
    by (simp add: k(10) write_order_event_def update_order_def add_event_def)
  have same: "db' = db\<lparr>sd_board := sd_board db', sd_finance := (sd_finance db)\<lparr>fd_receipts :=
      (fd_receipts (sd_finance db))(cc_idempotency_key cc \<mapsto> \<lparr>cr_command_type = ''complete_delivery_v1'',
        cr_request_hash = cc_request_hash cc, cr_result = Some (''commitmentId'', c)\<rparr>)\<rparr>\<rparr>"
    by (simp add: k(10) write_order_event_def update_order_def add_event_def completed_receipts)
  have kept: "cm_status v \<notin> {Invoiced, Commitment_Cancelled} \<and> cm_status (?f v) \<notin> {Invoiced, Commitment_Cancelled}"
    if "v \<in> set (bd_orders (sd_board db))" "cm_id v = c" for v
    using the_row [OF that] od(1) by (auto simp: completed_order_keeps)
  show ?thesis using shop_update [OF ok board orders completed_order_keeps(1) kept same receipt_new [OF None]] by blast
qed

lemma shop_receipts:
  assumes ok: "shop_ok db" and more: "fd_receipts (sd_finance db) \<subseteq>\<^sub>m r"
  shows "shop_ok (db\<lparr>sd_finance := (sd_finance db)\<lparr>fd_receipts := r\<rparr>\<rparr>)"
    "closed_kept db (db\<lparr>sd_finance := (sd_finance db)\<lparr>fd_receipts := r\<rparr>\<rparr>)"
proof -
  let ?db = "db\<lparr>sd_finance := (sd_finance db)\<lparr>fd_receipts := r\<rparr>\<rparr>"
  have "order_billed ?db od = order_billed db od" for od by (simp add: order_billed_def booked_def)
  moreover have "invoices_ok ?db = invoices_ok db" "cancellations_ok ?db = cancellations_ok db"
    by (simp_all add: invoices_ok_def cancellations_ok_def)
  ultimately show "shop_ok ?db" using ok by (simp add: shop_ok_def finance_ok_receipts)
  show "closed_kept db ?db" using more by (simp add: closed_kept_def booked_def)
qed

lemma finance_ok_cong:
  assumes "fd_invoices f' = fd_invoices f" "fd_payments f' = fd_payments f" "fd_cancellations f' = fd_cancellations f"
    "fd_mail_sent f' = fd_mail_sent f"
  shows "finance_ok f' = finance_ok f"
  using assms by (simp add: finance_ok_def invoice_row_ok_def booked_def)

text \<open>An invoice is issued: a new row, its order is invoiced.\<close>

lemma issue_shop:
  assumes ok: "shop_ok db" and run: "issue_once tzdb zone ids cc c so db = Inr (v, db')"
  shows "shop_ok db' \<and> closed_kept db db'"
proof (cases "answered db db'")
  case True
  then obtain r where r: "db' = db\<lparr>sd_finance := (sd_finance db)\<lparr>fd_receipts := r\<rparr>\<rparr>" "fd_receipts (sd_finance db) \<subseteq>\<^sub>m r"
    unfolding answered_def by blast
  then show ?thesis using shop_receipts [OF ok r(2)] by simp
next
  case False
  then obtain row stored db1 where k: "order_row db (cc_action_id cc) c = Some row" "cm_status row = Review_Ready"
      "fd_receipts (sd_finance db) (cc_idempotency_key cc) = None" "sd_invoice_of db c = None"
      "iv_commitment_id v = c" "iv_status v = Issued" "wf_money (iv_gross v)" "insert_invoice ids cc v db = Inr db1"
      "db' = set_order_status c Invoiced (db1\<lparr>sd_profiles := (sd_profiles db1)(cc_action_id cc \<mapsto>
            stored\<lparr>pf_next_number := pf_next_number stored + 1\<rparr>)\<rparr>)"
    using issue_effect(2) [OF run] by blast
  note e = insert_invoice_effect [OF k(8)]
  let ?f = "\<lambda>od. od\<lparr>cm_status := Invoiced\<rparr>"
  have b: "board_ok (sd_board db)" and fin: "finance_ok (sd_finance db)" and inv: "invoices_ok db" and can: "cancellations_ok db"
    using ok by (simp_all add: shop_ok_def)
  have row: "row \<in> set (bd_orders (sd_board db))" "cm_id row = c"
    using k(1) by (auto simp: order_row_def find_Some_iff)
  have the_row: "u = row" if "u \<in> set (bd_orders (sd_board db))" "cm_id u = c" for u
    using order_by_id [OF board_ok_ids [OF b] that(1) row(1)] that(2) row(2) by simp
  have orders: "bd_orders (sd_board db') = map (\<lambda>u. if cm_id u = c then ?f u else u) (bd_orders (sd_board db))"
    using e by (simp add: k(9) set_order_status_def)
  have tables: "sd_board db' = (sd_board db)\<lparr>bd_orders := bd_orders (sd_board db')\<rparr>" "sd_finance db' = sd_finance db1"
    "sd_cancellations db' = sd_cancellations db" "sd_invoices db' = sd_invoices db @ [v]"
    "sd_invoice_of db' = (sd_invoice_of db)(c \<mapsto> iv_id v)"
    using e k(5) by (simp_all add: k(9) set_order_status_def)
  have board: "board_ok (sd_board db')"
  proof (rule board_update [OF b orders])
    show "order_ok (sd_board db) u \<Longrightarrow> order_ok (sd_board db) (?f u)" if "u \<in> set (bd_orders (sd_board db))" "cm_id u = c" for u
      using the_row [OF that] k(2) by (auto simp: order_ok_def)
    show "\<exists>r \<in> set (bd_windows (sd_board db)). wi_id r = w \<and> wi_action_id r = cm_action_id u"
      if "u \<in> set (bd_orders (sd_board db))" "cm_delivery_window_id (?f u) = Some w" for u w
      using b that by (simp add: board_ok_def windows_ok_def)
  qed ((subst tables(1), simp)+, simp)
  have new: "fd_invoices (sd_finance db) (iv_id v) = None" using inv e by (auto simp: invoices_ok_def dom_def)
  let ?fin = "(sd_finance db)\<lparr>fd_invoices := (fd_invoices (sd_finance db))(iv_id v \<mapsto> settlement_of v)\<rparr>"
  have "finance_ok ?fin" by (rule issue_ok [OF fin new]) (simp_all add: settlement_of_def k(6,7))
  moreover have "finance_ok (sd_finance db1) = finance_ok ?fin" by (rule finance_ok_cong) (use e in simp_all)
  ultimately have fin': "finance_ok (sd_finance db')" by (simp add: tables(2))
  have "map cm_id (bd_orders (sd_board db')) = map cm_id (bd_orders (sd_board db))" using orders by simp
  then have idset: "cm_id ` set (bd_orders (sd_board db')) = cm_id ` set (bd_orders (sd_board db))" by (metis set_map)
  have fresh: "sd_invoice_of db d \<noteq> Some (iv_id v)" for d using inv new by (auto simp: invoices_ok_def ran_def)
  have invs: "fd_invoices (sd_finance db') = (fd_invoices (sd_finance db))(iv_id v \<mapsto> settlement_of v)" using e by (simp add: tables(2))
  have inv': "invoices_ok db'"
    unfolding invoices_ok_def
  proof (intro conjI)
    show "dom (fd_invoices (sd_finance db')) = iv_id ` set (sd_invoices db')" using inv by (simp add: invs tables(4) invoices_ok_def)
    show "ran (sd_invoice_of db') \<subseteq> dom (fd_invoices (sd_finance db'))"
    proof
      fix i assume "i \<in> ran (sd_invoice_of db')"
      then have "i = iv_id v \<or> i \<in> ran (sd_invoice_of db)" by (auto simp: tables(5) ran_def split: if_splits)
      then show "i \<in> dom (fd_invoices (sd_finance db'))" using inv by (auto simp: invs invoices_ok_def)
    qed
    show "dom (sd_invoice_of db') \<subseteq> cm_id ` set (bd_orders (sd_board db'))"
      using inv row by (auto simp: tables(5) idset invoices_ok_def)
    show "inj_on (sd_invoice_of db') (dom (sd_invoice_of db'))"
      using inv fresh fresh [symmetric] by (auto simp: tables(5) invoices_ok_def inj_on_def split: if_splits)
  qed
  have can': "cancellations_ok db'" using can unfolding cancellations_ok_def tables(3) idset .
  have booked: "booked (sd_finance db') i = booked (sd_finance db) i" for i using e by (simp add: tables(2) booked_def)
  have billed: "order_billed db' u'" if u': "u' \<in> set (bd_orders (sd_board db'))" for u'
  proof -
    obtain u where u: "u \<in> set (bd_orders (sd_board db))" "u' = (if cm_id u = c then ?f u else u)"
      using u' unfolding orders set_map by blast
    then have old: "order_billed db u" using ok by (simp add: shop_ok_def)
    show ?thesis
    proof (cases "cm_id u = c")
      case True
      then show ?thesis using old u(2) the_row [OF u(1) True] k(2) by (auto simp: order_billed_def tables(3,5))
    next
      case False
      have "i \<noteq> iv_id v" if "sd_invoice_of db (cm_id u) = Some i" for i
        using inv new that unfolding invoices_ok_def by (auto simp: ran_def)
      then show ?thesis using old u(2) False by (auto simp: order_billed_def tables(3,5) invs booked)
    qed
  qed
  have "closed_kept db db'"
  proof -
    have "od \<in> set (bd_orders (sd_board db'))" if "od \<in> set (bd_orders (sd_board db))" "cm_status od = Commitment_Cancelled" for od
    proof -
      have "cm_id od \<noteq> c" using the_row [OF that(1)] k(2) that(2) by auto
      then show ?thesis using that(1) unfolding orders by force
    qed
    moreover have "fd_receipts (sd_finance db) \<subseteq>\<^sub>m fd_receipts (sd_finance db')" using e receipt_new [OF k(3)] by (simp add: tables(2))
    moreover have "sd_invoice_of db \<subseteq>\<^sub>m sd_invoice_of db'" using k(4) by (auto simp: tables(5) map_le_def)
    ultimately show ?thesis using new by (auto simp: closed_kept_def tables(3) invs booked)
  qed
  then show ?thesis using board fin' inv' can' billed by (simp add: shop_ok_def)
qed

text \<open>An order is cancelled: all of it or nothing.\<close>

lemma cancel_invoice_extends:
  assumes "finance_ok f" "fd_receipts f (inner_key (ci_cancellation ids)) = None"
    and run: "cancel_invoice_of_order ids cc reason fresh_login invoice f = Inr (icid, f')"
  shows "finance_extends f f'" "invoice = None \<Longrightarrow> f' = f"
proof -
  show "invoice = None \<Longrightarrow> f' = f" using run by (simp add: cancel_invoice_of_order_def)
  show "finance_extends f f'"
  proof (cases "\<exists>s. invoice = Some s \<and> needs_cancellation s")
    case True
    then obtain s where s: "invoice = Some s" "needs_cancellation s" by blast
    obtain hash k where "cancel_once (ci_invoice_cancellation ids) (ci_invoice_audit ids)
        (cc\<lparr>cc_idempotency_key := inner_key (ci_cancellation ids), cc_request_hash := hash\<rparr>) (oi_id s) reason f = Inr (k, f')"
      using run s by (auto simp: cancel_invoice_of_order_def then_res_Inr_iff split: if_splits)
    from cancel_extends [OF assms(1) this] assms(2) show ?thesis by simp
  next
    case False
    then have "f' = f" using run by (auto simp: cancel_invoice_of_order_def split: option.splits if_splits)
    then show ?thesis by (simp add: finance_extends_refl)
  qed
qed

lemma order_cancellation_init_keeps:
  "order_cancellation_init k = Inr k' \<Longrightarrow> k' = k\<lparr>oc_reason := oc_reason k', oc_note := oc_note k'\<rparr>
     \<and> oc_previous_status k \<in> cancellable_order_statuses"
  by (auto simp: order_cancellation_init_def then_res_Inr_iff split: if_splits)

definition fresh_cancellation :: "cancel_ids \<Rightarrow> command_context \<Rightarrow> shop_db \<Rightarrow> bool" where
  "fresh_cancellation ids cc db \<longleftrightarrow> fd_receipts (sd_finance db) (inner_key (ci_cancellation ids)) = None
     \<and> inner_key (ci_cancellation ids) \<noteq> cc_idempotency_key cc
     \<and> fi_task (ci_follow_up ids) \<notin> tk_id ` set (td_tasks (bd_tasks (sd_board db)))"

lemma cancelled_order:
  assumes ok: "shop_ok db" and fresh: "fresh_cancellation ids cc db"
    and run: "cancel_order_once zone ids cc c rq fresh_login db = Inr (answer, db')"
    and new: "fd_receipts (sd_finance db) (cc_idempotency_key cc) = None"
  obtains row od k f where "row \<in> set (bd_orders (sd_board db))" "cm_id row = c" "cm_action_id row = cc_action_id cc"
    "cm_status row \<in> cancellable_order_statuses" "row_state (sd_board db) c \<noteq> Drop_Delivered"
    "get_commitment db c False = Inr od" "delivery_completion_version od = Inr (cq_expected_version rq)"
    "board_ok (sd_board db')"
    "bd_orders (sd_board db') = map (\<lambda>v. if cm_id v = c then v\<lparr>cm_status := Commitment_Cancelled\<rparr> else v) (bd_orders (sd_board db))"
    "bd_deliveries (sd_board db') = bd_deliveries (sd_board db)" "\<not> follow_up_open (bd_tasks (sd_board db')) c"
    "\<And>d. d \<noteq> c \<Longrightarrow> follow_up_open (bd_tasks (sd_board db')) d \<longleftrightarrow> follow_up_open (bd_tasks (sd_board db)) d"
    "sd_cancellations db' = sd_cancellations db @ [k]" "oc_commitment_id k = c" "oc_action_id k = cc_action_id cc"
    "oc_previous_status k = cm_status row" "oc_requested_by_user_id k = cc_actor_user_id cc"
    "cancelled_at_most (sd_invoice_of db c) (sd_finance db) f" "finance_extends (begin_command ''cancel_commitment_v1'' cc (sd_finance db)) f"
    "\<And>i. sd_invoice_of db c = Some i \<Longrightarrow> \<exists>s. fd_invoices (sd_finance db) i = Some s \<and> ss_status s \<noteq> Paid
        \<and> paid_minor (booked (sd_finance db) i) \<le> 0 \<and> (ss_status s \<noteq> Cancelled \<longrightarrow> fresh_login)"
    "sd_finance db' = complete_command ''cancel_commitment_v1'' cc ''commitmentId'' c f"
    "sd_invoice_of db' = sd_invoice_of db" "sd_invoices db' = sd_invoices db"
    "cancellation_answer db' c False = Inr answer"
proof -
  have b: "board_ok (sd_board db)" and fin: "finance_ok (sd_finance db)" and inv: "invoices_ok db"
    using ok by (simp_all add: shop_ok_def)
  obtain od icid f k qs bdb where e:
    "order_row db (cc_action_id cc) c \<noteq> None" "get_commitment db c False = Inr od"
    "cancellation_block (cm_status od) (row_state (sd_board db) c = Drop_Delivered) (invoice_of db c) = None"
    "delivery_completion_version od = Inr (cq_expected_version rq)"
    "cancel_invoice_of_order ids cc (cq_reason rq) fresh_login (invoice_of db c)
       (begin_command ''cancel_commitment_v1'' cc (sd_finance db)) = Inr (icid, f)"
    "order_cancellation_init \<lparr>oc_id = ci_cancellation ids, oc_action_id = cc_action_id cc,
       oc_commitment_id = c, oc_previous_status = cm_status od, oc_reason = cq_reason rq,
       oc_note = cq_note rq, oc_requested_by_user_id = cc_actor_user_id cc,
       oc_requested_at = cc_occurred_at cc, oc_invoice_cancellation_id = icid,
       oc_invoice_number = None, oc_requested_by_display_name = None\<rparr> = Inr k"
    "close_order_follow_up zone (ci_follow_up ids) cc od (add_event (cancellation_event ids cc od k (invoice_of db c)
       (row_state (sd_board db) c)) (set_cancelled c (sd_board db))) = Inr bdb"
    "db' = db\<lparr>sd_board := bdb, sd_finance := complete_command ''cancel_commitment_v1'' cc ''commitmentId'' c f,
       sd_cancellations := sd_cancellations db @ [k],
       sd_activities := sd_activities db @ [cancellation_activity ids cc od k (invoice_of db c) qs]\<rparr>"
    "cancellation_answer db' c False = Inr answer"
    by (rule cancel_order_effect [OF run new]) (rule that)
  obtain r0 where r0: "r0 \<in> set (bd_orders (sd_board db))" "cm_id r0 = c" "cm_id od = c"
    "cm_status od = cm_status r0" "cm_delivery_window_id od = cm_delivery_window_id r0"
    by (rule get_commitment_row [OF e(2)])
  obtain ra where ra: "ra \<in> set (bd_orders (sd_board db))" "cm_id ra = c" "cm_action_id ra = cc_action_id cc"
    using order_row_some [OF e(1)] by blast
  have "ra = r0" using order_by_id [OF board_ok_ids [OF b] ra(1) r0(1)] ra(2) r0(2) by simp
  then have action: "cm_action_id r0 = cc_action_id cc" using ra(3) by simp
  have block: "cm_status r0 \<in> cancellable_order_statuses" "row_state (sd_board db) c \<noteq> Drop_Delivered"
    "\<And>s. invoice_of db c = Some s \<Longrightarrow> \<not> oi_payment_recorded s \<and> oi_status s \<noteq> Paid"
    using e(3) r0(4) by (auto simp: cancellation_block_def split: if_splits option.splits)
  have task: "fi_task (ci_follow_up ids) \<notin> tk_id ` set (td_tasks (bd_tasks (sd_board db)))"
    using fresh by (simp add: fresh_cancellation_def)
  note bd = cancelled_board [OF b r0(1,2) block(2) r0(3,5) task e(7)]
  let ?begun = "begin_command ''cancel_commitment_v1'' cc (sd_finance db)"
  have unused: "fd_receipts ?begun (inner_key (ci_cancellation ids)) = None"
    using fresh by (simp add: fresh_cancellation_def begin_command_def)
  have fin0: "finance_ok ?begun" using fin by (simp add: begun_finance)
  note ext = cancel_invoice_extends [OF fin0 unused e(5)]
  have bill: "\<exists>s r. invoice_of db c = Some s \<and> fd_invoices (sd_finance db) i = Some r \<and> oi_id s = i \<and> oi_status s = ss_status r
      \<and> (oi_payment_recorded s \<longleftrightarrow> 0 < paid_minor (booked (sd_finance db) i))"
    if "sd_invoice_of db c = Some i" for i
  proof -
    have "i \<in> dom (fd_invoices (sd_finance db))" using inv ranI [of "sd_invoice_of db" c i] that unfolding invoices_ok_def by blast
    then obtain r where r: "fd_invoices (sd_finance db) i = Some r" by blast
    then have "ss_id r = i" using finance_okD(2) [OF fin] by blast
    then show ?thesis using that r by (auto simp: invoice_of_def Let_def paid_of)
  qed
  have "cancelled_at_most (sd_invoice_of db c) ?begun f"
  proof (cases "sd_invoice_of db c")
    case None
    then have "f = ?begun" using ext(2) by (simp add: invoice_of_def)
    then show ?thesis using fin0 None by (simp add: cancelled_at_most_def)
  next
    case (Some i)
    obtain s r where s: "invoice_of db c = Some s" "fd_invoices (sd_finance db) i = Some r" "oi_id s = i" "oi_status s = ss_status r"
      using bill [OF Some] by blast
    have "cancelled_at_most (Some i) ?begun f"
      by (rule cancel_invoice_effect(1) [OF fin0 unused e(5) [unfolded s(1)]]) (use s block(3) [OF s(1)] in \<open>auto simp: begun_finance\<close>)
    then show ?thesis using Some by simp
  qed
  then have most: "cancelled_at_most (sd_invoice_of db c) (sd_finance db) f" by (simp add: cancelled_at_most_def begun_finance)
  have facts: "\<exists>s. fd_invoices (sd_finance db) i = Some s \<and> ss_status s \<noteq> Paid \<and> paid_minor (booked (sd_finance db) i) \<le> 0
      \<and> (ss_status s \<noteq> Cancelled \<longrightarrow> fresh_login)" if i: "sd_invoice_of db c = Some i" for i
  proof -
    obtain s r where s: "invoice_of db c = Some s" "fd_invoices (sd_finance db) i = Some r" "oi_id s = i" "oi_status s = ss_status r"
        "oi_payment_recorded s \<longleftrightarrow> 0 < paid_minor (booked (sd_finance db) i)"
      using bill [OF i] by blast
    have "needs_cancellation s \<Longrightarrow> fresh_login"
      using e(5) s(1) by (auto simp: cancel_invoice_of_order_def split: if_splits)
    then have "fresh_login" if "ss_status r \<noteq> Cancelled"
      using that s(4) block(3) [OF s(1)] by (cases "ss_status r") (auto simp: needs_cancellation_def)
    then show ?thesis using s block(3) [OF s(1)] by auto
  qed
  have k: "oc_commitment_id k = c" "oc_action_id k = cc_action_id cc" "oc_previous_status k = cm_status r0"
    "oc_requested_by_user_id k = cc_actor_user_id cc"
    using conjunct1 [OF order_cancellation_init_keeps [OF e(6)]] r0(4) by (metis order_cancellation.simps order_cancellation.select_convs)+
  show ?thesis
    by (rule that [where row = r0 and od = od and k = k and f = f])
      (use r0(1,2) action block(1,2) e(2,4,9) bd k most ext(1) facts in \<open>simp_all add: e(8)\<close>)
qed

lemma cancel_shop:
  assumes ok: "shop_ok db" and fresh: "fresh_cancellation ids cc db"
    and run: "cancel_order_once zone ids cc c rq fresh_login db = Inr (answer, db')"
  shows "shop_ok db' \<and> closed_kept db db'"
proof (cases "fd_receipts (sd_finance db) (cc_idempotency_key cc)")
  case (Some rc)
  then have "db' = db"
    using run unfolding cancel_order_once_def
    by (auto simp: then_res_Inr_iff dest!: existing_replays split: option.splits if_splits)
  then show ?thesis using ok closed_kept_refl by simp
next
  case None
  let ?f = "\<lambda>v. v\<lparr>cm_status := Commitment_Cancelled\<rparr>"
  obtain row od k f where e: "row \<in> set (bd_orders (sd_board db))" "cm_id row = c" "cm_action_id row = cc_action_id cc"
    "cm_status row \<in> cancellable_order_statuses" "row_state (sd_board db) c \<noteq> Drop_Delivered"
    "get_commitment db c False = Inr od" "delivery_completion_version od = Inr (cq_expected_version rq)"
    "board_ok (sd_board db')"
    "bd_orders (sd_board db') = map (\<lambda>v. if cm_id v = c then v\<lparr>cm_status := Commitment_Cancelled\<rparr> else v) (bd_orders (sd_board db))"
    "bd_deliveries (sd_board db') = bd_deliveries (sd_board db)" "\<not> follow_up_open (bd_tasks (sd_board db')) c"
    "\<And>d. d \<noteq> c \<Longrightarrow> follow_up_open (bd_tasks (sd_board db')) d \<longleftrightarrow> follow_up_open (bd_tasks (sd_board db)) d"
    "sd_cancellations db' = sd_cancellations db @ [k]" "oc_commitment_id k = c" "oc_action_id k = cc_action_id cc"
    "oc_previous_status k = cm_status row" "oc_requested_by_user_id k = cc_actor_user_id cc"
    "cancelled_at_most (sd_invoice_of db c) (sd_finance db) f" "finance_extends (begin_command ''cancel_commitment_v1'' cc (sd_finance db)) f"
    "\<And>i. sd_invoice_of db c = Some i \<Longrightarrow> \<exists>s. fd_invoices (sd_finance db) i = Some s \<and> ss_status s \<noteq> Paid
        \<and> paid_minor (booked (sd_finance db) i) \<le> 0 \<and> (ss_status s \<noteq> Cancelled \<longrightarrow> fresh_login)"
    "sd_finance db' = complete_command ''cancel_commitment_v1'' cc ''commitmentId'' c f"
    "sd_invoice_of db' = sd_invoice_of db" "sd_invoices db' = sd_invoices db"
    "cancellation_answer db' c False = Inr answer"
    by (rule cancelled_order [OF ok fresh run None]) (rule that)
  have b: "board_ok (sd_board db)" and inv: "invoices_ok db" and can: "cancellations_ok db"
    using ok by (simp_all add: shop_ok_def)
  have the_row: "v = row" if "v \<in> set (bd_orders (sd_board db))" "cm_id v = c" for v
    using order_by_id [OF board_ok_ids [OF b] that(1) e(1)] that(2) e(2) by simp
  have live: "cm_status row \<noteq> Commitment_Cancelled" using e(4) by (auto simp: cancellable_order_statuses_def)
  have old: "order_billed db row" using ok e(1) by (simp add: shop_ok_def)
  then have unlisted: "c \<notin> oc_commitment_id ` set (sd_cancellations db)" using live e(2) by (simp add: order_billed_def)
  have fin: "fd_invoices (sd_finance db') = fd_invoices f" "booked (sd_finance db') i = booked (sd_finance db) i" for i
    using e(18) by (simp_all add: e(21) completed_receipts booked_def cancelled_at_most_def)
  have same: "fd_invoices f j = fd_invoices (sd_finance db) j" if "sd_invoice_of db c \<noteq> Some j" for j
    using e(18) that by (simp add: cancelled_at_most_def)
  have closed: "\<exists>s. fd_invoices (sd_finance db) i = Some s \<and> fd_invoices f i = Some (s\<lparr>ss_status := Cancelled\<rparr>)
      \<and> paid_minor (booked (sd_finance db) i) \<le> 0" if "sd_invoice_of db c = Some i" for i
    using e(20) [OF that] e(18) that by (auto simp: cancelled_at_most_def)
  have d1: "dom (fd_invoices f) = dom (fd_invoices (sd_finance db))"
  proof (rule set_eqI)
    fix j show "j \<in> dom (fd_invoices f) \<longleftrightarrow> j \<in> dom (fd_invoices (sd_finance db))"
      using same [of j] closed [of j] by (cases "sd_invoice_of db c = Some j") (auto simp: domIff)
  qed
  have "map cm_id (bd_orders (sd_board db')) = map cm_id (bd_orders (sd_board db))" by (simp add: e(9))
  then have idset: "cm_id ` set (bd_orders (sd_board db')) = cm_id ` set (bd_orders (sd_board db))" by (metis set_map)
  have inv': "invoices_ok db'" using inv unfolding invoices_ok_def e(22,23) fin(1) d1 idset .
  have can': "cancellations_ok db'"
    using can e(1,2) unlisted unfolding cancellations_ok_def idset e(13) by (auto simp: e(14))
  have billed: "order_billed db' v'" if v': "v' \<in> set (bd_orders (sd_board db'))" for v'
  proof -
    obtain v where v: "v \<in> set (bd_orders (sd_board db))" "v' = (if cm_id v = c then ?f v else v)"
      using v' unfolding e(9) set_map by blast
    then have o': "order_billed db v" using ok by (simp add: shop_ok_def)
    show ?thesis
    proof (cases "cm_id v = c")
      case True
      then show ?thesis using v(2) closed by (fastforce simp: order_billed_def e(13,14,22) fin)
    next
      case False
      have "sd_invoice_of db c \<noteq> Some i" if "sd_invoice_of db (cm_id v) = Some i" for i
        using inv that False unfolding invoices_ok_def inj_on_def by (metis domI)
      then show ?thesis using o' v(2) False same by (fastforce simp: order_billed_def e(13,14,22) fin)
    qed
  qed
  have ext: "fd_receipts (begin_command ''cancel_commitment_v1'' cc (sd_finance db)) \<subseteq>\<^sub>m fd_receipts f"
    using e(19) by (simp add: finance_extends_def)
  have "closed_kept db db'"
  proof -
    have "v \<in> set (bd_orders (sd_board db'))" if "v \<in> set (bd_orders (sd_board db))" "cm_status v = Commitment_Cancelled" for v
    proof -
      have "cm_id v \<noteq> c" using the_row [OF that(1)] live that(2) by auto
      then show ?thesis using that(1) unfolding e(9) by force
    qed
    moreover have "fd_receipts (sd_finance db) \<subseteq>\<^sub>m fd_receipts (sd_finance db')"
      unfolding map_le_def
    proof
      fix key assume "key \<in> dom (fd_receipts (sd_finance db))"
      then have "fd_receipts (sd_finance db) key \<noteq> None" "key \<noteq> cc_idempotency_key cc" using None by auto
      then show "fd_receipts (sd_finance db) key = fd_receipts (sd_finance db') key"
        using ext [unfolded map_le_def, rule_format, of key] by (simp add: e(21) completed_receipts begin_command_def domIff)
    qed
    moreover have "fd_invoices f i = Some s" if "fd_invoices (sd_finance db) i = Some s" "ss_status s = Cancelled" for i s
    proof (cases "sd_invoice_of db c = Some i")
      case True
      then show ?thesis using closed [OF True] that by auto
    next
      case False
      then show ?thesis using same that(1) by simp
    qed
    ultimately show ?thesis by (auto simp: closed_kept_def e(13,22) fin)
  qed
  moreover have "finance_ok (sd_finance db')" using e(18) by (simp add: e(21) completed_finance cancelled_at_most_def)
  ultimately show ?thesis using e(8) inv' can' billed by (simp add: shop_ok_def)
qed

section \<open>Histories\<close>

lemma windows_shop:
  assumes ok: "shop_ok db" and b: "windows_ok b" "bd_orders b = bd_orders (sd_board db)" "bd_deliveries b = bd_deliveries (sd_board db)"
    "bd_closures b = bd_closures (sd_board db)" "bd_tasks b = bd_tasks (sd_board db)" "bd_follow_ups b = bd_follow_ups (sd_board db)"
  shows "shop_ok (db\<lparr>sd_board := b\<rparr>) \<and> closed_kept db (db\<lparr>sd_board := b\<rparr>)"
proof -
  have "order_ok b od = order_ok (sd_board db) od" for od by (rule order_ok_tables) (fact b)+
  then have "board_ok b" using ok b by (simp add: shop_ok_def board_ok_def order_ids_ok_def)
  then show ?thesis using shop_board [OF ok _ b(2)] by blast
qed

lemma fully_booked_windows:
  assumes "set_fully_booked tzdb e now a w flag actor rid b = Inr (answer, b')" "windows_ok b"
  shows "windows_ok b' \<and> bd_orders b' = bd_orders b \<and> bd_deliveries b' = bd_deliveries b \<and> bd_closures b' = bd_closures b
    \<and> bd_tasks b' = bd_tasks b \<and> bd_follow_ups b' = bd_follow_ups b"
proof (cases "b' = b")
  case False
  let ?f = "\<lambda>r. if wi_id r = w then r\<lparr>wi_fully_booked := flag\<rparr> else r"
  obtain ev where b': "b' = add_event ev (b\<lparr>bd_windows := map ?f (bd_windows b)\<rparr>)"
    using assms(1) False unfolding set_fully_booked_def
    by (auto simp: then_res_Inr_iff Let_def split: option.splits if_splits)
  have f: "wi_id (?f r) = wi_id r" "wi_action_id (?f r) = wi_action_id r" for r by simp_all
  have inj: "inj_on wi_id (?f ` set (bd_windows b))"
  proof (rule inj_onI)
    fix x y assume x: "x \<in> ?f ` set (bd_windows b)" and y: "y \<in> ?f ` set (bd_windows b)" and xy: "wi_id x = wi_id y"
    obtain r s where r: "x = ?f r" "r \<in> set (bd_windows b)" and s: "y = ?f s" "s \<in> set (bd_windows b)" using x y by blast
    have "wi_id r = wi_id s" using xy unfolding r(1) s(1) f .
    moreover have "inj_on wi_id (set (bd_windows b))" using assms(2) by (simp add: windows_ok_def)
    ultimately have "r = s" using r(2) s(2) by (meson inj_onD)
    then show "x = y" by (simp only: r(1) s(1))
  qed
  have keyed: "\<exists>r' \<in> ?f ` set (bd_windows b). wi_id r' = v \<and> wi_action_id r' = a'"
    if "\<exists>r \<in> set (bd_windows b). wi_id r = v \<and> wi_action_id r = a'" for v a' using that f by blast
  have "windows_ok b'"
    using assms(2) keyed inj unfolding windows_ok_def b' by (simp add: add_event_def)
  then show ?thesis by (simp add: b' add_event_def)
qed (use assms in simp)

inductive shop_step :: "tz_database \<Rightarrow> tz \<Rightarrow> shop_db \<Rightarrow> shop_db \<Rightarrow> bool" for tzdb zone where
  tick: "set_state bc c delivered expected manager (sd_board db) = Inr (dp, b) \<Longrightarrow> fresh_call bc (sd_board db)
    \<Longrightarrow> shop_step tzdb zone db (db\<lparr>sd_board := b\<rparr>)"
| assign: "assign_driver active bc ids driver (sd_board db) = Inr (n, b) \<Longrightarrow> shop_step tzdb zone db (db\<lparr>sd_board := b\<rparr>)"
| close_board: "close_window bc w (sd_board db) = Inr (n, b) \<Longrightarrow> fresh_call bc (sd_board db)
    \<Longrightarrow> shop_step tzdb zone db (db\<lparr>sd_board := b\<rparr>)"
| reopen_board: "reopen_window bc w (sd_board db) = Inr (n, b) \<Longrightarrow> fresh_call bc (sd_board db)
    \<Longrightarrow> shop_step tzdb zone db (db\<lparr>sd_board := b\<rparr>)"
| plan: "delivery_configuration_init tzdb raw = Inr p \<Longrightarrow> save_configuration tzdb ev now actor rid p (sd_board db) = Inr (saved, b)
    \<Longrightarrow> shop_step tzdb zone db (db\<lparr>sd_board := b\<rparr>)"
| fully_booked: "set_fully_booked tzdb e now a w flag user rid (sd_board db) = Inr (saved, b)
    \<Longrightarrow> shop_step tzdb zone db (db\<lparr>sd_board := b\<rparr>)"
| create: "create_order_once tzdb oids cc source status d now db = Inr (od, db') \<Longrightarrow> status \<in> {Commitment_Draft, Review_Ready}
    \<Longrightarrow> shop_step tzdb zone db db'"
| draft: "complete_draft_once tzdb e cc as_manager c cp now db = Inr (od, db') \<Longrightarrow> shop_step tzdb zone db db'"
| completion: "complete_delivery_once tzdb e cc c cd now db = Inr (od, db') \<Longrightarrow> shop_step tzdb zone db db'"
| issue: "issue_once tzdb zone iids cc c service_on db = Inr (v, db') \<Longrightarrow> shop_step tzdb zone db db'"
| cancel: "cancel_order_once zone cids cc c rq fresh_login db = Inr (answer, db') \<Longrightarrow> fresh_cancellation cids cc db
    \<Longrightarrow> shop_step tzdb zone db db'"
| finance: "finance_step zone (sd_finance db) f \<Longrightarrow> dom (fd_invoices f) = dom (fd_invoices (sd_finance db))
    \<Longrightarrow> shop_step tzdb zone db (db\<lparr>sd_finance := f\<rparr>)"
| legal: "shop_step tzdb zone db (synchronize_invoice_profiles legals now db)"

lemma shop_step_ok:
  assumes "shop_step tzdb zone db db'" "shop_ok db"
  shows "shop_ok db' \<and> closed_kept db db'"
  using assms
proof (induction rule: shop_step.induct)
  case (tick bc c delivered expected manager db dp b)
  then have ok: "board_ok (sd_board db)" by (simp add: shop_ok_def)
  have "bd_orders b = bd_orders (sd_board db)"
    by (rule set_state_accepted [OF board_ok_ids [OF ok] tick(1)]) (auto simp: state_written_def)
  then show ?case using shop_board [OF tick(3) set_state_board_ok [OF ok tick(2,1)]] by blast
next
  case (assign active bc ids driver db n b)
  then have ok: "board_ok (sd_board db)" by (simp add: shop_ok_def)
  show ?case using shop_board [OF assign(2) assign_board_ok [OF ok assign(1)]] assign_accepted [OF assign(1)] by blast
next
  case (close_board bc w db n b)
  then have ok: "board_ok (sd_board db)" by (simp add: shop_ok_def)
  have "bd_orders b = bd_orders (sd_board db)"
    using close_accepted(2) [OF board_ok_ids [OF ok] close_board(1)] close_again [OF close_board(1)]
    by (cases "bd_closures (sd_board db) w") auto
  then show ?case using shop_board [OF close_board(3) close_board_ok [OF ok close_board(2,1)]] by blast
next
  case (reopen_board bc w db n b)
  then have ok: "board_ok (sd_board db)" by (simp add: shop_ok_def)
  have "bd_orders b = bd_orders (sd_board db)"
    using reopen_accepted(2) [OF board_ok_ids [OF ok] reopen_board(1)] reopen_again [OF reopen_board(1)]
    by (cases "bd_closures (sd_board db) w") auto
  then show ?case using shop_board [OF reopen_board(3) reopen_board_ok [OF ok reopen_board(2,1)]] by blast
next
  case (plan raw p ev now actor rid db saved b)
  then have "windows_ok (sd_board db)" by (simp add: shop_ok_def board_ok_def)
  from plan_saved [OF plan(1) this plan(2)] show ?case
    using windows_shop [OF plan(3)] by (auto simp: windows_extended_def)
next
  case (fully_booked e now a w flag user rid db saved b)
  then have "windows_ok (sd_board db)" by (simp add: shop_ok_def board_ok_def)
  from fully_booked_windows [OF fully_booked(1) this] show ?case using windows_shop [OF fully_booked(2)] by blast
next
  case (finance db f)
  then show ?case using shop_finance by blast
next
  case (legal db legals now)
  let ?db = "synchronize_invoice_profiles legals now db"
  have same: "sd_board ?db = sd_board db" "sd_finance ?db = sd_finance db" "sd_cancellations ?db = sd_cancellations db"
    "sd_invoice_of ?db = sd_invoice_of db" "sd_invoices ?db = sd_invoices db"
    by (simp_all add: synchronize_invoice_profiles_def)
  then have "order_billed ?db od = order_billed db od" for od by (simp add: order_billed_def)
  moreover have "invoices_ok ?db = invoices_ok db" "cancellations_ok ?db = cancellations_ok db" "closed_kept db ?db = closed_kept db db"
    by (simp_all add: same invoices_ok_def cancellations_ok_def closed_kept_def)
  ultimately show ?case using legal same closed_kept_refl by (simp add: shop_ok_def)
qed (rule create_shop draft_shop completion_shop issue_shop cancel_shop; assumption)+

lemma shop_steps_ok:
  "(shop_step tzdb zone)\<^sup>*\<^sup>* db db' \<Longrightarrow> shop_ok db \<Longrightarrow> shop_ok db' \<and> closed_kept db db'"
  by (induction rule: rtranclp_induct) (use closed_kept_refl closed_kept_trans shop_step_ok in blast)+

section \<open>Properties\<close>

lemma shop_ok_order:
  assumes "shop_ok db" "od \<in> set (bd_orders (sd_board db))"
  shows "cm_status od = Commitment_Cancelled \<longleftrightarrow> (\<exists>!k. k \<in> set (sd_cancellations db) \<and> oc_commitment_id k = cm_id od)"
    "cm_status od = Invoiced \<Longrightarrow> \<exists>i s. sd_invoice_of db (cm_id od) = Some i \<and> fd_invoices (sd_finance db) i = Some s"
    "cm_status od = Commitment_Cancelled \<Longrightarrow> row_state (sd_board db) (cm_id od) \<noteq> Drop_Delivered
       \<and> \<not> follow_up_open (bd_tasks (sd_board db)) (cm_id od)"
proof -
  have billed: "order_billed db od" and row: "order_ok (sd_board db) od"
    using assms by (simp_all add: shop_ok_def board_ok_def)
  have inj: "inj_on oc_commitment_id (set (sd_cancellations db))"
    using assms(1) by (simp add: shop_ok_def cancellations_ok_def distinct_map)
  show "cm_status od = Commitment_Cancelled \<longleftrightarrow> (\<exists>!k. k \<in> set (sd_cancellations db) \<and> oc_commitment_id k = cm_id od)"
  proof
    assume "cm_status od = Commitment_Cancelled"
    then have "cm_id od \<in> oc_commitment_id ` set (sd_cancellations db)" using billed by (simp add: order_billed_def)
    then obtain k where "cm_id od = oc_commitment_id k" "k \<in> set (sd_cancellations db)" by (rule imageE)
    then show "\<exists>!k. k \<in> set (sd_cancellations db) \<and> oc_commitment_id k = cm_id od"
      using inj by (intro ex1I [of _ k]) (auto dest: inj_onD)
  next
    assume "\<exists>!k. k \<in> set (sd_cancellations db) \<and> oc_commitment_id k = cm_id od"
    then have "cm_id od \<in> oc_commitment_id ` set (sd_cancellations db)" by (metis imageI)
    then show "cm_status od = Commitment_Cancelled" using billed by (simp add: order_billed_def)
  qed
  show "\<exists>i s. sd_invoice_of db (cm_id od) = Some i \<and> fd_invoices (sd_finance db) i = Some s" if inv: "cm_status od = Invoiced"
  proof -
    obtain i where i: "sd_invoice_of db (cm_id od) = Some i" using billed inv by (auto simp: order_billed_def)
    then have "i \<in> dom (fd_invoices (sd_finance db))"
      using assms(1) ranI [of "sd_invoice_of db" "cm_id od" i] unfolding shop_ok_def invoices_ok_def by blast
    then show ?thesis using i by blast
  qed
  show "cm_status od = Commitment_Cancelled \<Longrightarrow> row_state (sd_board db) (cm_id od) \<noteq> Drop_Delivered
       \<and> \<not> follow_up_open (bd_tasks (sd_board db)) (cm_id od)"
    using row by (simp add: order_ok_def)
qed

text \<open>
  C2: Whatever is captured, completed, delivered, closed, invoiced, paid, reversed and cancelled, in any order, the
  tables agree: an order is cancelled exactly if it has a cancellation row, and then exactly one; an order is
  invoiced only with an invoice and has none before; and a cancelled order is not delivered, has no
  open follow-up task, and its invoice is cancelled with nothing paid.
\<close>

theorem shop_history:
  assumes "shop_ok db" "(shop_step tzdb zone)\<^sup>*\<^sup>* db db'"
  shows "shop_ok db' \<and> (\<forall>od \<in> set (bd_orders (sd_board db')).
      (cm_status od = Commitment_Cancelled \<longleftrightarrow> (\<exists>!k. k \<in> set (sd_cancellations db') \<and> oc_commitment_id k = cm_id od))
    \<and> (cm_status od = Invoiced \<longrightarrow> (\<exists>i s. sd_invoice_of db' (cm_id od) = Some i \<and> fd_invoices (sd_finance db') i = Some s))
    \<and> (cm_status od \<notin> {Invoiced, Commitment_Cancelled} \<longrightarrow> sd_invoice_of db' (cm_id od) = None)
    \<and> (cm_status od = Commitment_Cancelled \<longrightarrow> row_state (sd_board db') (cm_id od) \<noteq> Drop_Delivered
        \<and> \<not> follow_up_open (bd_tasks (sd_board db')) (cm_id od)
        \<and> (\<forall>i. sd_invoice_of db' (cm_id od) = Some i \<longrightarrow> paid_minor (booked (sd_finance db') i) \<le> 0
            \<and> (\<exists>s. fd_invoices (sd_finance db') i = Some s \<and> ss_status s = Cancelled))))"
proof -
  have ok: "shop_ok db'" using shop_steps_ok [OF assms(2,1)] by blast
  have "order_billed db' od" if "od \<in> set (bd_orders (sd_board db'))" for od using ok that by (simp add: shop_ok_def)
  then show ?thesis using ok shop_ok_order [OF ok] unfolding order_billed_def by blast
qed

lemma sample_shop_ok: "shop_ok sample_shop"
  by (simp add: shop_ok_def board_ok_def order_ids_ok_def tasks_ok_def windows_ok_def order_ok_def sample_shop_def sample_board_def
      sample_reviewed_def sample_order_def row_state_def row_missed_def follow_up_open_def follow_up_task_def finance_ok_empty
      invoices_ok_def cancellations_ok_def order_billed_def) (simp add: empty_finance_def)

theorem shop_history_witness:
  "\<exists>db'. (shop_step sample_zones (fixed_zone 0))\<^sup>*\<^sup>* sample_shop db' \<and> length (sd_invoices db') = 1 \<and> shop_ok db'"
proof -
  obtain v db' where run: "issue_once sample_zones (fixed_zone 0) \<lparr>ii_invoice = 40, ii_audit = 41, ii_document = 42\<rparr> sample_bill 21 740000
     sample_shop = Inr (v, db')" "sd_invoices db' = [v]" using sample_shop_issue by blast
  have "(shop_step sample_zones (fixed_zone 0))\<^sup>*\<^sup>* sample_shop db'"
    using shop_step.issue [OF run(1)] by blast
  from this shop_history [OF sample_shop_ok this] run(2) show ?thesis by auto
qed


text \<open>
  What a cancellation writes: the order, one event, the follow-up task of the order with its audit, at most one invoice
  cancellation with its audit, the receipts of the two keys, one cancellation row and one activity.  Every other table,
  among them windows, closures, contexts, profiles, documents, offerings and assignments, and every older row of these
  tables stays as it is.
\<close>

definition cancellation_writes :: "pystr set \<Rightarrow> uuid \<Rightarrow> shop_db \<Rightarrow> shop_db \<Rightarrow> bool" where
  "cancellation_writes keys c db db' \<longleftrightarrow> (\<exists>os e g te iv ic rs au k av.
     db' = db\<lparr>sd_board := (sd_board db)\<lparr>bd_orders := os, bd_audit := bd_audit (sd_board db) @ [e],
         bd_tasks := (bd_tasks (sd_board db))\<lparr>
           td_tasks := map (\<lambda>x. if td_follow_ups (bd_tasks (sd_board db)) c = Some (tk_id x) then g x else x) (td_tasks (bd_tasks (sd_board db))),
           td_audit := td_audit (bd_tasks (sd_board db)) @ te\<rparr>\<rparr>,
       sd_finance := (sd_finance db)\<lparr>fd_invoices := iv, fd_cancellations := fd_cancellations (sd_finance db) @ ic, fd_receipts := rs,
         fd_audit := fd_audit (sd_finance db) @ au\<rparr>,
       sd_cancellations := sd_cancellations db @ [k], sd_activities := sd_activities db @ [av]\<rparr>
     \<and> be_event_type e = ''commitment_cancelled'' \<and> be_entity_id e = c \<and> av_event_type av = ''commitment_cancelled''
     \<and> (\<forall>x. tk_id (g x) = tk_id x \<and> tk_list_id (g x) = tk_list_id x \<and> tk_title (g x) = tk_title x
          \<and> tk_assignee_user_id (g x) = tk_assignee_user_id x \<and> tk_created_by (g x) = tk_created_by x)
     \<and> length te \<le> 1 \<and> length ic \<le> 1 \<and> length au = length ic \<and> (\<forall>x \<in> set ic. sd_invoice_of db c = Some (ic_invoice_id x))
     \<and> (\<forall>q. q \<notin> keys \<longrightarrow> rs q = fd_receipts (sd_finance db) q))"

lemma closed_follow_up_tables:
  assumes run: "close_order_follow_up zone ids cc od b = Inr b'" and on: "bd_follow_ups b"
  obtains g te where "b' = b\<lparr>bd_tasks := (bd_tasks b)\<lparr>
      td_tasks := map (\<lambda>x. if td_follow_ups (bd_tasks b) (cm_id od) = Some (tk_id x) then g x else x) (td_tasks (bd_tasks b)),
      td_audit := td_audit (bd_tasks b) @ te\<rparr>\<rparr>"
    "\<And>x. tk_id (g x) = tk_id x \<and> tk_list_id (g x) = tk_list_id x \<and> tk_title (g x) = tk_title x
       \<and> tk_assignee_user_id (g x) = tk_assignee_user_id x \<and> tk_created_by (g x) = tk_created_by x" "length te \<le> 1"
proof -
  note found = that
  have same: thesis if "b' = b"
    by (rule found [where g = "\<lambda>x. x" and te = "[]"]) (simp_all add: \<open>b' = b\<close>)
  show thesis
  proof (cases "cm_delivery_window_id od = None")
    case True
    then show thesis using run same by (simp add: close_order_follow_up_def)
  next
    case False
    then obtain rq where rq: "b' = b\<lparr>bd_tasks := sync ids rq (bd_tasks b)\<rparr>" "sy_commitment_id rq = cm_id od" "\<not> sy_needed rq"
      using run on by (auto simp: close_order_follow_up_def sync_follow_up_def res_simps)
    show thesis
    proof (cases "follow_up_task (bd_tasks b) (cm_id od)")
      case None
      then show thesis using rq same by (simp add: sync_def)
    next
      case (Some t)
      then have link: "td_follow_ups (bd_tasks b) (cm_id od) = Some (tk_id t)"
        by (auto simp: follow_up_task_def find_Some_iff split: option.splits)
      show thesis
      proof (cases "tk_status t = Task_Done")
        case True
        then show thesis using rq same Some by (simp add: sync_def)
      next
        case False
        let ?g = "\<lambda>x. x\<lparr>tk_status := Task_Done, tk_revision := tk_revision x + 1, tk_updated_at := sy_occurred_at rq,
          tk_description := append_note (tk_description x) (sy_closing_note rq)\<rparr>"
        obtain ev where "sync ids rq (bd_tasks b) = (bd_tasks b)\<lparr>
            td_tasks := map (\<lambda>x. if tk_id x = tk_id t then ?g x else x) (td_tasks (bd_tasks b)), td_audit := td_audit (bd_tasks b) @ [ev]\<rparr>"
          using Some False rq(2,3) by (simp add: sync_def task_audit_def update_task_def)
        then show thesis using rq(1)
          by (intro that [where g = ?g and te = "[ev]"]) (simp_all add: link eq_commute [where a = "tk_id t"])
      qed
    qed
  qed
qed

lemma cancelled_invoice_tables:
  assumes run: "cancel_invoice_of_order ids cc reason fresh_login invoice fdb = Inr (icid, fdb')"
    and unused: "fd_receipts fdb (inner_key (ci_cancellation ids)) = None"
  obtains iv ic rs au where "fdb' = fdb\<lparr>fd_invoices := iv, fd_cancellations := fd_cancellations fdb @ ic, fd_receipts := rs,
      fd_audit := fd_audit fdb @ au\<rparr>" "length ic \<le> 1" "length au = length ic"
    "\<And>x. x \<in> set ic \<Longrightarrow> \<exists>s r. invoice = Some s \<and> fd_invoices fdb (oi_id s) = Some r \<and> ic_invoice_id x = ss_id r"
    "\<And>q. q \<noteq> inner_key (ci_cancellation ids) \<Longrightarrow> rs q = fd_receipts fdb q"
proof (cases "fdb' = fdb")
  case True
  then show thesis
    by (intro that [where iv = "fd_invoices fdb" and ic = "[]" and rs = "fd_receipts fdb" and au = "[]"]) simp_all
next
  case False
  then obtain s hash k where s: "invoice = Some s" and step: "cancel_once (ci_invoice_cancellation ids) (ci_invoice_audit ids)
      (cc\<lparr>cc_idempotency_key := inner_key (ci_cancellation ids), cc_request_hash := hash\<rparr>) (oi_id s) reason fdb = Inr (k, fdb')"
    using run by (auto simp: cancel_invoice_of_order_def then_res_Inr_iff split: if_splits option.splits)
  let ?cc = "cc\<lparr>cc_idempotency_key := inner_key (ci_cancellation ids), cc_request_hash := hash\<rparr>"
  have new: "existing_command fdb ''cancel_invoice_v1'' ?cc ''cancellationId'' = Inr None" using unused by simp
  obtain r ic ev where r: "fd_invoices fdb (oi_id s) = Some r"
    "invoice_cancel_new (ci_invoice_cancellation ids) r reason (cc_actor_user_id cc) (cc_occurred_at cc) = Inr ic"
    "fdb' = complete_command ''cancel_invoice_v1'' ?cc ''cancellationId'' (ci_invoice_cancellation ids)
       (fdb\<lparr>fd_cancellations := fd_cancellations fdb @ [ic], fd_invoices := (fd_invoices fdb)(oi_id s \<mapsto> r\<lparr>ss_status := Cancelled\<rparr>),
         fd_audit := fd_audit fdb @ [ev]\<rparr>)"
    using step unfolding cancel_once_def new
    by (auto simp: then_res_Inr_iff invoice_state_Inr Let_def write_audit_def split: if_splits)
  show thesis
    by (rule that [where iv = "(fd_invoices fdb)(oi_id s \<mapsto> r\<lparr>ss_status := Cancelled\<rparr>)" and ic = "[ic]"
      and rs = "fd_receipts fdb'" and au = "[ev]"])
      (use r s invoice_cancel_new_Inr [OF r(2)] in \<open>auto simp: complete_command_def\<close>)
qed

lemma cancellation_tables:
  assumes ok: "shop_ok db" and fresh: "fresh_cancellation ids cc db"
    and run: "cancel_order_once zone ids cc c rq fresh_login db = Inr (answer, db')"
    and new: "fd_receipts (sd_finance db) (cc_idempotency_key cc) = None"
  shows "cancellation_writes {cc_idempotency_key cc, inner_key (ci_cancellation ids)} c db db'"
proof -
  let ?begun = "begin_command ''cancel_commitment_v1'' cc (sd_finance db)" and ?b = "sd_board db"
  obtain od icid f k qs bdb where e: "get_commitment db c False = Inr od"
    "cancel_invoice_of_order ids cc (cq_reason rq) fresh_login (invoice_of db c) ?begun = Inr (icid, f)"
    "close_order_follow_up zone (ci_follow_up ids) cc od (add_event (cancellation_event ids cc od k (invoice_of db c)
       (row_state ?b c)) (set_cancelled c ?b)) = Inr bdb"
    "db' = db\<lparr>sd_board := bdb, sd_finance := complete_command ''cancel_commitment_v1'' cc ''commitmentId'' c f,
       sd_cancellations := sd_cancellations db @ [k],
       sd_activities := sd_activities db @ [cancellation_activity ids cc od k (invoice_of db c) qs]\<rparr>"
    by (rule cancel_order_effect [OF run new]) (rule that)
  have id: "cm_id od = c" using e(1) by (rule get_commitment_row)
  have on: "bd_follow_ups (add_event (cancellation_event ids cc od k (invoice_of db c) (row_state ?b c)) (set_cancelled c ?b))"
    using ok by (simp add: shop_ok_def board_ok_def add_event_def)
  obtain g te where b: "bdb = (add_event (cancellation_event ids cc od k (invoice_of db c) (row_state ?b c)) (set_cancelled c ?b))
      \<lparr>bd_tasks := (bd_tasks ?b)\<lparr>
        td_tasks := map (\<lambda>x. if td_follow_ups (bd_tasks ?b) c = Some (tk_id x) then g x else x) (td_tasks (bd_tasks ?b)),
        td_audit := td_audit (bd_tasks ?b) @ te\<rparr>\<rparr>"
    "\<And>x. tk_id (g x) = tk_id x \<and> tk_list_id (g x) = tk_list_id x \<and> tk_title (g x) = tk_title x
       \<and> tk_assignee_user_id (g x) = tk_assignee_user_id x \<and> tk_created_by (g x) = tk_created_by x" "length te \<le> 1"
    by (rule closed_follow_up_tables [OF e(3) on]) (simp add: id add_event_def)
  have unused: "fd_receipts ?begun (inner_key (ci_cancellation ids)) = None"
    using fresh by (simp add: fresh_cancellation_def begin_command_def)
  obtain iv ic rs au where f: "f = ?begun\<lparr>fd_invoices := iv, fd_cancellations := fd_cancellations ?begun @ ic, fd_receipts := rs,
      fd_audit := fd_audit ?begun @ au\<rparr>" "length ic \<le> 1" "length au = length ic"
    "\<And>x. x \<in> set ic \<Longrightarrow> \<exists>s r. invoice_of db c = Some s \<and> fd_invoices ?begun (oi_id s) = Some r \<and> ic_invoice_id x = ss_id r"
    "\<And>q. q \<noteq> inner_key (ci_cancellation ids) \<Longrightarrow> rs q = fd_receipts ?begun q"
    by (rule cancelled_invoice_tables [OF e(2) unused]) (rule that)
  have "sd_invoice_of db c = Some (ic_invoice_id x)" if x: "x \<in> set ic" for x
  proof -
    obtain s r where s: "invoice_of db c = Some s" "fd_invoices (sd_finance db) (oi_id s) = Some r" "ic_invoice_id x = ss_id r"
      using f(4) [OF x] by (auto simp: begin_command_def)
    have fin: "finance_ok (sd_finance db)" using ok by (simp add: shop_ok_def)
    obtain i t where i: "sd_invoice_of db c = Some i" "fd_invoices (sd_finance db) i = Some t" "oi_id s = ss_id t"
      using s(1) by (auto simp: invoice_of_def Let_def bind_eq_Some_conv split: option.splits)
    have "ss_id t = i" "ss_id r = oi_id s" using finance_okD(2) [OF fin] i(2) s(2) by auto
    then show ?thesis using i s(3) by simp
  qed
  then show ?thesis
    unfolding cancellation_writes_def
    by (intro exI [of _ "bd_orders (set_cancelled c ?b)"] exI [of _ "cancellation_event ids cc od k (invoice_of db c) (row_state ?b c)"]
        exI [of _ g] exI [of _ te] exI [of _ iv] exI [of _ ic] exI [of _ "fd_receipts (sd_finance db')"] exI [of _ au] exI [of _ k]
        exI [of _ "cancellation_activity ids cc od k (invoice_of db c) qs"])
      (use b(2,3) f(2,3,5) in \<open>simp add: e(4) b(1) f(1) id add_event_def set_cancelled_def begin_command_def complete_command_def
        cancellation_event_def cancellation_activity_def\<close>)
qed

text \<open>
  C3: Cancelling an order is all or nothing.  It is accepted for an order of the action in the version the
  manager saw, not delivered, not cancelled, whose invoice, if there is one, is not paid and has no money on it, and with
  an issued or sent invoice only after a fresh login.  Then the order is cancelled with one cancellation
  row naming its former status and who cancelled it, its follow-up task is closed, its
  invoice is cancelled.  Besides these rows only the audit events, the activity, the invoice cancellation and the receipts
  that belong to them are written: nothing else in the database changes.
\<close>

theorem order_cancelled:
  assumes "shop_ok db" "fresh_cancellation ids cc db" "fd_receipts (sd_finance db) (cc_idempotency_key cc) = None"
    and "cancel_order_once zone ids cc c rq fresh_login db = Inr (answer, db')"
  shows "\<exists>row \<in> set (bd_orders (sd_board db)). cm_id row = c \<and> cm_action_id row = cc_action_id cc
    \<and> cm_status row \<in> cancellable_order_statuses \<and> row_state (sd_board db) c \<noteq> Drop_Delivered
    \<and> (\<exists>od. get_commitment db c False = Inr od \<and> delivery_completion_version od = Inr (cq_expected_version rq))
    \<and> bd_orders (sd_board db') = map (\<lambda>v. if cm_id v = c then v\<lparr>cm_status := Commitment_Cancelled\<rparr> else v) (bd_orders (sd_board db))
    \<and> (\<exists>k. sd_cancellations db' = sd_cancellations db @ [k] \<and> oc_commitment_id k = c
        \<and> oc_previous_status k = cm_status row \<and> oc_requested_by_user_id k = cc_actor_user_id cc)
    \<and> bd_deliveries (sd_board db') = bd_deliveries (sd_board db) \<and> \<not> follow_up_open (bd_tasks (sd_board db')) c
    \<and> (\<forall>d. d \<noteq> c \<longrightarrow> (follow_up_open (bd_tasks (sd_board db')) d \<longleftrightarrow> follow_up_open (bd_tasks (sd_board db)) d))
    \<and> (\<forall>i. sd_invoice_of db c = Some i \<longrightarrow> (\<exists>s. fd_invoices (sd_finance db) i = Some s \<and> ss_status s \<noteq> Paid
        \<and> paid_minor (booked (sd_finance db) i) \<le> 0 \<and> (ss_status s \<noteq> Cancelled \<longrightarrow> fresh_login)
        \<and> fd_invoices (sd_finance db') i = Some (s\<lparr>ss_status := Cancelled\<rparr>)))
    \<and> (\<forall>j. sd_invoice_of db c \<noteq> Some j \<longrightarrow> fd_invoices (sd_finance db') j = fd_invoices (sd_finance db) j)
    \<and> fd_payments (sd_finance db') = fd_payments (sd_finance db)
    \<and> cancellation_writes {cc_idempotency_key cc, inner_key (ci_cancellation ids)} c db db'"
proof (rule cancelled_order [OF assms(1,2,4,3)])
  fix row od k f
  assume e: "row \<in> set (bd_orders (sd_board db))" "cm_id row = c" "cm_action_id row = cc_action_id cc"
    "cm_status row \<in> cancellable_order_statuses" "row_state (sd_board db) c \<noteq> Drop_Delivered"
    "get_commitment db c False = Inr od" "delivery_completion_version od = Inr (cq_expected_version rq)"
    "bd_orders (sd_board db') = map (\<lambda>v. if cm_id v = c then v\<lparr>cm_status := Commitment_Cancelled\<rparr> else v) (bd_orders (sd_board db))"
    "bd_deliveries (sd_board db') = bd_deliveries (sd_board db)" "\<not> follow_up_open (bd_tasks (sd_board db')) c"
    "\<And>d. d \<noteq> c \<Longrightarrow> follow_up_open (bd_tasks (sd_board db')) d \<longleftrightarrow> follow_up_open (bd_tasks (sd_board db)) d"
    "sd_cancellations db' = sd_cancellations db @ [k]" "oc_commitment_id k = c"
    "oc_previous_status k = cm_status row" "oc_requested_by_user_id k = cc_actor_user_id cc"
    and most: "cancelled_at_most (sd_invoice_of db c) (sd_finance db) f"
    and bill: "\<And>i. sd_invoice_of db c = Some i \<Longrightarrow> \<exists>s. fd_invoices (sd_finance db) i = Some s \<and> ss_status s \<noteq> Paid
        \<and> paid_minor (booked (sd_finance db) i) \<le> 0 \<and> (ss_status s \<noteq> Cancelled \<longrightarrow> fresh_login)"
    and fin: "sd_finance db' = complete_command ''cancel_commitment_v1'' cc ''commitmentId'' c f"
  have "\<exists>s. fd_invoices (sd_finance db) i = Some s \<and> ss_status s \<noteq> Paid
        \<and> paid_minor (booked (sd_finance db) i) \<le> 0 \<and> (ss_status s \<noteq> Cancelled \<longrightarrow> fresh_login)
        \<and> fd_invoices (sd_finance db') i = Some (s\<lparr>ss_status := Cancelled\<rparr>)" if "sd_invoice_of db c = Some i" for i
    using bill [OF that] most that by (auto simp: fin cancelled_at_most_def)
  moreover have "fd_invoices (sd_finance db') j = fd_invoices (sd_finance db) j" if "sd_invoice_of db c \<noteq> Some j" for j
    using most that by (simp add: fin cancelled_at_most_def)
  moreover have "fd_payments (sd_finance db') = fd_payments (sd_finance db)" using most by (simp add: fin cancelled_at_most_def)
  ultimately show ?thesis using e cancellation_tables [OF assms(1,2,4,3)] by (intro bexI [OF _ e(1)]) auto
qed

section \<open>The properties at a concrete order\<close>

definition sample_cancel_shop :: shop_db where
  "sample_cancel_shop = sample_shop\<lparr>sd_board := (sd_board sample_shop)\<lparr>bd_names := (\<lambda>_. Some (lit ''Eva''))\<rparr>\<rparr>"

definition sample_cancel_ids :: cancel_ids where
  "sample_cancel_ids = \<lparr>ci_cancellation = 60, ci_invoice_cancellation = 61, ci_invoice_audit = 62, ci_audit = 63, ci_activity = 64,
     ci_follow_up = \<lparr>fi_list = 65, fi_task = 66, fi_audit = 67\<rparr>\<rparr>"

lemma sample_cancel_reason: "normalize_reason (lit ''Doppelt erfasst'') = Inr (lit ''Doppelt erfasst'')"
  by code_simp

lemma sample_cancel_shop_ok: "shop_ok sample_cancel_shop"
proof -
  have "board_ok (sd_board sample_cancel_shop)"
    using sample_shop_ok by (simp add: sample_cancel_shop_def shop_ok_def board_ok_def order_ids_ok_def windows_ok_def order_ok_def
        row_state_def row_missed_def)
  then show ?thesis using shop_board(1) [OF sample_shop_ok] by (simp add: sample_cancel_shop_def)
qed

lemma sample_reviewed_version: "\<exists>v. delivery_completion_version sample_reviewed = Inr v"
  unfolding delivery_completion_version_def by (rule text_digest_total) code_simp

lemma sample_reviewed_quantities: "\<exists>qs. commitment_quantities sample_reviewed = Inr qs"
  using order_quantities [OF sample_reviewed_lines] by blast

definition sample_cancel_request :: "pystr \<Rightarrow> cancellation_request" where
  "sample_cancel_request v = \<lparr>cq_expected_version = v, cq_reason = lit ''Doppelt erfasst'', cq_note = None\<rparr>"

lemma sample_cancelled:
  "\<exists>v answer db'. cancel_order_once (fixed_zone 0) sample_cancel_ids sample_capture 21 (sample_cancel_request v) False sample_cancel_shop
     = Inr (answer, db') \<and> fd_receipts (sd_finance db') [] = None"
proof -
  obtain v qs where v: "delivery_completion_version sample_reviewed = Inr v" "commitment_quantities sample_reviewed = Inr qs"
    using sample_reviewed_version sample_reviewed_quantities by blast
  let ?gone = "sample_reviewed\<lparr>cm_status := Commitment_Cancelled\<rparr>"
  have shop: "bd_orders (sd_board sample_cancel_shop) = [sample_reviewed]" "sd_finance sample_cancel_shop = empty_finance"
    "bd_contexts (sd_board sample_cancel_shop) = bd_contexts (sd_board sample_shop)" "sd_invoice_of sample_cancel_shop = Map.empty"
    "sd_cancellations sample_cancel_shop = []" "bd_deliveries (sd_board sample_cancel_shop) = bd_deliveries (sd_board sample_shop)"
    "bd_names (sd_board sample_cancel_shop) = (\<lambda>_. Some (lit ''Eva''))" "row_state (sd_board sample_cancel_shop) 21 = Drop_Open"
    by (simp_all add: sample_cancel_shop_def sample_shop_def sample_board_def row_state_def)
  have receipts: "fd_receipts empty_finance = Map.empty" by (simp add: empty_finance_def)
  have reviewed: "cm_id sample_reviewed = 21" "cm_action_id sample_reviewed = 1" "cm_status sample_reviewed = Review_Ready"
    "cm_delivery_window_id sample_reviewed = None" "sample_reviewed\<lparr>cm_replayed := False\<rparr> = sample_reviewed"
    "sample_reviewed\<lparr>cm_status := Commitment_Cancelled, cm_replayed := False\<rparr> = ?gone"
    by (simp_all add: sample_reviewed_def sample_order_def)
  have gone: "commitment_init ?gone = Inr ?gone"
    using sample_reviewed_wf by (intro commitment.post_init_id) (simp add: wf_commitment_def delivery_snapshot_ok_def)
  have row: "order_row sample_cancel_shop 1 21 = Some sample_reviewed" by (simp add: order_row_def shop reviewed)
  have od: "get_commitment sample_cancel_shop 21 False = Inr sample_reviewed"
    by (simp add: get_commitment_def shop reviewed commitment.post_init_id [OF sample_reviewed_wf])
  have bill: "invoice_of sample_cancel_shop 21 = None" by (simp add: invoice_of_def shop)
  have free: "cancellation_block Review_Ready False None = None"
    by (simp add: cancellation_block_def cancellable_order_statuses_def)
  have names: "require_aware (utc 10) = Inr ()" "[] \<noteq> cc_idempotency_key sample_capture"
    by (simp_all add: sample_capture_def sample_bill_def lit_def)
  have names': "normalize_note None = Inr None" by (simp add: normalize_note_def)
  have new: "existing_command empty_finance kind sample_capture key = Inr None" for kind key
    by (simp add: existing_command_def receipts del: existing_command_new)
  have "\<exists>answer db'. cancel_order_once (fixed_zone 0) sample_cancel_ids sample_capture 21 (sample_cancel_request v) False sample_cancel_shop
     = Inr (answer, db') \<and> fd_receipts (sd_finance db') [] = None"
    by (simp add: cancel_order_once_def sample_capture_facts shop row od bill reviewed free new v sample_cancel_request_def
        cancel_invoice_of_order_def order_cancellation_init_def sample_cancel_reason normalize_note_def cancellable_order_statuses_def
        close_order_follow_up_def sample_action_def Let_def del: existing_command_new)
      (simp add: cancellation_answer_def get_commitment_def get_order_cancellation_def add_event_def set_cancelled_def shop reviewed gone names complete_command_def begin_command_def receipts
        order_cancellation_init_def sample_cancel_reason normalize_note_def cancellable_order_statuses_def)
  then show ?thesis by blast
qed

lemma sample_cancel_fresh: "fresh_cancellation sample_cancel_ids sample_capture sample_cancel_shop"
  by (simp add: fresh_cancellation_def sample_cancel_ids_def sample_cancel_shop_def sample_shop_def sample_board_def sample_capture_def
      sample_bill_def inner_key_def empty_finance_def lit_def)

theorem order_cancelled_witness:
  "\<exists>v answer db'. cancel_order_once (fixed_zone 0) sample_cancel_ids sample_capture 21 (sample_cancel_request v) False sample_cancel_shop
     = Inr (answer, db') \<and> (\<exists>k. sd_cancellations db' = [k] \<and> oc_commitment_id k = 21 \<and> oc_previous_status k = Review_Ready)"
proof -
  obtain v answer db' where run: "cancel_order_once (fixed_zone 0) sample_cancel_ids sample_capture 21 (sample_cancel_request v) False
     sample_cancel_shop = Inr (answer, db')" using sample_cancelled by blast
  have shop: "sd_cancellations sample_cancel_shop = []" "bd_orders (sd_board sample_cancel_shop) = [sample_reviewed]"
    "fd_receipts (sd_finance sample_cancel_shop) (cc_idempotency_key sample_capture) = None" "cm_status sample_reviewed = Review_Ready"
    by (simp_all add: sample_cancel_shop_def sample_shop_def empty_finance_def sample_board_def sample_reviewed_def sample_order_def)
  show ?thesis
    using run order_cancelled [OF sample_cancel_shop_ok sample_cancel_fresh shop(3) run] by (auto simp: shop)
qed


end
