(* ===== verification/Iso_Roundtrip.thy ===== *)
theory Iso_Roundtrip
  imports Iso_Time
begin

text \<open>
  What \<^verbatim>\<open>isoformat\<close> writes, \<^verbatim>\<open>fromisoformat\<close> reads back: the calendar of \<^verbatim>\<open>fromordinal\<close> against the one of
  \<^verbatim>\<open>toordinal\<close>, and the fields of the text.
\<close>

section \<open>The calendar\<close>

definition month_and_day :: "bool \<Rightarrow> int \<Rightarrow> int \<times> int" where
  "month_and_day leap k = (let month = (k + 50) div 32;
       preceding = days_before_month ! nat (month - 1) + (if month > 2 \<and> leap then 1 else 0)
     in if preceding > k
        then (month - 1, k - (preceding - (days_in_month ! nat (month - 2) + (if month - 1 = 2 \<and> leap then 1 else 0))) + 1)
        else (month, k - preceding + 1))"

definition day_of_year :: "bool \<Rightarrow> int \<Rightarrow> int \<Rightarrow> int" where
  "day_of_year leap m d = days_before_month ! nat (m - 1) + (if m > 2 \<and> leap then 1 else 0) + d"

definition month_and_day_ok :: "bool \<Rightarrow> int \<Rightarrow> bool" where
  "month_and_day_ok leap k = (case month_and_day leap k of (m, d) \<Rightarrow>
     1 \<le> m \<and> m \<le> 12 \<and> 1 \<le> d \<and> d \<le> (if m = 2 \<and> leap then 29 else days_in_month ! nat (m - 1)) \<and> day_of_year leap m d = k + 1)"

lemma all_days: "list_all (month_and_day_ok True) [0..364]" "list_all (month_and_day_ok False) [0..364]"
  by code_simp+

lemma each_day: "0 \<le> k \<Longrightarrow> k < 365 \<Longrightarrow> month_and_day_ok leap k"
  using all_days by (cases leap) (simp_all add: list_all_iff)


text \<open>A day count as centuries, four-year groups, years and days.\<close>

lemma day_parts:
  fixes n :: int
  assumes "0 \<le> n"
  obtains q r s t k where "n = 146097 * q + 36524 * r + 1461 * s + 365 * t + k" "0 \<le> q" "q = n div 146097"
    "r = n mod 146097 div 36524" "s = n mod 146097 mod 36524 div 1461" "t = n mod 146097 mod 36524 mod 1461 div 365"
    "k = n mod 146097 mod 36524 mod 1461 mod 365" "0 \<le> r" "r \<le> 4" "0 \<le> s" "s \<le> 24" "0 \<le> t" "t \<le> 4" "0 \<le> k" "k < 365"
    "r = 4 \<longrightarrow> s = 0 \<and> t = 0 \<and> k = 0" "t = 4 \<longrightarrow> k = 0" "t = 4 \<longrightarrow> s \<noteq> 24 \<or> r = 3"
proof -
  define q a r b s c t k where parts: "q = n div 146097" "a = n mod 146097" "r = a div 36524" "b = a mod 36524"
    "s = b div 1461" "c = b mod 1461" "t = c div 365" "k = c mod 365"
  have n: "n = 146097 * q + a" and a: "a = 36524 * r + b" and b: "b = 1461 * s + c" and c: "c = 365 * t + k"
    unfolding parts by simp_all
  have bounds: "0 \<le> q" "0 \<le> a" "a < 146097" "0 \<le> b" "b < 36524" "0 \<le> c" "c < 1461" "0 \<le> k" "k < 365"
    unfolding parts using assms by simp_all
  have more: "0 \<le> r" "r \<le> 4" "0 \<le> s" "s \<le> 24" "0 \<le> t" "t \<le> 4" using a b c bounds by linarith+
  have last: "r = 4 \<Longrightarrow> b = 0" "t = 4 \<Longrightarrow> k = 0" "s = 24 \<Longrightarrow> c \<le> 1459" using a b c bounds by linarith+
  have ends: "r = 4 \<longrightarrow> s = 0 \<and> t = 0 \<and> k = 0" "t = 4 \<longrightarrow> k = 0" "t = 4 \<longrightarrow> s \<noteq> 24 \<or> r = 3"
    using last b c bounds more by linarith+
  have sum: "n = 146097 * q + 36524 * r + 1461 * s + 365 * t + k" using n a b c by simp
  have defs: "q = n div 146097" "r = n mod 146097 div 36524" "s = n mod 146097 mod 36524 div 1461"
    "t = n mod 146097 mod 36524 mod 1461 div 365" "k = n mod 146097 mod 36524 mod 1461 mod 365" by (simp_all only: parts)
  show ?thesis by (rule that [OF sum bounds(1) defs more bounds(8,9) ends])
qed

lemma year_parts:
  fixes q r s t :: int
  assumes "0 \<le> q" "0 \<le> r" "r \<le> 3" "0 \<le> s" "s \<le> 24" "0 \<le> t" "t \<le> 3"
  defines "y \<equiv> q * 400 + 1 + r * 100 + s * 4 + t"
  shows "days_before_year y = 146097 * q + 36524 * r + 1461 * s + 365 * t"
    "leap_year y \<longleftrightarrow> t = 3 \<and> (s \<noteq> 24 \<or> r = 3)"
proof -
  have p: "y - 1 = 400 * q + 100 * r + 4 * s + t" by (simp add: y_def)
  have "y - 1 = 4 * (100 * q + 25 * r + s) + t" "y - 1 = 100 * (4 * q + r) + (4 * s + t)" "y - 1 = 400 * q + (100 * r + 4 * s + t)"
    using p by simp_all
  from int_div_pos_eq [OF this(1)] int_div_pos_eq [OF this(2)] int_div_pos_eq [OF this(3)]
  have divs: "(y - 1) div 4 = 100 * q + 25 * r + s" "(y - 1) div 100 = 4 * q + r" "(y - 1) div 400 = q"
    using assms(1-7) by simp_all
  show "days_before_year y = 146097 * q + 36524 * r + 1461 * s + 365 * t"
    unfolding days_before_year_def Let_def divs by (simp add: p)
  have four: "y mod 4 = 0 \<longleftrightarrow> t = 3"
    using int_mod_pos_eq [of y 4 "100 * q + 25 * r + s" "t + 1"] assms(6,7) p by (cases "t = 3") auto
  have hundred: "y mod 100 = 0 \<longleftrightarrow> s = 24 \<and> t = 3"
    using int_mod_pos_eq [of y 100 "4 * q + r" "4 * s + t + 1"] assms(4-7) p by (cases "s = 24 \<and> t = 3") auto
  have four_hundred: "y mod 400 = 0 \<longleftrightarrow> r = 3 \<and> s = 24 \<and> t = 3"
    using int_mod_pos_eq [of y 400 q "100 * r + 4 * s + t + 1"] assms(2-7) p by (cases "r = 3 \<and> s = 24 \<and> t = 3") auto
  note mods = four hundred four_hundred
  show "leap_year y \<longleftrightarrow> t = 3 \<and> (s \<noteq> 24 \<or> r = 3)" unfolding leap_year_def mods by blast
qed

lemma ymd_ordinal:
  assumes "1 \<le> d" "d \<le> max_date"
  obtains y m dd where "ymd d = (y, m, dd)" "ordinal (y, m, dd) = d" "1 \<le> y" "y \<le> 9999" "1 \<le> m" "m \<le> 12" "1 \<le> dd" "dd \<le> month_days y m"
proof -
  have "0 \<le> d - 1" using assms by simp
  then obtain q r s t k where n: "d - 1 = 146097 * q + 36524 * r + 1461 * s + 365 * t + k" "0 \<le> q"
    and parts: "q = (d - 1) div 146097" "r = (d - 1) mod 146097 div 36524" "s = (d - 1) mod 146097 mod 36524 div 1461"
      "t = (d - 1) mod 146097 mod 36524 mod 1461 div 365" "k = (d - 1) mod 146097 mod 36524 mod 1461 mod 365"
    and b: "0 \<le> r" "r \<le> 4" "0 \<le> s" "s \<le> 24" "0 \<le> t" "t \<le> 4" "0 \<le> k" "k < 365"
    and last: "r = 4 \<longrightarrow> s = 0 \<and> t = 0 \<and> k = 0" "t = 4 \<longrightarrow> k = 0" "t = 4 \<longrightarrow> s \<noteq> 24 \<or> r = 3"
    by (rule day_parts)
  let ?y = "q * 400 + 1 + r * 100 + s * 4 + t"
  have eq: "ymd d = (if t = 4 \<or> r = 4 then (?y - 1, 12, 31)
      else case month_and_day (t = 3 \<and> (s \<noteq> 24 \<or> r = 3)) k of (m, dd) \<Rightarrow> (?y, m, dd))"
    unfolding ymd_def Let_def parts [symmetric] month_and_day_def by simp
  show ?thesis
  proof (cases "t = 4 \<or> r = 4")
    case True
    have ends: "r = 4 \<and> s = 0 \<and> t = 0 \<and> k = 0 \<or> r \<le> 3 \<and> t = 4 \<and> k = 0 \<and> (s \<noteq> 24 \<or> r = 3)" using True last b by linarith
    define r' s' :: int where "r' = (if r = 4 then 3 else r)" and "s' = (if r = 4 then 24 else s)"
    have r': "0 \<le> r'" "r' \<le> 3" "0 \<le> s'" "s' \<le> 24" "?y - 1 = q * 400 + 1 + r' * 100 + s' * 4 + 3" "s' \<noteq> 24 \<or> r' = 3"
      "d = 146097 * q + 36524 * r' + 1461 * s' + 1461"
      using ends b n(1) by (auto simp: r'_def s'_def)
    have three: "(0::int) \<le> 3" "(3::int) \<le> 3" by simp_all
    note y = year_parts [OF n(2) r'(1-4) three]
    have leap: "leap_year (?y - 1)" unfolding r'(5) y(2) using r'(6) by simp
    have before: "days_before_year (?y - 1) = 146097 * q + 36524 * r' + 1461 * s' + 365 * 3" unfolding r'(5) y(1) ..
    have "ordinal (?y - 1, 12, 31) = d" unfolding ordinal_def prod.case before using leap r'(7) by (simp add: days_before_month_def)
    moreover have "month_days (?y - 1) 12 = 31" by (simp add: month_days_def days_in_month_def)
    moreover have "1 \<le> ?y - 1" "?y - 1 \<le> 9999" using r' n(2) assms(2) unfolding max_date_def by linarith+
    ultimately show ?thesis using that [of "?y - 1" 12 31] eq True by simp
  next
    case False
    then have r: "r \<le> 3" "t \<le> 3" using b by auto
    note y = year_parts [OF n(2) b(1) r(1) b(3,4,5) r(2)]
    obtain m dd where md: "month_and_day (t = 3 \<and> (s \<noteq> 24 \<or> r = 3)) k = (m, dd)" by (metis surj_pair)
    have ok: "1 \<le> m" "m \<le> 12" "1 \<le> dd" "dd \<le> (if m = 2 \<and> leap_year ?y then 29 else days_in_month ! nat (m - 1))"
      "day_of_year (leap_year ?y) m dd = k + 1"
      using each_day [OF b(7,8), of "t = 3 \<and> (s \<noteq> 24 \<or> r = 3)"] unfolding month_and_day_ok_def md prod.case y(2) by blast+
    have "ordinal (?y, m, dd) = d" using ok(5) n(1) y(1) by (simp add: ordinal_def day_of_year_def)
    moreover have "?y \<le> 9999" using n assms(2) b r unfolding max_date_def by linarith
    moreover have "1 \<le> ?y" using n(2) b by linarith
    moreover have "dd \<le> month_days ?y m" using ok(4) by (simp add: month_days_def)
    ultimately show ?thesis using that [of ?y m dd] eq False md ok(1-3) by simp
  qed
qed


section \<open>The text\<close>

lemma iso_number_padded: "0 < w \<Longrightarrow> iso_number (zero_padded w n) = Some (int n)"
proof -
  assume w: "0 < w"
  have "foldl (\<lambda>a c. 10 * a + (c - 48)) 0 s = digits_value s" for s by (simp add: digits_value_def mult.commute)
  moreover have "digits_value (zero_padded w n) = int n" by (simp add: zero_padded_def digits_value_zeros digits_value_nat)
  moreover have "nat_digits n \<noteq> []" by (subst nat_digits.simps) simp
  then have "zero_padded w n \<noteq> []" by (simp add: zero_padded_def)
  ultimately show ?thesis using zero_padded_09 [of w n] by (simp add: iso_number_def)
qed

lemma iso_field_padded:
  assumes "0 < w" "int n < 10 ^ w" "lo \<le> int n" "int n \<le> hi"
  shows "iso_field w lo hi (zero_padded w n @ s) = Some (int n)"
proof -
  have "n < 10 ^ w" using assms(2) by (metis of_nat_less_iff of_nat_numeral of_nat_power)
  then have "length (zero_padded w n) = w" using zero_padded_length [OF assms(1)] by blast
  then show ?thesis using iso_number_padded [OF assms(1), of n] assms(3,4) by (simp add: iso_field_def)
qed

lemma two_field: "0 \<le> n \<Longrightarrow> n < 100 \<Longrightarrow> lo \<le> n \<Longrightarrow> n \<le> hi \<Longrightarrow> iso_field 2 lo hi (two n @ s) = Some n"
  using iso_field_padded [of 2 "nat n" lo hi s] by (simp add: two_def)

lemma two_length: "0 \<le> n \<Longrightarrow> n < 100 \<Longrightarrow> length (two n) = 2"
  by (simp add: two_def zero_padded_length)

lemma two_digits: "list_all is_09 (two n)"
  by (simp add: two_def zero_padded_09)

lemma read_iso_date:
  assumes "1 \<le> d" "d \<le> max_date"
  shows "read_date (iso_date d) = Some d" "length (iso_date d) = 10"
proof -
  obtain y m dd where parts: "ymd d = (y, m, dd)" "ordinal (y, m, dd) = d" "1 \<le> y" "y \<le> 9999" "1 \<le> m" "m \<le> 12" "1 \<le> dd" "dd \<le> month_days y m"
    by (rule ymd_ordinal [OF assms])
  have month_max: "month_days y m \<le> 31"
  proof -
    have "nat (m - 1) < 12" using parts(5,6) by simp
    then have "days_in_month ! nat (m - 1) \<le> 31" by (simp add: days_in_month_def nth_Cons' split: if_splits)
    then show ?thesis by (simp add: month_days_def)
  qed
  have y: "length (zero_padded 4 (nat y)) = 4" using parts(4) by (intro zero_padded_length) auto
  have lens: "length (two m) = 2" "length (two dd) = 2" using parts month_max by (auto intro!: two_length)
  have written: "iso_date d = zero_padded 4 (nat y) @ [45] @ two m @ [45] @ two dd" by (simp add: iso_date_def parts(1))
  show len: "length (iso_date d) = 10" by (simp add: written y lens)
  have marks: "iso_date d ! 4 = 45" "iso_date d ! 7 = 45" using y lens by (simp_all add: written nth_append)
  have fields: "iso_field 4 1 9999 (iso_date d) = Some y" "iso_field 2 1 12 (drop 5 (iso_date d)) = Some m"
    "iso_field 2 1 (month_days y m) (drop 8 (iso_date d)) = Some dd"
    using iso_field_padded [of 4 "nat y" 1 9999] parts two_field [of m 1 12] two_field [of dd 1 "month_days y m" "[]"] month_max y lens
    by (simp_all add: written)
  show "read_date (iso_date d) = Some d" using len marks fields parts(2) by (simp add: read_date_def)
qed

text \<open>The clock, written with seconds or, in an offset, without.\<close>

definition clock_text :: "int \<Rightarrow> pystr" where
  "clock_text us = (let s = us div 1000000; f = us mod 1000000 in
     two (s div 3600) @ [58] @ two (s div 60 mod 60) @ (if s mod 60 = 0 \<and> f = 0 then []
       else [58] @ two (s mod 60) @ (if f = 0 then [] else [46] @ zero_padded 6 (nat f))))"

lemma read_fraction_padded: "0 \<le> f \<Longrightarrow> f < 1000000 \<Longrightarrow> read_fraction (46 # zero_padded 6 (nat f)) = Some f"
  using zero_padded_length [of 6 "nat f"] iso_number_padded [of 6 "nat f"] by (simp add: read_fraction_def)

lemma clock_parts:
  fixes us :: int
  assumes "0 \<le> us" "us < day_us"
  shows "0 \<le> us div 1000000 div 3600" "us div 1000000 div 3600 \<le> 23" "us div 1000000 div 60 mod 60 \<le> 59"
    "((us div 1000000 div 3600 * 60 + us div 1000000 div 60 mod 60) * 60 + us div 1000000 mod 60) * 1000000 + us mod 1000000 = us"
proof -
  define s where "s = us div 1000000"
  have split: "us = s * 1000000 + us mod 1000000" by (simp add: s_def)
  then have s: "0 \<le> s" "s < 86400" "us = s * 1000000 + us mod 1000000"
    using assms pos_mod_sign [of 1000000 us] pos_mod_bound [of 1000000 us] unfolding day_us_def by linarith+
  show "0 \<le> us div 1000000 div 3600" "us div 1000000 div 3600 \<le> 23" using s by (simp_all add: s_def [symmetric])
  show "us div 1000000 div 60 mod 60 \<le> 59" using pos_mod_bound [of 60 "us div 1000000 div 60"] by linarith
  have "s div 60 div 60 = s div 3600" by (simp add: zdiv_zmult2_eq [symmetric])
  then have "(s div 3600 * 60 + s div 60 mod 60) * 60 + s mod 60 = s" by (metis div_mult_mod_eq)
  then show "((us div 1000000 div 3600 * 60 + us div 1000000 div 60 mod 60) * 60 + us div 1000000 mod 60) * 1000000 + us mod 1000000 = us"
    using s(3) by (simp add: s_def [symmetric])
qed

lemma read_clock_long:
  assumes "0 \<le> h" "h \<le> 23" "0 \<le> m" "m \<le> 59" "0 \<le> s" "s \<le> 59" "0 \<le> f" "f < 1000000"
  shows "read_clock (two h @ [58] @ two m @ [58] @ two s @ (if f = 0 then [] else [46] @ zero_padded 6 (nat f)))
      = Some (((h * 60 + m) * 60 + s) * 1000000 + f)" (is "read_clock ?t = _")
proof -
  have lens: "length (two h) = 2" "length (two m) = 2" "length (two s) = 2" using assms by (auto intro!: two_length)
  have fields: "iso_field 2 0 23 ?t = Some h" "iso_field 2 0 59 (drop 3 ?t) = Some m" "iso_field 2 0 59 (drop 6 ?t) = Some s"
    using two_field [of h 0 23] two_field [of m 0 59] two_field [of s 0 59] assms lens by simp_all
  have rest: "drop 8 ?t = (if f = 0 then [] else [46] @ zero_padded 6 (nat f))" "?t ! 2 = 58" "?t ! 5 = 58" "8 \<le> length ?t"
    using lens by (simp_all add: nth_append)
  have "read_fraction (drop 8 ?t) = Some f"
    using read_fraction_padded [of f] assms(7,8) unfolding rest(1) by (simp add: read_fraction_def)
  then show ?thesis using fields rest(2-4) by (simp add: read_clock_def del: drop_append append.simps)
qed

lemma read_clock_short:
  assumes "0 \<le> h" "h \<le> 23" "0 \<le> m" "m \<le> 59"
  shows "read_clock (two h @ [58] @ two m) = Some ((h * 60 + m) * 60 * 1000000)"
proof -
  have lens: "length (two h) = 2" "length (two m) = 2" using assms by (auto intro!: two_length)
  then show ?thesis
    using two_field [of h 0 23] two_field [of m 0 59 "[]"] assms by (simp add: read_clock_def nth_append)
qed

lemma read_clock_text:
  assumes "0 \<le> us" "us < day_us"
  shows "read_clock (iso_clock us) = Some us" "read_clock (clock_text us) = Some us"
proof -
  have m: "0 \<le> us div 1000000 div 60 mod 60" "0 \<le> us div 1000000 mod 60" "us div 1000000 mod 60 \<le> 59" "0 \<le> us mod 1000000" "us mod 1000000 < 1000000"
    using pos_mod_bound [of 60 "us div 1000000"] by simp_all
  note p = clock_parts [OF assms]
  note long = read_clock_long [OF p(1,2) m(1) p(3) m(2-5), unfolded p(4)]
  show "read_clock (iso_clock us) = Some us" using long by (simp add: iso_clock_def Let_def)
  show "read_clock (clock_text us) = Some us"
  proof (cases "us div 1000000 mod 60 = 0 \<and> us mod 1000000 = 0")
    case True
    then show ?thesis using read_clock_short [OF p(1,2) m(1) p(3)] p(4) by (simp add: clock_text_def Let_def)
  next
    case False
    then show ?thesis using long by (auto simp: clock_text_def Let_def)
  qed
qed

lemma iso_offset_text: "iso_offset off = (if off < 0 then 45 else 43) # clock_text \<bar>off\<bar>"
  by (simp add: iso_offset_def clock_text_def Let_def)

lemma unmarked: "list_all is_09 s \<Longrightarrow> list_all (\<lambda>c. c \<noteq> 43 \<and> c \<noteq> 45) s"
  by (auto simp: list_all_iff is_09_def)

lemma iso_clock_marks: "list_all (\<lambda>c. c \<noteq> 43 \<and> c \<noteq> 45) (iso_clock us)"
  using unmarked [OF two_digits] unmarked [OF zero_padded_09] by (simp add: iso_clock_def Let_def)

text \<open>
  A time is read back as it was written.  For every moment Python can hold, naive or with an offset below a day,
  \<^verbatim>\<open>fromisoformat\<close> of its \<^verbatim>\<open>isoformat\<close> is the same wall clock reading with the same offset; so two
  moments are never stored as the same text.
\<close>

lemma iso_roundtrip:
  assumes "in_range (wall d)" "case utc_offset d of None \<Rightarrow> True | Some off \<Rightarrow> \<bar>off\<bar> < day_us"
  shows "from_iso (iso_datetime d) = Inr d"
proof -
  let ?day = "date_of_wall (wall d)" and ?us = "wall d mod day_us"
  have day: "1 \<le> ?day" "?day \<le> max_date"
    using assms(1) pos_imp_zdiv_nonneg_iff [of day_us "wall d"] by (auto simp: in_range_def date_of_wall_def day_us_def max_date_def)
  have us: "0 \<le> ?us" "?us < day_us" by (simp_all add: day_us_def)
  define offset where "offset = (case utc_offset d of None \<Rightarrow> [] | Some off \<Rightarrow> iso_offset off)"
  have rest: "iso_datetime d = iso_date ?day @ [84] @ iso_clock ?us @ offset" by (simp add: iso_datetime_def offset_def)
  have "takeWhile (\<lambda>c. c \<noteq> 43 \<and> c \<noteq> 45) (iso_clock ?us @ offset) = iso_clock ?us"
    using iso_clock_marks [of ?us]
    by (auto simp: takeWhile_append offset_def iso_offset_text list_all_iff split: option.splits if_splits)
  moreover have "read_offset offset = Some (utc_offset d)"
  proof (cases "utc_offset d")
    case (Some off)
    then have "read_clock (clock_text \<bar>off\<bar>) = Some \<bar>off\<bar>" using assms(2) by (intro read_clock_text(2)) simp_all
    then show ?thesis by (simp add: offset_def Some iso_offset_text read_offset_def)
  qed (simp add: offset_def read_offset_def)
  moreover have "midnight ?day + ?us = wall d" by (simp add: midnight_def date_of_wall_def)
  moreover have "DateTime (wall d) (utc_offset d) = d" by (cases d) simp
  ultimately show ?thesis
    using read_iso_date [OF day] read_clock_text(1) [OF us] unfolding from_iso_def Let_def rest by simp
qed

lemma iso_roundtrip_example:
  "from_iso (iso_datetime (DateTime (740000 * day_us + 45296000007) (Some 7200000000))) = Inr (DateTime (740000 * day_us + 45296000007) (Some 7200000000))"
  by (rule iso_roundtrip) (simp_all add: in_range_def time_units)

end
