(* ===== verification/Survey_Access.thy ===== *)
theory Survey_Access
  imports Identity_Access Survey_Disclosure
begin

text \<open>
  Who may do what with a survey, and its life cycle: \<^verbatim>\<open>modules/surveys/domain/__init__.py\<close>.
\<close>

datatype survey_status = Draft_Survey | Active_Survey | Ended_Survey | Archived_Survey | Deleted_Survey

datatype access_capability =
    Design | Publish | Archive_Survey | View_Aggregates | Read_Responses | Export_Raw | Export_Reports
  | Manage_Invitations | Delete_Survey

definition access_capabilities :: "access_capability list" where
  "access_capabilities = [Design, Publish, Archive_Survey, View_Aggregates, Read_Responses, Export_Raw, Export_Reports,
     Manage_Invitations, Delete_Survey]"

definition allowed_targets :: "survey_status \<Rightarrow> bool \<Rightarrow> survey_status set" where
  "allowed_targets current published =
     (case current of
        Draft_Survey \<Rightarrow> {Active_Survey, Deleted_Survey}
      | Active_Survey \<Rightarrow> {Ended_Survey, Deleted_Survey}
      | Ended_Survey \<Rightarrow> {Archived_Survey, Deleted_Survey}
      | Archived_Survey \<Rightarrow> {Ended_Survey, Deleted_Survey}
      | Deleted_Survey \<Rightarrow> {if published then Ended_Survey else Draft_Survey})"

definition require_transition :: "survey_status \<Rightarrow> survey_status \<Rightarrow> bool \<Rightarrow> unit res" where
  "require_transition current target published =
     (if target \<notin> allowed_targets current published then Inl (Invariant ''survey_transition_invalid'') else Inr ())"

definition effective_response_status ::
  "string \<Rightarrow> datetime \<Rightarrow> datetime option \<Rightarrow> int \<Rightarrow> datetime \<Rightarrow> string res" where
  "effective_response_status status created_at changed timeout now =
     then_res (require_aware created_at) (\<lambda>_.
     then_res (require_aware_opt changed) (\<lambda>_.
     then_res (require_aware now) (\<lambda>_.
     if \<not> (1 \<le> timeout \<and> timeout \<le> 604800) then Inl (Invariant ''survey_timeout_invalid'')
     else if status \<in> {''completed'', ''partial''} then Inr status
     else if status \<notin> {''in_progress'', ''partial''} then Inl (Invariant ''survey_response_status_invalid'')
     else then_res (add_delta (case changed of None \<Rightarrow> created_at | Some t \<Rightarrow> t) (timeout * 1000000)) (\<lambda>limit.
       Inr (if instant limit \<le> instant now then ''partial'' else ''in_progress'')))))"

definition may_access_survey ::
  "identity_principal \<Rightarrow> uuid \<Rightarrow> uuid option \<Rightarrow> access_capability \<Rightarrow> access_capability set \<Rightarrow> bool" where
  "may_access_survey p owner action cap grants =
     (if \<not> can_authenticate (ip_account p) then False
      else if is_system_admin p then True
      else if (case action of None \<Rightarrow> False | Some a \<Rightarrow> may_manage_action p a) then True
      else if (case action of None \<Rightarrow> False | Some a \<Rightarrow> roles_for p a = {}) then False
      else ua_id (ip_account p) = owner \<or> cap \<in> grants)"

text \<open>\<^verbatim>\<open>_capabilities\<close> of the repository\<close>

definition survey_capabilities :: "identity_principal \<Rightarrow> uuid \<Rightarrow> uuid option \<Rightarrow> access_capability set \<Rightarrow> access_capability list" where
  "survey_capabilities p owner action grants = filter (\<lambda>cap. may_access_survey p owner action cap grants) access_capabilities"

lemma survey_capability: "cap \<in> set (survey_capabilities p owner action grants) \<longleftrightarrow> may_access_survey p owner action cap grants"
  by (cases cap) (simp_all add: survey_capabilities_def access_capabilities_def)

end
