(* ===== verification/Survey_Selection.thy ===== *)
theory Survey_Selection
  imports Survey_Answers
begin

text \<open>
  The aggregate of a selection of participations: \<^verbatim>\<open>modules/surveys/adapters/surveyjs_validation.py\<close>
  (\<^verbatim>\<open>aggregate_batch\<close>) and \<^verbatim>\<open>modules/surveys/adapters/postgres/survey_analysis.py\<close>.  The answers are counted by a
  service behind HTTP in batches of bounded size; its reply to a body is the argument \<open>analysis_service\<close>, \<open>None\<close> for a
  request that fails or a reply that does not parse.  Sums and shares are rounded to binary64 as Python does.
\<close>

section \<open>One batch\<close>

type_synonym analysis_service = "pyval \<Rightarrow> question_aggregate list option"

definition batch_body :: "pyval \<Rightarrow> pyval list \<Rightarrow> pyval" where
  "batch_body d rows = VDict [(lit ''profile'', VStr (lit ''initial-v1'')), (lit ''definition'', d), (lit ''responses'', VList rows)]"

definition aggregate_batch :: "analysis_service \<Rightarrow> pyval \<Rightarrow> pyval list \<Rightarrow> question_aggregate list res" where
  "aggregate_batch service d rows =
     then_res (validate_definition d) (\<lambda>_.
     if 100 < length rows then fail_with ''limit_exceeded''
     else then_res (json_size (batch_body d rows)) (\<lambda>size.
     if 550000 < size then fail_with ''limit_exceeded''
     else if list_ex (\<lambda>r. \<not> is_dict r \<or> \<not> set (keys r) \<subseteq> set (question_names d)) rows then fail_with ''invalid_response''
     else case service (batch_body d rows) of
         None \<Rightarrow> Inl (App Dependency_Unavailable ''survey_analysis_unavailable'')
       | Some qs \<Rightarrow>
           if raises (map_res question_aggregate_init qs) \<or> map qa_question_id qs \<noteq> question_names d
              \<or> list_ex (\<lambda>q. qa_relevant q + qa_hidden q \<noteq> int (length rows)) qs
           then Inl (App Dependency_Unavailable ''survey_analysis_unavailable'') else Inr qs))"

section \<open>Merging\<close>

text \<open>\<^verbatim>\<open>zip(..., strict=True)\<close> over two lists, updating the elements of the first.\<close>

fun zip_strict :: "('a \<Rightarrow> 'b \<Rightarrow> 'a res) \<Rightarrow> 'a list \<Rightarrow> 'b list \<Rightarrow> 'a list res" where
  "zip_strict f [] [] = Inr []"
| "zip_strict f (x # xs) (y # ys) = then_res (f x y) (\<lambda>z. then_res (zip_strict f xs ys) (\<lambda>zs. Inr (z # zs)))"
| "zip_strict f _ _ = Inl Value_Error"

text \<open>A question with its running sum, which may leave the finite floats.\<close>

type_synonym running = "question_aggregate \<times> pyfloat option"

definition float_plus :: "pyfloat \<Rightarrow> rat \<Rightarrow> pyfloat" where
  "float_plus x q = (case x of Fin p \<Rightarrow> to_double (p + q) | _ \<Rightarrow> x)"

definition merge_bucket :: "aggregate_count \<Rightarrow> aggregate_count \<Rightarrow> aggregate_count res" where
  "merge_bucket b c = Inr (b\<lparr>ac_count := ac_count b + ac_count c\<rparr>)"

definition merge_row :: "matrix_row_aggregate \<Rightarrow> matrix_row_aggregate \<Rightarrow> matrix_row_aggregate res" where
  "merge_row r s = then_res (zip_strict merge_bucket (mr_counts r) (mr_counts s)) (\<lambda>bs. Inr
     (r\<lparr>mr_answered := mr_answered r + mr_answered s, mr_unanswered := mr_unanswered r + mr_unanswered s,
       mr_invalid := mr_invalid r + mr_invalid s, mr_counts := bs\<rparr>))"

definition merge_numbers :: "running \<Rightarrow> question_aggregate \<Rightarrow> running res" where
  "merge_numbers = (\<lambda>(t, s) v.
     case qa_sum v of
       None \<Rightarrow> Inr (t, s)
     | Some q \<Rightarrow> (case (qa_minimum v, qa_maximum v) of
         (Some lo, Some hi) \<Rightarrow> Inr
           (t\<lparr>qa_minimum := Some (case qa_minimum t of None \<Rightarrow> lo | Some m \<Rightarrow> min m lo),
              qa_maximum := Some (case qa_maximum t of None \<Rightarrow> hi | Some m \<Rightarrow> max m hi)\<rparr>,
            Some (case s of None \<Rightarrow> Fin q | Some x \<Rightarrow> float_plus x q))
       | _ \<Rightarrow> Inl Assertion_Error))"

definition merge_question :: "running \<Rightarrow> question_aggregate \<Rightarrow> running res" where
  "merge_question = (\<lambda>(t, s) v.
     then_res (merge_numbers (t\<lparr>qa_relevant := qa_relevant t + qa_relevant v, qa_answered := qa_answered t + qa_answered v,
       qa_unanswered := qa_unanswered t + qa_unanswered v, qa_hidden := qa_hidden t + qa_hidden v,
       qa_invalid := qa_invalid t + qa_invalid v\<rparr>, s) v) (\<lambda>(u, s').
     then_res (zip_strict merge_bucket (qa_counts u) (qa_counts v)) (\<lambda>bs.
     then_res (zip_strict merge_row (qa_matrix_rows u) (qa_matrix_rows v)) (\<lambda>rs.
     Inr (u\<lparr>qa_counts := bs, qa_matrix_rows := rs\<rparr>, s')))))"

definition merge_aggregates :: "running list \<Rightarrow> question_aggregate list \<Rightarrow> running list res" where
  "merge_aggregates = zip_strict merge_question"

section \<open>Means, shares and NPS\<close>

text \<open>The result is validated in the end, which refuses floats that are not finite: here where they arise.\<close>

definition finite_float :: "pyfloat \<Rightarrow> rat res" where
  "finite_float x = (case x of Fin q \<Rightarrow> Inr q | _ \<Rightarrow> Inl Value_Error)"

definition hundred_times :: "pyfloat \<Rightarrow> pyfloat" where
  "hundred_times x = (case x of Fin q \<Rightarrow> to_double (q * 100) | _ \<Rightarrow> x)"

definition percent :: "int \<Rightarrow> int \<Rightarrow> rat option res" where
  "percent n answered =
     (if answered = 0 then Inr None
      else then_res (num_over (VInt n) (VInt answered)) (\<lambda>x. then_res (finite_float (hundred_times x)) (\<lambda>p. Inr (Some p))))"

definition finish_bucket :: "int \<Rightarrow> aggregate_count \<Rightarrow> aggregate_count res" where
  "finish_bucket answered b = then_res (percent (ac_count b) answered) (\<lambda>p. Inr (b\<lparr>ac_percentage := p\<rparr>))"

definition finish_row :: "matrix_row_aggregate \<Rightarrow> matrix_row_aggregate res" where
  "finish_row r = then_res (map_res (finish_bucket (mr_answered r)) (mr_counts r)) (\<lambda>bs. Inr (r\<lparr>mr_counts := bs\<rparr>))"

definition nps_source :: "pyval \<Rightarrow> bool" where
  "nps_source q \<longleftrightarrow> member ''type'' q = Some (VStr (lit ''rating''))
     \<and> py_eq (member_or ''rateMin'' VNone q) (VInt 0) \<and> py_eq (member_or ''rateMax'' VNone q) (VInt 10)
     \<and> py_eq (member_or ''rateStep'' (VInt 1) q) (VInt 1)"

definition float_ge :: "pyfloat \<Rightarrow> rat \<Rightarrow> bool" where
  "float_ge x q = (case x of Fin p \<Rightarrow> q \<le> p | PInf \<Rightarrow> True | _ \<Rightarrow> False)"

definition count_where :: "(pyfloat \<Rightarrow> bool) \<Rightarrow> aggregate_count list \<Rightarrow> int res" where
  "count_where P bs = fold_res (\<lambda>n b. then_res (number_of (ac_value b)) (\<lambda>x. Inr (if P x then n + ac_count b else n))) 0 bs"

definition nps_of :: "question_aggregate \<Rightarrow> rat option res" where
  "nps_of q =
     then_res (count_where (\<lambda>x. float_ge x 9) (qa_counts q)) (\<lambda>promoters.
     then_res (count_where (\<lambda>x. float_le x 6) (qa_counts q)) (\<lambda>detractors.
     percent (promoters - detractors) (qa_answered q)))"

definition mean_of :: "pyfloat option \<Rightarrow> int \<Rightarrow> rat option res" where
  "mean_of s answered =
     (case s of
        None \<Rightarrow> Inr None
      | Some x \<Rightarrow> if answered = 0 then Inr None
          else then_res (num_over (VFloat x) (VInt answered)) (\<lambda>m. then_res (finite_float m) (\<lambda>q. Inr (Some q))))"

definition finish_question :: "running \<Rightarrow> pyval \<Rightarrow> running res" where
  "finish_question = (\<lambda>(t, s) source.
     then_res (mean_of s (qa_answered t)) (\<lambda>mean.
     then_res (map_res (finish_bucket (qa_answered t)) (qa_counts t)) (\<lambda>bs.
     then_res (map_res finish_row (qa_matrix_rows t)) (\<lambda>rs.
     then_res (if nps_source source then nps_of t else Inr (qa_nps t)) (\<lambda>nps.
     Inr (t\<lparr>qa_mean := mean, qa_counts := bs, qa_matrix_rows := rs, qa_nps := nps\<rparr>, s))))))"

definition questions_of :: "pyval \<Rightarrow> pyval list" where
  "questions_of d = concat (map (\<lambda>p. items_of (the (member ''elements'' p))) (pages_of d))"

text \<open>\<^verbatim>\<open>model_validate\<close> of the finished question, its sum included.\<close>

definition validated_question :: "running \<Rightarrow> question_aggregate res" where
  "validated_question = (\<lambda>(t, s).
     then_res (case s of None \<Rightarrow> Inr None | Some x \<Rightarrow> then_res (finite_float x) (\<lambda>q. Inr (Some q))) (\<lambda>total.
     question_aggregate_init (t\<lparr>qa_sum := total\<rparr>)))"

definition finish_aggregates :: "pyval \<Rightarrow> running list \<Rightarrow> question_aggregate list res" where
  "finish_aggregates d result =
     then_res (zip_strict finish_question result (questions_of d)) (\<lambda>ts. map_res validated_question ts)"

section \<open>Batches\<close>

text \<open>The batches closed, the open one, and the bytes counted for it.\<close>

definition batch_step :: "int \<Rightarrow> pyval list list \<times> pyval list \<times> int \<Rightarrow> pyval \<Rightarrow> (pyval list list \<times> pyval list \<times> int) res" where
  "batch_step base = (\<lambda>(batches, batch, used) answers.
     then_res (json_size answers) (\<lambda>n. let added = n + 1 in
     if batch \<noteq> [] \<and> (length batch = 100 \<or> 550000 < used + added)
     then Inr (batches @ [batch], [answers], base + added)
     else Inr (batches, batch @ [answers], used + added)))"

definition make_batches :: "pyval \<Rightarrow> pyval list \<Rightarrow> pyval list list res" where
  "make_batches d responses =
     then_res (json_size (batch_body d [])) (\<lambda>base.
     then_res (fold_res (batch_step base) ([], [], base) responses) (\<lambda>(batches, batch, _).
     Inr (if batch \<noteq> [] \<or> batches = [] then batches @ [batch] else batches)))"

definition start_running :: "question_aggregate \<Rightarrow> running" where
  "start_running q = (q, map_option Fin (qa_sum q))"

definition add_batch :: "analysis_service \<Rightarrow> pyval \<Rightarrow> running list option \<Rightarrow> pyval list \<Rightarrow> running list option res" where
  "add_batch service d result part =
     then_res (aggregate_batch service d part) (\<lambda>values.
     then_res (case result of None \<Rightarrow> Inr (map start_running values) | Some ts \<Rightarrow> merge_aggregates ts values) (\<lambda>ts. Inr (Some ts)))"

definition aggregate_selection :: "analysis_service \<Rightarrow> pyval \<Rightarrow> pyval list \<Rightarrow> question_aggregate list res" where
  "aggregate_selection service d responses =
     then_res (make_batches d responses) (\<lambda>batches.
     then_res (fold_res (add_batch service d) None batches) (\<lambda>result.
     case result of None \<Rightarrow> Inl Assertion_Error | Some ts \<Rightarrow> finish_aggregates d ts))"


section \<open>How batches are cut\<close>

text \<open>The length of the JSON text of a batch, and the bytes counted for it: one for a separator, which takes two.\<close>

definition response_bytes :: "pyval \<Rightarrow> nat" where
  "response_bytes r = the (json_length r)"

definition storable :: "pyval \<Rightarrow> bool" where
  "storable r = (case json_size r of Inl _ \<Rightarrow> False | Inr n \<Rightarrow> n \<le> 262144)"

lemma storable_bytes: "storable r \<longleftrightarrow> json_length r \<noteq> None \<and> response_bytes r \<le> 262144"
  by (cases "json_length r") (auto simp: storable_def json_size_def response_bytes_def fail_with_def)

definition rows_bytes :: "pyval list \<Rightarrow> nat" where
  "rows_bytes rows = sum_list (map response_bytes rows)"

lemma json_list_bytes:
  "list_all (\<lambda>r. json_length r \<noteq> None) rows \<Longrightarrow>
     json_list_length rows = Some (rows_bytes rows + 2 * (length rows - 1))"
proof (induction rows)
  case (Cons r rows)
  then show ?case by (cases rows) (auto simp: rows_bytes_def response_bytes_def)
qed (simp add: rows_bytes_def)

lemma body_bytes:
  assumes "json_length d = Some n" "list_all (\<lambda>r. json_length r \<noteq> None) rows"
  shows "json_length (batch_body d rows) = Some (n + 58 + rows_bytes rows + 2 * (length rows - 1))"
proof -
  have "quoted_length (lit ''profile'') = 9" "quoted_length (lit ''initial-v1'') = 12" "quoted_length (lit ''definition'') = 12"
    "quoted_length (lit ''responses'') = 11" by code_simp+
  then show ?thesis using assms(1) json_list_bytes [OF assms(2)] by (simp add: batch_body_def)
qed

definition open_ok :: "int \<Rightarrow> pyval list list \<times> pyval list \<times> int \<Rightarrow> bool" where
  "open_ok base = (\<lambda>(batches, batch, used). used = base + int (rows_bytes batch) + int (length batch) \<and> used \<le> 550000
     \<and> length batch \<le> 100
     \<and> list_all (\<lambda>b. b \<noteq> [] \<and> length b \<le> 100 \<and> base + int (rows_bytes b) + int (length b) \<le> 550000) batches)"

lemma batch_step_ok:
  assumes "batch_step base (batches, batch, used) r = Inr (batches', batch', used')" "open_ok base (batches, batch, used)"
    and "base \<le> 287855" "response_bytes r \<le> 262144"
  shows "open_ok base (batches', batch', used') \<and> concat batches' @ batch' = concat batches @ batch @ [r] \<and> batch' \<noteq> []"
proof -
  obtain n where n: "json_length r = Some n" using assms(1) by (cases "json_length r") (auto simp: batch_step_def json_size_def fail_with_def)
  let ?full = "batch \<noteq> [] \<and> (length batch = 100 \<or> 550000 < used + (int n + 1))"
  have step: "(batches', batch', used') = (if ?full then (batches @ [batch], [r], base + (int n + 1)) else (batches, batch @ [r], used + (int n + 1)))"
    using assms(1) n by (auto simp: batch_step_def json_size_def Let_def split: if_splits)
  have r: "response_bytes r = n" using n by (simp add: response_bytes_def)
  show ?thesis
  proof (cases ?full)
    case True
    then show ?thesis using step assms(2-4) r by (auto simp: open_ok_def rows_bytes_def)
  next
    case False
    then show ?thesis using step assms(2-4) r by (cases "batch = []") (auto simp: open_ok_def rows_bytes_def)
  qed
qed

lemma batch_steps:
  assumes "fold_res (batch_step base) st rs = Inr st'" "open_ok base st"
    and "base \<le> 287855" "list_all (\<lambda>r. response_bytes r \<le> 262144) rs"
  shows "open_ok base st' \<and> concat (fst st') @ fst (snd st') = concat (fst st) @ fst (snd st) @ rs \<and> (rs \<noteq> [] \<longrightarrow> fst (snd st') \<noteq> [])"
  using assms
proof (induction rs arbitrary: st)
  case (Cons r rs)
  obtain batches batch used where st: "st = (batches, batch, used)" by (cases st)
  from Cons.prems(1) obtain u where u: "batch_step base st r = Inr u" "fold_res (batch_step base) u rs = Inr st'"
    by (auto simp: res_simps)
  obtain batches' batch' used' where u': "u = (batches', batch', used')" by (cases u)
  have one: "open_ok base u \<and> concat batches' @ batch' = concat batches @ batch @ [r] \<and> batch' \<noteq> []"
    using batch_step_ok [of base batches batch used r] u(1) Cons.prems(2-4) by (simp add: st u')
  from Cons.IH [OF u(2)] one Cons.prems(3,4) have "open_ok base st' \<and> concat (fst st') @ fst (snd st') = concat batches' @ batch' @ rs
      \<and> (rs \<noteq> [] \<longrightarrow> fst (snd st') \<noteq> [])" by (simp add: u')
  moreover have "rs = [] \<Longrightarrow> st' = u" using u(2) by simp
  ultimately show ?case using one by (auto simp: st u')
qed simp

lemma batch_steps_return:
  "list_all (\<lambda>r. json_length r \<noteq> None) rs \<Longrightarrow> \<exists>st'. fold_res (batch_step base) st rs = Inr st'"
proof (induction rs arbitrary: st)
  case (Cons r rs)
  obtain batches batch used where "st = (batches, batch, used)" by (cases st)
  moreover obtain n where "json_length r = Some n" using Cons.prems by auto
  ultimately have "\<exists>u. batch_step base st r = Inr u" by (simp add: batch_step_def json_size_def Let_def)
  then obtain u where "batch_step base st r = Inr u" by (rule exE)
  then show ?case using Cons by simp
qed (rule exI, rule fold_res.simps(1))

lemma definition_bytes:
  assumes "validate_definition d = Inr ()"
  obtains n where "json_length d = Some n" "n \<le> 262144"
proof -
  from assms obtain s where "json_size d = Inr s" "\<not> 262144 < s"
    by (auto simp: validate_definition_def then_res_Inr_iff fail_with_def split: if_splits)
  then show ?thesis using that by (cases "json_length d") (auto simp: json_size_def fail_with_def)
qed

text \<open>Accepted definitions and stored answers, both at most 262144 bytes, are always cut into batches.\<close>

lemma batches_cut:
  assumes "validate_definition d = Inr ()" "list_all storable rs"
  obtains bs n where "make_batches d rs = Inr bs" "concat bs = rs" "json_length d = Some n" "n \<le> 262144" "bs \<noteq> []"
    "list_all (\<lambda>b. length b \<le> 100 \<and> n + 58 + rows_bytes b + length b \<le> 550000) bs"
    "rs \<noteq> [] \<Longrightarrow> list_all (\<lambda>b. b \<noteq> []) bs"
proof -
  obtain n where n: "json_length d = Some n" "n \<le> 262144" using definition_bytes [OF assms(1)] .
  let ?base = "int n + 58"
  have sized: "list_all (\<lambda>r. json_length r \<noteq> None) rs" "list_all (\<lambda>r. response_bytes r \<le> 262144) rs"
    using assms(2) by (simp_all add: list_all_iff storable_bytes)
  obtain st' where run: "fold_res (batch_step ?base) ([], [], ?base) rs = Inr st'" using batch_steps_return [OF sized(1)] by blast
  obtain batches batch used where st': "st' = (batches, batch, used)" by (cases st')
  have "open_ok ?base ([], [], ?base)" using n(2) by (simp add: open_ok_def rows_bytes_def)
  note steps = batch_steps [OF run this _ sized(2), simplified st']
  have s: "open_ok ?base (batches, batch, used)" "concat batches @ batch = rs" "rs \<noteq> [] \<Longrightarrow> batch \<noteq> []"
    using steps n(2) by auto
  have size: "json_size (batch_body d []) = Inr ?base" using body_bytes [OF n(1), of "[]"] by (simp add: json_size_def rows_bytes_def)
  let ?bs = "if batch \<noteq> [] \<or> batches = [] then batches @ [batch] else batches"
  have made: "make_batches d rs = Inr ?bs" by (simp add: make_batches_def size run st')
  have "n + 58 + rows_bytes b + length b \<le> 550000 \<and> length b \<le> 100 \<and> (rs \<noteq> [] \<longrightarrow> b \<noteq> [])" if "b \<in> set ?bs" for b
  proof (cases "b \<in> set batches")
    case True
    then show ?thesis using s(1) by (auto simp: open_ok_def list_all_iff)
  next
    case False
    then have "b = batch" using that by (auto split: if_splits)
    then show ?thesis using s(1,3) by (auto simp: open_ok_def)
  qed
  then have sizes: "list_all (\<lambda>b. length b \<le> 100 \<and> n + 58 + rows_bytes b + length b \<le> 550000) ?bs"
    and filled: "rs \<noteq> [] \<Longrightarrow> list_all (\<lambda>b. b \<noteq> []) ?bs" unfolding list_all_iff by blast+
  have all: "concat ?bs = rs" and some: "?bs \<noteq> []" using s(2) by (cases "batch = []"; auto)+
  show ?thesis by (rule that [OF made all n some sizes filled])
qed


section \<open>Batches make no difference to the counts\<close>

text \<open>Every number that counts participations, by its place in the aggregate of a question.\<close>

datatype cell =
    Cell_Relevant | Cell_Answered | Cell_Unanswered | Cell_Hidden | Cell_Invalid | Cell_Bucket nat
  | Cell_Row_Answered nat | Cell_Row_Unanswered nat | Cell_Row_Invalid nat | Cell_Row_Bucket nat nat

fun cell_in :: "question_aggregate \<Rightarrow> cell \<Rightarrow> bool" where
  "cell_in q (Cell_Bucket i) \<longleftrightarrow> i < length (qa_counts q)"
| "cell_in q (Cell_Row_Answered i) \<longleftrightarrow> i < length (qa_matrix_rows q)"
| "cell_in q (Cell_Row_Unanswered i) \<longleftrightarrow> i < length (qa_matrix_rows q)"
| "cell_in q (Cell_Row_Invalid i) \<longleftrightarrow> i < length (qa_matrix_rows q)"
| "cell_in q (Cell_Row_Bucket i k) \<longleftrightarrow> i < length (qa_matrix_rows q) \<and> k < length (mr_counts (qa_matrix_rows q ! i))"
| "cell_in q _ \<longleftrightarrow> True"

fun cell_of :: "question_aggregate \<Rightarrow> cell \<Rightarrow> int" where
  "cell_of q Cell_Relevant = qa_relevant q"
| "cell_of q Cell_Answered = qa_answered q"
| "cell_of q Cell_Unanswered = qa_unanswered q"
| "cell_of q Cell_Hidden = qa_hidden q"
| "cell_of q Cell_Invalid = qa_invalid q"
| "cell_of q (Cell_Bucket i) = ac_count (qa_counts q ! i)"
| "cell_of q (Cell_Row_Answered i) = mr_answered (qa_matrix_rows q ! i)"
| "cell_of q (Cell_Row_Unanswered i) = mr_unanswered (qa_matrix_rows q ! i)"
| "cell_of q (Cell_Row_Invalid i) = mr_invalid (qa_matrix_rows q ! i)"
| "cell_of q (Cell_Row_Bucket i k) = ac_count (mr_counts (qa_matrix_rows q ! i) ! k)"

text \<open>What is left without the counts: titles, options and rows; and what is left without the numbers computed from
  them.\<close>

definition blank_bucket :: "aggregate_count \<Rightarrow> aggregate_count" where
  "blank_bucket b = b\<lparr>ac_count := 0, ac_percentage := None\<rparr>"

definition blank_row :: "matrix_row_aggregate \<Rightarrow> matrix_row_aggregate" where
  "blank_row r = r\<lparr>mr_answered := 0, mr_unanswered := 0, mr_invalid := 0, mr_counts := map blank_bucket (mr_counts r)\<rparr>"

definition layout :: "question_aggregate \<Rightarrow> question_aggregate" where
  "layout q = q\<lparr>qa_relevant := 0, qa_answered := 0, qa_unanswered := 0, qa_hidden := 0, qa_invalid := 0,
     qa_counts := map blank_bucket (qa_counts q), qa_sum := None, qa_mean := None, qa_minimum := None,
     qa_maximum := None, qa_nps := None, qa_matrix_rows := map blank_row (qa_matrix_rows q)\<rparr>"

definition no_share :: "aggregate_count \<Rightarrow> aggregate_count" where
  "no_share b = b\<lparr>ac_percentage := None\<rparr>"

definition counted :: "question_aggregate \<Rightarrow> question_aggregate" where
  "counted q = q\<lparr>qa_counts := map no_share (qa_counts q), qa_sum := None, qa_mean := None, qa_minimum := None,
     qa_maximum := None, qa_nps := None,
     qa_matrix_rows := map (\<lambda>r. r\<lparr>mr_counts := map no_share (mr_counts r)\<rparr>) (qa_matrix_rows q)\<rparr>"

definition no_sums :: "question_aggregate \<Rightarrow> question_aggregate" where
  "no_sums q = q\<lparr>qa_sum := None, qa_mean := None, qa_minimum := None, qa_maximum := None\<rparr>"

lemma zip_strict_Inr:
  "zip_strict f xs ys = Inr zs \<longleftrightarrow>
     length xs = length ys \<and> length zs = length ys \<and> (\<forall>i < length ys. f (xs ! i) (ys ! i) = Inr (zs ! i))"
proof (induction f xs ys arbitrary: zs rule: zip_strict.induct)
  case (2 f x xs y ys)
  then show ?case by (cases zs) (auto simp: then_res_Inr_iff All_less_Suc2)
qed auto

lemma merge_buckets:
  assumes "zip_strict merge_bucket bs cs = Inr ds"
  shows "map blank_bucket ds = map blank_bucket bs" "length ds = length bs" "length cs = length bs"
    "i < length bs \<Longrightarrow> ac_count (ds ! i) = ac_count (bs ! i) + ac_count (cs ! i)"
proof -
  have len: "length bs = length cs" "length ds = length cs" and each: "\<forall>i < length cs. merge_bucket (bs ! i) (cs ! i) = Inr (ds ! i)"
    using assms unfolding zip_strict_Inr by auto
  then have sum: "ds ! i = (bs ! i)\<lparr>ac_count := ac_count (bs ! i) + ac_count (cs ! i)\<rparr>" if "i < length bs" for i
    using that by (simp add: merge_bucket_def)
  show "length ds = length bs" "length cs = length bs" using len by simp_all
  show "map blank_bucket ds = map blank_bucket bs" using len sum by (simp add: list_eq_iff_nth_eq blank_bucket_def)
  show "i < length bs \<Longrightarrow> ac_count (ds ! i) = ac_count (bs ! i) + ac_count (cs ! i)" using sum by simp
qed

lemma merge_rows:
  assumes "zip_strict merge_row rs ss = Inr us"
  shows "map blank_row us = map blank_row rs" "length us = length rs" "length ss = length rs"
    "i < length rs \<Longrightarrow> mr_answered (us ! i) = mr_answered (rs ! i) + mr_answered (ss ! i)
       \<and> mr_unanswered (us ! i) = mr_unanswered (rs ! i) + mr_unanswered (ss ! i)
       \<and> mr_invalid (us ! i) = mr_invalid (rs ! i) + mr_invalid (ss ! i)
       \<and> length (mr_counts (us ! i)) = length (mr_counts (rs ! i)) \<and> length (mr_counts (ss ! i)) = length (mr_counts (rs ! i))"
    "i < length rs \<Longrightarrow> k < length (mr_counts (rs ! i)) \<Longrightarrow>
       ac_count (mr_counts (us ! i) ! k) = ac_count (mr_counts (rs ! i) ! k) + ac_count (mr_counts (ss ! i) ! k)"
proof -
  have len: "length rs = length ss" "length us = length ss" and run: "\<forall>i < length ss. merge_row (rs ! i) (ss ! i) = Inr (us ! i)"
    using assms unfolding zip_strict_Inr by auto
  have each: "\<exists>bs. zip_strict merge_bucket (mr_counts (rs ! i)) (mr_counts (ss ! i)) = Inr bs
      \<and> us ! i = (rs ! i)\<lparr>mr_answered := mr_answered (rs ! i) + mr_answered (ss ! i),
          mr_unanswered := mr_unanswered (rs ! i) + mr_unanswered (ss ! i),
          mr_invalid := mr_invalid (rs ! i) + mr_invalid (ss ! i), mr_counts := bs\<rparr>" if "i < length rs" for i
  proof -
    have "merge_row (rs ! i) (ss ! i) = Inr (us ! i)" using run len that by simp
    then show ?thesis unfolding merge_row_def by (auto simp: then_res_Inr_iff simp del: zip_strict.simps)
  qed
  show "length us = length rs" "length ss = length rs" using len by simp_all
  then show "map blank_row us = map blank_row rs"
    using each by (fastforce simp: list_eq_iff_nth_eq [of "map blank_row us"] blank_row_def dest: merge_buckets(1))
  show "mr_answered (us ! i) = mr_answered (rs ! i) + mr_answered (ss ! i)
       \<and> mr_unanswered (us ! i) = mr_unanswered (rs ! i) + mr_unanswered (ss ! i)
       \<and> mr_invalid (us ! i) = mr_invalid (rs ! i) + mr_invalid (ss ! i)
       \<and> length (mr_counts (us ! i)) = length (mr_counts (rs ! i)) \<and> length (mr_counts (ss ! i)) = length (mr_counts (rs ! i))"
    if "i < length rs" using each [OF that] by (auto dest: merge_buckets(2,3))
  show "ac_count (mr_counts (us ! i) ! k) = ac_count (mr_counts (rs ! i) ! k) + ac_count (mr_counts (ss ! i) ! k)"
    if "i < length rs" "k < length (mr_counts (rs ! i))" using each [OF that(1)] that(2) by (auto dest: merge_buckets(4))
qed


lemma merge_numbers_counts:
  assumes "merge_numbers (t, s) v = Inr (u, s')"
  shows "\<exists>lo hi. u = t\<lparr>qa_minimum := lo, qa_maximum := hi\<rparr>"
proof -
  have "u = t \<or> (\<exists>lo hi. u = t\<lparr>qa_minimum := lo, qa_maximum := hi\<rparr>)"
    using assms by (auto simp: merge_numbers_def split: option.splits)
  then show ?thesis
  proof
    assume "u = t"
    then show ?thesis by (intro exI [of _ "qa_minimum t"] exI [of _ "qa_maximum t"]) simp
  qed
qed

lemma merge_question_cells:
  assumes run: "merge_question (t, s) v = Inr (u, s')"
  shows "layout u = layout t" "qa_nps u = qa_nps t" "cell_in t c \<Longrightarrow> cell_of u c = cell_of t c + cell_of v c"
    "cell_in u c = cell_in t c"
proof -
  obtain lo hi bs rs where buckets: "zip_strict merge_bucket (qa_counts t) (qa_counts v) = Inr bs"
    and rows: "zip_strict merge_row (qa_matrix_rows t) (qa_matrix_rows v) = Inr rs"
    and u: "u = t\<lparr>qa_relevant := qa_relevant t + qa_relevant v, qa_answered := qa_answered t + qa_answered v,
       qa_unanswered := qa_unanswered t + qa_unanswered v, qa_hidden := qa_hidden t + qa_hidden v,
       qa_invalid := qa_invalid t + qa_invalid v, qa_minimum := lo, qa_maximum := hi, qa_counts := bs, qa_matrix_rows := rs\<rparr>"
    using run by (auto simp: merge_question_def then_res_Inr_iff dest!: merge_numbers_counts)
  note b = merge_buckets [OF buckets] and r = merge_rows [OF rows]
  show "layout u = layout t" using b(1) r(1) by (simp add: u layout_def)
  show "qa_nps u = qa_nps t" by (simp add: u)
  show "cell_of u c = cell_of t c + cell_of v c" if "cell_in t c"
    using that b(4) r(4,5) by (cases c) (simp_all add: u)
  show "cell_in u c = cell_in t c"
    using b(2) r(2,4) by (cases c) (auto simp: u)
qed

lemma blank_bucket_eq:
  "blank_bucket b = blank_bucket b' \<Longrightarrow> ac_count b = ac_count b' \<Longrightarrow> no_share b = no_share b'"
  by (cases b; cases b') (simp add: blank_bucket_def no_share_def)

lemma buckets_eq:
  assumes "map blank_bucket bs = map blank_bucket bs'" "\<And>i. i < length bs \<Longrightarrow> ac_count (bs ! i) = ac_count (bs' ! i)"
  shows "map no_share bs = map no_share bs'"
  using assms by (auto simp: list_eq_iff_nth_eq intro: blank_bucket_eq)

lemma counted_eq:
  assumes lay: "layout a = layout b" and same: "\<And>c. cell_in a c \<Longrightarrow> cell_of a c = cell_of b c"
  shows "counted a = counted b"
proof -
  have lays: "map blank_bucket (qa_counts a) = map blank_bucket (qa_counts b)" "map blank_row (qa_matrix_rows a) = map blank_row (qa_matrix_rows b)"
    "qa_question_id a = qa_question_id b" "qa_title a = qa_title b" "qa_kind a = qa_kind b"
    using lay by (cases a; cases b; simp add: layout_def)+
  have "map no_share (qa_counts a) = map no_share (qa_counts b)"
    using lays(1) same [of "Cell_Bucket _"] by (intro buckets_eq) auto
  moreover have "map (\<lambda>r. r\<lparr>mr_counts := map no_share (mr_counts r)\<rparr>) (qa_matrix_rows a)
      = map (\<lambda>r. r\<lparr>mr_counts := map no_share (mr_counts r)\<rparr>) (qa_matrix_rows b)"
  proof (rule nth_equalityI)
    show len: "length (map (\<lambda>r. r\<lparr>mr_counts := map no_share (mr_counts r)\<rparr>) (qa_matrix_rows a))
        = length (map (\<lambda>r. r\<lparr>mr_counts := map no_share (mr_counts r)\<rparr>) (qa_matrix_rows b))"
      using lays(2) by (simp add: list_eq_iff_nth_eq)
    fix i assume "i < length (map (\<lambda>r. r\<lparr>mr_counts := map no_share (mr_counts r)\<rparr>) (qa_matrix_rows a))"
    then have i: "i < length (qa_matrix_rows a)" "i < length (qa_matrix_rows b)" using len by simp_all
    let ?r = "qa_matrix_rows a ! i" and ?s = "qa_matrix_rows b ! i"
    have row: "blank_row ?r = blank_row ?s" using lays(2) i by (simp add: list_eq_iff_nth_eq)
    have "map no_share (mr_counts ?r) = map no_share (mr_counts ?s)"
    proof (rule buckets_eq)
      show "map blank_bucket (mr_counts ?r) = map blank_bucket (mr_counts ?s)"
        using row by (cases ?r; cases ?s) (simp add: blank_row_def)
      show "ac_count (mr_counts ?r ! k) = ac_count (mr_counts ?s ! k)" if "k < length (mr_counts ?r)" for k
        using same [of "Cell_Row_Bucket i k"] i that by simp
    qed
    moreover have "mr_answered ?r = mr_answered ?s" "mr_unanswered ?r = mr_unanswered ?s" "mr_invalid ?r = mr_invalid ?s"
      using same [of "Cell_Row_Answered i"] same [of "Cell_Row_Unanswered i"] same [of "Cell_Row_Invalid i"] i by simp_all
    ultimately show "map (\<lambda>r. r\<lparr>mr_counts := map no_share (mr_counts r)\<rparr>) (qa_matrix_rows a) ! i
        = map (\<lambda>r. r\<lparr>mr_counts := map no_share (mr_counts r)\<rparr>) (qa_matrix_rows b) ! i"
      using row i by (cases ?r; cases ?s) (simp add: blank_row_def)
  qed
  moreover have "qa_relevant a = qa_relevant b" "qa_answered a = qa_answered b" "qa_unanswered a = qa_unanswered b"
    "qa_hidden a = qa_hidden b" "qa_invalid a = qa_invalid b"
    using same [of Cell_Relevant] same [of Cell_Answered] same [of Cell_Unanswered] same [of Cell_Hidden] same [of Cell_Invalid] by simp_all
  ultimately show ?thesis using lays(3-5) by (cases a; cases b) (simp add: counted_def)
qed


text \<open>What is computed in the end depends on the counts alone.\<close>

lemma finish_no_share: "map_res (finish_bucket n) (map no_share bs) = map_res (finish_bucket n) bs"
  by (induction bs) (simp_all add: finish_bucket_def no_share_def)

lemma finish_rows_no_share:
  "map_res finish_row (map (\<lambda>r. r\<lparr>mr_counts := map no_share (mr_counts r)\<rparr>) rs) = map_res finish_row rs"
  by (induction rs) (simp_all add: finish_row_def finish_no_share)

lemma count_no_share: "count_where P (map no_share bs) = count_where P bs"
proof -
  have "fold_res (\<lambda>n b. then_res (number_of (ac_value b)) (\<lambda>x. Inr (if P x then n + ac_count b else n))) k (map no_share bs)
      = fold_res (\<lambda>n b. then_res (number_of (ac_value b)) (\<lambda>x. Inr (if P x then n + ac_count b else n))) k bs" for k
    by (induction bs arbitrary: k) (simp_all add: no_share_def cong: if_cong)
  then show ?thesis by (simp add: count_where_def)
qed

lemma finish_question_Inr:
  assumes "finish_question (t, s) src = Inr (u, s1)"
  obtains m bs rs n where "u = t\<lparr>qa_mean := m, qa_counts := bs, qa_matrix_rows := rs, qa_nps := n\<rparr>"
    "map_res (finish_bucket (qa_answered t)) (qa_counts t) = Inr bs" "map_res finish_row (qa_matrix_rows t) = Inr rs"
    "(if nps_source src then nps_of t else Inr (qa_nps t)) = Inr n"
  using assms unfolding finish_question_def prod.case then_res_Inr_iff sum.inject prod.inject
  by (elim exE conjE) (rule that, (rule sym)?, assumption+)

lemma counted_simps:
  "qa_counts (counted q) = map no_share (qa_counts q)" "qa_answered (counted q) = qa_answered q"
  "qa_matrix_rows (counted q) = map (\<lambda>r. r\<lparr>mr_counts := map no_share (mr_counts r)\<rparr>) (qa_matrix_rows q)"
  by (simp_all add: counted_def)

lemma finish_counted:
  assumes same: "counted a = counted b" "nps_source src \<or> qa_nps a = qa_nps b"
    and a: "finish_question (a, s) src = Inr (u, s1)" and b: "finish_question (b, s') src = Inr (v, s2)"
  shows "no_sums u = no_sums v"
proof -
  have fields: "map no_share (qa_counts a) = map no_share (qa_counts b)" "qa_answered a = qa_answered b"
    "map (\<lambda>r. r\<lparr>mr_counts := map no_share (mr_counts r)\<rparr>) (qa_matrix_rows a)
      = map (\<lambda>r. r\<lparr>mr_counts := map no_share (mr_counts r)\<rparr>) (qa_matrix_rows b)"
    using arg_cong [OF same(1), of qa_counts] arg_cong [OF same(1), of qa_answered] arg_cong [OF same(1), of qa_matrix_rows]
    unfolding counted_simps .
  have counts: "map_res (finish_bucket (qa_answered a)) (qa_counts a) = map_res (finish_bucket (qa_answered b)) (qa_counts b)"
    using arg_cong [OF fields(1), of "map_res (finish_bucket (qa_answered a))"] unfolding finish_no_share fields(2) .
  have rows: "map_res finish_row (qa_matrix_rows a) = map_res finish_row (qa_matrix_rows b)"
    using arg_cong [OF fields(3), of "map_res finish_row"] unfolding finish_rows_no_share .
  have "count_where P (qa_counts a) = count_where P (qa_counts b)" for P
    using arg_cong [OF fields(1), of "count_where P"] unfolding count_no_share .
  then have "nps_of a = nps_of b" unfolding nps_of_def fields(2) by simp
  then have nps: "(if nps_source src then nps_of a else Inr (qa_nps a)) = (if nps_source src then nps_of b else Inr (qa_nps b))"
    using same(2) by auto
  obtain m bs rs n where u: "u = a\<lparr>qa_mean := m, qa_counts := bs, qa_matrix_rows := rs, qa_nps := n\<rparr>"
    "map_res (finish_bucket (qa_answered a)) (qa_counts a) = Inr bs" "map_res finish_row (qa_matrix_rows a) = Inr rs"
    "(if nps_source src then nps_of a else Inr (qa_nps a)) = Inr n"
    using finish_question_Inr [OF a] .
  obtain m' bs' rs' n' where v: "v = b\<lparr>qa_mean := m', qa_counts := bs', qa_matrix_rows := rs', qa_nps := n'\<rparr>"
    "map_res (finish_bucket (qa_answered b)) (qa_counts b) = Inr bs'" "map_res finish_row (qa_matrix_rows b) = Inr rs'"
    "(if nps_source src then nps_of b else Inr (qa_nps b)) = Inr n'"
    using finish_question_Inr [OF b] .
  have eqs: "bs' = bs" "rs' = rs" "n' = n" using counts rows nps u(2-4) v(2-4) by simp_all
  have out: "no_sums u = (counted a)\<lparr>qa_counts := bs, qa_matrix_rows := rs, qa_nps := n\<rparr>"
    "no_sums v = (counted b)\<lparr>qa_counts := bs', qa_matrix_rows := rs', qa_nps := n'\<rparr>"
    by (simp_all add: u(1) v(1) no_sums_def counted_def)
  show ?thesis unfolding out eqs same(1) ..
qed

lemma validated_no_sums: "validated_question (u, s) = Inr q \<Longrightarrow> no_sums q = no_sums u"
  by (auto simp: validated_question_def then_res_Inr_iff question_aggregate_init_def no_sums_def split: if_splits option.splits)

lemma finished_equal:
  assumes runs: "finish_aggregates d ts = Inr qs" "finish_aggregates d us = Inr rs"
    and same: "\<And>j. j < length ts \<Longrightarrow> counted (fst (ts ! j)) = counted (fst (us ! j))
      \<and> (nps_source (questions_of d ! j) \<or> qa_nps (fst (ts ! j)) = qa_nps (fst (us ! j)))"
  shows "map no_sums qs = map no_sums rs"
proof -
  obtain xs ys where x: "zip_strict finish_question ts (questions_of d) = Inr xs" "map_res validated_question xs = Inr qs"
    and y: "zip_strict finish_question us (questions_of d) = Inr ys" "map_res validated_question ys = Inr rs"
    using runs by (auto simp: finish_aggregates_def then_res_Inr_iff)
  have len: "length qs = length ts" "length rs = length ts" "length xs = length ts" "length ys = length ts"
    using x(1) y(1) map_res_length [OF x(2)] map_res_length [OF y(2)] by (auto simp: zip_strict_Inr)
  show ?thesis
  proof (rule nth_equalityI)
    fix j assume "j < length (map no_sums qs)"
    then have j: "j < length ts" using len by simp
    have xj: "finish_question (ts ! j) (questions_of d ! j) = Inr (xs ! j)" "validated_question (xs ! j) = Inr (qs ! j)"
      and yj: "finish_question (us ! j) (questions_of d ! j) = Inr (ys ! j)" "validated_question (ys ! j) = Inr (rs ! j)"
      using x y j len by (auto simp: zip_strict_Inr map_res_Inr_iff list_all2_conv_all_nth)
    obtain a s u s1 b s' v s2 where p: "ts ! j = (a, s)" "xs ! j = (u, s1)" "us ! j = (b, s')" "ys ! j = (v, s2)"
      by (metis surj_pair)
    have "no_sums u = no_sums v"
      using finish_counted [of a b "questions_of d ! j" s u s1 s' v s2] same [OF j] xj(1) yj(1) by (simp add: p)
    then show "map no_sums qs ! j = map no_sums rs ! j"
      using validated_no_sums [of u s1 "qs ! j"] validated_no_sums [of v s2 "rs ! j"] xj(2) yj(2) p j len by simp
  qed (simp add: len)
qed


section \<open>A service that counts each response\<close>

text \<open>
  What the service documents (\<^verbatim>\<open>aggregateApprovedSurvey\<close>): it starts from the questions of the definition, with their
  options and rows, and every response adds to the counts on its own; only the rating from 0 to 10 has an NPS.
\<close>

definition counts_each :: "analysis_service \<Rightarrow> pyval \<Rightarrow> question_aggregate list \<Rightarrow> (nat \<Rightarrow> cell \<Rightarrow> pyval \<Rightarrow> int) \<Rightarrow> bool" where
  "counts_each service d shape tally \<longleftrightarrow>
     (\<forall>rows qs. service (batch_body d rows) = Some qs \<longrightarrow> map layout qs = shape
        \<and> (\<forall>j < length qs. (\<forall>c. cell_in (qs ! j) c \<longrightarrow> cell_of (qs ! j) c = sum_list (map (tally j c) rows))
            \<and> (\<not> nps_source (questions_of d ! j) \<longrightarrow> qa_nps (qs ! j) = None)))"

definition one_pass :: "analysis_service \<Rightarrow> pyval \<Rightarrow> pyval list \<Rightarrow> question_aggregate list res" where
  "one_pass service d responses =
     (case service (batch_body d responses) of
        None \<Rightarrow> Inl (App Dependency_Unavailable ''survey_analysis_unavailable'')
      | Some qs \<Rightarrow> finish_aggregates d (map start_running qs))"

definition totals_of :: "pyval \<Rightarrow> question_aggregate list \<Rightarrow> (nat \<Rightarrow> cell \<Rightarrow> pyval \<Rightarrow> int) \<Rightarrow> pyval list \<Rightarrow> running list \<Rightarrow> bool" where
  "totals_of d shape tally rows ts \<longleftrightarrow> map (layout \<circ> fst) ts = shape
     \<and> (\<forall>j < length ts. (\<forall>c. cell_in (fst (ts ! j)) c \<longrightarrow> cell_of (fst (ts ! j)) c = sum_list (map (tally j c) rows))
          \<and> (\<not> nps_source (questions_of d ! j) \<longrightarrow> qa_nps (fst (ts ! j)) = None))"

lemma totalsD:
  assumes "totals_of d shape tally rows ts" "j < length ts"
  shows "cell_in (fst (ts ! j)) c \<Longrightarrow> cell_of (fst (ts ! j)) c = sum_list (map (tally j c) rows)"
    "nps_source (questions_of d ! j) \<or> qa_nps (fst (ts ! j)) = None"
  using assms by (auto simp: totals_of_def)

lemma layout_cells: "layout a = layout b \<Longrightarrow> cell_in a c = cell_in b c"
proof -
  assume lay: "layout a = layout b"
  have counts: "length (qa_counts a) = length (qa_counts b)"
    using arg_cong [OF lay, of "length \<circ> qa_counts"] by (simp add: layout_def)
  have rows: "map blank_row (qa_matrix_rows a) = map blank_row (qa_matrix_rows b)"
    using arg_cong [OF lay, of qa_matrix_rows] by (simp add: layout_def)
  then have len: "length (qa_matrix_rows a) = length (qa_matrix_rows b)" by (metis length_map)
  have "length (mr_counts (qa_matrix_rows a ! i)) = length (mr_counts (qa_matrix_rows b ! i))" if "i < length (qa_matrix_rows b)" for i
  proof -
    have "blank_row (qa_matrix_rows a ! i) = blank_row (qa_matrix_rows b ! i)"
      using arg_cong [OF rows, of "\<lambda>rs. rs ! i"] that len by simp
    from arg_cong [OF this, of "length \<circ> mr_counts"] show ?thesis by (simp add: blank_row_def)
  qed
  then show ?thesis using counts len by (cases c) auto
qed

lemma totals_start:
  assumes "counts_each service d shape tally" "service (batch_body d rows) = Some qs"
  shows "totals_of d shape tally rows (map start_running qs)"
proof -
  have "fst \<circ> start_running = id" by (auto simp: start_running_def)
  then show ?thesis using assms unfolding counts_each_def totals_of_def by (simp add: start_running_def comp_assoc)
qed

lemma totals_merge:
  assumes each: "counts_each service d shape tally" "service (batch_body d part) = Some vs"
    and ts: "totals_of d shape tally rows ts" and run: "merge_aggregates ts vs = Inr us"
  shows "totals_of d shape tally (rows @ part) us"
proof -
  have len: "length ts = length vs" "length us = length vs"
    and merged: "\<And>j. j < length vs \<Longrightarrow> merge_question (ts ! j) (vs ! j) = Inr (us ! j)"
    using run by (auto simp: merge_aggregates_def zip_strict_Inr)
  have v: "map layout vs = shape" "\<And>j c. j < length vs \<Longrightarrow> cell_in (vs ! j) c \<Longrightarrow> cell_of (vs ! j) c = sum_list (map (tally j c) part)"
    using each by (auto simp: counts_each_def)
  have same: "map (layout \<circ> fst) ts = map layout vs" using ts v(1) unfolding totals_of_def by simp
  have step: "layout (fst (us ! j)) = layout (fst (ts ! j)) \<and> qa_nps (fst (us ! j)) = qa_nps (fst (ts ! j))
      \<and> (\<forall>c. cell_in (fst (us ! j)) c \<longrightarrow> cell_of (fst (us ! j)) c = sum_list (map (tally j c) (rows @ part)))" if j: "j < length vs" for j
  proof -
    obtain t s u s' where p: "ts ! j = (t, s)" "us ! j = (u, s')" by (metis surj_pair)
    have q: "merge_question (t, s) (vs ! j) = Inr (u, s')" using merged [OF j] by (simp add: p)
    have lay: "layout t = layout (vs ! j)"
      using arg_cong [OF same, of "\<lambda>xs. xs ! j"] j len by (simp add: p)
    have "cell_of u c = sum_list (map (tally j c) (rows @ part))" if "cell_in u c" for c
      using merge_question_cells(3,4) [OF q, of c] that totalsD(1) [OF ts, of j c] v(2) [OF j, of c] layout_cells [OF lay, of c] j len
      by (simp add: p)
    then show ?thesis using merge_question_cells(1,2) [OF q] by (simp add: p)
  qed
  then have "map (layout \<circ> fst) us = map (layout \<circ> fst) ts" using len by (intro nth_equalityI) simp_all
  then show ?thesis using ts step len unfolding totals_of_def by simp
qed

lemma batch_replied: "aggregate_batch service d part = Inr vs \<Longrightarrow> service (batch_body d part) = Some vs"
  by (auto simp: aggregate_batch_def then_res_Inr_iff fail_with_def split: if_splits option.splits)

lemma add_batch_Inr:
  "add_batch service d (Some ts) part = Inr r \<longleftrightarrow>
     (\<exists>vs us. aggregate_batch service d part = Inr vs \<and> merge_aggregates ts vs = Inr us \<and> r = Some us)"
  "add_batch service d None part = Inr r \<longleftrightarrow> (\<exists>vs. aggregate_batch service d part = Inr vs \<and> r = Some (map start_running vs))"
  by (auto simp: add_batch_def then_res_Inr_iff)

lemma merged_batches:
  assumes merge: "\<And>part vs rows ts us. service (batch_body d part) = Some vs \<Longrightarrow> I rows ts \<Longrightarrow> merge_aggregates ts vs = Inr us \<Longrightarrow> I (rows @ part) us"
    and "fold_res (add_batch service d) (Some ts) parts = Inr result" "I rows ts"
  shows "\<exists>us. result = Some us \<and> I (rows @ concat parts) us"
  using assms(2,3)
proof (induction parts arbitrary: ts rows)
  case (Cons part parts)
  from Cons.prems(1) obtain vs us where vs: "aggregate_batch service d part = Inr vs" "merge_aggregates ts vs = Inr us"
    and rest: "fold_res (add_batch service d) (Some us) parts = Inr result"
    by (auto simp: add_batch_Inr then_res_Inr_iff)
  from Cons.IH [OF rest merge [OF batch_replied [OF vs(1)] Cons.prems(2) vs(2)]] show ?case by simp
qed auto

text \<open>What holds of the reply to one batch, and after merging one more, holds of all batches.\<close>

lemma selection_invariant:
  assumes start: "\<And>rows vs. service (batch_body d rows) = Some vs \<Longrightarrow> I rows (map start_running vs)"
    and merge: "\<And>part vs rows ts us. service (batch_body d part) = Some vs \<Longrightarrow> I rows ts \<Longrightarrow> merge_aggregates ts vs = Inr us \<Longrightarrow> I (rows @ part) us"
    and "validate_definition d = Inr ()" "list_all storable rs" "aggregate_selection service d rs = Inr qs"
  obtains ts where "I rs ts" "finish_aggregates d ts = Inr qs"
proof -
  obtain bs where bs: "make_batches d rs = Inr bs" "concat bs = rs" "bs \<noteq> []" by (rule batches_cut [OF assms(3,4)])
  then obtain p parts where parts: "bs = p # parts" by (cases bs) auto
  obtain vs result where vs: "aggregate_batch service d p = Inr vs"
    and rest: "fold_res (add_batch service d) (Some (map start_running vs)) parts = Inr result"
    and fin: "(case result of None \<Rightarrow> Inl Assertion_Error | Some ts \<Rightarrow> finish_aggregates d ts) = Inr qs"
    using assms(5) by (auto simp: aggregate_selection_def bs(1) parts then_res_Inr_iff add_batch_Inr)
  have "\<exists>us. result = Some us \<and> I (p @ concat parts) us"
    by (rule merged_batches [where I = I, OF _ rest start [OF batch_replied [OF vs]]]) (rule merge)
  then obtain us where "result = Some us" "I (p @ concat parts) us" by blast
  then show ?thesis using that [of us] fin bs(2) parts by simp
qed

section \<open>Extremes\<close>

text \<open>
  A number question: the numbers answered have a least and a greatest; without any the service gives neither, nor a sum.
\<close>

definition least :: "rat list \<Rightarrow> rat option" where
  "least xs = (if xs = [] then None else Some (Min (set xs)))"

definition greatest :: "rat list \<Rightarrow> rat option" where
  "greatest xs = (if xs = [] then None else Some (Max (set xs)))"

definition extremes_each :: "analysis_service \<Rightarrow> pyval \<Rightarrow> (nat \<Rightarrow> pyval \<Rightarrow> rat option) \<Rightarrow> bool" where
  "extremes_each service d reading \<longleftrightarrow>
     (\<forall>rows qs. service (batch_body d rows) = Some qs \<longrightarrow> (\<forall>j < length qs. let xs = List.map_filter (reading j) rows in
        qa_minimum (qs ! j) = least xs \<and> qa_maximum (qs ! j) = greatest xs \<and> (qa_sum (qs ! j) = None \<longleftrightarrow> xs = [])))"

definition extremes_of :: "(nat \<Rightarrow> pyval \<Rightarrow> rat option) \<Rightarrow> pyval list \<Rightarrow> running list \<Rightarrow> bool" where
  "extremes_of reading rows ts \<longleftrightarrow> (\<forall>j < length ts. qa_minimum (fst (ts ! j)) = least (List.map_filter (reading j) rows)
     \<and> qa_maximum (fst (ts ! j)) = greatest (List.map_filter (reading j) rows))"

lemma extremes_start:
  "extremes_each service d reading \<Longrightarrow> service (batch_body d rows) = Some qs \<Longrightarrow> extremes_of reading rows (map start_running qs)"
  by (auto simp: extremes_each_def extremes_of_def start_running_def Let_def)

lemma merge_extremes:
  assumes "merge_question (t, s) v = Inr (u, s')" "qa_minimum t = least xs" "qa_maximum t = greatest xs"
    and "qa_minimum v = least ys" "qa_maximum v = greatest ys" "qa_sum v = None \<longleftrightarrow> ys = []"
  shows "qa_minimum u = least (xs @ ys) \<and> qa_maximum u = greatest (xs @ ys)"
proof (cases "ys = []")
  case True
  then show ?thesis using assms by (auto simp: merge_question_def merge_numbers_def then_res_Inr_iff)
next
  case False
  then obtain q where q: "qa_sum v = Some q" using assms(6) by auto
  have "qa_minimum u = Some (case qa_minimum t of None \<Rightarrow> Min (set ys) | Some m \<Rightarrow> min m (Min (set ys)))
      \<and> qa_maximum u = Some (case qa_maximum t of None \<Rightarrow> Max (set ys) | Some m \<Rightarrow> max m (Max (set ys)))"
    using assms(1,4,5) False by (auto simp: merge_question_def merge_numbers_def then_res_Inr_iff q least_def greatest_def)
  then show ?thesis using False assms(2,3) by (simp add: least_def greatest_def Min_Un Max_Un)
qed

lemma extremes_merge:
  assumes "extremes_each service d reading" "service (batch_body d part) = Some vs"
    and ts: "extremes_of reading rows ts" and run: "merge_aggregates ts vs = Inr us"
  shows "extremes_of reading (rows @ part) us"
  unfolding extremes_of_def
proof (intro allI impI)
  fix j
  assume "j < length us"
  then have len: "j < length ts" "j < length vs" and merged: "merge_question (ts ! j) (vs ! j) = Inr (us ! j)"
    using run by (auto simp: merge_aggregates_def zip_strict_Inr)
  obtain t s u s' where p: "ts ! j = (t, s)" "us ! j = (u, s')" by (metis surj_pair)
  have "qa_minimum u = least (List.map_filter (reading j) rows @ List.map_filter (reading j) part)
      \<and> qa_maximum u = greatest (List.map_filter (reading j) rows @ List.map_filter (reading j) part)"
    using assms(1,2) ts len p by (intro merge_extremes [OF merged [unfolded p]]) (auto simp: extremes_each_def extremes_of_def Let_def)
  then show "qa_minimum (fst (us ! j)) = least (List.map_filter (reading j) (rows @ part))
      \<and> qa_maximum (fst (us ! j)) = greatest (List.map_filter (reading j) (rows @ part))"
    by (simp add: p List.map_filter_def)
qed

lemma question_init_keeps: "question_aggregate_init q = Inr r \<Longrightarrow> r = q"
  by (auto simp: question_aggregate_init_def then_res_Inr_iff split: if_splits option.splits)

lemma finished_extremes:
  assumes "finish_aggregates d ts = Inr qs" "extremes_of reading rows ts"
  shows "map qa_minimum qs = map (\<lambda>j. least (List.map_filter (reading j) rows)) [0..<length (questions_of d)]
    \<and> map qa_maximum qs = map (\<lambda>j. greatest (List.map_filter (reading j) rows)) [0..<length (questions_of d)]"
proof -
  obtain xs where x: "zip_strict finish_question ts (questions_of d) = Inr xs" "map_res validated_question xs = Inr qs"
    using assms(1) by (auto simp: finish_aggregates_def then_res_Inr_iff)
  have len: "length ts = length (questions_of d)" "length qs = length (questions_of d)" "length xs = length (questions_of d)"
    using x(1) map_res_length [OF x(2)] by (auto simp: zip_strict_Inr)
  have "qa_minimum (qs ! j) = qa_minimum (fst (ts ! j)) \<and> qa_maximum (qs ! j) = qa_maximum (fst (ts ! j))" if "j < length (questions_of d)" for j
  proof -
    have one: "finish_question (ts ! j) (questions_of d ! j) = Inr (xs ! j)" "validated_question (xs ! j) = Inr (qs ! j)"
      using x that len by (auto simp: zip_strict_Inr map_res_Inr_iff list_all2_conv_all_nth)
    obtain a s u s' where p: "ts ! j = (a, s)" "xs ! j = (u, s')" by (metis surj_pair)
    have "qa_minimum u = qa_minimum a \<and> qa_maximum u = qa_maximum a"
      using one(1) by (auto simp: p finish_question_def then_res_Inr_iff)
    moreover have "qa_minimum (qs ! j) = qa_minimum u \<and> qa_maximum (qs ! j) = qa_maximum u"
      using one(2) by (auto simp: p validated_question_def then_res_Inr_iff dest!: question_init_keeps)
    ultimately show ?thesis by (simp add: p)
  qed
  then show ?thesis using assms(2) len by (auto simp: extremes_of_def intro!: nth_equalityI)
qed

section \<open>Properties\<close>

text \<open>
  C13: Counting in batches gives what one unlimited request would give.  If the service counts each response on its own, the
  aggregate of a selection has the counts, shares and NPS of one request with all responses, for every question; and if it
  gives the least and the greatest of the numbers answered, these are the same too.  The sum and the mean of a number,
  which are rounded in another order, are not compared.
\<close>

theorem batches_count_alike:
  assumes "counts_each service d shape tally" "validate_definition d = Inr ()"
    and "list_all storable rs"
    and "aggregate_selection service d rs = Inr qs" "one_pass service d rs = Inr qs'"
  shows "map no_sums qs = map no_sums qs'
    \<and> (extremes_each service d reading \<longrightarrow> map qa_minimum qs = map qa_minimum qs' \<and> map qa_maximum qs = map qa_maximum qs')"
proof -
  obtain ts where ts: "totals_of d shape tally rs ts" "finish_aggregates d ts = Inr qs"
    by (rule selection_invariant [where I = "totals_of d shape tally", OF totals_start [OF assms(1)] totals_merge [OF assms(1)] assms(2-4)])
  obtain vs where vs: "service (batch_body d rs) = Some vs" "finish_aggregates d (map start_running vs) = Inr qs'"
    using assms(5) by (auto simp: one_pass_def split: option.splits)
  define us where "us = map start_running vs"
  have us: "totals_of d shape tally rs us" using totals_start [OF assms(1) vs(1)] by (simp add: us_def)
  have lay: "map (layout \<circ> fst) ts = map (layout \<circ> fst) us" using ts(1) us unfolding totals_of_def by simp
  then have len: "length us = length ts" by (metis length_map)
  have "counted (fst (ts ! j)) = counted (fst (us ! j)) \<and> (nps_source (questions_of d ! j) \<or> qa_nps (fst (ts ! j)) = qa_nps (fst (us ! j)))"
    if j: "j < length ts" for j
  proof -
    have one: "layout (fst (ts ! j)) = layout (fst (us ! j))" using arg_cong [OF lay, of "\<lambda>xs. xs ! j"] j len by simp
    have "cell_of (fst (ts ! j)) c = cell_of (fst (us ! j)) c" if "cell_in (fst (ts ! j)) c" for c
      using totalsD(1) [OF ts(1), of j c] totalsD(1) [OF us, of j c] layout_cells [OF one, of c] that j len by simp
    then have "counted (fst (ts ! j)) = counted (fst (us ! j))" by (rule counted_eq [OF one])
    moreover have "nps_source (questions_of d ! j) \<or> qa_nps (fst (ts ! j)) = qa_nps (fst (us ! j))"
      using totalsD(2) [OF ts(1) j] totalsD(2) [OF us, of j] j len by auto
    ultimately show ?thesis by blast
  qed
  then have counts: "map no_sums qs = map no_sums qs'" using finished_equal [OF ts(2) vs(2) [folded us_def]] by blast
  have "map qa_minimum qs = map qa_minimum qs' \<and> map qa_maximum qs = map qa_maximum qs'" if each: "extremes_each service d reading"
  proof -
    obtain ts where "extremes_of reading rs ts" "finish_aggregates d ts = Inr qs"
      by (rule selection_invariant [where I = "extremes_of reading", OF extremes_start [OF each] extremes_merge [OF each] assms(2-4)])
    then show ?thesis
      using finished_extremes [of d ts qs reading rs] finished_extremes [OF vs(2) extremes_start [OF each vs(1)]] by simp
  qed
  then show ?thesis using counts by blast
qed

text \<open>
  C14: Accepted definitions and stored answers are always cut into batches: they follow one another in the order of the
  responses, none is left out or doubled, none has more than a hundred responses, and its request exceeds
  the limit of 550,000 bytes by at most 98, and not at all with one or two responses.
\<close>

theorem batches_bounded:
  assumes "validate_definition d = Inr ()" "list_all storable rs"
  shows "\<exists>bs. make_batches d rs = Inr bs \<and> concat bs = rs
    \<and> (\<forall>b \<in> set bs. length b \<le> 100 \<and> (\<exists>n. json_size (batch_body d b) = Inr n \<and> n \<le> 550098 \<and> (length b \<le> 2 \<longrightarrow> n \<le> 550000)))"
proof -
  obtain bs n where bs: "make_batches d rs = Inr bs" "concat bs = rs" and n: "json_length d = Some n"
    and fit: "list_all (\<lambda>b. length b \<le> 100 \<and> n + 58 + rows_bytes b + length b \<le> 550000) bs"
    by (rule batches_cut [OF assms])
  have "length b \<le> 100 \<and> (\<exists>n. json_size (batch_body d b) = Inr n \<and> n \<le> 550098 \<and> (length b \<le> 2 \<longrightarrow> n \<le> 550000))"
    if b: "b \<in> set bs" for b
  proof -
    have "list_all (\<lambda>r. json_length r \<noteq> None) b" using assms(2) bs(2) b by (auto simp: list_all_iff storable_bytes)
    note size = body_bytes [OF n this]
    have fits: "n + 58 + rows_bytes b + length b \<le> 550000" "length b \<le> 100" using fit b unfolding list_all_iff by blast+
    let ?n = "n + 58 + rows_bytes b + 2 * (length b - 1)"
    have "json_size (batch_body d b) = Inr (int ?n)" using size by (simp add: json_size_def)
    moreover have "?n \<le> 550098" "length b \<le> 2 \<Longrightarrow> ?n \<le> 550000" using fits by linarith+
    ultimately show ?thesis using fits(2) by (intro conjI exI [of _ "int ?n"]) auto
  qed
  then show ?thesis using bs by blast
qed


section \<open>A selection that is refused\<close>

definition comment_question :: "string \<Rightarrow> pyval" where
  "comment_question k = VDict [entry ''type'' ''comment'', entry ''name'' k]"

definition comment_survey :: pyval where
  "comment_survey = VDict [(lit ''pages'', VList [VDict [entry ''name'' ''pp'',
     (lit ''elements'', VList (map comment_question [''a'', ''b'', ''c'', ''d'']))]])]"

text \<open>Three texts of 10,000 umlauts each, which \<^verbatim>\<open>json.dumps\<close> writes with six bytes, and a shorter one.\<close>

definition long_text :: "nat \<Rightarrow> pystr" where
  "long_text n = replicate n 252"

definition long_answers :: "(pystr \<times> pyval) list" where
  "long_answers = [(lit ''a'', VStr (long_text 10000)), (lit ''b'', VStr (long_text 10000)), (lit ''c'', VStr (long_text 10000)),
     (lit ''d'', VStr (long_text 536 @ lit ''ok''))]"

lemma comment_survey_valid: "validate_definition comment_survey = Inr ()"
  by code_simp

lemma comment_survey_bytes: "json_length comment_survey = Some 177"
  by code_simp

lemma long_text_length: "quoted_length (long_text n @ s) = 6 * n + quoted_length s" "quoted_length (long_text n) = 6 * n + 2"
  "utf16_length (long_text n) = Inr n" 
  by (simp_all add: quoted_length_def long_text_def escaped_length_def sum_list_replicate utf16_length_def utf16_units_def list_ex_iff)

lemma comment_accepted:
  assumes "map_of ms (lit k) = Some (VStr s)" "s \<noteq> []" "utf16_length s = Inr n" "n \<le> 10000"
  shows "answer_step True ms True (clean, seen) (comment_question k) = Inr (clean @ [(lit k, VStr s)], seen @ [lit k])"
proof -
  have m: "member ''name'' (comment_question k) = Some (VStr (lit k))" "kind_of (comment_question k) = Some ''comment''"
    "member ''visibleIf'' (comment_question k) = None" "member ''inputType'' (comment_question k) = None"
    "member ''minLength'' (comment_question k) = None" "member ''maxLength'' (comment_question k) = None"
    by (simp_all add: comment_question_def entry_def member_def kind_of_def lit_def type_keys_def)
  show ?thesis
    by (simp add: answer_step_def m visible_if_def assms empty_answer_def check_answer_def check_text_def input_is_def int_member_def text_of_def Let_def)
qed

lemma long_answers_bytes: "json_length (VDict long_answers) = Some 183254"
proof -
  have "quoted_length (lit [k]) = 3" if "k \<in> set ''abcd''" for k using that by auto code_simp+
  moreover have "quoted_length (lit ''ok'') = 4" by code_simp
  ultimately show ?thesis by (simp add: long_answers_def long_text_length)
qed

lemma long_answers_size: "json_size (VDict long_answers) = Inr 183254"
  unfolding json_size_def long_answers_bytes by simp

lemma long_answers_accepted: "validate_answers comment_survey (VDict long_answers) True = Inr long_answers"
proof -
  have page: "pages_of comment_survey = [VDict [entry ''name'' ''pp'', (lit ''elements'', VList (map comment_question [''a'', ''b'', ''c'', ''d'']))]]"
    "question_names comment_survey = map lit [''a'', ''b'', ''c'', ''d'']"
    by (simp_all add: question_names_def pages_of_def items_of_def comment_survey_def comment_question_def member_def lit_def entry_def text_of_def)
  have texts: "map_of long_answers (lit ''a'') = Some (VStr (long_text 10000))" "map_of long_answers (lit ''b'') = Some (VStr (long_text 10000))"
    "map_of long_answers (lit ''c'') = Some (VStr (long_text 10000))" "map_of long_answers (lit ''d'') = Some (VStr (long_text 536 @ lit ''ok''))"
    by (simp_all add: long_answers_def lit_def)
  have "long_text 10000 \<noteq> []" "long_text 536 @ lit ''ok'' \<noteq> []" "utf16_length (long_text 536 @ lit ''ok'') = Inr 538"
    by (simp_all add: long_text_def lit_def utf16_length_def utf16_units_def list_ex_iff sum_list_replicate)
  note steps = comment_accepted [OF texts(1) this(1) long_text_length(3)] comment_accepted [OF texts(2) this(1) long_text_length(3)]
    comment_accepted [OF texts(3) this(1) long_text_length(3)] comment_accepted [OF texts(4) this(2,3)]
  have "page_step True long_answers ([], []) (hd (pages_of comment_survey)) = Inr (long_answers, map lit [''a'', ''b'', ''c'', ''d''])"
    by (simp add: page_step_def visible_if_def page steps member_def items_of_def lit_def entry_def) (simp add: long_answers_def lit_def)
  then have run: "fold_res (page_step True long_answers) ([], []) (pages_of comment_survey) = Inr (long_answers, map lit [''a'', ''b'', ''c'', ''d''])"
    by (simp add: page)
  have "map fst long_answers = map lit [''a'', ''b'', ''c'', ''d'']" by (simp add: long_answers_def)
  then show ?thesis
    unfolding validate_answers_def comment_survey_valid pyval.case then_res_simps long_answers_size run page(2) by (simp add: list_ex_iff)
qed

text \<open>
  C15: A selection can be refused that the batches were made for.  The separator between two responses takes two
  bytes in the text that is measured and is counted as one: three accepted answers to an accepted survey of four
  questions are put into one batch, whose request then has 550,001 bytes and ends in
  \<^verbatim>\<open>limit_exceeded\<close>, whatever the service is.
\<close>

theorem full_batch_refused:
  "validate_definition comment_survey = Inr () \<and> validate_answers comment_survey (VDict long_answers) True = Inr long_answers
    \<and> make_batches comment_survey (replicate 3 (VDict long_answers)) = Inr [replicate 3 (VDict long_answers)]
    \<and> aggregate_selection service comment_survey (replicate 3 (VDict long_answers)) = Inl (Invariant ''limit_exceeded'')"
proof -
  let ?r = "VDict long_answers"
  have base: "json_size (batch_body comment_survey []) = Inr 235"
    using body_bytes [OF comment_survey_bytes, of "[]"] by (simp add: json_size_def rows_bytes_def)
  note r = long_answers_size
  have cut: "make_batches comment_survey (replicate 3 ?r) = Inr [replicate 3 ?r]"
    by (simp add: make_batches_def base batch_step_def r numeral_3_eq_3)
  have "json_length ?r \<noteq> None" "response_bytes ?r = 183254" unfolding response_bytes_def long_answers_bytes by simp_all
  then have "list_all (\<lambda>r. json_length r \<noteq> None) (replicate 3 ?r)" "rows_bytes (replicate 3 ?r) = 549762"
    unfolding rows_bytes_def by (simp_all only: list_all_iff set_replicate_conv_if map_replicate sum_list_replicate, auto)
  then have "json_length (batch_body comment_survey (replicate 3 ?r)) = Some (177 + 58 + 549762 + 2 * (3 - 1))"
    using body_bytes [OF comment_survey_bytes, of "replicate 3 ?r"] by (simp only: length_replicate)
  then have "json_size (batch_body comment_survey (replicate 3 ?r)) = Inr 550001"
    unfolding json_size_def by simp
  then have "aggregate_batch service comment_survey (replicate 3 ?r) = Inl (Invariant ''limit_exceeded'')"
    by (simp add: aggregate_batch_def comment_survey_valid fail_with_def)
  then show ?thesis
    using cut comment_survey_valid long_answers_accepted by (simp add: aggregate_selection_def add_batch_def)
qed


section \<open>The properties at a concrete survey\<close>

definition choice_survey :: pyval where
  "choice_survey = VDict [(lit ''pages'', VList [VDict [entry ''name'' ''p'', (lit ''elements'', VList [
     VDict [entry ''type'' ''radiogroup'', entry ''name'' ''q'', (lit ''choices'', VList [VStr (lit ''ja''), VStr (lit ''nein'')])]])]])]"

fun choice_count :: "cell \<Rightarrow> pyval \<Rightarrow> int" where
  "choice_count Cell_Relevant r = 1"
| "choice_count Cell_Answered r = (if member ''q'' r \<in> {Some (VStr (lit ''ja'')), Some (VStr (lit ''nein''))} then 1 else 0)"
| "choice_count Cell_Unanswered r = (if member ''q'' r = None then 1 else 0)"
| "choice_count Cell_Hidden r = 0"
| "choice_count Cell_Invalid r =
     (if member ''q'' r \<in> {None, Some (VStr (lit ''ja'')), Some (VStr (lit ''nein''))} then 0 else 1)"
| "choice_count (Cell_Bucket i) r = (if member ''q'' r = Some (VStr (lit (if i = 0 then ''ja'' else ''nein''))) then 1 else 0)"
| "choice_count _ r = 0"

definition choice_reply :: "pyval list \<Rightarrow> question_aggregate" where
  "choice_reply rows = (let number = (\<lambda>c. sum_list (map (choice_count c) rows)) in
     \<lparr>qa_question_id = lit ''q'', qa_title = lit ''q'', qa_kind = Kind_Radiogroup, qa_relevant = number Cell_Relevant,
      qa_answered = number Cell_Answered, qa_unanswered = number Cell_Unanswered, qa_hidden = number Cell_Hidden,
      qa_invalid = number Cell_Invalid,
      qa_counts = [\<lparr>ac_value = VStr (lit ''ja''), ac_label = lit ''ja'', ac_count = number (Cell_Bucket 0), ac_percentage = None\<rparr>,
        \<lparr>ac_value = VStr (lit ''nein''), ac_label = lit ''nein'', ac_count = number (Cell_Bucket 1), ac_percentage = None\<rparr>],
      qa_sum = None, qa_mean = None, qa_minimum = None, qa_maximum = None, qa_nps = None, qa_matrix_rows = []\<rparr>)"

definition choice_service :: analysis_service where
  "choice_service body = (case member ''responses'' body of Some (VList rows) \<Rightarrow> Some [choice_reply rows] | _ \<Rightarrow> None)"

lemma choice_service_counts: "counts_each choice_service choice_survey [layout (choice_reply [])] (\<lambda>_. choice_count)"
proof -
  have reply: "choice_service (batch_body d rows) = Some [choice_reply rows]" for d rows
    by (simp add: choice_service_def batch_body_def member_def lit_def)
  have "cell_of (choice_reply rows) c = sum_list (map (choice_count c) rows)" if "cell_in (choice_reply rows) c" for rows c
    using that by (cases c) (auto simp: choice_reply_def Let_def less_Suc_eq)
  then show ?thesis
    unfolding counts_each_def reply by (auto simp: layout_def choice_reply_def Let_def blank_bucket_def)
qed

definition choice_answers :: "pyval list" where
  "choice_answers = [VDict [entry ''q'' ''ja''], VDict [], VDict [entry ''q'' ''ja'']]"

lemma choice_survey_valid: "validate_definition choice_survey = Inr ()"
  by code_simp

lemma choice_runs:
  "\<not> raises (aggregate_selection choice_service choice_survey choice_answers)"
  "\<not> raises (one_pass choice_service choice_survey choice_answers)"
proof -
  have cut: "make_batches choice_survey choice_answers = Inr [choice_answers]" by code_simp
  have reply: "aggregate_batch choice_service choice_survey choice_answers = Inr [choice_reply choice_answers]" by code_simp
  have fin: "\<not> raises (finish_aggregates choice_survey [start_running (choice_reply choice_answers)])" by code_simp
  show "\<not> raises (aggregate_selection choice_service choice_survey choice_answers)"
    using fin by (simp add: aggregate_selection_def cut add_batch_def reply)
  show "\<not> raises (one_pass choice_service choice_survey choice_answers)"
    using fin by (simp add: one_pass_def batch_replied [OF reply])
qed

lemma choice_service_extremes: "extremes_each choice_service choice_survey (\<lambda>_ _. None)"
  by (auto simp: extremes_each_def choice_service_def batch_body_def member_def lit_def choice_reply_def least_def greatest_def
      List.map_filter_def Let_def)

theorem batches_count_alike_witness:
  "\<exists>qs qs'. aggregate_selection choice_service choice_survey choice_answers = Inr qs \<and> one_pass choice_service choice_survey choice_answers = Inr qs'
    \<and> map no_sums qs = map no_sums qs' \<and> map qa_minimum qs = map qa_minimum qs'"
proof -
  obtain qs qs' where run: "aggregate_selection choice_service choice_survey choice_answers = Inr qs"
    "one_pass choice_service choice_survey choice_answers = Inr qs'" using choice_runs by (auto simp: not_raises_iff)
  have "list_all storable choice_answers" by code_simp
  from batches_count_alike [OF choice_service_counts choice_survey_valid this run] show ?thesis using run choice_service_extremes by blast
qed

theorem batches_bounded_witness: "\<exists>bs. make_batches choice_survey choice_answers = Inr bs \<and> concat bs = choice_answers"
proof -
  have "list_all storable choice_answers" by code_simp
  from batches_bounded [OF choice_survey_valid this] show ?thesis by blast
qed

end
