(* ===== verification/Survey_Snapshot.thy ===== *)
theory Survey_Snapshot
  imports Survey_Access Survey_Selection "HOL-Library.Multiset"
begin

text \<open>
  How a selection of participations is frozen: \<^verbatim>\<open>create_snapshot\<close> and \<^verbatim>\<open>read_snapshot\<close> of
  \<^verbatim>\<open>modules/surveys/adapters/postgres/survey_analysis.py\<close> over the tables of versions, participations and snapshots.
  The filter is a validated one, its dates in the form \<^verbatim>\<open>isoformat\<close> writes.  The bytes PostgreSQL counts for the text of
  a \<^verbatim>\<open>jsonb\<close> value are the argument \<open>octets\<close>; the new identifier and the clock are arguments.
\<close>

section \<open>Tables\<close>

datatype access_mode = Anonymous | By_Invitation

record survey_row =
  sw_id :: uuid
  sw_title :: pystr
  sw_status :: survey_status
  sw_revision :: int
  sw_owner_user_id :: uuid
  sw_action_id :: "uuid option"
  sw_access_mode :: access_mode
  sw_timeout_seconds :: "int option"
  sw_published_version_id :: "uuid option"
  sw_ends_at :: "datetime option"
  sw_deleted_at :: "datetime option"

record version_row =
  vr_id :: uuid
  vr_survey_id :: uuid
  vr_number :: int
  vr_capability_profile :: pystr
  vr_renderer_version :: pystr
  vr_definition :: pyval
  vr_schema_hash :: pystr
  vr_published_at :: datetime

record participation =
  pa_id :: uuid
  pa_survey_id :: uuid
  pa_version_id :: uuid
  pa_resume_digest :: pystr
  pa_is_test :: bool
  pa_status :: response_status
  pa_revision :: int
  pa_answers :: pyval
  pa_current_page :: "pystr option"
  pa_timeout_seconds :: int
  pa_last_answer_at :: "datetime option"
  pa_completed_at :: "datetime option"
  pa_expires_at :: "datetime option"
  pa_revoked_at :: "datetime option"
  pa_created_at :: datetime

record private_response =
  pv_participation_id :: pystr
  pv_revision :: int
  pv_status :: response_status
  pv_answers :: pyval
  pv_current_page :: "pystr option"
  pv_created_at :: pystr
  pv_completed_at :: "pystr option"

record stored_snapshot =
  st_id :: uuid
  st_survey_id :: uuid
  st_version_id :: uuid
  st_payload :: analysis_snapshot
  st_private :: "private_response list"
  st_created_at :: datetime

record survey_db =
  su_versions :: "version_row list"
  su_participations :: "participation list"
  su_snapshots :: "stored_snapshot list"

section \<open>The selection\<close>

definition effective_status :: "datetime \<Rightarrow> bool \<Rightarrow> participation \<Rightarrow> response_status" where
  "effective_status captured over p =
     (if pa_status p = Completed then Completed
      else if pa_status p = Partial \<or> over
        \<or> instant (case pa_last_answer_at p of None \<Rightarrow> pa_created_at p | Some t \<Rightarrow> t) + pa_timeout_seconds p * 1000000
            \<le> instant captured
      then Partial else In_Progress)"

definition finished_before :: "datetime \<Rightarrow> participation \<Rightarrow> bool" where
  "finished_before e p \<longleftrightarrow> pa_status p = Completed
     \<and> (case pa_completed_at p of None \<Rightarrow> False | Some t \<Rightarrow> instant t < instant e)"

definition in_scope ::
  "uuid \<Rightarrow> uuid \<Rightarrow> bool \<Rightarrow> datetime option \<Rightarrow> datetime option \<Rightarrow> bool \<Rightarrow> participation \<Rightarrow> bool" where
  "in_scope survey version test from before settled p \<longleftrightarrow>
     pa_survey_id p = survey \<and> pa_version_id p = version \<and> pa_is_test p = test
     \<and> (case from of None \<Rightarrow> True | Some t \<Rightarrow> instant t \<le> instant (pa_created_at p))
     \<and> (case before of None \<Rightarrow> True | Some t \<Rightarrow> instant (pa_created_at p) < instant t)
     \<and> (settled \<longrightarrow> (case before of None \<Rightarrow> False | Some t \<Rightarrow> finished_before t p))"

text \<open>\<^verbatim>\<open>ORDER BY created_at,id\<close>\<close>

definition in_order :: "participation list \<Rightarrow> participation list" where
  "in_order ps = sort_key (\<lambda>p. instant (pa_created_at p)) (sort_key pa_id ps)"

definition private_of :: "(participation \<Rightarrow> response_status) \<Rightarrow> participation \<Rightarrow> private_response" where
  "private_of status p = \<lparr>pv_participation_id = uuid_str (pa_id p), pv_revision = pa_revision p, pv_status = status p,
     pv_answers = pa_answers p, pv_current_page = pa_current_page p, pv_created_at = iso_datetime (pa_created_at p),
     pv_completed_at = map_option iso_datetime (pa_completed_at p)\<rparr>"

definition optional_moment :: "pystr option \<Rightarrow> datetime option res" where
  "optional_moment t = (if t = None \<or> t = Some [] then Inr None else then_res (from_iso (the t)) (\<lambda>d. Inr (Some d)))"

definition select_participations ::
  "(pyval \<Rightarrow> int) \<Rightarrow> (participation \<Rightarrow> response_status) \<Rightarrow> response_status list \<Rightarrow> participation list \<Rightarrow> participation list res" where
  "select_participations octets status statuses scoped =
     (let selected = filter (\<lambda>p. status p \<in> set statuses) scoped in
      if 5000 < int (length selected) \<or> 32 * 1024 * 1024 < sum_list (map (octets \<circ> pa_answers) selected)
      then Inl (Invariant ''limit_exceeded'') else Inr (in_order selected))"

section \<open>Snapshots\<close>

definition snapshot_of ::
  "uuid \<Rightarrow> survey_row \<Rightarrow> datetime \<Rightarrow> analysis_filter \<Rightarrow> bool \<Rightarrow> version_row \<Rightarrow> (response_status \<Rightarrow> int) \<Rightarrow> participation list
   \<Rightarrow> question_aggregate list \<Rightarrow> snapshot_dependencies \<Rightarrow> analysis_snapshot" where
  "snapshot_of sid s captured f settled v counts rows questions deps =
     \<lparr>sn_id = uuid_str sid, sn_survey_id = uuid_str (sw_id s), sn_created_at = iso_datetime captured, sn_filter = f,
      sn_version_number = vr_number v, sn_renderer_version = vr_renderer_version v,
      sn_capability_profile = vr_capability_profile v, sn_participation_count = int (length rows),
      sn_status_counts = counts, sn_last_page_counts = last_page_counts (vr_definition v) (map pa_current_page rows),
      sn_questions = questions, sn_dependencies = Some deps, sn_policy = (if settled then Settled else Reader)\<rparr>"

definition closed_at :: "survey_row \<Rightarrow> datetime \<Rightarrow> bool" where
  "closed_at s captured \<longleftrightarrow> sw_status s \<in> {Ended_Survey, Archived_Survey}
     \<or> (case sw_ends_at s of None \<Rightarrow> False | Some e \<Rightarrow> instant e \<le> instant captured)"

definition find_version :: "survey_db \<Rightarrow> uuid \<Rightarrow> pystr \<Rightarrow> version_row option res" where
  "find_version db survey text =
     (case parse_uuid text of None \<Rightarrow> Inl Value_Error
      | Some u \<Rightarrow> Inr (find (\<lambda>v. vr_survey_id v = survey \<and> vr_id v = u) (su_versions db)))"

definition freeze_version ::
  "analysis_service \<Rightarrow> (pyval \<Rightarrow> int) \<Rightarrow> uuid \<Rightarrow> datetime \<Rightarrow> survey_row \<Rightarrow> analysis_filter \<Rightarrow> bool \<Rightarrow> version_row
   \<Rightarrow> survey_db \<Rightarrow> (analysis_snapshot \<times> survey_db) res" where
  "freeze_version service octets sid captured s f settled v db =
     then_res (optional_moment (af_created_from f)) (\<lambda>since.
     then_res (optional_moment (af_created_before f)) (\<lambda>before.
     let status = effective_status captured (closed_at s captured);
         scoped = filter (in_scope (sw_id s) (vr_id v) (af_is_test f) since before settled) (su_participations db);
         counts = (\<lambda>k. int (length (filter (\<lambda>p. status p = k) scoped))) in
     then_res (select_participations octets status (af_statuses f) scoped) (\<lambda>rows.
     then_res (aggregate_selection service (vr_definition v) (map pa_answers rows)) (\<lambda>questions.
     then_res (dependencies (vr_definition v)) (\<lambda>deps.
     then_res (analysis_snapshot_init (snapshot_of sid s captured f settled v counts rows questions deps)) (\<lambda>snapshot.
     if list_ex (\<lambda>x. st_id x = sid) (su_snapshots db) then Inl Unique_Violation
     else Inr (snapshot, db\<lparr>su_snapshots := su_snapshots db @ [\<lparr>st_id = sid, st_survey_id = sw_id s, st_version_id = vr_id v,
       st_payload = snapshot, st_private = map (private_of status) rows, st_created_at = captured\<rparr>]\<rparr>)))))))"

definition create_snapshot ::
  "analysis_service \<Rightarrow> (pyval \<Rightarrow> int) \<Rightarrow> uuid \<Rightarrow> datetime \<Rightarrow> survey_row \<Rightarrow> analysis_filter \<Rightarrow> bool \<Rightarrow> survey_db
   \<Rightarrow> (analysis_snapshot \<times> survey_db) res" where
  "create_snapshot service octets sid captured s f settled db =
     (if settled \<and> (af_created_before f = None \<or> af_statuses f \<noteq> [Completed]) then Inl Value_Error
      else then_res (find_version db (sw_id s) (af_version_id f)) (\<lambda>found.
      case found of
        None \<Rightarrow> Inl (App Resource_Not_Found ''not_found'')
      | Some v \<Rightarrow>
          if vr_capability_profile v \<noteq> lit ''initial-v1'' \<or> vr_renderer_version v \<noteq> lit ''3.0.3''
          then Inl (App Conflict ''unsupported_capability'')
          else freeze_version service octets sid captured s f settled v db))"

definition read_snapshot :: "uuid \<Rightarrow> uuid \<Rightarrow> bool \<Rightarrow> survey_db \<Rightarrow> analysis_snapshot res" where
  "read_snapshot survey sid can_test db =
     (case find (\<lambda>x. st_survey_id x = survey \<and> st_id x = sid) (su_snapshots db) of
        None \<Rightarrow> Inl (App Resource_Not_Found ''not_found'')
      | Some x \<Rightarrow> then_res (analysis_snapshot_init (st_payload x)) (\<lambda>snapshot.
          if af_is_test (sn_filter snapshot) \<and> \<not> can_test then Inl (App Resource_Not_Found ''not_found'')
          else Inr snapshot))"


section \<open>The selected participations\<close>

lemma in_order_mset: "mset (in_order ps) = mset ps"
  by (simp add: in_order_def)

lemma in_order_unique:
  assumes "mset ps = mset qs" "inj_on pa_id (set ps)"
  shows "in_order ps = in_order qs"
proof -
  have "sort_key pa_id ps = sort_key pa_id qs"
    using assms by (intro sort_key_inj_key_eq) simp_all
  then show ?thesis by (simp add: in_order_def)
qed

lemma in_order_sorted: "sorted (map (\<lambda>p. instant (pa_created_at p)) (in_order ps))"
  by (simp add: in_order_def)

definition snapshot_rows :: "(participation \<Rightarrow> response_status) \<Rightarrow> response_status list \<Rightarrow> participation list \<Rightarrow> participation list" where
  "snapshot_rows status statuses scoped = in_order (filter (\<lambda>p. status p \<in> set statuses) scoped)"

lemma select_Inr:
  "select_participations octets status statuses scoped = Inr rows \<Longrightarrow>
     rows = snapshot_rows status statuses scoped \<and> length rows \<le> 5000"
  by (auto simp: select_participations_def snapshot_rows_def Let_def in_order_def split: if_splits)

lemma select_cong:
  assumes "mset scoped = mset scoped'" "inj_on pa_id (set scoped)" "\<And>p. p \<in> set scoped \<Longrightarrow> status p = status' p"
  shows "select_participations octets status statuses scoped = select_participations octets status' statuses scoped'"
proof -
  let ?sel = "filter (\<lambda>p. status p \<in> set statuses) scoped" and ?sel' = "filter (\<lambda>p. status' p \<in> set statuses) scoped'"
  have "?sel = filter (\<lambda>p. status' p \<in> set statuses) scoped" using assms(3) by (intro filter_cong) simp_all
  then have same: "mset ?sel = mset ?sel'" using assms(1) by simp
  have "length ?sel = length ?sel'" using arg_cong [OF same, of size] by (simp only: size_mset)
  moreover have "sum_list (map (octets \<circ> pa_answers) ?sel) = sum_list (map (octets \<circ> pa_answers) ?sel')"
    using arg_cong [OF same, of "\<lambda>m. sum_mset (image_mset (octets \<circ> pa_answers) m)"]
    by (simp only: mset_map [symmetric] sum_mset_sum_list)
  moreover have "in_order ?sel = in_order ?sel'" using same assms(2) by (intro in_order_unique) (auto intro: inj_on_subset)
  ultimately show ?thesis by (simp add: select_participations_def Let_def)
qed

lemma create_snapshot_Inr:
  "create_snapshot service octets sid captured s f settled db = Inr r \<longleftrightarrow>
     (settled \<longrightarrow> af_created_before f \<noteq> None \<and> af_statuses f = [Completed])
     \<and> (\<exists>v. find_version db (sw_id s) (af_version_id f) = Inr (Some v) \<and> vr_capability_profile v = lit ''initial-v1''
          \<and> vr_renderer_version v = lit ''3.0.3'' \<and> freeze_version service octets sid captured s f settled v db = Inr r)"
  by (auto simp: create_snapshot_def then_res_Inr_iff split: option.splits if_splits)

lemma freeze_version_Inr:
  assumes "freeze_version service octets sid captured s f settled v db = Inr (snapshot, db')"
  obtains since before rows questions deps where
    "optional_moment (af_created_from f) = Inr since" "optional_moment (af_created_before f) = Inr before"
    "select_participations octets (effective_status captured (closed_at s captured)) (af_statuses f)
       (filter (in_scope (sw_id s) (vr_id v) (af_is_test f) since before settled) (su_participations db)) = Inr rows"
    "aggregate_selection service (vr_definition v) (map pa_answers rows) = Inr questions"
    "dependencies (vr_definition v) = Inr deps"
    "analysis_snapshot_init (snapshot_of sid s captured f settled v
       (\<lambda>k. int (length (filter (\<lambda>p. effective_status captured (closed_at s captured) p = k)
          (filter (in_scope (sw_id s) (vr_id v) (af_is_test f) since before settled) (su_participations db)))))
       rows questions deps) = Inr snapshot"
    "db' = db\<lparr>su_snapshots := su_snapshots db @ [\<lparr>st_id = sid, st_survey_id = sw_id s, st_version_id = vr_id v,
       st_payload = snapshot, st_private = map (private_of (effective_status captured (closed_at s captured))) rows,
       st_created_at = captured\<rparr>]\<rparr>"
    "\<not> list_ex (\<lambda>x. st_id x = sid) (su_snapshots db)"
  using assms unfolding freeze_version_def Let_def then_res_Inr_iff if_raise_Inr_iff sum.inject prod.inject
  by (elim exE conjE) (rule that, assumption, assumption, assumption, assumption, assumption, simp only:, simp only:, assumption)

lemma snapshot_moved:
  assumes "analysis_snapshot_init (snapshot_of sid s captured f settled v counts rows questions deps) = Inr snapshot" "sw_id s' = sw_id s"
  shows "snapshot = snapshot_of sid s captured f settled v counts rows questions deps"
    "analysis_snapshot_init (snapshot_of sid' s' captured' f settled v counts rows questions deps)
       = Inr (snapshot\<lparr>sn_id := uuid_str sid', sn_created_at := iso_datetime captured'\<rparr>)"
proof -
  let ?x = "snapshot_of sid s captured f settled v counts rows questions deps"
  show kept: "snapshot = ?x" using assms(1) by (auto simp: analysis_snapshot_init_def then_res_Inr_iff split: if_splits)
  have "snapshot_of sid' s' captured' f settled v counts rows questions deps
      = ?x\<lparr>sn_id := uuid_str sid', sn_created_at := iso_datetime captured'\<rparr>" by (simp add: snapshot_of_def assms(2))
  moreover have "analysis_snapshot_init (y\<lparr>sn_id := a, sn_created_at := b\<rparr>) = Inr (y\<lparr>sn_id := a, sn_created_at := b\<rparr>)"
    if "analysis_snapshot_init y = Inr y" for y a b
    using that unfolding analysis_snapshot_init_def by (auto simp: then_res_Inr_iff split: if_splits)
  ultimately show "analysis_snapshot_init (snapshot_of sid' s' captured' f settled v counts rows questions deps)
       = Inr (snapshot\<lparr>sn_id := uuid_str sid', sn_created_at := iso_datetime captured'\<rparr>)"
    using assms(1) kept by simp
qed

definition finished_in :: "uuid \<Rightarrow> datetime \<Rightarrow> participation \<Rightarrow> bool" where
  "finished_in survey e p \<longleftrightarrow> pa_survey_id p = survey \<and> finished_before e p"

lemma settled_scope:
  "filter (in_scope survey version test since (Some e) True) ps
     = filter (in_scope survey version test since (Some e) False) (filter (finished_in survey e) ps)"
  unfolding filter_filter by (rule filter_cong) (auto simp: in_scope_def finished_in_def)

lemma settled_completed: "p \<in> set (filter (in_scope survey version test since (Some e) True) ps) \<Longrightarrow> effective_status captured over p = Completed"
  by (simp add: in_scope_def finished_before_def effective_status_def)

lemma find_after: "u \<notin> f ` set xs \<Longrightarrow> find (\<lambda>x. P x \<and> f x = u) (xs @ ys) = find (\<lambda>x. P x \<and> f x = u) ys"
  by (induction xs) auto

section \<open>Properties\<close>

text \<open>
  A settled snapshot reads the same for ever.  For accounts without raw access, whose selections end with a whole
  past day, the snapshot depends only on the participations completed before that end: whatever else is answered,
  completed, changed or deleted, whether the survey is still open and whenever it is read, a new snapshot
  differs in its identifier and its time alone, and freezes the same answers.
\<close>

lemma settled_stable:
  assumes run: "create_snapshot service octets sid captured s f True db = Inr (snapshot, after)"
    and same: "sw_id s' = sw_id s" "find_version db' (sw_id s) (af_version_id f) = find_version db (sw_id s) (af_version_id f)"
      "distinct (map pa_id (su_participations db))"
    and settled: "\<And>e. optional_moment (af_created_before f) = Inr (Some e) \<Longrightarrow>
      mset (filter (finished_in (sw_id s) e) (su_participations db')) = mset (filter (finished_in (sw_id s) e) (su_participations db))"
    and fresh: "sid' \<notin> st_id ` set (su_snapshots db')"
  shows "\<exists>after'. create_snapshot service octets sid' captured' s' f True db'
      = Inr (snapshot\<lparr>sn_id := uuid_str sid', sn_created_at := iso_datetime captured'\<rparr>, after')
    \<and> st_private (last (su_snapshots after')) = st_private (last (su_snapshots after))"
proof -
  obtain v where v: "find_version db (sw_id s) (af_version_id f) = Inr (Some v)" "vr_capability_profile v = lit ''initial-v1''"
    "vr_renderer_version v = lit ''3.0.3''" "freeze_version service octets sid captured s f True v db = Inr (snapshot, after)"
    and f: "af_created_before f \<noteq> None" "af_statuses f = [Completed]"
    using run unfolding create_snapshot_Inr by auto
  let ?st = "effective_status captured (closed_at s captured)" and ?st' = "effective_status captured' (closed_at s' captured')"
  obtain since before rows questions deps where k:
    "optional_moment (af_created_from f) = Inr since" "optional_moment (af_created_before f) = Inr before"
    "select_participations octets ?st (af_statuses f)
       (filter (in_scope (sw_id s) (vr_id v) (af_is_test f) since before True) (su_participations db)) = Inr rows"
    "aggregate_selection service (vr_definition v) (map pa_answers rows) = Inr questions" "dependencies (vr_definition v) = Inr deps"
    "analysis_snapshot_init (snapshot_of sid s captured f True v
       (\<lambda>k. int (length (filter (\<lambda>p. ?st p = k)
          (filter (in_scope (sw_id s) (vr_id v) (af_is_test f) since before True) (su_participations db)))))
       rows questions deps) = Inr snapshot"
    "after = db\<lparr>su_snapshots := su_snapshots db @ [\<lparr>st_id = sid, st_survey_id = sw_id s, st_version_id = vr_id v,
       st_payload = snapshot, st_private = map (private_of ?st) rows, st_created_at = captured\<rparr>]\<rparr>"
    using freeze_version_Inr [OF v(4)] .
  let ?in = "filter (in_scope (sw_id s) (vr_id v) (af_is_test f) since before True)"
  let ?sc = "?in (su_participations db)" and ?sc' = "?in (su_participations db')"
  have one: "?st p = Completed" if "p \<in> set ?sc" for p
    using that by (cases before) (auto simp: in_scope_def finished_before_def effective_status_def)
  have two: "?st' p = Completed" if "p \<in> set ?sc'" for p
    using that by (cases before) (auto simp: in_scope_def finished_before_def effective_status_def)
  have mset: "mset ?sc' = mset ?sc"
  proof (cases before)
    case None
    then show ?thesis by (simp add: in_scope_def)
  next
    case (Some e)
    have "mset (filter (in_scope (sw_id s) (vr_id v) (af_is_test f) since (Some e) False) (filter (finished_in (sw_id s) e) (su_participations db')))
        = mset (filter (in_scope (sw_id s) (vr_id v) (af_is_test f) since (Some e) False) (filter (finished_in (sw_id s) e) (su_participations db)))"
      unfolding mset_filter [of "in_scope (sw_id s) (vr_id v) (af_is_test f) since (Some e) False"] settled [OF k(2) [unfolded Some]] ..
    then show ?thesis unfolding Some settled_scope .
  qed
  have inj: "inj_on pa_id (set ?sc')"
    using same(3) mset_eq_setD [OF mset] by (auto simp: distinct_map intro: inj_on_subset)
  have sel: "select_participations octets ?st' (af_statuses f) ?sc' = Inr rows"
  proof -
    have "?st' p = ?st p" if "p \<in> set ?sc'" for p
      using one [OF that [unfolded mset_eq_setD [OF mset]]] two [OF that] by simp
    from select_cong [OF mset inj this, where octets = octets and statuses = "af_statuses f"] show ?thesis using k(3) by simp
  qed
  have counts: "(\<lambda>k. int (length (filter (\<lambda>p. ?st' p = k) ?sc'))) = (\<lambda>k. int (length (filter (\<lambda>p. ?st p = k) ?sc)))"
  proof
    fix k
    have "filter (\<lambda>p. ?st' p = k) ?sc' = (if k = Completed then ?sc' else [])" "filter (\<lambda>p. ?st p = k) ?sc = (if k = Completed then ?sc else [])"
      using one two by (auto simp: filter_empty_conv filter_id_conv simp del: filter_filter)
    moreover have "length ?sc' = length ?sc" using arg_cong [OF mset, of size] by (simp only: size_mset)
    ultimately show "int (length (filter (\<lambda>p. ?st' p = k) ?sc')) = int (length (filter (\<lambda>p. ?st p = k) ?sc))" by simp
  qed
  note moved = snapshot_moved(2) [OF k(6) same(1), of sid' captured']
  have rows: "set rows \<subseteq> set ?sc" using select_Inr [OF k(3)] by (auto simp: snapshot_rows_def in_order_def)
  have "?st' p = ?st p" if "p \<in> set rows" for p using one two that rows mset_eq_setD [OF mset] by (metis subsetD)
  then have privates: "map (private_of ?st') rows = map (private_of ?st) rows" by (simp add: private_of_def)
  have "find_version db' (sw_id s') (af_version_id f) = Inr (Some v)" using v(1) unfolding same(1,2) .
  moreover have "\<not> list_ex (\<lambda>x. st_id x = sid') (su_snapshots db')" using fresh by (auto simp: list_ex_iff)
  then have "freeze_version service octets sid' captured' s' f True v db'
      = Inr (snapshot\<lparr>sn_id := uuid_str sid', sn_created_at := iso_datetime captured'\<rparr>,
          db'\<lparr>su_snapshots := su_snapshots db' @ [\<lparr>st_id = sid', st_survey_id = sw_id s', st_version_id = vr_id v,
            st_payload = snapshot\<lparr>sn_id := uuid_str sid', sn_created_at := iso_datetime captured'\<rparr>,
            st_private = map (private_of ?st') rows, st_created_at = captured'\<rparr>]\<rparr>)"
    unfolding freeze_version_def k(1,2) then_res_simps Let_def same(1) sel k(4,5) counts moved by (simp only: if_False)
  ultimately have "create_snapshot service octets sid' captured' s' f True db'
      = Inr (snapshot\<lparr>sn_id := uuid_str sid', sn_created_at := iso_datetime captured'\<rparr>,
          db'\<lparr>su_snapshots := su_snapshots db' @ [\<lparr>st_id = sid', st_survey_id = sw_id s', st_version_id = vr_id v,
            st_payload = snapshot\<lparr>sn_id := uuid_str sid', sn_created_at := iso_datetime captured'\<rparr>,
            st_private = map (private_of ?st') rows, st_created_at = captured'\<rparr>]\<rparr>)"
    unfolding create_snapshot_Inr using v(2,3) f by blast
  then show ?thesis by (simp add: k(7) privates)
qed

text \<open>
  C12: A snapshot counts exactly the participations it freezes.  It holds, in the order of their creation, the
  participations of the version and the time asked for whose status at that moment is asked for, at most 5000; every
  status has its number, every question splits that number into relevant and hidden ones and the
  last pages add up to it.  It is stored once, beside the earlier snapshots, and is read back as it was stored, a
  test selection only by accounts that may test.
\<close>

theorem snapshot_counts:
  assumes run: "create_snapshot service octets sid captured s f settled db = Inr (snapshot, db')"
  shows "\<exists>v since before rows. optional_moment (af_created_from f) = Inr since \<and> optional_moment (af_created_before f) = Inr before
    \<and> find_version db (sw_id s) (af_version_id f) = Inr (Some v)
    \<and> mset rows = filter_mset (\<lambda>p. in_scope (sw_id s) (vr_id v) (af_is_test f) since before settled p
        \<and> effective_status captured (closed_at s captured) p \<in> set (af_statuses f)) (mset (su_participations db))
    \<and> sorted (map (\<lambda>p. instant (pa_created_at p)) rows) \<and> length rows \<le> 5000
    \<and> sn_participation_count snapshot = int (length rows)
    \<and> (\<forall>k \<in> set (af_statuses f). sn_status_counts snapshot k
        = int (length (filter (\<lambda>p. effective_status captured (closed_at s captured) p = k) rows)))
    \<and> (\<forall>q \<in> set (sn_questions snapshot). qa_relevant q + qa_hidden q = int (length rows))
    \<and> sum_list (map lp_count (sn_last_page_counts snapshot)) = int (length rows)
    \<and> (\<exists>x. su_snapshots db' = su_snapshots db @ [x] \<and> st_payload x = snapshot
        \<and> st_private x = map (private_of (effective_status captured (closed_at s captured))) rows)
    \<and> (\<forall>can_test. read_snapshot (sw_id s) sid can_test db'
        = (if af_is_test f \<and> \<not> can_test then Inl (App Resource_Not_Found ''not_found'') else Inr snapshot))"
proof -
  let ?st = "effective_status captured (closed_at s captured)"
  obtain v where v: "find_version db (sw_id s) (af_version_id f) = Inr (Some v)"
    "freeze_version service octets sid captured s f settled v db = Inr (snapshot, db')"
    using run unfolding create_snapshot_Inr by auto
  obtain since before rows questions deps where k:
    "optional_moment (af_created_from f) = Inr since" "optional_moment (af_created_before f) = Inr before"
    "select_participations octets ?st (af_statuses f)
       (filter (in_scope (sw_id s) (vr_id v) (af_is_test f) since before settled) (su_participations db)) = Inr rows"
    and valid: "analysis_snapshot_init (snapshot_of sid s captured f settled v
       (\<lambda>k. int (length (filter (\<lambda>p. ?st p = k)
          (filter (in_scope (sw_id s) (vr_id v) (af_is_test f) since before settled) (su_participations db)))))
       rows questions deps) = Inr snapshot"
    and after: "db' = db\<lparr>su_snapshots := su_snapshots db @ [\<lparr>st_id = sid, st_survey_id = sw_id s, st_version_id = vr_id v,
       st_payload = snapshot, st_private = map (private_of ?st) rows, st_created_at = captured\<rparr>]\<rparr>"
    and new: "\<not> list_ex (\<lambda>x. st_id x = sid) (su_snapshots db)"
    using freeze_version_Inr [OF v(2)] .
  have fresh: "sid \<notin> st_id ` set (su_snapshots db)" using new by (auto simp: list_ex_iff)
  let ?sc = "filter (in_scope (sw_id s) (vr_id v) (af_is_test f) since before settled) (su_participations db)"
  note snap = snapshot_moved(1) [OF valid refl]
  have sel: "rows = in_order (filter (\<lambda>p. ?st p \<in> set (af_statuses f)) ?sc)" "length rows \<le> 5000"
    using select_Inr [OF k(3)] unfolding snapshot_rows_def by blast+
  then have rows: "mset rows = filter_mset (\<lambda>p. in_scope (sw_id s) (vr_id v) (af_is_test f) since before settled p
        \<and> ?st p \<in> set (af_statuses f)) (mset (su_participations db))" by (simp add: in_order_mset)
  have counts: "length (filter (\<lambda>p. ?st p = x) rows) = length (filter (\<lambda>p. ?st p = x) ?sc)" if "x \<in> set (af_statuses f)" for x
  proof -
    have "filter (\<lambda>p. ?st p = x) (filter (\<lambda>p. ?st p \<in> set (af_statuses f)) ?sc) = filter (\<lambda>p. ?st p = x) ?sc"
      using that unfolding filter_filter by (intro filter_cong) auto
    moreover have "mset (filter (\<lambda>p. ?st p = x) rows) = mset (filter (\<lambda>p. ?st p = x) (filter (\<lambda>p. ?st p \<in> set (af_statuses f)) ?sc))"
      unfolding mset_filter [of "\<lambda>p. ?st p = x"] sel(1) in_order_mset ..
    ultimately show ?thesis by (metis size_mset)
  qed
  have parts: "sum_list (map lp_count (sn_last_page_counts snapshot)) = sn_participation_count snapshot"
    "\<forall>q \<in> set (sn_questions snapshot). qa_relevant q + qa_hidden q = sn_participation_count snapshot"
    "analysis_snapshot_init snapshot = Inr snapshot"
    using valid unfolding snap [symmetric] by (auto simp: analysis_snapshot_init_def then_res_Inr_iff list_ex_iff split: if_splits)
  have fields: "sn_participation_count snapshot = int (length rows)" "af_is_test (sn_filter snapshot) = af_is_test f"
    "sn_status_counts snapshot x = int (length (filter (\<lambda>p. ?st p = x) ?sc))" for x
    by (simp_all add: snap snapshot_of_def)
  have "find (\<lambda>x. st_survey_id x = sw_id s \<and> st_id x = sid) (su_snapshots db') = Some \<lparr>st_id = sid, st_survey_id = sw_id s,
      st_version_id = vr_id v, st_payload = snapshot, st_private = map (private_of ?st) rows, st_created_at = captured\<rparr>"
    using find_after [OF fresh] by (simp add: after)
  then have "read_snapshot (sw_id s) sid can_test db'
      = (if af_is_test f \<and> \<not> can_test then Inl (App Resource_Not_Found ''not_found'') else Inr snapshot)" for can_test
    by (simp add: read_snapshot_def parts(3) fields(2))
  moreover have "sorted (map (\<lambda>p. instant (pa_created_at p)) rows)" unfolding sel(1) by (rule in_order_sorted)
  ultimately show ?thesis
    using k(1,2) v(1) rows sel(2) parts(1,2) fields counts
    by (intro exI [of _ v] exI [of _ since] exI [of _ before] exI [of _ rows]) (simp add: after del: filter_filter)
qed

section \<open>The properties at a concrete survey\<close>

definition sample_participation :: "uuid \<Rightarrow> int \<Rightarrow> int \<Rightarrow> string \<Rightarrow> participation" where
  "sample_participation u created completed answer = \<lparr>pa_id = u, pa_survey_id = 1, pa_version_id = 2, pa_resume_digest = [], pa_is_test = False, pa_status = Completed,
     pa_revision = 1, pa_answers = VDict [entry ''q'' answer], pa_current_page = Some (lit ''p''), pa_timeout_seconds = 1800,
     pa_last_answer_at = None, pa_completed_at = Some (utc completed), pa_expires_at = None, pa_revoked_at = None, pa_created_at = utc created\<rparr>"

definition sample_survey_row :: survey_row where
  "sample_survey_row = \<lparr>sw_id = 1, sw_title = lit ''Umfrage'', sw_status = Active_Survey, sw_revision = 2, sw_owner_user_id = 7,
     sw_action_id = None, sw_access_mode = Anonymous, sw_timeout_seconds = None, sw_published_version_id = Some 2, sw_ends_at = None,
     sw_deleted_at = None\<rparr>"

definition sample_survey_db :: "participation list \<Rightarrow> survey_db" where
  "sample_survey_db late = \<lparr>su_versions = [\<lparr>vr_id = 2, vr_survey_id = 1, vr_number = 1, vr_capability_profile = lit ''initial-v1'',
       vr_renderer_version = lit ''3.0.3'', vr_definition = choice_survey, vr_schema_hash = [],
       vr_published_at = utc 0\<rparr>],
     su_participations = sample_participation 3 5 7 ''ja'' # late, su_snapshots = []\<rparr>"

definition sample_day_filter :: analysis_filter where
  "sample_day_filter = \<lparr>af_version_id = uuid_str 2, af_statuses = [Completed], af_is_test = False, af_created_from = None,
     af_created_before = Some (iso_datetime (utc day_us))\<rparr>"

definition sample_result :: question_aggregate where
  "sample_result = (choice_reply [VDict [entry ''q'' ''ja'']])\<lparr>qa_counts := [
     \<lparr>ac_value = VStr (lit ''ja''), ac_label = lit ''ja'', ac_count = 1, ac_percentage = Some 100\<rparr>,
     \<lparr>ac_value = VStr (lit ''nein''), ac_label = lit ''nein'', ac_count = 0, ac_percentage = Some 0\<rparr>]\<rparr>"

lemma sample_aggregated: "aggregate_selection choice_service choice_survey [VDict [entry ''q'' ''ja'']] = Inr [sample_result]"
proof -
  let ?rs = "[VDict [entry ''q'' ''ja'']]"
  have cut: "make_batches choice_survey ?rs = Inr [?rs]" by code_simp
  have reply: "aggregate_batch choice_service choice_survey ?rs = Inr [choice_reply ?rs]" by code_simp
  have fin: "finish_aggregates choice_survey [start_running (choice_reply ?rs)] = Inr [sample_result]" by code_simp
  show ?thesis using fin by (simp add: aggregate_selection_def cut add_batch_def reply)
qed

lemma sample_moment: "optional_moment (af_created_before sample_day_filter) = Inr (Some (utc day_us))"
  by code_simp

lemma sample_filter_valid: "question_aggregate_init sample_result = Inr sample_result" "qa_relevant sample_result + qa_hidden sample_result = 1"
  "sum_list (map lp_count (last_page_counts choice_survey [Some (lit ''p'')])) = 1"
  "\<not> list_ex (\<lambda>p. lp_count p < 0) (last_page_counts choice_survey [Some (lit ''p'')])"
  by code_simp+

lemma sample_frozen: "\<exists>snapshot after. create_snapshot choice_service (\<lambda>_. 0) 9 (utc (2 * day_us)) sample_survey_row sample_day_filter True
    (sample_survey_db []) = Inr (snapshot, after)"
proof -
  let ?v = "\<lparr>vr_id = 2, vr_survey_id = 1, vr_number = 1, vr_capability_profile = lit ''initial-v1'',
       vr_renderer_version = lit ''3.0.3'', vr_definition = choice_survey, vr_schema_hash = [],
       vr_published_at = utc 0\<rparr>"
  let ?p = "sample_participation 3 5 7 ''ja''" and ?c = "\<lambda>k. int (length (filter (\<lambda>p. effective_status (utc (2 * day_us)) False p = k)
          [sample_participation 3 5 7 ''ja'']))"
  have version: "find_version (sample_survey_db []) (sw_id sample_survey_row) (af_version_id sample_day_filter) = Inr (Some ?v)"
    by code_simp
  have open_survey: "closed_at sample_survey_row (utc (2 * day_us)) = False" by (simp add: closed_at_def sample_survey_row_def)
  have fields: "af_created_from sample_day_filter = None" "af_statuses sample_day_filter = [Completed]" "af_is_test sample_day_filter = False"
    "sw_id sample_survey_row = 1" "su_participations (sample_survey_db []) = [?p]" "pa_answers ?p = VDict [entry ''q'' ''ja'']"
    "optional_moment None = Inr None"
    by (simp_all add: sample_day_filter_def sample_survey_row_def sample_survey_db_def sample_participation_def optional_moment_def)
  have scope: "in_scope 1 2 False None (Some (utc day_us)) True ?p" by code_simp
  have done_status: "effective_status (utc (2 * day_us)) False ?p = Completed" by (simp add: effective_status_def sample_participation_def)
  have sel: "select_participations (\<lambda>_. 0) (effective_status (utc (2 * day_us)) False) [Completed] [?p] = Inr [?p]"
    by (simp add: select_participations_def Let_def in_order_def effective_status_def sample_participation_def)
  obtain deps where deps: "dependencies choice_survey = Inr deps"
    using dependencies_total [OF choice_survey_valid] by blast
  have "analysis_snapshot_init (snapshot_of 9 sample_survey_row (utc (2 * day_us)) sample_day_filter True ?v ?c [?p] [sample_result] deps)
      = Inr (snapshot_of 9 sample_survey_row (utc (2 * day_us)) sample_day_filter True ?v ?c [?p] [sample_result] deps)"
    using sample_filter_valid by (simp add: analysis_snapshot_init_def snapshot_of_def sample_day_filter_def has_duplicate_def effective_status_def
      sample_participation_def)
  then have "\<exists>snapshot after. freeze_version choice_service (\<lambda>_. 0) 9 (utc (2 * day_us)) sample_survey_row sample_day_filter True ?v
      (sample_survey_db []) = Inr (snapshot, after)"
    using sel sample_aggregated deps
    by (simp add: freeze_version_def fields sample_moment open_survey scope done_status Let_def sample_survey_db_def)
  then show ?thesis using version by (auto simp: create_snapshot_def sample_day_filter_def)
qed

theorem snapshot_counts_witness:
  "\<exists>snapshot after. create_snapshot choice_service (\<lambda>_. 0) 9 (utc (2 * day_us)) sample_survey_row sample_day_filter True
      (sample_survey_db []) = Inr (snapshot, after) \<and> read_snapshot 1 9 False after = Inr snapshot"
proof -
  obtain snapshot after where run: "create_snapshot choice_service (\<lambda>_. 0) 9 (utc (2 * day_us)) sample_survey_row sample_day_filter True
      (sample_survey_db []) = Inr (snapshot, after)" using sample_frozen by blast
  from snapshot_counts [OF run]
  have "\<forall>can_test. read_snapshot (sw_id sample_survey_row) 9 can_test after
      = (if af_is_test sample_day_filter \<and> \<not> can_test then Inl (App Resource_Not_Found ''not_found'') else Inr snapshot)" by blast
  then have "read_snapshot 1 9 False after = Inr snapshot" by (simp add: sample_survey_row_def sample_day_filter_def)
  then show ?thesis using run by blast
qed

end
