(* ===== verification/Survey_Store.thy ===== *)
theory Survey_Store
  imports Py_Json Py_Digest Iso_Roundtrip Survey_Snapshot
begin

text \<open>
  The tables of the survey module, what its operations answer, and how an operation is recorded and replayed:
  \<^verbatim>\<open>encoded\<close>, \<^verbatim>\<open>digest\<close>, \<^verbatim>\<open>snapshot\<close>, \<^verbatim>\<open>survey_payload\<close>, \<^verbatim>\<open>version_payload\<close>, \<^verbatim>\<open>_survey\<close>, \<^verbatim>\<open>_replay\<close> and \<^verbatim>\<open>_record\<close> of
  \<^verbatim>\<open>modules/surveys/adapters/postgres/surveys.py\<close>, \<^verbatim>\<open>deletion_payload\<close> of \<^verbatim>\<open>survey_deletion.py\<close>.  PostgreSQL keeps a
  definition or answers as \<^verbatim>\<open>jsonb\<close>; the argument \<open>jsonb\<close> is the value it gives back, or its refusal.
\<close>

section \<open>The canonical text of a request\<close>

text \<open>\<^verbatim>\<open>json.dumps(value, sort_keys=True, separators=(",", ":"), allow_nan=False)\<close>, which writes ASCII only.\<close>

definition code_units :: "int \<Rightarrow> int list" where
  "code_units c = (if c < 65536 then [c] else [55296 + (c - 65536) div 1024, 56320 + (c - 65536) mod 1024])"

definition ascii_escape :: "int \<Rightarrow> pystr" where
  "ascii_escape c =
     (case map_of short_escapes c of
        Some e \<Rightarrow> [92, e]
      | None \<Rightarrow> if 32 \<le> c \<and> c < 127 then [c] else concat (map (\<lambda>u. [92, 117] @ hex_fixed 4 u) (code_units c)))"

definition ascii_quote :: "pystr \<Rightarrow> pystr" where
  "ascii_quote s = 34 # concat (map ascii_escape s) @ [34]"

fun put_member :: "pystr \<times> pystr \<Rightarrow> (pystr \<times> pystr) list \<Rightarrow> (pystr \<times> pystr) list" where
  "put_member e [] = [e]"
| "put_member e (f # fs) = (if text_less (fst f) (fst e) then f # put_member e fs else e # f # fs)"

fun with_commas :: "pystr list \<Rightarrow> pystr" where
  "with_commas [] = []"
| "with_commas [t] = t"
| "with_commas (t # ts) = t @ 44 # with_commas ts"

fun encoded :: "pyval \<Rightarrow> pystr res"
  and encoded_items :: "pyval list \<Rightarrow> pystr list res"
  and encoded_members :: "(pystr \<times> pyval) list \<Rightarrow> (pystr \<times> pystr) list res" where
  "encoded VNone = Inr (lit ''null'')"
| "encoded (VBool b) = Inr (if b then lit ''true'' else lit ''false'')"
| "encoded (VInt n) = Inr (int_str n)"
| "encoded (VFloat x) = (case x of Fin _ \<Rightarrow> Inr (float_repr x) | _ \<Rightarrow> Inl Value_Error)"
| "encoded (VStr s) = Inr (ascii_quote s)"
| "encoded (VList vs) = then_res (encoded_items vs) (\<lambda>ts. Inr (91 # with_commas ts @ [93]))"
| "encoded (VDict ms) = then_res (encoded_members ms) (\<lambda>es.
     Inr (123 # with_commas (map (\<lambda>(k, t). ascii_quote k @ 58 # t) (foldr put_member es [])) @ [125]))"
| "encoded_items [] = Inr []"
| "encoded_items (v # vs) = then_res (encoded v) (\<lambda>t. then_res (encoded_items vs) (\<lambda>ts. Inr (t # ts)))"
| "encoded_members [] = Inr []"
| "encoded_members ((k, v) # ms) =
     then_res (encoded v) (\<lambda>t. then_res (encoded_members ms) (\<lambda>es. Inr ((k, t) # es)))"

definition digest :: "pystr \<Rightarrow> pystr res" where
  "digest s = then_res (encode_utf8 s) (\<lambda>bs. Inr (hexdigest (sha256 bs)))"

definition request_digest :: "pyval \<Rightarrow> pystr res" where
  "request_digest body = then_res (encoded body) digest"

section \<open>Tables\<close>

record draft_row =
  dr_survey_id :: uuid
  dr_revision :: int
  dr_definition :: pyval

record survey_invitation =
  si_id :: uuid
  si_survey_id :: uuid
  si_recipient_email :: pystr
  si_recipient_name :: pystr
  si_token_digest :: pystr
  si_participation_id :: "uuid option"
  si_expires_at :: datetime
  si_revoked_at :: "datetime option"
  si_redeemed_at :: "datetime option"
  si_sent_at :: "datetime option"
  si_mail_payload :: "pystr option"
  si_created_at :: datetime

record deletion_row =
  dl_survey_id :: uuid
  dl_requested_by :: uuid
  dl_operation_hash :: pystr
  dl_expected_revision :: int
  dl_event_id :: uuid
  dl_requested_at :: datetime
  dl_completed_at :: "datetime option"

text \<open>Rows of the outbox, as far as this module writes and reads them.\<close>

record event_row =
  er_id :: uuid
  er_type :: string
  er_aggregate_id :: uuid
  er_dead_letter :: bool
  er_attempts :: int
  er_error :: "string option"

record survey_policy =
  sy_timeout_seconds :: int
  sy_ended_retention :: "int option"
  sy_trash_retention :: "int option"
  sy_configured_by :: "uuid option"
  sy_revision :: int

section \<open>Answers of the operations\<close>

record survey_payload =
  sp_id :: pystr
  sp_title :: pystr
  sp_action_id :: "pystr option"
  sp_owner_user_id :: pystr
  sp_status :: survey_status
  sp_access_mode :: access_mode
  sp_revision :: int
  sp_published_version_id :: "pystr option"
  sp_timeout_seconds :: "int option"
  sp_ends_at :: "pystr option"
  sp_deleted_at :: "pystr option"

record version_payload =
  vp_id :: pystr
  vp_survey_id :: pystr
  vp_number :: int
  vp_definition :: pyval
  vp_renderer_version :: pystr
  vp_capability_profile :: pystr
  vp_published_at :: pystr

record response_snapshot =
  rn_participation_id :: pystr
  rn_version_id :: pystr
  rn_revision :: int
  rn_status :: string
  rn_answers :: pyval
  rn_current_page :: "pystr option"
  rn_last_answer_at :: "pystr option"
  rn_completed_at :: "pystr option"

record participation_payload =
  pp_id :: pystr
  pp_version :: version_payload
  pp_response :: response_snapshot
  pp_timeout_seconds :: int

record draft_payload =
  dp_survey_id :: pystr
  dp_revision :: int
  dp_definition :: pyval

datatype deletion_state = Deletion_Pending | Deletion_Retrying | Deletion_Failed | Deletion_Completed

record deletion_payload =
  ly_survey_id :: pystr
  ly_status :: deletion_state
  ly_requested_at :: pystr
  ly_completed_at :: "pystr option"
  ly_retry_event_id :: "pystr option"

datatype invitation_state = Iv_Revoked | Iv_Expired | Iv_Redeemed | Iv_Sent | Iv_Cancelled | Iv_Failed | Iv_Retrying | Iv_Queued

record invitation_payload =
  iy_id :: pystr
  iy_recipient_email :: pystr
  iy_recipient_name :: pystr
  iy_status :: invitation_state
  iy_expires_at :: pystr
  iy_created_at :: pystr

text \<open>What a frozen selection shows to readers of responses, and to exports (\<^verbatim>\<open>response_selection.py\<close>, \<^verbatim>\<open>exports.py\<close>).\<close>

record response_question =
  rz_id :: pystr
  rz_title :: pystr
  rz_kind :: question_kind
  rz_choices :: "(pyval \<times> pystr) list"
  rz_rows :: "(pystr \<times> pystr) list"

record response_selection =
  rx_id :: pystr
  rx_survey_id :: pystr
  rx_created_at :: pystr
  rx_version_number :: int
  rx_filter :: analysis_filter
  rx_total :: int
  rx_questions :: "response_question list"

record export_selection =
  ex_id :: pystr
  ex_survey_id :: pystr
  ex_created_at :: pystr
  ex_version_number :: int
  ex_filter :: analysis_filter

datatype survey_answer =
    Survey_State survey_payload "access_capability list"
  | Draft_State draft_payload
  | Version_State version_payload
  | Versions_State "(pystr \<times> int \<times> pystr) list"
  | Response_State response_snapshot
  | Participation_State participation_payload
  | Deletion_Answer deletion_payload
  | Invitation_State invitation_payload
  | Invitations_State "invitation_payload list" int
  | Analysis_State analysis_snapshot
  | Response_Selection response_selection
  | Export_Selection export_selection

record survey_operation =
  so_survey_id :: uuid
  so_scope :: pystr
  so_operation_id :: pystr
  so_request_hash :: pystr
  so_response :: survey_answer

record policy_operation =
  po_actor_id :: uuid
  po_operation_id :: pystr
  po_request_hash :: pystr
  po_response :: survey_policy

record survey_store =
  ss_surveys :: "survey_row list"
  ss_drafts :: "draft_row list"
  ss_data :: survey_db
  ss_grants :: "(uuid \<times> uuid \<times> access_capability) list"
  ss_invitations :: "survey_invitation list"
  ss_operations :: "survey_operation list"
  ss_deletions :: "deletion_row list"
  ss_events :: "event_row list"
  ss_policy :: survey_policy
  ss_policy_operations :: "policy_operation list"
  ss_action_ids :: "uuid list"

text \<open>
  The moments of one transaction: the application's clock, the start of the transaction (\<^verbatim>\<open>now()\<close>), and the first and
  second reading of \<^verbatim>\<open>clock_timestamp()\<close>, which is after the locks are held.
\<close>

record moments =
  mo_app :: datetime
  mo_started :: datetime
  mo_clock :: datetime
  mo_captured :: datetime

section \<open>Writing the answers\<close>

definition survey_payload_of :: "survey_row \<Rightarrow> survey_payload" where
  "survey_payload_of s = \<lparr>sp_id = uuid_str (sw_id s), sp_title = sw_title s, sp_action_id = map_option uuid_str (sw_action_id s),
     sp_owner_user_id = uuid_str (sw_owner_user_id s), sp_status = sw_status s, sp_access_mode = sw_access_mode s,
     sp_revision = sw_revision s, sp_published_version_id = map_option uuid_str (sw_published_version_id s),
     sp_timeout_seconds = sw_timeout_seconds s, sp_ends_at = map_option iso_datetime (sw_ends_at s),
     sp_deleted_at = map_option iso_datetime (sw_deleted_at s)\<rparr>"

definition version_payload_of :: "version_row \<Rightarrow> version_payload" where
  "version_payload_of v = \<lparr>vp_id = uuid_str (vr_id v), vp_survey_id = uuid_str (vr_survey_id v), vp_number = vr_number v,
     vp_definition = vr_definition v, vp_renderer_version = vr_renderer_version v,
     vp_capability_profile = vr_capability_profile v, vp_published_at = iso_datetime (vr_published_at v)\<rparr>"

definition status_text :: "response_status \<Rightarrow> string" where
  "status_text k = (case k of In_Progress \<Rightarrow> ''in_progress'' | Partial \<Rightarrow> ''partial'' | Completed \<Rightarrow> ''completed'')"

text \<open>\<^verbatim>\<open>snapshot(row)\<close>\<close>

definition response_snapshot_of :: "datetime \<Rightarrow> participation \<Rightarrow> response_snapshot res" where
  "response_snapshot_of now p =
     then_res (effective_response_status (status_text (pa_status p)) (pa_created_at p) (pa_last_answer_at p)
       (pa_timeout_seconds p) now) (\<lambda>status. Inr
     \<lparr>rn_participation_id = uuid_str (pa_id p), rn_version_id = uuid_str (pa_version_id p), rn_revision = pa_revision p,
      rn_status = status, rn_answers = pa_answers p, rn_current_page = pa_current_page p,
      rn_last_answer_at = map_option iso_datetime (pa_last_answer_at p),
      rn_completed_at = map_option iso_datetime (pa_completed_at p)\<rparr>)"

definition deletion_payload_of :: "deletion_row \<Rightarrow> deletion_payload" where
  "deletion_payload_of d = \<lparr>ly_survey_id = uuid_str (dl_survey_id d),
     ly_status = (if dl_completed_at d = None then Deletion_Pending else Deletion_Completed),
     ly_requested_at = iso_datetime (dl_requested_at d), ly_completed_at = map_option iso_datetime (dl_completed_at d),
     ly_retry_event_id = None\<rparr>"

definition selection_metadata :: "analysis_snapshot \<Rightarrow> response_selection" where
  "selection_metadata s = \<lparr>rx_id = sn_id s, rx_survey_id = sn_survey_id s, rx_created_at = sn_created_at s,
     rx_version_number = sn_version_number s, rx_filter = sn_filter s, rx_total = sn_participation_count s,
     rx_questions = map (\<lambda>q. \<lparr>rz_id = qa_question_id q, rz_title = qa_title q, rz_kind = qa_kind q,
       rz_choices = map (\<lambda>c. (ac_value c, ac_label c))
         (case qa_matrix_rows q of r # _ \<Rightarrow> mr_counts r | [] \<Rightarrow> qa_counts q),
       rz_rows = map (\<lambda>r. (mr_row_id r, mr_label r)) (qa_matrix_rows q)\<rparr>) (sn_questions s)\<rparr>"

definition export_selection_of :: "analysis_snapshot \<Rightarrow> export_selection" where
  "export_selection_of s = \<lparr>ex_id = sn_id s, ex_survey_id = sn_survey_id s, ex_created_at = sn_created_at s,
     ex_version_number = sn_version_number s, ex_filter = sn_filter s\<rparr>"

section \<open>Rows\<close>

text \<open>\<^verbatim>\<open>UPDATE ... WHERE id=$1\<close>\<close>

definition update_rows :: "('a \<Rightarrow> bool) \<Rightarrow> ('a \<Rightarrow> 'a) \<Rightarrow> 'a list \<Rightarrow> 'a list" where
  "update_rows P f rows = map (\<lambda>r. if P r then f r else r) rows"

definition find_survey :: "survey_store \<Rightarrow> uuid \<Rightarrow> survey_row option" where
  "find_survey st sid = find (\<lambda>s. sw_id s = sid) (ss_surveys st)"

definition open_survey :: "survey_store \<Rightarrow> uuid \<Rightarrow> survey_row res" where
  "open_survey st sid =
     (case find_survey st sid of None \<Rightarrow> Inl (App Resource_Not_Found ''not_found'') | Some s \<Rightarrow> Inr s)"

definition put_survey :: "survey_row \<Rightarrow> survey_store \<Rightarrow> survey_store" where
  "put_survey s st = st\<lparr>ss_surveys := update_rows (\<lambda>r. sw_id r = sw_id s) (\<lambda>_. s) (ss_surveys st)\<rparr>"

definition version_by_id :: "survey_store \<Rightarrow> uuid option \<Rightarrow> version_row option" where
  "version_by_id st v = (case v of None \<Rightarrow> None | Some u \<Rightarrow> find (\<lambda>r. vr_id r = u) (su_versions (ss_data st)))"

definition put_participations :: "(participation list \<Rightarrow> participation list) \<Rightarrow> survey_store \<Rightarrow> survey_store" where
  "put_participations f st = st\<lparr>ss_data := (ss_data st)\<lparr>su_participations := f (su_participations (ss_data st))\<rparr>\<rparr>"

section \<open>Replay\<close>

definition replay_operation :: "survey_store \<Rightarrow> uuid \<Rightarrow> pystr \<Rightarrow> pystr \<Rightarrow> pyval \<Rightarrow> survey_answer option res" where
  "replay_operation st sid scope operation_id body =
     (case find (\<lambda>o'. so_survey_id o' = sid \<and> so_scope o' = scope \<and> so_operation_id o' = operation_id) (ss_operations st) of
        None \<Rightarrow> Inr None
      | Some o' \<Rightarrow> then_res (request_digest body) (\<lambda>hash.
          if so_request_hash o' \<noteq> hash then Inl (App Conflict ''idempotency_conflict'')
          else Inr (Some (so_response o'))))"

text \<open>The stored answer is the one \<^verbatim>\<open>jsonb\<close> gives back; the caller gets the original.\<close>

definition stored_answer :: "(pyval \<Rightarrow> pyval res) \<Rightarrow> survey_answer \<Rightarrow> survey_answer res" where
  "stored_answer jsonb a =
     (case a of
        Draft_State d \<Rightarrow> then_res (jsonb (dp_definition d)) (\<lambda>v. Inr (Draft_State (d\<lparr>dp_definition := v\<rparr>)))
      | Version_State d \<Rightarrow> then_res (jsonb (vp_definition d)) (\<lambda>v. Inr (Version_State (d\<lparr>vp_definition := v\<rparr>)))
      | Response_State r \<Rightarrow> then_res (jsonb (rn_answers r)) (\<lambda>v. Inr (Response_State (r\<lparr>rn_answers := v\<rparr>)))
      | Participation_State p \<Rightarrow>
          then_res (jsonb (vp_definition (pp_version p))) (\<lambda>d.
          then_res (jsonb (rn_answers (pp_response p))) (\<lambda>v. Inr (Participation_State
            (p\<lparr>pp_version := (pp_version p)\<lparr>vp_definition := d\<rparr>, pp_response := (pp_response p)\<lparr>rn_answers := v\<rparr>\<rparr>))))
      | _ \<Rightarrow> Inr a)"

definition record_operation ::
  "(pyval \<Rightarrow> pyval res) \<Rightarrow> uuid \<Rightarrow> pystr \<Rightarrow> pystr \<Rightarrow> pyval \<Rightarrow> survey_answer \<Rightarrow> survey_store
   \<Rightarrow> (survey_answer \<times> survey_store) res" where
  "record_operation jsonb sid scope operation_id body result st =
     then_res (request_digest body) (\<lambda>hash.
     then_res (stored_answer jsonb result) (\<lambda>stored.
     Inr (result, st\<lparr>ss_operations := ss_operations st @ [\<lparr>so_survey_id = sid, so_scope = scope,
       so_operation_id = operation_id, so_request_hash = hash, so_response = stored\<rparr>]\<rparr>)))"

end
