(* ===== verification/Survey_Participation.thy ===== *)
theory Survey_Participation
  imports Survey_Store
begin

text \<open>
  Taking part in a survey: \<^verbatim>\<open>participate\<close> of \<^verbatim>\<open>modules/surveys/adapters/postgres/surveys.py\<close> with
  \<^verbatim>\<open>validate_answers\<close> of \<^verbatim>\<open>surveyjs_validation.py\<close>.  The answers are validated by a service behind HTTP; its JSON reply
  is the argument \<open>validator\<close>, \<open>None\<close> for a request that fails or a body that is not JSON.  A transaction holds the
  lock of the survey's row, so it is one step.
\<close>

section \<open>Validation of answers\<close>

definition validation_body :: "pyval \<Rightarrow> pyval \<Rightarrow> pyval" where
  "validation_body d answers = VDict [(lit ''profile'', VStr (lit ''initial-v1'')), (lit ''definition'', d), (lit ''answers'', answers)]"

definition is_bool :: "pyval \<Rightarrow> bool" where
  "is_bool v = (case v of VBool _ \<Rightarrow> True | _ \<Rightarrow> False)"

text \<open>The contract of the reply; the error of \<^verbatim>\<open>json_size\<close> is a \<^verbatim>\<open>ValueError\<close> and counts as a broken contract.\<close>

definition reply_ok :: "pystr list \<Rightarrow> pyval \<Rightarrow> bool" where
  "reply_ok known reply =
     (let answers = member_or ''answers'' VNone reply in
      is_dict reply \<and> member_or ''profile'' VNone reply = VStr (lit ''initial-v1'')
      \<and> member_or ''renderer'' VNone reply = VStr (lit ''3.0.3'')
      \<and> is_bool (member_or ''partialValid'' VNone reply) \<and> is_bool (member_or ''completeValid'' VNone reply)
      \<and> is_dict answers \<and> set (keys answers) \<subseteq> set known
      \<and> (case json_size answers of Inl _ \<Rightarrow> False | Inr n \<Rightarrow> n \<le> 262144))"

definition check_with_service :: "(pyval \<Rightarrow> pyval option) \<Rightarrow> pyval \<Rightarrow> pyval \<Rightarrow> bool \<Rightarrow> pyval res" where
  "check_with_service validator d answers finish =
     then_res (validate_definition d) (\<lambda>_.
     if \<not> is_dict answers then Inl (Invariant ''invalid_response'')
     else then_res (json_size answers) (\<lambda>n.
     if 262144 < n \<or> \<not> set (keys answers) \<subseteq> set (question_names d) then Inl (Invariant ''invalid_response'')
     else case validator (validation_body d answers) of
         None \<Rightarrow> Inl (App Dependency_Unavailable ''survey_validation_unavailable'')
       | Some reply \<Rightarrow>
           if \<not> reply_ok (question_names d) reply
           then Inl (App Dependency_Unavailable ''survey_validation_unavailable'')
           else if member_or (if finish then ''completeValid'' else ''partialValid'') VNone reply = VBool False
           then Inl (Invariant ''invalid_response'')
           else Inr (member_or ''answers'' VNone reply)))"

text \<open>\<^verbatim>\<open>==\<close> on JSON values, dicts in any order.\<close>

fun deep_eq :: "pyval \<Rightarrow> pyval \<Rightarrow> bool"
  and eq_items :: "pyval list \<Rightarrow> pyval list \<Rightarrow> bool"
  and eq_members :: "(pystr \<times> pyval) list \<Rightarrow> (pystr \<times> pyval) list \<Rightarrow> bool" where
  "deep_eq (VList vs) w = (case w of VList ws \<Rightarrow> eq_items vs ws | _ \<Rightarrow> False)"
| "deep_eq (VDict ms) w = (case w of VDict ns \<Rightarrow> length ms = length ns \<and> eq_members ms ns | _ \<Rightarrow> False)"
| "deep_eq v w = py_eq v w"
| "eq_items [] ws = (ws = [])"
| "eq_items (v # vs) ws = (case ws of [] \<Rightarrow> False | w # us \<Rightarrow> deep_eq v w \<and> eq_items vs us)"
| "eq_members [] ns = True"
| "eq_members ((k, v) # ms) ns = (case map_of ns k of None \<Rightarrow> False | Some w \<Rightarrow> deep_eq v w \<and> eq_members ms ns)"

section \<open>Requests\<close>

datatype participation_request =
    Ask_Definition
  | Start pystr
  | Redeem
  | Restore
  | Save_Answers pystr int pyval "pystr option"
  | Complete_Participation pystr int

definition operation_name :: "participation_request \<Rightarrow> string" where
  "operation_name q = (case q of Ask_Definition \<Rightarrow> ''definition'' | Start _ \<Rightarrow> ''start'' | Redeem \<Rightarrow> ''redeem''
     | Restore \<Rightarrow> ''restore'' | Save_Answers _ _ _ _ \<Rightarrow> ''save'' | Complete_Participation _ _ \<Rightarrow> ''complete'')"

definition optional_text :: "pystr option \<Rightarrow> pyval" where
  "optional_text t = (case t of None \<Rightarrow> VNone | Some s \<Rightarrow> VStr s)"

definition participation_body :: "participation_request \<Rightarrow> pyval" where
  "participation_body q = VDict (case q of
       Start op \<Rightarrow> [(lit ''operationId'', VStr op)]
     | Save_Answers op n answers page \<Rightarrow> [(lit ''operationId'', VStr op), (lit ''expectedRevision'', VInt n),
         (lit ''answers'', answers), (lit ''currentPage'', optional_text page)]
     | Complete_Participation op n \<Rightarrow> [(lit ''operationId'', VStr op), (lit ''expectedRevision'', VInt n)]
     | _ \<Rightarrow> [])"

section \<open>Finding or creating the participation\<close>

text \<open>\<^verbatim>\<open>survey["ends_at"] and survey["ends_at"] <= now\<close>, and the other optional ends.\<close>

definition past :: "datetime option \<Rightarrow> datetime \<Rightarrow> bool" where
  "past e now \<longleftrightarrow> (case e of None \<Rightarrow> False | Some t \<Rightarrow> instant t \<le> instant now)"

definition timeout_of :: "survey_store \<Rightarrow> survey_row \<Rightarrow> int" where
  "timeout_of st s = (case sw_timeout_seconds s of Some n \<Rightarrow> if n \<noteq> 0 then n else sy_timeout_seconds (ss_policy st)
     | None \<Rightarrow> sy_timeout_seconds (ss_policy st))"

definition new_participation :: "uuid \<Rightarrow> survey_row \<Rightarrow> uuid \<Rightarrow> pystr \<Rightarrow> int \<Rightarrow> datetime option \<Rightarrow> datetime \<Rightarrow> participation" where
  "new_participation pid s version resume timeout expires created =
     \<lparr>pa_id = pid, pa_survey_id = sw_id s, pa_version_id = version, pa_resume_digest = resume, pa_is_test = False,
      pa_status = In_Progress, pa_revision = 1, pa_answers = VDict [], pa_current_page = None, pa_timeout_seconds = timeout,
      pa_last_answer_at = None, pa_completed_at = None, pa_expires_at = expires, pa_revoked_at = None, pa_created_at = created\<rparr>"

definition insert_participation :: "participation \<Rightarrow> survey_store \<Rightarrow> survey_store res" where
  "insert_participation p st =
     (if list_ex (\<lambda>r. pa_id r = pa_id p \<or> pa_resume_digest r = pa_resume_digest p) (su_participations (ss_data st))
      then Inl Unique_Violation else Inr (put_participations (\<lambda>ps. ps @ [p]) st))"

text \<open>The new row carries the published version, a column that must not be \<^verbatim>\<open>NULL\<close>.\<close>

definition published :: "survey_row \<Rightarrow> uuid res" where
  "published s = (case sw_published_version_id s of None \<Rightarrow> Inl Data_Error | Some v \<Rightarrow> Inr v)"

definition redeem_participation ::
  "moments \<Rightarrow> uuid \<Rightarrow> survey_row \<Rightarrow> pystr \<Rightarrow> survey_store \<Rightarrow> (participation \<times> survey_store) res" where
  "redeem_participation mo pid s hash st =
     (if sw_access_mode s \<noteq> By_Invitation then Inl (App Permission_Denied ''forbidden'')
      else case find (\<lambda>i. si_survey_id i = sw_id s \<and> si_token_digest i = hash) (ss_invitations st) of
        None \<Rightarrow> Inl (App Resource_Not_Found ''not_found'')
      | Some i \<Rightarrow>
          if si_revoked_at i \<noteq> None \<or> instant (si_expires_at i) \<le> instant (mo_app mo)
          then Inl (App Resource_Not_Found ''not_found'')
          else (case si_participation_id i of
            Some u \<Rightarrow> (case find (\<lambda>p. pa_id p = u) (su_participations (ss_data st)) of
                None \<Rightarrow> Inl Type_Error | Some p \<Rightarrow> Inr (p, st))
          | None \<Rightarrow>
              then_res (published s) (\<lambda>version.
              let p = new_participation pid s version hash (timeout_of st s) (Some (si_expires_at i)) (mo_started mo) in
              then_res (insert_participation p st) (\<lambda>st'.
              Inr (p, st'\<lparr>ss_invitations := update_rows (\<lambda>r. si_id r = si_id i)
                (\<lambda>r. r\<lparr>si_participation_id := Some pid, si_redeemed_at := Some (mo_started mo)\<rparr>) (ss_invitations st')\<rparr>)))))"

definition start_participation ::
  "moments \<Rightarrow> uuid \<Rightarrow> survey_row \<Rightarrow> pystr \<Rightarrow> survey_store \<Rightarrow> (participation \<times> survey_store) res" where
  "start_participation mo pid s hash st =
     then_res (published s) (\<lambda>version.
     let p = new_participation pid s version hash (timeout_of st s) None (mo_started mo) in
     if list_ex (\<lambda>r. pa_resume_digest r = hash) (su_participations (ss_data st))
     then Inl (App Conflict ''idempotency_conflict'')
     else then_res (insert_participation p st) (\<lambda>st'. Inr (p, st')))"

definition resumed_participation ::
  "datetime \<Rightarrow> uuid \<Rightarrow> uuid option \<Rightarrow> pystr \<Rightarrow> survey_store \<Rightarrow> participation res" where
  "resumed_participation now sid pid hash st =
     (case find (\<lambda>p. Some (pa_id p) = pid \<and> pa_survey_id p = sid) (su_participations (ss_data st)) of
        None \<Rightarrow> Inl (App Resource_Not_Found ''not_found'')
      | Some p \<Rightarrow>
          if pa_resume_digest p \<noteq> hash \<or> pa_revoked_at p \<noteq> None \<or> past (pa_expires_at p) now
          then Inl (App Resource_Not_Found ''not_found'') else Inr p)"

definition require_admitted :: "datetime \<Rightarrow> survey_store \<Rightarrow> participation \<Rightarrow> unit res" where
  "require_admitted now st p =
     (if pa_revoked_at p \<noteq> None \<or> past (pa_expires_at p) now then Inl (App Resource_Not_Found ''not_found'')
      else if list_ex (\<lambda>i. si_participation_id i = Some (pa_id p) \<and> (si_revoked_at i \<noteq> None \<or> instant (si_expires_at i) \<le> instant now))
        (ss_invitations st)
      then Inl (App Resource_Not_Found ''not_found'') else Inr ())"

section \<open>Writing answers\<close>

definition page_names :: "pyval \<Rightarrow> pystr list" where
  "page_names d = map (\<lambda>p. text_of (the (member ''name'' p))) (pages_of d)"

definition written_participation ::
  "datetime \<Rightarrow> bool \<Rightarrow> bool \<Rightarrow> pyval \<Rightarrow> pystr option \<Rightarrow> participation \<Rightarrow> participation" where
  "written_participation clock changed finish answers page p = p\<lparr>pa_answers := answers, pa_current_page := page,
     pa_revision := pa_revision p + 1,
     pa_last_answer_at := (if changed then Some clock else pa_last_answer_at p),
     pa_status := (if finish then Completed else if changed then In_Progress else pa_status p),
     pa_completed_at := (if finish then Some clock else None)\<rparr>"

definition write_answers ::
  "(pyval \<Rightarrow> pyval option) \<Rightarrow> (pyval \<Rightarrow> pyval res) \<Rightarrow> moments \<Rightarrow> version_row \<Rightarrow> participation \<Rightarrow> int \<Rightarrow> bool
   \<Rightarrow> pyval \<Rightarrow> pystr option \<Rightarrow> survey_store \<Rightarrow> (participation \<times> survey_store) res" where
  "write_answers validator jsonb mo v p expected_revision finish answers page st =
     (if pa_status p = Completed then Inl (App Conflict ''closed'')
      else if pa_revision p \<noteq> expected_revision then Inl (App Conflict ''revision_conflict'')
      else then_res (check_with_service validator (vr_definition v) answers finish) (\<lambda>clean.
      if (case page of None \<Rightarrow> False | Some t \<Rightarrow> t \<notin> set (page_names (vr_definition v)))
      then Inl (App Conflict ''invalid_response'')
      else then_res (encoded clean) (\<lambda>_.
      then_res (jsonb clean) (\<lambda>kept.
      let p' = written_participation (mo_clock mo) (\<not> deep_eq clean (pa_answers p)) finish kept page p in
      Inr (p', put_participations (update_rows (\<lambda>r. pa_id r = pa_id p) (\<lambda>_. p')) st)))))"

definition save_participation ::
  "(pyval \<Rightarrow> pyval option) \<Rightarrow> (pyval \<Rightarrow> pyval res) \<Rightarrow> moments \<Rightarrow> uuid \<Rightarrow> version_row \<Rightarrow> participation \<Rightarrow> participation_request
   \<Rightarrow> survey_store \<Rightarrow> (survey_answer \<times> survey_store) res" where
  "save_participation validator jsonb mo sid v p q st =
     (let scope = lit ''participation:'' @ uuid_str (pa_id p) @ lit '':'' @ lit (operation_name q);
          record_response = (\<lambda>operation_id (p', st').
            then_res (response_snapshot_of (mo_app mo) p') (\<lambda>r.
            record_operation jsonb sid scope operation_id (participation_body q) (Response_State r) st')) in
      case q of
        Save_Answers operation_id expected_revision answers page \<Rightarrow>
          then_res (replay_operation st sid scope operation_id (participation_body q)) (\<lambda>replay.
          case replay of
            Some a \<Rightarrow> Inr (a, st)
          | None \<Rightarrow> then_res (write_answers validator jsonb mo v p expected_revision False answers page st)
              (record_response operation_id))
      | Complete_Participation operation_id expected_revision \<Rightarrow>
          then_res (replay_operation st sid scope operation_id (participation_body q)) (\<lambda>replay.
          case replay of
            Some a \<Rightarrow> Inr (a, st)
          | None \<Rightarrow> then_res (write_answers validator jsonb mo v p expected_revision True (pa_answers p) (pa_current_page p) st)
              (record_response operation_id))
      | _ \<Rightarrow> Inl Key_Error)"

section \<open>The transaction\<close>

definition participation_answer :: "moments \<Rightarrow> version_row \<Rightarrow> participation \<Rightarrow> survey_answer res" where
  "participation_answer mo v p =
     then_res (response_snapshot_of (mo_app mo) p) (\<lambda>r. Inr (Participation_State
       \<lparr>pp_id = uuid_str (pa_id p), pp_version = version_payload_of v, pp_response = r, pp_timeout_seconds = pa_timeout_seconds p\<rparr>))"

definition version_of :: "survey_store \<Rightarrow> uuid option \<Rightarrow> version_row res" where
  "version_of st u = (case version_by_id st u of None \<Rightarrow> Inl Type_Error | Some v \<Rightarrow> Inr v)"

definition continue_participation ::
  "(pyval \<Rightarrow> pyval option) \<Rightarrow> (pyval \<Rightarrow> pyval res) \<Rightarrow> moments \<Rightarrow> uuid \<Rightarrow> pystr \<Rightarrow> participation_request
   \<Rightarrow> participation \<times> survey_store \<Rightarrow> (survey_answer \<times> survey_store) res" where
  "continue_participation validator jsonb mo sid hash q = (\<lambda>(p, st).
     then_res (require_admitted (mo_app mo) st p) (\<lambda>_.
     then_res (version_of st (Some (pa_version_id p))) (\<lambda>v.
     case q of
       Start operation_id \<Rightarrow> then_res (participation_answer mo v p) (\<lambda>a.
         record_operation jsonb sid (lit ''start:'' @ hash) operation_id (participation_body q) a st)
     | Restore \<Rightarrow> then_res (participation_answer mo v p) (\<lambda>a. Inr (a, st))
     | Redeem \<Rightarrow> then_res (participation_answer mo v p) (\<lambda>a. Inr (a, st))
     | _ \<Rightarrow> save_participation validator jsonb mo sid v p q st)))"

definition participate ::
  "(pyval \<Rightarrow> pyval option) \<Rightarrow> (pyval \<Rightarrow> pyval res) \<Rightarrow> moments \<Rightarrow> uuid \<Rightarrow> uuid \<Rightarrow> uuid option \<Rightarrow> participation_request
   \<Rightarrow> pystr \<Rightarrow> survey_store \<Rightarrow> (survey_answer \<times> survey_store) res" where
  "participate validator jsonb mo new_id sid pid q secret st =
     then_res (open_survey st sid) (\<lambda>s.
     if sw_status s \<noteq> Active_Survey \<or> past (sw_ends_at s) (mo_app mo) then Inl (App Conflict ''closed'')
     else if (case q of Ask_Definition \<Rightarrow> True | Start _ \<Rightarrow> True | _ \<Rightarrow> False) \<and> sw_access_mode s \<noteq> Anonymous
     then Inl (App Permission_Denied ''forbidden'')
     else if q = Ask_Definition
     then then_res (version_of st (sw_published_version_id s)) (\<lambda>v. Inr (Version_State (version_payload_of v), st))
     else if \<not> (32 \<le> length secret \<and> length secret \<le> 256) then Inl (App Permission_Denied ''forbidden'')
     else then_res (digest secret) (\<lambda>hash.
     case q of
       Redeem \<Rightarrow> then_res (redeem_participation mo new_id s hash st) (continue_participation validator jsonb mo sid hash q)
     | Start operation_id \<Rightarrow>
         then_res (replay_operation st sid (lit ''start:'' @ hash) operation_id (participation_body q)) (\<lambda>replay.
         case replay of
           Some a \<Rightarrow> Inr (a, st)
         | None \<Rightarrow> then_res (start_participation mo new_id s hash st) (continue_participation validator jsonb mo sid hash q))
     | _ \<Rightarrow> then_res (resumed_participation (mo_app mo) sid pid hash st)
         (\<lambda>p. continue_participation validator jsonb mo sid hash q (p, st))))"

end
