(* ===== verification/Survey_Requests.thy ===== *)
theory Survey_Requests
  imports Survey_Participation Survey_Secrecy
begin

text \<open>
  Who gets which selection: the validation of a filter (\<^verbatim>\<open>AnalysisFilter\<close> of \<^verbatim>\<open>application/analysis_snapshot.py\<close>) and
  the operations \<^verbatim>\<open>analysis-\<close>, \<^verbatim>\<open>response-\<close> and \<^verbatim>\<open>export-selection-\<close> of \<^verbatim>\<open>_author\<close> in
  \<^verbatim>\<open>modules/surveys/adapters/postgres/surveys.py\<close> that freeze a selection or read one as a whole, with
  \<^verbatim>\<open>read_responses\<close> of \<^verbatim>\<open>survey_responses.py\<close> for its selections and aggregates.  What lies outside the program is
  collected in \<open>survey_env\<close>: the two services behind HTTP, the values PostgreSQL gives back and the bytes it counts, the
  time zone, and the sealed mail of an invitation.
\<close>

record survey_env =
  en_analysis :: analysis_service
  en_validator :: "pyval \<Rightarrow> pyval option"
  en_jsonb :: "pyval \<Rightarrow> pyval res"
  en_octets :: "pyval \<Rightarrow> int"
  en_zone :: tz
  en_seal :: "(pystr \<times> pystr \<times> uuid \<times> pystr \<times> datetime \<Rightarrow> pystr) option"

section \<open>Filters\<close>

definition canonical_moment :: "pystr \<Rightarrow> pystr res" where
  "canonical_moment t =
     (if 40 < length t then Inl Value_Error
      else then_res (from_iso t) (\<lambda>d.
      if 84 \<notin> set t \<or> utc_offset d = None then Inl Value_Error
      else then_res (to_utc d) (\<lambda>u. Inr (iso_datetime u))))"

definition optional_canonical :: "pystr option \<Rightarrow> pystr option res" where
  "optional_canonical t = (case t of None \<Rightarrow> Inr None | Some s \<Rightarrow> then_res (canonical_moment s) (\<lambda>c. Inr (Some c)))"

definition ordered_dates :: "pystr option \<Rightarrow> pystr option \<Rightarrow> unit res" where
  "ordered_dates since before =
     (case (since, before) of
        (Some a, Some b) \<Rightarrow> then_res (from_iso a) (\<lambda>d. then_res (from_iso b) (\<lambda>e.
          if instant e \<le> instant d then Inl Value_Error else Inr ()))
      | _ \<Rightarrow> Inr ())"

definition analysis_filter_init :: "analysis_filter \<Rightarrow> analysis_filter res" where
  "analysis_filter_init f =
     (if length (af_version_id f) \<noteq> 36 then Inl Value_Error
      else case parse_uuid (af_version_id f) of
        None \<Rightarrow> Inl Value_Error
      | Some v \<Rightarrow>
          if af_statuses f = [] \<or> 3 < length (af_statuses f) \<or> \<not> distinct (af_statuses f) then Inl Value_Error
          else then_res (optional_canonical (af_created_from f)) (\<lambda>since.
          then_res (optional_canonical (af_created_before f)) (\<lambda>before.
          then_res (ordered_dates since before) (\<lambda>_. Inr
            \<lparr>af_version_id = uuid_str v, af_statuses = filter (\<lambda>k. k \<in> set (af_statuses f)) [In_Progress, Partial, Completed],
             af_is_test = af_is_test f, af_created_from = since, af_created_before = before\<rparr>))))"

definition settled_filter :: "tz \<Rightarrow> datetime \<Rightarrow> analysis_filter \<Rightarrow> analysis_filter res" where
  "settled_filter z now f =
     then_res (whole_days z (af_created_from f) (af_created_before f) now) (\<lambda>(since, before).
     if (case since of None \<Rightarrow> False | Some s \<Rightarrow> \<not> text_less s before) then Inl (Invariant ''range_whole_days'')
     else analysis_filter_init (f\<lparr>af_statuses := [Completed], af_created_from := since, af_created_before := Some before\<rparr>))"

section \<open>Requests\<close>

datatype selection_kind = For_Analysis | For_Responses | For_Export

definition create_operation :: "selection_kind \<Rightarrow> string" where
  "create_operation k =
     (case k of For_Analysis \<Rightarrow> ''analysis-create'' | For_Responses \<Rightarrow> ''response-create''
      | For_Export \<Rightarrow> ''export-selection-create'')"

definition filter_body :: "analysis_filter \<Rightarrow> pyval" where
  "filter_body f = VDict [(lit ''versionId'', VStr (af_version_id f)),
     (lit ''statuses'', VList (map (\<lambda>k. VStr (lit (status_text k))) (af_statuses f))), (lit ''isTest'', VBool (af_is_test f)),
     (lit ''createdFrom'', optional_text (af_created_from f)), (lit ''createdBefore'', optional_text (af_created_before f))]"

definition selection_body :: "pystr \<Rightarrow> analysis_filter \<Rightarrow> pyval" where
  "selection_body operation_id f = VDict [(lit ''operationId'', VStr operation_id), (lit ''filter'', filter_body f)]"

definition author_scope :: "identity_principal \<Rightarrow> string \<Rightarrow> pystr" where
  "author_scope actor operation = lit ''author:'' @ uuid_str (ua_id (ip_account actor)) @ 58 # lit operation"

section \<open>Access\<close>

definition grants_of :: "survey_store \<Rightarrow> uuid \<Rightarrow> identity_principal \<Rightarrow> access_capability set" where
  "grants_of st sid actor = {c. (sid, ua_id (ip_account actor), c) \<in> set (ss_grants st)}"

definition capabilities_of :: "survey_store \<Rightarrow> survey_row \<Rightarrow> identity_principal \<Rightarrow> access_capability list" where
  "capabilities_of st s actor =
     survey_capabilities actor (sw_owner_user_id s) (sw_action_id s) (grants_of st (sw_id s) actor)"

definition raw_access :: "access_capability list \<Rightarrow> bool" where
  "raw_access access \<longleftrightarrow> Read_Responses \<in> set access \<or> Export_Raw \<in> set access"

section \<open>Freezing a selection\<close>

text \<open>The \<^verbatim>\<open>id\<close> of a stored answer, which only a selection has.\<close>

definition answer_id :: "survey_answer \<Rightarrow> pystr res" where
  "answer_id a =
     (case a of Analysis_State s \<Rightarrow> Inr (sn_id s) | Response_Selection s \<Rightarrow> Inr (rx_id s) | Export_Selection s \<Rightarrow> Inr (ex_id s)
      | _ \<Rightarrow> Inl Key_Error)"

definition selection_answer :: "selection_kind \<Rightarrow> analysis_snapshot \<Rightarrow> survey_answer" where
  "selection_answer k s =
     (case k of For_Analysis \<Rightarrow> Analysis_State s | For_Responses \<Rightarrow> Response_Selection (selection_metadata s)
      | For_Export \<Rightarrow> Export_Selection (export_selection_of s))"

definition stored_settled :: "uuid \<Rightarrow> pystr \<Rightarrow> bool \<Rightarrow> survey_store \<Rightarrow> unit res" where
  "stored_settled sid text can_test st =
     (case parse_uuid text of
        None \<Rightarrow> Inl Value_Error
      | Some u \<Rightarrow> then_res (read_snapshot sid u can_test (ss_data st)) (\<lambda>stored.
          if sn_policy stored \<noteq> Settled then Inl (App Resource_Not_Found ''not_found'') else Inr ()))"

definition create_selection ::
  "survey_env \<Rightarrow> moments \<Rightarrow> uuid \<Rightarrow> identity_principal \<Rightarrow> survey_row \<Rightarrow> selection_kind \<Rightarrow> pystr \<Rightarrow> analysis_filter
   \<Rightarrow> survey_store \<Rightarrow> (survey_answer \<times> survey_store) res" where
  "create_selection env mo new_id actor s k operation_id asked st =
     (let access = capabilities_of st s actor; can_test = (Design \<in> set access);
          settled = (k \<noteq> For_Responses \<and> \<not> raw_access access);
          scope = author_scope actor (create_operation k); body = selection_body operation_id asked in
      then_res (analysis_filter_init asked) (\<lambda>valid.
      if af_is_test valid \<and> \<not> can_test then Inl (App Resource_Not_Found ''not_found'')
      else then_res (if settled then settled_filter (en_zone env) (mo_clock mo) valid else Inr valid) (\<lambda>f.
      then_res (replay_operation st (sw_id s) scope operation_id body) (\<lambda>replay.
      case replay of
        Some a \<Rightarrow>
          then_res (if settled then then_res (answer_id a) (\<lambda>text. stored_settled (sw_id s) text can_test st) else Inr ())
            (\<lambda>_. Inr (a, st))
      | None \<Rightarrow>
          then_res (create_snapshot (en_analysis env) (en_octets env) new_id (mo_captured mo) s f settled (ss_data st))
            (\<lambda>(snapshot, data).
          record_operation (en_jsonb env) (sw_id s) scope operation_id body (selection_answer k snapshot)
            (st\<lparr>ss_data := data\<rparr>))))))"

definition get_analysis ::
  "identity_principal \<Rightarrow> survey_row \<Rightarrow> pystr \<Rightarrow> survey_store \<Rightarrow> analysis_snapshot res" where
  "get_analysis actor s text st =
     (let access = capabilities_of st s actor in
      case parse_uuid text of
        None \<Rightarrow> Inl Value_Error
      | Some u \<Rightarrow> then_res (read_snapshot (sw_id s) u (Design \<in> set access) (ss_data st)) (\<lambda>snapshot.
          if \<not> raw_access access \<and> sn_policy snapshot \<noteq> Settled then Inl (App Resource_Not_Found ''not_found'')
          else Inr snapshot))"

text \<open>\<^verbatim>\<open>read_responses\<close> for \<^verbatim>\<open>response-selection\<close> and \<^verbatim>\<open>response-aggregates\<close>\<close>

definition read_selection ::
  "identity_principal \<Rightarrow> survey_row \<Rightarrow> bool \<Rightarrow> pystr \<Rightarrow> survey_store \<Rightarrow> survey_answer res" where
  "read_selection actor s aggregates text st =
     (case parse_uuid text of
        None \<Rightarrow> Inl Value_Error
      | Some u \<Rightarrow> then_res (read_snapshot (sw_id s) u (Design \<in> set (capabilities_of st s actor)) (ss_data st)) (\<lambda>snapshot.
          Inr (if aggregates then Analysis_State snapshot else Response_Selection (selection_metadata snapshot))))"

definition selection_versions :: "survey_row \<Rightarrow> survey_store \<Rightarrow> survey_answer" where
  "selection_versions s st = Versions_State
     (map (\<lambda>v. (uuid_str (vr_id v), vr_number v, iso_datetime (vr_published_at v)))
       (sort_key (\<lambda>v. - vr_number v) (filter (\<lambda>v. vr_survey_id v = sw_id s) (su_versions (ss_data st)))))"

end
