(* ===== verification/Survey_Authoring.thy ===== *)
theory Survey_Authoring
  imports Survey_Requests
begin

text \<open>
  What authors do with a survey: \<^verbatim>\<open>_author\<close>, \<^verbatim>\<open>_lifecycle\<close> and \<^verbatim>\<open>_invitation\<close> of
  \<^verbatim>\<open>modules/surveys/adapters/postgres/surveys.py\<close>, \<^verbatim>\<open>request_deletion\<close> of \<^verbatim>\<open>survey_deletion.py\<close>; the settings, the sweeps of the same
  repository and of \<^verbatim>\<open>survey_retention.py\<close>, and the erasure of a survey's rows.  A transaction holds
  the advisory lock of the survey's id and the lock of its row, so it is one step.
\<close>

section \<open>Requests\<close>

datatype transition_action = End_It | Archive_It | Unarchive_It | Trash_It | Restore_It

datatype author_request =
    Create_Survey pystr pystr pyval "int option" "pystr option"
  | Get_Summary
  | Get_Draft
  | Get_Publication
  | Validate_Draft int
  | Save_Draft pystr int pyval
  | Publish_Survey pystr int
  | Change_Status pystr int transition_action
  | Duplicate_Survey pystr int pystr pystr
  | Set_Timeout pystr int "int option"
  | Schedule_End pystr int "pystr option"
  | Set_Access pystr int access_mode
  | Delete_Permanently pystr int
  | Deletion_Status
  | Selection_Versions selection_kind
  | Create_Selection selection_kind pystr analysis_filter
  | Get_Analysis pystr
  | Get_Response_Selection pystr
  | Get_Response_Aggregates pystr
  | List_Invitations nat
  | Create_Invitation pystr int pystr pystr int
  | Revoke_Invitation pystr int pystr

definition author_operation :: "author_request \<Rightarrow> string" where
  "author_operation q = (case q of
       Create_Survey _ _ _ _ _ \<Rightarrow> ''create'' | Get_Summary \<Rightarrow> ''summary'' | Get_Draft \<Rightarrow> ''draft''
     | Get_Publication \<Rightarrow> ''publication'' | Validate_Draft _ \<Rightarrow> ''validate'' | Save_Draft _ _ _ \<Rightarrow> ''save''
     | Publish_Survey _ _ \<Rightarrow> ''publish'' | Change_Status _ _ _ \<Rightarrow> ''transition'' | Duplicate_Survey _ _ _ _ \<Rightarrow> ''duplicate''
     | Set_Timeout _ _ _ \<Rightarrow> ''settings'' | Schedule_End _ _ _ \<Rightarrow> ''schedule'' | Set_Access _ _ _ \<Rightarrow> ''access''
     | Delete_Permanently _ _ \<Rightarrow> ''delete-permanently'' | Deletion_Status \<Rightarrow> ''deletion-status''
     | Selection_Versions k \<Rightarrow> (case k of For_Analysis \<Rightarrow> ''analysis-versions'' | For_Responses \<Rightarrow> ''response-versions''
         | For_Export \<Rightarrow> ''export-selection-versions'')
     | Create_Selection k _ _ \<Rightarrow> create_operation k
     | Get_Analysis _ \<Rightarrow> ''analysis-get'' | Get_Response_Selection _ \<Rightarrow> ''response-selection''
     | Get_Response_Aggregates _ \<Rightarrow> ''response-aggregates'' | List_Invitations _ \<Rightarrow> ''invitation-list''
     | Create_Invitation _ _ _ _ _ \<Rightarrow> ''invitation-create'' | Revoke_Invitation _ _ _ \<Rightarrow> ''invitation-revoke'')"

definition action_text :: "transition_action \<Rightarrow> string" where
  "action_text a = (case a of End_It \<Rightarrow> ''end'' | Archive_It \<Rightarrow> ''archive'' | Unarchive_It \<Rightarrow> ''unarchive''
     | Trash_It \<Rightarrow> ''trash'' | Restore_It \<Rightarrow> ''restore'')"

definition optional_int :: "int option \<Rightarrow> pyval" where
  "optional_int n = (case n of None \<Rightarrow> VNone | Some k \<Rightarrow> VInt k)"

definition mutation_body :: "pystr \<Rightarrow> int \<Rightarrow> (pystr \<times> pyval) list \<Rightarrow> pyval" where
  "mutation_body operation_id n rest =
     VDict ([(lit ''operationId'', VStr operation_id), (lit ''expectedRevision'', VInt n)] @ rest)"

text \<open>The bodies of the requests that are recorded.\<close>

definition author_body :: "author_request \<Rightarrow> pyval" where
  "author_body q = (case q of
       Create_Survey op title d timeout action \<Rightarrow> VDict [(lit ''operationId'', VStr op), (lit ''title'', VStr title),
         (lit ''definition'', d), (lit ''inactivityTimeoutSeconds'', optional_int timeout), (lit ''actionId'', optional_text action)]
     | Save_Draft op n d \<Rightarrow> mutation_body op n [(lit ''definition'', d)]
     | Publish_Survey op n \<Rightarrow> mutation_body op n []
     | Change_Status op n a \<Rightarrow> mutation_body op n [(lit ''action'', VStr (lit (action_text a)))]
     | Duplicate_Survey op n target title \<Rightarrow> mutation_body op n [(lit ''targetSurveyId'', VStr target), (lit ''title'', VStr title)]
     | Set_Timeout op n timeout \<Rightarrow> mutation_body op n [(lit ''inactivityTimeoutSeconds'', optional_int timeout)]
     | Schedule_End op n ends \<Rightarrow> mutation_body op n [(lit ''endsAt'', optional_text ends)]
     | Set_Access op n mode \<Rightarrow> mutation_body op n
         [(lit ''accessMode'', VStr (lit (case mode of Anonymous \<Rightarrow> ''anonymous'' | By_Invitation \<Rightarrow> ''invitation'')))]
     | Create_Invitation op n email name days \<Rightarrow> mutation_body op n
         [(lit ''recipientEmail'', VStr email), (lit ''recipientName'', VStr name), (lit ''expiresInDays'', VInt days)]
     | Revoke_Invitation op n i \<Rightarrow> mutation_body op n [(lit ''invitationId'', VStr i)]
     | _ \<Rightarrow> VDict [])"

text \<open>New identifiers and the token of an invitation.\<close>

record fresh_ids =
  fi_first :: uuid
  fi_second :: uuid
  fi_token :: pystr

section \<open>Access\<close>

definition required_capability :: "access_capability list \<Rightarrow> author_request \<Rightarrow> access_capability" where
  "required_capability access q = (case q of
       Delete_Permanently _ _ \<Rightarrow> Delete_Survey
     | Selection_Versions k \<Rightarrow> (case k of For_Analysis \<Rightarrow> View_Aggregates | For_Responses \<Rightarrow> Read_Responses
         | For_Export \<Rightarrow> if Export_Raw \<in> set access then Export_Raw else Export_Reports)
     | Create_Selection k _ _ \<Rightarrow> (case k of For_Analysis \<Rightarrow> View_Aggregates | For_Responses \<Rightarrow> Read_Responses
         | For_Export \<Rightarrow> if Export_Raw \<in> set access then Export_Raw else Export_Reports)
     | Get_Analysis _ \<Rightarrow> View_Aggregates
     | Get_Response_Selection _ \<Rightarrow> Read_Responses
     | Get_Response_Aggregates _ \<Rightarrow> Read_Responses
     | List_Invitations _ \<Rightarrow> Manage_Invitations
     | Create_Invitation _ _ _ _ _ \<Rightarrow> Manage_Invitations
     | Revoke_Invitation _ _ _ \<Rightarrow> Manage_Invitations
     | Publish_Survey _ _ \<Rightarrow> Publish
     | Get_Publication \<Rightarrow> Publish
     | Schedule_End _ _ _ \<Rightarrow> Publish
     | Set_Access _ _ _ \<Rightarrow> Publish
     | Change_Status _ _ a \<Rightarrow> (case a of End_It \<Rightarrow> Publish | Trash_It \<Rightarrow> Delete_Survey | Restore_It \<Rightarrow> Delete_Survey
         | _ \<Rightarrow> Archive_Survey)
     | _ \<Rightarrow> Design)"

section \<open>Deletion\<close>

definition deletion_of :: "survey_store \<Rightarrow> uuid \<Rightarrow> deletion_row option" where
  "deletion_of st sid = find (\<lambda>d. dl_survey_id d = sid) (ss_deletions st)"

definition deletion_status :: "identity_principal \<Rightarrow> deletion_row option \<Rightarrow> survey_store \<Rightarrow> deletion_payload res" where
  "deletion_status actor deletion st =
     (case deletion of
        None \<Rightarrow> Inl (App Resource_Not_Found ''not_found'')
      | Some d \<Rightarrow>
          if \<not> can_authenticate (ip_account actor)
             \<or> dl_requested_by d \<noteq> ua_id (ip_account actor) \<and> System_Admin \<notin> ip_global_roles actor
          then Inl (App Resource_Not_Found ''not_found'')
          else let result = deletion_payload_of d; event = find (\<lambda>e. er_id e = dl_event_id d) (ss_events st) in
            Inr (if dl_completed_at d \<noteq> None then result
              else case event of
                None \<Rightarrow> result\<lparr>ly_status := Deletion_Failed\<rparr>
              | Some e \<Rightarrow>
                  if er_dead_letter e then result\<lparr>ly_status := Deletion_Failed,
                    ly_retry_event_id := (if System_Admin \<in> ip_global_roles actor then Some (uuid_str (dl_event_id d)) else None)\<rparr>
                  else if 0 < er_attempts e then result\<lparr>ly_status := Deletion_Retrying\<rparr>
                  else result))"

text \<open>A survey whose erasure was requested answers nothing but the repetition of this request.\<close>

definition requested_deletion :: "identity_principal \<Rightarrow> deletion_row \<Rightarrow> author_request \<Rightarrow> deletion_payload res" where
  "requested_deletion actor d q =
     (case q of
        Delete_Permanently operation_id n \<Rightarrow>
          if dl_requested_by d \<noteq> ua_id (ip_account actor) \<or> \<not> can_authenticate (ip_account actor)
          then Inl (App Resource_Not_Found ''not_found'')
          else then_res (digest operation_id) (\<lambda>hash.
          if dl_operation_hash d \<noteq> hash \<or> dl_expected_revision d \<noteq> n then Inl (App Conflict ''idempotency_conflict'')
          else Inr (deletion_payload_of d))
      | _ \<Rightarrow> Inl (App Resource_Not_Found ''not_found''))"

definition request_deletion ::
  "moments \<Rightarrow> uuid \<Rightarrow> survey_row \<Rightarrow> uuid \<Rightarrow> pystr \<Rightarrow> survey_store \<Rightarrow> (deletion_payload \<times> survey_store) res" where
  "request_deletion mo event_id s actor_id operation_id st =
     then_res (digest operation_id) (\<lambda>hash.
     let d = \<lparr>dl_survey_id = sw_id s, dl_requested_by = actor_id, dl_operation_hash = hash,
           dl_expected_revision = sw_revision s, dl_event_id = event_id, dl_requested_at = mo_clock mo, dl_completed_at = None\<rparr>;
         e = \<lparr>er_id = event_id, er_type = ''survey.delete.v1'', er_aggregate_id = sw_id s, er_dead_letter = False,
           er_attempts = 0, er_error = None\<rparr> in
     if list_ex (\<lambda>x. er_id x = event_id) (ss_events st) then Inl Unique_Violation
     else Inr (deletion_payload_of d, st\<lparr>ss_deletions := ss_deletions st @ [d], ss_events := ss_events st @ [e]\<rparr>))"

definition delete_permanently ::
  "moments \<Rightarrow> fresh_ids \<Rightarrow> identity_principal \<Rightarrow> survey_row \<Rightarrow> pystr \<Rightarrow> int \<Rightarrow> survey_store \<Rightarrow> (survey_answer \<times> survey_store) res" where
  "delete_permanently mo ids actor s operation_id n st =
     (if sw_status s \<noteq> Deleted_Survey then Inl (App Conflict ''survey_transition_invalid'')
      else if sw_revision s \<noteq> n then Inl (App Conflict ''revision_conflict'')
      else then_res (request_deletion mo (fi_first ids) s (ua_id (ip_account actor)) operation_id st)
        (\<lambda>(d, st'). Inr (Deletion_Answer d, st')))"

section \<open>Surveys and drafts\<close>

text \<open>A trigger refuses to write a survey whose erasure was requested.\<close>

definition new_survey :: "uuid \<Rightarrow> pystr \<Rightarrow> uuid \<Rightarrow> int option \<Rightarrow> uuid option \<Rightarrow> survey_row" where
  "new_survey sid title owner timeout action = \<lparr>sw_id = sid, sw_title = title, sw_status = Draft_Survey, sw_revision = 1,
     sw_owner_user_id = owner, sw_action_id = action, sw_access_mode = Anonymous, sw_timeout_seconds = timeout,
     sw_published_version_id = None, sw_ends_at = None, sw_deleted_at = None\<rparr>"

definition open_new_survey ::
  "identity_principal \<Rightarrow> uuid \<Rightarrow> pystr \<Rightarrow> pyval \<Rightarrow> int option \<Rightarrow> pystr option \<Rightarrow> survey_store \<Rightarrow> survey_store res" where
  "open_new_survey actor sid title d timeout action st =
     (if \<not> can_authenticate (ip_account actor) then Inl (App Permission_Denied ''forbidden'')
      else then_res (validate_definition d) (\<lambda>_.
      then_res (case action of None \<Rightarrow> Inr None | Some t \<Rightarrow> if t = [] then Inr None else
          (case parse_uuid t of None \<Rightarrow> Inl Value_Error | Some a \<Rightarrow>
            if \<not> may_manage_action actor a \<or> a \<notin> set (ss_action_ids st) then Inl (App Resource_Not_Found ''not_found'')
            else Inr (Some a))) (\<lambda>action_id.
      if find_survey st sid \<noteq> None then Inr st
      else Inr (st\<lparr>ss_surveys := ss_surveys st @ [new_survey sid title (ua_id (ip_account actor)) timeout action_id]\<rparr>))))"

definition draft_of :: "survey_store \<Rightarrow> uuid \<Rightarrow> draft_row res" where
  "draft_of st sid = (case find (\<lambda>d. dr_survey_id d = sid) (ss_drafts st) of None \<Rightarrow> Inl Type_Error | Some d \<Rightarrow> Inr d)"

definition draft_state :: "uuid \<Rightarrow> int \<Rightarrow> pyval \<Rightarrow> survey_answer" where
  "draft_state sid n d = Draft_State \<lparr>dp_survey_id = uuid_str sid, dp_revision = n, dp_definition = d\<rparr>"

definition update_draft :: "uuid \<Rightarrow> (draft_row \<Rightarrow> draft_row) \<Rightarrow> survey_store \<Rightarrow> survey_store" where
  "update_draft sid f st = st\<lparr>ss_drafts := update_rows (\<lambda>d. dr_survey_id d = sid) f (ss_drafts st)\<rparr>"

text \<open>The definition as it is stored.\<close>

definition keep_definition :: "survey_env \<Rightarrow> pyval \<Rightarrow> pyval res" where
  "keep_definition env d = then_res (encoded d) (\<lambda>_. en_jsonb env d)"

definition first_draft :: "survey_env \<Rightarrow> uuid \<Rightarrow> pyval \<Rightarrow> survey_store \<Rightarrow> (survey_answer \<times> survey_store) res" where
  "first_draft env sid d st =
     (if list_ex (\<lambda>r. dr_survey_id r = sid) (ss_drafts st) then Inl (App Conflict ''revision_conflict'')
      else then_res (keep_definition env d) (\<lambda>kept.
      Inr (draft_state sid 1 d, st\<lparr>ss_drafts := ss_drafts st @ [\<lparr>dr_survey_id = sid, dr_revision = 1, dr_definition = kept\<rparr>]\<rparr>)))"

definition save_draft :: "survey_env \<Rightarrow> uuid \<Rightarrow> int \<Rightarrow> pyval \<Rightarrow> survey_store \<Rightarrow> (survey_answer \<times> survey_store) res" where
  "save_draft env sid n d st =
     then_res (draft_of st sid) (\<lambda>draft.
     if dr_revision draft \<noteq> n then Inl (App Conflict ''revision_conflict'')
     else then_res (keep_definition env d) (\<lambda>kept.
     Inr (draft_state sid (dr_revision draft + 1) d,
       update_draft sid (\<lambda>r. r\<lparr>dr_definition := kept, dr_revision := dr_revision r + 1\<rparr>) st)))"

definition next_number :: "survey_store \<Rightarrow> uuid \<Rightarrow> int" where
  "next_number st sid = foldr max (map vr_number (filter (\<lambda>v. vr_survey_id v = sid) (su_versions (ss_data st)))) 0 + 1"

definition publish_draft ::
  "survey_env \<Rightarrow> moments \<Rightarrow> uuid \<Rightarrow> survey_row \<Rightarrow> int \<Rightarrow> survey_store \<Rightarrow> (survey_answer \<times> survey_store) res" where
  "publish_draft env mo vid s n st =
     then_res (draft_of st (sw_id s)) (\<lambda>draft.
     if dr_revision draft \<noteq> n then Inl (App Conflict ''revision_conflict'')
     else then_res (validate_definition (dr_definition draft)) (\<lambda>_.
     then_res (encoded (dr_definition draft)) (\<lambda>text.
     then_res (digest text) (\<lambda>hash.
     then_res (en_jsonb env (dr_definition draft)) (\<lambda>kept.
     let v = \<lparr>vr_id = vid, vr_survey_id = sw_id s, vr_number = next_number st (sw_id s),
           vr_capability_profile = lit ''initial-v1'', vr_renderer_version = lit ''3.0.3'', vr_definition = kept,
           vr_schema_hash = hash, vr_published_at = mo_started mo\<rparr> in
     if list_ex (\<lambda>r. vr_id r = vid) (su_versions (ss_data st)) then Inl Unique_Violation
     else Inr (Version_State (version_payload_of v),
       update_draft (sw_id s) (\<lambda>r. r\<lparr>dr_revision := dr_revision r + 1\<rparr>)
         (put_survey (s\<lparr>sw_published_version_id := Some vid, sw_status := Active_Survey, sw_revision := sw_revision s + 1\<rparr>)
           (st\<lparr>ss_data := (ss_data st)\<lparr>su_versions := su_versions (ss_data st) @ [v]\<rparr>\<rparr>))))))))"

section \<open>Small changes of a survey\<close>

text \<open>\<^verbatim>\<open>UPDATE survey SET ..., revision=revision+1\<close>, and the answer recorded under the request's key.\<close>

definition recorded_survey ::
  "survey_env \<Rightarrow> identity_principal \<Rightarrow> survey_row \<Rightarrow> author_request \<Rightarrow> pystr \<Rightarrow> (survey_store \<Rightarrow> (survey_row \<times> survey_store) res)
   \<Rightarrow> survey_store \<Rightarrow> (survey_answer \<times> survey_store) res" where
  "recorded_survey env actor s q operation_id change st =
     (let scope = author_scope actor (author_operation q) in
      then_res (replay_operation st (sw_id s) scope operation_id (author_body q)) (\<lambda>replay.
      case replay of
        Some a \<Rightarrow> Inr (a, st)
      | None \<Rightarrow> then_res (change st) (\<lambda>(s', st').
          record_operation (en_jsonb env) (sw_id s) scope operation_id (author_body q) (Survey_State (survey_payload_of s') []) st')))"

definition raised :: "survey_row \<Rightarrow> survey_row" where
  "raised s = s\<lparr>sw_revision := sw_revision s + 1\<rparr>"

definition changed_survey :: "survey_row \<Rightarrow> survey_store \<Rightarrow> survey_row \<times> survey_store" where
  "changed_survey s st = (s, put_survey s st)"

definition set_access :: "survey_row \<Rightarrow> int \<Rightarrow> access_mode \<Rightarrow> survey_store \<Rightarrow> (survey_row \<times> survey_store) res" where
  "set_access s n mode st =
     (if sw_status s \<noteq> Draft_Survey then Inl (App Conflict ''closed'')
      else if sw_revision s \<noteq> n then Inl (App Conflict ''revision_conflict'')
      else Inr (changed_survey (raised (s\<lparr>sw_access_mode := mode\<rparr>)) st))"

definition set_timeout :: "survey_row \<Rightarrow> int \<Rightarrow> int option \<Rightarrow> survey_store \<Rightarrow> (survey_row \<times> survey_store) res" where
  "set_timeout s n timeout st =
     (if sw_revision s \<noteq> n then Inl (App Conflict ''revision_conflict'')
      else Inr (changed_survey (raised (s\<lparr>sw_timeout_seconds := timeout\<rparr>)) st))"

definition schedule_end ::
  "moments \<Rightarrow> survey_row \<Rightarrow> int \<Rightarrow> pystr option \<Rightarrow> survey_store \<Rightarrow> (survey_row \<times> survey_store) res" where
  "schedule_end mo s n ends st =
     (if sw_status s \<notin> {Draft_Survey, Active_Survey} \<or> sw_status s = Active_Survey \<and> past (sw_ends_at s) (mo_app mo)
      then Inl (App Conflict ''closed'')
      else if sw_revision s \<noteq> n then Inl (App Conflict ''revision_conflict'')
      else then_res (optional_moment ends) (\<lambda>deadline.
      if past deadline (mo_app mo) then Inl (Invariant ''invalid_end_time'')
      else Inr (changed_survey (raised (s\<lparr>sw_ends_at := deadline\<rparr>)) st)))"

section \<open>Life cycle\<close>

definition transition_target :: "survey_row \<Rightarrow> transition_action \<Rightarrow> survey_status res" where
  "transition_target s a =
     (case a of
        Restore_It \<Rightarrow>
          if sw_status s \<noteq> Deleted_Survey then Inl (App Conflict ''survey_transition_invalid'')
          else Inr (if sw_published_version_id s \<noteq> None then Ended_Survey else Draft_Survey)
      | Unarchive_It \<Rightarrow>
          if sw_status s \<noteq> Archived_Survey then Inl (App Conflict ''survey_transition_invalid'') else Inr Ended_Survey
      | End_It \<Rightarrow>
          if sw_status s \<noteq> Active_Survey then Inl (App Conflict ''survey_transition_invalid'') else Inr Ended_Survey
      | Archive_It \<Rightarrow> Inr Archived_Survey
      | Trash_It \<Rightarrow> Inr Deleted_Survey)"

text \<open>Closing an active survey leaves no participation in progress.\<close>

definition leave_partial :: "uuid \<Rightarrow> participation list \<Rightarrow> participation list" where
  "leave_partial sid = update_rows (\<lambda>p. pa_survey_id p = sid \<and> pa_status p = In_Progress) (\<lambda>p. p\<lparr>pa_status := Partial\<rparr>)"

definition change_status ::
  "moments \<Rightarrow> survey_row \<Rightarrow> int \<Rightarrow> transition_action \<Rightarrow> survey_store \<Rightarrow> (survey_row \<times> survey_store) res" where
  "change_status mo s n a st =
     (if sw_revision s \<noteq> n then Inl (App Conflict ''revision_conflict'')
      else then_res (transition_target s a) (\<lambda>target.
      then_res (require_transition (sw_status s) target (sw_published_version_id s \<noteq> None)) (\<lambda>_.
      let s' = raised (s\<lparr>sw_status := target,
            sw_deleted_at := (if target = Deleted_Survey then Some (mo_clock mo) else None),
            sw_ends_at := (if sw_status s = Active_Survey then Some (mo_clock mo) else sw_ends_at s)\<rparr>) in
      Inr (s', if sw_status s = Active_Survey then put_participations (leave_partial (sw_id s)) (put_survey s' st)
        else put_survey s' st))))"

definition duplicate_survey ::
  "identity_principal \<Rightarrow> survey_row \<Rightarrow> int \<Rightarrow> pystr \<Rightarrow> pystr \<Rightarrow> survey_store \<Rightarrow> (survey_row \<times> survey_store) res" where
  "duplicate_survey actor s n target title st =
     (if sw_revision s \<noteq> n then Inl (App Conflict ''revision_conflict'')
      else if sw_status s = Deleted_Survey then Inl (App Conflict ''closed'')
      else case parse_uuid target of
        None \<Rightarrow> Inl Value_Error
      | Some tid \<Rightarrow>
          if tid = sw_id s then Inl (App Conflict ''revision_conflict'')
          else then_res (case sw_published_version_id s of
              Some v \<Rightarrow> then_res (version_of st (Some v)) (\<lambda>r. Inr (vr_definition r))
            | None \<Rightarrow> then_res (draft_of st (sw_id s)) (\<lambda>d. Inr (dr_definition d))) (\<lambda>d.
          if deletion_of st tid \<noteq> None then Inl Data_Error
          else if find_survey st tid \<noteq> None then Inl (App Conflict ''revision_conflict'')
          else let copy = new_survey tid title (ua_id (ip_account actor)) (sw_timeout_seconds s) None in
            Inr (copy, st\<lparr>ss_surveys := ss_surveys st @ [copy],
              ss_drafts := ss_drafts st @ [\<lparr>dr_survey_id = tid, dr_revision = 1, dr_definition = d\<rparr>]\<rparr>)))"

section \<open>Invitations\<close>

definition invitation_state_of :: "datetime \<Rightarrow> event_row option \<Rightarrow> survey_invitation \<Rightarrow> invitation_state" where
  "invitation_state_of now event i =
     (if si_revoked_at i \<noteq> None then Iv_Revoked
      else if instant (si_expires_at i) \<le> instant now then Iv_Expired
      else if si_redeemed_at i \<noteq> None then Iv_Redeemed
      else if si_sent_at i \<noteq> None then Iv_Sent
      else if si_mail_payload i = None then Iv_Cancelled
      else case event of
        None \<Rightarrow> Iv_Queued
      | Some e \<Rightarrow> if er_dead_letter e then Iv_Failed else if er_error e \<noteq> None \<and> er_error e \<noteq> Some [] then Iv_Retrying else Iv_Queued)"

definition invitation_payload_of :: "datetime \<Rightarrow> event_row option \<Rightarrow> survey_invitation \<Rightarrow> invitation_payload" where
  "invitation_payload_of now event i = \<lparr>iy_id = uuid_str (si_id i), iy_recipient_email = si_recipient_email i,
     iy_recipient_name = si_recipient_name i, iy_status = invitation_state_of now event i,
     iy_expires_at = iso_datetime (si_expires_at i), iy_created_at = iso_datetime (si_created_at i)\<rparr>"

definition invitation_event :: "survey_store \<Rightarrow> survey_invitation \<Rightarrow> event_row option" where
  "invitation_event st i =
     find (\<lambda>e. er_type e = ''survey.invitation.send.v1'' \<and> er_aggregate_id e = si_id i) (ss_events st)"

definition list_invitations :: "moments \<Rightarrow> uuid \<Rightarrow> nat \<Rightarrow> survey_store \<Rightarrow> survey_answer" where
  "list_invitations mo sid offset st =
     (let rows = filter (\<lambda>i. si_survey_id i = sid) (ss_invitations st);
          sorted_rows = sort_key (\<lambda>i. - instant (si_created_at i)) (sort_key si_id rows) in
      Invitations_State (map (\<lambda>i. invitation_payload_of (mo_app mo) (invitation_event st i) i)
        (take 100 (drop offset sorted_rows))) (int (length rows)))"

definition revoke_invitation :: "moments \<Rightarrow> uuid \<Rightarrow> pystr \<Rightarrow> survey_store \<Rightarrow> (survey_invitation \<times> survey_store) res" where
  "revoke_invitation mo sid text st =
     (case parse_uuid text of
        None \<Rightarrow> Inl Value_Error
      | Some u \<Rightarrow> (case find (\<lambda>i. si_id i = u \<and> si_survey_id i = sid) (ss_invitations st) of
          None \<Rightarrow> Inl (App Resource_Not_Found ''not_found'')
        | Some i \<Rightarrow>
            let i' = i\<lparr>si_revoked_at := (case si_revoked_at i of None \<Rightarrow> Some (mo_started mo) | Some t \<Rightarrow> Some t), si_mail_payload := None\<rparr> in
            Inr (i', st\<lparr>ss_invitations := update_rows (\<lambda>r. si_id r = u \<and> si_survey_id r = sid) (\<lambda>_. i') (ss_invitations st)\<rparr>)))"

definition create_invitation ::
  "survey_env \<Rightarrow> moments \<Rightarrow> fresh_ids \<Rightarrow> survey_row \<Rightarrow> pystr \<Rightarrow> pystr \<Rightarrow> int \<Rightarrow> survey_store \<Rightarrow> (survey_invitation \<times> survey_store) res" where
  "create_invitation env mo ids s email name days st =
     (if sw_status s \<noteq> Active_Survey \<or> sw_access_mode s \<noteq> By_Invitation \<or> past (sw_ends_at s) (mo_app mo)
      then Inl (App Conflict ''closed'')
      else case en_seal env of
        None \<Rightarrow> Inl (App Conflict ''temporarily_unavailable'')
      | Some seal \<Rightarrow>
          then_res (add_delta (mo_app mo) (days * day_us)) (\<lambda>expires.
          then_res (digest (fi_token ids)) (\<lambda>hash.
          let i = \<lparr>si_id = fi_first ids, si_survey_id = sw_id s, si_recipient_email = email, si_recipient_name = name,
                si_token_digest = hash, si_participation_id = None, si_expires_at = expires, si_revoked_at = None,
                si_redeemed_at = None, si_sent_at = None,
                si_mail_payload = Some (seal (email, sw_title s, sw_id s, fi_token ids, expires)), si_created_at = mo_started mo\<rparr>;
              e = \<lparr>er_id = fi_second ids, er_type = ''survey.invitation.send.v1'', er_aggregate_id = fi_first ids,
                er_dead_letter = False, er_attempts = 0, er_error = None\<rparr> in
          if list_ex (\<lambda>r. si_id r = si_id i \<or> si_token_digest r = hash) (ss_invitations st)
             \<or> list_ex (\<lambda>x. er_id x = er_id e) (ss_events st)
          then Inl Unique_Violation
          else Inr (i, st\<lparr>ss_invitations := ss_invitations st @ [i], ss_events := ss_events st @ [e]\<rparr>))))"

definition change_invitation ::
  "survey_env \<Rightarrow> moments \<Rightarrow> identity_principal \<Rightarrow> survey_row \<Rightarrow> author_request \<Rightarrow> pystr \<Rightarrow> int
   \<Rightarrow> (survey_store \<Rightarrow> (survey_invitation \<times> survey_store) res) \<Rightarrow> survey_store \<Rightarrow> (survey_answer \<times> survey_store) res" where
  "change_invitation env mo actor s q operation_id n change st =
     (let scope = author_scope actor (author_operation q) in
      then_res (replay_operation st (sw_id s) scope operation_id (author_body q)) (\<lambda>replay.
      case replay of
        Some a \<Rightarrow> Inr (a, st)
      | None \<Rightarrow>
          if sw_revision s \<noteq> n then Inl (App Conflict ''revision_conflict'')
          else then_res (change st) (\<lambda>(i, st').
          record_operation (en_jsonb env) (sw_id s) scope operation_id (author_body q)
            (Invitation_State (invitation_payload_of (mo_app mo) None i)) st')))"

definition invitation_request ::
  "survey_env \<Rightarrow> moments \<Rightarrow> fresh_ids \<Rightarrow> identity_principal \<Rightarrow> survey_row \<Rightarrow> author_request \<Rightarrow> survey_store
   \<Rightarrow> (survey_answer \<times> survey_store) res" where
  "invitation_request env mo ids actor s q st =
     (if sw_status s = Deleted_Survey then Inl (App Conflict ''closed'')
      else case q of
        List_Invitations offset \<Rightarrow> Inr (list_invitations mo (sw_id s) offset st, st)
      | Revoke_Invitation operation_id n text \<Rightarrow>
          change_invitation env mo actor s q operation_id n (revoke_invitation mo (sw_id s) text) st
      | Create_Invitation operation_id n email name days \<Rightarrow>
          change_invitation env mo actor s q operation_id n (create_invitation env mo ids s email name days) st
      | _ \<Rightarrow> Inl Key_Error)"

section \<open>The transaction\<close>

definition selection_request ::
  "survey_env \<Rightarrow> moments \<Rightarrow> fresh_ids \<Rightarrow> identity_principal \<Rightarrow> survey_row \<Rightarrow> author_request \<Rightarrow> survey_store
   \<Rightarrow> (survey_answer \<times> survey_store) res" where
  "selection_request env mo ids actor s q st =
     (if sw_status s = Deleted_Survey then Inl (App Conflict ''closed'')
      else case q of
        Selection_Versions _ \<Rightarrow> Inr (selection_versions s st, st)
      | Get_Analysis text \<Rightarrow> then_res (get_analysis actor s text st) (\<lambda>x. Inr (Analysis_State x, st))
      | Get_Response_Selection text \<Rightarrow> then_res (read_selection actor s False text st) (\<lambda>a. Inr (a, st))
      | Get_Response_Aggregates text \<Rightarrow> then_res (read_selection actor s True text st) (\<lambda>a. Inr (a, st))
      | Create_Selection k operation_id f \<Rightarrow> create_selection env mo (fi_first ids) actor s k operation_id f st
      | _ \<Rightarrow> Inl Key_Error)"

definition read_draft :: "survey_row \<Rightarrow> author_request \<Rightarrow> survey_store \<Rightarrow> (survey_answer \<times> survey_store) res" where
  "read_draft s q st =
     then_res (draft_of st (sw_id s)) (\<lambda>draft.
     then_res (case q of
         Validate_Draft n \<Rightarrow>
           if dr_revision draft \<noteq> n then Inl (App Conflict ''revision_conflict'') else validate_definition (dr_definition draft)
       | Get_Publication \<Rightarrow> validate_definition (dr_definition draft)
       | _ \<Rightarrow> Inr ()) (\<lambda>_.
     Inr (draft_state (sw_id s) (dr_revision draft) (dr_definition draft), st)))"

text \<open>\<^verbatim>\<open>create\<close>, \<^verbatim>\<open>save\<close> and \<^verbatim>\<open>publish\<close>\<close>

definition edit_request ::
  "survey_env \<Rightarrow> identity_principal \<Rightarrow> survey_row \<Rightarrow> author_request \<Rightarrow> pystr
   \<Rightarrow> (survey_store \<Rightarrow> (survey_answer \<times> survey_store) res) \<Rightarrow> survey_store \<Rightarrow> (survey_answer \<times> survey_store) res" where
  "edit_request env actor s q operation_id edit st =
     (let scope = author_scope actor (author_operation q) in
      then_res (replay_operation st (sw_id s) scope operation_id (author_body q)) (\<lambda>replay.
      case replay of
        Some a \<Rightarrow> Inr (a, st)
      | None \<Rightarrow> then_res (edit st) (\<lambda>(a, st').
          record_operation (en_jsonb env) (sw_id s) scope operation_id (author_body q) a st')))"

definition draft_request ::
  "survey_env \<Rightarrow> moments \<Rightarrow> fresh_ids \<Rightarrow> identity_principal \<Rightarrow> survey_row \<Rightarrow> author_request \<Rightarrow> survey_store
   \<Rightarrow> (survey_answer \<times> survey_store) res" where
  "draft_request env mo ids actor s q st =
     (if sw_status s \<in> {Ended_Survey, Archived_Survey, Deleted_Survey} then Inl (App Conflict ''closed'')
      else if past (sw_ends_at s) (mo_app mo) \<and> (sw_status s = Active_Survey \<or> author_operation q = ''publish'')
      then Inl (App Conflict ''closed'')
      else case q of
        Create_Survey operation_id _ d _ _ \<Rightarrow> edit_request env actor s q operation_id (first_draft env (sw_id s) d) st
      | Save_Draft operation_id n d \<Rightarrow> edit_request env actor s q operation_id (save_draft env (sw_id s) n d) st
      | Publish_Survey operation_id n \<Rightarrow>
          edit_request env actor s q operation_id (publish_draft env mo (fi_first ids) s n) st
      | _ \<Rightarrow> read_draft s q st)"

definition authorized_request ::
  "survey_env \<Rightarrow> moments \<Rightarrow> fresh_ids \<Rightarrow> identity_principal \<Rightarrow> survey_row \<Rightarrow> author_request \<Rightarrow> survey_store
   \<Rightarrow> (survey_answer \<times> survey_store) res" where
  "authorized_request env mo ids actor s q st =
     (case q of
        Delete_Permanently operation_id n \<Rightarrow> delete_permanently mo ids actor s operation_id n st
      | List_Invitations _ \<Rightarrow> invitation_request env mo ids actor s q st
      | Create_Invitation _ _ _ _ _ \<Rightarrow> invitation_request env mo ids actor s q st
      | Revoke_Invitation _ _ _ \<Rightarrow> invitation_request env mo ids actor s q st
      | Selection_Versions _ \<Rightarrow> selection_request env mo ids actor s q st
      | Get_Analysis _ \<Rightarrow> selection_request env mo ids actor s q st
      | Get_Response_Selection _ \<Rightarrow> selection_request env mo ids actor s q st
      | Get_Response_Aggregates _ \<Rightarrow> selection_request env mo ids actor s q st
      | Create_Selection _ _ _ \<Rightarrow> selection_request env mo ids actor s q st
      | Set_Access operation_id n mode \<Rightarrow> recorded_survey env actor s q operation_id (set_access s n mode) st
      | Set_Timeout operation_id n timeout \<Rightarrow>
          if sw_status s = Deleted_Survey then Inl (App Conflict ''closed'')
          else recorded_survey env actor s q operation_id (set_timeout s n timeout) st
      | Schedule_End operation_id n ends \<Rightarrow> recorded_survey env actor s q operation_id (schedule_end mo s n ends) st
      | Change_Status operation_id n a \<Rightarrow> recorded_survey env actor s q operation_id (change_status mo s n a) st
      | Duplicate_Survey operation_id n target title \<Rightarrow>
          recorded_survey env actor s q operation_id (duplicate_survey actor s n target title) st
      | _ \<Rightarrow> draft_request env mo ids actor s q st)"

definition author ::
  "survey_env \<Rightarrow> moments \<Rightarrow> fresh_ids \<Rightarrow> identity_principal \<Rightarrow> uuid \<Rightarrow> author_request \<Rightarrow> survey_store
   \<Rightarrow> (survey_answer \<times> survey_store) res" where
  "author env mo ids actor sid q st =
     (if q = Deletion_Status
      then then_res (deletion_status actor (deletion_of st sid) st) (\<lambda>d. Inr (Deletion_Answer d, st))
      else case deletion_of st sid of
        Some d \<Rightarrow> then_res (requested_deletion actor d q) (\<lambda>p. Inr (Deletion_Answer p, st))
      | None \<Rightarrow>
          then_res (case q of
              Create_Survey _ title d timeout action \<Rightarrow> open_new_survey actor sid title d timeout action st
            | _ \<Rightarrow> Inr st) (\<lambda>st'.
          then_res (open_survey st' sid) (\<lambda>s.
          let access = capabilities_of st' s actor in
          if q = Get_Summary
          then if access = [] then Inl (App Resource_Not_Found ''not_found'')
            else Inr (Survey_State (survey_payload_of s) access, st')
          else if required_capability access q \<notin> set access then Inl (App Resource_Not_Found ''not_found'')
          else authorized_request env mo ids actor s q st')))"

section \<open>Settings and sweeps\<close>

text \<open>\<open>Some x\<close> for a member given in the body, even as \<^verbatim>\<open>null\<close>.\<close>

record policy_change =
  pc_operation_id :: pystr
  pc_expected_revision :: int
  pc_timeout_seconds :: int
  pc_ended_retention :: "int option option"
  pc_trash_retention :: "int option option"

definition given :: "string \<Rightarrow> int option option \<Rightarrow> (pystr \<times> pyval) list" where
  "given k x = (case x of None \<Rightarrow> [] | Some n \<Rightarrow> [(lit k, optional_int n)])"

definition policy_body :: "policy_change \<Rightarrow> pyval" where
  "policy_body c = mutation_body (pc_operation_id c) (pc_expected_revision c)
     ([(lit ''inactivityTimeoutSeconds'', VInt (pc_timeout_seconds c))] @ given ''endedRetentionSeconds'' (pc_ended_retention c)
      @ given ''trashRetentionSeconds'' (pc_trash_retention c))"

definition changed_policy :: "uuid \<Rightarrow> policy_change \<Rightarrow> survey_policy \<Rightarrow> survey_policy" where
  "changed_policy actor_id c p = \<lparr>sy_timeout_seconds = pc_timeout_seconds c,
     sy_ended_retention = (case pc_ended_retention c of None \<Rightarrow> sy_ended_retention p | Some n \<Rightarrow> n),
     sy_trash_retention = (case pc_trash_retention c of None \<Rightarrow> sy_trash_retention p | Some n \<Rightarrow> n),
     sy_configured_by = (if pc_ended_retention c \<noteq> None \<or> pc_trash_retention c \<noteq> None then Some actor_id else sy_configured_by p),
     sy_revision = sy_revision p + 1\<rparr>"

definition survey_settings ::
  "identity_principal \<Rightarrow> policy_change option \<Rightarrow> survey_store \<Rightarrow> (survey_policy \<times> survey_store) res" where
  "survey_settings actor change st =
     (if \<not> can_authenticate (ip_account actor) \<or> \<not> is_system_admin actor then Inl (App Permission_Denied ''forbidden'')
      else case change of
        None \<Rightarrow> Inr (ss_policy st, st)
      | Some c \<Rightarrow>
          then_res (request_digest (policy_body c)) (\<lambda>hash.
          case find (\<lambda>o'. po_actor_id o' = ua_id (ip_account actor) \<and> po_operation_id o' = pc_operation_id c)
            (ss_policy_operations st) of
            Some o' \<Rightarrow> if po_request_hash o' \<noteq> hash then Inl (App Conflict ''idempotency_conflict'') else Inr (po_response o', st)
          | None \<Rightarrow>
              if sy_revision (ss_policy st) \<noteq> pc_expected_revision c then Inl (App Conflict ''revision_conflict'')
              else let p = changed_policy (ua_id (ip_account actor)) c (ss_policy st) in
                Inr (p, st\<lparr>ss_policy := p, ss_policy_operations := ss_policy_operations st
                  @ [\<lparr>po_actor_id = ua_id (ip_account actor), po_operation_id = pc_operation_id c, po_request_hash = hash,
                     po_response = p\<rparr>]\<rparr>)))"

text \<open>The sweeps skip rows that are locked elsewhere: the argument \<open>free\<close> says which are not.\<close>

definition overdue :: "datetime \<Rightarrow> participation \<Rightarrow> bool" where
  "overdue now p \<longleftrightarrow> pa_status p = In_Progress
     \<and> instant (case pa_last_answer_at p of None \<Rightarrow> pa_created_at p | Some t \<Rightarrow> t) + pa_timeout_seconds p * 1000000 \<le> instant now"

definition classify_overdue :: "datetime \<Rightarrow> nat \<Rightarrow> (uuid \<Rightarrow> bool) \<Rightarrow> survey_store \<Rightarrow> nat \<times> survey_store" where
  "classify_overdue now limit free st =
     (let due = take limit (sort_key pa_id (filter (\<lambda>p. overdue now p \<and> free (pa_id p)) (su_participations (ss_data st)))) in
      (length due, put_participations (update_rows (\<lambda>p. pa_id p \<in> set (map pa_id due)) (\<lambda>p. p\<lparr>pa_status := Partial\<rparr>)) st))"

definition close_due_surveys :: "datetime \<Rightarrow> nat \<Rightarrow> (uuid \<Rightarrow> bool) \<Rightarrow> survey_store \<Rightarrow> nat \<times> survey_store" where
  "close_due_surveys now limit free st =
     (let open_ends = filter (\<lambda>s. sw_status s = Active_Survey \<and> past (sw_ends_at s) now \<and> free (sw_id s)) (ss_surveys st);
          due = take limit (sort_key (\<lambda>s. instant (the (sw_ends_at s))) (sort_key sw_id open_ends));
          ids = set (map sw_id due) in
      (length due, put_participations
        (update_rows (\<lambda>p. pa_survey_id p \<in> ids \<and> pa_status p = In_Progress) (\<lambda>p. p\<lparr>pa_status := Partial\<rparr>))
        (st\<lparr>ss_surveys := update_rows (\<lambda>s. sw_id s \<in> ids) (\<lambda>s. raised (s\<lparr>sw_status := Ended_Survey\<rparr>)) (ss_surveys st)\<rparr>)))"

text \<open>\<^verbatim>\<open>_erase\<close>, once the files are gone: the survey's rows go with it, the deletion stays.\<close>

definition erase_survey :: "datetime \<Rightarrow> uuid \<Rightarrow> uuid \<Rightarrow> survey_store \<Rightarrow> survey_store" where
  "erase_survey now sid event_id st =
     (case find (\<lambda>d. dl_survey_id d = sid \<and> dl_event_id d = event_id) (ss_deletions st) of
        None \<Rightarrow> st
      | Some d \<Rightarrow> if dl_completed_at d \<noteq> None then st
          else st\<lparr>ss_surveys := filter (\<lambda>s. sw_id s \<noteq> sid) (ss_surveys st),
            ss_drafts := filter (\<lambda>r. dr_survey_id r \<noteq> sid) (ss_drafts st),
            ss_data := \<lparr>su_versions = filter (\<lambda>v. vr_survey_id v \<noteq> sid) (su_versions (ss_data st)),
              su_participations = filter (\<lambda>p. pa_survey_id p \<noteq> sid) (su_participations (ss_data st)),
              su_snapshots = filter (\<lambda>x. st_survey_id x \<noteq> sid) (su_snapshots (ss_data st))\<rparr>,
            ss_grants := filter (\<lambda>g. fst g \<noteq> sid) (ss_grants st),
            ss_invitations := filter (\<lambda>i. si_survey_id i \<noteq> sid) (ss_invitations st),
            ss_operations := filter (\<lambda>o'. so_survey_id o' \<noteq> sid) (ss_operations st),
            ss_deletions := update_rows (\<lambda>r. dl_survey_id r = sid) (\<lambda>r. r\<lparr>dl_completed_at := Some now\<rparr>) (ss_deletions st)\<rparr>)"

text \<open>
  \<^verbatim>\<open>sweep_retention\<close> for one of its candidates, whose lock is free.  The column \<^verbatim>\<open>retention_started_at\<close>, which a trigger
  writes, is the argument \<open>started\<close>; a sweep is a sequence of such changes.
\<close>

definition elapsed :: "datetime option \<Rightarrow> int option \<Rightarrow> datetime \<Rightarrow> bool" where
  "elapsed since seconds clock \<longleftrightarrow>
     (case (since, seconds) of (Some t, Some n) \<Rightarrow> instant t + n * 1000000 \<le> instant clock | _ \<Rightarrow> False)"

definition retire_survey :: "moments \<Rightarrow> uuid \<Rightarrow> datetime option \<Rightarrow> uuid \<Rightarrow> survey_store \<Rightarrow> survey_store res" where
  "retire_survey mo event_id started sid st =
     (case find_survey st sid of
        None \<Rightarrow> Inr st
      | Some s \<Rightarrow>
          if deletion_of st sid \<noteq> None then Inr st
          else if sw_status s \<in> {Ended_Survey, Archived_Survey}
          then Inr (if elapsed started (sy_ended_retention (ss_policy st)) (mo_clock mo)
            then put_survey (raised (s\<lparr>sw_status := Deleted_Survey, sw_deleted_at := Some (mo_clock mo)\<rparr>)) st else st)
          else if sw_status s = Deleted_Survey \<and> elapsed (sw_deleted_at s) (sy_trash_retention (ss_policy st)) (mo_clock mo)
          then (case sy_configured_by (ss_policy st) of
              None \<Rightarrow> Inl Data_Error
            | Some u \<Rightarrow> then_res (request_deletion mo event_id s u
                (lit ''retention:'' @ int_str (sy_revision (ss_policy st)) @ 58 # uuid_str sid) st) (\<lambda>(_, st'). Inr st'))
          else Inr st)"

end
