(* ===== verification/Survey_Steps.thy ===== *)
theory Survey_Steps
  imports Survey_Authoring "HOL-Library.Sublist"
begin

text \<open>
  Histories of the survey module: every accepted request of a respondent or an author, the sweeps and the erasure are
  the steps of one relation, in the order of the locks they take; a refused request changes nothing.  The clock of the
  database does not run backwards.  What the steps leave alone is shown once for each operation and carried through
  every history.
\<close>

section \<open>Steps\<close>

text \<open>
  A state is the time up to which the database's clock was read, and the tables.  Accounts, grants, actions, the outbox
  and the sending of invitations are written elsewhere: they change freely.
\<close>

inductive survey_step :: "survey_env \<Rightarrow> int \<times> survey_store \<Rightarrow> int \<times> survey_store \<Rightarrow> bool" for env where
  respond: "participate (en_validator env) (en_jsonb env) mo new_id sid pid q secret st = Inr (a, st') \<Longrightarrow>
     t \<le> instant (mo_clock mo) \<Longrightarrow> instant (mo_clock mo) \<le> t' \<Longrightarrow> survey_step env (t, st) (t', st')"
| edit: "author env mo ids actor sid q st = Inr (a, st') \<Longrightarrow> t \<le> instant (mo_clock mo) \<Longrightarrow>
     instant (mo_clock mo) \<le> instant (mo_captured mo) \<Longrightarrow> instant (mo_captured mo) \<le> t' \<Longrightarrow> survey_step env (t, st) (t', st')"
| settings: "survey_settings actor change st = Inr (p, st') \<Longrightarrow> t \<le> t' \<Longrightarrow> survey_step env (t, st) (t', st')"
| overdue: "classify_overdue now limit free st = (n, st') \<Longrightarrow> t \<le> t' \<Longrightarrow> survey_step env (t, st) (t', st')"
| due: "close_due_surveys now limit free st = (n, st') \<Longrightarrow> t \<le> t' \<Longrightarrow> survey_step env (t, st) (t', st')"
| retire: "retire_survey mo event_id started sid st = Inr st' \<Longrightarrow> t \<le> t' \<Longrightarrow> survey_step env (t, st) (t', st')"
| erase: "t \<le> t' \<Longrightarrow> survey_step env (t, st) (t', erase_survey now sid event_id st)"
| elsewhere: "t \<le> t' \<Longrightarrow> survey_step env (t, st) (t', st\<lparr>ss_grants := gs, ss_action_ids := as, ss_events := es, ss_invitations := is\<rparr>)"

inductive survey_history :: "survey_env \<Rightarrow> int \<times> survey_store \<Rightarrow> int \<times> survey_store \<Rightarrow> bool" for env where
  start: "survey_history env x x"
| step: "survey_history env x y \<Longrightarrow> survey_step env y z \<Longrightarrow> survey_history env x z"

section \<open>What a step leaves alone\<close>

abbreviation participations_of :: "survey_store \<Rightarrow> participation list" where
  "participations_of st \<equiv> su_participations (ss_data st)"

abbreviation versions_in :: "uuid \<Rightarrow> survey_store \<Rightarrow> version_row list" where
  "versions_in sid st \<equiv> filter (\<lambda>v. vr_survey_id v = sid) (su_versions (ss_data st))"

abbreviation operations_in :: "uuid \<Rightarrow> survey_store \<Rightarrow> survey_operation list" where
  "operations_in sid st \<equiv> filter (\<lambda>o'. so_survey_id o' = sid) (ss_operations st)"

abbreviation deleted_ids :: "survey_store \<Rightarrow> uuid list" where
  "deleted_ids st \<equiv> map dl_survey_id (ss_deletions st)"

definition completed_in :: "uuid \<Rightarrow> participation \<Rightarrow> bool" where
  "completed_in sid p \<longleftrightarrow> pa_survey_id p = sid \<and> pa_status p = Completed"

text \<open>
  Up to the time \<open>t\<close>: the survey's completed participations stay, in their order, and those added to them are completed
  later; its versions and its recorded operations only grow.
\<close>

definition kept :: "int \<Rightarrow> uuid \<Rightarrow> survey_store \<Rightarrow> survey_store \<Rightarrow> bool" where
  "kept t sid st st' \<longleftrightarrow>
     (\<forall>e. instant e \<le> t \<longrightarrow> filter (finished_in sid e) (participations_of st') = filter (finished_in sid e) (participations_of st))
     \<and> set (filter (completed_in sid) (participations_of st)) \<subseteq> set (participations_of st')
     \<and> prefix (versions_in sid st) (versions_in sid st')
     \<and> prefix (operations_in sid st) (operations_in sid st')"

lemma kept_refl [simp]: "kept t sid st st"
  by (simp add: kept_def)

lemma kept_trans:
  assumes "kept t sid st st'" "kept t' sid st' st''" "t \<le> t'"
  shows "kept t sid st st''"
proof -
  have "set (filter (completed_in sid) (participations_of st)) \<subseteq> set (filter (completed_in sid) (participations_of st'))"
    using assms(1) by (auto simp: kept_def)
  then show ?thesis using assms unfolding kept_def by (fastforce intro: prefix_order.trans)
qed

text \<open>The same tables as far as \<open>kept\<close> reads them.\<close>

lemma kept_same:
  assumes "ss_data st' = ss_data st" "ss_operations st' = ss_operations st"
  shows "kept t sid st st'"
  using assms by (simp add: kept_def)

lemma kept_appended:
  assumes "participations_of st' = participations_of st" "su_versions (ss_data st') = su_versions (ss_data st) @ vs"
    and "ss_operations st' = ss_operations st @ os"
  shows "kept t sid st st'"
  using assms by (simp add: kept_def)

lemma filter_update_rows:
  assumes "\<And>r. r \<in> set rs \<Longrightarrow> Q r \<Longrightarrow> \<not> P r \<and> \<not> P (f r)"
  shows "filter P (update_rows Q f rs) = filter P rs"
  using assms by (induction rs) (auto simp: update_rows_def)

text \<open>Participations are only changed while they are not completed, and completed at the clock's reading.\<close>

lemma kept_updated:
  assumes "participations_of st' = update_rows Q f (participations_of st)"
    and "su_versions (ss_data st') = su_versions (ss_data st)" "ss_operations st' = ss_operations st @ os"
    and "\<And>p. p \<in> set (participations_of st) \<Longrightarrow> Q p \<Longrightarrow> pa_status p \<noteq> Completed
      \<and> (pa_status (f p) = Completed \<longrightarrow> (\<exists>c. pa_completed_at (f p) = Some c \<and> t \<le> instant c))"
  shows "kept t sid st st'"
proof -
  have "filter (finished_in sid e) (participations_of st') = filter (finished_in sid e) (participations_of st)" if "instant e \<le> t" for e
    unfolding assms(1)
  proof (rule filter_update_rows)
    fix p
    assume "p \<in> set (participations_of st)" "Q p"
    from assms(4) [OF this] that show "\<not> finished_in sid e p \<and> \<not> finished_in sid e (f p)"
      by (auto simp: finished_in_def finished_before_def split: option.splits)
  qed
  moreover have "set (filter (completed_in sid) (participations_of st)) \<subseteq> set (participations_of st')"
    using assms(4) by (force simp: assms(1) update_rows_def completed_in_def)
  ultimately show ?thesis using assms(2,3) by (simp add: kept_def)
qed

lemma kept_added:
  assumes "participations_of st' = participations_of st @ [p]" "pa_status p \<noteq> Completed"
    and "su_versions (ss_data st') = su_versions (ss_data st)" "ss_operations st' = ss_operations st @ os"
  shows "kept t sid st st'"
  using assms by (auto simp: kept_def finished_in_def finished_before_def)

lemma put_participations_simps [simp]:
  "participations_of (put_participations f st) = f (participations_of st)"
  "su_versions (ss_data (put_participations f st)) = su_versions (ss_data st)"
  "su_snapshots (ss_data (put_participations f st)) = su_snapshots (ss_data st)"
  "ss_operations (put_participations f st) = ss_operations st" "ss_surveys (put_participations f st) = ss_surveys st"
  "ss_deletions (put_participations f st) = ss_deletions st" "ss_invitations (put_participations f st) = ss_invitations st"
  by (simp_all add: put_participations_def)

lemma put_survey_simps [simp]:
  "ss_data (put_survey s st) = ss_data st" "ss_operations (put_survey s st) = ss_operations st"
  "ss_deletions (put_survey s st) = ss_deletions st" "ss_drafts (put_survey s st) = ss_drafts st"
  by (simp_all add: put_survey_def)

lemma update_draft_simps [simp]:
  "ss_data (update_draft sid f st) = ss_data st" "ss_operations (update_draft sid f st) = ss_operations st"
  "ss_deletions (update_draft sid f st) = ss_deletions st" "ss_surveys (update_draft sid f st) = ss_surveys st"
  by (simp_all add: update_draft_def)

section \<open>Respondents\<close>

text \<open>Respondents write participations, invitations and recorded operations only.\<close>

definition only_responses :: "survey_store \<Rightarrow> survey_store \<Rightarrow> bool" where
  "only_responses st st' \<longleftrightarrow> ss_surveys st' = ss_surveys st \<and> ss_drafts st' = ss_drafts st
     \<and> su_versions (ss_data st') = su_versions (ss_data st) \<and> su_snapshots (ss_data st') = su_snapshots (ss_data st)
     \<and> ss_deletions st' = ss_deletions st \<and> ss_grants st' = ss_grants st \<and> ss_policy st' = ss_policy st"

definition admitted :: "survey_store \<Rightarrow> participation \<times> survey_store \<Rightarrow> bool" where
  "admitted st = (\<lambda>(p, st'). (st' = st \<and> p \<in> set (participations_of st)) \<or>
     (participations_of st' = participations_of st @ [p] \<and> pa_status p = In_Progress \<and> (\<forall>r \<in> set (participations_of st). pa_id r \<noteq> pa_id p)
      \<and> only_responses st st' \<and> ss_operations st' = ss_operations st))"

lemma insert_participation_Inr:
  "insert_participation p st = Inr st' \<longleftrightarrow> (\<forall>r \<in> set (participations_of st). pa_id r \<noteq> pa_id p \<and> pa_resume_digest r \<noteq> pa_resume_digest p) \<and> st' = put_participations (\<lambda>ps. ps @ [p]) st"
  by (auto simp: insert_participation_def list_ex_iff)

lemma new_participation_simps [simp]:
  "pa_id (new_participation pid s v h n x c) = pid" "pa_status (new_participation pid s v h n x c) = In_Progress"
  "pa_resume_digest (new_participation pid s v h n x c) = h" "pa_survey_id (new_participation pid s v h n x c) = sw_id s"
  "pa_version_id (new_participation pid s v h n x c) = v" "pa_answers (new_participation pid s v h n x c) = VDict []"
  by (simp_all add: new_participation_def)

lemma put_participations_frame [simp]:
  "only_responses st (put_participations f st)"
  by (simp add: only_responses_def put_participations_def)

lemma redeem_admitted:
  assumes "redeem_participation mo pid s hash st = Inr r"
  shows "admitted st r"
proof -
  obtain i where i: "find (\<lambda>i. si_survey_id i = sw_id s \<and> si_token_digest i = hash) (ss_invitations st) = Some i"
    using assms by (auto simp: redeem_participation_def split: if_splits option.splits)
  show ?thesis
  proof (cases "si_participation_id i")
    case (Some u)
    then obtain p where "find (\<lambda>p. pa_id p = u) (participations_of st) = Some p" "r = (p, st)"
      using assms i by (auto simp: redeem_participation_def split: if_splits option.splits)
    then show ?thesis by (auto simp: admitted_def find_Some_iff)
  next
    case None
    then show ?thesis using assms i
      by (auto simp: redeem_participation_def Let_def admitted_def insert_participation_Inr only_responses_def
          put_participations_def res_simps split: if_splits)
  qed
qed

lemma start_admitted:
  assumes "start_participation mo pid s hash st = Inr r"
  shows "admitted st r"
  using assms by (auto simp: start_participation_def Let_def admitted_def insert_participation_Inr res_simps split: if_splits)

lemma resumed_admitted:
  assumes "resumed_participation now sid pid hash st = Inr p"
  shows "admitted st (p, st)" "pa_survey_id p = sid" "pa_resume_digest p = hash"
  using assms by (auto simp: resumed_participation_def admitted_def find_Some_iff split: if_splits option.splits)

lemma record_operation_Inr:
  assumes "record_operation jsonb sid scope op body a st = Inr (b, st')"
  obtains o' where "b = a" "st' = st\<lparr>ss_operations := ss_operations st @ [o']\<rparr>" "so_survey_id o' = sid" "so_scope o' = scope"
    "so_operation_id o' = op" "request_digest body = Inr (so_request_hash o')" "stored_answer jsonb a = Inr (so_response o')"
proof -
  obtain hash stored where k: "request_digest body = Inr hash" "stored_answer jsonb a = Inr stored" "b = a"
    "st' = st\<lparr>ss_operations := ss_operations st @ [\<lparr>so_survey_id = sid, so_scope = scope, so_operation_id = op,
       so_request_hash = hash, so_response = stored\<rparr>]\<rparr>"
    using assms by (auto simp: record_operation_def res_simps)
  show thesis by (rule that [OF k(3,4)]) (simp_all add: k(1,2))
qed

text \<open>An accepted answer: the one row is written from the revision it was made against, with its answers checked.\<close>

lemma write_answers_Inr:
  assumes "write_answers validator jsonb mo v p n finish answers page st = Inr (p', st')"
  obtains clean kept' where "pa_status p \<noteq> Completed" "pa_revision p = n"
    "check_with_service validator (vr_definition v) answers finish = Inr clean" "jsonb clean = Inr kept'"
    "p' = written_participation (mo_clock mo) (\<not> deep_eq clean (pa_answers p)) finish kept' page p"
    "st' = put_participations (update_rows (\<lambda>r. pa_id r = pa_id p) (\<lambda>_. p')) st"
  using assms by (auto simp: write_answers_def Let_def res_simps split: if_splits)

text \<open>What \<^verbatim>\<open>save\<close> and \<^verbatim>\<open>complete\<close> do beyond replaying.\<close>

definition answers_written ::
  "survey_env \<Rightarrow> moments \<Rightarrow> version_row \<Rightarrow> participation \<Rightarrow> participation_request \<Rightarrow> survey_store \<Rightarrow> participation \<times> survey_store \<Rightarrow> bool" where
  "answers_written env mo v p q st r \<longleftrightarrow> (case q of
     Save_Answers op n answers page \<Rightarrow> write_answers (en_validator env) (en_jsonb env) mo v p n False answers page st = Inr r
   | Complete_Participation op n \<Rightarrow>
       write_answers (en_validator env) (en_jsonb env) mo v p n True (pa_answers p) (pa_current_page p) st = Inr r
   | _ \<Rightarrow> False)"

lemma save_participation_Inr:
  assumes "save_participation (en_validator env) (en_jsonb env) mo sid v p q st = Inr (a, st')"
  obtains (replayed) op where "st' = st"
      "replay_operation st sid (lit ''participation:'' @ uuid_str (pa_id p) @ lit '':'' @ lit (operation_name q)) op
        (participation_body q) = Inr (Some a)"
    | (written) p' st1 r o' where "answers_written env mo v p q st (p', st1)" "response_snapshot_of (mo_app mo) p' = Inr r"
      "a = Response_State r" "st' = st1\<lparr>ss_operations := ss_operations st1 @ [o']\<rparr>" "so_survey_id o' = sid"
      "\<exists>x. so_response o' = Response_State x"
proof -
  have recorded: thesis
    if w: "answers_written env mo v p q st r" and c: "(case r of (p', st1) \<Rightarrow> then_res (response_snapshot_of (mo_app mo) p') (\<lambda>r.
        record_operation (en_jsonb env) sid scope op body (Response_State r) st1)) = Inr (a, st')" for r scope op body
  proof -
    obtain p' st1 where r: "r = (p', st1)" by (cases r)
    obtain x where x: "response_snapshot_of (mo_app mo) p' = Inr x"
      "record_operation (en_jsonb env) sid scope op body (Response_State x) st1 = Inr (a, st')"
      using c by (auto simp: r res_simps)
    from x(2) obtain o' where "a = Response_State x" "st' = st1\<lparr>ss_operations := ss_operations st1 @ [o']\<rparr>" "so_survey_id o' = sid"
      "stored_answer (en_jsonb env) (Response_State x) = Inr (so_response o')" by (rule record_operation_Inr)
    then show thesis by (intro written [OF w [unfolded r] x(1)]) (auto simp: stored_answer_def res_simps intro: sym)
  qed
  show thesis
    using assms unfolding save_participation_def Let_def
    by (cases q) (auto simp: then_res_Inr_iff answers_written_def intro: replayed recorded split: option.splits)
qed

text \<open>Operations recorded for the survey, whose answers are not aggregates.\<close>

definition recorded :: "uuid \<Rightarrow> survey_store \<Rightarrow> survey_store \<Rightarrow> bool" where
  "recorded sid st st' \<longleftrightarrow> (\<exists>os. st' = st\<lparr>ss_operations := ss_operations st @ os\<rparr>
     \<and> (\<forall>o' \<in> set os. so_survey_id o' = sid \<and> (\<forall>s. so_response o' \<noteq> Analysis_State s)))"

lemma recorded_refl: "recorded sid st st"
  unfolding recorded_def by (rule exI [of _ "[]"]) simp

lemma recorded_one:
  "st' = st\<lparr>ss_operations := ss_operations st @ [o']\<rparr> \<Longrightarrow> so_survey_id o' = sid \<Longrightarrow> (\<And>s. so_response o' \<noteq> Analysis_State s)
     \<Longrightarrow> recorded sid st st'"
  unfolding recorded_def by (rule exI [of _ "[o']"]) simp

lemma stored_no_analysis:
  "stored_answer jsonb a = Inr b \<Longrightarrow> (\<And>s. a \<noteq> Analysis_State s) \<Longrightarrow> b \<noteq> Analysis_State s"
  by (cases a) (auto simp: stored_answer_def res_simps)

lemma continue_participation_Inr:
  assumes "continue_participation (en_validator env) (en_jsonb env) mo sid hash q (p, st) = Inr (a, st')"
  obtains (joined) "recorded sid st st'"
    | (written) v p' st1 r where "version_of st (Some (pa_version_id p)) = Inr v" "answers_written env mo v p q st (p', st1)"
      "recorded sid st1 st'" "response_snapshot_of (mo_app mo) p' = Inr r" "a = Response_State r"
proof -
  note join = joined and wrote = written
  obtain v where v: "version_of st (Some (pa_version_id p)) = Inr v"
    using assms by (auto simp: continue_participation_def res_simps)
  have later: thesis if "save_participation (en_validator env) (en_jsonb env) mo sid v p q st = Inr (a, st')"
    using that
  proof (cases rule: save_participation_Inr)
    case (replayed op)
    then show thesis using joined recorded_refl by simp
  next
    case (written p' st1 r o')
    have "recorded sid st1 st'" using written(4-6) by (intro recorded_one) auto
    then show thesis using wrote [OF v written(1)] written by blast
  qed
  show thesis
  proof (cases q)
    case (Start op)
    then obtain b where b: "participation_answer mo v p = Inr b"
      "record_operation (en_jsonb env) sid (lit ''start:'' @ hash) op (participation_body q) b st = Inr (a, st')"
      using assms v by (auto simp: continue_participation_def res_simps)
    from b(2) obtain o' where o': "st' = st\<lparr>ss_operations := ss_operations st @ [o']\<rparr>" "so_survey_id o' = sid"
      "stored_answer (en_jsonb env) b = Inr (so_response o')" by (rule record_operation_Inr)
    moreover have "b \<noteq> Analysis_State s" for s using b(1) by (auto simp: participation_answer_def res_simps)
    ultimately show thesis using stored_no_analysis [OF o'(3)] by (intro joined recorded_one) auto
  qed (use assms v later joined recorded_refl in \<open>auto simp: continue_participation_def res_simps\<close>)
qed

lemma participate_Inr:
  assumes "participate (en_validator env) (en_jsonb env) mo new_id sid pid q secret st = Inr (a, st')"
  obtains (joined) p st1 where "admitted st (p, st1)" "recorded sid st1 st'"
    | (unchanged) "st' = st"
    | (written) s hash p v p' st1 r where "open_survey st sid = Inr s" "sw_status s = Active_Survey"
      "\<not> past (sw_ends_at s) (mo_app mo)" "digest secret = Inr hash"
      "resumed_participation (mo_app mo) sid pid hash st = Inr p" "version_of st (Some (pa_version_id p)) = Inr v"
      "answers_written env mo v p q st (p', st1)" "recorded sid st1 st'" "response_snapshot_of (mo_app mo) p' = Inr r"
      "a = Response_State r"
proof -
  note join = joined and wrote = written
  obtain s where s: "open_survey st sid = Inr s" "sw_status s = Active_Survey" "\<not> past (sw_ends_at s) (mo_app mo)"
    using assms by (auto simp: participate_def res_simps split: if_splits)
  show thesis
  proof (cases "q = Ask_Definition")
    case True
    then show thesis using assms s unchanged by (auto simp: participate_def res_simps split: if_splits)
  next
    case False
    then obtain hash where hash: "digest secret = Inr hash"
      using assms s by (auto simp: participate_def res_simps split: if_splits)
    have new: thesis
      if j: "admitted st (p, st1)" and c: "continue_participation (en_validator env) (en_jsonb env) mo sid hash q (p, st1) = Inr (a, st')"
        and q: "q = Redeem \<or> (\<exists>op. q = Start op)" for p st1
      using c
    proof (cases rule: continue_participation_Inr)
      case joined
      with j show thesis by (rule join)
    next
      case (written v p' st2 r)
      then show thesis using q by (auto simp: answers_written_def)
    qed
    have old: thesis
      if p: "resumed_participation (mo_app mo) sid pid hash st = Inr p"
        and c: "continue_participation (en_validator env) (en_jsonb env) mo sid hash q (p, st) = Inr (a, st')" for p
      using c
    proof (cases rule: continue_participation_Inr)
      case joined
      with resumed_admitted(1) [OF p] show thesis by (rule join)
    next
      case (written v p' st1 r)
      show thesis by (rule wrote [OF s hash p written])
    qed
    show thesis
    proof (cases q)
      case (Start op)
      from assms consider "st' = st" | p st1 where "start_participation mo new_id s hash st = Inr (p, st1)"
          "continue_participation (en_validator env) (en_jsonb env) mo sid hash q (p, st1) = Inr (a, st')"
        unfolding Start by (auto simp: s hash participate_def res_simps split: if_splits option.splits)
      then show thesis
      proof cases
        case 1
        then show thesis by (rule unchanged)
      next
        case (2 p st1)
        show thesis by (rule new [OF start_admitted [OF 2(1)] 2(2)]) (simp add: Start)
      qed
    next
      case Redeem
      from assms obtain p st1 where r: "redeem_participation mo new_id s hash st = Inr (p, st1)"
          "continue_participation (en_validator env) (en_jsonb env) mo sid hash q (p, st1) = Inr (a, st')"
        unfolding Redeem by (auto simp: s hash participate_def res_simps split: if_splits)
      show thesis by (rule new [OF redeem_admitted [OF r(1)] r(2)]) (simp add: Redeem)
    qed (use assms s hash old False in \<open>auto simp: participate_def res_simps split: if_splits\<close>)
  qed
qed

section \<open>The invariant\<close>

text \<open>A settled snapshot holds completed participations up to a midnight before it was made.\<close>

definition settled_range :: "tz \<Rightarrow> analysis_filter \<Rightarrow> datetime \<Rightarrow> bool" where
  "settled_range z f made \<longleftrightarrow> af_statuses f = [Completed] \<and> af_created_before f \<noteq> None
     \<and> (\<exists>m day midnight now today start. optional_moment (af_created_before f) = Inr (Some m)
       \<and> local_midnight z day = Inr midnight \<and> instant m = instant midnight
       \<and> local_day z now = Inr today \<and> local_midnight z today = Inr start \<and> instant m \<le> instant start \<and> instant now \<le> instant made)"

definition snapshot_ok :: "tz \<Rightarrow> stored_snapshot \<Rightarrow> bool" where
  "snapshot_ok z x \<longleftrightarrow> analysis_snapshot_init (st_payload x) = Inr (st_payload x) \<and> sn_id (st_payload x) = uuid_str (st_id x)
     \<and> (sn_policy (st_payload x) = Settled \<longrightarrow> settled_range z (sn_filter (st_payload x)) (st_created_at x))"

definition rows_ok :: "survey_store \<Rightarrow> bool" where
  "rows_ok st \<longleftrightarrow> distinct (map pa_id (participations_of st)) \<and> distinct (map sw_id (ss_surveys st))
     \<and> distinct (map vr_id (su_versions (ss_data st))) \<and> distinct (map st_id (su_snapshots (ss_data st)))"

definition answers_ok :: "survey_store \<Rightarrow> bool" where
  "answers_ok st \<longleftrightarrow> (\<forall>o' \<in> set (ss_operations st). \<forall>s. so_response o' = Analysis_State s \<longrightarrow>
     (\<exists>x \<in> set (su_snapshots (ss_data st)). st_survey_id x = so_survey_id o' \<and> st_payload x = s))"

text \<open>
  The versions of a survey are numbered from 1 without a gap, the published one is the last; only a draft or a survey in
  the bin has none.
\<close>

definition numbered_versions :: "version_row list \<Rightarrow> bool" where
  "numbered_versions vs \<longleftrightarrow> map vr_number vs = map int [1..<Suc (length vs)]"

definition survey_row_ok :: "survey_store \<Rightarrow> survey_row \<Rightarrow> bool" where
  "survey_row_ok st s \<longleftrightarrow> (let vs = versions_in (sw_id s) st in
     sw_published_version_id s = (if vs = [] then None else Some (vr_id (last vs)))
     \<and> (sw_status s \<in> {Active_Survey, Ended_Survey, Archived_Survey} \<longrightarrow> vs \<noteq> []))"

definition versions_ok :: "survey_store \<Rightarrow> bool" where
  "versions_ok st \<longleftrightarrow> (\<forall>sid. numbered_versions (versions_in sid st)) \<and> (\<forall>s \<in> set (ss_surveys st). survey_row_ok st s)
     \<and> vr_survey_id ` set (su_versions (ss_data st)) \<subseteq> sw_id ` set (ss_surveys st)"

definition survey_ok :: "tz \<Rightarrow> survey_store \<Rightarrow> bool" where
  "survey_ok z st \<longleftrightarrow> rows_ok st \<and> (\<forall>x \<in> set (su_snapshots (ss_data st)). snapshot_ok z x) \<and> answers_ok st \<and> versions_ok st"

lemma survey_ok_cong:
  assumes "survey_ok z st" "ss_surveys st' = ss_surveys st" "su_versions (ss_data st') = su_versions (ss_data st)"
    and "su_snapshots (ss_data st') = su_snapshots (ss_data st)"
    and "distinct (map pa_id (participations_of st'))" "answers_ok st'"
  shows "survey_ok z st'"
  using assms by (simp add: survey_ok_def rows_ok_def versions_ok_def survey_row_ok_def Let_def)

lemma answers_ok_recorded:
  assumes "answers_ok st" "su_snapshots (ss_data st') = su_snapshots (ss_data st)" "ss_operations st' = ss_operations st @ os"
    and "\<forall>o' \<in> set os. \<forall>s. so_response o' \<noteq> Analysis_State s"
  shows "answers_ok st'"
  using assms by (auto simp: answers_ok_def)

section \<open>What respondents change\<close>

lemma admitted_effect:
  assumes "admitted st (p, st1)" "distinct (map pa_id (participations_of st))"
  shows "only_responses st st1" "ss_operations st1 = ss_operations st" "distinct (map pa_id (participations_of st1))" "kept t sid st st1"
proof -
  consider "st1 = st" | "participations_of st1 = participations_of st @ [p]" "pa_status p = In_Progress"
      "\<forall>r \<in> set (participations_of st). pa_id r \<noteq> pa_id p" "only_responses st st1" "ss_operations st1 = ss_operations st"
    using assms(1) by (auto simp: admitted_def)
  then have "only_responses st st1 \<and> ss_operations st1 = ss_operations st \<and> distinct (map pa_id (participations_of st1)) \<and> kept t sid st st1"
  proof cases
    case 1
    then show ?thesis using assms(2) by (simp add: only_responses_def)
  next
    case 2
    have "kept t sid st st1" using 2 by (intro kept_added [where p = p and os = "[]"]) (simp_all add: only_responses_def)
    then show ?thesis using 2 assms(2) by auto
  qed
  then show "only_responses st st1" "ss_operations st1 = ss_operations st" "distinct (map pa_id (participations_of st1))" "kept t sid st st1"
    by blast+
qed

lemma distinct_unique: "distinct (map f xs) \<Longrightarrow> x \<in> set xs \<Longrightarrow> y \<in> set xs \<Longrightarrow> f x = f y \<Longrightarrow> x = y"
  by (auto simp: distinct_map dest: inj_onD)

lemma map_update_rows: "(\<And>r. r \<in> set rs \<Longrightarrow> Q r \<Longrightarrow> g (f r) = g r) \<Longrightarrow> map g (update_rows Q f rs) = map g rs"
  by (simp add: update_rows_def)

lemma answers_written_write:
  assumes "answers_written env mo v p q st (p', st')"
  obtains n finish answers page where
    "write_answers (en_validator env) (en_jsonb env) mo v p n finish answers page st = Inr (p', st')"
  using assms by (cases q) (auto simp: answers_written_def)

lemma written_effect:
  assumes "answers_written env mo v p q st (p', st1)" "p \<in> set (participations_of st)" "distinct (map pa_id (participations_of st))"
    and "t \<le> instant (mo_clock mo)"
  shows "only_responses st st1" "ss_operations st1 = ss_operations st" "distinct (map pa_id (participations_of st1))" "kept t sid st st1"
proof -
  obtain n finish answers page where "write_answers (en_validator env) (en_jsonb env) mo v p n finish answers page st = Inr (p', st1)"
    using assms(1) by (rule answers_written_write)
  then obtain c k where w: "pa_status p \<noteq> Completed" "p' = written_participation (mo_clock mo) c finish k page p"
    "st1 = put_participations (update_rows (\<lambda>r. pa_id r = pa_id p) (\<lambda>_. p')) st" by (rule write_answers_Inr) blast
  show "only_responses st st1" "ss_operations st1 = ss_operations st" by (simp_all add: w(3))
  have id: "pa_id p' = pa_id p" by (simp add: w(2) written_participation_def)
  then have "map pa_id (participations_of st1) = map pa_id (participations_of st)"
    unfolding w(3) put_participations_simps by (intro map_update_rows) simp
  then show "distinct (map pa_id (participations_of st1))" using assms(3) by simp
  have one: "r = p" if "r \<in> set (participations_of st)" "pa_id r = pa_id p" for r
    using distinct_unique [OF assms(3) that(1) assms(2) that(2)] .
  have finished: "pa_status p' = Completed \<longrightarrow> (\<exists>c. pa_completed_at p' = Some c \<and> t \<le> instant c)"
    using w(1) assms(4) by (simp add: w(2) written_participation_def)
  show "kept t sid st st1"
  proof (rule kept_updated)
    show "participations_of st1 = update_rows (\<lambda>r. pa_id r = pa_id p) (\<lambda>_. p') (participations_of st)" by (simp add: w(3))
    show "su_versions (ss_data st1) = su_versions (ss_data st)" "ss_operations st1 = ss_operations st @ []" by (simp_all add: w(3))
    show "pa_status r \<noteq> Completed \<and> (pa_status p' = Completed \<longrightarrow> (\<exists>c. pa_completed_at p' = Some c \<and> t \<le> instant c))"
      if "r \<in> set (participations_of st)" "pa_id r = pa_id p" for r
      using one [OF that] w(1) finished by simp
  qed
qed

lemma recorded_effect:
  assumes "recorded sid st st'"
  shows "only_responses st st'" "participations_of st' = participations_of st" "kept t sid' st st'"
    "\<exists>os. ss_operations st' = ss_operations st @ os \<and> (\<forall>o' \<in> set os. \<forall>s. so_response o' \<noteq> Analysis_State s)"
  using assms by (auto simp: recorded_def only_responses_def kept_def)

lemma only_responses_trans: "only_responses st st1 \<Longrightarrow> only_responses st1 st2 \<Longrightarrow> only_responses st st2"
  by (simp add: only_responses_def)

lemma participate_effect:
  fixes env :: survey_env
  assumes run: "participate (en_validator env) (en_jsonb env) mo new_id sid pid q secret st = Inr (a, st')"
    and ok: "survey_ok z st" and t: "t \<le> instant (mo_clock mo)"
  shows "survey_ok z st' \<and> kept t sid' st st' \<and> only_responses st st'"
proof -
  have ids: "distinct (map pa_id (participations_of st))" using ok by (simp add: survey_ok_def rows_ok_def)
  have both: "survey_ok z st' \<and> kept t sid' st st' \<and> only_responses st st'"
    if one: "only_responses st st1" "ss_operations st1 = ss_operations st" "distinct (map pa_id (participations_of st1))" "kept t sid' st st1"
      and two: "recorded sid st1 st'" for st1
  proof -
    note r = recorded_effect [OF two]
    obtain os where os: "ss_operations st' = ss_operations st1 @ os" "\<forall>o' \<in> set os. \<forall>s. so_response o' \<noteq> Analysis_State s"
      using r(4) by blast
    have only: "only_responses st st'" using one(1) r(1) by (rule only_responses_trans)
    have "kept t sid' st st'" by (rule kept_trans [OF one(4) r(3) order.refl])
    moreover have "answers_ok st'"
      using answers_ok_recorded [of st st' os] os only ok by (simp add: one(2) survey_ok_def only_responses_def)
    then have "survey_ok z st'"
      using only one(3) r(2) by (intro survey_ok_cong [OF ok]) (simp_all add: only_responses_def)
    ultimately show ?thesis using only by blast
  qed
  show ?thesis using run
  proof (cases rule: participate_Inr)
    case (joined p st1)
    show ?thesis by (rule both [OF admitted_effect [OF joined(1) ids] joined(2)])
  next
    case unchanged
    then show ?thesis using ok by (simp add: only_responses_def)
  next
    case (written s hash p v p' st1 r)
    have "p \<in> set (participations_of st)" using resumed_admitted(1) [OF written(5)] by (auto simp: admitted_def)
    then show ?thesis by (intro both [OF written_effect [OF written(7) _ ids t] written(8)])
  qed
qed

end
