(* ===== verification/Survey_Edits.thy ===== *)
theory Survey_Edits
  imports Survey_Steps
begin

text \<open>
  What the requests of authors leave alone, operation by operation: each keeps the invariant of the tables, the completed
  participations, the versions and the recorded operations of every survey, and only adds deletion records.
\<close>

section \<open>What authors change\<close>

definition advances :: "tz \<Rightarrow> int \<Rightarrow> survey_store \<Rightarrow> survey_store \<Rightarrow> bool" where
  "advances z t st st' \<longleftrightarrow> survey_ok z st' \<and> (\<forall>sid. kept t sid st st') \<and> set (deleted_ids st) \<subseteq> set (deleted_ids st')"

lemma advances_refl: "survey_ok z st \<Longrightarrow> advances z t st st"
  by (simp add: advances_def)

lemma advances_trans:
  assumes "advances z t st st'" "advances z t' st' st''" "t \<le> t'"
  shows "advances z t st st''"
  using assms kept_trans unfolding advances_def by blast

lemma advances_recorded:
  assumes "advances z t st st1" "recorded sid st1 st'"
  shows "advances z t st st'"
proof -
  note r = recorded_effect [OF assms(2)]
  have ok: "survey_ok z st1" using assms(1) by (simp add: advances_def)
  have same: "ss_surveys st' = ss_surveys st1" "su_versions (ss_data st') = su_versions (ss_data st1)"
    "su_snapshots (ss_data st') = su_snapshots (ss_data st1)" "ss_deletions st' = ss_deletions st1"
    using r(1) by (simp_all add: only_responses_def)
  obtain os where os: "ss_operations st' = ss_operations st1 @ os" "\<forall>o' \<in> set os. \<forall>s. so_response o' \<noteq> Analysis_State s"
    using r(4) by blast
  have "answers_ok st1" "distinct (map pa_id (participations_of st1))" using ok by (simp_all add: survey_ok_def rows_ok_def)
  then have "survey_ok z st'" using survey_ok_cong [OF ok same(1-3)] answers_ok_recorded [OF _ same(3) os] r(2) by simp
  then have "advances z t st1 st'" using r(3) same(4) by (simp add: advances_def)
  then show ?thesis using advances_trans [OF assms(1)] by blast
qed

text \<open>Changes of other tables than those of versions, participations, snapshots and operations.\<close>

lemma advances_surveys:
  assumes "survey_ok z st" "ss_data st' = ss_data st" "ss_operations st' = ss_operations st" "set (deleted_ids st) \<subseteq> set (deleted_ids st')"
    and "distinct (map sw_id (ss_surveys st'))" "\<forall>s \<in> set (ss_surveys st'). survey_row_ok st s"
    and "sw_id ` set (ss_surveys st) \<subseteq> sw_id ` set (ss_surveys st')"
  shows "advances z t st st'"
proof -
  have "answers_ok st'" "rows_ok st'" using assms(1-3,5) by (simp_all add: survey_ok_def answers_ok_def rows_ok_def)
  moreover have "versions_ok st'"
    using assms(1,6) order.trans [OF _ assms(7)] by (simp add: survey_ok_def versions_ok_def survey_row_ok_def assms(2))
  ultimately have "survey_ok z st'" using assms(1,2) by (simp add: survey_ok_def)
  moreover have "kept t sid st st'" for sid using assms(2,3) by (rule kept_same)
  ultimately show ?thesis using assms(4) by (simp add: advances_def)
qed

lemma advances_same_surveys:
  assumes "survey_ok z st" "ss_data st' = ss_data st" "ss_operations st' = ss_operations st" "set (deleted_ids st) \<subseteq> set (deleted_ids st')"
    and "ss_surveys st' = ss_surveys st"
  shows "advances z t st st'"
  using assms by (intro advances_surveys) (auto simp: survey_ok_def rows_ok_def versions_ok_def)

lemma put_survey_rows: "ss_surveys (put_survey s st) = update_rows (\<lambda>r. sw_id r = sw_id s) (\<lambda>_. s) (ss_surveys st)"
  by (simp add: put_survey_def)

lemma find_survey_Some: "find_survey st sid = Some s \<Longrightarrow> s \<in> set (ss_surveys st) \<and> sw_id s = sid"
  by (auto simp: find_survey_def find_Some_iff)

lemma find_survey_None: "find_survey st sid = None \<longleftrightarrow> sid \<notin> sw_id ` set (ss_surveys st)"
  by (auto simp: find_survey_def find_None_iff)

lemma open_survey_Inr: "open_survey st sid = Inr s \<Longrightarrow> s \<in> set (ss_surveys st) \<and> sw_id s = sid"
  using find_survey_Some by (auto simp: open_survey_def split: option.splits)

lemma put_survey_advances:
  assumes "survey_ok z st" "survey_row_ok st s"
  shows "advances z t st (put_survey s st)"
proof (rule advances_surveys [OF assms(1)])
  have "map sw_id (ss_surveys (put_survey s st)) = map sw_id (ss_surveys st)"
    unfolding put_survey_rows by (rule map_update_rows) simp
  then show "distinct (map sw_id (ss_surveys (put_survey s st)))" "sw_id ` set (ss_surveys st) \<subseteq> sw_id ` set (ss_surveys (put_survey s st))"
    using assms(1) by (simp add: survey_ok_def rows_ok_def, metis list.set_map order_refl)
  show "\<forall>r \<in> set (ss_surveys (put_survey s st)). survey_row_ok st r"
    using assms by (auto simp: put_survey_rows update_rows_def survey_ok_def versions_ok_def)
qed simp_all

lemma add_survey_advances:
  assumes "survey_ok z st" "find_survey st (sw_id s) = None" "sw_published_version_id s = None" "sw_status s = Draft_Survey"
    and "ss_surveys st' = ss_surveys st @ [s]" "ss_data st' = ss_data st" "ss_operations st' = ss_operations st" "ss_deletions st' = ss_deletions st"
  shows "advances z t st st'"
proof (rule advances_surveys [OF assms(1,6,7)])
  have "sw_id s \<notin> vr_survey_id ` set (su_versions (ss_data st))"
    using assms(1,2) by (auto simp: find_survey_None survey_ok_def versions_ok_def)
  then have "versions_in (sw_id s) st = []" by (force simp: filter_empty_conv)
  then have "survey_row_ok st s" using assms(3,4) by (simp add: survey_row_ok_def)
  then show "\<forall>r \<in> set (ss_surveys st'). survey_row_ok st r" using assms(1,5) by (auto simp: survey_ok_def versions_ok_def)
qed (use assms in \<open>auto simp: find_survey_None survey_ok_def rows_ok_def\<close>)

lemma survey_row_ok_cong:
  "survey_row_ok st s \<Longrightarrow> sw_id s' = sw_id s \<Longrightarrow> sw_published_version_id s' = sw_published_version_id s \<Longrightarrow> sw_status s' = sw_status s
     \<Longrightarrow> survey_row_ok st s'"
  by (simp add: survey_row_ok_def)

lemma survey_row_of: "survey_ok z st \<Longrightarrow> s \<in> set (ss_surveys st) \<Longrightarrow> survey_row_ok st s"
  by (simp add: survey_ok_def versions_ok_def)

text \<open>Access mode, default timeout and planned end.\<close>

lemma set_access_advances:
  assumes "set_access s n mode st = Inr (s', st')" "survey_ok z st" "s \<in> set (ss_surveys st)"
  shows "advances z t st st'"
  using assms survey_row_of [OF assms(2,3)]
  by (auto simp: set_access_def changed_survey_def raised_def intro!: put_survey_advances intro: survey_row_ok_cong split: if_splits)

lemma set_timeout_advances:
  assumes "set_timeout s n timeout st = Inr (s', st')" "survey_ok z st" "s \<in> set (ss_surveys st)"
  shows "advances z t st st'"
  using assms survey_row_of [OF assms(2,3)]
  by (auto simp: set_timeout_def changed_survey_def raised_def intro!: put_survey_advances intro: survey_row_ok_cong split: if_splits)

lemma schedule_end_advances:
  assumes "schedule_end mo s n ends st = Inr (s', st')" "survey_ok z st" "s \<in> set (ss_surveys st)"
  shows "advances z t st st'"
  using assms survey_row_of [OF assms(2,3)]
  by (auto simp: schedule_end_def changed_survey_def raised_def res_simps intro!: put_survey_advances intro: survey_row_ok_cong split: if_splits)

lemma leave_partial_advances:
  assumes "survey_ok z st"
  shows "advances z t st (put_participations (update_rows (\<lambda>p. P p \<and> pa_status p = In_Progress) (\<lambda>p. p\<lparr>pa_status := Partial\<rparr>)) st)"
    (is "advances z t st ?st'")
proof -
  have "map pa_id (participations_of ?st') = map pa_id (participations_of st)" by (simp add: map_update_rows)
  then have "survey_ok z ?st'" using assms
    by (intro survey_ok_cong [OF assms]) (simp_all add: survey_ok_def rows_ok_def answers_ok_def)
  moreover have "kept t sid st ?st'" for sid
    by (rule kept_updated [where Q = "\<lambda>p. P p \<and> pa_status p = In_Progress" and f = "\<lambda>p. p\<lparr>pa_status := Partial\<rparr>" and os = "[]"])
      simp_all
  ultimately show ?thesis by (simp add: advances_def)
qed

lemma transition_keeps:
  assumes "transition_target s a = Inr target" "require_transition (sw_status s) target (sw_published_version_id s \<noteq> None) = Inr ()"
    and "sw_published_version_id s \<noteq> None \<longleftrightarrow> P" "sw_status s \<in> {Active_Survey, Ended_Survey, Archived_Survey} \<longrightarrow> P"
    and "target \<in> {Active_Survey, Ended_Survey, Archived_Survey}"
  shows P
  using assms by (cases a) (auto simp: transition_target_def require_transition_def allowed_targets_def split: if_splits survey_status.splits)

lemma change_status_advances:
  assumes "change_status mo s n a st = Inr (s', st')" "survey_ok z st" "s \<in> set (ss_surveys st)"
  shows "advances z t st st'"
proof -
  obtain target where k: "transition_target s a = Inr target"
    "require_transition (sw_status s) target (sw_published_version_id s \<noteq> None) = Inr ()"
    "sw_id s' = sw_id s" "sw_published_version_id s' = sw_published_version_id s" "sw_status s' = target"
    "st' = (if sw_status s = Active_Survey then put_participations (leave_partial (sw_id s)) (put_survey s' st) else put_survey s' st)"
    using assms(1) by (auto simp: change_status_def Let_def raised_def res_simps split: if_splits)
  have row: "survey_row_ok st s" using survey_row_of [OF assms(2,3)] .
  have some: "sw_published_version_id s \<noteq> None \<longleftrightarrow> versions_in (sw_id s) st \<noteq> []"
    "sw_status s \<in> {Active_Survey, Ended_Survey, Archived_Survey} \<longrightarrow> versions_in (sw_id s) st \<noteq> []"
    using row unfolding survey_row_ok_def Let_def by (auto split: if_splits)
  have "target \<in> {Active_Survey, Ended_Survey, Archived_Survey} \<longrightarrow> versions_in (sw_id s) st \<noteq> []"
    using transition_keeps [OF k(1,2) some] by blast
  then have "survey_row_ok st s'" using row by (simp add: survey_row_ok_def Let_def k(3-5))
  then have put: "advances z t st (put_survey s' st)" by (rule put_survey_advances [OF assms(2)])
  then have "survey_ok z (put_survey s' st)" by (simp add: advances_def)
  from advances_trans [OF put leave_partial_advances [OF this] order.refl] put show ?thesis
    by (simp add: k(6) leave_partial_def)
qed

lemma duplicate_survey_advances:
  assumes "duplicate_survey actor s n target title st = Inr (s', st')" "survey_ok z st"
  shows "advances z t st st'"
proof -
  obtain tid where "find_survey st tid = None" "sw_id s' = tid" "sw_published_version_id s' = None" "sw_status s' = Draft_Survey"
    "ss_surveys st' = ss_surveys st @ [s']" "ss_data st' = ss_data st" "ss_operations st' = ss_operations st" "ss_deletions st' = ss_deletions st"
    using assms(1) by (auto simp: duplicate_survey_def Let_def new_survey_def res_simps split: if_splits option.splits)
  then show ?thesis by (intro add_survey_advances [OF assms(2)]) simp_all
qed

lemma new_survey_simps [simp]:
  "sw_id (new_survey sid title owner timeout a) = sid" "sw_published_version_id (new_survey sid title owner timeout a) = None"
  "sw_status (new_survey sid title owner timeout a) = Draft_Survey"
  by (simp_all add: new_survey_def)

lemma open_new_survey_advances:
  assumes "open_new_survey actor sid title d timeout action st = Inr st'" "survey_ok z st"
  shows "advances z t st st'"
proof (cases "find_survey st sid")
  case None
  then obtain a where "st' = st\<lparr>ss_surveys := ss_surveys st @ [new_survey sid title (ua_id (ip_account actor)) timeout a]\<rparr>"
    using assms(1) by (auto simp: open_new_survey_def res_simps split: if_splits)
  then show ?thesis using None
    by (intro add_survey_advances [OF assms(2), of "new_survey sid title (ua_id (ip_account actor)) timeout a"]) simp_all
next
  case (Some s)
  then have "st' = st" using assms(1) by (auto simp: open_new_survey_def res_simps split: if_splits)
  then show ?thesis by (simp add: advances_refl assms(2))
qed

section \<open>Drafts and versions\<close>

lemma update_draft_advances:
  "survey_ok z st \<Longrightarrow> advances z t st (update_draft sid f st)"
  by (intro advances_same_surveys) simp_all

lemma first_draft_advances:
  assumes "first_draft env sid d st = Inr (a, st')" "survey_ok z st"
  shows "advances z t st st'" "a \<noteq> Analysis_State x"
  using assms by (auto simp: first_draft_def draft_state_def res_simps intro!: advances_same_surveys split: if_splits)

lemma save_draft_advances:
  assumes "save_draft env sid n d st = Inr (a, st')" "survey_ok z st"
  shows "advances z t st st'" "a \<noteq> Analysis_State x"
  using assms by (auto simp: save_draft_def draft_state_def res_simps intro!: update_draft_advances split: if_splits)

lemma foldr_max_numbers: "foldr max (map int [1..<Suc n]) k = max k (int n)" if "0 \<le> k"
  using that by (induction n arbitrary: k) auto

lemma numbered_snoc:
  assumes "numbered_versions vs" "vr_number v = foldr max (map vr_number vs) 0 + 1"
  shows "numbered_versions (vs @ [v])"
  using assms foldr_max_numbers [of 0 "length vs"] by (simp add: numbered_versions_def)

lemma publish_draft_advances:
  assumes run: "publish_draft env mo vid s n st = Inr (a, st')" and ok: "survey_ok z st" and s: "s \<in> set (ss_surveys st)"
  shows "advances z t st st'" "a \<noteq> Analysis_State x"
proof -
  let ?v = "\<lambda>hash kept. \<lparr>vr_id = vid, vr_survey_id = sw_id s, vr_number = next_number st (sw_id s),
    vr_capability_profile = lit ''initial-v1'', vr_renderer_version = lit ''3.0.3'', vr_definition = kept,
    vr_schema_hash = hash, vr_published_at = mo_started mo\<rparr>"
  let ?st = "\<lambda>v. update_draft (sw_id s) (\<lambda>r. r\<lparr>dr_revision := dr_revision r + 1\<rparr>)
    (put_survey (s\<lparr>sw_published_version_id := Some vid, sw_status := Active_Survey, sw_revision := sw_revision s + 1\<rparr>)
      (st\<lparr>ss_data := (ss_data st)\<lparr>su_versions := su_versions (ss_data st) @ [v]\<rparr>\<rparr>))"
  obtain hash kept' where "a = Version_State (version_payload_of (?v hash kept'))" "vid \<notin> vr_id ` set (su_versions (ss_data st))"
    "st' = ?st (?v hash kept')"
    using run by (auto simp: publish_draft_def Let_def res_simps list_ex_iff image_iff split: if_splits)
  then obtain v where v: "a = Version_State (version_payload_of v)" "vr_id v = vid" "vr_survey_id v = sw_id s"
    "vr_number v = next_number st (sw_id s)" "vid \<notin> vr_id ` set (su_versions (ss_data st))" "st' = ?st v"
    using that [of "?v hash kept'"] by simp
  show "a \<noteq> Analysis_State x" by (simp add: v(1))
  let ?s = "s\<lparr>sw_published_version_id := Some vid, sw_status := Active_Survey, sw_revision := sw_revision s + 1\<rparr>"
  have rows: "ss_surveys st' = update_rows (\<lambda>r. sw_id r = sw_id s) (\<lambda>_. ?s) (ss_surveys st)"
    "su_versions (ss_data st') = su_versions (ss_data st) @ [v]" "participations_of st' = participations_of st"
    "su_snapshots (ss_data st') = su_snapshots (ss_data st)" "ss_operations st' = ss_operations st" "ss_deletions st' = ss_deletions st"
    by (simp_all add: v(6) put_survey_rows)
  have ids: "map sw_id (ss_surveys st') = map sw_id (ss_surveys st)" unfolding rows(1) by (rule map_update_rows) simp
  have in_st': "versions_in sid st' = versions_in sid st @ (if sid = sw_id s then [v] else [])" for sid by (simp add: rows(2) v(3))
  have "numbered_versions (versions_in sid st')" for sid
    using ok v(4) by (auto simp: in_st' next_number_def survey_ok_def versions_ok_def intro!: numbered_snoc)
  moreover have "survey_row_ok st' r" if r: "r \<in> set (ss_surveys st')" for r
  proof (cases "sw_id r = sw_id s")
    case True
    then have "r = ?s" using r by (auto simp: rows(1) update_rows_def)
    then show ?thesis by (simp add: survey_row_ok_def in_st' v(2) Let_def)
  next
    case False
    then have "r \<in> set (ss_surveys st)" using r by (auto simp: rows(1) update_rows_def split: if_splits)
    then have "survey_row_ok st r" by (rule survey_row_of [OF ok])
    then show ?thesis using False by (simp add: survey_row_ok_def in_st' Let_def)
  qed
  moreover have "vr_survey_id ` set (su_versions (ss_data st')) \<subseteq> sw_id ` set (ss_surveys st')"
  proof -
    have "sw_id ` set (ss_surveys st') = sw_id ` set (ss_surveys st)" using arg_cong [OF ids, of set] by simp
    then show ?thesis using ok s by (auto simp: rows(2) v(3) survey_ok_def versions_ok_def)
  qed
  ultimately have "versions_ok st'" by (simp add: versions_ok_def)
  moreover have "rows_ok st'" using ok v(2,5) by (simp add: survey_ok_def rows_ok_def ids rows(2-4))
  moreover have "answers_ok st'" using ok by (simp add: survey_ok_def answers_ok_def rows(4,5))
  ultimately have "survey_ok z st'" using ok by (simp add: survey_ok_def rows(4))
  moreover have "kept t sid st st'" for sid using kept_appended [of st' st "[v]" "[]"] rows(2,3,5) by simp
  ultimately show "advances z t st st'" by (simp add: advances_def rows(6))
qed

section \<open>Deletions and invitations\<close>

lemma delete_permanently_advances:
  assumes "delete_permanently mo ids actor s op n st = Inr (a, st')" "survey_ok z st"
  shows "advances z t st st'"
  using assms by (auto simp: delete_permanently_def request_deletion_def Let_def res_simps intro!: advances_same_surveys split: if_splits)

lemma revoke_invitation_advances:
  assumes "revoke_invitation mo sid text st = Inr (i, st')" "survey_ok z st"
  shows "advances z t st st'"
  using assms by (auto simp: revoke_invitation_def Let_def intro!: advances_same_surveys split: option.splits)

lemma create_invitation_advances:
  assumes "create_invitation env mo ids s email name days st = Inr (i, st')" "survey_ok z st"
  shows "advances z t st st'"
  using assms by (auto simp: create_invitation_def Let_def res_simps intro!: advances_same_surveys split: if_splits option.splits)

section \<open>Recorded requests\<close>

text \<open>One more recorded answer; an aggregate among them is a stored snapshot of the survey.\<close>

lemma advances_answer:
  assumes "advances z t st st1" "st' = st1\<lparr>ss_operations := ss_operations st1 @ [o']\<rparr>"
    and "\<And>s. so_response o' = Analysis_State s \<Longrightarrow>
      \<exists>x \<in> set (su_snapshots (ss_data st1)). st_survey_id x = so_survey_id o' \<and> st_payload x = s"
  shows "advances z t st st'"
proof -
  have ok: "survey_ok z st1" using assms(1) by (simp add: advances_def)
  have "answers_ok st'" using ok assms(2,3) by (auto simp: survey_ok_def answers_ok_def)
  then have "survey_ok z st'" using ok by (intro survey_ok_cong [OF ok]) (simp_all add: assms(2) survey_ok_def rows_ok_def)
  moreover have "kept t sid st1 st'" for sid by (rule kept_appended [of _ _ "[]" "[o']"]) (simp_all add: assms(2))
  ultimately have "advances z t st1 st'" by (simp add: advances_def assms(2))
  then show ?thesis by (rule advances_trans [OF assms(1) _ order.refl])
qed

lemma record_advances:
  assumes "record_operation jsonb sid scope op body a st1 = Inr (b, st')" "advances z t st st1"
    and "\<And>s. a = Analysis_State s \<Longrightarrow> \<exists>x \<in> set (su_snapshots (ss_data st1)). st_survey_id x = sid \<and> st_payload x = s"
  shows "advances z t st st'"
  using assms(1)
proof (rule record_operation_Inr)
  fix o'
  assume o': "st' = st1\<lparr>ss_operations := ss_operations st1 @ [o']\<rparr>" "so_survey_id o' = sid" "stored_answer jsonb a = Inr (so_response o')"
  show ?thesis
  proof (rule advances_answer [OF assms(2) o'(1)])
    fix s
    assume "so_response o' = Analysis_State s"
    then have "a = Analysis_State s" using o'(3) by (cases a) (auto simp: stored_answer_def res_simps)
    then show "\<exists>x \<in> set (su_snapshots (ss_data st1)). st_survey_id x = so_survey_id o' \<and> st_payload x = s"
      using assms(3) o'(2) by simp
  qed
qed

lemma edit_request_advances:
  assumes "edit_request env actor s q op edit st = Inr (a, st')" "survey_ok z st"
    and "\<And>b st1. edit st = Inr (b, st1) \<Longrightarrow> advances z t st st1 \<and> (\<forall>x. b \<noteq> Analysis_State x)"
  shows "advances z t st st'"
proof -
  from assms(1) consider "st' = st" | b st1 where "edit st = Inr (b, st1)"
      "record_operation (en_jsonb env) (sw_id s) (author_scope actor (author_operation q)) op (author_body q) b st1 = Inr (a, st')"
    by (auto simp: edit_request_def Let_def res_simps split: option.splits)
  then show ?thesis
  proof cases
    case 1
    then show ?thesis using advances_refl [OF assms(2)] by simp
  next
    case (2 b st1)
    show ?thesis using assms(3) [OF 2(1)] by (intro record_advances [OF 2(2)]) auto
  qed
qed

lemma recorded_survey_advances:
  assumes "recorded_survey env actor s q op change st = Inr (a, st')" "survey_ok z st"
    and "\<And>r st1. change st = Inr (r, st1) \<Longrightarrow> advances z t st st1"
  shows "advances z t st st'"
proof -
  have "edit_request env actor s q op (\<lambda>st. then_res (change st) (\<lambda>(r, st1). Inr (Survey_State (survey_payload_of r) [], st1))) st = Inr (a, st')"
    using assms(1) by (auto simp: recorded_survey_def edit_request_def Let_def res_simps split: option.splits)
  then show ?thesis by (rule edit_request_advances [OF _ assms(2)]) (auto simp: res_simps dest: assms(3))
qed

lemma change_invitation_advances:
  assumes "change_invitation env mo actor s q op n change st = Inr (a, st')" "survey_ok z st"
    and "\<And>r st1. change st = Inr (r, st1) \<Longrightarrow> advances z t st st1"
  shows "advances z t st st'"
proof -
  have "edit_request env actor s q op (\<lambda>st. then_res (change st) (\<lambda>(i, st1). Inr (Invitation_State (invitation_payload_of (mo_app mo) None i), st1))) st
      = Inr (a, st')"
    using assms(1) by (auto simp: change_invitation_def edit_request_def Let_def res_simps split: option.splits if_splits)
  then show ?thesis by (rule edit_request_advances [OF _ assms(2)]) (auto simp: res_simps dest: assms(3))
qed

end
