(* ===== verification/Survey_Evolution.thy ===== *)
theory Survey_Evolution
  imports Survey_Edits
begin

text \<open>
  Freezing selections, whole requests of authors, the sweeps and the erasure: every step keeps the invariant, and of every
  survey either what \<open>kept\<close> says or nothing at all.
\<close>

section \<open>Filters in their canonical form\<close>

lemma from_utc_iso: "in_range u \<Longrightarrow> from_iso (iso_datetime (utc u)) = Inr (utc u)"
  by (rule iso_roundtrip) (simp_all add: utc_def)

lemma to_utc_Inr: "to_utc d = Inr u \<longleftrightarrow> in_range (instant d) \<and> u = utc (instant d)"
  by (auto simp: to_utc_def)

lemma local_midnight_utc: "local_midnight z day = Inr m \<Longrightarrow> \<exists>w. in_range w \<and> m = utc w"
  by (auto simp: local_midnight_def to_utc_Inr)

lemma canonical_moment_Inr:
  assumes "canonical_moment t = Inr c"
  obtains d where "from_iso t = Inr d" "in_range (instant d)" "c = iso_datetime (utc (instant d))"
  using assms by (auto simp: canonical_moment_def res_simps to_utc_Inr split: if_splits)

lemma iso_clock_length:
  assumes "0 \<le> us" "us < day_us"
  shows "length (iso_clock us) \<le> 15"
proof -
  let ?s = "us div 1000000"
  have "length (two (?s div 3600)) = 2" "length (two (?s div 60 mod 60)) = 2" "length (two (?s mod 60)) = 2"
    using clock_parts(1,2) [OF assms] pos_mod_bound [of 60 "?s div 60"] pos_mod_bound [of 60 ?s] by (auto intro!: two_length)
  moreover have "length (zero_padded 6 (nat (us mod 1000000))) = 6"
    using pos_mod_bound [of 1000000 us] by (intro zero_padded_length) (simp_all add: nat_less_iff)
  ultimately show ?thesis by (simp add: iso_clock_def Let_def)
qed

lemma iso_utc_shape:
  assumes "in_range u"
  shows "length (iso_datetime (utc u)) \<le> 40" "84 \<in> set (iso_datetime (utc u))"
proof -
  have "length (iso_clock (u mod day_us)) \<le> 15" by (rule iso_clock_length) (simp_all add: day_us_def)
  moreover have "length (iso_date (date_of_wall u)) = 10"
    using read_iso_date(2) [of "date_of_wall u"] assms pos_imp_zdiv_nonneg_iff [of day_us u]
    by (auto simp: in_range_def date_of_wall_def day_us_def max_date_def)
  moreover have "length (iso_offset 0) = 6" by code_simp
  ultimately show "length (iso_datetime (utc u)) \<le> 40" by (simp add: iso_datetime_def utc_def)
  show "84 \<in> set (iso_datetime (utc u))" by (simp add: iso_datetime_def utc_def)
qed

lemma canonical_again: "in_range u \<Longrightarrow> canonical_moment (iso_datetime (utc u)) = Inr (iso_datetime (utc u))"
  using iso_utc_shape [of u] from_utc_iso [of u] by (simp add: canonical_moment_def to_utc_def) (simp add: utc_def)

lemma settled_whole_days:
  assumes "whole_days z since (Some t) now = Inr (start, stop)" "from_iso t = Inr (utc u)" "in_range u"
  obtains w day midnight today today_start where "stop = iso_datetime (utc w)" "in_range w"
    "local_midnight z day = Inr midnight" "w = instant midnight"
    "local_day z now = Inr today" "local_midnight z today = Inr today_start" "w \<le> instant today_start"
proof -
  obtain t1 t2 stop_at where t: "day_start z now = Inr (t1, t2)" "stop = iso_datetime stop_at"
    and later: "then_res (day_start z (utc u)) (\<lambda>(a, b).
       let e = (if dt_eq (utc u) a then utc u else b) in Inr (if instant t1 < instant e then t1 else e)) = Inr stop_at"
    using assms(1) unfolding whole_days_def option.case assms(2) then_res_simps by (auto simp: then_res_Inr_iff)
  obtain a b where e: "day_start z (utc u) = Inr (a, b)"
    and at_stop: "stop_at = (if instant t1 < instant (if dt_eq (utc u) a then utc u else b) then t1
      else if dt_eq (utc u) a then utc u else b)"
    using later unfolding then_res_Inr_iff Let_def by auto
  obtain today where today: "local_day z now = Inr today" "local_midnight z today = Inr t1" using day_start_facts [OF t(1)] by blast
  obtain day where day: "local_midnight z day = Inr a" "local_midnight z (day + 1) = Inr b" using day_start_facts [OF e] by blast
  obtain w where w: "in_range w" "t1 = utc w" using local_midnight_utc [OF today(2)] by blast
  obtain wb where wb: "in_range wb" "b = utc wb" using local_midnight_utc [OF day(2)] by blast
  define e' where "e' = (if dt_eq (utc u) a then utc u else b)"
  have pick: "stop_at = (if instant t1 < instant e' then t1 else e')" unfolding e'_def by (rule at_stop)
  show thesis
  proof (cases "instant t1 < instant e'")
    case True
    then have "stop_at = t1" using pick by simp
    then have "stop = iso_datetime (utc w)" "w = instant t1" using t(2) by (simp_all add: w(2))
    then show thesis using w(1) today by (intro that [of w today t1 today t1]) simp_all
  next
    case False
    then have stop: "stop_at = e'" "instant e' \<le> instant t1" using pick by simp_all
    show thesis
    proof (cases "dt_eq (utc u) a")
      case True
      then have "e' = utc u" "u = instant a" by (simp_all only: e'_def if_True) (simp add: dt_eq_def)
      then have "stop = iso_datetime (utc u)" "u \<le> instant t1" using t(2) stop by simp_all
      then show thesis using assms(3) day(1) \<open>u = instant a\<close> today by (intro that [of u day a today t1])
    next
      case False
      then have "e' = b" by (simp add: e'_def)
      then have "stop = iso_datetime (utc wb)" "wb = instant b" "wb \<le> instant t1" using t(2) stop by (simp_all add: wb(2))
      then show thesis using wb(1) day(2) today by (intro that [of wb "day + 1" b today t1])
    qed
  qed
qed

lemma settled_whole_days_open:
  assumes "whole_days z since None now = Inr (start, stop)"
  obtains w today midnight where "stop = iso_datetime (utc w)" "in_range w" "local_day z now = Inr today"
    "local_midnight z today = Inr midnight" "w = instant midnight"
proof -
  obtain t1 t2 where t: "day_start z now = Inr (t1, t2)" "stop = iso_datetime t1"
    using assms unfolding whole_days_def then_res_Inr_iff by (auto simp: res_simps)
  obtain today where today: "local_day z now = Inr today" "local_midnight z today = Inr t1" using day_start_facts [OF t(1)] by blast
  then obtain w where "in_range w" "t1 = utc w" using local_midnight_utc [OF today(2)] by blast
  then show thesis using that [OF _ _ today] t(2) by simp
qed

text \<open>A filter that was accepted is accepted again, unchanged.\<close>

definition canonical_text :: "pystr option \<Rightarrow> bool" where
  "canonical_text t \<longleftrightarrow> (\<forall>s. t = Some s \<longrightarrow> (\<exists>u. in_range u \<and> s = iso_datetime (utc u)))"

lemma optional_canonical_Inr:
  assumes "optional_canonical t = Inr c"
  shows "canonical_text c" "optional_canonical c = Inr c"
  using assms by (auto simp: optional_canonical_def canonical_text_def res_simps canonical_again split: option.splits elim!: canonical_moment_Inr)

lemma filter_twice: "distinct ks \<Longrightarrow> filter (\<lambda>k. k \<in> set (filter (\<lambda>k. k \<in> set xs) ks)) ks = filter (\<lambda>k. k \<in> set xs) ks"
  by (rule filter_cong) auto


lemma filter_init_Inr:
  assumes "analysis_filter_init f = Inr g"
  obtains v since before where "parse_uuid (af_version_id f) = Some v" "af_statuses f \<noteq> []" "distinct (af_statuses f)"
    "optional_canonical (af_created_from f) = Inr since" "optional_canonical (af_created_before f) = Inr before"
    "ordered_dates since before = Inr ()"
    "g = \<lparr>af_version_id = uuid_str v, af_statuses = filter (\<lambda>k. k \<in> set (af_statuses f)) [In_Progress, Partial, Completed],
       af_is_test = af_is_test f, af_created_from = since, af_created_before = before\<rparr>"
  using assms unfolding analysis_filter_init_def by (auto simp: res_simps split: if_splits option.splits)

lemma uuid_str_length: "length (uuid_str u) = 36"
  by (simp add: uuid_str_def Let_def)

lemma statuses_left:
  assumes "xs \<noteq> []"
  shows "filter (\<lambda>k. k \<in> set xs) [In_Progress, Partial, Completed] \<noteq> []"
proof -
  have "hd xs \<in> set [In_Progress, Partial, Completed]" by (cases "hd xs") simp_all
  then show ?thesis using hd_in_set [OF assms] unfolding filter_empty_conv by blast
qed

lemma filter_canonical:
  assumes "analysis_filter_init f = Inr g"
  shows "analysis_filter_init g = Inr g"
proof -
  obtain v since before where k: "parse_uuid (af_version_id f) = Some v" "af_statuses f \<noteq> []" "distinct (af_statuses f)"
    "optional_canonical (af_created_from f) = Inr since" "optional_canonical (af_created_before f) = Inr before"
    "ordered_dates since before = Inr ()"
    and g: "g = \<lparr>af_version_id = uuid_str v, af_statuses = filter (\<lambda>k. k \<in> set (af_statuses f)) [In_Progress, Partial, Completed],
       af_is_test = af_is_test f, af_created_from = since, af_created_before = before\<rparr>"
    using filter_init_Inr [OF assms] .
  let ?ks = "filter (\<lambda>k. k \<in> set (af_statuses f)) [In_Progress, Partial, Completed]"
  have "?ks \<noteq> []" using k(2) by (rule statuses_left)
  moreover have "length ?ks \<le> 3" using length_filter_le [of "\<lambda>k. k \<in> set (af_statuses f)" "[In_Progress, Partial, Completed]"] by simp
  moreover have "distinct ?ks" by (rule distinct_filter) simp
  ultimately show ?thesis
    using filter_twice [of "[In_Progress, Partial, Completed]" "af_statuses f"] k(6)
      optional_canonical_Inr(2) [OF k(4)] optional_canonical_Inr(2) [OF k(5)]
    by (simp add: analysis_filter_init_def g uuid_str_length parse_uuid_str del: filter.simps)
qed

lemma settled_filter_range:
  assumes valid: "analysis_filter_init asked = Inr valid" and f: "settled_filter z now valid = Inr f" and "instant now \<le> instant made"
  shows "settled_range z f made" "analysis_filter_init f = Inr f"
proof -
  obtain start stop where days: "whole_days z (af_created_from valid) (af_created_before valid) now = Inr (start, stop)"
    and g: "analysis_filter_init (valid\<lparr>af_statuses := [Completed], af_created_from := start, af_created_before := Some stop\<rparr>) = Inr f"
    using f by (auto simp: settled_filter_def res_simps split: if_splits)
  show "analysis_filter_init f = Inr f" using g by (rule filter_canonical)
  have "canonical_text (af_created_before valid)"
    using valid by (rule filter_init_Inr) (auto dest: optional_canonical_Inr(1))
  then obtain w day midnight today today_start where w: "stop = iso_datetime (utc w)" "in_range w"
    "local_midnight z day = Inr midnight" "w = instant midnight"
    "local_day z now = Inr today" "local_midnight z today = Inr today_start" "w \<le> instant today_start"
  proof (cases "af_created_before valid")
    case None
    then show thesis using days that by (auto elim!: settled_whole_days_open)
  next
    case (Some t)
    then obtain u where "in_range u" "t = iso_datetime (utc u)" using \<open>canonical_text _\<close> by (auto simp: canonical_text_def)
    show thesis
      by (rule settled_whole_days [OF days [unfolded Some \<open>t = _\<close>] from_utc_iso [OF \<open>in_range u\<close>] \<open>in_range u\<close>]) (rule that)
  qed
  have before: "af_created_before f = Some (iso_datetime (utc w))" "af_statuses f = [Completed]"
    using g by (auto simp: w(1) optional_canonical_def canonical_again [OF w(2)] elim!: filter_init_Inr)
  moreover have "iso_datetime (utc w) \<noteq> []" using iso_utc_shape(2) [OF w(2)] by auto
  then have "optional_moment (af_created_before f) = Inr (Some (utc w))"
    by (simp add: before optional_moment_def from_utc_iso [OF w(2)])
  ultimately show "settled_range z f made" unfolding settled_range_def using w(3-7) assms(3) by fastforce
qed

section \<open>Selections\<close>

lemma create_snapshot_stored:
  assumes "create_snapshot service octets sid captured s f settled db = Inr (snapshot, db')"
  obtains x where "db' = db\<lparr>su_snapshots := su_snapshots db @ [x]\<rparr>" "st_payload x = snapshot" "st_id x = sid"
    "st_survey_id x = sw_id s" "st_created_at x = captured" "sid \<notin> st_id ` set (su_snapshots db)"
    "analysis_snapshot_init snapshot = Inr snapshot" "sn_id snapshot = uuid_str sid" "sn_filter snapshot = f"
    "sn_policy snapshot = (if settled then Settled else Reader)"
proof -
  obtain v where "freeze_version service octets sid captured s f settled v db = Inr (snapshot, db')"
    using assms unfolding create_snapshot_Inr by blast
  then show thesis
  proof (rule freeze_version_Inr)
    fix since before rows questions deps
    let ?x = "\<lparr>st_id = sid, st_survey_id = sw_id s, st_version_id = vr_id v, st_payload = snapshot,
      st_private = map (private_of (effective_status captured (closed_at s captured))) rows, st_created_at = captured\<rparr>"
    assume init: "analysis_snapshot_init (snapshot_of sid s captured f settled v
         (\<lambda>k. int (length (filter (\<lambda>p. effective_status captured (closed_at s captured) p = k)
            (filter (in_scope (sw_id s) (vr_id v) (af_is_test f) since before settled) (su_participations db)))))
         rows questions deps) = Inr snapshot"
      and db': "db' = db\<lparr>su_snapshots := su_snapshots db @ [?x]\<rparr>" and new: "\<not> list_ex (\<lambda>x. st_id x = sid) (su_snapshots db)"
    note snap = snapshot_moved(1) [OF init refl]
    have "analysis_snapshot_init snapshot = Inr snapshot" using init unfolding snap [symmetric] .
    moreover have "sn_id snapshot = uuid_str sid" "sn_filter snapshot = f" "sn_policy snapshot = (if settled then Settled else Reader)"
      unfolding snap by (simp_all add: snapshot_of_def)
    ultimately show thesis using new by (intro that [OF db']) (auto simp: list_ex_iff)
  qed
qed

text \<open>An account without raw access gets only settled selections, and of an earlier request only a settled one.\<close>

abbreviation settled_only :: "survey_store \<Rightarrow> survey_row \<Rightarrow> identity_principal \<Rightarrow> selection_kind \<Rightarrow> bool" where
  "settled_only st s actor k \<equiv> k \<noteq> For_Responses \<and> \<not> raw_access (capabilities_of st s actor)"

lemma create_selection_Inr:
  assumes "create_selection env mo new_id actor s k op asked st = Inr (a, st')"
  obtains (replayed) valid where "analysis_filter_init asked = Inr valid" "st' = st"
      "replay_operation st (sw_id s) (author_scope actor (create_operation k)) op (selection_body op asked) = Inr (Some a)"
      "settled_only st s actor k \<Longrightarrow> then_res (answer_id a) (\<lambda>text.
        stored_settled (sw_id s) text (Design \<in> set (capabilities_of st s actor)) st) = Inr ()"
    | (created) valid f snapshot data where "analysis_filter_init asked = Inr valid"
      "if settled_only st s actor k then settled_filter (en_zone env) (mo_clock mo) valid = Inr f else f = valid"
      "create_snapshot (en_analysis env) (en_octets env) new_id (mo_captured mo) s f (settled_only st s actor k) (ss_data st)
        = Inr (snapshot, data)"
      "replay_operation st (sw_id s) (author_scope actor (create_operation k)) op (selection_body op asked) = Inr None"
      "record_operation (en_jsonb env) (sw_id s) (author_scope actor (create_operation k)) op (selection_body op asked)
        (selection_answer k snapshot) (st\<lparr>ss_data := data\<rparr>) = Inr (a, st')"
proof -
  note old = replayed and new = created
  let ?settled = "settled_only st s actor k"
  let ?check = "\<lambda>a. if ?settled then then_res (answer_id a) (\<lambda>text.
      stored_settled (sw_id s) text (Design \<in> set (capabilities_of st s actor)) st) else Inr ()"
  obtain valid f replay where v: "analysis_filter_init asked = Inr valid"
    "(if ?settled then settled_filter (en_zone env) (mo_clock mo) valid else Inr valid) = Inr f"
    "replay_operation st (sw_id s) (author_scope actor (create_operation k)) op (selection_body op asked) = Inr replay"
    "(case replay of Some a \<Rightarrow> then_res (?check a) (\<lambda>_. Inr (a, st))
      | None \<Rightarrow> then_res (create_snapshot (en_analysis env) (en_octets env) new_id (mo_captured mo) s f ?settled (ss_data st))
          (\<lambda>(snapshot, data). record_operation (en_jsonb env) (sw_id s) (author_scope actor (create_operation k)) op
            (selection_body op asked) (selection_answer k snapshot) (st\<lparr>ss_data := data\<rparr>))) = Inr (a, st')"
    using assms unfolding create_selection_def Let_def by (auto simp only: then_res_Inr_iff if_raise_Inr_iff)
  have f: "if ?settled then settled_filter (en_zone env) (mo_clock mo) valid = Inr f else f = valid" using v(2) by (auto split: if_splits)
  show thesis
  proof (cases replay)
    case (Some b)
    then have "then_res (?check b) (\<lambda>_. Inr (b, st)) = Inr (a, st')" using v(4) by simp
    then have "a = b" "st' = st" "?check b = Inr ()" by (auto simp: then_res_Inr_iff)
    then show thesis using v(1,3) Some by (intro old [of valid]) (simp_all split: if_splits)
  next
    case None
    then obtain snapshot data where "create_snapshot (en_analysis env) (en_octets env) new_id (mo_captured mo) s f ?settled (ss_data st)
        = Inr (snapshot, data)" "record_operation (en_jsonb env) (sw_id s) (author_scope actor (create_operation k)) op
            (selection_body op asked) (selection_answer k snapshot) (st\<lparr>ss_data := data\<rparr>) = Inr (a, st')"
      using v(4) by (auto simp: then_res_Inr_iff)
    then show thesis using new [OF v(1) f] v(3) None by simp
  qed
qed

lemma create_selection_advances:
  assumes run: "create_selection env mo new_id actor s k op asked st = Inr (a, st')" and ok: "survey_ok (en_zone env) st"
    and clock: "instant (mo_clock mo) \<le> instant (mo_captured mo)"
  shows "advances (en_zone env) t st st'"
  using run
proof (cases rule: create_selection_Inr)
  case replayed
  then show ?thesis using advances_refl [OF ok] by simp
next
  case (created valid f snapshot data)
  let ?settled = "settled_only st s actor k" and ?st = "st\<lparr>ss_data := data\<rparr>"
  obtain x where x: "data = (ss_data st)\<lparr>su_snapshots := su_snapshots (ss_data st) @ [x]\<rparr>" "st_payload x = snapshot" "st_id x = new_id"
    "st_survey_id x = sw_id s" "st_created_at x = mo_captured mo" "new_id \<notin> st_id ` set (su_snapshots (ss_data st))"
    "analysis_snapshot_init snapshot = Inr snapshot" "sn_id snapshot = uuid_str new_id" "sn_filter snapshot = f"
    "sn_policy snapshot = (if ?settled then Settled else Reader)"
    using create_snapshot_stored [OF created(3)] .
  have "settled_range (en_zone env) f (mo_captured mo)" if ?settled
    using settled_filter_range(1) [OF created(1) _ clock, of "en_zone env" f] created(2) that by simp
  then have snap: "snapshot_ok (en_zone env) x" using x(2,3,5,7-10) by (auto simp: snapshot_ok_def split: if_splits)
  have rows: "ss_surveys ?st = ss_surveys st" "su_versions (ss_data ?st) = su_versions (ss_data st)"
    "participations_of ?st = participations_of st" "su_snapshots (ss_data ?st) = su_snapshots (ss_data st) @ [x]"
    "ss_operations ?st = ss_operations st" "ss_deletions ?st = ss_deletions st" by (simp_all add: x(1))
  have "rows_ok ?st" using ok x(6) unfolding survey_ok_def rows_ok_def rows(1-4) by (simp add: x(3))
  moreover have "answers_ok ?st" using ok unfolding survey_ok_def answers_ok_def rows(4,5) by fastforce
  moreover have "versions_ok ?st" using ok unfolding survey_ok_def versions_ok_def survey_row_ok_def rows(1,2) by blast
  ultimately have "survey_ok (en_zone env) ?st" using ok snap unfolding survey_ok_def rows(4) by auto
  moreover have "kept t sid st ?st" for sid by (rule kept_appended [of _ _ "[]" "[]"]) (simp_all only: rows append_Nil2)
  ultimately have "advances (en_zone env) t st ?st" by (simp add: advances_def rows(6))
  then show ?thesis
  proof (rule record_advances [OF created(5)])
    fix y
    assume "selection_answer k snapshot = Analysis_State y"
    then have "y = snapshot" by (cases k) (simp_all add: selection_answer_def)
    then show "\<exists>x \<in> set (su_snapshots (ss_data ?st)). st_survey_id x = sw_id s \<and> st_payload x = y" using x(2,4) rows(4) by auto
  qed
qed

section \<open>Authors\<close>

lemma authorized_request_advances:
  assumes run: "authorized_request env mo ids actor s q st = Inr (a, st')" and ok: "survey_ok (en_zone env) st"
    and s: "s \<in> set (ss_surveys st)" and clock: "instant (mo_clock mo) \<le> instant (mo_captured mo)"
  shows "advances (en_zone env) t st st'"
proof -
  have same: "st' = st \<Longrightarrow> ?thesis" using advances_refl [OF ok] by simp
  show ?thesis
proof (cases q)
  case (Create_Survey op title d timeout action)
  then have "edit_request env actor s q op (first_draft env (sw_id s) d) st = Inr (a, st')"
    using run by (auto simp: authorized_request_def draft_request_def split: if_splits)
  then show ?thesis by (rule edit_request_advances [OF _ ok]) (use first_draft_advances [OF _ ok] in blast)
next
  case (Save_Draft op n d)
  then have "edit_request env actor s q op (save_draft env (sw_id s) n d) st = Inr (a, st')"
    using run by (auto simp: authorized_request_def draft_request_def split: if_splits)
  then show ?thesis by (rule edit_request_advances [OF _ ok]) (use save_draft_advances [OF _ ok] in blast)
next
  case (Publish_Survey op n)
  then have "edit_request env actor s q op (publish_draft env mo (fi_first ids) s n) st = Inr (a, st')"
    using run by (auto simp: authorized_request_def draft_request_def split: if_splits)
  then show ?thesis by (rule edit_request_advances [OF _ ok]) (use publish_draft_advances [OF _ ok s] in blast)
next
  case (Create_Selection k op f)
  then have "create_selection env mo (fi_first ids) actor s k op f st = Inr (a, st')"
    using run by (auto simp: authorized_request_def selection_request_def split: if_splits)
  then show ?thesis by (rule create_selection_advances [OF _ ok clock])
next
  case (Delete_Permanently op n)
  then show ?thesis using run by (auto simp: authorized_request_def intro: delete_permanently_advances [OF _ ok])
next
  case (Set_Access op n mode)
  then have "recorded_survey env actor s q op (set_access s n mode) st = Inr (a, st')" using run by (simp add: authorized_request_def)
  then show ?thesis by (rule recorded_survey_advances [OF _ ok]) (rule set_access_advances [OF _ ok s])
next
  case (Set_Timeout op n timeout)
  then have "recorded_survey env actor s q op (set_timeout s n timeout) st = Inr (a, st')"
    using run by (simp add: authorized_request_def split: if_splits)
  then show ?thesis by (rule recorded_survey_advances [OF _ ok]) (rule set_timeout_advances [OF _ ok s])
next
  case (Schedule_End op n ends)
  then have "recorded_survey env actor s q op (schedule_end mo s n ends) st = Inr (a, st')" using run by (simp add: authorized_request_def)
  then show ?thesis by (rule recorded_survey_advances [OF _ ok]) (rule schedule_end_advances [OF _ ok s])
next
  case (Change_Status op n b)
  then have "recorded_survey env actor s q op (change_status mo s n b) st = Inr (a, st')" using run by (simp add: authorized_request_def)
  then show ?thesis by (rule recorded_survey_advances [OF _ ok]) (rule change_status_advances [OF _ ok s])
next
  case (Duplicate_Survey op n target title)
  then have "recorded_survey env actor s q op (duplicate_survey actor s n target title) st = Inr (a, st')"
    using run by (simp add: authorized_request_def)
  then show ?thesis by (rule recorded_survey_advances [OF _ ok]) (rule duplicate_survey_advances [OF _ ok])
next
  case (Create_Invitation op n email name days)
  then have "change_invitation env mo actor s q op n (create_invitation env mo ids s email name days) st = Inr (a, st')"
    using run by (simp add: authorized_request_def invitation_request_def split: if_splits)
  then show ?thesis by (rule change_invitation_advances [OF _ ok]) (rule create_invitation_advances [OF _ ok])
next
  case (Revoke_Invitation op n i)
  then have "change_invitation env mo actor s q op n (revoke_invitation mo (sw_id s) i) st = Inr (a, st')"
    using run by (simp add: authorized_request_def invitation_request_def split: if_splits)
  then show ?thesis by (rule change_invitation_advances [OF _ ok]) (rule revoke_invitation_advances [OF _ ok])
qed (use run same in \<open>auto simp: authorized_request_def invitation_request_def selection_request_def draft_request_def read_draft_def
    res_simps split: if_splits\<close>)
qed

text \<open>A request of an author leaves the store alone or is an accepted one on a survey it may open.\<close>

lemma author_Inr:
  assumes "author env mo ids actor sid q st = Inr (a, st')"
  obtains (unchanged) "st' = st"
    | (accepted) st1 s where "deletion_of st sid = None"
      "(case q of Create_Survey _ title d timeout action \<Rightarrow> open_new_survey actor sid title d timeout action st | _ \<Rightarrow> Inr st) = Inr st1"
      "open_survey st1 sid = Inr s" "required_capability (capabilities_of st1 s actor) q \<in> set (capabilities_of st1 s actor)"
      "authorized_request env mo ids actor s q st1 = Inr (a, st')"
proof -
  show thesis
  proof (cases "q = Deletion_Status \<or> q = Get_Summary \<or> deletion_of st sid \<noteq> None")
    case True
    then have "st' = st" using assms by (auto simp: author_def res_simps Let_def split: if_splits option.splits)
    then show thesis by (rule unchanged)
  next
    case False
    then have run: "then_res (case q of Create_Survey _ title d timeout action \<Rightarrow> open_new_survey actor sid title d timeout action st
          | _ \<Rightarrow> Inr st) (\<lambda>st1. then_res (open_survey st1 sid) (\<lambda>s. let access = capabilities_of st1 s actor in
          if required_capability access q \<notin> set access then Inl (App Resource_Not_Found ''not_found'')
          else authorized_request env mo ids actor s q st1)) = Inr (a, st')"
      using assms by (simp add: author_def)
    then obtain st1 s where "(case q of Create_Survey _ title d timeout action \<Rightarrow> open_new_survey actor sid title d timeout action st
          | _ \<Rightarrow> Inr st) = Inr st1" "open_survey st1 sid = Inr s"
        "required_capability (capabilities_of st1 s actor) q \<in> set (capabilities_of st1 s actor)"
        "authorized_request env mo ids actor s q st1 = Inr (a, st')"
      unfolding then_res_Inr_iff Let_def if_raise_Inr_iff by auto
    then show thesis using accepted False by blast
  qed
qed

lemma author_advances:
  assumes run: "author env mo ids actor sid q st = Inr (a, st')" and ok: "survey_ok (en_zone env) st"
    and clock: "instant (mo_clock mo) \<le> instant (mo_captured mo)"
  shows "advances (en_zone env) t st st'"
  using run
proof (cases rule: author_Inr)
  case (accepted st1 s)
  have new: "advances (en_zone env) t st st1"
  proof (cases "st1 = st")
    case True
    then show ?thesis using advances_refl [OF ok] by simp
  next
    case False
    then obtain title d timeout action where "open_new_survey actor sid title d timeout action st = Inr st1"
      using accepted(2) by (cases q) auto
    then show ?thesis by (rule open_new_survey_advances [OF _ ok])
  qed
  then have "survey_ok (en_zone env) st1" by (simp add: advances_def)
  from authorized_request_advances [OF accepted(5) this _ clock] open_survey_Inr [OF accepted(3)]
  have "advances (en_zone env) t st1 st'" by blast
  then show ?thesis by (rule advances_trans [OF new _ order.refl])
qed (use advances_refl [OF ok] in simp)

section \<open>Sweeps and erasure\<close>

lemma classify_overdue_advances:
  assumes "classify_overdue now limit free st = (n, st')" "survey_ok z st"
  shows "advances z t st st'"
proof -
  define due where "due = take limit (sort_key pa_id (filter (\<lambda>p. overdue now p \<and> free (pa_id p)) (participations_of st)))"
  have st': "st' = put_participations (update_rows (\<lambda>p. pa_id p \<in> set (map pa_id due)) (\<lambda>p. p\<lparr>pa_status := Partial\<rparr>)) st"
    using assms(1) unfolding classify_overdue_def Let_def due_def by simp
  have ids: "distinct (map pa_id (participations_of st))" using assms(2) by (simp add: survey_ok_def rows_ok_def)
  have "set due \<subseteq> {p \<in> set (participations_of st). pa_status p = In_Progress}"
    using set_take_subset by (fastforce simp: due_def overdue_def)
  then have running: "pa_status p = In_Progress" if "p \<in> set (participations_of st)" "pa_id p \<in> set (map pa_id due)" for p
    using that distinct_unique [OF ids that(1)] by auto
  have "update_rows (\<lambda>p. pa_id p \<in> set (map pa_id due)) f (participations_of st)
      = update_rows (\<lambda>p. pa_id p \<in> set (map pa_id due) \<and> pa_status p = In_Progress) f (participations_of st)" for f
    using running by (auto simp: update_rows_def)
  then have "st' = put_participations (update_rows (\<lambda>p. pa_id p \<in> set (map pa_id due) \<and> pa_status p = In_Progress) (\<lambda>p. p\<lparr>pa_status := Partial\<rparr>)) st"
    unfolding st' put_participations_def by simp
  then show ?thesis using leave_partial_advances [OF assms(2)] by simp
qed

lemma close_due_advances:
  assumes "close_due_surveys now limit free st = (n, st')" "survey_ok z st"
  shows "advances z t st st'"
proof -
  obtain due where due: "set due \<subseteq> {s \<in> set (ss_surveys st). sw_status s = Active_Survey}"
    and st': "st' = put_participations
        (update_rows (\<lambda>p. pa_survey_id p \<in> set (map sw_id due) \<and> pa_status p = In_Progress) (\<lambda>p. p\<lparr>pa_status := Partial\<rparr>))
        (st\<lparr>ss_surveys := update_rows (\<lambda>s. sw_id s \<in> set (map sw_id due)) (\<lambda>s. raised (s\<lparr>sw_status := Ended_Survey\<rparr>)) (ss_surveys st)\<rparr>)"
  proof
    let ?due = "take limit (sort_key (\<lambda>s. instant (the (sw_ends_at s))) (sort_key sw_id
      (filter (\<lambda>s. sw_status s = Active_Survey \<and> past (sw_ends_at s) now \<and> free (sw_id s)) (ss_surveys st))))"
    show "set ?due \<subseteq> {s \<in> set (ss_surveys st). sw_status s = Active_Survey}" using set_take_subset by fastforce
    show "st' = put_participations
        (update_rows (\<lambda>p. pa_survey_id p \<in> set (map sw_id ?due) \<and> pa_status p = In_Progress) (\<lambda>p. p\<lparr>pa_status := Partial\<rparr>))
        (st\<lparr>ss_surveys := update_rows (\<lambda>s. sw_id s \<in> set (map sw_id ?due)) (\<lambda>s. raised (s\<lparr>sw_status := Ended_Survey\<rparr>)) (ss_surveys st)\<rparr>)"
      using assms(1) unfolding close_due_surveys_def Let_def by simp
  qed
  let ?st = "st\<lparr>ss_surveys := update_rows (\<lambda>s. sw_id s \<in> set (map sw_id due)) (\<lambda>s. raised (s\<lparr>sw_status := Ended_Survey\<rparr>)) (ss_surveys st)\<rparr>"
  have ids: "map sw_id (ss_surveys ?st) = map sw_id (ss_surveys st)"
  proof -
    have "ss_surveys ?st = update_rows (\<lambda>s. sw_id s \<in> set (map sw_id due)) (\<lambda>s. raised (s\<lparr>sw_status := Ended_Survey\<rparr>)) (ss_surveys st)"
      by simp
    then show ?thesis by (simp only:) (rule map_update_rows, simp add: raised_def)
  qed
  have distinct_ids: "distinct (map sw_id (ss_surveys st))" using assms(2) by (simp add: survey_ok_def rows_ok_def)
  have "advances z t st ?st"
  proof (rule advances_surveys [OF assms(2)])
    show "distinct (map sw_id (ss_surveys ?st))" using distinct_ids unfolding ids .
    show "sw_id ` set (ss_surveys st) \<subseteq> sw_id ` set (ss_surveys ?st)" using arg_cong [OF ids, of set] by (simp only: list.set_map order.refl)
    have "survey_row_ok st (raised (s\<lparr>sw_status := Ended_Survey\<rparr>))"
      if s: "s \<in> set (ss_surveys st)" "sw_id s \<in> set (map sw_id due)" for s
    proof -
      have "sw_status s = Active_Survey" using due s distinct_unique [OF distinct_ids s(1)] by auto
      then show ?thesis using survey_row_of [OF assms(2) s(1)] by (simp add: survey_row_ok_def raised_def Let_def)
    qed
    then show "\<forall>s \<in> set (ss_surveys ?st). survey_row_ok st s" using survey_row_of [OF assms(2)] by (auto simp: update_rows_def)
  qed simp_all
  then have put: "advances z t st ?st" "survey_ok z ?st" by (simp_all add: advances_def)
  show ?thesis unfolding st' by (rule advances_trans [OF put(1) leave_partial_advances [OF put(2)] order.refl])
qed

text \<open>A survey is erased as a whole; its deletion is not.\<close>

definition erased :: "uuid \<Rightarrow> survey_store \<Rightarrow> bool" where
  "erased sid st \<longleftrightarrow> deletion_of st sid \<noteq> None \<and> (\<forall>p \<in> set (participations_of st). pa_survey_id p \<noteq> sid)
     \<and> versions_in sid st = [] \<and> (\<forall>x \<in> set (su_snapshots (ss_data st)). st_survey_id x \<noteq> sid) \<and> operations_in sid st = []
     \<and> (\<forall>s \<in> set (ss_surveys st). sw_id s \<noteq> sid)"

lemma deletion_of_None: "deletion_of st sid = None \<longleftrightarrow> sid \<notin> set (deleted_ids st)"
  by (auto simp: deletion_of_def find_None_iff)

lemma erase_effect:
  assumes ok: "survey_ok z st"
  shows "survey_ok z (erase_survey now sid event_id st) \<and> deleted_ids (erase_survey now sid event_id st) = deleted_ids st
    \<and> (\<forall>sid'. kept t sid' st (erase_survey now sid event_id st) \<or> erased sid' (erase_survey now sid event_id st))"
proof (cases "erase_survey now sid event_id st = st")
  case True
  then show ?thesis using ok by simp
next
  case False
  let ?st' = "erase_survey now sid event_id st"
  obtain d where found: "find (\<lambda>d. dl_survey_id d = sid \<and> dl_event_id d = event_id) (ss_deletions st) = Some d" "dl_completed_at d = None"
    using False by (auto simp: erase_survey_def split: option.splits if_splits)
  then have "d \<in> set (ss_deletions st)" "dl_survey_id d = sid" by (auto simp: find_Some_iff)
  note d = this found(2,1)
  have rows: "ss_surveys ?st' = filter (\<lambda>s. sw_id s \<noteq> sid) (ss_surveys st)"
    "su_versions (ss_data ?st') = filter (\<lambda>v. vr_survey_id v \<noteq> sid) (su_versions (ss_data st))"
    "participations_of ?st' = filter (\<lambda>p. pa_survey_id p \<noteq> sid) (participations_of st)"
    "su_snapshots (ss_data ?st') = filter (\<lambda>x. st_survey_id x \<noteq> sid) (su_snapshots (ss_data st))"
    "ss_operations ?st' = filter (\<lambda>o'. so_survey_id o' \<noteq> sid) (ss_operations st)"
    "ss_deletions ?st' = update_rows (\<lambda>r. dl_survey_id r = sid) (\<lambda>r. r\<lparr>dl_completed_at := Some now\<rparr>) (ss_deletions st)"
    using d(3,4) by (simp_all add: erase_survey_def)
  have deleted: "deleted_ids ?st' = deleted_ids st" unfolding rows(6) by (rule map_update_rows) simp
  have in_st': "versions_in sid' ?st' = (if sid' = sid then [] else versions_in sid' st)" for sid'
    by (auto simp: rows(2) filter_empty_conv intro: filter_cong)
  have "rows_ok ?st'" using ok by (simp add: survey_ok_def rows_ok_def rows(1-4) distinct_map inj_on_def)
  moreover have "answers_ok ?st'" using ok unfolding survey_ok_def answers_ok_def rows(4,5) by (fastforce simp del: rows)
  moreover have "versions_ok ?st'"
  proof -
    have "numbered_versions (versions_in sid' ?st')" for sid'
      using ok by (simp add: in_st' survey_ok_def versions_ok_def) (simp add: numbered_versions_def)
    moreover have "survey_row_ok ?st' s" if "s \<in> set (ss_surveys ?st')" for s
      using that survey_row_of [OF ok, of s] by (simp add: rows(1) survey_row_ok_def in_st' Let_def)
    moreover have "vr_survey_id ` set (su_versions (ss_data ?st')) \<subseteq> sw_id ` set (ss_surveys ?st')"
    proof -
      have "vr_survey_id ` set (su_versions (ss_data st)) \<subseteq> sw_id ` set (ss_surveys st)"
        using ok by (simp add: survey_ok_def versions_ok_def)
      then show ?thesis unfolding rows(1,2) set_filter by blast
    qed
    ultimately show ?thesis by (simp add: versions_ok_def)
  qed
  ultimately have "survey_ok z ?st'" using ok by (simp add: survey_ok_def rows(4))
  moreover have "kept t sid' st ?st'" if "sid' \<noteq> sid" for sid'
  proof -
    have "filter (finished_in sid' e) (participations_of ?st') = filter (finished_in sid' e) (participations_of st)" for e
      unfolding rows(3) filter_filter using that by (intro filter_cong) (auto simp: finished_in_def)
    moreover have "operations_in sid' ?st' = operations_in sid' st"
      unfolding rows(5) filter_filter using that by (intro filter_cong) auto
    moreover have "set (filter (completed_in sid') (participations_of st)) \<subseteq> set (participations_of ?st')"
      using that by (auto simp: rows(3) completed_in_def)
    ultimately show ?thesis using that by (simp add: kept_def in_st')
  qed
  then have "kept t sid' st ?st' \<or> sid' = sid" for sid' by blast
  moreover have "erased sid ?st'"
    using d(1,2) deleted by (auto simp: erased_def deletion_of_None rows(1-5) filter_empty_conv)
  ultimately show ?thesis using deleted by (intro conjI allI) auto
qed

lemma retire_advances:
  assumes "retire_survey mo event_id started sid st = Inr st'" "survey_ok z st"
  shows "advances z t st st'"
proof (cases "st' = st")
  case True
  then show ?thesis using advances_refl [OF assms(2)] by simp
next
  case False
  then obtain s where s: "find_survey st sid = Some s" "deletion_of st sid = None"
    using assms(1) by (auto simp: retire_survey_def split: option.splits if_splits)
  let ?s' = "raised (s\<lparr>sw_status := Deleted_Survey, sw_deleted_at := Some (mo_clock mo)\<rparr>)"
  have "survey_row_ok st s" using survey_row_of [OF assms(2)] find_survey_Some [OF s(1)] by blast
  then have "survey_row_ok st ?s'" by (simp add: survey_row_ok_def raised_def Let_def)
  moreover consider "st' = put_survey ?s' st" | u op d where "request_deletion mo event_id s u op st = Inr (d, st')"
    using assms(1) False by (auto simp: retire_survey_def s res_simps split: option.splits if_splits)
  then show ?thesis
  proof cases
    case 1
    then show ?thesis using put_survey_advances [OF assms(2) \<open>survey_row_ok st ?s'\<close>] by simp
  next
    case 2
    then show ?thesis using assms(2)
      by (auto simp: request_deletion_def Let_def res_simps intro!: advances_same_surveys split: if_splits)
  qed
qed

section \<open>Every step\<close>

definition survives :: "int \<Rightarrow> survey_store \<Rightarrow> survey_store \<Rightarrow> bool" where
  "survives t st st' \<longleftrightarrow> set (deleted_ids st) \<subseteq> set (deleted_ids st') \<and> (\<forall>sid. kept t sid st st' \<or> erased sid st')"

lemma advances_survives: "advances z t st st' \<Longrightarrow> survey_ok z st' \<and> survives t st st'"
  by (simp add: advances_def survives_def)

lemma survey_step_survives:
  assumes "survey_step env (t, st) (t', st')" "survey_ok (en_zone env) st"
  shows "t \<le> t' \<and> survey_ok (en_zone env) st' \<and> survives t st st'"
  using assms(1)
proof cases
  case (respond mo new_id sid pid q secret a)
  from participate_effect [OF respond(1) assms(2) respond(2)]
  have "survey_ok (en_zone env) st' \<and> (\<forall>sid. kept t sid st st') \<and> ss_deletions st' = ss_deletions st"
    by (auto simp: only_responses_def)
  then show ?thesis using respond(2,3) by (simp add: survives_def)
next
  case (edit mo ids actor sid q a)
  from advances_survives [OF author_advances [OF edit(1) assms(2) edit(3)]] show ?thesis using edit(2-4) by fastforce
next
  case (settings actor change p)
  then have "ss_data st' = ss_data st" "ss_operations st' = ss_operations st" "ss_deletions st' = ss_deletions st" "ss_surveys st' = ss_surveys st"
    by (auto simp: survey_settings_def Let_def res_simps split: if_splits option.splits)
  then have "advances (en_zone env) t st st'" by (intro advances_same_surveys [OF assms(2)]) simp_all
  then show ?thesis using settings(2) advances_survives by blast
next
  case (overdue now limit free n)
  then show ?thesis using advances_survives [OF classify_overdue_advances [OF overdue(1) assms(2)]] by blast
next
  case (due now limit free n)
  then show ?thesis using advances_survives [OF close_due_advances [OF due(1) assms(2)]] by blast
next
  case (retire mo event_id started sid)
  then show ?thesis using advances_survives [OF retire_advances [OF retire(1) assms(2)]] by blast
next
  case (erase now sid event_id)
  then show ?thesis using erase_effect [OF assms(2), where t = t and now = now and sid = sid and event_id = event_id]
    unfolding survives_def by simp
next
  case (elsewhere gs acts evs invs)
  then have "advances (en_zone env) t st st'" by (intro advances_same_surveys [OF assms(2)]) simp_all
  then show ?thesis using elsewhere(2) advances_survives by blast
qed

end
