(* ===== verification/Survey_History.thy ===== *)
theory Survey_History
  imports Survey_Evolution
begin

text \<open>
  What holds through every history of the survey module: completed participations, published versions, recorded answers
  and frozen selections stay until the survey is erased; all settled selections of one filter are the same; and an account
  without raw access is only given settled ones.
\<close>

section \<open>Frozen selections\<close>

abbreviation snapshots_of :: "survey_store \<Rightarrow> stored_snapshot list" where
  "snapshots_of st \<equiv> su_snapshots (ss_data st)"

text \<open>Only one request writes a selection: the one that freezes it.\<close>

lemma record_data: "record_operation jsonb sid scope op body a st = Inr (b, st') \<Longrightarrow> ss_data st' = ss_data st"
  by (erule record_operation_Inr) simp

lemma edit_request_snapshots:
  assumes "edit_request env actor s q op edit st = Inr (a, st')"
    and "\<And>b st1. edit st = Inr (b, st1) \<Longrightarrow> snapshots_of st1 = snapshots_of st"
  shows "snapshots_of st' = snapshots_of st"
  using assms by (auto simp: edit_request_def Let_def res_simps dest!: record_data split: option.splits)

lemma recorded_survey_snapshots:
  assumes "recorded_survey env actor s q op change st = Inr (a, st')"
    and "\<And>b st1. change st = Inr (b, st1) \<Longrightarrow> snapshots_of st1 = snapshots_of st"
  shows "snapshots_of st' = snapshots_of st"
  using assms by (auto simp: recorded_survey_def Let_def res_simps dest!: record_data split: option.splits)

lemma change_invitation_snapshots:
  assumes "change_invitation env mo actor s q op n change st = Inr (a, st')"
    and "\<And>b st1. change st = Inr (b, st1) \<Longrightarrow> snapshots_of st1 = snapshots_of st"
  shows "snapshots_of st' = snapshots_of st"
  using assms by (auto simp: change_invitation_def Let_def res_simps dest!: record_data split: option.splits if_splits)

lemma draft_snapshots:
  "first_draft env sid d st = Inr (b, st') \<Longrightarrow> snapshots_of st' = snapshots_of st"
  "save_draft env sid n d st = Inr (b, st') \<Longrightarrow> snapshots_of st' = snapshots_of st"
  "publish_draft env mo vid s n st = Inr (b, st') \<Longrightarrow> snapshots_of st' = snapshots_of st"
  by (auto simp: first_draft_def save_draft_def publish_draft_def Let_def res_simps split: if_splits)

lemma survey_snapshots:
  "set_access s n mode st = Inr (r, st') \<Longrightarrow> snapshots_of st' = snapshots_of st"
  "set_timeout s n timeout st = Inr (r, st') \<Longrightarrow> snapshots_of st' = snapshots_of st"
  "schedule_end mo s n ends st = Inr (r, st') \<Longrightarrow> snapshots_of st' = snapshots_of st"
  "change_status mo s n b st = Inr (r, st') \<Longrightarrow> snapshots_of st' = snapshots_of st"
  "duplicate_survey actor s n target title st = Inr (r, st') \<Longrightarrow> snapshots_of st' = snapshots_of st"
  by (auto simp: set_access_def set_timeout_def schedule_end_def change_status_def duplicate_survey_def changed_survey_def
      Let_def res_simps split: if_splits option.splits)

lemma invitation_snapshots:
  "create_invitation env mo ids s email name days st = Inr (i, st') \<Longrightarrow> snapshots_of st' = snapshots_of st"
  "revoke_invitation mo sid text st = Inr (i, st') \<Longrightarrow> snapshots_of st' = snapshots_of st"
  by (auto simp: create_invitation_def revoke_invitation_def Let_def res_simps split: if_splits option.splits)

lemma deletion_snapshots:
  "request_deletion mo event_id s actor_id op st = Inr (d, st') \<Longrightarrow> snapshots_of st' = snapshots_of st"
  "delete_permanently mo ids actor s op n st = Inr (a, st') \<Longrightarrow> snapshots_of st' = snapshots_of st"
  "open_new_survey actor sid title def timeout action st = Inr st' \<Longrightarrow> snapshots_of st' = snapshots_of st"
  by (auto simp: request_deletion_def delete_permanently_def open_new_survey_def Let_def res_simps split: if_splits)

lemma authorized_request_snapshots:
  assumes run: "authorized_request env mo ids actor s q st = Inr (a, st')"
  shows "snapshots_of st' = snapshots_of st
    \<or> (\<exists>k op f. q = Create_Selection k op f \<and> create_selection env mo (fi_first ids) actor s k op f st = Inr (a, st'))"
proof (cases q)
  case (Create_Survey op title d timeout action)
  then have "edit_request env actor s q op (first_draft env (sw_id s) d) st = Inr (a, st')"
    using run by (auto simp: authorized_request_def draft_request_def split: if_splits)
  then show ?thesis using edit_request_snapshots draft_snapshots(1) by blast
next
  case (Save_Draft op n d)
  then have "edit_request env actor s q op (save_draft env (sw_id s) n d) st = Inr (a, st')"
    using run by (auto simp: authorized_request_def draft_request_def split: if_splits)
  then show ?thesis using edit_request_snapshots draft_snapshots(2) by blast
next
  case (Publish_Survey op n)
  then have "edit_request env actor s q op (publish_draft env mo (fi_first ids) s n) st = Inr (a, st')"
    using run by (auto simp: authorized_request_def draft_request_def split: if_splits)
  then show ?thesis using edit_request_snapshots draft_snapshots(3) by blast
next
  case (Set_Access op n mode)
  then show ?thesis using run recorded_survey_snapshots survey_snapshots(1) by (auto simp: authorized_request_def)
next
  case (Set_Timeout op n timeout)
  then show ?thesis using run recorded_survey_snapshots survey_snapshots(2)
    by (auto simp: authorized_request_def split: if_splits)
next
  case (Schedule_End op n ends)
  then show ?thesis using run recorded_survey_snapshots survey_snapshots(3) by (auto simp: authorized_request_def)
next
  case (Change_Status op n b)
  then show ?thesis using run recorded_survey_snapshots survey_snapshots(4) by (auto simp: authorized_request_def)
next
  case (Duplicate_Survey op n target title)
  then show ?thesis using run recorded_survey_snapshots survey_snapshots(5) by (auto simp: authorized_request_def)
next
  case (Create_Invitation op n email name days)
  then have "change_invitation env mo actor s q op n (create_invitation env mo ids s email name days) st = Inr (a, st')"
    using run by (simp add: authorized_request_def invitation_request_def split: if_splits)
  then have "snapshots_of st' = snapshots_of st" by (rule change_invitation_snapshots) (rule invitation_snapshots(1))
  then show ?thesis by blast
next
  case (Revoke_Invitation op n i)
  then have "change_invitation env mo actor s q op n (revoke_invitation mo (sw_id s) i) st = Inr (a, st')"
    using run by (simp add: authorized_request_def invitation_request_def split: if_splits)
  then have "snapshots_of st' = snapshots_of st" by (rule change_invitation_snapshots) (rule invitation_snapshots(2))
  then show ?thesis by blast
next
  case (Delete_Permanently op n)
  then show ?thesis using run deletion_snapshots(2) by (simp add: authorized_request_def)
next
  case (Create_Selection k op f)
  then show ?thesis using run by (auto simp: authorized_request_def selection_request_def split: if_splits)
qed (use run in \<open>auto simp: authorized_request_def invitation_request_def selection_request_def draft_request_def read_draft_def
    res_simps split: if_splits\<close>)

lemma author_snapshots:
  assumes "author env mo ids actor sid q st = Inr (a, st')"
  obtains (same) "snapshots_of st' = snapshots_of st"
    | (frozen) s k op f where "open_survey st sid = Inr s" "create_selection env mo (fi_first ids) actor s k op f st = Inr (a, st')"
  using assms
proof (cases rule: author_Inr)
  case (accepted st1 s)
  have st1: "snapshots_of st1 = snapshots_of st" using accepted(2) deletion_snapshots(3) by (auto split: author_request.splits)
  from authorized_request_snapshots [OF accepted(5)] show thesis
  proof (elim disjE exE conjE)
    assume "snapshots_of st' = snapshots_of st1"
    then show thesis using st1 same by simp
  next
    fix k op f
    assume "q = Create_Selection k op f" and c: "create_selection env mo (fi_first ids) actor s k op f st1 = Inr (a, st')"
    then have "st1 = st" using accepted(2) by simp
    then show thesis using frozen accepted(3) c by blast
  qed
qed (use same in simp)

text \<open>A selection is frozen by a step in which the clock was read before the new time.\<close>

lemma survey_step_snapshots:
  assumes "survey_step env (t, st) (t', st')"
  obtains (same) "snapshots_of st' = snapshots_of st"
    | (gone) sid where "deletion_of st' sid \<noteq> None" "snapshots_of st' = filter (\<lambda>x. st_survey_id x \<noteq> sid) (snapshots_of st)"
    | (frozen) new_id captured s f settled snapshot data where "instant captured \<le> t'"
        "create_snapshot (en_analysis env) (en_octets env) new_id captured s f settled (ss_data st) = Inr (snapshot, data)" "ss_data st' = data"
  using assms
proof cases
  case (respond mo new_id sid pid q secret a)
  have "only_responses st st'"
    using respond(1)
  proof (cases rule: participate_Inr)
    case (joined p st1)
    then have "only_responses st st1" by (auto simp: admitted_def only_responses_def)
    then show ?thesis using recorded_effect(1) [OF joined(2)] only_responses_trans by blast
  next
    case unchanged
    then show ?thesis by (simp add: only_responses_def)
  next
    case (written s hash p v p' st1 r)
    obtain n finish answers page where "write_answers (en_validator env) (en_jsonb env) mo v p n finish answers page st = Inr (p', st1)"
      using written(7) by (rule answers_written_write)
    then have "only_responses st st1" by (auto simp: write_answers_def Let_def res_simps split: if_splits)
    then show ?thesis using recorded_effect(1) [OF written(8)] only_responses_trans by blast
  qed
  then show thesis using same by (simp add: only_responses_def)
next
  case (edit mo ids actor sid q a)
  from edit(1) show thesis
  proof (cases rule: author_snapshots)
    case same': same
    then show thesis by (rule same)
  next
    case author_frozen: (frozen s k op f)
    from author_frozen(2) show thesis
    proof (cases rule: create_selection_Inr)
      case (replayed valid)
      then show thesis using same by simp
    next
      case (created valid g snapshot data)
      then have "ss_data st' = data" using record_data by fastforce
      then show thesis using frozen [OF edit(4) created(3)] by blast
    qed
  qed
next
  case (settings actor change p)
  then show thesis using same by (auto simp: survey_settings_def Let_def res_simps split: if_splits option.splits)
next
  case (overdue now limit free n)
  then show thesis using same by (auto simp: classify_overdue_def Let_def)
next
  case (due now limit free n)
  then show thesis using same by (auto simp: close_due_surveys_def Let_def)
next
  case (retire mo event_id started sid)
  then show thesis using same deletion_snapshots(1)
    by (auto simp: retire_survey_def res_simps split: option.splits if_splits)
next
  case (erase now sid event_id)
  show thesis
  proof (cases "st' = st")
    case True
    then show thesis using same by simp
  next
    case False
    then obtain d where d: "find (\<lambda>d. dl_survey_id d = sid \<and> dl_event_id d = event_id) (ss_deletions st) = Some d" "dl_completed_at d = None"
      using erase(1) by (auto simp: erase_survey_def split: option.splits if_splits)
    then have "snapshots_of st' = filter (\<lambda>x. st_survey_id x \<noteq> sid) (snapshots_of st)"
      "ss_deletions st' = update_rows (\<lambda>r. dl_survey_id r = sid) (\<lambda>r. r\<lparr>dl_completed_at := Some now\<rparr>) (ss_deletions st)"
      by (simp_all add: erase(1) erase_survey_def)
    moreover from this(2) have "deleted_ids st' = deleted_ids st" by (simp add: map_update_rows)
    moreover have "sid \<in> set (deleted_ids st)" using d(1) by (auto simp: find_Some_iff)
    ultimately show thesis using gone deletion_of_None by metis
  qed
next
  case (elsewhere gs acts evs invs)
  then show thesis using same by simp
qed

section \<open>Histories\<close>

lemma kept_or_deleted:
  assumes "survey_history env x y" "survey_ok (en_zone env) (snd x)"
  shows "fst x \<le> fst y \<and> survey_ok (en_zone env) (snd y) \<and> set (deleted_ids (snd x)) \<subseteq> set (deleted_ids (snd y))
    \<and> (\<forall>sid. deletion_of (snd y) sid = None \<longrightarrow> kept (fst x) sid (snd x) (snd y)
        \<and> prefix (filter (\<lambda>s. st_survey_id s = sid) (snapshots_of (snd x))) (filter (\<lambda>s. st_survey_id s = sid) (snapshots_of (snd y))))"
  using assms
proof (induction rule: survey_history.induct)
  case (start x)
  then show ?case by simp
next
  case (step x y z)
  obtain t st t' st' where y: "y = (t, st)" "z = (t', st')" by (cases y, cases z)
  have before: "fst x \<le> t" "survey_ok (en_zone env) st" "set (deleted_ids (snd x)) \<subseteq> set (deleted_ids st)"
    "\<And>sid. deletion_of st sid = None \<Longrightarrow> kept (fst x) sid (snd x) st"
    "\<And>sid. deletion_of st sid = None \<Longrightarrow>
      prefix (filter (\<lambda>s. st_survey_id s = sid) (snapshots_of (snd x))) (filter (\<lambda>s. st_survey_id s = sid) (snapshots_of st))"
    using step by (simp_all add: y)
  have one: "survey_step env (t, st) (t', st')" using step.hyps(2) by (simp add: y)
  have after: "t \<le> t'" "survey_ok (en_zone env) st'" "set (deleted_ids st) \<subseteq> set (deleted_ids st')"
    "\<And>sid. kept t sid st st' \<or> erased sid st'"
    using survey_step_survives [OF one before(2)] by (simp_all add: survives_def)
  have "kept (fst x) sid (snd x) st' \<and>
      prefix (filter (\<lambda>s. st_survey_id s = sid) (snapshots_of (snd x))) (filter (\<lambda>s. st_survey_id s = sid) (snapshots_of st'))"
    if live: "deletion_of st' sid = None" for sid
  proof -
    have old: "deletion_of st sid = None" using live after(3) by (auto simp: deletion_of_None)
    have "kept t sid st st'" using after(4) [of sid] live by (auto simp: erased_def)
    with before(4) [OF old] have k: "kept (fst x) sid (snd x) st'" by (rule kept_trans) (rule before(1))
    from one have "prefix (filter (\<lambda>s. st_survey_id s = sid) (snapshots_of st)) (filter (\<lambda>s. st_survey_id s = sid) (snapshots_of st'))"
    proof (cases rule: survey_step_snapshots)
      case same
      then show ?thesis by simp
    next
      case (gone u)
      then have "sid \<noteq> u" using live by auto
      then have "filter (\<lambda>s. st_survey_id s = sid) (snapshots_of st') = filter (\<lambda>s. st_survey_id s = sid) (snapshots_of st)"
        unfolding gone(2) filter_filter by (intro filter_cong) auto
      then show ?thesis by simp
    next
      case (frozen new_id captured s f settled snapshot data)
      from create_snapshot_stored [OF frozen(2)] obtain w where "data = (ss_data st)\<lparr>su_snapshots := snapshots_of st @ [w]\<rparr>" .
      then show ?thesis by (simp add: frozen(3))
    qed
    then show ?thesis using k before(5) [OF old] prefix_order.trans by blast
  qed
  then show ?case using before(1,3) after(1-3) by (simp add: y)
qed

section \<open>One selection for one filter\<close>

text \<open>
  What the IANA data guarantee: the midnight a local day begins with is not later than any moment of that day.
\<close>

definition midnight_first :: "tz \<Rightarrow> bool" where
  "midnight_first z \<longleftrightarrow> (\<forall>moment day start. local_day z moment = Inr day \<longrightarrow> local_midnight z day = Inr start \<longrightarrow> instant start \<le> instant moment)"

lemma midnight_first_fixed: "midnight_first (fixed_zone off)"
  unfolding midnight_first_def
proof (intro allI impI)
  fix moment day start
  assume "local_day (fixed_zone off) moment = Inr day" and "local_midnight (fixed_zone off) day = Inr start"
  then have "date_of_wall (instant moment + off) = day" and "start = utc (instant (DateTime (midnight day) (Some off)))"
    by (simp_all add: local_day_Inr local_midnight_def fixed_zone_def to_utc_Inr)
  moreover have "instant (DateTime (midnight day) (Some off)) = midnight day - off" by (simp add: instant_def)
  moreover have "instant (utc u) = u" for u by (simp add: instant_def utc_def)
  ultimately have "date_of_wall (instant moment + off) = day" "instant start = midnight day - off" by simp_all
  then show "instant start \<le> instant moment" using date_of_wall_iff [of "instant moment + off" day] by simp
qed

text \<open>The survey's data without its snapshots.\<close>

definition bare :: "survey_store \<Rightarrow> survey_db" where
  "bare st = (ss_data st)\<lparr>su_snapshots := []\<rparr>"

text \<open>
  A settled selection can be frozen again, with the same outcome, from what the tables hold now; its end lies before now.
\<close>

definition traced :: "survey_env \<Rightarrow> int \<Rightarrow> survey_store \<Rightarrow> stored_snapshot \<Rightarrow> bool" where
  "traced env t st x \<longleftrightarrow>
     (\<forall>e. optional_moment (af_created_before (sn_filter (st_payload x))) = Inr (Some e) \<longrightarrow> instant e \<le> t)
     \<and> (\<exists>s data. sw_id s = st_survey_id x
       \<and> create_snapshot (en_analysis env) (en_octets env) (st_id x) (st_created_at x) s (sn_filter (st_payload x)) True (bare st)
           = Inr (st_payload x, data)
       \<and> st_private (last (su_snapshots data)) = st_private x)"

lemma find_version_filtered:
  "find_version db sid text = (case parse_uuid text of None \<Rightarrow> Inl Value_Error
     | Some u \<Rightarrow> Inr (find (\<lambda>v. vr_id v = u) (filter (\<lambda>v. vr_survey_id v = sid) (su_versions db))))"
proof -
  have "find (\<lambda>v. vr_survey_id v = sid \<and> vr_id v = u) vs = find (\<lambda>v. vr_id v = u) (filter (\<lambda>v. vr_survey_id v = sid) vs)" for u and vs :: "version_row list"
    by (induction vs) auto
  then show ?thesis by (simp add: find_version_def split: option.splits)
qed

lemma find_prefix: "prefix xs ys \<Longrightarrow> find P xs = Some x \<Longrightarrow> find P ys = Some x"
proof -
  assume found: "find P xs = Some x" and "prefix xs ys"
  then obtain zs where "ys = xs @ zs" by (auto simp: prefix_def)
  moreover have "find P (xs @ zs) = Some x" using found by (induction xs) (auto split: if_splits)
  ultimately show ?thesis by simp
qed

lemma find_version_prefix:
  assumes "prefix (filter (\<lambda>v. vr_survey_id v = sid) (su_versions db)) (filter (\<lambda>v. vr_survey_id v = sid) (su_versions db'))"
    and "find_version db sid text = Inr (Some v)"
  shows "find_version db' sid text = Inr (Some v)"
  using assms find_prefix by (fastforce simp: find_version_filtered split: option.splits)

text \<open>Freezing again what was frozen, from tables with the same finished participations.\<close>

lemma frozen_again:
  assumes run: "create_snapshot service octets u made s f True db = Inr (snapshot, after)"
    and versions: "prefix (filter (\<lambda>v. vr_survey_id v = sw_id s) (su_versions db)) (filter (\<lambda>v. vr_survey_id v = sw_id s) (su_versions db'))"
    and ids: "distinct (map pa_id (su_participations db))"
    and settled: "\<And>e. optional_moment (af_created_before f) = Inr (Some e) \<Longrightarrow>
      filter (finished_in (sw_id s) e) (su_participations db') = filter (finished_in (sw_id s) e) (su_participations db)"
    and other: "sw_id s' = sw_id s" "u' \<notin> st_id ` set (su_snapshots db')"
  obtains after' where "create_snapshot service octets u' made' s' f True db'
      = Inr (snapshot\<lparr>sn_id := uuid_str u', sn_created_at := iso_datetime made'\<rparr>, after')"
    "st_private (last (su_snapshots after')) = st_private (last (su_snapshots after))"
proof -
  obtain v where "find_version db (sw_id s) (af_version_id f) = Inr (Some v)" using run unfolding create_snapshot_Inr by blast
  then have "find_version db' (sw_id s) (af_version_id f) = find_version db (sw_id s) (af_version_id f)"
    using find_version_prefix [OF versions] by simp
  from settled_stable [OF run other(1) this ids _ other(2), of made'] settled show thesis using that by auto
qed

lemma traced_kept:
  assumes tr: "traced env t st x" and k: "kept t (st_survey_id x) st st'" and t: "t \<le> t'"
    and ids: "distinct (map pa_id (participations_of st))"
  shows "traced env t' st' x"
proof -
  let ?f = "sn_filter (st_payload x)"
  obtain s data where s: "sw_id s = st_survey_id x"
    "create_snapshot (en_analysis env) (en_octets env) (st_id x) (st_created_at x) s ?f True (bare st) = Inr (st_payload x, data)"
    "st_private (last (su_snapshots data)) = st_private x"
    and e: "\<And>e. optional_moment (af_created_before ?f) = Inr (Some e) \<Longrightarrow> instant e \<le> t"
    using tr by (auto simp: traced_def)
  have ids': "distinct (map pa_id (su_participations (bare st)))" using ids by (simp add: bare_def)
  from s(2) obtain data0 where again: "create_snapshot (en_analysis env) (en_octets env) (st_id x) (st_created_at x) s ?f True (bare st)
      = Inr ((st_payload x)\<lparr>sn_id := uuid_str (st_id x), sn_created_at := iso_datetime (st_created_at x)\<rparr>, data0)"
    by (rule frozen_again [where db' = "bare st", OF _ _ ids']) (simp_all add: bare_def)
  have same: "(st_payload x)\<lparr>sn_id := uuid_str (st_id x), sn_created_at := iso_datetime (st_created_at x)\<rparr> = st_payload x"
    using again s(2) by simp
  have "\<And>e. optional_moment (af_created_before ?f) = Inr (Some e) \<Longrightarrow>
      filter (finished_in (sw_id s) e) (su_participations (bare st')) = filter (finished_in (sw_id s) e) (su_participations (bare st))"
    using k e s(1) by (simp add: kept_def bare_def)
  then obtain data' where "create_snapshot (en_analysis env) (en_octets env) (st_id x) (st_created_at x) s ?f True (bare st')
      = Inr (st_payload x, data')" "st_private (last (su_snapshots data')) = st_private x"
    using frozen_again [where db' = "bare st'" and s' = s and u' = "st_id x" and made' = "st_created_at x", OF s(2) _ ids']
      k s(1,3) by (auto simp: kept_def bare_def same)
  then show ?thesis using s(1) e t by (fastforce simp: traced_def)
qed

lemma new_traced:
  assumes run: "create_snapshot (en_analysis env) (en_octets env) u made s f True (ss_data st) = Inr (snapshot, data)"
    and st': "ss_data st' = data" and ok: "survey_ok (en_zone env) st" "survey_ok (en_zone env) st'"
    and first: "midnight_first (en_zone env)" and time: "instant made \<le> t'"
  shows "traced env t' st' (last (su_snapshots data))"
proof -
  from create_snapshot_stored [OF run] obtain x where x: "data = (ss_data st)\<lparr>su_snapshots := snapshots_of st @ [x]\<rparr>"
    "st_payload x = snapshot" "st_id x = u" "st_survey_id x = sw_id s" "st_created_at x = made" "sn_filter snapshot = f"
    "sn_policy snapshot = Settled" by simp metis
  have last: "last (su_snapshots data) = x" and stored: "x \<in> set (snapshots_of st')" by (simp_all add: x(1) st')
  have "distinct (map pa_id (participations_of st))" using ok(1) by (simp add: survey_ok_def rows_ok_def)
  from run obtain data' where again: "create_snapshot (en_analysis env) (en_octets env) u made s f True (bare st')
      = Inr (snapshot\<lparr>sn_id := uuid_str u, sn_created_at := iso_datetime made\<rparr>, data')"
    "st_private (last (su_snapshots data')) = st_private (last (su_snapshots data))"
    by (rule frozen_again [where db' = "bare st'" and s' = s and u' = u and made' = made, OF _ _ \<open>distinct _\<close>])
      (simp_all add: bare_def st' x(1))
  from run obtain data0 where "create_snapshot (en_analysis env) (en_octets env) u made s f True (bare st)
      = Inr (snapshot\<lparr>sn_id := uuid_str u, sn_created_at := iso_datetime made\<rparr>, data0)"
    by (rule frozen_again [where db' = "bare st" and s' = s and u' = u and made' = made, OF _ _ \<open>distinct _\<close>])
      (simp_all add: bare_def)
  have same: "snapshot\<lparr>sn_id := uuid_str u, sn_created_at := iso_datetime made\<rparr> = snapshot"
  proof -
    obtain v where "freeze_version (en_analysis env) (en_octets env) u made s f True v (ss_data st) = Inr (snapshot, data)"
      using run unfolding create_snapshot_Inr by blast
    then show ?thesis
    proof (rule freeze_version_Inr)
      fix since before rows questions deps
      assume "analysis_snapshot_init (snapshot_of u s made f True v
         (\<lambda>k. int (length (filter (\<lambda>p. effective_status made (closed_at s made) p = k)
            (filter (in_scope (sw_id s) (vr_id v) (af_is_test f) since before True) (participations_of st)))))
         rows questions deps) = Inr snapshot"
      from snapshot_moved(1) [OF this refl] show ?thesis by (simp add: snapshot_of_def)
    qed
  qed
  have "settled_range (en_zone env) f made" using ok(2) stored x(2,5,6,7) by (auto simp: survey_ok_def snapshot_ok_def)
  then obtain m day midnight now today start where m: "optional_moment (af_created_before f) = Inr (Some m)"
    "local_day (en_zone env) now = Inr today" "local_midnight (en_zone env) today = Inr start"
    "instant m \<le> instant start" "instant now \<le> instant made" unfolding settled_range_def by blast
  have "instant start \<le> instant now" using first m(2,3) by (auto simp: midnight_first_def)
  then have "instant m \<le> t'" using m(4,5) time by simp
  then show ?thesis
    unfolding last traced_def using again m(1) x(2-6) by (auto simp: same last)
qed

lemma history_traced:
  assumes "survey_history env x y" "survey_ok (en_zone env) (snd x)" "snapshots_of (snd x) = []" "midnight_first (en_zone env)"
  shows "\<forall>w \<in> set (snapshots_of (snd y)). sn_policy (st_payload w) = Settled \<longrightarrow> traced env (fst y) (snd y) w"
  using assms
proof (induction rule: survey_history.induct)
  case (start x)
  then show ?case by simp
next
  case (step x y z)
  obtain t st t' st' where y: "y = (t, st)" "z = (t', st')" by (cases y, cases z)
  have old: "traced env t st w" if "w \<in> set (snapshots_of st)" "sn_policy (st_payload w) = Settled" for w
    using step.IH [OF step.prems] that by (simp add: y)
  have ok: "survey_ok (en_zone env) st" using kept_or_deleted [OF step.hyps(1) step.prems(1)] by (simp add: y)
  have one: "survey_step env (t, st) (t', st')" using step.hyps(2) by (simp add: y)
  have after: "t \<le> t'" "survey_ok (en_zone env) st'" "\<And>sid. kept t sid st st' \<or> erased sid st'"
    using survey_step_survives [OF one ok] by (simp_all add: survives_def)
  have stays: "traced env t' st' w" if "w \<in> set (snapshots_of st)" "w \<in> set (snapshots_of st')" "sn_policy (st_payload w) = Settled" for w
  proof -
    have "kept t (st_survey_id w) st st'" using after(3) [of "st_survey_id w"] that(2) by (auto simp: erased_def)
    then show ?thesis using ok
      by (intro traced_kept [OF old [OF that(1,3)] _ after(1)]) (simp_all add: survey_ok_def rows_ok_def)
  qed
  have "\<forall>w \<in> set (snapshots_of st'). sn_policy (st_payload w) = Settled \<longrightarrow> traced env t' st' w"
    using one
  proof (cases rule: survey_step_snapshots)
    case same
    then show ?thesis using stays by simp
  next
    case (gone sid)
    then show ?thesis using stays by simp
  next
    case (frozen u made s f settled snapshot data)
    from create_snapshot_stored [OF frozen(2)] obtain x where x: "data = (ss_data st)\<lparr>su_snapshots := snapshots_of st @ [x]\<rparr>"
      "st_payload x = snapshot" "sn_policy snapshot = (if settled then Settled else Reader)" by metis
    have "traced env t' st' x" if "sn_policy (st_payload x) = Settled"
    proof -
      have settled using that x(2,3) by (auto split: if_splits)
      then show ?thesis using new_traced [OF _ frozen(3) ok after(2) step.prems(3) frozen(1)] frozen(2) x(1) by fastforce
    qed
    then show ?thesis using stays by (auto simp: frozen(3) x(1))
  qed
  then show ?case by (simp add: y)
qed

lemma traced_equal:
  assumes x: "traced env t st x" and y: "traced env t st y" and same: "st_survey_id x = st_survey_id y"
    "sn_filter (st_payload x) = sn_filter (st_payload y)" and ids: "distinct (map pa_id (participations_of st))"
  shows "st_payload y = (st_payload x)\<lparr>sn_id := uuid_str (st_id y), sn_created_at := iso_datetime (st_created_at y)\<rparr>
    \<and> st_private y = st_private x"
proof -
  obtain s data where s: "sw_id s = st_survey_id x"
    "create_snapshot (en_analysis env) (en_octets env) (st_id x) (st_created_at x) s (sn_filter (st_payload x)) True (bare st) = Inr (st_payload x, data)"
    "st_private (last (su_snapshots data)) = st_private x" using x by (auto simp: traced_def)
  obtain s' data' where s': "sw_id s' = st_survey_id y"
    "create_snapshot (en_analysis env) (en_octets env) (st_id y) (st_created_at y) s' (sn_filter (st_payload y)) True (bare st) = Inr (st_payload y, data')"
    "st_private (last (su_snapshots data')) = st_private y" using y by (auto simp: traced_def)
  from s(2) obtain after' where "create_snapshot (en_analysis env) (en_octets env) (st_id y) (st_created_at y) s' (sn_filter (st_payload x)) True (bare st)
      = Inr ((st_payload x)\<lparr>sn_id := uuid_str (st_id y), sn_created_at := iso_datetime (st_created_at y)\<rparr>, after')"
    "st_private (last (su_snapshots after')) = st_private (last (su_snapshots data))"
    by (rule frozen_again [where db' = "bare st" and s' = s' and u' = "st_id y" and made' = "st_created_at y"])
      (simp_all add: bare_def ids s(1) s'(1) same(1))
  then show ?thesis unfolding same(2) s'(2) s'(3) [symmetric] s(3) [symmetric] by simp
qed

section \<open>Who is shown what\<close>

lemma find_SomeD: "find P xs = Some x \<Longrightarrow> x \<in> set xs \<and> P x"
  by (auto simp: find_Some_iff)

lemma replayed_settled:
  assumes ok: "survey_ok z st"
    and replay: "replay_operation st sid scope op body = Inr (Some (Analysis_State x))"
    and stored: "then_res (answer_id (Analysis_State x)) (\<lambda>text. stored_settled sid text can_test st) = Inr ()"
  shows "sn_policy x = Settled \<and> (\<exists>w \<in> set (snapshots_of st). st_survey_id w = sid \<and> st_payload w = x)"
proof -
  obtain o' where "o' \<in> set (ss_operations st)" "so_survey_id o' = sid" "so_response o' = Analysis_State x"
    using replay by (auto simp: replay_operation_def res_simps dest!: find_SomeD split: option.splits if_splits)
  then obtain w where w: "w \<in> set (snapshots_of st)" "st_survey_id w = sid" "st_payload w = x"
    using ok by (fastforce simp: survey_ok_def answers_ok_def)
  have id: "sn_id x = uuid_str (st_id w)" using ok w(1,3) by (auto simp: survey_ok_def snapshot_ok_def)
  then obtain v where v: "find (\<lambda>y. st_survey_id y = sid \<and> st_id y = st_id w) (snapshots_of st) = Some v" "sn_policy (st_payload v) = Settled"
    using stored by (auto simp: answer_id_def stored_settled_def read_snapshot_def parse_uuid_str res_simps analysis_snapshot_init_def
        split: option.splits if_splits)
  then have "v \<in> set (snapshots_of st)" "st_id v = st_id w" by (auto dest: find_SomeD)
  moreover have "distinct (map st_id (snapshots_of st))" using ok by (simp add: survey_ok_def rows_ok_def)
  ultimately have "v = w" using distinct_unique w(1) by metis
  then show ?thesis using v(2) w by blast
qed

section \<open>Properties\<close>

text \<open>
  C11: What was answered, published and frozen stays.  Through every history of requests of respondents and authors,
  sweeps, retention and erasures (each an atomic step, the clock not running backwards) the tables keep their invariant (versions of a
  survey numbered from 1 without a gap and the published one the last, every snapshot valid, distinct identifiers), and of
  every survey whose erasure was not requested every completed participation is kept as it is, those completed before a moment
  not later than the start are exactly those then, and the versions, the recorded answers and the frozen selections there were are a
  prefix of those there are.
\<close>
theorem survey_history_keeps:
  assumes "survey_ok (en_zone env) st" "survey_history env (t, st) (t', st')"
  shows "t \<le> t' \<and> survey_ok (en_zone env) st' \<and> (\<forall>sid. deletion_of st' sid = None \<longrightarrow>
      {p \<in> set (participations_of st). pa_survey_id p = sid \<and> pa_status p = Completed} \<subseteq> set (participations_of st')
    \<and> (\<forall>e. instant e \<le> t \<longrightarrow>
        filter (finished_in sid e) (participations_of st') = filter (finished_in sid e) (participations_of st))
    \<and> prefix (versions_in sid st) (versions_in sid st') \<and> prefix (operations_in sid st) (operations_in sid st')
    \<and> prefix (filter (\<lambda>x. st_survey_id x = sid) (snapshots_of st)) (filter (\<lambda>x. st_survey_id x = sid) (snapshots_of st')))"
proof -
  note h = kept_or_deleted [OF assms(2), unfolded fst_conv snd_conv, OF assms(1)]
  have "{p \<in> set (participations_of st). pa_survey_id p = sid \<and> pa_status p = Completed} = set (filter (completed_in sid) (participations_of st))" for sid
    by (auto simp: completed_in_def)
  then show ?thesis using h by (simp add: kept_def)
qed

text \<open>
  C9: One settled selection for one filter.  Start with tables without frozen selections, in a zone whose days begin with
  their midnight.  After any history any two settled selections of a survey with the same filter are the same but for
  identifier and time, down to the private answers behind them: whatever was answered, completed or published
  between them, and whoever asked, nothing can be learned from their difference.
\<close>
theorem settled_selections_agree:
  assumes "survey_ok (en_zone env) st0" "snapshots_of st0 = []" "midnight_first (en_zone env)"
    and "survey_history env (t0, st0) (t, st)"
    and "x \<in> set (snapshots_of st)" "y \<in> set (snapshots_of st)" "st_survey_id x = st_survey_id y"
    and "sn_policy (st_payload x) = Settled" "sn_policy (st_payload y) = Settled"
    and "sn_filter (st_payload x) = sn_filter (st_payload y)"
  shows "st_payload y = (st_payload x)\<lparr>sn_id := uuid_str (st_id y), sn_created_at := iso_datetime (st_created_at y)\<rparr>
    \<and> st_private y = st_private x"
proof -
  have traced: "traced env t st w" if "w \<in> set (snapshots_of st)" "sn_policy (st_payload w) = Settled" for w
    using history_traced [OF assms(4)] assms(1-3) that by simp
  have "distinct (map pa_id (participations_of st))"
    using kept_or_deleted [OF assms(4)] assms(1) by (simp add: survey_ok_def rows_ok_def)
  then show ?thesis using traced_equal [OF traced traced assms(7,10)] assms(5,6,8,9) by blast
qed

text \<open>
  C10: An account without raw access is only given settled aggregates.  If a request for aggregates of a survey, to read
  or to freeze a selection, also one repeated that was first made with more access, answers an account that may
  neither read responses nor export them, the answer is a settled selection stored for this survey: its
  filter takes completed participations only and ends with a local midnight, not later than the beginning of the local day of
  a moment at or before its creation.
\<close>
theorem aggregates_settled:
  assumes "survey_ok (en_zone env) st" "instant (mo_clock mo) \<le> instant (mo_captured mo)"
    and "author env mo ids actor sid q st = Inr (Analysis_State x, st')"
    and "(\<exists>text. q = Get_Analysis text \<or> q = Get_Response_Aggregates text) \<or> (\<exists>k op f. q = Create_Selection k op f)"
    and "open_survey st sid = Inr s" "\<not> raw_access (capabilities_of st s actor)"
  shows "sn_policy x = Settled \<and> (\<exists>w \<in> set (snapshots_of st'). st_survey_id w = sid \<and> st_payload w = x
    \<and> settled_range (en_zone env) (sn_filter x) (st_created_at w))"
proof -
  have ok': "survey_ok (en_zone env) st'" using author_advances [OF assms(3,1,2)] by (simp add: advances_def)
  have sid: "sw_id s = sid" using open_survey_Inr [OF assms(5)] by blast
  have "required_capability (capabilities_of st s actor) q \<in> set (capabilities_of st s actor)"
    and run: "selection_request env mo ids actor s q st = Inr (Analysis_State x, st')"
    using assms(3-5) by (auto simp: author_def authorized_request_def res_simps Let_def split: if_splits option.splits)
  then have "(\<exists>text. q = Get_Analysis text) \<or> (\<exists>k op f. q = Create_Selection k op f \<and> k \<noteq> For_Responses)"
    using assms(4,6) by (auto simp: required_capability_def raw_access_def split: selection_kind.splits)
  then have "sn_policy x = Settled \<and> (\<exists>w \<in> set (snapshots_of st'). st_survey_id w = sid \<and> st_payload w = x)"
  proof (elim disjE exE conjE)
    fix tx
    assume "q = Get_Analysis tx"
    then have "st' = st" and "get_analysis actor s tx st = Inr x"
      using run by (auto simp: selection_request_def res_simps split: if_splits)
    moreover obtain u where "read_snapshot sid u (Design \<in> set (capabilities_of st s actor)) (ss_data st) = Inr x" "sn_policy x = Settled"
      using calculation(2) assms(6) by (auto simp: get_analysis_def Let_def sid res_simps split: option.splits if_splits)
    moreover from calculation(3) obtain w where "find (\<lambda>x. st_survey_id x = sid \<and> st_id x = u) (snapshots_of st) = Some w" "st_payload w = x"
      by (auto simp: read_snapshot_def res_simps analysis_snapshot_init_def split: option.splits if_splits)
    ultimately show ?thesis by (auto dest: find_SomeD)
  next
    fix k op f
    assume q: "q = Create_Selection k op f" "k \<noteq> For_Responses"
    then have "create_selection env mo (fi_first ids) actor s k op f st = Inr (Analysis_State x, st')"
      using run by (auto simp: selection_request_def split: if_splits)
    then show ?thesis
    proof (cases rule: create_selection_Inr)
      case (replayed valid)
      have "then_res (answer_id (Analysis_State x)) (\<lambda>text. stored_settled sid text (Design \<in> set (capabilities_of st s actor)) st) = Inr ()"
        using replayed(4) q(2) assms(6) sid by simp
      with replayed(2) show ?thesis using replayed_settled [OF assms(1) replayed(3)] sid by simp
    next
      case (created valid g snapshot data)
      from create_snapshot_stored [OF created(3)] obtain w where w: "data = (ss_data st)\<lparr>su_snapshots := snapshots_of st @ [w]\<rparr>"
        "st_payload w = snapshot" "st_survey_id w = sw_id s" "sn_policy snapshot = (if settled_only st s actor k then Settled else Reader)"
        by metis
      have "selection_answer k snapshot = Analysis_State x" "ss_data st' = data"
        using created(5) by (auto elim: record_operation_Inr)
      moreover from this(1) have "snapshot = x" by (cases k) (simp_all add: selection_answer_def)
      ultimately show ?thesis using w q(2) assms(6) sid by auto
    qed
  qed
  then show ?thesis using ok' by (auto simp: survey_ok_def snapshot_ok_def)
qed

section \<open>The properties at a concrete survey\<close>

text \<open>A survey with one completed participation, and an account that may view its aggregates and nothing else.\<close>

definition sample_survey_env :: survey_env where
  "sample_survey_env = \<lparr>en_analysis = choice_service, en_validator = (\<lambda>_. None), en_jsonb = Inr, en_octets = (\<lambda>_. 0),
     en_zone = fixed_zone 0, en_seal = None\<rparr>"

definition sample_survey_store :: survey_store where
  "sample_survey_store = \<lparr>ss_surveys = [sample_survey_row], ss_drafts = [], ss_data = sample_survey_db [],
     ss_grants = [(1, 5, View_Aggregates)], ss_invitations = [], ss_operations = [], ss_deletions = [], ss_events = [],
     ss_policy = \<lparr>sy_timeout_seconds = 1800, sy_ended_retention = None, sy_trash_retention = None, sy_configured_by = None,
       sy_revision = 1\<rparr>, ss_policy_operations = [], ss_action_ids = []\<rparr>"

definition sample_viewer :: identity_principal where
  "sample_viewer = \<lparr>ip_account = sample_account Active_Account, ip_global_roles = {}, ip_action_memberships = []\<rparr>"

definition sample_times :: moments where
  "sample_times = \<lparr>mo_app = utc (2 * day_us), mo_started = utc (2 * day_us), mo_clock = utc (2 * day_us), mo_captured = utc (2 * day_us)\<rparr>"

lemma sample_store_ok: "survey_ok (en_zone sample_survey_env) sample_survey_store"
  by (simp add: survey_ok_def rows_ok_def answers_ok_def versions_ok_def numbered_versions_def survey_row_ok_def
      sample_survey_store_def sample_survey_db_def sample_survey_row_def)

lemma sample_viewer_capabilities:
  assumes "ss_grants st = [(1, 5, View_Aggregates)]"
  shows "capabilities_of st sample_survey_row sample_viewer = [View_Aggregates]"
  using assms
  by (simp add: capabilities_of_def survey_capabilities_def access_capabilities_def may_access_survey_def grants_of_def
      sample_survey_row_def sample_viewer_def sample_account_def can_authenticate_def is_system_admin_def)

lemma sample_filter_accepted: "analysis_filter_init sample_day_filter = Inr sample_day_filter"
  by code_simp

lemma sample_filter_settled: "settled_filter (fixed_zone 0) (utc (2 * day_us)) sample_day_filter = Inr sample_day_filter"
  by code_simp

lemma sample_bodies:
  "\<exists>bs. then_res (encoded (selection_body (lit ''a'') sample_day_filter)) encode_utf8 = Inr bs"
  "\<exists>bs. then_res (encoded (selection_body (lit ''b'') sample_day_filter)) encode_utf8 = Inr bs"
  by (rule exI, code_simp)+

lemma sample_digest: "op \<in> {lit ''a'', lit ''b''} \<Longrightarrow> \<exists>h. request_digest (selection_body op sample_day_filter) = Inr h"
  using sample_bodies by (auto simp: request_digest_def digest_def res_simps)

text \<open>The account freezes a selection, as often as it likes.\<close>

definition sample_stage :: "survey_store \<Rightarrow> bool" where
  "sample_stage st \<longleftrightarrow> bare st = sample_survey_db [] \<and> ss_surveys st = [sample_survey_row] \<and> ss_deletions st = []
     \<and> ss_grants st = [(1, 5, View_Aggregates)]"

definition sample_ask :: "pystr \<Rightarrow> uuid \<Rightarrow> survey_store \<Rightarrow> (survey_answer \<times> survey_store) res" where
  "sample_ask op u st = author sample_survey_env sample_times \<lparr>fi_first = u, fi_second = 0, fi_token = []\<rparr> sample_viewer 1
     (Create_Selection For_Analysis op sample_day_filter) st"

lemma sample_selected:
  assumes st: "sample_stage st" and new: "u \<notin> st_id ` set (snapshots_of st)" "\<forall>o' \<in> set (ss_operations st). so_operation_id o' \<noteq> op"
    and op: "op \<in> {lit ''a'', lit ''b''}"
  obtains x w st' where "sample_ask op u st = Inr (Analysis_State x, st')" "snapshots_of st' = snapshots_of st @ [w]" "st_id w = u"
    "st_survey_id w = 1" "sn_policy (st_payload w) = Settled" "sn_filter (st_payload w) = sample_day_filter"
    "sample_stage st'" "\<exists>o'. ss_operations st' = ss_operations st @ [o'] \<and> so_operation_id o' = op"
proof -
  obtain snapshot0 data0 where frozen: "create_snapshot choice_service (\<lambda>_. 0) 9 (utc (2 * day_us)) sample_survey_row sample_day_filter True
    (sample_survey_db []) = Inr (snapshot0, data0)" using sample_frozen by blast
  have stage: "bare st = sample_survey_db []" "ss_surveys st = [sample_survey_row]" "ss_deletions st = []" "ss_grants st = [(1, 5, View_Aggregates)]"
    using st by (simp_all add: sample_stage_def)
  have same: "participations_of st = su_participations (sample_survey_db [])" "su_versions (ss_data st) = su_versions (sample_survey_db [])"
    by (simp_all add: stage(1) [symmetric] bare_def)
  from frozen obtain x data where run: "create_snapshot choice_service (\<lambda>_. 0) u (utc (2 * day_us)) sample_survey_row sample_day_filter True (ss_data st)
      = Inr (x, data)"
    by (rule frozen_again [where db' = "ss_data st" and s' = sample_survey_row and u' = u and made' = "utc (2 * day_us)"])
      (use same new(1) in \<open>auto simp: sample_survey_db_def\<close>)
  from create_snapshot_stored [OF run] obtain w where w: "data = (ss_data st)\<lparr>su_snapshots := snapshots_of st @ [w]\<rparr>" "st_payload w = x" "st_id w = u"
    "st_survey_id w = sw_id sample_survey_row" "sn_filter x = sample_day_filter" "sn_policy x = Settled" by simp metis
  obtain hash where hash: "request_digest (selection_body op sample_day_filter) = Inr hash" using sample_digest [OF op] by blast
  define o' where "o' = \<lparr>so_survey_id = 1, so_scope = author_scope sample_viewer ''analysis-create'', so_operation_id = op,
     so_request_hash = hash, so_response = Analysis_State x\<rparr>"
  let ?st' = "st\<lparr>ss_data := data, ss_operations := ss_operations st @ [o']\<rparr>"
  have fresh: "replay_operation st 1 (author_scope sample_viewer ''analysis-create'') op (selection_body op sample_day_filter) = Inr None"
  proof -
    have "find (\<lambda>o'. so_survey_id o' = 1 \<and> so_scope o' = author_scope sample_viewer ''analysis-create'' \<and> so_operation_id o' = op) (ss_operations st) = None"
      using new(2) by (auto simp: find_None_iff)
    then show ?thesis by (simp add: replay_operation_def)
  qed
  have row: "sw_id sample_survey_row = 1" "sw_status sample_survey_row = Active_Survey" by (simp_all add: sample_survey_row_def)
  have env: "en_zone sample_survey_env = fixed_zone 0" "en_analysis sample_survey_env = choice_service" "en_octets sample_survey_env = (\<lambda>_. 0)"
    "mo_clock sample_times = utc (2 * day_us)" "mo_captured sample_times = utc (2 * day_us)" "en_jsonb sample_survey_env = Inr"
    by (simp_all add: sample_survey_env_def sample_times_def)
  have "create_selection sample_survey_env sample_times u sample_viewer sample_survey_row For_Analysis op sample_day_filter st
      = Inr (Analysis_State x, ?st')"
    using run fresh hash
    by (simp add: create_selection_def Let_def sample_viewer_capabilities [OF stage(4)] raw_access_def sample_filter_accepted env
        sample_filter_settled create_operation_def row record_operation_def stored_answer_def selection_answer_def o'_def)
      (simp add: sample_day_filter_def)
  then have "sample_ask op u st = Inr (Analysis_State x, ?st')"
    by (simp add: sample_ask_def author_def deletion_of_def stage(2,3) open_survey_def find_survey_def row authorized_request_def selection_request_def
        sample_viewer_capabilities [OF stage(4)] required_capability_def)
  moreover have "sample_stage ?st'" using stage by (simp add: sample_stage_def bare_def w(1))
  ultimately show thesis using w row by (intro that) (auto simp: o'_def)
qed

theorem survey_history_keeps_witness:
  "\<exists>st. survey_history sample_survey_env (0, sample_survey_store) (2 * day_us, st) \<and> length (snapshots_of st) = 1
     \<and> sample_participation 3 5 7 ''ja'' \<in> set (participations_of st)"
proof -
  have stage: "sample_stage sample_survey_store"
    by (simp add: sample_stage_def bare_def sample_survey_store_def sample_survey_db_def)
  have none: "snapshots_of sample_survey_store = []" "ss_operations sample_survey_store = []" "ss_deletions sample_survey_store = []"
    "sample_participation 3 5 7 ''ja'' \<in> set (participations_of sample_survey_store)"
    by (simp_all add: sample_survey_store_def sample_survey_db_def)
  obtain x w st where run: "sample_ask (lit ''a'') 9 sample_survey_store = Inr (Analysis_State x, st)" "snapshots_of st = [w]" "sample_stage st"
    by (rule sample_selected [OF stage, of 9 "lit ''a''"]) (auto simp: none)
  have "survey_step sample_survey_env (0, sample_survey_store) (2 * day_us, st)"
    by (rule survey_step.edit [OF run(1) [unfolded sample_ask_def]]) (simp_all add: sample_times_def day_us_def)
  then have h: "survey_history sample_survey_env (0, sample_survey_store) (2 * day_us, st)"
    by (rule survey_history.step [OF survey_history.start])
  have "deletion_of st 1 = None" using run(3) by (simp add: sample_stage_def deletion_of_def)
  then have "{p \<in> set (participations_of sample_survey_store). pa_survey_id p = 1 \<and> pa_status p = Completed} \<subseteq> set (participations_of st)"
    using survey_history_keeps [OF sample_store_ok h] by blast
  moreover have "pa_survey_id (sample_participation 3 5 7 ''ja'') = 1 \<and> pa_status (sample_participation 3 5 7 ''ja'') = Completed"
    by (simp add: sample_participation_def)
  ultimately have "sample_participation 3 5 7 ''ja'' \<in> set (participations_of st)" using none(4) by blast
  then show ?thesis using h run(2) by auto
qed

theorem settled_selections_agree_witness:
  "\<exists>st x y. survey_history sample_survey_env (0, sample_survey_store) (2 * day_us, st) \<and> snapshots_of st = [x, y]
     \<and> st_id x = 9 \<and> st_id y = 10 \<and> st_private y = st_private x"
proof -
  have stage: "sample_stage sample_survey_store"
    by (simp add: sample_stage_def bare_def sample_survey_store_def sample_survey_db_def)
  have none: "snapshots_of sample_survey_store = []" "ss_operations sample_survey_store = []"
    by (simp_all add: sample_survey_store_def sample_survey_db_def)
  obtain a x st where one: "sample_ask (lit ''a'') 9 sample_survey_store = Inr (Analysis_State a, st)" "snapshots_of st = [x]" "st_id x = 9"
    "st_survey_id x = 1" "sn_policy (st_payload x) = Settled" "sn_filter (st_payload x) = sample_day_filter" "sample_stage st"
    "\<forall>o' \<in> set (ss_operations st). so_operation_id o' = lit ''a''"
    by (rule sample_selected [OF stage, of 9 "lit ''a''"]) (auto simp: none)
  have other: "lit ''a'' \<noteq> lit ''b''" by code_simp
  have fresh: "10 \<notin> st_id ` set (snapshots_of st)" "\<forall>o' \<in> set (ss_operations st). so_operation_id o' \<noteq> lit ''b''"
    using one(2,3,8) other by auto
  obtain b y st' where two: "sample_ask (lit ''b'') 10 st = Inr (Analysis_State b, st')" "snapshots_of st' = [x, y]" "st_id y = 10"
    "st_survey_id y = 1" "sn_policy (st_payload y) = Settled" "sn_filter (st_payload y) = sample_day_filter"
    by (rule sample_selected [OF one(7) fresh]) (auto simp: one(2))
  have "survey_step sample_survey_env (0, sample_survey_store) (2 * day_us, st)"
    by (rule survey_step.edit [OF one(1) [unfolded sample_ask_def]]) (simp_all add: sample_times_def day_us_def)
  moreover have "survey_step sample_survey_env (2 * day_us, st) (2 * day_us, st')"
    by (rule survey_step.edit [OF two(1) [unfolded sample_ask_def]]) (simp_all add: sample_times_def)
  ultimately have h: "survey_history sample_survey_env (0, sample_survey_store) (2 * day_us, st')"
    using survey_history.start survey_history.step by metis
  have "midnight_first (en_zone sample_survey_env)" using midnight_first_fixed by (simp add: sample_survey_env_def)
  from settled_selections_agree [OF sample_store_ok none(1) this h, of x y] have "st_private y = st_private x"
    using one(4-6) two(2,4-6) by simp
  then show ?thesis using h two(2,3) one(3) by blast
qed

theorem aggregates_settled_witness:
  "\<exists>x st. sample_ask (lit ''a'') 9 sample_survey_store = Inr (Analysis_State x, st) \<and> sn_policy x = Settled"
proof -
  have stage: "sample_stage sample_survey_store"
    by (simp add: sample_stage_def bare_def sample_survey_store_def sample_survey_db_def)
  obtain x st where run: "sample_ask (lit ''a'') 9 sample_survey_store = Inr (Analysis_State x, st)"
    by (rule sample_selected [OF stage, of 9 "lit ''a''"]) (auto simp: sample_survey_store_def sample_survey_db_def)
  have s: "open_survey sample_survey_store 1 = Inr sample_survey_row"
    by (simp add: open_survey_def find_survey_def sample_survey_store_def) (simp add: sample_survey_row_def)
  have "\<not> raw_access (capabilities_of sample_survey_store sample_survey_row sample_viewer)"
    using stage by (simp add: sample_viewer_capabilities sample_stage_def raw_access_def)
  then have "sn_policy x = Settled"
    using aggregates_settled [OF sample_store_ok _ run [unfolded sample_ask_def] _ s] by (simp add: sample_times_def)
  then show ?thesis using run by blast
qed

end
