(* ===== verification/Spec2Isabelle.thy ===== *)
theory Spec2Isabelle
  imports Charity_Actions Identity_Access Action_Templates Delivery_Planning Order_Commitments
    Invoice_Issue Invoice_Settlement Invoice_Ledger One_Time_Access Delivery_Board Delivery_Schedule
    Shop_Tables Order_Cancellation Invoice_Numbering Order_Capture Iso_Time Order_Completion
    Survey_Disclosure Survey_Secrecy Survey_Answers Shop_History Survey_History
begin

text \<open>
  LeonAid (\<^verbatim>\<open>src/src/leonaid\<close>) runs the charity actions of a Lions club: orders for goods are captured,
  delivered by drivers in time windows, invoiced and paid; members sign in with one-time codes; surveys are
  published, answered and evaluated without telling who answered what.  The development models the rules of
  \<^verbatim>\<open>domain/\<close> and the transactions of \<^verbatim>\<open>adapters/postgres/\<close> and \<^verbatim>\<open>modules/tasks/\<close> with the services of
  \<^verbatim>\<open>application/\<close> that guard them, and the module \<^verbatim>\<open>modules/surveys/\<close>.

  \<^bold>\<open>Layers.\<close>  \<open>Core_Prelude\<close> holds errors as values (\<open>'a res = err + 'a\<close>, one constructor per exception class with
  the code of the message), \<open>then_res\<close> for sequencing and the collection \<open>res_simps\<close>.  \<open>Py_Unicode\<close>, \<open>Py_Lower\<close>, \<open>Py_Text\<close>,
  \<open>Py_Number\<close>, \<open>Py_Digest\<close>, \<open>Py_Json\<close>, \<open>Py_Value\<close>, \<open>Py_Numeric\<close> are the parts of Python's library the code uses: strings as code
  point lists with their tables for white space and case, Decimal as scaled integers, SHA-256 and HMAC, \<^verbatim>\<open>json.dumps\<close>, JSON
  values with their equality, floats as binary64 numbers with rounding.  \<open>Calendar_Time\<close> has dates, instants and time zones (the
  IANA data is the argument \<open>tz\<close>); \<open>Iso_Time\<close> and \<open>Iso_Roundtrip\<close> \<^verbatim>\<open>isoformat\<close> and \<^verbatim>\<open>fromisoformat\<close> on the
  texts the former writes.  \<open>Contracts\<close> holds the interfaces as locales: validated constructors, payload
  codecs, life cycles with phases, attempt counters, expiring credentials, the follow-up tracker.

  \<^bold>\<open>Domain.\<close>  \<open>Charity_Actions\<close> (\<^verbatim>\<open>domain/actions.py\<close>), \<open>Identity_Access\<close> (\<^verbatim>\<open>identity.py\<close>, \<^verbatim>\<open>policies.py\<close>,
  \<^verbatim>\<open>identifiers.py\<close>, \<^verbatim>\<open>platform.py\<close>), \<open>Action_Templates\<close>, \<open>Delivery_Planning\<close> (\<^verbatim>\<open>delivery.py\<close>),
  \<open>Order_Commitments\<close> (\<^verbatim>\<open>commitments.py\<close>), \<open>Invoice_Issue\<close> (\<^verbatim>\<open>invoices.py\<close>), \<open>Invoice_Settlement\<close>
  (\<^verbatim>\<open>invoice_settlements.py\<close> and its repository), \<open>One_Time_Access\<close> (\<^verbatim>\<open>invitations.py\<close>, \<^verbatim>\<open>sessions.py\<close>,
  \<^verbatim>\<open>email_changes.py\<close>).  A frozen dataclass is a record, its \<^verbatim>\<open>__post_init__\<close> a function \<open>x_init\<close> into \<open>res\<close>, the values it
  accepts the predicate \<open>wf_x\<close>; each is an interpretation of \<open>validated\<close>, each payload pair one of \<open>codec\<close>.

  \<^bold>\<open>Transactions of the shop.\<close>  A database is a record of tables, a transaction a function from it to a result with
  the new tables or to the error that rolls it back.  \<open>Invoice_Ledger\<close> runs payments, reversals, cancellations
  and mail confirmations as a step relation; \<open>Delivery_Follow_Up\<close> and \<open>Delivery_Board\<close> the delivery board with the
  follow-up tasks; \<open>Delivery_Schedule\<close> the delivery plan; \<open>Shop_Tables\<close> puts the tables together.  \<open>Order_Capture\<close>
  (orders and drafts with server-side prices), \<open>Order_Completion\<close>, \<open>Order_Cancellation\<close> and \<open>Invoice_Numbering\<close> work on all
  of them, and \<open>Shop_History\<close> makes every transaction of the shop a step of one relation, with the invariant that ties
  orders, deliveries, tasks, cancellations and invoices together.

  \<^bold>\<open>Surveys.\<close>  \<open>Survey_Definition\<close> is \<^verbatim>\<open>domain/validation.py\<close>: definitions, the grammar of conditions and the validation of
  answers; \<open>Survey_Conditions\<close> and \<open>Survey_Answers\<close> show that conditions are formulas, that their evaluation returns and that accepted
  answers are a fixed point.  \<open>Survey_Disclosure\<close> is \<^verbatim>\<open>application/disclosure.py\<close> and the aggregates of
  \<^verbatim>\<open>application/analysis.py\<close>; \<open>Survey_Cells\<close>, \<open>Survey_Release\<close> and \<open>Survey_Secrecy\<close> show what a release gives
  away and what it cannot.  \<open>Survey_Access\<close> has the life cycle and the capabilities; \<open>Survey_Selection\<close> the counting in batches and
  \<open>Survey_Snapshot\<close> the freezing of a selection (\<^verbatim>\<open>adapters/postgres/survey_analysis.py\<close>); \<open>Survey_Store\<close> the tables with replay
  of recorded operations, \<open>Survey_Participation\<close> what respondents, \<open>Survey_Requests\<close> and \<open>Survey_Authoring\<close> what authors and the
  sweeps do (\<^verbatim>\<open>surveys.py\<close>, \<^verbatim>\<open>survey_deletion.py\<close>, \<^verbatim>\<open>survey_retention.py\<close>).  \<open>Survey_Steps\<close> makes them steps of one
  relation; \<open>Survey_Edits\<close>, \<open>Survey_Evolution\<close> and \<open>Survey_History\<close> carry the invariant of the tables through every history:
  what was completed, published, recorded or frozen stays, and settled selections of one filter agree.

  \<^bold>\<open>Bounds.\<close>  The recursion of conditions is cut at \<open>call_limit\<close>, 500, which stands in for the frames the interpreter has left:
  for \<^verbatim>\<open>condition\<close> 43 are always enough (\<open>conditions_return\<close>), \<^verbatim>\<open>leaves\<close> has no guard of its own in the source.  Other recursion is
  structural or has a termination proof.

  \<^bold>\<open>Arguments.\<close>  The IANA data, the collation of the database, the services behind HTTP that count responses and validate answers, what PostgreSQL's
  \<^verbatim>\<open>jsonb\<close> gives back and the bytes it counts, the sealing of a mail, fresh identifiers (\<^verbatim>\<open>uuid4\<close>) and the clocks.  What is relied on is a
  named hypothesis: \<open>tz_consistent\<close> and \<open>midnight_first\<close> of a time zone, \<open>counts_each\<close> and \<open>extremes_each\<close> of the
  counting service; a property that needs a fresh identifier to be new says so.

  \<^bold>\<open>What is left out of a transaction.\<close>  Row locks, advisory locks and the retry of a serialization failure: every
  transaction is one atomic step, which is what those locks and the isolation level establish.  The column written by a trigger for
  retention is an argument of \<open>retire_survey\<close>.  Errors keep their code, not the path a message names, and
  where the code checks the members of a set the order is fixed.

  \<^bold>\<open>Not modelled.\<close>  Reading single responses and lists of surveys, exports and recovery checkpoints, listings of orders and invoices, the delivery
  of mail, HTTP routes and their schemas, storage, PDF and CRM adapters, the seed and contract
  tools, the migrations (their constraints are named where a transaction relies on them) and the web
  applications.  \<^verbatim>\<open>fromisoformat\<close> on texts \<^verbatim>\<open>isoformat\<close> does not write, the rewriting of numbers by \<^verbatim>\<open>jsonb\<close> in stored
  snapshots, and \<^verbatim>\<open>json.loads\<close> on nested brackets deeper than the interpreter allows are left out too.
\<close>

end
